(* ===== verification/Aret_Prelude.thy ===== *)
theory Aret_Prelude
  imports Main "HOL-Library.Word"
begin

text \<open>
  Shared vocabulary of the ARET runtime library.

  The C runtime (\<^verbatim>\<open>runtime/aret_hle\<close>) runs lifted 32-bit programs in one flat address
  space: a guest address is a host pointer, and every shim \<^verbatim>\<open>aret_X(esp)\<close> reads its
  arguments from the machine stack. This theory fixes the machine types, the guest memory
  with its little-endian loads and stores, C strings, the linear array scan that almost
  every table of the runtime uses, and the ASCII case folding of its comparisons.
  C \<^verbatim>\<open>int\<close> fields are modelled as \<open>int\<close>, \<^verbatim>\<open>uint32_t\<close> and friends as words.
\<close>

unbundle bit_operations_syntax

named_theorems mem_simps \<open>loads from updated guest memory\<close>
named_theorems scan_simps \<open>facts about the linear table scans\<close>
named_theorems tab_simps \<open>table updates of the kernel-object tables\<close>

section \<open>Machine types and the state every shim shares\<close>

type_synonym u8 = "8 word"
type_synonym u16 = "16 word"
type_synonym u32 = "32 word"
type_synonym u64 = "64 word"
type_synonym guest_mem = "u32 \<Rightarrow> u8"

text \<open>
  \<^verbatim>\<open>g_last_error\<close> is the \<^verbatim>\<open>GetLastError()\<close> slot of \<^verbatim>\<open>aret_hle.c\<close>; each component's
  record extends this one, so that the memory helpers work on all of them.
\<close>

record hle =
  mem :: guest_mem
  g_last_error :: u32

definition set_error :: "u32 \<Rightarrow> 'a hle_scheme \<Rightarrow> 'a hle_scheme" where
  "set_error e s = s\<lparr>g_last_error := e\<rparr>"

lemma set_error_simps [simp]:
  "mem (set_error e s) = mem s" "g_last_error (set_error e s) = e"
  "hle.more (set_error e s) = hle.more s"
  by (simp_all add: set_error_def)

text \<open>An operation that may leave an error code behind.\<close>

definition err_opt :: "u32 option \<Rightarrow> 'a hle_scheme \<Rightarrow> 'a hle_scheme" where
  "err_opt e s = (case e of None \<Rightarrow> s | Some v \<Rightarrow> set_error v s)"

section \<open>Guest memory\<close>

definition ld16 :: "guest_mem \<Rightarrow> u32 \<Rightarrow> u16" where
  "ld16 m a = ucast (m a) OR push_bit 8 (ucast (m (a + 1)))"

definition ld32 :: "guest_mem \<Rightarrow> u32 \<Rightarrow> u32" where
  "ld32 m a = ucast (m a) OR push_bit 8 (ucast (m (a + 1)))
     OR push_bit 16 (ucast (m (a + 2))) OR push_bit 24 (ucast (m (a + 3)))"

definition st16 :: "guest_mem \<Rightarrow> u32 \<Rightarrow> u16 \<Rightarrow> guest_mem" where
  "st16 m a v = m(a := ucast v, a + 1 := ucast (drop_bit 8 v))"

definition st32 :: "guest_mem \<Rightarrow> u32 \<Rightarrow> u32 \<Rightarrow> guest_mem" where
  "st32 m a v = m(a := ucast v, a + 1 := ucast (drop_bit 8 v),
     a + 2 := ucast (drop_bit 16 v), a + 3 := ucast (drop_bit 24 v))"

text \<open>\<^verbatim>\<open>memcpy\<close> out of and into guest memory, byte by byte.\<close>

fun ld_bytes :: "guest_mem \<Rightarrow> u32 \<Rightarrow> nat \<Rightarrow> u8 list" where
  "ld_bytes m a 0 = []"
| "ld_bytes m a (Suc n) = m a # ld_bytes m (a + 1) n"

fun st_bytes :: "guest_mem \<Rightarrow> u32 \<Rightarrow> u8 list \<Rightarrow> guest_mem" where
  "st_bytes m a [] = m"
| "st_bytes m a (b # bs) = st_bytes (m(a := b)) (a + 1) bs"

text \<open>
  A C string: the bytes up to the terminating NUL. A string that reaches the top of the
  address space ends there (the next read would leave the address space).
\<close>

function cstr :: "guest_mem \<Rightarrow> u32 \<Rightarrow> u8 list" where
  "cstr m p = (if m p = 0 then [] else if p = - 1 then [m p] else m p # cstr m (p + 1))"
  by pat_completeness auto
termination
proof (relation "measure (\<lambda>(m, p). 2 ^ 32 - unat p)")
  fix m :: guest_mem and p :: u32
  assume "p \<noteq> - 1"
  then have "1 + p \<noteq> 0" by (metis add.commute eq_neg_iff_add_eq_0)
  then have "unat (p + 1) = Suc (unat p)" by (metis unatSuc add.commute)
  moreover have "unat p < 2 ^ 32" using unsigned_less [of p, where 'a = nat] by simp
  ultimately show "((m, p + 1), (m, p)) \<in> measure (\<lambda>(m, p). 2 ^ 32 - unat p)"
    by simp
qed simp

declare cstr.simps [simp del]

text \<open>Wide strings (16-bit units, the Windows \<^verbatim>\<open>wchar_t\<close>).\<close>

function wstr :: "guest_mem \<Rightarrow> u32 \<Rightarrow> u16 list" where
  "wstr m p = (if ld16 m p = 0 then [] else if - 3 \<le> p then [ld16 m p]
     else ld16 m p # wstr m (p + 2))"
  by pat_completeness auto
termination
proof (relation "measure (\<lambda>(m, p). 2 ^ 32 - unat p)")
  fix m :: guest_mem and p :: u32
  assume "\<not> - 3 \<le> p"
  then have "unat p < 4294967293" by (simp add: word_le_nat_alt)
  then have "unat (p + 2) = unat p + 2" by (simp add: unat_word_ariths)
  then show "((m, p + 2), (m, p)) \<in> measure (\<lambda>(m, p). 2 ^ 32 - unat p)"
    using \<open>unat p < 4294967293\<close> by simp
qed simp

declare wstr.simps [simp del]

text \<open>Argument \<open>i\<close> of a shim (\<^verbatim>\<open>w32_arg\<close>, \<^verbatim>\<open>WU\<close>; \<^verbatim>\<open>WI\<close> reads it as a C \<^verbatim>\<open>int\<close>).\<close>

definition WU :: "u32 \<Rightarrow> nat \<Rightarrow> 'a hle_scheme \<Rightarrow> u32" where
  "WU esp i s = ld32 (mem s) (esp + 4 * of_nat i)"

definition WI :: "u32 \<Rightarrow> nat \<Rightarrow> 'a hle_scheme \<Rightarrow> int" where
  "WI esp i s = sint (WU esp i s)"

text \<open>\<^verbatim>\<open>if (p) *(uint32_t *)p = v;\<close>\<close>

definition put32 :: "u32 \<Rightarrow> u32 \<Rightarrow> 'a hle_scheme \<Rightarrow> 'a hle_scheme" where
  "put32 p v s = (if p = 0 then s else s\<lparr>mem := st32 (mem s) p v\<rparr>)"

lemma put32_frame [simp]:
  "g_last_error (put32 p v s) = g_last_error s" "hle.more (put32 p v s) = hle.more s"
  by (simp_all add: put32_def)

lemma ld32_st32_same [simp, mem_simps]: "ld32 (st32 m a v) a = v"
proof (rule bit_word_eqI)
  fix n assume "n < LENGTH(32)"
  then consider "n < 8" | "8 \<le> n" "n < 16" | "16 \<le> n" "n < 24" | "24 \<le> n" "n < 32"
    by fastforce
  then show "bit (ld32 (st32 m a v) a) n = bit v n"
    by cases (auto simp: ld32_def st32_def bit_simps)
qed

lemma ld16_st16_same [simp, mem_simps]: "ld16 (st16 m a v) a = v"
proof (rule bit_word_eqI)
  fix n assume "n < LENGTH(16)"
  then consider "n < 8" | "8 \<le> n" "n < 16" by fastforce
  then show "bit (ld16 (st16 m a v) a) n = bit v n"
    by cases (auto simp: ld16_def st16_def bit_simps)
qed

lemma st32_other:
  assumes "b \<notin> {a, a + 1, a + 2, a + 3}" shows "st32 m a v b = m b"
  using assms by (simp add: st32_def)

lemma st16_away: "x \<noteq> a \<Longrightarrow> x \<noteq> a + 1 \<Longrightarrow> st16 m a v x = m x"
  by (simp add: st16_def)

lemma ld16_agree: "m a = m' a \<Longrightarrow> m (a + 1) = m' (a + 1) \<Longrightarrow> ld16 m a = ld16 m' a"
  by (simp add: ld16_def)

lemma length_ld_bytes [simp]: "length (ld_bytes m a n) = n"
  by (induction n arbitrary: a) auto

lemma ld_bytes_nth: "i < n \<Longrightarrow> ld_bytes m a n ! i = m (a + of_nat i)"
  by (induction n arbitrary: a i) (auto simp: nth_Cons add.assoc split: nat.splits)

lemma st_bytes_other:
  "(\<And>i. i < length bs \<Longrightarrow> b \<noteq> a + of_nat i) \<Longrightarrow> st_bytes m a bs b = m b"
proof (induction bs arbitrary: m a)
  case (Cons x bs)
  have "b \<noteq> a" using Cons.prems [of 0] by simp
  moreover have "b \<noteq> (a + 1) + of_nat i" if "i < length bs" for i
    using Cons.prems [of "Suc i"] that by (simp add: add.assoc)
  ultimately show ?case using Cons.IH [of "a + 1" "m(a := x)"] by (simp del: fun_upd_apply) simp
qed simp

lemma ld_bytes_cong:
  "(\<And>i. i < n \<Longrightarrow> m (a + of_nat i) = m' (a + of_nat i)) \<Longrightarrow> ld_bytes m a n = ld_bytes m' a n"
proof (induction n arbitrary: a)
  case (Suc n)
  have "m a = m' a" using Suc.prems [of 0] by simp
  moreover have "m ((a + 1) + of_nat i) = m' ((a + 1) + of_nat i)" if "i < n" for i
    using Suc.prems [of "Suc i"] that by (simp add: add.assoc)
  ultimately show ?case using Suc.IH [of "a + 1"] by simp
qed simp

text \<open>What \<^verbatim>\<open>memcpy\<close> stored is what it reads back, up to the size of the address space.\<close>

lemma ld_bytes_st_bytes:
  "length bs \<le> 2 ^ 32 \<Longrightarrow> ld_bytes (st_bytes m a bs) a (length bs) = bs"
proof (induction bs arbitrary: m a)
  case (Cons x bs)
  have "a \<noteq> (a + 1) + of_nat i" if "i < length bs" for i
  proof
    assume "a = (a + 1) + of_nat i"
    then have "of_nat (Suc i) = (0 :: u32)" by (simp add: add.commute add.left_commute)
    then have "unat (of_nat (Suc i) :: u32) = 0" by simp
    then have "Suc i mod 2 ^ 32 = 0" by (simp only: unat_of_nat) simp
    moreover have "Suc i < 2 ^ 32" using that Cons.prems by simp
    ultimately show False by simp
  qed
  then have "st_bytes (m(a := x)) (a + 1) bs a = x"
    by (subst st_bytes_other) auto
  moreover have "ld_bytes (st_bytes (m(a := x)) (a + 1) bs) (a + 1) (length bs) = bs"
    using Cons by simp
  ultimately show ?case by simp
qed simp

lemma ld32_cong: "(\<And>k. k < 4 \<Longrightarrow> m (a + of_nat k) = m' (a + of_nat k)) \<Longrightarrow> ld32 m a = ld32 m' a"
proof -
  assume e: "\<And>k. k < 4 \<Longrightarrow> m (a + of_nat k) = m' (a + of_nat k)"
  show ?thesis using e [of 0] e [of 1] e [of 2] e [of 3] by (simp add: ld32_def)
qed

lemma st32_at: "(\<And>k. k < 4 \<Longrightarrow> x \<noteq> a + of_nat k) \<Longrightarrow> st32 m a v x = m x"
proof -
  assume e: "\<And>k. k < 4 \<Longrightarrow> x \<noteq> a + of_nat k"
  show ?thesis using e [of 0] e [of 1] e [of 2] e [of 3] by (simp add: st32_def)
qed

lemma offset_neq: "a < 2 ^ 32 \<Longrightarrow> b < 2 ^ 32 \<Longrightarrow> a \<noteq> b \<Longrightarrow> (p :: u32) + of_nat a \<noteq> p + of_nat b"
proof
  assume l: "a < 2 ^ 32" "b < 2 ^ 32" "a \<noteq> b" and "p + of_nat a = p + of_nat b"
  then have "unat (of_nat a :: u32) = unat (of_nat b :: u32)" by simp
  then show False using l by (simp add: unat_of_nat)
qed

text \<open>A call as the lifted code makes it: the arguments are pushed, the shim reads them back.\<close>

primrec push_args :: "u32 \<Rightarrow> u32 list \<Rightarrow> 'a hle_scheme \<Rightarrow> 'a hle_scheme" where
  "push_args esp [] s = s"
| "push_args esp (v # vs) s = push_args (esp + 4) vs (s\<lparr>mem := st32 (mem s) esp v\<rparr>)"

lemma push_args_frame [simp]: "hle.more (push_args esp vs s) = hle.more s" "g_last_error (push_args esp vs s) = g_last_error s"
  by (induction vs arbitrary: esp s) auto

lemma push_args_other:
  "(\<And>j. j < 4 * length vs \<Longrightarrow> x \<noteq> esp + of_nat j) \<Longrightarrow> mem (push_args esp vs s) x = mem s x"
proof (induction vs arbitrary: esp s)
  case (Cons v vs)
  have "x \<noteq> (esp + 4) + of_nat j" if "j < 4 * length vs" for j
    using Cons.prems [of "4 + j"] that by (simp add: add.assoc)
  moreover have "st32 (mem s) esp v x = mem s x"
    by (rule st32_at) (use Cons.prems in simp)
  ultimately show ?case using Cons.IH [of "esp + 4"] by simp
qed simp

lemma WU_push_args [simp]:
  "i < length vs \<Longrightarrow> 4 * length vs \<le> 2 ^ 32 \<Longrightarrow> WU esp i (push_args esp vs s) = vs ! i"
proof (induction vs arbitrary: esp s i)
  case (Cons v vs)
  let ?s = "s\<lparr>mem := st32 (mem s) esp v\<rparr>"
  show ?case
  proof (cases i)
    case 0
    have "mem (push_args (esp + 4) vs ?s) (esp + of_nat k) = mem ?s (esp + of_nat k)" if "k < 4" for k
    proof (rule push_args_other)
      fix j assume "j < 4 * length vs"
      then show "esp + of_nat k \<noteq> esp + 4 + of_nat j"
        using offset_neq [of k "4 + j" esp] that Cons.prems by (simp add: add.assoc)
    qed
    then have "ld32 (mem (push_args (esp + 4) vs ?s)) esp = ld32 (mem ?s) esp" by (rule ld32_cong)
    then show ?thesis using 0 by (simp add: WU_def)
  next
    case (Suc n)
    have "WU (esp + 4) n (push_args (esp + 4) vs ?s) = vs ! n" using Cons Suc by simp
    then show ?thesis using Suc by (simp add: WU_def add.assoc distrib_left)
  qed
qed simp

declare push_args.simps [simp del]

text \<open>Consecutive 32-bit stores.\<close>

primrec st_dwords :: "guest_mem \<Rightarrow> u32 \<Rightarrow> u32 list \<Rightarrow> guest_mem" where
  "st_dwords m a [] = m"
| "st_dwords m a (v # vs) = st_dwords (st32 m a v) (a + 4) vs"

definition ld_dwords :: "guest_mem \<Rightarrow> u32 \<Rightarrow> nat \<Rightarrow> u32 list" where
  "ld_dwords m a n = map (\<lambda>k. ld32 m (a + 4 * of_nat k)) [0..<n]"

lemma st_dwords_other:
  "(\<And>j. j < 4 * length vs \<Longrightarrow> x \<noteq> a + of_nat j) \<Longrightarrow> st_dwords m a vs x = m x"
proof (induction vs arbitrary: m a)
  case (Cons v vs)
  have "x \<noteq> (a + 4) + of_nat j" if "j < 4 * length vs" for j
    using Cons.prems [of "4 + j"] that by (simp add: add.assoc)
  moreover have "st32 m a v x = m x" by (rule st32_at) (use Cons.prems in simp)
  ultimately show ?case using Cons.IH [of "a + 4"] by simp
qed simp

lemma ld32_st_dwords:
  "k < length vs \<Longrightarrow> 4 * length vs \<le> 2 ^ 32 \<Longrightarrow> ld32 (st_dwords m a vs) (a + 4 * of_nat k) = vs ! k"
proof (induction vs arbitrary: m a k)
  case (Cons v vs)
  show ?case
  proof (cases k)
    case 0
    have "st_dwords (st32 m a v) (a + 4) vs (a + of_nat i) = st32 m a v (a + of_nat i)" if "i < 4" for i
    proof (rule st_dwords_other)
      fix j assume "j < 4 * length vs"
      then show "a + of_nat i \<noteq> a + 4 + of_nat j"
        using offset_neq [of i "4 + j" a] that Cons.prems by (simp add: add.assoc)
    qed
    then have "ld32 (st_dwords (st32 m a v) (a + 4) vs) a = ld32 (st32 m a v) a" by (rule ld32_cong)
    then show ?thesis using 0 by simp
  next
    case (Suc n)
    then show ?thesis using Cons.IH [of n "st32 m a v" "a + 4"] Cons.prems by (simp add: add.assoc distrib_left)
  qed
qed simp

lemma ld_dwords_st_dwords [simp]:
  "4 * length vs \<le> 2 ^ 32 \<Longrightarrow> n = length vs \<Longrightarrow> ld_dwords (st_dwords m a vs) a n = vs"
  by (intro nth_equalityI) (simp_all add: ld_dwords_def ld32_st_dwords)

text \<open>
  The value a C \<^verbatim>\<open>int\<close> has after an addition or subtraction whose exact result is \<open>x\<close>:
  32-bit two's complement, as the runtime is compiled.
\<close>

definition c_int :: "int \<Rightarrow> int" where
  "c_int x = sint (word_of_int x :: u32)"

lemma c_int_id: "- (2 ^ 31) \<le> x \<Longrightarrow> x < 2 ^ 31 \<Longrightarrow> c_int x = x"
  by (simp add: c_int_def signed_of_int signed_take_bit_int_eq_self)

section \<open>Linear scans\<close>

text \<open>\<^verbatim>\<open>for (int i = lo; i < hi; i++) if (P i) return i; return -1;\<close>\<close>

function first_idx :: "(nat \<Rightarrow> bool) \<Rightarrow> nat \<Rightarrow> nat \<Rightarrow> nat option" where
  "first_idx P lo hi = (if lo < hi then if P lo then Some lo else first_idx P (Suc lo) hi else None)"
  by pat_completeness auto
termination
  by (relation "measure (\<lambda>(P, lo, hi). hi - lo)") auto

declare first_idx.simps [simp del]

lemma first_idx_step:
  "lo < hi \<Longrightarrow> first_idx P lo hi = (if P lo then Some lo else first_idx P (Suc lo) hi)"
  "\<not> lo < hi \<Longrightarrow> first_idx P lo hi = None"
  by (simp_all add: first_idx.simps [of P lo hi])

lemma first_idx_SomeD:
  "first_idx P lo hi = Some i \<Longrightarrow> lo \<le> i \<and> i < hi \<and> P i \<and> (\<forall>j. lo \<le> j \<and> j < i \<longrightarrow> \<not> P j)"
proof (induction P lo hi rule: first_idx.induct)
  case (1 P lo hi)
  have "lo < hi" using "1.prems" by (metis first_idx_step(2) option.distinct(1))
  show ?case
  proof (cases "P lo")
    case True
    with "1.prems" \<open>lo < hi\<close> have "i = lo" by (simp add: first_idx_step)
    with True \<open>lo < hi\<close> show ?thesis by auto
  next
    case False
    with "1.prems" \<open>lo < hi\<close> have "first_idx P (Suc lo) hi = Some i"
      by (simp add: first_idx_step)
    with "1.IH" \<open>lo < hi\<close> False have ih: "Suc lo \<le> i \<and> i < hi \<and> P i" "\<forall>j. Suc lo \<le> j \<and> j < i \<longrightarrow> \<not> P j"
      by auto
    have "\<not> P j" if "lo \<le> j" "j < i" for j
      using that ih(2) False by (cases "j = lo") auto
    with ih(1) show ?thesis by auto
  qed
qed

lemma first_idx_None_iff [scan_simps]:
  "first_idx P lo hi = None \<longleftrightarrow> (\<forall>i. lo \<le> i \<and> i < hi \<longrightarrow> \<not> P i)"
proof (induction P lo hi rule: first_idx.induct)
  case (1 P lo hi)
  show ?case
  proof (cases "lo < hi")
    case True
    then have "(\<forall>i. lo \<le> i \<and> i < hi \<longrightarrow> \<not> P i) \<longleftrightarrow>
        \<not> P lo \<and> (\<forall>i. Suc lo \<le> i \<and> i < hi \<longrightarrow> \<not> P i)"
      by (metis Suc_leD Suc_le_eq le_neq_implies_less order_refl)
    then show ?thesis using 1 True by (simp add: first_idx_step)
  qed (auto simp: first_idx_step)
qed

lemma first_idx_Some_iff [scan_simps]:
  "first_idx P lo hi = Some i \<longleftrightarrow>
     lo \<le> i \<and> i < hi \<and> P i \<and> (\<forall>j. lo \<le> j \<and> j < i \<longrightarrow> \<not> P j)"
proof
  assume r: "lo \<le> i \<and> i < hi \<and> P i \<and> (\<forall>j. lo \<le> j \<and> j < i \<longrightarrow> \<not> P j)"
  then obtain k where k: "first_idx P lo hi = Some k"
    by (cases "first_idx P lo hi") (auto simp: first_idx_None_iff)
  from first_idx_SomeD [OF k] r have "\<not> k < i" "\<not> i < k" by auto
  then have "k = i" by simp
  with k show "first_idx P lo hi = Some i" by simp
qed (rule first_idx_SomeD)

lemma first_idx_unique:
  assumes "P i" "lo \<le> i" "i < hi" and "\<And>j. lo \<le> j \<Longrightarrow> j < hi \<Longrightarrow> P j \<Longrightarrow> j = i"
  shows "first_idx P lo hi = Some i"
  unfolding first_idx_Some_iff
proof (intro conjI allI impI)
  fix j assume "lo \<le> j \<and> j < i"
  with assms(3) assms(4) [of j] show "\<not> P j" by auto
qed (rule assms)+

lemma first_idx_cong:
  "(\<And>i. lo \<le> i \<Longrightarrow> i < hi \<Longrightarrow> P i = Q i) \<Longrightarrow> first_idx P lo hi = first_idx Q lo hi"
proof (induction P lo hi rule: first_idx.induct)
  case (1 P lo hi)
  show ?case
  proof (cases "lo < hi")
    case True
    have "P lo = Q lo" using "1.prems" True by simp
    moreover have "first_idx P (Suc lo) hi = first_idx Q (Suc lo) hi" if "\<not> P lo"
      using "1.IH" [OF True that] "1.prems" by simp
    ultimately show ?thesis using True by (simp add: first_idx_step)
  qed (simp add: first_idx_step)
qed

section \<open>Stores into arrays\<close>

text \<open>
  A store into a C array that the model keeps as a list. A store past the end is not lost: it makes
  the list longer, so that an array keeps its length exactly when every store to it is in bounds.
\<close>

definition arr_set :: "'a list \<Rightarrow> nat \<Rightarrow> 'a \<Rightarrow> 'a list" where
  "arr_set xs i v = (if i < length xs then xs[i := v] else xs @ [v])"

lemma arr_set_in [simp]: "i < length xs \<Longrightarrow> arr_set xs i v = xs[i := v]"
  by (simp add: arr_set_def)

lemma arr_set_length: "length (arr_set xs i v) = length xs \<longleftrightarrow> i < length xs"
  by (simp add: arr_set_def)

section \<open>Tagged handles\<close>

text \<open>
  Kernel objects are named by handles \<^verbatim>\<open>BASE | index\<close>: the top byte is the kind, the rest the
  slot in a table whose entries may be dead. The interface every such handle space shares:
\<close>

lemma low24_eq: "(0x00FFFFFF :: u32) = mask 24" and high8_eq: "(0xFF000000 :: u32) = NOT (mask 24)"
  by (simp_all add: mask_eq_exp_minus_1)

lemma small_bits: "i < 2 ^ 24 \<Longrightarrow> take_bit 24 (of_nat i :: u32) = of_nat i"
  by (simp add: take_bit_eq_mod unat_of_nat word_unat_eq_iff unat_mod)

locale handle_space =
  fixes base :: u32
    and live :: "'e \<Rightarrow> bool"
    and idx :: "'e list \<Rightarrow> u32 \<Rightarrow> nat option"
  assumes base_tag: "base AND 0x00FFFFFF = 0"
    and idx_eq: "idx T h = (if h AND 0xFF000000 \<noteq> base then None
      else let i = unat (h AND 0x00FFFFFF) in if i < length T \<and> live (T ! i) then Some i else None)"
begin

lemma handle_tag: "i < 2 ^ 24 \<Longrightarrow> (base OR of_nat i) AND 0xFF000000 = base"
  and handle_low: "i < 2 ^ 24 \<Longrightarrow> unat ((base OR of_nat i) AND 0x00FFFFFF) = i"
proof -
  assume i: "i < 2 ^ 24"
  have b: "take_bit 24 base = 0" using base_tag by (simp add: low24_eq take_bit_eq_mask)
  have "(base OR of_nat i) AND NOT (mask 24) = base"
  proof (rule bit_word_eqI)
    fix n assume n: "n < LENGTH(32)"
    have "\<not> bit (of_nat i :: u32) n" if "\<not> n < 24"
      using small_bits [OF i] that by (metis bit_take_bit_iff)
    moreover have "\<not> bit base n" if "n < 24"
      using b that by (metis bit_take_bit_iff bit_0_eq bot_apply bot_bool_def)
    ultimately show "bit ((base OR of_nat i) AND NOT (mask 24)) n = bit base n"
      using n by (auto simp: bit_simps)
  qed
  then show "(base OR of_nat i) AND 0xFF000000 = base" by (simp add: high8_eq)
  have "(base OR of_nat i) AND mask 24 = take_bit 24 base OR take_bit 24 (of_nat i)"
    by (rule bit_word_eqI) (auto simp: bit_simps)
  then have "(base OR of_nat i) AND 0x00FFFFFF = of_nat i"
    by (simp add: low24_eq b small_bits [OF i])
  then show "unat ((base OR of_nat i) AND 0x00FFFFFF) = i"
    using i by (simp add: unat_of_nat)
qed

lemma idx_handle:
  "i < length T \<Longrightarrow> i < 2 ^ 24 \<Longrightarrow> live (T ! i) \<Longrightarrow> idx T (base OR of_nat i) = Some i"
  by (simp add: idx_eq handle_tag handle_low)

lemma idxD: "idx T h = Some i \<Longrightarrow> i < length T \<and> live (T ! i) \<and> h = base OR of_nat i"
proof -
  assume a: "idx T h = Some i"
  then have i: "i = unat (h AND mask 24)" and b: "h AND NOT (mask 24) = base"
      and l: "i < length T" "live (T ! i)"
    by (auto simp: idx_eq Let_def low24_eq high8_eq split: if_splits)
  have "h = (h AND NOT (mask 24)) OR (h AND mask 24)"
    by (rule bit_word_eqI) (auto simp: bit_simps)
  then have "h = base OR of_nat i" using i b by simp
  with l show ?thesis by simp
qed

lemma idx_same: "length T' = length T \<Longrightarrow> (\<And>i. i < length T \<Longrightarrow> live (T' ! i) = live (T ! i)) \<Longrightarrow> idx T' h = idx T h"
  by (auto simp: idx_eq Let_def)

lemma idx_grow: "idx T h = Some i \<Longrightarrow> idx (T @ ys) h = Some i"
  by (auto simp: idx_eq Let_def nth_append split: if_splits)

lemma idx_foreign: "idx T h = Some i \<Longrightarrow> h AND 0xFF000000 = base"
  by (auto simp: idx_eq split: if_splits)

end

section \<open>ASCII case folding\<close>

definition ascii_lower :: "'a::len word \<Rightarrow> 'a word" where
  "ascii_lower c = (if 0x41 \<le> c \<and> c \<le> 0x5A then c + 32 else c)"

definition ascii_upper :: "'a::len word \<Rightarrow> 'a word" where
  "ascii_upper c = (if 0x61 \<le> c \<and> c \<le> 0x7A then c - 32 else c)"

text \<open>\<^verbatim>\<open>!strcasecmp(a, b)\<close> of the C locale, on the contents of the two strings.\<close>

definition strcaseeq :: "u8 list \<Rightarrow> u8 list \<Rightarrow> bool" where
  "strcaseeq a b \<longleftrightarrow> map ascii_lower a = map ascii_lower b"

lemma strcaseeq_refl [simp]: "strcaseeq a a"
  by (simp add: strcaseeq_def)

lemma strcaseeq_sym: "strcaseeq a b \<Longrightarrow> strcaseeq b a"
  by (simp add: strcaseeq_def)

lemma strcaseeq_trans: "strcaseeq a b \<Longrightarrow> strcaseeq b c \<Longrightarrow> strcaseeq a c"
  by (simp add: strcaseeq_def)

text \<open>The content of a C string: no NUL inside.\<close>

abbreviation c_content :: "'a::len word list \<Rightarrow> bool" where
  "c_content xs \<equiv> 0 \<notin> set xs"

text \<open>The character a C loop reads at the head of the remaining string.\<close>

definition chd :: "'a::len word list \<Rightarrow> 'a word" where
  "chd xs = (case xs of [] \<Rightarrow> 0 | x # _ \<Rightarrow> x)"

lemma chd_simps [simp]: "chd [] = 0" "chd (x # xs) = x"
  by (simp_all add: chd_def)

lemma cstr_content [simp]: "c_content (cstr m p)"
proof (induction m p rule: cstr.induct)
  case (1 m p)
  then show ?case by (subst cstr.simps) auto
qed

text \<open>\<^verbatim>\<open>u32_w2n\<close>: a wide string narrowed into a buffer of \<open>cap\<close> bytes.\<close>

definition u32_w2n :: "u16 list \<Rightarrow> nat \<Rightarrow> u8 list" where
  "u32_w2n s cap = takeWhile (\<lambda>b. b \<noteq> 0) (map (\<lambda>c. ucast (c AND 0xFF)) (take (cap - 1) s))"

text \<open>A string argument, NULL reading as the empty string.\<close>

definition narrow_at :: "guest_mem \<Rightarrow> u32 \<Rightarrow> u8 list" where
  "narrow_at m p = (if p = 0 then [] else cstr m p)"

definition w2n_at :: "guest_mem \<Rightarrow> u32 \<Rightarrow> nat \<Rightarrow> u8 list" where
  "w2n_at m p cap = (if p = 0 then [] else u32_w2n (wstr m p) cap)"

section \<open>Repeating a partial operation\<close>

primrec iter_opt :: "('t \<Rightarrow> 't option) \<Rightarrow> nat \<Rightarrow> 't \<Rightarrow> 't option" where
  "iter_opt f 0 t = Some t"
| "iter_opt f (Suc k) t = (case f t of None \<Rightarrow> None | Some t' \<Rightarrow> iter_opt f k t')"

lemma iter_opt_Suc_last:
  "iter_opt f (Suc k) t = (case iter_opt f k t of None \<Rightarrow> None | Some t' \<Rightarrow> f t')"
proof (induction k arbitrary: t)
  case (Suc k)
  have "iter_opt f (Suc (Suc k)) t = (case f t of None \<Rightarrow> None
      | Some t' \<Rightarrow> case iter_opt f k t' of None \<Rightarrow> None | Some u \<Rightarrow> f u)"
    by (subst iter_opt.simps, cases "f t") (simp_all only: option.case Suc.IH)
  then show ?case by (simp split: option.splits)
qed (simp split: option.splits)

text \<open>Threading a state through a list of requests, collecting the answers.\<close>

fun run_reqs :: "('t \<Rightarrow> 'n \<Rightarrow> ('a \<times> 't) option) \<Rightarrow> 't \<Rightarrow> 'n list \<Rightarrow> ('a list \<times> 't) option" where
  "run_reqs f t [] = Some ([], t)"
| "run_reqs f t (n # ns) = (case f t n of None \<Rightarrow> None
     | Some (a, t') \<Rightarrow> map_option (\<lambda>(as, u). (a # as, u)) (run_reqs f t' ns))"

end
