(* ===== verification/Aret_Atoms.thy ===== *)
theory Aret_Atoms
  imports Aret_Prelude
begin

text \<open>
  The atom tables of \<^verbatim>\<open>runtime/aret_hle/aret_win32.c\<close> (lines 12423--12547): two process-wide
  tables (local and global) that intern names, case-insensitively and with a reference
  count. The table functions are translated over the contents of the name; the shims
  decode their arguments from the machine stack. Proved here: the table invariant, that a
  name once added is found again under any spelling of its case, that counting adds
  against deletes frees an atom exactly at zero, and the name read-back.
\<close>

section \<open>Data\<close>

definition U32_ATOM_BASE :: u32 where "U32_ATOM_BASE = 0xC000"
definition U32_ATOM_MAX :: nat where "U32_ATOM_MAX = 1024"

record u32_atom =
  at_name :: "u8 list"
  at_refs :: u32

type_synonym atom_table = "nat \<Rightarrow> u32_atom"

record atoms = hle +
  g_atom_local :: atom_table
  g_atom_global :: atom_table

text \<open>An atom argument: an integer atom (a pointer below \<open>0x10000\<close>) or a string.\<close>

datatype atom_arg = IntAtom u32 | StrAtom "u8 list"

definition u32_atom_is_int :: "u32 \<Rightarrow> bool" where
  "u32_atom_is_int p \<longleftrightarrow> p < 0x10000"

definition atom_arg_a :: "guest_mem \<Rightarrow> u32 \<Rightarrow> atom_arg" where
  "atom_arg_a m p = (if u32_atom_is_int p then IntAtom p else StrAtom (cstr m p))"

definition atom_arg_w :: "guest_mem \<Rightarrow> u32 \<Rightarrow> atom_arg" where
  "atom_arg_w m p = (if u32_atom_is_int p then IntAtom p else StrAtom (u32_w2n (wstr m p) 256))"

section \<open>Table operations\<close>

function u32_atom_ieq :: "u8 list \<Rightarrow> u8 list \<Rightarrow> bool" where
  "u32_atom_ieq a b =
     (let ca = ascii_lower (chd a); cb = ascii_lower (chd b)
      in if ca \<noteq> cb then False else if ca = 0 then True
         else u32_atom_ieq (tl a) (tl b))"
  by pat_completeness auto
termination
proof (relation "measure (\<lambda>(a, b). length a)")
  fix a b :: "u8 list" and ca cb :: u8
  assume "ca = ascii_lower (chd a)" "ca \<noteq> 0"
  then have "a \<noteq> []" by (auto simp: ascii_lower_def)
  then show "((tl a, tl b), (a, b)) \<in> measure (\<lambda>(a, b). length a)" by simp
qed simp

declare u32_atom_ieq.simps [simp del]

text \<open>
  Each table operation returns its result, the table, and the value it stores in
  \<^verbatim>\<open>g_last_error\<close> (\<open>None\<close>: the slot is left alone).
\<close>

definition u32_atom_slot :: "atom_table \<Rightarrow> u8 list \<Rightarrow> nat option" where
  "u32_atom_slot t n =
     first_idx (\<lambda>i. at_refs (t i) \<noteq> 0 \<and> u32_atom_ieq (at_name (t i)) n) 0 U32_ATOM_MAX"

definition u32_atom_free :: "atom_table \<Rightarrow> nat option" where
  "u32_atom_free t = first_idx (\<lambda>i. at_refs (t i) = 0) 0 U32_ATOM_MAX"

fun u32_atom_add :: "atom_table \<Rightarrow> atom_arg \<Rightarrow> u32 \<times> atom_table \<times> u32 option" where
  "u32_atom_add t (IntAtom p) =
     (let v = p AND 0xFFFF in if v = 0 then (0, t, Some 87) else (v, t, None))"
| "u32_atom_add t (StrAtom n) =
     (if n = [] then (0, t, Some 87)
      else case u32_atom_slot t n of
        Some i \<Rightarrow> (U32_ATOM_BASE + of_nat i, t(i := (t i)\<lparr>at_refs := at_refs (t i) + 1\<rparr>), None)
      | None \<Rightarrow> (case u32_atom_free t of
          Some i \<Rightarrow> (U32_ATOM_BASE + of_nat i, t(i := \<lparr>at_name = take 255 n, at_refs = 1\<rparr>), None)
        | None \<Rightarrow> (0, t, Some 8)))"

fun u32_atom_find :: "atom_table \<Rightarrow> atom_arg \<Rightarrow> u32 \<times> u32 option" where
  "u32_atom_find t (IntAtom p) = (p AND 0xFFFF, None)"
| "u32_atom_find t (StrAtom n) =
     (if n \<noteq> [] then case u32_atom_slot t n of
         Some i \<Rightarrow> (U32_ATOM_BASE + of_nat i, None)
       | None \<Rightarrow> (0, Some 2)
      else (0, Some 2))"

definition u32_atom_del :: "atom_table \<Rightarrow> u32 \<Rightarrow> u32 \<times> atom_table \<times> u32 option" where
  "u32_atom_del t atom =
     (if atom < U32_ATOM_BASE then (0, t, None)
      else let i = unat (atom - U32_ATOM_BASE)
       in if U32_ATOM_MAX \<le> i \<or> at_refs (t i) = 0 then (atom, t, Some 6)
          else if at_refs (t i) - 1 = 0
          then (0, t(i := (t i)\<lparr>at_refs := 0, at_name := []\<rparr>), None)
          else (0, t(i := (t i)\<lparr>at_refs := at_refs (t i) - 1\<rparr>), None))"

text \<open>\<^verbatim>\<open>snprintf(out, 256, "#%u", atom)\<close>.\<close>

fun dec_digits :: "nat \<Rightarrow> u8 list" where
  "dec_digits n = (if n < 10 then [0x30 + of_nat n] else dec_digits (n div 10) @ [0x30 + of_nat (n mod 10)])"

declare dec_digits.simps [simp del]

definition u32_atom_name_of :: "atom_table \<Rightarrow> u32 \<Rightarrow> u8 list \<times> u32 option" where
  "u32_atom_name_of t atom =
     (if 1 \<le> atom \<and> atom < U32_ATOM_BASE then (0x23 # dec_digits (unat atom), None)
      else let i = unat (atom - U32_ATOM_BASE)
       in if atom < U32_ATOM_BASE \<or> U32_ATOM_MAX \<le> i \<or> at_refs (t i) = 0 then ([], Some 6)
          else (at_name (t i), None))"

text \<open>
  \<^verbatim>\<open>u32_atom_name_a\<close> copies the name into the caller's buffer: result, the bytes it stores
  at \<open>buf\<close> (nothing for \<open>[]\<close>) and the last-error write. The wide variant stores the
  same characters as 16-bit units.
\<close>

definition atom_name_core ::
  "atom_table \<Rightarrow> u32 \<Rightarrow> u32 \<Rightarrow> u32 \<Rightarrow> bool \<Rightarrow> u32 \<times> u8 list \<times> u32 option" where
  "atom_name_core t atom buf cch glob =
     (let (tmp, e) = u32_atom_name_of t atom; n = length tmp in
      if n = 0 then (0, (if buf \<noteq> 0 \<and> cch \<noteq> 0 then [0] else []), e)
      else if buf = 0 \<or> cch = 0 then (0, [], e)
      else if of_nat n \<le> cch - 1 then (of_nat n, tmp @ [0], e)
      else let k = unat (cch - 1)
        in ((if glob then 0 else of_nat k), take k tmp @ [0], Some 234))"

fun st_words :: "guest_mem \<Rightarrow> u32 \<Rightarrow> u16 list \<Rightarrow> guest_mem" where
  "st_words m a [] = m"
| "st_words m a (w # ws) = st_words (st16 m a w) (a + 2) ws"

section \<open>The shims\<close>

definition with_global :: "u32 \<times> atom_table \<times> u32 option \<Rightarrow> atoms \<Rightarrow> u32 \<times> atoms" where
  "with_global r s = (case r of (v, t, e) \<Rightarrow> (v, err_opt e (s\<lparr>g_atom_global := t\<rparr>)))"

definition with_local :: "u32 \<times> atom_table \<times> u32 option \<Rightarrow> atoms \<Rightarrow> u32 \<times> atoms" where
  "with_local r s = (case r of (v, t, e) \<Rightarrow> (v, err_opt e (s\<lparr>g_atom_local := t\<rparr>)))"

definition aret_GlobalAddAtomA :: "u32 \<Rightarrow> atoms \<Rightarrow> u32 \<times> atoms" where
  "aret_GlobalAddAtomA esp s = with_global (u32_atom_add (g_atom_global s) (atom_arg_a (mem s) (WU esp 0 s))) s"
definition aret_AddAtomA :: "u32 \<Rightarrow> atoms \<Rightarrow> u32 \<times> atoms" where
  "aret_AddAtomA esp s = with_local (u32_atom_add (g_atom_local s) (atom_arg_a (mem s) (WU esp 0 s))) s"
definition aret_GlobalAddAtomW :: "u32 \<Rightarrow> atoms \<Rightarrow> u32 \<times> atoms" where
  "aret_GlobalAddAtomW esp s = with_global (u32_atom_add (g_atom_global s) (atom_arg_w (mem s) (WU esp 0 s))) s"
definition aret_AddAtomW :: "u32 \<Rightarrow> atoms \<Rightarrow> u32 \<times> atoms" where
  "aret_AddAtomW esp s = with_local (u32_atom_add (g_atom_local s) (atom_arg_w (mem s) (WU esp 0 s))) s"

definition aret_GlobalFindAtomA :: "u32 \<Rightarrow> atoms \<Rightarrow> u32 \<times> atoms" where
  "aret_GlobalFindAtomA esp s =
     (let (v, e) = u32_atom_find (g_atom_global s) (atom_arg_a (mem s) (WU esp 0 s)) in (v, err_opt e s))"
definition aret_FindAtomA :: "u32 \<Rightarrow> atoms \<Rightarrow> u32 \<times> atoms" where
  "aret_FindAtomA esp s =
     (let (v, e) = u32_atom_find (g_atom_local s) (atom_arg_a (mem s) (WU esp 0 s)) in (v, err_opt e s))"
definition aret_GlobalFindAtomW :: "u32 \<Rightarrow> atoms \<Rightarrow> u32 \<times> atoms" where
  "aret_GlobalFindAtomW esp s =
     (let (v, e) = u32_atom_find (g_atom_global s) (atom_arg_w (mem s) (WU esp 0 s)) in (v, err_opt e s))"
definition aret_FindAtomW :: "u32 \<Rightarrow> atoms \<Rightarrow> u32 \<times> atoms" where
  "aret_FindAtomW esp s =
     (let (v, e) = u32_atom_find (g_atom_local s) (atom_arg_w (mem s) (WU esp 0 s)) in (v, err_opt e s))"

definition aret_GlobalDeleteAtom :: "u32 \<Rightarrow> atoms \<Rightarrow> u32 \<times> atoms" where
  "aret_GlobalDeleteAtom esp s = with_global (u32_atom_del (g_atom_global s) (WU esp 0 s)) s"
definition aret_DeleteAtom :: "u32 \<Rightarrow> atoms \<Rightarrow> u32 \<times> atoms" where
  "aret_DeleteAtom esp s = with_local (u32_atom_del (g_atom_local s) (WU esp 0 s)) s"

definition u32_atom_name_a :: "atom_table \<Rightarrow> u32 \<Rightarrow> u32 \<Rightarrow> u32 \<Rightarrow> bool \<Rightarrow> atoms \<Rightarrow> u32 \<times> atoms" where
  "u32_atom_name_a t atom buf cch glob s =
     (let (r, bs, e) = atom_name_core t atom buf cch glob
      in (r, err_opt e (s\<lparr>mem := st_bytes (mem s) buf bs\<rparr>)))"

definition u32_atom_name_w :: "atom_table \<Rightarrow> u32 \<Rightarrow> u32 \<Rightarrow> u32 \<Rightarrow> bool \<Rightarrow> atoms \<Rightarrow> u32 \<times> atoms" where
  "u32_atom_name_w t atom buf cch glob s =
     (let (r, bs, e) = atom_name_core t atom buf cch glob
      in (r, err_opt e (s\<lparr>mem := st_words (mem s) buf (map ucast bs)\<rparr>)))"

definition aret_GlobalGetAtomNameA :: "u32 \<Rightarrow> atoms \<Rightarrow> u32 \<times> atoms" where
  "aret_GlobalGetAtomNameA esp s = u32_atom_name_a (g_atom_global s) (WU esp 0 s) (WU esp 1 s) (WU esp 2 s) True s"
definition aret_GetAtomNameA :: "u32 \<Rightarrow> atoms \<Rightarrow> u32 \<times> atoms" where
  "aret_GetAtomNameA esp s = u32_atom_name_a (g_atom_local s) (WU esp 0 s) (WU esp 1 s) (WU esp 2 s) False s"
definition aret_GlobalGetAtomNameW :: "u32 \<Rightarrow> atoms \<Rightarrow> u32 \<times> atoms" where
  "aret_GlobalGetAtomNameW esp s = u32_atom_name_w (g_atom_global s) (WU esp 0 s) (WU esp 1 s) (WU esp 2 s) True s"
definition aret_GetAtomNameW :: "u32 \<Rightarrow> atoms \<Rightarrow> u32 \<times> atoms" where
  "aret_GetAtomNameW esp s = u32_atom_name_w (g_atom_local s) (WU esp 0 s) (WU esp 1 s) (WU esp 2 s) False s"

section \<open>Comparison is equality up to ASCII case\<close>

lemma ascii_lower_0_iff [simp]: "ascii_lower c = 0 \<longleftrightarrow> c = (0 :: u8)"
proof -
  have "c + 32 \<noteq> 0" if "0x41 \<le> c" "c \<le> 0x5A"
  proof
    assume "c + 32 = 0"
    then have "c = - 32" by (simp add: eq_neg_iff_add_eq_0)
    with that show False by simp
  qed
  then show ?thesis by (auto simp: ascii_lower_def)
qed

lemma u32_atom_ieq_Nil:
  "u32_atom_ieq [] b \<longleftrightarrow> chd b = 0" "u32_atom_ieq a [] \<longleftrightarrow> chd a = 0"
proof -
  have l0: "ascii_lower (0 :: u8) = 0" by simp
  show "u32_atom_ieq [] b \<longleftrightarrow> chd b = 0"
    by (subst u32_atom_ieq.simps) (simp only: Let_def chd_simps l0, metis ascii_lower_0_iff)
  show "u32_atom_ieq a [] \<longleftrightarrow> chd a = 0"
    by (subst u32_atom_ieq.simps) (simp only: Let_def chd_simps l0, metis ascii_lower_0_iff)
qed

lemma u32_atom_ieq_iff:
  "c_content a \<Longrightarrow> c_content b \<Longrightarrow> u32_atom_ieq a b \<longleftrightarrow> strcaseeq a b"
proof (induction a b rule: u32_atom_ieq.induct)
  case (1 a b)
  show ?case
  proof (cases a; cases b)
    fix x xs y ys assume ab: "a = x # xs" "b = y # ys"
    with "1.prems" have "x \<noteq> 0" "y \<noteq> 0" by auto
    have "u32_atom_ieq xs ys \<longleftrightarrow> strcaseeq xs ys" if "ascii_lower x = ascii_lower y"
      using "1.IH" [OF refl refl] ab that \<open>x \<noteq> 0\<close> "1.prems" by simp
    with ab \<open>x \<noteq> 0\<close> \<open>y \<noteq> 0\<close> show ?thesis
      by (subst u32_atom_ieq.simps) (auto simp: strcaseeq_def Let_def)
  qed (use "1.prems" in \<open>auto simp: u32_atom_ieq_Nil strcaseeq_def\<close>)
qed

section \<open>The table invariant\<close>

definition atom_live :: "atom_table \<Rightarrow> nat \<Rightarrow> bool" where
  "atom_live t i \<longleftrightarrow> i < U32_ATOM_MAX \<and> at_refs (t i) \<noteq> 0"

definition atom_wf :: "atom_table \<Rightarrow> bool" where
  "atom_wf t \<longleftrightarrow>
     (\<forall>i. atom_live t i \<longrightarrow> at_name (t i) \<noteq> [] \<and> c_content (at_name (t i)) \<and> length (at_name (t i)) \<le> 255) \<and>
     (\<forall>i j. atom_live t i \<and> atom_live t j \<and> strcaseeq (at_name (t i)) (at_name (t j)) \<longrightarrow> i = j)"

text \<open>The names the runtime's contract is about: non-empty C strings that fit the 255-byte slot.\<close>

definition atom_nameok :: "u8 list \<Rightarrow> bool" where
  "atom_nameok n \<longleftrightarrow> n \<noteq> [] \<and> c_content n \<and> length n \<le> 255"

lemma slot_SomeD:
  assumes "atom_wf t" "atom_nameok n" "u32_atom_slot t n = Some i"
  shows "atom_live t i" "strcaseeq (at_name (t i)) n"
  using assms by (auto simp: u32_atom_slot_def first_idx_Some_iff atom_live_def atom_wf_def
      atom_nameok_def u32_atom_ieq_iff)

lemma slot_eqI:
  assumes wf: "atom_wf t" and "atom_nameok n" and i: "atom_live t i" "strcaseeq (at_name (t i)) n"
  shows "u32_atom_slot t n = Some i"
  unfolding u32_atom_slot_def
proof (rule first_idx_unique)
  have eq: "u32_atom_ieq (at_name (t j)) n \<longleftrightarrow> strcaseeq (at_name (t j)) n" if "atom_live t j" for j
    using wf assms(2) that by (auto simp: atom_wf_def atom_nameok_def u32_atom_ieq_iff)
  show "at_refs (t i) \<noteq> 0 \<and> u32_atom_ieq (at_name (t i)) n"
    using i eq [OF i(1)] by (simp add: atom_live_def)
  show "i < U32_ATOM_MAX" using i by (simp add: atom_live_def)
  fix j assume j: "j < U32_ATOM_MAX" "at_refs (t j) \<noteq> 0 \<and> u32_atom_ieq (at_name (t j)) n"
  then have "atom_live t j" by (simp add: atom_live_def)
  with j eq have "strcaseeq (at_name (t j)) n" by blast
  with i(2) have "strcaseeq (at_name (t j)) (at_name (t i))"
    by (blast intro: strcaseeq_sym strcaseeq_trans)
  with \<open>atom_live t j\<close> i(1) wf show "j = i" by (auto simp: atom_wf_def)
qed simp

lemma slot_NoneD:
  assumes "atom_wf t" "atom_nameok n" "u32_atom_slot t n = None" "atom_live t i"
  shows "\<not> strcaseeq (at_name (t i)) n"
  using slot_eqI [OF assms(1,2,4)] assms(3) by auto

lemma free_SomeD: "u32_atom_free t = Some i \<Longrightarrow> i < U32_ATOM_MAX \<and> \<not> atom_live t i"
  by (auto simp: u32_atom_free_def first_idx_Some_iff atom_live_def)

lemma atom_wf_bump:
  "atom_wf t \<Longrightarrow> atom_live t i \<Longrightarrow> atom_wf (t(i := (t i)\<lparr>at_refs := r\<rparr>))"
  unfolding atom_wf_def atom_live_def by (auto split: if_splits)

lemma atom_wf_insert:
  assumes wf: "atom_wf t" and n: "atom_nameok n" and "u32_atom_slot t n = None" "u32_atom_free t = Some i"
  shows "atom_wf (t(i := \<lparr>at_name = n, at_refs = 1\<rparr>))"
proof -
  have fresh: "\<not> strcaseeq (at_name (t j)) n" if "atom_live t j" for j
    using slot_NoneD [OF wf n assms(3) that] .
  have i: "i < U32_ATOM_MAX" "\<not> atom_live t i" using free_SomeD [OF assms(4)] by auto
  have live: "atom_live (t(i := \<lparr>at_name = n, at_refs = 1\<rparr>)) j \<longleftrightarrow> j = i \<or> atom_live t j" for j
    using i by (auto simp: atom_live_def)
  show ?thesis
    unfolding atom_wf_def live
  proof (intro conjI allI impI)
    fix j k
    assume jk: "(j = i \<or> atom_live t j) \<and> (k = i \<or> atom_live t k) \<and>
      strcaseeq (at_name ((t(i := \<lparr>at_name = n, at_refs = 1\<rparr>)) j)) (at_name ((t(i := \<lparr>at_name = n, at_refs = 1\<rparr>)) k))"
    show "j = k"
      using jk fresh wf i(2) by (cases "j = i"; cases "k = i") (auto simp: atom_wf_def dest: strcaseeq_sym)
  qed (use wf n i(2) in \<open>auto simp: atom_wf_def atom_nameok_def\<close>)
qed

lemma atom_wf_del: "atom_wf t \<Longrightarrow> atom_wf (fst (snd (u32_atom_del t a)))"
  unfolding atom_wf_def atom_live_def u32_atom_del_def
  by (auto simp: Let_def split: if_splits)

section \<open>The interface: reference-counted names\<close>

text \<open>
  What a client of an atom table relies on: \<open>add\<close> answers the atom of a name and counts
  the request, \<open>find\<close> sees a name while its count is positive, \<open>del\<close> takes one count
  back. \<open>cap\<close> bounds the counter (a 32-bit word in the runtime).
\<close>

locale refcounted_names =
  fixes add :: "'t \<Rightarrow> 'n \<Rightarrow> ('a \<times> 't) option"
    and find :: "'t \<Rightarrow> 'n \<Rightarrow> 'a option"
    and del :: "'t \<Rightarrow> 'a \<Rightarrow> 't option"
    and count :: "'t \<Rightarrow> 'a \<Rightarrow> nat"
    and inv :: "'t \<Rightarrow> bool"
    and valid :: "'n \<Rightarrow> bool"
    and same :: "'n \<Rightarrow> 'n \<Rightarrow> bool"
    and cap :: nat
  assumes add_found: "inv t \<Longrightarrow> valid n \<Longrightarrow> find t n = Some a \<Longrightarrow> count t a < cap \<Longrightarrow>
      \<exists>t'. add t n = Some (a, t') \<and> inv t' \<and> find t' n = Some a \<and> count t' = (count t)(a := Suc (count t a))"
    and add_fresh: "inv t \<Longrightarrow> valid n \<Longrightarrow> find t n = None \<Longrightarrow> add t n = Some (a, t') \<Longrightarrow>
      inv t' \<and> find t' n = Some a \<and> count t a = 0 \<and> count t' a = 1"
    and find_same: "inv t \<Longrightarrow> valid n \<Longrightarrow> valid m \<Longrightarrow> same n m \<Longrightarrow> find t m = find t n"
    and del_keeps: "inv t \<Longrightarrow> valid n \<Longrightarrow> find t n = Some a \<Longrightarrow> 1 < count t a \<Longrightarrow>
      \<exists>t'. del t a = Some t' \<and> inv t' \<and> find t' n = Some a \<and> count t' a = count t a - 1"
    and del_last: "inv t \<Longrightarrow> valid n \<Longrightarrow> find t n = Some a \<Longrightarrow> count t a = 1 \<Longrightarrow>
      \<exists>t'. del t a = Some t' \<and> inv t' \<and> find t' n = None"
begin

lemma adds_same:
  assumes "inv t" "valid n" "find t n = Some a" "count t a + length ms \<le> cap"
    and "\<And>m. m \<in> set ms \<Longrightarrow> valid m \<and> same n m"
  shows "\<exists>t'. run_reqs add t ms = Some (replicate (length ms) a, t') \<and> inv t' \<and> find t' n = Some a \<and>
    count t' a = count t a + length ms"
  using assms
proof (induction ms arbitrary: t)
  case (Cons m ms)
  have m: "valid m" "find t m = Some a"
    using Cons.prems find_same [of t n m] by auto
  obtain t1 where t1: "add t m = Some (a, t1)" "inv t1" "find t1 m = Some a"
      "count t1 = (count t)(a := Suc (count t a))"
    using add_found [OF Cons.prems(1) m] Cons.prems(4) by auto
  have "find t1 n = Some a"
    using find_same [OF t1(2) Cons.prems(2) m(1)] t1(3) Cons.prems(5) by simp
  with Cons.IH [OF t1(2) Cons.prems(2)] t1(4) Cons.prems(4,5)
  obtain t2 where "run_reqs add t1 ms = Some (replicate (length ms) a, t2)" "inv t2"
      "find t2 n = Some a" "count t2 a = Suc (count t a) + length ms"
    by auto
  with t1(1) show ?case by simp
qed simp

lemma dels_keep:
  assumes "inv t" "valid n" "find t n = Some a" "k < count t a"
  shows "\<exists>t'. iter_opt (\<lambda>t. del t a) k t = Some t' \<and> inv t' \<and> find t' n = Some a \<and>
    count t' a = count t a - k"
  using assms
proof (induction k arbitrary: t)
  case (Suc k)
  obtain t1 where "del t a = Some t1" "inv t1" "find t1 n = Some a" "count t1 a = count t a - 1"
    using del_keeps [OF Suc.prems(1-3)] Suc.prems(4) by auto
  with Suc.IH [of t1] Suc.prems show ?case by auto
qed simp

lemma dels_free:
  assumes "inv t" "valid n" "find t n = Some a" "0 < count t a"
  shows "\<exists>t'. iter_opt (\<lambda>t. del t a) (count t a) t = Some t' \<and> find t' n = None"
proof -
  obtain k where k: "count t a = Suc k" using assms(4) by (cases "count t a") auto
  obtain t1 where t1: "iter_opt (\<lambda>t. del t a) k t = Some t1" "inv t1" "find t1 n = Some a" "count t1 a = 1"
    using dels_keep [OF assms(1-3), of k] k by auto
  obtain t2 where "del t1 a = Some t2" "find t2 n = None"
    using del_last [OF t1(2) assms(2) t1(3,4)] by auto
  with t1(1) k show ?thesis by (simp only: iter_opt_Suc_last) simp
qed

lemma lifecycle:
  assumes "inv t" "valid n" "find t n = None" "add t n = Some (a, t1)"
    and "\<And>m. m \<in> set ms \<Longrightarrow> valid m \<and> same n m" "Suc (length ms) \<le> cap"
  shows "\<exists>u. run_reqs add t1 ms = Some (replicate (length ms) a, u) \<and>
    (\<forall>k \<le> length ms. \<exists>v. iter_opt (\<lambda>t. del t a) k u = Some v \<and> find v n = Some a) \<and>
    (\<exists>v. iter_opt (\<lambda>t. del t a) (Suc (length ms)) u = Some v \<and> find v n = None)"
proof -
  have t1: "inv t1" "find t1 n = Some a" "count t1 a = 1"
    using add_fresh [OF assms(1-4)] by auto
  obtain u where u: "run_reqs add t1 ms = Some (replicate (length ms) a, u)" "inv u" "find u n = Some a"
      "count u a = Suc (length ms)"
    using adds_same [OF t1(1) assms(2) t1(2), of ms] t1(3) assms(5,6) by auto
  show ?thesis
    using u dels_keep [OF u(2) assms(2) u(3)] dels_free [OF u(2) assms(2) u(3)]
    by (metis le_imp_less_Suc zero_less_Suc)
qed

end

section \<open>The tables implement the interface\<close>

definition atom_intern :: "atom_table \<Rightarrow> u8 list \<Rightarrow> (u32 \<times> atom_table) option" where
  "atom_intern t n = (case u32_atom_add t (StrAtom n) of (v, t', e) \<Rightarrow> if v = 0 then None else Some (v, t'))"

definition atom_lookup :: "atom_table \<Rightarrow> u8 list \<Rightarrow> u32 option" where
  "atom_lookup t n = (case u32_atom_find t (StrAtom n) of (v, e) \<Rightarrow> if v = 0 then None else Some v)"

definition atom_release :: "atom_table \<Rightarrow> u32 \<Rightarrow> atom_table option" where
  "atom_release t a = (case u32_atom_del t a of (v, t', e) \<Rightarrow> if v = 0 then Some t' else None)"

definition atom_count :: "atom_table \<Rightarrow> u32 \<Rightarrow> nat" where
  "atom_count t a = (if U32_ATOM_BASE \<le> a \<and> unat (a - U32_ATOM_BASE) < U32_ATOM_MAX
     then unat (at_refs (t (unat (a - U32_ATOM_BASE)))) else 0)"

abbreviation atom_of :: "nat \<Rightarrow> u32" where
  "atom_of i \<equiv> U32_ATOM_BASE + of_nat i"

lemma atom_of_facts [simp]:
  assumes "i < U32_ATOM_MAX"
  shows "unat (of_nat i :: u32) = i" "U32_ATOM_BASE \<le> atom_of i" "atom_of i \<noteq> 0"
    "\<not> atom_of i < U32_ATOM_BASE"
proof -
  show i: "unat (of_nat i :: u32) = i" using assms by (simp add: U32_ATOM_MAX_def unat_of_nat)
  have u: "unat (atom_of i) = 0xC000 + i"
    using assms i by (simp add: U32_ATOM_BASE_def U32_ATOM_MAX_def unat_word_ariths)
  then show "U32_ATOM_BASE \<le> atom_of i" by (simp add: word_le_nat_alt U32_ATOM_BASE_def)
  then show "\<not> atom_of i < U32_ATOM_BASE" by simp
  from u show "atom_of i \<noteq> 0" by (metis add_is_0 unat_0 zero_neq_numeral)
qed

lemma atom_lookup_slot:
  assumes "atom_wf t" "atom_nameok n"
  shows "atom_lookup t n = map_option atom_of (u32_atom_slot t n)"
  using assms slot_SomeD(1) [OF assms]
  by (auto simp: atom_lookup_def atom_nameok_def atom_live_def split: option.splits)

lemma slot_bump:
  assumes wf: "atom_wf t" and n: "atom_nameok n" and i: "u32_atom_slot t n = Some i" and r: "r \<noteq> 0"
  shows "u32_atom_slot (t(i := (t i)\<lparr>at_refs := r\<rparr>)) n = Some i"
proof (rule slot_eqI [OF atom_wf_bump [OF wf slot_SomeD(1) [OF wf n i]] n])
  show "atom_live (t(i := t i\<lparr>at_refs := r\<rparr>)) i"
    using slot_SomeD(1) [OF wf n i] r by (simp add: atom_live_def)
qed (use slot_SomeD(2) [OF wf n i] in simp)

lemma slot_same:
  assumes "atom_wf t" "atom_nameok n" "atom_nameok m" "strcaseeq n m"
  shows "u32_atom_slot t m = u32_atom_slot t n"
proof (cases "u32_atom_slot t n")
  case (Some i)
  then have "u32_atom_slot t m = Some i"
    using slot_SomeD [OF assms(1,2) Some] assms by (blast intro: slot_eqI strcaseeq_trans)
  with Some show ?thesis by simp
next
  case None
  show ?thesis
  proof (cases "u32_atom_slot t m")
    case (Some i)
    from slot_SomeD [OF assms(1,3) Some] slot_NoneD [OF assms(1,2) None, of i] assms(4)
    show ?thesis by (blast intro: strcaseeq_sym strcaseeq_trans)
  qed (simp add: None)
qed

lemma slot_release:
  assumes wf: "atom_wf t" and n: "atom_nameok n" and i: "u32_atom_slot t n = Some i"
  shows "u32_atom_slot (t(i := (t i)\<lparr>at_refs := 0, at_name := []\<rparr>)) n = None"
proof (rule ccontr)
  let ?t = "t(i := (t i)\<lparr>at_refs := 0, at_name := []\<rparr>)"
  assume "u32_atom_slot ?t n \<noteq> None"
  then obtain j where j: "u32_atom_slot ?t n = Some j" by auto
  have "atom_live ?t k \<longleftrightarrow> k \<noteq> i \<and> atom_live t k" for k by (auto simp: atom_live_def)
  then have "atom_wf ?t" using wf unfolding atom_wf_def by auto
  from slot_SomeD [OF this n j] have "j \<noteq> i" "atom_live t j" "strcaseeq (at_name (t j)) n"
    by (auto simp: atom_live_def split: if_splits)
  with slot_eqI [OF wf n, of j] i show False by simp
qed

lemma slot_insert:
  assumes wf: "atom_wf t" and n: "atom_nameok n" and "u32_atom_slot t n = None" "u32_atom_free t = Some i"
  shows "u32_atom_slot (t(i := \<lparr>at_name = n, at_refs = 1\<rparr>)) n = Some i"
  using free_SomeD [OF assms(4)]
  by (intro slot_eqI [OF atom_wf_insert [OF assms] n]) (auto simp: atom_live_def)

lemma atom_release_at:
  assumes "atom_live t i"
  shows "atom_release t (atom_of i) = Some (if at_refs (t i) = 1
     then t(i := (t i)\<lparr>at_refs := 0, at_name := []\<rparr>)
     else t(i := (t i)\<lparr>at_refs := at_refs (t i) - 1\<rparr>))"
  using assms by (auto simp: atom_release_def u32_atom_del_def atom_live_def Let_def)

lemma atom_count_at: "i < U32_ATOM_MAX \<Longrightarrow> atom_count t (atom_of i) = unat (at_refs (t i))"
  by (simp add: atom_count_def)

interpretation atom_names: refcounted_names atom_intern atom_lookup atom_release atom_count
  atom_wf atom_nameok strcaseeq "2 ^ 32 - 1"
proof unfold_locales
  fix t n a
  assume wf: "atom_wf t" and n: "atom_nameok n" and f: "atom_lookup t n = Some a"
  then obtain i where i: "u32_atom_slot t n = Some i" and a: "a = atom_of i"
    by (auto simp: atom_lookup_slot)
  have live: "atom_live t i" and max: "i < U32_ATOM_MAX"
    using slot_SomeD(1) [OF wf n i] by (auto simp: atom_live_def)
  {
    assume c: "atom_count t a < 2 ^ 32 - 1"
    have r: "at_refs (t i) + 1 \<noteq> 0"
    proof
      assume "at_refs (t i) + 1 = 0"
      then have "at_refs (t i) = - 1" by (simp add: eq_neg_iff_add_eq_0)
      then have "at_refs (t i) = 0xFFFFFFFF" by simp
      with c a max show False by (simp add: atom_count_at)
    qed
    let ?t = "t(i := (t i)\<lparr>at_refs := at_refs (t i) + 1\<rparr>)"
    have "atom_intern t n = Some (a, ?t)"
      using n i a max by (simp add: atom_intern_def atom_nameok_def)
    moreover have "atom_wf ?t" by (rule atom_wf_bump [OF wf live])
    moreover from this have "atom_lookup ?t n = Some a"
      by (simp add: atom_lookup_slot n slot_bump [OF wf n i r] a)
    moreover have "atom_count ?t = (atom_count t)(a := Suc (atom_count t a))"
    proof
      fix b
      show "atom_count ?t b = ((atom_count t)(a := Suc (atom_count t a))) b"
      proof (cases "b = a")
        case True
        have "unat (1 + at_refs (t i)) = Suc (unat (at_refs (t i)))"
          by (rule unatSuc) (use r in \<open>simp add: add.commute\<close>)
        with True a max show ?thesis by (simp add: atom_count_at add.commute)
      next
        case False
        then have "unat (b - U32_ATOM_BASE) \<noteq> i" using a by auto
        with False show ?thesis by (auto simp: atom_count_def)
      qed
    qed
    ultimately show "\<exists>t'. atom_intern t n = Some (a, t') \<and> atom_wf t' \<and> atom_lookup t' n = Some a \<and>
        atom_count t' = (atom_count t)(a := Suc (atom_count t a))" by blast
  next
    assume c: "1 < atom_count t a"
    let ?t = "t(i := (t i)\<lparr>at_refs := at_refs (t i) - 1\<rparr>)"
    have r: "at_refs (t i) \<noteq> 1" "at_refs (t i) \<noteq> 0" using c a max by (auto simp: atom_count_at)
    have "atom_release t a = Some ?t" using r a by (simp add: atom_release_at [OF live])
    moreover have "atom_wf ?t" by (rule atom_wf_bump [OF wf live])
    moreover from this have "atom_lookup ?t n = Some a"
      using r by (simp add: atom_lookup_slot n slot_bump [OF wf n i] a)
    moreover have "atom_count ?t a = atom_count t a - 1"
      using r a max by (simp add: atom_count_at unat_minus_one)
    ultimately show "\<exists>t'. atom_release t a = Some t' \<and> atom_wf t' \<and> atom_lookup t' n = Some a \<and>
        atom_count t' a = atom_count t a - 1" by blast
  next
    assume c: "atom_count t a = 1"
    let ?t = "t(i := (t i)\<lparr>at_refs := 0, at_name := []\<rparr>)"
    have "at_refs (t i) = 1" using c a max by (simp add: atom_count_at word_unat_eq_iff)
    then have "atom_release t a = Some ?t" using a by (simp add: atom_release_at [OF live])
    moreover have "atom_wf ?t"
      using wf unfolding atom_wf_def atom_live_def by (auto split: if_splits)
    moreover from this have "atom_lookup ?t n = None"
      by (simp add: atom_lookup_slot n slot_release [OF wf n i])
    ultimately show "\<exists>t'. atom_release t a = Some t' \<and> atom_wf t' \<and> atom_lookup t' n = None" by blast
  }
next
  fix t n a t'
  assume wf: "atom_wf t" and n: "atom_nameok n" and f: "atom_lookup t n = None"
    and add: "atom_intern t n = Some (a, t')"
  have none: "u32_atom_slot t n = None" using f by (simp add: atom_lookup_slot wf n)
  with add n obtain i where i: "u32_atom_free t = Some i" and a: "a = atom_of i"
      and t': "t' = t(i := \<lparr>at_name = n, at_refs = 1\<rparr>)"
    by (auto simp: atom_intern_def atom_nameok_def split: option.splits if_splits)
  have max: "i < U32_ATOM_MAX" "at_refs (t i) = 0"
    using free_SomeD [OF i] by (auto simp: atom_live_def)
  have "atom_wf t'" unfolding t' by (rule atom_wf_insert [OF wf n none i])
  moreover from this have "atom_lookup t' n = Some a"
    by (simp add: atom_lookup_slot n t' slot_insert [OF wf n none i] a)
  ultimately show "atom_wf t' \<and> atom_lookup t' n = Some a \<and> atom_count t a = 0 \<and> atom_count t' a = 1"
    using max by (simp add: a t' atom_count_at)
next
  fix t n m
  assume "atom_wf t" "atom_nameok n" "atom_nameok m" "strcaseeq n m"
  then show "atom_lookup t m = atom_lookup t n"
    by (simp add: atom_lookup_slot slot_same [of t n m])
qed

section \<open>Properties\<close>

lemma atom_wf_empty [simp]: "atom_wf (\<lambda>_. \<lparr>at_name = [], at_refs = 0\<rparr>)"
  by (simp add: atom_wf_def atom_live_def)

text \<open>The table invariant (live names are non-empty C strings of at most 255 bytes, pairwise
  different up to ASCII case) is kept by every add of a name that fits a slot and by every delete.\<close>

theorem atom_table_invariant:
  assumes "atom_wf t" and "\<And>n. x = StrAtom n \<Longrightarrow> atom_nameok n \<or> n = []"
  shows "atom_wf (fst (snd (u32_atom_add t x))) \<and> atom_wf (fst (snd (u32_atom_del t a)))"
proof
  show "atom_wf (fst (snd (u32_atom_del t a)))" by (rule atom_wf_del [OF assms(1)])
  show "atom_wf (fst (snd (u32_atom_add t x)))"
  proof (cases x)
    case (StrAtom n)
    then consider "n = []" | "atom_nameok n" using assms(2) by blast
    then show ?thesis
    proof cases
      case 2
      then have "take 255 n = n" by (simp add: atom_nameok_def)
      with 2 StrAtom assms(1) show ?thesis
        by (auto simp: atom_nameok_def split: option.splits
            intro!: atom_wf_bump slot_SomeD(1) atom_wf_insert)
    qed (use StrAtom assms(1) in simp)
  qed (use assms(1) in \<open>simp add: Let_def\<close>)
qed

theorem atom_table_invariant_witness:
  "atom_wf (fst (snd (u32_atom_add (\<lambda>_. \<lparr>at_name = [], at_refs = 0\<rparr>) (StrAtom [0x61])))) \<and>
   atom_wf (fst (snd (u32_atom_del (\<lambda>_. \<lparr>at_name = [], at_refs = 0\<rparr>) 0xC000)))"
  by (rule atom_table_invariant) (auto simp: atom_nameok_def)

text \<open>The life cycle of a name. Once a fresh name has been added, every further add of the name in
  any spelling of its ASCII case answers the same atom; after as many deletes as there were further adds
  the name is still found, and after one delete more it is gone.\<close>

theorem atom_lifecycle:
  assumes "atom_wf t" "atom_nameok n" "atom_lookup t n = None" "atom_intern t n = Some (a, t1)"
    and "\<forall>m \<in> set ms. atom_nameok m \<and> strcaseeq n m" "length ms < 2 ^ 32 - 1"
  shows "\<exists>u. run_reqs atom_intern t1 ms = Some (replicate (length ms) a, u) \<and>
    (\<forall>k \<le> length ms. \<exists>v. iter_opt (\<lambda>t. atom_release t a) k u = Some v \<and> atom_lookup v n = Some a) \<and>
    (\<exists>v. iter_opt (\<lambda>t. atom_release t a) (Suc (length ms)) u = Some v \<and> atom_lookup v n = None)"
  by (rule atom_names.lifecycle [OF assms(1-4)]) (use assms(5,6) in auto)

theorem atom_lifecycle_witness:
  "\<exists>a t1 u. atom_intern (\<lambda>_. \<lparr>at_name = [], at_refs = 0\<rparr>) [0x61, 0x42] = Some (a, t1) \<and>
    run_reqs atom_intern t1 [[0x41, 0x62]] = Some ([a], u) \<and>
    (\<exists>v. iter_opt (\<lambda>t. atom_release t a) 2 u = Some v \<and> atom_lookup v [0x61, 0x42] = None)"
proof -
  let ?t = "\<lambda>_ :: nat. \<lparr>at_name = [] :: u8 list, at_refs = 0 :: u32\<rparr>"
  have none: "u32_atom_slot ?t [0x61, 0x42] = None"
    by (simp add: u32_atom_slot_def first_idx_None_iff)
  have free: "u32_atom_free ?t = Some 0"
    by (simp add: u32_atom_free_def first_idx_Some_iff U32_ATOM_MAX_def)
  have add: "atom_intern ?t [0x61, 0x42] = Some (0xC000, ?t(0 := \<lparr>at_name = [0x61, 0x42], at_refs = 1\<rparr>))"
    by (simp add: atom_intern_def none free U32_ATOM_BASE_def)
  have ok: "atom_nameok [0x61, 0x42]" "atom_nameok [0x41, 0x62]" "strcaseeq [0x61, 0x42] [0x41, 0x62]"
    by (simp_all add: atom_nameok_def strcaseeq_def ascii_lower_def)
  have "atom_lookup ?t [0x61, 0x42] = None" by (simp add: atom_lookup_slot ok none)
  from atom_lifecycle [where ms = "[[0x41, 0x62]]", OF atom_wf_empty ok(1) this add] ok
  obtain u v where u: "run_reqs atom_intern (?t(0 := \<lparr>at_name = [0x61, 0x42], at_refs = 1\<rparr>)) [[0x41, 0x62]]
        = Some (replicate (length [[0x41, 0x62 :: u8]]) 0xC000, u)"
      and v: "iter_opt (\<lambda>t. atom_release t 0xC000) (Suc (length [[0x41, 0x62 :: u8]])) u = Some v"
        "atom_lookup v [0x61, 0x42] = None"
    by (auto simp del: run_reqs.simps iter_opt.simps length_Cons)
  have "iter_opt (\<lambda>t. atom_release t 0xC000) 2 u = Some v"
    using v(1) by (simp only: numeral_2_eq_2 list.size add_0 add_Suc plus_1_eq_Suc)
  moreover have "run_reqs atom_intern (?t(0 := \<lparr>at_name = [0x61, 0x42], at_refs = 1\<rparr>)) [[0x41, 0x62]]
      = Some ([0xC000], u)"
    using u by (simp only: list.size add_0 add_Suc replicate_Suc replicate_0 One_nat_def plus_1_eq_Suc)
  ultimately show ?thesis using add v(2) by blast
qed

text \<open>Reading a name back. The atom that an add of a fresh name answers names exactly the bytes that
  were added: with a buffer of more than \<open>length n\<close> characters the read answers the length and stores
  the name and its terminator, in the local as in the global table.\<close>

theorem atom_name_roundtrip:
  assumes "atom_wf t" "atom_nameok n" "atom_lookup t n = None" "atom_intern t n = Some (a, t1)"
    and "buf \<noteq> 0" "length n < unat cch"
  shows "atom_name_core t1 a buf cch glob = (of_nat (length n), n @ [0], None)"
proof -
  from assms obtain i where i: "u32_atom_free t = Some i" and a: "a = atom_of i"
      and t1: "t1 = t(i := \<lparr>at_name = n, at_refs = 1\<rparr>)"
    by (auto simp: atom_intern_def atom_lookup_slot atom_nameok_def split: option.splits if_splits)
  have max: "i < U32_ATOM_MAX" using free_SomeD [OF i] by simp
  have nm: "u32_atom_name_of t1 a = (n, None)"
    using max by (simp add: u32_atom_name_of_def a t1 Let_def)
  have "cch \<noteq> 0" using assms(6) by auto
  moreover have "of_nat (length n) \<le> cch - 1"
    using assms(2,6) \<open>cch \<noteq> 0\<close>
    by (simp add: word_le_nat_alt unat_minus_one unat_of_nat atom_nameok_def)
  ultimately show ?thesis
    using assms(2,5) by (simp add: atom_name_core_def nm atom_nameok_def)
qed

theorem atom_name_roundtrip_witness:
  "atom_name_core ((\<lambda>_. \<lparr>at_name = [], at_refs = 0\<rparr>)(0 := \<lparr>at_name = [0x61], at_refs = 1\<rparr>))
     0xC000 0x5000 8 True = (1, [0x61, 0], None)"
proof -
  let ?t = "\<lambda>_ :: nat. \<lparr>at_name = [] :: u8 list, at_refs = 0 :: u32\<rparr>"
  have none: "u32_atom_slot ?t [0x61] = None"
    by (simp add: u32_atom_slot_def first_idx_None_iff)
  have free: "u32_atom_free ?t = Some 0"
    by (simp add: u32_atom_free_def first_idx_Some_iff U32_ATOM_MAX_def)
  have add: "atom_intern ?t [0x61] = Some (0xC000, ?t(0 := \<lparr>at_name = [0x61], at_refs = 1\<rparr>))"
    by (simp add: atom_intern_def none free U32_ATOM_BASE_def)
  show ?thesis
    using atom_name_roundtrip [where buf = "0x5000" and cch = "8" and glob = True, OF _ _ _ add] none
    by (simp add: atom_nameok_def atom_lookup_slot)
qed

text \<open>Long names: a name that does not fit a slot is never interned: in a fresh table two adds of the same name
  of more than 255 bytes answer two different atoms, although the table's contract counts the second add
  on the first atom.\<close>

theorem atom_long_name_not_interned:
  assumes "c_content n" "255 < length n"
  shows "\<exists>t1 t2. u32_atom_add (\<lambda>_. \<lparr>at_name = [], at_refs = 0\<rparr>) (StrAtom n) = (0xC000, t1, None) \<and>
    u32_atom_add t1 (StrAtom n) = (0xC001, t2, None)"
proof -
  let ?t = "\<lambda>_ :: nat. \<lparr>at_name = [] :: u8 list, at_refs = 0 :: u32\<rparr>"
  let ?t1 = "?t(0 := \<lparr>at_name = take 255 n, at_refs = 1\<rparr>)"
  have "\<not> u32_atom_ieq (take 255 n) n"
  proof
    assume "u32_atom_ieq (take 255 n) n"
    then have "strcaseeq (take 255 n) n"
      using assms(1) by (subst u32_atom_ieq_iff [symmetric]) (auto dest: in_set_takeD)
    then have "length (take 255 n) = length n" by (metis length_map strcaseeq_def)
    with assms(2) show False by simp
  qed
  then have "u32_atom_slot ?t n = None" "u32_atom_slot ?t1 n = None"
    by (auto simp: u32_atom_slot_def first_idx_None_iff)
  moreover have "u32_atom_free ?t = Some 0" "u32_atom_free ?t1 = Some 1"
    by (simp_all add: u32_atom_free_def first_idx_Some_iff U32_ATOM_MAX_def)
  ultimately show ?thesis
    using assms(2) by (auto simp: U32_ATOM_BASE_def)
qed

theorem atom_long_name_not_interned_witness:
  "\<exists>t1 t2. u32_atom_add (\<lambda>_. \<lparr>at_name = [], at_refs = 0\<rparr>) (StrAtom (replicate 300 0x61)) = (0xC000, t1, None) \<and>
    u32_atom_add t1 (StrAtom (replicate 300 0x61)) = (0xC001, t2, None)"
  by (rule atom_long_name_not_interned) simp_all

end
