(* ===== verification/Aret_Sync.thy ===== *)
theory Aret_Sync
  imports Aret_Prelude
begin

text \<open>
  The kernel-object tables of the cooperative threading layer
  (\<^verbatim>\<open>runtime/aret_hle/aret_win32.c\<close>, lines 2231--2500 and 2900--3207): fibers, critical
  sections, slim reader/writer locks, condition variables, events, mutexes, semaphores and
  thread-pool work items, with the operations on them that never block. A C array with its
  element counter is a list; \<^verbatim>\<open>-1\<close> results of the lookups are \<open>None\<close>. The handle spaces
  and the pointer-keyed tables each have one interface, proved once and used for every
  table of that shape. Blocking operations and the scheduler are in \<open>Aret_Fibers\<close>.
\<close>

section \<open>Data\<close>

definition U32_MAX_FIBER :: nat where "U32_MAX_FIBER = 64"
definition U32_THREAD_BASE :: u32 where "U32_THREAD_BASE = 0x70000000"
definition U32_EVENT_BASE :: u32 where "U32_EVENT_BASE = 0x71000000"
definition U32_MUTEX_BASE :: u32 where "U32_MUTEX_BASE = 0x72000000"
definition U32_SEM_BASE :: u32 where "U32_SEM_BASE = 0x73000000"
definition U32_MAX_CS :: nat where "U32_MAX_CS = 256"
definition U32_MAX_SRW :: nat where "U32_MAX_SRW = 256"
definition U32_MAX_CV :: nat where "U32_MAX_CV = 256"
definition U32_MAX_EVENT :: nat where "U32_MAX_EVENT = 128"
definition U32_MAX_MUTEX :: nat where "U32_MAX_MUTEX = 128"
definition U32_MAX_SEM :: nat where "U32_MAX_SEM = 128"
definition U32_INFINITE :: u32 where "U32_INFINITE = 0xFFFFFFFF"
definition U32_WAIT_TIMEOUT :: u32 where "U32_WAIT_TIMEOUT = 0x102"

datatype fiber_state = FST_FREE | FST_SUSPENDED | FST_READY | FST_RUNNING | FST_BLOCKED | FST_DONE

text \<open>
  The saved \<^verbatim>\<open>ucontext_t\<close> of a fiber: the point in the runtime at which it called
  \<^verbatim>\<open>swapcontext\<close>, with the local variables that are live there.
\<close>

datatype handle_src =
    HLocal u32                               \<comment> \<open>\<^verbatim>\<open>&h\<close> of \<^verbatim>\<open>aret_WaitForSingleObject\<close>\<close>
  | HGuest u32                               \<comment> \<open>the program's own array, re-read after the wait\<close>

datatype fiber_ctx =
    CtxNone                                  \<comment> \<open>not parked\<close>
  | CtxEntry                                 \<comment> \<open>fresh: \<^verbatim>\<open>makecontext(u32_fiber_trampoline)\<close>\<close>
  | CtxWait handle_src nat bool              \<comment> \<open>\<^verbatim>\<open>u32_wait\<close>: handles, n, all\<close>
  | CtxSleep                                 \<comment> \<open>\<^verbatim>\<open>u32_sleep\<close>\<close>
  | CtxYield                                 \<comment> \<open>\<^verbatim>\<open>aret_fiber_sleep(0)\<close>\<close>
  | CtxCs u32                                \<comment> \<open>\<^verbatim>\<open>aret_EnterCriticalSection\<close>\<close>
  | CtxSrw u32 bool                          \<comment> \<open>\<^verbatim>\<open>u32_srw_acquire\<close>: lock, excl\<close>
  | CtxCv u32 nat u32 bool bool              \<comment> \<open>\<^verbatim>\<open>u32_condvar_sleep\<close>: cv, its slot, lock, is\_cs, shared\<close>
  | CtxCvCs u32 u32                          \<comment> \<open>its re-acquire loop on a critical section: lock, ret\<close>
  | CtxCvSrw u32 bool u32                    \<comment> \<open>its re-acquire on an SRW lock: lock, excl, ret\<close>
  | CtxPool u32                              \<comment> \<open>\<^verbatim>\<open>aret_WaitForThreadpoolWorkCallbacks\<close>: work item\<close>
  | CtxDead                                  \<comment> \<open>exited, never resumed\<close>

record u32_fiber =
  fb_mstack :: u32
  fb_start :: u32
  fb_param :: u32
  fb_exit_code :: u32
  fb_last_error :: u32
  fb_state :: fiber_state
  fb_wait_h :: "u32 list"      \<comment> \<open>\<^verbatim>\<open>wait_h[0..wait_n)\<close>\<close>
  fb_wait_all :: bool
  fb_wait_cs :: u32
  fb_wait_srw :: u32
  fb_wait_srw_excl :: bool
  fb_wait_cv :: u32
  fb_pool_work :: u32
  fb_is_pool :: bool
  fb_has_timeout :: bool
  fb_timed_out :: bool
  fb_wake_time :: u64
  fb_priority :: int
  fb_ctx :: fiber_ctx

definition fiber_zero :: u32_fiber where
  "fiber_zero = \<lparr>fb_mstack = 0, fb_start = 0, fb_param = 0, fb_exit_code = 0, fb_last_error = 0, fb_state = FST_FREE,
     fb_wait_h = [], fb_wait_all = False, fb_wait_cs = 0, fb_wait_srw = 0, fb_wait_srw_excl = False,
     fb_wait_cv = 0, fb_pool_work = 0, fb_is_pool = False, fb_has_timeout = False, fb_timed_out = False,
     fb_wake_time = 0, fb_priority = 0, fb_ctx = CtxNone\<rparr>"

text \<open>
  The recursion counts \<^verbatim>\<open>rec\<close> and the reader count are C \<^verbatim>\<open>int\<close>s that never become negative (they are only
  counted down when positive), so they are natural numbers here. They are counted up once per call without a bound, and
  the model follows them up to the \<open>2 ^ 31\<close> nested acquisitions at which the C counter would overflow.
\<close>

record cs_ent =
  cs_key :: u32
  cs_owner :: nat     \<comment> \<open>fiber index + 1, 0 = free\<close>
  cs_rec :: nat

record srw_ent =
  srw_key :: u32
  srw_writer :: nat
  srw_readers :: nat

record cv_ent =
  cv_key :: u32
  cv_grants :: nat

record u32_tpwork =
  tp_cb :: u32
  tp_ctx :: u32
  tp_pending :: int
  tp_cancelled :: bool

record event_ent =
  ev_used :: bool
  ev_manual :: bool
  ev_signaled :: bool
  ev_name :: u32

record mutex_ent =
  mx_used :: bool
  mx_owner :: nat
  mx_rec :: nat
  mx_name :: u32

record sem_ent =
  sm_used :: bool
  sm_count :: int
  sm_max :: int
  sm_name :: u32

record wsa_ent =
  ws_used :: bool
  ws_fd :: int
  ws_mask :: u32

text \<open>
  \<open>g_poll\<close> stands for the host's \<^verbatim>\<open>poll()\<close>: the \<^verbatim>\<open>revents\<close> it reports right now for a
  descriptor and a requested event set.
\<close>

record sys = hle +
  g_fiber :: "u32_fiber list"
  g_cur :: nat
  g_rr :: nat
  g_sched_ready :: bool
  g_vclock :: u64
  g_cs :: "cs_ent list"
  g_srw :: "srw_ent list"
  g_cv :: "cv_ent list"
  g_event :: "event_ent list"
  g_mutex :: "mutex_ent list"
  g_sem :: "sem_ent list"
  g_wsaevsel :: "nat \<Rightarrow> wsa_ent"
  g_tpwork :: "u32 \<rightharpoonup> u32_tpwork"
  g_poll :: "int \<Rightarrow> u32 \<Rightarrow> u32"

abbreviation g_nfiber :: "sys \<Rightarrow> nat" where "g_nfiber s \<equiv> length (g_fiber s)"

abbreviation fib :: "sys \<Rightarrow> nat \<Rightarrow> u32_fiber" where "fib s i \<equiv> g_fiber s ! i"

abbreviation st_of :: "sys \<Rightarrow> nat \<Rightarrow> fiber_state" where "st_of s i \<equiv> fb_state (fib s i)"

definition upd_fiber :: "nat \<Rightarrow> (u32_fiber \<Rightarrow> u32_fiber) \<Rightarrow> sys \<Rightarrow> sys" where
  "upd_fiber i f s = s\<lparr>g_fiber := (g_fiber s)[i := f (g_fiber s ! i)]\<rparr>"

text \<open>
  What a shim call does to the calling fiber: it returns a value to the lifted code, it
  switches to the scheduler, it dispatches a lifted procedure (entry address and stack
  pointer, the start of a fresh fiber), it ends the process, or it stops the program with a
  message (\<^verbatim>\<open>aret_unmodelled\<close>, or the fault of a dangling work-item pointer).
\<close>

datatype outcome = Ret u32 sys | Park sys | Call u32 u32 sys | Exit u32 | Abort string

section \<open>Pointer-keyed tables: critical sections, SRW locks, condition variables\<close>

definition u32_cs_slot :: "cs_ent list \<Rightarrow> u32 \<Rightarrow> nat option" where
  "u32_cs_slot T cs = first_idx (\<lambda>i. cs_key (T ! i) = cs) 0 (length T)"

definition u32_cs_owner :: "cs_ent list \<Rightarrow> u32 \<Rightarrow> nat" where
  "u32_cs_owner T cs = (case u32_cs_slot T cs of None \<Rightarrow> 0 | Some i \<Rightarrow> cs_owner (T ! i))"

definition u32_cs_ensure :: "cs_ent list \<Rightarrow> u32 \<Rightarrow> (nat \<times> cs_ent list) option" where
  "u32_cs_ensure T cs = (case u32_cs_slot T cs of Some i \<Rightarrow> Some (i, T)
     | None \<Rightarrow> if U32_MAX_CS \<le> length T then None
               else Some (length T, T @ [\<lparr>cs_key = cs, cs_owner = 0, cs_rec = 0\<rparr>]))"

definition u32_srw_slot :: "srw_ent list \<Rightarrow> u32 \<Rightarrow> nat option" where
  "u32_srw_slot T lock = first_idx (\<lambda>i. srw_key (T ! i) = lock) 0 (length T)"

definition u32_srw_ensure :: "srw_ent list \<Rightarrow> u32 \<Rightarrow> (nat \<times> srw_ent list) option" where
  "u32_srw_ensure T lock = (case u32_srw_slot T lock of Some i \<Rightarrow> Some (i, T)
     | None \<Rightarrow> if U32_MAX_SRW \<le> length T then None
               else Some (length T, T @ [\<lparr>srw_key = lock, srw_writer = 0, srw_readers = 0\<rparr>]))"

definition u32_srw_acquirable :: "srw_ent list \<Rightarrow> u32 \<Rightarrow> bool \<Rightarrow> nat \<Rightarrow> bool" where
  "u32_srw_acquirable T lock excl i = (case u32_srw_slot T lock of None \<Rightarrow> True
     | Some k \<Rightarrow> if excl then srw_writer (T ! k) = 0 \<and> srw_readers (T ! k) = 0
                 else srw_writer (T ! k) = 0 \<or> srw_writer (T ! k) = i + 1)"

text \<open>\<open>None\<close>: the table is full and \<^verbatim>\<open>u32_srw_ensure\<close> has aborted the program.\<close>

definition u32_srw_take :: "srw_ent list \<Rightarrow> u32 \<Rightarrow> bool \<Rightarrow> nat \<Rightarrow> srw_ent list option" where
  "u32_srw_take T lock excl i = (case u32_srw_ensure T lock of None \<Rightarrow> None
     | Some (k, T') \<Rightarrow> Some (T'[k := (if excl then (T' ! k)\<lparr>srw_writer := i + 1\<rparr>
                                      else (T' ! k)\<lparr>srw_readers := srw_readers (T' ! k) + 1\<rparr>)]))"

definition u32_srw_release :: "srw_ent list \<Rightarrow> u32 \<Rightarrow> bool \<Rightarrow> nat \<Rightarrow> srw_ent list" where
  "u32_srw_release T lock excl i = (case u32_srw_slot T lock of None \<Rightarrow> T
     | Some k \<Rightarrow> if excl
         then (if srw_writer (T ! k) = i + 1 then T[k := (T ! k)\<lparr>srw_writer := 0\<rparr>] else T)
         else (if 0 < srw_readers (T ! k) then T[k := (T ! k)\<lparr>srw_readers := srw_readers (T ! k) - 1\<rparr>] else T))"

definition u32_cv_slot :: "cv_ent list \<Rightarrow> u32 \<Rightarrow> nat option" where
  "u32_cv_slot T cv = first_idx (\<lambda>i. cv_key (T ! i) = cv) 0 (length T)"

definition u32_cv_ensure :: "cv_ent list \<Rightarrow> u32 \<Rightarrow> (nat \<times> cv_ent list) option" where
  "u32_cv_ensure T cv = (case u32_cv_slot T cv of Some i \<Rightarrow> Some (i, T)
     | None \<Rightarrow> if U32_MAX_CV \<le> length T then None
               else Some (length T, T @ [\<lparr>cv_key = cv, cv_grants = 0\<rparr>]))"

definition u32_cv_grants :: "cv_ent list \<Rightarrow> u32 \<Rightarrow> nat" where
  "u32_cv_grants T cv = (case u32_cv_slot T cv of None \<Rightarrow> 0 | Some i \<Rightarrow> cv_grants (T ! i))"

subsection \<open>Their common interface\<close>

locale keyed_table =
  fixes key :: "'e \<Rightarrow> u32"
    and slot :: "'e list \<Rightarrow> u32 \<Rightarrow> nat option"
    and ensure :: "'e list \<Rightarrow> u32 \<Rightarrow> (nat \<times> 'e list) option"
    and fresh :: "u32 \<Rightarrow> 'e"
    and cap :: nat
  assumes slot_eq: "slot T k = first_idx (\<lambda>i. key (T ! i) = k) 0 (length T)"
    and ensure_eq: "ensure T k = (case slot T k of Some i \<Rightarrow> Some (i, T)
      | None \<Rightarrow> if cap \<le> length T then None else Some (length T, T @ [fresh k]))"
    and key_fresh: "key (fresh k) = k"
begin

lemma slotD: "slot T k = Some i \<Longrightarrow> i < length T \<and> key (T ! i) = k"
  by (auto simp: slot_eq first_idx_Some_iff)

lemma slot_None: "slot T k = None \<longleftrightarrow> (\<forall>i < length T. key (T ! i) \<noteq> k)"
  by (auto simp: slot_eq first_idx_None_iff)

lemma slot_distinct:
  assumes "distinct (map key T)" "i < length T" "key (T ! i) = k" shows "slot T k = Some i"
  unfolding slot_eq
proof (rule first_idx_unique)
  fix j assume "j < length T" "key (T ! j) = k"
  with assms show "j = i" by (auto simp: distinct_conv_nth nth_map)
qed (use assms in auto)

lemma slot_upd: "key e = key (T ! i) \<Longrightarrow> slot (T[i := e]) k = slot T k"
proof -
  assume e: "key e = key (T ! i)"
  have "key (T[i := e] ! j) = key (T ! j)" if "j < length T" for j
    using e that by (cases "j = i") auto
  then show ?thesis unfolding slot_eq by (auto intro: first_idx_cong)
qed

lemma slot_append:
  "slot (T @ [e]) k = (case slot T k of Some i \<Rightarrow> Some i | None \<Rightarrow> if key e = k then Some (length T) else None)"
proof (cases "slot T k")
  case (Some i)
  then have "i < length T" "key (T ! i) = k" "\<forall>j < i. key (T ! j) \<noteq> k"
    by (auto simp: slot_eq first_idx_Some_iff)
  then have "slot (T @ [e]) k = Some i"
    unfolding slot_eq by (auto simp: first_idx_Some_iff nth_append)
  with Some show ?thesis by simp
next
  case None
  then have n: "\<forall>i < length T. key (T ! i) \<noteq> k" by (simp add: slot_None)
  show ?thesis
  proof (cases "key e = k")
    case True
    then have "slot (T @ [e]) k = Some (length T)"
      unfolding slot_eq using n by (auto simp: first_idx_Some_iff nth_append)
    with None True show ?thesis by simp
  next
    case False
    then have "slot (T @ [e]) k = None"
      unfolding slot_None using n by (auto simp: nth_append less_Suc_eq)
    with None False show ?thesis by simp
  qed
qed

lemma ensureD:
  assumes "ensure T k = Some (i, T')"
  shows "i < length T'" "key (T' ! i) = k" "slot T' k = Some i" "length T \<le> length T'"
    "take (length T) T' = T" "distinct (map key T) \<Longrightarrow> distinct (map key T')"
    "T' = T \<or> T' = T @ [fresh k] \<and> slot T k = None"
proof -
  consider "slot T k = Some i" "T' = T" | "slot T k = None" "i = length T" "T' = T @ [fresh k]"
    using assms by (auto simp: ensure_eq split: option.splits if_splits)
  note c = this
  show "i < length T'" "key (T' ! i) = k" "length T \<le> length T'" "take (length T) T' = T"
      "T' = T \<or> T' = T @ [fresh k] \<and> slot T k = None"
    using c by (cases; auto dest: slotD simp: key_fresh)+
  show "slot T' k = Some i" using c by cases (auto simp: slot_append key_fresh)
  show "distinct (map key T')" if "distinct (map key T)"
    using c
  proof cases
    case 2
    then have "k \<notin> key ` set T" by (auto simp: slot_None in_set_conv_nth)
    with that 2 show ?thesis by (simp add: key_fresh)
  qed (use that in simp)
qed

lemma ensure_bound:
  assumes "ensure T k = Some (i, T')" "length T \<le> cap"
  shows "length T' \<le> cap" "e \<in> set T' \<Longrightarrow> e = fresh k \<or> e \<in> set T"
  using assms by (auto simp: ensure_eq split: option.splits if_splits)

lemma ensure_idem: "ensure T k = Some (i, T') \<Longrightarrow> ensure T' k = Some (i, T')"
  using ensureD(3) [of T k i T'] by (simp add: ensure_eq)

end

interpretation cs_tab: keyed_table cs_key u32_cs_slot u32_cs_ensure
  "\<lambda>k. \<lparr>cs_key = k, cs_owner = 0, cs_rec = 0\<rparr>" U32_MAX_CS
  by unfold_locales (simp_all add: u32_cs_slot_def u32_cs_ensure_def)

interpretation srw_tab: keyed_table srw_key u32_srw_slot u32_srw_ensure
  "\<lambda>k. \<lparr>srw_key = k, srw_writer = 0, srw_readers = 0\<rparr>" U32_MAX_SRW
  by unfold_locales (simp_all add: u32_srw_slot_def u32_srw_ensure_def)

interpretation cv_tab: keyed_table cv_key u32_cv_slot u32_cv_ensure
  "\<lambda>k. \<lparr>cv_key = k, cv_grants = 0\<rparr>" U32_MAX_CV
  by unfold_locales (simp_all add: u32_cv_slot_def u32_cv_ensure_def)

section \<open>Handle spaces\<close>

definition u32_event_idx :: "event_ent list \<Rightarrow> u32 \<Rightarrow> nat option" where
  "u32_event_idx T h = (if h AND 0xFF000000 \<noteq> U32_EVENT_BASE then None
     else let i = unat (h AND 0x00FFFFFF) in if i < length T \<and> ev_used (T ! i) then Some i else None)"

definition u32_mutex_idx :: "mutex_ent list \<Rightarrow> u32 \<Rightarrow> nat option" where
  "u32_mutex_idx T h = (if h AND 0xFF000000 \<noteq> U32_MUTEX_BASE then None
     else let i = unat (h AND 0x00FFFFFF) in if i < length T \<and> mx_used (T ! i) then Some i else None)"

definition u32_sem_idx :: "sem_ent list \<Rightarrow> u32 \<Rightarrow> nat option" where
  "u32_sem_idx T h = (if h AND 0xFF000000 \<noteq> U32_SEM_BASE then None
     else let i = unat (h AND 0x00FFFFFF) in if i < length T \<and> sm_used (T ! i) then Some i else None)"

definition u32_thread_idx :: "u32_fiber list \<Rightarrow> u32 \<Rightarrow> nat option" where
  "u32_thread_idx T h = (if h AND 0xFF000000 \<noteq> U32_THREAD_BASE then None
     else let i = unat (h AND 0x00FFFFFF) in if i < length T then Some i else None)"

definition u32_thread_resolve :: "u32 \<Rightarrow> sys \<Rightarrow> nat option" where
  "u32_thread_resolve h s = (if h = 0xFFFFFFFE then Some (g_cur s) else u32_thread_idx (g_fiber s) h)"

interpretation evh: handle_space U32_EVENT_BASE ev_used u32_event_idx
  by unfold_locales (simp_all add: U32_EVENT_BASE_def u32_event_idx_def)

interpretation mxh: handle_space U32_MUTEX_BASE mx_used u32_mutex_idx
  by unfold_locales (simp_all add: U32_MUTEX_BASE_def u32_mutex_idx_def)

interpretation smh: handle_space U32_SEM_BASE sm_used u32_sem_idx
  by unfold_locales (simp_all add: U32_SEM_BASE_def u32_sem_idx_def)

interpretation thh: handle_space U32_THREAD_BASE "\<lambda>_. True" u32_thread_idx
  by unfold_locales (simp_all add: U32_THREAD_BASE_def u32_thread_idx_def)

lemmas handle_bases = U32_EVENT_BASE_def U32_MUTEX_BASE_def U32_SEM_BASE_def U32_THREAD_BASE_def

text \<open>The four handle spaces are disjoint: a handle denotes an object of at most one kind.\<close>

lemma handle_kinds_disjoint:
  "u32_event_idx E h = Some i \<Longrightarrow> u32_mutex_idx M h = None \<and> u32_sem_idx S h = None \<and> u32_thread_idx F h = None"
  "u32_mutex_idx M h = Some i \<Longrightarrow> u32_event_idx E h = None \<and> u32_sem_idx S h = None \<and> u32_thread_idx F h = None"
  "u32_sem_idx S h = Some i \<Longrightarrow> u32_event_idx E h = None \<and> u32_mutex_idx M h = None \<and> u32_thread_idx F h = None"
  "u32_thread_idx F h = Some i \<Longrightarrow> u32_event_idx E h = None \<and> u32_mutex_idx M h = None \<and> u32_sem_idx S h = None"
  by (auto simp: u32_event_idx_def u32_mutex_idx_def u32_sem_idx_def u32_thread_idx_def
      handle_bases split: if_splits)

section \<open>Named objects\<close>

text \<open>FNV-1a over the bytes of the name; a wide name contributes the low byte of each unit.\<close>

definition fnv :: "u8 list \<Rightarrow> u32" where
  "fnv bs = foldl (\<lambda>h b. (h XOR ucast b) * 16777619) 2166136261 bs"

definition u32_name_hash :: "guest_mem \<Rightarrow> u32 \<Rightarrow> bool \<Rightarrow> u32" where
  "u32_name_hash m p wide = (if p = 0 then 0
     else let h = (if wide then fnv (map (\<lambda>w. ucast (w AND 0xFF)) (wstr m p)) else fnv (cstr m p))
          in if h = 0 then 1 else h)"

definition u32_create_event :: "bool \<Rightarrow> bool \<Rightarrow> u32 \<Rightarrow> event_ent list \<Rightarrow> u32 \<times> u32 option \<times> event_ent list" where
  "u32_create_event manual initial nh T =
     (case (if nh = 0 then None else first_idx (\<lambda>i. ev_used (T ! i) \<and> ev_name (T ! i) = nh) 0 (length T)) of
        Some i \<Rightarrow> (U32_EVENT_BASE OR of_nat i, Some 183, T)
      | None \<Rightarrow> if U32_MAX_EVENT \<le> length T then (0, Some 8, T)
          else (U32_EVENT_BASE OR of_nat (length T), None,
                T @ [\<lparr>ev_used = True, ev_manual = manual, ev_signaled = initial, ev_name = nh\<rparr>]))"

definition u32_create_mutex :: "nat \<Rightarrow> bool \<Rightarrow> u32 \<Rightarrow> mutex_ent list \<Rightarrow> u32 \<times> u32 option \<times> mutex_ent list" where
  "u32_create_mutex cur initial_owner nh T =
     (case (if nh = 0 then None else first_idx (\<lambda>i. mx_used (T ! i) \<and> mx_name (T ! i) = nh) 0 (length T)) of
        Some i \<Rightarrow> (U32_MUTEX_BASE OR of_nat i, Some 183, T)
      | None \<Rightarrow> if U32_MAX_MUTEX \<le> length T then (0, Some 8, T)
          else (U32_MUTEX_BASE OR of_nat (length T), None,
                T @ [\<lparr>mx_used = True, mx_owner = (if initial_owner then cur + 1 else 0),
                      mx_rec = (if initial_owner then 1 else 0), mx_name = nh\<rparr>]))"

definition u32_open_mutex :: "u32 \<Rightarrow> mutex_ent list \<Rightarrow> u32 \<times> u32 option" where
  "u32_open_mutex nh T =
     (case (if nh = 0 then None else first_idx (\<lambda>i. mx_used (T ! i) \<and> mx_name (T ! i) = nh) 0 (length T)) of
        Some i \<Rightarrow> (U32_MUTEX_BASE OR of_nat i, None) | None \<Rightarrow> (0, Some 2))"

definition u32_create_sem :: "int \<Rightarrow> int \<Rightarrow> u32 \<Rightarrow> sem_ent list \<Rightarrow> u32 \<times> u32 option \<times> sem_ent list" where
  "u32_create_sem initial maximum nh T =
     (case (if nh = 0 then None else first_idx (\<lambda>i. sm_used (T ! i) \<and> sm_name (T ! i) = nh) 0 (length T)) of
        Some i \<Rightarrow> (U32_SEM_BASE OR of_nat i, Some 183, T)
      | None \<Rightarrow> if U32_MAX_SEM \<le> length T then (0, Some 8, T)
          else (U32_SEM_BASE OR of_nat (length T), None,
                T @ [\<lparr>sm_used = True, sm_count = initial, sm_max = maximum, sm_name = nh\<rparr>]))"

definition u32_open_sem :: "u32 \<Rightarrow> sem_ent list \<Rightarrow> u32 \<times> u32 option" where
  "u32_open_sem nh T =
     (case (if nh = 0 then None else first_idx (\<lambda>i. sm_used (T ! i) \<and> sm_name (T ! i) = nh) 0 (length T)) of
        Some i \<Rightarrow> (U32_SEM_BASE OR of_nat i, None) | None \<Rightarrow> (0, Some 2))"

subsection \<open>Their common interface\<close>

locale named_objects = handle_space base live idx
  for base :: u32 and live :: "'e \<Rightarrow> bool" and idx :: "'e list \<Rightarrow> u32 \<Rightarrow> nat option" +
  fixes name :: "'e \<Rightarrow> u32"
    and cap :: nat
    and fresh :: "'p \<Rightarrow> u32 \<Rightarrow> 'e"
    and create :: "'p \<Rightarrow> u32 \<Rightarrow> 'e list \<Rightarrow> u32 \<times> u32 option \<times> 'e list"
  assumes create_eq: "create p nh T =
      (case (if nh = 0 then None else first_idx (\<lambda>i. live (T ! i) \<and> name (T ! i) = nh) 0 (length T)) of
         Some i \<Rightarrow> (base OR of_nat i, Some 183, T)
       | None \<Rightarrow> if cap \<le> length T then (0, Some 8, T)
                 else (base OR of_nat (length T), None, T @ [fresh p nh]))"
    and fresh_live: "live (fresh p nh)"
    and fresh_name: "name (fresh p nh) = nh"
    and cap_small: "cap < 2 ^ 24"
    and base_nz: "base \<noteq> 0"
begin

lemma handle_nz: "i < 2 ^ 24 \<Longrightarrow> base OR of_nat i \<noteq> 0"
  using handle_tag [of i] base_nz by force

lemma create_cases:
  assumes "create p nh T = (h, e, T')"
  obtains (existing) i where "nh \<noteq> 0" "i < length T" "live (T ! i)" "name (T ! i) = nh"
      "\<forall>j < i. \<not> (live (T ! j) \<and> name (T ! j) = nh)" "h = base OR of_nat i" "e = Some 183" "T' = T"
    | (full) "nh = 0 \<or> (\<forall>i < length T. \<not> (live (T ! i) \<and> name (T ! i) = nh))" "cap \<le> length T"
      "h = 0" "e = Some 8" "T' = T"
    | (made) "nh = 0 \<or> (\<forall>i < length T. \<not> (live (T ! i) \<and> name (T ! i) = nh))" "length T < cap"
      "h = base OR of_nat (length T)" "e = None" "T' = T @ [fresh p nh]"
proof (cases "if nh = 0 then None else first_idx (\<lambda>i. live (T ! i) \<and> name (T ! i) = nh) 0 (length T)")
  case None
  then have n: "nh = 0 \<or> (\<forall>i < length T. \<not> (live (T ! i) \<and> name (T ! i) = nh))"
    by (auto simp: first_idx_None_iff split: if_splits)
  show thesis
  proof (cases "cap \<le> length T")
    case True
    with None assms show thesis by (intro full [OF n]) (simp_all add: create_eq)
  next
    case False
    with None assms show thesis by (intro made [OF n]) (simp_all add: create_eq)
  qed
next
  case (Some i)
  then have "nh \<noteq> 0" "i < length T" "live (T ! i)" "name (T ! i) = nh"
      "\<forall>j < i. \<not> (live (T ! j) \<and> name (T ! j) = nh)"
    by (auto simp: first_idx_Some_iff split: if_splits)
  moreover have "h = base OR of_nat i" "e = Some 183" "T' = T" using Some assms by (auto simp: create_eq)
  ultimately show thesis by (rule existing)
qed

lemma create_keeps:
  assumes "create p nh T = (h, e, T')" "idx T g = Some i"
  shows "idx T' g = Some i \<and> T' ! i = T ! i"
  using assms(1)
proof (cases rule: create_cases)
  case made
  then show ?thesis using idx_grow [OF assms(2)] idxD [OF assms(2)] by (simp add: nth_append)
qed (use assms(2) in auto)

lemma create_valid:
  assumes "create p nh T = (h, e, T')" "h \<noteq> 0" "length T \<le> cap"
  shows "\<exists>i. idx T' h = Some i \<and> name (T' ! i) = nh \<and> length T' \<le> cap"
  using assms(1)
proof (cases rule: create_cases)
  case (existing i)
  then show ?thesis using idx_handle [of i T] assms(3) cap_small by auto
next
  case made
  then have "idx T' h = Some (length T)" using cap_small by (simp add: idx_handle fresh_live)
  with made show ?thesis by (simp add: fresh_name)
qed (use assms(2) in simp)

lemma create_twice:
  assumes "create p nh T = (h, e, T')" "h \<noteq> 0" "nh \<noteq> 0"
  shows "create q nh T' = (h, Some 183, T')"
proof -
  let ?P = "\<lambda>T i. live (T ! i) \<and> name (T ! i) = nh"
  have "\<exists>i. first_idx (?P T') 0 (length T') = Some i \<and> h = base OR of_nat i"
    using assms(1)
  proof (cases rule: create_cases)
    case (existing i)
    then have "first_idx (?P T') 0 (length T') = Some i" by (simp add: first_idx_Some_iff)
    with existing show ?thesis by blast
  next
    case made
    then have "first_idx (?P T') 0 (length T') = Some (length T)"
      using assms(3) by (simp add: first_idx_Some_iff nth_append fresh_live fresh_name)
    with made show ?thesis by blast
  qed (use assms(2) in simp)
  then show ?thesis using assms(3) by (auto simp: create_eq)
qed

end

locale openable_objects = named_objects base live idx name cap fresh create
  for base :: u32 and live :: "'e \<Rightarrow> bool" and idx :: "'e list \<Rightarrow> u32 \<Rightarrow> nat option"
    and name :: "'e \<Rightarrow> u32" and cap :: nat and fresh :: "'p \<Rightarrow> u32 \<Rightarrow> 'e"
    and create :: "'p \<Rightarrow> u32 \<Rightarrow> 'e list \<Rightarrow> u32 \<times> u32 option \<times> 'e list" +
  fixes "open" :: "u32 \<Rightarrow> 'e list \<Rightarrow> u32 \<times> u32 option"
  assumes open_eq: "open nh T =
      (case (if nh = 0 then None else first_idx (\<lambda>i. live (T ! i) \<and> name (T ! i) = nh) 0 (length T)) of
         Some i \<Rightarrow> (base OR of_nat i, None) | None \<Rightarrow> (0, Some 2))"
begin

lemma open_after_create:
  assumes "create p nh T = (h, e, T')" "h \<noteq> 0" "nh \<noteq> 0"
  shows "open nh T' = (h, None)"
proof -
  have "length T' > 0"
    using assms(1) by (cases rule: create_cases) (use assms(2) in auto)
  with create_twice [OF assms, of p] show ?thesis
    by (auto simp: create_eq open_eq split: option.splits if_splits)
qed

lemma open_unknown:
  "(\<forall>i < length T. live (T ! i) \<longrightarrow> name (T ! i) \<noteq> nh) \<Longrightarrow> open nh T = (0, Some 2)"
  by (auto simp: open_eq first_idx_Some_iff split: option.splits if_splits)

end

interpretation evn: named_objects U32_EVENT_BASE ev_used u32_event_idx ev_name U32_MAX_EVENT
  "\<lambda>(m, i) nh. \<lparr>ev_used = True, ev_manual = m, ev_signaled = i, ev_name = nh\<rparr>"
  "\<lambda>(m, i). u32_create_event m i"
  by unfold_locales
    (simp_all add: u32_create_event_def U32_EVENT_BASE_def U32_MAX_EVENT_def split: prod.splits)

interpretation mxn: openable_objects U32_MUTEX_BASE mx_used u32_mutex_idx mx_name U32_MAX_MUTEX
  "\<lambda>(c, i) nh. \<lparr>mx_used = True, mx_owner = (if i then c + 1 else 0), mx_rec = (if i then 1 else 0), mx_name = nh\<rparr>"
  "\<lambda>(c, i). u32_create_mutex c i" u32_open_mutex
  by unfold_locales
    (simp_all add: u32_create_mutex_def u32_open_mutex_def U32_MUTEX_BASE_def U32_MAX_MUTEX_def split: prod.splits)

interpretation smn: openable_objects U32_SEM_BASE sm_used u32_sem_idx sm_name U32_MAX_SEM
  "\<lambda>(c, m) nh. \<lparr>sm_used = True, sm_count = c, sm_max = m, sm_name = nh\<rparr>"
  "\<lambda>(c, m). u32_create_sem c m" u32_open_sem
  by unfold_locales
    (simp_all add: u32_create_sem_def u32_open_sem_def U32_SEM_BASE_def U32_MAX_SEM_def split: prod.splits)

section \<open>Operations that never block\<close>

text \<open>
  \<open>Abort\<close> carries the message the source passes to \<^verbatim>\<open>aret_unmodelled\<close>; a table that is full
  aborts there, so the \<^verbatim>\<open>s < 0\<close> returns after it are never taken.
\<close>

subsection \<open>Critical sections\<close>

definition cs_init :: "u32 \<Rightarrow> u32 \<Rightarrow> sys \<Rightarrow> outcome" where
  "cs_init r cs s = (case u32_cs_ensure (g_cs s) cs of None \<Rightarrow> Abort ''CriticalSection: table full''
     | Some (_, T) \<Rightarrow> Ret r (s\<lparr>g_cs := T\<rparr>))"

definition aret_InitializeCriticalSection :: "u32 \<Rightarrow> sys \<Rightarrow> outcome" where
  "aret_InitializeCriticalSection esp s = cs_init 0 (WU esp 0 s) s"

definition aret_InitializeCriticalSectionAndSpinCount :: "u32 \<Rightarrow> sys \<Rightarrow> outcome" where
  "aret_InitializeCriticalSectionAndSpinCount esp s = cs_init 1 (WU esp 0 s) s"

definition aret_InitializeCriticalSectionEx :: "u32 \<Rightarrow> sys \<Rightarrow> outcome" where
  "aret_InitializeCriticalSectionEx esp s = cs_init 1 (WU esp 0 s) s"

text \<open>\<^verbatim>\<open>g_cs[s] = g_cs[--g_ncs]\<close>: the last entry takes the freed slot.\<close>

definition cs_delete :: "cs_ent list \<Rightarrow> u32 \<Rightarrow> cs_ent list" where
  "cs_delete T cs = (case u32_cs_slot T cs of None \<Rightarrow> T | Some k \<Rightarrow> butlast (T[k := last T]))"

definition aret_DeleteCriticalSection :: "u32 \<Rightarrow> sys \<Rightarrow> outcome" where
  "aret_DeleteCriticalSection esp s = Ret 0 (s\<lparr>g_cs := cs_delete (g_cs s) (WU esp 0 s)\<rparr>)"

text \<open>The body of the acquire loops: slot \<open>k\<close> is free or already held by fiber \<open>me\<close>.\<close>

definition cs_avail :: "cs_ent list \<Rightarrow> nat \<Rightarrow> nat \<Rightarrow> bool" where
  "cs_avail T k me \<longleftrightarrow> cs_owner (T ! k) = 0 \<or> cs_owner (T ! k) = me + 1"

definition cs_grab :: "cs_ent list \<Rightarrow> nat \<Rightarrow> nat \<Rightarrow> cs_ent list" where
  "cs_grab T k me = T[k := (T ! k)\<lparr>cs_owner := me + 1, cs_rec := cs_rec (T ! k) + 1\<rparr>]"

definition aret_TryEnterCriticalSection :: "u32 \<Rightarrow> sys \<Rightarrow> outcome" where
  "aret_TryEnterCriticalSection esp s = (case u32_cs_ensure (g_cs s) (WU esp 0 s) of None \<Rightarrow> Abort ''CriticalSection: table full''
     | Some (k, T) \<Rightarrow> if cs_avail T k (g_cur s) then Ret 1 (s\<lparr>g_cs := cs_grab T k (g_cur s)\<rparr>)
                     else Ret 0 (s\<lparr>g_cs := T\<rparr>))"

definition cs_leave :: "cs_ent list \<Rightarrow> u32 \<Rightarrow> nat \<Rightarrow> cs_ent list" where
  "cs_leave T cs me = (case u32_cs_slot T cs of None \<Rightarrow> T
     | Some k \<Rightarrow> if cs_owner (T ! k) = me + 1 \<and> 0 < cs_rec (T ! k)
         then T[k := (T ! k)\<lparr>cs_rec := cs_rec (T ! k) - 1,
                             cs_owner := (if cs_rec (T ! k) = 1 then 0 else cs_owner (T ! k))\<rparr>]
         else T)"

definition aret_LeaveCriticalSection :: "u32 \<Rightarrow> sys \<Rightarrow> outcome" where
  "aret_LeaveCriticalSection esp s = Ret 0 (s\<lparr>g_cs := cs_leave (g_cs s) (WU esp 0 s) (g_cur s)\<rparr>)"

subsection \<open>SRW locks\<close>

definition aret_InitializeSRWLock :: "u32 \<Rightarrow> sys \<Rightarrow> outcome" where
  "aret_InitializeSRWLock esp s = (case u32_srw_ensure (g_srw s) (WU esp 0 s) of None \<Rightarrow> Abort ''SRWLOCK: table full''
     | Some (_, T) \<Rightarrow> Ret 0 (s\<lparr>g_srw := T\<rparr>))"

definition aret_ReleaseSRWLockExclusive :: "u32 \<Rightarrow> sys \<Rightarrow> outcome" where
  "aret_ReleaseSRWLockExclusive esp s = Ret 0 (s\<lparr>g_srw := u32_srw_release (g_srw s) (WU esp 0 s) True (g_cur s)\<rparr>)"

definition aret_ReleaseSRWLockShared :: "u32 \<Rightarrow> sys \<Rightarrow> outcome" where
  "aret_ReleaseSRWLockShared esp s = Ret 0 (s\<lparr>g_srw := u32_srw_release (g_srw s) (WU esp 0 s) False (g_cur s)\<rparr>)"

definition srw_try :: "bool \<Rightarrow> u32 \<Rightarrow> sys \<Rightarrow> outcome" where
  "srw_try excl lock s = (if u32_srw_acquirable (g_srw s) lock excl (g_cur s)
     then (case u32_srw_take (g_srw s) lock excl (g_cur s) of None \<Rightarrow> Abort ''SRWLOCK: table full''
           | Some T \<Rightarrow> Ret 1 (s\<lparr>g_srw := T\<rparr>))
     else Ret 0 s)"

definition aret_TryAcquireSRWLockExclusive :: "u32 \<Rightarrow> sys \<Rightarrow> outcome" where
  "aret_TryAcquireSRWLockExclusive esp s = srw_try True (WU esp 0 s) s"

definition aret_TryAcquireSRWLockShared :: "u32 \<Rightarrow> sys \<Rightarrow> outcome" where
  "aret_TryAcquireSRWLockShared esp s = srw_try False (WU esp 0 s) s"

subsection \<open>Condition variables\<close>

definition u32_cv_waiters :: "u32_fiber list \<Rightarrow> u32 \<Rightarrow> nat" where
  "u32_cv_waiters F cv = length (filter (\<lambda>f. fb_state f = FST_BLOCKED \<and> fb_wait_cv f = cv) F)"

definition aret_InitializeConditionVariable :: "u32 \<Rightarrow> sys \<Rightarrow> outcome" where
  "aret_InitializeConditionVariable esp s = (case u32_cv_ensure (g_cv s) (WU esp 0 s) of None \<Rightarrow> Abort ''CONDITION_VARIABLE: table full''
     | Some (_, T) \<Rightarrow> Ret 0 (s\<lparr>g_cv := T\<rparr>))"

definition aret_WakeConditionVariable :: "u32 \<Rightarrow> sys \<Rightarrow> outcome" where
  "aret_WakeConditionVariable esp s = (case u32_cv_ensure (g_cv s) (WU esp 0 s) of None \<Rightarrow> Abort ''CONDITION_VARIABLE: table full''
     | Some (k, T) \<Rightarrow> Ret 0 (s\<lparr>g_cv := (if cv_grants (T ! k) < u32_cv_waiters (g_fiber s) (WU esp 0 s)
         then T[k := (T ! k)\<lparr>cv_grants := cv_grants (T ! k) + 1\<rparr>] else T)\<rparr>))"

definition aret_WakeAllConditionVariable :: "u32 \<Rightarrow> sys \<Rightarrow> outcome" where
  "aret_WakeAllConditionVariable esp s = (case u32_cv_ensure (g_cv s) (WU esp 0 s) of None \<Rightarrow> Abort ''CONDITION_VARIABLE: table full''
     | Some (k, T) \<Rightarrow> Ret 0 (s\<lparr>g_cv := T[k := (T ! k)\<lparr>cv_grants := u32_cv_waiters (g_fiber s) (WU esp 0 s)\<rparr>]\<rparr>))"

subsection \<open>Events, mutexes and semaphores\<close>

definition create_event :: "bool \<Rightarrow> bool \<Rightarrow> u32 \<Rightarrow> sys \<Rightarrow> outcome" where
  "create_event manual initial nh s = (case u32_create_event manual initial nh (g_event s) of
     (h, e, T) \<Rightarrow> Ret h (err_opt e (s\<lparr>g_event := T\<rparr>)))"

definition aret_CreateEventA :: "u32 \<Rightarrow> sys \<Rightarrow> outcome" where
  "aret_CreateEventA esp s = create_event (WI esp 1 s \<noteq> 0) (WI esp 2 s \<noteq> 0) (u32_name_hash (mem s) (WU esp 3 s) False) s"

definition aret_CreateEventW :: "u32 \<Rightarrow> sys \<Rightarrow> outcome" where
  "aret_CreateEventW esp s = create_event (WI esp 1 s \<noteq> 0) (WI esp 2 s \<noteq> 0) (u32_name_hash (mem s) (WU esp 3 s) True) s"

definition event_put :: "bool \<Rightarrow> u32 \<Rightarrow> sys \<Rightarrow> sys" where
  "event_put b h s = (case u32_event_idx (g_event s) h of None \<Rightarrow> s
     | Some i \<Rightarrow> s\<lparr>g_event := (g_event s)[i := (g_event s ! i)\<lparr>ev_signaled := b\<rparr>]\<rparr>)"

definition aret_SetEvent :: "u32 \<Rightarrow> sys \<Rightarrow> outcome" where
  "aret_SetEvent esp s = Ret 1 (event_put True (WU esp 0 s) s)"

definition aret_ResetEvent :: "u32 \<Rightarrow> sys \<Rightarrow> outcome" where
  "aret_ResetEvent esp s = Ret 1 (event_put False (WU esp 0 s) s)"

definition create_mutex :: "bool \<Rightarrow> u32 \<Rightarrow> sys \<Rightarrow> outcome" where
  "create_mutex initial nh s = (case u32_create_mutex (g_cur s) initial nh (g_mutex s) of
     (h, e, T) \<Rightarrow> Ret h (err_opt e (s\<lparr>g_mutex := T\<rparr>)))"

definition aret_CreateMutexA :: "u32 \<Rightarrow> sys \<Rightarrow> outcome" where
  "aret_CreateMutexA esp s = create_mutex (WI esp 1 s \<noteq> 0) (u32_name_hash (mem s) (WU esp 2 s) False) s"

definition aret_CreateMutexW :: "u32 \<Rightarrow> sys \<Rightarrow> outcome" where
  "aret_CreateMutexW esp s = create_mutex (WI esp 1 s \<noteq> 0) (u32_name_hash (mem s) (WU esp 2 s) True) s"

definition aret_OpenMutexA :: "u32 \<Rightarrow> sys \<Rightarrow> outcome" where
  "aret_OpenMutexA esp s = (case u32_open_mutex (u32_name_hash (mem s) (WU esp 2 s) False) (g_mutex s) of (h, e) \<Rightarrow> Ret h (err_opt e s))"

definition aret_OpenMutexW :: "u32 \<Rightarrow> sys \<Rightarrow> outcome" where
  "aret_OpenMutexW esp s = (case u32_open_mutex (u32_name_hash (mem s) (WU esp 2 s) True) (g_mutex s) of (h, e) \<Rightarrow> Ret h (err_opt e s))"

definition aret_ReleaseMutex :: "u32 \<Rightarrow> sys \<Rightarrow> outcome" where
  "aret_ReleaseMutex esp s = (case u32_mutex_idx (g_mutex s) (WU esp 0 s) of None \<Rightarrow> Ret 0 s
     | Some i \<Rightarrow> let x = g_mutex s ! i in
         if mx_owner x \<noteq> g_cur s + 1 then Ret 0 s
         else if 0 < mx_rec x
         then Ret 1 (s\<lparr>g_mutex := (g_mutex s)[i := x\<lparr>mx_rec := mx_rec x - 1,
                       mx_owner := (if mx_rec x = 1 then 0 else mx_owner x)\<rparr>]\<rparr>)
         else Ret 1 s)"

definition create_sem :: "int \<Rightarrow> int \<Rightarrow> u32 \<Rightarrow> sys \<Rightarrow> outcome" where
  "create_sem initial maximum nh s = (case u32_create_sem initial maximum nh (g_sem s) of
     (h, e, T) \<Rightarrow> Ret h (err_opt e (s\<lparr>g_sem := T\<rparr>)))"

definition aret_CreateSemaphoreA :: "u32 \<Rightarrow> sys \<Rightarrow> outcome" where
  "aret_CreateSemaphoreA esp s = create_sem (WI esp 1 s) (WI esp 2 s) (u32_name_hash (mem s) (WU esp 3 s) False) s"

definition aret_CreateSemaphoreW :: "u32 \<Rightarrow> sys \<Rightarrow> outcome" where
  "aret_CreateSemaphoreW esp s = create_sem (WI esp 1 s) (WI esp 2 s) (u32_name_hash (mem s) (WU esp 3 s) True) s"

definition aret_OpenSemaphoreA :: "u32 \<Rightarrow> sys \<Rightarrow> outcome" where
  "aret_OpenSemaphoreA esp s = (case u32_open_sem (u32_name_hash (mem s) (WU esp 2 s) False) (g_sem s) of (h, e) \<Rightarrow> Ret h (err_opt e s))"

definition aret_OpenSemaphoreW :: "u32 \<Rightarrow> sys \<Rightarrow> outcome" where
  "aret_OpenSemaphoreW esp s = (case u32_open_sem (u32_name_hash (mem s) (WU esp 2 s) True) (g_sem s) of (h, e) \<Rightarrow> Ret h (err_opt e s))"

definition aret_ReleaseSemaphore :: "u32 \<Rightarrow> sys \<Rightarrow> outcome" where
  "aret_ReleaseSemaphore esp s = (case u32_sem_idx (g_sem s) (WU esp 0 s) of None \<Rightarrow> Ret 0 s
     | Some i \<Rightarrow> let x = g_sem s ! i; rel = WI esp 1 s in
         if rel \<le> 0 \<or> c_int (sm_count x + rel) > sm_max x then Ret 0 (set_error 298 s)
         else Ret 1 ((put32 (WU esp 2 s) (word_of_int (sm_count x)) s)
                \<lparr>g_sem := (g_sem s)[i := x\<lparr>sm_count := c_int (sm_count x + rel)\<rparr>]\<rparr>))"

end
