(* ===== verification/Aret_Fibers.thy ===== *)
theory Aret_Fibers
  imports Aret_Sync
begin

text \<open>
  Cooperative threads (\<^verbatim>\<open>runtime/aret_hle/aret_win32.c\<close>, lines 2403--2900 and the blocking
  operations of 2925--3140): what a wait handle's state means, the blocking calls as a part that
  runs until the fiber parks and a part that runs when it is resumed, thread creation and
  exit, the thread pool, and the scheduler's pass over the fiber table. A fiber that calls
  \<^verbatim>\<open>swapcontext\<close> stores the point it parks at in \<open>fb_ctx\<close>; \<open>resume\<close> continues there.
\<close>

section \<open>Signaled objects\<close>

definition POLLIN :: u32 where "POLLIN = 1"
definition POLLPRI :: u32 where "POLLPRI = 2"
definition POLLOUT :: u32 where "POLLOUT = 4"
definition POLLERR :: u32 where "POLLERR = 8"
definition POLLHUP :: u32 where "POLLHUP = 16"

definition wsa_poll_events :: "u32 \<Rightarrow> u32" where
  "wsa_poll_events msk =
     (if msk AND 0x29 \<noteq> 0 then POLLIN else 0) OR (if msk AND 0x12 \<noteq> 0 then POLLOUT else 0)
     OR (if msk AND 4 \<noteq> 0 then POLLPRI else 0)"

definition wsa_ready_events :: "(int \<Rightarrow> u32 \<Rightarrow> u32) \<Rightarrow> int \<Rightarrow> u32 \<Rightarrow> u32" where
  "wsa_ready_events poll fd msk = (let rev = poll fd (wsa_poll_events msk) in
     if rev = 0 then 0
     else (if rev AND POLLIN \<noteq> 0 then msk AND 0x29 else 0)
       OR (if rev AND POLLOUT \<noteq> 0 then msk AND 0x12 else 0)
       OR (if rev AND POLLPRI \<noteq> 0 then msk AND 4 else 0)
       OR (if rev AND (POLLHUP OR POLLERR) \<noteq> 0 then msk AND 0x20 else 0))"

definition wsa_fires :: "nat \<Rightarrow> sys \<Rightarrow> bool" where
  "wsa_fires ei s \<longleftrightarrow> ws_used (g_wsaevsel s ei)
     \<and> wsa_ready_events (g_poll s) (ws_fd (g_wsaevsel s ei)) (ws_mask (g_wsaevsel s ei)) \<noteq> 0"

definition u32_handle_signaled_for :: "u32 \<Rightarrow> nat \<Rightarrow> sys \<Rightarrow> bool \<times> sys" where
  "u32_handle_signaled_for h fi s =
     (case u32_thread_idx (g_fiber s) h of Some ti \<Rightarrow> (st_of s ti = FST_DONE, s)
      | None \<Rightarrow> case u32_event_idx (g_event s) h of
          Some ei \<Rightarrow>
            let s' = (if wsa_fires ei s
                      then s\<lparr>g_event := (g_event s)[ei := (g_event s ! ei)\<lparr>ev_signaled := True\<rparr>]\<rparr> else s)
            in (ev_signaled (g_event s' ! ei), s')
        | None \<Rightarrow> case u32_mutex_idx (g_mutex s) h of
            Some mi \<Rightarrow> let ow = mx_owner (g_mutex s ! mi)
              in (ow = 0 \<or> ow = fi + 1 \<or> st_of s (ow - 1) = FST_DONE, s)
          | None \<Rightarrow> case u32_sem_idx (g_sem s) h of
              Some si \<Rightarrow> (0 < sm_count (g_sem s ! si), s)
            | None \<Rightarrow> (True, s))"

fun wait_all_ok :: "u32 list \<Rightarrow> nat \<Rightarrow> sys \<Rightarrow> bool \<times> sys" where
  "wait_all_ok [] fi s = (True, s)"
| "wait_all_ok (h # hs) fi s = (case u32_handle_signaled_for h fi s of
     (True, s') \<Rightarrow> wait_all_ok hs fi s' | (False, s') \<Rightarrow> (False, s'))"

fun wait_any_ok :: "u32 list \<Rightarrow> nat \<Rightarrow> sys \<Rightarrow> bool \<times> sys" where
  "wait_any_ok [] fi s = (False, s)"
| "wait_any_ok (h # hs) fi s = (case u32_handle_signaled_for h fi s of
     (True, s') \<Rightarrow> (True, s') | (False, s') \<Rightarrow> wait_any_ok hs fi s')"

definition u32_wait_ok :: "nat \<Rightarrow> sys \<Rightarrow> bool \<times> sys" where
  "u32_wait_ok fi s = (if fb_wait_h (fib s fi) = [] then (True, s)
     else if fb_wait_all (fib s fi) then wait_all_ok (fb_wait_h (fib s fi)) fi s
     else wait_any_ok (fb_wait_h (fib s fi)) fi s)"

definition u32_handle_acquire :: "u32 \<Rightarrow> nat \<Rightarrow> sys \<Rightarrow> sys" where
  "u32_handle_acquire h me s =
     (case u32_event_idx (g_event s) h of
        Some ei \<Rightarrow> if ev_manual (g_event s ! ei) then s
          else s\<lparr>g_event := (g_event s)[ei := (g_event s ! ei)\<lparr>ev_signaled := False\<rparr>]\<rparr>
      | None \<Rightarrow> case u32_mutex_idx (g_mutex s) h of
          Some mi \<Rightarrow> s\<lparr>g_mutex := (g_mutex s)[mi := (g_mutex s ! mi)
                        \<lparr>mx_owner := me + 1, mx_rec := mx_rec (g_mutex s ! mi) + 1\<rparr>]\<rparr>
        | None \<Rightarrow> case u32_sem_idx (g_sem s) h of
            Some si \<Rightarrow> if 0 < sm_count (g_sem s ! si)
              then s\<lparr>g_sem := (g_sem s)[si := (g_sem s ! si)\<lparr>sm_count := sm_count (g_sem s ! si) - 1\<rparr>]\<rparr>
              else s
          | None \<Rightarrow> s)"

definition u32_fiber_runnable :: "nat \<Rightarrow> sys \<Rightarrow> bool \<times> sys" where
  "u32_fiber_runnable i s = (let f = fib s i in
     if fb_wait_srw f \<noteq> 0 then (u32_srw_acquirable (g_srw s) (fb_wait_srw f) (fb_wait_srw_excl f) i, s)
     else if fb_wait_cv f \<noteq> 0 then (0 < u32_cv_grants (g_cv s) (fb_wait_cv f), s)
     else if fb_wait_cs f \<noteq> 0 then (let ow = u32_cs_owner (g_cs s) (fb_wait_cs f) in ow = 0 \<or> ow = i + 1, s)
     else if fb_wait_h f = [] then (False, s)
     else u32_wait_ok i s)"

section \<open>Parking\<close>

definition u32_sched_ensure :: "sys \<Rightarrow> sys" where
  "u32_sched_ensure s = s\<lparr>g_sched_ready := True\<rparr>"

definition u32_to_sched :: "fiber_ctx \<Rightarrow> sys \<Rightarrow> outcome" where
  "u32_to_sched c s = Park (upd_fiber (g_cur s) (\<lambda>f. f\<lparr>fb_last_error := g_last_error s, fb_ctx := c\<rparr>) s)"

text \<open>\<^verbatim>\<open>f->state = FST_BLOCKED; u32_to_sched();\<close>\<close>

definition block_on :: "fiber_ctx \<Rightarrow> (u32_fiber \<Rightarrow> u32_fiber) \<Rightarrow> sys \<Rightarrow> outcome" where
  "block_on c g s = u32_to_sched c (upd_fiber (g_cur s) (\<lambda>f. (g f)\<lparr>fb_state := FST_BLOCKED\<rparr>) s)"

definition yield_to :: "fiber_ctx \<Rightarrow> sys \<Rightarrow> outcome" where
  "yield_to c s = u32_to_sched c (upd_fiber (g_cur s) (\<lambda>f. f\<lparr>fb_state := FST_READY\<rparr>) s)"

subsection \<open>Waiting for handles\<close>

definition handle_at :: "guest_mem \<Rightarrow> handle_src \<Rightarrow> nat \<Rightarrow> u32" where
  "handle_at m src i = (case src of HLocal h \<Rightarrow> h | HGuest p \<Rightarrow> ld32 m (p + 4 * of_nat i))"

fun first_signaled :: "u32 list \<Rightarrow> nat \<Rightarrow> nat \<Rightarrow> sys \<Rightarrow> nat \<times> sys" where
  "first_signaled [] i me s = (0, s)"
| "first_signaled (h # hs) i me s = (case u32_handle_signaled_for h me s of
     (True, s') \<Rightarrow> (i, s') | (False, s') \<Rightarrow> first_signaled hs (i + 1) me s')"

definition wait_finish :: "handle_src \<Rightarrow> nat \<Rightarrow> bool \<Rightarrow> sys \<Rightarrow> outcome" where
  "wait_finish src n all s = (let me = g_cur s;
       s1 = upd_fiber me (\<lambda>f. f\<lparr>fb_wait_h := []\<rparr>) s;
       hs = map (handle_at (mem s) src) [0..<n]
     in if all then Ret 0 (fold (\<lambda>h. u32_handle_acquire h me) hs s1)
        else case first_signaled hs 0 me s1 of
          (idx, s2) \<Rightarrow> Ret (of_nat idx) (u32_handle_acquire (handle_at (mem s) src idx) me s2))"

definition u32_wait :: "handle_src \<Rightarrow> nat \<Rightarrow> bool \<Rightarrow> u32 \<Rightarrow> sys \<Rightarrow> outcome" where
  "u32_wait src n0 all ms s = (let me = g_cur s; n = min n0 64;
       s1 = upd_fiber me (\<lambda>f. f\<lparr>fb_wait_h := map (handle_at (mem s) src) [0..<n], fb_wait_all := all\<rparr>) s
     in case u32_wait_ok me s1 of
          (True, s2) \<Rightarrow> wait_finish src n all s2
        | (False, s2) \<Rightarrow>
            if ms = 0 then Ret U32_WAIT_TIMEOUT (upd_fiber me (\<lambda>f. f\<lparr>fb_wait_h := []\<rparr>) s2)
            else block_on (CtxWait src n all)
                   (\<lambda>f. f\<lparr>fb_has_timeout := (ms \<noteq> U32_INFINITE), fb_wake_time := g_vclock s2 + ucast ms,
                          fb_timed_out := False\<rparr>) (u32_sched_ensure s2))"

definition wait_resume :: "handle_src \<Rightarrow> nat \<Rightarrow> bool \<Rightarrow> sys \<Rightarrow> outcome" where
  "wait_resume src n all s = (let me = g_cur s in case u32_wait_ok me s of
       (True, s2) \<Rightarrow> wait_finish src n all (upd_fiber me (\<lambda>f. f\<lparr>fb_has_timeout := False\<rparr>) s2)
     | (False, s2) \<Rightarrow>
         if fb_timed_out (fib s2 me)
         then Ret U32_WAIT_TIMEOUT (upd_fiber me (\<lambda>f. f\<lparr>fb_has_timeout := False, fb_wait_h := []\<rparr>) s2)
         else block_on (CtxWait src n all) id s2)"

definition u32_waitable :: "u32 \<Rightarrow> sys \<Rightarrow> bool" where
  "u32_waitable h s \<longleftrightarrow> u32_thread_idx (g_fiber s) h \<noteq> None \<or> u32_event_idx (g_event s) h \<noteq> None
     \<or> u32_mutex_idx (g_mutex s) h \<noteq> None \<or> u32_sem_idx (g_sem s) h \<noteq> None"

definition map_ret :: "(u32 \<Rightarrow> u32) \<Rightarrow> outcome \<Rightarrow> outcome" where
  "map_ret g r = (case r of Ret v s \<Rightarrow> Ret (g v) s | _ \<Rightarrow> r)"

text \<open>\<^verbatim>\<open>(r == U32_WAIT_TIMEOUT) ? r : 0\<close>\<close>

definition single_result :: "u32 \<Rightarrow> u32" where
  "single_result r = (if r = U32_WAIT_TIMEOUT then r else 0)"

definition aret_WaitForSingleObject :: "u32 \<Rightarrow> sys \<Rightarrow> outcome" where
  "aret_WaitForSingleObject esp s = (if \<not> u32_waitable (WU esp 0 s) s then Ret 0 s
     else map_ret single_result (u32_wait (HLocal (WU esp 0 s)) 1 True (WU esp 1 s) s))"

text \<open>
  The scan for a waitable handle reads all \<open>n\<close> entries of the guest's array first. For \<open>n \<ge> 2 ^ 31\<close>, where the cast \<^verbatim>\<open>(int)n\<close>
  behind it would be negative, that array is larger than the address space, so the code faults before it gets there.
\<close>

definition aret_WaitForMultipleObjects :: "u32 \<Rightarrow> sys \<Rightarrow> outcome" where
  "aret_WaitForMultipleObjects esp s = (let n = unat (WU esp 0 s); p = WU esp 1 s in
     if p = 0 \<or> n = 0 then Ret 0 s
     else if \<not> (\<exists>i < n. u32_waitable (handle_at (mem s) (HGuest p) i) s) then Ret 0 s
     else u32_wait (HGuest p) n (WI esp 2 s \<noteq> 0) (WU esp 3 s) s)"

definition aret_WaitForSingleObjectEx :: "u32 \<Rightarrow> sys \<Rightarrow> outcome" where
  "aret_WaitForSingleObjectEx esp s = aret_WaitForSingleObject esp s"

definition aret_WaitForMultipleObjectsEx :: "u32 \<Rightarrow> sys \<Rightarrow> outcome" where
  "aret_WaitForMultipleObjectsEx esp s = aret_WaitForMultipleObjects esp s"

definition aret_WSAWaitForMultipleEvents :: "u32 \<Rightarrow> sys \<Rightarrow> outcome" where
  "aret_WSAWaitForMultipleEvents esp s = (let n = unat (WU esp 0 s); p = WU esp 1 s in
     if p = 0 \<or> n = 0 then Ret 0x102 s
     else if \<not> (\<exists>i < n. u32_waitable (handle_at (mem s) (HGuest p) i) s) then Ret 0 s
     else u32_wait (HGuest p) n (WI esp 2 s \<noteq> 0) (WU esp 3 s) s)"

subsection \<open>Sleeping\<close>

definition u32_sleep :: "u32 \<Rightarrow> sys \<Rightarrow> outcome" where
  "u32_sleep ms s = block_on CtxSleep
     (\<lambda>f. f\<lparr>fb_wait_h := [], fb_wait_cs := 0, fb_has_timeout := True,
            fb_wake_time := g_vclock s + ucast ms, fb_timed_out := False\<rparr>) (u32_sched_ensure s)"

definition sleep_resume :: "sys \<Rightarrow> outcome" where
  "sleep_resume s = (if fb_timed_out (fib s (g_cur s))
     then Ret 0 (upd_fiber (g_cur s) (\<lambda>f. f\<lparr>fb_has_timeout := False\<rparr>) s)
     else block_on CtxSleep id s)"

text \<open>\<^verbatim>\<open>aret_Sleep\<close> with \<^verbatim>\<open>aret_fiber_sleep\<close>; without threads it is a host \<^verbatim>\<open>usleep\<close>.\<close>

definition aret_Sleep :: "u32 \<Rightarrow> sys \<Rightarrow> outcome" where
  "aret_Sleep esp s = (if \<not> g_sched_ready s then Ret 0 s
     else if WU esp 0 s = 0 then yield_to CtxYield s else u32_sleep (WU esp 0 s) s)"

subsection \<open>Critical sections, SRW locks and condition variables\<close>

definition cs_enter_try :: "fiber_ctx \<Rightarrow> u32 \<Rightarrow> u32 \<Rightarrow> nat \<Rightarrow> sys \<Rightarrow> outcome" where
  "cs_enter_try c r cs k s = (if cs_avail (g_cs s) k (g_cur s)
     then Ret r (s\<lparr>g_cs := cs_grab (g_cs s) k (g_cur s)\<rparr>)
     else block_on c (\<lambda>f. f\<lparr>fb_wait_cs := cs\<rparr>) (u32_sched_ensure s))"

definition aret_EnterCriticalSection :: "u32 \<Rightarrow> sys \<Rightarrow> outcome" where
  "aret_EnterCriticalSection esp s = (let cs = WU esp 0 s in case u32_cs_ensure (g_cs s) cs of
       None \<Rightarrow> Abort ''CriticalSection: table full''
     | Some (k, T) \<Rightarrow> cs_enter_try (CtxCs cs) 0 cs k (s\<lparr>g_cs := T\<rparr>))"

definition cs_resume :: "u32 \<Rightarrow> sys \<Rightarrow> outcome" where
  "cs_resume cs s = (let s1 = upd_fiber (g_cur s) (\<lambda>f. f\<lparr>fb_wait_cs := 0\<rparr>) s in
     case u32_cs_slot (g_cs s1) cs of None \<Rightarrow> Ret 0 s1
     | Some k \<Rightarrow> cs_enter_try (CtxCs cs) 0 cs k s1)"

definition u32_srw_acquire :: "fiber_ctx \<Rightarrow> u32 \<Rightarrow> u32 \<Rightarrow> bool \<Rightarrow> sys \<Rightarrow> outcome" where
  "u32_srw_acquire c r lock excl s = (if u32_srw_acquirable (g_srw s) lock excl (g_cur s)
     then (case u32_srw_take (g_srw s) lock excl (g_cur s) of None \<Rightarrow> Abort ''SRWLOCK: table full''
           | Some T \<Rightarrow> Ret r (s\<lparr>g_srw := T\<rparr>))
     else block_on c (\<lambda>f. f\<lparr>fb_wait_srw := lock, fb_wait_srw_excl := excl\<rparr>) (u32_sched_ensure s))"

definition srw_resume :: "fiber_ctx \<Rightarrow> u32 \<Rightarrow> u32 \<Rightarrow> bool \<Rightarrow> sys \<Rightarrow> outcome" where
  "srw_resume c r lock excl s = u32_srw_acquire c r lock excl (upd_fiber (g_cur s) (\<lambda>f. f\<lparr>fb_wait_srw := 0\<rparr>) s)"

definition aret_AcquireSRWLockExclusive :: "u32 \<Rightarrow> sys \<Rightarrow> outcome" where
  "aret_AcquireSRWLockExclusive esp s = u32_srw_acquire (CtxSrw (WU esp 0 s) True) 0 (WU esp 0 s) True s"

definition aret_AcquireSRWLockShared :: "u32 \<Rightarrow> sys \<Rightarrow> outcome" where
  "aret_AcquireSRWLockShared esp s = u32_srw_acquire (CtxSrw (WU esp 0 s) False) 0 (WU esp 0 s) False s"

text \<open>The lock \<^verbatim>\<open>u32_condvar_sleep\<close> gives up, and takes again before it returns \<open>ret\<close>.\<close>

definition condvar_release :: "u32 \<Rightarrow> bool \<Rightarrow> bool \<Rightarrow> sys \<Rightarrow> sys" where
  "condvar_release lock is_cs shared s = (if is_cs
     then (case u32_cs_slot (g_cs s) lock of None \<Rightarrow> s
           | Some k \<Rightarrow> s\<lparr>g_cs := (g_cs s)[k := (g_cs s ! k)\<lparr>cs_rec := 0, cs_owner := 0\<rparr>]\<rparr>)
     else s\<lparr>g_srw := u32_srw_release (g_srw s) lock (\<not> shared) (g_cur s)\<rparr>)"

definition condvar_reacquire :: "u32 \<Rightarrow> bool \<Rightarrow> bool \<Rightarrow> u32 \<Rightarrow> sys \<Rightarrow> outcome" where
  "condvar_reacquire lock is_cs shared ret s = (if is_cs
     then (case u32_cs_ensure (g_cs s) lock of None \<Rightarrow> Abort ''CriticalSection: table full''
           | Some (k, T) \<Rightarrow> cs_enter_try (CtxCvCs lock ret) ret lock k (s\<lparr>g_cs := T\<rparr>))
     else u32_srw_acquire (CtxCvSrw lock (\<not> shared) ret) ret lock (\<not> shared) s)"

definition u32_condvar_sleep :: "u32 \<Rightarrow> u32 \<Rightarrow> bool \<Rightarrow> bool \<Rightarrow> u32 \<Rightarrow> sys \<Rightarrow> outcome" where
  "u32_condvar_sleep cv lock is_cs shared ms s = (case u32_cv_ensure (g_cv s) cv of
       None \<Rightarrow> Abort ''CONDITION_VARIABLE: table full''
     | Some (k, T) \<Rightarrow>
         let s1 = u32_sched_ensure (condvar_release lock is_cs shared (s\<lparr>g_cv := T\<rparr>)) in
         if ms = 0 \<and> cv_grants (T ! k) = 0
         then condvar_reacquire lock is_cs shared 0 (set_error 0x102 s1)
         else block_on (CtxCv cv k lock is_cs shared)
           (\<lambda>f. f\<lparr>fb_wait_cv := cv, fb_has_timeout := (ms \<noteq> U32_INFINITE \<and> ms \<noteq> 0),
                  fb_wake_time := g_vclock s1 + ucast ms, fb_timed_out := False\<rparr>) s1)"

definition condvar_awake :: "u32 \<Rightarrow> bool \<Rightarrow> bool \<Rightarrow> u32 \<Rightarrow> sys \<Rightarrow> outcome" where
  "condvar_awake lock is_cs shared ret s = condvar_reacquire lock is_cs shared ret
     (upd_fiber (g_cur s) (\<lambda>f. f\<lparr>fb_wait_cv := 0, fb_has_timeout := False\<rparr>) s)"

definition condvar_resume :: "u32 \<Rightarrow> nat \<Rightarrow> u32 \<Rightarrow> bool \<Rightarrow> bool \<Rightarrow> sys \<Rightarrow> outcome" where
  "condvar_resume cv k lock is_cs shared s =
     (if 0 < cv_grants (g_cv s ! k)
      then condvar_awake lock is_cs shared 1
             (s\<lparr>g_cv := (g_cv s)[k := (g_cv s ! k)\<lparr>cv_grants := cv_grants (g_cv s ! k) - 1\<rparr>]\<rparr>)
      else if fb_timed_out (fib s (g_cur s)) then condvar_awake lock is_cs shared 0 (set_error 0x102 s)
      else block_on (CtxCv cv k lock is_cs shared) id s)"

definition condvar_cs_resume :: "u32 \<Rightarrow> u32 \<Rightarrow> sys \<Rightarrow> outcome" where
  "condvar_cs_resume lock ret s = condvar_reacquire lock True False ret
     (upd_fiber (g_cur s) (\<lambda>f. f\<lparr>fb_wait_cs := 0\<rparr>) s)"

definition aret_SleepConditionVariableSRW :: "u32 \<Rightarrow> sys \<Rightarrow> outcome" where
  "aret_SleepConditionVariableSRW esp s =
     u32_condvar_sleep (WU esp 0 s) (WU esp 1 s) False (WU esp 3 s AND 1 \<noteq> 0) (WU esp 2 s) s"

definition aret_SleepConditionVariableCS :: "u32 \<Rightarrow> sys \<Rightarrow> outcome" where
  "aret_SleepConditionVariableCS esp s = u32_condvar_sleep (WU esp 0 s) (WU esp 1 s) True False (WU esp 2 s) s"

section \<open>Threads\<close>

text \<open>
  \<open>ms\<close> is the machine stack \<^verbatim>\<open>malloc\<close> returned and \<open>hs\<close> whether the host stack was
  allocated: both come from the host.
\<close>

definition new_fiber :: "u32 \<Rightarrow> u32 \<Rightarrow> u32 \<Rightarrow> u32_fiber" where
  "new_fiber ms start param = fiber_zero\<lparr>fb_mstack := ms, fb_start := start, fb_param := param, fb_ctx := CtxEntry\<rparr>"

definition u32_spawn :: "bool \<Rightarrow> u32 \<Rightarrow> u32 \<Rightarrow> u32 \<Rightarrow> u32 \<Rightarrow> u32 \<Rightarrow> sys \<Rightarrow> outcome" where
  "u32_spawn hs ms start param flags pTid s =
     (if U32_MAX_FIBER \<le> g_nfiber s then Ret 0 (set_error 8 s)
      else if \<not> hs \<or> ms = 0 then Ret 0 (set_error 8 s)
      else let i = g_nfiber s;
               f = (new_fiber ms start param)
                     \<lparr>fb_state := (if flags AND 4 \<noteq> 0 then FST_SUSPENDED else FST_READY)\<rparr>;
               s1 = (u32_sched_ensure s)\<lparr>g_fiber := g_fiber s @ [f]\<rparr>
           in Ret (U32_THREAD_BASE OR of_nat i) (put32 pTid (0x1000 + of_nat i) s1))"

definition aret_CreateThread :: "bool \<Rightarrow> u32 \<Rightarrow> u32 \<Rightarrow> sys \<Rightarrow> outcome" where
  "aret_CreateThread hs ms esp s = u32_spawn hs ms (WU esp 2 s) (WU esp 3 s) (WU esp 4 s) (WU esp 5 s) s"

definition aret_beginthreadex :: "bool \<Rightarrow> u32 \<Rightarrow> u32 \<Rightarrow> sys \<Rightarrow> outcome" where
  "aret_beginthreadex hs ms esp s = u32_spawn hs ms (WU esp 2 s) (WU esp 3 s) (WU esp 4 s) (WU esp 5 s) s"

definition aret_beginthread :: "bool \<Rightarrow> u32 \<Rightarrow> u32 \<Rightarrow> sys \<Rightarrow> outcome" where
  "aret_beginthread hs ms esp s = u32_spawn hs ms (WU esp 0 s) (WU esp 2 s) 0 0 s"

definition aret_ResumeThread :: "u32 \<Rightarrow> sys \<Rightarrow> outcome" where
  "aret_ResumeThread esp s = (case u32_thread_idx (g_fiber s) (WU esp 0 s) of None \<Rightarrow> Ret (- 1) s
     | Some fi \<Rightarrow> if st_of s fi = FST_SUSPENDED
         then Ret 1 (upd_fiber fi (\<lambda>f. f\<lparr>fb_state := FST_READY\<rparr>) s) else Ret 0 s)"

definition aret_SuspendThread :: "u32 \<Rightarrow> sys \<Rightarrow> outcome" where
  "aret_SuspendThread esp s = Abort ''SuspendThread: cooperative fibers cannot pre-empt a running thread''"

text \<open>The running fiber ends: it is DONE and control goes to the scheduler for good.\<close>

definition fiber_exit :: "u32 \<Rightarrow> sys \<Rightarrow> outcome" where
  "fiber_exit code s = Park (upd_fiber (g_cur s)
     (\<lambda>f. f\<lparr>fb_exit_code := code, fb_last_error := g_last_error s, fb_state := FST_DONE, fb_ctx := CtxDead\<rparr>) s)"

definition aret_ExitThread :: "u32 \<Rightarrow> sys \<Rightarrow> outcome" where
  "aret_ExitThread esp s = (if g_cur s = 0 then Exit (WU esp 0 s) else fiber_exit (WU esp 0 s) s)"

definition aret_TerminateThread :: "u32 \<Rightarrow> sys \<Rightarrow> outcome" where
  "aret_TerminateThread esp s = (case u32_thread_resolve (WU esp 0 s) s of None \<Rightarrow> Ret 0 s
     | Some fi \<Rightarrow> let code = WU esp 1 s in
         if fi = g_cur s then (if g_cur s = 0 then Exit code else fiber_exit code s)
         else Ret 1 (upd_fiber fi (\<lambda>f. f\<lparr>fb_exit_code := code, fb_state := FST_DONE\<rparr>) s))"

definition aret_CreateProcess :: "u32 \<Rightarrow> sys \<Rightarrow> outcome" where
  "aret_CreateProcess esp s = Ret 0 (set_error 2 s)"

definition aret_GetExitCodeThread :: "u32 \<Rightarrow> sys \<Rightarrow> outcome" where
  "aret_GetExitCodeThread esp s = (let out = WU esp 1 s in
     case u32_thread_idx (g_fiber s) (WU esp 0 s) of None \<Rightarrow> Ret 0 (put32 out 0 s)
     | Some fi \<Rightarrow> Ret 1 (put32 out (if st_of s fi = FST_DONE then fb_exit_code (fib s fi) else 259) s))"

definition aret_SetThreadPriority :: "u32 \<Rightarrow> sys \<Rightarrow> outcome" where
  "aret_SetThreadPriority esp s = (case u32_thread_resolve (WU esp 0 s) s of None \<Rightarrow> Ret 0 s
     | Some fi \<Rightarrow> Ret 1 (upd_fiber fi (\<lambda>f. f\<lparr>fb_priority := WI esp 1 s\<rparr>) s))"

definition aret_GetThreadPriority :: "u32 \<Rightarrow> sys \<Rightarrow> outcome" where
  "aret_GetThreadPriority esp s = (case u32_thread_resolve (WU esp 0 s) s of None \<Rightarrow> Ret 0x7FFFFFFF s
     | Some fi \<Rightarrow> Ret (word_of_int (fb_priority (fib s fi))) s)"

text \<open>\<open>pid\<close> is the host's \<^verbatim>\<open>getpid()\<close>, \<open>nfd\<close> the result of its \<^verbatim>\<open>dup()\<close>.\<close>

definition aret_OpenProcess :: "u32 \<Rightarrow> u32 \<Rightarrow> sys \<Rightarrow> outcome" where
  "aret_OpenProcess pid esp s = (if WU esp 2 s = pid then Ret 0xFFFFFFFF s else Ret 0 (set_error 87 s))"

definition aret_DuplicateHandle :: "int \<Rightarrow> u32 \<Rightarrow> sys \<Rightarrow> outcome" where
  "aret_DuplicateHandle nfd esp s = (let src = WU esp 1 s; tgt = WU esp 3 s in
     case u32_thread_resolve src s of Some ti \<Rightarrow> Ret 1 (put32 tgt (U32_THREAD_BASE OR of_nat ti) s)
     | None \<Rightarrow>
         if src = 0xFFFFFFFF then Ret 1 (put32 tgt 0xFFFFFFFF s)
         else if u32_event_idx (g_event s) src \<noteq> None \<or> u32_mutex_idx (g_mutex s) src \<noteq> None
              \<or> u32_sem_idx (g_sem s) src \<noteq> None
         then Ret 1 (put32 tgt src s)
         else if nfd < 0 then Ret 0 (put32 tgt 0 s)
         else Ret 1 (put32 tgt (word_of_int nfd) s))"

section \<open>Thread-pool work\<close>

text \<open>\<open>p\<close> is the address \<^verbatim>\<open>calloc\<close> returned (0: it failed).\<close>

definition aret_CreateThreadpoolWork :: "u32 \<Rightarrow> u32 \<Rightarrow> sys \<Rightarrow> outcome" where
  "aret_CreateThreadpoolWork p esp s = (if p = 0 then Ret 0 (set_error 8 s)
     else Ret p (s\<lparr>g_tpwork := (g_tpwork s)(p \<mapsto>
            \<lparr>tp_cb = WU esp 0 s, tp_ctx = WU esp 1 s, tp_pending = 0, tp_cancelled = False\<rparr>)\<rparr>))"

definition bad_work :: outcome where
  "bad_work = Abort ''fault: no work item at this address''"

definition aret_SubmitThreadpoolWork :: "bool \<Rightarrow> u32 \<Rightarrow> u32 \<Rightarrow> sys \<Rightarrow> outcome" where
  "aret_SubmitThreadpoolWork hs ms esp s = (let p = WU esp 0 s in if p = 0 then Ret 0 s
     else if U32_MAX_FIBER \<le> g_nfiber s then Abort ''threadpool: fiber table full''
     else case g_tpwork s p of None \<Rightarrow> bad_work
     | Some w \<Rightarrow>
         if \<not> hs \<or> ms = 0 then Abort ''threadpool: out of memory''
         else let f = (new_fiber ms (tp_cb w) (tp_ctx w))
                        \<lparr>fb_pool_work := p, fb_is_pool := True, fb_state := FST_READY\<rparr>
              in Ret 0 ((u32_sched_ensure s)\<lparr>g_fiber := g_fiber s @ [f],
                   g_tpwork := (g_tpwork s)(p \<mapsto> w\<lparr>tp_pending := c_int (tp_pending w + 1)\<rparr>)\<rparr>))"

definition pool_wait :: "u32 \<Rightarrow> sys \<Rightarrow> outcome" where
  "pool_wait p s = (case g_tpwork s p of None \<Rightarrow> bad_work
     | Some w \<Rightarrow> if 0 < tp_pending w then yield_to (CtxPool p) s else Ret 0 s)"

definition aret_WaitForThreadpoolWorkCallbacks :: "u32 \<Rightarrow> sys \<Rightarrow> outcome" where
  "aret_WaitForThreadpoolWorkCallbacks esp s = (let p = WU esp 0 s in if p = 0 then Ret 0 s
     else case g_tpwork s p of None \<Rightarrow> bad_work
     | Some w \<Rightarrow> pool_wait p (u32_sched_ensure (if WI esp 1 s \<noteq> 0
         then s\<lparr>g_tpwork := (g_tpwork s)(p \<mapsto> w\<lparr>tp_cancelled := True\<rparr>)\<rparr> else s)))"

definition aret_CloseThreadpoolWork :: "u32 \<Rightarrow> sys \<Rightarrow> outcome" where
  "aret_CloseThreadpoolWork esp s = (let p = WU esp 0 s in if p = 0 then Ret 0 s
     else case g_tpwork s p of None \<Rightarrow> bad_work
     | Some w \<Rightarrow> Ret 0 (if tp_pending w = 0 then s\<lparr>g_tpwork := (g_tpwork s)(p := None)\<rparr> else s))"

section \<open>The trampoline\<close>

text \<open>What \<^verbatim>\<open>u32_fiber_trampoline\<close> does after \<^verbatim>\<open>aret_call\<close> returned \<open>r\<close> (or was skipped).\<close>

definition fiber_return :: "u32 \<Rightarrow> sys \<Rightarrow> outcome" where
  "fiber_return r s = (let me = g_cur s; f = fib s me; p = fb_pool_work f;
       fin = (\<lambda>code. upd_fiber me (\<lambda>f. f\<lparr>fb_exit_code := code, fb_state := FST_DONE, fb_ctx := CtxDead\<rparr>))
     in if fb_is_pool f
        then (if p = 0 then Park (fin 0 s)
              else case g_tpwork s p of None \<Rightarrow> bad_work
              | Some w \<Rightarrow> Park (fin 0 (s\<lparr>g_tpwork := (g_tpwork s)(p \<mapsto> w\<lparr>tp_pending := c_int (tp_pending w - 1)\<rparr>)\<rparr>)))
        else Park (fin r s))"

definition u32_fiber_trampoline :: "sys \<Rightarrow> outcome" where
  "u32_fiber_trampoline s = (let f = fib s (g_cur s); sp = fb_mstack f + 0x100000 - 64; p = fb_pool_work f in
     if fb_is_pool f
     then (if p = 0 then fiber_return 0 s
           else case g_tpwork s p of None \<Rightarrow> bad_work
           | Some w \<Rightarrow> if tp_cancelled w then fiber_return 0 s
               else Call (fb_start f) sp (s\<lparr>mem := st32 (st32 (st32 (st32 (mem s) sp 0)
                      (sp + 4) 0) (sp + 8) (fb_param f)) (sp + 12) p\<rparr>))
     else Call (fb_start f) sp (s\<lparr>mem := st32 (st32 (mem s) sp 0) (sp + 4) (fb_param f)\<rparr>))"

text \<open>Continuing the fiber the scheduler has just switched to.\<close>

definition resume :: "sys \<Rightarrow> outcome" where
  "resume s = (case fb_ctx (fib s (g_cur s)) of
       CtxWait src n all \<Rightarrow> (case src of HLocal h \<Rightarrow> map_ret single_result (wait_resume src n all s)
                             | HGuest p \<Rightarrow> wait_resume src n all s)
     | CtxSleep \<Rightarrow> sleep_resume s
     | CtxYield \<Rightarrow> Ret 0 s
     | CtxCs cs \<Rightarrow> cs_resume cs s
     | CtxSrw lock excl \<Rightarrow> srw_resume (CtxSrw lock excl) 0 lock excl s
     | CtxCv cv k lock is_cs shared \<Rightarrow> condvar_resume cv k lock is_cs shared s
     | CtxCvCs lock ret \<Rightarrow> condvar_cs_resume lock ret s
     | CtxCvSrw lock excl ret \<Rightarrow> srw_resume (CtxCvSrw lock excl ret) ret lock excl s
     | CtxPool p \<Rightarrow> pool_wait p s
     | CtxEntry \<Rightarrow> u32_fiber_trampoline s
     | CtxDead \<Rightarrow> Abort ''resumed a finished fiber''
     | CtxNone \<Rightarrow> Abort ''resumed a fiber that was never parked'')"

section \<open>The scheduler\<close>

definition wake_one :: "nat \<Rightarrow> sys \<Rightarrow> sys" where
  "wake_one i s = (if st_of s i = FST_BLOCKED
     then (case u32_fiber_runnable i s of
             (True, s') \<Rightarrow> upd_fiber i (\<lambda>f. f\<lparr>fb_state := FST_READY, fb_timed_out := False\<rparr>) s'
           | (False, s') \<Rightarrow> s')
     else s)"

definition wake_pass :: "sys \<Rightarrow> sys" where
  "wake_pass s = fold wake_one [0..<g_nfiber s] s"

text \<open>\<^verbatim>\<open>for (k = 1; k <= g_nfiber; k++)\<close> \<open>\<dots>\<close> \<^verbatim>\<open>(g_rr + k) % g_nfiber\<close>\<close>

definition sched_pick :: "sys \<Rightarrow> nat option" where
  "sched_pick s = map_option (\<lambda>k. (g_rr s + k) mod g_nfiber s)
     (first_idx (\<lambda>k. st_of s ((g_rr s + k) mod g_nfiber s) = FST_READY) 1 (g_nfiber s + 1))"

definition sched_earliest :: "u32_fiber list \<Rightarrow> u64" where
  "sched_earliest F = fold (\<lambda>f e. if fb_state f = FST_BLOCKED \<and> fb_has_timeout f \<and> fb_wake_time f < e
     then fb_wake_time f else e) F (- 1)"

definition fire_timeouts :: "u64 \<Rightarrow> u32_fiber \<Rightarrow> u32_fiber" where
  "fire_timeouts now f = (if fb_state f = FST_BLOCKED \<and> fb_has_timeout f \<and> fb_wake_time f \<le> now
     then f\<lparr>fb_state := FST_READY, fb_timed_out := True\<rparr> else f)"

definition socket_waits :: "sys \<Rightarrow> (int \<times> u32) list" where
  "socket_waits s = take U32_MAX_EVENT (concat (map (\<lambda>f.
     if fb_state f \<noteq> FST_BLOCKED then []
     else concat (map (\<lambda>h. case u32_event_idx (g_event s) h of None \<Rightarrow> []
            | Some e \<Rightarrow> if ws_used (g_wsaevsel s e)
                then [(ws_fd (g_wsaevsel s e), wsa_poll_events (ws_mask (g_wsaevsel s e)))] else [])
          (fb_wait_h f))) (g_fiber s)))"

datatype sched_res =
    Switch sys                          \<comment> \<open>\<^verbatim>\<open>swapcontext\<close> to fiber \<^verbatim>\<open>g_cur\<close>\<close>
  | Again sys                           \<comment> \<open>deadlines fired: \<^verbatim>\<open>continue\<close>\<close>
  | PollWait "(int \<times> u32) list" sys     \<comment> \<open>\<^verbatim>\<open>poll(pf, nf, -1); continue\<close>\<close>
  | Deadlock sys                        \<comment> \<open>\<^verbatim>\<open>aret_unmodelled\<close>\<close>
  | AllDone sys                         \<comment> \<open>\<^verbatim>\<open>return\<close>\<close>

definition u32_sched_pass :: "sys \<Rightarrow> sched_res" where
  "u32_sched_pass s = (let s1 = wake_pass s in case sched_pick s1 of
       Some i \<Rightarrow> Switch ((upd_fiber i (\<lambda>f. f\<lparr>fb_state := FST_RUNNING\<rparr>) s1)
                   \<lparr>g_rr := i, g_cur := i, g_last_error := fb_last_error (fib s1 i)\<rparr>)
     | None \<Rightarrow>
         let e = sched_earliest (g_fiber s1) in
         if e \<noteq> - 1 then Again (s1\<lparr>g_vclock := e, g_fiber := map (fire_timeouts e) (g_fiber s1)\<rparr>)
         else if socket_waits s1 \<noteq> [] then PollWait (socket_waits s1) s1
         else if \<exists>f \<in> set (g_fiber s1). fb_state f = FST_BLOCKED then Deadlock s1
         else AllDone s1)"

text \<open>
  The loop itself, until it switches to a fiber, ends, or waits for the host. Two rounds are
  always enough (\<open>sched_loop_total\<close>).
\<close>

fun u32_sched_loop :: "nat \<Rightarrow> sys \<Rightarrow> sched_res option" where
  "u32_sched_loop 0 s = None"
| "u32_sched_loop (Suc n) s = (case u32_sched_pass s of Again s' \<Rightarrow> u32_sched_loop n s' | r \<Rightarrow> Some r)"

section \<open>Sockets as event sources\<close>

definition aret_WSACreateEvent :: "u32 \<Rightarrow> sys \<Rightarrow> outcome" where
  "aret_WSACreateEvent esp s = create_event True False 0 s"

definition aret_WSASetEvent :: "u32 \<Rightarrow> sys \<Rightarrow> outcome" where
  "aret_WSASetEvent esp s = Ret 1 (event_put True (WU esp 0 s) s)"

definition aret_WSAResetEvent :: "u32 \<Rightarrow> sys \<Rightarrow> outcome" where
  "aret_WSAResetEvent esp s = Ret 1 (event_put False (WU esp 0 s) s)"

definition wsa_put :: "nat \<Rightarrow> wsa_ent \<Rightarrow> sys \<Rightarrow> sys" where
  "wsa_put e x s = s\<lparr>g_wsaevsel := (g_wsaevsel s)(e := x)\<rparr>"

definition aret_WSACloseEvent :: "u32 \<Rightarrow> sys \<Rightarrow> outcome" where
  "aret_WSACloseEvent esp s = Ret 1 (case u32_event_idx (g_event s) (WU esp 0 s) of None \<Rightarrow> s
     | Some e \<Rightarrow> wsa_put e ((g_wsaevsel s e)\<lparr>ws_used := False\<rparr>) s)"

definition aret_WSAEventSelect :: "u32 \<Rightarrow> sys \<Rightarrow> outcome" where
  "aret_WSAEventSelect esp s = (let fd = WI esp 0 s; msk = WU esp 2 s in
     case u32_event_idx (g_event s) (WU esp 1 s) of None \<Rightarrow> Ret 0xFFFFFFFF (set_error 10022 s)
     | Some e \<Rightarrow> Ret 0 (wsa_put e (if msk = 0 then (g_wsaevsel s e)\<lparr>ws_used := False\<rparr>
                                 else \<lparr>ws_used = True, ws_fd = fd, ws_mask = msk\<rparr>) s))"

definition aret_WSAEnumNetworkEvents :: "u32 \<Rightarrow> sys \<Rightarrow> outcome" where
  "aret_WSAEnumNetworkEvents esp s = (let fd = WI esp 0 s; out = WU esp 2 s;
       ei = u32_event_idx (g_event s) (WU esp 1 s);
       msk = (case ei of Some e \<Rightarrow> if ws_used (g_wsaevsel s e) then ws_mask (g_wsaevsel s e) else 0x3F
              | None \<Rightarrow> 0x3F);
       ready = wsa_ready_events (g_poll s) fd msk;
       s1 = (if out = 0 then s else s\<lparr>mem := st32 (st_bytes (mem s) out (replicate 44 0)) out ready\<rparr>)
     in Ret 0 (case ei of None \<Rightarrow> s1
          | Some e \<Rightarrow> s1\<lparr>g_event := (g_event s1)[e := (g_event s1 ! e)\<lparr>ev_signaled := False\<rparr>]\<rparr>))"

end
