(* ===== verification/Aret_Scheduler.thy ===== *)
theory Aret_Scheduler
  imports Aret_Fibers
begin

text \<open>
  What the cooperative scheduler guarantees: testing a wait condition changes nothing but the
  signaled flag of socket events, so the wake-up pass is the same in any order; the loop always
  decides in two rounds; it reports a deadlock exactly when there is one; the round-robin cursor
  moves every waiting fiber closer; and the virtual clock never goes back.
\<close>

section \<open>Testing a wait condition\<close>

text \<open>\<open>s'\<close> is \<open>s\<close> with some events signaled whose socket is ready.\<close>

definition touched :: "sys \<Rightarrow> sys \<Rightarrow> bool" where
  "touched s s' \<longleftrightarrow> (\<exists>E. s' = s\<lparr>g_event := E\<rparr> \<and> length E = length (g_event s)
     \<and> (\<forall>i < length E. E ! i = g_event s ! i \<or> wsa_fires i s \<and> E ! i = (g_event s ! i)\<lparr>ev_signaled := True\<rparr>))"

lemma touched_refl [simp, intro]: "touched s s"
  unfolding touched_def by (rule exI [of _ "g_event s"]) simp

lemma wsa_fires_cong:
  "g_wsaevsel s' = g_wsaevsel s \<Longrightarrow> g_poll s' = g_poll s \<Longrightarrow> wsa_fires i s' = wsa_fires i s"
  by (simp add: wsa_fires_def)

lemma touched_trans:
  assumes "touched s s'" "touched s' s''" shows "touched s s''"
proof -
  obtain E where E: "s' = s\<lparr>g_event := E\<rparr>" "length E = length (g_event s)"
    "\<And>i. i < length E \<Longrightarrow> E ! i = g_event s ! i \<or> wsa_fires i s \<and> E ! i = (g_event s ! i)\<lparr>ev_signaled := True\<rparr>"
    using assms(1) by (auto simp: touched_def)
  obtain D where D: "s'' = s'\<lparr>g_event := D\<rparr>" "length D = length (g_event s')"
    "\<And>i. i < length D \<Longrightarrow> D ! i = g_event s' ! i \<or> wsa_fires i s' \<and> D ! i = (g_event s' ! i)\<lparr>ev_signaled := True\<rparr>"
    using assms(2) by (auto simp: touched_def)
  have "D ! i = g_event s ! i \<or> wsa_fires i s \<and> D ! i = (g_event s ! i)\<lparr>ev_signaled := True\<rparr>"
    if "i < length D" for i
    using D(3) [OF that] E(3) [of i] that D(2) E(1)
    by (auto simp: wsa_fires_cong [of "s\<lparr>g_event := E\<rparr>" s])
  then show ?thesis
    unfolding touched_def using D(1,2) E(1,2) by (intro exI [of _ D]) simp
qed

lemma touched_same:
  assumes "touched s s'"
  shows "g_fiber s' = g_fiber s" "g_cur s' = g_cur s" "g_rr s' = g_rr s" "g_vclock s' = g_vclock s"
    "g_cs s' = g_cs s" "g_srw s' = g_srw s" "g_cv s' = g_cv s" "g_mutex s' = g_mutex s" "g_sem s' = g_sem s"
    "g_tpwork s' = g_tpwork s" "mem s' = mem s" "g_last_error s' = g_last_error s"
    "g_sched_ready s' = g_sched_ready s" "g_wsaevsel s' = g_wsaevsel s" "g_poll s' = g_poll s"
    "length (g_event s') = length (g_event s)" "wsa_fires i s' = wsa_fires i s"
  using assms by (auto simp: touched_def wsa_fires_def)

lemma touched_event:
  assumes "touched s s'" "i < length (g_event s)"
  shows "ev_used (g_event s' ! i) = ev_used (g_event s ! i)"
    "ev_manual (g_event s' ! i) = ev_manual (g_event s ! i)"
    "ev_signaled (g_event s' ! i) \<or> wsa_fires i s' \<longleftrightarrow> ev_signaled (g_event s ! i) \<or> wsa_fires i s"
proof -
  obtain E where E: "s' = s\<lparr>g_event := E\<rparr>" "length E = length (g_event s)"
    "E ! i = g_event s ! i \<or> wsa_fires i s \<and> E ! i = (g_event s ! i)\<lparr>ev_signaled := True\<rparr>"
    using assms by (auto simp: touched_def)
  have "wsa_fires i (s\<lparr>g_event := E\<rparr>) = wsa_fires i s" by (simp add: wsa_fires_def)
  with E show "ev_used (g_event s' ! i) = ev_used (g_event s ! i)"
    "ev_manual (g_event s' ! i) = ev_manual (g_event s ! i)"
    "ev_signaled (g_event s' ! i) \<or> wsa_fires i s' \<longleftrightarrow> ev_signaled (g_event s ! i) \<or> wsa_fires i s"
    by auto
qed

lemma touched_event_idx: "touched s s' \<Longrightarrow> u32_event_idx (g_event s') h = u32_event_idx (g_event s) h"
  by (rule evh.idx_same) (auto simp: touched_same touched_event)

text \<open>The answer of the test, as a predicate of the state alone.\<close>

definition signaled :: "u32 \<Rightarrow> nat \<Rightarrow> sys \<Rightarrow> bool" where
  "signaled h fi s =
     (case u32_thread_idx (g_fiber s) h of Some ti \<Rightarrow> st_of s ti = FST_DONE
      | None \<Rightarrow> case u32_event_idx (g_event s) h of Some ei \<Rightarrow> ev_signaled (g_event s ! ei) \<or> wsa_fires ei s
      | None \<Rightarrow> case u32_mutex_idx (g_mutex s) h of
          Some mi \<Rightarrow> mx_owner (g_mutex s ! mi) \<in> {0, fi + 1} \<or> st_of s (mx_owner (g_mutex s ! mi) - 1) = FST_DONE
      | None \<Rightarrow> case u32_sem_idx (g_sem s) h of Some si \<Rightarrow> 0 < sm_count (g_sem s ! si) | None \<Rightarrow> True)"

lemma handle_signaled_for:
  "\<exists>s'. u32_handle_signaled_for h fi s = (signaled h fi s, s') \<and> touched s s'"
proof (cases "u32_thread_idx (g_fiber s) h")
  case th: None
  show ?thesis
  proof (cases "u32_event_idx (g_event s) h")
    case None
    then show ?thesis
      using th by (auto simp: u32_handle_signaled_for_def signaled_def Let_def split: option.splits)
  next
    case (Some ei)
    then have l: "ei < length (g_event s)" using evh.idxD by blast
    let ?E = "(g_event s)[ei := (g_event s ! ei)\<lparr>ev_signaled := True\<rparr>]"
    have "touched s (s\<lparr>g_event := ?E\<rparr>)" if "wsa_fires ei s"
    proof -
      have "?E ! i = g_event s ! i \<or> wsa_fires i s \<and> ?E ! i = (g_event s ! i)\<lparr>ev_signaled := True\<rparr>" for i
        using that l by (cases "i = ei") auto
      then show ?thesis unfolding touched_def by (intro exI [of _ ?E]) simp
    qed
    then show ?thesis using th Some l
      by (auto simp: u32_handle_signaled_for_def signaled_def Let_def)
  qed
qed (auto simp: u32_handle_signaled_for_def signaled_def)

text \<open>
  Two states that agree on everything a wait condition looks at: the objects, up to events
  whose socket is ready, and which fibers are DONE.
\<close>

definition same_view :: "sys \<Rightarrow> sys \<Rightarrow> bool" where
  "same_view s s' \<longleftrightarrow> length (g_fiber s') = length (g_fiber s)
     \<and> (\<forall>i < g_nfiber s. (st_of s' i = FST_DONE) = (st_of s i = FST_DONE))
     \<and> touched s (s'\<lparr>g_fiber := g_fiber s\<rparr>)"

lemma same_view_refl [simp, intro]: "same_view s s"
  by (simp add: same_view_def)

lemma same_view_touched: "touched s s' \<Longrightarrow> same_view s s'"
proof -
  assume t: "touched s s'"
  then have e: "s'\<lparr>g_fiber := g_fiber s\<rparr> = s'" by (auto simp: touched_def)
  from t have "touched s (s'\<lparr>g_fiber := g_fiber s\<rparr>)" by (simp only: e)
  then show ?thesis by (simp add: same_view_def touched_same [OF t])
qed

definition owners_ok :: "sys \<Rightarrow> bool" where
  "owners_ok s \<longleftrightarrow> 0 < g_nfiber s \<and> (\<forall>x \<in> set (g_mutex s). mx_owner x \<le> g_nfiber s)"

lemma signaled_view:
  assumes v: "same_view s s'" and ow: "owners_ok s"
  shows "signaled h fi s' = signaled h fi s"
proof -
  let ?t = "s'\<lparr>g_fiber := g_fiber s\<rparr>"
  have t: "touched s ?t" and l: "length (g_fiber s') = length (g_fiber s)"
    and d: "\<And>i. i < g_nfiber s \<Longrightarrow> (st_of s' i = FST_DONE) = (st_of s i = FST_DONE)"
    using v by (auto simp: same_view_def)
  note same = touched_same [OF t, simplified]
  have th: "u32_thread_idx (g_fiber s') h = u32_thread_idx (g_fiber s) h"
    by (rule thh.idx_same) (auto simp: l)
  have ev: "u32_event_idx (g_event s') h = u32_event_idx (g_event s) h"
    using touched_event_idx [OF t, of h] by simp
  have f: "wsa_fires i s' = wsa_fires i s" for i
    by (rule wsa_fires_cong) (simp_all add: same)
  show ?thesis
  proof (cases "u32_thread_idx (g_fiber s) h")
    case (Some ti)
    then have "ti < g_nfiber s" using thh.idxD by blast
    with Some show ?thesis by (simp add: signaled_def th d)
  next
    case None
    show ?thesis
    proof (cases "u32_event_idx (g_event s) h")
      case (Some ei)
      then have "ei < length (g_event s)" using evh.idxD by blast
      with touched_event(3) [OF t this] show ?thesis
        using None Some by (simp add: signaled_def th ev f wsa_fires_cong [of ?t s'])
    next
      case ne: None
      show ?thesis
      proof (cases "u32_mutex_idx (g_mutex s) h")
        case (Some mi)
        then have "g_mutex s ! mi \<in> set (g_mutex s)" using mxh.idxD by auto
        then have "mx_owner (g_mutex s ! mi) \<le> g_nfiber s" "0 < g_nfiber s"
          using ow by (auto simp: owners_ok_def)
        then have "mx_owner (g_mutex s ! mi) - 1 < g_nfiber s" by linarith
        with d show ?thesis using None ne Some by (auto simp: signaled_def th ev same)
      qed (use None ne in \<open>auto simp: signaled_def th ev same split: option.splits\<close>)
    qed
  qed
qed

lemma signaled_touched: "touched s s' \<Longrightarrow> owners_ok s \<Longrightarrow> signaled h fi s' = signaled h fi s"
  by (simp add: signaled_view same_view_touched)

lemma owners_ok_touched: "touched s s' \<Longrightarrow> owners_ok s' = owners_ok s"
  by (simp add: owners_ok_def touched_same)

lemma wait_all_ok:
  "owners_ok s \<Longrightarrow> \<exists>s'. wait_all_ok hs fi s = ((\<forall>h \<in> set hs. signaled h fi s), s') \<and> touched s s'"
proof (induction hs arbitrary: s)
  case (Cons h hs)
  obtain s1 where s1: "u32_handle_signaled_for h fi s = (signaled h fi s, s1)" "touched s s1"
    using handle_signaled_for by blast
  obtain s2 where s2: "wait_all_ok hs fi s1 = ((\<forall>h \<in> set hs. signaled h fi s1), s2)" "touched s1 s2"
    using Cons.IH [of s1] Cons.prems s1 by (auto simp: owners_ok_touched)
  have "touched s s2" using touched_trans s1 s2 by blast
  then show ?case using s1 s2 Cons.prems
    by (cases "signaled h fi s") (auto simp: signaled_touched)
qed simp

lemma wait_any_ok:
  "owners_ok s \<Longrightarrow> \<exists>s'. wait_any_ok hs fi s = ((\<exists>h \<in> set hs. signaled h fi s), s') \<and> touched s s'"
proof (induction hs arbitrary: s)
  case (Cons h hs)
  obtain s1 where s1: "u32_handle_signaled_for h fi s = (signaled h fi s, s1)" "touched s s1"
    using handle_signaled_for by blast
  obtain s2 where s2: "wait_any_ok hs fi s1 = ((\<exists>h \<in> set hs. signaled h fi s1), s2)" "touched s1 s2"
    using Cons.IH [of s1] Cons.prems s1 by (auto simp: owners_ok_touched)
  have "touched s s2" using touched_trans s1 s2 by blast
  then show ?case using s1 s2 Cons.prems
    by (cases "signaled h fi s") (auto simp: signaled_touched)
qed simp

definition wait_sat :: "nat \<Rightarrow> sys \<Rightarrow> bool" where
  "wait_sat i s = (let f = fib s i in fb_wait_h f = [] \<or>
     (if fb_wait_all f then \<forall>h \<in> set (fb_wait_h f). signaled h i s
      else \<exists>h \<in> set (fb_wait_h f). signaled h i s))"

lemma wait_ok_spec:
  assumes "owners_ok s" obtains s' where "u32_wait_ok i s = (wait_sat i s, s')" "touched s s'"
proof -
  let ?hs = "fb_wait_h (fib s i)"
  obtain a where a: "wait_all_ok ?hs i s = ((\<forall>h \<in> set ?hs. signaled h i s), a)" "touched s a"
    using wait_all_ok [OF assms] by blast
  obtain b where b: "wait_any_ok ?hs i s = ((\<exists>h \<in> set ?hs. signaled h i s), b)" "touched s b"
    using wait_any_ok [OF assms] by blast
  have "u32_wait_ok i s = (wait_sat i s, if ?hs = [] then s else if fb_wait_all (fib s i) then a else b)"
    using a b by (simp add: u32_wait_ok_def wait_sat_def)
  then show thesis using that a b by (auto split: if_splits)
qed

text \<open>When the scheduler may wake fiber \<open>i\<close> for its reason to wait.\<close>

definition runnable :: "nat \<Rightarrow> sys \<Rightarrow> bool" where
  "runnable i s = (let f = fib s i in
     if fb_wait_srw f \<noteq> 0 then u32_srw_acquirable (g_srw s) (fb_wait_srw f) (fb_wait_srw_excl f) i
     else if fb_wait_cv f \<noteq> 0 then 0 < u32_cv_grants (g_cv s) (fb_wait_cv f)
     else if fb_wait_cs f \<noteq> 0 then u32_cs_owner (g_cs s) (fb_wait_cs f) \<in> {0, i + 1}
     else fb_wait_h f \<noteq> [] \<and> wait_sat i s)"

lemma fiber_runnable_spec:
  assumes "owners_ok s" obtains s' where "u32_fiber_runnable i s = (runnable i s, s')" "touched s s'"
proof -
  obtain s1 where s1: "u32_wait_ok i s = (wait_sat i s, s1)" "touched s s1"
    using wait_ok_spec [OF assms] .
  let ?q = "fb_wait_srw (fib s i) = 0 \<and> fb_wait_cv (fib s i) = 0 \<and> fb_wait_cs (fib s i) = 0 \<and> fb_wait_h (fib s i) \<noteq> []"
  have "u32_fiber_runnable i s = (runnable i s, if ?q then s1 else s)"
    using s1 by (auto simp: u32_fiber_runnable_def runnable_def Let_def)
  then show ?thesis using that s1(2) by (cases ?q) auto
qed


section \<open>The wake-up pass\<close>

definition woken :: "sys \<Rightarrow> nat \<Rightarrow> u32_fiber" where
  "woken s i = (if st_of s i = FST_BLOCKED \<and> runnable i s
     then (fib s i)\<lparr>fb_state := FST_READY, fb_timed_out := False\<rparr> else fib s i)"

lemma runnable_view:
  assumes "same_view s s'" "owners_ok s" "fib s' i = fib s i"
  shows "runnable i s' = runnable i s"
proof -
  have t: "touched s (s'\<lparr>g_fiber := g_fiber s\<rparr>)" using assms(1) by (simp add: same_view_def)
  have "wait_sat i s' = wait_sat i s"
    using assms by (simp add: wait_sat_def signaled_view)
  then show ?thesis
    using assms(3) touched_same [OF t, simplified] by (simp add: runnable_def)
qed

lemma fiber_upd_id: "s\<lparr>g_fiber := g_fiber s\<rparr> = (s :: sys)"
  by simp

lemma wake_one_spec:
  assumes v: "same_view s t" and ow: "owners_ok s" and i: "i < g_nfiber s" and e: "fib t i = fib s i"
  shows "same_view s (wake_one i t) \<and> g_fiber (wake_one i t) = (g_fiber t)[i := woken s i]"
proof -
  have l: "g_nfiber t = g_nfiber s" using v by (simp add: same_view_def)
  have "touched s (t\<lparr>g_fiber := g_fiber s\<rparr>)" using v by (simp add: same_view_def)
  from touched_same(8) [OF this] have "owners_ok t" using ow l by (simp add: owners_ok_def)
  then obtain t' where t': "u32_fiber_runnable i t = (runnable i t, t')" "touched t t'"
    by (rule fiber_runnable_spec)
  have lu: "(g_fiber t)[i := fib s i] = g_fiber t" by (metis e list_update_id)
  have "runnable i t = runnable i s" by (rule runnable_view [OF v ow e])
  then have w: "wake_one i t = (if st_of s i = FST_BLOCKED then t'\<lparr>g_fiber := (g_fiber t)[i := woken s i]\<rparr> else t)"
    using t' e i l touched_same(1) [OF t'(2)] lu fiber_upd_id [of t']
    by (auto simp: wake_one_def woken_def upd_fiber_def)
  have ws: "(fb_state (woken s i) = FST_DONE) = (st_of s i = FST_DONE)"
    by (auto simp: woken_def)
  have tt: "touched s (t'\<lparr>g_fiber := g_fiber s\<rparr>)"
  proof (rule touched_trans)
    show "touched s (t\<lparr>g_fiber := g_fiber s\<rparr>)" using v by (simp add: same_view_def)
    obtain E where "t' = t\<lparr>g_event := E\<rparr>" "length E = length (g_event t)"
      "\<forall>i < length E. E ! i = g_event t ! i \<or> wsa_fires i t \<and> E ! i = (g_event t ! i)\<lparr>ev_signaled := True\<rparr>"
      using t'(2) by (auto simp: touched_def)
    then show "touched (t\<lparr>g_fiber := g_fiber s\<rparr>) (t'\<lparr>g_fiber := g_fiber s\<rparr>)"
      unfolding touched_def by (intro exI [of _ E]) (simp add: wsa_fires_def)
  qed
  have "woken s i = fib t i" if "st_of s i \<noteq> FST_BLOCKED" using that e by (simp add: woken_def)
  moreover have "(fb_state ((g_fiber t)[i := woken s i] ! j) = FST_DONE) = (st_of s j = FST_DONE)"
      if "j < g_nfiber s" for j
    using that ws v by (cases "j = i") (auto simp: same_view_def)
  ultimately show ?thesis
    using w tt v l by (auto simp: same_view_def)
qed

lemma wake_fold:
  assumes "owners_ok s" "k \<le> g_nfiber s"
  shows "same_view s (fold wake_one [0..<k] s)
    \<and> g_fiber (fold wake_one [0..<k] s) = map (woken s) [0..<k] @ drop k (g_fiber s)"
  using assms(2)
proof (induction k)
  case (Suc k)
  let ?t = "fold wake_one [0..<k] s"
  have ih: "same_view s ?t" "g_fiber ?t = map (woken s) [0..<k] @ drop k (g_fiber s)"
    using Suc by auto
  have "fib ?t k = fib s k" using ih(2) Suc.prems by (simp add: nth_append)
  from wake_one_spec [OF ih(1) assms(1) _ this] Suc.prems
  have "same_view s (wake_one k ?t)" "g_fiber (wake_one k ?t) = (g_fiber ?t)[k := woken s k]" by auto
  moreover have "(g_fiber ?t)[k := woken s k] = map (woken s) [0..<Suc k] @ drop (Suc k) (g_fiber s)"
    using Suc.prems by (simp add: ih(2) list_update_append Cons_nth_drop_Suc [symmetric])
  ultimately show ?case by simp
qed simp

lemma wake_pass_spec:
  assumes "owners_ok s"
  shows "same_view s (wake_pass s)" "g_fiber (wake_pass s) = map (woken s) [0..<g_nfiber s]"
  using wake_fold [OF assms, of "g_nfiber s"] by (auto simp: wake_pass_def)

lemma wake_pass_same:
  assumes "owners_ok s"
  shows "g_rr (wake_pass s) = g_rr s" "g_cur (wake_pass s) = g_cur s" "g_vclock (wake_pass s) = g_vclock s"
    "g_cs (wake_pass s) = g_cs s" "g_srw (wake_pass s) = g_srw s" "g_cv (wake_pass s) = g_cv s"
    "g_mutex (wake_pass s) = g_mutex s" "g_sem (wake_pass s) = g_sem s" "g_tpwork (wake_pass s) = g_tpwork s"
    "mem (wake_pass s) = mem s" "g_last_error (wake_pass s) = g_last_error s"
    "length (g_event (wake_pass s)) = length (g_event s)" "g_nfiber (wake_pass s) = g_nfiber s"
proof -
  have "touched s ((wake_pass s)\<lparr>g_fiber := g_fiber s\<rparr>)"
    using wake_pass_spec(1) [OF assms] by (simp add: same_view_def)
  from touched_same [OF this, simplified]
  show "g_rr (wake_pass s) = g_rr s" "g_cur (wake_pass s) = g_cur s" "g_vclock (wake_pass s) = g_vclock s"
    "g_cs (wake_pass s) = g_cs s" "g_srw (wake_pass s) = g_srw s" "g_cv (wake_pass s) = g_cv s"
    "g_mutex (wake_pass s) = g_mutex s" "g_sem (wake_pass s) = g_sem s" "g_tpwork (wake_pass s) = g_tpwork s"
    "mem (wake_pass s) = mem s" "g_last_error (wake_pass s) = g_last_error s"
    "length (g_event (wake_pass s)) = length (g_event s)" by auto
  show "g_nfiber (wake_pass s) = g_nfiber s" using wake_pass_spec(2) [OF assms] by simp
qed

section \<open>Picking a fiber\<close>

lemma sched_pick_Some:
  assumes "sched_pick s = Some i" "0 < g_nfiber s"
  shows "i < g_nfiber s \<and> st_of s i = FST_READY"
  using assms by (auto simp: sched_pick_def first_idx_Some_iff)

lemma rr_reach:
  assumes "i < n" "rr < n" shows "\<exists>k. 1 \<le> k \<and> k \<le> n \<and> (rr + k) mod n = (i :: nat)"
proof (cases "rr < i")
  case True
  then have "(rr + (i - rr)) mod n = i" "1 \<le> i - rr" "i - rr \<le> n" using assms by simp_all
  then show ?thesis by blast
next
  case False
  then have "rr + (n - (rr - i)) = n + i" "1 \<le> n - (rr - i)" "n - (rr - i) \<le> n" using assms by simp_all
  then have "(rr + (n - (rr - i))) mod n = i" using assms by simp
  then show ?thesis using \<open>1 \<le> n - (rr - i)\<close> \<open>n - (rr - i) \<le> n\<close> by blast
qed

lemma sched_pick_None:
  assumes "g_rr s < g_nfiber s"
  shows "sched_pick s = None \<longleftrightarrow> (\<forall>i < g_nfiber s. st_of s i \<noteq> FST_READY)"
proof
  assume "sched_pick s = None"
  then have n: "\<forall>k. 1 \<le> k \<and> k < g_nfiber s + 1 \<longrightarrow> st_of s ((g_rr s + k) mod g_nfiber s) \<noteq> FST_READY"
    by (simp add: sched_pick_def first_idx_None_iff)
  show "\<forall>i < g_nfiber s. st_of s i \<noteq> FST_READY"
  proof (intro allI impI)
    fix i assume "i < g_nfiber s"
    then obtain k where "1 \<le> k" "k \<le> g_nfiber s" "(g_rr s + k) mod g_nfiber s = i"
      using rr_reach assms by blast
    with n show "st_of s i \<noteq> FST_READY" by auto
  qed
next
  assume "\<forall>i < g_nfiber s. st_of s i \<noteq> FST_READY"
  moreover have "(g_rr s + k) mod g_nfiber s < g_nfiber s" for k by (rule mod_less_divisor) (use assms in linarith)
  ultimately show "sched_pick s = None" by (simp add: sched_pick_def first_idx_None_iff)
qed

text \<open>How many other fibers the round-robin cursor visits before \<open>i\<close>.\<close>

definition rr_dist :: "nat \<Rightarrow> nat \<Rightarrow> nat \<Rightarrow> nat" where
  "rr_dist n rr i = (i + n - rr - 1) mod n"

lemma rr_dist_step:
  assumes "rr < n" "i < n" "1 \<le> k" "k \<le> n"
  shows "(rr + k) mod n = i \<longleftrightarrow> k = rr_dist n rr i + 1"
proof -
  have "i + n - rr - 1 < n \<or> n \<le> i + n - rr - 1" by auto
  then consider "rr < i" "rr_dist n rr i = i - rr - 1" | "i \<le> rr" "rr_dist n rr i = i + n - rr - 1"
    using assms by (auto simp: rr_dist_def le_mod_geq)
  then show ?thesis using assms by cases (auto simp: mod_if)
qed

lemma sched_pick_closer:
  assumes p: "sched_pick s = Some p" and i: "st_of s i = FST_READY" "i < g_nfiber s" "p \<noteq> i"
    and rr: "g_rr s < g_nfiber s"
  shows "rr_dist (g_nfiber s) p i < rr_dist (g_nfiber s) (g_rr s) i"
proof -
  let ?n = "g_nfiber s"
  obtain k where k: "1 \<le> k" "k < ?n + 1" "p = (g_rr s + k) mod ?n"
      "\<forall>j. 1 \<le> j \<and> j < k \<longrightarrow> st_of s ((g_rr s + j) mod ?n) \<noteq> FST_READY"
    using p by (auto simp: sched_pick_def first_idx_Some_iff)
  let ?d = "rr_dist ?n (g_rr s) i"
  have d: "?d < ?n" unfolding rr_dist_def by (rule mod_less_divisor) (use rr in linarith)
  have "(g_rr s + (?d + 1)) mod ?n = i" using rr_dist_step [OF rr i(2), of "?d + 1"] d by simp
  then have "k \<le> ?d + 1" using k(4) i(1) by (metis le_add2 not_le)
  moreover have "k \<noteq> ?d + 1" using \<open>(g_rr s + (?d + 1)) mod ?n = i\<close> k(3) i(3) by auto
  ultimately have kd: "k < ?d + 1" by simp
  have pn: "p < ?n" unfolding k(3) by (rule mod_less_divisor) (use rr in linarith)
  have "(p + (?d + 1 - k)) mod ?n = (g_rr s + k + (?d + 1 - k)) mod ?n"
    by (simp add: k(3) mod_add_left_eq)
  also have "\<dots> = i" using kd \<open>(g_rr s + (?d + 1)) mod ?n = i\<close> by simp
  finally have "?d + 1 - k = rr_dist ?n p i + 1"
    using rr_dist_step [OF pn i(2), of "?d + 1 - k"] kd d by simp
  then show ?thesis using k(1) by simp
qed


section \<open>The clock\<close>

abbreviation timed :: "u32_fiber \<Rightarrow> bool" where
  "timed f \<equiv> fb_state f = FST_BLOCKED \<and> fb_has_timeout f"

lemma min_Min_insert:
  fixes a w :: "'b::linorder"
  assumes "finite W"
  shows "min a (Min (insert w W)) = Min (insert (if w < a then w else a) W)"
proof (cases "W = {}")
  case False
  then have "Min (insert x W) = min x (Min W)" for x using assms by (rule Min_insert [rotated])
  then show ?thesis by (auto simp: min_def)
qed (auto simp: min_def)

lemma earliest_fold:
  "fold (\<lambda>f e. if fb_state f = FST_BLOCKED \<and> fb_has_timeout f \<and> fb_wake_time f < e then fb_wake_time f else e) F a
     = Min (insert a (fb_wake_time ` {f \<in> set F. timed f}))"
proof (induction F arbitrary: a)
  case (Cons f F)
  let ?W = "fb_wake_time ` {f \<in> set F. timed f}"
  have fin: "finite ?W" by simp
  show ?case
  proof (cases "timed f")
    case True
    then have "{g \<in> set (f # F). timed g} = insert f {g \<in> set F. timed g}" by auto
    then have "Min (insert a (fb_wake_time ` {g \<in> set (f # F). timed g})) = min a (Min (insert (fb_wake_time f) ?W))"
      using fin by (simp add: Min_insert)
    also have "\<dots> = Min (insert (if fb_wake_time f < a then fb_wake_time f else a) ?W)"
      by (rule min_Min_insert [OF fin])
    finally show ?thesis using Cons.IH True by simp
  next
    case False
    then have "{g \<in> set (f # F). timed g} = {g \<in> set F. timed g}" by auto
    then show ?thesis using Cons.IH [of a] False by auto
  qed
qed simp

lemma max_word_le: "(w :: u64) \<le> - 1"
  by simp

lemma sched_earliest_le:
  assumes "f \<in> set F" "timed f" shows "sched_earliest F \<le> fb_wake_time f"
  unfolding sched_earliest_def earliest_fold by (rule Min_le) (use assms in auto)

lemma sched_earliest_hit:
  assumes "sched_earliest F \<noteq> - 1"
  obtains f where "f \<in> set F" "timed f" "fb_wake_time f = sched_earliest F"
proof -
  have "Min (insert (- 1) (fb_wake_time ` {f \<in> set F. timed f}))
      \<in> insert (- 1) (fb_wake_time ` {f \<in> set F. timed f})"
    by (rule Min_in) auto
  then have "sched_earliest F \<in> fb_wake_time ` {f \<in> set F. timed f}"
    using assms unfolding sched_earliest_def earliest_fold by auto
  with that show ?thesis by auto
qed

section \<open>One round of the loop\<close>

lemma woken_READY: "fb_state (woken s i) = FST_READY \<longleftrightarrow>
    st_of s i = FST_READY \<or> st_of s i = FST_BLOCKED \<and> runnable i s"
  by (auto simp: woken_def)

lemma woken_BLOCKED: "fb_state (woken s i) = FST_BLOCKED \<longleftrightarrow> st_of s i = FST_BLOCKED \<and> \<not> runnable i s"
  by (auto simp: woken_def)

lemma pass_pick:
  assumes "owners_ok s" "g_rr s < g_nfiber s"
  shows "sched_pick (wake_pass s) = None \<longleftrightarrow>
    (\<forall>i < g_nfiber s. st_of s i \<noteq> FST_READY \<and> \<not> (st_of s i = FST_BLOCKED \<and> runnable i s))"
  using sched_pick_None [of "wake_pass s"] assms
  by (auto simp: wake_pass_same wake_pass_spec(2) woken_READY)

text \<open>A fired deadline makes a fiber READY, so the next round switches.\<close>

lemma pass_after_timeout:
  assumes ow: "owners_ok s" and rr: "g_rr s < g_nfiber s" and a: "u32_sched_pass s = Again s'"
  shows "\<exists>t. u32_sched_pass s' = Switch t"
proof -
  let ?s1 = "wake_pass s"
  let ?e = "sched_earliest (g_fiber ?s1)"
  have e: "?e \<noteq> - 1" "s' = ?s1\<lparr>g_vclock := ?e, g_fiber := map (fire_timeouts ?e) (g_fiber ?s1)\<rparr>"
    using a by (auto simp: u32_sched_pass_def Let_def split: option.splits if_splits)
  obtain f where f: "f \<in> set (g_fiber ?s1)" "timed f" "fb_wake_time f = ?e"
    using sched_earliest_hit [OF e(1)] .
  then obtain i where i: "i < g_nfiber ?s1" "fib ?s1 i = f" by (auto simp: in_set_conv_nth)
  have n: "g_nfiber s' = g_nfiber s" using e(2) by (simp add: wake_pass_same [OF ow])
  have st: "st_of s' i = FST_READY" using i f by (simp add: e(2) fire_timeouts_def)
  have ow': "owners_ok s'" using ow n by (simp add: owners_ok_def e(2) wake_pass_same [OF ow])
  have rr': "g_rr s' < g_nfiber s'" using rr n e(2) by (simp add: wake_pass_same [OF ow])
  have "sched_pick (wake_pass s') \<noteq> None"
    using pass_pick [OF ow' rr'] st i n wake_pass_same(13) [OF ow] by auto
  then show ?thesis by (auto simp: u32_sched_pass_def Let_def)
qed

lemma sched_loop_total:
  assumes "owners_ok s" "g_rr s < g_nfiber s"
  shows "\<exists>r. u32_sched_loop (Suc (Suc n)) s = Some r"
proof (cases "u32_sched_pass s")
  case (Again s')
  then obtain t where "u32_sched_pass s' = Switch t" using pass_after_timeout [OF assms] by blast
  with Again show ?thesis by simp
qed simp_all

lemma pass_switch:
  assumes ow: "owners_ok s" and p: "u32_sched_pass s = Switch s'"
  obtains i where "i < g_nfiber s" "g_cur s' = i" "g_rr s' = i" "sched_pick (wake_pass s) = Some i"
    "s' = (upd_fiber i (\<lambda>f. f\<lparr>fb_state := FST_RUNNING\<rparr>) (wake_pass s))
       \<lparr>g_rr := i, g_cur := i, g_last_error := fb_last_error (fib (wake_pass s) i)\<rparr>"
    "st_of s i = FST_READY \<or> st_of s i = FST_BLOCKED \<and> runnable i s"
proof -
  obtain i where i: "sched_pick (wake_pass s) = Some i"
    "s' = (upd_fiber i (\<lambda>f. f\<lparr>fb_state := FST_RUNNING\<rparr>) (wake_pass s))
       \<lparr>g_rr := i, g_cur := i, g_last_error := fb_last_error (fib (wake_pass s) i)\<rparr>"
    using p by (auto simp: u32_sched_pass_def Let_def split: option.splits if_splits)
  have "0 < g_nfiber (wake_pass s)" using ow by (simp add: owners_ok_def wake_pass_same [OF ow])
  from sched_pick_Some [OF i(1) this] have "i < g_nfiber s" "st_of (wake_pass s) i = FST_READY"
    by (auto simp: wake_pass_same [OF ow])
  moreover from this have "st_of s i = FST_READY \<or> st_of s i = FST_BLOCKED \<and> runnable i s"
    by (simp add: wake_pass_spec(2) [OF ow] woken_READY)
  ultimately show ?thesis using that [of i] i by (simp add: upd_fiber_def)
qed

lemma pass_deadlock:
  assumes ow: "owners_ok s" and rr: "g_rr s < g_nfiber s"
  shows "(\<exists>s'. u32_sched_pass s = Deadlock s') \<longleftrightarrow>
    (\<exists>i < g_nfiber s. st_of s i = FST_BLOCKED) \<and>
    (\<forall>i < g_nfiber s. st_of s i \<noteq> FST_READY \<and>
       (st_of s i = FST_BLOCKED \<longrightarrow> \<not> runnable i s \<and> \<not> (fb_has_timeout (fib s i) \<and> fb_wake_time (fib s i) \<noteq> - 1))) \<and>
    socket_waits (wake_pass s) = []"
    (is "?L \<longleftrightarrow> ?B \<and> ?N \<and> ?S")
proof -
  let ?s1 = "wake_pass s"
  have F: "g_fiber ?s1 = map (woken s) [0..<g_nfiber s]" by (rule wake_pass_spec [OF ow])
  have L: "?L \<longleftrightarrow> sched_pick ?s1 = None \<and> sched_earliest (g_fiber ?s1) = - 1 \<and> ?S
      \<and> (\<exists>f \<in> set (g_fiber ?s1). fb_state f = FST_BLOCKED)"
    by (auto simp: u32_sched_pass_def Let_def split: option.splits)
  let ?P = "\<forall>i < g_nfiber s. st_of s i \<noteq> FST_READY \<and> \<not> (st_of s i = FST_BLOCKED \<and> runnable i s)"
  have same: "map (woken s) [0..<g_nfiber s] = g_fiber s" if ?P
    using that by (intro nth_equalityI) (auto simp: woken_def)
  have e: "sched_earliest (g_fiber s) = - 1 \<longleftrightarrow> (\<forall>i < g_nfiber s. timed (fib s i) \<longrightarrow> fb_wake_time (fib s i) = - 1)"
  proof
    assume "sched_earliest (g_fiber s) = - 1"
    then show "\<forall>i < g_nfiber s. timed (fib s i) \<longrightarrow> fb_wake_time (fib s i) = - 1"
      using sched_earliest_le [of _ "g_fiber s"] by (metis nth_mem order_antisym max_word_le)
  next
    assume "\<forall>i < g_nfiber s. timed (fib s i) \<longrightarrow> fb_wake_time (fib s i) = - 1"
    then show "sched_earliest (g_fiber s) = - 1"
      using sched_earliest_hit [of "g_fiber s"] by (metis in_set_conv_nth)
  qed
  have "?L \<longleftrightarrow> ?P \<and> sched_earliest (g_fiber s) = - 1 \<and> ?S \<and> (\<exists>f \<in> set (g_fiber s). fb_state f = FST_BLOCKED)"
    unfolding L pass_pick [OF ow rr] F using same by metis
  also have "\<dots> \<longleftrightarrow> ?B \<and> ?N \<and> ?S" unfolding e by (auto simp: in_set_conv_nth Bex_def)
  finally show ?thesis .
qed

end
