(* ===== verification/Aret_Machine.thy ===== *)
theory Aret_Machine
  imports Aret_Scheduler
begin

text \<open>
  The cooperative machine as a whole: lifted code calls the shims of \<open>Aret_Sync\<close> and
  \<open>Aret_Fibers\<close>, a parked fiber hands control to the scheduler, the scheduler resumes another.
  Its invariant says that every table is within its bounds, that ownership and recursion counts
  agree, and that every parked fiber waits for exactly what its saved context will test again.
\<close>

named_theorems shim_ok \<open>every shim keeps the machine invariant\<close>

section \<open>The invariant\<close>

definition cs_ok :: "nat \<Rightarrow> cs_ent list \<Rightarrow> bool" where
  "cs_ok n T \<longleftrightarrow> distinct (map cs_key T) \<and> length T \<le> U32_MAX_CS
     \<and> (\<forall>e \<in> set T. cs_owner e \<le> n \<and> (cs_owner e = 0 \<longleftrightarrow> cs_rec e = 0))"

definition srw_ok :: "nat \<Rightarrow> srw_ent list \<Rightarrow> bool" where
  "srw_ok n T \<longleftrightarrow> distinct (map srw_key T) \<and> length T \<le> U32_MAX_SRW \<and> (\<forall>e \<in> set T. srw_writer e \<le> n)"

definition cv_ok :: "cv_ent list \<Rightarrow> bool" where
  "cv_ok T \<longleftrightarrow> distinct (map cv_key T) \<and> length T \<le> U32_MAX_CV"

definition mx_ok :: "nat \<Rightarrow> mutex_ent list \<Rightarrow> bool" where
  "mx_ok n T \<longleftrightarrow> length T \<le> U32_MAX_MUTEX
     \<and> (\<forall>e \<in> set T. mx_used e \<and> mx_owner e \<le> n \<and> (mx_owner e = 0 \<longleftrightarrow> mx_rec e = 0))"

definition core :: "sys \<Rightarrow> bool" where
  "core s \<longleftrightarrow> 0 < g_nfiber s \<and> g_nfiber s \<le> U32_MAX_FIBER \<and> g_cur s < g_nfiber s \<and> g_rr s < g_nfiber s
     \<and> cs_ok (g_nfiber s) (g_cs s) \<and> srw_ok (g_nfiber s) (g_srw s) \<and> cv_ok (g_cv s)
     \<and> mx_ok (g_nfiber s) (g_mutex s) \<and> length (g_event s) \<le> U32_MAX_EVENT \<and> length (g_sem s) \<le> U32_MAX_SEM"

text \<open>A running fiber waits for nothing.\<close>

definition idle :: "u32_fiber \<Rightarrow> bool" where
  "idle f \<longleftrightarrow> fb_wait_srw f = 0 \<and> fb_wait_cv f = 0 \<and> fb_wait_cs f = 0 \<and> fb_wait_h f = [] \<and> \<not> fb_has_timeout f"

text \<open>What a parked fiber waits for is what its saved context re-tests when it is resumed.\<close>

definition waits_on :: "cv_ent list \<Rightarrow> u32_fiber \<Rightarrow> bool" where
  "waits_on T f = (case fb_ctx f of
       CtxEntry \<Rightarrow> idle f | CtxYield \<Rightarrow> idle f | CtxPool p \<Rightarrow> idle f
     | CtxWait src n all \<Rightarrow> fb_wait_srw f = 0 \<and> fb_wait_cv f = 0 \<and> fb_wait_cs f = 0 \<and> fb_wait_h f \<noteq> []
         \<and> fb_wait_all f = all
     | CtxSleep \<Rightarrow> fb_has_timeout f \<and> idle (f\<lparr>fb_has_timeout := False\<rparr>)
     | CtxCs cs \<Rightarrow> fb_wait_cs f = cs \<and> idle (f\<lparr>fb_wait_cs := 0\<rparr>)
     | CtxCvCs cs ret \<Rightarrow> fb_wait_cs f = cs \<and> idle (f\<lparr>fb_wait_cs := 0\<rparr>)
     | CtxSrw lock excl \<Rightarrow> fb_wait_srw f = lock \<and> fb_wait_srw_excl f = excl \<and> idle (f\<lparr>fb_wait_srw := 0\<rparr>)
     | CtxCvSrw lock excl ret \<Rightarrow> fb_wait_srw f = lock \<and> fb_wait_srw_excl f = excl \<and> idle (f\<lparr>fb_wait_srw := 0\<rparr>)
     | CtxCv cv k lock is_cs shared \<Rightarrow> fb_wait_cv f = cv \<and> k < length T \<and> cv_key (T ! k) = cv
         \<and> idle (f\<lparr>fb_wait_cv := 0, fb_has_timeout := False\<rparr>)
     | CtxDead \<Rightarrow> False | CtxNone \<Rightarrow> False)"

definition blocking :: "fiber_ctx \<Rightarrow> bool" where
  "blocking c = (case c of CtxEntry \<Rightarrow> False | CtxYield \<Rightarrow> False | CtxPool p \<Rightarrow> False
     | CtxDead \<Rightarrow> False | CtxNone \<Rightarrow> False | _ \<Rightarrow> True)"

definition parked :: "cv_ent list \<Rightarrow> u32_fiber \<Rightarrow> bool" where
  "parked T f \<longleftrightarrow> fb_state f = FST_DONE \<or>
     (fb_state f = FST_READY \<or> fb_state f = FST_SUSPENDED \<and> fb_ctx f = CtxEntry
        \<or> fb_state f = FST_BLOCKED \<and> blocking (fb_ctx f)) \<and> waits_on T f"

definition others :: "sys \<Rightarrow> bool" where
  "others s \<longleftrightarrow> (\<forall>i < g_nfiber s. i \<noteq> g_cur s \<longrightarrow> parked (g_cv s) (fib s i))"

definition guest_inv :: "sys \<Rightarrow> bool" where
  "guest_inv s \<longleftrightarrow> core s \<and> others s \<and> idle (fib s (g_cur s)) \<and> st_of s (g_cur s) \<in> {FST_RUNNING, FST_FREE}"

definition sched_inv :: "sys \<Rightarrow> bool" where
  "sched_inv s \<longleftrightarrow> core s \<and> (\<forall>i < g_nfiber s. parked (g_cv s) (fib s i))"

text \<open>Between the switch and the continuation of the resumed fiber.\<close>

definition switched :: "sys \<Rightarrow> bool" where
  "switched s \<longleftrightarrow> core s \<and> others s \<and> waits_on (g_cv s) (fib s (g_cur s)) \<and> st_of s (g_cur s) = FST_RUNNING"

fun out_ok :: "outcome \<Rightarrow> bool" where
  "out_ok (Ret v s) = guest_inv s"
| "out_ok (Call a sp s) = guest_inv s"
| "out_ok (Park s) = sched_inv s"
| "out_ok (Exit c) = True"
| "out_ok (Abort msg) = True"

section \<open>Table operations keep their part\<close>

lemma cs_ok_mono: "cs_ok n T \<Longrightarrow> n \<le> m \<Longrightarrow> cs_ok m T"
  and srw_ok_mono: "srw_ok n U \<Longrightarrow> n \<le> m \<Longrightarrow> srw_ok m U"
  and mx_ok_mono: "mx_ok n V \<Longrightarrow> n \<le> m \<Longrightarrow> mx_ok m V"
  by (auto simp: cs_ok_def srw_ok_def mx_ok_def)

lemma map_update_same: "f y = f (xs ! i) \<Longrightarrow> map f (xs[i := y]) = map f xs"
  by (metis list_update_id map_update)

lemma set_upd: "x \<in> set (xs[i := y]) \<Longrightarrow> x = y \<or> x \<in> set xs"
  using set_update_subset_insert by fastforce

lemma cs_ok_upd:
  assumes "cs_ok n T" "cs_key e = cs_key (T ! k)" "cs_owner e \<le> n" "cs_owner e = 0 \<longleftrightarrow> cs_rec e = 0"
  shows "cs_ok n (T[k := e])"
  using assms by (auto simp: cs_ok_def map_update_same dest!: set_upd)

lemma cs_ok_ensure: "cs_ok n T \<Longrightarrow> u32_cs_ensure T cs = Some (k, T') \<Longrightarrow> cs_ok n T' \<and> k < length T'"
  using cs_tab.ensureD(1,6) [of T cs k T'] cs_tab.ensure_bound [of T cs k T'] unfolding cs_ok_def by fastforce

lemma cs_ok_grab: "cs_ok n T \<Longrightarrow> me < n \<Longrightarrow> cs_ok n (cs_grab T k me)"
  unfolding cs_grab_def by (rule cs_ok_upd) auto

lemma cs_ok_leave: "cs_ok n T \<Longrightarrow> cs_ok n (cs_leave T cs me)"
proof (cases "u32_cs_slot T cs")
  case (Some k)
  assume ok: "cs_ok n T"
  then have "T ! k \<in> set T" using cs_tab.slotD [OF Some] by simp
  with ok have "cs_owner (T ! k) \<le> n" by (simp add: cs_ok_def)
  with ok Some show ?thesis by (auto simp: cs_leave_def intro!: cs_ok_upd)
qed (simp add: cs_leave_def)

lemma butlast_swap_set:
  assumes "k < length T"
  shows "set (butlast (T[k := last T])) \<subseteq> set T" "distinct (map f T) \<Longrightarrow> distinct (map f (butlast (T[k := last T])))"
proof -
  show "set (butlast (T[k := last T])) \<subseteq> set T"
  proof
    fix x assume "x \<in> set (butlast (T[k := last T]))"
    then have "x = last T \<or> x \<in> set T" using set_upd in_set_butlastD by fastforce
    moreover have "last T \<in> set T" using assms by (intro last_in_set) auto
    ultimately show "x \<in> set T" by blast
  qed
  have ne: "T \<noteq> []" using assms by auto
  assume d: "distinct (map f T)"
  show "distinct (map f (butlast (T[k := last T])))"
  proof (cases "k = length T - 1")
    case True
    have "last T = T ! k" unfolding True by (rule last_conv_nth [OF ne])
    then have "T[k := last T] = T" by (simp only: list_update_id)
    with d show ?thesis by (simp add: map_butlast distinct_butlast)
  next
    case False
    then have "butlast (T[k := last T]) = (butlast T)[k := last T]" using assms by (simp add: butlast_list_update)
    moreover have "distinct (map f (butlast T @ [last T]))" using d ne by simp
    then have "distinct (map f (butlast T))" "f (last T) \<notin> f ` set (butlast T)" by auto
    ultimately show ?thesis by (simp add: map_update distinct_list_update)
  qed
qed

lemma cs_ok_delete: "cs_ok n T \<Longrightarrow> cs_ok n (cs_delete T cs)"
proof (cases "u32_cs_slot T cs")
  case (Some k)
  assume ok: "cs_ok n T"
  have k: "k < length T" using cs_tab.slotD [OF Some] by simp
  from butlast_swap_set(1) [OF k] butlast_swap_set(2) [OF k, of cs_key] ok Some show ?thesis
    by (auto simp: cs_ok_def cs_delete_def)
qed (simp add: cs_delete_def)

lemma srw_ok_upd:
  assumes "srw_ok n T" "srw_key e = srw_key (T ! k)" "srw_writer e \<le> n"
  shows "srw_ok n (T[k := e])"
  using assms by (auto simp: srw_ok_def map_update_same dest!: set_upd)

lemma srw_ok_ensure: "srw_ok n T \<Longrightarrow> u32_srw_ensure T l = Some (k, T') \<Longrightarrow> srw_ok n T' \<and> k < length T'"
  using srw_tab.ensureD(1,6) [of T l k T'] srw_tab.ensure_bound [of T l k T'] unfolding srw_ok_def by fastforce

lemma srw_ok_take: "srw_ok n T \<Longrightarrow> me < n \<Longrightarrow> u32_srw_take T l ex me = Some T' \<Longrightarrow> srw_ok n T'"
proof -
  assume ok: "srw_ok n T" "me < n" and t: "u32_srw_take T l ex me = Some T'"
  then obtain k U where k: "u32_srw_ensure T l = Some (k, U)"
    "T' = U[k := (if ex then (U ! k)\<lparr>srw_writer := me + 1\<rparr> else (U ! k)\<lparr>srw_readers := srw_readers (U ! k) + 1\<rparr>)]"
    by (auto simp: u32_srw_take_def split: option.splits)
  then have U: "srw_ok n U" "k < length U" using srw_ok_ensure ok by blast+
  then have "srw_writer (U ! k) \<le> n" by (simp add: srw_ok_def)
  with U ok(2) show "srw_ok n T'" unfolding k(2) by (intro srw_ok_upd) auto
qed

lemma srw_ok_release: "srw_ok n T \<Longrightarrow> srw_ok n (u32_srw_release T l ex me)"
proof (cases "u32_srw_slot T l")
  case (Some k)
  assume ok: "srw_ok n T"
  then have "T ! k \<in> set T" using srw_tab.slotD [OF Some] by simp
  with ok have "srw_writer (T ! k) \<le> n" by (simp add: srw_ok_def)
  with ok Some show ?thesis by (auto simp: u32_srw_release_def intro!: srw_ok_upd)
qed (simp add: u32_srw_release_def)

lemma cv_ok_upd: "cv_ok T \<Longrightarrow> cv_key e = cv_key (T ! k) \<Longrightarrow> cv_ok (T[k := e])"
  by (auto simp: cv_ok_def map_update_same)

lemma cv_ok_ensure: "cv_ok T \<Longrightarrow> u32_cv_ensure T c = Some (k, T') \<Longrightarrow> cv_ok T' \<and> k < length T' \<and> cv_key (T' ! k) = c"
  using cv_tab.ensureD(1,2,6) [of T c k T'] cv_tab.ensure_bound(1) [of T c k T'] unfolding cv_ok_def by fastforce

lemma mx_ok_upd:
  assumes "mx_ok n T" "mx_used e" "mx_owner e \<le> n" "mx_owner e = 0 \<longleftrightarrow> mx_rec e = 0"
  shows "mx_ok n (T[k := e])"
  using assms by (auto simp: mx_ok_def dest!: set_upd)

lemma mx_ok_create:
  "mx_ok n T \<Longrightarrow> cur < n \<Longrightarrow> u32_create_mutex cur ini nh T = (h, e, T') \<Longrightarrow> mx_ok n T'"
  by (auto simp: u32_create_mutex_def mx_ok_def split: option.splits if_splits)


section \<open>Frames\<close>

text \<open>Condition-variable slots are never moved, so saved slot numbers stay right.\<close>

definition cv_ext :: "cv_ent list \<Rightarrow> cv_ent list \<Rightarrow> bool" where
  "cv_ext T T' \<longleftrightarrow> length T \<le> length T' \<and> (\<forall>k < length T. cv_key (T' ! k) = cv_key (T ! k))"

lemma cv_ext_refl [simp]: "cv_ext T T" by (simp add: cv_ext_def)

lemma cv_ext_trans: "cv_ext T U \<Longrightarrow> cv_ext U V \<Longrightarrow> cv_ext T V" by (auto simp: cv_ext_def)

lemma cv_ext_upd: "cv_key e = cv_key (T ! k) \<Longrightarrow> cv_ext T (T[k := e])"
  by (simp add: cv_ext_def) (metis nth_list_update_eq nth_list_update_neq)

lemma cv_ext_upd2: "cv_ext T U \<Longrightarrow> cv_key e = cv_key (U ! k) \<Longrightarrow> cv_ext T (U[k := e])"
  using cv_ext_trans cv_ext_upd by blast

lemma cv_ext_ensure: "u32_cv_ensure T c = Some (k, T') \<Longrightarrow> cv_ext T T'"
  by (auto simp: u32_cv_ensure_def cv_ext_def nth_append split: option.splits if_splits)

lemma waits_on_ext: "waits_on T f \<Longrightarrow> cv_ext T T' \<Longrightarrow> waits_on T' f"
  by (auto simp: waits_on_def cv_ext_def split: fiber_ctx.splits)

lemma parked_ext: "parked T f \<Longrightarrow> cv_ext T T' \<Longrightarrow> parked T' f"
  by (auto simp: parked_def intro: waits_on_ext)

text \<open>\<open>t\<close> has the fibers of \<open>s\<close>, and tables that are in order.\<close>

definition tabs_step :: "sys \<Rightarrow> sys \<Rightarrow> bool" where
  "tabs_step s t \<longleftrightarrow> g_fiber t = g_fiber s \<and> g_cur t = g_cur s \<and> g_rr t = g_rr s \<and> cv_ext (g_cv s) (g_cv t) \<and> core t"

lemma others_tabs: "others s \<Longrightarrow> tabs_step s t \<Longrightarrow> others t"
  by (auto simp: others_def tabs_step_def intro: parked_ext)

lemma guest_tabs: "guest_inv s \<Longrightarrow> tabs_step s t \<Longrightarrow> guest_inv t"
  using others_tabs [of s t] by (auto simp: guest_inv_def tabs_step_def)

lemma switched_tabs: "switched s \<Longrightarrow> tabs_step s t \<Longrightarrow> switched t"
  using others_tabs [of s t] by (auto simp: switched_def tabs_step_def intro: waits_on_ext)

lemma tabs_step_trans: "tabs_step s t \<Longrightarrow> tabs_step t u \<Longrightarrow> tabs_step s u"
  by (auto simp: tabs_step_def intro: cv_ext_trans)

lemma tabs_step_inert [simp]:
  assumes "core s"
  shows "tabs_step s s" "tabs_step s (s\<lparr>mem := m\<rparr>)" "tabs_step s (s\<lparr>g_last_error := e\<rparr>)"
    "tabs_step s (s\<lparr>g_poll := p\<rparr>)" "tabs_step s (s\<lparr>g_wsaevsel := w\<rparr>)" "tabs_step s (s\<lparr>g_tpwork := q\<rparr>)"
    "tabs_step s (u32_sched_ensure s)" "tabs_step s (set_error e s)" "tabs_step s (err_opt eo s)"
    "tabs_step s (put32 a v s)" "tabs_step s (wsa_put i x s)"
  using assms
  by (auto simp: tabs_step_def core_def u32_sched_ensure_def set_error_def err_opt_def put32_def wsa_put_def
      split: option.splits)

lemma tabs_step_cs: "core s \<Longrightarrow> cs_ok (g_nfiber s) T \<Longrightarrow> tabs_step s (s\<lparr>g_cs := T\<rparr>)"
  and tabs_step_srw: "core s \<Longrightarrow> srw_ok (g_nfiber s) U \<Longrightarrow> tabs_step s (s\<lparr>g_srw := U\<rparr>)"
  and tabs_step_cv: "core s \<Longrightarrow> cv_ok C \<Longrightarrow> cv_ext (g_cv s) C \<Longrightarrow> tabs_step s (s\<lparr>g_cv := C\<rparr>)"
  and tabs_step_mx: "core s \<Longrightarrow> mx_ok (g_nfiber s) M \<Longrightarrow> tabs_step s (s\<lparr>g_mutex := M\<rparr>)"
  and tabs_step_ev: "core s \<Longrightarrow> length E \<le> U32_MAX_EVENT \<Longrightarrow> tabs_step s (s\<lparr>g_event := E\<rparr>)"
  and tabs_step_mem_ev: "core s \<Longrightarrow> length E \<le> U32_MAX_EVENT \<Longrightarrow> tabs_step s (s\<lparr>mem := m, g_event := E\<rparr>)"
  and tabs_step_sm: "core s \<Longrightarrow> length S \<le> U32_MAX_SEM \<Longrightarrow> tabs_step s (s\<lparr>g_sem := S\<rparr>)"
  by (auto simp: tabs_step_def core_def)

lemma tabs_step_touched: "core s \<Longrightarrow> touched s t \<Longrightarrow> tabs_step s t"
  by (auto simp: tabs_step_def core_def touched_same)

lemma core_owners: "core s \<Longrightarrow> owners_ok s"
  by (auto simp: core_def owners_ok_def mx_ok_def)

lemma guest_core: "guest_inv s \<Longrightarrow> core s" by (simp add: guest_inv_def)

lemma core_tabs: "tabs_step s t \<Longrightarrow> core t" by (simp add: tabs_step_def)

lemma coreD: "core s \<Longrightarrow> g_cur s < g_nfiber s" "core s \<Longrightarrow> cs_ok (g_nfiber s) (g_cs s)"
  "core s \<Longrightarrow> srw_ok (g_nfiber s) (g_srw s)" "core s \<Longrightarrow> cv_ok (g_cv s)" "core s \<Longrightarrow> mx_ok (g_nfiber s) (g_mutex s)"
  "core s \<Longrightarrow> length (g_event s) \<le> U32_MAX_EVENT" "core s \<Longrightarrow> length (g_sem s) \<le> U32_MAX_SEM"
  "core s \<Longrightarrow> 0 < g_nfiber s" "core s \<Longrightarrow> g_rr s < g_nfiber s"
  by (simp_all add: core_def)

text \<open>Writing the running fiber.\<close>

lemma upd_fiber_sel [simp]:
  "g_nfiber (upd_fiber i f s) = g_nfiber s" "g_cur (upd_fiber i f s) = g_cur s" "g_rr (upd_fiber i f s) = g_rr s"
  "g_cs (upd_fiber i f s) = g_cs s" "g_srw (upd_fiber i f s) = g_srw s" "g_cv (upd_fiber i f s) = g_cv s"
  "g_mutex (upd_fiber i f s) = g_mutex s" "g_event (upd_fiber i f s) = g_event s" "g_sem (upd_fiber i f s) = g_sem s"
  "mem (upd_fiber i f s) = mem s" "g_last_error (upd_fiber i f s) = g_last_error s" "g_tpwork (upd_fiber i f s) = g_tpwork s"
  "g_vclock (upd_fiber i f s) = g_vclock s" "g_wsaevsel (upd_fiber i f s) = g_wsaevsel s" "g_poll (upd_fiber i f s) = g_poll s"
  "g_sched_ready (upd_fiber i f s) = g_sched_ready s"
  "i < g_nfiber s \<Longrightarrow> fib (upd_fiber i f s) i = f (fib s i)"
  "j \<noteq> i \<Longrightarrow> fib (upd_fiber i f s) j = fib s j"
  by (simp_all add: upd_fiber_def)

lemma core_upd_fiber [simp]: "core (upd_fiber i f s) = core s"
  by (simp add: core_def)

lemma others_upd_cur [simp]: "others (upd_fiber (g_cur s) f s) = others s"
  by (auto simp: others_def)

text \<open>The running fiber, with what it may be left waiting for described by \<open>P\<close>.\<close>

definition running :: "(u32_fiber \<Rightarrow> bool) \<Rightarrow> sys \<Rightarrow> bool" where
  "running P s \<longleftrightarrow> core s \<and> others s \<and> st_of s (g_cur s) \<in> {FST_RUNNING, FST_FREE} \<and> P (fib s (g_cur s))"

lemma guest_running: "guest_inv s \<longleftrightarrow> running idle s"
  by (auto simp: guest_inv_def running_def)

lemma running_tabs: "running P s \<Longrightarrow> tabs_step s t \<Longrightarrow> running P t"
  using others_tabs [of s t] by (auto simp: running_def tabs_step_def)

lemma running_upd:
  assumes "running P s" "\<And>f. P f \<Longrightarrow> Q (g f)" "\<And>f. fb_state (g f) = fb_state f"
  shows "running Q (upd_fiber (g_cur s) g s)"
  using assms by (auto simp: running_def core_def)

lemma running_core: "running P s \<Longrightarrow> core s" by (simp add: running_def)

lemma block_on_ok:
  assumes r: "running P s" and b: "blocking c"
    and w: "\<And>f l. P f \<Longrightarrow> waits_on (g_cv s) ((g f)\<lparr>fb_state := FST_BLOCKED, fb_last_error := l, fb_ctx := c\<rparr>)"
  shows "out_ok (block_on c g s)"
proof -
  let ?t = "upd_fiber (g_cur s) (\<lambda>f. (g f)\<lparr>fb_state := FST_BLOCKED\<rparr>) s"
  let ?u = "upd_fiber (g_cur s) (\<lambda>f. f\<lparr>fb_last_error := g_last_error s, fb_ctx := c\<rparr>) ?t"
  have c: "g_cur s < g_nfiber s" "core s" using r by (auto simp: running_def core_def)
  have "parked (g_cv s) (fib ?u i)" if "i < g_nfiber s" for i
  proof (cases "i = g_cur s")
    case True
    then show ?thesis using w r b c by (simp add: parked_def running_def)
  next
    case False
    then show ?thesis using r that by (simp add: running_def others_def)
  qed
  then show ?thesis using c(2) by (simp add: block_on_def u32_to_sched_def sched_inv_def)
qed

lemma yield_to_ok:
  assumes g: "guest_inv s" and c: "c = CtxYield \<or> c = CtxPool p"
  shows "out_ok (yield_to c s)"
proof -
  let ?u = "upd_fiber (g_cur s) (\<lambda>f. f\<lparr>fb_last_error := g_last_error s, fb_ctx := c\<rparr>)
    (upd_fiber (g_cur s) (\<lambda>f. f\<lparr>fb_state := FST_READY\<rparr>) s)"
  have b: "g_cur s < g_nfiber s" "core s" using g by (auto simp: guest_inv_def core_def)
  have "parked (g_cv s) (fib ?u i)" if "i < g_nfiber s" for i
    using g c b that by (cases "i = g_cur s") (auto simp: parked_def guest_inv_def others_def waits_on_def idle_def)
  then show ?thesis using b(2) by (simp add: yield_to_def u32_to_sched_def sched_inv_def)
qed


section \<open>The shims keep the invariant\<close>

lemma ret_tabs: "guest_inv s \<Longrightarrow> tabs_step s t \<Longrightarrow> out_ok (Ret v t)"
  by (simp add: guest_tabs)

lemma cs_init_ok: "guest_inv s \<Longrightarrow> out_ok (cs_init r cs s)"
proof -
  assume g: "guest_inv s"
  note c = guest_core [OF g]
  show ?thesis using c cs_ok_ensure [OF coreD(2) [OF c]]
    by (auto simp: cs_init_def split: option.splits intro!: guest_tabs [OF g] tabs_step_cs)
qed

lemma cs_shims_ok [shim_ok]:
  assumes g: "guest_inv s"
  shows "out_ok (aret_InitializeCriticalSection esp s)" "out_ok (aret_InitializeCriticalSectionAndSpinCount esp s)"
    "out_ok (aret_InitializeCriticalSectionEx esp s)" "out_ok (aret_DeleteCriticalSection esp s)"
    "out_ok (aret_LeaveCriticalSection esp s)" "out_ok (aret_TryEnterCriticalSection esp s)"
proof -
  note c = guest_core [OF g]
  show "out_ok (aret_InitializeCriticalSection esp s)" "out_ok (aret_InitializeCriticalSectionAndSpinCount esp s)"
    "out_ok (aret_InitializeCriticalSectionEx esp s)"
    using g by (simp_all add: aret_InitializeCriticalSection_def aret_InitializeCriticalSectionAndSpinCount_def
        aret_InitializeCriticalSectionEx_def cs_init_ok)
  show "out_ok (aret_DeleteCriticalSection esp s)" "out_ok (aret_LeaveCriticalSection esp s)"
    using g c coreD(2) [OF c]
    by (auto simp: aret_DeleteCriticalSection_def aret_LeaveCriticalSection_def
        intro!: guest_tabs [OF g] tabs_step_cs cs_ok_delete cs_ok_leave)
  show "out_ok (aret_TryEnterCriticalSection esp s)"
    using g c cs_ok_ensure [OF coreD(2) [OF c]] coreD(1) [OF c]
    by (auto simp: aret_TryEnterCriticalSection_def split: option.splits
        intro!: guest_tabs [OF g] tabs_step_cs cs_ok_grab)
qed

lemma srw_shims_ok [shim_ok]:
  assumes g: "guest_inv s"
  shows "out_ok (aret_InitializeSRWLock esp s)" "out_ok (aret_ReleaseSRWLockExclusive esp s)"
    "out_ok (aret_ReleaseSRWLockShared esp s)" "out_ok (aret_TryAcquireSRWLockExclusive esp s)"
    "out_ok (aret_TryAcquireSRWLockShared esp s)"
proof -
  note c = guest_core [OF g]
  show "out_ok (aret_InitializeSRWLock esp s)"
    using g c srw_ok_ensure [OF coreD(3) [OF c]]
    by (auto simp: aret_InitializeSRWLock_def split: option.splits intro!: guest_tabs [OF g] tabs_step_srw)
  show "out_ok (aret_ReleaseSRWLockExclusive esp s)" "out_ok (aret_ReleaseSRWLockShared esp s)"
    using g c coreD(3) [OF c]
    by (auto simp: aret_ReleaseSRWLockExclusive_def aret_ReleaseSRWLockShared_def
        intro!: guest_tabs [OF g] tabs_step_srw srw_ok_release)
  have "out_ok (srw_try ex lock s)" for ex lock
    using g c srw_ok_take [OF coreD(3) [OF c] coreD(1) [OF c]]
    by (auto simp: srw_try_def split: option.splits intro!: guest_tabs [OF g] tabs_step_srw)
  then show "out_ok (aret_TryAcquireSRWLockExclusive esp s)" "out_ok (aret_TryAcquireSRWLockShared esp s)"
    by (simp_all add: aret_TryAcquireSRWLockExclusive_def aret_TryAcquireSRWLockShared_def)
qed

lemma cv_shims_ok [shim_ok]:
  assumes g: "guest_inv s"
  shows "out_ok (aret_InitializeConditionVariable esp s)" "out_ok (aret_WakeConditionVariable esp s)"
    "out_ok (aret_WakeAllConditionVariable esp s)"
proof -
  note c = guest_core [OF g]
  have e: "cv_ok T" "cv_ext (g_cv s) T" if "u32_cv_ensure (g_cv s) cv = Some (k, T)" for cv k T
    using cv_ok_ensure [OF coreD(4) [OF c] that] cv_ext_ensure [OF that] by auto
  show "out_ok (aret_InitializeConditionVariable esp s)"
    using g c e by (auto simp: aret_InitializeConditionVariable_def split: option.splits
        intro!: guest_tabs [OF g] tabs_step_cv)
  show "out_ok (aret_WakeConditionVariable esp s)"
    using g c e by (auto simp: aret_WakeConditionVariable_def split: option.splits
        intro!: guest_tabs [OF g] tabs_step_cv cv_ok_upd cv_ext_upd2)
  show "out_ok (aret_WakeAllConditionVariable esp s)"
    using g c e by (auto simp: aret_WakeAllConditionVariable_def split: option.splits
        intro!: guest_tabs [OF g] tabs_step_cv cv_ok_upd cv_ext_upd2)
qed

lemma tabs_step_err: "tabs_step s t \<Longrightarrow> tabs_step s (err_opt e t)"
  using tabs_step_trans tabs_step_inert(9) core_tabs by blast

lemma event_put_tabs: "core s \<Longrightarrow> tabs_step s (event_put b h s)"
  by (auto simp: event_put_def split: option.splits intro!: tabs_step_ev dest: coreD(6))

lemma create_event_ok: "guest_inv s \<Longrightarrow> out_ok (create_event m i nh s)"
proof -
  assume g: "guest_inv s"
  obtain h e T where c: "u32_create_event m i nh (g_event s) = (h, e, T)" by (metis prod_cases3)
  have "length T \<le> U32_MAX_EVENT"
    using c coreD(6) [OF guest_core [OF g]]
    by (auto simp: u32_create_event_def split: option.splits if_splits)
  with g c show ?thesis
    by (auto simp: create_event_def intro!: guest_tabs [OF g] tabs_step_err tabs_step_ev guest_core [OF g])
qed

lemma event_shims_ok [shim_ok]:
  assumes g: "guest_inv s"
  shows "out_ok (aret_CreateEventA esp s)" "out_ok (aret_CreateEventW esp s)" "out_ok (aret_SetEvent esp s)"
    "out_ok (aret_ResetEvent esp s)" "out_ok (aret_WSACreateEvent esp s)" "out_ok (aret_WSASetEvent esp s)"
    "out_ok (aret_WSAResetEvent esp s)" "out_ok (aret_WSACloseEvent esp s)" "out_ok (aret_WSAEventSelect esp s)"
    "out_ok (aret_WSAEnumNetworkEvents esp s)"
proof -
  note c = guest_core [OF g]
  show "out_ok (aret_CreateEventA esp s)" "out_ok (aret_CreateEventW esp s)" "out_ok (aret_WSACreateEvent esp s)"
    using g by (simp_all add: aret_CreateEventA_def aret_CreateEventW_def aret_WSACreateEvent_def create_event_ok)
  show "out_ok (aret_SetEvent esp s)" "out_ok (aret_ResetEvent esp s)" "out_ok (aret_WSASetEvent esp s)"
    "out_ok (aret_WSAResetEvent esp s)"
    using g c by (auto simp: aret_SetEvent_def aret_ResetEvent_def aret_WSASetEvent_def aret_WSAResetEvent_def
        intro!: guest_tabs [OF g] event_put_tabs)
  show "out_ok (aret_WSACloseEvent esp s)" "out_ok (aret_WSAEventSelect esp s)"
    using g c by (auto simp: aret_WSACloseEvent_def aret_WSAEventSelect_def Let_def split: option.splits
        intro!: guest_tabs [OF g])
  show "out_ok (aret_WSAEnumNetworkEvents esp s)"
    using g c coreD(6) [OF c]
    by (auto simp: aret_WSAEnumNetworkEvents_def Let_def split: option.splits
        intro!: guest_tabs [OF g] tabs_step_ev tabs_step_mem_ev)
qed

lemma mutex_shims_ok [shim_ok]:
  assumes g: "guest_inv s"
  shows "out_ok (aret_CreateMutexA esp s)" "out_ok (aret_CreateMutexW esp s)" "out_ok (aret_OpenMutexA esp s)"
    "out_ok (aret_OpenMutexW esp s)" "out_ok (aret_ReleaseMutex esp s)"
proof -
  note c = guest_core [OF g]
  have "out_ok (create_mutex i nh s)" for i nh
    using g c mx_ok_create [OF coreD(5) [OF c] coreD(1) [OF c]]
    by (auto simp: create_mutex_def split: prod.splits intro!: guest_tabs [OF g] tabs_step_err tabs_step_mx)
  then show "out_ok (aret_CreateMutexA esp s)" "out_ok (aret_CreateMutexW esp s)"
    by (simp_all add: aret_CreateMutexA_def aret_CreateMutexW_def)
  show "out_ok (aret_OpenMutexA esp s)" "out_ok (aret_OpenMutexW esp s)"
    using g c by (auto simp: aret_OpenMutexA_def aret_OpenMutexW_def split: prod.splits intro!: guest_tabs [OF g])
  show "out_ok (aret_ReleaseMutex esp s)"
  proof (cases "u32_mutex_idx (g_mutex s) (WU esp 0 s)")
    case (Some i)
    then have "g_mutex s ! i \<in> set (g_mutex s)" using mxh.idxD by auto
    then have "mx_used (g_mutex s ! i)" "mx_owner (g_mutex s ! i) \<le> g_nfiber s"
      using coreD(5) [OF c] by (auto simp: mx_ok_def)
    with Some g c coreD(5) [OF c] show ?thesis
      by (auto simp: aret_ReleaseMutex_def Let_def intro!: guest_tabs [OF g] tabs_step_mx mx_ok_upd)
  qed (use g in \<open>simp add: aret_ReleaseMutex_def\<close>)
qed

lemma sem_shims_ok [shim_ok]:
  assumes g: "guest_inv s"
  shows "out_ok (aret_CreateSemaphoreA esp s)" "out_ok (aret_CreateSemaphoreW esp s)" "out_ok (aret_OpenSemaphoreA esp s)"
    "out_ok (aret_OpenSemaphoreW esp s)" "out_ok (aret_ReleaseSemaphore esp s)"
proof -
  note c = guest_core [OF g]
  have "length T \<le> U32_MAX_SEM" if "u32_create_sem i m nh (g_sem s) = (h, e, T)" for i m nh h e T
    using that coreD(7) [OF c] by (auto simp: u32_create_sem_def split: option.splits if_splits)
  then have "out_ok (create_sem i m nh s)" for i m nh
    using g c by (auto simp: create_sem_def split: prod.splits intro!: guest_tabs [OF g] tabs_step_err tabs_step_sm)
  then show "out_ok (aret_CreateSemaphoreA esp s)" "out_ok (aret_CreateSemaphoreW esp s)"
    by (simp_all add: aret_CreateSemaphoreA_def aret_CreateSemaphoreW_def)
  show "out_ok (aret_OpenSemaphoreA esp s)" "out_ok (aret_OpenSemaphoreW esp s)"
    using g c by (auto simp: aret_OpenSemaphoreA_def aret_OpenSemaphoreW_def split: prod.splits intro!: guest_tabs [OF g])
  have "tabs_step s ((put32 p v s)\<lparr>g_sem := (g_sem s)[i := x]\<rparr>)" for p v i x
    using c coreD(7) [OF c] by (auto simp: tabs_step_def put32_def core_def)
  then show "out_ok (aret_ReleaseSemaphore esp s)"
    using g c by (auto simp: aret_ReleaseSemaphore_def Let_def split: option.splits intro!: guest_tabs [OF g])
qed


subsection \<open>Waiting\<close>

lemma acquire_tabs: "core s \<Longrightarrow> me < g_nfiber s \<Longrightarrow> tabs_step s (u32_handle_acquire h me s)"
proof -
  assume c: "core s" and me: "me < g_nfiber s"
  have "mx_ok (g_nfiber s) ((g_mutex s)[i := (g_mutex s ! i)\<lparr>mx_owner := me + 1, mx_rec := mx_rec (g_mutex s ! i) + 1\<rparr>])"
    if "u32_mutex_idx (g_mutex s) h = Some i" for i
    using mxh.idxD [OF that] coreD(5) [OF c] me by (intro mx_ok_upd) auto
  then show ?thesis using c coreD [OF c]
    by (auto simp: u32_handle_acquire_def split: option.splits
        intro!: tabs_step_ev tabs_step_mx tabs_step_sm)
qed

lemma acquire_fold_tabs:
  "core s \<Longrightarrow> me < g_nfiber s \<Longrightarrow> tabs_step s (fold (\<lambda>h. u32_handle_acquire h me) hs s)"
proof (induction hs arbitrary: s)
  case (Cons h hs)
  have t: "tabs_step s (u32_handle_acquire h me s)" using acquire_tabs Cons.prems by blast
  moreover have "tabs_step (u32_handle_acquire h me s) (fold (\<lambda>h. u32_handle_acquire h me) (h # hs) s)"
    using Cons.IH [of "u32_handle_acquire h me s"] Cons.prems t by (auto simp: tabs_step_def)
  ultimately show ?case by (rule tabs_step_trans)
qed simp

lemma first_signaled_touched:
  "\<exists>k s'. first_signaled hs i me s = (k, s') \<and> touched s s' \<and> (k = 0 \<or> i \<le> k \<and> k < i + length hs)"
proof (induction hs arbitrary: i s)
  case (Cons h hs)
  obtain s1 where s1: "u32_handle_signaled_for h me s = (signaled h me s, s1)" "touched s s1"
    using handle_signaled_for by blast
  obtain k s2 where k: "first_signaled hs (i + 1) me s1 = (k, s2)" "touched s1 s2"
      "k = 0 \<or> i + 1 \<le> k \<and> k < i + 1 + length hs" using Cons.IH by blast
  have "touched s s2" using touched_trans s1(2) k(2) by blast
  with s1 k show ?case by (cases "signaled h me s") auto
qed simp

lemma wait_finish_ok:
  assumes r: "running P s" and P: "\<And>f. P f \<Longrightarrow> idle (f\<lparr>fb_wait_h := []\<rparr>)"
  shows "out_ok (wait_finish src n all s)"
proof -
  let ?s1 = "upd_fiber (g_cur s) (\<lambda>f. f\<lparr>fb_wait_h := []\<rparr>) s"
  let ?hs = "map (handle_at (mem s) src) [0..<n]"
  have g: "guest_inv ?s1"
    unfolding guest_running by (rule running_upd [OF r]) (simp_all add: P)
  note c = guest_core [OF g]
  have me: "g_cur s < g_nfiber ?s1" using coreD(1) [OF c] by simp
  obtain k s2 where f: "first_signaled ?hs 0 (g_cur s) ?s1 = (k, s2)" "touched ?s1 s2"
    using first_signaled_touched by metis
  have t: "tabs_step ?s1 s2" by (rule tabs_step_touched [OF c f(2)])
  have "tabs_step s2 (u32_handle_acquire h (g_cur s) s2)" for h
    using acquire_tabs [OF core_tabs [OF t]] me touched_same(1) [OF f(2)] by simp
  with t have "tabs_step ?s1 (u32_handle_acquire h (g_cur s) s2)" for h using tabs_step_trans by blast
  moreover have "tabs_step ?s1 (fold (\<lambda>h. u32_handle_acquire h (g_cur s)) ?hs ?s1)"
    by (rule acquire_fold_tabs [OF c me])
  ultimately show ?thesis
    using f(1) guest_tabs [OF g] by (auto simp: wait_finish_def Let_def)
qed

lemma running_touched: "running P s \<Longrightarrow> touched s t \<Longrightarrow> running P t"
  using running_tabs tabs_step_touched running_core by blast

lemma u32_wait_out:
  assumes g: "guest_inv s" and n: "0 < n"
  shows "out_ok (u32_wait src n all ms s)"
proof -
  let ?hs = "map (handle_at (mem s) src) [0..<min n 64]"
  let ?P = "\<lambda>f. fb_wait_h f = ?hs \<and> fb_wait_all f = all \<and> idle (f\<lparr>fb_wait_h := []\<rparr>)"
  let ?s1 = "upd_fiber (g_cur s) (\<lambda>f. f\<lparr>fb_wait_h := ?hs, fb_wait_all := all\<rparr>) s"
  have r: "running ?P ?s1"
    by (rule running_upd [OF g [unfolded guest_running]]) (simp_all add: idle_def)
  obtain s2 where w: "u32_wait_ok (g_cur s) ?s1 = (wait_sat (g_cur s) ?s1, s2)" "touched ?s1 s2"
    using wait_ok_spec [OF core_owners [OF running_core [OF r]]] .
  have r2: "running ?P s2" using running_touched [OF r w(2)] .
  have cur: "g_cur s2 = g_cur s" using touched_same(2) [OF w(2)] by simp
  have poll: "out_ok (Ret v (upd_fiber (g_cur s) (\<lambda>f. f\<lparr>fb_wait_h := []\<rparr>) s2))" for v
    using running_upd [OF r2, where Q = idle and g = "\<lambda>f. f\<lparr>fb_wait_h := []\<rparr>"] cur
    by (simp add: guest_running)
  have r3: "running ?P (u32_sched_ensure s2)"
    using running_tabs [OF r2] running_core [OF r2] by simp
  have blk: "out_ok (block_on (CtxWait src (min n 64) all)
      (\<lambda>f. f\<lparr>fb_has_timeout := b, fb_wake_time := v, fb_timed_out := False\<rparr>) (u32_sched_ensure s2))" for b v
    by (rule block_on_ok [OF r3]) (use n in \<open>auto simp: blocking_def waits_on_def idle_def\<close>)
  show ?thesis
    using w(1) wait_finish_ok [OF r2] poll blk by (auto simp: u32_wait_def Let_def split: bool.splits)
qed

lemma map_ret_ok [simp]: "out_ok (map_ret g r) = out_ok r"
  by (cases r) (simp_all add: map_ret_def)

lemma wait_shims_ok [shim_ok]:
  assumes g: "guest_inv s"
  shows "out_ok (aret_WaitForSingleObject esp s)" "out_ok (aret_WaitForMultipleObjects esp s)"
    "out_ok (aret_WaitForSingleObjectEx esp s)" "out_ok (aret_WaitForMultipleObjectsEx esp s)"
    "out_ok (aret_WSAWaitForMultipleEvents esp s)"
  using g u32_wait_out [OF g]
  by (auto simp: aret_WaitForSingleObject_def aret_WaitForMultipleObjects_def aret_WaitForSingleObjectEx_def
      aret_WaitForMultipleObjectsEx_def aret_WSAWaitForMultipleEvents_def Let_def)

lemma switched_running: "switched s \<Longrightarrow> running (\<lambda>f. waits_on (g_cv s) f \<and> f = fib s (g_cur s)) s"
  by (auto simp: switched_def running_def)

lemma wait_resume_ok:
  assumes sw: "switched s" and c: "fb_ctx (fib s (g_cur s)) = CtxWait src n all"
  shows "out_ok (wait_resume src n all s)"
proof -
  let ?P = "\<lambda>f. fb_wait_srw f = 0 \<and> fb_wait_cv f = 0 \<and> fb_wait_cs f = 0 \<and> fb_wait_h f \<noteq> [] \<and> fb_wait_all f = all"
  have r: "running ?P s" using sw c by (auto simp: switched_def running_def waits_on_def)
  obtain s2 where w: "u32_wait_ok (g_cur s) s = (wait_sat (g_cur s) s, s2)" "touched s s2"
    using wait_ok_spec [OF core_owners [OF running_core [OF r]]] .
  have r2: "running ?P s2" using running_touched [OF r w(2)] .
  have cur: "g_cur s2 = g_cur s" using touched_same(2) [OF w(2)] by simp
  have fin: "out_ok (wait_finish src n all (upd_fiber (g_cur s) (\<lambda>f. f\<lparr>fb_has_timeout := False\<rparr>) s2))"
  proof (rule wait_finish_ok)
    show "running (\<lambda>f. ?P f \<and> \<not> fb_has_timeout f) (upd_fiber (g_cur s) (\<lambda>f. f\<lparr>fb_has_timeout := False\<rparr>) s2)"
      unfolding cur [symmetric] by (rule running_upd [OF r2]) simp_all
  qed (simp add: idle_def)
  have "running idle (upd_fiber (g_cur s) (\<lambda>f. f\<lparr>fb_has_timeout := False, fb_wait_h := []\<rparr>) s2)"
    unfolding cur [symmetric] by (rule running_upd [OF r2]) (simp_all add: idle_def)
  then have tmo: "out_ok (Ret v (upd_fiber (g_cur s) (\<lambda>f. f\<lparr>fb_has_timeout := False, fb_wait_h := []\<rparr>) s2))" for v
    by (simp add: guest_running)
  have "out_ok (block_on (CtxWait src n all) id s2)"
    by (rule block_on_ok [OF r2]) (auto simp: blocking_def waits_on_def)
  with w fin tmo show ?thesis by (auto simp: wait_resume_def Let_def split: bool.splits)
qed


subsection \<open>Sleeping and locks\<close>

lemma sleep_shims_ok [shim_ok]:
  assumes g: "guest_inv s"
  shows "out_ok (aret_Sleep esp s)"
proof -
  have r: "running idle (u32_sched_ensure s)"
    using guest_tabs [OF g] guest_core [OF g] by (simp add: guest_running)
  have "out_ok (u32_sleep ms s)" for ms
    unfolding u32_sleep_def by (rule block_on_ok [OF r]) (auto simp: blocking_def waits_on_def idle_def)
  moreover have "out_ok (yield_to CtxYield s)" using yield_to_ok [OF g] by simp
  ultimately show ?thesis using g by (simp add: aret_Sleep_def)
qed

lemma sleep_resume_ok:
  assumes sw: "switched s" and c: "fb_ctx (fib s (g_cur s)) = CtxSleep"
  shows "out_ok (sleep_resume s)"
proof -
  let ?P = "\<lambda>f. fb_has_timeout f \<and> idle (f\<lparr>fb_has_timeout := False\<rparr>)"
  have r: "running ?P s" using sw c by (auto simp: switched_def running_def waits_on_def)
  have "running idle (upd_fiber (g_cur s) (\<lambda>f. f\<lparr>fb_has_timeout := False\<rparr>) s)"
    by (rule running_upd [OF r]) simp_all
  moreover have "out_ok (block_on CtxSleep id s)"
    by (rule block_on_ok [OF r]) (auto simp: blocking_def waits_on_def idle_def)
  ultimately show ?thesis by (simp add: sleep_resume_def guest_running)
qed

lemma cs_enter_try_ok:
  assumes g: "guest_inv s" and c: "c = CtxCs cs \<or> (\<exists>ret. c = CtxCvCs cs ret)"
  shows "out_ok (cs_enter_try c r cs k s)"
proof -
  have core: "core s" using guest_core [OF g] .
  have r: "running idle (u32_sched_ensure s)"
    using guest_tabs [OF g] core by (simp add: guest_running)
  have "out_ok (block_on c (\<lambda>f. f\<lparr>fb_wait_cs := cs\<rparr>) (u32_sched_ensure s))"
    by (rule block_on_ok [OF r]) (use c in \<open>auto simp: blocking_def waits_on_def idle_def\<close>)
  moreover have "guest_inv (s\<lparr>g_cs := cs_grab (g_cs s) k (g_cur s)\<rparr>)"
    by (rule guest_tabs [OF g tabs_step_cs [OF core cs_ok_grab]]) (use coreD [OF core] in auto)
  ultimately show ?thesis by (simp add: cs_enter_try_def)
qed

lemma enter_ok [shim_ok]:
  assumes g: "guest_inv s" shows "out_ok (aret_EnterCriticalSection esp s)"
proof (cases "u32_cs_ensure (g_cs s) (WU esp 0 s)")
  case (Some kT)
  then obtain k T where k: "u32_cs_ensure (g_cs s) (WU esp 0 s) = Some (k, T)" by (cases kT) auto
  note c = guest_core [OF g]
  have "guest_inv (s\<lparr>g_cs := T\<rparr>)"
    using guest_tabs [OF g tabs_step_cs [OF c]] cs_ok_ensure [OF coreD(2) [OF c] k] by blast
  from cs_enter_try_ok [OF this] k show ?thesis by (simp add: aret_EnterCriticalSection_def Let_def)
qed (simp add: aret_EnterCriticalSection_def)

lemma cs_resume_idle:
  assumes sw: "switched s" and c: "fb_ctx (fib s (g_cur s)) = CtxCs cs \<or> fb_ctx (fib s (g_cur s)) = CtxCvCs cs ret"
  shows "guest_inv (upd_fiber (g_cur s) (\<lambda>f. f\<lparr>fb_wait_cs := 0\<rparr>) s)"
proof -
  have "running (\<lambda>f. idle (f\<lparr>fb_wait_cs := 0\<rparr>)) s"
    using sw c by (auto simp: switched_def running_def waits_on_def)
  then show ?thesis unfolding guest_running by (rule running_upd) simp_all
qed

lemma cs_resume_ok:
  assumes sw: "switched s" and c: "fb_ctx (fib s (g_cur s)) = CtxCs cs"
  shows "out_ok (cs_resume cs s)"
  using cs_resume_idle [OF sw, of cs] c cs_enter_try_ok
  by (auto simp: cs_resume_def Let_def split: option.splits)

lemma srw_acquire_ok:
  assumes g: "guest_inv s" and c: "c = CtxSrw lock excl \<or> (\<exists>ret. c = CtxCvSrw lock excl ret)"
  shows "out_ok (u32_srw_acquire c r lock excl s)"
proof -
  have core: "core s" using guest_core [OF g] .
  have r: "running idle (u32_sched_ensure s)"
    using guest_tabs [OF g] core by (simp add: guest_running)
  have "out_ok (block_on c (\<lambda>f. f\<lparr>fb_wait_srw := lock, fb_wait_srw_excl := excl\<rparr>) (u32_sched_ensure s))"
    by (rule block_on_ok [OF r]) (use c in \<open>auto simp: blocking_def waits_on_def idle_def\<close>)
  moreover have "guest_inv (s\<lparr>g_srw := T\<rparr>)" if "u32_srw_take (g_srw s) lock excl (g_cur s) = Some T" for T
    using guest_tabs [OF g tabs_step_srw [OF core srw_ok_take [OF _ _ that]]] coreD [OF core] by blast
  ultimately show ?thesis by (auto simp: u32_srw_acquire_def split: option.splits)
qed

lemma srw_acquire_shims_ok [shim_ok]:
  assumes g: "guest_inv s"
  shows "out_ok (aret_AcquireSRWLockExclusive esp s)" "out_ok (aret_AcquireSRWLockShared esp s)"
  using srw_acquire_ok [OF g]
  by (auto simp: aret_AcquireSRWLockExclusive_def aret_AcquireSRWLockShared_def)

lemma srw_resume_ok:
  assumes sw: "switched s"
    and c: "fb_ctx (fib s (g_cur s)) = c" "c = CtxSrw lock excl \<or> (\<exists>ret. c = CtxCvSrw lock excl ret)"
  shows "out_ok (srw_resume c r lock excl s)"
proof -
  have "running (\<lambda>f. idle (f\<lparr>fb_wait_srw := 0\<rparr>)) s"
    using sw c by (auto simp: switched_def running_def waits_on_def)
  then have "guest_inv (upd_fiber (g_cur s) (\<lambda>f. f\<lparr>fb_wait_srw := 0\<rparr>) s)"
    unfolding guest_running by (rule running_upd) simp_all
  from srw_acquire_ok [OF this c(2)] show ?thesis by (simp add: srw_resume_def)
qed

lemma condvar_reacquire_ok:
  assumes g: "guest_inv s" shows "out_ok (condvar_reacquire lock is_cs shared ret s)"
proof -
  note c = guest_core [OF g]
  have "out_ok (cs_enter_try (CtxCvCs lock ret) ret lock k (s\<lparr>g_cs := T\<rparr>))"
    if "u32_cs_ensure (g_cs s) lock = Some (k, T)" for k T
    using cs_enter_try_ok [OF guest_tabs [OF g tabs_step_cs [OF c]]] cs_ok_ensure [OF coreD(2) [OF c] that] by blast
  then show ?thesis using srw_acquire_ok [OF g]
    by (auto simp: condvar_reacquire_def split: option.splits)
qed

lemma condvar_release_tabs: "core s \<Longrightarrow> tabs_step s (condvar_release lock is_cs shared s)"
  by (auto simp: condvar_release_def split: option.splits
      intro!: tabs_step_cs tabs_step_srw srw_ok_release cs_ok_upd dest: coreD)

lemma condvar_sleep_ok:
  assumes g: "guest_inv s" shows "out_ok (u32_condvar_sleep cv lock is_cs shared ms s)"
proof (cases "u32_cv_ensure (g_cv s) cv")
  case (Some kT)
  then obtain k T where k: "u32_cv_ensure (g_cv s) cv = Some (k, T)" by (cases kT) auto
  note c = guest_core [OF g]
  have T: "cv_ok T" "k < length T" "cv_key (T ! k) = cv" "cv_ext (g_cv s) T"
    using cv_ok_ensure [OF coreD(4) [OF c] k] cv_ext_ensure [OF k] by auto
  let ?s0 = "s\<lparr>g_cv := T\<rparr>"
  let ?s1 = "u32_sched_ensure (condvar_release lock is_cs shared ?s0)"
  have t0: "tabs_step s ?s0" by (rule tabs_step_cv [OF c T(1,4)])
  have t1: "tabs_step s ?s1"
    using tabs_step_trans [OF t0 tabs_step_trans] condvar_release_tabs [OF core_tabs [OF t0]]
      core_tabs tabs_step_inert(7) by blast
  have g1: "guest_inv ?s1" by (rule guest_tabs [OF g t1])
  have "g_cv ?s1 = T"
    by (auto simp: u32_sched_ensure_def condvar_release_def split: option.splits)
  then have "out_ok (block_on (CtxCv cv k lock is_cs shared)
      (\<lambda>f. f\<lparr>fb_wait_cv := cv, fb_has_timeout := b, fb_wake_time := v, fb_timed_out := False\<rparr>) ?s1)" for b v
    using T by (intro block_on_ok [OF g1 [unfolded guest_running]]) (auto simp: blocking_def waits_on_def idle_def)
  moreover have "out_ok (condvar_reacquire lock is_cs shared 0 (set_error e ?s1))" for e
    by (rule condvar_reacquire_ok [OF guest_tabs [OF g1]]) (simp add: guest_core [OF g1])
  ultimately show ?thesis using k by (simp add: u32_condvar_sleep_def Let_def)
qed (simp add: u32_condvar_sleep_def)

lemma condvar_shims_ok [shim_ok]:
  assumes g: "guest_inv s"
  shows "out_ok (aret_SleepConditionVariableSRW esp s)" "out_ok (aret_SleepConditionVariableCS esp s)"
  by (simp_all add: aret_SleepConditionVariableSRW_def aret_SleepConditionVariableCS_def condvar_sleep_ok [OF g])

lemma condvar_resume_ok:
  assumes sw: "switched s" and c: "fb_ctx (fib s (g_cur s)) = CtxCv cv k lock is_cs shared"
  shows "out_ok (condvar_resume cv k lock is_cs shared s)"
proof -
  let ?P = "\<lambda>f. fb_wait_cv f = cv \<and> k < length (g_cv s) \<and> cv_key (g_cv s ! k) = cv
      \<and> idle (f\<lparr>fb_wait_cv := 0, fb_has_timeout := False\<rparr>)"
  have r: "running ?P s" using sw c by (auto simp: switched_def running_def waits_on_def)
  note core = running_core [OF r]
  have awake: "out_ok (condvar_awake lock is_cs shared ret t)" if "tabs_step s t" for ret t
  proof -
    have "running idle (upd_fiber (g_cur t) (\<lambda>f. f\<lparr>fb_wait_cv := 0, fb_has_timeout := False\<rparr>) t)"
      by (rule running_upd [OF running_tabs [OF r that]]) simp_all
    then show ?thesis by (simp add: condvar_awake_def condvar_reacquire_ok guest_running)
  qed
  have "tabs_step s (s\<lparr>g_cv := (g_cv s)[k := (g_cv s ! k)\<lparr>cv_grants := x\<rparr>]\<rparr>)" for x
    by (rule tabs_step_cv [OF core]) (use coreD [OF core] in \<open>auto intro!: cv_ok_upd cv_ext_upd\<close>)
  moreover have "out_ok (block_on (CtxCv cv k lock is_cs shared) id s)"
    by (rule block_on_ok [OF r]) (auto simp: blocking_def waits_on_def idle_def)
  ultimately show ?thesis using awake core by (simp add: condvar_resume_def)
qed

lemma condvar_cs_resume_ok:
  assumes sw: "switched s" and c: "fb_ctx (fib s (g_cur s)) = CtxCvCs cs ret"
  shows "out_ok (condvar_cs_resume cs ret s)"
  using condvar_reacquire_ok [OF cs_resume_idle [OF sw]] c by (simp add: condvar_cs_resume_def)


subsection \<open>Threads and the thread pool\<close>

lemma guest_append:
  assumes g: "guest_inv s" and n: "g_nfiber s < U32_MAX_FIBER" and p: "parked (g_cv s) f"
  shows "guest_inv (s\<lparr>g_fiber := g_fiber s @ [f]\<rparr>)"
proof -
  have "core (s\<lparr>g_fiber := g_fiber s @ [f]\<rparr>)"
    using guest_core [OF g] n by (auto simp: core_def intro: cs_ok_mono srw_ok_mono mx_ok_mono)
  then show ?thesis using g p coreD(1) [OF guest_core [OF g]]
    by (auto simp: guest_inv_def others_def nth_append less_Suc_eq)
qed

lemma guest_upd_other:
  assumes "guest_inv s" "i \<noteq> g_cur s" "i < g_nfiber s \<Longrightarrow> parked (g_cv s) (fib s i) \<Longrightarrow> parked (g_cv s) (g (fib s i))"
  shows "guest_inv (upd_fiber i g s)"
proof -
  have "parked (g_cv s) (fib (upd_fiber i g s) j)" if "j < g_nfiber s" "j \<noteq> g_cur s" for j
    using assms that by (cases "j = i") (auto simp: guest_inv_def others_def)
  then show ?thesis using assms(1,2) by (auto simp: guest_inv_def others_def)
qed

lemma new_fiber_parked:
  "fb_ctx f = CtxEntry \<Longrightarrow> idle f \<Longrightarrow> fb_state f \<in> {FST_READY, FST_SUSPENDED} \<Longrightarrow> parked T f"
  by (auto simp: parked_def waits_on_def)

lemma idle_new_fiber: "fb_ctx (new_fiber ms a b) = CtxEntry" "idle (new_fiber ms a b)"
  by (simp_all add: new_fiber_def fiber_zero_def idle_def)

lemma spawn_ok: "guest_inv s \<Longrightarrow> out_ok (u32_spawn hs ms st pa fl tid s)"
proof -
  assume g: "guest_inv s"
  let ?f = "(new_fiber ms st pa)\<lparr>fb_state := (if fl AND 4 \<noteq> 0 then FST_SUSPENDED else FST_READY)\<rparr>"
  let ?s1 = "(u32_sched_ensure s)\<lparr>g_fiber := g_fiber s @ [?f]\<rparr>"
  have e: "guest_inv (u32_sched_ensure s)" using guest_tabs [OF g] guest_core [OF g] by simp
  have f: "parked (g_cv s) ?f" by (rule new_fiber_parked) (auto simp: new_fiber_def fiber_zero_def idle_def)
  have "guest_inv ?s1" if "g_nfiber s < U32_MAX_FIBER"
    using guest_append [OF e, of ?f] that f by (simp add: u32_sched_ensure_def)
  then have "guest_inv (put32 tid v ?s1)" if "g_nfiber s < U32_MAX_FIBER" for v
    using guest_tabs [OF _ tabs_step_inert(10)] guest_core that by blast
  then show ?thesis using guest_tabs [OF g] guest_core [OF g]
    by (auto simp: u32_spawn_def Let_def)
qed

lemma fiber_exit_sched:
  assumes "running P s" "\<And>f. fb_state (g f) = FST_DONE"
  shows "sched_inv (upd_fiber (g_cur s) g s)"
proof -
  have "parked (g_cv s) (fib (upd_fiber (g_cur s) g s) i)" if "i < g_nfiber s" for i
    using assms that by (cases "i = g_cur s") (auto simp: running_def others_def parked_def)
  then show ?thesis using assms(1) by (simp add: sched_inv_def running_def)
qed

lemma fiber_exit_ok: "guest_inv s \<Longrightarrow> out_ok (fiber_exit code s)"
  unfolding fiber_exit_def guest_running by (auto intro: fiber_exit_sched)

lemma parked_priority [simp]: "parked T (f\<lparr>fb_priority := p\<rparr>) = parked T f"
  by (simp add: parked_def waits_on_def idle_def split: fiber_ctx.splits)

lemma thread_shims_ok [shim_ok]:
  assumes g: "guest_inv s"
  shows "out_ok (aret_CreateThread hs ms esp s)" "out_ok (aret_beginthreadex hs ms esp s)"
    "out_ok (aret_beginthread hs ms esp s)" "out_ok (aret_ResumeThread esp s)" "out_ok (aret_SuspendThread esp s)"
    "out_ok (aret_ExitThread esp s)" "out_ok (aret_TerminateThread esp s)" "out_ok (aret_CreateProcess esp s)"
    "out_ok (aret_GetExitCodeThread esp s)" "out_ok (aret_SetThreadPriority esp s)"
    "out_ok (aret_GetThreadPriority esp s)" "out_ok (aret_OpenProcess pid esp s)"
    "out_ok (aret_DuplicateHandle nfd esp s)"
proof -
  note c = guest_core [OF g]
  show "out_ok (aret_CreateThread hs ms esp s)" "out_ok (aret_beginthreadex hs ms esp s)"
    "out_ok (aret_beginthread hs ms esp s)"
    using spawn_ok [OF g] by (simp_all add: aret_CreateThread_def aret_beginthreadex_def aret_beginthread_def)
  show "out_ok (aret_ResumeThread esp s)"
  proof (cases "u32_thread_idx (g_fiber s) (WU esp 0 s)")
    case (Some fi)
    have "guest_inv (upd_fiber fi (\<lambda>f. f\<lparr>fb_state := FST_READY\<rparr>) s)" if "st_of s fi = FST_SUSPENDED"
    proof (rule guest_upd_other [OF g])
      show "fi \<noteq> g_cur s" using that g by (auto simp: guest_inv_def)
      assume "parked (g_cv s) (fib s fi)"
      with that show "parked (g_cv s) ((fib s fi)\<lparr>fb_state := FST_READY\<rparr>)"
        by (auto simp: parked_def waits_on_def idle_def)
    qed
    with Some g show ?thesis by (simp add: aret_ResumeThread_def)
  qed (use g in \<open>simp add: aret_ResumeThread_def\<close>)
  show "out_ok (aret_SuspendThread esp s)" by (simp add: aret_SuspendThread_def)
  show "out_ok (aret_ExitThread esp s)" using fiber_exit_ok [OF g] by (simp add: aret_ExitThread_def)
  show "out_ok (aret_TerminateThread esp s)"
    using g fiber_exit_ok [OF g] guest_upd_other [OF g]
    by (auto simp: aret_TerminateThread_def Let_def parked_def split: option.splits)
  show "out_ok (aret_CreateProcess esp s)" "out_ok (aret_GetExitCodeThread esp s)"
    "out_ok (aret_GetThreadPriority esp s)" "out_ok (aret_OpenProcess pid esp s)" "out_ok (aret_DuplicateHandle nfd esp s)"
    using g c by (auto simp: aret_CreateProcess_def aret_GetExitCodeThread_def aret_GetThreadPriority_def
        aret_OpenProcess_def aret_DuplicateHandle_def Let_def split: option.splits intro!: guest_tabs [OF g])
  have "guest_inv (upd_fiber fi (\<lambda>f. f\<lparr>fb_priority := p\<rparr>) s)" for fi p
  proof (cases "fi = g_cur s")
    case True
    have "running idle (upd_fiber (g_cur s) (\<lambda>f. f\<lparr>fb_priority := p\<rparr>) s)"
      by (rule running_upd [OF g [unfolded guest_running]]) (simp_all add: idle_def)
    with True show ?thesis by (simp add: guest_running)
  qed (use guest_upd_other [OF g] in auto)
  with g show "out_ok (aret_SetThreadPriority esp s)"
    by (auto simp: aret_SetThreadPriority_def split: option.splits)
qed

lemma pool_wait_ok: "guest_inv s \<Longrightarrow> out_ok (pool_wait p s)"
  using yield_to_ok [of s "CtxPool p"]
  by (auto simp: pool_wait_def bad_work_def split: option.splits)

lemma pool_shims_ok [shim_ok]:
  assumes g: "guest_inv s"
  shows "out_ok (aret_CreateThreadpoolWork p esp s)" "out_ok (aret_SubmitThreadpoolWork hs ms esp s)"
    "out_ok (aret_WaitForThreadpoolWorkCallbacks esp s)" "out_ok (aret_CloseThreadpoolWork esp s)"
proof -
  note c = guest_core [OF g]
  show "out_ok (aret_CreateThreadpoolWork p esp s)" "out_ok (aret_CloseThreadpoolWork esp s)"
    using g c by (auto simp: aret_CreateThreadpoolWork_def aret_CloseThreadpoolWork_def bad_work_def Let_def
        split: option.splits intro!: guest_tabs [OF g])
  have "out_ok (pool_wait p (u32_sched_ensure t))" if "tabs_step s t" for p t
    by (rule pool_wait_ok [OF guest_tabs [OF g tabs_step_trans [OF that]]]) (use core_tabs [OF that] in simp)
  then show "out_ok (aret_WaitForThreadpoolWorkCallbacks esp s)"
    using g c by (auto simp: aret_WaitForThreadpoolWorkCallbacks_def bad_work_def Let_def split: option.splits)
  have "guest_inv ((u32_sched_ensure s)\<lparr>g_fiber := g_fiber s @ [(new_fiber ms a b)
      \<lparr>fb_pool_work := w, fb_is_pool := True, fb_state := FST_READY\<rparr>], g_tpwork := q\<rparr>)"
    if "g_nfiber s < U32_MAX_FIBER" for a b w q
  proof -
    let ?f = "(new_fiber ms a b)\<lparr>fb_pool_work := w, fb_is_pool := True, fb_state := FST_READY\<rparr>"
    have f: "parked (g_cv s) ?f" by (rule new_fiber_parked) (auto simp: new_fiber_def fiber_zero_def idle_def)
    have e: "guest_inv (u32_sched_ensure s)" using guest_tabs [OF g] c by simp
    have "guest_inv ((u32_sched_ensure s)\<lparr>g_fiber := g_fiber s @ [?f]\<rparr>)"
      using guest_append [OF e, of ?f] that f by (simp add: u32_sched_ensure_def)
    then show ?thesis using guest_tabs [OF _ tabs_step_inert(6)] guest_core by fastforce
  qed
  then show "out_ok (aret_SubmitThreadpoolWork hs ms esp s)"
    using g by (auto simp: aret_SubmitThreadpoolWork_def bad_work_def Let_def split: option.splits)
qed

lemma fiber_return_ok:
  assumes g: "guest_inv s" shows "out_ok (fiber_return r s)"
proof -
  let ?g = "\<lambda>code f. f\<lparr>fb_exit_code := code, fb_state := FST_DONE, fb_ctx := CtxDead\<rparr>"
  have "sched_inv (upd_fiber (g_cur s) (?g code) t)" if "tabs_step s t" for code t
  proof -
    have r: "running idle t" using guest_tabs [OF g that] by (simp add: guest_running)
    have "sched_inv (upd_fiber (g_cur t) (?g code) t)" by (rule fiber_exit_sched [OF r]) simp
    with that show ?thesis by (simp add: tabs_step_def)
  qed
  then show ?thesis using guest_core [OF g]
    by (auto simp: fiber_return_def bad_work_def Let_def split: option.splits)
qed

lemma trampoline_ok: "guest_inv s \<Longrightarrow> out_ok (u32_fiber_trampoline s)"
  using fiber_return_ok [of s] guest_tabs [of s] guest_core [of s]
  by (auto simp: u32_fiber_trampoline_def bad_work_def Let_def split: option.splits)

lemma resume_ok: "switched s \<Longrightarrow> out_ok (resume s)"
proof -
  assume sw: "switched s"
  have g: "guest_inv s" if "idle (fib s (g_cur s))"
    using sw that by (auto simp: switched_def guest_inv_def)
  have w: "waits_on (g_cv s) (fib s (g_cur s))" using sw by (simp add: switched_def)
  show ?thesis
  proof (cases "fb_ctx (fib s (g_cur s))")
    case (CtxWait src n all)
    then show ?thesis using wait_resume_ok [OF sw CtxWait] by (cases src) (simp_all add: resume_def)
  next
    case (CtxCs cs) then show ?thesis using cs_resume_ok [OF sw CtxCs] by (simp add: resume_def)
  next
    case (CtxSrw l e) then show ?thesis using srw_resume_ok [OF sw CtxSrw] by (simp add: resume_def)
  next
    case (CtxCv a b c d e) then show ?thesis using condvar_resume_ok [OF sw CtxCv] by (simp add: resume_def)
  next
    case (CtxCvCs l r) then show ?thesis using condvar_cs_resume_ok [OF sw CtxCvCs] by (simp add: resume_def)
  next
    case (CtxCvSrw l e r) then show ?thesis using srw_resume_ok [OF sw CtxCvSrw] by (simp add: resume_def)
  next
    case CtxSleep then show ?thesis using sleep_resume_ok [OF sw CtxSleep] by (simp add: resume_def)
  qed (use w g in \<open>auto simp: resume_def waits_on_def pool_wait_ok trampoline_ok\<close>)
qed


section \<open>The scheduler keeps the invariant\<close>

lemma waits_on_state [simp]:
  "waits_on T (f\<lparr>fb_state := x\<rparr>) = waits_on T f" "waits_on T (f\<lparr>fb_state := x, fb_timed_out := b\<rparr>) = waits_on T f"
  by (simp_all add: waits_on_def idle_def split: fiber_ctx.splits)

lemma parked_woken: "parked T (fib s i) \<Longrightarrow> parked T (woken s i)"
  by (auto simp: woken_def parked_def)

lemma parked_fire: "parked T f \<Longrightarrow> parked T (fire_timeouts e f)"
  by (auto simp: fire_timeouts_def parked_def)

lemma wake_pass_inv: "sched_inv s \<Longrightarrow> sched_inv (wake_pass s)"
proof -
  assume i: "sched_inv s"
  then have c: "core s" by (simp add: sched_inv_def)
  note w = wake_pass_same [OF core_owners [OF c]] wake_pass_spec(2) [OF core_owners [OF c]]
  have "core (wake_pass s)" using c by (simp add: core_def w)
  then show ?thesis using i by (auto simp: sched_inv_def w parked_woken)
qed

lemma pass_switch_inv:
  assumes i: "sched_inv s" and p: "u32_sched_pass s = Switch s'" shows "switched s'"
proof -
  have c: "core s" using i by (simp add: sched_inv_def)
  let ?w = "wake_pass s"
  have wi: "sched_inv ?w" by (rule wake_pass_inv [OF i])
  note same = wake_pass_same [OF core_owners [OF c]]
  obtain k where k: "k < g_nfiber s" "g_cur s' = k" "g_rr s' = k" "sched_pick ?w = Some k"
    "s' = (upd_fiber k (\<lambda>f. f\<lparr>fb_state := FST_RUNNING\<rparr>) ?w)
       \<lparr>g_rr := k, g_cur := k, g_last_error := fb_last_error (fib ?w k)\<rparr>"
    using pass_switch [OF core_owners [OF c] p] by metis
  have "st_of ?w k = FST_READY" using sched_pick_Some [OF k(4)] coreD(8) [OF c] same(13) by simp
  then have "waits_on (g_cv ?w) (fib ?w k)" using wi k(1) same by (auto simp: sched_inv_def parked_def)
  moreover have "core s'" using wi k same by (simp add: sched_inv_def core_def)
  ultimately show ?thesis using wi k same
    by (auto simp: switched_def others_def sched_inv_def)
qed

lemma pass_again_inv:
  assumes i: "sched_inv s" shows "u32_sched_pass s = Again s' \<Longrightarrow> sched_inv s'"
    "u32_sched_pass s = PollWait ps s' \<Longrightarrow> sched_inv s'"
proof -
  have wi: "sched_inv (wake_pass s)" by (rule wake_pass_inv [OF i])
  show "sched_inv s'" if "u32_sched_pass s = PollWait ps s'"
    using wi that by (auto simp: u32_sched_pass_def Let_def split: option.splits if_splits)
  show "sched_inv s'" if a: "u32_sched_pass s = Again s'"
  proof -
    obtain e where s': "s' = (wake_pass s)\<lparr>g_vclock := e, g_fiber := map (fire_timeouts e) (g_fiber (wake_pass s))\<rparr>"
      using a by (auto simp: u32_sched_pass_def Let_def split: option.splits if_splits)
    have "core s'" using wi by (simp add: s' sched_inv_def core_def)
    with wi show ?thesis by (auto simp: s' sched_inv_def parked_fire)
  qed
qed

section \<open>The machine\<close>

definition shims :: "(u32 \<Rightarrow> sys \<Rightarrow> outcome) set" where
  "shims = {aret_InitializeCriticalSection, aret_InitializeCriticalSectionAndSpinCount,
     aret_InitializeCriticalSectionEx, aret_DeleteCriticalSection, aret_EnterCriticalSection,
     aret_TryEnterCriticalSection, aret_LeaveCriticalSection, aret_InitializeSRWLock,
     aret_AcquireSRWLockExclusive, aret_AcquireSRWLockShared, aret_ReleaseSRWLockExclusive,
     aret_ReleaseSRWLockShared, aret_TryAcquireSRWLockExclusive, aret_TryAcquireSRWLockShared,
     aret_InitializeConditionVariable, aret_WakeConditionVariable, aret_WakeAllConditionVariable,
     aret_SleepConditionVariableSRW, aret_SleepConditionVariableCS,
     aret_CreateEventA, aret_CreateEventW, aret_SetEvent, aret_ResetEvent,
     aret_WSACreateEvent, aret_WSASetEvent, aret_WSAResetEvent, aret_WSACloseEvent,
     aret_WSAEventSelect, aret_WSAEnumNetworkEvents,
     aret_CreateMutexA, aret_CreateMutexW, aret_OpenMutexA, aret_OpenMutexW, aret_ReleaseMutex,
     aret_CreateSemaphoreA, aret_CreateSemaphoreW, aret_OpenSemaphoreA, aret_OpenSemaphoreW, aret_ReleaseSemaphore,
     aret_WaitForSingleObject, aret_WaitForMultipleObjects, aret_WaitForSingleObjectEx,
     aret_WaitForMultipleObjectsEx, aret_WSAWaitForMultipleEvents, aret_Sleep,
     aret_ResumeThread, aret_SuspendThread, aret_ExitThread, aret_TerminateThread, aret_CreateProcess,
     aret_GetExitCodeThread, aret_SetThreadPriority, aret_GetThreadPriority,
     aret_WaitForThreadpoolWorkCallbacks, aret_CloseThreadpoolWork}
   \<union> (\<Union>hs ms. {aret_CreateThread hs ms, aret_beginthreadex hs ms, aret_beginthread hs ms, aret_SubmitThreadpoolWork hs ms})
   \<union> range aret_OpenProcess \<union> range aret_DuplicateHandle \<union> range aret_CreateThreadpoolWork"

lemma shims_keep:
  assumes "guest_inv s" "f \<in> shims" shows "out_ok (f esp s)"
  using assms(2) unfolding shims_def by (auto intro: shim_ok [OF assms(1)])

datatype conf = Guest sys | Sched sys | Stopped

fun conf_of :: "outcome \<Rightarrow> conf" where
  "conf_of (Ret v s) = Guest s"
| "conf_of (Call a sp s) = Guest s"
| "conf_of (Park s) = Sched s"
| "conf_of (Exit c) = Stopped"
| "conf_of (Abort msg) = Stopped"

text \<open>
  The lifted code runs (it may write memory and, through other shims, the last error), calls a
  shim, or returns from a thread procedure; the scheduler makes one round; or the host changes
  what \<^verbatim>\<open>poll\<close> reports.
\<close>

inductive step :: "conf \<Rightarrow> conf \<Rightarrow> bool" where
  run: "step (Guest s) (Guest (s\<lparr>mem := m, g_last_error := e\<rparr>))"
| call: "f \<in> shims \<Longrightarrow> step (Guest s) (conf_of (f esp s))"
| ret: "g_cur s \<noteq> 0 \<Longrightarrow> step (Guest s) (conf_of (fiber_return r s))"
| switch: "u32_sched_pass s = Switch s' \<Longrightarrow> step (Sched s) (conf_of (resume s'))"
| again: "u32_sched_pass s = Again s' \<Longrightarrow> step (Sched s) (Sched s')"
| poll: "u32_sched_pass s = PollWait ps s' \<Longrightarrow> step (Sched s) (Sched s')"
| stop: "u32_sched_pass s = Deadlock s' \<or> u32_sched_pass s = AllDone s' \<Longrightarrow> step (Sched s) Stopped"
| hostg: "step (Guest s) (Guest (s\<lparr>g_poll := p\<rparr>))"
| hosts: "step (Sched s) (Sched (s\<lparr>g_poll := p\<rparr>))"

inductive_cases stepE: "step c c'"

text \<open>The static initialisers: fiber 0 is the main thread, every table is empty.\<close>

definition boot :: "guest_mem \<Rightarrow> (int \<Rightarrow> u32 \<Rightarrow> u32) \<Rightarrow> sys" where
  "boot m p = \<lparr>mem = m, g_last_error = 0, g_fiber = [fiber_zero], g_cur = 0, g_rr = 0, g_sched_ready = False,
     g_vclock = 0, g_cs = [], g_srw = [], g_cv = [], g_event = [], g_mutex = [], g_sem = [],
     g_wsaevsel = (\<lambda>_. \<lparr>ws_used = False, ws_fd = 0, ws_mask = 0\<rparr>), g_tpwork = (\<lambda>_. None), g_poll = p\<rparr>"

inductive reachable :: "conf \<Rightarrow> bool" where
  init: "reachable (Guest (boot m p))"
| more: "reachable c \<Longrightarrow> step c c' \<Longrightarrow> reachable c'"

fun conf_inv :: "conf \<Rightarrow> bool" where
  "conf_inv (Guest s) = guest_inv s"
| "conf_inv (Sched s) = sched_inv s"
| "conf_inv Stopped = True"

lemma conf_of_inv: "out_ok r \<Longrightarrow> conf_inv (conf_of r)"
  by (cases r) auto

lemma boot_inv: "guest_inv (boot m p)"
  by (simp add: guest_inv_def boot_def core_def others_def idle_def fiber_zero_def cs_ok_def srw_ok_def
      cv_ok_def mx_ok_def U32_MAX_FIBER_def)

lemma sched_inv_poll: "sched_inv s \<Longrightarrow> sched_inv (s\<lparr>g_poll := p\<rparr>)"
  by (simp add: sched_inv_def core_def)

lemma guest_inv_run: "guest_inv s \<Longrightarrow> guest_inv (s\<lparr>mem := m, g_last_error := e\<rparr>)"
  by (simp add: guest_inv_def core_def others_def)

lemma step_inv: "step c c' \<Longrightarrow> conf_inv c \<Longrightarrow> conf_inv c'"
proof (induction rule: step.induct)
  case (call f s esp)
  then show ?case by (auto intro: conf_of_inv shims_keep)
next
  case (ret s r)
  then show ?case by (auto intro: conf_of_inv fiber_return_ok)
next
  case (switch s s')
  then show ?case by (auto intro: conf_of_inv resume_ok pass_switch_inv)
next
  case (hostg s p)
  then show ?case using guest_tabs [of s "s\<lparr>g_poll := p\<rparr>"] guest_core [of s] by simp
qed (auto intro: pass_again_inv sched_inv_poll guest_inv_run)

lemma reachable_conf_inv: "reachable c \<Longrightarrow> conf_inv c"
  by (induction rule: reachable.induct) (auto simp: boot_inv intro: step_inv)

end
