(* ===== verification/Aret_Thread_Theorems.thy ===== *)
theory Aret_Thread_Theorems
  imports Aret_Machine
begin

text \<open>
  What the threading layer guarantees its client: mutual exclusion of critical sections and
  mutexes, the behaviour of events and semaphores, sharing by name, progress of the scheduler,
  and the places where the code departs from what its comments or Windows promise.
\<close>

section \<open>What a call leaves alone\<close>

text \<open>Every state a call leads to agrees with \<open>s\<close> on \<open>sel\<close>.\<close>

definition keeps :: "(sys \<Rightarrow> 'a) \<Rightarrow> sys \<Rightarrow> outcome \<Rightarrow> bool" where
  "keeps sel s r = (case r of Ret v t \<Rightarrow> sel t = sel s | Park t \<Rightarrow> sel t = sel s
     | Call a sp t \<Rightarrow> sel t = sel s | Exit c \<Rightarrow> True | Abort msg \<Rightarrow> True)"

lemma keeps_simps [simp]:
  "keeps sel s (Ret v t) = (sel t = sel s)" "keeps sel s (Park t) = (sel t = sel s)"
  "keeps sel s (Call a sp t) = (sel t = sel s)" "keeps sel s (Exit c)" "keeps sel s (Abort msg)"
  "keeps sel s bad_work"
  by (simp_all add: keeps_def bad_work_def)

lemma keeps_map_ret [simp]: "keeps sel s (map_ret g r) = keeps sel s r"
  by (cases r) (simp_all add: map_ret_def)

lemma keeps_block [simp]:
  "keeps g_cs s (block_on c g t) = (g_cs t = g_cs s)" "keeps g_mutex s (block_on c g t) = (g_mutex t = g_mutex s)"
  "keeps g_cs s (yield_to c t) = (g_cs t = g_cs s)" "keeps g_mutex s (yield_to c t) = (g_mutex t = g_mutex s)"
  by (simp_all add: block_on_def yield_to_def u32_to_sched_def)

lemma inert_sel [simp]:
  "g_cs (set_error e s) = g_cs s" "g_mutex (set_error e s) = g_mutex s"
  "g_cs (err_opt eo s) = g_cs s" "g_mutex (err_opt eo s) = g_mutex s"
  "g_cs (put32 a v s) = g_cs s" "g_mutex (put32 a v s) = g_mutex s"
  "g_cs (wsa_put i x s) = g_cs s" "g_mutex (wsa_put i x s) = g_mutex s"
  "g_cs (u32_sched_ensure s) = g_cs s" "g_mutex (u32_sched_ensure s) = g_mutex s"
  "g_cs (event_put b h s) = g_cs s" "g_mutex (event_put b h s) = g_mutex s"
  "g_cs (u32_handle_acquire h me s) = g_cs s"
  by (auto simp: set_error_def err_opt_def put32_def wsa_put_def u32_sched_ensure_def event_put_def
      u32_handle_acquire_def split: option.splits)

lemma acquire_fold_cs [simp]: "g_cs (fold (\<lambda>h. u32_handle_acquire h me) hs s) = g_cs s"
  by (induction hs arbitrary: s) simp_all

lemma wait_finish_cs [simp]: "keeps g_cs s (wait_finish src n all s')  = (g_cs s' = g_cs s)"
proof -
  let ?s1 = "upd_fiber (g_cur s') (\<lambda>f. f\<lparr>fb_wait_h := []\<rparr>) s'"
  obtain k s2 where f: "first_signaled (map (handle_at (mem s') src) [0..<n]) 0 (g_cur s') ?s1 = (k, s2)"
      "touched ?s1 s2" using first_signaled_touched by metis
  then show ?thesis using touched_same(5) [OF f(2)] by (simp add: wait_finish_def Let_def)
qed

lemma u32_wait_cs:
  assumes "guest_inv s" shows "keeps g_cs s (u32_wait src n all ms s)"
proof -
  let ?s1 = "upd_fiber (g_cur s) (\<lambda>f. f\<lparr>fb_wait_h := map (handle_at (mem s) src) [0..<min n 64], fb_wait_all := all\<rparr>) s"
  have "core ?s1" using assms by (simp add: guest_core)
  then obtain s2 where w: "u32_wait_ok (g_cur s) ?s1 = (wait_sat (g_cur s) ?s1, s2)" "touched ?s1 s2"
    using wait_ok_spec core_owners by metis
  then show ?thesis using touched_same(5) [OF w(2)]
    by (simp add: u32_wait_def Let_def split: bool.splits)
qed

text \<open>Every shim but the ones of critical sections leaves their table alone.\<close>

definition cs_shims :: "(u32 \<Rightarrow> sys \<Rightarrow> outcome) set" where
  "cs_shims = {aret_InitializeCriticalSection, aret_InitializeCriticalSectionAndSpinCount,
     aret_InitializeCriticalSectionEx, aret_DeleteCriticalSection, aret_EnterCriticalSection,
     aret_TryEnterCriticalSection, aret_LeaveCriticalSection, aret_SleepConditionVariableSRW,
     aret_SleepConditionVariableCS}"

lemma condvar_srw_cs: "keeps g_cs s (u32_condvar_sleep cv lock False shared ms s)"
  by (auto simp: u32_condvar_sleep_def condvar_release_def condvar_reacquire_def u32_srw_acquire_def
      Let_def split: option.splits)

lemma spawn_cs: "keeps g_cs s (u32_spawn hs ms st pa fl tid s)"
  by (simp add: u32_spawn_def Let_def)

text \<open>The shims outside critical sections, unfolded.\<close>

lemmas shim_defs =
  aret_InitializeSRWLock_def aret_AcquireSRWLockExclusive_def aret_AcquireSRWLockShared_def
  aret_ReleaseSRWLockExclusive_def aret_ReleaseSRWLockShared_def aret_TryAcquireSRWLockExclusive_def
  aret_TryAcquireSRWLockShared_def srw_try_def u32_srw_acquire_def
  aret_InitializeConditionVariable_def aret_WakeConditionVariable_def
  aret_WakeAllConditionVariable_def aret_CreateEventA_def aret_CreateEventW_def create_event_def
  aret_SetEvent_def aret_ResetEvent_def aret_WSACreateEvent_def aret_WSASetEvent_def
  aret_WSAResetEvent_def aret_WSACloseEvent_def aret_WSAEventSelect_def
  aret_WSAEnumNetworkEvents_def aret_CreateMutexA_def aret_CreateMutexW_def create_mutex_def
  aret_OpenMutexA_def aret_OpenMutexW_def aret_ReleaseMutex_def aret_CreateSemaphoreA_def
  aret_CreateSemaphoreW_def create_sem_def aret_OpenSemaphoreA_def aret_OpenSemaphoreW_def
  aret_ReleaseSemaphore_def aret_WaitForSingleObject_def aret_WaitForMultipleObjects_def
  aret_WaitForSingleObjectEx_def aret_WaitForMultipleObjectsEx_def aret_WSAWaitForMultipleEvents_def
  aret_Sleep_def u32_sleep_def aret_ResumeThread_def aret_SuspendThread_def aret_ExitThread_def
  aret_TerminateThread_def fiber_exit_def aret_CreateProcess_def aret_GetExitCodeThread_def
  aret_SetThreadPriority_def aret_GetThreadPriority_def aret_WaitForThreadpoolWorkCallbacks_def
  pool_wait_def aret_CloseThreadpoolWork_def aret_CreateThread_def aret_beginthreadex_def
  aret_beginthread_def aret_SubmitThreadpoolWork_def aret_OpenProcess_def aret_DuplicateHandle_def
  aret_CreateThreadpoolWork_def

lemma cs_table_kept:
  assumes g: "guest_inv s" and f: "f \<in> shims - cs_shims"
  shows "keeps g_cs s (f esp s)"
proof -
  note w = u32_wait_cs [OF g]
  have "f \<in> shims" "f \<notin> cs_shims" using f by auto
  then show ?thesis
    unfolding shims_def cs_shims_def
    by (elim UnE insertE emptyE UN_E rangeE)
      (simp_all add: w spawn_cs Let_def shim_defs split: option.splits prod.splits)
qed


section \<open>A concrete run\<close>

text \<open>
  The main thread starts a second thread, enters a critical section, and yields; the second
  thread runs. All memory is zero, so every shim argument is 0.
\<close>

definition run0 :: sys where "run0 = boot (\<lambda>_. 0) (\<lambda>_ _. 0)"

definition run1 :: sys where
  "run1 = run0\<lparr>g_sched_ready := True, g_fiber := [fiber_zero, (new_fiber 0x1000000 0 0)\<lparr>fb_state := FST_READY\<rparr>]\<rparr>"

definition run2 :: sys where "run2 = run1\<lparr>g_cs := [\<lparr>cs_key = 0, cs_owner = 1, cs_rec = 1\<rparr>]\<rparr>"

definition run3 :: sys where
  "run3 = run2\<lparr>g_fiber := [fiber_zero\<lparr>fb_state := FST_READY, fb_ctx := CtxYield\<rparr>,
     (new_fiber 0x1000000 0 0)\<lparr>fb_state := FST_READY\<rparr>]\<rparr>"

definition run3s :: sys where
  "run3s = run3\<lparr>g_fiber := [fiber_zero\<lparr>fb_state := FST_READY, fb_ctx := CtxYield\<rparr>,
     (new_fiber 0x1000000 0 0)\<lparr>fb_state := FST_RUNNING\<rparr>], g_rr := 1, g_cur := 1\<rparr>"

definition run4 :: sys where
  "run4 = run3s\<lparr>mem := st32 (st32 (\<lambda>_. 0) 0x10FFFC0 0) 0x10FFFC4 0\<rparr>"

lemmas run_defs = run0_def run1_def run2_def run3_def run3s_def run4_def boot_def

lemma zero_args [simp]: "WU esp i run0 = 0" "WU esp i run1 = 0" "WU esp i run2 = 0" "WU esp i run3 = 0"
  by (simp_all add: WU_def ld32_def run_defs)

lemma run1_call: "aret_CreateThread True 0x1000000 0 run0 = Ret 0x70000001 run1"
  by (simp add: aret_CreateThread_def u32_spawn_def)
    (simp add: run_defs U32_MAX_FIBER_def u32_sched_ensure_def put32_def U32_THREAD_BASE_def)

lemma run2_call: "aret_EnterCriticalSection 0 run1 = Ret 0 run2"
  by (simp add: aret_EnterCriticalSection_def)
    (simp add: run_defs u32_cs_ensure_def u32_cs_slot_def first_idx_step U32_MAX_CS_def cs_enter_try_def cs_avail_def cs_grab_def)

lemma run3_call: "aret_Sleep 0 run2 = Park run3"
  by (simp add: aret_Sleep_def) (simp add: run_defs yield_to_def u32_to_sched_def upd_fiber_def fiber_zero_def)

lemma run4_switch: "u32_sched_pass run3 = Switch run3s"
  by (simp add: u32_sched_pass_def wake_pass_def wake_one_def run_defs sched_pick_def first_idx_step
      upd_fiber_def new_fiber_def fiber_zero_def upt_rec)

lemma run4_resume: "resume run3s = Call 0 0x10FFFC0 run4"
  by (simp add: resume_def run_defs new_fiber_def fiber_zero_def u32_fiber_trampoline_def Let_def)

lemma run4_reachable: "reachable (Guest run4)" and run3_reachable: "reachable (Sched run3)"
    and run2_reachable: "reachable (Guest run2)" and run0_reachable: "reachable (Guest run0)"
proof -
  show r0: "reachable (Guest run0)" unfolding run0_def by (rule reachable.init)
  have "step (Guest run0) (conf_of (aret_CreateThread True 0x1000000 0 run0))"
    by (rule step.call) (auto simp: shims_def)
  with r0 have r1: "reachable (Guest run1)" unfolding run1_call by (auto intro: reachable.more)
  have "step (Guest run1) (conf_of (aret_EnterCriticalSection 0 run1))"
    by (rule step.call) (auto simp: shims_def)
  with r1 show r2: "reachable (Guest run2)" unfolding run2_call by (auto intro: reachable.more)
  have "step (Guest run2) (conf_of (aret_Sleep 0 run2))"
    by (rule step.call) (auto simp: shims_def)
  with r2 show r3: "reachable (Sched run3)" unfolding run3_call by (auto intro: reachable.more)
  have "step (Sched run3) (conf_of (resume run3s))" by (rule step.switch [OF run4_switch])
  with r3 show "reachable (Guest run4)" unfolding run4_resume by (auto intro: reachable.more)
qed

section \<open>Critical sections\<close>

lemma cs_owner_upd:
  assumes "cs_key e = cs_key (T ! k)"
  shows "u32_cs_owner (T[k := e]) cs = (if u32_cs_slot T cs = Some k then cs_owner e else u32_cs_owner T cs)"
proof -
  have "u32_cs_slot (T[k := e]) cs = u32_cs_slot T cs" by (rule cs_tab.slot_upd [OF assms])
  then show ?thesis using cs_tab.slotD [of T cs]
    by (auto simp: u32_cs_owner_def nth_list_update split: option.splits)
qed

lemma cs_owner_ensure:
  "u32_cs_ensure T a = Some (k, T') \<Longrightarrow> u32_cs_owner T' cs = u32_cs_owner T cs"
  using cs_tab.slotD [of T cs]
  by (auto simp: u32_cs_ensure_def u32_cs_owner_def cs_tab.slot_append nth_append split: option.splits if_splits)

lemma cs_owner_grab:
  assumes "cs_avail T k me" "u32_cs_owner T cs = Suc j" "j \<noteq> me"
  shows "u32_cs_owner (cs_grab T k me) cs = Suc j"
proof -
  have "u32_cs_slot T cs \<noteq> Some k"
    using assms by (auto simp: cs_avail_def u32_cs_owner_def split: option.splits)
  then show ?thesis using assms(2) by (simp add: cs_grab_def cs_owner_upd)
qed

lemma cs_owner_leave:
  assumes "u32_cs_owner T cs = Suc j" "j \<noteq> me" shows "u32_cs_owner (cs_leave T a me) cs = Suc j"
proof (cases "u32_cs_slot T a")
  case (Some k)
  show ?thesis
  proof (cases "u32_cs_slot T cs = Some k")
    case True
    then have "cs_owner (T ! k) = Suc j" using assms(1) by (simp add: u32_cs_owner_def)
    with assms Some show ?thesis by (simp add: cs_leave_def)
  qed (use assms(1) Some in \<open>auto simp: cs_leave_def cs_owner_upd\<close>)
qed (simp add: cs_leave_def assms(1))

lemma cs_enter_try_owner:
  "u32_cs_owner (g_cs s) cs = Suc j \<Longrightarrow> j \<noteq> g_cur s \<Longrightarrow>
   keeps (\<lambda>t. u32_cs_owner (g_cs t) cs) s (cs_enter_try c r a k s)"
  by (auto simp: cs_enter_try_def cs_owner_grab block_on_def u32_to_sched_def)

lemma keeps_trans: "sel t = sel s \<Longrightarrow> keeps sel t r \<Longrightarrow> keeps sel s r"
  by (cases r) simp_all

lemma keeps_weaken: "keeps g_cs s r \<Longrightarrow> keeps (\<lambda>t. F (g_cs t)) s r"
  by (cases r) simp_all

text \<open>Another section can be deleted, and slept on: with distinct keys an owner is an entry of the table.\<close>

lemma cs_owner_entry:
  assumes "distinct (map cs_key T)"
  shows "u32_cs_owner T cs = Suc j \<longleftrightarrow> (\<exists>e\<in>set T. cs_key e = cs \<and> cs_owner e = Suc j)"
proof (cases "u32_cs_slot T cs")
  case None
  then have "\<forall>i<length T. cs_key (T ! i) \<noteq> cs" "u32_cs_owner T cs = 0" by (simp_all add: u32_cs_owner_def flip: cs_tab.slot_None)
  then show ?thesis by (auto simp: in_set_conv_nth)
next
  case (Some k)
  then have k: "k < length T" "cs_key (T ! k) = cs" using cs_tab.slotD by auto
  have "i = k" if "i < length T" "cs_key (T ! i) = cs" for i
    using that k assms by (metis length_map nth_eq_iff_index_eq nth_map)
  then have "e = T ! k" if "e \<in> set T" "cs_key e = cs" for e using that by (metis in_set_conv_nth)
  moreover have "T ! k \<in> set T" "u32_cs_owner T cs = cs_owner (T ! k)" using Some k(1) by (simp_all add: u32_cs_owner_def)
  ultimately show ?thesis using k(2) by metis
qed

lemma butlast_swap_keeps:
  assumes "k < length T" "e \<in> set T" "e \<noteq> T ! k"
  shows "e \<in> set (butlast (T[k := last T]))"
proof -
  obtain i where i: "i < length T" "T ! i = e" "i \<noteq> k" using assms(2,3) by (auto simp: in_set_conv_nth)
  let ?U = "T[k := last T]"
  have ne: "T \<noteq> []" using i(1) by auto
  show ?thesis
  proof (cases "i = length T - 1")
    case True
    then have "k < length T - 1" using assms(1) i by simp
    moreover have "?U ! k = e" using assms(1) i True ne by (simp add: last_conv_nth)
    ultimately show ?thesis by (metis length_butlast length_list_update nth_butlast nth_mem)
  next
    case False
    then have "i < length T - 1" using i(1) by simp
    moreover have "?U ! i = e" using i by simp
    ultimately show ?thesis by (metis length_butlast length_list_update nth_butlast nth_mem)
  qed
qed

lemma cs_owner_delete:
  assumes ok: "cs_ok n T" and o: "u32_cs_owner T cs = Suc j" and a: "a \<noteq> cs"
  shows "u32_cs_owner (cs_delete T a) cs = Suc j"
proof (cases "u32_cs_slot T a")
  case (Some k)
  have k: "k < length T" "cs_key (T ! k) = a" using cs_tab.slotD [OF Some] by auto
  have d: "distinct (map cs_key T)" "distinct (map cs_key (cs_delete T a))"
    using ok cs_ok_delete [OF ok, of a] by (simp_all add: cs_ok_def)
  obtain e where e: "e \<in> set T" "cs_key e = cs" "cs_owner e = Suc j" using o cs_owner_entry [OF d(1)] by blast
  then have "e \<in> set (cs_delete T a)" using butlast_swap_keeps [OF k(1) e(1)] k(2) a Some by (auto simp: cs_delete_def)
  then show ?thesis using cs_owner_entry [OF d(2)] e by blast
qed (use o in \<open>simp add: cs_delete_def\<close>)

lemma condvar_reacquire_owner:
  assumes "u32_cs_owner (g_cs s) cs = Suc j" "j \<noteq> g_cur s"
  shows "keeps (\<lambda>t. u32_cs_owner (g_cs t) cs) s (condvar_reacquire lock is_cs shared ret s)"
proof -
  have "keeps (\<lambda>t. u32_cs_owner (g_cs t) cs) s (u32_srw_acquire c r l e s)" for c r l e
    by (auto simp: u32_srw_acquire_def block_on_def u32_to_sched_def split: option.splits)
  then show ?thesis using assms
    by (auto simp: condvar_reacquire_def cs_owner_ensure split: option.splits
        intro!: keeps_trans [OF _ cs_enter_try_owner])
qed

lemma condvar_sleep_owner:
  assumes o: "u32_cs_owner (g_cs s) cs = Suc j" "j \<noteq> g_cur s" and l: "lock \<noteq> cs"
  shows "keeps (\<lambda>t. u32_cs_owner (g_cs t) cs) s (u32_condvar_sleep cv lock True shared ms s)"
proof -
  have slot: "u32_cs_slot (g_cs s) cs \<noteq> Some k" if "u32_cs_slot (g_cs s) lock = Some k" for k
    using that l cs_tab.slotD [of "g_cs s"] by metis
  have r: "u32_cs_owner (g_cs (condvar_release lock True shared (s\<lparr>g_cv := T\<rparr>))) cs = Suc j"
    "g_cur (condvar_release lock True shared (s\<lparr>g_cv := T\<rparr>)) = g_cur s" for T
    using o(1) slot by (auto simp: condvar_release_def cs_owner_upd split: option.split)
  show ?thesis
  proof (cases "u32_cv_ensure (g_cv s) cv")
    case (Some kT)
    obtain k T where k: "u32_cv_ensure (g_cv s) cv = Some (k, T)" using Some by (cases kT) auto
    let ?s1 = "u32_sched_ensure (condvar_release lock True shared (s\<lparr>g_cv := T\<rparr>))"
    have e: "u32_cs_owner (g_cs ?s1) cs = Suc j" "g_cur ?s1 = g_cur s"
      using r by (simp_all add: u32_sched_ensure_def)
    have "keeps (\<lambda>t. u32_cs_owner (g_cs t) cs) (set_error 0x102 ?s1) (condvar_reacquire lock True shared 0 (set_error 0x102 ?s1))"
      by (rule condvar_reacquire_owner) (use e o in \<open>simp_all add: set_error_def\<close>)
    then have "keeps (\<lambda>t. u32_cs_owner (g_cs t) cs) s (condvar_reacquire lock True shared 0 (set_error 0x102 ?s1))"
      by (rule keeps_trans [rotated]) (use e o in \<open>simp add: set_error_def\<close>)
    then show ?thesis using k e o by (simp add: u32_condvar_sleep_def Let_def block_on_def u32_to_sched_def)
  qed (simp add: u32_condvar_sleep_def)
qed

text \<open>The calls that may not touch the section \<open>cs\<close> of another fiber: deleting it, and sleeping on it.\<close>

definition spares :: "(u32 \<Rightarrow> sys \<Rightarrow> outcome) \<Rightarrow> u32 \<Rightarrow> sys \<Rightarrow> u32 \<Rightarrow> bool" where
  "spares f esp s cs \<longleftrightarrow> (f = aret_DeleteCriticalSection \<longrightarrow> WU esp 0 s \<noteq> cs) \<and> (f = aret_SleepConditionVariableCS \<longrightarrow> WU esp 1 s \<noteq> cs)"

lemma cs_call_stable:
  assumes g: "guest_inv s" and o: "u32_cs_owner (g_cs s) cs = Suc j" "j \<noteq> g_cur s"
    and f: "f \<in> shims" and sp: "spares f esp s cs"
  shows "keeps (\<lambda>t. u32_cs_owner (g_cs t) cs) s (f esp s)"
proof (cases "f \<in> cs_shims")
  case True
  have i: "keeps (\<lambda>t. u32_cs_owner (g_cs t) cs) s (cs_init r a s)" for r a
    by (auto simp: cs_init_def cs_owner_ensure split: option.splits)
  have e: "keeps (\<lambda>t. u32_cs_owner (g_cs t) cs) s (aret_EnterCriticalSection esp s)"
    using o by (auto simp: aret_EnterCriticalSection_def Let_def cs_owner_ensure split: option.splits
        intro!: keeps_trans [OF _ cs_enter_try_owner])
  have t: "keeps (\<lambda>t. u32_cs_owner (g_cs t) cs) s (aret_TryEnterCriticalSection esp s)"
    using o by (auto simp: aret_TryEnterCriticalSection_def cs_owner_ensure cs_owner_grab split: option.splits)
  have l: "keeps (\<lambda>t. u32_cs_owner (g_cs t) cs) s (aret_LeaveCriticalSection esp s)"
    using o by (simp add: aret_LeaveCriticalSection_def cs_owner_leave)
  have w: "keeps (\<lambda>t. u32_cs_owner (g_cs t) cs) s (aret_SleepConditionVariableSRW esp s)"
    unfolding aret_SleepConditionVariableSRW_def by (rule keeps_weaken [OF condvar_srw_cs])
  have d: "keeps (\<lambda>t. u32_cs_owner (g_cs t) cs) s (aret_DeleteCriticalSection esp s)" if "WU esp 0 s \<noteq> cs"
    using o that cs_owner_delete [OF coreD(2) [OF guest_core [OF g]]] by (simp add: aret_DeleteCriticalSection_def)
  have v: "keeps (\<lambda>t. u32_cs_owner (g_cs t) cs) s (aret_SleepConditionVariableCS esp s)" if "WU esp 1 s \<noteq> cs"
    unfolding aret_SleepConditionVariableCS_def by (rule condvar_sleep_owner [OF o that])
  from True sp show ?thesis
    using i e t l w d v by (auto simp: spares_def cs_shims_def aret_InitializeCriticalSection_def
        aret_InitializeCriticalSectionAndSpinCount_def aret_InitializeCriticalSectionEx_def)
next
  case False
  with f have "keeps g_cs s (f esp s)" by (intro cs_table_kept [OF g]) blast
  then show ?thesis by (rule keeps_weaken)
qed

lemma wait_resume_cs:
  assumes "switched s" shows "keeps g_cs s (wait_resume src n all s)"
proof -
  have "core s" using assms by (simp add: switched_def)
  then obtain s2 where w: "u32_wait_ok (g_cur s) s = (wait_sat (g_cur s) s, s2)" "touched s s2"
    using wait_ok_spec core_owners by metis
  then show ?thesis using touched_same(5) [OF w(2)]
    by (simp add: wait_resume_def Let_def split: bool.splits)
qed

lemma cs_resume_stable:
  assumes sw: "switched s" and o: "u32_cs_owner (g_cs s) cs = Suc j" "j \<noteq> g_cur s"
  shows "keeps (\<lambda>t. u32_cs_owner (g_cs t) cs) s (resume s)" (is "keeps ?F _ _")
proof -
  have w: "keeps ?F s (wait_resume src n all s)" for src n all
    by (rule keeps_weaken [OF wait_resume_cs [OF sw]])
  have sl: "keeps ?F s (sleep_resume s)"
    by (simp add: sleep_resume_def block_on_def u32_to_sched_def)
  have cs: "keeps ?F s (cs_resume a s)" for a
    using o by (auto simp: cs_resume_def Let_def split: option.splits intro!: keeps_trans [OF _ cs_enter_try_owner])
  have sr: "keeps ?F s (srw_resume c r l e s)" for c r l e
    by (auto simp: srw_resume_def u32_srw_acquire_def block_on_def u32_to_sched_def split: option.splits)
  have aw: "keeps ?F s (condvar_awake l b sh r t)" if "g_cs t = g_cs s" "g_cur t = g_cur s" for l b sh r t
    using that o by (auto simp: condvar_awake_def intro!: keeps_trans [OF _ condvar_reacquire_owner])
  have cv: "keeps ?F s (condvar_resume cv k l b sh s)" for cv k l b sh
    using aw by (auto simp: condvar_resume_def block_on_def u32_to_sched_def set_error_def)
  have cc: "keeps ?F s (condvar_cs_resume l r s)" for l r
    using o by (auto simp: condvar_cs_resume_def intro!: keeps_trans [OF _ condvar_reacquire_owner])
  have tr: "keeps ?F s (u32_fiber_trampoline s)"
    by (auto simp: u32_fiber_trampoline_def fiber_return_def Let_def split: option.splits)
  have pw: "keeps ?F s (pool_wait p s)" for p
    by (auto simp: pool_wait_def yield_to_def u32_to_sched_def split: option.splits)
  show ?thesis using w sl cs sr cv cc tr pw
    by (auto simp: resume_def split: fiber_ctx.splits handle_src.splits)
qed

lemma pass_switch_cs: "owners_ok s \<Longrightarrow> u32_sched_pass s = Switch s' \<Longrightarrow> g_cs s' = g_cs s"
proof -
  assume o: "owners_ok s" and p: "u32_sched_pass s = Switch s'"
  obtain i where "s' = (upd_fiber i (\<lambda>f. f\<lparr>fb_state := FST_RUNNING\<rparr>) (wake_pass s))
       \<lparr>g_rr := i, g_cur := i, g_last_error := fb_last_error (fib (wake_pass s) i)\<rparr>"
    using pass_switch [OF o p] by blast
  then show ?thesis by (simp add: wake_pass_same [OF o])
qed

text \<open>
  C2: Mutual exclusion of critical sections. While fiber \<open>j\<close> owns a critical section \<open>cs\<close>, no
  call made by another running fiber changes its owner, whatever the call, except the two misuses
  \<^verbatim>\<open>DeleteCriticalSection\<close> and \<^verbatim>\<open>SleepConditionVariableCS\<close> with this very section \<open>cs\<close>, which the
  caller does not own (deleting or sleeping on any other section is covered); and a fiber the
  scheduler resumes, however it was parked, does not take it either.
\<close>

theorem cs_held_until_owner_leaves:
  assumes "u32_cs_owner (g_cs s) cs = Suc j"
  shows "(reachable (Guest s) \<and> j \<noteq> g_cur s
        \<and> f \<in> shims \<and> spares f esp s cs
      \<longrightarrow> keeps (\<lambda>t. u32_cs_owner (g_cs t) cs) s (f esp s))
    \<and> (reachable (Sched s) \<and> u32_sched_pass s = Switch s' \<and> j \<noteq> g_cur s'
      \<longrightarrow> keeps (\<lambda>t. u32_cs_owner (g_cs t) cs) s (resume s'))"
proof (intro conjI impI; elim conjE)
  assume "reachable (Guest s)" "j \<noteq> g_cur s" "f \<in> shims" "spares f esp s cs"
  then show "keeps (\<lambda>t. u32_cs_owner (g_cs t) cs) s (f esp s)"
    using assms reachable_conf_inv [of "Guest s"] by (intro cs_call_stable) auto
next
  assume r: "reachable (Sched s)" and p: "u32_sched_pass s = Switch s'" and j: "j \<noteq> g_cur s'"
  have i: "sched_inv s" using reachable_conf_inv [OF r] by simp
  then have e: "g_cs s' = g_cs s" using pass_switch_cs core_owners p by (auto simp: sched_inv_def)
  then have "keeps (\<lambda>t. u32_cs_owner (g_cs t) cs) s' (resume s')"
    using cs_resume_stable [OF pass_switch_inv [OF i p], of cs j] assms j by simp
  then show "keeps (\<lambda>t. u32_cs_owner (g_cs t) cs) s (resume s')"
    by (rule keeps_trans [rotated]) (simp add: e)
qed

theorem cs_held_until_owner_leaves_witness:
  "u32_cs_owner (g_cs run4) 0 = Suc 0
    \<and> keeps (\<lambda>t. u32_cs_owner (g_cs t) 0) run4 (aret_EnterCriticalSection 0 run4)
    \<and> keeps (\<lambda>t. u32_cs_owner (g_cs t) 0) run3 (resume run3s)"
proof -
  have o: "u32_cs_owner (g_cs run4) 0 = Suc 0" "u32_cs_owner (g_cs run3) 0 = Suc 0" "g_cur run4 = 1" "g_cur run3s = 1"
    by (simp_all add: run_defs u32_cs_owner_def u32_cs_slot_def first_idx_step)
  have f: "aret_EnterCriticalSection \<in> shims" "spares aret_EnterCriticalSection 0 run4 0"
  proof -
    have "aret_EnterCriticalSection 0 run1 \<noteq> aret_DeleteCriticalSection 0 run1"
      unfolding run2_call by (simp add: aret_DeleteCriticalSection_def run_defs cs_delete_def u32_cs_slot_def first_idx_step)
    moreover have "aret_EnterCriticalSection 0 run1 \<noteq> aret_SleepConditionVariableCS 0 run1"
      unfolding run2_call aret_SleepConditionVariableCS_def by (simp add: u32_condvar_sleep_def)
        (simp add: run_defs u32_cv_ensure_def u32_cv_slot_def first_idx_step U32_MAX_CV_def condvar_release_def
          u32_cs_slot_def condvar_reacquire_def u32_cs_ensure_def U32_MAX_CS_def cs_enter_try_def cs_avail_def
          cs_grab_def u32_sched_ensure_def set_error_def)
    ultimately show "spares aret_EnterCriticalSection 0 run4 0" by (auto simp: spares_def)
  qed (simp add: shims_def)
  show ?thesis
    using cs_held_until_owner_leaves [OF o(1), of aret_EnterCriticalSection 0 run3s]
      cs_held_until_owner_leaves [OF o(2), of aret_EnterCriticalSection 0 run3s]
      run4_reachable run3_reachable run4_switch f o by simp
qed

text \<open>
  \<^verbatim>\<open>EnterCriticalSection\<close> on every branch: a free section, or one the caller owns, is
  taken with its recursion count increased; a section of another fiber parks the caller as
  BLOCKED on it; only a full table of other sections stops the program.
\<close>

theorem enter_critical_section_behaviour:
  assumes "reachable (Guest s)" "cs = WU esp 0 s"
  shows "if u32_cs_slot (g_cs s) cs = None \<and> length (g_cs s) = U32_MAX_CS
    then aret_EnterCriticalSection esp s = Abort ''CriticalSection: table full''
    else if u32_cs_owner (g_cs s) cs \<in> {0, g_cur s + 1}
    then (\<exists>t. aret_EnterCriticalSection esp s = Ret 0 t \<and> u32_cs_owner (g_cs t) cs = g_cur s + 1
           \<and> g_fiber t = g_fiber s)
    else (\<exists>t. aret_EnterCriticalSection esp s = Park t \<and> st_of t (g_cur s) = FST_BLOCKED
           \<and> fb_wait_cs (fib t (g_cur s)) = cs \<and> u32_cs_owner (g_cs t) cs = u32_cs_owner (g_cs s) cs)"
proof (cases "u32_cs_ensure (g_cs s) cs")
  case None
  moreover have c: "core s" using reachable_conf_inv [OF assms(1)] by (simp add: guest_core)
  ultimately have "u32_cs_slot (g_cs s) cs = None" "length (g_cs s) = U32_MAX_CS"
    using coreD(2) [OF c] by (auto simp: u32_cs_ensure_def cs_ok_def split: option.splits if_splits)
  with None assms(2) show ?thesis by (simp add: aret_EnterCriticalSection_def)
next
  case (Some kT)
  then obtain k T where k: "u32_cs_ensure (g_cs s) cs = Some (k, T)" by (cases kT) auto
  have c: "core s" using reachable_conf_inv [OF assms(1)] by (simp add: guest_core)
  have o: "u32_cs_owner T cs = u32_cs_owner (g_cs s) cs" by (rule cs_owner_ensure [OF k])
  have sl: "u32_cs_slot T cs = Some k" and kl: "k < length T" using cs_tab.ensureD [OF k] by auto
  then have ok: "cs_owner (T ! k) = u32_cs_owner (g_cs s) cs" using o by (simp add: u32_cs_owner_def)
  have nf: "\<not> (u32_cs_slot (g_cs s) cs = None \<and> length (g_cs s) = U32_MAX_CS)"
    using k by (auto simp: u32_cs_ensure_def)
  have e: "aret_EnterCriticalSection esp s = cs_enter_try (CtxCs cs) 0 cs k (s\<lparr>g_cs := T\<rparr>)"
    using k assms(2) by (simp add: aret_EnterCriticalSection_def Let_def)
  show ?thesis
  proof (cases "u32_cs_owner (g_cs s) cs \<in> {0, g_cur s + 1}")
    case True
    then have "u32_cs_owner (cs_grab T k (g_cur s)) cs = g_cur s + 1"
      using sl by (simp add: cs_grab_def cs_owner_upd)
    with True show ?thesis using nf ok by (auto simp: e cs_enter_try_def cs_avail_def)
  next
    case False
    then show ?thesis using nf ok o coreD(1) [OF c]
      by (auto simp: e cs_enter_try_def cs_avail_def block_on_def u32_to_sched_def u32_sched_ensure_def
          upd_fiber_def)
  qed
qed

theorem enter_critical_section_behaviour_witness:
  "(\<exists>t. aret_EnterCriticalSection 0 run0 = Ret 0 t \<and> u32_cs_owner (g_cs t) 0 = 1 \<and> g_fiber t = g_fiber run0)"
proof -
  have "g_cs run0 = []" "g_cur run0 = 0" "u32_cs_owner [] 0 = 0"
    by (simp_all add: run_defs u32_cs_owner_def u32_cs_slot_def first_idx_step)
  then show ?thesis
    using enter_critical_section_behaviour [OF run0_reachable refl, of 0] by (simp add: U32_MAX_CS_def)
qed

section \<open>The machine invariant and the scheduler\<close>

text \<open>
  C1: Every reachable configuration of the threading layer is in order: the tables are within
  their bounds with distinct keys, ownership and recursion counts agree, exactly the running
  fiber is unparked and waits for nothing, and every parked fiber waits for what its saved
  context re-tests. In particular the scheduler never resumes a fiber that is finished or was
  never parked.
\<close>

theorem threads_invariant:
  assumes "reachable c"
  shows "conf_inv c \<and> (\<forall>s s'. c = Sched s \<longrightarrow> u32_sched_pass s = Switch s' \<longrightarrow>
    fb_ctx (fib s' (g_cur s')) \<notin> {CtxDead, CtxNone})"
proof (intro conjI allI impI)
  show "conf_inv c" using assms by (rule reachable_conf_inv)
  fix s s' assume "c = Sched s" and p: "u32_sched_pass s = Switch s'"
  then have "sched_inv s" using reachable_conf_inv [OF assms] by simp
  then have "waits_on (g_cv s') (fib s' (g_cur s'))" using pass_switch_inv p by (auto simp: switched_def)
  then show "fb_ctx (fib s' (g_cur s')) \<notin> {CtxDead, CtxNone}" by (auto simp: waits_on_def)
qed

theorem threads_invariant_witness:
  "conf_inv (Sched run3) \<and> fb_ctx (fib run3s (g_cur run3s)) \<notin> {CtxDead, CtxNone}"
  using threads_invariant [OF run3_reachable] run4_switch by simp

text \<open>
  C19: The scheduler's loop always decides: from every reachable state two rounds are enough to
  switch to a fiber, wait for a socket, report a deadlock or end. A switch goes to a fiber that
  was READY, or BLOCKED with a wait condition that holds, in the state \<open>t\<close> of the round that
  switches: the state the loop started in, or the one in which the first round fired the earliest
  deadlines. The switch makes it the only running fiber.
\<close>

theorem scheduler_decides:
  assumes "reachable (Sched s)"
  shows "\<exists>r. u32_sched_loop 2 s = Some r \<and> (\<forall>s'. r \<noteq> Again s')
    \<and> (\<forall>s'. r = Switch s' \<longrightarrow> st_of s' (g_cur s') = FST_RUNNING
          \<and> (\<forall>i < g_nfiber s'. i \<noteq> g_cur s' \<longrightarrow> st_of s' i \<noteq> FST_RUNNING)
          \<and> (\<exists>t. (t = s \<or> u32_sched_pass s = Again t) \<and> u32_sched_pass t = Switch s' \<and> g_cur s' < g_nfiber t
               \<and> (st_of t (g_cur s') = FST_READY \<or> st_of t (g_cur s') = FST_BLOCKED \<and> runnable (g_cur s') t)))"
proof -
  have i: "sched_inv s" using reachable_conf_inv [OF assms] by simp
  then have c: "owners_ok s" "g_rr s < g_nfiber s" by (auto simp: sched_inv_def core_owners dest: coreD(9))
  have run: "st_of t' (g_cur t') = FST_RUNNING \<and> (\<forall>i < g_nfiber t'. i \<noteq> g_cur t' \<longrightarrow> st_of t' i \<noteq> FST_RUNNING)
      \<and> g_cur t' < g_nfiber t \<and> (st_of t (g_cur t') = FST_READY \<or> st_of t (g_cur t') = FST_BLOCKED \<and> runnable (g_cur t') t)"
    if "sched_inv t" "u32_sched_pass t = Switch t'" for t t'
  proof -
    note t = that
    have "owners_ok t" using t(1) by (simp add: sched_inv_def core_owners)
    then obtain i where "g_cur t' = i" "i < g_nfiber t" "st_of t i = FST_READY \<or> st_of t i = FST_BLOCKED \<and> runnable i t"
      using pass_switch [OF _ t(2)] by metis
    then show ?thesis using pass_switch_inv [OF t] by (auto simp: switched_def others_def parked_def)
  qed
  show ?thesis
  proof (cases "u32_sched_pass s")
    case (Again s1)
    then obtain t where t: "u32_sched_pass s1 = Switch t" using pass_after_timeout [OF c] by blast
    then show ?thesis using Again run [OF pass_again_inv(1) [OF i Again] t] t by (auto simp: numeral_2_eq_2)
  next
    case (Switch t)
    then show ?thesis using run [OF i] by (auto simp: numeral_2_eq_2)
  qed (simp_all add: numeral_2_eq_2)
qed

theorem scheduler_decides_witness: "\<exists>r. u32_sched_loop 2 run3 = Some r \<and> r = Switch run3s"
  using scheduler_decides [OF run3_reachable] run4_switch by (simp add: numeral_2_eq_2)

text \<open>
  C23: The deadlock report is exact: the scheduler stops with it if and only if some fiber is
  blocked, none is READY, no blocked fiber's wait condition holds, none has a deadline that can
  fire, and none waits for a socket event.
\<close>

theorem deadlock_report_exact:
  assumes "reachable (Sched s)"
  shows "(\<exists>s'. u32_sched_pass s = Deadlock s') \<longleftrightarrow>
    (\<exists>i < g_nfiber s. st_of s i = FST_BLOCKED) \<and>
    (\<forall>i < g_nfiber s. st_of s i \<noteq> FST_READY \<and>
       (st_of s i = FST_BLOCKED \<longrightarrow> \<not> runnable i s \<and> \<not> (fb_has_timeout (fib s i) \<and> fb_wake_time (fib s i) \<noteq> - 1))) \<and>
    socket_waits (wake_pass s) = []"
  using reachable_conf_inv [OF assms]
  by (intro pass_deadlock) (auto simp: sched_inv_def core_owners dest: coreD(9))

theorem deadlock_report_exact_witness: "\<not> (\<exists>s'. u32_sched_pass run3 = Deadlock s')"
proof -
  have "0 < g_nfiber run3" "st_of run3 0 = FST_READY" by (simp_all add: run_defs)
  then show ?thesis unfolding deadlock_report_exact [OF run3_reachable] by blast
qed

text \<open>Only the scheduler moves the round-robin cursor.\<close>

lemma rr_sel [simp]:
  "keeps g_rr s (block_on c g t) = (g_rr t = g_rr s)" "keeps g_rr s (yield_to c t) = (g_rr t = g_rr s)"
  "g_rr (set_error e s) = g_rr s" "g_rr (err_opt eo s) = g_rr s" "g_rr (put32 a v s) = g_rr s" "g_rr (wsa_put i x s) = g_rr s"
  "g_rr (u32_sched_ensure s) = g_rr s" "g_rr (event_put b h s) = g_rr s" "g_rr (u32_handle_acquire h me s) = g_rr s"
  "g_rr (condvar_release l b sh s) = g_rr s"
  by (auto simp: block_on_def yield_to_def u32_to_sched_def set_error_def err_opt_def put32_def wsa_put_def
      u32_sched_ensure_def event_put_def u32_handle_acquire_def condvar_release_def split: option.splits)

lemma acquire_fold_rr [simp]: "g_rr (fold (\<lambda>h. u32_handle_acquire h me) hs s) = g_rr s"
  by (induction hs arbitrary: s) simp_all

lemma cs_enter_try_rr [simp]: "keeps g_rr s (cs_enter_try c r a k t) = (g_rr t = g_rr s)"
  by (auto simp: cs_enter_try_def)

lemma srw_acquire_rr [simp]: "g_rr t = g_rr s \<Longrightarrow> keeps g_rr s (u32_srw_acquire c r l e t)"
  by (auto simp: u32_srw_acquire_def split: option.split)

lemma condvar_reacquire_rr [simp]: "g_rr t = g_rr s \<Longrightarrow> keeps g_rr s (condvar_reacquire l b sh r t)"
  by (auto simp: condvar_reacquire_def split: option.split)

lemma condvar_sleep_rr [simp]: "keeps g_rr s (u32_condvar_sleep cv l b sh ms s)"
  by (auto simp: u32_condvar_sleep_def Let_def split: option.split)

lemma spawn_rr [simp]: "keeps g_rr s (u32_spawn hs ms st pa fl tid s)"
  by (simp add: u32_spawn_def Let_def)

lemma wait_finish_rr [simp]: "keeps g_rr s (wait_finish src n all s') = (g_rr s' = g_rr s)"
proof -
  let ?s1 = "upd_fiber (g_cur s') (\<lambda>f. f\<lparr>fb_wait_h := []\<rparr>) s'"
  obtain k s2 where f: "first_signaled (map (handle_at (mem s') src) [0..<n]) 0 (g_cur s') ?s1 = (k, s2)"
      "touched ?s1 s2" using first_signaled_touched by metis
  then show ?thesis using touched_same(3) [OF f(2)] by (simp add: wait_finish_def Let_def)
qed

lemma u32_wait_rr:
  assumes "guest_inv s" shows "keeps g_rr s (u32_wait src n all ms s)"
proof -
  let ?s1 = "upd_fiber (g_cur s) (\<lambda>f. f\<lparr>fb_wait_h := map (handle_at (mem s) src) [0..<min n 64], fb_wait_all := all\<rparr>) s"
  have "core ?s1" using assms by (simp add: guest_core)
  then obtain s2 where w: "u32_wait_ok (g_cur s) ?s1 = (wait_sat (g_cur s) ?s1, s2)" "touched ?s1 s2"
    using wait_ok_spec core_owners by metis
  then show ?thesis using touched_same(3) [OF w(2)]
    by (simp add: u32_wait_def Let_def split: bool.splits)
qed

lemma cs_shims_rr: "f \<in> cs_shims \<Longrightarrow> keeps g_rr s (f esp s)"
  unfolding cs_shims_def
  by (elim insertE emptyE)
    (auto simp: aret_InitializeCriticalSection_def aret_InitializeCriticalSectionAndSpinCount_def cs_init_def
      aret_InitializeCriticalSectionEx_def aret_DeleteCriticalSection_def aret_EnterCriticalSection_def Let_def
      aret_TryEnterCriticalSection_def aret_LeaveCriticalSection_def aret_SleepConditionVariableSRW_def
      aret_SleepConditionVariableCS_def split: option.split)

lemma call_rr:
  assumes g: "guest_inv s" and f: "f \<in> shims"
  shows "keeps g_rr s (f esp s)"
proof (cases "f \<in> cs_shims")
  case False
  note w = u32_wait_rr [OF g]
  show ?thesis
    using f False unfolding shims_def cs_shims_def
    by (elim UnE insertE emptyE UN_E rangeE)
      (simp_all add: w Let_def shim_defs split: option.splits prod.splits)
qed (rule cs_shims_rr)

lemma resume_rr:
  assumes sw: "switched s" shows "keeps g_rr s (resume s)"
proof -
  have "core s" using sw by (simp add: switched_def)
  then obtain s2 where t: "u32_wait_ok (g_cur s) s = (wait_sat (g_cur s) s, s2)" "touched s s2"
    using wait_ok_spec core_owners by metis
  then have w: "keeps g_rr s (wait_resume src n all s)" for src n all
    using touched_same(3) [OF t(2)] by (simp add: wait_resume_def Let_def split: bool.splits)
  show ?thesis using w
    by (auto simp: resume_def sleep_resume_def cs_resume_def srw_resume_def condvar_resume_def condvar_awake_def
        condvar_cs_resume_def u32_fiber_trampoline_def fiber_return_def pool_wait_def Let_def
        split: fiber_ctx.splits handle_src.splits option.splits)
qed

lemma rr_dist_wider:
  assumes "p < n" "r < n" "i < n" "n \<le> N" "rr_dist n p i < rr_dist n r i"
  shows "rr_dist N p i < rr_dist N r i"
proof -
  have d: "rr_dist m x i = (if x < i then i - x - 1 else i + m - x - 1)" if "x < m" "i < m" for m x
    using that by (auto simp: rr_dist_def le_mod_geq)
  show ?thesis using assms d [of p n] d [of r n] d [of p N] d [of r N] by (auto split: if_splits)
qed

lemma switch_closer:
  assumes "reachable (Sched s)" "u32_sched_pass s = Switch s'" "i < g_nfiber s" "st_of s i = FST_READY" "i \<noteq> g_cur s'" "g_nfiber s \<le> N"
  shows "rr_dist N (g_rr s') i < rr_dist N (g_rr s) i"
proof -
  have "sched_inv s" using reachable_conf_inv [OF assms(1)] by simp
  then have c: "owners_ok s" "g_rr s < g_nfiber s" by (auto simp: sched_inv_def core_owners dest: coreD(9))
  note same = wake_pass_same [OF c(1)]
  obtain k where k: "g_cur s' = k" "g_rr s' = k" "sched_pick (wake_pass s) = Some k" "k < g_nfiber s"
    using pass_switch [OF c(1) assms(2)] by metis
  have st: "st_of (wake_pass s) i = FST_READY"
    using assms(3,4) by (simp add: wake_pass_spec(2) [OF c(1)] woken_def)
  have "rr_dist (g_nfiber s) k i < rr_dist (g_nfiber s) (g_rr s) i"
    using sched_pick_closer [OF k(3) st] assms(3,5) c(2) k(1) same by auto
  then show ?thesis using rr_dist_wider [OF k(4) c(2) assms(3,6)] k(2) by simp
qed

text \<open>
  \<open>overtakes N i n c c'\<close>: a run from \<open>c\<close> to \<open>c'\<close> in which the scheduler switches \<open>n\<close> times, each time to
  another fiber than \<open>i\<close> although \<open>i\<close> is READY, with at most \<open>N\<close> fibers. Between the switches the running
  fiber does what it likes (it may create threads), and the scheduler's other rounds and the host are free.
\<close>

inductive overtakes :: "nat \<Rightarrow> nat \<Rightarrow> nat \<Rightarrow> conf \<Rightarrow> conf \<Rightarrow> bool" for N i where
  here: "overtakes N i 0 c c"
| over: "overtakes N i n c (Sched s) \<Longrightarrow> u32_sched_pass s = Switch s' \<Longrightarrow> g_cur s' \<noteq> i \<Longrightarrow>
    i < g_nfiber s \<Longrightarrow> st_of s i = FST_READY \<Longrightarrow> g_nfiber s \<le> N \<Longrightarrow> overtakes N i (Suc n) c (conf_of (resume s'))"
| other: "overtakes N i n c c' \<Longrightarrow> step c' c'' \<Longrightarrow> (\<And>s s'. c' = Sched s \<Longrightarrow> u32_sched_pass s \<noteq> Switch s') \<Longrightarrow> overtakes N i n c c''"

fun cursor :: "conf \<Rightarrow> nat option" where
  "cursor (Guest s) = Some (g_rr s)" | "cursor (Sched s) = Some (g_rr s)" | "cursor Stopped = None"

lemma cursor_kept: "keeps g_rr s r \<Longrightarrow> cursor (conf_of r) \<in> {None, Some (g_rr s)}"
  by (cases r) auto

lemma step_cursor:
  assumes "step c c'" "conf_inv c" "\<And>s s'. c = Sched s \<Longrightarrow> u32_sched_pass s \<noteq> Switch s'"
  shows "cursor c' \<in> {None, cursor c}"
  using assms
proof (induction rule: step.induct)
  case (call f s esp)
  then show ?case using cursor_kept [OF call_rr] by auto
next
  case (ret s r)
  have "keeps g_rr s (fiber_return r s)" by (auto simp: fiber_return_def Let_def split: option.splits)
  then show ?case using cursor_kept by fastforce
next
  case (again s s')
  then have "owners_ok s" by (simp add: sched_inv_def core_owners)
  then show ?case using again.hyps
    by (auto simp: u32_sched_pass_def Let_def wake_pass_same split: option.splits if_splits)
next
  case (poll s ps s')
  then have "owners_ok s" by (simp add: sched_inv_def core_owners)
  then show ?case using poll.hyps
    by (auto simp: u32_sched_pass_def Let_def wake_pass_same split: option.splits if_splits)
qed auto

lemma overtakes_reachable: "overtakes N i n c c' \<Longrightarrow> reachable c \<Longrightarrow> reachable c'"
  by (induction rule: overtakes.induct) (auto intro: reachable.more step.switch)

lemma overtakes_bound:
  "overtakes N i n c c' \<Longrightarrow> reachable c \<Longrightarrow>
    n \<le> N - 1 \<and> (\<forall>r. 0 < n \<and> cursor c' = Some r \<longrightarrow> n + rr_dist N r i \<le> N - 1)"
proof (induction rule: overtakes.induct)
  case (over n c s s')
  have r: "reachable (Sched s)" using overtakes_reachable over by blast
  have "rr_dist N (g_rr s) i < N" unfolding rr_dist_def by (rule mod_less_divisor) (use over.hyps(4,6) in linarith)
  then have "n + rr_dist N (g_rr s) i \<le> N - 1" using over by (cases n) auto
  moreover have "rr_dist N (g_rr s') i < rr_dist N (g_rr s) i"
    using switch_closer [OF r over.hyps(2)] over.hyps by metis
  moreover have "cursor (conf_of (resume s')) \<in> {None, Some (g_rr s')}"
    using reachable_conf_inv [OF r] over.hyps(2) by (intro cursor_kept resume_rr pass_switch_inv) auto
  ultimately show ?case by auto
next
  case (other n c c' c'')
  have "conf_inv c'" using overtakes_reachable other reachable_conf_inv by blast
  then have "cursor c'' \<in> {None, cursor c'}" using step_cursor [OF other.hyps(2)] other.hyps(3) by blast
  then show ?case using other by auto
qed simp

text \<open>
  C26: Round robin without starvation. In any run of the threading layer during which there are at
  most \<open>N\<close> fibers, at most \<open>N - 1\<close> switches go to other fibers while fiber \<open>i\<close> is READY and waits for its turn,
  whatever the fibers that run in between do, creating further threads included. There are
  never more than \<^verbatim>\<open>U32_MAX_FIBER\<close> fibers, so this bounds every run.
\<close>

theorem scheduler_round_robin:
  assumes "reachable c" "overtakes N i n c c'"
  shows "n \<le> N - 1 \<and> (\<forall>s. c' = Sched s \<longrightarrow> g_nfiber s \<le> U32_MAX_FIBER)"
proof -
  have "g_nfiber s \<le> U32_MAX_FIBER" if "c' = Sched s" for s
    using reachable_conf_inv [OF overtakes_reachable [OF assms(2,1)]] that by (simp add: sched_inv_def core_def)
  then show ?thesis using overtakes_bound [OF assms(2,1)] by blast
qed

text \<open>The main thread is READY and the second thread gets the processor, once; with two fibers not twice.\<close>

theorem scheduler_round_robin_witness:
  "overtakes 2 0 1 (Sched run3) (Guest run4) \<and> (\<forall>c. \<not> overtakes 2 0 2 (Sched run3) c)"
proof -
  have "g_nfiber run3 = 2" "st_of run3 0 = FST_READY" "g_cur run3s \<noteq> 0"
    by (simp_all add: run_defs)
  then have "overtakes 2 0 1 (Sched run3) (Guest run4)"
    using overtakes.over [OF overtakes.here run4_switch, of 0 2] run4_resume by simp
  moreover have "\<not> overtakes 2 0 2 (Sched run3) c" for c
    using scheduler_round_robin [OF run3_reachable, of 2 0 2 c] by auto
  ultimately show ?thesis by blast
qed

section \<open>Waitable objects\<close>

lemma guest_event_signaled:
  assumes "u32_event_idx (g_event s) h = Some i"
  shows "signaled h fi s \<longleftrightarrow> ev_signaled (g_event s ! i) \<or> wsa_fires i s"
proof -
  have "u32_thread_idx (g_fiber s) h = None" using handle_kinds_disjoint(1) [OF assms] by blast
  with assms show ?thesis by (simp add: signaled_def)
qed

lemma wait_single_event:
  assumes i: "u32_event_idx (g_event s) h = Some i"
    and f: "fb_wait_h (fib s (g_cur s)) = [h]" "fb_wait_all (fib s (g_cur s))"
  shows "wait_sat (g_cur s) s \<longleftrightarrow> ev_signaled (g_event s ! i) \<or> wsa_fires i s"
  using guest_event_signaled [OF i] f by (simp add: wait_sat_def)

lemma wait_finish_auto:
  assumes i: "u32_event_idx (g_event s) h = Some i" and a: "\<not> ev_manual (g_event s ! i)"
  shows "\<exists>t. wait_finish (HLocal h) 1 True s = Ret 0 t \<and> \<not> ev_signaled (g_event t ! i)"
proof -
  have "i < length (g_event s)" using evh.idxD [OF i] by simp
  with i a show ?thesis by (simp add: wait_finish_def handle_at_def u32_handle_acquire_def)
qed

text \<open>
  An auto-reset event releases exactly one waiter. Whether a wait on it finds the event
  signaled at once or is resumed by the scheduler, it returns \<^verbatim>\<open>WAIT_OBJECT_0\<close> only when the
  event was signaled (or its socket ready) at that moment, and leaves the event reset; a fiber
  that finds it reset parks again, or, when its deadline has passed, returns \<^verbatim>\<open>WAIT_TIMEOUT\<close>.
\<close>

theorem auto_reset_event_releases_one:
  assumes "core s" "u32_event_idx (g_event s) h = Some i" "\<not> ev_manual (g_event s ! i)"
    "fb_wait_h (fib s (g_cur s)) = [h]" "fb_wait_all (fib s (g_cur s))"
  shows "if ev_signaled (g_event s ! i) \<or> wsa_fires i s
    then \<exists>t. wait_resume (HLocal h) 1 True s = Ret 0 t \<and> \<not> ev_signaled (g_event t ! i)
    else if fb_timed_out (fib s (g_cur s))
    then \<exists>t. wait_resume (HLocal h) 1 True s = Ret U32_WAIT_TIMEOUT t \<and> \<not> ev_signaled (g_event t ! i)
    else \<exists>t. wait_resume (HLocal h) 1 True s = Park t \<and> st_of t (g_cur s) = FST_BLOCKED
           \<and> \<not> ev_signaled (g_event t ! i)"
proof -
  obtain s2 where w: "u32_wait_ok (g_cur s) s = (wait_sat (g_cur s) s, s2)" "touched s s2"
    using wait_ok_spec [OF core_owners [OF assms(1)]] .
  note sat = wait_single_event [OF assms(2,4,5)]
  have il: "i < length (g_event s)" using evh.idxD [OF assms(2)] by simp
  have i2: "u32_event_idx (g_event s2) h = Some i" using touched_event_idx [OF w(2)] assms(2) by simp
  have m2: "\<not> ev_manual (g_event s2 ! i)" using touched_event(2) [OF w(2) il] assms(3) by simp
  have sg: "\<not> ev_signaled (g_event s2 ! i)" if "\<not> (ev_signaled (g_event s ! i) \<or> wsa_fires i s)"
    using touched_event(3) [OF w(2) il] that by simp
  note same = touched_same(1,2) [OF w(2)]
  show ?thesis
  proof (cases "wait_sat (g_cur s) s")
    case True
    let ?s3 = "upd_fiber (g_cur s) (\<lambda>f. f\<lparr>fb_has_timeout := False\<rparr>) s2"
    have "\<exists>t. wait_finish (HLocal h) 1 True ?s3 = Ret 0 t \<and> \<not> ev_signaled (g_event t ! i)"
      by (rule wait_finish_auto) (use i2 m2 in simp_all)
    then show ?thesis using True w(1) sat by (simp add: wait_resume_def)
  next
    case False
    then show ?thesis using w(1) sat sg same coreD(1) [OF assms(1)]
      by (simp add: wait_resume_def block_on_def u32_to_sched_def Let_def)
  qed
qed

definition event_demo :: "bool \<Rightarrow> sys" where
  "event_demo b = run0\<lparr>g_event := [\<lparr>ev_used = True, ev_manual = False, ev_signaled = b, ev_name = 0\<rparr>],
     g_fiber := [fiber_zero\<lparr>fb_state := FST_RUNNING, fb_wait_h := [0x71000000], fb_wait_all := True,
                            fb_ctx := CtxWait (HLocal 0x71000000) 1 True\<rparr>]\<rparr>"

theorem auto_reset_event_releases_one_witness:
  "(\<exists>t. wait_resume (HLocal 0x71000000) 1 True (event_demo True) = Ret 0 t \<and> \<not> ev_signaled (g_event t ! 0))
   \<and> (\<exists>t. wait_resume (HLocal 0x71000000) 1 True (event_demo False) = Park t \<and> st_of t 0 = FST_BLOCKED
        \<and> \<not> ev_signaled (g_event t ! 0))"
proof -
  have c: "core (event_demo b)" for b
    by (simp add: event_demo_def run_defs core_def cs_ok_def srw_ok_def cv_ok_def mx_ok_def U32_MAX_FIBER_def U32_MAX_EVENT_def)
  have i: "u32_event_idx (g_event (event_demo b)) 0x71000000 = Some 0" for b
    by (simp add: event_demo_def u32_event_idx_def U32_EVENT_BASE_def)
  show ?thesis
    using auto_reset_event_releases_one [OF c i, of True] auto_reset_event_releases_one [OF c i, of False]
    by (simp add: event_demo_def run_defs wsa_fires_def fiber_zero_def)
qed

text \<open>
  \<^verbatim>\<open>ReleaseSemaphore\<close> keeps a well-formed semaphore between 0 and its maximum: as long as
  the sum fits a C \<^verbatim>\<open>int\<close>, it succeeds exactly for a positive count that stays within the
  maximum, stores the previous count, and otherwise changes nothing but the last error (298).
\<close>

theorem release_semaphore_bounds:
  assumes "u32_sem_idx (g_sem s) (WU esp 0 s) = Some i" "x = g_sem s ! i" "rel = WI esp 1 s"
    "0 \<le> sm_count x" "sm_count x \<le> sm_max x" "sm_count x + rel < 2 ^ 31"
  shows "if 0 < rel \<and> sm_count x + rel \<le> sm_max x
    then \<exists>t. aret_ReleaseSemaphore esp s = Ret 1 t \<and> sm_count (g_sem t ! i) = sm_count x + rel
           \<and> sm_max (g_sem t ! i) = sm_max x
           \<and> (WU esp 2 s \<noteq> 0 \<longrightarrow> ld32 (mem t) (WU esp 2 s) = word_of_int (sm_count x))
    else aret_ReleaseSemaphore esp s = Ret 0 (set_error 298 s)"
proof -
  have l: "i < length (g_sem s)" using smh.idxD [OF assms(1)] by simp
  have "- (2 ^ 31) \<le> rel" using assms(3) sint_ge [of "WU esp 1 s"] by (simp add: WI_def)
  then have c: "c_int (sm_count x + rel) = sm_count x + rel" using assms(4,6) by (intro c_int_id) auto
  show ?thesis using assms l c
    by (auto simp: aret_ReleaseSemaphore_def Let_def put32_def)
qed

definition sem_demo :: "u32 \<Rightarrow> sys" where
  "sem_demo rel = run0\<lparr>mem := st32 (st32 (st32 (\<lambda>_. 0) 0x1000 0x73000000) 0x1004 rel) 0x1008 0x2000,
     g_sem := [\<lparr>sm_used = True, sm_count = 1, sm_max = 5, sm_name = 0\<rparr>]\<rparr>"

lemma sem_demo_args:
  "WU 0x1000 0 (sem_demo rel) = 0x73000000" "WU 0x1000 1 (sem_demo rel) = rel" "WU 0x1000 2 (sem_demo rel) = 0x2000"
  "g_sem (sem_demo rel) = [\<lparr>sm_used = True, sm_count = 1, sm_max = 5, sm_name = 0\<rparr>]"
  "u32_sem_idx (g_sem (sem_demo rel)) 0x73000000 = Some 0"
proof -
  have d: "ld32 (st32 m b v) a = ld32 m a"
    if "b \<notin> {a, a + 1, a + 2, a + 3}" "b + 1 \<notin> {a, a + 1, a + 2, a + 3}"
       "b + 2 \<notin> {a, a + 1, a + 2, a + 3}" "b + 3 \<notin> {a, a + 1, a + 2, a + 3}" for m a b v
    using that by (auto simp: ld32_def st32_def)
  show "WU 0x1000 0 (sem_demo rel) = 0x73000000" "WU 0x1000 1 (sem_demo rel) = rel" "WU 0x1000 2 (sem_demo rel) = 0x2000"
    by (simp_all add: WU_def sem_demo_def d)
  show "g_sem (sem_demo rel) = [\<lparr>sm_used = True, sm_count = 1, sm_max = 5, sm_name = 0\<rparr>]"
    "u32_sem_idx (g_sem (sem_demo rel)) 0x73000000 = Some 0"
    by (simp_all add: sem_demo_def u32_sem_idx_def U32_SEM_BASE_def)
qed

lemmas sem_demo_simps = sem_demo_args(1,3,4) sem_demo_args(2) [unfolded One_nat_def]
  sem_demo_args(5) [unfolded sem_demo_args(4)]

theorem release_semaphore_bounds_witness:
  "(\<exists>t. aret_ReleaseSemaphore 0x1000 (sem_demo 4) = Ret 1 t \<and> sm_count (g_sem t ! 0) = 5)
    \<and> aret_ReleaseSemaphore 0x1000 (sem_demo 5) = Ret 0 (set_error 298 (sem_demo 5))"
  using release_semaphore_bounds [where s = "sem_demo 4" and esp = "0x1000" and i = 0, OF _ refl refl]
    release_semaphore_bounds [where s = "sem_demo 5" and esp = "0x1000" and i = 0, OF _ refl refl]
  by (auto simp: sem_demo_simps WI_def)

text \<open>
  C40: Beyond that, the sum wraps: a release whose count pushes the sum past the largest C
  \<^verbatim>\<open>int\<close> is accepted instead of refused, and leaves the semaphore with a negative count.
\<close>

theorem release_semaphore_wraps:
  assumes "u32_sem_idx (g_sem s) (WU esp 0 s) = Some i" "x = g_sem s ! i" "rel = WI esp 1 s"
    "0 \<le> sm_count x" "sm_count x \<le> sm_max x" "sm_max x < 2 ^ 31" "0 < rel" "2 ^ 31 \<le> sm_count x + rel"
  shows "\<exists>t. aret_ReleaseSemaphore esp s = Ret 1 t \<and> sm_count (g_sem t ! i) < 0"
proof -
  have l: "i < length (g_sem s)" using smh.idxD [OF assms(1)] by simp
  have r: "rel < 2 ^ 31" using assms(3) sint_less [of "WU esp 1 s"] by (simp add: WI_def)
  have "c_int (sm_count x + rel) = sm_count x + rel - 2 ^ 32"
  proof -
    have "word_of_int (sm_count x + rel) = (word_of_int (sm_count x + rel - 2 ^ 32) :: u32)"
      by (simp add: word_of_int_eq_iff take_bit_eq_mod)
    then have "c_int (sm_count x + rel) = c_int (sm_count x + rel - 2 ^ 32)" unfolding c_int_def by (simp only:)
    also have "\<dots> = sm_count x + rel - 2 ^ 32" using assms r by (intro c_int_id) auto
    finally show ?thesis .
  qed
  moreover have "sm_count x + rel < 2 ^ 32" using assms(5,6) r by simp
  ultimately have "c_int (sm_count x + rel) < 0" by simp
  with assms l show ?thesis by (auto simp: aret_ReleaseSemaphore_def Let_def)
qed

theorem release_semaphore_wraps_witness:
  "\<exists>t. aret_ReleaseSemaphore 0x1000 (sem_demo 0x7FFFFFFF) = Ret 1 t \<and> sm_count (g_sem t ! 0) < 0"
  using release_semaphore_wraps [where s = "sem_demo 0x7FFFFFFF" and esp = "0x1000" and i = 0, OF _ refl refl]
  by (auto simp: sem_demo_simps WI_def)


text \<open>
  A mutex abandoned by a finished thread is granted to the next waiter, but with the
  recursion count of the dead owner still in it: the new owner's one \<^verbatim>\<open>ReleaseMutex\<close> does not
  free the mutex.
\<close>

theorem abandoned_mutex_keeps_recursion:
  assumes "core s" "u32_mutex_idx (g_mutex s) h = Some i" "mx_owner (g_mutex s ! i) = Suc j"
    "j \<noteq> g_cur s" "st_of s j = FST_DONE"
  shows "signaled h (g_cur s) s \<and> (\<exists>t. wait_finish (HLocal h) 1 True s = Ret 0 t
     \<and> mx_owner (g_mutex t ! i) = g_cur s + 1 \<and> mx_rec (g_mutex t ! i) = mx_rec (g_mutex s ! i) + 1
     \<and> (\<forall>esp. WU esp 0 t = h \<longrightarrow> (\<exists>u. aret_ReleaseMutex esp t = Ret 1 u \<and> mx_owner (g_mutex u ! i) = g_cur s + 1)))"
proof -
  have l: "i < length (g_mutex s)" "mx_used (g_mutex s ! i)" using mxh.idxD [OF assms(2)] by auto
  have ne: "u32_event_idx (g_event s) h = None" "u32_thread_idx (g_fiber s) h = None"
    using handle_kinds_disjoint(2) [OF assms(2)] by blast+
  have "g_mutex s ! i \<in> set (g_mutex s)" using l by simp
  then have r: "0 < mx_rec (g_mutex s ! i)" using coreD(5) [OF assms(1)] assms(3) by (auto simp: mx_ok_def)
  let ?x = "(g_mutex s ! i)\<lparr>mx_owner := g_cur s + 1, mx_rec := mx_rec (g_mutex s ! i) + 1\<rparr>"
  let ?t = "(upd_fiber (g_cur s) (\<lambda>f. f\<lparr>fb_wait_h := []\<rparr>) s)\<lparr>g_mutex := (g_mutex s)[i := ?x]\<rparr>"
  have t: "wait_finish (HLocal h) 1 True s = Ret 0 ?t"
    using ne assms(2) by (simp add: wait_finish_def handle_at_def u32_handle_acquire_def Let_def)
  have i: "u32_mutex_idx ((g_mutex s)[i := ?x]) h = Some i"
    using mxh.idx_same [of "(g_mutex s)[i := ?x]" "g_mutex s" h] assms(2) l
    by (metis length_list_update mutex_ent.select_convs(1) mutex_ent.surjective mutex_ent.update_convs(2,3) nth_list_update_eq nth_list_update_neq)
  have "signaled h (g_cur s) s" using ne assms by (simp add: signaled_def)
  with t l i r show ?thesis by (auto simp: aret_ReleaseMutex_def Let_def)
qed

definition mutex_demo :: sys where
  "mutex_demo = run0\<lparr>g_fiber := [fiber_zero, fiber_zero\<lparr>fb_state := FST_DONE\<rparr>],
     g_mutex := [\<lparr>mx_used = True, mx_owner = 2, mx_rec = 1, mx_name = 0\<rparr>]\<rparr>"

theorem abandoned_mutex_keeps_recursion_witness:
  "signaled 0x72000000 0 mutex_demo \<and> (\<exists>t. wait_finish (HLocal 0x72000000) 1 True mutex_demo = Ret 0 t
     \<and> mx_owner (g_mutex t ! 0) = 1 \<and> mx_rec (g_mutex t ! 0) = 2)"
proof -
  have "core mutex_demo"
    by (simp add: mutex_demo_def run_defs core_def cs_ok_def srw_ok_def cv_ok_def mx_ok_def U32_MAX_FIBER_def U32_MAX_MUTEX_def)
  moreover have "u32_mutex_idx (g_mutex mutex_demo) 0x72000000 = Some 0"
    by (simp add: mutex_demo_def u32_mutex_idx_def U32_MUTEX_BASE_def)
  moreover have "g_mutex mutex_demo ! 0 = \<lparr>mx_used = True, mx_owner = 2, mx_rec = 1, mx_name = 0\<rparr>"
      "g_cur mutex_demo = 0" "st_of mutex_demo 1 = FST_DONE"
    by (simp_all add: mutex_demo_def run_defs)
  ultimately show ?thesis
    using abandoned_mutex_keeps_recursion [where s = mutex_demo and h = "0x72000000" and i = 0 and j = 1] by fastforce
qed

section \<open>Named objects\<close>

lemma name_hash_narrow: "p \<noteq> 0 \<Longrightarrow> q \<noteq> 0 \<Longrightarrow> cstr m p = cstr m' q \<Longrightarrow> u32_name_hash m p False = u32_name_hash m' q False"
  by (simp add: u32_name_hash_def)

lemma low_byte_ucast: "(ucast ((ucast (b :: u8) :: u16) AND 0xFF) :: u8) = b"
proof -
  have "w AND 0xFF = take_bit 8 w" for w :: u16 by (simp add: take_bit_eq_mask mask_eq_exp_minus_1)
  moreover have "ucast (take_bit 8 (ucast b :: u16)) = b" by (rule bit_word_eqI) (auto simp: bit_simps)
  ultimately show ?thesis by (simp only:)
qed

lemma name_hash_wide:
  assumes "p \<noteq> 0" "q \<noteq> 0" "wstr m' q = map ucast (cstr m p)"
  shows "u32_name_hash m' q True = u32_name_hash m p False"
proof -
  have "map (\<lambda>w. ucast (w AND 0xFF)) (wstr m' q) = cstr m p"
    unfolding assms(3) by (simp add: o_def low_byte_ucast)
  with assms(1,2) show ?thesis by (simp add: u32_name_hash_def)
qed

lemma name_hash_nz: "p \<noteq> 0 \<Longrightarrow> u32_name_hash m p w \<noteq> 0"
  by (simp add: u32_name_hash_def Let_def)

text \<open>
  Named mutexes are shared: once \<^verbatim>\<open>CreateMutexA\<close> has returned a handle for a name, opening
  the same name, narrow or wide, gives the same handle, and creating it again does too, with
  \<^verbatim>\<open>ERROR_ALREADY_EXISTS\<close>; the handle denotes a mutex of the table.
\<close>

theorem named_mutex_shared:
  assumes "core s" "aret_CreateMutexA esp s = Ret h t" "h \<noteq> 0" "WU esp 2 s \<noteq> 0"
    "g_mutex u = g_mutex t" "WU esp' 2 u \<noteq> 0"
  shows "(cstr (mem u) (WU esp' 2 u) = cstr (mem s) (WU esp 2 s)
      \<longrightarrow> aret_OpenMutexA esp' u = Ret h u \<and> aret_CreateMutexA esp' u = Ret h (set_error 183 u))
    \<and> (wstr (mem u) (WU esp' 2 u) = map ucast (cstr (mem s) (WU esp 2 s))
      \<longrightarrow> aret_OpenMutexW esp' u = Ret h u \<and> aret_CreateMutexW esp' u = Ret h (set_error 183 u))
    \<and> u32_mutex_idx (g_mutex u) h \<noteq> None"
proof -
  let ?nh = "u32_name_hash (mem s) (WU esp 2 s) False"
  obtain e T where c: "u32_create_mutex (g_cur s) (WI esp 1 s \<noteq> 0) ?nh (g_mutex s) = (h, e, T)"
    and t: "g_mutex t = T"
    using assms(2) by (auto simp: aret_CreateMutexA_def create_mutex_def split: prod.splits)
  have nz: "?nh \<noteq> 0" using name_hash_nz assms(4) by simp
  have c': "(case (g_cur s, WI esp 1 s \<noteq> 0) of (c, i) \<Rightarrow> u32_create_mutex c i) ?nh (g_mutex s) = (h, e, T)"
    using c by simp
  have tw: "u32_create_mutex (g_cur u) b ?nh T = (h, Some 183, T)" for b
    using mxn.create_twice [OF c' assms(3) nz, of "(g_cur u, b)"] by simp
  have op: "u32_open_mutex ?nh T = (h, None)" by (rule mxn.open_after_create [OF c' assms(3) nz])
  have v: "u32_mutex_idx T h \<noteq> None"
    using mxn.create_valid [OF c' assms(3)] coreD(5) [OF assms(1)] by (auto simp: mx_ok_def)
  have upd: "u\<lparr>g_mutex := T\<rparr> = u" using assms(5) t by simp
  have a: "u32_name_hash (mem u) (WU esp' 2 u) False = ?nh" if "cstr (mem u) (WU esp' 2 u) = cstr (mem s) (WU esp 2 s)"
    using name_hash_narrow assms(4,6) that by blast
  have w: "u32_name_hash (mem u) (WU esp' 2 u) True = ?nh" if "wstr (mem u) (WU esp' 2 u) = map ucast (cstr (mem s) (WU esp 2 s))"
    using name_hash_wide assms(4,6) that by blast
  show ?thesis using assms(5) t tw op v a w upd
    by (auto simp: aret_OpenMutexA_def aret_OpenMutexW_def aret_CreateMutexA_def aret_CreateMutexW_def
        create_mutex_def err_opt_def)
qed

definition name_demo :: sys where
  "name_demo = run0\<lparr>mem := (st32 (\<lambda>_. 0) 0x1008 0x2000)(0x2000 := 0x61)\<rparr>"

theorem named_mutex_shared_witness:
  "\<exists>h t. aret_CreateMutexA 0x1000 name_demo = Ret h t \<and> aret_OpenMutexA 0x1000 t = Ret h t"
proof -
  have m: "mem name_demo = (st32 (\<lambda>_. 0) 0x1008 0x2000)(0x2000 := 0x61)" by (simp add: name_demo_def run_defs)
  have "mem name_demo 0x1008 = 0" "mem name_demo 0x1009 = 0x20" "mem name_demo 0x100A = 0" "mem name_demo 0x100B = 0"
    by (simp_all add: m st32_def)
  then have a: "WU 0x1000 2 name_demo = 0x2000"
    by (simp add: WU_def ld32_def)
  have tab: "g_mutex name_demo = []" "g_cur name_demo = 0" by (simp_all add: name_demo_def run_defs)
  let ?nh = "u32_name_hash (mem name_demo) 0x2000 False"
  let ?t = "name_demo\<lparr>g_mutex := [\<lparr>mx_used = True, mx_owner = (if WI 0x1000 1 name_demo \<noteq> 0 then 1 else 0),
      mx_rec = (if WI 0x1000 1 name_demo \<noteq> 0 then 1 else 0), mx_name = ?nh\<rparr>]\<rparr>"
  have c: "aret_CreateMutexA 0x1000 name_demo = Ret 0x72000000 ?t"
    by (simp add: aret_CreateMutexA_def a create_mutex_def u32_create_mutex_def tab first_idx_step U32_MAX_MUTEX_def
        U32_MUTEX_BASE_def err_opt_def)
  have "WU 0x1000 2 ?t = 0x2000" using a by (simp add: WU_def)
  moreover have "core name_demo"
    by (simp add: name_demo_def run_defs core_def cs_ok_def srw_ok_def cv_ok_def mx_ok_def U32_MAX_FIBER_def)
  ultimately show ?thesis using named_mutex_shared [OF _ c, where u = ?t and esp' = "0x1000"] a c by simp
qed

end
