(* ===== verification/Aret_Registry.thy ===== *)
theory Aret_Registry
  imports Aret_Prelude "HOL-Library.Multiset"
begin

text \<open>
  The in-memory registry (\<^verbatim>\<open>runtime/aret_hle/aret_win32.c\<close>, lines 243--762): a fixed array of
  keys linked by parent indices, each with a fixed array of values, behind the advapi32
  \<^verbatim>\<open>Reg*\<close> calls and the ntdll \<^verbatim>\<open>Nt*Key\<close> calls. The seven predefined roots are the first
  entries. The state is the one after \<^verbatim>\<open>u32_reg_init\<close>, which every entry point runs first.
\<close>

section \<open>Data\<close>

definition U32_REG_BASE :: u32 where "U32_REG_BASE = 0x75000000"
definition U32_MAX_REGKEY :: nat where "U32_MAX_REGKEY = 512"
definition U32_MAX_REGVAL :: nat where "U32_MAX_REGVAL = 24"
definition U32_REGNAME :: nat where "U32_REGNAME = 80"
definition U32_REGDATA :: nat where "U32_REGDATA = 512"
definition U32_REG_ROOTS :: nat where "U32_REG_ROOTS = 7"

record u32_regval =
  rv_used :: bool
  rv_name :: "u8 list"      \<comment> \<open>the C string in \<^verbatim>\<open>name[]\<close>\<close>
  rv_type :: u32
  rv_len :: nat
  rv_data :: "u8 list"      \<comment> \<open>all \<^verbatim>\<open>U32_REGDATA\<close> bytes\<close>

record u32_regkey =
  rk_used :: bool
  rk_parent :: int
  rk_root :: u32
  rk_name :: "u8 list"
  rk_val :: "u32_regval list"

record reg = hle +
  g_reg :: "u32_regkey list"

definition regval_zero :: u32_regval where
  "regval_zero = \<lparr>rv_used = False, rv_name = [], rv_type = 0, rv_len = 0, rv_data = replicate U32_REGDATA 0\<rparr>"

definition regkey_zero :: u32_regkey where
  "regkey_zero = \<lparr>rk_used = False, rk_parent = 0, rk_root = 0, rk_name = [],
     rk_val = replicate U32_MAX_REGVAL regval_zero\<rparr>"

definition u32_reg_init :: "u32_regkey list" where
  "u32_reg_init = map (\<lambda>i. if i < U32_REG_ROOTS
       then regkey_zero\<lparr>rk_used := True, rk_parent := - 1, rk_root := 0x80000000 + of_nat i\<rparr>
       else regkey_zero) [0..<U32_MAX_REGKEY]"

section \<open>The key tree\<close>

definition u32_reg_idx :: "u32_regkey list \<Rightarrow> u32 \<Rightarrow> nat option" where
  "u32_reg_idx R h = (case first_idx (\<lambda>i. rk_root (R ! i) = h) 0 U32_REG_ROOTS of Some i \<Rightarrow> Some i
     | None \<Rightarrow> if h AND 0xFF000000 = U32_REG_BASE
         then (let i = unat (h AND 0x00FFFFFF) in if i < U32_MAX_REGKEY \<and> rk_used (R ! i) then Some i else None)
         else None)"

definition u32_reg_child :: "u32_regkey list \<Rightarrow> nat \<Rightarrow> u8 list \<Rightarrow> nat option" where
  "u32_reg_child R parent name = first_idx (\<lambda>i. rk_used (R ! i) \<and> rk_parent (R ! i) = int parent
     \<and> strcaseeq (rk_name (R ! i)) name) U32_REG_ROOTS U32_MAX_REGKEY"

definition u32_reg_new :: "u32_regkey list \<Rightarrow> nat \<Rightarrow> u8 list \<Rightarrow> (nat \<times> u32_regkey list) option" where
  "u32_reg_new R parent name = (case first_idx (\<lambda>i. \<not> rk_used (R ! i)) U32_REG_ROOTS U32_MAX_REGKEY of
       None \<Rightarrow> None
     | Some i \<Rightarrow> Some (i, R[i := regkey_zero\<lparr>rk_used := True, rk_parent := int parent, rk_root := 0,
                                         rk_name := take (U32_REGNAME - 1) name\<rparr>]))"

definition is_sep :: "u8 \<Rightarrow> bool" where
  "is_sep c \<longleftrightarrow> c = 0x5C \<or> c = 0x2F"

text \<open>One turn of the component loop: at most \<^verbatim>\<open>U32_REGNAME - 1\<close> characters, then the separators.\<close>

definition reg_comp :: "u8 list \<Rightarrow> u8 list" where
  "reg_comp p = take (U32_REGNAME - 1) (takeWhile (\<lambda>c. \<not> is_sep c) p)"

definition reg_rest :: "u8 list \<Rightarrow> u8 list" where
  "reg_rest p = dropWhile is_sep (drop (length (reg_comp p)) p)"

lemma reg_rest_shorter: "p \<noteq> [] \<Longrightarrow> length (reg_rest p) < length p"
proof (cases p)
  case (Cons c q)
  have "length (reg_rest p) \<le> length (drop (length (reg_comp p)) p)"
    unfolding reg_rest_def by (rule length_dropWhile_le)
  moreover have "reg_comp p = [] \<Longrightarrow> is_sep c"
    using Cons by (auto simp: reg_comp_def U32_REGNAME_def split: if_splits)
  moreover have "reg_rest p = dropWhile is_sep q" if "reg_comp p = []" "is_sep c"
    using Cons that by (simp add: reg_rest_def)
  ultimately show ?thesis using Cons length_dropWhile_le [of is_sep q]
    by (cases "reg_comp p = []") (auto simp: Suc_le_eq intro: le_less_trans)
qed simp

function reg_walk_loop :: "bool \<Rightarrow> u8 list \<Rightarrow> nat \<Rightarrow> bool \<Rightarrow> u32_regkey list \<Rightarrow> (nat \<times> bool) option \<times> u32_regkey list" where
  "reg_walk_loop create p cur last_created R =
     (if p = [] then (Some (cur, last_created), R)
      else if reg_comp p = [] then reg_walk_loop create (reg_rest p) cur last_created R
      else case u32_reg_child R cur (reg_comp p) of
          Some nxt \<Rightarrow> reg_walk_loop create (reg_rest p) nxt False R
        | None \<Rightarrow> if \<not> create then (None, R)
            else case u32_reg_new R cur (reg_comp p) of None \<Rightarrow> (None, R)
              | Some (nxt, R') \<Rightarrow> reg_walk_loop create (reg_rest p) nxt True R')"
  by pat_completeness auto
termination
  by (relation "measure (\<lambda>(create, p, cur, l, R). length p)") (auto simp: reg_rest_shorter)

declare reg_walk_loop.simps [simp del]

definition u32_reg_walk :: "u32_regkey list \<Rightarrow> u32 \<Rightarrow> u8 list \<Rightarrow> bool \<Rightarrow> (nat \<times> bool) option \<times> u32_regkey list" where
  "u32_reg_walk R hparent path create = (case u32_reg_idx R hparent of None \<Rightarrow> (None, R)
     | Some cur \<Rightarrow> reg_walk_loop create path cur False R)"

definition u32_reg_hkey :: "u32_regkey list \<Rightarrow> nat \<Rightarrow> u32" where
  "u32_reg_hkey R k = (if k < U32_REG_ROOTS then rk_root (R ! k) else U32_REG_BASE OR of_nat k)"

text \<open>The result is the slot of the value in key \<open>k\<close>.\<close>

definition u32_reg_findval :: "u32_regkey list \<Rightarrow> nat \<Rightarrow> u8 list \<Rightarrow> bool \<Rightarrow> nat option \<times> u32_regkey list" where
  "u32_reg_findval R k name create = (let V = rk_val (R ! k) in
     case first_idx (\<lambda>i. rv_used (V ! i) \<and> strcaseeq (rv_name (V ! i)) name) 0 U32_MAX_REGVAL of
       Some i \<Rightarrow> (Some i, R)
     | None \<Rightarrow> if \<not> create then (None, R)
         else case first_idx (\<lambda>i. \<not> rv_used (V ! i)) 0 U32_MAX_REGVAL of None \<Rightarrow> (None, R)
           | Some i \<Rightarrow> (Some i, R[k := (R ! k)\<lparr>rk_val := V[i :=
                regval_zero\<lparr>rv_used := True, rv_name := take (U32_REGNAME - 1) name\<rparr>]\<rparr>]))"

text \<open>
  The recursive deletion. Its loop re-reads the table after every recursive call; \<open>fuel\<close>
  bounds the depth, and \<^verbatim>\<open>U32_MAX_REGKEY\<close> is enough for every tree (\<open>del_subtree_spec\<close>).
\<close>

fun u32_reg_del_subtree :: "nat \<Rightarrow> nat \<Rightarrow> u32_regkey list \<Rightarrow> u32_regkey list" where
  "u32_reg_del_subtree 0 k R = R"
| "u32_reg_del_subtree (Suc fuel) k R =
     (let R' = fold (\<lambda>i R. if rk_used (R ! i) \<and> rk_parent (R ! i) = int k then u32_reg_del_subtree fuel i R else R)
                 [U32_REG_ROOTS..<U32_MAX_REGKEY] R
      in R'[k := (R' ! k)\<lparr>rk_used := False\<rparr>])"

section \<open>The narrow cores\<close>

definition u32_reg_create :: "u32 \<Rightarrow> u8 list \<Rightarrow> u32 \<Rightarrow> u32 \<Rightarrow> reg \<Rightarrow> u32 \<times> reg" where
  "u32_reg_create hk sub phk pdisp s = (case u32_reg_walk (g_reg s) hk sub True of
       (None, R) \<Rightarrow> (5, put32 phk 0 (s\<lparr>g_reg := R\<rparr>))
     | (Some (k, new), R) \<Rightarrow> (0, put32 pdisp (if new then 1 else 2) (put32 phk (u32_reg_hkey R k) (s\<lparr>g_reg := R\<rparr>))))"

definition u32_reg_open :: "u32 \<Rightarrow> u8 list \<Rightarrow> u32 \<Rightarrow> reg \<Rightarrow> u32 \<times> reg" where
  "u32_reg_open hk sub phk s = (case fst (u32_reg_walk (g_reg s) hk sub False) of
       None \<Rightarrow> (2, put32 phk 0 s)
     | Some (k, _) \<Rightarrow> (0, put32 phk (u32_reg_hkey (g_reg s) k) s))"

definition upd_val :: "nat \<Rightarrow> nat \<Rightarrow> (u32_regval \<Rightarrow> u32_regval) \<Rightarrow> u32_regkey list \<Rightarrow> u32_regkey list" where
  "upd_val k i f R = R[k := (R ! k)\<lparr>rk_val := (rk_val (R ! k))[i := f (rk_val (R ! k) ! i)]\<rparr>]"

definition u32_reg_setval :: "u32 \<Rightarrow> u8 list \<Rightarrow> u32 \<Rightarrow> u32 \<Rightarrow> u32 \<Rightarrow> reg \<Rightarrow> u32 \<times> reg" where
  "u32_reg_setval hk name type data cb0 s = (case u32_reg_idx (g_reg s) hk of None \<Rightarrow> (6, s)
     | Some k \<Rightarrow> case u32_reg_findval (g_reg s) k name True of (None, R) \<Rightarrow> (5, s\<lparr>g_reg := R\<rparr>)
       | (Some i, R) \<Rightarrow> let cb = min (unat cb0) U32_REGDATA in
           (0, s\<lparr>g_reg := upd_val k i (\<lambda>v. v\<lparr>rv_type := type, rv_len := cb,
              rv_data := (if data \<noteq> 0 \<and> cb \<noteq> 0 then ld_bytes (mem s) data cb @ drop cb (rv_data v) else rv_data v)\<rparr>) R\<rparr>))"

definition u32_reg_queryval :: "u32 \<Rightarrow> u8 list \<Rightarrow> u32 \<Rightarrow> u32 \<Rightarrow> u32 \<Rightarrow> reg \<Rightarrow> u32 \<times> reg" where
  "u32_reg_queryval hk name ptype data pcb s = (case u32_reg_idx (g_reg s) hk of None \<Rightarrow> (6, s)
     | Some k \<Rightarrow> case fst (u32_reg_findval (g_reg s) k name False) of None \<Rightarrow> (2, s)
       | Some i \<Rightarrow> let v = rk_val (g_reg s ! k) ! i; s1 = put32 ptype (rv_type v) s in
           if data = 0 then (0, put32 pcb (of_nat (rv_len v)) s1)
           else if pcb = 0 then (87, s1)
           else if unat (ld32 (mem s1) pcb) < rv_len v then (234, put32 pcb (of_nat (rv_len v)) s1)
           else (0, put32 pcb (of_nat (rv_len v))
                  (s1\<lparr>mem := st_bytes (mem s1) data (take (rv_len v) (rv_data v))\<rparr>)))"

section \<open>advapi32\<close>

definition aret_RegCreateKeyExA :: "u32 \<Rightarrow> reg \<Rightarrow> u32 \<times> reg" where
  "aret_RegCreateKeyExA esp s = u32_reg_create (WU esp 0 s) (narrow_at (mem s) (WU esp 1 s)) (WU esp 7 s) (WU esp 8 s) s"

definition aret_RegCreateKeyA :: "u32 \<Rightarrow> reg \<Rightarrow> u32 \<times> reg" where
  "aret_RegCreateKeyA esp s = u32_reg_create (WU esp 0 s) (narrow_at (mem s) (WU esp 1 s)) (WU esp 2 s) 0 s"

definition aret_RegOpenKeyExA :: "u32 \<Rightarrow> reg \<Rightarrow> u32 \<times> reg" where
  "aret_RegOpenKeyExA esp s = u32_reg_open (WU esp 0 s) (narrow_at (mem s) (WU esp 1 s)) (WU esp 4 s) s"

definition aret_RegOpenKeyA :: "u32 \<Rightarrow> reg \<Rightarrow> u32 \<times> reg" where
  "aret_RegOpenKeyA esp s = u32_reg_open (WU esp 0 s) (narrow_at (mem s) (WU esp 1 s)) (WU esp 2 s) s"

definition aret_RegSetValueExA :: "u32 \<Rightarrow> reg \<Rightarrow> u32 \<times> reg" where
  "aret_RegSetValueExA esp s = u32_reg_setval (WU esp 0 s) (narrow_at (mem s) (WU esp 1 s)) (WU esp 3 s) (WU esp 4 s) (WU esp 5 s) s"

definition aret_RegQueryValueExA :: "u32 \<Rightarrow> reg \<Rightarrow> u32 \<times> reg" where
  "aret_RegQueryValueExA esp s = u32_reg_queryval (WU esp 0 s) (narrow_at (mem s) (WU esp 1 s)) (WU esp 3 s) (WU esp 4 s) (WU esp 5 s) s"

definition aret_RegCreateKeyExW :: "u32 \<Rightarrow> reg \<Rightarrow> u32 \<times> reg" where
  "aret_RegCreateKeyExW esp s = u32_reg_create (WU esp 0 s) (w2n_at (mem s) (WU esp 1 s) 256) (WU esp 7 s) (WU esp 8 s) s"

definition aret_RegCreateKeyW :: "u32 \<Rightarrow> reg \<Rightarrow> u32 \<times> reg" where
  "aret_RegCreateKeyW esp s = u32_reg_create (WU esp 0 s) (w2n_at (mem s) (WU esp 1 s) 256) (WU esp 2 s) 0 s"

definition aret_RegOpenKeyExW :: "u32 \<Rightarrow> reg \<Rightarrow> u32 \<times> reg" where
  "aret_RegOpenKeyExW esp s = u32_reg_open (WU esp 0 s) (w2n_at (mem s) (WU esp 1 s) 256) (WU esp 4 s) s"

definition aret_RegOpenKeyW :: "u32 \<Rightarrow> reg \<Rightarrow> u32 \<times> reg" where
  "aret_RegOpenKeyW esp s = u32_reg_open (WU esp 0 s) (w2n_at (mem s) (WU esp 1 s) 256) (WU esp 2 s) s"

definition aret_RegSetValueExW :: "u32 \<Rightarrow> reg \<Rightarrow> u32 \<times> reg" where
  "aret_RegSetValueExW esp s = u32_reg_setval (WU esp 0 s) (w2n_at (mem s) (WU esp 1 s) U32_REGNAME) (WU esp 3 s) (WU esp 4 s) (WU esp 5 s) s"

definition aret_RegQueryValueExW :: "u32 \<Rightarrow> reg \<Rightarrow> u32 \<times> reg" where
  "aret_RegQueryValueExW esp s = u32_reg_queryval (WU esp 0 s) (w2n_at (mem s) (WU esp 1 s) U32_REGNAME) (WU esp 3 s) (WU esp 4 s) (WU esp 5 s) s"

definition reg_delete_value :: "u32 \<Rightarrow> u8 list \<Rightarrow> reg \<Rightarrow> u32 \<times> reg" where
  "reg_delete_value hk name s = (case u32_reg_idx (g_reg s) hk of None \<Rightarrow> (6, s)
     | Some k \<Rightarrow> case fst (u32_reg_findval (g_reg s) k name False) of None \<Rightarrow> (2, s)
       | Some i \<Rightarrow> (0, s\<lparr>g_reg := upd_val k i (\<lambda>v. v\<lparr>rv_used := False\<rparr>) (g_reg s)\<rparr>))"

definition reg_delete_key :: "u32 \<Rightarrow> u8 list \<Rightarrow> reg \<Rightarrow> u32 \<times> reg" where
  "reg_delete_key hk path s = (case fst (u32_reg_walk (g_reg s) hk path False) of None \<Rightarrow> (2, s)
     | Some (k, _) \<Rightarrow> if k < U32_REG_ROOTS then (2, s)
         else (0, s\<lparr>g_reg := u32_reg_del_subtree U32_MAX_REGKEY k (g_reg s)\<rparr>))"

definition aret_RegDeleteValueA :: "u32 \<Rightarrow> reg \<Rightarrow> u32 \<times> reg" where
  "aret_RegDeleteValueA esp s = reg_delete_value (WU esp 0 s) (narrow_at (mem s) (WU esp 1 s)) s"

definition aret_RegDeleteValueW :: "u32 \<Rightarrow> reg \<Rightarrow> u32 \<times> reg" where
  "aret_RegDeleteValueW esp s = reg_delete_value (WU esp 0 s) (w2n_at (mem s) (WU esp 1 s) U32_REGNAME) s"

definition aret_RegDeleteKeyA :: "u32 \<Rightarrow> reg \<Rightarrow> u32 \<times> reg" where
  "aret_RegDeleteKeyA esp s = reg_delete_key (WU esp 0 s) (narrow_at (mem s) (WU esp 1 s)) s"

definition aret_RegDeleteKeyW :: "u32 \<Rightarrow> reg \<Rightarrow> u32 \<times> reg" where
  "aret_RegDeleteKeyW esp s = reg_delete_key (WU esp 0 s) (w2n_at (mem s) (WU esp 1 s) 256) s"

definition aret_RegCloseKey :: "u32 \<Rightarrow> reg \<Rightarrow> u32 \<times> reg" where
  "aret_RegCloseKey esp s = (0, s)"

definition aret_RegFlushKey :: "u32 \<Rightarrow> reg \<Rightarrow> u32 \<times> reg" where
  "aret_RegFlushKey esp s = (0, s)"

text \<open>The slots an enumeration visits: live values of a key, live children of a key.\<close>

definition live_vals :: "u32_regkey list \<Rightarrow> nat \<Rightarrow> nat list" where
  "live_vals R k = filter (\<lambda>i. rv_used (rk_val (R ! k) ! i)) [0..<U32_MAX_REGVAL]"

definition live_subs :: "u32_regkey list \<Rightarrow> nat \<Rightarrow> nat list" where
  "live_subs R k = filter (\<lambda>i. rk_used (R ! i) \<and> rk_parent (R ! i) = int k) [U32_REG_ROOTS..<U32_MAX_REGKEY]"

definition nth_opt :: "'a list \<Rightarrow> nat \<Rightarrow> 'a option" where
  "nth_opt xs n = (if n < length xs then Some (xs ! n) else None)"

definition aret_RegEnumValueA :: "u32 \<Rightarrow> reg \<Rightarrow> u32 \<times> reg" where
  "aret_RegEnumValueA esp s = (case u32_reg_idx (g_reg s) (WU esp 0 s) of None \<Rightarrow> (6, s)
     | Some k \<Rightarrow> case nth_opt (live_vals (g_reg s) k) (unat (WU esp 1 s)) of None \<Rightarrow> (259, s)
       | Some i \<Rightarrow> let v = rk_val (g_reg s ! k) ! i; name = WU esp 2 s; pnl = WU esp 3 s; ptype = WU esp 5 s;
             data = WU esp 6 s; pcb = WU esp 7 s; nlen = length (rv_name v) in
           if name \<noteq> 0 \<and> pnl \<noteq> 0 \<and> unat (ld32 (mem s) pnl) < nlen + 1 then (234, s)
           else let s1 = (if name \<noteq> 0 \<and> pnl \<noteq> 0
                    then put32 pnl (of_nat nlen) (s\<lparr>mem := st_bytes (mem s) name (rv_name v @ [0])\<rparr>) else s);
                    s2 = put32 ptype (rv_type v) s1 in
             if data \<noteq> 0 \<and> pcb \<noteq> 0
             then (if unat (ld32 (mem s2) pcb) < rv_len v then (234, put32 pcb (of_nat (rv_len v)) s2)
                   else (0, put32 pcb (of_nat (rv_len v))
                          (s2\<lparr>mem := st_bytes (mem s2) data (take (rv_len v) (rv_data v))\<rparr>)))
             else (0, put32 pcb (of_nat (rv_len v)) s2))"

text \<open>The packed result: the low byte is the status, the top byte the length of the name.\<close>

definition u32_reg_enumkey :: "u32 \<Rightarrow> u32 \<Rightarrow> u32 \<Rightarrow> u32 \<Rightarrow> reg \<Rightarrow> u32 \<times> reg" where
  "u32_reg_enumkey hk idx name namecap s = (case u32_reg_idx (g_reg s) hk of None \<Rightarrow> (6, s)
     | Some k \<Rightarrow> case nth_opt (live_subs (g_reg s) k) (unat idx) of None \<Rightarrow> (259, s)
       | Some child \<Rightarrow> let nm = rk_name (g_reg s ! child); nlen = length nm in
           if name \<noteq> 0 \<and> unat namecap < nlen + 1 then (234, s)
           else (push_bit 24 (of_nat nlen) OR 0, if name = 0 then s else s\<lparr>mem := st_bytes (mem s) name (nm @ [0])\<rparr>))"

definition aret_RegEnumKeyExA :: "u32 \<Rightarrow> reg \<Rightarrow> u32 \<times> reg" where
  "aret_RegEnumKeyExA esp s = (let pnl = WU esp 3 s; cap = (if pnl = 0 then 0 else ld32 (mem s) pnl) in
     case u32_reg_enumkey (WU esp 0 s) (WU esp 1 s) (WU esp 2 s) cap s of
       (r, s1) \<Rightarrow> if r AND 0xFF \<noteq> 0 then (r AND 0xFF, s1) else (0, put32 pnl (drop_bit 24 r) s1))"

definition aret_RegEnumKeyA :: "u32 \<Rightarrow> reg \<Rightarrow> u32 \<times> reg" where
  "aret_RegEnumKeyA esp s = (case u32_reg_enumkey (WU esp 0 s) (WU esp 1 s) (WU esp 2 s) (WU esp 3 s) s of
     (r, s1) \<Rightarrow> (r AND 0xFF, s1))"

definition list_max :: "nat list \<Rightarrow> nat" where
  "list_max xs = fold max xs 0"

definition aret_RegQueryInfoKeyA :: "u32 \<Rightarrow> reg \<Rightarrow> u32 \<times> reg" where
  "aret_RegQueryInfoKeyA esp s = (case u32_reg_idx (g_reg s) (WU esp 0 s) of None \<Rightarrow> (6, s)
     | Some k \<Rightarrow> let subs = live_subs (g_reg s) k; vals = map (nth (rk_val (g_reg s ! k))) (live_vals (g_reg s) k);
           w = (\<lambda>i v t. put32 (WU esp i t) v t)
         in (0, w 10 0 (w 9 (of_nat (list_max (map rv_len vals)))
                (w 8 (of_nat (list_max (map (length \<circ> rv_name) vals)))
                (w 7 (of_nat (length vals)) (w 6 0
                (w 5 (of_nat (list_max (map (\<lambda>i. length (rk_name (g_reg s ! i))) subs)))
                (w 4 (of_nat (length subs)) (w 2 0 s)))))))))"

definition rrf_bit_for_regtype :: "u32 \<Rightarrow> u32" where
  "rrf_bit_for_regtype t = (if t = 0 then 1 else if t = 1 then 2 else if t = 2 then 4 else if t = 3 then 8
     else if t = 4 then 0x10 else if t = 7 then 0x20 else if t = 11 then 0x40 else 0)"

definition aret_RegGetValueW :: "u32 \<Rightarrow> reg \<Rightarrow> u32 \<times> reg" where
  "aret_RegGetValueW esp s = (let hkey = WU esp 0 s; wsub = WU esp 1 s; wval = WU esp 2 s; flags = WU esp 3 s;
       R = g_reg s;
       target = (if wsub \<noteq> 0 \<and> ld16 (mem s) wsub \<noteq> 0
                 then map_option (\<lambda>(k, _). u32_reg_hkey R k) (fst (u32_reg_walk R hkey (w2n_at (mem s) wsub 256) False))
                 else Some hkey);
       val = w2n_at (mem s) wval U32_REGNAME
     in case target of None \<Rightarrow> (2, s)
        | Some h \<Rightarrow> case u32_reg_idx R h of None \<Rightarrow> (6, s)
          | Some k \<Rightarrow> case fst (u32_reg_findval R k val False) of None \<Rightarrow> (2, s)
            | Some i \<Rightarrow> let rt = flags AND 0xFFFF in
                if rt \<noteq> 0 \<and> rt AND rrf_bit_for_regtype (rv_type (rk_val (R ! k) ! i)) = 0 then (1630, s)
                else u32_reg_queryval h val (WU esp 4 s) (WU esp 5 s) (WU esp 6 s) s)"

section \<open>The ntdll floor\<close>

definition NT_STATUS_INVALID_HANDLE :: u32 where "NT_STATUS_INVALID_HANDLE = 0xC0000008"
definition NT_STATUS_OBJECT_NAME_NOT_FOUND :: u32 where "NT_STATUS_OBJECT_NAME_NOT_FOUND = 0xC0000034"
definition NT_STATUS_BUFFER_OVERFLOW :: u32 where "NT_STATUS_BUFFER_OVERFLOW = 0x80000005"
definition NT_STATUS_BUFFER_TOO_SMALL :: u32 where "NT_STATUS_BUFFER_TOO_SMALL = 0xC0000023"
definition NT_STATUS_NO_MORE_ENTRIES :: u32 where "NT_STATUS_NO_MORE_ENTRIES = 0x8000001A"

fun ld_words :: "guest_mem \<Rightarrow> u32 \<Rightarrow> nat \<Rightarrow> u16 list" where
  "ld_words m a 0 = []"
| "ld_words m a (Suc n) = ld16 m a # ld_words m (a + 2) n"

text \<open>The result is a C string: it ends at an embedded NUL.\<close>

definition u32_us_narrow :: "guest_mem \<Rightarrow> u32 \<Rightarrow> nat \<Rightarrow> u8 list" where
  "u32_us_narrow m pus cap = (if pus = 0 then []
     else let n = unat (ld16 m pus) div 2; w = ld32 m (pus + 4)
          in if w = 0 then []
             else takeWhile (\<lambda>b. b \<noteq> 0) (map (\<lambda>c. ucast (c AND 0xFF)) (ld_words m w (min n (cap - 1)))))"

definition strncaseeq :: "u8 list \<Rightarrow> u8 list \<Rightarrow> nat \<Rightarrow> bool" where
  "strncaseeq a b n \<longleftrightarrow> map ascii_lower (take n a) = map ascii_lower (take n b)"

definition bytes_of :: "string \<Rightarrow> u8 list" where
  "bytes_of cs = map of_char cs"

definition u32_nt_reg_resolve :: "guest_mem \<Rightarrow> u32 \<Rightarrow> bool \<Rightarrow> u32_regkey list \<Rightarrow> (nat \<times> bool) option \<times> u32_regkey list" where
  "u32_nt_reg_resolve m poa create R = (if poa = 0 then (None, R)
     else let root = ld32 m (poa + 4); name = u32_us_narrow m (ld32 m (poa + 8)) 512; bs = (\<lambda>c. c = 0x5C) in
       if root \<noteq> 0 then u32_reg_walk R root name create
       else let p1 = (if chd name = 0x5C then tl name else name);
                p2 = (if strncaseeq p1 (bytes_of ''Registry'') 8 then dropWhile bs (drop 8 p1) else p1)
            in if strncaseeq p2 (bytes_of ''Machine'') 7
               then u32_reg_walk R 0x80000002 (dropWhile bs (drop 7 p2)) create
               else if strncaseeq p2 (bytes_of ''User'') 4
               then u32_reg_walk R 0x80000003 (dropWhile bs (drop 4 p2)) create
               else (None, R))"

definition aret_ntreg_create :: "u32 \<Rightarrow> u32 \<Rightarrow> u32 \<Rightarrow> reg \<Rightarrow> u32 \<times> reg" where
  "aret_ntreg_create poa phkey pdisp s = (case u32_nt_reg_resolve (mem s) poa True (g_reg s) of
       (None, R) \<Rightarrow> (NT_STATUS_OBJECT_NAME_NOT_FOUND, s\<lparr>g_reg := R\<rparr>)
     | (Some (k, new), R) \<Rightarrow>
         (0, put32 pdisp (if new then 1 else 2) (put32 phkey (u32_reg_hkey R k) (s\<lparr>g_reg := R\<rparr>))))"

definition aret_ntreg_open :: "u32 \<Rightarrow> u32 \<Rightarrow> reg \<Rightarrow> u32 \<times> reg" where
  "aret_ntreg_open poa phkey s = (case fst (u32_nt_reg_resolve (mem s) poa False (g_reg s)) of
       None \<Rightarrow> (NT_STATUS_OBJECT_NAME_NOT_FOUND, s)
     | Some (k, _) \<Rightarrow> (0, put32 phkey (u32_reg_hkey (g_reg s) k) s))"

definition aret_ntreg_setval :: "u32 \<Rightarrow> u32 \<Rightarrow> u32 \<Rightarrow> u32 \<Rightarrow> u32 \<Rightarrow> reg \<Rightarrow> u32 \<times> reg" where
  "aret_ntreg_setval hkey pvalname type data sz s =
     (case u32_reg_setval hkey (u32_us_narrow (mem s) pvalname 256) type data sz s of
        (r, s1) \<Rightarrow> (if r = 0 then 0 else NT_STATUS_INVALID_HANDLE, s1))"

definition aret_ntreg_queryval :: "u32 \<Rightarrow> u32 \<Rightarrow> u32 \<Rightarrow> u32 \<Rightarrow> u32 \<Rightarrow> u32 \<Rightarrow> reg \<Rightarrow> u32 \<times> reg" where
  "aret_ntreg_queryval hkey pvalname infoclass info len presult s =
     (if infoclass \<noteq> 2 then (NT_STATUS_INVALID_HANDLE, s)
      else case u32_reg_idx (g_reg s) hkey of None \<Rightarrow> (NT_STATUS_INVALID_HANDLE, s)
      | Some k \<Rightarrow> case fst (u32_reg_findval (g_reg s) k (u32_us_narrow (mem s) pvalname 256) False) of
          None \<Rightarrow> (NT_STATUS_OBJECT_NAME_NOT_FOUND, s)
        | Some i \<Rightarrow> let v = rk_val (g_reg s ! k) ! i; s1 = put32 presult (of_nat (12 + rv_len v)) s in
            if len < 12 then (NT_STATUS_BUFFER_TOO_SMALL, s1)
            else let m = st32 (st32 (st32 (mem s1) info 0) (info + 4) (rv_type v)) (info + 8) (of_nat (rv_len v));
                     copy = min (rv_len v) (unat (len - 12))
                 in (if copy < rv_len v then NT_STATUS_BUFFER_OVERFLOW else 0,
                     s1\<lparr>mem := st_bytes m (info + 12) (take copy (rv_data v))\<rparr>))"

definition aret_ntreg_delval :: "u32 \<Rightarrow> u32 \<Rightarrow> reg \<Rightarrow> u32 \<times> reg" where
  "aret_ntreg_delval hkey pvalname s = (case u32_reg_idx (g_reg s) hkey of None \<Rightarrow> (NT_STATUS_INVALID_HANDLE, s)
     | Some k \<Rightarrow> case fst (u32_reg_findval (g_reg s) k (u32_us_narrow (mem s) pvalname 256) False) of
         None \<Rightarrow> (NT_STATUS_OBJECT_NAME_NOT_FOUND, s)
       | Some i \<Rightarrow> (0, s\<lparr>g_reg := upd_val k i (\<lambda>v. v\<lparr>rv_used := False\<rparr>) (g_reg s)\<rparr>))"

definition aret_NtCreateKey :: "u32 \<Rightarrow> reg \<Rightarrow> u32 \<times> reg" where
  "aret_NtCreateKey esp s = aret_ntreg_create (WU esp 2 s) (WU esp 0 s) (WU esp 6 s) s"

definition aret_NtOpenKey :: "u32 \<Rightarrow> reg \<Rightarrow> u32 \<times> reg" where
  "aret_NtOpenKey esp s = aret_ntreg_open (WU esp 2 s) (WU esp 0 s) s"

definition aret_NtSetValueKey :: "u32 \<Rightarrow> reg \<Rightarrow> u32 \<times> reg" where
  "aret_NtSetValueKey esp s = aret_ntreg_setval (WU esp 0 s) (WU esp 1 s) (WU esp 3 s) (WU esp 4 s) (WU esp 5 s) s"

definition aret_NtQueryValueKey :: "u32 \<Rightarrow> reg \<Rightarrow> u32 \<times> reg" where
  "aret_NtQueryValueKey esp s = aret_ntreg_queryval (WU esp 0 s) (WU esp 1 s) (WU esp 2 s) (WU esp 3 s) (WU esp 4 s) (WU esp 5 s) s"

definition aret_NtDeleteValueKey :: "u32 \<Rightarrow> reg \<Rightarrow> u32 \<times> reg" where
  "aret_NtDeleteValueKey esp s = aret_ntreg_delval (WU esp 0 s) (WU esp 1 s) s"

subsection \<open>Enumeration in Wine's order\<close>

definition u32_reg_widen :: "u8 list \<Rightarrow> nat \<Rightarrow> u16 list" where
  "u32_reg_widen s cap = map ucast (take cap s)"

function u32_reg_ncmp :: "u8 list \<Rightarrow> u8 list \<Rightarrow> int" where
  "u32_reg_ncmp a b = (let ca = ascii_upper (chd a); cb = ascii_upper (chd b) in
     if ca \<noteq> cb then uint ca - uint cb else if ca = 0 then 0 else u32_reg_ncmp (tl a) (tl b))"
  by pat_completeness auto
termination
  by (relation "measure (\<lambda>(a, b). length a)") (auto simp: chd_def ascii_upper_def split: list.splits)

declare u32_reg_ncmp.simps [simp del]

text \<open>
  The insertion sort of \<^verbatim>\<open>ids[]\<close>: \<open>r\<close> is the sorted prefix from its end, into which the
  element \<open>t\<close> moves down past the larger ones.
\<close>

fun ins_down :: "('a \<Rightarrow> 'a \<Rightarrow> bool) \<Rightarrow> 'a \<Rightarrow> 'a list \<Rightarrow> 'a list" where
  "ins_down gt t [] = [t]"
| "ins_down gt t (x # xs) = (if gt x t then x # ins_down gt t xs else t # x # xs)"

definition ins_sort :: "('a \<Rightarrow> 'a \<Rightarrow> bool) \<Rightarrow> 'a list \<Rightarrow> 'a list" where
  "ins_sort gt xs = rev (fold (ins_down gt) xs [])"

definition u32_reg_nth_subkey :: "u32_regkey list \<Rightarrow> nat \<Rightarrow> nat \<Rightarrow> nat option" where
  "u32_reg_nth_subkey R k idx =
     nth_opt (ins_sort (\<lambda>a b. u32_reg_ncmp (rk_name (R ! a)) (rk_name (R ! b)) > 0) (live_subs R k)) idx"

definition u32_reg_nth_value :: "u32_regkey list \<Rightarrow> nat \<Rightarrow> nat \<Rightarrow> nat option" where
  "u32_reg_nth_value R k idx = (let V = rk_val (R ! k) in
     nth_opt (ins_sort (\<lambda>a b. u32_reg_ncmp (rv_name (V ! a)) (rv_name (V ! b)) > 0) (live_vals R k)) idx)"

text \<open>Little-endian bytes of UTF-16 units, as \<^verbatim>\<open>memcpy\<close> copies them.\<close>

definition wbytes :: "u16 list \<Rightarrow> u8 list" where
  "wbytes ws = concat (map (\<lambda>w. [ucast w, ucast (drop_bit 8 w)]) ws)"

definition u32_fill_key_info :: "u32 \<Rightarrow> nat \<Rightarrow> u32 \<Rightarrow> u32 \<Rightarrow> u32 \<Rightarrow> reg \<Rightarrow> u32 \<times> reg" where
  "u32_fill_key_info cls kidx info len presult s = (let R = g_reg s;
       wn = u32_reg_widen (rk_name (R ! kidx)) U32_REGNAME; namelen = 2 * length wn in
     if cls = 2 then
       (let s1 = put32 presult 44 s in
        if len < 44 then (NT_STATUS_BUFFER_TOO_SMALL, s1)
        else let subs = live_subs R kidx; vals = map (nth (rk_val (R ! kidx))) (live_vals R kidx);
                 m = st_bytes (mem s1) info (replicate 44 0);
                 m1 = st32 m (info + 12) 0xFFFFFFFF;
                 m2 = st32 (st32 m1 (info + 20) (of_nat (length subs))) (info + 24)
                        (of_nat (list_max (map (\<lambda>i. 2 * length (rk_name (R ! i))) subs)));
                 m3 = st32 (st32 (st32 m2 (info + 32) (of_nat (length vals))) (info + 36)
                        (of_nat (list_max (map (\<lambda>v. 2 * length (rv_name v)) vals)))) (info + 40)
                        (of_nat (list_max (map rv_len vals)))
             in (0, s1\<lparr>mem := m3\<rparr>))
     else if cls = 0 \<or> cls = 1 then
       (let fixed = (if cls = 0 then 16 else 24); s1 = put32 presult (of_nat (fixed + namelen)) s in
        if unat len < fixed then (NT_STATUS_BUFFER_TOO_SMALL, s1)
        else let m = st_bytes (mem s1) info (replicate fixed 0);
                 m1 = (if cls = 0 then st32 m (info + 12) (of_nat namelen)
                       else st32 (st32 m (info + 12) 0xFFFFFFFF) (info + 20) (of_nat namelen));
                 cpy = min namelen (unat len - fixed)
             in (if cpy < namelen then NT_STATUS_BUFFER_OVERFLOW else 0,
                 s1\<lparr>mem := st_bytes m1 (info + of_nat fixed) (take cpy (wbytes wn))\<rparr>))
     else (NT_STATUS_INVALID_HANDLE, s))"

definition u32_fill_value_info_enum :: "u32 \<Rightarrow> u32_regval \<Rightarrow> u32 \<Rightarrow> u32 \<Rightarrow> u32 \<Rightarrow> reg \<Rightarrow> u32 \<times> reg" where
  "u32_fill_value_info_enum cls v info len presult s = (let
       wn = u32_reg_widen (rv_name v) U32_REGNAME; namelen = 2 * length wn; dataoff = 20 + namelen;
       data = take (rv_len v) (rv_data v) in
     if \<not> (cls = 0 \<or> cls = 1 \<or> cls = 2) then (NT_STATUS_INVALID_HANDLE, s)
     else let need = (if cls = 0 then 12 + namelen else if cls = 1 then dataoff + rv_len v else 12 + rv_len v);
              s1 = put32 presult (of_nat need) s; m = st32 (st32 (mem s1) info 0) (info + 4) (rv_type v) in
       if unat len < need then (NT_STATUS_BUFFER_OVERFLOW, s1)
       else (0, s1\<lparr>mem :=
         (if cls = 0 then st_bytes (st32 m (info + 8) (of_nat namelen)) (info + 12) (wbytes wn)
          else if cls = 1
          then st_bytes (st_bytes (st32 (st32 (st32 m (info + 8) (of_nat dataoff)) (info + 12) (of_nat (rv_len v)))
                 (info + 16) (of_nat namelen)) (info + 20) (wbytes wn)) (info + of_nat dataoff) data
          else st_bytes (st32 m (info + 8) (of_nat (rv_len v))) (info + 12) data)\<rparr>))"

definition aret_ntreg_enumkey :: "u32 \<Rightarrow> u32 \<Rightarrow> u32 \<Rightarrow> u32 \<Rightarrow> u32 \<Rightarrow> u32 \<Rightarrow> reg \<Rightarrow> u32 \<times> reg" where
  "aret_ntreg_enumkey hkey index cls info len presult s = (case u32_reg_idx (g_reg s) hkey of
       None \<Rightarrow> (NT_STATUS_INVALID_HANDLE, s)
     | Some k \<Rightarrow> case u32_reg_nth_subkey (g_reg s) k (unat index) of None \<Rightarrow> (NT_STATUS_NO_MORE_ENTRIES, s)
       | Some child \<Rightarrow> u32_fill_key_info cls child info len presult s)"

definition aret_ntreg_enumval :: "u32 \<Rightarrow> u32 \<Rightarrow> u32 \<Rightarrow> u32 \<Rightarrow> u32 \<Rightarrow> u32 \<Rightarrow> reg \<Rightarrow> u32 \<times> reg" where
  "aret_ntreg_enumval hkey index cls info len presult s = (case u32_reg_idx (g_reg s) hkey of
       None \<Rightarrow> (NT_STATUS_INVALID_HANDLE, s)
     | Some k \<Rightarrow> case u32_reg_nth_value (g_reg s) k (unat index) of None \<Rightarrow> (NT_STATUS_NO_MORE_ENTRIES, s)
       | Some i \<Rightarrow> u32_fill_value_info_enum cls (rk_val (g_reg s ! k) ! i) info len presult s)"

definition aret_ntreg_delkey :: "u32 \<Rightarrow> reg \<Rightarrow> u32 \<times> reg" where
  "aret_ntreg_delkey hkey s = (case u32_reg_idx (g_reg s) hkey of None \<Rightarrow> (NT_STATUS_INVALID_HANDLE, s)
     | Some k \<Rightarrow> if k < U32_REG_ROOTS then (NT_STATUS_INVALID_HANDLE, s)
         else (0, s\<lparr>g_reg := u32_reg_del_subtree U32_MAX_REGKEY k (g_reg s)\<rparr>))"

definition aret_NtQueryKey :: "u32 \<Rightarrow> reg \<Rightarrow> u32 \<times> reg" where
  "aret_NtQueryKey esp s = (case u32_reg_idx (g_reg s) (WU esp 0 s) of None \<Rightarrow> (NT_STATUS_INVALID_HANDLE, s)
     | Some k \<Rightarrow> u32_fill_key_info (WU esp 1 s) k (WU esp 2 s) (WU esp 3 s) (WU esp 4 s) s)"

definition aret_NtEnumerateKey :: "u32 \<Rightarrow> reg \<Rightarrow> u32 \<times> reg" where
  "aret_NtEnumerateKey esp s = aret_ntreg_enumkey (WU esp 0 s) (WU esp 1 s) (WU esp 2 s) (WU esp 3 s) (WU esp 4 s) (WU esp 5 s) s"

definition aret_NtEnumerateValueKey :: "u32 \<Rightarrow> reg \<Rightarrow> u32 \<times> reg" where
  "aret_NtEnumerateValueKey esp s = aret_ntreg_enumval (WU esp 0 s) (WU esp 1 s) (WU esp 2 s) (WU esp 3 s) (WU esp 4 s) (WU esp 5 s) s"

definition aret_NtFlushKey :: "u32 \<Rightarrow> reg \<Rightarrow> u32 \<times> reg" where
  "aret_NtFlushKey esp s = (case u32_reg_idx (g_reg s) (WU esp 0 s) of None \<Rightarrow> (NT_STATUS_INVALID_HANDLE, s) | Some k \<Rightarrow> (0, s))"

definition aret_NtDeleteKey :: "u32 \<Rightarrow> reg \<Rightarrow> u32 \<times> reg" where
  "aret_NtDeleteKey esp s = aret_ntreg_delkey (WU esp 0 s) s"

end
