(* ===== verification/Aret_Registry_Theorems.thy ===== *)
theory Aret_Registry_Theorems
  imports Aret_Registry
begin

text \<open>
  The registry keeps its tree well formed; what is created can be opened, what is set can be
  queried, deleting a key removes exactly its subtree, and enumeration lists every entry once in
  Wine's order. Three theorems record where the code misses its own contract.
\<close>

section \<open>Creating and opening keys\<close>

lemma reg_child_Some:
  "u32_reg_child R c n = Some i \<Longrightarrow> U32_REG_ROOTS \<le> i \<and> i < U32_MAX_REGKEY \<and> rk_used (R ! i)
     \<and> rk_parent (R ! i) = int c \<and> strcaseeq (rk_name (R ! i)) n"
  by (simp add: u32_reg_child_def first_idx_Some_iff)

lemma strcaseeq_cong: "strcaseeq n n' \<Longrightarrow> strcaseeq x n = strcaseeq x n'"
  by (simp add: strcaseeq_def)

lemma reg_child_cong: "strcaseeq n n' \<Longrightarrow> u32_reg_child R c n = u32_reg_child R c n'"
  by (simp add: u32_reg_child_def strcaseeq_cong)

lemma reg_new_Some:
  assumes "u32_reg_new R c n = Some (j, R')"
  shows "U32_REG_ROOTS \<le> j \<and> j < U32_MAX_REGKEY \<and> \<not> rk_used (R ! j)
    \<and> R' = R[j := regkey_zero\<lparr>rk_used := True, rk_parent := int c, rk_root := 0, rk_name := take (U32_REGNAME - 1) n\<rparr>]"
  using assms by (auto simp: u32_reg_new_def first_idx_Some_iff split: option.splits)

lemma reg_child_new:
  assumes new: "u32_reg_new R c n = Some (j, R')" and none: "u32_reg_child R c n = None"
    and len: "length R = U32_MAX_REGKEY" "length n \<le> U32_REGNAME - 1"
  shows "u32_reg_child R' c' n' = (if c' = c \<and> strcaseeq n n' then Some j else u32_reg_child R c' n')"
proof -
  note j = reg_new_Some [OF new]
  let ?P = "\<lambda>R i. rk_used (R ! i) \<and> rk_parent (R ! i) = int c' \<and> strcaseeq (rk_name (R ! i)) n'"
  have P: "?P R' i = (if i = j then c' = c \<and> strcaseeq n n' else ?P R i)" if "i < U32_MAX_REGKEY" for i
    using j len that by (auto simp: regkey_zero_def)
  show ?thesis
  proof (cases "c' = c \<and> strcaseeq n n'")
    case True
    have "\<not> ?P R i" if "U32_REG_ROOTS \<le> i" "i < U32_MAX_REGKEY" for i
      using none that True strcaseeq_cong [of n n' "rk_name (R ! i)"]
      by (auto simp: u32_reg_child_def first_idx_None_iff)
    then have "u32_reg_child R' c' n' = Some j"
      unfolding u32_reg_child_def using P j True by (intro first_idx_unique) (auto split: if_splits)
    with True show ?thesis by simp
  next
    case False
    have "?P R' i = ?P R i" if "i < U32_MAX_REGKEY" for i using P [OF that] j False by auto
    then have "u32_reg_child R' c' n' = u32_reg_child R c' n'"
      unfolding u32_reg_child_def by (intro first_idx_cong) simp
    with False show ?thesis by auto
  qed
qed

lemma length_reg_comp: "length (reg_comp p) \<le> U32_REGNAME - 1"
  by (simp add: reg_comp_def)

lemma reg_new_length: "u32_reg_new R c n = Some (j, R') \<Longrightarrow> length R' = length R"
  using reg_new_Some by fastforce

text \<open>A walk that creates keys never hides a key that was there.\<close>

lemma walk_keeps:
  "length R = U32_MAX_REGKEY \<Longrightarrow> reg_walk_loop create p cur l R = (r, R') \<Longrightarrow>
   length R' = U32_MAX_REGKEY \<and> (u32_reg_child R c n = Some i \<longrightarrow> u32_reg_child R' c n = Some i)
   \<and> (rk_used (R ! h) \<longrightarrow> rk_used (R' ! h)) \<and> (\<forall>i < U32_REG_ROOTS. R' ! i = R ! i)"
proof (induction create p cur l R arbitrary: r R' rule: reg_walk_loop.induct)
  case (1 create p cur l R)
  note eq = "1.prems"(2) [unfolded reg_walk_loop.simps [of create p cur l R]]
  consider "p = []" | "p \<noteq> []" "reg_comp p = []" | nxt where "p \<noteq> []" "reg_comp p \<noteq> []" "u32_reg_child R cur (reg_comp p) = Some nxt"
    | "p \<noteq> []" "reg_comp p \<noteq> []" "u32_reg_child R cur (reg_comp p) = None" by (cases "u32_reg_child R cur (reg_comp p)") auto
  then show ?case
  proof cases
    case 4
    show ?thesis
    proof (cases "create \<and> u32_reg_new R cur (reg_comp p) \<noteq> None")
      case True
      then obtain nxt R1 where n: "u32_reg_new R cur (reg_comp p) = Some (nxt, R1)" and cr: create by auto
      note j = reg_new_Some [OF n]
      have len: "length R1 = U32_MAX_REGKEY" using reg_new_length [OF n] "1.prems"(1) by simp
      have w: "reg_walk_loop create (reg_rest p) nxt True R1 = (r, R')" using eq 4 n cr by simp
      have c1: "u32_reg_child R1 c n = Some i" if "u32_reg_child R c n = Some i" for c n i
        using reg_child_new [OF n 4(3) "1.prems"(1) length_reg_comp, of c n] that 4(3)
          reg_child_cong [of "reg_comp p" n R c] by (auto split: if_splits)
      have u1: "rk_used (R ! h) \<longrightarrow> rk_used (R1 ! h)"
        using j "1.prems"(1) by (cases "h = nxt") auto
      have rt: "\<forall>i < U32_REG_ROOTS. R1 ! i = R ! i" using j by auto
      have nc: "\<not> \<not> create" using cr by simp
      show ?thesis
        using "1.IH"(2) [OF 4(1,2,3) nc n refl len w] c1 u1 rt by auto
    next
      case False
      then have "R' = R" using eq 4 by (auto split: option.splits if_splits)
      then show ?thesis using "1.prems"(1) by simp
    qed
  next
    case 1
    then show ?thesis using eq "1.prems"(1) by simp
  next
    case 2
    then have "reg_walk_loop create (reg_rest p) cur l R = (r, R')" using eq by simp
    from "1.IH"(1) [OF 2 "1.prems"(1) this] show ?thesis .
  next
    case (3 nxt)
    then have "reg_walk_loop create (reg_rest p) nxt False R = (r, R')" using eq by simp
    from "1.IH"(3) [OF 3 "1.prems"(1) this] show ?thesis .
  qed
qed

lemma walk_open_same: "snd (reg_walk_loop False p cur l R) = R"
proof (induction "False" p cur l R rule: reg_walk_loop.induct)
  case (1 p cur l R)
  then show ?case
    by (subst reg_walk_loop.simps) (auto split: option.splits)
qed

lemma walk_create_then_open:
  "length R = U32_MAX_REGKEY \<Longrightarrow> reg_walk_loop True p cur l R = (Some (k, b), R') \<Longrightarrow>
   map_option fst (fst (reg_walk_loop False p cur l' R')) = Some k"
proof (induction True p cur l R arbitrary: l' rule: reg_walk_loop.induct)
  case (1 p cur l R)
  note eq = "1.prems"(2) [unfolded reg_walk_loop.simps [of True p cur l R]]
  consider "p = []" | "p \<noteq> []" "reg_comp p = []" | nxt where "p \<noteq> []" "reg_comp p \<noteq> []" "u32_reg_child R cur (reg_comp p) = Some nxt"
    | nxt R1 where "p \<noteq> []" "reg_comp p \<noteq> []" "u32_reg_child R cur (reg_comp p) = None" "u32_reg_new R cur (reg_comp p) = Some (nxt, R1)"
    using eq by (cases "u32_reg_child R cur (reg_comp p)") (auto split: option.splits if_splits)
  then show ?case
  proof cases
    case 1
    then show ?thesis using eq by (simp add: reg_walk_loop.simps)
  next
    case 2
    then have w: "reg_walk_loop True (reg_rest p) cur l R = (Some (k, b), R')" using eq by simp
    show ?thesis using "1.hyps"(1) [OF 2 "1.prems"(1) w, of l'] 2 by (subst reg_walk_loop.simps) simp
  next
    case (3 nxt)
    then have w: "reg_walk_loop True (reg_rest p) nxt False R = (Some (k, b), R')" using eq by simp
    have "u32_reg_child R' cur (reg_comp p) = Some nxt"
      using walk_keeps [OF "1.prems"(1) w] 3(3) by blast
    then show ?thesis using "1.hyps"(3) [OF 3 "1.prems"(1) w, of False] 3
      by (subst reg_walk_loop.simps) simp
  next
    case (4 nxt R1)
    then have w: "reg_walk_loop True (reg_rest p) nxt True R1 = (Some (k, b), R')" using eq by simp
    have len: "length R1 = U32_MAX_REGKEY" using reg_new_length [OF 4(4)] "1.prems"(1) by simp
    have "u32_reg_child R1 cur (reg_comp p) = Some nxt"
      using reg_child_new [OF 4(4,3) "1.prems"(1) length_reg_comp] by simp
    then have "u32_reg_child R' cur (reg_comp p) = Some nxt" using walk_keeps [OF len w] by blast
    then show ?thesis using "1.hyps"(2) [OF 4(1,2,3) _ 4(4) refl len w, of False] 4
      by (subst reg_walk_loop.simps) simp
  qed
qed

lemma reg_idx_keeps:
  assumes "u32_reg_idx R h = Some k" "\<forall>i < U32_REG_ROOTS. R' ! i = R ! i"
    "\<And>i. rk_used (R ! i) \<Longrightarrow> rk_used (R' ! i)"
  shows "u32_reg_idx R' h = Some k"
proof -
  have "first_idx (\<lambda>i. rk_root (R' ! i) = h) 0 U32_REG_ROOTS = first_idx (\<lambda>i. rk_root (R ! i) = h) 0 U32_REG_ROOTS"
    by (rule first_idx_cong) (use assms(2) in simp)
  then show ?thesis using assms(1,3)
    by (auto simp: u32_reg_idx_def Let_def split: option.splits if_splits)
qed

text \<open>
  A key that \<^verbatim>\<open>RegCreateKey\<close> has created (or found) along a path is the key that opening
  the same path from the same handle finds afterwards: the handle the two return is the same.
\<close>

theorem registry_create_then_open:
  assumes "length (g_reg s) = U32_MAX_REGKEY" "u32_reg_create hk path phk pdisp s = (0, s')" "g_reg t = g_reg s'"
  shows "\<exists>k. u32_reg_create hk path phk pdisp s = (0, put32 pdisp (if snd k then 1 else 2)
        (put32 phk (u32_reg_hkey (g_reg t) (fst k)) (s\<lparr>g_reg := g_reg t\<rparr>)))
     \<and> u32_reg_open hk path p t = (0, put32 p (u32_reg_hkey (g_reg t) (fst k)) t)"
proof -
  obtain k b R where w: "u32_reg_walk (g_reg s) hk path True = (Some (k, b), R)"
    and s': "s' = put32 pdisp (if b then 1 else 2) (put32 phk (u32_reg_hkey R k) (s\<lparr>g_reg := R\<rparr>))"
    using assms(2) by (auto simp: u32_reg_create_def split: prod.splits option.splits)
  then have R: "g_reg t = R" using assms(3) by (simp add: put32_def)
  obtain cur where cur: "u32_reg_idx (g_reg s) hk = Some cur"
    and l: "reg_walk_loop True path cur False (g_reg s) = (Some (k, b), R)"
    using w by (auto simp: u32_reg_walk_def split: option.splits)
  note keep = walk_keeps [OF assms(1) l]
  have "u32_reg_idx R hk = Some cur" using reg_idx_keeps [OF cur] keep by blast
  moreover have "map_option fst (fst (reg_walk_loop False path cur False R)) = Some k"
    by (rule walk_create_then_open [OF assms(1) l])
  ultimately have "u32_reg_open hk path p t = (0, put32 p (u32_reg_hkey R k) t)"
    using R by (auto simp: u32_reg_open_def u32_reg_walk_def)
  with w R show ?thesis by (intro exI [of _ "(k, b)"]) (simp add: u32_reg_create_def)
qed

definition reg_demo :: reg where
  "reg_demo = \<lparr>mem = (\<lambda>_. 0), g_last_error = 0, g_reg = u32_reg_init\<rparr>"

lemma reg_init_nth: "i < U32_MAX_REGKEY \<Longrightarrow> u32_reg_init ! i = (if i < U32_REG_ROOTS
    then regkey_zero\<lparr>rk_used := True, rk_parent := - 1, rk_root := 0x80000000 + of_nat i\<rparr> else regkey_zero)"
  by (simp add: u32_reg_init_def)

lemma reg_init_len [simp]: "length u32_reg_init = U32_MAX_REGKEY"
  by (simp add: u32_reg_init_def)

lemma reg_demo_idx: "u32_reg_idx u32_reg_init 0x80000001 = Some 1"
  by (simp add: u32_reg_idx_def first_idx_step U32_REG_ROOTS_def reg_init_nth U32_MAX_REGKEY_def)

lemma reg_demo_child: "u32_reg_child u32_reg_init c n = None"
  by (auto simp: u32_reg_child_def first_idx_None_iff reg_init_nth regkey_zero_def)

lemma reg_demo_new: "\<exists>R. u32_reg_new u32_reg_init 1 n = Some (7, R)"
proof -
  have "\<not> rk_used (u32_reg_init ! 7)"
    by (simp add: reg_init_nth U32_MAX_REGKEY_def U32_REG_ROOTS_def regkey_zero_def)
  then have "first_idx (\<lambda>i. \<not> rk_used (u32_reg_init ! i)) U32_REG_ROOTS U32_MAX_REGKEY = Some 7"
    by (auto simp: first_idx_Some_iff U32_REG_ROOTS_def U32_MAX_REGKEY_def)
  then show ?thesis by (simp add: u32_reg_new_def)
qed

theorem registry_create_then_open_witness:
  "\<exists>s' h. u32_reg_create 0x80000001 [0x61] 0x1000 0 reg_demo = (0, s')
     \<and> u32_reg_open 0x80000001 [0x61] 0x1000 s' = (0, put32 0x1000 h s')"
proof -
  have w: "\<exists>R. u32_reg_walk u32_reg_init 0x80000001 [0x61] True = (Some (7, True), R)"
    using reg_demo_new [of "[0x61]"]
    by (auto simp: u32_reg_walk_def reg_demo_idx reg_walk_loop.simps reg_comp_def reg_rest_def is_sep_def
        U32_REGNAME_def reg_demo_child)
  then obtain s' where s': "u32_reg_create 0x80000001 [0x61] 0x1000 0 reg_demo = (0, s')"
    by (auto simp: u32_reg_create_def reg_demo_def)
  have "length (g_reg reg_demo) = U32_MAX_REGKEY" by (simp add: reg_demo_def)
  from registry_create_then_open [OF this s' refl, of "0x1000"] s' show ?thesis by blast
qed

section \<open>Setting and querying values\<close>

definition val_ok :: "u32_regval \<Rightarrow> bool" where
  "val_ok v \<longleftrightarrow> length (rv_data v) = U32_REGDATA \<and> rv_len v \<le> U32_REGDATA \<and> length (rv_name v) \<le> U32_REGNAME - 1"

definition vals_ok :: "u32_regkey list \<Rightarrow> bool" where
  "vals_ok R \<longleftrightarrow> length R = U32_MAX_REGKEY
     \<and> (\<forall>K \<in> set R. length (rk_val K) = U32_MAX_REGVAL \<and> (\<forall>v \<in> set (rk_val K). val_ok v))"

lemma ball_update: "\<forall>v \<in> set V. P v \<Longrightarrow> P x \<Longrightarrow> \<forall>v \<in> set (V[i := x]). P v"
  using set_update_subset_insert by fastforce

lemma vals_ok_upd:
  assumes "vals_ok R" "length (rk_val K) = U32_MAX_REGVAL" "\<forall>v \<in> set (rk_val K). val_ok v"
  shows "vals_ok (R[k := K])"
  using assms ball_update [of R "\<lambda>K. length (rk_val K) = U32_MAX_REGVAL \<and> (\<forall>v \<in> set (rk_val K). val_ok v)" K k]
  by (simp add: vals_ok_def)

lemma reg_idx_less:
  "u32_reg_idx R h = Some k \<Longrightarrow> k < U32_MAX_REGKEY"
  by (auto simp: u32_reg_idx_def Let_def first_idx_Some_iff U32_REG_ROOTS_def U32_MAX_REGKEY_def
      split: option.splits if_splits)

lemma reg_idx_vals:
  assumes "u32_reg_idx R h = Some k'" "length R = U32_MAX_REGKEY" "k < length R"
    "rk_root K = rk_root (R ! k)" "rk_used K = rk_used (R ! k)"
  shows "u32_reg_idx (R[k := K]) h = Some k'"
proof -
  have a: "rk_root (R[k := K] ! i) = rk_root (R ! i)" "rk_used (R[k := K] ! i) = rk_used (R ! i)" for i
    using assms(3-5) by (cases "i = k", auto)+
  show ?thesis using assms(1) unfolding u32_reg_idx_def a .
qed

lemma upd_val_overwrite:
  "k < length R \<Longrightarrow> i < length V \<Longrightarrow>
   upd_val k i g (R[k := K\<lparr>rk_val := V[i := x]\<rparr>]) = R[k := K\<lparr>rk_val := V[i := g x]\<rparr>]"
  by (simp add: upd_val_def)

lemma findval_hit:
  assumes "i < U32_MAX_REGVAL" "rv_used (V ! i)" "strcaseeq (rv_name (V ! i)) n"
    "\<And>j. j < i \<Longrightarrow> \<not> (rv_used (V ! j) \<and> strcaseeq (rv_name (V ! j)) n)"
  shows "first_idx (\<lambda>i. rv_used (V ! i) \<and> strcaseeq (rv_name (V ! i)) n) 0 U32_MAX_REGVAL = Some i"
  using assms by (simp add: first_idx_Some_iff)

lemma setval_effect:
  assumes ok: "vals_ok (g_reg s)" and n: "length name \<le> U32_REGNAME - 1"
    and set: "u32_reg_setval hk name ty data cb s = (0, s')"
  shows "\<exists>k i. u32_reg_idx (g_reg s) hk = Some k \<and> u32_reg_idx (g_reg s') hk = Some k \<and> mem s' = mem s
    \<and> (\<forall>name'. strcaseeq name name' \<longrightarrow> u32_reg_findval (g_reg s') k name' False = (Some i, g_reg s'))
    \<and> rv_type (rk_val (g_reg s' ! k) ! i) = ty \<and> rv_len (rk_val (g_reg s' ! k) ! i) = min (unat cb) U32_REGDATA
    \<and> (data \<noteq> 0 \<longrightarrow> take (min (unat cb) U32_REGDATA) (rv_data (rk_val (g_reg s' ! k) ! i))
        = ld_bytes (mem s) data (min (unat cb) U32_REGDATA))"
proof -
  let ?R = "g_reg s"
  obtain k where k: "u32_reg_idx ?R hk = Some k" using set by (auto simp: u32_reg_setval_def split: option.splits)
  have kl: "k < length ?R" using reg_idx_less [OF k] ok by (simp add: vals_ok_def)
  let ?V = "rk_val (?R ! k)"
  have vl: "length ?V = U32_MAX_REGVAL" using ok kl by (simp add: vals_ok_def)
  obtain i R1 where f: "u32_reg_findval ?R k name True = (Some i, R1)"
    using set k by (auto simp: u32_reg_setval_def split: prod.splits option.splits)
  let ?cb = "min (unat cb) U32_REGDATA"
  let ?g = "\<lambda>v. v\<lparr>rv_type := ty, rv_len := ?cb, rv_data := (if data \<noteq> 0 \<and> ?cb \<noteq> 0 then ld_bytes (mem s) data ?cb @ drop ?cb (rv_data v) else rv_data v)\<rparr>"
  have s': "s' = s\<lparr>g_reg := upd_val k i ?g R1\<rparr>" using set k f by (simp add: u32_reg_setval_def Let_def)
  let ?m = "\<lambda>V n i. rv_used (V ! i) \<and> strcaseeq (rv_name (V ! i)) n"
  have "\<exists>V1. i < U32_MAX_REGVAL \<and> ?m V1 name i \<and> (\<forall>j < i. \<not> ?m V1 name j) \<and> length V1 = U32_MAX_REGVAL
      \<and> R1 = ?R[k := (?R ! k)\<lparr>rk_val := V1\<rparr>]"
  proof -
    let ?W = "?V[i := regval_zero\<lparr>rv_used := True, rv_name := take (U32_REGNAME - 1) name\<rparr>]"
    consider "first_idx (?m ?V name) 0 U32_MAX_REGVAL = Some i" "R1 = ?R"
      | "first_idx (?m ?V name) 0 U32_MAX_REGVAL = None" "first_idx (\<lambda>i. \<not> rv_used (?V ! i)) 0 U32_MAX_REGVAL = Some i"
        "R1 = ?R[k := (?R ! k)\<lparr>rk_val := ?W\<rparr>]"
      using f by (auto simp: u32_reg_findval_def Let_def split: option.splits)
    then show ?thesis
    proof cases
      case 1
      then show ?thesis using vl by (intro exI [of _ ?V]) (auto simp: first_idx_Some_iff)
    next
      case 2
      with vl n show ?thesis by (intro exI [of _ ?W]) (auto simp: first_idx_Some_iff first_idx_None_iff)
    qed
  qed
  then obtain V1 where R1: "i < U32_MAX_REGVAL" "?m V1 name i" "\<forall>j < i. \<not> ?m V1 name j"
      "length V1 = U32_MAX_REGVAL" "R1 = ?R[k := (?R ! k)\<lparr>rk_val := V1\<rparr>]" by blast
  let ?V2 = "V1[i := ?g (V1 ! i)]"
  have R2: "g_reg s' = ?R[k := (?R ! k)\<lparr>rk_val := ?V2\<rparr>]"
    using kl by (simp add: s' upd_val_def R1(5))
  then have V2: "rk_val (g_reg s' ! k) = ?V2" using kl by simp
  show ?thesis
  proof (rule exI [of _ k], rule exI [of _ i], intro conjI allI impI)
    show "u32_reg_idx ?R hk = Some k" by (rule k)
    show "u32_reg_idx (g_reg s') hk = Some k" unfolding R2 using ok kl by (intro reg_idx_vals [OF k]) (auto simp: vals_ok_def)
    show "mem s' = mem s" by (simp add: s')
    show "rv_type (rk_val (g_reg s' ! k) ! i) = ty" "rv_len (rk_val (g_reg s' ! k) ! i) = ?cb"
      unfolding V2 using R1(1,4) by simp_all
    show "take ?cb (rv_data (rk_val (g_reg s' ! k) ! i)) = ld_bytes (mem s) data ?cb" if "data \<noteq> 0"
      unfolding V2 using R1(1,4) that by (cases "?cb = 0") simp_all
    fix name' assume "strcaseeq name name'"
    then have c: "strcaseeq x name' = strcaseeq x name" for x using strcaseeq_cong by blast
    have "first_idx (?m ?V2 name') 0 U32_MAX_REGVAL = Some i"
      using R1(1-4) c by (intro findval_hit) (auto simp: nth_list_update)
    then show "u32_reg_findval (g_reg s') k name' False = (Some i, g_reg s')"
      by (simp add: u32_reg_findval_def V2)
  qed
qed


text \<open>
  C29: Setting a value whose name has at most \<^verbatim>\<open>U32_REGNAME - 1\<close> bytes, from a data pointer that is not null,
  and then querying it, under any capitalisation of its name and with a buffer and a size pointer that
  are not null, gives back its type, its length and exactly the bytes that were set (up to the
  \<^verbatim>\<open>U32_REGDATA\<close> bytes a value can hold), when the caller's buffer is large enough; a smaller buffer
  gets the needed length and \<^verbatim>\<open>ERROR_MORE_DATA\<close>. The setting call must have succeeded, and memory may
  change in between as long as the registry does not.
\<close>

theorem registry_set_then_query:
  assumes "vals_ok (g_reg s)" "length name \<le> U32_REGNAME - 1" "data \<noteq> 0" "pc \<noteq> 0" "d \<noteq> 0"
    "u32_reg_setval hk name ty data cb s = (0, s')" "g_reg t = g_reg s'" "strcaseeq name name'"
    "n = min (unat cb) U32_REGDATA" "t1 = put32 pt ty t"
  shows "u32_reg_queryval hk name' pt d pc t =
    (if unat (ld32 (mem t1) pc) < n then (234, put32 pc (of_nat n) t1)
     else (0, put32 pc (of_nat n) (t1\<lparr>mem := st_bytes (mem t1) d (ld_bytes (mem s) data n)\<rparr>)))"
proof -
  obtain k i where e: "u32_reg_idx (g_reg s') hk = Some k"
    "\<forall>name'. strcaseeq name name' \<longrightarrow> u32_reg_findval (g_reg s') k name' False = (Some i, g_reg s')"
    "rv_type (rk_val (g_reg s' ! k) ! i) = ty" "rv_len (rk_val (g_reg s' ! k) ! i) = min (unat cb) U32_REGDATA"
    "data \<noteq> 0 \<longrightarrow> take (min (unat cb) U32_REGDATA) (rv_data (rk_val (g_reg s' ! k) ! i))
        = ld_bytes (mem s) data (min (unat cb) U32_REGDATA)"
    using setval_effect [OF assms(1,2,6)] by blast
  have f: "u32_reg_findval (g_reg s') k name' False = (Some i, g_reg s')" using e(2) assms(8) by blast
  show ?thesis
    using e(1,3-5) f assms(3-5,7,9,10)
    by (simp add: u32_reg_queryval_def Let_def)
qed

definition val_demo :: reg where
  "val_demo = \<lparr>mem = (\<lambda>a. if a = 0x2000 then 0xAB else if a = 0x4000 then 16 else 0), g_last_error = 0, g_reg = u32_reg_init\<rparr>"

lemma vals_ok_init: "vals_ok u32_reg_init"
  by (auto simp: vals_ok_def val_ok_def u32_reg_init_def regkey_zero_def regval_zero_def)

lemma val_demo_set:
  "length n \<le> 300 \<Longrightarrow> \<exists>s'. u32_reg_setval 0x80000001 n 3 0x2000 1 val_demo = (0, s')"
proof -
  have V: "rk_val (u32_reg_init ! 1) = replicate U32_MAX_REGVAL regval_zero"
    by (simp add: reg_init_nth U32_MAX_REGKEY_def regkey_zero_def)
  have n: "first_idx (\<lambda>i. rv_used (replicate U32_MAX_REGVAL regval_zero ! i) \<and> strcaseeq (rv_name (replicate U32_MAX_REGVAL regval_zero ! i)) n) 0 U32_MAX_REGVAL = None"
    by (auto simp: first_idx_None_iff regval_zero_def)
  have f: "first_idx (\<lambda>i. \<not> rv_used (replicate U32_MAX_REGVAL regval_zero ! i)) 0 U32_MAX_REGVAL = Some 0"
    by (auto simp: first_idx_Some_iff regval_zero_def U32_MAX_REGVAL_def)
  show ?thesis
    by (simp add: u32_reg_setval_def val_demo_def reg_demo_idx u32_reg_findval_def V [unfolded One_nat_def] n f Let_def)
qed

theorem registry_set_then_query_witness:
  "\<exists>s'. u32_reg_setval 0x80000001 [0x61] 3 0x2000 1 val_demo = (0, s')
     \<and> u32_reg_queryval 0x80000001 [0x41] 0 0x3000 0x4000 s' = (0, put32 0x4000 1 (s'\<lparr>mem := st_bytes (mem s') 0x3000 [0xAB]\<rparr>))"
proof -
  obtain s' where s': "u32_reg_setval 0x80000001 [0x61] 3 0x2000 1 val_demo = (0, s')"
    using val_demo_set [of "[0x61]"] by auto
  have v: "vals_ok (g_reg val_demo)" using vals_ok_init by (simp add: val_demo_def)
  have m: "mem s' = mem val_demo" using setval_effect [OF v _ s'] by (auto simp: U32_REGNAME_def)
  have c: "ld32 (mem s') 0x4000 = 16" by (simp add: m ld32_def val_demo_def)
  have sc: "strcaseeq [0x61] [0x41 :: u8]" by (simp add: strcaseeq_def ascii_lower_def)
  have e: "ld_bytes (mem val_demo) 0x2000 1 = [0xAB]" by (simp add: val_demo_def)
  have "u32_reg_queryval 0x80000001 [0x41] 0 0x3000 0x4000 s'
      = (0, put32 0x4000 (of_nat 1) (s'\<lparr>mem := st_bytes (mem s') 0x3000 (ld_bytes (mem val_demo) 0x2000 1)\<rparr>))"
    using registry_set_then_query [OF v _ _ _ _ s' refl sc refl refl, where pc = "0x4000" and d = "0x3000" and pt = 0] c
    by (simp add: U32_REGNAME_def U32_REGDATA_def put32_def [of 0])
  with s' e show ?thesis by auto
qed

lemma long_name_set:
  assumes ok: "vals_ok (g_reg s)" and n: "U32_REGNAME - 1 < length name"
    and set: "u32_reg_setval hk name ty data cb s = (0, s')" and k: "u32_reg_idx (g_reg s) hk = Some k"
  shows "vals_ok (g_reg s')" "u32_reg_idx (g_reg s') hk = Some k" "fst (u32_reg_findval (g_reg s') k name False) = None"
    "\<exists>i. i \<notin> set (live_vals (g_reg s) k) \<and> set (live_vals (g_reg s') k) = insert i (set (live_vals (g_reg s) k))"
proof -
  let ?R = "g_reg s"
  have kl: "k < length ?R" using reg_idx_less [OF k] ok by (simp add: vals_ok_def)
  let ?V = "rk_val (?R ! k)"
  have vl: "length ?V = U32_MAX_REGVAL" and vok: "\<forall>v \<in> set ?V. val_ok v"
    using ok kl by (auto simp: vals_ok_def)
  have diff: "\<not> strcaseeq x name" if "length x \<le> U32_REGNAME - 1" for x
  proof
    assume "strcaseeq x name"
    then have "length x = length name" by (metis strcaseeq_def length_map)
    with that n show False by simp
  qed
  have none: "first_idx (\<lambda>i. rv_used (?V ! i) \<and> strcaseeq (rv_name (?V ! i)) name) 0 U32_MAX_REGVAL = None"
    using diff vok vl by (auto simp: first_idx_None_iff val_ok_def)
  then obtain i where i: "first_idx (\<lambda>i. \<not> rv_used (?V ! i)) 0 U32_MAX_REGVAL = Some i"
    using set k by (auto simp: u32_reg_setval_def u32_reg_findval_def Let_def split: option.splits)
  have il: "i < length ?V" "\<not> rv_used (?V ! i)" using i vl by (simp_all add: first_idx_Some_iff)
  let ?v = "regval_zero\<lparr>rv_used := True, rv_name := take (U32_REGNAME - 1) name\<rparr>"
  let ?cb = "min (unat cb) U32_REGDATA"
  let ?g = "\<lambda>v. v\<lparr>rv_type := ty, rv_len := ?cb, rv_data := (if data \<noteq> 0 \<and> ?cb \<noteq> 0 then ld_bytes (mem s) data ?cb @ drop ?cb (rv_data v) else rv_data v)\<rparr>"
  define v where "v = ?g ?v"
  have v: "rv_used v" "val_ok v" by (simp_all add: v_def val_ok_def regval_zero_def)
  have "g_reg s' = upd_val k i ?g (?R[k := (?R ! k)\<lparr>rk_val := ?V[i := ?v]\<rparr>])"
    using set k none i by (auto simp: u32_reg_setval_def u32_reg_findval_def Let_def)
  then have s': "g_reg s' = ?R[k := (?R ! k)\<lparr>rk_val := ?V[i := v]\<rparr>]"
    by (simp only: upd_val_overwrite [OF kl il(1)] v_def)
  show ok': "vals_ok (g_reg s')"
    unfolding s' by (rule vals_ok_upd [OF ok]) (simp_all add: vl ball_update [OF vok v(2)])
  show "u32_reg_idx (g_reg s') hk = Some k"
    unfolding s' using ok kl by (intro reg_idx_vals [OF k]) (auto simp: vals_ok_def)
  have "\<not> strcaseeq (rv_name (?V[i := v] ! j)) name" if "j < U32_MAX_REGVAL" for j
    using ball_update [OF vok v(2), of i] that vl by (intro diff) (simp add: val_ok_def)
  then show "fst (u32_reg_findval (g_reg s') k name False) = None"
    using kl by (auto simp: u32_reg_findval_def s' first_idx_None_iff Let_def split: option.splits)
  have "set (live_vals (g_reg s') k) = insert i (set (live_vals ?R k))"
    using il vl kl v(1) unfolding s' live_vals_def by (auto simp: nth_list_update)
  moreover have "i \<notin> set (live_vals ?R k)" using il by (simp add: live_vals_def)
  ultimately show "\<exists>i. i \<notin> set (live_vals ?R k) \<and> set (live_vals (g_reg s') k) = insert i (set (live_vals ?R k))" by blast
qed

lemma live_vals_distinct: "distinct (live_vals R k)"
  by (simp add: live_vals_def)

lemma long_name_count:
  assumes "vals_ok (g_reg s)" "U32_REGNAME - 1 < length name" "u32_reg_setval hk name ty data cb s = (0, s')"
    "u32_reg_idx (g_reg s) hk = Some k"
  shows "length (live_vals (g_reg s') k) = length (live_vals (g_reg s) k) + 1"
  using long_name_set(4) [OF assms] by (auto simp flip: distinct_card [OF live_vals_distinct])

text \<open>
  C39: A value name longer than the \<^verbatim>\<open>U32_REGNAME - 1\<close> bytes a slot stores is accepted by \<^verbatim>\<open>u32_reg_setval\<close> (behind the
  narrow and the Nt setters) but never found again: querying the very name that was set reports
  \<^verbatim>\<open>ERROR_FILE_NOT_FOUND\<close>, and setting it again takes another slot, which was free before: the value slots in use
  are one more after the first call, and two more after the second.
\<close>

theorem registry_long_value_name_lost:
  assumes "vals_ok (g_reg s)" "U32_REGNAME - 1 < length name" "u32_reg_idx (g_reg s) hk = Some k"
    "u32_reg_setval hk name ty data cb s = (0, s')" "g_reg t = g_reg s'"
  shows "u32_reg_queryval hk name pt d pc t = (2, t)
    \<and> length (live_vals (g_reg s') k) = length (live_vals (g_reg s) k) + 1
    \<and> (u32_reg_setval hk name ty' data' cb' t = (0, t') \<longrightarrow> length (live_vals (g_reg t') k) = length (live_vals (g_reg s) k) + 2)"
proof -
  note L = long_name_set [OF assms(1,2,4,3)] and C = long_name_count [OF assms(1,2,4,3)]
  have "length (live_vals (g_reg t') k) = length (live_vals (g_reg s) k) + 2"
    if "u32_reg_setval hk name ty' data' cb' t = (0, t')"
    using long_name_count [of t name hk ty' data' cb' t' k] L(1,2) that assms(2,5) C by simp
  moreover have "u32_reg_queryval hk name pt d pc t = (2, t)"
    using L(2,3) assms(5) by (simp add: u32_reg_queryval_def)
  ultimately show ?thesis using C by blast
qed

theorem registry_long_value_name_lost_witness:
  "\<exists>s'. u32_reg_setval 0x80000001 (replicate 80 0x61) 3 0x2000 1 val_demo = (0, s')
     \<and> u32_reg_queryval 0x80000001 (replicate 80 0x61) 0 0x3000 0x4000 s' = (2, s')
     \<and> length (live_vals (g_reg s') 1) = length (live_vals (g_reg val_demo) 1) + 1"
proof -
  obtain s' where s': "u32_reg_setval 0x80000001 (replicate 80 0x61) 3 0x2000 1 val_demo = (0, s')"
    using val_demo_set [of "replicate 80 0x61"] by auto
  have v: "vals_ok (g_reg val_demo)" using vals_ok_init by (simp add: val_demo_def)
  have k: "u32_reg_idx (g_reg val_demo) 0x80000001 = Some 1" using reg_demo_idx by (simp add: val_demo_def)
  show ?thesis using registry_long_value_name_lost [OF v _ k s' refl] s' by (simp add: U32_REGNAME_def)
qed

section \<open>Enumeration\<close>

text \<open>
  The end of an enumeration is reported wrongly: past the last subkey \<^verbatim>\<open>RegEnumKeyEx\<close> and
  \<^verbatim>\<open>RegEnumKey\<close> return 3, the low byte of \<^verbatim>\<open>ERROR_NO_MORE_ITEMS\<close> (259), because the packed
  result of \<^verbatim>\<open>u32_reg_enumkey\<close> keeps only one byte for the status.
\<close>

theorem reg_enum_key_end_status:
  assumes "u32_reg_idx (g_reg s) (WU esp 0 s) = Some k" "length (live_subs (g_reg s) k) \<le> unat (WU esp 1 s)"
  shows "aret_RegEnumKeyExA esp s = (3, s) \<and> aret_RegEnumKeyA esp s = (3, s)
    \<and> u32_reg_enumkey (WU esp 0 s) (WU esp 1 s) (WU esp 2 s) cap s = (259, s)"
proof -
  have "u32_reg_enumkey (WU esp 0 s) (WU esp 1 s) (WU esp 2 s) cap s = (259, s)" for cap
    using assms by (simp add: u32_reg_enumkey_def nth_opt_def)
  then show ?thesis by (simp add: aret_RegEnumKeyExA_def aret_RegEnumKeyA_def Let_def)
qed

definition enum_demo :: reg where
  "enum_demo = \<lparr>mem = st32 (\<lambda>_. 0) 0x1000 0x80000001, g_last_error = 0, g_reg = u32_reg_init\<rparr>"

theorem reg_enum_key_end_status_witness: "aret_RegEnumKeyExA 0x1000 enum_demo = (3, enum_demo)"
proof -
  have "WU 0x1000 0 enum_demo = 0x80000001" by (simp add: WU_def enum_demo_def)
  then have i: "u32_reg_idx (g_reg enum_demo) (WU 0x1000 0 enum_demo) = Some 1"
    using reg_demo_idx by (simp add: enum_demo_def)
  have "live_subs (g_reg enum_demo) 1 = []"
    by (auto simp: live_subs_def enum_demo_def reg_init_nth regkey_zero_def filter_empty_conv)
  then show ?thesis using reg_enum_key_end_status [OF i] by simp
qed


subsection \<open>The order of an enumeration\<close>

text \<open>A comparison that says which of two entries comes later.\<close>

locale later_order =
  fixes gt :: "'a \<Rightarrow> 'a \<Rightarrow> bool"
  assumes gt_asym: "gt x y \<Longrightarrow> \<not> gt y x"
    and gt_cotrans: "\<not> gt x y \<Longrightarrow> \<not> gt y z \<Longrightarrow> \<not> gt x z"
begin

lemma mset_ins_down: "mset (ins_down gt t xs) = add_mset t (mset xs)"
  by (induction xs) auto

lemma set_ins_down: "set (ins_down gt t xs) = insert t (set xs)"
  by (induction xs) auto

lemma sorted_ins_down:
  "sorted_wrt (\<lambda>a b. \<not> gt b a) xs \<Longrightarrow> sorted_wrt (\<lambda>a b. \<not> gt b a) (ins_down gt t xs)"
proof (induction xs)
  case (Cons x xs)
  show ?case
  proof (cases "gt x t")
    case True
    then show ?thesis using Cons gt_asym [OF True] by (auto simp: set_ins_down)
  next
    case False
    then show ?thesis using Cons.prems gt_cotrans by auto
  qed
qed simp

lemma ins_sort_perm: "mset (ins_sort gt xs) = mset xs"
proof -
  have "mset (fold (ins_down gt) xs acc) = mset xs + mset acc" for acc
    by (induction xs arbitrary: acc) (auto simp: mset_ins_down)
  then show ?thesis by (simp add: ins_sort_def)
qed

lemma ins_sort_sorted: "sorted_wrt (\<lambda>a b. \<not> gt a b) (ins_sort gt xs)"
proof -
  have "sorted_wrt (\<lambda>a b. \<not> gt b a) acc \<Longrightarrow> sorted_wrt (\<lambda>a b. \<not> gt b a) (fold (ins_down gt) xs acc)" for acc
    by (induction xs arbitrary: acc) (auto simp: sorted_ins_down)
  then show ?thesis by (simp add: ins_sort_def sorted_wrt_rev)
qed

end

lemma ncmp_asym: "u32_reg_ncmp a b > 0 \<Longrightarrow> \<not> u32_reg_ncmp b a > 0"
proof (induction a b rule: u32_reg_ncmp.induct)
  case (1 a b)
  let ?ca = "ascii_upper (chd a)" and ?cb = "ascii_upper (chd b)"
  show ?case
  proof (cases "?ca = ?cb \<and> ?ca \<noteq> 0")
    case True
    then have "u32_reg_ncmp a b = u32_reg_ncmp (tl a) (tl b)" "u32_reg_ncmp b a = u32_reg_ncmp (tl b) (tl a)"
      by (auto simp: u32_reg_ncmp.simps [of a b] u32_reg_ncmp.simps [of b a])
    then show ?thesis using 1 True by auto
  next
    case False
    then show ?thesis using "1.prems"
      by (auto simp: u32_reg_ncmp.simps [of a b] u32_reg_ncmp.simps [of b a] Let_def split: if_splits)
  qed
qed

lemma ncmp_cotrans: "u32_reg_ncmp a b \<le> 0 \<Longrightarrow> u32_reg_ncmp b c \<le> 0 \<Longrightarrow> u32_reg_ncmp a c \<le> 0"
proof (induction a b arbitrary: c rule: u32_reg_ncmp.induct)
  case (1 a b)
  let ?ca = "ascii_upper (chd a)" and ?cb = "ascii_upper (chd b)" and ?cc = "ascii_upper (chd c)"
  note u = u32_reg_ncmp.simps [of a b] u32_reg_ncmp.simps [of b c] u32_reg_ncmp.simps [of a c]
  have le: "uint ?ca \<le> uint ?cb" "uint ?cb \<le> uint ?cc"
    using "1.prems" by (auto simp: u Let_def split: if_splits)
  show ?case
  proof (cases "?ca = ?cc")
    case False
    then have "uint ?ca < uint ?cc" using le by (metis order.trans order_le_less word_uint_eq_iff)
    then show ?thesis using False by (simp add: u Let_def)
  next
    case True
    then have eq: "?ca = ?cb" "?cb = ?cc" using le by (metis order_antisym word_uint_eq_iff)+
    show ?thesis
    proof (cases "?ca = 0")
      case True
      then show ?thesis using eq by (simp add: u(3))
    next
      case False
      have "u32_reg_ncmp (tl a) (tl b) \<le> 0" "u32_reg_ncmp (tl b) (tl c) \<le> 0"
        using "1.prems" eq False by (auto simp: u Let_def)
      then have "u32_reg_ncmp (tl a) (tl c) \<le> 0" using "1.IH" [OF refl refl] eq False by auto
      then show ?thesis using eq False by (simp add: u(3) Let_def)
    qed
  qed
qed

interpretation by_key: later_order "\<lambda>a b. u32_reg_ncmp (rk_name (R ! a)) (rk_name (R ! b)) > 0" for R
  by unfold_locales (use ncmp_asym ncmp_cotrans in \<open>auto simp: not_less\<close>)

interpretation by_val: later_order "\<lambda>a b. u32_reg_ncmp (rv_name (V ! a)) (rv_name (V ! b)) > 0" for V
  by unfold_locales (use ncmp_asym ncmp_cotrans in \<open>auto simp: not_less\<close>)

text \<open>
  C30: \<^verbatim>\<open>NtEnumerateKey\<close> and \<^verbatim>\<open>NtEnumerateValueKey\<close> visit every live subkey, and every live
  value, of a key exactly once, in an order in which no name compares greater than a later one;
  past the last one the lookup fails.
\<close>

theorem nt_enumeration_sorted_complete:
  "(\<exists>xs. (\<forall>n. u32_reg_nth_subkey R k n = (if n < length xs then Some (xs ! n) else None))
      \<and> mset xs = mset (live_subs R k)
      \<and> sorted_wrt (\<lambda>a b. u32_reg_ncmp (rk_name (R ! a)) (rk_name (R ! b)) \<le> 0) xs)
   \<and> (\<exists>ys. (\<forall>n. u32_reg_nth_value R k n = (if n < length ys then Some (ys ! n) else None))
      \<and> mset ys = mset (live_vals R k)
      \<and> sorted_wrt (\<lambda>a b. u32_reg_ncmp (rv_name (rk_val (R ! k) ! a)) (rv_name (rk_val (R ! k) ! b)) \<le> 0) ys)"
proof -
  let ?g = "\<lambda>a b. u32_reg_ncmp (rk_name (R ! a)) (rk_name (R ! b)) > 0"
  let ?V = "rk_val (R ! k)"
  let ?h = "\<lambda>a b. u32_reg_ncmp (rv_name (?V ! a)) (rv_name (?V ! b)) > 0"
  have "sorted_wrt (\<lambda>a b. u32_reg_ncmp (rk_name (R ! a)) (rk_name (R ! b)) \<le> 0) (ins_sort ?g (live_subs R k))"
    using by_key.ins_sort_sorted [of R "live_subs R k"] by (simp add: not_less)
  moreover have "sorted_wrt (\<lambda>a b. u32_reg_ncmp (rv_name (?V ! a)) (rv_name (?V ! b)) \<le> 0) (ins_sort ?h (live_vals R k))"
    using by_val.ins_sort_sorted [of ?V "live_vals R k"] by (simp add: not_less)
  ultimately show ?thesis
    by (intro conjI, intro exI [of _ "ins_sort ?g (live_subs R k)"],
        simp add: u32_reg_nth_subkey_def nth_opt_def by_key.ins_sort_perm,
        intro exI [of _ "ins_sort ?h (live_vals R k)"],
        simp add: u32_reg_nth_value_def nth_opt_def by_val.ins_sort_perm Let_def)
qed


section \<open>Deleting a subtree\<close>

text \<open>\<open>rooted R n i\<close>: key \<open>i\<close> hangs below a root at depth \<open>n\<close>.\<close>

inductive rooted :: "u32_regkey list \<Rightarrow> nat \<Rightarrow> nat \<Rightarrow> bool" for R where
  root: "i < U32_REG_ROOTS \<Longrightarrow> rooted R 0 i"
| below: "U32_REG_ROOTS \<le> i \<Longrightarrow> i < U32_MAX_REGKEY \<Longrightarrow> rk_used (R ! i) \<Longrightarrow> rk_parent (R ! i) = int p \<Longrightarrow>
    rooted R n p \<Longrightarrow> rooted R (Suc n) i"

inductive_cases rooted_SucE: "rooted R (Suc n) i"

text \<open>\<open>desc R k i\<close>: key \<open>i\<close> is \<open>k\<close> or lies below it.\<close>

inductive desc :: "u32_regkey list \<Rightarrow> nat \<Rightarrow> nat \<Rightarrow> bool" for R k where
  self: "desc R k k"
| below: "desc R k p \<Longrightarrow> U32_REG_ROOTS \<le> i \<Longrightarrow> i < U32_MAX_REGKEY \<Longrightarrow> rk_used (R ! i) \<Longrightarrow>
    rk_parent (R ! i) = int p \<Longrightarrow> desc R k i"

definition unmark :: "nat set \<Rightarrow> u32_regkey list \<Rightarrow> u32_regkey list" where
  "unmark D R = map (\<lambda>i. if i \<in> D then (R ! i)\<lparr>rk_used := False\<rparr> else R ! i) [0..<length R]"

lemma unmark_simps [simp]:
  "length (unmark D R) = length R"
  "i < length R \<Longrightarrow> unmark D R ! i = (if i \<in> D then (R ! i)\<lparr>rk_used := False\<rparr> else R ! i)"
  by (simp_all add: unmark_def)

lemma unmark_unmark: "unmark A (unmark B R) = unmark (A \<union> B) R"
  by (rule nth_equalityI) (auto simp: nth_append)

lemma unmark_empty: "unmark {} R = R"
  by (rule nth_equalityI) auto

lemma rooted_unique: "rooted R n i \<Longrightarrow> rooted R m i \<Longrightarrow> n = m"
proof (induction n i arbitrary: m rule: rooted.induct)
  case (root i)
  then show ?case by (auto elim: rooted.cases)
next
  case (below i p n)
  from below.prems show ?case
  proof cases
    case root
    then show ?thesis using below.hyps(1) by simp
  next
    case (below q m')
    then show ?thesis using "below.IH" below.hyps(4) by auto
  qed
qed

lemma rooted_depth:
  assumes "rooted R n i" shows "n \<le> U32_MAX_REGKEY - U32_REG_ROOTS"
proof -
  let ?S = "\<lambda>n. {j. U32_REG_ROOTS \<le> j \<and> j < U32_MAX_REGKEY \<and> (\<exists>m \<le> n. 0 < m \<and> rooted R m j)}"
  have fin: "finite (?S n)" for n by simp
  have "n \<le> card (?S n)" using assms
  proof (induction n i rule: rooted.induct)
    case (below i p n)
    have i: "rooted R (Suc n) i" using below.hyps by (auto intro: rooted.below)
    have ni: "i \<notin> ?S n" using rooted_unique [OF i] by fastforce
    have sub: "insert i (?S n) \<subseteq> ?S (Suc n)" using below.hyps i by auto (meson le_SucI)
    have "Suc (card (?S n)) = card (insert i (?S n))" by (rule card_insert_disjoint [OF fin ni, symmetric])
    also have "\<dots> \<le> card (?S (Suc n))" by (rule card_mono [OF fin sub])
    finally have "card (?S n) < card (?S (Suc n))" by simp
    with below.IH show ?case by linarith
  qed simp
  also have "card (?S n) \<le> card {U32_REG_ROOTS..<U32_MAX_REGKEY}" by (rule card_mono) auto
  finally show ?thesis by simp
qed

lemma desc_trans: "desc R a b \<Longrightarrow> desc R b c \<Longrightarrow> desc R a c"
  by (rotate_tac 1, induction rule: desc.induct) (auto intro: desc.below)

lemma desc_rooted: "desc R k i \<Longrightarrow> rooted R d k \<Longrightarrow> \<exists>m \<ge> d. rooted R m i"
  by (induction rule: desc.induct) (auto intro: rooted.below le_SucI)

text \<open>A key has one ancestor at each depth.\<close>

lemma desc_same_depth:
  assumes "desc R a i" "desc R b i" "rooted R d a" "rooted R d b" shows "a = b"
  using assms
proof (induction arbitrary: b rule: desc.induct)
  case self
  from self.prems(1) show ?case
  proof cases
    case (below p)
    then obtain m where m: "m \<ge> d" "rooted R m p" using desc_rooted self.prems(3) by blast
    then have "rooted R (Suc m) a" using below by (auto intro: rooted.below)
    then have "Suc m = d" using rooted_unique self.prems(2) by blast
    with m show ?thesis by simp
  qed simp
next
  case (below p i)
  from below.prems(1) show ?case
  proof cases
    case self
    obtain m where m: "m \<ge> d" "rooted R m p" using desc_rooted below.hyps(1) below.prems(2) by blast
    then have "rooted R (Suc m) i" using below.hyps by (auto intro: rooted.below)
    then have "Suc m = d" using rooted_unique below.prems(3) self by blast
    with m show ?thesis by simp
  next
    case (below q)
    then have "q = p" using "below.hyps"(5) by simp
    with below show ?thesis using "below.IH" "below.prems" by blast
  qed
qed

lemma rooted_unmark:
  "rooted R n i \<Longrightarrow> length R = U32_MAX_REGKEY \<Longrightarrow> (\<And>a. desc R a i \<Longrightarrow> U32_REG_ROOTS \<le> a \<Longrightarrow> a \<notin> D) \<Longrightarrow> rooted (unmark D R) n i"
proof (induction rule: rooted.induct)
  case (below i p n)
  have "i \<notin> D" using below.prems(2) below.hyps(1) desc.self by blast
  moreover have "rooted (unmark D R) n p"
    using below.IH below.prems below.hyps by (blast intro: desc.below)
  ultimately show ?case using below by (intro rooted.below) auto
qed (rule rooted.root)

lemma desc_unmark:
  assumes "length R = U32_MAX_REGKEY" "\<And>j. desc R i j \<Longrightarrow> j \<notin> D"
  shows "desc (unmark D R) i j = desc R i j"
proof
  show "desc (unmark D R) i j \<Longrightarrow> desc R i j"
    by (induction rule: desc.induct) (use assms(1) in \<open>auto intro: desc.self desc.below split: if_splits\<close>)
  show "desc R i j \<Longrightarrow> desc (unmark D R) i j"
  proof (induction rule: desc.induct)
    case (below p j)
    then have "j \<notin> D" using assms(2) desc.below by blast
    then show ?case using below assms(1) by (intro desc.below [OF below.IH]) auto
  qed (rule desc.self)
qed

definition is_sub :: "u32_regkey list \<Rightarrow> nat \<Rightarrow> nat \<Rightarrow> bool" where
  "is_sub R k i \<longleftrightarrow> U32_REG_ROOTS \<le> i \<and> i < U32_MAX_REGKEY \<and> rk_used (R ! i) \<and> rk_parent (R ! i) = int k"

lemma del_subtree_spec:
  "rooted R d k \<Longrightarrow> length R = U32_MAX_REGKEY \<Longrightarrow> k < U32_MAX_REGKEY \<Longrightarrow>
   U32_MAX_REGKEY - U32_REG_ROOTS < fuel + d \<Longrightarrow>
   u32_reg_del_subtree fuel k R = unmark {j. desc R k j} R"
proof (induction fuel arbitrary: k d R)
  case 0
  then show ?case using rooted_depth [OF 0(1)] by simp
next
  case (Suc fuel)
  note IH = Suc.IH
  let ?f = "\<lambda>i R. if rk_used (R ! i) \<and> rk_parent (R ! i) = int k then u32_reg_del_subtree fuel i R else R"
  let ?D = "\<lambda>L. {j. \<exists>i \<in> L. is_sub R k i \<and> desc R i j}"
  have dep: "rooted R (Suc d) i" if "is_sub R k i" for i
    using that Suc.prems(1) by (auto simp: is_sub_def intro: rooted.below)
  have sep: "a = i" if "is_sub R k i" "is_sub R k a" "desc R a j" "desc R i j" for a i j
    using desc_same_depth [OF that(3,4) dep dep] that by blast
  have loop: "fold ?f [U32_REG_ROOTS..<n] R = unmark (?D {..<n}) R" if "n \<le> U32_MAX_REGKEY" for n
    using that
  proof (induction n)
    case 0
    then show ?case by (simp add: is_sub_def unmark_empty)
  next
    case (Suc n)
    let ?M = "unmark (?D {..<n}) R"
    show ?case
    proof (cases "is_sub R k n")
      case True
      have out: "j \<notin> ?D {..<n}" if "desc R n j" for j using sep [OF True] that by fastforce
      have up: "a \<notin> ?D {..<n}" if a: "desc R a n" "U32_REG_ROOTS \<le> a" for a
      proof
        assume "a \<in> ?D {..<n}"
        then obtain i where "i < n" "is_sub R k i" "desc R i a" by blast
        with sep [OF True, of i n] desc_trans [of R i a n] a show False using desc.self by blast
      qed
      have "rooted ?M (Suc d) n" by (rule rooted_unmark [OF dep [OF True] \<open>length R = U32_MAX_REGKEY\<close> up])
      then have "u32_reg_del_subtree fuel n ?M = unmark {j. desc ?M n j} ?M"
        using Suc.prems \<open>length R = U32_MAX_REGKEY\<close> \<open>U32_MAX_REGKEY - U32_REG_ROOTS < Suc fuel + d\<close>
        by (intro IH) auto
      also have "\<dots> = unmark {j. desc R n j} ?M"
        using desc_unmark [OF \<open>length R = U32_MAX_REGKEY\<close> out] by simp
      also have "\<dots> = unmark (?D {..<Suc n}) R"
        unfolding unmark_unmark using True by (intro arg_cong [where f = "\<lambda>D. unmark D R"]) (auto simp: less_Suc_eq)
      finally have "u32_reg_del_subtree fuel n ?M = unmark (?D {..<Suc n}) R" .
      moreover have "rk_used (?M ! n)" "rk_parent (?M ! n) = int k"
        using True out [OF desc.self] \<open>length R = U32_MAX_REGKEY\<close> by (auto simp: is_sub_def)
      moreover have "U32_REG_ROOTS \<le> n" using True by (simp add: is_sub_def)
      ultimately show ?thesis using Suc by simp
    next
      case False
      have "?D {..<Suc n} = ?D {..<n}" using False by (auto simp: less_Suc_eq)
      moreover have "\<not> (rk_used (?M ! n) \<and> rk_parent (?M ! n) = int k)" if "U32_REG_ROOTS \<le> n"
        using False that Suc.prems \<open>length R = U32_MAX_REGKEY\<close> by (auto simp: is_sub_def)
      ultimately show ?thesis using Suc by (cases "U32_REG_ROOTS \<le> n") auto
    qed
  qed
  have "{j. desc R k j} = insert k (?D {..<U32_MAX_REGKEY})"
  proof (intro set_eqI iffI)
    fix j assume "j \<in> {j. desc R k j}"
    then have "desc R k j" by simp
    then show "j \<in> insert k (?D {..<U32_MAX_REGKEY})"
    proof (induction rule: desc.induct)
      case (below p i)
      then show ?case
      proof (cases "p = k")
        case True
        then have "is_sub R k i" using below by (simp add: is_sub_def)
        then show ?thesis using below.hyps desc.self by blast
      qed (use below in \<open>auto intro: desc.below\<close>)
    qed simp
  next
    fix j assume "j \<in> insert k (?D {..<U32_MAX_REGKEY})"
    moreover have "desc R k i" if "is_sub R k i" for i
      using that desc.below [OF desc.self, of i R k] by (simp add: is_sub_def)
    ultimately show "j \<in> {j. desc R k j}" using desc.self desc_trans by blast
  qed
  then have "(unmark (?D {..<U32_MAX_REGKEY}) R)[k := (unmark (?D {..<U32_MAX_REGKEY}) R ! k)\<lparr>rk_used := False\<rparr>]
      = unmark {j. desc R k j} R"
    using Suc.prems(2,3) by (intro nth_equalityI) (auto simp: nth_list_update)
  then show ?case using loop [of U32_MAX_REGKEY] by (simp add: Let_def)
qed


section \<open>The registry invariant\<close>

definition roots_ok :: "u32_regkey list \<Rightarrow> bool" where
  "roots_ok R \<longleftrightarrow> (\<forall>i < U32_REG_ROOTS. rk_used (R ! i) \<and> rk_root (R ! i) = 0x80000000 + of_nat i)"

definition forest :: "u32_regkey list \<Rightarrow> bool" where
  "forest R \<longleftrightarrow> (\<forall>i < U32_MAX_REGKEY. rk_used (R ! i) \<longrightarrow> (\<exists>n. rooted R n i))"

definition reg_ok :: "u32_regkey list \<Rightarrow> bool" where
  "reg_ok R \<longleftrightarrow> vals_ok R \<and> roots_ok R \<and> forest R"

lemma rooted_used: "rooted R n i \<Longrightarrow> i < U32_REG_ROOTS \<or> rk_used (R ! i)"
  by (auto elim: rooted.cases)

lemma rooted_frame:
  assumes "rooted R n i"
    and "\<And>j. U32_REG_ROOTS \<le> j \<Longrightarrow> j < U32_MAX_REGKEY \<Longrightarrow> rk_used (R ! j) \<Longrightarrow> rk_used (R' ! j) \<and> rk_parent (R' ! j) = rk_parent (R ! j)"
  shows "rooted R' n i"
  using assms(1) by (induction rule: rooted.induct) (auto intro: rooted.intros simp: assms(2))

lemma vals_ok_key:
  assumes "reg_ok R" "k < U32_MAX_REGKEY"
  shows "length (rk_val (R ! k)) = U32_MAX_REGVAL" "\<forall>v \<in> set (rk_val (R ! k)). val_ok v"
  using assms by (auto simp: reg_ok_def vals_ok_def)

lemma reg_ok_new:
  assumes ok: "reg_ok R" and n: "u32_reg_new R c nm = Some (j, R')" and c: "\<exists>n. rooted R n c"
  shows "reg_ok R' \<and> (\<exists>n. rooted R' n j)"
proof -
  note j = reg_new_Some [OF n]
  have len: "length R = U32_MAX_REGKEY" using ok by (simp add: reg_ok_def vals_ok_def)
  have fr: "rooted R' m i" if "rooted R m i" for m i
  proof (rule rooted_frame [OF that])
    fix i assume "rk_used (R ! i)"
    then have "i \<noteq> j" using j by auto
    with \<open>rk_used (R ! i)\<close> show "rk_used (R' ! i) \<and> rk_parent (R' ! i) = rk_parent (R ! i)" using j by simp
  qed
  from c obtain m where "rooted R m c" ..
  then have rj: "rooted R' (Suc m) j" using j fr len by (intro rooted.below [where p = c]) (auto simp: regkey_zero_def)
  have "\<exists>n. rooted R' n i" if "i < U32_MAX_REGKEY" "rk_used (R' ! i)" for i
  proof (cases "i = j")
    case False
    then have "rk_used (R ! i)" using that j by simp
    with ok that(1) fr show ?thesis unfolding reg_ok_def forest_def by metis
  qed (use rj in blast)
  then have "forest R'" by (simp add: forest_def)
  moreover have "vals_ok R'"
    using j ok by (auto simp: reg_ok_def regkey_zero_def regval_zero_def val_ok_def intro!: vals_ok_upd)
  moreover have "roots_ok R'" using j ok by (auto simp: reg_ok_def roots_ok_def)
  ultimately show ?thesis using rj by (auto simp: reg_ok_def)
qed

lemma walk_ok:
  "reg_ok R \<Longrightarrow> (\<exists>n. rooted R n cur) \<Longrightarrow> reg_walk_loop create p cur l R = (r, R') \<Longrightarrow>
   reg_ok R' \<and> (\<forall>k b. r = Some (k, b) \<longrightarrow> (\<exists>n. rooted R' n k))"
proof (induction create p cur l R arbitrary: r R' rule: reg_walk_loop.induct)
  case (1 create p cur l R)
  note eq = "1.prems"(3) [unfolded reg_walk_loop.simps [of create p cur l R]]
  consider "p = []" | "p \<noteq> []" "reg_comp p = []" | nxt where "p \<noteq> []" "reg_comp p \<noteq> []" "u32_reg_child R cur (reg_comp p) = Some nxt"
    | "p \<noteq> []" "reg_comp p \<noteq> []" "u32_reg_child R cur (reg_comp p) = None" by (cases "u32_reg_child R cur (reg_comp p)") auto
  then show ?case
  proof cases
    case 1
    then show ?thesis using eq "1.prems" by auto
  next
    case 2
    then have "reg_walk_loop create (reg_rest p) cur l R = (r, R')" using eq by simp
    from "1.IH"(1) [OF 2 "1.prems"(1,2) this] show ?thesis .
  next
    case (3 nxt)
    then have w: "reg_walk_loop create (reg_rest p) nxt False R = (r, R')" using eq by simp
    have "\<exists>n. rooted R n nxt"
      using reg_child_Some [OF 3(3)] "1.prems"(1) by (auto simp: reg_ok_def forest_def)
    from "1.IH"(3) [OF 3 "1.prems"(1) this w] show ?thesis .
  next
    case 4
    show ?thesis
    proof (cases "create \<and> u32_reg_new R cur (reg_comp p) \<noteq> None")
      case True
      then obtain nxt R1 where n: "u32_reg_new R cur (reg_comp p) = Some (nxt, R1)" and cr: "\<not> \<not> create" by auto
      have w: "reg_walk_loop create (reg_rest p) nxt True R1 = (r, R')" using eq 4 n cr by simp
      from reg_ok_new [OF "1.prems"(1) n "1.prems"(2)] "1.IH"(2) [OF 4 cr n refl _ _ w] show ?thesis by blast
    next
      case False
      then have "R' = R" "r = None" using eq 4 by (auto split: option.splits if_splits)
      then show ?thesis using "1.prems"(1) by simp
    qed
  qed
qed

lemma reg_idx_rooted: "reg_ok R \<Longrightarrow> u32_reg_idx R h = Some k \<Longrightarrow> \<exists>n. rooted R n k"
  by (auto simp: u32_reg_idx_def first_idx_Some_iff Let_def reg_ok_def forest_def
      intro: rooted.root split: option.splits if_splits)

lemma reg_walk_ok:
  assumes "reg_ok R" "u32_reg_walk R h p create = (r, R')"
  shows "reg_ok R' \<and> (\<forall>k b. r = Some (k, b) \<longrightarrow> (\<exists>n. rooted R' n k))"
proof (cases "u32_reg_idx R h")
  case (Some cur)
  then have "reg_walk_loop create p cur False R = (r, R')" using assms(2) by (simp add: u32_reg_walk_def)
  from walk_ok [OF assms(1) reg_idx_rooted [OF assms(1) Some] this] show ?thesis .
qed (use assms in \<open>auto simp: u32_reg_walk_def\<close>)

lemma nt_resolve_ok:
  assumes "reg_ok R" "u32_nt_reg_resolve m poa create R = (r, R')"
  shows "reg_ok R'"
  using assms unfolding u32_nt_reg_resolve_def Let_def
  by (auto split: if_splits dest: reg_walk_ok [OF assms(1)])

lemma upd_key_ok:
  assumes ok: "reg_ok R" and v: "vals_ok (R[k := K])"
    and K: "rk_used K = rk_used (R ! k)" "rk_parent K = rk_parent (R ! k)" "rk_root K = rk_root (R ! k)"
  shows "reg_ok (R[k := K])"
proof -
  have len: "length R = U32_MAX_REGKEY" using ok by (simp add: reg_ok_def vals_ok_def)
  have same: "rk_used (R[k := K] ! i) = rk_used (R ! i)" "rk_parent (R[k := K] ! i) = rk_parent (R ! i)"
      "rk_root (R[k := K] ! i) = rk_root (R ! i)" if "i < U32_MAX_REGKEY" for i
    using K that len by (cases "i = k", auto)+
  have fr: "rooted (R[k := K]) m i" if "rooted R m i" for m i
    by (rule rooted_frame [OF that]) (use same in auto)
  have "forest (R[k := K])" using ok same(1) fr unfolding reg_ok_def forest_def by metis
  moreover have "roots_ok (R[k := K])"
    using ok same by (auto simp: reg_ok_def roots_ok_def U32_REG_ROOTS_def U32_MAX_REGKEY_def)
  ultimately show ?thesis using v by (simp add: reg_ok_def)
qed

lemma del_subtree_ok:
  assumes ok: "reg_ok R" and k: "U32_REG_ROOTS \<le> k" "k < U32_MAX_REGKEY" and r: "rooted R n k"
  shows "u32_reg_del_subtree U32_MAX_REGKEY k R = unmark {j. desc R k j} R" "reg_ok (unmark {j. desc R k j} R)"
proof -
  let ?D = "{j. desc R k j}" and ?U = "unmark {j. desc R k j} R"
  have len: "length R = U32_MAX_REGKEY" using ok by (simp add: reg_ok_def vals_ok_def)
  have big: "U32_REG_ROOTS \<le> j" if "desc R k j" for j using that k(1) by (induction rule: desc.induct) auto
  show "u32_reg_del_subtree U32_MAX_REGKEY k R = ?U"
    by (rule del_subtree_spec [OF r len k(2)]) (simp add: U32_MAX_REGKEY_def U32_REG_ROOTS_def)
  have "\<exists>n. rooted ?U n i" if il: "i < U32_MAX_REGKEY" and iu: "rk_used (?U ! i)" for i
  proof -
    have i: "i \<notin> ?D" "rk_used (R ! i)" using il iu len by (auto split: if_splits)
    then obtain n where "rooted R n i" using ok il unfolding reg_ok_def forest_def by metis
    moreover have "a \<notin> ?D" if "desc R a i" for a using i(1) that desc_trans by blast
    ultimately show ?thesis using rooted_unmark [OF _ len] by blast
  qed
  then have "forest ?U" by (simp add: forest_def)
  moreover have "roots_ok ?U" using ok big len
    by (fastforce simp: reg_ok_def roots_ok_def U32_REG_ROOTS_def U32_MAX_REGKEY_def)
  moreover have "vals_ok ?U"
  proof -
    have "x \<in> set R \<or> (\<exists>y \<in> set R. x = y\<lparr>rk_used := False\<rparr>)" if "x \<in> set ?U" for x
      using that by (auto simp: unmark_def)
    then show ?thesis using ok unfolding reg_ok_def vals_ok_def by fastforce
  qed
  ultimately show "reg_ok ?U" by (simp add: reg_ok_def)
qed


lemma findval_ok:
  assumes ok: "reg_ok R" and f: "u32_reg_findval R k name create = (r, R')" and k: "k < U32_MAX_REGKEY"
  shows "reg_ok R' \<and> (\<forall>i. r = Some i \<longrightarrow> i < U32_MAX_REGVAL)"
proof -
  let ?V = "rk_val (R ! k)" and ?x = "regval_zero\<lparr>rv_used := True, rv_name := take (U32_REGNAME - 1) name\<rparr>"
  have x: "val_ok ?x" by (simp add: val_ok_def regval_zero_def)
  have new: "reg_ok (R[k := (R ! k)\<lparr>rk_val := ?V[i := ?x]\<rparr>])" for i
  proof (rule upd_key_ok [OF ok])
    show "vals_ok (R[k := (R ! k)\<lparr>rk_val := ?V[i := ?x]\<rparr>])"
      by (rule vals_ok_upd)
        (use ok vals_ok_key [OF ok k] ball_update [OF vals_ok_key(2) [OF ok k] x] in \<open>simp_all add: reg_ok_def\<close>)
  qed simp_all
  show ?thesis using f ok new
    by (auto simp: u32_reg_findval_def Let_def first_idx_Some_iff split: option.splits if_splits)
qed

lemma upd_val_ok:
  assumes ok: "reg_ok R" and k: "k < U32_MAX_REGKEY" and g: "\<And>v. val_ok v \<Longrightarrow> val_ok (g v)" and i: "i < U32_MAX_REGVAL"
  shows "reg_ok (upd_val k i g R)"
  unfolding upd_val_def
proof (rule upd_key_ok [OF ok])
  let ?V = "rk_val (R ! k)"
  have x: "val_ok (g (?V ! i))" using vals_ok_key [OF ok k] i g by simp
  show "vals_ok (R[k := (R ! k)\<lparr>rk_val := ?V[i := g (?V ! i)]\<rparr>])"
    by (rule vals_ok_upd)
      (use ok vals_ok_key [OF ok k] ball_update [OF vals_ok_key(2) [OF ok k] x] in \<open>simp_all add: reg_ok_def\<close>)
qed simp_all

lemma put32_reg [simp]: "g_reg (put32 p v s) = g_reg s"
  by (simp add: put32_def)

text \<open>
  C27: Every registry operation keeps the registry in order: the roots stay, every live key
  hangs below a live parent (the parent links form a forest), and no value exceeds its slot.
  This covers creating, setting, deleting a value and deleting a key through any handle, with the
  Win32 and with the Nt calls.
\<close>

theorem registry_operations_keep_order:
  assumes "reg_ok (g_reg s)"
  shows "reg_ok (g_reg (snd (u32_reg_create hk path p q s))) \<and> reg_ok (g_reg (snd (u32_reg_setval hk name ty data cb s)))
    \<and> reg_ok (g_reg (snd (reg_delete_value hk name s))) \<and> reg_ok (g_reg (snd (reg_delete_key hk path s)))
    \<and> reg_ok (g_reg (snd (aret_ntreg_delkey hk s))) \<and> reg_ok (g_reg (snd (aret_ntreg_create poa phkey pdisp s)))
    \<and> reg_ok (g_reg (snd (aret_ntreg_setval hk pname ty data cb s))) \<and> reg_ok (g_reg (snd (aret_ntreg_delval hk pname s)))"
proof (intro conjI)
  show "reg_ok (g_reg (snd (u32_reg_create hk path p q s)))"
    using reg_walk_ok [OF assms] by (auto simp: u32_reg_create_def split: prod.splits option.splits)
  have fv: "reg_ok R" "r = Some i \<Longrightarrow> i < U32_MAX_REGVAL"
    if "u32_reg_findval (g_reg s) k nm c = (r, R)" "u32_reg_idx (g_reg s) hk = Some k" for k nm c r R i
    using findval_ok [OF assms that(1) reg_idx_less [OF that(2)]] by auto
  have setval: "reg_ok (g_reg (snd (u32_reg_setval hk name ty data cb s)))" for name
    using assms fv by (auto simp: u32_reg_setval_def Let_def split: option.splits prod.splits
        intro!: upd_val_ok dest: reg_idx_less simp: val_ok_def)
  have delval: "reg_ok (g_reg (snd (reg_delete_value hk name s)))" for name
    using assms fv(2) by (auto simp: reg_delete_value_def split: option.splits intro!: upd_val_ok dest: reg_idx_less simp: val_ok_def)
      (metis prod.collapse)
  have del: "reg_ok (u32_reg_del_subtree U32_MAX_REGKEY k (g_reg s))"
    if "U32_REG_ROOTS \<le> k" "rooted (g_reg s) n k" for k n
  proof -
    have "k < U32_MAX_REGKEY" using that(2) that(1) by cases auto
    then show ?thesis using del_subtree_ok [OF assms that(1) _ that(2)] by simp
  qed
  show "reg_ok (g_reg (snd (reg_delete_key hk path s)))"
  proof (cases "u32_reg_walk (g_reg s) hk path False")
    case (Pair r R)
    have "R = g_reg s" using Pair walk_open_same by (auto simp: u32_reg_walk_def split: option.splits) (metis snd_conv)
    then show ?thesis using reg_walk_ok [OF assms Pair] Pair assms del
      by (auto simp: reg_delete_key_def not_less split: option.splits)
  qed
  show "reg_ok (g_reg (snd (aret_ntreg_delkey hk s)))"
    using assms del reg_idx_rooted [OF assms, of hk]
    by (auto simp: aret_ntreg_delkey_def not_less split: option.splits)
  show "reg_ok (g_reg (snd (u32_reg_setval hk name ty data cb s)))" "reg_ok (g_reg (snd (reg_delete_value hk name s)))"
    by (rule setval, rule delval)
  show "reg_ok (g_reg (snd (aret_ntreg_setval hk pname ty data cb s)))"
    using setval [of "u32_us_narrow (mem s) pname 256"] by (simp add: aret_ntreg_setval_def case_prod_beta)
  have "g_reg (snd (aret_ntreg_delval hk pname s)) = g_reg (snd (reg_delete_value hk (u32_us_narrow (mem s) pname 256) s))"
    by (simp add: aret_ntreg_delval_def reg_delete_value_def split: option.split)
  then show "reg_ok (g_reg (snd (aret_ntreg_delval hk pname s)))" using delval by simp
  show "reg_ok (g_reg (snd (aret_ntreg_create poa phkey pdisp s)))"
    using nt_resolve_ok [OF assms] by (auto simp: aret_ntreg_create_def split: prod.splits option.splits)
qed

lemma reg_ok_init: "reg_ok u32_reg_init"
proof -
  have "i < U32_REG_ROOTS" if "i < U32_MAX_REGKEY" "rk_used (u32_reg_init ! i)" for i
    using that by (auto simp: reg_init_nth regkey_zero_def split: if_splits)
  then have "forest u32_reg_init" by (auto simp: forest_def intro: rooted.root)
  moreover have "roots_ok u32_reg_init"
    by (auto simp: roots_ok_def reg_init_nth U32_REG_ROOTS_def U32_MAX_REGKEY_def)
  ultimately show ?thesis using vals_ok_init by (simp add: reg_ok_def)
qed

theorem registry_operations_keep_order_witness:
  "reg_ok (g_reg (snd (u32_reg_create 0x80000001 [0x61] 0 0 reg_demo)))"
  using registry_operations_keep_order [of reg_demo "0x80000001" "[0x61]" 0 0] reg_ok_init by (simp add: reg_demo_def)

text \<open>
  C28: Deleting a key removes exactly its subtree: the recursion ends, every key below the
  deleted one (and the key itself) becomes dead, and every other key keeps its name, its parent
  and its values.
\<close>

theorem registry_delete_key_exact:
  assumes "reg_ok (g_reg s)" "fst (u32_reg_walk (g_reg s) hk path False) = Some (k, b)" "U32_REG_ROOTS \<le> k"
  shows "\<exists>t. reg_delete_key hk path s = (0, t) \<and> length (g_reg t) = U32_MAX_REGKEY
     \<and> (\<forall>j < U32_MAX_REGKEY. g_reg t ! j = (if desc (g_reg s) k j then (g_reg s ! j)\<lparr>rk_used := False\<rparr> else g_reg s ! j))"
proof -
  obtain R where w: "u32_reg_walk (g_reg s) hk path False = (Some (k, b), R)" using assms(2) by (metis prod.collapse)
  then have "R = g_reg s" using walk_open_same by (auto simp: u32_reg_walk_def split: option.splits) (metis snd_conv)
  then obtain n where n: "rooted (g_reg s) n k" using reg_walk_ok [OF assms(1) w] by auto
  then have "k < U32_MAX_REGKEY" using assms(3) by cases auto
  note d = del_subtree_ok [OF assms(1,3) this n]
  have "length (g_reg s) = U32_MAX_REGKEY" using assms(1) by (simp add: reg_ok_def vals_ok_def)
  with assms(2,3) d(1) show ?thesis by (simp add: reg_delete_key_def)
qed

theorem registry_delete_key_exact_witness:
  "\<exists>s'. u32_reg_create 0x80000001 [0x61] 0 0 reg_demo = (0, s') \<and> (\<exists>t. reg_delete_key 0x80000001 [0x61] s' = (0, t))"
proof -
  obtain R where n: "u32_reg_new u32_reg_init 1 [0x61] = Some (7, R)" using reg_demo_new by blast
  have w: "u32_reg_walk u32_reg_init 0x80000001 [0x61] True = (Some (7, True), R)"
    using n by (auto simp: u32_reg_walk_def reg_demo_idx reg_walk_loop.simps reg_comp_def reg_rest_def is_sep_def
        U32_REGNAME_def reg_demo_child)
  then have c: "u32_reg_create 0x80000001 [0x61] 0 0 reg_demo = (0, reg_demo\<lparr>g_reg := R\<rparr>)"
    by (simp add: u32_reg_create_def reg_demo_def put32_def)
  have l: "reg_walk_loop True [0x61] 1 False u32_reg_init = (Some (7, True), R)"
    using w by (simp add: u32_reg_walk_def reg_demo_idx)
  have i: "u32_reg_idx R 0x80000001 = Some 1"
    using reg_idx_keeps [OF reg_demo_idx] walk_keeps [OF reg_init_len l] by blast
  have "map_option fst (fst (reg_walk_loop False [0x61] 1 False R)) = Some 7"
    by (rule walk_create_then_open [OF reg_init_len l])
  then obtain b where f: "fst (u32_reg_walk R 0x80000001 [0x61] False) = Some (7, b)"
    using i by (auto simp: u32_reg_walk_def)
  have "reg_ok R" using reg_walk_ok [OF reg_ok_init w] by simp
  from registry_delete_key_exact [of "reg_demo\<lparr>g_reg := R\<rparr>", simplified, OF this f] c show ?thesis
    by (auto simp: U32_REG_ROOTS_def)
qed

end
