(* ===== verification/Aret_Rects.thy ===== *)
theory Aret_Rects
  imports Aret_Prelude
begin

text \<open>
  Rectangles: the RECT shims of \<^verbatim>\<open>aret_win32.c\<close> (\<^verbatim>\<open>SetRect\<close> to \<^verbatim>\<open>SubtractRect\<close>) on the four
  \<^verbatim>\<open>int32_t\<close> of a RECT in guest memory, and what they compute on the set of points a
  rectangle covers. The shims read and write the fields in the order of the source, so that
  a destination that is one of the operands is treated as the code treats it.
\<close>

section \<open>RECT in guest memory\<close>

text \<open>\<^verbatim>\<open>((int32_t *)p)[k]\<close>, read and written.\<close>

definition geti :: "guest_mem \<Rightarrow> u32 \<Rightarrow> nat \<Rightarrow> int" where
  "geti m p k = sint (ld32 m (p + 4 * of_nat k))"

definition seti :: "u32 \<Rightarrow> nat \<Rightarrow> int \<Rightarrow> 'a hle_scheme \<Rightarrow> 'a hle_scheme" where
  "seti p k v s = s\<lparr>mem := st32 (mem s) (p + 4 * of_nat k) (word_of_int v)\<rparr>"

text \<open>\<^verbatim>\<open>p[0] = f0; p[1] = f1; p[2] = f2; p[3] = f3;\<close> with each right-hand side read in turn.\<close>

definition set4 :: "u32 \<Rightarrow> ('a hle_scheme \<Rightarrow> int) \<Rightarrow> ('a hle_scheme \<Rightarrow> int) \<Rightarrow> ('a hle_scheme \<Rightarrow> int) \<Rightarrow>
    ('a hle_scheme \<Rightarrow> int) \<Rightarrow> 'a hle_scheme \<Rightarrow> 'a hle_scheme" where
  "set4 p f0 f1 f2 f3 s0 = (let s1 = seti p 0 (f0 s0) s0; s2 = seti p 1 (f1 s1) s1; s3 = seti p 2 (f2 s2) s2
     in seti p 3 (f3 s3) s3)"

text \<open>\<^verbatim>\<open>d[0] = a[0]; d[1] = a[1]; d[2] = a[2]; d[3] = a[3];\<close>\<close>

definition copy4 :: "u32 \<Rightarrow> u32 \<Rightarrow> 'a hle_scheme \<Rightarrow> 'a hle_scheme" where
  "copy4 d a = set4 d (\<lambda>s. geti (mem s) a 0) (\<lambda>s. geti (mem s) a 1) (\<lambda>s. geti (mem s) a 2) (\<lambda>s. geti (mem s) a 3)"

type_synonym rect = "int \<times> int \<times> int \<times> int"

definition rect_at :: "guest_mem \<Rightarrow> u32 \<Rightarrow> rect" where
  "rect_at m p = (geti m p 0, geti m p 1, geti m p 2, geti m p 3)"

fun put_rect :: "u32 \<Rightarrow> rect \<Rightarrow> 'a hle_scheme \<Rightarrow> 'a hle_scheme" where
  "put_rect p (l, t, r, b) s = set4 p (\<lambda>_. l) (\<lambda>_. t) (\<lambda>_. r) (\<lambda>_. b) s"

section \<open>The shims\<close>

definition aret_SetRect :: "u32 \<Rightarrow> 'a hle_scheme \<Rightarrow> u32 \<times> 'a hle_scheme" where
  "aret_SetRect esp s = (let r = WU esp 0 s in
     if r = 0 then (0, s) else (1, set4 r (WI esp 1) (WI esp 2) (WI esp 3) (WI esp 4) s))"

definition aret_SetRectEmpty :: "u32 \<Rightarrow> 'a hle_scheme \<Rightarrow> u32 \<times> 'a hle_scheme" where
  "aret_SetRectEmpty esp s = (let r = WU esp 0 s in
     if r = 0 then (0, s) else (1, put_rect r (0, 0, 0, 0) s))"

definition aret_CopyRect :: "u32 \<Rightarrow> 'a hle_scheme \<Rightarrow> u32 \<times> 'a hle_scheme" where
  "aret_CopyRect esp s = (let d = WU esp 0 s; p = WU esp 1 s in
     if d = 0 \<or> p = 0 then (0, s) else (1, copy4 d p s))"

fun rect_empty :: "rect \<Rightarrow> bool" where
  "rect_empty (l, t, r, b) \<longleftrightarrow> l \<ge> r \<or> t \<ge> b"

definition aret_IsRectEmpty :: "u32 \<Rightarrow> 'a hle_scheme \<Rightarrow> u32 \<times> 'a hle_scheme" where
  "aret_IsRectEmpty esp s = (let r = WU esp 0 s in (if r = 0 \<or> rect_empty (rect_at (mem s) r) then 1 else 0, s))"

definition aret_EqualRect :: "u32 \<Rightarrow> 'a hle_scheme \<Rightarrow> u32 \<times> 'a hle_scheme" where
  "aret_EqualRect esp s = (let a = WU esp 0 s; b = WU esp 1 s in
     if a = 0 \<or> b = 0 then (0, s) else (if rect_at (mem s) a = rect_at (mem s) b then 1 else 0, s))"

fun in_rect :: "rect \<Rightarrow> int \<Rightarrow> int \<Rightarrow> bool" where
  "in_rect (l, t, r, b) x y \<longleftrightarrow> x \<ge> l \<and> x < r \<and> y \<ge> t \<and> y < b"

definition aret_PtInRect :: "u32 \<Rightarrow> 'a hle_scheme \<Rightarrow> u32 \<times> 'a hle_scheme" where
  "aret_PtInRect esp s = (let r = WU esp 0 s in if r = 0 then (0, s)
     else (if in_rect (rect_at (mem s) r) (WI esp 1 s) (WI esp 2 s) then 1 else 0, s))"

text \<open>\<^verbatim>\<open>r[k] += v\<close> on a C \<^verbatim>\<open>int\<close>.\<close>

definition addi :: "u32 \<Rightarrow> nat \<Rightarrow> int \<Rightarrow> 'a hle_scheme \<Rightarrow> 'a hle_scheme" where
  "addi r k v s = seti r k (c_int (geti (mem s) r k + v)) s"

definition aret_OffsetRect :: "u32 \<Rightarrow> 'a hle_scheme \<Rightarrow> u32 \<times> 'a hle_scheme" where
  "aret_OffsetRect esp s = (let r = WU esp 0 s; dx = WI esp 1 s; dy = WI esp 2 s in
     if r = 0 then (0, s) else (1, addi r 3 dy (addi r 1 dy (addi r 2 dx (addi r 0 dx s)))))"

definition aret_InflateRect :: "u32 \<Rightarrow> 'a hle_scheme \<Rightarrow> u32 \<times> 'a hle_scheme" where
  "aret_InflateRect esp s = (let r = WU esp 0 s; dx = WI esp 1 s; dy = WI esp 2 s in
     if r = 0 then (0, s) else (1, addi r 3 dy (addi r 1 (- dy) (addi r 2 dx (addi r 0 (- dx) s)))))"

fun rect_inter :: "rect \<Rightarrow> rect \<Rightarrow> rect" where
  "rect_inter (al, at, ar, ab) (bl, bt, br, bb) =
     (if al > bl then al else bl, if at > bt then at else bt, if ar < br then ar else br, if ab < bb then ab else bb)"

definition aret_IntersectRect :: "u32 \<Rightarrow> 'a hle_scheme \<Rightarrow> u32 \<times> 'a hle_scheme" where
  "aret_IntersectRect esp s = (let d = WU esp 0 s; a = WU esp 1 s; b = WU esp 2 s in
     if d = 0 \<or> a = 0 \<or> b = 0 then (0, s)
     else let q = rect_inter (rect_at (mem s) a) (rect_at (mem s) b) in
       if rect_empty q then (0, put_rect d (0, 0, 0, 0) s) else (1, put_rect d q s))"

definition aret_UnionRect :: "u32 \<Rightarrow> 'a hle_scheme \<Rightarrow> u32 \<times> 'a hle_scheme" where
  "aret_UnionRect esp s = (let d = WU esp 0 s; a = WU esp 1 s; b = WU esp 2 s;
       ga = (\<lambda>k s. geti (mem s) a k); gb = (\<lambda>k s. geti (mem s) b k);
       ae = rect_empty (rect_at (mem s) a); be = rect_empty (rect_at (mem s) b) in
     if d = 0 \<or> a = 0 \<or> b = 0 then (0, s)
     else if ae \<and> be then (0, put_rect d (0, 0, 0, 0) s)
     else if ae then (1, copy4 d b s)
     else if be then (1, copy4 d a s)
     else (1, set4 d (\<lambda>s. min (ga 0 s) (gb 0 s)) (\<lambda>s. min (ga 1 s) (gb 1 s)) (\<lambda>s. max (ga 2 s) (gb 2 s)) (\<lambda>s. max (ga 3 s) (gb 3 s)) s))"

definition aret_SubtractRect :: "u32 \<Rightarrow> 'a hle_scheme \<Rightarrow> u32 \<times> 'a hle_scheme" where
  "aret_SubtractRect esp s0 = (let d = WU esp 0 s0; a = WU esp 1 s0; b = WU esp 2 s0;
       ga = (\<lambda>k s. geti (mem s) a k); gb = (\<lambda>k s. geti (mem s) b k); gd = (\<lambda>k s. geti (mem s) d k) in
     if d = 0 \<or> a = 0 \<or> b = 0 then (0, s0)
     else let s = copy4 d a s0;
       overlap = (\<not> (gb 2 s \<le> ga 0 s \<or> gb 0 s \<ge> ga 2 s \<or> gb 3 s \<le> ga 1 s \<or> gb 1 s \<ge> ga 3 s));
       s = (if \<not> overlap then s
            else if gb 0 s \<le> ga 0 s \<and> gb 2 s \<ge> ga 2 s then
              (if gb 1 s \<le> ga 1 s then seti d 1 (if gb 3 s > ga 3 s then ga 3 s else gb 3 s) s
               else if gb 3 s \<ge> ga 3 s then seti d 3 (gb 1 s) s else s)
            else if gb 1 s \<le> ga 1 s \<and> gb 3 s \<ge> ga 3 s then
              (if gb 0 s \<le> ga 0 s then seti d 0 (if gb 2 s > ga 2 s then ga 2 s else gb 2 s) s
               else if gb 2 s \<ge> ga 2 s then seti d 2 (gb 0 s) s else s)
            else s)
       in if gd 0 s < gd 2 s \<and> gd 1 s < gd 3 s then (1, s) else (0, put_rect d (0, 0, 0, 0) s))"

section \<open>Reading back\<close>

text \<open>Two RECTs that do not share a byte.\<close>

definition apart :: "u32 \<Rightarrow> u32 \<Rightarrow> bool" where
  "apart p q \<longleftrightarrow> (\<forall>i<16. \<forall>j<16. p + of_nat i \<noteq> q + of_nat j)"

lemma apartI:
  assumes "unat p + 16 \<le> unat q" "unat q + 16 \<le> 2 ^ 32" shows "apart p q" "apart q p"
proof -
  have n: "unat (x + of_nat k) = unat x + k" if "unat x + 16 \<le> 2 ^ 32" "k < 16" for x :: u32 and k
    using that by (simp add: unat_word_ariths unat_of_nat)
  have "p + of_nat i \<noteq> q + of_nat j" if "i < 16" "j < 16" for i j
    using n [of p i] n [of q j] assms that by fastforce
  then show "apart p q" "apart q p" unfolding apart_def by metis+
qed

lemma slot_neq: "k < 4 \<Longrightarrow> j < 4 \<Longrightarrow> k \<noteq> j \<Longrightarrow> i < 4 \<Longrightarrow> n < 4 \<Longrightarrow>
    (p :: u32) + 4 * of_nat k + of_nat i \<noteq> p + 4 * of_nat j + of_nat n"
proof
  assume b: "k < 4" "j < 4" "k \<noteq> j" "i < 4" "n < 4"
    and e: "p + 4 * of_nat k + of_nat i = p + 4 * of_nat j + of_nat n"
  have "(of_nat (4 * k + i) :: u32) = of_nat (4 * j + n)" using e by (simp add: add.assoc)
  then have "unat (of_nat (4 * k + i) :: u32) = unat (of_nat (4 * j + n) :: u32)" by (simp only:)
  then have "4 * k + i = 4 * j + n" using b by (simp add: unat_of_nat del: of_nat_add of_nat_mult)
  then show False using b by (cases "k < j") linarith+
qed

lemma geti_seti_same [simp]: "geti (mem (seti p k v s)) p k = c_int v"
  by (simp add: geti_def seti_def c_int_def)

lemma geti_seti_slot: "k < 4 \<Longrightarrow> j < 4 \<Longrightarrow> k \<noteq> j \<Longrightarrow> geti (mem (seti p k v s)) p j = geti (mem s) p j"
  unfolding geti_def seti_def
  by (auto intro!: arg_cong [where f = sint] ld32_cong st32_at simp: slot_neq)

lemma geti_seti_apart: "apart p q \<Longrightarrow> k < 4 \<Longrightarrow> j < 4 \<Longrightarrow> geti (mem (seti p k v s)) q j = geti (mem s) q j"
proof -
  assume a: "apart p q" and k: "k < 4" and j: "j < 4"
  have "st32 (mem s) (p + 4 * of_nat k) (word_of_int v) (q + 4 * of_nat j + of_nat n) = mem s (q + 4 * of_nat j + of_nat n)"
    if n: "n < 4" for n
  proof (rule st32_at)
    fix i :: nat assume i: "i < 4"
    have "4 * k + i < 16" "4 * j + n < 16" using k j i n by simp_all
    then have "p + of_nat (4 * k + i) \<noteq> q + of_nat (4 * j + n)" using a unfolding apart_def by blast
    then show "q + 4 * of_nat j + of_nat n \<noteq> p + 4 * of_nat k + of_nat i" by (auto simp: algebra_simps)
  qed
  then show ?thesis unfolding geti_def seti_def by (auto intro!: arg_cong [where f = sint] ld32_cong)
qed

lemma c_int_sint [simp]: "c_int (sint (w :: u32)) = sint w"
  by (simp add: c_int_def)

lemma c_int_geti [simp]: "c_int (geti m p k) = geti m p k"
  by (simp add: geti_def)

lemma c_int_minmax [simp]:
  "c_int (min (geti m p k) (geti m' q j)) = min (geti m p k) (geti m' q j)"
  "c_int (max (geti m p k) (geti m' q j)) = max (geti m p k) (geti m' q j)"
  by (simp_all add: min_def max_def)

lemma c_int_0 [simp]: "c_int 0 = 0"
  by (simp add: c_int_def)

text \<open>An operand is the destination itself or shares no byte with it.\<close>

definition aligned :: "u32 \<Rightarrow> u32 \<Rightarrow> bool" where
  "aligned d a \<longleftrightarrow> a = d \<or> apart d a"

lemma geti_seti_aligned:
  "aligned d a \<Longrightarrow> k < 4 \<Longrightarrow> j < 4 \<Longrightarrow> k \<noteq> j \<Longrightarrow> geti (mem (seti d k v s)) a j = geti (mem s) a j"
  by (auto simp: aligned_def geti_seti_slot geti_seti_apart)

lemma aligned_refl [simp]: "aligned d d"
  by (simp add: aligned_def)

lemma set4_frame [simp]: "g_last_error (set4 p f0 f1 f2 f3 s) = g_last_error s" "hle.more (set4 p f0 f1 f2 f3 s) = hle.more s"
  by (simp_all add: set4_def Let_def seti_def)

definition rect_fits :: "rect \<Rightarrow> bool" where
  "rect_fits q = (case q of (l, t, r, b) \<Rightarrow> c_int l = l \<and> c_int t = t \<and> c_int r = r \<and> c_int b = b)"

lemma rect_fits_at [simp]: "rect_fits (rect_at m p)"
  by (simp add: rect_fits_def rect_at_def)

lemma rect_at_put: "rect_fits q \<Longrightarrow> rect_at (mem (put_rect p q s)) p = q"
  by (cases q) (auto simp: rect_fits_def rect_at_def set4_def Let_def geti_seti_slot)

lemma rect_at_put_zero [simp]: "rect_at (mem (put_rect p (0, 0, 0, 0) s)) p = (0, 0, 0, 0)"
  by (rule rect_at_put) (simp add: rect_fits_def)

lemma rect_inter_fits: "rect_fits p \<Longrightarrow> rect_fits q \<Longrightarrow> rect_fits (rect_inter p q)"
  by (cases p; cases q) (simp add: rect_fits_def)

lemma rect_at_copy:
  shows "aligned d a \<Longrightarrow> rect_at (mem (copy4 d a s)) d = rect_at (mem s) a"
    and "aligned d a \<Longrightarrow> rect_at (mem (copy4 d a s)) a = rect_at (mem s) a"
    and "apart d b \<Longrightarrow> rect_at (mem (copy4 d a s)) b = rect_at (mem s) b"
proof -
  show d: "rect_at (mem (copy4 d a s)) d = rect_at (mem s) a" if "aligned d a"
    using that by (simp add: copy4_def rect_at_def set4_def Let_def geti_seti_slot geti_seti_aligned)
  show "rect_at (mem (copy4 d a s)) a = rect_at (mem s) a" if a: "aligned d a"
  proof (cases "a = d")
    case True
    with d [OF a] show ?thesis by simp
  next
    case False
    with a have "apart d a" by (simp add: aligned_def)
    then show ?thesis by (simp add: copy4_def rect_at_def set4_def Let_def geti_seti_apart)
  qed
  show "rect_at (mem (copy4 d a s)) b = rect_at (mem s) b" if "apart d b"
    using that by (simp add: copy4_def rect_at_def set4_def Let_def geti_seti_apart)
qed

section \<open>The points of a rectangle\<close>

definition points :: "rect \<Rightarrow> (int \<times> int) set" where
  "points q = {(x, y). in_rect q x y}"

lemma points_mem [simp]: "(x, y) \<in> points q \<longleftrightarrow> in_rect q x y"
  by (simp add: points_def)

lemma points_empty_iff: "points q = {} \<longleftrightarrow> rect_empty q"
proof (cases q)
  case (fields l t r b)
  have "(l, t) \<in> points q" if "\<not> rect_empty q" using that by (simp add: fields)
  moreover have "points q = {}" if "rect_empty q" using that by (auto simp: points_def fields)
  ultimately show ?thesis by blast
qed

lemma points_inter: "points (rect_inter p q) = points p \<inter> points q"
  by (cases p; cases q) (auto simp: points_def)

lemma points_zero [simp]: "points (0, 0, 0, 0) = {}"
  by (simp add: points_empty_iff)

text \<open>The smallest rectangle around two non-empty ones.\<close>

fun rect_hull :: "rect \<Rightarrow> rect \<Rightarrow> rect" where
  "rect_hull (al, at, ar, ab) (bl, bt, br, bb) = (min al bl, min at bt, max ar br, max ab bb)"

lemma points_subset_iff:
  "\<not> rect_empty (l, t, r, b) \<Longrightarrow> points (l, t, r, b) \<subseteq> points (l', t', r', b') \<longleftrightarrow> l' \<le> l \<and> t' \<le> t \<and> r \<le> r' \<and> b \<le> b'"
proof
  assume n: "\<not> rect_empty (l, t, r, b)" and s: "points (l, t, r, b) \<subseteq> points (l', t', r', b')"
  have "(l, t) \<in> points (l, t, r, b)" "(r - 1, b - 1) \<in> points (l, t, r, b)" using n by simp_all
  then have "(l, t) \<in> points (l', t', r', b')" "(r - 1, b - 1) \<in> points (l', t', r', b')" using s by blast+
  then show "l' \<le> l \<and> t' \<le> t \<and> r \<le> r' \<and> b \<le> b'" by simp
qed (auto simp: points_def)

lemma rect_hull_least:
  assumes "\<not> rect_empty p" "\<not> rect_empty q"
  shows "points p \<union> points q \<subseteq> points (rect_hull p q)"
    and "points p \<union> points q \<subseteq> points r \<Longrightarrow> points (rect_hull p q) \<subseteq> points r"
proof -
  obtain al at ar ab bl bt br bb where pq: "p = (al, at, ar, ab)" "q = (bl, bt, br, bb)"
    by (cases p; cases q) blast
  show "points p \<union> points q \<subseteq> points (rect_hull p q)" by (auto simp: pq points_def)
  assume s: "points p \<union> points q \<subseteq> points r"
  obtain l t r' b where r: "r = (l, t, r', b)" by (cases r) blast
  have "l \<le> al \<and> t \<le> at \<and> ar \<le> r' \<and> ab \<le> b" "l \<le> bl \<and> t \<le> bt \<and> br \<le> r' \<and> bb \<le> b"
    using s assms points_subset_iff unfolding pq r by blast+
  then show "points (rect_hull p q) \<subseteq> points r" by (auto simp: pq r points_def)
qed

text \<open>What \<^verbatim>\<open>SubtractRect\<close> computes, on values.\<close>

fun rect_sub :: "rect \<Rightarrow> rect \<Rightarrow> rect" where
  "rect_sub (al, at, ar, ab) (bl, bt, br, bb) =
     (if br \<le> al \<or> bl \<ge> ar \<or> bb \<le> at \<or> bt \<ge> ab then (al, at, ar, ab)
      else if bl \<le> al \<and> br \<ge> ar then
        (if bt \<le> at then (al, min bb ab, ar, ab) else if bb \<ge> ab then (al, at, ar, bt) else (al, at, ar, ab))
      else if bt \<le> at \<and> bb \<ge> ab then
        (if bl \<le> al then (min br ar, at, ar, ab) else if br \<ge> ar then (al, at, bl, ab) else (al, at, ar, ab))
      else (al, at, ar, ab))"

lemma rect_closed:
  "points r = S \<Longrightarrow> (x, y) \<in> S \<Longrightarrow> (x', y') \<in> S \<Longrightarrow> (x, y') \<in> S"
  "points r = S \<Longrightarrow> (x, y) \<in> S \<Longrightarrow> (x', y) \<in> S \<Longrightarrow> x \<le> z \<Longrightarrow> z \<le> x' \<Longrightarrow> (z, y) \<in> S"
  "points r = S \<Longrightarrow> (x, y) \<in> S \<Longrightarrow> (x, y') \<in> S \<Longrightarrow> y \<le> z \<Longrightarrow> z \<le> y' \<Longrightarrow> (x, z) \<in> S"
  by (cases r; fastforce)+

lemma rect_sub_points:
  "points (rect_sub a b) = (if \<exists>r. points r = points a - points b then points a - points b else points a)"
proof -
  obtain al at ar ab bl bt br bb where ab: "a = (al, at, ar, ab)" "b = (bl, bt, br, bb)"
    by (cases a; cases b) blast
  have cut: ?thesis if "points (rect_sub a b) = points a - points b"
  proof -
    have "\<exists>r. points r = points a - points b" using that by blast
    then show ?thesis using that by (simp only: if_True)
  qed
  show ?thesis
  proof (cases "rect_empty a \<or> br \<le> al \<or> bl \<ge> ar \<or> bb \<le> at \<or> bt \<ge> ab \<or> bl \<ge> br \<or> bt \<ge> bb")
    case True
    have e: "rect_empty (rect_sub a b)" if "rect_empty a" using that by (auto simp: ab)
    have s: "rect_sub a b = a" if "\<not> rect_empty a" using that True by (auto simp: ab)
    have d: "points a \<inter> points b = {}" if "\<not> rect_empty a" using that True by (auto simp: ab)
    have "points (rect_sub a b) = points a - points b"
    proof (cases "rect_empty a")
      case a: True
      then have "points (rect_sub a b) = {}" "points a = {}" using e points_empty_iff by blast+
      then show ?thesis by (simp only: empty_Diff)
    next
      case False
      then show ?thesis using s d Diff_triv by metis
    qed
    then show ?thesis by (rule cut)
  next
    case over: False
    define x where "x = max al bl"
    define y where "y = max at bt"
    have xy: "(x, y) \<in> points a" "(x, y) \<in> points b" using over by (auto simp: ab x_def y_def)
    have no: False if "points r = points a - points b" "(x, y) \<in> points r" for r
      using that xy by blast
    consider "bl \<le> al" "br \<ge> ar" "bt \<le> at \<or> bb \<ge> ab" | "bt \<le> at" "bb \<ge> ab" "bl \<le> al \<or> br \<ge> ar"
      | "bl \<le> al" "br \<ge> ar" "at < bt" "bb < ab" | "bt \<le> at" "bb \<ge> ab" "al < bl" "br < ar"
      | "\<not> (bl \<le> al \<and> br \<ge> ar)" "\<not> (bt \<le> at \<and> bb \<ge> ab)"
      by linarith
    then show ?thesis
    proof cases
      case 1
      then have "points (rect_sub a b) = points a - points b" using over by (auto simp: ab)
      then show ?thesis by (rule cut)
    next
      case 2
      then have "points (rect_sub a b) = points a - points b" using over by (auto simp: ab)
      then show ?thesis by (rule cut)
    next
      case 3
      have same: "rect_sub a b = a" using 3 by (auto simp: ab)
      have "(x, at) \<in> points a - points b" "(x, ab - 1) \<in> points a - points b" using 3 over xy by (auto simp: ab)
      then have "points r \<noteq> points a - points b" for r
        using no rect_closed(3) [of r "points a - points b" x at "ab - 1" y] xy by (auto simp: ab)
      with same show ?thesis by simp
    next
      case 4
      have same: "rect_sub a b = a" using 4 by (auto simp: ab)
      have "(al, y) \<in> points a - points b" "(ar - 1, y) \<in> points a - points b" using 4 over xy by (auto simp: ab)
      then have "points r \<noteq> points a - points b" for r
        using no rect_closed(2) [of r "points a - points b" al y "ar - 1" x] xy by (auto simp: ab)
      with same show ?thesis by simp
    next
      case 5
      have same: "rect_sub a b = a" using 5 by (auto simp: ab)
      define x0 where "x0 = (if al < bl then al else ar - 1)"
      define y0 where "y0 = (if at < bt then at else ab - 1)"
      have x0: "al \<le> x0" "x0 < ar" "x0 < bl \<or> br \<le> x0" using 5(1) over by (auto simp: x0_def ab)
      have y0: "at \<le> y0" "y0 < ab" "y0 < bt \<or> bb \<le> y0" using 5(2) over by (auto simp: y0_def ab)
      have "(x, y0) \<in> points a - points b" "(x0, y) \<in> points a - points b" using x0 y0 xy by (auto simp: ab)
      then have "points r \<noteq> points a - points b" for r
        using no rect_closed(1) [of r "points a - points b" x y0 x0 y] by blast
      with same show ?thesis by simp
    qed
  qed
qed

lemma rect_at_hull:
  assumes "aligned d a" "aligned d b"
  shows "rect_at (mem (set4 d (\<lambda>s. min (geti (mem s) a 0) (geti (mem s) b 0)) (\<lambda>s. min (geti (mem s) a 1) (geti (mem s) b 1))
      (\<lambda>s. max (geti (mem s) a 2) (geti (mem s) b 2)) (\<lambda>s. max (geti (mem s) a 3) (geti (mem s) b 3)) s)) d
    = rect_hull (rect_at (mem s) a) (rect_at (mem s) b)"
  by (simp add: rect_at_def set4_def Let_def geti_seti_slot geti_seti_aligned [OF assms(1)] geti_seti_aligned [OF assms(2)])

section \<open>The shims on points\<close>

lemma intersect_rect_points:
  assumes "WU esp 0 s \<noteq> 0" "WU esp 1 s \<noteq> 0" "WU esp 2 s \<noteq> 0"
  shows "points (rect_at (mem (snd (aret_IntersectRect esp s))) (WU esp 0 s))
      = points (rect_at (mem s) (WU esp 1 s)) \<inter> points (rect_at (mem s) (WU esp 2 s))"
    and "fst (aret_IntersectRect esp s)
      = (if points (rect_at (mem s) (WU esp 1 s)) \<inter> points (rect_at (mem s) (WU esp 2 s)) = {} then 0 else 1)"
proof -
  define q where "q = rect_inter (rect_at (mem s) (WU esp 1 s)) (rect_at (mem s) (WU esp 2 s))"
  have p: "points (rect_at (mem s) (WU esp 1 s)) \<inter> points (rect_at (mem s) (WU esp 2 s)) = points q"
    unfolding q_def by (rule points_inter [symmetric])
  have f: "rect_fits q" unfolding q_def by (rule rect_inter_fits) simp_all
  have e: "aret_IntersectRect esp s = (if rect_empty q then (0, put_rect (WU esp 0 s) (0, 0, 0, 0) s)
      else (1, put_rect (WU esp 0 s) q s))"
    using assms by (simp add: aret_IntersectRect_def Let_def q_def)
  show "points (rect_at (mem (snd (aret_IntersectRect esp s))) (WU esp 0 s))
      = points (rect_at (mem s) (WU esp 1 s)) \<inter> points (rect_at (mem s) (WU esp 2 s))"
    unfolding e p using points_empty_iff [of q] rect_at_put [OF f, of "WU esp 0 s" s] rect_at_put_zero [of "WU esp 0 s" s] points_zero
    by (cases "rect_empty q") (simp_all del: put_rect.simps)
  show "fst (aret_IntersectRect esp s)
      = (if points (rect_at (mem s) (WU esp 1 s)) \<inter> points (rect_at (mem s) (WU esp 2 s)) = {} then 0 else 1)"
    unfolding e p points_empty_iff by simp
qed

lemma union_rect_value:
  assumes "WU esp 0 s \<noteq> 0" "WU esp 1 s \<noteq> 0" "WU esp 2 s \<noteq> 0"
    and al: "aligned (WU esp 0 s) (WU esp 1 s)" "aligned (WU esp 0 s) (WU esp 2 s)"
  defines "A \<equiv> rect_at (mem s) (WU esp 1 s)" and "B \<equiv> rect_at (mem s) (WU esp 2 s)"
  shows "rect_at (mem (snd (aret_UnionRect esp s))) (WU esp 0 s)
      = (if rect_empty A \<and> rect_empty B then (0, 0, 0, 0) else if rect_empty A then B
         else if rect_empty B then A else rect_hull A B)"
    and "fst (aret_UnionRect esp s) = (if rect_empty A \<and> rect_empty B then 0 else 1)"
proof -
  show "rect_at (mem (snd (aret_UnionRect esp s))) (WU esp 0 s)
      = (if rect_empty A \<and> rect_empty B then (0, 0, 0, 0) else if rect_empty A then B
         else if rect_empty B then A else rect_hull A B)"
    using assms(1-3)
    by (simp add: aret_UnionRect_def Let_def A_def B_def rect_at_hull [OF al] rect_at_copy(1) [OF al(1)] rect_at_copy(1) [OF al(2)]
        del: put_rect.simps One_nat_def)
  show "fst (aret_UnionRect esp s) = (if rect_empty A \<and> rect_empty B then 0 else 1)"
    using assms by (simp add: aret_UnionRect_def Let_def)
qed

text \<open>
  \<^verbatim>\<open>IntersectRect\<close> and \<^verbatim>\<open>UnionRect\<close> are the lattice operations on rectangles: the first
  leaves in the destination a rectangle that covers exactly the points the operands share, the
  second the smallest rectangle around both (an empty operand counts for nothing); each
  reports whether the result is non-empty. The destination may be one of the operands.
\<close>

theorem rect_lattice:
  assumes "WU esp 0 s \<noteq> 0" "WU esp 1 s \<noteq> 0" "WU esp 2 s \<noteq> 0"
    and "aligned (WU esp 0 s) (WU esp 1 s)" "aligned (WU esp 0 s) (WU esp 2 s)"
  defines "A \<equiv> points (rect_at (mem s) (WU esp 1 s))" and "B \<equiv> points (rect_at (mem s) (WU esp 2 s))"
    and "I \<equiv> points (rect_at (mem (snd (aret_IntersectRect esp s))) (WU esp 0 s))"
    and "U \<equiv> points (rect_at (mem (snd (aret_UnionRect esp s))) (WU esp 0 s))"
  shows "I = A \<inter> B \<and> fst (aret_IntersectRect esp s) = (if A \<inter> B = {} then 0 else 1)
    \<and> A \<union> B \<subseteq> U \<and> (\<forall>r. A \<union> B \<subseteq> points r \<longrightarrow> U \<subseteq> points r)
    \<and> fst (aret_UnionRect esp s) = (if A \<union> B = {} then 0 else 1)"
proof -
  let ?a = "rect_at (mem s) (WU esp 1 s)" and ?b = "rect_at (mem s) (WU esp 2 s)"
  note i = intersect_rect_points [OF assms(1-3)] and u = union_rect_value [OF assms(1-5)]
  have e: "A = {} \<longleftrightarrow> rect_empty ?a" "B = {} \<longleftrightarrow> rect_empty ?b" unfolding A_def B_def by (rule points_empty_iff)+
  have "A \<union> B \<subseteq> U \<and> (\<forall>r. A \<union> B \<subseteq> points r \<longrightarrow> U \<subseteq> points r)"
  proof (cases "rect_empty ?a \<or> rect_empty ?b")
    case True
    then have "U = A \<union> B" using u(1) e unfolding U_def A_def B_def by auto
    then show ?thesis by blast
  next
    case False
    then have "U = points (rect_hull ?a ?b)" using u(1) unfolding U_def by simp
    then show ?thesis using False rect_hull_least [of ?a ?b] unfolding A_def B_def by blast
  qed
  then show ?thesis using i u(2) e unfolding A_def B_def I_def by auto
qed

definition rect_demo :: hle where
  "rect_demo = put_rect 0x3000 (5, 5, 20, 8) (put_rect 0x2000 (0, 0, 10, 10)
     (put_rect 0x100 (0x2000, 0x2000, 0x3000, 0) \<lparr>mem = (\<lambda>_. 0), g_last_error = 0\<rparr>))"

lemma rect_demo_args: "WU 0x100 0 rect_demo = 0x2000" "WU 0x100 1 rect_demo = 0x2000" "WU 0x100 2 rect_demo = 0x3000"
    "rect_at (mem rect_demo) 0x2000 = (0, 0, 10, 10)" "rect_at (mem rect_demo) 0x3000 = (5, 5, 20, 8)"
  by code_simp+

theorem rect_lattice_witness:
  "points (rect_at (mem (snd (aret_IntersectRect 0x100 rect_demo))) 0x2000) = points (0, 0, 10, 10) \<inter> points (5, 5, 20, 8)
   \<and> fst (aret_UnionRect 0x100 rect_demo) = 1"
proof -
  have "aligned 0x2000 0x3000" using apartI [of "0x2000" "0x3000"] by (simp add: aligned_def)
  moreover have "points (0, 0, 10, 10) \<noteq> {}" by (simp add: points_empty_iff)
  ultimately show ?thesis
    using rect_lattice [of "0x100" rect_demo] unfolding rect_demo_args by auto
qed

lemma rect_at_seti:
  "rect_at (mem s) d = (l, t, r, b) \<Longrightarrow> rect_at (mem (seti d 0 v s)) d = (c_int v, t, r, b)"
  "rect_at (mem s) d = (l, t, r, b) \<Longrightarrow> rect_at (mem (seti d 1 v s)) d = (l, c_int v, r, b)"
  "rect_at (mem s) d = (l, t, r, b) \<Longrightarrow> rect_at (mem (seti d 2 v s)) d = (l, t, c_int v, b)"
  "rect_at (mem s) d = (l, t, r, b) \<Longrightarrow> rect_at (mem (seti d 3 v s)) d = (l, t, r, c_int v)"
  by (auto simp: rect_at_def geti_seti_slot)

lemma subtract_rect_value:
  assumes d: "WU esp 0 s \<noteq> 0" "WU esp 1 s \<noteq> 0" "WU esp 2 s \<noteq> 0"
    and al: "aligned (WU esp 0 s) (WU esp 1 s)" "apart (WU esp 0 s) (WU esp 2 s)"
  defines "Q \<equiv> rect_sub (rect_at (mem s) (WU esp 1 s)) (rect_at (mem s) (WU esp 2 s))"
  shows "rect_at (mem (snd (aret_SubtractRect esp s))) (WU esp 0 s) = (if rect_empty Q then (0, 0, 0, 0) else Q)"
    and "fst (aret_SubtractRect esp s) = (if rect_empty Q then 0 else 1)"
proof -
  define d a b where "d = WU esp 0 s" and "a = WU esp 1 s" and "b = WU esp 2 s"
  define t where "t = copy4 d a s"
  obtain al' at ar ab where A: "rect_at (mem s) a = (al', at, ar, ab)" by (cases "rect_at (mem s) a") blast
  obtain bl bt br bb where B: "rect_at (mem s) b = (bl, bt, br, bb)" by (cases "rect_at (mem s) b") blast
  have t: "rect_at (mem t) d = (al', at, ar, ab)" "rect_at (mem t) a = (al', at, ar, ab)" "rect_at (mem t) b = (bl, bt, br, bb)"
    using rect_at_copy(1,2) [OF al(1), of s] rect_at_copy(3) [OF al(2), of a s] A B
    unfolding t_def d_def a_def b_def by simp_all
  have fit: "c_int al' = al'" "c_int at = at" "c_int ar = ar" "c_int ab = ab" "c_int bl = bl" "c_int bt = bt" "c_int br = br" "c_int bb = bb"
    using rect_fits_at [of "mem s" a] rect_fits_at [of "mem s" b] unfolding A B rect_fits_def by simp_all
  define u where "u = (if br \<le> al' \<or> bl \<ge> ar \<or> bb \<le> at \<or> bt \<ge> ab then t
      else if bl \<le> al' \<and> br \<ge> ar then (if bt \<le> at then seti d 1 (min bb ab) t else if bb \<ge> ab then seti d 3 bt t else t)
      else if bt \<le> at \<and> bb \<ge> ab then (if bl \<le> al' then seti d 0 (min br ar) t else if br \<ge> ar then seti d 2 bl t else t)
      else t)"
  have m: "(if bb > ab then ab else bb) = min bb ab" "(if br > ar then ar else br) = min br ar" by (simp_all add: min_def)
  have fm: "c_int (min bb ab) = min bb ab" "c_int (min br ar) = min br ar" using fit by (simp_all add: min_def)
  have ua: "rect_at (mem u) d = Q"
    using rect_at_seti [OF t(1)] fit fm unfolding u_def Q_def A [unfolded a_def] B [unfolded b_def] by (simp add: t(1))
  obtain ql qt qr qb where Q: "Q = (ql, qt, qr, qb)" by (cases Q) blast
  have g: "geti (mem t) a 0 = al'" "geti (mem t) a 1 = at" "geti (mem t) a 2 = ar" "geti (mem t) a 3 = ab"
    "geti (mem t) b 0 = bl" "geti (mem t) b 1 = bt" "geti (mem t) b 2 = br" "geti (mem t) b 3 = bb"
    using t(2,3) by (simp_all add: rect_at_def)
  have q: "geti (mem u) d 0 = ql" "geti (mem u) d 1 = qt" "geti (mem u) d 2 = qr" "geti (mem u) d 3 = qb"
    using ua Q by (simp_all add: rect_at_def)
  have e: "aret_SubtractRect esp s = (if ql < qr \<and> qt < qb then (1, u) else (0, put_rect d (0, 0, 0, 0) u))"
    using assms(1-3) unfolding aret_SubtractRect_def Let_def d_def [symmetric] a_def [symmetric] b_def [symmetric] t_def [symmetric] g
    unfolding m not_not u_def [symmetric] q by (simp only: if_False disj_not1 simp_thms)
  have n: "rect_empty Q \<longleftrightarrow> \<not> (ql < qr \<and> qt < qb)" by (auto simp: Q)
  show "rect_at (mem (snd (aret_SubtractRect esp s))) (WU esp 0 s) = (if rect_empty Q then (0, 0, 0, 0) else Q)"
    unfolding e n using ua rect_at_put_zero [of d u] by (simp add: d_def [symmetric] del: put_rect.simps)
  show "fst (aret_SubtractRect esp s) = (if rect_empty Q then 0 else 1)" unfolding e n by simp
qed

text \<open>
  \<^verbatim>\<open>SubtractRect\<close> cuts exactly when it can: if the points of the first rectangle without
  those of the second form a rectangle, the destination covers just these, otherwise it is the
  first rectangle unchanged; the result tells whether it is non-empty. (The second operand must
  not overlap the destination, which the code overwrites before it reads it.)
\<close>

theorem subtract_rect_exact:
  assumes "WU esp 0 s \<noteq> 0" "WU esp 1 s \<noteq> 0" "WU esp 2 s \<noteq> 0"
    and "aligned (WU esp 0 s) (WU esp 1 s)" "apart (WU esp 0 s) (WU esp 2 s)"
  defines "A \<equiv> points (rect_at (mem s) (WU esp 1 s))" and "B \<equiv> points (rect_at (mem s) (WU esp 2 s))"
    and "D \<equiv> points (rect_at (mem (snd (aret_SubtractRect esp s))) (WU esp 0 s))"
  shows "D = (if \<exists>r. points r = A - B then A - B else A)
    \<and> fst (aret_SubtractRect esp s) = (if D = {} then 0 else 1)"
proof -
  define Q where "Q = rect_sub (rect_at (mem s) (WU esp 1 s)) (rect_at (mem s) (WU esp 2 s))"
  note v = subtract_rect_value [OF assms(1-5), folded Q_def]
  have D: "D = points Q" unfolding D_def v(1) using points_empty_iff [of Q] by (auto simp: points_zero)
  have "points Q = (if \<exists>r. points r = A - B then A - B else A)" unfolding Q_def A_def B_def by (rule rect_sub_points)
  then show ?thesis unfolding D v(2) points_empty_iff by blast
qed

definition rect_cut :: hle where
  "rect_cut = put_rect 0x3000 (0, 6, 20, 30) (put_rect 0x2000 (0, 0, 10, 10)
     (put_rect 0x100 (0x2000, 0x2000, 0x3000, 0) \<lparr>mem = (\<lambda>_. 0), g_last_error = 0\<rparr>))"

lemma rect_cut_args: "WU 0x100 0 rect_cut = 0x2000" "WU 0x100 1 rect_cut = 0x2000" "WU 0x100 2 rect_cut = 0x3000"
    "rect_at (mem rect_cut) 0x2000 = (0, 0, 10, 10)" "rect_at (mem rect_cut) 0x3000 = (0, 6, 20, 30)"
  by code_simp+

theorem subtract_rect_exact_witness:
  "points (rect_at (mem (snd (aret_SubtractRect 0x100 rect_cut))) 0x2000) = points (0, 0, 10, 10) - points (0, 6, 20, 30)"
proof -
  have "apart 0x2000 0x3000" using apartI [of "0x2000" "0x3000"] by simp
  moreover have "points (0, 0, 10, 6) = points (0, 0, 10, 10) - points (0, 6, 20, 30)" by (auto simp: points_def)
  ultimately show ?thesis
    using subtract_rect_exact [of "0x100" rect_cut] unfolding rect_cut_args by (simp only: if_True aligned_refl simp_thms) auto
qed

end
