(* ===== verification/Aret_Gdi.thy ===== *)
theory Aret_Gdi
  imports Aret_Rects
begin

text \<open>
  The GDI object table of \<^verbatim>\<open>aret_win32.c\<close> and what works on it: device contexts with their
  selected objects, save stack and coordinate mapping, brushes, pens, bitmaps and palettes,
  regions and clipping, and the drawing primitives on 32-bit bitmaps. The build modelled is
  the display-free one (\<^verbatim>\<open>ARET_HAVE_SDL\<close> undefined). \<^verbatim>\<open>malloc\<close> and \<^verbatim>\<open>calloc\<close> are parameters: the
  address the allocator returns, 0 for a failure. Pixels are guest memory, because
  \<^verbatim>\<open>CreateDIBSection\<close> hands their address to the program.
\<close>

section \<open>Objects and handles\<close>

definition GDI_MAX :: nat where "GDI_MAX = 512"

definition GDI_BASE :: u32 where "GDI_BASE = 0x30000000"

datatype gdi_type = GDIT_NONE | GDIT_DC | GDIT_BITMAP | GDIT_BRUSH | GDIT_PEN | GDIT_FONT | GDIT_RGN | GDIT_PALETTE

record dc_save =
  sv_font :: u32
  sv_brush :: u32
  sv_pen :: u32
  sv_tc :: u32
  sv_bc :: u32
  sv_bm :: int
  sv_mm :: int

text \<open>
  One entry of the table; of the LOGFONT only the fields that stock objects set are kept, the
  others concern the text renderer alone.
\<close>

record gdi_obj =
  type :: gdi_type
  used :: bool
  stock :: bool
  null_obj :: bool
  sel_bitmap :: u32
  sel_brush :: u32
  sel_pen :: u32
  sel_font :: u32
  sel_palette :: u32
  pal :: u32
  pal_count :: int
  text_color :: u32
  bk_color :: u32
  bk_mode :: int
  text_align :: u32
  bw :: int
  bh :: int
  topdown :: bool
  bpp :: int
  bits :: u32
  owns_bits :: bool
  color :: u32
  pat_bitmap :: u32
  pen_style :: int
  pen_width :: int
  lf_height :: int
  lf_weight :: int
  lf_face :: string
  mapmode :: int
  savetop :: nat
  cur_x :: int
  cur_y :: int
  vp_ox :: int
  vp_oy :: int
  win_ox :: int
  win_oy :: int
  vp_ex :: int
  vp_ey :: int
  win_ex :: int
  win_ey :: int
  sstk :: "dc_save list"
  rgn_l :: int
  rgn_t :: int
  rgn_r :: int
  rgn_b :: int
  rgn_complex :: bool
  clip_set :: bool
  clip_l :: int
  clip_t :: int
  clip_r :: int
  clip_b :: int
  clip_complex :: bool

definition save_zero :: dc_save where
  "save_zero = \<lparr>sv_font = 0, sv_brush = 0, sv_pen = 0, sv_tc = 0, sv_bc = 0, sv_bm = 0, sv_mm = 0\<rparr>"

text \<open>\<^verbatim>\<open>memset(&g_gdi[i], 0, sizeof g_gdi[i])\<close>\<close>

definition gdi_zero :: gdi_obj where
  "gdi_zero = \<lparr>type = GDIT_NONE, used = False, stock = False, null_obj = False,
     sel_bitmap = 0, sel_brush = 0, sel_pen = 0, sel_font = 0, sel_palette = 0, pal = 0, pal_count = 0,
     text_color = 0, bk_color = 0, bk_mode = 0, text_align = 0,
     bw = 0, bh = 0, topdown = False, bpp = 0, bits = 0, owns_bits = False, color = 0, pat_bitmap = 0,
     pen_style = 0, pen_width = 0, lf_height = 0, lf_weight = 0, lf_face = '''', mapmode = 0, savetop = 0,
     cur_x = 0, cur_y = 0, vp_ox = 0, vp_oy = 0, win_ox = 0, win_oy = 0, vp_ex = 0, vp_ey = 0, win_ex = 0, win_ey = 0,
     sstk = replicate 8 save_zero, rgn_l = 0, rgn_t = 0, rgn_r = 0, rgn_b = 0, rgn_complex = False,
     clip_set = False, clip_l = 0, clip_t = 0, clip_r = 0, clip_b = 0, clip_complex = False\<rparr>"

record gdi = hle +
  g_gdi :: "gdi_obj list"
  g_gdi_stock :: "u32 list"
  g_gdi_syscolorbrush :: "u32 list"
  g_default_palette :: u32

abbreviation obj :: "gdi \<Rightarrow> nat \<Rightarrow> gdi_obj" where
  "obj s i \<equiv> g_gdi s ! i"

definition upd_obj :: "nat \<Rightarrow> (gdi_obj \<Rightarrow> gdi_obj) \<Rightarrow> gdi \<Rightarrow> gdi" where
  "upd_obj i f s = s\<lparr>g_gdi := (g_gdi s)[i := f (g_gdi s ! i)]\<rparr>"

definition gdi_handle :: "nat \<Rightarrow> u32" where
  "gdi_handle i = GDI_BASE OR of_nat i"

text \<open>The table is the array \<^verbatim>\<open>g_gdi[GDI_MAX]\<close>; its length is the bound the code tests.\<close>

definition gdi_idx :: "gdi_obj list \<Rightarrow> u32 \<Rightarrow> nat option" where
  "gdi_idx G h = (if h AND 0xFF000000 \<noteq> GDI_BASE then None
     else let i = unat (h AND 0x00FFFFFF) in if i < length G \<and> used (G ! i) then Some i else None)"

definition gdi_alloc :: "gdi_type \<Rightarrow> gdi \<Rightarrow> nat \<times> gdi" where
  "gdi_alloc ty s = (case first_idx (\<lambda>i. \<not> used (obj s i)) 1 GDI_MAX of
       Some i \<Rightarrow> (i, upd_obj i (\<lambda>_. gdi_zero\<lparr>used := True, type := ty\<rparr>) s)
     | None \<Rightarrow> (0, s))"

text \<open>\<^verbatim>\<open>int i = gdi_alloc(ty); if (!i) return 0; ... return gdi_handle(i);\<close>\<close>

definition gdi_create :: "gdi_type \<Rightarrow> (gdi_obj \<Rightarrow> gdi_obj) \<Rightarrow> gdi \<Rightarrow> u32 \<times> gdi" where
  "gdi_create ty f s = (case gdi_alloc ty s of (i, s) \<Rightarrow>
     if i = 0 then (0, s) else (gdi_handle i, upd_obj i f s))"

definition gdi_dc_surface :: "gdi_obj list \<Rightarrow> u32 \<Rightarrow> nat option" where
  "gdi_dc_surface G hdc = (case gdi_idx G hdc of None \<Rightarrow> None
     | Some d \<Rightarrow> if type (G ! d) \<noteq> GDIT_DC then None
         else case gdi_idx G (sel_bitmap (G ! d)) of None \<Rightarrow> None
           | Some b \<Rightarrow> if type (G ! b) \<noteq> GDIT_BITMAP \<or> bits (G ! b) = 0 then None else Some b)"

section \<open>Pixels\<close>

text \<open>The address of a pixel, 0 outside the bitmap.\<close>

definition gdi_px :: "gdi_obj \<Rightarrow> int \<Rightarrow> int \<Rightarrow> u32" where
  "gdi_px bm x y = (if x < 0 \<or> y < 0 \<or> x \<ge> bw bm \<or> y \<ge> bh bm then 0
     else let row = (if topdown bm then y else bh bm - 1 - y) in bits bm + word_of_int ((row * bw bm + x) * 4))"

definition gdi_put :: "gdi_obj \<Rightarrow> int \<Rightarrow> int \<Rightarrow> u32 \<Rightarrow> guest_mem \<Rightarrow> guest_mem" where
  "gdi_put bm x y c m = (let p = gdi_px bm x y in if p = 0 then m
     else m(p := ucast (drop_bit 16 c), p + 1 := ucast (drop_bit 8 c), p + 2 := ucast c, p + 3 := 0))"

definition gdi_getpx :: "gdi_obj \<Rightarrow> int \<Rightarrow> int \<Rightarrow> guest_mem \<Rightarrow> u32" where
  "gdi_getpx bm x y m = (let p = gdi_px bm x y in if p = 0 then 0xFFFFFFFF
     else ucast (m (p + 2)) OR push_bit 8 (ucast (m (p + 1))) OR push_bit 16 (ucast (m p)))"

text \<open>\<^verbatim>\<open>for (y = t; y < b; y++) for (x = l; x < r; x++) f(x, y);\<close>\<close>

definition for_xy :: "rect \<Rightarrow> (int \<Rightarrow> int \<Rightarrow> 'm \<Rightarrow> 'm) \<Rightarrow> 'm \<Rightarrow> 'm" where
  "for_xy q f = (case q of (l, t, r, b) \<Rightarrow> fold (\<lambda>y. fold (\<lambda>x. f x y) [l..r - 1]) [t..b - 1])"

text \<open>C division truncates towards zero.\<close>

definition c_div :: "int \<Rightarrow> int \<Rightarrow> int" where
  "c_div a b = (if (a < 0) = (b < 0) then \<bar>a\<bar> div \<bar>b\<bar> else - (\<bar>a\<bar> div \<bar>b\<bar>))"

section \<open>Mapping modes\<close>

text \<open>
  \<^verbatim>\<open>gdi_muldiv\<close> works on \<^verbatim>\<open>long long\<close>, which holds every product of two \<^verbatim>\<open>int\<close>; only its result
  is cut to an \<^verbatim>\<open>int\<close>. Both quotients have non-negative operands.
\<close>

definition gdi_muldiv :: "int \<Rightarrow> int \<Rightarrow> int \<Rightarrow> int" where
  "gdi_muldiv a b c = (if c = 0 then 0
     else let num = (if c < 0 then - (a * b) else a * b); c' = (if c < 0 then - c else c); half = c' div 2
       in c_int (if num \<ge> 0 then (num + half) div c' else - ((- num + half) div c')))"

definition dc_l2d :: "gdi_obj \<Rightarrow> int \<Rightarrow> int \<Rightarrow> int \<times> int" where
  "dc_l2d d lx ly = (c_int (gdi_muldiv (c_int (lx - win_ox d)) (vp_ex d) (win_ex d) + vp_ox d),
                     c_int (gdi_muldiv (c_int (ly - win_oy d)) (vp_ey d) (win_ey d) + vp_oy d))"

definition dc_d2l :: "gdi_obj \<Rightarrow> int \<Rightarrow> int \<Rightarrow> int \<times> int" where
  "dc_d2l d dx dy = (c_int (gdi_muldiv (c_int (dx - vp_ox d)) (win_ex d) (vp_ex d) + win_ox d),
                     c_int (gdi_muldiv (c_int (dy - vp_oy d)) (win_ey d) (vp_ey d) + win_oy d))"

definition dc_map_identity :: "gdi_obj \<Rightarrow> bool" where
  "dc_map_identity d \<longleftrightarrow> vp_ox d = 0 \<and> vp_oy d = 0 \<and> win_ox d = 0 \<and> win_oy d = 0
     \<and> vp_ex d = win_ex d \<and> vp_ey d = win_ey d"

text \<open>\<^verbatim>\<open>GDI_MAP_GUARD\<close>: whether the primitive stops with its defined failure.\<close>

definition GDI_MAP_GUARD :: "gdi_obj list \<Rightarrow> u32 \<Rightarrow> bool" where
  "GDI_MAP_GUARD G hdc \<longleftrightarrow> (case gdi_idx G hdc of None \<Rightarrow> False | Some d \<Rightarrow> \<not> dc_map_identity (G ! d))"

section \<open>Stock objects and system colours\<close>

definition syscolor_table :: "u32 list" where
  "syscolor_table = [0x808080, 0x000000, 0x800000, 0x808080, 0xC0C0C0, 0xFFFFFF, 0x000000, 0x000000, 0x000000, 0xFFFFFF,
     0xC0C0C0, 0xC0C0C0, 0x808080, 0x800000, 0xFFFFFF, 0xC0C0C0, 0x808080, 0x808080, 0x000000, 0xC0C0C0,
     0xFFFFFF, 0x000000, 0xE0E0E0, 0x000000, 0xE1FFFF]"

definition u32_syscolor :: "int \<Rightarrow> u32" where
  "u32_syscolor i = (if 0 \<le> i \<and> i < int (length syscolor_table) then syscolor_table ! nat i else 0)"

definition aret_GetSysColor :: "u32 \<Rightarrow> gdi \<Rightarrow> u32 \<times> gdi" where
  "aret_GetSysColor esp s = (u32_syscolor (WI esp 0 s), s)"

definition aret_GetSysColorBrush :: "u32 \<Rightarrow> gdi \<Rightarrow> u32 \<times> gdi" where
  "aret_GetSysColorBrush esp s = (let sid = WI esp 0 s in if sid < 0 \<or> sid \<ge> 32 then (0, s)
     else if g_gdi_syscolorbrush s ! nat sid \<noteq> 0 then (g_gdi_syscolorbrush s ! nat sid, s)
     else case gdi_create GDIT_BRUSH (\<lambda>o'. o'\<lparr>stock := True, color := u32_syscolor sid\<rparr>) s of (h, s') \<Rightarrow>
       if h = 0 then (0, s') else (h, s'\<lparr>g_gdi_syscolorbrush := (g_gdi_syscolorbrush s')[nat sid := h]\<rparr>))"

text \<open>The default palette entries, \<^verbatim>\<open>{R, G, B}\<close>.\<close>

definition u32_syspal_static :: "u8 list list" where
  "u32_syspal_static = [[0,0,0],[128,0,0],[0,128,0],[128,128,0],[0,0,128],[128,0,128],[0,128,128],[192,192,192],[192,220,192],[166,202,240],
     [255,251,240],[160,160,164],[128,128,128],[255,0,0],[0,255,0],[255,255,0],[0,0,255],[255,0,255],[0,255,255],[255,255,255]]"

definition u32_syspal_entry :: "int \<Rightarrow> u8 list" where
  "u32_syspal_entry idx = (if idx \<ge> 0 \<and> idx \<le> 9 then u32_syspal_static ! nat idx @ [0]
     else if idx \<ge> 246 \<and> idx \<le> 255 then u32_syspal_static ! nat (10 + idx - 246) @ [0] else [0, 0, 0, 0])"

definition u32_default_palette :: "u32 \<Rightarrow> gdi \<Rightarrow> u32 \<times> gdi" where
  "u32_default_palette ptr s = (if g_default_palette s \<noteq> 0 then (g_default_palette s, s)
     else case gdi_alloc GDIT_PALETTE s of (i, s) \<Rightarrow> if i = 0 then (0, s)
       else let s = upd_obj i (\<lambda>o'. o'\<lparr>stock := True, pal_count := 20, pal := ptr\<rparr>) s;
         s = (if ptr = 0 then s else s\<lparr>mem := st_bytes (mem s) ptr
                (concat (map (\<lambda>k. u32_syspal_entry (if k < 10 then k else 246 + (k - 10))) [0..19]))\<rparr>)
         in (gdi_handle i, s\<lparr>g_default_palette := gdi_handle i\<rparr>))"

text \<open>What \<^verbatim>\<open>u32_stock\<close> stores in the object of stock id \<open>sid\<close>.\<close>

definition stock_init :: "int \<Rightarrow> gdi_obj \<Rightarrow> gdi_obj" where
  "stock_init sid o' = (let b = o'\<lparr>stock := True\<rparr> in
     if sid = 0 then b\<lparr>color := 0xFFFFFF\<rparr> else if sid = 1 then b\<lparr>color := 0xC0C0C0\<rparr>
     else if sid = 2 then b\<lparr>color := 0x808080\<rparr> else if sid = 3 then b\<lparr>color := 0x404040\<rparr>
     else if sid = 4 then b\<lparr>color := 0x000000\<rparr> else if sid = 5 then b\<lparr>null_obj := True\<rparr>
     else if sid = 6 then b\<lparr>color := 0xFFFFFF\<rparr> else if sid = 7 then b\<lparr>color := 0x000000\<rparr>
     else if sid = 8 then b\<lparr>null_obj := True\<rparr>
     else if sid = 12 then b\<lparr>lf_face := ''MS Sans Serif'', lf_height := 12, lf_weight := 400\<rparr>
     else if sid = 17 then b\<lparr>lf_face := ''MS Shell Dlg'', lf_height := -11, lf_weight := 400\<rparr>
     else b)"

definition u32_stock :: "u32 \<Rightarrow> int \<Rightarrow> gdi \<Rightarrow> u32 \<times> gdi" where
  "u32_stock ptr sid s = (if sid < 0 \<or> sid \<ge> 32 then (0, s)
     else if sid = 15 then u32_default_palette ptr s
     else if g_gdi_stock s ! nat sid \<noteq> 0 then (g_gdi_stock s ! nat sid, s)
     else case gdi_create (if sid \<le> 5 then GDIT_BRUSH else if sid \<le> 8 then GDIT_PEN else GDIT_FONT) (stock_init sid) s of (h, s') \<Rightarrow>
       if h = 0 then (0, s') else (h, s'\<lparr>g_gdi_stock := (g_gdi_stock s')[nat sid := h]\<rparr>))"

definition aret_GetStockObject :: "u32 \<Rightarrow> u32 \<Rightarrow> gdi \<Rightarrow> u32 \<times> gdi" where
  "aret_GetStockObject ptr esp s = u32_stock ptr (WI esp 0 s) s"

section \<open>Device contexts\<close>

text \<open>The three stock ids used are not the palette, so no allocation happens.\<close>

definition u32_dc_defaults :: "nat \<Rightarrow> gdi \<Rightarrow> gdi" where
  "u32_dc_defaults d s =
     (let (hf, s) = u32_stock 0 13 s; s = upd_obj d (\<lambda>o'. o'\<lparr>sel_font := hf\<rparr>) s;
          (hb, s) = u32_stock 0 0 s; s = upd_obj d (\<lambda>o'. o'\<lparr>sel_brush := hb\<rparr>) s;
          (hp, s) = u32_stock 0 7 s
      in upd_obj d (\<lambda>o'. o'\<lparr>sel_pen := hp, mapmode := 1, vp_ox := 0, vp_oy := 0, win_ox := 0, win_oy := 0,
                              vp_ex := 1, vp_ey := 1, win_ex := 1, win_ey := 1\<rparr>) s)"

definition aret_GetDC :: "u32 \<Rightarrow> gdi \<Rightarrow> u32 \<times> gdi" where
  "aret_GetDC esp s = (case gdi_alloc GDIT_DC s of (i, s) \<Rightarrow>
     if i = 0 then (0, s) else (gdi_handle i, u32_dc_defaults i s))"

definition aret_GetWindowDC :: "u32 \<Rightarrow> gdi \<Rightarrow> u32 \<times> gdi" where
  "aret_GetWindowDC esp s = aret_GetDC esp s"

definition aret_ReleaseDC :: "u32 \<Rightarrow> gdi \<Rightarrow> u32 \<times> gdi" where
  "aret_ReleaseDC esp s = (case gdi_idx (g_gdi s) (WU esp 1 s) of None \<Rightarrow> (1, s)
     | Some i \<Rightarrow> if sel_bitmap (obj s i) = 0 then (1, upd_obj i (\<lambda>o'. o'\<lparr>used := False\<rparr>) s) else (1, s))"

definition aret_CreateCompatibleDC :: "u32 \<Rightarrow> gdi \<Rightarrow> u32 \<times> gdi" where
  "aret_CreateCompatibleDC esp s = (case gdi_alloc GDIT_DC s of (i, s) \<Rightarrow>
     if i = 0 then (0, s) else (gdi_handle i, u32_dc_defaults i s))"

definition aret_DeleteDC :: "u32 \<Rightarrow> gdi \<Rightarrow> u32 \<times> gdi" where
  "aret_DeleteDC esp s = (case gdi_idx (g_gdi s) (WU esp 0 s) of None \<Rightarrow> (0, s)
     | Some i \<Rightarrow> (1, upd_obj i (\<lambda>o'. o'\<lparr>used := False\<rparr>) s))"

text \<open>A live handle that must be a device context.\<close>

definition dc_idx :: "gdi_obj list \<Rightarrow> u32 \<Rightarrow> nat option" where
  "dc_idx G h = (case gdi_idx G h of None \<Rightarrow> None | Some d \<Rightarrow> if type (G ! d) = GDIT_DC then Some d else None)"

definition aret_SaveDC :: "u32 \<Rightarrow> gdi \<Rightarrow> u32 \<times> gdi" where
  "aret_SaveDC esp s = (case dc_idx (g_gdi s) (WU esp 0 s) of None \<Rightarrow> (0, s)
     | Some d \<Rightarrow> if savetop (obj s d) \<ge> 8 then (0, s)
         else (of_nat (savetop (obj s d) + 1), upd_obj d (\<lambda>o'. o'\<lparr>sstk := (sstk o')[savetop o' :=
             \<lparr>sv_font = sel_font o', sv_brush = sel_brush o', sv_pen = sel_pen o', sv_tc = text_color o',
              sv_bc = bk_color o', sv_bm = bk_mode o', sv_mm = mapmode o'\<rparr>], savetop := savetop o' + 1\<rparr>) s))"

definition aret_RestoreDC :: "u32 \<Rightarrow> gdi \<Rightarrow> u32 \<times> gdi" where
  "aret_RestoreDC esp s = (case dc_idx (g_gdi s) (WU esp 0 s) of None \<Rightarrow> (0, s)
     | Some d \<Rightarrow> let level = WI esp 1 s; top = int (savetop (obj s d));
           idx = (if level < 0 then top + level else level - 1) in
         if idx < 0 \<or> idx \<ge> top then (0, s)
         else (1, upd_obj d (\<lambda>o'. let v = sstk o' ! nat idx in o'\<lparr>sel_font := sv_font v, sel_brush := sv_brush v, sel_pen := sv_pen v,
             text_color := sv_tc v, bk_color := sv_bc v, bk_mode := sv_bm v, mapmode := sv_mm v, savetop := nat idx\<rparr>) s))"

definition aret_SetMapMode :: "u32 \<Rightarrow> gdi \<Rightarrow> u32 \<times> gdi" where
  "aret_SetMapMode esp s = (case gdi_idx (g_gdi s) (WU esp 0 s) of None \<Rightarrow> (0, s)
     | Some d \<Rightarrow> let p = word_of_int (mapmode (obj s d)); m = WI esp 1 s in
         if m = 1 then (p, upd_obj d (\<lambda>o'. o'\<lparr>vp_ex := 1, vp_ey := 1, win_ex := 1, win_ey := 1, mapmode := m\<rparr>) s)
         else if m \<noteq> 8 then (0, s) else (p, upd_obj d (\<lambda>o'. o'\<lparr>mapmode := m\<rparr>) s))"

definition aret_GetMapMode :: "u32 \<Rightarrow> gdi \<Rightarrow> u32 \<times> gdi" where
  "aret_GetMapMode esp s = (case gdi_idx (g_gdi s) (WU esp 0 s) of None \<Rightarrow> (0, s) | Some d \<Rightarrow> (word_of_int (mapmode (obj s d)), s))"

definition u32_put_pt :: "u32 \<Rightarrow> int \<Rightarrow> int \<Rightarrow> gdi \<Rightarrow> gdi" where
  "u32_put_pt p x y s = (if p = 0 then s else seti p 1 y (seti p 0 x s))"

definition u32_ext_mode :: "gdi_obj \<Rightarrow> bool" where
  "u32_ext_mode d \<longleftrightarrow> mapmode d = 7 \<or> mapmode d = 8"

text \<open>
  The origin and extent shims share one shape: the object behind argument 0, the previous
  pair stored at the address in argument \<open>k\<close>, then the update, whose arguments are read after
  that store.
\<close>

definition with_obj :: "u32 \<Rightarrow> gdi \<Rightarrow> (nat \<Rightarrow> u32 \<times> gdi) \<Rightarrow> u32 \<times> gdi" where
  "with_obj h s f = (case gdi_idx (g_gdi s) h of None \<Rightarrow> (0, s) | Some d \<Rightarrow> f d)"

definition swap_pt :: "nat \<Rightarrow> (gdi_obj \<Rightarrow> int) \<Rightarrow> (gdi_obj \<Rightarrow> int) \<Rightarrow> (gdi \<Rightarrow> gdi_obj \<Rightarrow> gdi_obj) \<Rightarrow> u32 \<Rightarrow> gdi \<Rightarrow> u32 \<times> gdi" where
  "swap_pt k fx fy f esp s = with_obj (WU esp 0 s) s (\<lambda>d.
     let s' = u32_put_pt (WU esp k s) (fx (obj s d)) (fy (obj s d)) s in (1, upd_obj d (f s') s'))"

definition aret_SetViewportOrgEx :: "u32 \<Rightarrow> gdi \<Rightarrow> u32 \<times> gdi" where
  "aret_SetViewportOrgEx esp = swap_pt 3 vp_ox vp_oy (\<lambda>s o'. o'\<lparr>vp_ox := WI esp 1 s, vp_oy := WI esp 2 s\<rparr>) esp"

definition aret_GetViewportOrgEx :: "u32 \<Rightarrow> gdi \<Rightarrow> u32 \<times> gdi" where
  "aret_GetViewportOrgEx esp = swap_pt 1 vp_ox vp_oy (\<lambda>s o'. o') esp"

definition aret_SetWindowOrgEx :: "u32 \<Rightarrow> gdi \<Rightarrow> u32 \<times> gdi" where
  "aret_SetWindowOrgEx esp = swap_pt 3 win_ox win_oy (\<lambda>s o'. o'\<lparr>win_ox := WI esp 1 s, win_oy := WI esp 2 s\<rparr>) esp"

definition aret_GetWindowOrgEx :: "u32 \<Rightarrow> gdi \<Rightarrow> u32 \<times> gdi" where
  "aret_GetWindowOrgEx esp = swap_pt 1 win_ox win_oy (\<lambda>s o'. o') esp"

definition aret_SetViewportExtEx :: "u32 \<Rightarrow> gdi \<Rightarrow> u32 \<times> gdi" where
  "aret_SetViewportExtEx esp = swap_pt 3 vp_ex vp_ey
     (\<lambda>s o'. if u32_ext_mode o' then o'\<lparr>vp_ex := WI esp 1 s, vp_ey := WI esp 2 s\<rparr> else o') esp"

definition aret_GetViewportExtEx :: "u32 \<Rightarrow> gdi \<Rightarrow> u32 \<times> gdi" where
  "aret_GetViewportExtEx esp = swap_pt 1 vp_ex vp_ey (\<lambda>s o'. o') esp"

definition aret_SetWindowExtEx :: "u32 \<Rightarrow> gdi \<Rightarrow> u32 \<times> gdi" where
  "aret_SetWindowExtEx esp = swap_pt 3 win_ex win_ey
     (\<lambda>s o'. if u32_ext_mode o' then o'\<lparr>win_ex := WI esp 1 s, win_ey := WI esp 2 s\<rparr> else o') esp"

definition aret_GetWindowExtEx :: "u32 \<Rightarrow> gdi \<Rightarrow> u32 \<times> gdi" where
  "aret_GetWindowExtEx esp = swap_pt 1 win_ex win_ey (\<lambda>s o'. o') esp"

definition aret_OffsetViewportOrgEx :: "u32 \<Rightarrow> gdi \<Rightarrow> u32 \<times> gdi" where
  "aret_OffsetViewportOrgEx esp = swap_pt 3 vp_ox vp_oy
     (\<lambda>s o'. o'\<lparr>vp_ox := c_int (vp_ox o' + WI esp 1 s), vp_oy := c_int (vp_oy o' + WI esp 2 s)\<rparr>) esp"

definition aret_OffsetWindowOrgEx :: "u32 \<Rightarrow> gdi \<Rightarrow> u32 \<times> gdi" where
  "aret_OffsetWindowOrgEx esp = swap_pt 3 win_ox win_oy
     (\<lambda>s o'. o'\<lparr>win_ox := c_int (win_ox o' + WI esp 1 s), win_oy := c_int (win_oy o' + WI esp 2 s)\<rparr>) esp"

definition aret_ScaleViewportExtEx :: "u32 \<Rightarrow> gdi \<Rightarrow> u32 \<times> gdi" where
  "aret_ScaleViewportExtEx esp = swap_pt 5 vp_ex vp_ey (\<lambda>s o'. if u32_ext_mode o'
     then o'\<lparr>vp_ex := gdi_muldiv (vp_ex o') (WI esp 1 s) (WI esp 2 s), vp_ey := gdi_muldiv (vp_ey o') (WI esp 3 s) (WI esp 4 s)\<rparr> else o') esp"

definition aret_ScaleWindowExtEx :: "u32 \<Rightarrow> gdi \<Rightarrow> u32 \<times> gdi" where
  "aret_ScaleWindowExtEx esp = swap_pt 5 win_ex win_ey (\<lambda>s o'. if u32_ext_mode o'
     then o'\<lparr>win_ex := gdi_muldiv (win_ex o') (WI esp 1 s) (WI esp 2 s), win_ey := gdi_muldiv (win_ey o') (WI esp 3 s) (WI esp 4 s)\<rparr> else o') esp"

text \<open>
  \<^verbatim>\<open>LPtoDP\<close> and \<^verbatim>\<open>DPtoLP\<close> convert an array of points in place, one after the other.
\<close>

definition conv_points :: "(int \<Rightarrow> int \<Rightarrow> int \<times> int) \<Rightarrow> u32 \<Rightarrow> int \<Rightarrow> gdi \<Rightarrow> gdi" where
  "conv_points f p n = fold (\<lambda>i s. let (x, y) = f (geti (mem s) p (2 * i)) (geti (mem s) p (2 * i + 1))
     in seti p (2 * i + 1) y (seti p (2 * i) x s)) [0..<nat n]"

definition aret_LPtoDP :: "u32 \<Rightarrow> gdi \<Rightarrow> u32 \<times> gdi" where
  "aret_LPtoDP esp s = with_obj (WU esp 0 s) s (\<lambda>d. (1, conv_points (dc_l2d (obj s d)) (WU esp 1 s) (WI esp 2 s) s))"

definition aret_DPtoLP :: "u32 \<Rightarrow> gdi \<Rightarrow> u32 \<times> gdi" where
  "aret_DPtoLP esp s = with_obj (WU esp 0 s) s (\<lambda>d. (1, conv_points (dc_d2l (obj s d)) (WU esp 1 s) (WI esp 2 s) s))"

definition aret_GetClipBox :: "u32 \<Rightarrow> gdi \<Rightarrow> u32 \<times> gdi" where
  "aret_GetClipBox esp s = (let r = WU esp 1 s in if r = 0 then (0, s)
     else (2, put_rect r (case gdi_dc_surface (g_gdi s) (WU esp 0 s) of
        Some b \<Rightarrow> (0, 0, bw (obj s b), bh (obj s b)) | None \<Rightarrow> (0, 0, 1024, 768)) s))"

definition aret_SelectObject :: "u32 \<Rightarrow> gdi \<Rightarrow> u32 \<times> gdi" where
  "aret_SelectObject esp s = (case (dc_idx (g_gdi s) (WU esp 0 s), gdi_idx (g_gdi s) (WU esp 1 s)) of
       (Some d, Some i) \<Rightarrow> let h = WU esp 1 s in
         (case type (obj s i) of
            GDIT_BITMAP \<Rightarrow> (sel_bitmap (obj s d), upd_obj d (\<lambda>o'. o'\<lparr>sel_bitmap := h\<rparr>) s)
          | GDIT_BRUSH \<Rightarrow> (sel_brush (obj s d), upd_obj d (\<lambda>o'. o'\<lparr>sel_brush := h\<rparr>) s)
          | GDIT_PEN \<Rightarrow> (sel_pen (obj s d), upd_obj d (\<lambda>o'. o'\<lparr>sel_pen := h\<rparr>) s)
          | GDIT_FONT \<Rightarrow> (sel_font (obj s d), upd_obj d (\<lambda>o'. o'\<lparr>sel_font := h\<rparr>) s)
          | _ \<Rightarrow> (0, s))
     | _ \<Rightarrow> (0, s))"

text \<open>\<^verbatim>\<open>free\<close> gives the memory back to the allocator; only the pointers are state here.\<close>

definition aret_DeleteObject :: "u32 \<Rightarrow> gdi \<Rightarrow> u32 \<times> gdi" where
  "aret_DeleteObject esp s = (case gdi_idx (g_gdi s) (WU esp 0 s) of None \<Rightarrow> (0, s)
     | Some i \<Rightarrow> if stock (obj s i) then (1, s)
         else (1, upd_obj i (\<lambda>o'. o'\<lparr>bits := (if owns_bits o' then 0 else bits o'), pal := 0, used := False\<rparr>) s))"

definition aret_GetCurrentObject :: "u32 \<Rightarrow> gdi \<Rightarrow> u32 \<times> gdi" where
  "aret_GetCurrentObject esp s = with_obj (WU esp 0 s) s (\<lambda>i. let k = WU esp 1 s in
     (if k = 1 then sel_pen (obj s i) else if k = 2 then sel_brush (obj s i) else if k = 6 then sel_font (obj s i)
      else if k = 7 then sel_bitmap (obj s i) else 0, s))"

section \<open>Creating objects\<close>

definition aret_CreateSolidBrush :: "u32 \<Rightarrow> gdi \<Rightarrow> u32 \<times> gdi" where
  "aret_CreateSolidBrush esp s = gdi_create GDIT_BRUSH (\<lambda>o'. o'\<lparr>color := WU esp 0 s AND 0x00FFFFFF\<rparr>) s"

definition aret_CreatePatternBrush :: "u32 \<Rightarrow> gdi \<Rightarrow> u32 \<times> gdi" where
  "aret_CreatePatternBrush esp s = gdi_create GDIT_BRUSH (\<lambda>o'. o'\<lparr>pat_bitmap := WU esp 0 s\<rparr>) s"

definition pen_init :: "int \<Rightarrow> int \<Rightarrow> u32 \<Rightarrow> gdi_obj \<Rightarrow> gdi_obj" where
  "pen_init style w c o' = o'\<lparr>pen_style := style, pen_width := w, color := c,
     null_obj := (if style = 5 then True else null_obj o')\<rparr>"

definition aret_CreatePen :: "u32 \<Rightarrow> gdi \<Rightarrow> u32 \<times> gdi" where
  "aret_CreatePen esp s = gdi_create GDIT_PEN (pen_init (WI esp 0 s) (WI esp 1 s) (WU esp 2 s AND 0x00FFFFFF)) s"

definition aret_CreatePenIndirect :: "u32 \<Rightarrow> gdi \<Rightarrow> u32 \<times> gdi" where
  "aret_CreatePenIndirect esp s = (let lp = WU esp 0 s in if lp = 0 then (0, s)
     else gdi_create GDIT_PEN (pen_init (geti (mem s) lp 0) (geti (mem s) lp 1) (ld32 (mem s) (lp + 12) AND 0x00FFFFFF)) s)"

definition aret_ExtCreatePen :: "u32 \<Rightarrow> gdi \<Rightarrow> u32 \<times> gdi" where
  "aret_ExtCreatePen esp s = (let style = WU esp 0 s; lb = WU esp 2 s in
     gdi_create GDIT_PEN (pen_init (int (unat (style AND 0xF))) (WI esp 1 s)
       (if lb = 0 then 0 else ld32 (mem s) (lb + 4) AND 0x00FFFFFF)) s)"

text \<open>
  A bitmap of \<open>w\<close> by \<open>h\<close> pixels in zeroed memory at \<open>ptr\<close>, which \<^verbatim>\<open>calloc\<close> returned; when it
  failed the slot is given back.
\<close>

definition new_bitmap :: "u32 \<Rightarrow> int \<Rightarrow> int \<Rightarrow> bool \<Rightarrow> gdi \<Rightarrow> u32 \<times> gdi" where
  "new_bitmap ptr w h td s = (case gdi_alloc GDIT_BITMAP s of (i, s) \<Rightarrow> if i = 0 then (0, s)
     else let s = upd_obj i (\<lambda>o'. o'\<lparr>bw := w, bh := h, topdown := td, bpp := 32, bits := ptr, owns_bits := True\<rparr>) s in
       if ptr = 0 then (0, upd_obj i (\<lambda>o'. o'\<lparr>used := False\<rparr>) s)
       else (gdi_handle i, s\<lparr>mem := st_bytes (mem s) ptr (replicate (nat (w * h * 4)) 0)\<rparr>))"

definition aret_CreateDIBSection :: "u32 \<Rightarrow> u32 \<Rightarrow> gdi \<Rightarrow> u32 \<times> gdi" where
  "aret_CreateDIBSection ptr esp s0 = (let bmi = WU esp 1 s0; ppv = WU esp 3 s0; s = put32 ppv 0 s0 in
     if bmi = 0 then (0, s)
     else let w = geti (mem s) bmi 1; bh' = geti (mem s) bmi 2; h = (if bh' < 0 then c_int (- bh') else bh') in
       if ld16 (mem s) (bmi + 14) \<noteq> 32 then (0, s)
       else if w \<le> 0 \<or> h \<le> 0 then (0, s)
       else case new_bitmap ptr w h (bh' < 0) s of (hb, s) \<Rightarrow>
         if hb = 0 then (0, s) else (hb, put32 ppv ptr s))"

definition aret_CreateCompatibleBitmap :: "u32 \<Rightarrow> u32 \<Rightarrow> gdi \<Rightarrow> u32 \<times> gdi" where
  "aret_CreateCompatibleBitmap ptr esp s = (let w = WI esp 1 s; h = WI esp 2 s in
     if w \<le> 0 \<or> h \<le> 0 then (0, s) else new_bitmap ptr w h True s)"

definition aret_GetObjectA :: "u32 \<Rightarrow> gdi \<Rightarrow> u32 \<times> gdi" where
  "aret_GetObjectA esp s = (let cb = WI esp 1 s; lpv = WU esp 2 s in
     case gdi_idx (g_gdi s) (WU esp 0 s) of None \<Rightarrow> (0, s)
     | Some i \<Rightarrow> if lpv = 0 then (0, s)
       else let b = obj s i; w16 = (\<lambda>a v s. s\<lparr>mem := st16 (mem s) (lpv + a) v\<rparr>); w32 = (\<lambda>a v s. s\<lparr>mem := st32 (mem s) (lpv + a) v\<rparr>) in
         case type b of
           GDIT_BITMAP \<Rightarrow> if cb < 24 then (0, s)
             else (24, w32 20 (bits b) (w16 18 (word_of_int (bpp b)) (w16 16 1
                    (seti lpv 3 (c_div (c_int (bw b * bpp b + 15)) 16 * 2) (seti lpv 2 (bh b) (seti lpv 1 (bw b) (seti lpv 0 0 s)))))))
         | GDIT_BRUSH \<Rightarrow> if cb < 12 then (0, s)
             else (12, w32 8 0 (w32 4 (color b) (w32 0 (if null_obj b then 1 else 0) s)))
         | GDIT_PALETTE \<Rightarrow> if cb < 2 then (0, s) else (2, w16 0 (word_of_int (pal_count b)) s)
         | _ \<Rightarrow> (0, s))"

definition aret_GetObjectW :: "u32 \<Rightarrow> gdi \<Rightarrow> u32 \<times> gdi" where
  "aret_GetObjectW esp s = aret_GetObjectA esp s"

section \<open>Attributes of a device context\<close>

definition aret_SetTextColor :: "u32 \<Rightarrow> gdi \<Rightarrow> u32 \<times> gdi" where
  "aret_SetTextColor esp s = (case gdi_idx (g_gdi s) (WU esp 0 s) of None \<Rightarrow> (0xFFFFFFFF, s)
     | Some d \<Rightarrow> (text_color (obj s d), upd_obj d (\<lambda>o'. o'\<lparr>text_color := WU esp 1 s AND 0xFFFFFF\<rparr>) s))"

definition aret_SetBkColor :: "u32 \<Rightarrow> gdi \<Rightarrow> u32 \<times> gdi" where
  "aret_SetBkColor esp s = (case gdi_idx (g_gdi s) (WU esp 0 s) of None \<Rightarrow> (0xFFFFFFFF, s)
     | Some d \<Rightarrow> (bk_color (obj s d), upd_obj d (\<lambda>o'. o'\<lparr>bk_color := WU esp 1 s AND 0xFFFFFF\<rparr>) s))"

definition aret_SetBkMode :: "u32 \<Rightarrow> gdi \<Rightarrow> u32 \<times> gdi" where
  "aret_SetBkMode esp s = with_obj (WU esp 0 s) s (\<lambda>d. (word_of_int (bk_mode (obj s d)), upd_obj d (\<lambda>o'. o'\<lparr>bk_mode := WI esp 1 s\<rparr>) s))"

definition aret_GetTextColor :: "u32 \<Rightarrow> gdi \<Rightarrow> u32 \<times> gdi" where
  "aret_GetTextColor esp s = (case gdi_idx (g_gdi s) (WU esp 0 s) of None \<Rightarrow> 0xFFFFFFFF | Some d \<Rightarrow> text_color (obj s d), s)"

definition aret_GetBkColor :: "u32 \<Rightarrow> gdi \<Rightarrow> u32 \<times> gdi" where
  "aret_GetBkColor esp s = (case gdi_idx (g_gdi s) (WU esp 0 s) of None \<Rightarrow> 0xFFFFFFFF | Some d \<Rightarrow> bk_color (obj s d), s)"

definition aret_SetTextAlign :: "u32 \<Rightarrow> gdi \<Rightarrow> u32 \<times> gdi" where
  "aret_SetTextAlign esp s = (case gdi_idx (g_gdi s) (WU esp 0 s) of None \<Rightarrow> (0xFFFFFFFF, s)
     | Some d \<Rightarrow> (text_align (obj s d), upd_obj d (\<lambda>o'. o'\<lparr>text_align := WU esp 1 s\<rparr>) s))"

definition aret_GetTextAlign :: "u32 \<Rightarrow> gdi \<Rightarrow> u32 \<times> gdi" where
  "aret_GetTextAlign esp s = (case gdi_idx (g_gdi s) (WU esp 0 s) of None \<Rightarrow> 0xFFFFFFFF | Some d \<Rightarrow> text_align (obj s d), s)"

text \<open>\<^verbatim>\<open>GetDeviceCaps\<close>: the fixed metrics of the virtual 1024 by 768 display.\<close>

definition aret_GetDeviceCaps :: "u32 \<Rightarrow> gdi \<Rightarrow> u32 \<times> gdi" where
  "aret_GetDeviceCaps esp s = (let k = WI esp 1 s in
     (if k = 2 then 1 else if k = 8 then 1024 else if k = 10 then 768 else if k = 12 then 32 else if k = 14 then 1
      else if k = 88 then 96 else if k = 90 then 96 else if k = 24 then -1 else if k = 104 then 1
      else if k = 4 then 320 else if k = 6 then 240 else 0, s))"

section \<open>Drawing\<close>

definition gdi_brush_color :: "gdi_obj list \<Rightarrow> u32 \<Rightarrow> u32 option" where
  "gdi_brush_color G hb = (case gdi_idx G hb of
       Some b \<Rightarrow> if type (G ! b) = GDIT_BRUSH then (if null_obj (G ! b) then None else Some (color (G ! b)))
         else if 1 \<le> hb \<and> hb \<le> 31 then Some (u32_syscolor (sint hb - 1)) else None
     | None \<Rightarrow> if 1 \<le> hb \<and> hb \<le> 31 then Some (u32_syscolor (sint hb - 1)) else None)"

definition fill :: "gdi_obj \<Rightarrow> rect \<Rightarrow> u32 \<Rightarrow> gdi \<Rightarrow> gdi" where
  "fill bm q c s = s\<lparr>mem := for_xy q (\<lambda>x y. gdi_put bm x y c) (mem s)\<rparr>"

definition u32_fill_dc_brush :: "u32 \<Rightarrow> u32 \<Rightarrow> gdi \<Rightarrow> gdi" where
  "u32_fill_dc_brush hdc brush s = (case (gdi_dc_surface (g_gdi s) hdc, gdi_brush_color (g_gdi s) brush) of
       (Some b, Some c) \<Rightarrow> fill (obj s b) (0, 0, bw (obj s b), bh (obj s b)) c s | _ \<Rightarrow> s)"

text \<open>A drawing call needs a device context with a surface; \<open>e\<close> is what it returns without.\<close>

definition on_surface :: "u32 \<Rightarrow> u32 \<Rightarrow> gdi \<Rightarrow> (gdi_obj \<Rightarrow> gdi_obj \<Rightarrow> u32 \<times> gdi) \<Rightarrow> u32 \<times> gdi" where
  "on_surface hdc e s f = (case (gdi_idx (g_gdi s) hdc, gdi_dc_surface (g_gdi s) hdc) of
       (Some d, Some b) \<Rightarrow> f (obj s d) (obj s b) | _ \<Rightarrow> (e, s))"

definition aret_SetPixel :: "u32 \<Rightarrow> gdi \<Rightarrow> u32 \<times> gdi" where
  "aret_SetPixel esp s = on_surface (WU esp 0 s) 0xFFFFFFFF s (\<lambda>d bm.
     let (x, y) = dc_l2d d (WI esp 1 s) (WI esp 2 s); c = WU esp 3 s AND 0x00FFFFFF in
     if gdi_px bm x y = 0 then (0xFFFFFFFF, s) else (c, s\<lparr>mem := gdi_put bm x y c (mem s)\<rparr>))"

definition aret_SetPixelV :: "u32 \<Rightarrow> gdi \<Rightarrow> u32 \<times> gdi" where
  "aret_SetPixelV esp s = on_surface (WU esp 0 s) 0 s (\<lambda>d bm.
     let (x, y) = dc_l2d d (WI esp 1 s) (WI esp 2 s) in
     if gdi_px bm x y = 0 then (0, s) else (1, s\<lparr>mem := gdi_put bm x y (WU esp 3 s AND 0x00FFFFFF) (mem s)\<rparr>))"

definition aret_GetPixel :: "u32 \<Rightarrow> gdi \<Rightarrow> u32 \<times> gdi" where
  "aret_GetPixel esp s = on_surface (WU esp 0 s) 0xFFFFFFFF s (\<lambda>d bm.
     let (x, y) = dc_l2d d (WI esp 1 s) (WI esp 2 s) in (gdi_getpx bm x y (mem s), s))"

text \<open>\<^verbatim>\<open>gdi_pen\<close> answers \<^verbatim>\<open>-1\<close> (a pen outside the model), \<^verbatim>\<open>0\<close> (no pen) or \<^verbatim>\<open>1\<close> with the colour.\<close>

datatype pen = PenPartial | PenNull | PenColor u32

definition gdi_pen :: "gdi_obj list \<Rightarrow> gdi_obj \<Rightarrow> pen" where
  "gdi_pen G d = (case gdi_idx G (sel_pen d) of None \<Rightarrow> PenColor 0
     | Some p \<Rightarrow> if null_obj (G ! p) then PenNull
         else if \<not> stock (G ! p) \<and> (pen_style (G ! p) \<noteq> 0 \<or> pen_width (G ! p) > 1) then PenPartial
         else PenColor (color (G ! p)))"

text \<open>
  One round of the two Bresenham loops: plot, step the minor coordinate when the error is
  positive, step the major one. \<^verbatim>\<open>if (gdi_px(...)) gdi_put(...)\<close> is \<^verbatim>\<open>gdi_put\<close>, which tests the
  same.
\<close>

definition bres_x :: "gdi_obj \<Rightarrow> u32 \<Rightarrow> int \<Rightarrow> int \<Rightarrow> int \<Rightarrow> int \<Rightarrow> int \<times> int \<times> int \<times> guest_mem \<Rightarrow> int \<times> int \<times> int \<times> guest_mem" where
  "bres_x bm c sx sy adx ady = (\<lambda>(x, y, err, m).
     let (y', err') = (if err > 0 then (c_int (y + sy), c_int (err - 2 * adx)) else (y, err))
     in (c_int (x + sx), y', c_int (err' + 2 * ady), gdi_put bm x y c m))"

definition bres_y :: "gdi_obj \<Rightarrow> u32 \<Rightarrow> int \<Rightarrow> int \<Rightarrow> int \<Rightarrow> int \<Rightarrow> int \<times> int \<times> int \<times> guest_mem \<Rightarrow> int \<times> int \<times> int \<times> guest_mem" where
  "bres_y bm c sx sy adx ady = (\<lambda>(x, y, err, m).
     let (x', err') = (if err > 0 then (c_int (x + sx), c_int (err - 2 * ady)) else (x, err))
     in (x', c_int (y + sy), c_int (err' + 2 * adx), gdi_put bm x y c m))"

definition gdi_bres :: "gdi_obj \<Rightarrow> int \<Rightarrow> int \<Rightarrow> int \<Rightarrow> int \<Rightarrow> u32 \<Rightarrow> guest_mem \<Rightarrow> guest_mem" where
  "gdi_bres bm x0 y0 x1 y1 c m =
     (let dx = c_int (x1 - x0); dy = c_int (y1 - y0);
          sx = (if dx < 0 then -1 else 1); sy = (if dy < 0 then -1 else 1);
          adx = (if dx < 0 then c_int (- dx) else dx); ady = (if dy < 0 then c_int (- dy) else dy) in
      if adx \<ge> ady then (case (bres_x bm c sx sy adx ady ^^ nat adx) (x0, y0, c_int (2 * ady - adx), m) of (x, y, err, m) \<Rightarrow> m)
      else (case (bres_y bm c sx sy adx ady ^^ nat ady) (x0, y0, c_int (2 * adx - ady), m) of (x, y, err, m) \<Rightarrow> m))"

definition aret_MoveToEx :: "u32 \<Rightarrow> gdi \<Rightarrow> u32 \<times> gdi" where
  "aret_MoveToEx esp = swap_pt 3 cur_x cur_y (\<lambda>s o'. o'\<lparr>cur_x := WI esp 1 s, cur_y := WI esp 2 s\<rparr>) esp"

definition aret_GetCurrentPositionEx :: "u32 \<Rightarrow> gdi \<Rightarrow> u32 \<times> gdi" where
  "aret_GetCurrentPositionEx esp = swap_pt 1 cur_x cur_y (\<lambda>s o'. o') esp"

text \<open>A segment between two points in logical coordinates, when there is a 32-bit surface and a pen.\<close>

definition draw_segment :: "gdi_obj \<Rightarrow> nat option \<Rightarrow> pen \<Rightarrow> int \<times> int \<Rightarrow> int \<times> int \<Rightarrow> gdi \<Rightarrow> gdi" where
  "draw_segment d bmo pr p q s = (case (bmo, pr) of
       (Some b, PenColor c) \<Rightarrow> if bpp (obj s b) = 32 then
           let (x0, y0) = dc_l2d d (fst p) (snd p); (x1, y1) = dc_l2d d (fst q) (snd q)
           in s\<lparr>mem := gdi_bres (obj s b) x0 y0 x1 y1 c (mem s)\<rparr> else s
     | _ \<Rightarrow> s)"

definition aret_LineTo :: "u32 \<Rightarrow> gdi \<Rightarrow> u32 \<times> gdi" where
  "aret_LineTo esp s = (case dc_idx (g_gdi s) (WU esp 0 s) of None \<Rightarrow> (0, s)
     | Some d \<Rightarrow> let pr = gdi_pen (g_gdi s) (obj s d) in if pr = PenPartial then (0, s)
         else let s' = draw_segment (obj s d) (gdi_dc_surface (g_gdi s) (WU esp 0 s)) pr
                  (cur_x (obj s d), cur_y (obj s d)) (WI esp 1 s, WI esp 2 s) s
           in (1, upd_obj d (\<lambda>o'. o'\<lparr>cur_x := WI esp 1 s', cur_y := WI esp 2 s'\<rparr>) s'))"

definition gdi_brush :: "gdi_obj list \<Rightarrow> gdi_obj \<Rightarrow> u32 option" where
  "gdi_brush G d = (case gdi_idx G (sel_brush d) of None \<Rightarrow> None
     | Some b \<Rightarrow> if null_obj (G ! b) then None else Some (color (G ! b)))"

definition aret_Polyline :: "u32 \<Rightarrow> gdi \<Rightarrow> u32 \<times> gdi" where
  "aret_Polyline esp s = (case dc_idx (g_gdi s) (WU esp 0 s) of None \<Rightarrow> (0, s)
     | Some d \<Rightarrow> let pr = gdi_pen (g_gdi s) (obj s d); pts = WU esp 1 s; n = WI esp 2 s in if pr = PenPartial then (0, s)
         else if pts = 0 \<or> n < 2 then (1, s)
         else (1, fold (\<lambda>i s'. draw_segment (obj s d) (gdi_dc_surface (g_gdi s) (WU esp 0 s)) pr
                 (geti (mem s') pts (2 * i), geti (mem s') pts (2 * i + 1))
                 (geti (mem s') pts (2 * i + 2), geti (mem s') pts (2 * i + 3)) s') [0..<nat (n - 1)] s))"

end
