(* ===== verification/Aret_Draw.thy ===== *)
theory Aret_Draw
  imports Aret_Gdi
begin

text \<open>
  Drawing on the 32-bit surface of a device context: rectangles, frames, inversion and focus
  rectangles, 3D edges, block transfers with their raster operations, and the palettes. The
  bounds of a RECT argument are read once, before the loops: a RECT that lies inside the very
  pixels being drawn is outside this model.
\<close>

section \<open>Rectangles\<close>

text \<open>The four one-pixel lines of the outline of \<open>[l, r) \<times> [t, b)\<close>: rows first, then columns.\<close>

definition draw_outline :: "gdi_obj \<Rightarrow> rect \<Rightarrow> u32 \<Rightarrow> guest_mem \<Rightarrow> guest_mem" where
  "draw_outline bm q c m = (case q of (l, t, r, b) \<Rightarrow>
     let m = fold (\<lambda>x m. gdi_put bm x (b - 1) c (gdi_put bm x t c m)) [l..r - 1] m
     in fold (\<lambda>y m. gdi_put bm (r - 1) y c (gdi_put bm l y c m)) [t..b - 1] m)"

definition aret_Rectangle :: "u32 \<Rightarrow> gdi \<Rightarrow> u32 \<times> gdi" where
  "aret_Rectangle esp s = (case dc_idx (g_gdi s) (WU esp 0 s) of None \<Rightarrow> (0, s)
     | Some d \<Rightarrow> let (l, t) = dc_l2d (obj s d) (WI esp 1 s) (WI esp 2 s); (r, b) = dc_l2d (obj s d) (WI esp 3 s) (WI esp 4 s);
         pr = gdi_pen (g_gdi s) (obj s d) in
       if pr = PenPartial then (0, s)
       else case gdi_dc_surface (g_gdi s) (WU esp 0 s) of None \<Rightarrow> (1, s)
         | Some k \<Rightarrow> let bm = obj s k in if bpp bm = 32 \<and> r > l \<and> b > t then
             let m = (case gdi_brush (g_gdi s) (obj s d) of None \<Rightarrow> mem s
                | Some bc \<Rightarrow> for_xy (l + 1, t + 1, r - 1, b - 1) (\<lambda>x y. gdi_put bm x y bc) (mem s))
             in (1, s\<lparr>mem := (case pr of PenColor pc \<Rightarrow> draw_outline bm (l, t, r, b) pc m | _ \<Rightarrow> m)\<rparr>)
           else (1, s))"

text \<open>
  The guards of the drawing calls that do not apply the mapping mode: a device context with the
  identity map and a surface, and a RECT.
\<close>

definition rect_call :: "u32 \<Rightarrow> gdi \<Rightarrow> (gdi_obj \<Rightarrow> rect \<Rightarrow> u32 \<times> gdi) \<Rightarrow> u32 \<times> gdi" where
  "rect_call esp s f = (if GDI_MAP_GUARD (g_gdi s) (WU esp 0 s) then (0, s)
     else case gdi_dc_surface (g_gdi s) (WU esp 0 s) of None \<Rightarrow> (0, s)
       | Some b \<Rightarrow> if WU esp 1 s = 0 then (0, s) else f (obj s b) (rect_at (mem s) (WU esp 1 s)))"

definition aret_FrameRect :: "u32 \<Rightarrow> gdi \<Rightarrow> u32 \<times> gdi" where
  "aret_FrameRect esp s = rect_call esp s (\<lambda>bm q.
     case gdi_brush_color (g_gdi s) (WU esp 2 s) of None \<Rightarrow> (1, s)
     | Some c \<Rightarrow> (1, if bpp bm = 32 \<and> \<not> rect_empty q then s\<lparr>mem := draw_outline bm q c (mem s)\<rparr> else s))"

text \<open>\<^verbatim>\<open>p[k] = ~p[k]\<close> for the first \<open>n\<close> bytes of a pixel.\<close>

definition invert_px :: "nat \<Rightarrow> gdi_obj \<Rightarrow> int \<Rightarrow> int \<Rightarrow> guest_mem \<Rightarrow> guest_mem" where
  "invert_px n bm x y m = (let p = gdi_px bm x y in if p = 0 then m
     else fold (\<lambda>k m. m(p + of_nat k := NOT (m (p + of_nat k)))) [0..<n] m)"

definition aret_InvertRect :: "u32 \<Rightarrow> gdi \<Rightarrow> u32 \<times> gdi" where
  "aret_InvertRect esp s = rect_call esp s (\<lambda>bm q. (1, s\<lparr>mem := for_xy q (invert_px 4 bm) (mem s)\<rparr>))"

text \<open>The macro \<^verbatim>\<open>FR_DOT\<close>: every other border pixel, by the parity of its coordinates.\<close>

definition FR_DOT :: "gdi_obj \<Rightarrow> int \<Rightarrow> int \<Rightarrow> guest_mem \<Rightarrow> guest_mem" where
  "FR_DOT bm x y m = (if odd (x + y) then invert_px 3 bm x y m else m)"

definition aret_DrawFocusRect :: "u32 \<Rightarrow> gdi \<Rightarrow> u32 \<times> gdi" where
  "aret_DrawFocusRect esp s = rect_call esp s (\<lambda>bm q. case q of (l, t, r, b) \<Rightarrow>
     if rect_empty q then (1, s)
     else let m = fold (\<lambda>x m. FR_DOT bm x (b - 1) (FR_DOT bm x t m)) [l..r - 1] (mem s)
       in (1, s\<lparr>mem := fold (\<lambda>y m. FR_DOT bm (r - 1) y (FR_DOT bm l y m)) [t + 1..b - 2] m\<rparr>))"

text \<open>The system colours of the two rings of an edge: outer and inner, top-left and bottom-right.\<close>

definition edge_colors :: "u32 \<Rightarrow> u32 \<Rightarrow> (int \<times> int \<times> int \<times> int) option" where
  "edge_colors edge flags =
     (if edge = 5 then Some (if flags AND 0x1000 \<noteq> 0 then (20, 21, 22, 16) else (22, 21, 20, 16))
      else if edge = 0xA then Some (16, 20, 21, 22)
      else if edge = 6 then Some (16, 20, 20, 16) else None)"

definition u32_drawedge :: "gdi_obj \<Rightarrow> rect \<Rightarrow> u32 \<Rightarrow> u32 \<Rightarrow> guest_mem \<Rightarrow> u32 \<times> guest_mem" where
  "u32_drawedge bm q edge flags m =
     (if flags AND NOT 0x180F \<noteq> 0 \<or> flags AND 0xF \<noteq> 0xF then (0, m)
      else case edge_colors edge flags of None \<Rightarrow> (0, m)
        | Some (lo, bo, li, bi) \<Rightarrow> (case q of (l, t, rt, b) \<Rightarrow>
            if c_int (rt - l) < 2 \<or> c_int (b - t) < 2 then (1, m)
            else let m = for_xy q (\<lambda>x y.
                if x = l \<or> x = rt - 1 \<or> y = t \<or> y = b - 1
                then gdi_put bm x y (u32_syscolor (if x = rt - 1 \<or> y = b - 1 then bo else lo))
                else if x = l + 1 \<or> x = rt - 2 \<or> y = t + 1 \<or> y = b - 2
                then gdi_put bm x y (u32_syscolor (if x = rt - 2 \<or> y = b - 2 then bi else li))
                else (\<lambda>m. m)) m
              in (1, if flags AND 0x800 \<noteq> 0 then for_xy (l + 2, t + 2, rt - 2, b - 2) (\<lambda>x y. gdi_put bm x y (u32_syscolor 15)) m
                     else m)))"

definition aret_DrawEdge :: "u32 \<Rightarrow> gdi \<Rightarrow> u32 \<times> gdi" where
  "aret_DrawEdge esp s = rect_call esp s (\<lambda>bm q.
     case u32_drawedge bm q (WU esp 2 s) (WU esp 3 s) (mem s) of (v, m) \<Rightarrow> (v, s\<lparr>mem := m\<rparr>))"

text \<open>\<^verbatim>\<open>PolylineTo\<close>: the points are plotted as they are read, without the mapping.\<close>

definition aret_PolylineTo :: "u32 \<Rightarrow> gdi \<Rightarrow> u32 \<times> gdi" where
  "aret_PolylineTo esp s = (if GDI_MAP_GUARD (g_gdi s) (WU esp 0 s) then (0, s)
     else case dc_idx (g_gdi s) (WU esp 0 s) of None \<Rightarrow> (0, s)
       | Some d \<Rightarrow> let pr = gdi_pen (g_gdi s) (obj s d); pts = WU esp 1 s; n = WI esp 2 s;
             srf = gdi_dc_surface (g_gdi s) (WU esp 0 s) in
           if pr = PenPartial then (0, s)
           else if pts = 0 \<or> n < 1 then (1, s)
           else let (cx, cy, s) = fold (\<lambda>i (cx, cy, s).
                    let nx = geti (mem s) pts (2 * i); ny = geti (mem s) pts (2 * i + 1) in
                    (nx, ny, case (srf, pr) of (Some b, PenColor c) \<Rightarrow> if bpp (obj s b) = 32
                        then s\<lparr>mem := gdi_bres (obj s b) cx cy nx ny c (mem s)\<rparr> else s | _ \<Rightarrow> s))
                  [0..<nat n] (cur_x (obj s d), cur_y (obj s d), s)
             in (1, upd_obj d (\<lambda>o'. o'\<lparr>cur_x := cx, cur_y := cy\<rparr>) s))"

definition aret_FillRect :: "u32 \<Rightarrow> gdi \<Rightarrow> u32 \<times> gdi" where
  "aret_FillRect esp s = rect_call esp s (\<lambda>bm q.
     case gdi_brush_color (g_gdi s) (WU esp 2 s) of None \<Rightarrow> (1, s) | Some c \<Rightarrow> (1, fill bm q c s))"

section \<open>Block transfers\<close>

definition PATCOPY :: u32 where "PATCOPY = 0x00F00021"

definition BLACKNESS :: u32 where "BLACKNESS = 0x00000042"

definition WHITENESS :: u32 where "WHITENESS = 0x00FF0062"

definition aret_PatBlt :: "u32 \<Rightarrow> gdi \<Rightarrow> u32 \<times> gdi" where
  "aret_PatBlt esp s = (if GDI_MAP_GUARD (g_gdi s) (WU esp 0 s) then (0, s)
     else on_surface (WU esp 0 s) 0 s (\<lambda>d bm.
       let x0 = WI esp 1 s; y0 = WI esp 2 s; q = (x0, y0, c_int (x0 + WI esp 3 s), c_int (y0 + WI esp 4 s)); rop = WU esp 5 s in
       if rop = PATCOPY then (case gdi_idx (g_gdi s) (sel_brush d) of None \<Rightarrow> (0, s)
           | Some b \<Rightarrow> if null_obj (obj s b) then (1, s) else (1, fill bm q (color (obj s b)) s))
       else if rop = BLACKNESS then (1, fill bm q 0 s)
       else if rop = WHITENESS then (1, fill bm q 0xFFFFFF s) else (0, s)))"

definition gdi_rop_needs_src :: "u32 \<Rightarrow> bool" where
  "gdi_rop_needs_src rop \<longleftrightarrow> \<not> (rop = 0x00550009 \<or> rop = BLACKNESS \<or> rop = WHITENESS)"

definition gdi_rop_apply :: "u32 \<Rightarrow> u32 \<Rightarrow> u32 \<Rightarrow> u32 option" where
  "gdi_rop_apply rop s d =
     (if rop = 0x00CC0020 then Some s else if rop = 0x008800C6 then Some (s AND d)
      else if rop = 0x00EE0086 then Some (s OR d) else if rop = 0x00660046 then Some (s XOR d)
      else if rop = 0x00330008 then Some (NOT s) else if rop = 0x00440328 then Some (s AND NOT d)
      else if rop = 0x001100A6 then Some (NOT (s OR d)) else if rop = 0x00BB0226 then Some (NOT s OR d)
      else if rop = 0x00550009 then Some (NOT d) else if rop = BLACKNESS then Some 0
      else if rop = WHITENESS then Some (NOT 0) else None)"

text \<open>
  One destination pixel: nothing outside either bitmap, else the raster operation on the 32 bits
  of source and destination; \<open>src\<close> is None for the operations that read no source.
\<close>

definition blt_px :: "u32 \<Rightarrow> gdi_obj \<Rightarrow> int \<Rightarrow> int \<Rightarrow> (gdi_obj \<times> int \<times> int) option \<Rightarrow> guest_mem \<Rightarrow> guest_mem" where
  "blt_px rop dst x y src m = (let d = gdi_px dst x y;
       p = (case src of None \<Rightarrow> d | Some (bm, sx, sy) \<Rightarrow> gdi_px bm sx sy);
       S = (case src of None \<Rightarrow> 0 | Some _ \<Rightarrow> ld32 m p) in
     if d = 0 \<or> p = 0 then m
     else case gdi_rop_apply rop S (ld32 m d) of None \<Rightarrow> m | Some R \<Rightarrow> st32 m d R)"

text \<open>
  \<^verbatim>\<open>BitBlt\<close> and \<^verbatim>\<open>StretchBlt\<close> share their guards: the raster operation is known, the destination
  has a surface and so does the source when the operation reads it.
\<close>

definition blt_call :: "u32 \<Rightarrow> u32 \<Rightarrow> gdi \<Rightarrow> (gdi_obj \<Rightarrow> gdi_obj option \<Rightarrow> u32 \<times> gdi) \<Rightarrow> u32 \<times> gdi" where
  "blt_call rop esp s f = (if GDI_MAP_GUARD (g_gdi s) (WU esp 0 s) then (0, s)
     else if gdi_rop_apply rop 0 0 = None then (0, s)
     else case gdi_dc_surface (g_gdi s) (WU esp 0 s) of None \<Rightarrow> (0, s)
       | Some b \<Rightarrow> if \<not> gdi_rop_needs_src rop then f (obj s b) None
           else case gdi_dc_surface (g_gdi s) (WU esp 5 s) of None \<Rightarrow> (0, s)
             | Some k \<Rightarrow> f (obj s b) (Some (obj s k)))"

definition aret_BitBlt :: "u32 \<Rightarrow> gdi \<Rightarrow> u32 \<times> gdi" where
  "aret_BitBlt esp s = (let rop = WU esp 8 s in blt_call rop esp s (\<lambda>dst src.
     let dx = WI esp 1 s; dy = WI esp 2 s; w = WI esp 3 s; h = WI esp 4 s; sx = WI esp 6 s; sy = WI esp 7 s in
     (1, s\<lparr>mem := for_xy (0, 0, w, h) (\<lambda>i j. blt_px rop dst (c_int (dx + i)) (c_int (dy + j))
            (map_option (\<lambda>bm. (bm, c_int (sx + i), c_int (sy + j))) src)) (mem s)\<rparr>)))"

definition aret_StretchBlt :: "u32 \<Rightarrow> gdi \<Rightarrow> u32 \<times> gdi" where
  "aret_StretchBlt esp s = (let rop = WU esp 10 s in blt_call rop esp s (\<lambda>dst src.
     let dx = WI esp 1 s; dy = WI esp 2 s; dw = WI esp 3 s; dh = WI esp 4 s;
         sx = WI esp 6 s; sy = WI esp 7 s; sw = WI esp 8 s; sh = WI esp 9 s in
     if dw \<le> 0 \<or> dh \<le> 0 \<or> (src \<noteq> None \<and> (sw \<le> 0 \<or> sh \<le> 0)) then (0, s)
     else (1, s\<lparr>mem := for_xy (0, 0, dw, dh) (\<lambda>i j. blt_px rop dst (c_int (dx + i)) (c_int (dy + j))
            (map_option (\<lambda>bm. (bm, c_int (sx + c_div (c_int (i * sw)) dw), c_int (sy + c_div (c_int (j * sh)) dh))) src)) (mem s)\<rparr>)))"

text \<open>
  The alpha blend of one channel, on the \<^verbatim>\<open>int\<close> values of the bytes: with the source's own alpha
  (\<^verbatim>\<open>AC_SRC_ALPHA\<close>) or with the constant alpha alone.
\<close>

definition blend_px :: "int \<Rightarrow> int \<Rightarrow> gdi_obj \<Rightarrow> int \<Rightarrow> int \<Rightarrow> gdi_obj \<Rightarrow> int \<Rightarrow> int \<Rightarrow> guest_mem \<Rightarrow> guest_mem" where
  "blend_px ca af src sx sy dst x y m = (let p = gdi_px src sx sy; d = gdi_px dst x y in
     if p = 0 \<or> d = 0 then m
     else let a = uint (m (p + 3)) * ca div 255 in
       fold (\<lambda>c m. let sb = uint (m (p + of_nat c)); db = uint (m (d + of_nat c)) in
         m(d + of_nat c := word_of_int (if odd af then sb * ca div 255 + db * (255 - a) div 255
                                         else (sb * ca + db * (255 - ca)) div 255))) [0..<3] m)"

definition aret_GdiAlphaBlend :: "u32 \<Rightarrow> gdi \<Rightarrow> u32 \<times> gdi" where
  "aret_GdiAlphaBlend esp s = (case (gdi_dc_surface (g_gdi s) (WU esp 0 s), gdi_dc_surface (g_gdi s) (WU esp 5 s)) of
       (Some b, Some k) \<Rightarrow>
         let dx = WI esp 1 s; dy = WI esp 2 s; dw = WI esp 3 s; dh = WI esp 4 s;
             sx = WI esp 6 s; sy = WI esp 7 s; sw = WI esp 8 s; sh = WI esp 9 s; bf = WU esp 10 s;
             ca = uint (drop_bit 16 bf AND 0xFF); af = uint (drop_bit 24 bf AND 0xFF) in
         if dw \<le> 0 \<or> dh \<le> 0 \<or> sw \<le> 0 \<or> sh \<le> 0 then (0, s)
         else (1, s\<lparr>mem := for_xy (0, 0, dw, dh) (\<lambda>i j. blend_px ca af
              (obj s k) (c_int (sx + c_div (c_int (i * sw)) dw)) (c_int (sy + c_div (c_int (j * sh)) dh))
              (obj s b) (c_int (dx + i)) (c_int (dy + j))) (mem s)\<rparr>)
     | _ \<Rightarrow> (0, s))"

section \<open>Device-independent bitmaps\<close>

text \<open>\<^verbatim>\<open>GetDIBits\<close> without a buffer describes the bitmap in the BITMAPINFOHEADER.\<close>

definition dib_query :: "gdi_obj \<Rightarrow> u32 \<Rightarrow> gdi \<Rightarrow> gdi" where
  "dib_query bm bmi s = (let w = (\<lambda>a v s. s\<lparr>mem := st32 (mem s) (bmi + a) v\<rparr>); h = (\<lambda>a v s. s\<lparr>mem := st16 (mem s) (bmi + a) v\<rparr>)
     in w 20 (word_of_int (bw bm * bh bm * 4)) (w 16 3 (h 14 32 (h 12 1 (w 8 (word_of_int (bh bm)) (w 4 (word_of_int (bw bm)) s))))))"

text \<open>
  The scanlines \<^verbatim>\<open>start .. start + lines - 1\<close> that exist are copied one by one; the loop stops at
  the first one past the bitmap.
\<close>

definition copy_scans :: "gdi_obj \<Rightarrow> bool \<Rightarrow> u32 \<Rightarrow> u32 \<Rightarrow> nat list \<Rightarrow> guest_mem \<Rightarrow> guest_mem" where
  "copy_scans bm td_out start dst = fold (\<lambda>r m.
     let scan = sint (start + of_nat r); image_y = (if td_out then scan else bh bm - 1 - scan);
         mem_row = (if topdown bm then image_y else bh bm - 1 - image_y)
     in st_bytes m (dst + of_nat r * word_of_int (bw bm) * 4)
          (ld_bytes m (bits bm + word_of_int mem_row * word_of_int (bw bm) * 4) (nat (bw bm * 4))))"

definition aret_GetDIBits :: "u32 \<Rightarrow> gdi \<Rightarrow> u32 \<times> gdi" where
  "aret_GetDIBits esp s = (let start = WU esp 2 s; lines = WU esp 3 s; dst = WU esp 4 s; bmi = WU esp 5 s in
     case gdi_idx (g_gdi s) (WU esp 1 s) of None \<Rightarrow> (0, set_error 6 s)
     | Some b \<Rightarrow> let bm = obj s b in
         if type bm \<noteq> GDIT_BITMAP \<or> bits bm = 0 \<or> bmi = 0 then (0, set_error 6 s)
         else if dst = 0 then (word_of_int (bh bm), dib_query bm bmi s)
         else if ld16 (mem s) (bmi + 14) \<noteq> 32 then (0, s)
         else let td_out = sint (ld32 (mem s) (bmi + 8)) < 0;
              rs = takeWhile (\<lambda>r. sint (start + of_nat r) < bh bm) [0..<unat lines]
           in (of_nat (length rs), s\<lparr>mem := copy_scans bm td_out start dst rs (mem s)\<rparr>))"

text \<open>The three colour bytes of a source pixel as a COLORREF.\<close>

definition bgr :: "guest_mem \<Rightarrow> u32 \<Rightarrow> u32" where
  "bgr m p = ucast (m (p + 2)) OR push_bit 8 (ucast (m (p + 1))) OR push_bit 16 (ucast (m p))"

definition aret_StretchDIBits :: "u32 \<Rightarrow> gdi \<Rightarrow> u32 \<times> gdi" where
  "aret_StretchDIBits esp s = (if GDI_MAP_GUARD (g_gdi s) (WU esp 0 s) then (0, s)
     else let xD = WI esp 1 s; yD = WI esp 2 s; wD = WI esp 3 s; hD = WI esp 4 s;
       xS = WI esp 5 s; yS = WI esp 6 s; wS = WI esp 7 s; hS = WI esp 8 s; src = WU esp 9 s; bmi = WU esp 10 s in
     case gdi_dc_surface (g_gdi s) (WU esp 0 s) of None \<Rightarrow> (0, s)
     | Some b \<Rightarrow> if src = 0 \<or> bmi = 0 then (0, s)
         else let sw = geti (mem s) bmi 1; sh_raw = geti (mem s) bmi 2; sh = (if sh_raw < 0 then c_int (- sh_raw) else sh_raw) in
           if ld16 (mem s) (bmi + 14) \<noteq> 32 \<or> WU esp 12 s \<noteq> 0x00CC0020 \<or> wD \<noteq> wS \<or> hD \<noteq> hS then (0, s)
           else if xS \<noteq> 0 \<or> yS \<noteq> 0 \<or> wS \<noteq> sw \<or> hS \<noteq> sh then (0, s)
           else (word_of_int sh, s\<lparr>mem := for_xy (0, 0, sw, sh) (\<lambda>ix iy m.
               let srow = (if sh_raw < 0 then iy else sh - 1 - iy)
               in gdi_put (obj s b) (c_int (xD + ix)) (c_int (yD + iy)) (bgr m (src + word_of_int (srow * sw * 4 + ix * 4))) m) (mem s)\<rparr>))"

definition aret_SetDIBits :: "u32 \<Rightarrow> gdi \<Rightarrow> u32 \<times> gdi" where
  "aret_SetDIBits esp s = (case gdi_idx (g_gdi s) (WU esp 1 s) of None \<Rightarrow> (0, s)
     | Some b \<Rightarrow> if type (obj s b) \<noteq> GDIT_BITMAP then (0, s)
       else let bm = obj s b; start = WU esp 2 s; lines = WU esp 3 s; src = WU esp 4 s; h = WU esp 5 s in
         if src = 0 \<or> h = 0 then (0, s)
         else let W = geti (mem s) h 1; Hs = geti (mem s) h 2; H = (if Hs < 0 then c_int (- Hs) else Hs);
             bpp' = uint (drop_bit 16 (ld32 (mem s) (h + 12)) AND 0xFFFF); comp = ld32 (mem s) (h + 16) in
           if comp \<noteq> 0 \<or> (bpp' \<noteq> 32 \<and> bpp' \<noteq> 24) then (0, s)
           else let bppB = bpp' div 8; stride = sint ((word_of_int (W * bppB + 3) :: u32) AND NOT 3);
               ks = takeWhile (\<lambda>k. let scan = sint (start + of_nat k) in \<not> (scan < 0 \<or> scan \<ge> H)) [0..<unat lines]
             in (of_nat (length ks), s\<lparr>mem := fold (\<lambda>k m. let scan = sint (start + of_nat k); y = (if Hs > 0 then H - 1 - scan else scan) in
                  fold (\<lambda>x m. gdi_put bm x y (bgr m (src + word_of_int (scan * stride + x * bppB))) m) [0..W - 1] m) ks (mem s)\<rparr>))"

section \<open>Palettes\<close>

definition aret_CreatePalette :: "u32 \<Rightarrow> u32 \<Rightarrow> gdi \<Rightarrow> u32 \<times> gdi" where
  "aret_CreatePalette ptr esp s = (let lp = WU esp 0 s in if lp = 0 then (0, s)
     else let n = unat (ld16 (mem s) (lp + 2)) in
       case gdi_alloc GDIT_PALETTE s of (i, s) \<Rightarrow> if i = 0 then (0, s)
       else let s = upd_obj i (\<lambda>o'. o'\<lparr>pal_count := int n, pal := (if n = 0 then 0 else ptr)\<rparr>) s in
         (gdi_handle i, if n = 0 \<or> ptr = 0 then s
                        else s\<lparr>mem := st_bytes (mem s) ptr (ld_bytes (mem s) (lp + 4) (n * 4))\<rparr>))"

text \<open>\<^verbatim>\<open>k < count && (int)(start + k) < pal_count\<close>\<close>

definition pal_range :: "u32 \<Rightarrow> u32 \<Rightarrow> int \<Rightarrow> nat list" where
  "pal_range start count n = takeWhile (\<lambda>k. sint (start + of_nat k) < n) [0..<unat count]"

definition aret_GetPaletteEntries :: "u32 \<Rightarrow> gdi \<Rightarrow> u32 \<times> gdi" where
  "aret_GetPaletteEntries esp s = with_obj (WU esp 0 s) s (\<lambda>i. let o' = obj s i; start = WU esp 1 s; count = WU esp 2 s; out = WU esp 3 s in
     if type o' \<noteq> GDIT_PALETTE then (0, s)
     else if count = 0 then (word_of_int (pal_count o'), s)
     else if out = 0 then (0, s)
     else let ks = pal_range start count (pal_count o') in (of_nat (length ks),
       s\<lparr>mem := fold (\<lambda>k m. st_bytes m (out + of_nat k * 4) (ld_bytes m (pal o' + (start + of_nat k) * 4) 4)) ks (mem s)\<rparr>))"

definition aret_SetPaletteEntries :: "u32 \<Rightarrow> gdi \<Rightarrow> u32 \<times> gdi" where
  "aret_SetPaletteEntries esp s = with_obj (WU esp 0 s) s (\<lambda>i. let o' = obj s i; start = WU esp 1 s; count = WU esp 2 s; inp = WU esp 3 s in
     if type o' \<noteq> GDIT_PALETTE \<or> pal o' = 0 \<or> inp = 0 then (0, s)
     else let ks = pal_range start count (pal_count o') in (of_nat (length ks),
       s\<lparr>mem := fold (\<lambda>k m. st_bytes m (pal o' + (start + of_nat k) * 4) (ld_bytes m (inp + of_nat k * 4) 4)) ks (mem s)\<rparr>))"

text \<open>The squared distance of a colour to entry \<open>k\<close>, and the running minimum (\<^verbatim>\<open>bestd < 0\<close> is "none yet").\<close>

definition pal_dist :: "guest_mem \<Rightarrow> u32 \<Rightarrow> u32 \<Rightarrow> nat \<Rightarrow> int" where
  "pal_dist m p c k = (let e = (\<lambda>j. uint (m (p + of_nat k * 4 + j)));
       dr = uint (c AND 0xFF) - e 0; dg = uint (drop_bit 8 c AND 0xFF) - e 1; db = uint (drop_bit 16 c AND 0xFF) - e 2
     in dr * dr + dg * dg + db * db)"

definition nearest :: "(nat \<Rightarrow> int) \<Rightarrow> nat \<Rightarrow> nat" where
  "nearest d n = fst (fold (\<lambda>k (best, bestd). if bestd < 0 \<or> d k < bestd then (k, d k) else (best, bestd)) [0..<n] (0, - 1))"

definition aret_GetNearestPaletteIndex :: "u32 \<Rightarrow> gdi \<Rightarrow> u32 \<times> gdi" where
  "aret_GetNearestPaletteIndex esp s = with_obj (WU esp 0 s) s (\<lambda>i. let o' = obj s i in
     if type o' \<noteq> GDIT_PALETTE \<or> pal_count o' \<le> 0 \<or> pal o' = 0 then (0, s)
     else (of_nat (nearest (pal_dist (mem s) (pal o') (WU esp 1 s)) (nat (pal_count o'))), s))"

definition aret_ResizePalette :: "u32 \<Rightarrow> u32 \<Rightarrow> gdi \<Rightarrow> u32 \<times> gdi" where
  "aret_ResizePalette ptr esp s = with_obj (WU esp 0 s) s (\<lambda>i. let o' = obj s i; n = WU esp 1 s; ni = sint n in
     if type o' \<noteq> GDIT_PALETTE \<or> ptr = 0 then (0, s)
     else let copy = (if pal_count o' < ni then pal_count o' else ni);
         m = st_bytes (mem s) ptr (replicate (unat (if n = 0 then 1 else n) * 4) 0);
         m = (if pal o' \<noteq> 0 \<and> copy > 0 then st_bytes m ptr (ld_bytes m (pal o') (nat copy * 4)) else m)
       in (1, upd_obj i (\<lambda>o'. o'\<lparr>pal := ptr, pal_count := ni\<rparr>) (s\<lparr>mem := m\<rparr>)))"

definition aret_GetSystemPaletteEntries :: "u32 \<Rightarrow> gdi \<Rightarrow> u32 \<times> gdi" where
  "aret_GetSystemPaletteEntries esp s = (let start = WU esp 1 s; count = WU esp 2 s; out = WU esp 3 s in
     (0, if out = 0 then s else s\<lparr>mem := fold (\<lambda>k m. st_bytes m (out + of_nat k * 4) (u32_syspal_entry (sint (start + of_nat k))))
            [0..<unat count] (mem s)\<rparr>))"

definition aret_SelectPalette :: "u32 \<Rightarrow> u32 \<Rightarrow> gdi \<Rightarrow> u32 \<times> gdi" where
  "aret_SelectPalette ptr esp s = (case dc_idx (g_gdi s) (WU esp 0 s) of None \<Rightarrow> (0, s)
     | Some d \<Rightarrow> case (if sel_palette (obj s d) \<noteq> 0 then (sel_palette (obj s d), s) else u32_default_palette ptr s) of
         (prev, s') \<Rightarrow> (prev, upd_obj d (\<lambda>o'. o'\<lparr>sel_palette := WU esp 1 s'\<rparr>) s'))"

end
