(* ===== verification/Aret_Regions.thy ===== *)
theory Aret_Regions
  imports Aret_Gdi
begin

text \<open>
  Regions and clipping. A region is kept as its bounding rectangle with a flag that says it is
  not that rectangle; a device context's clip likewise. The shims are those of
  \<^verbatim>\<open>aret_win32.c\<close> from \<^verbatim>\<open>u32_make_rgn\<close> to \<^verbatim>\<open>CombineRgn\<close> and from \<^verbatim>\<open>u32_clip_type\<close> to
  \<^verbatim>\<open>ExtCreateRegion\<close>, without the two that store a region in a window.
\<close>

section \<open>Regions\<close>

definition rgn_of :: "gdi_obj \<Rightarrow> rect" where
  "rgn_of o' = (rgn_l o', rgn_t o', rgn_r o', rgn_b o')"

definition set_rgn :: "rect \<Rightarrow> bool \<Rightarrow> gdi_obj \<Rightarrow> gdi_obj" where
  "set_rgn q cx o' = (case q of (l, t, r, b) \<Rightarrow> o'\<lparr>rgn_l := l, rgn_t := t, rgn_r := r, rgn_b := b, rgn_complex := cx\<rparr>)"

text \<open>\<^verbatim>\<open>if (r < l) swap; if (b < t) swap;\<close>\<close>

definition normalize :: "rect \<Rightarrow> rect" where
  "normalize q = (case q of (l, t, r, b) \<Rightarrow>
     (if r < l then r else l, if b < t then b else t, if r < l then l else r, if b < t then t else b))"

definition u32_make_rgn :: "rect \<Rightarrow> gdi \<Rightarrow> u32 \<times> gdi" where
  "u32_make_rgn q s = gdi_create GDIT_RGN (set_rgn (normalize q) False) s"

definition aret_CreateRectRgn :: "u32 \<Rightarrow> gdi \<Rightarrow> u32 \<times> gdi" where
  "aret_CreateRectRgn esp s = u32_make_rgn (WI esp 0 s, WI esp 1 s, WI esp 2 s, WI esp 3 s) s"

definition aret_CreateRectRgnIndirect :: "u32 \<Rightarrow> gdi \<Rightarrow> u32 \<times> gdi" where
  "aret_CreateRectRgnIndirect esp s = (let r = WU esp 0 s in if r = 0 then (0, s) else u32_make_rgn (rect_at (mem s) r) s)"

text \<open>\<^verbatim>\<open>int i = gdi_idx(h); if (i >= 0 && ...) g_gdi[i].rgn_complex = 1; return h;\<close>\<close>

definition mark_complex :: "bool \<Rightarrow> u32 \<times> gdi \<Rightarrow> u32 \<times> gdi" where
  "mark_complex cx hs = (case hs of (h, s) \<Rightarrow> (h, case gdi_idx (g_gdi s) h of None \<Rightarrow> s
     | Some i \<Rightarrow> if cx then upd_obj i (\<lambda>o'. o'\<lparr>rgn_complex := True\<rparr>) s else s))"

definition aret_CreateRoundRectRgn :: "u32 \<Rightarrow> gdi \<Rightarrow> u32 \<times> gdi" where
  "aret_CreateRoundRectRgn esp s = mark_complex True (u32_make_rgn (WI esp 0 s, WI esp 1 s, WI esp 2 s, WI esp 3 s) s)"

text \<open>The bounding box of a polygon: \<^verbatim>\<open>POINT pts[n]\<close>, from the first point on.\<close>

definition poly_box :: "guest_mem \<Rightarrow> u32 \<Rightarrow> nat \<Rightarrow> rect" where
  "poly_box m pts n = fold (\<lambda>i (l, t, r, b). let x = geti m pts (2 * i); y = geti m pts (2 * i + 1) in
       (if x < l then x else l, if y < t then y else t, if x > r then x else r, if y > b then y else b))
     [1..<n] (geti m pts 0, geti m pts 1, geti m pts 0, geti m pts 1)"

definition aret_CreatePolygonRgn :: "u32 \<Rightarrow> gdi \<Rightarrow> u32 \<times> gdi" where
  "aret_CreatePolygonRgn esp s = (let pts = WU esp 0 s; n = WI esp 1 s in
     if pts = 0 \<or> n \<le> 0 then u32_make_rgn (0, 0, 0, 0) s
     else mark_complex True (u32_make_rgn (poly_box (mem s) pts (nat n)) s))"

definition aret_SetRectRgn :: "u32 \<Rightarrow> gdi \<Rightarrow> u32 \<times> gdi" where
  "aret_SetRectRgn esp s = with_obj (WU esp 0 s) s (\<lambda>i.
     (1, upd_obj i (set_rgn (normalize (WI esp 1 s, WI esp 2 s, WI esp 3 s, WI esp 4 s)) False) s))"

text \<open>NULLREGION 1, SIMPLEREGION 2, COMPLEXREGION 3.\<close>

definition u32_rgn_type :: "gdi_obj \<Rightarrow> u32" where
  "u32_rgn_type o' = (if rgn_r o' \<le> rgn_l o' \<or> rgn_b o' \<le> rgn_t o' then 1 else if rgn_complex o' then 3 else 2)"

definition aret_GetRgnBox :: "u32 \<Rightarrow> gdi \<Rightarrow> u32 \<times> gdi" where
  "aret_GetRgnBox esp s = with_obj (WU esp 0 s) s (\<lambda>i. let rc = WU esp 1 s in
     if rc = 0 then (0, s) else (u32_rgn_type (obj s i), put_rect rc (rgn_of (obj s i)) s))"

definition u32_rect_contains :: "gdi_obj \<Rightarrow> gdi_obj \<Rightarrow> bool" where
  "u32_rect_contains a b \<longleftrightarrow> rgn_l a \<le> rgn_l b \<and> rgn_t a \<le> rgn_t b \<and> rgn_r a \<ge> rgn_r b \<and> rgn_b a \<ge> rgn_b b"

text \<open>
  The bounding box and flag that \<^verbatim>\<open>CombineRgn\<close> computes from its operands: RGN_AND 1, RGN_OR 2,
  RGN_XOR 3, RGN_DIFF 4; everything else, and a missing second operand, copies the first.
\<close>

definition combine :: "u32 \<Rightarrow> gdi_obj \<Rightarrow> gdi_obj option \<Rightarrow> rect \<times> bool" where
  "combine mode a bo = (case bo of None \<Rightarrow> (rgn_of a, rgn_complex a)
     | Some b \<Rightarrow>
       if mode = 1 then (let (l, t, r, bt) = rect_inter (rgn_of a) (rgn_of b) in ((l, t, if r < l then l else r, if bt < t then t else bt), False))
       else if mode = 2 then (rect_hull (rgn_of a) (rgn_of b), \<not> (u32_rect_contains a b \<or> u32_rect_contains b a))
       else if mode = 3 \<or> mode = 4 then (rgn_of a, True)
       else (rgn_of a, rgn_complex a))"

definition aret_CombineRgn :: "u32 \<Rightarrow> gdi \<Rightarrow> u32 \<times> gdi" where
  "aret_CombineRgn esp s = (case (gdi_idx (g_gdi s) (WU esp 0 s), gdi_idx (g_gdi s) (WU esp 1 s)) of
       (Some d, Some a) \<Rightarrow> let bo = map_option (obj s) (gdi_idx (g_gdi s) (WU esp 2 s));
           (q, cx) = combine (WU esp 3 s) (obj s a) bo; s' = upd_obj d (set_rgn q cx) s
         in (u32_rgn_type (obj s' d), s')
     | _ \<Rightarrow> (0, s))"

section \<open>Clipping\<close>

definition clip_of :: "gdi_obj \<Rightarrow> rect" where
  "clip_of o' = (clip_l o', clip_t o', clip_r o', clip_b o')"

definition set_clip :: "rect \<Rightarrow> bool \<Rightarrow> gdi_obj \<Rightarrow> gdi_obj" where
  "set_clip q cx o' = (case q of (l, t, r, b) \<Rightarrow>
     o'\<lparr>clip_set := True, clip_l := l, clip_t := t, clip_r := r, clip_b := b, clip_complex := cx\<rparr>)"

definition u32_clip_type :: "gdi_obj \<Rightarrow> u32" where
  "u32_clip_type o' = (if \<not> clip_set o' then 2
     else if clip_r o' \<le> clip_l o' \<or> clip_b o' \<le> clip_t o' then 1 else if clip_complex o' then 3 else 2)"

text \<open>A clip call: the device context, its new contents, and the type of the resulting clip.\<close>

definition clip_call :: "u32 \<Rightarrow> gdi \<Rightarrow> (nat \<Rightarrow> gdi_obj \<Rightarrow> gdi_obj) \<Rightarrow> u32 \<times> gdi" where
  "clip_call h s f = (case dc_idx (g_gdi s) h of None \<Rightarrow> (0, s)
     | Some i \<Rightarrow> let s' = upd_obj i (f i) s in (u32_clip_type (obj s' i), s'))"

definition aret_GetClipRgn :: "u32 \<Rightarrow> gdi \<Rightarrow> u32 \<times> gdi" where
  "aret_GetClipRgn esp s = (case dc_idx (g_gdi s) (WU esp 0 s) of None \<Rightarrow> (- 1, s)
     | Some i \<Rightarrow> if \<not> clip_set (obj s i) then (0, s)
         else case gdi_idx (g_gdi s) (WU esp 1 s) of None \<Rightarrow> (1, s)
           | Some r \<Rightarrow> (1, upd_obj r (set_rgn (clip_of (obj s i)) (clip_complex (obj s i))) s))"

definition aret_IntersectClipRect :: "u32 \<Rightarrow> gdi \<Rightarrow> u32 \<times> gdi" where
  "aret_IntersectClipRect esp s = clip_call (WU esp 0 s) s (\<lambda>_ o'.
     let q = normalize (WI esp 1 s, WI esp 2 s, WI esp 3 s, WI esp 4 s)
     in set_clip (if clip_set o' then rect_inter q (clip_of o') else q) False o')"

text \<open>
  \<^verbatim>\<open>ExcludeClipRect\<close> on a clip that is set: the cases of the source, with its comparisons as they
  are written.
\<close>

definition exclude_clip :: "rect \<Rightarrow> gdi_obj \<Rightarrow> gdi_obj" where
  "exclude_clip q o' = (case q of (l, t, r, b) \<Rightarrow> let cl = clip_l o'; ct = clip_t o'; cr = clip_r o'; cb = clip_b o' in
     if r \<le> cl \<or> l \<ge> cr \<or> b \<le> ct \<or> t \<ge> cb then o'
     else if l \<le> cl \<and> r \<ge> cr \<and> t \<le> ct \<and> b \<ge> cb then o'\<lparr>clip_r := cl, clip_b := ct\<rparr>
     else if l \<le> cl \<and> r \<ge> cr then
       (if t \<le> ct then o'\<lparr>clip_t := (if b > cb then cb else b), clip_complex := False\<rparr>
        else if b \<ge> cb then o'\<lparr>clip_b := (if t < ct then ct else t), clip_complex := False\<rparr>
        else o'\<lparr>clip_complex := True\<rparr>)
     else if t \<le> ct \<and> b \<ge> cb then
       (if l \<le> cl then o'\<lparr>clip_l := (if r < cr then cr else r), clip_complex := False\<rparr>
        else if r \<ge> cr then o'\<lparr>clip_r := (if l > cl then cl else l), clip_complex := False\<rparr>
        else o'\<lparr>clip_complex := True\<rparr>)
     else o'\<lparr>clip_complex := True\<rparr>)"

definition aret_ExcludeClipRect :: "u32 \<Rightarrow> gdi \<Rightarrow> u32 \<times> gdi" where
  "aret_ExcludeClipRect esp s = (case dc_idx (g_gdi s) (WU esp 0 s) of None \<Rightarrow> (0, s)
     | Some i \<Rightarrow> if \<not> clip_set (obj s i) then (3, upd_obj i (\<lambda>o'. o'\<lparr>clip_set := True, clip_complex := True\<rparr>) s)
         else clip_call (WU esp 0 s) s (\<lambda>_. exclude_clip (normalize (WI esp 1 s, WI esp 2 s, WI esp 3 s, WI esp 4 s))))"

definition aret_SelectClipRgn :: "u32 \<Rightarrow> gdi \<Rightarrow> u32 \<times> gdi" where
  "aret_SelectClipRgn esp s = clip_call (WU esp 0 s) s (\<lambda>_ o'.
     case gdi_idx (g_gdi s) (WU esp 1 s) of None \<Rightarrow> o'\<lparr>clip_set := False\<rparr>
     | Some r \<Rightarrow> set_clip (rgn_of (obj s r)) (rgn_complex (obj s r)) o')"

definition aret_ExtSelectClipRgn :: "u32 \<Rightarrow> gdi \<Rightarrow> u32 \<times> gdi" where
  "aret_ExtSelectClipRgn esp s = clip_call (WU esp 0 s) s (\<lambda>_ o'. let mode = WU esp 2 s in
     case gdi_idx (g_gdi s) (WU esp 1 s) of None \<Rightarrow> if mode = 5 then o'\<lparr>clip_set := False\<rparr> else o'
     | Some r \<Rightarrow> let g = obj s r in
         if \<not> clip_set o' \<or> mode = 5 then set_clip (rgn_of g) (rgn_complex g) o'
         else if mode = 1 then set_clip (rect_inter (rgn_of g) (clip_of o')) False o'
         else set_clip (rect_hull (rgn_of g) (clip_of o')) True o')"

definition aret_RectVisible :: "u32 \<Rightarrow> gdi \<Rightarrow> u32 \<times> gdi" where
  "aret_RectVisible esp s = (case dc_idx (g_gdi s) (WU esp 0 s) of None \<Rightarrow> (0, s)
     | Some i \<Rightarrow> if WU esp 1 s = 0 then (0, s) else if \<not> clip_set (obj s i) then (1, s)
         else case rect_at (mem s) (WU esp 1 s) of (l, t, r, b) \<Rightarrow>
           (if r \<le> clip_l (obj s i) \<or> l \<ge> clip_r (obj s i) \<or> b \<le> clip_t (obj s i) \<or> t \<ge> clip_b (obj s i) then 0 else 1, s))"

section \<open>Drawing a region\<close>

text \<open>A complex region is a defined failure; without a brush colour nothing is drawn.\<close>

definition rgn_draw :: "u32 \<Rightarrow> gdi \<Rightarrow> (gdi_obj \<Rightarrow> gdi_obj \<Rightarrow> u32 \<Rightarrow> gdi) \<Rightarrow> u32 \<times> gdi" where
  "rgn_draw esp s f = with_obj (WU esp 1 s) s (\<lambda>g. if rgn_complex (obj s g) then (0, s)
     else case gdi_dc_surface (g_gdi s) (WU esp 0 s) of None \<Rightarrow> (0, s)
       | Some b \<Rightarrow> case gdi_brush_color (g_gdi s) (WU esp 2 s) of None \<Rightarrow> (1, s)
         | Some c \<Rightarrow> (1, f (obj s b) (obj s g) c))"

definition aret_FillRgn :: "u32 \<Rightarrow> gdi \<Rightarrow> u32 \<times> gdi" where
  "aret_FillRgn esp s = rgn_draw esp s (\<lambda>bm g c. fill bm (rgn_of g) c s)"

definition aret_FrameRgn :: "u32 \<Rightarrow> gdi \<Rightarrow> u32 \<times> gdi" where
  "aret_FrameRgn esp s = rgn_draw esp s (\<lambda>bm g c. let fw = WI esp 3 s; fh = WI esp 4 s in
     s\<lparr>mem := for_xy (rgn_of g) (\<lambda>x y m. if x < c_int (rgn_l g + fw) \<or> x \<ge> c_int (rgn_r g - fw)
            \<or> y < c_int (rgn_t g + fh) \<or> y \<ge> c_int (rgn_b g - fh) then gdi_put bm x y c m else m) (mem s)\<rparr>)"

definition aret_ExtCreateRegion :: "u32 \<Rightarrow> gdi \<Rightarrow> u32 \<times> gdi" where
  "aret_ExtCreateRegion esp s = (let rd = WU esp 2 s in if WU esp 0 s \<noteq> 0 then (0, s) else if rd = 0 then (0, s)
     else mark_complex (geti (mem s) rd 2 > 1)
       (u32_make_rgn (geti (mem s) rd 4, geti (mem s) rd 5, geti (mem s) rd 6, geti (mem s) rd 7) s))"

end
