(* ===== verification/Aret_Gdi_Theorems.thy ===== *)
theory Aret_Gdi_Theorems
  imports Aret_Draw Aret_Regions
begin

text \<open>
  Theorems on the drawing model. A bitmap whose pixels lie inside the address space is a canvas:
  writing one pixel changes that pixel alone. From that law the filling of rectangles and the
  drawing of lines are exact on every pixel; the rounding of the coordinate mapping is compared
  with the exact quotient, and saving and restoring a device context with the state saved.
\<close>

section \<open>Pixels\<close>

text \<open>A bitmap whose pixels are guest memory and do not wrap around the address space.\<close>

definition surf_ok :: "gdi_obj \<Rightarrow> bool" where
  "surf_ok bm \<longleftrightarrow> bits bm \<noteq> 0 \<and> 0 \<le> bw bm \<and> 0 \<le> bh bm \<and> int (unat (bits bm)) + bw bm * bh bm * 4 \<le> 2 ^ 32"

definition inside :: "gdi_obj \<Rightarrow> int \<Rightarrow> int \<Rightarrow> bool" where
  "inside bm x y \<longleftrightarrow> 0 \<le> x \<and> x < bw bm \<and> 0 \<le> y \<and> y < bh bm"

definition px_row :: "gdi_obj \<Rightarrow> int \<Rightarrow> int" where
  "px_row bm y = (if topdown bm then y else bh bm - 1 - y)"

definition px_index :: "gdi_obj \<Rightarrow> int \<Rightarrow> int \<Rightarrow> nat" where
  "px_index bm x y = nat (px_row bm y * bw bm + x)"

lemma px_index_range:
  assumes "inside bm x y" shows "int (px_index bm x y) < bw bm * bh bm"
    "int (px_index bm x y) = px_row bm y * bw bm + x"
proof -
  have r: "0 \<le> px_row bm y" "px_row bm y + 1 \<le> bh bm" and x: "0 \<le> x" "x < bw bm" using assms by (auto simp: inside_def px_row_def)
  then show e: "int (px_index bm x y) = px_row bm y * bw bm + x" by (simp add: px_index_def)
  have "(px_row bm y + 1) * bw bm \<le> bh bm * bw bm" using r(2) x by (intro mult_right_mono) auto
  then show "int (px_index bm x y) < bw bm * bh bm" using e x by (simp add: algebra_simps)
qed

lemma px_index_inj:
  assumes "inside bm x y" "inside bm x' y'" "px_index bm x y = px_index bm x' y'" shows "x = x' \<and> y = y'"
proof -
  have "px_row bm y * bw bm + x = px_row bm y' * bw bm + x'"
    using px_index_range(2) [OF assms(1)] px_index_range(2) [OF assms(2)] assms(3) by simp
  moreover have "x = (px_row bm y * bw bm + x) mod bw bm" "x' = (px_row bm y' * bw bm + x') mod bw bm"
    "px_row bm y = (px_row bm y * bw bm + x) div bw bm" "px_row bm y' = (px_row bm y' * bw bm + x') div bw bm"
    using assms(1,2) by (auto simp: inside_def)
  ultimately have "x = x'" "px_row bm y = px_row bm y'" by metis+
  then show ?thesis by (auto simp: px_row_def split: if_splits)
qed

lemma gdi_px_inside:
  assumes "surf_ok bm" "inside bm x y"
  shows "gdi_px bm x y = bits bm + of_nat (4 * px_index bm x y)" "gdi_px bm x y \<noteq> 0"
    "unat (bits bm) + 4 * px_index bm x y + 4 \<le> 2 ^ 32"
proof -
  note r = px_index_range [OF assms(2)]
  have "(px_row bm y * bw bm + x) * 4 = int (4 * px_index bm x y)" using r(2) by simp
  then have "(word_of_int ((px_row bm y * bw bm + x) * 4) :: u32) = of_nat (4 * px_index bm x y)" by (metis of_int_of_nat_eq)
  then show g: "gdi_px bm x y = bits bm + of_nat (4 * px_index bm x y)"
    using assms(2) by (simp add: gdi_px_def inside_def Let_def px_row_def)
  have "int (unat (bits bm)) + 4 * int (px_index bm x y) + 4 \<le> 2 ^ 32" using r(1) assms(1) unfolding surf_ok_def by linarith
  then have "int (unat (bits bm) + 4 * px_index bm x y + 4) \<le> int (2 ^ 32)" by simp
  then show u: "unat (bits bm) + 4 * px_index bm x y + 4 \<le> 2 ^ 32" by (simp only: of_nat_le_iff)
  then have "unat (bits bm + of_nat (4 * px_index bm x y)) = unat (bits bm) + 4 * px_index bm x y"
    by (simp add: unat_word_ariths unat_of_nat)
  moreover have "unat (bits bm) > 0" using assms(1) by (simp add: surf_ok_def unat_gt_0)
  ultimately show "gdi_px bm x y \<noteq> 0" unfolding g by (metis add_is_0 less_numeral_extra(3) unat_0)
qed

lemma gdi_px_outside: "\<not> inside bm x y \<Longrightarrow> gdi_px bm x y = 0"
  by (auto simp: gdi_px_def inside_def)

text \<open>The bytes of two pixels of one surface do not meet.\<close>

lemma px_bytes_neq:
  assumes "surf_ok bm" "inside bm x y" "inside bm x' y'" "(x, y) \<noteq> (x', y')" "i < 4" "j < 4"
  shows "gdi_px bm x y + of_nat i \<noteq> gdi_px bm x' y' + of_nat j"
proof -
  have "px_index bm x y \<noteq> px_index bm x' y'" using px_index_inj [OF assms(2,3)] assms(4) by auto
  then have "4 * px_index bm x y + i \<noteq> 4 * px_index bm x' y' + j" using assms(5,6) by presburger
  moreover have "4 * px_index bm x y + i < 2 ^ 32" "4 * px_index bm x' y' + j < 2 ^ 32"
    using gdi_px_inside(3) [OF assms(1,2)] gdi_px_inside(3) [OF assms(1,3)] assms(5,6) by linarith+
  ultimately show ?thesis
    using offset_neq [of "4 * px_index bm x y + i" "4 * px_index bm x' y' + j" "bits bm"]
      gdi_px_inside(1) [OF assms(1,2)] gdi_px_inside(1) [OF assms(1,3)] by (simp add: add.assoc)
qed

lemma gdi_put_bytes: "gdi_px bm x y \<noteq> 0 \<Longrightarrow> (\<And>i. i < 4 \<Longrightarrow> a \<noteq> gdi_px bm x y + of_nat i) \<Longrightarrow> gdi_put bm x y c m a = m a"
  by (auto simp: gdi_put_def Let_def dest: meta_spec [of _ 0] meta_spec [of _ 1] meta_spec [of _ 2] meta_spec [of _ 3])

lemma getpx_cong:
  "(\<And>i. i < 4 \<Longrightarrow> m (gdi_px bm x y + of_nat i) = m' (gdi_px bm x y + of_nat i)) \<Longrightarrow> gdi_getpx bm x y m = gdi_getpx bm x y m'"
proof -
  assume e: "\<And>i. i < 4 \<Longrightarrow> m (gdi_px bm x y + of_nat i) = m' (gdi_px bm x y + of_nat i)"
  show ?thesis using e [of 0] e [of 1] e [of 2] by (simp add: gdi_getpx_def Let_def)
qed

lemma rgb_bytes:
  fixes c :: u32
  shows "ucast (ucast c :: u8) OR push_bit 8 (ucast (ucast (drop_bit 8 c) :: u8)) OR push_bit 16 (ucast (ucast (drop_bit 16 c) :: u8)) = c AND 0xFFFFFF" (is "?l = ?r")
proof (rule bit_word_eqI)
  fix n assume "n < LENGTH(32)"
  then consider "n < 8" | "8 \<le> n" "n < 16" | "16 \<le> n" "n < 24" | "24 \<le> n" "n < 32" by fastforce
  then show "bit ?l n = bit ?r n"
    unfolding low24_eq by cases (auto simp: bit_simps)
qed

text \<open>The law of a canvas: \<open>good\<close> canvases, their points, and painting one point, which may depend on its old value.\<close>

locale canvas =
  fixes good :: "'b \<Rightarrow> bool" and on :: "'b \<Rightarrow> int \<Rightarrow> int \<Rightarrow> bool"
    and paint :: "'b \<Rightarrow> int \<Rightarrow> int \<Rightarrow> 'c \<Rightarrow> 'm \<Rightarrow> 'm" and getp :: "'b \<Rightarrow> int \<Rightarrow> int \<Rightarrow> 'm \<Rightarrow> 'v" and shown :: "'c \<Rightarrow> 'v \<Rightarrow> 'v"
  assumes get_paint: "good bm \<Longrightarrow> on bm x y \<Longrightarrow>
    getp bm x y (paint bm x' y' c m) = (if (x', y') = (x, y) then shown c (getp bm x y m) else getp bm x y m)"
begin

lemma paint_list:
  assumes "good bm" "on bm x y"
  shows "distinct ps \<Longrightarrow> getp bm x y (fold (\<lambda>(u, v). paint bm u v c) ps m) = (if (x, y) \<in> set ps then shown c (getp bm x y m) else getp bm x y m)"
proof (induction ps arbitrary: m)
  case (Cons p ps)
  obtain u v where "p = (u, v)" by fastforce
  then show ?case using Cons by (auto simp: get_paint [OF assms])
qed simp

lemma fold_row: "fold (\<lambda>u. paint bm u v c) us m = fold (\<lambda>(u, v). paint bm u v c) (map (\<lambda>u. (u, v)) us) m"
  by (induction us arbitrary: m) auto

lemma fold_rows:
  "fold (\<lambda>v. fold (\<lambda>u. paint bm u v c) us) vs m = fold (\<lambda>(u, v). paint bm u v c) (concat (map (\<lambda>v. map (\<lambda>u. (u, v)) us) vs)) m"
  by (induction vs arbitrary: m) (auto simp: fold_row)

lemma grid_distinct: "distinct us \<Longrightarrow> distinct vs \<Longrightarrow> distinct (concat (map (\<lambda>v. map (\<lambda>u. (u, v)) us) vs))"
  by (induction vs) (auto simp: distinct_map inj_on_def)

lemma get_for_xy:
  assumes "good bm" "on bm x y"
  shows "getp bm x y (for_xy (l, t, r, b) (\<lambda>x y. paint bm x y c) m)
    = (if in_rect (l, t, r, b) x y then shown c (getp bm x y m) else getp bm x y m)"
proof -
  have "(x, y) \<in> set (concat (map (\<lambda>v. map (\<lambda>u. (u, v)) [l..r - 1]) [t..b - 1])) \<longleftrightarrow> in_rect (l, t, r, b) x y"
    by (auto simp: image_iff intro!: bexI [of _ y])
  then show ?thesis by (simp only: for_xy_def prod.case fold_rows paint_list [OF assms grid_distinct] distinct_upto)
qed

end

interpretation gdi_canvas: canvas surf_ok inside gdi_put gdi_getpx "\<lambda>c _. c AND 0xFFFFFF"
proof unfold_locales
  fix bm x y x' y' c m
  assume bm: "surf_ok bm" "inside bm x y"
  note g = gdi_px_inside [OF bm]
  show "gdi_getpx bm x y (gdi_put bm x' y' c m) = (if (x', y') = (x, y) then c AND 0xFFFFFF else gdi_getpx bm x y m)"
  proof (cases "(x', y') = (x, y)")
    case True
    have "gdi_px bm x y + of_nat i \<noteq> gdi_px bm x y + of_nat j" if "i < 4" "j < 4" "i \<noteq> j" for i j
      using that by (intro offset_neq) auto
    from this [of 0 1] this [of 0 2] this [of 0 3] this [of 1 2] this [of 1 3] this [of 2 3] show ?thesis
      using True g(2) by (simp add: gdi_getpx_def gdi_put_def Let_def rgb_bytes)
  next
    case False
    show ?thesis
    proof (cases "inside bm x' y'")
      case True
      have "gdi_put bm x' y' c m (gdi_px bm x y + of_nat i) = m (gdi_px bm x y + of_nat i)" if "i < 4" for i
        using px_bytes_neq [OF bm(1,2) True] that False gdi_px_inside(2) [OF bm(1) True] by (intro gdi_put_bytes) auto
      then show ?thesis using False getpx_cong by metis
    qed (use False in \<open>auto simp: gdi_put_def gdi_px_outside\<close>)
  qed
qed

interpretation gdh: handle_space GDI_BASE used gdi_idx
  by unfold_locales (simp_all add: GDI_BASE_def gdi_idx_def)

text \<open>A device context \<open>d\<close> with the surface \<open>b\<close>.\<close>

definition dc_on :: "gdi \<Rightarrow> u32 \<Rightarrow> nat \<Rightarrow> nat \<Rightarrow> bool" where
  "dc_on s hdc d b \<longleftrightarrow> gdi_idx (g_gdi s) hdc = Some d \<and> gdi_dc_surface (g_gdi s) hdc = Some b \<and> surf_ok (obj s b)"

lemma push_args_gdi [simp]: "g_gdi (push_args esp vs s) = g_gdi s"
  by (induction vs arbitrary: esp s) (auto simp: push_args.simps)

text \<open>Inverting the bytes of a pixel complements its colour.\<close>

lemma invert_px_bytes:
  assumes "gdi_px bm x y \<noteq> 0" "n \<le> 4"
  shows "invert_px n bm x y m a = (if \<exists>i<n. a = gdi_px bm x y + of_nat i then NOT (m a) else m a)"
proof -
  let ?p = "gdi_px bm x y"
  have "k \<le> 4 \<Longrightarrow> fold (\<lambda>k m. m(?p + of_nat k := NOT (m (?p + of_nat k)))) [0..<k] m a
      = (if \<exists>i<k. a = ?p + of_nat i then NOT (m a) else m a)" for k
  proof (induction k)
    case (Suc k)
    have "\<not> (\<exists>i<k. ?p + of_nat k = ?p + of_nat i)" using offset_neq [of k _ ?p] Suc.prems by (auto simp del: add_left_cancel)
    then show ?case using Suc by (auto simp: less_Suc_eq)
  qed simp
  then show ?thesis using assms by (simp add: invert_px_def Let_def)
qed

lemma rgb_not:
  fixes a b c :: u8
  shows "ucast (NOT a) OR push_bit 8 (ucast (NOT b)) OR push_bit 16 (ucast (NOT c))
    = NOT (ucast a OR push_bit 8 (ucast b) OR push_bit 16 (ucast c)) AND (0xFFFFFF :: u32)" (is "?l = ?r")
proof (rule bit_word_eqI)
  fix n assume "n < LENGTH(32)"
  then consider "n < 8" | "8 \<le> n" "n < 16" | "16 \<le> n" "n < 24" | "24 \<le> n" "n < 32" by fastforce
  then show "bit ?l n = bit ?r n" unfolding low24_eq by cases (auto simp: bit_simps dest: bit_imp_le_length)
qed

interpretation inv_canvas: canvas surf_ok inside "\<lambda>bm x y (c :: unit). invert_px 4 bm x y" gdi_getpx "\<lambda>_ v. NOT v AND 0xFFFFFF"
proof unfold_locales
  fix bm x y x' y' c m
  assume bm: "surf_ok bm" "inside bm x y"
  note g = gdi_px_inside [OF bm]
  show "gdi_getpx bm x y (invert_px 4 bm x' y' m) = (if (x', y') = (x, y) then NOT (gdi_getpx bm x y m) AND 0xFFFFFF else gdi_getpx bm x y m)"
  proof (cases "(x', y') = (x, y)")
    case True
    have "invert_px 4 bm x y m (gdi_px bm x y + of_nat k) = NOT (m (gdi_px bm x y + of_nat k))" if "k < 4" for k
      using invert_px_bytes [OF g(2), of 4] that by auto
    from this [of 0] this [of 1] this [of 2] show ?thesis
      using True g(2) by (simp add: gdi_getpx_def Let_def rgb_not)
  next
    case False
    show ?thesis
    proof (cases "inside bm x' y'")
      case True
      have "invert_px 4 bm x' y' m (gdi_px bm x y + of_nat i) = m (gdi_px bm x y + of_nat i)" if "i < 4" for i
        using px_bytes_neq [OF bm(1,2) True] that False invert_px_bytes [OF gdi_px_inside(2) [OF bm(1) True], of 4] by auto
      then show ?thesis using False getpx_cong by metis
    qed (use False in \<open>auto simp: invert_px_def gdi_px_outside\<close>)
  qed
qed

text \<open>A device context (slot 1) with a 4 by 4 bitmap (slot 2), and a brush (slot 3); the call's arguments are pushed.\<close>

definition demo_dc :: gdi_obj where
  "demo_dc = gdi_zero\<lparr>used := True, type := GDIT_DC, sel_bitmap := GDI_BASE OR 2, mapmode := 1, vp_ex := 1, vp_ey := 1, win_ex := 1, win_ey := 1\<rparr>"

definition demo_bitmap :: gdi_obj where
  "demo_bitmap = gdi_zero\<lparr>used := True, type := GDIT_BITMAP, bw := 4, bh := 4, topdown := True, bpp := 32, bits := 0x8000\<rparr>"

definition demo_brush :: gdi_obj where
  "demo_brush = gdi_zero\<lparr>used := True, type := GDIT_BRUSH, color := 0x123456\<rparr>"

definition gdi_demo :: "u32 list \<Rightarrow> gdi" where
  "gdi_demo args = push_args 0x100 args \<lparr>mem = st32 (st32 (\<lambda>_. 0) 0x2008 2) 0x200C 2, g_last_error = 0,
     g_gdi = [gdi_zero, demo_dc, demo_bitmap, demo_brush], g_gdi_stock = [], g_gdi_syscolorbrush = [], g_default_palette = 0\<rparr>"

lemma gdi_demo_table [simp]: "g_gdi (gdi_demo args) = [gdi_zero, demo_dc, demo_bitmap, demo_brush]"
  by (simp add: gdi_demo_def)

lemma gdi_demo_arg [simp]: "i < length args \<Longrightarrow> length args \<le> 8 \<Longrightarrow> WU 0x100 i (gdi_demo args) = args ! i"
  by (simp add: gdi_demo_def)

lemma gdi_demo_idx [simp]:
  "gdi_idx [gdi_zero, demo_dc, demo_bitmap, demo_brush] (GDI_BASE OR 1) = Some 1"
  "gdi_idx [gdi_zero, demo_dc, demo_bitmap, demo_brush] (GDI_BASE OR 2) = Some 2"
  "gdi_idx [gdi_zero, demo_dc, demo_bitmap, demo_brush] (GDI_BASE OR 3) = Some 3"
  by (simp_all add: gdi_idx_def GDI_BASE_def demo_dc_def demo_bitmap_def demo_brush_def Let_def)

lemma demo_fields [simp]:
  "type demo_dc = GDIT_DC" "used demo_dc" "vp_ox demo_dc = 0" "vp_oy demo_dc = 0" "win_ox demo_dc = 0" "win_oy demo_dc = 0"
  "vp_ex demo_dc = 1" "vp_ey demo_dc = 1" "win_ex demo_dc = 1" "win_ey demo_dc = 1" "savetop demo_dc = 0" "length (sstk demo_dc) = 8"
  "type demo_bitmap = GDIT_BITMAP" "bits demo_bitmap = 0x8000" "type demo_brush = GDIT_BRUSH" "\<not> null_obj demo_brush" "color demo_brush = 0x123456"
  by (simp_all add: demo_dc_def demo_bitmap_def demo_brush_def gdi_zero_def)

lemma demo_surf: "surf_ok demo_bitmap" "bw demo_bitmap = 4" "bh demo_bitmap = 4" "sel_bitmap demo_dc = GDI_BASE OR 2"
  by (simp_all add: surf_ok_def demo_bitmap_def demo_dc_def)

lemma demo_on: "args \<noteq> [] \<Longrightarrow> length args \<le> 8 \<Longrightarrow> hd args = GDI_BASE OR 1 \<Longrightarrow> dc_on (gdi_demo args) (WU 0x100 0 (gdi_demo args)) 1 2"
  by (cases args) (simp_all add: dc_on_def gdi_dc_surface_def demo_surf)

text \<open>A pixel that is set reads back as the colour's 24 bits and no other pixel of the surface changes;
  outside the surface nothing is written and the failure value is returned.\<close>

theorem set_pixel_exact:
  assumes "dc_on s (WU esp 0 s) d b" "dc_l2d (obj s d) (WI esp 1 s) (WI esp 2 s) = (x, y)"
    and "aret_SetPixel esp s = (r, s')" "inside (obj s b) u v"
  shows "g_gdi s' = g_gdi s \<and> r = (if inside (obj s b) x y then WU esp 3 s AND 0xFFFFFF else 0xFFFFFFFF)
    \<and> gdi_getpx (obj s b) u v (mem s') = (if (u, v) = (x, y) then WU esp 3 s AND 0xFFFFFF else gdi_getpx (obj s b) u v (mem s))"
proof -
  note dc = assms(1) [unfolded dc_on_def]
  have px: "gdi_px (obj s b) x y = 0 \<longleftrightarrow> \<not> inside (obj s b) x y"
    using gdi_px_inside(2) [of "obj s b" x y] gdi_px_outside [of "obj s b" x y] dc by blast
  have c: "(WU esp 3 s AND 0xFFFFFF) AND 0xFFFFFF = WU esp 3 s AND (0xFFFFFF :: u32)" by (simp add: and.assoc)
  show ?thesis
    using assms(2-4) dc px gdi_canvas.get_paint [of "obj s b" u v x y "WU esp 3 s AND 0xFFFFFF" "mem s"] c
    by (cases "inside (obj s b) x y") (auto simp: aret_SetPixel_def on_surface_def Let_def)
qed

theorem set_pixel_exact_witness:
  "gdi_getpx demo_bitmap 3 2 (mem (snd (aret_SetPixel 0x100 (gdi_demo [GDI_BASE OR 1, 3, 2, 0xAB123456])))) = 0x123456"
proof -
  let ?s = "gdi_demo [GDI_BASE OR 1, 3, 2, 0xAB123456]"
  have p: "dc_l2d (obj ?s 1) (WI 0x100 1 ?s) (WI 0x100 2 ?s) = (3, 2)"
    by (simp add: dc_l2d_def WI_def gdi_muldiv_def c_int_def)
  have i: "inside (obj ?s 2) 3 2" by (simp add: inside_def demo_surf)
  show ?thesis using set_pixel_exact [OF demo_on p _ i] by (simp add: prod_eq_iff)
qed

text \<open>Filling and inverting a rectangle change exactly the pixels of the rectangle that lie on the
  surface: to the brush's colour, or to the complement of what was there.\<close>

theorem fill_and_invert_exact:
  assumes "dc_on s (WU esp 0 s) d b" "\<not> GDI_MAP_GUARD (g_gdi s) (WU esp 0 s)" "WU esp 1 s \<noteq> 0"
    and "gdi_brush_color (g_gdi s) (WU esp 2 s) = Some c" "inside (obj s b) u v" "q = rect_at (mem s) (WU esp 1 s)"
  shows "gdi_getpx (obj s b) u v (mem (snd (aret_FillRect esp s))) =
      (if in_rect q u v then c AND 0xFFFFFF else gdi_getpx (obj s b) u v (mem s))
    \<and> gdi_getpx (obj s b) u v (mem (snd (aret_InvertRect esp s))) =
      (if in_rect q u v then NOT (gdi_getpx (obj s b) u v (mem s)) AND 0xFFFFFF else gdi_getpx (obj s b) u v (mem s))"
proof -
  obtain l t r bt where q: "q = (l, t, r, bt)" by (cases q)
  have ok: "surf_ok (obj s b)" "gdi_dc_surface (g_gdi s) (WU esp 0 s) = Some b" using assms(1) by (simp_all add: dc_on_def)
  show ?thesis
    using assms(2-4) ok gdi_canvas.get_for_xy [OF ok(1) assms(5), of l t r bt c "mem s"]
      inv_canvas.get_for_xy [OF ok(1) assms(5), of l t r bt "mem s"]
    by (simp add: aret_FillRect_def aret_InvertRect_def rect_call_def fill_def assms(6) [symmetric] q del: One_nat_def)
qed

theorem fill_and_invert_exact_witness:
  "gdi_getpx demo_bitmap 1 1 (mem (snd (aret_FillRect 0x100 (gdi_demo [GDI_BASE OR 1, 0x2000, GDI_BASE OR 3])))) = 0x123456
   \<and> gdi_getpx demo_bitmap 2 1 (mem (snd (aret_FillRect 0x100 (gdi_demo [GDI_BASE OR 1, 0x2000, GDI_BASE OR 3])))) = 0"
proof -
  let ?s = "gdi_demo [GDI_BASE OR 1, 0x2000, GDI_BASE OR 3]"
  have g: "\<not> GDI_MAP_GUARD (g_gdi ?s) (WU 0x100 0 ?s)"
    by (simp add: GDI_MAP_GUARD_def dc_map_identity_def)
  have b: "gdi_brush_color (g_gdi ?s) (WU 0x100 2 ?s) = Some 0x123456"
    by (simp add: gdi_brush_color_def)
  have q: "rect_at (mem ?s) (WU 0x100 1 ?s) = (0, 0, 2, 2)" by code_simp
  have m: "gdi_getpx demo_bitmap 2 1 (mem ?s) = 0" by code_simp
  have i: "inside (obj ?s 2) 1 1" "inside (obj ?s 2) 2 1" by (simp_all add: inside_def demo_surf)
  note f = fill_and_invert_exact [OF demo_on g _ b _ refl]
  show ?thesis using f [OF _ _ _ _ i(1)] f [OF _ _ _ _ i(2)] m unfolding q by (simp del: One_nat_def)
qed

section \<open>Lines\<close>

text \<open>One round along the major axis \<open>a\<close>, for either of the two loops.\<close>

definition bres_step :: "(int \<Rightarrow> int \<Rightarrow> 'm \<Rightarrow> 'm) \<Rightarrow> int \<Rightarrow> int \<Rightarrow> int \<Rightarrow> int \<Rightarrow> int \<times> int \<times> int \<times> 'm \<Rightarrow> int \<times> int \<times> int \<times> 'm" where
  "bres_step P sa sb A B = (\<lambda>(a, b, err, m).
     let (b', err') = (if err > 0 then (c_int (b + sb), c_int (err - 2 * A)) else (b, err))
     in (c_int (a + sa), b', c_int (err' + 2 * B), P a b m))"

lemma bres_x_step: "bres_x bm c sx sy adx ady = bres_step (\<lambda>a b. gdi_put bm a b c) sx sy adx ady"
  by (simp add: bres_x_def bres_step_def)

lemma bres_y_steps:
  "(bres_y bm c sx sy adx ady ^^ n) (x, y, e, m) =
     (case (bres_step (\<lambda>a b. gdi_put bm b a c) sy sx ady adx ^^ n) (y, x, e, m) of (a, b, e, m) \<Rightarrow> (b, a, e, m))"
  by (induction n) (auto simp: bres_y_def bres_step_def Let_def split: prod.splits if_splits)

text \<open>The minor step after \<open>k\<close> rounds: the nearest integer to \<open>k B / A\<close>, ties downwards.\<close>

definition minor :: "int \<Rightarrow> int \<Rightarrow> int \<Rightarrow> int" where
  "minor A B k = (2 * B * k + A - 1) div (2 * A)"

lemma minor_iff: assumes "0 < A" shows "q = minor A B k \<longleftrightarrow> - A < 2 * (B * k - A * q) \<and> 2 * (B * k - A * q) \<le> A"
proof
  assume "q = minor A B k"
  moreover have "2 * A * ((2 * B * k + A - 1) div (2 * A)) \<le> 2 * B * k + A - 1"
    "2 * B * k + A - 1 < 2 * A * ((2 * B * k + A - 1) div (2 * A)) + 2 * A"
    using mult_div_mod_eq [of "2 * A" "2 * B * k + A - 1"] pos_mod_bound [of "2 * A" "2 * B * k + A - 1"]
      pos_mod_sign [of "2 * A" "2 * B * k + A - 1"] assms by linarith+
  ultimately show "- A < 2 * (B * k - A * q) \<and> 2 * (B * k - A * q) \<le> A" by (simp add: minor_def algebra_simps)
next
  assume a: "- A < 2 * (B * k - A * q) \<and> 2 * (B * k - A * q) \<le> A"
  have "(2 * B * k + A - 1) div (2 * A) = q"
    by (rule int_div_pos_eq [of _ "2 * A" q "2 * B * k + A - 1 - 2 * A * q"]) (use a in \<open>simp_all add: algebra_simps\<close>)
  then show "q = minor A B k" by (simp add: minor_def)
qed

lemma minor_next:
  assumes "0 < A" "0 \<le> B" "B \<le> A"
  shows "minor A B (k + 1) = (if 2 * B * (k + 1) - A - 2 * A * minor A B k > 0 then minor A B k + 1 else minor A B k)"
proof -
  have m: "- A < 2 * (B * k - A * minor A B k)" "2 * (B * k - A * minor A B k) \<le> A" using minor_iff [OF assms(1), of "minor A B k"] by auto
  then show ?thesis
    using assms minor_iff [OF assms(1), of "minor A B k + 1" B "k + 1"] minor_iff [OF assms(1), of "minor A B k" B "k + 1"]
    by (auto simp: algebra_simps)
qed

lemma minor_zero: "0 < A \<Longrightarrow> minor A B 0 = 0"
  using minor_iff [of A 0 B 0] by simp

lemma minor_range: assumes "0 < A" "0 \<le> B" "B \<le> A" "0 \<le> k" shows "0 \<le> minor A B k" "minor A B k \<le> k"
proof -
  have "0 \<le> 2 * B * k" using assms by simp
  then show "0 \<le> minor A B k" unfolding minor_def using assms(1) by (subst pos_imp_zdiv_nonneg_iff) auto
  show "minor A B k \<le> k"
  proof (rule ccontr)
    assume "\<not> minor A B k \<le> k"
    then have "A * (k + 1) \<le> A * minor A B k" using assms(1) by (intro mult_left_mono) auto
    moreover have "B * k \<le> A * k" using assms by (intro mult_right_mono) auto
    moreover have "- A < 2 * (B * k - A * minor A B k)" using minor_iff [OF assms(1), of "minor A B k"] by auto
    ultimately show False using assms(1) by (simp add: algebra_simps)
  qed
qed

lemma bres_loop:
  assumes "0 < A" "0 \<le> B" "B \<le> A" "A < 2 ^ 30" "\<bar>a\<bar> < 2 ^ 29" "\<bar>b\<bar> < 2 ^ 29" "\<bar>sa\<bar> = 1" "\<bar>sb\<bar> = 1"
  shows "int n \<le> A \<Longrightarrow> (bres_step P sa sb A B ^^ n) (a, b, c_int (2 * B - A), m) =
    (a + sa * int n, b + sb * minor A B (int n), 2 * B * (int n + 1) - A - 2 * A * minor A B (int n),
     fold (\<lambda>k. P (a + sa * int k) (b + sb * minor A B (int k))) [0..<n] m)"
proof (induction n)
  case 0
  then show ?case using assms(1-4) by (simp add: minor_zero c_int_id)
next
  case (Suc n)
  let ?q = "minor A B (int n)"
  define e where "e = 2 * B * (int n + 1) - A - 2 * A * ?q"
  have q: "0 \<le> ?q" "?q \<le> int n" using minor_range [OF assms(1-3), of "int n"] by simp_all
  have m: "- A < 2 * (B * int n - A * ?q)" "2 * (B * int n - A * ?q) \<le> A" using minor_iff [OF assms(1), of ?q] by auto
  then have e: "2 * B - 2 * A < e" "e \<le> 2 * B" by (simp_all add: e_def algebra_simps)
  have n: "int n + 1 \<le> A" using Suc.prems by simp
  have sa: "\<bar>sa * int n\<bar> < 2 ^ 30" "\<bar>sb * ?q\<bar> < 2 ^ 30" using assms(4,7,8) n q by (simp_all add: abs_mult)
  have c1: "c_int (a + sa * int n + sa) = a + sa * (int n + 1)"
    using sa(1) assms(5,7) by (subst c_int_id) (auto simp: algebra_simps)
  have c2: "c_int (b + sb * ?q + sb) = b + sb * (?q + 1)"
    using sa(2) assms(6,8) by (subst c_int_id) (auto simp: algebra_simps)
  have c3: "0 < e \<Longrightarrow> c_int (e - 2 * A) = e - 2 * A" "0 < e \<Longrightarrow> c_int (e - 2 * A + 2 * B) = e - 2 * A + 2 * B"
    "e \<le> 0 \<Longrightarrow> c_int (e + 2 * B) = e + 2 * B"
    using e assms(2-4) by (auto simp: c_int_id)
  have mn: "minor A B (int n + 1) = (if 0 < e then ?q + 1 else ?q)" using minor_next [OF assms(1-3), of "int n"] by (simp add: e_def)
  have "(bres_step P sa sb A B ^^ Suc n) (a, b, c_int (2 * B - A), m) =
      bres_step P sa sb A B (a + sa * int n, b + sb * ?q, e, fold (\<lambda>k. P (a + sa * int k) (b + sb * minor A B (int k))) [0..<n] m)"
    using Suc by (simp add: e_def)
  also have "\<dots> = (a + sa * (int n + 1), b + sb * minor A B (int n + 1), (if 0 < e then e - 2 * A else e) + 2 * B,
      P (a + sa * int n) (b + sb * ?q) (fold (\<lambda>k. P (a + sa * int k) (b + sb * minor A B (int k))) [0..<n] m))"
    unfolding bres_step_def mn using c1 c2 c3 by (simp add: Let_def)
  also have "(if 0 < e then e - 2 * A else e) + 2 * B = 2 * B * (int n + 1 + 1) - A - 2 * A * minor A B (int n + 1)"
    unfolding mn by (simp add: e_def algebra_simps)
  also have "P (a + sa * int n) (b + sb * ?q) (fold (\<lambda>k. P (a + sa * int k) (b + sb * minor A B (int k))) [0..<n] m)
      = fold (\<lambda>k. P (a + sa * int k) (b + sb * minor A B (int k))) [0..<Suc n] m" by simp
  finally show ?case by (simp only: of_nat_Suc add.commute [of 1])
qed

text \<open>The pixels of a line from \<open>(x0, y0)\<close> to \<open>(x1, y1)\<close>, the last point excluded: along the longer axis one
  per step, on the other axis the nearest one (of two equally near ones the one closer to the start).\<close>

definition on_line :: "int \<Rightarrow> int \<Rightarrow> int \<Rightarrow> int \<Rightarrow> int \<Rightarrow> int \<Rightarrow> bool" where
  "on_line x0 y0 x1 y1 u v =
     (let A = \<bar>x1 - x0\<bar>; B = \<bar>y1 - y0\<bar>; p = (if x1 < x0 then x0 - u else u - x0); q = (if y1 < y0 then y0 - v else v - y0) in
      if B \<le> A then 0 \<le> p \<and> p < A \<and> - A < 2 * (B * p - A * q) \<and> 2 * (B * p - A * q) \<le> A
      else 0 \<le> q \<and> q < B \<and> - B < 2 * (A * q - B * p) \<and> 2 * (A * q - B * p) \<le> B)"

text \<open>The points the loop visits, as offsets along the two axes.\<close>

definition bres_points :: "int \<Rightarrow> int \<Rightarrow> int \<Rightarrow> int \<Rightarrow> int \<Rightarrow> int \<Rightarrow> (int \<times> int) list" where
  "bres_points a b sa sb A B = map (\<lambda>k. (a + sa * int k, b + sb * minor A B (int k))) [0..<nat A]"

lemma bres_points_distinct: "\<bar>sa\<bar> = 1 \<Longrightarrow> distinct (bres_points a b sa sb A B)"
  by (auto simp: bres_points_def distinct_map inj_on_def)

lemma sign_cancel: "\<bar>s\<bar> = (1 :: int) \<Longrightarrow> x = a + s * k \<longleftrightarrow> s * (x - a) = k"
  by (auto simp: abs_if split: if_splits)

lemma bres_points_mem:
  assumes "\<bar>sa\<bar> = 1" "\<bar>sb\<bar> = 1" "0 < A"
  shows "(u, v) \<in> set (bres_points a b sa sb A B) \<longleftrightarrow> 0 \<le> sa * (u - a) \<and> sa * (u - a) < A
    \<and> - A < 2 * (B * (sa * (u - a)) - A * (sb * (v - b))) \<and> 2 * (B * (sa * (u - a)) - A * (sb * (v - b))) \<le> A" (is "_ \<longleftrightarrow> ?r")
proof -
  have "(u, v) \<in> set (bres_points a b sa sb A B) \<longleftrightarrow> (\<exists>k < nat A. sa * (u - a) = int k \<and> sb * (v - b) = minor A B (int k))"
    unfolding bres_points_def by (auto simp: sign_cancel [OF assms(1)] sign_cancel [OF assms(2)] image_iff)
  also have "\<dots> \<longleftrightarrow> 0 \<le> sa * (u - a) \<and> sa * (u - a) < A \<and> sb * (v - b) = minor A B (sa * (u - a))"
    by (auto intro!: exI [of _ "nat (sa * (u - a))"])
  finally show ?thesis by (simp add: minor_iff [OF assms(3)])
qed

lemma fold_pairs: "fold (\<lambda>(a, b). P a b) (map (\<lambda>k. (f k, g k)) ks) m = fold (\<lambda>k. P (f k) (g k)) ks m"
  by (induction ks arbitrary: m) auto

lemma bres_run:
  assumes "0 \<le> B" "B \<le> A" "A < 2 ^ 30" "\<bar>a\<bar> < 2 ^ 29" "\<bar>b\<bar> < 2 ^ 29" "\<bar>sa\<bar> = 1" "\<bar>sb\<bar> = 1"
  shows "(case (bres_step P sa sb A B ^^ nat A) (a, b, c_int (2 * B - A), m) of (a', b', e', m') \<Rightarrow> m')
    = fold (\<lambda>(a, b). P a b) (bres_points a b sa sb A B) m"
proof (cases "0 < A")
  case True
  then show ?thesis using bres_loop [OF True assms, of "nat A" P m] by (simp add: bres_points_def fold_pairs)
qed (simp add: bres_points_def)

lemma fold_swap: "fold (\<lambda>(a, b). P b a) ps m = fold (\<lambda>(a, b). P a b) (map prod.swap ps) m"
  by (induction ps arbitrary: m) auto

text \<open>The line as a list of points.\<close>

definition line_points :: "int \<Rightarrow> int \<Rightarrow> int \<Rightarrow> int \<Rightarrow> (int \<times> int) list" where
  "line_points x0 y0 x1 y1 = (let A = \<bar>x1 - x0\<bar>; B = \<bar>y1 - y0\<bar>; sx = (if x1 < x0 then -1 else 1); sy = (if y1 < y0 then -1 else 1) in
     if B \<le> A then bres_points x0 y0 sx sy A B else map prod.swap (bres_points y0 x0 sy sx B A))"

lemma line_points_mem: "(u, v) \<in> set (line_points x0 y0 x1 y1) \<longleftrightarrow> on_line x0 y0 x1 y1 u v"
proof -
  let ?A = "\<bar>x1 - x0\<bar>" and ?B = "\<bar>y1 - y0\<bar>"
  let ?sx = "if x1 < x0 then -1 else 1 :: int" and ?sy = "if y1 < y0 then -1 else 1 :: int"
  have s: "\<bar>?sx\<bar> = 1" "\<bar>?sy\<bar> = 1" by auto
  have p: "?sx * (u - x0) = (if x1 < x0 then x0 - u else u - x0)" "?sy * (v - y0) = (if y1 < y0 then y0 - v else v - y0)" by auto
  show ?thesis
  proof (cases "?B \<le> ?A")
    case True
    show ?thesis
    proof (cases "0 < ?A")
      case A: True
      show ?thesis unfolding line_points_def on_line_def Let_def if_P [OF True] bres_points_mem [OF s A] p ..
    next
      case False
      then have "?A = 0" by linarith
      then show ?thesis using True by (auto simp: line_points_def on_line_def Let_def bres_points_def)
    qed
  next
    case False
    then have B: "0 < ?B" by linarith
    have "(u, v) \<in> set (line_points x0 y0 x1 y1) \<longleftrightarrow> (v, u) \<in> set (bres_points y0 x0 ?sy ?sx ?B ?A)"
      using False by (force simp: line_points_def Let_def)
    then show ?thesis unfolding on_line_def Let_def if_not_P [OF False] bres_points_mem [OF s(2,1) B] p .
  qed
qed

lemma line_points_distinct: "distinct (line_points x0 y0 x1 y1)"
  by (auto simp: line_points_def Let_def bres_points_distinct distinct_map)

lemma gdi_bres_points:
  assumes "\<bar>x0\<bar> < 2 ^ 29" "\<bar>y0\<bar> < 2 ^ 29" "\<bar>x1\<bar> < 2 ^ 29" "\<bar>y1\<bar> < 2 ^ 29"
  shows "gdi_bres bm x0 y0 x1 y1 c m = fold (\<lambda>(u, v). gdi_put bm u v c) (line_points x0 y0 x1 y1) m"
proof -
  let ?sx = "if x1 < x0 then -1 else 1 :: int" and ?sy = "if y1 < y0 then -1 else 1 :: int"
  have d: "c_int (x1 - x0) = x1 - x0" "c_int (y1 - y0) = y1 - y0" "c_int (x0 - x1) = x0 - x1" "c_int (y0 - y1) = y0 - y1"
    using assms by (simp_all add: c_int_id)
  have a: "\<bar>x1 - x0\<bar> < 2 ^ 30" "\<bar>y1 - y0\<bar> < 2 ^ 30" using assms by simp_all
  have s: "\<bar>?sx\<bar> = 1" "\<bar>?sy\<bar> = 1" by auto
  have ad: "(if c_int (x1 - x0) < 0 then c_int (- c_int (x1 - x0)) else c_int (x1 - x0)) = \<bar>x1 - x0\<bar>"
    "(if c_int (y1 - y0) < 0 then c_int (- c_int (y1 - y0)) else c_int (y1 - y0)) = \<bar>y1 - y0\<bar>"
    "(if c_int (x1 - x0) < 0 then -1 else 1) = ?sx" "(if c_int (y1 - y0) < 0 then -1 else 1) = ?sy"
    using d by auto
  show ?thesis
  proof (cases "\<bar>y1 - y0\<bar> \<le> \<bar>x1 - x0\<bar>")
    case True
    then show ?thesis
      using bres_run [OF _ True a(1) assms(1,2) s, of "\<lambda>u v. gdi_put bm u v c" m]
      unfolding gdi_bres_def line_points_def Let_def ad bres_x_step by simp
  next
    case False
    then have l: "\<bar>x1 - x0\<bar> \<le> \<bar>y1 - y0\<bar>" by simp
    show ?thesis
      using False bres_run [OF _ l a(2) assms(2,1) s(2,1), of "\<lambda>v u. gdi_put bm u v c" m] fold_swap [of "\<lambda>u v. gdi_put bm u v c"]
      unfolding gdi_bres_def line_points_def Let_def ad bres_y_steps by (auto split: prod.splits)
  qed
qed

text \<open>C20: the line drawing loop colours exactly the pixels nearest to the ideal line, the end point
  excluded, in every direction and clipped to the surface.\<close>

theorem line_exact:
  assumes "surf_ok bm" "inside bm u v" "\<bar>x0\<bar> < 2 ^ 29" "\<bar>y0\<bar> < 2 ^ 29" "\<bar>x1\<bar> < 2 ^ 29" "\<bar>y1\<bar> < 2 ^ 29"
  shows "gdi_getpx bm u v (gdi_bres bm x0 y0 x1 y1 c m) = (if on_line x0 y0 x1 y1 u v then c AND 0xFFFFFF else gdi_getpx bm u v m)"
  unfolding gdi_bres_points [OF assms(3-6)] gdi_canvas.paint_list [OF assms(1,2) line_points_distinct] line_points_mem ..

theorem line_exact_witness: "gdi_getpx demo_bitmap 2 1 (gdi_bres demo_bitmap 0 0 3 2 0x00FF00 (\<lambda>_. 0)) = 0x00FF00"
proof -
  have "on_line 0 0 3 2 2 1" by (simp add: on_line_def)
  then show ?thesis using line_exact [OF demo_surf(1), of 2 1 0 0 3 2 "0x00FF00" "\<lambda>_. 0"] by (simp add: inside_def demo_surf)
qed

section \<open>The coordinate mapping\<close>

lemma round_pos:
  fixes n c :: int
  assumes "0 \<le> n" "0 < c" "q = (n + c div 2) div c"
  shows "0 \<le> q" "2 * \<bar>c * q - n\<bar> \<le> c" "2 * \<bar>c * q - n\<bar> = c \<Longrightarrow> n < c * q"
proof -
  have h: "c div 2 + c div 2 \<le> c" "c \<le> c div 2 + c div 2 + 1" by auto
  have q: "c * q \<le> n + c div 2" "n + c div 2 < c * q + c"
    using mult_div_mod_eq [of c "n + c div 2"] pos_mod_bound [OF assms(2), of "n + c div 2"] pos_mod_sign [OF assms(2), of "n + c div 2"]
    unfolding assms(3) by linarith+
  have "0 \<le> n + c div 2" using assms(1,2) by auto
  then show "0 \<le> q" unfolding assms(3) using assms(2) by (subst pos_imp_zdiv_nonneg_iff) auto
  have "x \<le> n + k \<Longrightarrow> n + k < x + c \<Longrightarrow> k + k \<le> c \<Longrightarrow> c \<le> k + k + 1 \<Longrightarrow> 2 * (x - n) \<le> c \<and> 2 * (n - x) \<le> c \<and> 2 * (n - x) \<noteq> c" for x k
    by presburger
  from this [OF q h] have b: "2 * (c * q - n) \<le> c" "2 * (n - c * q) \<le> c" "2 * (n - c * q) \<noteq> c" by auto
  then show "2 * \<bar>c * q - n\<bar> \<le> c" by (auto simp: abs_if)
  show "n < c * q" if e: "2 * \<bar>c * q - n\<bar> = c"
  proof (cases "c * q \<le> n")
    case True
    then have "\<bar>c * q - n\<bar> = n - c * q" by simp
    then show ?thesis using e b(3) by simp
  qed simp
qed

lemma muldiv_core:
  fixes n c :: int
  assumes "0 < c" "q = (if n \<ge> 0 then (n + c div 2) div c else - ((- n + c div 2) div c))"
  shows "2 * \<bar>c * q - n\<bar> \<le> c \<and> (2 * \<bar>c * q - n\<bar> = c \<longrightarrow> \<bar>n\<bar> < \<bar>c * q\<bar>)"
proof (cases "n \<ge> 0")
  case True
  note p = round_pos [OF True assms(1) refl]
  have e: "q = (n + c div 2) div c" using True assms(2) by simp
  show ?thesis using p True unfolding e [symmetric] by auto
next
  case False
  then have n: "0 \<le> - n" by simp
  note p = round_pos [OF n assms(1) refl]
  have e: "(- n + c div 2) div c = - q" using False assms(2) by simp
  have "c * - q - - n = - (c * q - n)" by simp
  then have a: "\<bar>c * - q - - n\<bar> = \<bar>c * q - n\<bar>" by linarith
  show ?thesis using p(2,3) n unfolding e a by auto
qed

text \<open>The scaling of coordinates rounds the exact quotient \<open>a b / c\<close> to the nearest integer, a tie
  away from zero, for every sign of the three numbers.\<close>

theorem muldiv_nearest:
  assumes "c \<noteq> 0" "r = gdi_muldiv a b c" "\<bar>a * b\<bar> \<le> (2 ^ 31 - 2) * \<bar>c\<bar>"
  shows "2 * \<bar>c * r - a * b\<bar> \<le> \<bar>c\<bar> \<and> (2 * \<bar>c * r - a * b\<bar> = \<bar>c\<bar> \<longrightarrow> \<bar>a * b\<bar> < \<bar>c * r\<bar>)"
proof -
  define n c' where "n = (if c < 0 then - (a * b) else a * b)" and "c' = (if c < 0 then - c else c)"
  define q where "q = (if n \<ge> 0 then (n + c' div 2) div c' else - ((- n + c' div 2) div c'))"
  have c': "0 < c'" "c' = \<bar>c\<bar>" "\<bar>n\<bar> = \<bar>a * b\<bar>" using assms(1) by (auto simp: c'_def n_def)
  have m: "2 * \<bar>c' * q - n\<bar> \<le> c' \<and> (2 * \<bar>c' * q - n\<bar> = c' \<longrightarrow> \<bar>n\<bar> < \<bar>c' * q\<bar>)" by (rule muldiv_core [OF c'(1) q_def])
  have "c' * \<bar>q\<bar> = \<bar>c' * q\<bar>" using c'(1) by (simp add: abs_mult)
  also have "\<dots> \<le> \<bar>n\<bar> + \<bar>c' * q - n\<bar>" using abs_triangle_ineq [of n "c' * q - n"] by simp
  also have "\<dots> \<le> \<bar>n\<bar> + c'" using conjunct1 [OF m] abs_ge_zero [of "c' * q - n"] by (intro add_left_mono) (rule order_trans [of _ "2 * \<bar>c' * q - n\<bar>"], simp)
  also have "\<dots> \<le> c' * (2 ^ 31 - 1)" using assms(3) c' by (simp add: algebra_simps)
  finally have "\<bar>q\<bar> \<le> 2 ^ 31 - 1" using c'(1) by (simp only: mult_le_cancel_left_pos)
  then have "c_int q = q" by (intro c_int_id) auto
  moreover have "gdi_muldiv a b c = c_int q" unfolding gdi_muldiv_def Let_def q_def n_def c'_def if_not_P [OF assms(1)] ..
  ultimately have r: "r = q" using assms(2) by simp
  have "\<bar>c * q - a * b\<bar> = \<bar>c' * q - n\<bar>" "\<bar>c * q\<bar> = \<bar>c' * q\<bar>" by (auto simp: c'_def n_def)
  then show ?thesis using m c' unfolding r by simp
qed

theorem muldiv_nearest_witness: "gdi_muldiv (-8) 1 3 = -3 \<and> 2 * \<bar>3 * gdi_muldiv (-8) 1 3 - (-8) * 1\<bar> \<le> (3 :: int)"
proof -
  have "gdi_muldiv (-8) 1 3 = -3" by (simp add: gdi_muldiv_def c_int_def)
  then show ?thesis using muldiv_nearest [of 3 "-3" "-8" 1] by simp
qed

section \<open>Saving and restoring a device context\<close>

lemma upd_obj_nth [simp]: "d < length (g_gdi s) \<Longrightarrow> g_gdi (upd_obj d f s) = (g_gdi s)[d := f (obj s d)]" "mem (upd_obj d f s) = mem s"
  by (simp_all add: upd_obj_def)

lemma dc_idxD: "dc_idx G h = Some d \<Longrightarrow> gdi_idx G h = Some d \<and> type (G ! d) = GDIT_DC \<and> d < length G"
  by (auto simp: dc_idx_def split: option.splits if_splits dest: gdh.idxD)

text \<open>The attributes a level of the save stack holds.\<close>

definition saved_attrs :: "gdi_obj \<Rightarrow> dc_save" where
  "saved_attrs o' = \<lparr>sv_font = sel_font o', sv_brush = sel_brush o', sv_pen = sel_pen o', sv_tc = text_color o',
     sv_bc = bk_color o', sv_bm = bk_mode o', sv_mm = mapmode o'\<rparr>"

text \<open>\<^verbatim>\<open>SaveDC\<close> and a later \<^verbatim>\<open>RestoreDC(hdc, -1)\<close> bring back the selected objects, the colours, the background
  mode, the mapping mode and the stack level, whatever was done to them in between; the origins and extents
  of the mapping, the position and the clip are left as they then are.\<close>

theorem save_restore_exact:
  assumes "dc_idx (g_gdi s) h = Some d" "WU esp 0 s = h" "savetop (obj s d) < 8" "length (sstk (obj s d)) = 8"
    and "aret_SaveDC esp s = (lv, s1)"
    and "dc_idx (g_gdi s2) h = Some d" "WU esp 0 s2 = h" "WI esp 1 s2 = -1"
    and "sstk (obj s2 d) = sstk (obj s1 d)" "savetop (obj s2 d) = savetop (obj s1 d)"
    and "aret_RestoreDC esp s2 = (r, s3)"
  shows "lv = of_nat (savetop (obj s d) + 1) \<and> r = 1 \<and> saved_attrs (obj s3 d) = saved_attrs (obj s d) \<and> savetop (obj s3 d) = savetop (obj s d)
    \<and> dc_l2d (obj s3 d) = dc_l2d (obj s2 d) \<and> clip_of (obj s3 d) = clip_of (obj s2 d)
    \<and> (cur_x (obj s3 d), cur_y (obj s3 d)) = (cur_x (obj s2 d), cur_y (obj s2 d))"
proof -
  have l: "d < length (g_gdi s)" "d < length (g_gdi s2)" using dc_idxD [OF assms(1)] dc_idxD [OF assms(6)] by auto
  have s1: "lv = of_nat (savetop (obj s d) + 1)" "savetop (obj s1 d) = savetop (obj s d) + 1" "sstk (obj s1 d) ! savetop (obj s d) = saved_attrs (obj s d)"
    using assms(1-5) l by (auto simp: aret_SaveDC_def saved_attrs_def)
  have "s3 = upd_obj d (\<lambda>o'. let v = sstk o' ! savetop (obj s d) in o'\<lparr>sel_font := sv_font v, sel_brush := sv_brush v, sel_pen := sv_pen v,
      text_color := sv_tc v, bk_color := sv_bc v, bk_mode := sv_bm v, mapmode := sv_mm v, savetop := savetop (obj s d)\<rparr>) s2" "r = 1"
    using assms(6-11) s1(2) by (auto simp: aret_RestoreDC_def Let_def)
  then show ?thesis using l s1 assms(9) by (auto simp: saved_attrs_def Let_def dc_l2d_def clip_of_def fun_eq_iff)
qed

theorem save_restore_exact_witness:
  "saved_attrs (obj (snd (aret_RestoreDC 0x100 (snd (aret_SaveDC 0x100 (gdi_demo [GDI_BASE OR 1, 0xFFFFFFFF]))))) 1) = saved_attrs demo_dc"
proof -
  let ?s = "gdi_demo [GDI_BASE OR 1, 0xFFFFFFFF]" and ?h = "GDI_BASE OR 1"
  let ?s1 = "snd (aret_SaveDC 0x100 ?s)"
  have d: "dc_idx (g_gdi ?s) ?h = Some 1" by (simp add: dc_idx_def)
  obtain f where s1: "?s1 = upd_obj 1 f ?s" "used (f demo_dc)" "type (f demo_dc) = GDIT_DC" "savetop (f demo_dc) = 1"
    using d by (fastforce simp: aret_SaveDC_def)
  have g: "g_gdi ?s1 = [gdi_zero, f demo_dc, demo_bitmap, demo_brush]" "WU 0x100 i ?s1 = WU 0x100 i ?s" for i
    using s1(1) by (simp_all add: WU_def)
  have d1: "dc_idx (g_gdi ?s1) ?h = Some 1"
    unfolding g using s1(2,3) by (simp add: dc_idx_def gdi_idx_def GDI_BASE_def)
  have w: "WI 0x100 1 ?s1 = -1" by (simp add: WI_def g)
  show ?thesis
    using save_restore_exact [OF d _ _ _ surjective_pairing d1 _ w refl refl surjective_pairing] by (simp add: g)
qed

section \<open>Clipping\<close>

text \<open>Cutting a full-width band off the top or the bottom of the clip is exact; cutting a band off the
  left or the right side empties the clip although the rest of it is not empty.\<close>

theorem exclude_clip_bands:
  assumes "clip_of o' = (cl, ct, cr, cb)" "cl < cr" "ct < cb" "q = (l, t, r, b)"
  shows "(l \<le> cl \<and> cr \<le> r \<and> (t \<le> ct \<or> cb \<le> b) \<longrightarrow> points (clip_of (exclude_clip q o')) = points (clip_of o') - points q)
    \<and> (t \<le> ct \<and> cb \<le> b \<and> (l \<le> cl \<and> cl < r \<and> r < cr \<or> cl < l \<and> l < cr \<and> cr \<le> r) \<longrightarrow>
        points (clip_of (exclude_clip q o')) = {} \<and> points (clip_of o') - points q \<noteq> {})"
proof (intro conjI impI)
  have c: "clip_l o' = cl" "clip_t o' = ct" "clip_r o' = cr" "clip_b o' = cb" using assms(1) by (simp_all add: clip_of_def)
  show "points (clip_of (exclude_clip q o')) = points (clip_of o') - points q" if "l \<le> cl \<and> cr \<le> r \<and> (t \<le> ct \<or> cb \<le> b)"
  proof (rule set_eqI)
    fix p :: "int \<times> int"
    obtain u v where "p = (u, v)" by (cases p)
    then show "p \<in> points (clip_of (exclude_clip q o')) \<longleftrightarrow> p \<in> points (clip_of o') - points q"
      using that assms(2,3) unfolding assms(4) exclude_clip_def Let_def by (auto simp: c clip_of_def)
  qed
next
  have c: "clip_l o' = cl" "clip_t o' = ct" "clip_r o' = cr" "clip_b o' = cb" using assms(1) by (simp_all add: clip_of_def)
  assume a: "t \<le> ct \<and> cb \<le> b \<and> (l \<le> cl \<and> cl < r \<and> r < cr \<or> cl < l \<and> l < cr \<and> cr \<le> r)"
  then have "rect_empty (clip_of (exclude_clip q o'))"
    using assms(2,3) unfolding assms(4) exclude_clip_def Let_def by (auto simp: c clip_of_def)
  then show "points (clip_of (exclude_clip q o')) = {}" by (simp add: points_empty_iff)
  have "(if l \<le> cl then r else cl, ct) \<in> points (clip_of o') - points q" using a assms(2,3) by (auto simp: c clip_of_def assms(4))
  then show "points (clip_of o') - points q \<noteq> {}" by blast
qed

theorem exclude_clip_bands_witness:
  "points (clip_of (exclude_clip (0, 0, 4, 10) (set_clip (0, 0, 10, 10) False gdi_zero))) = {}"
  using exclude_clip_bands [of "set_clip (0, 0, 10, 10) False gdi_zero" 0 0 10 10 "(0, 0, 4, 10)" 0 0 4 10]
  by (simp add: set_clip_def clip_of_def)

end
