(* ===== verification/Aret_Ini.thy ===== *)
theory Aret_Ini
  imports Aret_Prelude "HOL-Library.Monad_Syntax"
begin

text \<open>
  Paths and profile files: \<^verbatim>\<open>translate_path\<close> and the \<^verbatim>\<open>.INI\<close> API of \<^verbatim>\<open>aret_hle.c\<close>. The host file
  system is the map from native paths to the contents of regular files; the environment's
  prefix, the success of an allocation and of opening a file for writing are parameters.
  A \<^verbatim>\<open>char *\<close> that may be NULL is an option.
\<close>

section \<open>Paths\<close>

record fs = hle +
  files :: "u8 list \<Rightarrow> u8 list option"

text \<open>
  \<^verbatim>\<open>translate_path\<close> into a buffer of \<open>cap\<close> bytes. \<^verbatim>\<open>snprintf\<close> returns the length it would have
  needed, so a prefix that does not fit makes the final store leave the buffer: None.
\<close>

definition translate_path :: "u8 list \<Rightarrow> u8 list option \<Rightarrow> nat \<Rightarrow> u8 list option" where
  "translate_path prefix win cap = (case win of None \<Rightarrow> Some []
     | Some w \<Rightarrow>
       let drive = length w > 2 \<and> w ! 1 = 0x3A \<and> (w ! 2 = 0x5C \<or> w ! 2 = 0x2F);
           pre = (if drive then prefix @ map of_char ''/drive_'' @ [ascii_lower (w ! 0)]
                  else if w \<noteq> [] \<and> w ! 0 = 0x5C then prefix else []);
           rest = (if drive then drop 2 w else w)
       in if length pre \<ge> cap then None
          else Some (pre @ map (\<lambda>c. if c = 0x5C then 0x2F else c) (take (cap - 1 - length pre) rest)))"

definition opt_str :: "guest_mem \<Rightarrow> u32 \<Rightarrow> u8 list option" where
  "opt_str m p = (if p = 0 then None else Some (cstr m p))"

section \<open>Lines of a profile\<close>

text \<open>\<^verbatim>\<open>ini_slurp\<close>: the bytes up to the first NUL, NULL when the file cannot be read.\<close>

definition ini_slurp :: "u8 list option \<Rightarrow> u8 list option" where
  "ini_slurp f = map_option (takeWhile (\<lambda>c. c \<noteq> 0)) f"

definition ini_ieq :: "u8 list \<Rightarrow> u8 list \<Rightarrow> bool" where
  "ini_ieq a b \<longleftrightarrow> strcaseeq a b"

abbreviation nl :: u8 where "nl \<equiv> 0x0A"

definition blank :: "u8 \<Rightarrow> bool" where
  "blank c \<longleftrightarrow> c = 0x20 \<or> c = 0x09"

text \<open>The lines as the scanning loops cut them: each with its newline, the last one maybe without.\<close>

function ini_split :: "u8 list \<Rightarrow> u8 list list" where
  "ini_split d = (if d = [] then []
     else case dropWhile (\<lambda>c. c \<noteq> nl) d of
         [] \<Rightarrow> [d]
       | _ # rest \<Rightarrow> (takeWhile (\<lambda>c. c \<noteq> nl) d @ [nl]) # ini_split rest)"
  by pat_completeness auto
termination
proof (relation "measure length")
  fix d :: "u8 list" and x rest
  assume "dropWhile (\<lambda>c. c \<noteq> nl) d = x # rest"
  then have "length (x # rest) \<le> length d" by (metis length_dropWhile_le)
  then show "(rest, d) \<in> measure length" by simp
qed simp

declare ini_split.simps [simp del]

text \<open>\<open>[ls, le)\<close>: the line without its newline; \<^verbatim>\<open>t\<close>: after its leading blanks.\<close>

definition body :: "u8 list \<Rightarrow> u8 list" where
  "body raw = takeWhile (\<lambda>c. c \<noteq> nl) raw"

definition ini_header :: "u8 list \<Rightarrow> u8 list option" where
  "ini_header L = (case dropWhile blank L of
       c # s \<Rightarrow> if c = 0x5B then Some (takeWhile (\<lambda>c. c \<noteq> 0x5D) s) else None | [] \<Rightarrow> None)"

text \<open>The key (without trailing blanks) and what follows the equals sign.\<close>

definition ini_pair :: "u8 list \<Rightarrow> (u8 list \<times> u8 list) option" where
  "ini_pair L = (let t = dropWhile blank L in
     case dropWhile (\<lambda>c. c \<noteq> 0x3D) t of [] \<Rightarrow> None
     | _ # v \<Rightarrow> Some (rev (dropWhile blank (rev (takeWhile (\<lambda>c. c \<noteq> 0x3D) t))), v))"

definition ini_clean_value :: "u8 list \<Rightarrow> nat \<Rightarrow> u8 list" where
  "ini_clean_value v cap =
     (let a = dropWhile blank v; b = rev (dropWhile (\<lambda>c. blank c \<or> c = 0x0D) (rev a));
          q = (if length b \<ge> 2 \<and> hd b = 0x22 \<and> last b = 0x22 then butlast (tl b) else b)
      in take (cap - 1) q)"

section \<open>Looking up\<close>

text \<open>A line that is not a comment: \<^verbatim>\<open>t < le && *t != ';' && *t != '#' && *t != '\\r'\<close>.\<close>

definition ini_active :: "u8 list \<Rightarrow> bool" where
  "ini_active L = (case dropWhile blank L of [] \<Rightarrow> False | c # _ \<Rightarrow> c \<noteq> 0x3B \<and> c \<noteq> 0x23 \<and> c \<noteq> 0x0D)"

definition ini_match :: "u8 list \<Rightarrow> u8 list \<Rightarrow> u8 list option" where
  "ini_match key L = (case ini_pair L of None \<Rightarrow> None | Some (k, v) \<Rightarrow> if ini_ieq k key then Some v else None)"

fun ini_scan :: "u8 list \<Rightarrow> u8 list \<Rightarrow> nat \<Rightarrow> bool \<Rightarrow> u8 list list \<Rightarrow> u8 list option" where
  "ini_scan sec key cap inn [] = None"
| "ini_scan sec key cap inn (L # Ls) =
     (case ini_header L of Some n \<Rightarrow> ini_scan sec key cap (ini_ieq n sec) Ls
      | None \<Rightarrow> if inn \<and> ini_active L
          then (case ini_match key L of Some v \<Rightarrow> Some (ini_clean_value v cap) | None \<Rightarrow> ini_scan sec key cap inn Ls)
          else ini_scan sec key cap inn Ls)"

definition ini_get :: "u8 list option \<Rightarrow> u8 list \<Rightarrow> u8 list \<Rightarrow> nat \<Rightarrow> u8 list option" where
  "ini_get data sec key cap = (case data of None \<Rightarrow> None
     | Some d \<Rightarrow> ini_scan sec key cap False (map body (ini_split d)))"

section \<open>Rewriting\<close>

text \<open>
  The output buffer has \<open>cap\<close> bytes. \<^verbatim>\<open>snprintf\<close> needs room for its NUL, \<^verbatim>\<open>memcpy\<close> for the bytes;
  a write that does not fit is None. The code goes on there: \<^verbatim>\<open>snprintf\<close> cuts the text but its result,
  by which the position advances, is the full length, so the position reaches the end of the buffer (one
  byte too few: the last newline is lost) or passes it.
\<close>

definition emitf :: "nat \<Rightarrow> u8 list \<Rightarrow> u8 list \<Rightarrow> u8 list option" where
  "emitf cap bs out = (if length out + length bs < cap then Some (out @ bs) else None)"

definition emitm :: "nat \<Rightarrow> u8 list \<Rightarrow> u8 list \<Rightarrow> u8 list option" where
  "emitm cap bs out = (if length out + length bs \<le> cap then Some (out @ bs) else None)"

text \<open>\<^verbatim>\<open>"%s=%s\n"\<close> and \<^verbatim>\<open>"[%s]\n"\<close>, without the newline.\<close>

definition kv_line :: "u8 list \<Rightarrow> u8 list \<Rightarrow> u8 list" where
  "kv_line key value = key @ [0x3D] @ value"

definition sec_line :: "u8 list \<Rightarrow> u8 list" where
  "sec_line sec = [0x5B] @ sec @ [0x5D]"

text \<open>The loop's state: the output, \<^verbatim>\<open>in_target\<close>, \<^verbatim>\<open>key_done\<close>, \<^verbatim>\<open>section_seen\<close>.\<close>

type_synonym rw_state = "u8 list \<times> bool \<times> bool \<times> bool"

definition ini_step :: "nat \<Rightarrow> u8 list \<Rightarrow> u8 list option \<Rightarrow> u8 list option \<Rightarrow> u8 list \<Rightarrow> rw_state \<Rightarrow> rw_state option" where
  "ini_step cap sec key value raw st = (case st of (out, tgt, kdone, seen) \<Rightarrow>
     case ini_header (body raw) of
       Some n \<Rightarrow> do {
         (out, kdone) \<leftarrow> (case (key, value) of
             (Some k, Some v) \<Rightarrow> if tgt \<and> \<not> kdone
               then do { out' \<leftarrow> emitf cap (kv_line k v @ [nl]) out; Some (out', True) } else Some (out, kdone)
           | _ \<Rightarrow> Some (out, kdone));
         let m = ini_ieq n sec;
         if m \<and> key = None then Some (out, m, kdone, seen \<or> m)
         else do { out' \<leftarrow> emitm cap raw out; Some (out', m, kdone, seen \<or> m) } }
     | None \<Rightarrow> if tgt \<and> key = None then Some (out, tgt, kdone, seen)
         else if tgt \<and> (case key of None \<Rightarrow> False | Some k \<Rightarrow> ini_match k (body raw) \<noteq> None)
         then (case (key, value) of
             (Some k, Some v) \<Rightarrow> do { out' \<leftarrow> emitf cap (kv_line k v @ [nl]) out; Some (out', tgt, True, seen) }
           | _ \<Rightarrow> Some (out, tgt, True, seen))
         else do { out' \<leftarrow> emitm cap raw out; Some (out', tgt, kdone, seen) })"

primrec ini_loop :: "nat \<Rightarrow> u8 list \<Rightarrow> u8 list option \<Rightarrow> u8 list option \<Rightarrow> u8 list list \<Rightarrow> rw_state \<Rightarrow> rw_state option" where
  "ini_loop cap sec key value [] st = Some st"
| "ini_loop cap sec key value (raw # rs) st = do { st' \<leftarrow> ini_step cap sec key value raw st; ini_loop cap sec key value rs st' }"

definition opt_len :: "u8 list option \<Rightarrow> nat" where
  "opt_len x = (case x of None \<Rightarrow> 0 | Some s \<Rightarrow> length s)"

definition ini_rewrite :: "u8 list option \<Rightarrow> u8 list \<Rightarrow> u8 list option \<Rightarrow> u8 list option \<Rightarrow> u8 list option" where
  "ini_rewrite data sec key value =
     (let d = (case data of None \<Rightarrow> [] | Some d \<Rightarrow> d); cap = length d + length sec + opt_len key + opt_len value + 64 in do {
        (out, tgt, kdone, seen) \<leftarrow> ini_loop cap sec key value (ini_split d) ([], False, False, False);
        case (key, value) of
          (Some k, Some v) \<Rightarrow> if kdone then Some out else do {
            out' \<leftarrow> (if out \<noteq> [] \<and> last out \<noteq> nl then emitm cap [nl] out else Some out);
            emitf cap ((if seen then [] else sec_line sec @ [nl]) @ kv_line k v @ [nl]) out' }
        | _ \<Rightarrow> Some out })"

section \<open>The shims\<close>

text \<open>A native path; the buffers of the shims have 1024 bytes.\<close>

definition ini_data :: "u8 list \<Rightarrow> u8 list option \<Rightarrow> fs \<Rightarrow> u8 list option option" where
  "ini_data prefix win s = do { p \<leftarrow> translate_path prefix win 1024; Some (ini_slurp (files s p)) }"

text \<open>The string that the two string readers copy out, and the copy loop.\<close>

definition profile_string :: "u8 list option \<Rightarrow> u32 \<Rightarrow> fs \<Rightarrow> u8 list" where
  "profile_string data esp s = (let m = mem s; def = opt_str m (WU esp 2 s) in
     case (opt_str m (WU esp 0 s), opt_str m (WU esp 1 s)) of
       (Some sec, Some key) \<Rightarrow> (case ini_get data sec key 1024 of Some v \<Rightarrow> v
           | None \<Rightarrow> (case def of None \<Rightarrow> [] | Some d \<Rightarrow> d))
     | _ \<Rightarrow> (case def of None \<Rightarrow> [] | Some d \<Rightarrow> d))"

definition profile_copy :: "u8 list \<Rightarrow> u32 \<Rightarrow> u32 \<Rightarrow> fs \<Rightarrow> u32 \<times> fs" where
  "profile_copy src buf sz s = (let v = take (unat sz - 1) src in
     (of_nat (length v), s\<lparr>mem := st_bytes (mem s) buf (v @ [0])\<rparr>))"

definition aret_GetPrivateProfileStringA :: "u8 list \<Rightarrow> u32 \<Rightarrow> fs \<Rightarrow> (u32 \<times> fs) option" where
  "aret_GetPrivateProfileStringA prefix esp s = (let buf = WU esp 3 s; sz = WU esp 4 s in
     if buf = 0 \<or> sz = 0 then Some (0, s)
     else do { data \<leftarrow> ini_data prefix (opt_str (mem s) (WU esp 5 s)) s;
               Some (profile_copy (profile_string data esp s) buf sz s) })"

text \<open>\<^verbatim>\<open>strtol(val, NULL, 10)\<close> with a 32-bit \<^verbatim>\<open>long\<close>: blanks, a sign, digits; clamped to its range.\<close>

definition strtol10 :: "u8 list \<Rightarrow> int" where
  "strtol10 v = (let t = dropWhile (\<lambda>c. c = 0x20 \<or> (0x09 \<le> c \<and> c \<le> 0x0D)) v;
       neg = (t \<noteq> [] \<and> hd t = 0x2D); u = (if t \<noteq> [] \<and> (hd t = 0x2D \<or> hd t = 0x2B) then tl t else t);
       n = foldl (\<lambda>a c. 10 * a + (uint c - 48)) 0 (takeWhile (\<lambda>c. 0x30 \<le> c \<and> c \<le> 0x39) u)
     in max (- (2 ^ 31)) (min (2 ^ 31 - 1) (if neg then - n else n)))"

definition profile_int :: "u8 list option \<Rightarrow> u32 \<Rightarrow> fs \<Rightarrow> u32" where
  "profile_int data esp s = (case (opt_str (mem s) (WU esp 0 s), opt_str (mem s) (WU esp 1 s)) of
       (Some sec, Some key) \<Rightarrow> (case ini_get data sec key 64 of Some v \<Rightarrow> word_of_int (strtol10 v) | None \<Rightarrow> WU esp 2 s)
     | _ \<Rightarrow> WU esp 2 s)"

definition aret_GetPrivateProfileIntA :: "u8 list \<Rightarrow> u32 \<Rightarrow> fs \<Rightarrow> (u32 \<times> fs) option" where
  "aret_GetPrivateProfileIntA prefix esp s = do { data \<leftarrow> ini_data prefix (opt_str (mem s) (WU esp 3 s)) s;
     Some (profile_int data esp s, s) }"

definition win_ini :: "u8 list" where
  "win_ini = map of_char ''win.ini''"

definition aret_GetProfileStringA :: "u8 list \<Rightarrow> u32 \<Rightarrow> fs \<Rightarrow> (u32 \<times> fs) option" where
  "aret_GetProfileStringA prefix esp s = (let buf = WU esp 3 s; sz = WU esp 4 s in
     if buf = 0 \<or> sz = 0 then Some (0, s)
     else do { data \<leftarrow> ini_data prefix (Some win_ini) s; Some (profile_copy (profile_string data esp s) buf sz s) })"

definition aret_GetProfileIntA :: "u8 list \<Rightarrow> u32 \<Rightarrow> fs \<Rightarrow> (u32 \<times> fs) option" where
  "aret_GetProfileIntA prefix esp s = do { data \<leftarrow> ini_data prefix (Some win_ini) s; Some (profile_int data esp s, s) }"

definition aret_GetProfileIntW :: "u32 \<Rightarrow> fs \<Rightarrow> u32 \<times> fs" where
  "aret_GetProfileIntW esp s = (if WU esp 0 s = 0 then 0 else WU esp 2 s, s)"

text \<open>\<open>mok\<close>: the buffer could be allocated; \<open>wok\<close>: the file could be opened for writing.\<close>

definition aret_WritePrivateProfileStringA :: "bool \<Rightarrow> bool \<Rightarrow> u8 list \<Rightarrow> u32 \<Rightarrow> fs \<Rightarrow> (u32 \<times> fs) option" where
  "aret_WritePrivateProfileStringA mok wok prefix esp s = (let m = mem s in
     case opt_str m (WU esp 0 s) of None \<Rightarrow> Some (0, s)
     | Some sec \<Rightarrow> do {
         path \<leftarrow> translate_path prefix (opt_str m (WU esp 3 s)) 1024;
         if \<not> mok then Some (0, s) else do {
           out \<leftarrow> ini_rewrite (ini_slurp (files s path)) sec (opt_str m (WU esp 1 s)) (opt_str m (WU esp 2 s));
           if \<not> wok then Some (0, s) else Some (1, s\<lparr>files := (files s)(path \<mapsto> out)\<rparr>) } })"

end
