(* ===== verification/Aret_Ini_Theorems.thy ===== *)
theory Aret_Ini_Theorems
  imports Aret_Ini
begin

text \<open>
  What the profile functions compute. The rewriting loop works on bytes in a buffer; its
  result is characterised by what it does to the list of lines, and the laws of looking up
  after writing follow from that. Then the buffer: when it is large enough, and the case in
  which it is not.
\<close>

section \<open>Splitting and joining lines\<close>

definition wfl :: "u8 list \<Rightarrow> bool" where
  "wfl r \<longleftrightarrow> r \<noteq> [] \<and> nl \<notin> set (butlast r)"

definition full :: "u8 list \<Rightarrow> bool" where
  "full r \<longleftrightarrow> (\<exists>b. nl \<notin> set b \<and> r = b @ [nl])"

fun lines_ok :: "u8 list list \<Rightarrow> bool" where
  "lines_ok [] = True"
| "lines_ok (r # rs) \<longleftrightarrow> wfl r \<and> (rs \<noteq> [] \<longrightarrow> full r) \<and> lines_ok rs"

lemma full_wfl [simp]: "full r \<Longrightarrow> wfl r"
  by (auto simp: full_def wfl_def)

lemma fullI [simp, intro]: "nl \<notin> set b \<Longrightarrow> full (b @ [nl])"
  by (auto simp: full_def)

lemma wfl_cases: "wfl r \<Longrightarrow> full r \<or> nl \<notin> set r"
proof -
  assume w: "wfl r"
  then have e: "r = butlast r @ [last r]" by (simp add: wfl_def)
  show ?thesis
  proof (cases "last r = nl")
    case True
    then show ?thesis using w e unfolding full_def wfl_def by metis
  next
    case False
    have "set r = insert (last r) (set (butlast r))" by (subst e) simp
    with False w show ?thesis by (auto simp: wfl_def)
  qed
qed

lemma no_nl: "nl \<notin> set r \<Longrightarrow> takeWhile (\<lambda>c. c \<noteq> nl) r = r" "nl \<notin> set r \<Longrightarrow> dropWhile (\<lambda>c. c \<noteq> nl) r = []"
  by (auto simp: takeWhile_eq_all_conv)

lemma split_at_nl: "nl \<notin> set b \<Longrightarrow> takeWhile (\<lambda>c. c \<noteq> nl) (b @ nl # d) = b"
  "nl \<notin> set b \<Longrightarrow> dropWhile (\<lambda>c. c \<noteq> nl) (b @ nl # d) = nl # d"
  by (auto simp: takeWhile_append dropWhile_append)

lemma ini_split_concat: "lines_ok ls \<Longrightarrow> ini_split (concat ls) = ls"
proof (induction ls)
  case Nil
  then show ?case by (simp add: ini_split.simps)
next
  case (Cons r ls)
  show ?case
  proof (cases "full r")
    case True
    then obtain b where b: "nl \<notin> set b" "r = b @ [nl]" by (auto simp: full_def)
    then have "ini_split (concat (r # ls)) = r # ini_split (concat ls)"
      by (subst ini_split.simps) (simp add: split_at_nl)
    with Cons show ?thesis by simp
  next
    case False
    with Cons.prems have "ls = []" "nl \<notin> set r" "r \<noteq> []" using wfl_cases by (auto simp: wfl_def)
    then show ?thesis by (simp add: ini_split.simps no_nl)
  qed
qed

lemma ini_split_Nil [simp]: "ini_split [] = []"
  by (simp add: ini_split.simps)

lemma ini_split_ok: "lines_ok (ini_split d) \<and> concat (ini_split d) = d"
proof (induction d rule: ini_split.induct)
  case (1 d)
  show ?case
  proof (cases "dropWhile (\<lambda>c. c \<noteq> nl) d")
    case Nil
    then have "nl \<notin> set d" by (simp add: dropWhile_eq_Nil_conv) blast
    then have "wfl d" if "d \<noteq> []" using that by (auto simp: wfl_def dest: in_set_butlastD)
    then show ?thesis by (auto simp: ini_split.simps [of d] Nil)
  next
    case (Cons x rest)
    have x: "x = nl" using hd_dropWhile [of "\<lambda>c. c \<noteq> nl" d] Cons by auto
    have d: "d = takeWhile (\<lambda>c. c \<noteq> nl) d @ nl # rest"
      using takeWhile_dropWhile_id [of "\<lambda>c. c \<noteq> nl" d] unfolding Cons x by simp
    then have ne: "d \<noteq> []" by (metis Nil_is_append_conv list.distinct(1))
    have s: "ini_split d = (takeWhile (\<lambda>c. c \<noteq> nl) d @ [nl]) # ini_split rest"
      using ne by (simp add: ini_split.simps [of d] Cons)
    have f: "full (takeWhile (\<lambda>c. c \<noteq> nl) d @ [nl])"
      by (rule fullI) (auto dest: set_takeWhileD)
    show ?thesis using "1.IH" [OF ne Cons] f d by (simp add: s)
  qed
qed

lemma body_full [simp]: "nl \<notin> set b \<Longrightarrow> body (b @ [nl]) = b"
  by (simp add: body_def split_at_nl)

lemma lines_ok_append: "(\<forall>r \<in> set ls. full r) \<Longrightarrow> lines_ok rs \<Longrightarrow> lines_ok (ls @ rs)"
  by (induction ls) auto

lemma lines_ok_full: "(\<forall>r \<in> set ls. full r) \<Longrightarrow> lines_ok ls"
  by (induction ls) auto

text \<open>Adding the missing newline of a last line does not change what the lines say.\<close>

lemma lines_ok_snoc: "lines_ok (ls @ [r]) \<Longrightarrow> (\<forall>x \<in> set ls. full x) \<and> wfl r"
  by (induction ls) auto

lemma terminate_lines:
  assumes "lines_ok ls"
  obtains ls' where "(if concat ls \<noteq> [] \<and> last (concat ls) \<noteq> nl then concat ls @ [nl] else concat ls) = concat ls'"
    and "\<forall>r \<in> set ls'. full r" and "map body ls' = map body ls"
proof (cases ls rule: rev_cases)
  case Nil
  then show ?thesis using that [of "[]"] by simp
next
  case (snoc init r)
  with assms have f: "\<forall>x \<in> set init. full x" and w: "wfl r" using lines_ok_snoc by blast+
  from w have ne: "r \<noteq> []" by (simp add: wfl_def)
  show ?thesis
  proof (cases "full r")
    case True
    then have "last r = nl" by (auto simp: full_def)
    with True f ne show ?thesis using that [of ls] by (simp add: snoc)
  next
    case False
    with w have r: "nl \<notin> set r" using wfl_cases by blast
    with ne have l: "last r \<noteq> nl" using last_in_set by force
    have "body r = r" using r by (simp add: body_def no_nl)
    with r l f ne show ?thesis using that [of "init @ [r @ [nl]]"] by (simp add: snoc)
  qed
qed

section \<open>The rewriting on lines\<close>

text \<open>
  What setting \<open>k\<close> to \<open>v\<close> in section \<open>sec\<close> does to the lines: every matching line of the section
  is replaced; without one the new line goes before the header that ends the section, or to the
  end, in a new section if there was none.
\<close>

fun ini_out :: "u8 list \<Rightarrow> u8 list \<Rightarrow> u8 list \<Rightarrow> bool \<Rightarrow> bool \<Rightarrow> bool \<Rightarrow> u8 list list \<Rightarrow> u8 list list" where
  "ini_out sec k v tgt kd sn [] = (if kd then [] else (if sn then [] else [sec_line sec]) @ [kv_line k v])"
| "ini_out sec k v tgt kd sn (L # Ls) = (case ini_header L of
       Some n \<Rightarrow> (if tgt \<and> \<not> kd then [kv_line k v] else []) @ L # ini_out sec k v (ini_ieq n sec) (kd \<or> tgt) (sn \<or> ini_ieq n sec) Ls
     | None \<Rightarrow> if tgt \<and> ini_match k L \<noteq> None then kv_line k v # ini_out sec k v tgt True sn Ls
         else L # ini_out sec k v tgt kd sn Ls)"

text \<open>Deleting a key, and deleting a section.\<close>

fun ini_del :: "u8 list \<Rightarrow> u8 list \<Rightarrow> bool \<Rightarrow> u8 list list \<Rightarrow> u8 list list" where
  "ini_del sec k tgt [] = []"
| "ini_del sec k tgt (L # Ls) = (case ini_header L of
       Some n \<Rightarrow> L # ini_del sec k (ini_ieq n sec) Ls
     | None \<Rightarrow> if tgt \<and> ini_match k L \<noteq> None then ini_del sec k tgt Ls else L # ini_del sec k tgt Ls)"

fun ini_delsec :: "u8 list \<Rightarrow> bool \<Rightarrow> u8 list list \<Rightarrow> u8 list list" where
  "ini_delsec sec tgt [] = []"
| "ini_delsec sec tgt (L # Ls) = (case ini_header L of
       Some n \<Rightarrow> (if ini_ieq n sec then [] else [L]) @ ini_delsec sec (ini_ieq n sec) Ls
     | None \<Rightarrow> (if tgt then [] else [L]) @ ini_delsec sec tgt Ls)"

lemma emit_SomeD: "emitf cap bs out = Some out' \<Longrightarrow> out' = out @ bs" "emitm cap bs out = Some out' \<Longrightarrow> out' = out @ bs"
  by (auto simp: emitf_def emitm_def split: if_splits)

definition kv_ok :: "u8 list \<Rightarrow> u8 list \<Rightarrow> bool" where
  "kv_ok k v \<longleftrightarrow> nl \<notin> set k \<and> nl \<notin> set v"

lemma kv_full: "kv_ok k v \<Longrightarrow> full (kv_line k v @ [nl])" "kv_ok k v \<Longrightarrow> body (kv_line k v @ [nl]) = kv_line k v"
  by (auto simp: kv_ok_def kv_line_def simp del: append_assoc intro!: fullI body_full)

lemma sec_full: "nl \<notin> set sec \<Longrightarrow> full (sec_line sec @ [nl])" "nl \<notin> set sec \<Longrightarrow> body (sec_line sec @ [nl]) = sec_line sec"
  using fullI [of "sec_line sec"] body_full [of "sec_line sec"] by (simp_all add: sec_line_def)

text \<open>
  One round of the loop appends some lines \<open>ps\<close>, of which only the last can be the line that was
  read. If that agrees with a function \<open>F\<close> on the lines, the whole loop does.
\<close>

definition round_ok :: "(bool \<Rightarrow> bool \<Rightarrow> bool \<Rightarrow> u8 list list \<Rightarrow> u8 list list) \<Rightarrow> nat \<Rightarrow> u8 list \<Rightarrow> u8 list option \<Rightarrow> u8 list option \<Rightarrow> bool" where
  "round_ok F cap sec key value \<longleftrightarrow> (\<forall>raw out tgt kd sn out' tgt' kd' sn'. wfl raw \<longrightarrow>
     ini_step cap sec key value raw (out, tgt, kd, sn) = Some (out', tgt', kd', sn') \<longrightarrow>
     (\<exists>ps. out' = out @ concat ps \<and> (\<forall>r \<in> set (butlast ps). full r) \<and> (ps \<noteq> [] \<longrightarrow> last ps = raw \<or> full (last ps))
       \<and> (\<forall>Ls. F tgt kd sn (body raw # Ls) = map body ps @ F tgt' kd' sn' Ls)))"

lemma loop_lines:
  assumes "round_ok F cap sec key value"
    and "ini_loop cap sec key value rs (out, tgt, kd, sn) = Some (out', tgt', kd', sn')" and "lines_ok rs"
  shows "\<exists>ls. out' = out @ concat ls \<and> lines_ok ls \<and> (rs = [] \<longrightarrow> ls = [])
    \<and> F tgt kd sn (map body rs) = map body ls @ F tgt' kd' sn' []"
  using assms(2,3)
proof (induction rs arbitrary: out tgt kd sn)
  case Nil
  then show ?case by (intro exI [of _ "[]"]) simp
next
  case (Cons raw rs)
  obtain o1 t1 k1 s1 where st: "ini_step cap sec key value raw (out, tgt, kd, sn) = Some (o1, t1, k1, s1)"
    and lp: "ini_loop cap sec key value rs (o1, t1, k1, s1) = Some (out', tgt', kd', sn')"
    using Cons.prems(1) by (auto simp: bind_eq_Some_conv)
  have raw: "wfl raw" "rs \<noteq> [] \<longrightarrow> full raw" "lines_ok rs" using Cons.prems(2) by auto
  obtain ps where ps: "o1 = out @ concat ps" "\<forall>r \<in> set (butlast ps). full r" "ps \<noteq> [] \<longrightarrow> last ps = raw \<or> full (last ps)"
    "\<And>Ls. F tgt kd sn (body raw # Ls) = map body ps @ F t1 k1 s1 Ls"
    using assms(1) st raw(1) unfolding round_ok_def by blast
  obtain ls where ls: "out' = o1 @ concat ls" "lines_ok ls" "rs = [] \<longrightarrow> ls = []"
    "F t1 k1 s1 (map body rs) = map body ls @ F tgt' kd' sn' []"
    using Cons.IH [OF lp raw(3)] by blast
  have "lines_ok (ps @ ls)"
  proof (cases "ps = []")
    case False
    then have "lines_ok (last ps # ls)" using ps(3) raw ls(2,3) by auto
    then have "lines_ok (butlast ps @ last ps # ls)" by (rule lines_ok_append [OF ps(2)])
    then show ?thesis using False by (metis append.assoc append_Cons append_Nil append_butlast_last_id)
  qed (simp add: ls(2))
  then show ?case using ps(1,4) ls(1,4) by (intro exI [of _ "ps @ ls"]) simp
qed

lemma round_set: assumes kv: "kv_ok k v" shows "round_ok (ini_out sec k v) cap sec (Some k) (Some v)"
  unfolding round_ok_def
proof (intro allI impI)
  fix raw out tgt kd sn out' tgt' kd' sn'
  assume st: "ini_step cap sec (Some k) (Some v) raw (out, tgt, kd, sn) = Some (out', tgt', kd', sn')"
  let ?ps = "(if ini_header (body raw) \<noteq> None then (if tgt \<and> \<not> kd then [kv_line k v @ [nl]] else []) @ [raw]
      else if tgt \<and> ini_match k (body raw) \<noteq> None then [kv_line k v @ [nl]] else [raw])"
  show "\<exists>ps. out' = out @ concat ps \<and> (\<forall>r \<in> set (butlast ps). full r) \<and> (ps \<noteq> [] \<longrightarrow> last ps = raw \<or> full (last ps))
       \<and> (\<forall>Ls. ini_out sec k v tgt kd sn (body raw # Ls) = map body ps @ ini_out sec k v tgt' kd' sn' Ls)"
    using st kv_full [OF kv] by (intro exI [of _ ?ps], cases "ini_header (body raw)")
      (auto simp: ini_step_def bind_eq_Some_conv Let_def dest!: emit_SomeD split: if_splits)
qed

lemma round_del: "round_ok (\<lambda>tgt _ _. ini_del sec k tgt) cap sec (Some k) None"
  unfolding round_ok_def
proof (intro allI impI)
  fix raw out tgt kd sn out' tgt' kd' sn'
  assume st: "ini_step cap sec (Some k) None raw (out, tgt, kd, sn) = Some (out', tgt', kd', sn')"
  let ?ps = "(if ini_header (body raw) = None \<and> tgt \<and> ini_match k (body raw) \<noteq> None then [] else [raw])"
  show "\<exists>ps. out' = out @ concat ps \<and> (\<forall>r \<in> set (butlast ps). full r) \<and> (ps \<noteq> [] \<longrightarrow> last ps = raw \<or> full (last ps))
       \<and> (\<forall>Ls. ini_del sec k tgt (body raw # Ls) = map body ps @ ini_del sec k tgt' Ls)"
    using st by (intro exI [of _ ?ps], cases "ini_header (body raw)")
      (auto simp: ini_step_def bind_eq_Some_conv Let_def dest!: emit_SomeD split: if_splits)
qed

lemma round_delsec: "round_ok (\<lambda>tgt _ _. ini_delsec sec tgt) cap sec None value"
  unfolding round_ok_def
proof (intro allI impI)
  fix raw out tgt kd sn out' tgt' kd' sn'
  assume st: "ini_step cap sec None value raw (out, tgt, kd, sn) = Some (out', tgt', kd', sn')"
  let ?ps = "(case ini_header (body raw) of Some n \<Rightarrow> if ini_ieq n sec then [] else [raw] | None \<Rightarrow> if tgt then [] else [raw])"
  show "\<exists>ps. out' = out @ concat ps \<and> (\<forall>r \<in> set (butlast ps). full r) \<and> (ps \<noteq> [] \<longrightarrow> last ps = raw \<or> full (last ps))
       \<and> (\<forall>Ls. ini_delsec sec tgt (body raw # Ls) = map body ps @ ini_delsec sec tgt' Ls)"
    using st by (intro exI [of _ ?ps], cases "ini_header (body raw)")
      (auto simp: ini_step_def bind_eq_Some_conv Let_def dest!: emit_SomeD split: if_splits)
qed

definition data_of :: "u8 list option \<Rightarrow> u8 list" where
  "data_of d = (case d of None \<Rightarrow> [] | Some x \<Rightarrow> x)"

lemma rewrite_set_lines:
  assumes rw: "ini_rewrite data sec (Some k) (Some v) = Some out" and kv: "kv_ok k v" and sec: "nl \<notin> set sec"
  shows "map body (ini_split out) = ini_out sec k v False False False (map body (ini_split (data_of data)))"
proof -
  obtain cap o1 tgt kd sn where lp: "ini_loop cap sec (Some k) (Some v) (ini_split (data_of data)) ([], False, False, False) = Some (o1, tgt, kd, sn)"
    and fin: "if kd then out = o1 else \<exists>o2. (if o1 \<noteq> [] \<and> last o1 \<noteq> nl then o2 = o1 @ [nl] else o2 = o1)
        \<and> out = o2 @ (if sn then [] else sec_line sec @ [nl]) @ kv_line k v @ [nl]"
    using rw by (auto simp: ini_rewrite_def Let_def bind_eq_Some_conv data_of_def dest!: emit_SomeD split: if_splits)
  obtain ls where ls: "o1 = concat ls" "lines_ok ls"
      "ini_out sec k v False False False (map body (ini_split (data_of data))) = map body ls @ ini_out sec k v tgt kd sn []"
    using loop_lines [OF round_set [OF kv] lp] ini_split_ok by auto
  show ?thesis
  proof (cases kd)
    case True
    then show ?thesis using fin ls ini_split_concat by simp
  next
    case False
    obtain ls' where l': "(if o1 \<noteq> [] \<and> last o1 \<noteq> nl then o1 @ [nl] else o1) = concat ls'" "\<forall>r \<in> set ls'. full r" "map body ls' = map body ls"
      using terminate_lines [OF ls(2)] unfolding ls(1) by metis
    define tl' where "tl' = (if sn then [] else [sec_line sec @ [nl]]) @ [kv_line k v @ [nl]]"
    have "lines_ok (ls' @ tl')" using l'(2) kv_full [OF kv] sec_full [OF sec]
      by (intro lines_ok_full) (auto simp: tl'_def)
    moreover have "out = concat (ls' @ tl')" using fin False l'(1) by (auto simp: tl'_def split: if_splits)
    ultimately have "ini_split out = ls' @ tl'" using ini_split_concat by metis
    then show ?thesis using l'(3) ls(3) False kv_full [OF kv] sec_full [OF sec] by (simp add: tl'_def)
  qed
qed

lemma rewrite_del_lines:
  assumes "ini_rewrite data sec (Some k) None = Some out"
  shows "map body (ini_split out) = ini_del sec k False (map body (ini_split (data_of data)))"
proof -
  obtain cap tgt kd sn where lp: "ini_loop cap sec (Some k) None (ini_split (data_of data)) ([], False, False, False) = Some (out, tgt, kd, sn)"
    using assms by (auto simp: ini_rewrite_def Let_def bind_eq_Some_conv data_of_def)
  show ?thesis using loop_lines [OF round_del lp] ini_split_ok ini_split_concat by auto
qed

lemma rewrite_delsec_lines:
  assumes "ini_rewrite data sec None value = Some out"
  shows "map body (ini_split out) = ini_delsec sec False (map body (ini_split (data_of data)))"
proof -
  obtain cap tgt kd sn where lp: "ini_loop cap sec None value (ini_split (data_of data)) ([], False, False, False) = Some (out, tgt, kd, sn)"
    using assms by (auto simp: ini_rewrite_def Let_def bind_eq_Some_conv data_of_def)
  show ?thesis using loop_lines [OF round_delsec lp] ini_split_ok ini_split_concat by auto
qed

section \<open>Looking up after a rewrite\<close>

text \<open>Names that can be written as a line and read back.\<close>

definition key_ok :: "u8 list \<Rightarrow> bool" where
  "key_ok k \<longleftrightarrow> k \<noteq> [] \<and> nl \<notin> set k \<and> 0x3D \<notin> set k \<and> \<not> blank (hd k) \<and> \<not> blank (last k)
     \<and> hd k \<noteq> 0x5B \<and> hd k \<noteq> 0x3B \<and> hd k \<noteq> 0x23 \<and> hd k \<noteq> 0x0D"

definition sec_ok :: "u8 list \<Rightarrow> bool" where
  "sec_ok sec \<longleftrightarrow> nl \<notin> set sec \<and> 0x5D \<notin> set sec"

lemma ieq_equiv: "ini_ieq a a" "ini_ieq a b \<Longrightarrow> ini_ieq b a" "ini_ieq a b \<Longrightarrow> ini_ieq b c \<Longrightarrow> ini_ieq a c"
  by (auto simp: ini_ieq_def strcaseeq_def)

lemma takeWhile_stop: "c \<notin> set xs \<Longrightarrow> takeWhile (\<lambda>x. x \<noteq> c) (xs @ c # ys) = xs"
  "c \<notin> set xs \<Longrightarrow> dropWhile (\<lambda>x. x \<noteq> c) (xs @ c # ys) = c # ys"
  by (auto simp: takeWhile_append dropWhile_append)

lemma kv_parse: assumes "key_ok k"
  shows "ini_header (kv_line k v) = None" "ini_pair (kv_line k v) = Some (k, v)" "ini_active (kv_line k v)"
proof -
  obtain c k' where k: "k = c # k'" using assms by (cases k) (auto simp: key_ok_def)
  have d: "dropWhile blank (kv_line k v) = kv_line k v" using assms by (simp add: kv_line_def k key_ok_def)
  have eq: "0x3D \<notin> set k" using assms by (simp add: key_ok_def)
  have r: "rev (dropWhile blank (rev k)) = k"
  proof (cases k rule: rev_cases)
    case (snoc ys y)
    then show ?thesis using assms by (simp add: key_ok_def)
  qed simp
  show "ini_header (kv_line k v) = None" "ini_active (kv_line k v)"
    unfolding ini_header_def ini_active_def d using assms by (auto simp: kv_line_def k key_ok_def)
  show "ini_pair (kv_line k v) = Some (k, v)"
    unfolding ini_pair_def Let_def d using takeWhile_stop [OF eq, of v] r by (simp add: kv_line_def)
qed

lemma kv_match: "key_ok k \<Longrightarrow> ini_match k' (kv_line k v) = (if ini_ieq k k' then Some v else None)"
  by (simp add: ini_match_def kv_parse)

lemma sec_parse: "sec_ok sec \<Longrightarrow> ini_header (sec_line sec) = Some sec"
  by (simp add: ini_header_def sec_line_def sec_ok_def blank_def takeWhile_stop)

lemma lower_fix: "ascii_lower c = x \<Longrightarrow> x \<in> {0x3B, 0x23, 0x0D} \<Longrightarrow> c = (x :: u8)"
proof -
  assume a: "ascii_lower c = x" and x: "x \<in> {0x3B, 0x23, 0x0D}"
  have "c = x - 32" if "c + 32 = x" using that by (auto simp: algebra_simps)
  then show ?thesis using a x by (auto simp: ascii_lower_def split: if_splits)
qed

text \<open>A line whose key matches is not a comment.\<close>

lemma match_active:
  assumes "ini_match k L \<noteq> None" and k: "key_ok k" shows "ini_active L"
proof -
  obtain k' v where p: "ini_pair L = Some (k', v)" and e: "map ascii_lower k' = map ascii_lower k"
    using assms(1) by (auto simp: ini_match_def ini_ieq_def strcaseeq_def split: option.splits if_splits)
  from e k obtain c ks where kc: "k' = c # ks" and h: "ascii_lower c = ascii_lower (hd k)"
    by (cases k'; cases k) (auto simp: key_ok_def)
  define t where "t = dropWhile blank L"
  have k'': "k' = rev (dropWhile blank (rev (takeWhile (\<lambda>c. c \<noteq> 0x3D) t)))"
    using p unfolding ini_pair_def t_def [symmetric] Let_def by (auto split: list.splits)
  have "\<exists>ys. takeWhile (\<lambda>c. c \<noteq> 0x3D) t = k' @ ys" unfolding k''
    by (metis rev_append rev_rev_ident takeWhile_dropWhile_id)
  then obtain rest where "t = c # rest" unfolding kc by (metis append_Cons takeWhile_dropWhile_id)
  moreover have "c \<notin> {0x3B, 0x23, 0x0D}"
  proof
    assume "c \<in> {0x3B, 0x23, 0x0D}"
    then have "ascii_lower c = c" by (auto simp: ascii_lower_def)
    then have "hd k = c" using h lower_fix \<open>c \<in> {0x3B, 0x23, 0x0D}\<close> by metis
    then show False using \<open>c \<in> {0x3B, 0x23, 0x0D}\<close> k by (auto simp: key_ok_def)
  qed
  ultimately show ?thesis by (simp add: ini_active_def t_def [symmetric])
qed

lemma match_cong: "ini_ieq k k' \<Longrightarrow> ini_match k L = ini_match k' L"
  by (auto simp: ini_match_def ini_ieq_def strcaseeq_def split: option.splits)

lemma ieq_cong: "ini_ieq a b \<Longrightarrow> ini_ieq n a = ini_ieq n b"
  by (simp add: ini_ieq_def strcaseeq_def)

lemma scan_set_same:
  assumes "key_ok k" "sec_ok sec" "ini_ieq sec' sec" "ini_ieq k' k"
  shows "\<not> kd \<Longrightarrow> (sn \<longrightarrow> tgt) \<Longrightarrow> ini_scan sec' k' cap tgt (ini_out sec k v tgt kd sn Ls) = Some (ini_clean_value v cap)"
proof (induction Ls arbitrary: tgt kd sn)
  case Nil
  have s: "ini_ieq sec sec'" and kk: "ini_ieq k k'" using assms(3,4) ieq_equiv(2) by blast+
  show ?case using Nil s kk by (cases tgt) (simp_all add: kv_parse [OF assms(1)] kv_match [OF assms(1)] sec_parse [OF assms(2)])
next
  case (Cons L Ls)
  have m: "ini_match k' L = ini_match k L" by (rule match_cong [OF assms(4)])
  have i: "ini_ieq n sec' = ini_ieq n sec" for n by (rule ieq_cong [OF assms(3)])
  have kk: "ini_ieq k k'" by (rule ieq_equiv(2) [OF assms(4)])
  show ?case
  proof (cases "ini_header L")
    case None
    show ?thesis
    proof (cases "tgt \<and> ini_match k L \<noteq> None")
      case True
      then show ?thesis using None kk by (simp add: kv_parse [OF assms(1)] kv_match [OF assms(1)])
    next
      case False
      then show ?thesis using None Cons.IH [OF Cons.prems] by (auto simp: m)
    qed
  next
    case (Some n)
    show ?thesis
    proof (cases tgt)
      case True
      then show ?thesis using Some kk Cons.prems(1) by (simp add: kv_parse [OF assms(1)] kv_match [OF assms(1)])
    next
      case False
      have "ini_scan sec' k' cap (ini_ieq n sec) (ini_out sec k v (ini_ieq n sec) (kd \<or> tgt) (sn \<or> ini_ieq n sec) Ls)
          = Some (ini_clean_value v cap)"
        using Cons.prems False by (intro Cons.IH) auto
      then show ?thesis using False Some by (simp add: i)
    qed
  qed
qed

lemma scan_set_other:
  assumes k: "key_ok k" and sec: "sec_ok sec" and ne: "\<not> (ini_ieq sec' sec \<and> ini_ieq k' k)"
  shows "(if ini_ieq sec' sec then inn = tgt else \<not> (inn \<and> tgt)) \<Longrightarrow> (sn \<and> \<not> kd \<longrightarrow> tgt)
    \<Longrightarrow> ini_scan sec' k' cap inn (ini_out sec k v tgt kd sn Ls) = ini_scan sec' k' cap inn Ls"
proof (induction Ls arbitrary: tgt kd sn inn)
  case Nil
  have ne': "\<not> (ini_ieq sec sec' \<and> ini_ieq k k')" using ne ieq_equiv(2) by blast
  have sym: "ini_ieq sec sec' = ini_ieq sec' sec" using ieq_equiv(2) by blast
  show ?case using Nil ne' sym by (cases "ini_ieq sec' sec"; cases sn)
    (auto simp: kv_parse [OF k] kv_match [OF k] sec_parse [OF sec])
next
  case (Cons L Ls)
  have kv: "ini_scan sec' k' cap inn (kv_line k v # Xs) = ini_scan sec' k' cap inn Xs" if tgt for Xs
    using Cons.prems(1) that ne ieq_equiv(2) [of k k'] by (auto simp: kv_parse [OF k] kv_match [OF k] split: if_splits)
  show ?case
  proof (cases "ini_header L")
    case None
    have ml: "ini_scan sec' k' cap inn (L # Ls) = ini_scan sec' k' cap inn Ls" if "tgt" "ini_match k L \<noteq> None"
    proof (cases inn)
      case True
      with Cons.prems(1) that(1) ne have "\<not> ini_ieq k' k" by (auto split: if_splits)
      then have "ini_match k' L = None" using that(2)
        by (auto simp: ini_match_def ini_ieq_def strcaseeq_def split: option.splits if_splits)
      with None show ?thesis by simp
    qed (simp add: None)
    show ?thesis
    proof (cases "tgt \<and> ini_match k L \<noteq> None")
      case True
      then have o: "ini_out sec k v tgt kd sn (L # Ls) = kv_line k v # ini_out sec k v tgt True sn Ls" using None by simp
      have "ini_scan sec' k' cap inn (ini_out sec k v tgt True sn Ls) = ini_scan sec' k' cap inn Ls"
        using Cons.prems by (intro Cons.IH) auto
      then show ?thesis unfolding o using kv ml True by (simp del: ini_scan.simps)
    next
      case False
      then show ?thesis using None Cons.IH [OF Cons.prems] by (auto split: option.splits)
    qed
  next
    case (Some n)
    have "ini_scan sec' k' cap (ini_ieq n sec') (ini_out sec k v (ini_ieq n sec) (kd \<or> tgt) (sn \<or> ini_ieq n sec) Ls)
        = ini_scan sec' k' cap (ini_ieq n sec') Ls"
    proof (rule Cons.IH)
      show "if ini_ieq sec' sec then ini_ieq n sec' = ini_ieq n sec else \<not> (ini_ieq n sec' \<and> ini_ieq n sec)"
        by (auto simp: ini_ieq_def strcaseeq_def)
      show "(sn \<or> ini_ieq n sec) \<and> \<not> (kd \<or> tgt) \<longrightarrow> ini_ieq n sec" using Cons.prems(2) by blast
    qed
    then show ?thesis using Some kv by (cases "tgt \<and> \<not> kd") (auto simp del: ini_scan.simps simp: ini_scan.simps(2) [of _ _ _ _ L])
  qed
qed

text \<open>Deleting a key, and a whole section.\<close>

lemma scan_del_same:
  assumes "ini_ieq sec' sec" "ini_ieq k' k"
  shows "ini_scan sec' k' cap tgt (ini_del sec k tgt Ls) = None"
proof (induction Ls arbitrary: tgt)
  case (Cons L Ls)
  have "ini_match k' L = ini_match k L" "\<And>n. ini_ieq n sec' = ini_ieq n sec"
    using match_cong [OF assms(2)] ieq_cong [OF assms(1)] by auto
  then show ?case using Cons.IH by (auto split: option.splits)
qed simp

lemma scan_del_other:
  assumes ne: "\<not> (ini_ieq sec' sec \<and> ini_ieq k' k)"
  shows "(if ini_ieq sec' sec then inn = tgt else \<not> (inn \<and> tgt))
    \<Longrightarrow> ini_scan sec' k' cap inn (ini_del sec k tgt Ls) = ini_scan sec' k' cap inn Ls"
proof (induction Ls arbitrary: tgt inn)
  case (Cons L Ls)
  show ?case
  proof (cases "ini_header L")
    case None
    have "ini_match k' L = None" if "inn" "tgt" "ini_match k L \<noteq> None"
      using that Cons.prems ne by (auto simp: ini_match_def ini_ieq_def strcaseeq_def split: option.splits if_splits)
    then show ?thesis using None Cons.IH [OF Cons.prems] by (auto split: option.splits)
  next
    case (Some n)
    have "ini_scan sec' k' cap (ini_ieq n sec') (ini_del sec k (ini_ieq n sec) Ls) = ini_scan sec' k' cap (ini_ieq n sec') Ls"
      by (rule Cons.IH) (auto simp: ini_ieq_def strcaseeq_def)
    then show ?thesis using Some by simp
  qed
qed simp

lemma scan_delsec_same:
  assumes "ini_ieq sec' sec" shows "ini_scan sec' k' cap False (ini_delsec sec tgt Ls) = None"
proof (induction Ls arbitrary: tgt)
  case (Cons L Ls)
  have "ini_ieq n sec' = ini_ieq n sec" for n by (rule ieq_cong [OF assms])
  then show ?case using Cons.IH by (auto split: option.splits)
qed simp

lemma scan_delsec_other:
  assumes "\<not> ini_ieq sec' sec"
  shows "ini_scan sec' k' cap inn (ini_delsec sec tgt Ls) = ini_scan sec' k' cap (inn \<and> \<not> tgt) Ls"
proof (induction Ls arbitrary: tgt inn)
  case (Cons L Ls)
  have ne: "\<not> ini_ieq n sec'" if "ini_ieq n sec" for n using that assms by (auto simp: ini_ieq_def strcaseeq_def)
  show ?case
  proof (cases "ini_header L")
    case None
    then show ?thesis using Cons.IH by (auto split: option.splits)
  next
    case (Some n)
    then show ?thesis using Cons.IH ne by (cases "ini_ieq n sec") auto
  qed
qed simp

section \<open>A profile as a store\<close>

text \<open>
  The contract of a store that is written key by key: what a lookup answers after a write, as a
  function of what was written. Keys are compared by \<open>same\<close>, and \<open>view\<close> is how a written value
  reads.
\<close>

fun puts :: "('f \<Rightarrow> 'a \<Rightarrow> 'w \<Rightarrow> 'f option) \<Rightarrow> 'f \<Rightarrow> ('a \<times> 'w) list \<Rightarrow> 'f option" where
  "puts put f [] = Some f"
| "puts put f ((a, w) # ws) = do { f' \<leftarrow> put f a w; puts put f' ws }"

locale keyed_store =
  fixes get :: "'f \<Rightarrow> 'a \<Rightarrow> 'v option" and put :: "'f \<Rightarrow> 'a \<Rightarrow> 'w \<Rightarrow> 'f option"
    and same :: "'a \<Rightarrow> 'a \<Rightarrow> bool" and view :: "'w \<Rightarrow> 'v" and ok :: "'a \<Rightarrow> 'w \<Rightarrow> bool"
  assumes get_put: "ok a w \<Longrightarrow> put f a w = Some f' \<Longrightarrow> get f' b = (if same b a then Some (view w) else get f b)"
begin

lemma get_puts:
  "(\<forall>(a, w) \<in> set ws. ok a w) \<Longrightarrow> puts put f ws = Some f' \<Longrightarrow>
     get f' b = (case find (\<lambda>(a, w). same b a) (rev ws) of Some (a, w) \<Rightarrow> Some (view w) | None \<Rightarrow> get f b)"
proof (induction ws arbitrary: f' rule: rev_induct)
  case (snoc x ws)
  obtain a w where x: "x = (a, w)" by (cases x)
  have split: "\<exists>f1. puts put f ws = Some f1 \<and> put f1 a w = Some f'"
    using snoc.prems(2) unfolding x by (induction ws arbitrary: f) (auto simp: bind_eq_Some_conv)
  then obtain f1 where f1: "puts put f ws = Some f1" "put f1 a w = Some f'" by blast
  have "ok a w" and ws: "\<forall>(a, w) \<in> set ws. ok a w" using snoc.prems(1) by (auto simp: x)
  show ?case using get_put [OF \<open>ok a w\<close> f1(2)] snoc.IH [OF ws f1(1)] by (auto simp: x)
qed simp

end

definition ini_lookup :: "u8 list \<Rightarrow> u8 list \<times> u8 list \<Rightarrow> u8 list option" where
  "ini_lookup d a = ini_get (Some d) (fst a) (snd a) 1024"

definition ini_put :: "u8 list \<Rightarrow> u8 list \<times> u8 list \<Rightarrow> u8 list \<Rightarrow> u8 list option" where
  "ini_put d a w = ini_rewrite (Some d) (fst a) (Some (snd a)) (Some w)"

definition ini_same :: "u8 list \<times> u8 list \<Rightarrow> u8 list \<times> u8 list \<Rightarrow> bool" where
  "ini_same b a \<longleftrightarrow> ini_ieq (fst b) (fst a) \<and> ini_ieq (snd b) (snd a)"

definition ini_ok :: "u8 list \<times> u8 list \<Rightarrow> u8 list \<Rightarrow> bool" where
  "ini_ok a w \<longleftrightarrow> sec_ok (fst a) \<and> key_ok (snd a) \<and> nl \<notin> set w"

lemma get_after_set:
  assumes "ini_rewrite data sec (Some k) (Some v) = Some out" and "sec_ok sec" "key_ok k" "nl \<notin> set v"
  shows "ini_get (Some out) sec' k' cap
    = (if ini_ieq sec' sec \<and> ini_ieq k' k then Some (ini_clean_value v cap) else ini_get data sec' k' cap)"
proof -
  have l: "map body (ini_split out) = ini_out sec k v False False False (map body (ini_split (data_of data)))"
    using assms by (intro rewrite_set_lines) (auto simp: kv_ok_def key_ok_def sec_ok_def)
  have g: "ini_get data sec' k' cap = ini_scan sec' k' cap False (map body (ini_split (data_of data)))"
    by (cases data) (auto simp: ini_get_def data_of_def)
  show ?thesis
  proof (cases "ini_ieq sec' sec \<and> ini_ieq k' k")
    case True
    then show ?thesis using scan_set_same [OF assms(3,2), of sec' k' False False False] by (simp add: ini_get_def l)
  next
    case False
    then show ?thesis using scan_set_other [OF assms(3,2) False, of False False False False] unfolding g
      by (auto simp: ini_get_def l)
  qed
qed

interpretation ini_store: keyed_store ini_lookup ini_put ini_same "\<lambda>w. ini_clean_value w 1024" ini_ok
  by unfold_locales (simp add: ini_lookup_def ini_put_def ini_same_def ini_ok_def get_after_set)

text \<open>
  C4: A profile is a store. After any sequence of successful writes of well-formed names and
  values, looking up a name answers the last value written under it, in any capitalisation, as
  the reader cleans it (blanks trimmed, one pair of quotes removed); a name not written keeps
  the value it had in the file.
\<close>

theorem profile_last_write:
  assumes "\<forall>(a, w) \<in> set ws. ini_ok a w" and "puts ini_put d ws = Some d'"
  shows "ini_lookup d' b = (case find (\<lambda>(a, w). ini_same b a) (rev ws) of
      Some (a, w) \<Rightarrow> Some (ini_clean_value w 1024) | None \<Rightarrow> ini_lookup d b)"
  using assms by (rule ini_store.get_puts)

definition str :: "string \<Rightarrow> u8 list" where
  "str cs = map of_char cs"

definition ini_demo :: "u8 list" where
  "ini_demo = str ''[Main]'' @ [nl] @ str ''Size=1'' @ [nl] @ str ''[Other]'' @ [nl] @ str ''size = 9 ''"

definition ini_demo_writes :: "((u8 list \<times> u8 list) \<times> u8 list) list" where
  "ini_demo_writes = [((str ''main'', str ''SIZE''), str ''2''), ((str ''New'', str ''k''), str '' v '')]"

theorem profile_last_write_witness:
  "ini_lookup (the (puts ini_put ini_demo ini_demo_writes)) (str ''MAIN'', str ''size'') = Some (str ''2'')
   \<and> ini_lookup (the (puts ini_put ini_demo ini_demo_writes)) (str ''other'', str ''size'') = Some (str ''9'')"
proof -
  have d: "puts ini_put ini_demo ini_demo_writes = Some (the (puts ini_put ini_demo ini_demo_writes))"
    by (rule option.collapse [symmetric]) code_simp
  have ok: "\<forall>(a, w) \<in> set ini_demo_writes. ini_ok a w" by code_simp
  have f: "find (\<lambda>(a, w). ini_same (str ''MAIN'', str ''size'') a) (rev ini_demo_writes) = Some ((str ''main'', str ''SIZE''), str ''2'')"
    "find (\<lambda>(a, w). ini_same (str ''other'', str ''size'') a) (rev ini_demo_writes) = None"
    "ini_lookup ini_demo (str ''other'', str ''size'') = Some (str ''9'')" "ini_clean_value (str ''2'') 1024 = str ''2''"
    by code_simp+
  show ?thesis using profile_last_write [OF ok d] by (simp add: f)
qed

lemma get_after_del:
  assumes "ini_rewrite data sec (Some k) None = Some out"
  shows "ini_get (Some out) sec' k' cap = (if ini_ieq sec' sec \<and> ini_ieq k' k then None else ini_get data sec' k' cap)"
proof -
  note l = rewrite_del_lines [OF assms]
  have g: "ini_get data sec' k' cap = ini_scan sec' k' cap False (map body (ini_split (data_of data)))"
    by (cases data) (auto simp: ini_get_def data_of_def)
  show ?thesis
  proof (cases "ini_ieq sec' sec \<and> ini_ieq k' k")
    case True
    then show ?thesis using scan_del_same [of sec' sec k' k cap False] by (simp add: ini_get_def l)
  next
    case False
    then show ?thesis using scan_del_other [OF False, of False False] unfolding g by (auto simp: ini_get_def l)
  qed
qed

text \<open>
  Deleting is exact: writing NULL for a key removes every line of it from its section and
  leaves every other entry readable as before; writing a NULL key removes the whole section and
  nothing else.
\<close>

theorem profile_delete_exact:
  shows "(ini_rewrite data sec (Some k) None = Some out \<longrightarrow> ini_get (Some out) sec' k' cap
      = (if ini_ieq sec' sec \<and> ini_ieq k' k then None else ini_get data sec' k' cap))
    \<and> (ini_rewrite data sec None value = Some out' \<longrightarrow> ini_get (Some out') sec' k' cap
      = (if ini_ieq sec' sec then None else ini_get data sec' k' cap))"
proof (intro conjI impI)
  assume "ini_rewrite data sec (Some k) None = Some out"
  then show "ini_get (Some out) sec' k' cap = (if ini_ieq sec' sec \<and> ini_ieq k' k then None else ini_get data sec' k' cap)"
    by (rule get_after_del)
next
  assume "ini_rewrite data sec None value = Some out'"
  note l = rewrite_delsec_lines [OF this]
  have g: "ini_get data sec' k' cap = ini_scan sec' k' cap False (map body (ini_split (data_of data)))"
    by (cases data) (auto simp: ini_get_def data_of_def)
  show "ini_get (Some out') sec' k' cap = (if ini_ieq sec' sec then None else ini_get data sec' k' cap)"
    unfolding g using scan_delsec_same [of sec' sec k' cap False] scan_delsec_other [of sec' sec k' cap False False]
    by (simp add: ini_get_def l)
qed

theorem profile_delete_exact_witness:
  "ini_get (Some (the (ini_rewrite (Some ini_demo) (str ''MAIN'') (Some (str ''size'')) None))) (str ''other'') (str ''size'') 64 = Some (str ''9'')
   \<and> ini_get (Some (the (ini_rewrite (Some ini_demo) (str ''Other'') None None))) (str ''other'') (str ''size'') 64 = None"
proof -
  have d: "ini_rewrite (Some ini_demo) (str ''MAIN'') (Some (str ''size'')) None = Some (the (ini_rewrite (Some ini_demo) (str ''MAIN'') (Some (str ''size'')) None))"
    "ini_rewrite (Some ini_demo) (str ''Other'') None None = Some (the (ini_rewrite (Some ini_demo) (str ''Other'') None None))"
    by (rule option.collapse [symmetric], code_simp)+
  have f: "ini_ieq (str ''other'') (str ''Other'')" "\<not> ini_ieq (str ''other'') (str ''MAIN'')"
    "ini_get (Some ini_demo) (str ''other'') (str ''size'') 64 = Some (str ''9'')"
    by code_simp+
  show ?thesis
    using profile_delete_exact [of "Some ini_demo" "str ''MAIN''" "str ''size''" "the (ini_rewrite (Some ini_demo) (str ''MAIN'') (Some (str ''size'')) None)" "str ''other''" "str ''size''" 64]
      profile_delete_exact [of "Some ini_demo" "str ''Other''" undefined undefined "str ''other''" "str ''size''" 64 None "the (ini_rewrite (Some ini_demo) (str ''Other'') None None)"] d f
    by simp
qed

section \<open>The output buffer\<close>

text \<open>How often the loop writes the new line.\<close>

fun ini_emits :: "u8 list \<Rightarrow> u8 list \<Rightarrow> bool \<Rightarrow> bool \<Rightarrow> u8 list list \<Rightarrow> nat" where
  "ini_emits sec k tgt kd [] = 0"
| "ini_emits sec k tgt kd (L # Ls) = (case ini_header L of
       Some n \<Rightarrow> (if tgt \<and> \<not> kd then 1 else 0) + ini_emits sec k (ini_ieq n sec) (kd \<or> tgt) Ls
     | None \<Rightarrow> if tgt \<and> ini_match k L \<noteq> None then Suc (ini_emits sec k tgt True Ls) else ini_emits sec k tgt kd Ls)"

text \<open>The headers of a section, and the lines of a key inside it.\<close>

fun ini_headers :: "u8 list \<Rightarrow> u8 list list \<Rightarrow> nat" where
  "ini_headers sec [] = 0"
| "ini_headers sec (L # Ls) = (case ini_header L of Some n \<Rightarrow> if ini_ieq n sec then 1 else 0 | None \<Rightarrow> 0) + ini_headers sec Ls"

fun ini_hits :: "u8 list \<Rightarrow> u8 list \<Rightarrow> bool \<Rightarrow> u8 list list \<Rightarrow> nat" where
  "ini_hits sec k tgt [] = 0"
| "ini_hits sec k tgt (L # Ls) = (case ini_header L of Some n \<Rightarrow> ini_hits sec k (ini_ieq n sec) Ls
     | None \<Rightarrow> (if tgt \<and> ini_match k L \<noteq> None then 1 else 0) + ini_hits sec k tgt Ls)"

lemma no_section: "ini_headers sec Ls = 0 \<Longrightarrow> ini_emits sec k False kd Ls = 0 \<and> ini_hits sec k False Ls = 0"
  by (induction Ls arbitrary: kd) (auto split: option.splits if_splits)

lemma emits_bound:
  "ini_headers sec Ls + (if tgt then 1 else 0) \<le> 1 \<Longrightarrow>
     ini_emits sec k tgt kd Ls \<le> (if kd then ini_hits sec k tgt Ls else max 1 (ini_hits sec k tgt Ls))"
proof (induction Ls arbitrary: tgt kd)
  case (Cons L Ls)
  show ?case
  proof (cases "ini_header L")
    case None
    have "ini_headers sec Ls + (if tgt then 1 else 0) \<le> 1" using Cons.prems None by simp
    then show ?thesis using Cons.IH [of tgt kd] Cons.IH [of tgt True] None by (auto split: if_splits)
  next
    case (Some n)
    show ?thesis
    proof (cases tgt)
      case True
      then have "\<not> ini_ieq n sec" "ini_headers sec Ls = 0" using Cons.prems Some by (auto split: if_splits)
      then show ?thesis using Some True no_section [of sec Ls k True] by auto
    next
      case False
      have "ini_headers sec Ls + (if ini_ieq n sec then 1 else 0) \<le> 1" using Cons.prems Some False by (auto split: if_splits)
      then show ?thesis using Cons.IH [of "ini_ieq n sec" kd] Some False by (cases kd) auto
    qed
  qed
qed simp

text \<open>One round in a buffer that is large enough, case by case.\<close>

lemma step_header:
  "ini_header (body raw) = Some n \<Longrightarrow>
    length out + length raw + (if tgt \<and> \<not> kd then length (kv_line k v) + 1 else 0) < cap \<Longrightarrow>
    ini_step cap sec (Some k) (Some v) raw (out, tgt, kd, sn) =
      Some ((if tgt \<and> \<not> kd then out @ kv_line k v @ [nl] else out) @ raw, ini_ieq n sec, kd \<or> tgt, sn \<or> ini_ieq n sec)"
  by (cases tgt; cases kd) (simp_all add: ini_step_def Let_def emitf_def emitm_def)

lemma step_hit:
  "ini_header (body raw) = None \<Longrightarrow> ini_match k (body raw) \<noteq> None \<Longrightarrow>
    length out + length (kv_line k v) + 1 < cap \<Longrightarrow>
    ini_step cap sec (Some k) (Some v) raw (out, True, kd, sn) = Some (out @ kv_line k v @ [nl], True, True, sn)"
  by (simp add: ini_step_def Let_def emitf_def)

lemma step_keep:
  "ini_header (body raw) = None \<Longrightarrow> \<not> (tgt \<and> ini_match k (body raw) \<noteq> None) \<Longrightarrow> length out + length raw \<le> cap \<Longrightarrow>
    ini_step cap sec (Some k) (Some v) raw (out, tgt, kd, sn) = Some (out @ raw, tgt, kd, sn)"
  by (auto simp: ini_step_def Let_def emitm_def)

lemma loop_fits:
  fixes k v :: "u8 list" and E :: nat
  assumes E: "E = length (kv_line k v) + 1"
  shows "length out + length (concat rs) + ini_emits sec k tgt kd (map body rs) * E < cap \<Longrightarrow>
    \<exists>out' tgt' kd' sn'. ini_loop cap sec (Some k) (Some v) rs (out, tgt, kd, sn) = Some (out', tgt', kd', sn')
      \<and> length out' \<le> length out + length (concat rs) + ini_emits sec k tgt kd (map body rs) * E
      \<and> (kd \<or> 0 < ini_emits sec k tgt kd (map body rs) \<longrightarrow> kd')"
proof (induction rs arbitrary: out tgt kd sn)
  case (Cons raw rs)
  show ?case
  proof (cases "ini_header (body raw)")
    case (Some n)
    let ?o = "(if tgt \<and> \<not> kd then out @ kv_line k v @ [nl] else out) @ raw"
    have s: "ini_step cap sec (Some k) (Some v) raw (out, tgt, kd, sn) = Some (?o, ini_ieq n sec, kd \<or> tgt, sn \<or> ini_ieq n sec)"
      by (rule step_header [OF Some]) (use Cons.prems Some E in \<open>cases tgt; cases kd; simp\<close>)
    show ?thesis
      using Cons.IH [of ?o "ini_ieq n sec" "kd \<or> tgt" "sn \<or> ini_ieq n sec"] Cons.prems Some E s
      by (cases tgt; cases kd; simp add: algebra_simps)
  next
    case None
    show ?thesis
    proof (cases "tgt \<and> ini_match k (body raw) \<noteq> None")
      case True
      have s: "ini_step cap sec (Some k) (Some v) raw (out, tgt, kd, sn) = Some (out @ kv_line k v @ [nl], True, True, sn)"
        using step_hit [OF None, of k out v cap sec kd sn] Cons.prems None True E by simp
      show ?thesis
        using Cons.IH [of "out @ kv_line k v @ [nl]" True True sn] Cons.prems None True E s by (fastforce simp: algebra_simps)
    next
      case False
      have s: "ini_step cap sec (Some k) (Some v) raw (out, tgt, kd, sn) = Some (out @ raw, tgt, kd, sn)"
        using step_keep [OF None False, of out cap sec v kd sn] Cons.prems None by simp
      have e: "ini_emits sec k tgt kd (map body (raw # rs)) = ini_emits sec k tgt kd (map body rs)"
        using None False by auto
      show ?thesis using Cons.IH [of "out @ raw" tgt kd sn] Cons.prems s e by (simp add: algebra_simps)
    qed
  qed
qed simp

text \<open>A deletion only drops lines.\<close>

lemma loop_shrinks:
  assumes "key = None \<or> value = None"
  shows "length out + length (concat rs) \<le> cap \<Longrightarrow> \<exists>st. ini_loop cap sec key value rs (out, tgt, kd, sn) = Some st"
proof (induction rs arbitrary: out tgt kd sn)
  case (Cons raw rs)
  have "\<exists>o1 t1 k1 s1. ini_step cap sec key value raw (out, tgt, kd, sn) = Some (o1, t1, k1, s1) \<and> length o1 \<le> length out + length raw"
    using assms Cons.prems
    by (cases "ini_header (body raw)"; cases key; cases "value") (auto simp: ini_step_def Let_def emitm_def)
  then show ?case using Cons.IH Cons.prems by fastforce
qed simp

text \<open>A profile rewrite stays inside the buffer it allocates: every deletion does, and so does
  setting a key when the profile has at most one header of the section and at most one line of the key in it.\<close>

theorem profile_rewrite_fits:
  assumes "data = Some d" "Ls = map body (ini_split d)"
    and "key = None \<or> value = None \<or> (ini_headers sec Ls \<le> 1 \<and> ini_hits sec (the key) False Ls \<le> 1)"
  shows "ini_rewrite data sec key value \<noteq> None"
proof (cases "key = None \<or> value = None")
  case True
  let ?cap = "length d + length sec + opt_len key + opt_len value + 64"
  obtain o1 t1 k1 s1 where "ini_loop ?cap sec key value (ini_split d) ([], False, False, False) = Some (o1, t1, k1, s1)"
    using loop_shrinks [OF True, of "[]" "ini_split d" ?cap sec False False False] ini_split_ok [of d] by auto
  then show ?thesis using True assms(1) by (cases key; cases "value") (simp_all add: ini_rewrite_def Let_def)
next
  case False
  then obtain k v where kv: "key = Some k" "value = Some v" by auto
  let ?cap = "length d + length sec + length k + length v + 64" and ?n = "ini_emits sec k False False Ls"
  have n: "?n = 0 \<or> ?n = 1"
    using emits_bound [of sec Ls False k False] assms(3) kv by (auto simp: max_def split: if_splits)
  then have "length d + ?n * (length (kv_line k v) + 1) < ?cap" by (auto simp: kv_line_def)
  then obtain o1 t1 k1 s1 where l: "ini_loop ?cap sec (Some k) (Some v) (ini_split d) ([], False, False, False) = Some (o1, t1, k1, s1)"
    "length o1 \<le> length d + ?n * (length (kv_line k v) + 1)" "0 < ?n \<longrightarrow> k1"
    using loop_fits [OF refl, of "[]" "ini_split d" sec k False False v ?cap False] ini_split_ok [of d] assms(2) by auto
  show ?thesis
  proof (cases k1)
    case False
    then have "length o1 \<le> length d" using l(2,3) by simp
    then show ?thesis using l(1) kv assms(1) False
      by (simp add: ini_rewrite_def Let_def opt_len_def emitm_def emitf_def kv_line_def sec_line_def)
  qed (use l kv assms(1) in \<open>simp add: ini_rewrite_def Let_def opt_len_def\<close>)
qed

theorem profile_rewrite_fits_witness:
  "ini_rewrite (Some ini_demo) (str ''main'') (Some (str ''size'')) (Some (str ''7'')) \<noteq> None"
proof -
  have "ini_headers (str ''main'') (map body (ini_split ini_demo)) \<le> 1"
    "ini_hits (str ''main'') (str ''size'') False (map body (ini_split ini_demo)) \<le> 1" by code_simp+
  then show ?thesis
    using profile_rewrite_fits [of "Some ini_demo" ini_demo _ "Some (str ''size'')" "Some (str ''7'')" "str ''main''"] by simp
qed

text \<open>The lines written are at least the lines of the key in its section, and the output grows by each of them.\<close>

lemma hits_le_emits: "ini_hits sec k tgt Ls \<le> ini_emits sec k tgt kd Ls"
proof (induction Ls arbitrary: tgt kd)
  case (Cons L Ls)
  show ?case
    using Cons.IH [of tgt True] Cons.IH [of tgt kd] Cons.IH [of "ini_ieq (the (ini_header L)) sec" "kd \<or> tgt"]
    by (cases "ini_header L") auto
qed simp

lemma step_grows:
  assumes "ini_step cap sec (Some k) (Some v) raw (out, tgt, kd, sn) = Some (out', tgt', kd', sn')" "length out \<le> cap"
  shows "length out' \<le> cap"
    "length out + ini_hits sec k tgt [body raw] * (length (kv_line k v) + 1) \<le> length out'"
    "tgt' = (case ini_header (body raw) of Some n \<Rightarrow> ini_ieq n sec | None \<Rightarrow> tgt)"
  using assms
  by (auto simp: ini_step_def Let_def emitf_def emitm_def split: option.splits if_splits bind_splits prod.splits)

lemma hits_Cons: "ini_hits sec k tgt (L # Ls) = ini_hits sec k tgt [L]
    + ini_hits sec k (case ini_header L of Some n \<Rightarrow> ini_ieq n sec | None \<Rightarrow> tgt) Ls"
  by (simp split: option.split)

lemma loop_grows:
  "ini_loop cap sec (Some k) (Some v) rs (out, tgt, kd, sn) = Some (out', st) \<Longrightarrow> length out \<le> cap \<Longrightarrow>
    length out' \<le> cap \<and> length out + ini_hits sec k tgt (map body rs) * (length (kv_line k v) + 1) \<le> length out'"
proof (induction rs arbitrary: out tgt kd sn)
  case (Cons raw rs)
  obtain o1 t1 k1 s1 where s: "ini_step cap sec (Some k) (Some v) raw (out, tgt, kd, sn) = Some (o1, t1, k1, s1)"
    "ini_loop cap sec (Some k) (Some v) rs (o1, t1, k1, s1) = Some (out', st)"
    using Cons.prems(1) by (auto split: bind_splits)
  show ?case
    using Cons.IH [OF s(2)] step_grows [OF s(1) Cons.prems(2)] hits_Cons [of sec k tgt "body raw" "map body rs"]
    by (simp add: add_mult_distrib)
qed simp

text \<open>C38: The buffer of a rewrite has room for one new value, but every line of the key in its section is
  replaced. When the key stands on \<open>n\<close> lines and \<open>n\<close> lines \<^verbatim>\<open>key=value\<close> are longer than the buffer (which is
  \<open>length d + length sec + length k + length v + 64\<close> bytes), the rewrite does not fit: it asks for more bytes
  than the buffer has, and the output position (which the code advances by the full length of each line,
  cut or not, so as it would in a larger buffer of \<open>c\<close> bytes) ends past the end of the buffer, for any profile.\<close>

theorem profile_rewrite_overflow:
  assumes "cap = length d + length sec + length k + length v + 64" "n = ini_hits sec k False (map body (ini_split d))"
    "cap < n * length (k @ [0x3D] @ v @ [nl])"
  shows "ini_rewrite (Some d) sec (Some k) (Some v) = None
    \<and> (\<exists>c>cap. \<exists>out st. ini_loop c sec (Some k) (Some v) (ini_split d) ([], False, False, False) = Some (out, st) \<and> cap < length out)"
proof -
  let ?E = "length (kv_line k v) + 1" and ?init = "([], False, False, False)"
  have n: "cap < n * ?E" using assms(3) by (simp add: kv_line_def algebra_simps)
  have tight: "ini_loop cap sec (Some k) (Some v) (ini_split d) ?init = None"
  proof (rule ccontr)
    assume "ini_loop cap sec (Some k) (Some v) (ini_split d) ?init \<noteq> None"
    then obtain out st where l: "ini_loop cap sec (Some k) (Some v) (ini_split d) ?init = Some (out, st)" by auto
    show False using loop_grows [OF l] n assms(2) by simp
  qed
  define e where "e = ini_emits sec k False False (map body (ini_split d))"
  define c where "c = cap + length d + e * ?E + 1"
  obtain out st where l: "ini_loop c sec (Some k) (Some v) (ini_split d) ?init = Some (out, st)"
    using loop_fits [OF refl, of "[]" "ini_split d" sec k False False v c False] ini_split_ok [of d]
    by (auto simp: c_def e_def)
  have "cap < length out" using loop_grows [OF l] n assms(2) by simp
  moreover have "cap < c" by (simp add: c_def)
  moreover have "ini_rewrite (Some d) sec (Some k) (Some v) = None"
    using tight assms(1) by (simp add: ini_rewrite_def Let_def opt_len_def)
  ultimately show ?thesis using l by blast
qed

text \<open>A section with the same key twice, and a value of 80 bytes.\<close>

theorem profile_rewrite_overflow_witness:
  "ini_rewrite (Some (str ''[s]'' @ [nl] @ str ''k='' @ [nl] @ str ''k='' @ [nl])) (str ''s'') (Some (str ''k'')) (Some (replicate 80 0x41)) = None"
proof -
  let ?d = "str ''[s]'' @ [nl] @ str ''k='' @ [nl] @ str ''k='' @ [nl]" and ?v = "replicate 80 (0x41 :: u8)"
  have n: "2 = ini_hits (str ''s'') (str ''k'') False (map body (ini_split ?d))" by code_simp
  have len: "length ?d = 10" "length (str ''k'') = 1" "length (str ''s'') = 1" by code_simp+
  show ?thesis using profile_rewrite_overflow [OF refl n, of ?v] len by simp
qed

end
