(* ===== verification/Aret_Lz.thy ===== *)
theory Aret_Lz
  imports Aret_Ini
begin

text \<open>
  Win16-era file handles and the LZ expansion API of \<^verbatim>\<open>aret_hle.c\<close>: \<^verbatim>\<open>_lopen\<close> and its family over
  POSIX descriptors, the SZDD decompressor with its ring buffer, and the table of LZ handles.
  The operating system is modelled as POSIX documents it for regular files: a descriptor is a
  path and an offset; the number a new descriptor gets and the success of \<^verbatim>\<open>malloc\<close> are parameters.
\<close>

section \<open>The state\<close>

record hfile =
  hf_path :: "u8 list"
  hf_off :: nat
  hf_rd :: bool
  hf_wr :: bool

record lz_entry =
  lz_used :: bool
  lz_buf :: "u8 list"
  lz_pos :: nat

record lzst = fs +
  fds :: "int \<Rightarrow> hfile option"
  g_lz :: "lz_entry list"

definition ARET_LZ_BASE :: u32 where "ARET_LZ_BASE = 0x4C5A0000"

definition ARET_LZ_MAX :: nat where "ARET_LZ_MAX = 32"

abbreviation HFILE_ERROR :: u32 where "HFILE_ERROR \<equiv> 0xFFFFFFFF"

section \<open>Descriptors\<close>

text \<open>\<^verbatim>\<open>read\<close> transfers at most \<^verbatim>\<open>0x7ffff000\<close> bytes; an offset has to fit the 32-bit \<^verbatim>\<open>off_t\<close>.\<close>

definition host_open :: "int \<Rightarrow> bool \<Rightarrow> bool \<Rightarrow> u8 list \<Rightarrow> lzst \<Rightarrow> int \<times> lzst" where
  "host_open fd rd wr path s = (if fd < 0 \<or> files s path = None then (-1, s)
     else (fd, s\<lparr>fds := (fds s)(fd \<mapsto> \<lparr>hf_path = path, hf_off = 0, hf_rd = rd, hf_wr = wr\<rparr>)\<rparr>))"

definition host_close :: "int \<Rightarrow> lzst \<Rightarrow> bool \<times> lzst" where
  "host_close fd s = (fds s fd \<noteq> None, s\<lparr>fds := (fds s)(fd := None)\<rparr>)"

definition fd_data :: "hfile \<Rightarrow> lzst \<Rightarrow> u8 list" where
  "fd_data f s = (case files s (hf_path f) of None \<Rightarrow> [] | Some d \<Rightarrow> d)"

definition host_read :: "int \<Rightarrow> nat \<Rightarrow> lzst \<Rightarrow> u8 list option \<times> lzst" where
  "host_read fd n s = (case fds s fd of None \<Rightarrow> (None, s)
     | Some f \<Rightarrow> if \<not> hf_rd f then (None, s) else let bs = take (min n 0x7FFFF000) (drop (hf_off f) (fd_data f s))
         in (Some bs, s\<lparr>fds := (fds s)(fd \<mapsto> f\<lparr>hf_off := hf_off f + length bs\<rparr>)\<rparr>))"

definition write_at :: "nat \<Rightarrow> u8 list \<Rightarrow> u8 list \<Rightarrow> u8 list" where
  "write_at off bs d = (if bs = [] then d
     else take off d @ replicate (off - length d) 0 @ bs @ drop (off + length bs) d)"

text \<open>\<open>acc\<close>: how many of the bytes offered the system accepts, negative for an error.\<close>

definition host_write :: "int \<Rightarrow> int \<Rightarrow> u8 list \<Rightarrow> lzst \<Rightarrow> int \<times> lzst" where
  "host_write acc fd bs s = (case fds s fd of None \<Rightarrow> (-1, s)
     | Some f \<Rightarrow> if acc < 0 \<or> \<not> hf_wr f then (-1, s) else let w = take (nat acc) bs in
         (int (length w), s\<lparr>files := (files s)(hf_path f \<mapsto> write_at (hf_off f) w (fd_data f s)),
            fds := (fds s)(fd \<mapsto> f\<lparr>hf_off := hf_off f + length w\<rparr>)\<rparr>))"

definition host_lseek :: "int \<Rightarrow> int \<Rightarrow> int \<Rightarrow> lzst \<Rightarrow> int \<times> lzst" where
  "host_lseek fd off whence s = (case fds s fd of None \<Rightarrow> (-1, s)
     | Some f \<Rightarrow> let r = (if whence = 1 then int (hf_off f) else if whence = 2 then int (length (fd_data f s)) else 0) + off
         in if r < 0 \<or> r \<ge> 2 ^ 31 then (-1, s) else (r, s\<lparr>fds := (fds s)(fd \<mapsto> f\<lparr>hf_off := nat r\<rparr>)\<rparr>))"

definition fd_result :: "int \<Rightarrow> u32" where
  "fd_result r = (if r < 0 then HFILE_ERROR else word_of_int r)"

definition aret_lopen :: "u8 list \<Rightarrow> int \<Rightarrow> u32 \<Rightarrow> lzst \<Rightarrow> (u32 \<times> lzst) option" where
  "aret_lopen prefix fd esp s = do { path \<leftarrow> translate_path prefix (opt_str (mem s) (WU esp 0 s)) 1024;
     let rw = WU esp 1 s AND 3;
     case host_open fd (rw \<noteq> 1) (rw \<noteq> 0) path s of (r, s) \<Rightarrow> Some (fd_result r, s) }"

text \<open>\<^verbatim>\<open>open(path, O_RDWR | O_CREAT | O_TRUNC)\<close>; \<^verbatim>\<open>make_parents\<close> only creates directories.\<close>

definition aret_lcreat :: "u8 list \<Rightarrow> int \<Rightarrow> u32 \<Rightarrow> lzst \<Rightarrow> (u32 \<times> lzst) option" where
  "aret_lcreat prefix fd esp s = do { path \<leftarrow> translate_path prefix (opt_str (mem s) (WU esp 0 s)) 1024;
     if fd < 0 then Some (HFILE_ERROR, s)
     else case host_open fd True True path (s\<lparr>files := (files s)(path \<mapsto> [])\<rparr>) of (r, s) \<Rightarrow> Some (fd_result r, s) }"

definition aret_lclose :: "u32 \<Rightarrow> lzst \<Rightarrow> u32 \<times> lzst" where
  "aret_lclose esp s = (let fd = WI esp 0 s in case host_close fd s of (ok, s) \<Rightarrow> (if ok then word_of_int fd else HFILE_ERROR, s))"

definition aret_lread :: "u32 \<Rightarrow> lzst \<Rightarrow> u32 \<times> lzst" where
  "aret_lread esp s = (case host_read (WI esp 0 s) (unat (WU esp 2 s)) s of
       (None, s) \<Rightarrow> (HFILE_ERROR, s)
     | (Some bs, s') \<Rightarrow> (of_nat (length bs), s'\<lparr>mem := st_bytes (mem s') (WU esp 1 s) bs\<rparr>))"

definition aret_lwrite :: "int \<Rightarrow> u32 \<Rightarrow> lzst \<Rightarrow> u32 \<times> lzst" where
  "aret_lwrite acc esp s = (case host_write acc (WI esp 0 s) (ld_bytes (mem s) (WU esp 1 s) (unat (WU esp 2 s))) s of
     (r, s) \<Rightarrow> (fd_result r, s))"

definition aret_hread :: "u32 \<Rightarrow> lzst \<Rightarrow> u32 \<times> lzst" where
  "aret_hread esp s = aret_lread esp s"

definition aret_hwrite :: "int \<Rightarrow> u32 \<Rightarrow> lzst \<Rightarrow> u32 \<times> lzst" where
  "aret_hwrite acc esp s = aret_lwrite acc esp s"

definition aret_llseek :: "u32 \<Rightarrow> lzst \<Rightarrow> u32 \<times> lzst" where
  "aret_llseek esp s = (case host_lseek (WI esp 0 s) (WI esp 1 s) (WI esp 2 s) s of (r, s) \<Rightarrow> (fd_result r, s))"

section \<open>The decompressor\<close>

definition szdd_magic :: "u8 list" where
  "szdd_magic = [0x53, 0x5A, 0x44, 0x44, 0x88, 0xF0, 0x27, 0x33]"

text \<open>The loops' state: \<^verbatim>\<open>ip\<close>, the bytes of \<^verbatim>\<open>o\<close> (their number is \<^verbatim>\<open>op\<close>), \<^verbatim>\<open>ring\<close> and \<^verbatim>\<open>rp\<close>; \<^verbatim>\<open>& 0xFFF\<close> is \<open>mod 4096\<close>.\<close>

record szdd =
  ip :: nat
  outb :: "u8 list"
  ring :: "nat \<Rightarrow> u8"
  rp :: nat

definition lz_put :: "u8 \<Rightarrow> szdd \<Rightarrow> szdd" where
  "lz_put b t = t\<lparr>outb := outb t @ [b], ring := (ring t)(rp t := b), rp := (rp t + 1) mod 4096\<rparr>"

text \<open>\<^verbatim>\<open>for (k = 0; k < mlen && op < osize; k++)\<close>\<close>

definition lz_copy :: "nat \<Rightarrow> nat \<Rightarrow> nat \<Rightarrow> szdd \<Rightarrow> szdd" where
  "lz_copy osize mpos mlen t = fold (\<lambda>k t. if length (outb t) < osize then lz_put (ring t ((mpos + k) mod 4096)) t else t) [0..<mlen] t"

text \<open>The eight bits of a control byte; a \<^verbatim>\<open>break\<close> leaves the loop.\<close>

primrec lz_bits :: "u8 list \<Rightarrow> nat \<Rightarrow> u8 \<Rightarrow> nat list \<Rightarrow> szdd \<Rightarrow> szdd" where
  "lz_bits inp osize control [] t = t"
| "lz_bits inp osize control (n # ns) t =
     (if length (outb t) \<ge> osize then t
      else if bit control n
      then if ip t \<ge> length inp then t
        else lz_bits inp osize control ns (lz_put (inp ! ip t) (t\<lparr>ip := ip t + 1\<rparr>))
      else if ip t + 1 \<ge> length inp then t
        else let lo = inp ! ip t; hi = inp ! (ip t + 1) in
          lz_bits inp osize control ns
            (lz_copy osize (unat lo + 256 * unat (drop_bit 4 hi)) (unat (hi AND 0x0F) + 3) (t\<lparr>ip := ip t + 2\<rparr>)))"

lemma lz_put_ip [simp]: "ip (lz_put b t) = ip t"
  by (simp add: lz_put_def)

lemma fold_keeps: "(\<And>x t. f (g x t) = f t) \<Longrightarrow> f (fold g xs t) = f t"
  by (induction xs arbitrary: t) auto

lemma lz_copy_ip [simp]: "ip (lz_copy osize p n t) = ip t"
  unfolding lz_copy_def by (rule fold_keeps) simp

lemma lz_bits_ip: "ip t \<le> ip (lz_bits inp osize control ns t)"
proof (induction ns arbitrary: t)
  case (Cons n ns)
  have "ip t \<le> ip (lz_bits inp osize control ns (lz_put (inp ! ip t) (t\<lparr>ip := ip t + 1\<rparr>)))"
    "ip t \<le> ip (lz_bits inp osize control ns (lz_copy osize p l (t\<lparr>ip := ip t + 2\<rparr>)))" for p l
    using Cons [of "lz_put (inp ! ip t) (t\<lparr>ip := ip t + 1\<rparr>)"] Cons [of "lz_copy osize p l (t\<lparr>ip := ip t + 2\<rparr>)"] by simp_all
  then show ?case by (simp add: Let_def)
qed simp

function lz_loop :: "u8 list \<Rightarrow> nat \<Rightarrow> szdd \<Rightarrow> szdd" where
  "lz_loop inp osize t = (if ip t < length inp \<and> length (outb t) < osize
     then lz_loop inp osize (lz_bits inp osize (inp ! ip t) [0..<8] (t\<lparr>ip := ip t + 1\<rparr>)) else t)"
  by pat_completeness auto
termination
proof (relation "measure (\<lambda>(inp, osize, t). length inp - ip t)")
  fix inp :: "u8 list" and osize and t :: szdd
  assume a: "ip t < length inp \<and> length (outb t) < osize"
  have "ip t + 1 \<le> ip (lz_bits inp osize (inp ! ip t) [0..<8] (t\<lparr>ip := ip t + 1\<rparr>))"
    using lz_bits_ip [of "t\<lparr>ip := ip t + 1\<rparr>" inp osize "inp ! ip t" "[0..<8]"] by simp
  with a show "((inp, osize, lz_bits inp osize (inp ! ip t) [0..<8] (t\<lparr>ip := ip t + 1\<rparr>)), inp, osize, t)
      \<in> measure (\<lambda>(inp, osize, t). length inp - ip t)" by (auto intro!: diff_less_mono2)
qed simp

declare lz_loop.simps [simp del]

definition szdd_start :: szdd where
  "szdd_start = \<lparr>ip = 14, outb = [], ring = (\<lambda>_. 0x20), rp = 4096 - 16\<rparr>"

definition le32 :: "u8 list \<Rightarrow> nat" where
  "le32 bs = unat (bs ! 0) + 256 * unat (bs ! 1) + 65536 * unat (bs ! 2) + 16777216 * unat (bs ! 3)"

definition lz_szdd_decompress :: "bool \<Rightarrow> u8 list \<Rightarrow> u8 list option" where
  "lz_szdd_decompress mok inp = (if length inp < 14 \<or> take 8 inp \<noteq> szdd_magic then None
     else if \<not> mok then None else Some (outb (lz_loop inp (le32 (drop 10 inp)) szdd_start)))"

section \<open>LZ handles\<close>

text \<open>The file is read from its start with one \<^verbatim>\<open>read\<close>; a failed allocation of the output keeps it verbatim.\<close>

definition lz_slurp :: "bool \<Rightarrow> bool \<Rightarrow> int \<Rightarrow> lzst \<Rightarrow> u8 list option \<times> lzst" where
  "lz_slurp mok1 mok2 fd s0 = (if fd < 0 then (None, s0)
     else case host_lseek fd 0 2 s0 of (sz, s) \<Rightarrow> case host_lseek fd 0 0 s of (_, s) \<Rightarrow>
       if sz < 0 then (None, s)
       else if \<not> mok1 then (None, s)
       else case host_read fd (nat sz) s of (None, s) \<Rightarrow> (None, s)
         | (Some raw, s) \<Rightarrow> (case lz_szdd_decompress mok2 raw of Some o' \<Rightarrow> (Some o', s) | None \<Rightarrow> (Some raw, s)))"

definition lz_alloc :: "u8 list \<Rightarrow> lzst \<Rightarrow> nat option \<times> lzst" where
  "lz_alloc buf s = (case first_idx (\<lambda>i. \<not> lz_used (g_lz s ! i)) 0 ARET_LZ_MAX of
       Some i \<Rightarrow> (Some i, s\<lparr>g_lz := (g_lz s)[i := \<lparr>lz_used = True, lz_buf = buf, lz_pos = 0\<rparr>]\<rparr>)
     | None \<Rightarrow> (None, s))"

text \<open>The table is the array \<^verbatim>\<open>g_lz[ARET_LZ_MAX]\<close>; its length is the bound the code tests.\<close>

definition lz_idx :: "lz_entry list \<Rightarrow> u32 \<Rightarrow> nat option" where
  "lz_idx T h = (if h AND 0xFFFF0000 \<noteq> ARET_LZ_BASE then None
     else let i = unat (h AND 0xFFFF) in if i < length T \<and> lz_used (T ! i) then Some i else None)"

text \<open>The handle of the slurped content, or \<^verbatim>\<open>HFILE_ERROR\<close>.\<close>

definition lz_new :: "u8 list option \<times> lzst \<Rightarrow> u32 \<times> lzst" where
  "lz_new r = (case r of (None, s) \<Rightarrow> (HFILE_ERROR, s)
     | (Some buf, s) \<Rightarrow> (case lz_alloc buf s of (Some i, s) \<Rightarrow> (ARET_LZ_BASE OR of_nat i, s) | (None, s) \<Rightarrow> (HFILE_ERROR, s)))"

definition aret_LZOpenFileA :: "bool \<Rightarrow> bool \<Rightarrow> u8 list \<Rightarrow> int \<Rightarrow> u32 \<Rightarrow> lzst \<Rightarrow> (u32 \<times> lzst) option" where
  "aret_LZOpenFileA mok1 mok2 prefix fd esp s = (do {
     path \<leftarrow> translate_path prefix (opt_str (mem s) (WU esp 0 s)) 1024;
     case host_open fd True False path s of (r, s) \<Rightarrow>
     if r < 0 then Some (HFILE_ERROR, s) else
     case lz_slurp mok1 mok2 r s of (res, s) \<Rightarrow>
     case lz_new (res, snd (host_close r s)) of (h, s) \<Rightarrow>
     if h = HFILE_ERROR then Some (h, s)
     else let oft = WU esp 1 s in
       if oft = 0 then Some (h, s)
       else let s = s\<lparr>mem := st_bytes (mem s) oft (136 # replicate 135 0)\<rparr> in
         Some (h, s\<lparr>mem := st_bytes (mem s) (oft + 8) (take 127 (narrow_at (mem s) (WU esp 0 s)) @ [0])\<rparr>) })"

definition aret_LZInit :: "bool \<Rightarrow> bool \<Rightarrow> u32 \<Rightarrow> lzst \<Rightarrow> u32 \<times> lzst" where
  "aret_LZInit mok1 mok2 esp s = (let hf = WU esp 0 s in
     if lz_idx (g_lz s) hf \<noteq> None then (hf, s) else lz_new (lz_slurp mok1 mok2 (sint hf) s))"

definition aret_LZRead :: "u32 \<Rightarrow> lzst \<Rightarrow> u32 \<times> lzst" where
  "aret_LZRead esp s = (case lz_idx (g_lz s) (WU esp 0 s) of None \<Rightarrow> aret_lread esp s
     | Some i \<Rightarrow> let e = g_lz s ! i; dst = WU esp 1 s; want = min (unat (WU esp 2 s)) (length (lz_buf e) - lz_pos e);
           bs = take want (drop (lz_pos e) (lz_buf e))
         in (of_nat want, s\<lparr>mem := (if dst \<noteq> 0 then st_bytes (mem s) dst bs else mem s),
               g_lz := (g_lz s)[i := e\<lparr>lz_pos := lz_pos e + want\<rparr>]\<rparr>))"

text \<open>\<^verbatim>\<open>long\<close> has 32 bits, so the sum is cut to it before it is clamped.\<close>

definition aret_LZSeek :: "u32 \<Rightarrow> lzst \<Rightarrow> u32 \<times> lzst" where
  "aret_LZSeek esp s = (case lz_idx (g_lz s) (WU esp 0 s) of None \<Rightarrow> aret_llseek esp s
     | Some i \<Rightarrow> let e = g_lz s ! i; off = WI esp 1 s; origin = WI esp 2 s; len = c_int (int (length (lz_buf e)));
           base = (if origin = 1 then c_int (int (lz_pos e)) else if origin = 2 then len else 0);
           np = c_int (base + off); np = (if np < 0 then 0 else np); np = (if np > len then len else np)
         in (word_of_int np, s\<lparr>g_lz := (g_lz s)[i := e\<lparr>lz_pos := nat np\<rparr>]\<rparr>))"

definition aret_LZClose :: "u32 \<Rightarrow> lzst \<Rightarrow> u32 \<times> lzst" where
  "aret_LZClose esp s = (case lz_idx (g_lz s) (WU esp 0 s) of None \<Rightarrow> (0, snd (host_close (WI esp 0 s) s))
     | Some i \<Rightarrow> (0, s\<lparr>g_lz := (g_lz s)[i := (g_lz s ! i)\<lparr>lz_used := False, lz_buf := []\<rparr>]\<rparr>))"

text \<open>The write loop; \<open>acc off\<close> is what the system accepts of the rest from \<open>off\<close> on.\<close>

function lz_write :: "(nat \<Rightarrow> int) \<Rightarrow> int \<Rightarrow> u8 list \<Rightarrow> nat \<Rightarrow> lzst \<Rightarrow> nat \<times> lzst" where
  "lz_write acc dfd buf off s = (if off < length buf
     then case host_write (acc off) dfd (drop off buf) s of (w, s') \<Rightarrow>
       if w \<le> 0 then (off, s') else lz_write acc dfd buf (off + nat w) s'
     else (off, s))"
  by pat_completeness auto
termination
  by (relation "measure (\<lambda>(acc, dfd, buf, off, s). length buf - off)") auto

declare lz_write.simps [simp del]

definition aret_LZCopy :: "bool \<Rightarrow> bool \<Rightarrow> (nat \<Rightarrow> int) \<Rightarrow> u32 \<Rightarrow> lzst \<Rightarrow> u32 \<times> lzst" where
  "aret_LZCopy mok1 mok2 acc esp s0 = (let src = WU esp 0 s0; dfd = WI esp 1 s0 in
     case (case lz_idx (g_lz s0) src of Some i \<Rightarrow> (Some (lz_buf (g_lz s0 ! i)), s0) | None \<Rightarrow> lz_slurp mok1 mok2 (sint src) s0) of
       (None, s) \<Rightarrow> (0xFFFFFFFF, s)
     | (Some buf, s) \<Rightarrow> (case lz_write acc dfd buf 0 s of (off, s) \<Rightarrow> (of_nat off, s)))"

text \<open>\<^verbatim>\<open>open\<close> and \<^verbatim>\<open>close\<close> leave the descriptors as they were; the header is the file's first ten bytes.\<close>

definition aret_GetExpandedNameA :: "u8 list \<Rightarrow> bool \<Rightarrow> u32 \<Rightarrow> lzst \<Rightarrow> (u32 \<times> lzst) option" where
  "aret_GetExpandedNameA prefix ook esp s = (case opt_str (mem s) (WU esp 0 s) of None \<Rightarrow> Some (0, s)
     | Some src \<Rightarrow> let dst = WU esp 1 s in if dst = 0 then Some (0, s)
       else let name = take 255 src; s1 = s\<lparr>mem := st_bytes (mem s) dst (name @ [0])\<rparr> in do {
         path \<leftarrow> translate_path prefix (Some (cstr (mem s1) (WU esp 0 s))) 1024;
         case (if ook then files s1 path else None) of None \<Rightarrow> Some (1, s1)
         | Some d \<Rightarrow> if length d \<ge> 10 \<and> take 8 d = szdd_magic \<and> d ! 9 \<noteq> 0 \<and> name \<noteq> [] \<and> last name = 0x5F
             then Some (1, s1\<lparr>mem := (mem s1)(dst + of_nat (length name) - 1 := d ! 9)\<rparr>) else Some (1, s1) })"

section \<open>Small string and path helpers\<close>

definition aret_lstrcpynA :: "u32 \<Rightarrow> 'a hle_scheme \<Rightarrow> u32 \<times> 'a hle_scheme" where
  "aret_lstrcpynA esp s = (let dst = WU esp 0 s; src = WU esp 1 s; n = WI esp 2 s in
     if dst = 0 \<or> n \<le> 0 then (dst, s)
     else (dst, s\<lparr>mem := st_bytes (mem s) dst (take (nat (n - 1)) (narrow_at (mem s) src) @ [0])\<rparr>))"

definition aret_GetShortPathNameA :: "u32 \<Rightarrow> 'a hle_scheme \<Rightarrow> u32 \<times> 'a hle_scheme" where
  "aret_GetShortPathNameA esp s = (case opt_str (mem s) (WU esp 0 s) of None \<Rightarrow> (0, s)
     | Some lng \<Rightarrow> let shrt = WU esp 1 s; cch = WU esp 2 s; len = of_nat (length lng) :: u32 in
         if shrt \<noteq> 0 \<and> cch > len then (len, s\<lparr>mem := st_bytes (mem s) shrt (lng @ [0])\<rparr>) else (len + 1, s))"

section \<open>Checked memory copies\<close>

text \<open>\<^verbatim>\<open>memset(dst, 0, destsz)\<close> and \<^verbatim>\<open>memcpy(dst, src, count)\<close>; the ranges of a \<^verbatim>\<open>memcpy\<close> do not overlap.\<close>

definition aret_memcpy_s :: "u32 \<Rightarrow> 'a hle_scheme \<Rightarrow> u32 \<times> 'a hle_scheme" where
  "aret_memcpy_s esp s = (let dst = WU esp 0 s; destsz = WU esp 1 s; src = WU esp 2 s; count = WU esp 3 s in
     if count = 0 then (0, s)
     else if dst = 0 then (22, s)
     else if src = 0 \<or> destsz < count then (if src \<noteq> 0 then 34 else 22, s\<lparr>mem := st_bytes (mem s) dst (replicate (unat destsz) 0)\<rparr>)
     else (0, s\<lparr>mem := st_bytes (mem s) dst (ld_bytes (mem s) src (unat count))\<rparr>))"

definition aret_memmove_s :: "u32 \<Rightarrow> 'a hle_scheme \<Rightarrow> u32 \<times> 'a hle_scheme" where
  "aret_memmove_s esp s = (let dst = WU esp 0 s; destsz = WU esp 1 s; src = WU esp 2 s; count = WU esp 3 s in
     if count = 0 then (0, s)
     else if dst = 0 \<or> src = 0 then (22, s)
     else if destsz < count then (34, s)
     else (0, s\<lparr>mem := st_bytes (mem s) dst (ld_bytes (mem s) src (unat count))\<rparr>))"

end
