(* ===== verification/Aret_Lz_Theorems.thy ===== *)
theory Aret_Lz_Theorems
  imports Aret_Lz
begin

text \<open>
  The decompressor against the LZ77 view of its format: literals and copies from a distance of
  at most 4096 bytes, blanks before the start of the output. The ring buffer refines the last
  4096 bytes of the output; from that, every token sequence that is encoded in the SZDD layout
  expands to what the tokens mean, and the LZ handles deliver it in pieces of any size.
\<close>

section \<open>The reference\<close>

datatype lz_tok = Lit u8 | Back nat nat

definition back_byte :: "nat \<Rightarrow> u8 list \<Rightarrow> u8" where
  "back_byte d o' = (if d \<le> length o' then o' ! (length o' - d) else 0x20)"

primrec lz77_copy :: "nat \<Rightarrow> nat \<Rightarrow> u8 list \<Rightarrow> u8 list" where
  "lz77_copy d 0 o' = o'"
| "lz77_copy d (Suc n) o' = lz77_copy d n (o' @ [back_byte d o'])"

fun lz77 :: "lz_tok list \<Rightarrow> u8 list \<Rightarrow> u8 list" where
  "lz77 [] o' = o'"
| "lz77 (Lit b # ts) o' = lz77 ts (o' @ [b])"
| "lz77 (Back d n # ts) o' = lz77 ts (lz77_copy d n o')"

text \<open>What the format can say: a distance of 1 to 4096, a length of 3 to 18.\<close>

fun tok_ok :: "lz_tok \<Rightarrow> bool" where
  "tok_ok (Lit b) = True"
| "tok_ok (Back d n) = (1 \<le> d \<and> d \<le> 4096 \<and> 3 \<le> n \<and> n \<le> 18)"

section \<open>The layout of a compressed file\<close>

text \<open>A copy names the ring position of its first byte.\<close>

definition ring_at :: "nat \<Rightarrow> nat \<Rightarrow> nat" where
  "ring_at len d = (len + 4080 + (4096 - d)) mod 4096"

fun enc_toks :: "lz_tok list \<Rightarrow> u8 list \<Rightarrow> u8 list" where
  "enc_toks [] o' = []"
| "enc_toks (Lit b # ts) o' = b # enc_toks ts (o' @ [b])"
| "enc_toks (Back d n # ts) o' = (let p = ring_at (length o') d in
     of_nat (p mod 256) # of_nat (16 * (p div 256) + (n - 3)) # enc_toks ts (lz77_copy d n o'))"

definition is_lit :: "lz_tok \<Rightarrow> bool" where
  "is_lit t = (case t of Lit _ \<Rightarrow> True | _ \<Rightarrow> False)"

definition control_byte :: "lz_tok list \<Rightarrow> u8" where
  "control_byte ts = horner_sum of_bool 2 (map is_lit ts)"

function enc_blocks :: "lz_tok list \<Rightarrow> u8 list \<Rightarrow> u8 list" where
  "enc_blocks ts o' = (if ts = [] then []
     else control_byte (take 8 ts) # enc_toks (take 8 ts) o' @ enc_blocks (drop 8 ts) (lz77 (take 8 ts) o'))"
  by pat_completeness auto
termination
  by (relation "measure (\<lambda>(ts, o'). length ts)") auto

declare enc_blocks.simps [simp del]

definition enc_le32 :: "nat \<Rightarrow> u8 list" where
  "enc_le32 n = [of_nat (n mod 256), of_nat (n div 256 mod 256), of_nat (n div 65536 mod 256), of_nat (n div 16777216 mod 256)]"

definition szdd_file :: "u8 \<Rightarrow> u8 \<Rightarrow> lz_tok list \<Rightarrow> u8 list" where
  "szdd_file mode missing ts = szdd_magic @ [mode, missing] @ enc_le32 (length (lz77 ts [])) @ enc_blocks ts []"

section \<open>The ring buffer holds the window\<close>

definition ring_ok :: "szdd \<Rightarrow> bool" where
  "ring_ok t \<longleftrightarrow> rp t = (length (outb t) + 4080) mod 4096
     \<and> (\<forall>d. 1 \<le> d \<and> d \<le> 4096 \<longrightarrow> ring t (ring_at (length (outb t)) d) = back_byte d (outb t))"

lemma ring_at_next: "1 \<le> d \<Longrightarrow> d < 4096 \<Longrightarrow> ring_at (Suc n) (Suc d) = ring_at n d"
  by (simp add: ring_at_def Suc_diff_Suc)

lemma ring_at_one: "ring_at (Suc n) 1 = (n + 4080) mod 4096"
proof -
  have "Suc n + 4080 + (4096 - 1) = (n + 4080) + 4096" by simp
  then show ?thesis unfolding ring_at_def by (simp only: mod_add_self2)
qed

lemma mod_shift_neq: assumes "0 < r" "r < N" shows "(a + r) mod N \<noteq> a mod (N :: nat)"
proof
  assume "(a + r) mod N = a mod N"
  then have "N dvd r" using mod_eq_dvd_iff_nat [of a "a + r" N] by simp
  then show False using assms by (simp add: nat_dvd_not_less)
qed

lemma ring_at_neq: "1 \<le> d \<Longrightarrow> d < 4096 \<Longrightarrow> ring_at n d \<noteq> (n + 4080) mod 4096"
  unfolding ring_at_def by (rule mod_shift_neq) auto

lemma back_byte_snoc: "back_byte 1 (xs @ [b]) = b" "1 \<le> d \<Longrightarrow> back_byte (Suc d) (xs @ [b]) = back_byte d xs"
  by (auto simp: back_byte_def nth_append)

lemma ring_put:
  assumes "ring_ok t" shows "ring_ok (lz_put b t)"
proof -
  have r: "rp t = (length (outb t) + 4080) mod 4096" using assms by (simp add: ring_ok_def)
  have "ring (lz_put b t) (ring_at (Suc (length (outb t))) d) = back_byte d (outb t @ [b])" if d: "1 \<le> d" "d \<le> 4096" for d
  proof (cases "d = 1")
    case True
    then show ?thesis using r by (simp only: ring_at_one back_byte_snoc lz_put_def) simp
  next
    case False
    obtain e where e: "d = Suc e" using d by (cases d) simp_all
    moreover have "1 \<le> e" "e < 4096" using d False e by simp_all
    ultimately show ?thesis using assms ring_at_neq [of e "length (outb t)"] r
      by (simp add: ring_at_next back_byte_snoc lz_put_def ring_ok_def)
  qed
  then show ?thesis using r by (simp add: ring_ok_def lz_put_def mod_Suc_eq) 
qed

lemma put_simps [simp]: "outb (lz_put b t) = outb t @ [b]" "outb (t\<lparr>ip := n\<rparr>) = outb t" "ring_ok (t\<lparr>ip := n\<rparr>) = ring_ok t"
  by (simp_all add: lz_put_def ring_ok_def)

lemma ring_copy:
  assumes "ring_ok t" "1 \<le> d" "d \<le> 4096" "length (outb t) + n \<le> osize" and p: "p = ring_at (length (outb t)) d"
  shows "ring_ok (lz_copy osize p n t) \<and> outb (lz_copy osize p n t) = lz77_copy d n (outb t)"
proof -
  let ?f = "\<lambda>k t. if length (outb t) < osize then lz_put (ring t ((p + k) mod 4096)) t else t"
  have "ring_ok (fold ?f [k..<k + m] t') \<and> outb (fold ?f [k..<k + m] t') = lz77_copy d m (outb t')"
    if "ring_ok t'" "length (outb t') = length (outb t) + k" "k + m \<le> n" for k m t'
    using that
  proof (induction m arbitrary: k t')
    case (Suc m)
    have "(p + k) mod 4096 = ring_at (length (outb t')) d"
      using Suc.prems p by (simp add: ring_at_def mod_add_left_eq) (simp add: algebra_simps)
    then have s: "?f k t' = lz_put (back_byte d (outb t')) t'"
      using Suc.prems assms(2-4) by (simp add: ring_ok_def)
    have "[k..<k + Suc m] = k # [Suc k..<Suc k + m]" by (simp add: upt_conv_Cons)
    then show ?case
      using Suc.IH [of "lz_put (back_byte d (outb t')) t'" "Suc k"] Suc.prems s by (simp add: ring_put)
  qed simp
  from this [of t 0 n] assms(1) show ?thesis by (simp add: lz_copy_def)
qed

section \<open>Control bytes\<close>

lemma control_bit: "i < length ts \<Longrightarrow> i < 8 \<Longrightarrow> bit (control_byte ts) i = is_lit (ts ! i)"
  by (simp add: control_byte_def bit_horner_sum_bit_word_iff)

lemma copy_length [simp]: "length (lz77_copy d n o') = length o' + n"
  by (induction n arbitrary: o') auto

lemma lz77_length: "length o' \<le> length (lz77 ts o')"
  by (induction ts o' rule: lz77.induct) auto

lemma lz77_append: "lz77 (as @ bs) o' = lz77 bs (lz77 as o')"
  by (induction as o' rule: lz77.induct) auto

lemma lz77_grows: "ts \<noteq> [] \<Longrightarrow> list_all tok_ok ts \<Longrightarrow> length o' < length (lz77 ts o')"
proof (induction ts o' rule: lz77.induct)
  case (2 b ts o')
  then show ?case using lz77_length [of "o' @ [b]" ts] by simp
next
  case (3 d n ts o')
  then show ?case using lz77_length [of "lz77_copy d n o'" ts] by simp
qed simp

text \<open>The two bytes of a copy, as the decoder takes them apart.\<close>

lemma ref_bytes:
  assumes "p < 4096" "3 \<le> n" "n \<le> 18"
  shows "unat (of_nat (p mod 256) :: u8) + 256 * unat (drop_bit 4 (of_nat (16 * (p div 256) + (n - 3)) :: u8)) = p"
    and "unat ((of_nat (16 * (p div 256) + (n - 3)) :: u8) AND 0x0F) + 3 = n"
proof -
  let ?h = "16 * (p div 256) + (n - 3)"
  define m where "m = n - 3"
  then have m: "n = m + 3" "m < 16" using assms(2,3) by auto
  have "p div 256 < 16" using assms(1) by (simp add: div_less_iff_less_mult)
  then have h: "?h < 256" "?h div 16 = p div 256" "?h mod 16 = n - 3" using m by simp_all
  have u: "unat (of_nat ?h :: u8) = ?h" using h(1) by (simp add: unat_of_nat del: of_nat_add of_nat_mult)
  have "unat (drop_bit 4 (of_nat ?h :: u8)) = ?h div 16"
    unfolding unat_drop_bit_eq u by (simp add: drop_bit_eq_div)
  then show "unat (of_nat (p mod 256) :: u8) + 256 * unat (drop_bit 4 (of_nat ?h :: u8)) = p"
    using h by (simp add: unat_of_nat del: of_nat_add of_nat_mult)
  have m4: "(0x0F :: u8) = mask 4" by (simp add: mask_eq_exp_minus_1)
  have "unat ((of_nat ?h :: u8) AND 0x0F) = ?h mod 16"
    unfolding m4 take_bit_eq_mask [symmetric] unsigned_take_bit_eq u by (simp add: take_bit_eq_mod)
  then show "unat ((of_nat ?h :: u8) AND 0x0F) + 3 = n" using h assms by (simp del: of_nat_add of_nat_mult)
qed

text \<open>The eight rounds of a control byte read one group of tokens.\<close>

lemma bits_group:
  assumes "\<forall>j < length g. bit c (i + j) = is_lit (g ! j)" "i + length g \<le> 8" "ring_ok t" "list_all tok_ok g"
    and "drop (ip t) inp = enc_toks g (outb t) @ rest" "length (lz77 g (outb t)) \<le> osize"
    and "i + length g = 8 \<or> length (lz77 g (outb t)) = osize"
  shows "let t' = lz_bits inp osize c [i..<8] t in outb t' = lz77 g (outb t) \<and> ring_ok t' \<and> drop (ip t') inp = rest"
  using assms
proof (induction g arbitrary: i t)
  case Nil
  then show ?case by (cases "i = 8") (auto simp: upt_conv_Cons Let_def)
next
  case (Cons k g)
  have up: "[i..<8] = i # [Suc i..<8]" using Cons.prems(2) by (simp add: upt_conv_Cons)
  have lt: "length (outb t) < osize" using lz77_grows [of "k # g" "outb t"] Cons.prems(4,6) by simp
  have b: "bit c i = is_lit k" "\<forall>j < length g. bit c (Suc i + j) = is_lit (g ! j)" using Cons.prems(1) by force+
  show ?case
  proof (cases k)
    case (Lit x)
    let ?t = "lz_put (inp ! ip t) (t\<lparr>ip := ip t + 1\<rparr>)"
    have d: "drop (ip t) inp = x # enc_toks g (outb t @ [x]) @ rest" using Cons.prems(5) Lit by simp
    then have x: "ip t < length inp" "inp ! ip t = x" "drop (Suc (ip t)) inp = enc_toks g (outb t @ [x]) @ rest"
      by (metis drop_all leI list.distinct(1), metis hd_drop_conv_nth drop_all leI list.sel(1) list.distinct(1), metis drop_Suc tl_drop list.sel(3))
    show ?thesis
      using Cons.IH [of "Suc i" ?t] Cons.prems b x lt Lit up by (simp add: is_lit_def ring_put)
  next
    case (Back d n)
    let ?p = "ring_at (length (outb t)) d"
    define lo hi :: u8 where lh: "lo = of_nat (?p mod 256)" "hi = of_nat (16 * (?p div 256) + (n - 3))"
    have dn: "1 \<le> d" "d \<le> 4096" "3 \<le> n" "n \<le> 18" using Cons.prems(4) Back by simp_all
    have d: "drop (ip t) inp = lo # hi # enc_toks g (lz77_copy d n (outb t)) @ rest"
      using Cons.prems(5) Back by (simp add: Let_def lh del: of_nat_add of_nat_mult)
    have "length (drop (ip t) inp) \<ge> 2" using d by simp
    then have x: "Suc (ip t) < length inp" by simp
    then have y: "inp ! ip t = lo" "inp ! (Suc (ip t)) = hi" "drop (ip t + 2) inp = enc_toks g (lz77_copy d n (outb t)) @ rest"
      using d by (simp_all add: Cons_nth_drop_Suc [symmetric])
    have "length (lz77_copy d n (outb t)) \<le> osize"
      using Cons.prems(6) Back lz77_length [of "lz77_copy d n (outb t)" g] by simp
    then have c: "ring_ok (lz_copy osize ?p n (t\<lparr>ip := ip t + 2\<rparr>))" "outb (lz_copy osize ?p n (t\<lparr>ip := ip t + 2\<rparr>)) = lz77_copy d n (outb t)"
      using ring_copy [of "t\<lparr>ip := ip t + 2\<rparr>" d n osize ?p] Cons.prems(3) dn by simp_all
    have "?p < 4096" by (simp add: ring_at_def)
    note rb = ref_bytes [OF this dn(3,4), folded lh]
    have "lz_bits inp osize c [i..<8] t = lz_bits inp osize c [Suc i..<8] (lz_copy osize ?p n (t\<lparr>ip := ip t + 2\<rparr>))"
      using up b(1) Back x y lt rb by (simp add: is_lit_def Let_def)
    then show ?thesis
      using Cons.IH [of "Suc i" "lz_copy osize ?p n (t\<lparr>ip := ip t + 2\<rparr>)"] Cons.prems b y c Back by simp
  qed
qed

section \<open>Round trip\<close>

lemma loop_blocks:
  assumes "ring_ok t" "list_all tok_ok ts" "drop (ip t) inp = enc_blocks ts (outb t)" "osize = length (lz77 ts (outb t))"
  shows "outb (lz_loop inp osize t) = lz77 ts (outb t)"
  using assms
proof (induction "length ts" arbitrary: ts t rule: less_induct)
  case less
  show ?case
  proof (cases "ts = []")
    case True
    then show ?thesis using less.prems by (subst lz_loop.simps) simp
  next
    case False
    let ?g = "take 8 ts" and ?us = "drop 8 ts" and ?c = "control_byte (take 8 ts)"
    let ?t = "lz_bits inp osize ?c [0..<8] (t\<lparr>ip := ip t + 1\<rparr>)"
    have ts: "lz77 ?us (lz77 ?g (outb t)) = lz77 ts (outb t)" by (simp flip: lz77_append)
    have d: "drop (ip t) inp = ?c # enc_toks ?g (outb t) @ enc_blocks ?us (lz77 ?g (outb t))"
      using less.prems(3) False by (subst (asm) enc_blocks.simps) simp
    then have "drop (ip t) inp \<noteq> []" by simp
    then have lt: "ip t < length inp" by (simp add: not_le)
    then have x: "inp ! ip t = ?c" "drop (ip t + 1) inp = enc_toks ?g (outb t) @ enc_blocks ?us (lz77 ?g (outb t))"
      using d by (simp_all add: Cons_nth_drop_Suc [symmetric])
    have full: "length ?g = 8 \<or> length (lz77 ?g (outb t)) = osize"
      using ts less.prems(4) by (cases "8 \<le> length ts") auto
    have ok: "list_all tok_ok ?g" "list_all tok_ok ?us" using less.prems(2) by (auto simp: list_all_iff dest: in_set_takeD in_set_dropD)
    have le: "length (lz77 ?g (outb t)) \<le> osize" using lz77_length [of "lz77 ?g (outb t)" ?us] ts less.prems(4) by simp
    have t: "outb ?t = lz77 ?g (outb t)" "ring_ok ?t" "drop (ip ?t) inp = enc_blocks ?us (lz77 ?g (outb t))"
      using bits_group [of ?g ?c 0 "t\<lparr>ip := ip t + 1\<rparr>" inp "enc_blocks ?us (lz77 ?g (outb t))" osize]
        less.prems(1) ok le full x by (simp_all add: control_bit Let_def)
    have "length (outb t) < osize" using lz77_grows [OF False less.prems(2), of "outb t"] less.prems(4) by simp
    then have "lz_loop inp osize t = lz_loop inp osize ?t" using lt x(1) by (subst lz_loop.simps) simp
    moreover have "outb (lz_loop inp osize ?t) = lz77 ?us (outb ?t)"
      by (rule less.hyps) (use False t ok ts less.prems(4) in simp_all)
    ultimately show ?thesis using t ts by simp
  qed
qed

lemma start_ok: "ring_ok szdd_start"
  by (simp add: ring_ok_def szdd_start_def back_byte_def)

lemma le32_enc: "n < 2 ^ 32 \<Longrightarrow> le32 (enc_le32 n @ xs) = n"
proof -
  assume n: "n < 2 ^ 32"
  have "n mod 256 + 256 * (n div 256) = n" "n div 256 mod 256 + 256 * (n div 65536) = n div 256"
    "n div 65536 mod 256 + 256 * (n div 16777216) = n div 65536"
    using div_mult2_eq [of n 256 256] div_mult2_eq [of n 65536 256] by simp_all
  then have "n mod 256 + 256 * (n div 256 mod 256) + 65536 * (n div 65536 mod 256) + 16777216 * (n div 16777216) = n" by linarith
  moreover have "n div 16777216 < 256" using n by (simp add: div_less_iff_less_mult)
  ultimately show ?thesis by (simp add: le32_def enc_le32_def unat_of_nat)
qed

text \<open>C3: decompression inverts the format: a file that lays out any sequence of literals and copies
  as COMPRESS does expands to the LZ77 meaning of the sequence, whatever the mode and the name byte.\<close>

theorem szdd_roundtrip:
  assumes "list_all tok_ok ts" "length (lz77 ts []) < 2 ^ 32"
  shows "lz_szdd_decompress True (szdd_file mode missing ts) = Some (lz77 ts [])"
proof -
  let ?f = "szdd_file mode missing ts"
  have "length ?f \<ge> 14" "take 8 ?f = szdd_magic" "drop 14 ?f = enc_blocks ts []"
    "drop 10 ?f = enc_le32 (length (lz77 ts [])) @ enc_blocks ts []"
    by (simp_all add: szdd_file_def szdd_magic_def enc_le32_def)
  then show ?thesis
    using loop_blocks [OF start_ok assms(1), of ?f] le32_enc [OF assms(2), of "enc_blocks ts []"]
    by (simp add: lz_szdd_decompress_def szdd_start_def)
qed

definition lz_demo :: "lz_tok list" where
  "lz_demo = [Lit 0x61, Lit 0x62, Back 2 5, Back 4096 3, Lit 0x63, Lit 0x64, Lit 0x65, Lit 0x66, Back 1 4]"

theorem szdd_roundtrip_witness:
  "lz_szdd_decompress True (szdd_file 0x41 0x65 lz_demo) = Some [0x61, 0x62, 0x61, 0x62, 0x61, 0x62, 0x61,
     0x20, 0x20, 0x20, 0x63, 0x64, 0x65, 0x66, 0x66, 0x66, 0x66, 0x66]"
proof -
  have "lz77 lz_demo [] = [0x61, 0x62, 0x61, 0x62, 0x61, 0x62, 0x61,
     0x20, 0x20, 0x20, 0x63, 0x64, 0x65, 0x66, 0x66, 0x66, 0x66, 0x66]" "list_all tok_ok lz_demo" by code_simp+
  then show ?thesis using szdd_roundtrip [of lz_demo "0x41" "0x65"] by simp
qed

section \<open>Malformed input\<close>

lemma copy_bound: "length (outb t) \<le> osize \<Longrightarrow> length (outb (lz_copy osize p n t)) \<le> osize"
  unfolding lz_copy_def by (induction n) auto

lemma bits_bound: "length (outb t) \<le> osize \<Longrightarrow> length (outb (lz_bits inp osize c ns t)) \<le> osize"
proof (induction ns arbitrary: t)
  case (Cons n ns)
  have "length (outb (lz_bits inp osize c ns (lz_put b (t\<lparr>ip := j\<rparr>)))) \<le> osize" if "length (outb t) < osize" for b j
    by (rule Cons.IH) (use that in simp)
  moreover have "length (outb (lz_bits inp osize c ns (lz_copy osize p l (t\<lparr>ip := j\<rparr>)))) \<le> osize" for p l j
    by (rule Cons.IH, rule copy_bound) (use Cons.prems in simp)
  ultimately show ?case using Cons.prems by (simp add: Let_def)
qed simp

lemma loop_bound: "length (outb t) \<le> osize \<Longrightarrow> length (outb (lz_loop inp osize t)) \<le> osize"
proof (induction inp osize t rule: lz_loop.induct)
  case (1 inp osize t)
  show ?case
  proof (cases "ip t < length inp \<and> length (outb t) < osize")
    case True
    have "length (outb (lz_bits inp osize (inp ! ip t) [0..<8] (t\<lparr>ip := ip t + 1\<rparr>))) \<le> osize"
      by (rule bits_bound) (use "1.prems" in simp)
    then show ?thesis using "1.IH" True by (subst lz_loop.simps) simp
  qed (use "1.prems" in \<open>subst lz_loop.simps, auto\<close>)
qed

text \<open>The output never passes the size the header announces, which is the size of the buffer the
  decompressor allocates, on any input, well formed or not.\<close>

theorem szdd_output_bounded:
  assumes "lz_szdd_decompress mok inp = Some res"
  shows "length res \<le> le32 (drop 10 inp)"
  using assms loop_bound [of szdd_start "le32 (drop 10 inp)" inp]
  by (auto simp: lz_szdd_decompress_def szdd_start_def split: if_splits)

theorem szdd_output_bounded_witness:
  "length (the (lz_szdd_decompress True (szdd_magic @ [0, 0, 2, 0, 0, 0, 0, 0xF0, 0xFF, 0x01]))) \<le> le32 [2, 0, 0, 0, 0, 0xF0, 0xFF, 0x01]"
proof -
  let ?i = "szdd_magic @ [0, 0, 2, 0, 0, 0, 0, 0xF0, 0xFF, 0x01]"
  have "lz_szdd_decompress True ?i = Some (the (lz_szdd_decompress True ?i))"
    by (simp add: lz_szdd_decompress_def szdd_magic_def)
  from szdd_output_bounded [OF this] show ?thesis by (simp add: szdd_magic_def)
qed

section \<open>LZ handles\<close>

lemma push_args_lz [simp]: "g_lz (push_args esp vs s) = g_lz s" "files (push_args esp vs s) = files s" "fds (push_args esp vs s) = fds s"
  by (induction vs arbitrary: esp s) (auto simp: push_args.simps)

lemma lz_handle:
  assumes "i < ARET_LZ_MAX" "i < length T" "lz_used (T ! i)"
  shows "lz_idx T (ARET_LZ_BASE OR of_nat i) = Some i" "ARET_LZ_BASE OR of_nat i \<noteq> HFILE_ERROR"
proof -
  have "list_all (\<lambda>i. (ARET_LZ_BASE OR of_nat i) AND 0xFFFF0000 = ARET_LZ_BASE \<and> unat ((ARET_LZ_BASE OR of_nat i) AND 0xFFFF) = i
      \<and> ARET_LZ_BASE OR of_nat i \<noteq> HFILE_ERROR) [0..<ARET_LZ_MAX]" by code_simp
  then have "(ARET_LZ_BASE OR of_nat i) AND 0xFFFF0000 = ARET_LZ_BASE" "unat ((ARET_LZ_BASE OR of_nat i) AND 0xFFFF) = i"
    "ARET_LZ_BASE OR of_nat i \<noteq> HFILE_ERROR" using assms(1) by (simp_all add: list_all_iff)
  then show "lz_idx T (ARET_LZ_BASE OR of_nat i) = Some i" "ARET_LZ_BASE OR of_nat i \<noteq> HFILE_ERROR"
    using assms by (simp_all add: lz_idx_def)
qed

text \<open>A program that calls \<^verbatim>\<open>LZRead\<close> with one buffer and the byte counts \<open>ns\<close>, and the bytes it finds there.\<close>

definition lz_read_call :: "u32 \<Rightarrow> u32 \<Rightarrow> u32 \<Rightarrow> u32 \<Rightarrow> lzst \<Rightarrow> u8 list \<times> lzst" where
  "lz_read_call esp h dst n s = (case aret_LZRead esp (push_args esp [h, dst, n] s) of
     (r, s') \<Rightarrow> (ld_bytes (mem s') dst (unat r), s'))"

primrec lz_reads :: "u32 \<Rightarrow> u32 \<Rightarrow> u32 \<Rightarrow> u32 list \<Rightarrow> lzst \<Rightarrow> u8 list" where
  "lz_reads esp h dst [] s = []"
| "lz_reads esp h dst (n # ns) s = (case lz_read_call esp h dst n s of (bs, s') \<Rightarrow> bs @ lz_reads esp h dst ns s')"

lemma lz_read_call_live:
  assumes "lz_idx (g_lz s) h = Some i" "dst \<noteq> 0"
  obtains s' where "lz_read_call esp h dst n s = (take (unat n) (drop (lz_pos (g_lz s ! i)) (lz_buf (g_lz s ! i))), s')"
    "g_lz s' = (g_lz s)[i := (g_lz s ! i)\<lparr>lz_pos := lz_pos (g_lz s ! i) + min (unat n) (length (lz_buf (g_lz s ! i)) - lz_pos (g_lz s ! i))\<rparr>]"
proof -
  let ?e = "g_lz s ! i" and ?s = "push_args esp [h, dst, n] s"
  define want where "want = min (unat n) (length (lz_buf ?e) - lz_pos ?e)"
  let ?bs = "take want (drop (lz_pos ?e) (lz_buf ?e))"
  have w: "want < 2 ^ 32" using unsigned_less [of n, where 'a = nat] by (simp add: want_def)
  have l: "length ?bs = want" by (simp add: want_def)
  let ?r = "?s\<lparr>mem := st_bytes (mem ?s) dst ?bs, g_lz := (g_lz s)[i := ?e\<lparr>lz_pos := lz_pos ?e + want\<rparr>]\<rparr>"
  have c: "aret_LZRead esp ?s = (of_nat want, ?r)"
    using assms by (simp add: aret_LZRead_def Let_def want_def [symmetric])
  have m: "ld_bytes (mem ?r) dst (unat (of_nat want :: u32)) = ?bs"
    using ld_bytes_st_bytes [of ?bs "mem ?s" dst] l w by (simp add: unat_of_nat)
  have b: "?bs = take (unat n) (drop (lz_pos ?e) (lz_buf ?e))" by (simp add: want_def min_def)
  show ?thesis
  proof (rule that)
    show "lz_read_call esp h dst n s = (take (unat n) (drop (lz_pos ?e) (lz_buf ?e)), ?r)"
      unfolding lz_read_call_def c prod.case m b [symmetric] ..
    show "g_lz ?r = (g_lz s)[i := ?e\<lparr>lz_pos := lz_pos ?e + min (unat n) (length (lz_buf ?e) - lz_pos ?e)\<rparr>]"
      by (simp add: want_def)
  qed
qed

lemma idx_live: "lz_idx T h = Some i \<Longrightarrow> i < length T \<and> lz_used (T ! i)"
  by (auto simp: lz_idx_def Let_def split: if_splits)

lemma idx_upd: "lz_idx T h = Some i \<Longrightarrow> lz_used e \<Longrightarrow> lz_idx (T[i := e]) h = Some i"
  by (auto simp: lz_idx_def Let_def split: if_splits)

lemma lz_reads_concat:
  assumes "dst \<noteq> 0"
  shows "lz_idx (g_lz s) h = Some i \<Longrightarrow> lz_reads esp h dst ns s = take (sum_list (map unat ns)) (drop (lz_pos (g_lz s ! i)) (lz_buf (g_lz s ! i)))"
proof (induction ns arbitrary: s)
  case (Cons n ns)
  let ?e = "g_lz s ! i"
  have i: "i < length (g_lz s)" "lz_used ?e" using idx_live [OF Cons.prems] by auto
  obtain s' where r: "lz_read_call esp h dst n s = (take (unat n) (drop (lz_pos ?e) (lz_buf ?e)), s')"
    and g: "g_lz s' = (g_lz s)[i := ?e\<lparr>lz_pos := lz_pos ?e + min (unat n) (length (lz_buf ?e) - lz_pos ?e)\<rparr>]"
    by (rule lz_read_call_live [OF Cons.prems assms, of esp n])
  have "lz_idx (g_lz s') h = Some i" unfolding g using idx_upd [OF Cons.prems] i by simp
  from Cons.IH [OF this] have "lz_reads esp h dst ns s' = take (sum_list (map unat ns))
      (drop (lz_pos ?e + min (unat n) (length (lz_buf ?e) - lz_pos ?e)) (lz_buf ?e))" using i by (simp add: g)
  also have "drop (lz_pos ?e + min (unat n) (length (lz_buf ?e) - lz_pos ?e)) (lz_buf ?e) = drop (unat n) (drop (lz_pos ?e) (lz_buf ?e))"
    by (simp add: min_def add.commute)
  finally show ?case
    using r by (simp add: take_add)
qed simp

lemma lz_slurp_file:
  assumes "fds s fd = Some f" "hf_rd f" "0 \<le> fd" "files s (hf_path f) = Some raw" "length raw \<le> 0x7FFFF000"
  shows "fst (lz_slurp True True fd s) = Some (case lz_szdd_decompress True raw of Some o' \<Rightarrow> o' | None \<Rightarrow> raw)"
    "g_lz (snd (lz_slurp True True fd s)) = g_lz s" "mem (snd (lz_slurp True True fd s)) = mem s"
  using assms by (auto simp: lz_slurp_def host_lseek_def host_read_def fd_data_def Let_def split: option.splits)

lemma lz_alloc_free:
  assumes "length (g_lz s) = ARET_LZ_MAX" "i0 < ARET_LZ_MAX" "\<not> lz_used (g_lz s ! i0)"
  obtains i where "lz_alloc buf s = (Some i, s\<lparr>g_lz := (g_lz s)[i := \<lparr>lz_used = True, lz_buf = buf, lz_pos = 0\<rparr>]\<rparr>)" "i < ARET_LZ_MAX"
proof -
  obtain i where i: "first_idx (\<lambda>i. \<not> lz_used (g_lz s ! i)) 0 ARET_LZ_MAX = Some i"
    using assms(2,3) by (cases "first_idx (\<lambda>i. \<not> lz_used (g_lz s ! i)) 0 ARET_LZ_MAX") (auto simp: first_idx_None_iff)
  from first_idx_SomeD [OF i] have "i < ARET_LZ_MAX" by simp
  then show ?thesis using i by (intro that) (simp_all add: lz_alloc_def)
qed

lemma lz_new_handle:
  assumes "length (g_lz s) = ARET_LZ_MAX" "i0 < ARET_LZ_MAX" "\<not> lz_used (g_lz s ! i0)" "lz_new (Some buf, s) = (h, s1)"
  shows "\<exists>i. lz_idx (g_lz s1) h = Some i \<and> lz_buf (g_lz s1 ! i) = buf \<and> lz_pos (g_lz s1 ! i) = 0 \<and> h \<noteq> HFILE_ERROR"
proof -
  obtain i where i: "lz_alloc buf s = (Some i, s\<lparr>g_lz := (g_lz s)[i := \<lparr>lz_used = True, lz_buf = buf, lz_pos = 0\<rparr>]\<rparr>)" "i < ARET_LZ_MAX"
    by (rule lz_alloc_free [OF assms(1-3)])
  then have g: "g_lz s1 = (g_lz s)[i := \<lparr>lz_used = True, lz_buf = buf, lz_pos = 0\<rparr>]" "h = ARET_LZ_BASE OR of_nat i"
    using assms(4) by (auto simp: lz_new_def)
  show ?thesis using lz_handle [OF i(2), of "g_lz s1"] g i(2) assms(1) by auto
qed

text \<open>Opening a compressed file and reading it in pieces of any sizes delivers the expanded content,
  in order and without gaps, up to the bytes asked for.\<close>

theorem lz_open_read:
  assumes "translate_path prefix (opt_str (mem s) (WU esp 0 s)) 1024 = Some path"
    and "files s path = Some (szdd_file mode missing ts)" "length (szdd_file mode missing ts) \<le> 0x7FFFF000"
    and "list_all tok_ok ts" "length (lz77 ts []) < 2 ^ 32" "0 \<le> fd"
    and "length (g_lz s) = ARET_LZ_MAX" "i0 < ARET_LZ_MAX" "\<not> lz_used (g_lz s ! i0)"
    and "aret_LZOpenFileA True True prefix fd esp s = Some (h, s1)" "dst \<noteq> 0"
  shows "h \<noteq> HFILE_ERROR \<and> lz_reads sp h dst ns s1 = take (sum_list (map unat ns)) (lz77 ts [])"
proof -
  let ?f = "\<lparr>hf_path = path, hf_off = 0, hf_rd = True, hf_wr = False\<rparr>"
  let ?s = "s\<lparr>fds := (fds s)(fd \<mapsto> ?f)\<rparr>"
  have o: "host_open fd True False path s = (fd, ?s)" using assms(2,6) by (simp add: host_open_def)
  obtain res s2 where sl: "lz_slurp True True fd ?s = (res, s2)" by (cases "lz_slurp True True fd ?s")
  then have r: "res = Some (lz77 ts [])" "g_lz s2 = g_lz s"
    using lz_slurp_file [of ?s fd ?f "szdd_file mode missing ts"] assms(2,3,6) szdd_roundtrip [OF assms(4,5), of mode missing] by simp_all
  let ?c = "snd (host_close fd s2)"
  have gc: "g_lz ?c = g_lz s" using r by (simp add: host_close_def)
  obtain h' s3 where n: "lz_new (Some (lz77 ts []), ?c) = (h', s3)" by (cases "lz_new (Some (lz77 ts []), ?c)")
  obtain i where i: "lz_idx (g_lz s3) h' = Some i" "lz_buf (g_lz s3 ! i) = lz77 ts []" "lz_pos (g_lz s3 ! i) = 0" "h' \<noteq> HFILE_ERROR"
    using lz_new_handle [OF _ assms(8) _ n] gc assms(7,9) by auto
  have "h = h'" "g_lz s1 = g_lz s3"
    using assms(1,6,10) o sl r n i(4) by (auto simp: aret_LZOpenFileA_def Let_def split: if_splits)
  then show ?thesis using i lz_reads_concat [OF assms(11), of s1 h i sp ns] by simp
qed

lemma enc_toks_length: "length (enc_toks ts o') \<le> 2 * length ts"
  by (induction ts o' rule: enc_toks.induct) (auto simp: Let_def)

lemma enc_blocks_length: "length (enc_blocks ts o') \<le> 3 * length ts"
proof (induction ts o' rule: enc_blocks.induct)
  case (1 ts o')
  show ?case
  proof (cases "ts = []")
    case False
    have "length (take 8 ts) + length (drop 8 ts) = length ts" "1 \<le> length (take 8 ts)" using False by (simp_all add: Suc_le_eq)
    then show ?thesis using 1 [OF False] enc_toks_length [of "take 8 ts" o'] False by (subst enc_blocks.simps) (simp del: length_take length_drop length_greater_0_conv One_nat_def)
  qed (simp add: enc_blocks.simps)
qed

definition lz_demo_mem :: guest_mem where
  "lz_demo_mem = st_bytes (st32 (\<lambda>_. 0) 0x100 0x2000) 0x2000 [0x66]"

definition lz_state :: lzst where
  "lz_state = \<lparr>mem = lz_demo_mem, g_last_error = 0, files = [[0x66] \<mapsto> szdd_file 0x41 0x65 lz_demo],
     fds = (\<lambda>_. None), g_lz = replicate ARET_LZ_MAX \<lparr>lz_used = False, lz_buf = [], lz_pos = 0\<rparr>\<rparr>"

theorem lz_open_read_witness:
  "lz_reads 0x100 (fst (the (aret_LZOpenFileA True True [] 3 0x100 lz_state))) 0x3000 [2, 3, 4]
     (snd (the (aret_LZOpenFileA True True [] 3 0x100 lz_state))) = [0x61, 0x62, 0x61, 0x62, 0x61, 0x62, 0x61, 0x20, 0x20]"
proof -
  let ?r = "the (aret_LZOpenFileA True True [] 3 0x100 lz_state)"
  have p: "translate_path [] (opt_str (mem lz_state) (WU 0x100 0 lz_state)) 1024 = Some [0x66]"
  proof -
    have "opt_str lz_demo_mem (ld32 lz_demo_mem 0x100) = Some [0x66]" by code_simp
    then show ?thesis by (simp add: translate_path_def Let_def WU_def lz_state_def)
  qed
  have f: "files lz_state [0x66] = Some (szdd_file 0x41 0x65 lz_demo)" by (simp add: lz_state_def)
  have "length (enc_blocks lz_demo []) \<le> 50" using enc_blocks_length [of lz_demo "[]"] by (simp add: lz_demo_def)
  moreover have "length (lz77 lz_demo []) < 50" by code_simp
  ultimately have b: "length (szdd_file 0x41 0x65 lz_demo) \<le> 0x7FFFF000" "length (lz77 lz_demo []) < 2 ^ 32"
    by (simp_all add: szdd_file_def szdd_magic_def enc_le32_def)
  have l: "list_all tok_ok lz_demo" "take (sum_list (map unat [2, 3, 4 :: u32])) (lz77 lz_demo []) = [0x61, 0x62, 0x61, 0x62, 0x61, 0x62, 0x61, 0x20, 0x20]" by code_simp+
  have g: "length (g_lz lz_state) = ARET_LZ_MAX" "0 < ARET_LZ_MAX" "\<not> lz_used (g_lz lz_state ! 0)"
    by (simp_all add: lz_state_def ARET_LZ_MAX_def)
  have o: "aret_LZOpenFileA True True [] 3 0x100 lz_state = Some (fst ?r, snd ?r)"
    using p by (auto simp: aret_LZOpenFileA_def Let_def split: prod.splits)
  show ?thesis using lz_open_read [OF p f b(1) l(1) b(2) _ g o, of "0x3000" "0x100" "[2, 3, 4]"] l(2) by simp
qed

lemma c_int_wrap: assumes "2 ^ 31 \<le> x" "x < 2 ^ 32" shows "c_int x = x - 2 ^ 32"
proof -
  have "(word_of_int (x - 2 ^ 32) :: u32) = word_of_int x" by (simp add: word_of_int_eq_iff take_bit_eq_mod)
  then have "c_int x = c_int (x - 2 ^ 32)" unfolding c_int_def by (simp only:)
  then show ?thesis using assms by (simp add: c_int_id)
qed

text \<open>A seek moves to the target clamped to the content, except that a target of 2 GB or more, which
  the 32-bit sum cannot hold, rewinds to the start instead of going to the end.\<close>

theorem lz_seek_exact:
  assumes "lz_idx (g_lz s) (WU esp 0 s) = Some i" "e = g_lz s ! i" "length (lz_buf e) < 2 ^ 31" "lz_pos e \<le> length (lz_buf e)"
    and t: "t = (if WI esp 2 s = 1 then int (lz_pos e) else if WI esp 2 s = 2 then int (length (lz_buf e)) else 0) + WI esp 1 s"
  shows "aret_LZSeek esp s = (let np = (if t < 2 ^ 31 then max 0 (min (int (length (lz_buf e))) t) else 0)
    in (word_of_int np, s\<lparr>g_lz := (g_lz s)[i := e\<lparr>lz_pos := nat np\<rparr>]\<rparr>))"
proof -
  define base where "base = (if WI esp 2 s = 1 then int (lz_pos e) else if WI esp 2 s = 2 then int (length (lz_buf e)) else 0)"
  have o: "- (2 ^ 31) \<le> WI esp 1 s" "WI esp 1 s < 2 ^ 31"
    using sint_range_size [of "WU esp 1 s"] by (simp_all add: WI_def word_size)
  have b: "0 \<le> base" "base < 2 ^ 31" using assms(3,4) by (auto simp: base_def)
  have t': "t = base + WI esp 1 s" using t by (simp add: base_def)
  have c: "c_int (int (length (lz_buf e))) = int (length (lz_buf e))" "c_int (int (lz_pos e)) = int (lz_pos e)"
    using assms(3,4) by (simp_all add: c_int_id)
  have n: "c_int t = (if t < 2 ^ 31 then t else t - 2 ^ 32)" using b o t' by (simp add: c_int_id c_int_wrap)
  have "t < 2 ^ 32" using b o t' by simp
  then have cl: "(let np = c_int t; np = if np < 0 then 0 else np in if int (length (lz_buf e)) < np then int (length (lz_buf e)) else np)
      = (if t < 2 ^ 31 then max 0 (min (int (length (lz_buf e))) t) else 0)"
    unfolding n Let_def by auto
  show ?thesis
    using cl by (simp only: aret_LZSeek_def assms(1) option.case Let_def assms(2) [symmetric] c t [symmetric])
qed

definition lz_seek_state :: lzst where
  "lz_seek_state = push_args 0x100 [ARET_LZ_BASE, 0x7FFFFFFF, 1]
     \<lparr>mem = (\<lambda>_. 0), g_last_error = 0, files = (\<lambda>_. None), fds = (\<lambda>_. None),
      g_lz = [\<lparr>lz_used = True, lz_buf = [1, 2, 3], lz_pos = 2\<rparr>]\<rparr>"

theorem lz_seek_exact_witness: "fst (aret_LZSeek 0x100 lz_seek_state) = 0"
proof -
  have a: "WU 0x100 0 lz_seek_state = ARET_LZ_BASE" "WI 0x100 1 lz_seek_state = 0x7FFFFFFF" "WI 0x100 2 lz_seek_state = 1"
    by (simp_all add: lz_seek_state_def WI_def)
  have g: "g_lz lz_seek_state = [\<lparr>lz_used = True, lz_buf = [1, 2, 3], lz_pos = 2\<rparr>]" by (simp add: lz_seek_state_def)
  have i: "lz_idx (g_lz lz_seek_state) (WU 0x100 0 lz_seek_state) = Some 0" by (simp add: a g lz_idx_def ARET_LZ_BASE_def)
  show ?thesis using lz_seek_exact [OF i refl _ _ refl] by (simp add: a g Let_def del: One_nat_def)
qed

end
