(* ===== verification/Aret_Menus.thy ===== *)
theory Aret_Menus
  imports Aret_Prelude
begin

text \<open>
  The USER32 menus of \<^verbatim>\<open>aret_win32.c\<close>: a table of menus, each an array of items of which the first
  \<^verbatim>\<open>count\<close> are live, and the menu handles of the windows. The arrays are lists of their full
  length, so what a slot holds past the count is part of the state as it is in the code.
  The abstraction to the list of live items and the refinement of the editing calls follow.
\<close>

section \<open>State\<close>

definition U32_MENU_BASE :: u32 where "U32_MENU_BASE = 0x40000000"

definition U32_MAX_MENUS :: nat where "U32_MAX_MENUS = 128"

definition U32_MAX_MITEMS :: nat where "U32_MAX_MITEMS = 64"

record mitem =
  mi_id :: u32
  mi_flags :: u32
  mi_submenu :: u32
  mi_bmp_unchecked :: u32
  mi_bmp_checked :: u32
  mi_text :: "u8 list"

record u32_menu =
  mn_used :: bool
  mn_count :: nat
  mn_it :: "mitem list"

text \<open>The state; \<^verbatim>\<open>win_used\<close> are the \<^verbatim>\<open>used\<close> flags of the window table, which the menu bars hang on.\<close>

record menus = hle +
  g_u32_menu :: "u32_menu list"
  g_u32_wmenu :: "u32 list"
  g_u32_wsysmenu :: "u32 list"
  win_used :: "bool list"

definition mitem_zero :: mitem where
  "mitem_zero = \<lparr>mi_id = 0, mi_flags = 0, mi_submenu = 0, mi_bmp_unchecked = 0, mi_bmp_checked = 0, mi_text = []\<rparr>"

definition upd_menu :: "nat \<Rightarrow> (u32_menu \<Rightarrow> u32_menu) \<Rightarrow> menus \<Rightarrow> menus" where
  "upd_menu i f s = s\<lparr>g_u32_menu := (g_u32_menu s)[i := f (g_u32_menu s ! i)]\<rparr>"

definition u32_menu_idx :: "u32_menu list \<Rightarrow> u32 \<Rightarrow> nat option" where
  "u32_menu_idx M h = (if h AND 0xFF000000 \<noteq> U32_MENU_BASE then None
     else let i = unat (h AND 0x00FFFFFF) in if i < length M \<and> mn_used (M ! i) then Some i else None)"

definition u32_menu_new :: "menus \<Rightarrow> u32 \<times> menus" where
  "u32_menu_new s = (case first_idx (\<lambda>i. \<not> mn_used (g_u32_menu s ! i)) 1 U32_MAX_MENUS of
       Some i \<Rightarrow> (U32_MENU_BASE OR of_nat i, upd_menu i (\<lambda>_. \<lparr>mn_used = True, mn_count = 0, mn_it = replicate U32_MAX_MITEMS mitem_zero\<rparr>) s)
     | None \<Rightarrow> (0, s))"

text \<open>By position (\<^verbatim>\<open>MF_BYPOSITION\<close>) or the first item with the command id.\<close>

definition u32_menu_find :: "u32_menu \<Rightarrow> u32 \<Rightarrow> u32 \<Rightarrow> nat option" where
  "u32_menu_find m item flags = (if flags AND 0x400 \<noteq> 0
     then if unat item < mn_count m then Some (unat item) else None
     else first_idx (\<lambda>k. mi_id (mn_it m ! k) = item) 0 (mn_count m))"

text \<open>What \<^verbatim>\<open>u32_menu_setitem\<close> stores in a slot; the bitmaps of the slot stay.\<close>

definition setitem :: "u32 \<Rightarrow> u32 \<Rightarrow> u8 list option \<Rightarrow> mitem \<Rightarrow> mitem" where
  "setitem flags idOrSub text it = it\<lparr>mi_flags := flags AND NOT 0x400, mi_id := idOrSub,
     mi_submenu := (if flags AND 0x10 \<noteq> 0 then idOrSub else 0),
     mi_text := (case text of Some t \<Rightarrow> if flags AND (0x800 OR 0x4 OR 0x100) = 0 then take 127 t else [] | None \<Rightarrow> [])\<rparr>"

definition u32_menu_setitem :: "nat \<Rightarrow> nat \<Rightarrow> u32 \<Rightarrow> u32 \<Rightarrow> u8 list option \<Rightarrow> menus \<Rightarrow> menus" where
  "u32_menu_setitem mi slot flags idOrSub text s =
     upd_menu mi (\<lambda>m. m\<lparr>mn_it := (mn_it m)[slot := setitem flags idOrSub text (mn_it m ! slot)]\<rparr>) s"

section \<open>Creating and editing\<close>

definition menu_text :: "guest_mem \<Rightarrow> u32 \<Rightarrow> u8 list option" where
  "menu_text m p = (if p = 0 then None else Some (cstr m p))"

text \<open>The narrow copy \<^verbatim>\<open>t\<close> of a wide text, empty for an item without one.\<close>

definition wide_text :: "guest_mem \<Rightarrow> u32 \<Rightarrow> u32 \<Rightarrow> u8 list option" where
  "wide_text m flags p = Some (if flags AND (0x800 OR 0x4 OR 0x100) = 0 then w2n_at m p 128 else [])"

definition aret_CreateMenu :: "u32 \<Rightarrow> menus \<Rightarrow> u32 \<times> menus" where
  "aret_CreateMenu esp s = u32_menu_new s"

definition aret_CreatePopupMenu :: "u32 \<Rightarrow> menus \<Rightarrow> u32 \<times> menus" where
  "aret_CreatePopupMenu esp s = u32_menu_new s"

definition with_menu :: "u32 \<Rightarrow> u32 \<Rightarrow> menus \<Rightarrow> (nat \<Rightarrow> u32 \<times> menus) \<Rightarrow> u32 \<times> menus" where
  "with_menu h e s f = (case u32_menu_idx (g_u32_menu s) h of None \<Rightarrow> (e, s) | Some i \<Rightarrow> f i)"

text \<open>The menu of argument 0 and the item of argument 1, found with the flags \<open>fl\<close>.\<close>

definition with_item :: "u32 \<Rightarrow> u32 \<Rightarrow> u32 \<Rightarrow> u32 \<Rightarrow> menus \<Rightarrow> (nat \<Rightarrow> nat \<Rightarrow> u32 \<times> menus) \<Rightarrow> u32 \<times> menus" where
  "with_item h item fl e s f = with_menu h e s (\<lambda>i.
     case u32_menu_find (g_u32_menu s ! i) item fl of None \<Rightarrow> (e, s) | Some k \<Rightarrow> f i k)"

definition aret_DestroyMenu :: "u32 \<Rightarrow> menus \<Rightarrow> u32 \<times> menus" where
  "aret_DestroyMenu esp s = with_menu (WU esp 0 s) 0 s (\<lambda>i. (1, upd_menu i (\<lambda>m. m\<lparr>mn_used := False\<rparr>) s))"

definition append_item :: "u32 \<Rightarrow> u32 \<Rightarrow> u32 \<Rightarrow> u8 list option \<Rightarrow> menus \<Rightarrow> u32 \<times> menus" where
  "append_item h flags idOrSub text s = with_menu h 0 s (\<lambda>i. let c = mn_count (g_u32_menu s ! i) in
     if c \<ge> U32_MAX_MITEMS then (0, s)
     else (1, u32_menu_setitem i c flags idOrSub text (upd_menu i (\<lambda>m. m\<lparr>mn_count := c + 1\<rparr>) s)))"

definition aret_AppendMenuA :: "u32 \<Rightarrow> menus \<Rightarrow> u32 \<times> menus" where
  "aret_AppendMenuA esp s = append_item (WU esp 0 s) (WU esp 1 s) (WU esp 2 s) (menu_text (mem s) (WU esp 3 s)) s"

definition aret_AppendMenuW :: "u32 \<Rightarrow> menus \<Rightarrow> u32 \<times> menus" where
  "aret_AppendMenuW esp s = append_item (WU esp 0 s) (WU esp 1 s) (WU esp 2 s) (wide_text (mem s) (WU esp 1 s) (WU esp 3 s)) s"

text \<open>The two moving loops of the insertion and the deletion, slot by slot.\<close>

definition shift_up :: "nat \<Rightarrow> nat \<Rightarrow> mitem list \<Rightarrow> mitem list" where
  "shift_up at c xs = fold (\<lambda>k xs. xs[k := xs ! (k - 1)]) (rev [Suc at..<Suc c]) xs"

definition shift_down :: "nat \<Rightarrow> nat \<Rightarrow> mitem list \<Rightarrow> mitem list" where
  "shift_down at c xs = fold (\<lambda>k xs. xs[k := xs ! (k + 1)]) [at..<c - 1] xs"

definition aret_InsertMenuA :: "u32 \<Rightarrow> menus \<Rightarrow> u32 \<times> menus" where
  "aret_InsertMenuA esp s = with_menu (WU esp 0 s) 0 s (\<lambda>i. let m = g_u32_menu s ! i; c = mn_count m in
     if c \<ge> U32_MAX_MITEMS then (0, s)
     else let at = (case u32_menu_find m (WU esp 1 s) (WU esp 2 s) of None \<Rightarrow> c | Some k \<Rightarrow> k)
       in (1, u32_menu_setitem i at (WU esp 2 s) (WU esp 3 s) (menu_text (mem s) (WU esp 4 s))
              (upd_menu i (\<lambda>m. m\<lparr>mn_it := shift_up at c (mn_it m), mn_count := c + 1\<rparr>) s)))"

definition aret_DeleteMenu :: "u32 \<Rightarrow> menus \<Rightarrow> u32 \<times> menus" where
  "aret_DeleteMenu esp s = with_item (WU esp 0 s) (WU esp 1 s) (WU esp 2 s) 0 s (\<lambda>i at.
     (1, upd_menu i (\<lambda>m. m\<lparr>mn_it := shift_down at (mn_count m) (mn_it m), mn_count := mn_count m - 1\<rparr>) s))"

definition aret_RemoveMenu :: "u32 \<Rightarrow> menus \<Rightarrow> u32 \<times> menus" where
  "aret_RemoveMenu esp s = aret_DeleteMenu esp s"

definition aret_GetMenuItemCount :: "u32 \<Rightarrow> menus \<Rightarrow> u32 \<times> menus" where
  "aret_GetMenuItemCount esp s = with_menu (WU esp 0 s) 0xFFFFFFFF s (\<lambda>i. (of_nat (mn_count (g_u32_menu s ! i)), s))"

section \<open>Item state\<close>

definition upd_item :: "nat \<Rightarrow> nat \<Rightarrow> (mitem \<Rightarrow> mitem) \<Rightarrow> menus \<Rightarrow> menus" where
  "upd_item i k f s = upd_menu i (\<lambda>m. m\<lparr>mn_it := (mn_it m)[k := f (mn_it m ! k)]\<rparr>) s"

text \<open>\<^verbatim>\<open>EnableMenuItem\<close> and \<^verbatim>\<open>CheckMenuItem\<close>: replace the bits of \<open>msk\<close>, answer the old ones.\<close>

definition put_flags :: "u32 \<Rightarrow> u32 \<Rightarrow> menus \<Rightarrow> u32 \<times> menus" where
  "put_flags msk esp s = with_item (WU esp 0 s) (WU esp 1 s) (WU esp 2 s) 0xFFFFFFFF s (\<lambda>i k.
     (mi_flags (mn_it (g_u32_menu s ! i) ! k) AND msk,
      upd_item i k (\<lambda>it. it\<lparr>mi_flags := (mi_flags it AND NOT msk) OR (WU esp 2 s AND msk)\<rparr>) s))"

definition aret_EnableMenuItem :: "u32 \<Rightarrow> menus \<Rightarrow> u32 \<times> menus" where
  "aret_EnableMenuItem esp s = put_flags 0x3 esp s"

definition aret_CheckMenuItem :: "u32 \<Rightarrow> menus \<Rightarrow> u32 \<times> menus" where
  "aret_CheckMenuItem esp s = put_flags 0x8 esp s"

definition aret_GetMenuState :: "u32 \<Rightarrow> menus \<Rightarrow> u32 \<times> menus" where
  "aret_GetMenuState esp s = with_item (WU esp 0 s) (WU esp 1 s) (WU esp 2 s) 0xFFFFFFFF s (\<lambda>i k.
     let it = mn_it (g_u32_menu s ! i) ! k; f = mi_flags it in
     if f AND 0x10 \<noteq> 0 then
       let cnt = (case u32_menu_idx (g_u32_menu s) (mi_submenu it) of None \<Rightarrow> 0 | Some j \<Rightarrow> of_nat (mn_count (g_u32_menu s ! j)))
       in (push_bit 16 cnt OR (f AND 0xFFFF), s)
     else (f AND 0xFFFF, s))"

text \<open>The text of an item; without an item an empty string is stored, without a buffer the length is answered.\<close>

definition item_text :: "u32 \<Rightarrow> menus \<Rightarrow> u8 list option" where
  "item_text esp s = (case u32_menu_idx (g_u32_menu s) (WU esp 0 s) of None \<Rightarrow> None
     | Some i \<Rightarrow> map_option (\<lambda>k. mi_text (mn_it (g_u32_menu s ! i) ! k)) (u32_menu_find (g_u32_menu s ! i) (WU esp 1 s) (WU esp 4 s)))"

definition aret_GetMenuStringA :: "u32 \<Rightarrow> menus \<Rightarrow> u32 \<times> menus" where
  "aret_GetMenuStringA esp s = (let buf = WU esp 2 s; cch = WU esp 3 s in
     case item_text esp s of None \<Rightarrow> (0, if buf \<noteq> 0 \<and> cch \<noteq> 0 then s\<lparr>mem := (mem s)(buf := 0)\<rparr> else s)
     | Some t \<Rightarrow> if buf = 0 \<or> cch = 0 then (of_nat (length t), s)
         else let v = take (unat cch - 1) t in (of_nat (length v), s\<lparr>mem := st_bytes (mem s) buf (v @ [0])\<rparr>))"

definition aret_GetMenuStringW :: "u32 \<Rightarrow> menus \<Rightarrow> u32 \<times> menus" where
  "aret_GetMenuStringW esp s = (let buf = WU esp 2 s; cch = WU esp 3 s in
     case item_text esp s of None \<Rightarrow> (0, if buf \<noteq> 0 \<and> cch \<noteq> 0 then s\<lparr>mem := st16 (mem s) buf 0\<rparr> else s)
     | Some t \<Rightarrow> if buf = 0 \<or> cch = 0 then (of_nat (length t), s)
         else let v = take (unat cch - 1) t
           in (of_nat (length v), s\<lparr>mem := st_bytes (mem s) buf (concat (map (\<lambda>c. [c, 0]) (v @ [0])))\<rparr>))"

text \<open>The item at position \<open>WI 1\<close>, without a lookup.\<close>

definition at_pos :: "u32 \<Rightarrow> u32 \<Rightarrow> menus \<Rightarrow> (mitem \<Rightarrow> u32) \<Rightarrow> u32 \<times> menus" where
  "at_pos esp e s f = with_menu (WU esp 0 s) e s (\<lambda>i. let p = WI esp 1 s; m = g_u32_menu s ! i in
     (if p < 0 \<or> p \<ge> int (mn_count m) then e else f (mn_it m ! nat p), s))"

definition aret_GetSubMenu :: "u32 \<Rightarrow> menus \<Rightarrow> u32 \<times> menus" where
  "aret_GetSubMenu esp s = at_pos esp 0 s (\<lambda>it. if mi_flags it AND 0x10 \<noteq> 0 then mi_submenu it else 0)"

definition aret_GetMenuItemID :: "u32 \<Rightarrow> menus \<Rightarrow> u32 \<times> menus" where
  "aret_GetMenuItemID esp s = at_pos esp 0xFFFFFFFF s (\<lambda>it. if mi_flags it AND 0x10 \<noteq> 0 then 0xFFFFFFFF else mi_id it)"

definition aret_ModifyMenuA :: "u32 \<Rightarrow> menus \<Rightarrow> u32 \<times> menus" where
  "aret_ModifyMenuA esp s = with_item (WU esp 0 s) (WU esp 1 s) (WU esp 2 s) 0 s (\<lambda>i k.
     (1, u32_menu_setitem i k (WU esp 2 s) (WU esp 3 s) (menu_text (mem s) (WU esp 4 s)) s))"

definition aret_ModifyMenuW :: "u32 \<Rightarrow> menus \<Rightarrow> u32 \<times> menus" where
  "aret_ModifyMenuW esp s = with_item (WU esp 0 s) (WU esp 1 s) (WU esp 2 s) 0 s (\<lambda>i k.
     (1, u32_menu_setitem i k (WU esp 2 s) (WU esp 3 s) (wide_text (mem s) (WU esp 2 s) (WU esp 4 s)) s))"

definition aret_SetMenuItemBitmaps :: "u32 \<Rightarrow> menus \<Rightarrow> u32 \<times> menus" where
  "aret_SetMenuItemBitmaps esp s = with_item (WU esp 0 s) (WU esp 1 s) (WU esp 2 s) 0 s (\<lambda>i k.
     (1, upd_item i k (\<lambda>it. it\<lparr>mi_bmp_unchecked := WU esp 3 s, mi_bmp_checked := WU esp 4 s\<rparr>) s))"

definition aret_GetMenuCheckMarkDimensions :: "u32 \<Rightarrow> menus \<Rightarrow> u32 \<times> menus" where
  "aret_GetMenuCheckMarkDimensions esp s = (push_bit 16 13 OR 13, s)"

section \<open>Menus of windows\<close>

definition u32_win_idx :: "bool list \<Rightarrow> u32 \<Rightarrow> nat option" where
  "u32_win_idx W hwnd = (if hwnd \<ge> 1 \<and> unat hwnd \<le> length W \<and> W ! (unat hwnd - 1) then Some (unat hwnd - 1) else None)"

definition aret_GetMenu :: "u32 \<Rightarrow> menus \<Rightarrow> u32 \<times> menus" where
  "aret_GetMenu esp s = (case u32_win_idx (win_used s) (WU esp 0 s) of None \<Rightarrow> 0 | Some i \<Rightarrow> g_u32_wmenu s ! i, s)"

definition aret_SetMenu :: "u32 \<Rightarrow> menus \<Rightarrow> u32 \<times> menus" where
  "aret_SetMenu esp s = (case u32_win_idx (win_used s) (WU esp 0 s) of None \<Rightarrow> (0, s)
     | Some i \<Rightarrow> (1, s\<lparr>g_u32_wmenu := (g_u32_wmenu s)[i := WU esp 1 s]\<rparr>))"

definition sys_items :: "(u32 \<times> string) list" where
  "sys_items = [(0xF120, ''&Restore''), (0xF010, ''&Move''), (0xF000, ''&Size''),
     (0xF020, ''Mi&nimize''), (0xF030, ''Ma&ximize''), (0xF060, ''&Close'')]"

definition aret_GetSystemMenu :: "u32 \<Rightarrow> menus \<Rightarrow> u32 \<times> menus" where
  "aret_GetSystemMenu esp s = (case u32_win_idx (win_used s) (WU esp 0 s) of None \<Rightarrow> (0, s)
     | Some i \<Rightarrow>
       if WU esp 1 s \<noteq> 0 then
         if g_u32_wsysmenu s ! i = 0 then (0, s)
         else (0, (case u32_menu_idx (g_u32_menu s) (g_u32_wsysmenu s ! i) of None \<Rightarrow> s
             | Some mi \<Rightarrow> upd_menu mi (\<lambda>m. m\<lparr>mn_used := False\<rparr>) s)\<lparr>g_u32_wsysmenu := (g_u32_wsysmenu s)[i := 0]\<rparr>)
       else if g_u32_wsysmenu s ! i \<noteq> 0 then (g_u32_wsysmenu s ! i, s)
       else case u32_menu_new s of (h, s) \<Rightarrow>
         let s = (case u32_menu_idx (g_u32_menu s) h of None \<Rightarrow> s
               | Some mi \<Rightarrow> fold (\<lambda>(c, t) s. let k = mn_count (g_u32_menu s ! mi) in
                   u32_menu_setitem mi k 0 c (Some (map of_char t)) (upd_menu mi (\<lambda>m. m\<lparr>mn_count := k + 1\<rparr>) s)) sys_items s);
             s = s\<lparr>g_u32_wsysmenu := (g_u32_wsysmenu s)[i := h]\<rparr>
         in (g_u32_wsysmenu s ! i, s))"

definition aret_TrackPopupMenu :: "u32 \<Rightarrow> menus \<Rightarrow> u32 \<times> menus" where
  "aret_TrackPopupMenu esp s = (0, s)"

definition aret_TrackPopupMenuEx :: "u32 \<Rightarrow> menus \<Rightarrow> u32 \<times> menus" where
  "aret_TrackPopupMenuEx esp s = (0, s)"

section \<open>A menu is a list of items\<close>

text \<open>What a program can see of an item: id, flags, submenu and text.\<close>

type_synonym aitem = "u32 \<times> u32 \<times> u32 \<times> u8 list"

definition view :: "mitem \<Rightarrow> aitem" where
  "view it = (mi_id it, mi_flags it, mi_submenu it, mi_text it)"

definition menu_abs :: "u32_menu \<Rightarrow> aitem list" where
  "menu_abs m = map view (take (mn_count m) (mn_it m))"

definition menu_ok :: "u32_menu \<Rightarrow> bool" where
  "menu_ok m \<longleftrightarrow> mn_count m \<le> U32_MAX_MITEMS \<and> length (mn_it m) = U32_MAX_MITEMS"

text \<open>The abstract operations, on lists.\<close>

definition a_item :: "u32 \<Rightarrow> u32 \<Rightarrow> u8 list option \<Rightarrow> aitem" where
  "a_item flags idOrSub text = view (setitem flags idOrSub text mitem_zero)"

definition a_find :: "aitem list \<Rightarrow> u32 \<Rightarrow> u32 \<Rightarrow> nat option" where
  "a_find xs item flags = (if flags AND 0x400 \<noteq> 0 then if unat item < length xs then Some (unat item) else None
     else first_idx (\<lambda>k. fst (xs ! k) = item) 0 (length xs))"

definition a_insert :: "nat \<Rightarrow> aitem \<Rightarrow> aitem list \<Rightarrow> aitem list" where
  "a_insert at x xs = take at xs @ x # drop at xs"

definition a_delete :: "nat \<Rightarrow> aitem list \<Rightarrow> aitem list" where
  "a_delete at xs = take at xs @ drop (Suc at) xs"

interpretation mnh: handle_space U32_MENU_BASE mn_used u32_menu_idx
  by unfold_locales (simp_all add: U32_MENU_BASE_def u32_menu_idx_def)

lemma menu_abs_length: "menu_ok m \<Longrightarrow> length (menu_abs m) = mn_count m"
  by (simp add: menu_abs_def menu_ok_def)

lemma menu_abs_nth: "menu_ok m \<Longrightarrow> k < mn_count m \<Longrightarrow> menu_abs m ! k = view (mn_it m ! k)"
  by (simp add: menu_abs_def menu_ok_def)

lemma view_setitem: "view (setitem f c t it) = a_item f c t"
  by (simp add: view_def setitem_def a_item_def)

lemma find_refines: assumes "menu_ok m" shows "u32_menu_find m item flags = a_find (menu_abs m) item flags"
proof -
  have "first_idx (\<lambda>k. mi_id (mn_it m ! k) = item) 0 (mn_count m) = first_idx (\<lambda>k. fst (menu_abs m ! k) = item) 0 (mn_count m)"
    by (rule first_idx_cong) (simp add: menu_abs_nth [OF assms] view_def)
  then show ?thesis by (simp add: u32_menu_find_def a_find_def menu_abs_length [OF assms])
qed

lemma find_bound: "u32_menu_find m item flags = Some k \<Longrightarrow> k < mn_count m"
  by (auto simp: u32_menu_find_def first_idx_Some_iff split: if_splits)

lemma length_shift [simp]: "length (shift_up at c xs) = length xs" "length (shift_down at c xs) = length xs"
proof -
  have "length (fold (\<lambda>k xs. xs[k := xs ! g k]) ks xs) = length xs" for g ks and xs :: "mitem list"
    by (induction ks arbitrary: xs) auto
  note l = this
  show "length (shift_up at c xs) = length xs" "length (shift_down at c xs) = length xs"
    unfolding shift_up_def shift_down_def by (rule l)+
qed

lemma shift_up_nth:
  "c < length xs \<Longrightarrow> at \<le> c \<Longrightarrow> j < length xs \<Longrightarrow> shift_up at c xs ! j = (if at < j \<and> j \<le> c then xs ! (j - 1) else xs ! j)"
proof (induction c arbitrary: xs)
  case (Suc c)
  show ?case
  proof (cases "at = Suc c")
    case True
    then show ?thesis by (auto simp: shift_up_def)
  next
    case False
    then have "shift_up at (Suc c) xs = shift_up at c (xs[Suc c := xs ! c])" using Suc.prems by (simp add: shift_up_def)
    moreover have "shift_up at c (xs[Suc c := xs ! c]) ! j =
        (if at < j \<and> j \<le> c then xs[Suc c := xs ! c] ! (j - 1) else xs[Suc c := xs ! c] ! j)"
      by (rule Suc.IH) (use False Suc.prems in simp_all)
    ultimately show ?thesis using False Suc.prems by (auto simp: nth_list_update)
  qed
qed (simp add: shift_up_def)

lemma shift_down_nth:
  "c \<le> length xs \<Longrightarrow> j < length xs \<Longrightarrow> shift_down at c xs ! j = (if at \<le> j \<and> j < c - 1 then xs ! (j + 1) else xs ! j)"
proof -
  have "n < length xs \<Longrightarrow> j < length xs \<Longrightarrow>
      fold (\<lambda>k xs. xs[k := xs ! (k + 1)]) [at..<n] xs ! j = (if at \<le> j \<and> j < n then xs ! (j + 1) else xs ! j)" for n j
  proof (induction n arbitrary: j)
    case (Suc n)
    have l: "length (fold (\<lambda>k xs. xs[k := xs ! (k + 1)]) [at..<n] xs) = length xs"
      using length_shift(2) [of at "Suc n" xs] by (simp add: shift_down_def)
    show ?case using Suc.IH [of j] Suc.IH [of "Suc n"] Suc.prems l by (auto simp: nth_list_update)
  qed simp
  from this [of "c - 1" j] show "c \<le> length xs \<Longrightarrow> j < length xs \<Longrightarrow> ?thesis" by (cases c) (simp_all add: shift_down_def)
qed

lemma abs_insert:
  assumes "menu_ok m" "at \<le> mn_count m" "mn_count m < U32_MAX_MITEMS"
    and "m' = m\<lparr>mn_count := Suc (mn_count m), mn_it := (shift_up at (mn_count m) (mn_it m))[at := it]\<rparr>"
  shows "menu_abs m' = a_insert at (view it) (menu_abs m)" "menu_ok m'"
proof -
  show ok: "menu_ok m'" using assms by (simp add: menu_ok_def)
  show "menu_abs m' = a_insert at (view it) (menu_abs m)"
  proof (rule nth_equalityI)
    show l: "length (menu_abs m') = length (a_insert at (view it) (menu_abs m))"
      using assms ok by (simp add: menu_abs_length a_insert_def)
    fix j assume "j < length (menu_abs m')"
    then have j: "j < Suc (mn_count m)" "j < length (mn_it m)" using assms ok by (simp_all add: menu_abs_length menu_ok_def)
    have "menu_abs m' ! j = view ((shift_up at (mn_count m) (mn_it m))[at := it] ! j)"
      using menu_abs_nth [OF ok, of j] j assms(4) by simp
    moreover have "at < length (mn_it m)" using assms by (simp add: menu_ok_def)
    ultimately show "menu_abs m' ! j = a_insert at (view it) (menu_abs m) ! j"
      using assms j by (cases "j < at"; cases "j = at")
        (auto simp: a_insert_def menu_abs_nth menu_abs_length nth_append shift_up_nth menu_ok_def nth_Cons')
  qed
qed

lemma abs_delete:
  assumes "menu_ok m" "at < mn_count m"
    and "m' = m\<lparr>mn_it := shift_down at (mn_count m) (mn_it m), mn_count := mn_count m - 1\<rparr>"
  shows "menu_abs m' = a_delete at (menu_abs m)" "menu_ok m'"
proof -
  show ok: "menu_ok m'" using assms by (auto simp: menu_ok_def)
  show "menu_abs m' = a_delete at (menu_abs m)"
  proof (rule nth_equalityI)
    show l: "length (menu_abs m') = length (a_delete at (menu_abs m))"
      using assms ok by (simp add: menu_abs_length a_delete_def)
    fix j assume "j < length (menu_abs m')"
    then have j: "j < mn_count m - 1" "j < length (mn_it m)" using assms ok by (simp_all add: menu_abs_length menu_ok_def)
    then show "menu_abs m' ! j = a_delete at (menu_abs m) ! j"
      using menu_abs_nth [OF ok, of j] assms
      by (auto simp: a_delete_def menu_abs_nth menu_abs_length nth_append shift_down_nth menu_ok_def)
  qed
qed

lemma menu_upd [simp]:
  "i < length (g_u32_menu s) \<Longrightarrow> g_u32_menu (upd_menu i f s) = (g_u32_menu s)[i := f (g_u32_menu s ! i)]"
  "mem (upd_menu i f s) = mem s"
  by (simp_all add: upd_menu_def)

lemma append_refines:
  assumes "u32_menu_idx (g_u32_menu s) h = Some i" "menu_ok (g_u32_menu s ! i)" "mn_count (g_u32_menu s ! i) < U32_MAX_MITEMS"
  obtains m' where "append_item h fl c t s = (1, s\<lparr>g_u32_menu := (g_u32_menu s)[i := m']\<rparr>)"
    "menu_abs m' = menu_abs (g_u32_menu s ! i) @ [a_item fl c t]" "menu_ok m'"
proof -
  let ?m = "g_u32_menu s ! i"
  let ?it = "setitem fl c t (mn_it ?m ! mn_count ?m)"
  let ?m' = "?m\<lparr>mn_count := Suc (mn_count ?m), mn_it := (shift_up (mn_count ?m) (mn_count ?m) (mn_it ?m))[mn_count ?m := ?it]\<rparr>"
  have l: "i < length (g_u32_menu s)" using mnh.idxD [OF assms(1)] by simp
  have e: "shift_up (mn_count ?m) (mn_count ?m) (mn_it ?m) = mn_it ?m" by (simp add: shift_up_def)
  have "append_item h fl c t s = (1, s\<lparr>g_u32_menu := (g_u32_menu s)[i := ?m']\<rparr>)"
    using assms(1,3) l by (simp add: append_item_def with_menu_def u32_menu_setitem_def upd_menu_def e Let_def)
  moreover have "menu_abs ?m' = menu_abs ?m @ [a_item fl c t]" "menu_ok ?m'"
    using abs_insert [OF assms(2) order_refl assms(3) refl, of ?it] menu_abs_length [OF assms(2)]
    by (simp_all add: a_insert_def view_setitem)
  ultimately show ?thesis by (rule that)
qed

lemma insert_refines:
  assumes "u32_menu_idx (g_u32_menu s) (WU esp 0 s) = Some i" "menu_ok (g_u32_menu s ! i)" "mn_count (g_u32_menu s ! i) < U32_MAX_MITEMS"
    and "at = (case u32_menu_find (g_u32_menu s ! i) (WU esp 1 s) (WU esp 2 s) of None \<Rightarrow> mn_count (g_u32_menu s ! i) | Some k \<Rightarrow> k)"
  obtains m' where "aret_InsertMenuA esp s = (1, s\<lparr>g_u32_menu := (g_u32_menu s)[i := m']\<rparr>)"
    "menu_abs m' = a_insert at (a_item (WU esp 2 s) (WU esp 3 s) (menu_text (mem s) (WU esp 4 s))) (menu_abs (g_u32_menu s ! i))" "menu_ok m'"
proof -
  let ?m = "g_u32_menu s ! i" and ?t = "menu_text (mem s) (WU esp 4 s)"
  let ?m' = "?m\<lparr>mn_count := Suc (mn_count ?m), mn_it := (shift_up at (mn_count ?m) (mn_it ?m))[at := setitem (WU esp 2 s) (WU esp 3 s) ?t
      (shift_up at (mn_count ?m) (mn_it ?m) ! at)]\<rparr>"
  have l: "i < length (g_u32_menu s)" using mnh.idxD [OF assms(1)] by simp
  have at: "at \<le> mn_count ?m" using assms(4) by (auto split: option.splits dest: find_bound)
  have "aret_InsertMenuA esp s = (1, s\<lparr>g_u32_menu := (g_u32_menu s)[i := ?m']\<rparr>)"
    using assms(1,3) l by (simp add: aret_InsertMenuA_def with_menu_def u32_menu_setitem_def upd_menu_def Let_def assms(4))
  moreover have "menu_abs ?m' = a_insert at (a_item (WU esp 2 s) (WU esp 3 s) ?t) (menu_abs ?m)" "menu_ok ?m'"
    using abs_insert [OF assms(2) at assms(3) refl] by (simp_all add: view_setitem)
  ultimately show ?thesis by (rule that)
qed

lemma delete_refines:
  assumes "u32_menu_idx (g_u32_menu s) (WU esp 0 s) = Some i" "menu_ok (g_u32_menu s ! i)"
    and "u32_menu_find (g_u32_menu s ! i) (WU esp 1 s) (WU esp 2 s) = Some at"
  obtains m' where "aret_DeleteMenu esp s = (1, s\<lparr>g_u32_menu := (g_u32_menu s)[i := m']\<rparr>)"
    "menu_abs m' = a_delete at (menu_abs (g_u32_menu s ! i))" "menu_ok m'"
  using assms(1,3) abs_delete [OF assms(2) find_bound [OF assms(3)] refl]
  by (intro that) (simp_all add: aret_DeleteMenu_def with_item_def with_menu_def upd_menu_def)

text \<open>C7: the menu editing calls implement list editing on the visible items: appending puts the item
  last, inserting puts it before the item found (last when there is none), deleting removes exactly the
  item found; a full menu or a missing item leaves everything as it was.\<close>

theorem menu_editing_refines:
  assumes "u32_menu_idx (g_u32_menu s) (WU esp 0 s) = Some i" "menu_ok (g_u32_menu s ! i)"
    and "xs = menu_abs (g_u32_menu s ! i)" "at = a_find xs (WU esp 1 s) (WU esp 2 s)"
  shows "(if length xs < U32_MAX_MITEMS
      then \<exists>m'. aret_AppendMenuA esp s = (1, s\<lparr>g_u32_menu := (g_u32_menu s)[i := m']\<rparr>) \<and> menu_ok m' \<and>
        menu_abs m' = xs @ [a_item (WU esp 1 s) (WU esp 2 s) (menu_text (mem s) (WU esp 3 s))]
      else aret_AppendMenuA esp s = (0, s))
    \<and> (if length xs < U32_MAX_MITEMS
      then \<exists>m'. aret_InsertMenuA esp s = (1, s\<lparr>g_u32_menu := (g_u32_menu s)[i := m']\<rparr>) \<and> menu_ok m' \<and>
        menu_abs m' = a_insert (case at of None \<Rightarrow> length xs | Some k \<Rightarrow> k) (a_item (WU esp 2 s) (WU esp 3 s) (menu_text (mem s) (WU esp 4 s))) xs
      else aret_InsertMenuA esp s = (0, s))
    \<and> (case at of None \<Rightarrow> aret_DeleteMenu esp s = (0, s)
      | Some k \<Rightarrow> \<exists>m'. aret_DeleteMenu esp s = (1, s\<lparr>g_u32_menu := (g_u32_menu s)[i := m']\<rparr>) \<and> menu_ok m' \<and> menu_abs m' = a_delete k xs)"
proof (intro conjI)
  let ?m = "g_u32_menu s ! i"
  have n: "length xs = mn_count ?m" using assms(2,3) by (simp add: menu_abs_length)
  have f: "u32_menu_find ?m (WU esp 1 s) (WU esp 2 s) = at" using assms by (simp add: find_refines)
  show "if length xs < U32_MAX_MITEMS
      then \<exists>m'. aret_AppendMenuA esp s = (1, s\<lparr>g_u32_menu := (g_u32_menu s)[i := m']\<rparr>) \<and> menu_ok m' \<and>
        menu_abs m' = xs @ [a_item (WU esp 1 s) (WU esp 2 s) (menu_text (mem s) (WU esp 3 s))]
      else aret_AppendMenuA esp s = (0, s)"
  proof (cases "length xs < U32_MAX_MITEMS")
    case True
    then show ?thesis using append_refines [OF assms(1,2)] n assms(3) unfolding aret_AppendMenuA_def by metis
  qed (use assms(1) n in \<open>simp add: aret_AppendMenuA_def append_item_def with_menu_def Let_def\<close>)
  show "if length xs < U32_MAX_MITEMS
      then \<exists>m'. aret_InsertMenuA esp s = (1, s\<lparr>g_u32_menu := (g_u32_menu s)[i := m']\<rparr>) \<and> menu_ok m' \<and>
        menu_abs m' = a_insert (case at of None \<Rightarrow> length xs | Some k \<Rightarrow> k) (a_item (WU esp 2 s) (WU esp 3 s) (menu_text (mem s) (WU esp 4 s))) xs
      else aret_InsertMenuA esp s = (0, s)"
  proof (cases "length xs < U32_MAX_MITEMS")
    case True
    obtain m' where "aret_InsertMenuA esp s = (1, s\<lparr>g_u32_menu := (g_u32_menu s)[i := m']\<rparr>)" "menu_ok m'"
      "menu_abs m' = a_insert (case at of None \<Rightarrow> length xs | Some k \<Rightarrow> k) (a_item (WU esp 2 s) (WU esp 3 s) (menu_text (mem s) (WU esp 4 s))) xs"
      using insert_refines [OF assms(1,2) _ refl] True n assms(3) unfolding f by metis
    then show ?thesis using True by auto
  qed (use assms(1) n in \<open>simp add: aret_InsertMenuA_def with_menu_def Let_def\<close>)
  show "case at of None \<Rightarrow> aret_DeleteMenu esp s = (0, s)
      | Some k \<Rightarrow> \<exists>m'. aret_DeleteMenu esp s = (1, s\<lparr>g_u32_menu := (g_u32_menu s)[i := m']\<rparr>) \<and> menu_ok m' \<and> menu_abs m' = a_delete k xs"
  proof (cases at)
    case (Some k)
    then show ?thesis using delete_refines [OF assms(1,2), of k] f assms(3) by auto
  qed (use assms(1) f in \<open>simp add: aret_DeleteMenu_def with_item_def with_menu_def\<close>)
qed

text \<open>A menu with two items, and the call \<^verbatim>\<open>DeleteMenu(menu, 7, MF_BYCOMMAND)\<close> on the stack.\<close>

definition menu_demo :: menus where
  "menu_demo = push_args 0x100 [U32_MENU_BASE OR 1, 7, 0]
     \<lparr>mem = (\<lambda>_. 0), g_last_error = 0,
      g_u32_menu = [\<lparr>mn_used = False, mn_count = 0, mn_it = []\<rparr>,
        \<lparr>mn_used = True, mn_count = 2, mn_it = mitem_zero\<lparr>mi_id := 5\<rparr> # mitem_zero\<lparr>mi_id := 7\<rparr> # replicate 62 mitem_zero\<rparr>],
      g_u32_wmenu = [], g_u32_wsysmenu = [], win_used = []\<rparr>"

lemma push_args_menu [simp]: "g_u32_menu (push_args esp vs s) = g_u32_menu s"
  by (induction vs arbitrary: esp s) (auto simp: push_args.simps)

theorem menu_editing_refines_witness:
  "\<exists>m'. aret_DeleteMenu 0x100 menu_demo = (1, menu_demo\<lparr>g_u32_menu := (g_u32_menu menu_demo)[1 := m']\<rparr>)
     \<and> menu_abs m' = [(5, 0, 0, [])]"
proof -
  let ?m = "g_u32_menu menu_demo ! 1"
  have a: "WU 0x100 0 menu_demo = U32_MENU_BASE OR 1" "WU 0x100 1 menu_demo = 7" "WU 0x100 2 menu_demo = 0"
    by (simp_all add: menu_demo_def)
  have g: "u32_menu_idx (g_u32_menu menu_demo) (WU 0x100 0 menu_demo) = Some 1"
    by (simp add: a menu_demo_def u32_menu_idx_def U32_MENU_BASE_def)
  have ok: "menu_ok ?m" by (simp add: menu_demo_def menu_ok_def U32_MAX_MITEMS_def)
  have x: "menu_abs ?m = [(5, 0, 0, []), (7, 0, 0, [])]" by (simp add: menu_demo_def menu_abs_def view_def mitem_zero_def)
  have f: "a_find (menu_abs ?m) (WU 0x100 1 menu_demo) (WU 0x100 2 menu_demo) = Some 1"
    unfolding x a by (simp add: a_find_def first_idx.simps numeral_2_eq_2)
  have d: "a_delete 1 (menu_abs ?m) = [(5, 0, 0, [])]" unfolding x by (simp add: a_delete_def)
  show ?thesis using menu_editing_refines [OF g ok refl refl] unfolding f option.case d by blast
qed

end
