(* ===== verification/Aret_Crt.thy ===== *)
theory Aret_Crt
  imports Aret_Prelude
begin

text \<open>
  The string shims of \<^verbatim>\<open>aret_crt.c\<close>: the 16-bit \<^verbatim>\<open>wcs*\<close> family, the bounded (\<^verbatim>\<open>_s\<close>) copies and
  case conversions at both widths, \<^verbatim>\<open>strnlen\<close>, \<^verbatim>\<open>_isctype\<close> and the comparisons. The bounded functions
  exist for 8-bit and 16-bit characters, twice from one macro: they are modelled once over the
  reading and writing of element \<open>i\<close> of an array, and instantiated at both widths. Their loops
  thread the memory, so overlapping arguments behave as in the code; the unbounded \<^verbatim>\<open>wcscpy\<close> and
  \<^verbatim>\<open>wcscat\<close> read their source before they write, as for arrays that do not overlap.
\<close>

section \<open>Arrays of characters\<close>

definition getb :: "guest_mem \<Rightarrow> u32 \<Rightarrow> nat \<Rightarrow> u8" where
  "getb m p i = m (p + of_nat i)"

definition putb :: "guest_mem \<Rightarrow> u32 \<Rightarrow> nat \<Rightarrow> u8 \<Rightarrow> guest_mem" where
  "putb m p i v = m(p + of_nat i := v)"

definition getw :: "guest_mem \<Rightarrow> u32 \<Rightarrow> nat \<Rightarrow> u16" where
  "getw m p i = ld16 m (p + of_nat (2 * i))"

definition putw :: "guest_mem \<Rightarrow> u32 \<Rightarrow> nat \<Rightarrow> u16 \<Rightarrow> guest_mem" where
  "putw m p i v = st16 m (p + of_nat (2 * i)) v"

type_synonym 'c rd = "guest_mem \<Rightarrow> u32 \<Rightarrow> nat \<Rightarrow> 'c"
type_synonym 'c wr = "guest_mem \<Rightarrow> u32 \<Rightarrow> nat \<Rightarrow> 'c \<Rightarrow> guest_mem"

text \<open>\<^verbatim>\<open>while (n < size && p[n]) n++;\<close>\<close>

definition scan_nul :: "'c::len word rd \<Rightarrow> guest_mem \<Rightarrow> u32 \<Rightarrow> nat \<Rightarrow> nat" where
  "scan_nul get m p n = (case first_idx (\<lambda>i. get m p i = 0) 0 n of None \<Rightarrow> n | Some i \<Rightarrow> i)"

text \<open>\<^verbatim>\<open>for (i = lo; i < hi; i++) d[i] = s[i];\<close>\<close>

definition copy_loop :: "'c rd \<Rightarrow> 'c wr \<Rightarrow> u32 \<Rightarrow> u32 \<Rightarrow> nat \<Rightarrow> guest_mem \<Rightarrow> guest_mem" where
  "copy_loop get put d s n m = fold (\<lambda>i m. put m d i (get m s i)) [0..<n] m"

section \<open>Wide strings\<close>

definition wide_bytes :: "u16 list \<Rightarrow> u8 list" where
  "wide_bytes ws = concat (map (\<lambda>c. [ucast c, ucast (drop_bit 8 c)]) ws)"

definition aret_wcslen :: "u32 \<Rightarrow> 'a hle_scheme \<Rightarrow> u32 \<times> 'a hle_scheme" where
  "aret_wcslen esp s = (of_nat (length (wstr (mem s) (WU esp 0 s))), s)"

definition aret_wcscpy :: "u32 \<Rightarrow> 'a hle_scheme \<Rightarrow> u32 \<times> 'a hle_scheme" where
  "aret_wcscpy esp s = (let d = WU esp 0 s in
     (d, s\<lparr>mem := st_bytes (mem s) d (wide_bytes (wstr (mem s) (WU esp 1 s) @ [0]))\<rparr>))"

definition aret_wcscat :: "u32 \<Rightarrow> 'a hle_scheme \<Rightarrow> u32 \<times> 'a hle_scheme" where
  "aret_wcscat esp s = (let d = WU esp 0 s in
     (d, s\<lparr>mem := st_bytes (mem s) (d + of_nat (2 * length (wstr (mem s) d))) (wide_bytes (wstr (mem s) (WU esp 1 s) @ [0]))\<rparr>))"

definition aret_wcsdup :: "u32 \<Rightarrow> u32 \<Rightarrow> 'a hle_scheme \<Rightarrow> u32 \<times> 'a hle_scheme" where
  "aret_wcsdup ptr esp s = (if ptr = 0 then (0, s)
     else (ptr, s\<lparr>mem := st_bytes (mem s) ptr (wide_bytes (wstr (mem s) (WU esp 0 s) @ [0]))\<rparr>))"

section \<open>Bounded copies\<close>

text \<open>The endless loop of \<^verbatim>\<open>wcscat_s\<close>: \<open>i\<close> indexes the destination, \<open>j\<close> the source.\<close>

function cat_loop :: "u16 rd \<Rightarrow> u16 wr \<Rightarrow> u32 \<Rightarrow> u32 \<Rightarrow> nat \<Rightarrow> nat \<Rightarrow> nat \<Rightarrow> guest_mem \<Rightarrow> u32 \<times> guest_mem" where
  "cat_loop get put d s size' i j m = (if i < size' then
       let m' = put m d i (get m s j) in if get m' s j = 0 then (0, m') else cat_loop get put d s size' (i + 1) (j + 1) m'
     else (34, put m d 0 0))"
  by pat_completeness auto
termination
  by (relation "measure (\<lambda>(get, put, d, s, size', i, j, m). size' - i)") auto

declare cat_loop.simps [simp del]

definition wcscat_s :: "u32 \<Rightarrow> nat \<Rightarrow> u32 \<Rightarrow> guest_mem \<Rightarrow> u32 \<times> guest_mem" where
  "wcscat_s d n s m = (if d = 0 \<or> n = 0 then (22, m)
     else if s = 0 then (22, putw m d 0 0)
     else let i = scan_nul getw m d n in
       if i = n then (34, putw m d 0 0) else cat_loop getw putw d s n i 0 m)"

text \<open>\<^verbatim>\<open>ARET_LWR_S_BODY\<close>; \<open>f\<close> is the case conversion of a character.\<close>

definition lwr_s :: "'c::len word rd \<Rightarrow> 'c word wr \<Rightarrow> ('c word \<Rightarrow> 'c word) \<Rightarrow> bool \<Rightarrow> u32 \<Rightarrow> nat \<Rightarrow> guest_mem \<Rightarrow> u32 \<times> guest_mem" where
  "lwr_s get put f zero0 d n m = (if d = 0 then (22, m)
     else if n = 0 then (22, if zero0 then put m d 0 0 else m)
     else let k = scan_nul get m d n in
       if k = n then (22, put m d 0 0) else (0, fold (\<lambda>i m. put m d i (f (get m d i))) [0..<k] m))"

text \<open>\<^verbatim>\<open>strcpy_s\<close> copies and looks, \<^verbatim>\<open>wcscpy_s\<close> looks and copies.\<close>

function cpy_loop :: "u8 rd \<Rightarrow> u8 wr \<Rightarrow> u32 \<Rightarrow> u32 \<Rightarrow> nat \<Rightarrow> nat \<Rightarrow> guest_mem \<Rightarrow> u32 \<times> guest_mem" where
  "cpy_loop get put d s size' i m = (if i < size' then
       let m' = put m d i (get m s i) in if get m' s i = 0 then (0, m') else cpy_loop get put d s size' (i + 1) m'
     else (34, put m d 0 0))"
  by pat_completeness auto
termination
  by (relation "measure (\<lambda>(get, put, d, s, size', i, m). size' - i)") auto

declare cpy_loop.simps [simp del]

definition strcpy_s :: "u32 \<Rightarrow> nat \<Rightarrow> u32 \<Rightarrow> guest_mem \<Rightarrow> u32 \<times> guest_mem" where
  "strcpy_s d n s m = (if d = 0 \<or> n = 0 then (22, m)
     else if s = 0 then (22, putb m d 0 0) else cpy_loop getb putb d s n 0 m)"

definition wcscpy_s :: "u32 \<Rightarrow> nat \<Rightarrow> u32 \<Rightarrow> guest_mem \<Rightarrow> u32 \<times> guest_mem" where
  "wcscpy_s d n s m = (if d = 0 \<or> n = 0 then (22, m)
     else if s = 0 then (22, putw m d 0 0)
     else let k = length (wstr m s) in
       if k + 1 > n then (34, putw m d 0 0) else (0, copy_loop getw putw d s (k + 1) m))"

text \<open>\<^verbatim>\<open>ARET_NCPY_S_BODY\<close>; \<open>str\<close> is the string at an address, \<^verbatim>\<open>count == -1\<close> is \<^verbatim>\<open>_TRUNCATE\<close>.\<close>

definition ncpy_s :: "'c::len word rd \<Rightarrow> 'c word wr \<Rightarrow> (guest_mem \<Rightarrow> u32 \<Rightarrow> 'c word list) \<Rightarrow> u32 \<Rightarrow> nat \<Rightarrow> u32 \<Rightarrow> u32 \<Rightarrow> guest_mem \<Rightarrow> u32 \<times> guest_mem" where
  "ncpy_s get put str d n s count m = (if d = 0 \<or> n = 0 then (22, m)
     else if s = 0 then (22, put m d 0 0)
     else let trunc = (count = 0xFFFFFFFF); k = (if trunc then length (str m s) else scan_nul get m s (unat count)) in
       if k + 1 \<le> n then (0, put (copy_loop get put d s k m) d k 0)
       else if trunc then (80, put (copy_loop get put d s (n - 1) m) d (n - 1) 0)
       else (34, put (copy_loop get put d s (min n k) m) d 0 0))"

text \<open>The shims read their arguments and store the memory.\<close>

definition mem_call :: "u32 \<times> guest_mem \<Rightarrow> 'a hle_scheme \<Rightarrow> u32 \<times> 'a hle_scheme" where
  "mem_call r s = (fst r, s\<lparr>mem := snd r\<rparr>)"

definition aret_wcscat_s :: "u32 \<Rightarrow> 'a hle_scheme \<Rightarrow> u32 \<times> 'a hle_scheme" where
  "aret_wcscat_s esp s = mem_call (wcscat_s (WU esp 0 s) (unat (WU esp 1 s)) (WU esp 2 s) (mem s)) s"

definition aret_strlwr_s :: "u32 \<Rightarrow> 'a hle_scheme \<Rightarrow> u32 \<times> 'a hle_scheme" where
  "aret_strlwr_s esp s = mem_call (lwr_s getb putb ascii_lower False (WU esp 0 s) (unat (WU esp 1 s)) (mem s)) s"

definition aret_strupr_s :: "u32 \<Rightarrow> 'a hle_scheme \<Rightarrow> u32 \<times> 'a hle_scheme" where
  "aret_strupr_s esp s = mem_call (lwr_s getb putb ascii_upper False (WU esp 0 s) (unat (WU esp 1 s)) (mem s)) s"

definition aret_wcslwr_s :: "u32 \<Rightarrow> 'a hle_scheme \<Rightarrow> u32 \<times> 'a hle_scheme" where
  "aret_wcslwr_s esp s = mem_call (lwr_s getw putw ascii_lower True (WU esp 0 s) (unat (WU esp 1 s)) (mem s)) s"

definition aret_wcsupr_s :: "u32 \<Rightarrow> 'a hle_scheme \<Rightarrow> u32 \<times> 'a hle_scheme" where
  "aret_wcsupr_s esp s = mem_call (lwr_s getw putw ascii_upper True (WU esp 0 s) (unat (WU esp 1 s)) (mem s)) s"

definition aret_strcpy_s :: "u32 \<Rightarrow> 'a hle_scheme \<Rightarrow> u32 \<times> 'a hle_scheme" where
  "aret_strcpy_s esp s = mem_call (strcpy_s (WU esp 0 s) (unat (WU esp 1 s)) (WU esp 2 s) (mem s)) s"

definition aret_wcscpy_s :: "u32 \<Rightarrow> 'a hle_scheme \<Rightarrow> u32 \<times> 'a hle_scheme" where
  "aret_wcscpy_s esp s = mem_call (wcscpy_s (WU esp 0 s) (unat (WU esp 1 s)) (WU esp 2 s) (mem s)) s"

definition aret_strncpy_s :: "u32 \<Rightarrow> 'a hle_scheme \<Rightarrow> u32 \<times> 'a hle_scheme" where
  "aret_strncpy_s esp s = mem_call (ncpy_s getb putb cstr (WU esp 0 s) (unat (WU esp 1 s)) (WU esp 2 s) (WU esp 3 s) (mem s)) s"

definition aret_wcsncpy_s :: "u32 \<Rightarrow> 'a hle_scheme \<Rightarrow> u32 \<times> 'a hle_scheme" where
  "aret_wcsncpy_s esp s = mem_call (ncpy_s getw putw wstr (WU esp 0 s) (unat (WU esp 1 s)) (WU esp 2 s) (WU esp 3 s) (mem s)) s"

section \<open>Character classes and lengths\<close>

definition aret_ctype_bits :: "int \<Rightarrow> u16" where
  "aret_ctype_bits c = (if c < 0 \<or> c > 255 then 0 else
     (if 65 \<le> c \<and> c \<le> 90 then 0x01 else 0) OR (if 97 \<le> c \<and> c \<le> 122 then 0x02 else 0)
     OR (if 48 \<le> c \<and> c \<le> 57 then 0x04 else 0) OR (if (9 \<le> c \<and> c \<le> 13) \<or> c = 32 then 0x08 else 0)
     OR (if (33 \<le> c \<and> c \<le> 47) \<or> (58 \<le> c \<and> c \<le> 64) \<or> (91 \<le> c \<and> c \<le> 96) \<or> (123 \<le> c \<and> c \<le> 126) then 0x10 else 0)
     OR (if c < 32 \<or> c = 127 then 0x20 else 0) OR (if c = 32 then 0x40 else 0)
     OR (if (48 \<le> c \<and> c \<le> 57) \<or> (65 \<le> c \<and> c \<le> 70) \<or> (97 \<le> c \<and> c \<le> 102) then 0x80 else 0))"

definition aret_isctype :: "u32 \<Rightarrow> 'a hle_scheme \<Rightarrow> u32 \<times> 'a hle_scheme" where
  "aret_isctype esp s = (ucast (aret_ctype_bits (WI esp 0 s)) AND WU esp 1 s, s)"

definition nlen :: "'c::len word rd \<Rightarrow> u32 \<Rightarrow> 'a hle_scheme \<Rightarrow> u32 \<times> 'a hle_scheme" where
  "nlen get esp s = (if WU esp 0 s = 0 \<or> WU esp 1 s = 0 then 0
     else of_nat (scan_nul get (mem s) (WU esp 0 s) (unat (WU esp 1 s))), s)"

definition aret_strnlen :: "u32 \<Rightarrow> 'a hle_scheme \<Rightarrow> u32 \<times> 'a hle_scheme" where
  "aret_strnlen esp s = nlen getb esp s"

definition aret_wcsnlen :: "u32 \<Rightarrow> 'a hle_scheme \<Rightarrow> u32 \<times> 'a hle_scheme" where
  "aret_wcsnlen esp s = nlen getw esp s"

section \<open>Comparisons\<close>

text \<open>The difference of the first two units that differ after \<open>f\<close>, on the contents of the strings.\<close>

fun wcmp :: "(u16 \<Rightarrow> u16) \<Rightarrow> u16 list \<Rightarrow> u16 list \<Rightarrow> int" where
  "wcmp f (x # xs) (y # ys) = (if f x = f y then wcmp f xs ys else uint (f x) - uint (f y))"
| "wcmp f xs ys = uint (f (chd xs)) - uint (f (chd ys))"

definition w_lower :: "u16 \<Rightarrow> u16" where
  "w_lower c = (if 0x41 \<le> c \<and> c \<le> 0x5A then c + 32 else c)"

definition cmp_call :: "(u16 \<Rightarrow> u16) \<Rightarrow> u32 \<Rightarrow> 'a hle_scheme \<Rightarrow> u32 \<times> 'a hle_scheme" where
  "cmp_call f esp s = (word_of_int (wcmp f (wstr (mem s) (WU esp 0 s)) (wstr (mem s) (WU esp 1 s))), s)"

text \<open>The counted comparisons look at \<open>n\<close> units at most, and stop at the NUL of the first string.\<close>

definition ncmp_call :: "(u16 \<Rightarrow> u16) \<Rightarrow> u32 \<Rightarrow> 'a hle_scheme \<Rightarrow> u32 \<times> 'a hle_scheme" where
  "ncmp_call f esp s = (let n = unat (WU esp 2 s) in
     (word_of_int (wcmp f (take n (wstr (mem s) (WU esp 0 s))) (take n (wstr (mem s) (WU esp 1 s)))), s))"

definition aret_wcscmp :: "u32 \<Rightarrow> 'a hle_scheme \<Rightarrow> u32 \<times> 'a hle_scheme" where
  "aret_wcscmp esp s = cmp_call (\<lambda>c. c) esp s"

definition aret_wcsncmp :: "u32 \<Rightarrow> 'a hle_scheme \<Rightarrow> u32 \<times> 'a hle_scheme" where
  "aret_wcsncmp esp s = ncmp_call (\<lambda>c. c) esp s"

definition aret_wcsicmp :: "u32 \<Rightarrow> 'a hle_scheme \<Rightarrow> u32 \<times> 'a hle_scheme" where
  "aret_wcsicmp esp s = cmp_call w_lower esp s"

definition aret_wcsnicmp :: "u32 \<Rightarrow> 'a hle_scheme \<Rightarrow> u32 \<times> 'a hle_scheme" where
  "aret_wcsnicmp esp s = ncmp_call w_lower esp s"

definition aret_wcsicoll :: "u32 \<Rightarrow> 'a hle_scheme \<Rightarrow> u32 \<times> 'a hle_scheme" where
  "aret_wcsicoll esp s = aret_wcsicmp esp s"

definition aret_wcscoll :: "u32 \<Rightarrow> 'a hle_scheme \<Rightarrow> u32 \<times> 'a hle_scheme" where
  "aret_wcscoll esp s = aret_wcscmp esp s"

definition aret_towlower :: "u32 \<Rightarrow> 'a hle_scheme \<Rightarrow> u32 \<times> 'a hle_scheme" where
  "aret_towlower esp s = (ucast (w_lower (ucast (WU esp 0 s))), s)"

definition aret_towupper :: "u32 \<Rightarrow> 'a hle_scheme \<Rightarrow> u32 \<times> 'a hle_scheme" where
  "aret_towupper esp s = (let c = ucast (WU esp 0 s) :: u16 in (ucast (if 0x61 \<le> c \<and> c \<le> 0x7A then c - 32 else c), s))"

end
