(* ===== verification/Aret_Paths.thy ===== *)
theory Aret_Paths
  imports Aret_Crt
begin

text \<open>
  The lexical path functions of \<^verbatim>\<open>shlwapi\<close> in \<^verbatim>\<open>aret_win32.c\<close>. The code generates each of them twice,
  from macros with the parameters TAG and TYPE; here the record \<open>chars\<close> is that parameter (the size
  of a character, the string at an address, reading and writing an element), and \<open>charA\<close>, \<open>charW\<close>
  are its two instances. What the functions compute of a string is a function on the list of its
  characters; a \<^verbatim>\<open>TYPE *\<close> into the string is an index.
\<close>

section \<open>The macro parameter\<close>

record 'c chars =
  c_size :: nat
  c_str :: "guest_mem \<Rightarrow> u32 \<Rightarrow> 'c list"
  c_get :: "'c rd"
  c_put :: "'c wr"

definition charA :: "u8 chars" where
  "charA = \<lparr>c_size = 1, c_str = cstr, c_get = getb, c_put = putb\<rparr>"

definition charW :: "u16 chars" where
  "charW = \<lparr>c_size = 2, c_str = wstr, c_get = getw, c_put = putw\<rparr>"

text \<open>\<^verbatim>\<open>p + i\<close> on a \<^verbatim>\<open>TYPE *\<close>.\<close>

definition c_ptr :: "'c chars \<Rightarrow> u32 \<Rightarrow> nat \<Rightarrow> u32" where
  "c_ptr T p i = p + of_nat (c_size T * i)"

abbreviation SEP :: "'c::len word" where "SEP \<equiv> 0x5C"

abbreviation SLASH :: "'c::len word" where "SLASH \<equiv> 0x2F"

abbreviation COLON :: "'c::len word" where "COLON \<equiv> 0x3A"

abbreviation DOT :: "'c::len word" where "DOT \<equiv> 0x2E"

text \<open>\<^verbatim>\<open>p[i]\<close>, up to the terminator.\<close>

definition chr_at :: "'c::len word list \<Rightarrow> nat \<Rightarrow> 'c word" where
  "chr_at s i = (if i < length s then s ! i else 0)"

definition c_bool :: "bool \<Rightarrow> u32" where
  "c_bool b = (if b then 1 else 0)"

section \<open>Extension and file name\<close>

primrec ext_scan :: "'c::len word list \<Rightarrow> nat \<Rightarrow> nat option \<Rightarrow> nat" where
  "ext_scan [] i hit = (case hit of None \<Rightarrow> i | Some k \<Rightarrow> k)"
| "ext_scan (c # cs) i hit = ext_scan cs (i + 1) (if c = SEP \<or> c = 0x20 then None else if c = DOT then Some i else hit)"

definition u32_p_ext :: "'c::len word list \<Rightarrow> nat" where
  "u32_p_ext s = ext_scan s 0 None"

definition aret_PathFindExtension :: "'c::len word chars \<Rightarrow> u32 \<Rightarrow> 'a hle_scheme \<Rightarrow> u32 \<times> 'a hle_scheme" where
  "aret_PathFindExtension T esp s = (let p = WU esp 0 s in
     if p = 0 then (p, s) else (c_ptr T p (u32_p_ext (c_str T (mem s) p)), s))"

text \<open>A separator counts when a character other than a slash follows it.\<close>

primrec pffn_scan :: "'c::len word list \<Rightarrow> nat \<Rightarrow> nat \<Rightarrow> nat" where
  "pffn_scan [] i hit = hit"
| "pffn_scan (c # cs) i hit = pffn_scan cs (i + 1)
     (if (c = SEP \<or> c = SLASH \<or> c = COLON) \<and> cs \<noteq> [] \<and> hd cs \<noteq> SEP \<and> hd cs \<noteq> SLASH then i + 1 else hit)"

definition aret_PathFindFileName :: "'c::len word chars \<Rightarrow> u32 \<Rightarrow> 'a hle_scheme \<Rightarrow> u32 \<times> 'a hle_scheme" where
  "aret_PathFindFileName T esp s = (let p = WU esp 0 s in
     if p = 0 then (p, s) else (c_ptr T p (pffn_scan (c_str T (mem s) p) 0 0), s))"

section \<open>Roots\<close>

text \<open>\<^verbatim>\<open>if (*p == '\\') { if (seen) return 0; seen = 1; }\<close>\<close>

primrec one_sep :: "bool \<Rightarrow> 'c::len word list \<Rightarrow> bool" where
  "one_sep seen [] = True"
| "one_sep seen (c # cs) = (if c = SEP then if seen then False else one_sep True cs else one_sep seen cs)"

definition u32_p_isroot :: "'c::len word list \<Rightarrow> bool" where
  "u32_p_isroot s = (if s = [] then False
     else if chr_at s 0 = SEP then (if length s = 1 then True else if chr_at s 1 \<noteq> SEP then False else one_sep False (drop 2 s))
     else chr_at s 1 = COLON \<and> chr_at s 2 = SEP \<and> length s = 3)"

text \<open>Past the separator that ends the component at \<open>i\<close>.\<close>

definition skip_comp :: "'c::len word list \<Rightarrow> nat \<Rightarrow> nat option" where
  "skip_comp s i = (let j = i + length (takeWhile (\<lambda>c. c \<noteq> SEP) (drop i s)) in if j < length s then Some (j + 1) else None)"

definition u32_p_skiproot :: "'c::len word list \<Rightarrow> nat option" where
  "u32_p_skiproot s = (if chr_at s 0 = SEP \<and> chr_at s 1 = SEP
     then (case skip_comp s 2 of None \<Rightarrow> None | Some i \<Rightarrow> skip_comp s i)
     else if s \<noteq> [] \<and> chr_at s 1 = COLON \<and> chr_at s 2 = SEP then Some 3 else None)"

definition u32_p_base :: "'c::len word list \<Rightarrow> nat" where
  "u32_p_base s = fold (\<lambda>i b. if s ! i = COLON then if chr_at s (i + 1) = SEP then i + 2 else i + 1 else b) [0..<length s]
     (if chr_at s 0 = SEP then if chr_at s 1 = SEP then 2 else 1 else 0)"

text \<open>The position at which \<^verbatim>\<open>PathRemoveFileSpec\<close> cuts.\<close>

definition p_cut :: "'c::len word list \<Rightarrow> nat" where
  "p_cut s = fold (\<lambda>i c. if s ! i = SEP then i else c) [u32_p_base s..<length s] (u32_p_base s)"

definition aret_PathIsUNC :: "'c::len word chars \<Rightarrow> u32 \<Rightarrow> 'a hle_scheme \<Rightarrow> u32 \<times> 'a hle_scheme" where
  "aret_PathIsUNC T esp s = (let p = WU esp 0 s; t = c_str T (mem s) p in
     (c_bool (p \<noteq> 0 \<and> chr_at t 0 = SEP \<and> chr_at t 1 = SEP), s))"

definition aret_PathIsRoot :: "'c::len word chars \<Rightarrow> u32 \<Rightarrow> 'a hle_scheme \<Rightarrow> u32 \<times> 'a hle_scheme" where
  "aret_PathIsRoot T esp s = (let p = WU esp 0 s in (c_bool (p \<noteq> 0 \<and> u32_p_isroot (c_str T (mem s) p)), s))"

definition aret_PathIsRelative :: "'c::len word chars \<Rightarrow> u32 \<Rightarrow> 'a hle_scheme \<Rightarrow> u32 \<times> 'a hle_scheme" where
  "aret_PathIsRelative T esp s = (let p = WU esp 0 s; t = c_str T (mem s) p in
     (if p = 0 \<or> t = [] then 1 else c_bool (\<not> (chr_at t 0 = SEP \<or> chr_at t 1 = COLON)), s))"

definition aret_PathSkipRoot :: "'c::len word chars \<Rightarrow> u32 \<Rightarrow> 'a hle_scheme \<Rightarrow> u32 \<times> 'a hle_scheme" where
  "aret_PathSkipRoot T esp s = (let p = WU esp 0 s in
     (if p = 0 then 0 else case u32_p_skiproot (c_str T (mem s) p) of None \<Rightarrow> 0 | Some i \<Rightarrow> c_ptr T p i, s))"

section \<open>Editing in place\<close>

definition aret_PathAddBackslash :: "'c::len word chars \<Rightarrow> u32 \<Rightarrow> 'a hle_scheme \<Rightarrow> u32 \<times> 'a hle_scheme" where
  "aret_PathAddBackslash T esp s = (let p = WU esp 0 s; t = c_str T (mem s) p; n = length t in
     if p = 0 then (0, s) else if n \<ge> 260 then (0, s)
     else if n = 0 then (c_ptr T p n, s)
     else if t ! (n - 1) \<noteq> SEP
     then (c_ptr T p (n + 1), s\<lparr>mem := c_put T (c_put T (mem s) p n SEP) p (n + 1) 0\<rparr>)
     else (c_ptr T p n, s\<lparr>mem := c_put T (mem s) p n 0\<rparr>))"

definition aret_PathRemoveBackslash :: "'c::len word chars \<Rightarrow> u32 \<Rightarrow> 'a hle_scheme \<Rightarrow> u32 \<times> 'a hle_scheme" where
  "aret_PathRemoveBackslash T esp s = (let p = WU esp 0 s; t = c_str T (mem s) p; n = length t; last = n - 1 in
     if p = 0 then (0, s)
     else (c_ptr T p last, if \<not> u32_p_isroot t \<and> chr_at t last = SEP then s\<lparr>mem := c_put T (mem s) p last 0\<rparr> else s))"

text \<open>The move reads ahead of what it writes; its last character is the terminator.\<close>

definition aret_PathStripPath :: "'c::len word chars \<Rightarrow> u32 \<Rightarrow> 'a hle_scheme \<Rightarrow> u32 \<times> 'a hle_scheme" where
  "aret_PathStripPath T esp s = (let p = WU esp 0 s; t = c_str T (mem s) p; last = pffn_scan t 0 0 in
     if p = 0 \<or> last = 0 then (0, s)
     else (0, s\<lparr>mem := copy_loop (c_get T) (c_put T) p (c_ptr T p last) (length t - last + 1) (mem s)\<rparr>))"

definition aret_PathRemoveFileSpec :: "'c::len word chars \<Rightarrow> u32 \<Rightarrow> 'a hle_scheme \<Rightarrow> u32 \<times> 'a hle_scheme" where
  "aret_PathRemoveFileSpec T esp s = (let p = WU esp 0 s; t = c_str T (mem s) p; cut = p_cut t in
     if p = 0 then (0, s) else if cut \<ge> length t then (0, s)
     else (1, s\<lparr>mem := c_put T (mem s) p cut 0\<rparr>))"

section \<open>Components and extensions\<close>

definition aret_PathFindNextComponent :: "'c::len word chars \<Rightarrow> u32 \<Rightarrow> 'a hle_scheme \<Rightarrow> u32 \<times> 'a hle_scheme" where
  "aret_PathFindNextComponent T esp s = (let p = WU esp 0 s; t = c_str T (mem s) p;
       i = length (takeWhile (\<lambda>c. c \<noteq> SEP \<and> c \<noteq> SLASH) t) in
     if p = 0 \<or> t = [] then (0, s)
     else (c_ptr T p (i + length (takeWhile (\<lambda>c. c = SEP \<or> c = SLASH) (drop i t))), s))"

text \<open>The first space outside quotes.\<close>

primrec args_scan :: "'c::len word list \<Rightarrow> bool \<Rightarrow> nat" where
  "args_scan [] q = 0"
| "args_scan (c # cs) q = (if c = 0x22 then Suc (args_scan cs (\<not> q)) else if c = 0x20 \<and> \<not> q then 1 else Suc (args_scan cs q))"

definition aret_PathGetArgs :: "'c::len word chars \<Rightarrow> u32 \<Rightarrow> 'a hle_scheme \<Rightarrow> u32 \<times> 'a hle_scheme" where
  "aret_PathGetArgs T esp s = (let p = WU esp 0 s in
     if p = 0 then (0, s) else (c_ptr T p (args_scan (c_str T (mem s) p) False), s))"

definition aret_PathGetDriveNumber :: "'c::len word chars \<Rightarrow> u32 \<Rightarrow> 'a hle_scheme \<Rightarrow> u32 \<times> 'a hle_scheme" where
  "aret_PathGetDriveNumber T esp s = (let p = WU esp 0 s; t = c_str T (mem s) p; c = chr_at t 0 in
     if p = 0 \<or> t = [] \<or> chr_at t 1 \<noteq> COLON then (0xFFFFFFFF, s)
     else if 0x61 \<le> c \<and> c \<le> 0x7A then (ucast (c - 0x61), s)
     else if 0x41 \<le> c \<and> c \<le> 0x5A then (ucast (c - 0x41), s)
     else (0xFFFFFFFF, s))"

definition aret_PathIsFileSpec :: "'c::len word chars \<Rightarrow> u32 \<Rightarrow> 'a hle_scheme \<Rightarrow> u32 \<times> 'a hle_scheme" where
  "aret_PathIsFileSpec T esp s = (let p = WU esp 0 s in
     (c_bool (p \<noteq> 0 \<and> list_all (\<lambda>c. c \<noteq> SEP \<and> c \<noteq> SLASH \<and> c \<noteq> COLON) (c_str T (mem s) p)), s))"

definition aret_PathIsUNCServerShare :: "'c::len word chars \<Rightarrow> u32 \<Rightarrow> 'a hle_scheme \<Rightarrow> u32 \<times> 'a hle_scheme" where
  "aret_PathIsUNCServerShare T esp s = (let p = WU esp 0 s; t = c_str T (mem s) p in
     (c_bool (p \<noteq> 0 \<and> chr_at t 0 = SEP \<and> chr_at t 1 = SEP \<and> length (filter (\<lambda>c. c = SEP) (drop 2 t)) = 1), s))"

definition aret_PathIsUNCServer :: "'c::len word chars \<Rightarrow> u32 \<Rightarrow> 'a hle_scheme \<Rightarrow> u32 \<times> 'a hle_scheme" where
  "aret_PathIsUNCServer T esp s = (let p = WU esp 0 s; t = c_str T (mem s) p in
     (c_bool (p \<noteq> 0 \<and> chr_at t 0 = SEP \<and> chr_at t 1 = SEP \<and> list_all (\<lambda>c. c \<noteq> SEP) (drop 2 t)), s))"

text \<open>The copy loops run over the lengths measured before, terminator included.\<close>

definition aret_PathAddExtension :: "'c::len word chars \<Rightarrow> u32 \<Rightarrow> 'a hle_scheme \<Rightarrow> u32 \<times> 'a hle_scheme" where
  "aret_PathAddExtension T esp s = (let p = WU esp 0 s; ext = WU esp 1 s; t = c_str T (mem s) p; x = c_str T (mem s) ext in
     if p = 0 \<or> ext = 0 then (0, s)
     else if x = [] then (1, s)
     else if u32_p_ext t < length t then (0, s)
     else if length t + length x \<ge> 260 then (0, s)
     else (1, s\<lparr>mem := copy_loop (c_get T) (c_put T) (c_ptr T p (length t)) ext (length x + 1) (mem s)\<rparr>))"

definition aret_PathRemoveExtension :: "'c::len word chars \<Rightarrow> u32 \<Rightarrow> 'a hle_scheme \<Rightarrow> u32 \<times> 'a hle_scheme" where
  "aret_PathRemoveExtension T esp s = (let p = WU esp 0 s in
     if p = 0 then (0, s) else (0, s\<lparr>mem := c_put T (mem s) p (u32_p_ext (c_str T (mem s) p)) 0\<rparr>))"

definition aret_PathRenameExtension :: "'c::len word chars \<Rightarrow> u32 \<Rightarrow> 'a hle_scheme \<Rightarrow> u32 \<times> 'a hle_scheme" where
  "aret_PathRenameExtension T esp s = (let p = WU esp 0 s; ext = WU esp 1 s;
       keep = u32_p_ext (c_str T (mem s) p); n = length (c_str T (mem s) ext) in
     if p = 0 \<or> ext = 0 then (0, s)
     else if keep + n \<ge> 260 then (0, s)
     else (1, s\<lparr>mem := copy_loop (c_get T) (c_put T) (c_ptr T p keep) ext (n + 1) (mem s)\<rparr>))"

text \<open>Whether a root was reached, and the positions at which NULs were stored on the way.\<close>

function strip_to_root :: "'c::len word list \<Rightarrow> bool \<times> nat list" where
  "strip_to_root t = (if u32_p_isroot t then (True, [])
     else if p_cut t < length t then (case strip_to_root (take (p_cut t) t) of (r, cs) \<Rightarrow> (r, p_cut t # cs))
     else (False, []))"
  by pat_completeness auto
termination
  by (relation "measure length") auto

declare strip_to_root.simps [simp del]

definition aret_PathStripToRoot :: "'c::len word chars \<Rightarrow> u32 \<Rightarrow> 'a hle_scheme \<Rightarrow> u32 \<times> 'a hle_scheme" where
  "aret_PathStripToRoot T esp s = (let p = WU esp 0 s in if p = 0 then (0, s)
     else case strip_to_root (c_str T (mem s) p) of (r, cs) \<Rightarrow> (c_bool r, s\<lparr>mem := fold (\<lambda>c m. c_put T m p c 0) cs (mem s)\<rparr>))"

section \<open>Common prefixes\<close>

definition p_low :: "'c::len word \<Rightarrow> 'c word" where
  "p_low x = (if 0x41 \<le> x \<and> x \<le> 0x5A then x - 0x41 + 0x61 else x)"

primrec same_run :: "'c::len word list \<Rightarrow> 'c word list \<Rightarrow> nat" where
  "same_run [] b = 0"
| "same_run (x # a) b = (case b of [] \<Rightarrow> 0 | y # b' \<Rightarrow> if p_low x = p_low y then Suc (same_run a b') else 0)"

definition u32_p_common :: "'c::len word list \<Rightarrow> 'c word list \<Rightarrow> nat" where
  "u32_p_common a b = (let n = same_run a b in
     if n = length a \<and> n = length b then n
     else case fold (\<lambda>k h. if a ! k = SEP then Some k else h) [0..<n] None of
         None \<Rightarrow> 0
       | Some k \<Rightarrow> if k = 2 \<and> chr_at a 1 = COLON then 3 else k)"

definition aret_PathCommonPrefix :: "'c::len word chars \<Rightarrow> u32 \<Rightarrow> 'a hle_scheme \<Rightarrow> u32 \<times> 'a hle_scheme" where
  "aret_PathCommonPrefix T esp s = (let a = WU esp 0 s; b = WU esp 1 s; out = WU esp 2 s;
       n = (if a = 0 \<or> b = 0 then 0 else u32_p_common (c_str T (mem s) a) (c_str T (mem s) b)) in
     (of_nat n, if out = 0 then s else s\<lparr>mem := c_put T (copy_loop (c_get T) (c_put T) out a n (mem s)) out n 0\<rparr>))"

definition aret_PathIsPrefix :: "'c::len word chars \<Rightarrow> u32 \<Rightarrow> 'a hle_scheme \<Rightarrow> u32 \<times> 'a hle_scheme" where
  "aret_PathIsPrefix T esp s = (let pre = WU esp 0 s; path = WU esp 1 s; a = c_str T (mem s) pre in
     (c_bool (pre \<noteq> 0 \<and> path \<noteq> 0 \<and> u32_p_common a (c_str T (mem s) path) = length a), s))"

definition aret_PathIsSameRoot :: "'c::len word chars \<Rightarrow> u32 \<Rightarrow> 'a hle_scheme \<Rightarrow> u32 \<times> 'a hle_scheme" where
  "aret_PathIsSameRoot T esp s = (let a = c_str T (mem s) (WU esp 0 s); b = c_str T (mem s) (WU esp 1 s) in
     if WU esp 0 s = 0 \<or> WU esp 1 s = 0 then (0, s)
     else case (u32_p_skiproot a, u32_p_skiproot b) of
         (Some la, Some lb) \<Rightarrow> (c_bool (la = lb \<and> (\<forall>i < la. p_low (a ! i) = p_low (b ! i))), s)
       | _ \<Rightarrow> (0, s))"

section \<open>Canonical form\<close>

text \<open>
  The scratch buffer has \<open>2 * 260 + 4\<close> characters: the loop that fills it does not count, so a
  character stored past its end is None.
\<close>

definition CANON_CAP :: nat where "CANON_CAP = 2 * 260 + 4"

text \<open>The buffer is \<open>buf\<close>, filled up to \<open>n\<close>; what lies behind is left from before.\<close>

definition last_sep :: "(nat \<Rightarrow> 'c::len word) \<Rightarrow> nat \<Rightarrow> nat option" where
  "last_sep buf n = (case filter (\<lambda>k. buf k = SEP) (rev [0..<n - 1]) of [] \<Rightarrow> None | k # _ \<Rightarrow> Some k)"

text \<open>Where \<^verbatim>\<open>..\<close> backs up to.\<close>

definition back_up :: "nat \<Rightarrow> (nat \<Rightarrow> 'c::len word) \<Rightarrow> nat \<Rightarrow> nat" where
  "back_up root buf n = (case last_sep buf n of
       Some j \<Rightarrow> if n > 1 \<and> buf 0 = SEP \<and> buf 1 = SEP \<and> j \<le> 1 then n - 1 else j
     | None \<Rightarrow> if root > 0 \<and> buf (root - 1) = SEP then root - 1 else 0)"

function canon_loop :: "'c::len word list \<Rightarrow> nat \<Rightarrow> nat \<Rightarrow> (nat \<Rightarrow> 'c word) \<Rightarrow> nat \<Rightarrow> 'c word list option" where
  "canon_loop src root i buf n = (if i < length src then
       if src ! i = DOT \<and> chr_at src (i + 1) = SEP \<and> (i = 0 \<or> src ! (i - 1) = SEP \<or> src ! (i - 1) = COLON)
       then canon_loop src root (i + 2) buf n
       else if src ! i = DOT \<and> chr_at src (i + 1) = DOT \<and> n > 0 \<and> buf (n - 1) = SEP
       then canon_loop src root (i + 2) buf (back_up root buf n)
       else if n < CANON_CAP then canon_loop src root (i + 1) (buf(n := src ! i)) (n + 1) else None
     else Some (map buf [0..<n]))"
  by pat_completeness auto
termination
  by (relation "measure (\<lambda>(src, root, i, buf, n). length src - i)") auto

declare canon_loop.simps [simp del]

definition canon_root :: "'c::len word list \<Rightarrow> nat" where
  "canon_root src = (if chr_at src 0 = SEP then 1
     else if chr_at src 1 = COLON then if chr_at src 2 = SEP then 3 else 2 else 0)"

definition u32_p_canon :: "'c::len word list \<Rightarrow> 'c word list option" where
  "u32_p_canon src = (if src = [] then Some [SEP]
     else let root = canon_root src in
       case canon_loop src root root (chr_at src) root of None \<Rightarrow> None
       | Some d \<Rightarrow> let d = (if length d = 2 \<and> last d = COLON then d @ [SEP] else d) in
           if length d < CANON_CAP then Some d else None)"

text \<open>Storing a string and its terminator.\<close>

definition c_store :: "'c::len word chars \<Rightarrow> u32 \<Rightarrow> 'c word list \<Rightarrow> guest_mem \<Rightarrow> guest_mem" where
  "c_store T p t m = fold (\<lambda>i m. c_put T m p i ((t @ [0]) ! i)) [0..<length t + 1] m"

definition aret_PathCanonicalize :: "'c::len word chars \<Rightarrow> u32 \<Rightarrow> 'a hle_scheme \<Rightarrow> (u32 \<times> 'a hle_scheme) option" where
  "aret_PathCanonicalize T esp s = (let out = WU esp 0 s; src = WU esp 1 s in
     if out = 0 \<or> src = 0 then Some (0, s)
     else map_option (\<lambda>d. (1, s\<lparr>mem := c_store T out d (mem s)\<rparr>)) (u32_p_canon (c_str T (mem s) src)))"

text \<open>The string that \<^verbatim>\<open>PathCombine\<close> canonicalizes; its buffer is filled up to \<open>2 * 260\<close> characters at most.\<close>

definition combine_tmp :: "'c::len word list option \<Rightarrow> 'c word list option \<Rightarrow> 'c word list" where
  "combine_tmp dir file = (let dl = (case dir of None \<Rightarrow> [] | Some d \<Rightarrow> d); fl = (case file of None \<Rightarrow> [] | Some f \<Rightarrow> f) in
     if fl = [] then take 260 dl
     else if dl = [] then take 260 fl
     else if (chr_at fl 0 = SEP \<and> chr_at fl 1 = SEP) \<or> chr_at fl 1 = COLON then take 260 fl
     else if chr_at fl 0 = SEP
     then take 520 (take 260 (take (case u32_p_skiproot dl of None \<Rightarrow> 0 | Some r \<Rightarrow> r) dl) @ tl fl)
     else let t = take 520 dl in take 520 (t @ (if last t \<noteq> SEP then [SEP] else []) @ fl))"

text \<open>
  \<^verbatim>\<open>PathCombine\<close> into \<open>dst\<close>: the result tells whether the pointer is non-NULL. With a NULL
  directory and an empty file the code reads through the NULL: None.
\<close>

definition u32_p_combine :: "'c::len word chars \<Rightarrow> u32 \<Rightarrow> u32 \<Rightarrow> u32 \<Rightarrow> guest_mem \<Rightarrow> (bool \<times> guest_mem) option" where
  "u32_p_combine T dst dir file m = (let ostr = (\<lambda>p. if p = 0 then None else Some (c_str T m p)) in
     if dst = 0 then Some (False, m)
     else if dir = 0 \<and> file = 0 then Some (False, c_put T m dst 0 0)
     else if dir = 0 \<and> c_str T m file = [] then None
     else let t = combine_tmp (ostr dir) (ostr file) in
       if length t \<ge> 260 then Some (False, c_put T m dst 0 0)
       else map_option (\<lambda>d. (True, c_store T dst d m)) (u32_p_canon t))"

definition aret_PathCombine :: "'c::len word chars \<Rightarrow> u32 \<Rightarrow> 'a hle_scheme \<Rightarrow> (u32 \<times> 'a hle_scheme) option" where
  "aret_PathCombine T esp s = (let dst = WU esp 0 s in
     map_option (\<lambda>(ok, m). (if ok then dst else 0, s\<lparr>mem := m\<rparr>)) (u32_p_combine T dst (WU esp 1 s) (WU esp 2 s) (mem s)))"

text \<open>Leading separators of the tail are skipped, unless it is a UNC path.\<close>

definition aret_PathAppend :: "'c::len word chars \<Rightarrow> u32 \<Rightarrow> 'a hle_scheme \<Rightarrow> (u32 \<times> 'a hle_scheme) option" where
  "aret_PathAppend T esp s = (let path = WU esp 0 s; more = WU esp 1 s; t = c_str T (mem s) more;
       k = (if chr_at t 0 = SEP \<and> chr_at t 1 = SEP then 0 else length (takeWhile (\<lambda>c. c = SEP) t)) in
     if path = 0 \<or> more = 0 then Some (0, s)
     else map_option (\<lambda>(ok, m). (c_bool ok, s\<lparr>mem := m\<rparr>)) (u32_p_combine T path path (c_ptr T more k) (mem s)))"

end
