(* ===== verification/Aret_Crt_Theorems.thy ===== *)
theory Aret_Crt_Theorems
  imports Aret_Crt
begin

text \<open>
  What the bounded string functions write. The two character widths share one interface, an
  array of elements in guest memory; the lemmas on the loops are proved for it once and used at
  8 and at 16 bits.
\<close>

section \<open>Arrays of elements\<close>

text \<open>An address outside the \<open>n\<close> elements of \<open>wd\<close> bytes at \<open>d\<close>.\<close>

definition outside :: "nat \<Rightarrow> u32 \<Rightarrow> nat \<Rightarrow> u32 \<Rightarrow> bool" where
  "outside wd d n x \<longleftrightarrow> (\<forall>j < wd * n. x \<noteq> d + of_nat j)"

text \<open>Two arrays of \<open>n\<close> elements that share no byte.\<close>

definition disjoint_arrays :: "nat \<Rightarrow> u32 \<Rightarrow> u32 \<Rightarrow> nat \<Rightarrow> bool" where
  "disjoint_arrays wd d s n \<longleftrightarrow> (\<forall>j < wd * n. outside wd d n (s + of_nat j))"

text \<open>The first \<open>n\<close> elements of an array.\<close>

definition arr :: "'c rd \<Rightarrow> guest_mem \<Rightarrow> u32 \<Rightarrow> nat \<Rightarrow> 'c list" where
  "arr get m p n = map (get m p) [0..<n]"

lemma disjoint_arraysI:
  assumes "unat d + wd * n \<le> unat s" "unat s + wd * n \<le> 2 ^ 32" shows "disjoint_arrays wd d s n"
proof -
  have u: "unat (x + of_nat k) = unat x + k" if "unat x + wd * n \<le> 2 ^ 32" "k < wd * n" for x :: u32 and k
    using that by (simp add: unat_word_ariths unat_of_nat)
  have "s + of_nat j \<noteq> d + of_nat k" if "j < wd * n" "k < wd * n" for j k
    using u [of s j] u [of d k] assms that by fastforce
  then show ?thesis by (simp add: disjoint_arrays_def outside_def)
qed

locale char_array =
  fixes get :: "'c::len word rd" and put :: "'c word wr" and wd :: nat
  assumes wd_pos: "0 < wd"
    and put_other: "(\<And>k. k < wd \<Longrightarrow> x \<noteq> p + of_nat (wd * i + k)) \<Longrightarrow> put m p i v x = m x"
    and get_put_same: "get (put m p i v) p i = v"
    and get_local: "(\<And>k. k < wd \<Longrightarrow> m (p + of_nat (wd * i + k)) = m' (p + of_nat (wd * i + k))) \<Longrightarrow> get m p i = get m' p i"
begin

lemma slot_in: "i < n \<Longrightarrow> k < wd \<Longrightarrow> wd * i + k < wd * n"
  by (metis Suc_leI add.commute add_less_cancel_right less_le_trans mult_Suc_right mult_le_mono2)

lemma put_outside: "i < n \<Longrightarrow> outside wd d n x \<Longrightarrow> put m d i v x = m x"
  by (rule put_other) (use slot_in in \<open>unfold outside_def, blast\<close>)

lemma fold_outside:
  "set is \<subseteq> {0..<n} \<Longrightarrow> outside wd d n x \<Longrightarrow> fold (\<lambda>i m. put m d i (h m i)) is m x = m x"
  by (induction "is" arbitrary: m) (auto simp: put_outside)

lemma copy_outside: "k \<le> n \<Longrightarrow> outside wd d n x \<Longrightarrow> copy_loop get put d s k m x = m x"
  unfolding copy_loop_def by (rule fold_outside [where n = n]) auto

lemma ncpy_outside: "outside wd d n x \<Longrightarrow> snd (ncpy_s get put str d n s c m) x = m x"
  by (simp add: ncpy_s_def Let_def put_outside [where n = n] copy_outside [where n = n])

lemma lwr_outside: "outside wd d n x \<Longrightarrow> zero0 \<longrightarrow> 0 < n \<Longrightarrow> snd (lwr_s get put f zero0 d n m) x = m x"
proof -
  assume o: "outside wd d n x" and z: "zero0 \<longrightarrow> 0 < n"
  have "scan_nul get m d n \<le> n" by (auto simp: scan_nul_def first_idx_Some_iff split: option.splits)
  then have "fold (\<lambda>i m. put m d i (f (get m d i))) [0..<scan_nul get m d n] m x = m x"
    by (intro fold_outside [OF _ o]) auto
  then show ?thesis using o z by (auto simp: lwr_s_def Let_def put_outside [where n = n])
qed

text \<open>Writing one element leaves the others.\<close>

lemma get_put_other:
  assumes "i \<noteq> j" "i < n" "j < n" "wd * n \<le> 2 ^ 32"
  shows "get (put m p j v) p i = get m p i"
proof (rule get_local, rule put_other)
  fix k k' assume k: "k < wd" "k' < wd"
  have "wd * i + k \<noteq> wd * j + k'"
  proof
    assume e: "wd * i + k = wd * j + k'"
    have "i = (wd * i + k) div wd" "j = (wd * j + k') div wd" using k by simp_all
    with e assms(1) show False by simp
  qed
  moreover have "wd * i + k < 2 ^ 32" "wd * j + k' < 2 ^ 32"
    using slot_in [OF assms(2) k(1)] slot_in [OF assms(3) k(2)] assms(4) by linarith+
  ultimately show "p + of_nat (wd * i + k) \<noteq> p + of_nat (wd * j + k')" by (intro offset_neq) auto
qed

lemma get_put_disjoint:
  assumes "disjoint_arrays wd d s n" "i < n" "j < n" shows "get (put m d j v) s i = get m s i"
proof (rule get_local)
  fix k assume "k < wd"
  then have "outside wd d n (s + of_nat (wd * i + k))" using assms(1,2) slot_in unfolding disjoint_arrays_def by blast
  then show "put m d j v (s + of_nat (wd * i + k)) = m (s + of_nat (wd * i + k))" by (rule put_outside [OF assms(3)])
qed

lemma copy_source:
  assumes "disjoint_arrays wd d s n" "k \<le> n" "i < n" shows "get (copy_loop get put d s k m) s i = get m s i"
  using assms(2)
proof (induction k)
  case (Suc k)
  then show ?case using get_put_disjoint [OF assms(1,3)] by (simp add: copy_loop_def)
qed (simp add: copy_loop_def)

lemma copy_arr:
  assumes "disjoint_arrays wd d s n" "wd * n \<le> 2 ^ 32" "k \<le> n" "i < n"
  shows "get (copy_loop get put d s k m) d i = (if i < k then get m s i else get m d i)"
  using assms(3)
proof (induction k)
  case (Suc k)
  let ?m = "copy_loop get put d s k m"
  have "copy_loop get put d s (Suc k) m = put ?m d k (get ?m s k)" by (simp add: copy_loop_def)
  moreover have "get ?m s k = get m s k" using copy_source [OF assms(1)] Suc.prems by simp
  ultimately show ?case
    using Suc get_put_other [OF _ assms(4) _ assms(2), of k] by (cases "i = k") (auto simp: get_put_same)
qed (simp add: copy_loop_def)

lemma copy_nul:
  assumes "disjoint_arrays wd d s n" "wd * n \<le> 2 ^ 32" "k < n"
  shows "arr get (put (copy_loop get put d s k m) d k 0) d (Suc k) = arr get m s k @ [0]"
proof -
  have "get (put (copy_loop get put d s k m) d k 0) d i = get m s i" if "i < k" for i
    using get_put_other [of i k n] copy_arr [OF assms(1,2), of k i m] that assms(2,3) by simp
  then show ?thesis by (simp add: arr_def get_put_same)
qed

end

interpretation nar: char_array getb putb 1
  by unfold_locales (auto simp: getb_def putb_def)

interpretation wid: char_array getw putw 2
proof unfold_locales
  fix p x :: u32 and i :: nat and m m' :: guest_mem and v :: u16
  show "(0 :: nat) < 2" by simp
  show "putw m p i v x = m x" if "\<And>k. k < 2 \<Longrightarrow> x \<noteq> p + of_nat (2 * i + k)"
    using that [of 0] that [of 1] by (simp add: putw_def st16_def ac_simps)
  show "getw (putw m p i v) p i = v" by (simp add: getw_def putw_def)
  show "getw m p i = getw m' p i" if "\<And>k. k < 2 \<Longrightarrow> m (p + of_nat (2 * i + k)) = m' (p + of_nat (2 * i + k))"
    using that [of 0] that [of 1] by (simp add: getw_def ld16_def ac_simps)
qed

section \<open>Bounds\<close>

lemma cat_loop_outside:
  "0 < n \<Longrightarrow> outside 2 d n x \<Longrightarrow> snd (cat_loop getw putw d s n i j m) x = m x"
proof (induction "getw :: u16 rd" "putw :: u16 wr" d s n i j m rule: cat_loop.induct)
  case (1 d s n i j m)
  show ?case
  proof (cases "i < n")
    case True
    let ?m = "putw m d i (getw m s j)"
    have p: "?m x = m x" using wid.put_outside [OF True "1.prems"(2)] .
    moreover have "snd (cat_loop getw putw d s n (i + 1) (j + 1) ?m) x = ?m x" if "getw ?m s j \<noteq> 0"
      using "1.hyps" [OF True refl that] "1.prems" by simp
    ultimately show ?thesis using True by (subst cat_loop.simps) (simp add: Let_def)
  next
    case False
    then show ?thesis using wid.put_outside [OF "1.prems"] by (subst cat_loop.simps) simp
  qed
qed

lemma cpy_loop_outside:
  "0 < n \<Longrightarrow> outside 1 d n x \<Longrightarrow> snd (cpy_loop getb putb d s n i m) x = m x"
proof (induction "getb :: u8 rd" "putb :: u8 wr" d s n i m rule: cpy_loop.induct)
  case (1 d s n i m)
  show ?case
  proof (cases "i < n")
    case True
    let ?m = "putb m d i (getb m s i)"
    have p: "?m x = m x" using nar.put_outside [OF True "1.prems"(2)] .
    moreover have "snd (cpy_loop getb putb d s n (i + 1) ?m) x = ?m x" if "getb ?m s i \<noteq> 0"
      using "1.hyps" [OF True refl that] "1.prems" by simp
    ultimately show ?thesis using True by (subst cpy_loop.simps) (simp add: Let_def)
  next
    case False
    then show ?thesis using nar.put_outside [OF "1.prems"] by (subst cpy_loop.simps) simp
  qed
qed

lemma wcscat_s_outside: "outside 2 d n x \<Longrightarrow> snd (wcscat_s d n s m) x = m x"
  by (simp add: wcscat_s_def Let_def wid.put_outside [where n = n] cat_loop_outside)

lemma strcpy_s_outside: "outside 1 d n x \<Longrightarrow> snd (strcpy_s d n s m) x = m x"
  by (simp add: strcpy_s_def Let_def nar.put_outside [where n = n] cpy_loop_outside)

lemma wcscpy_s_outside: "outside 2 d n x \<Longrightarrow> snd (wcscpy_s d n s m) x = m x"
  by (simp add: wcscpy_s_def Let_def wid.put_outside [where n = n] wid.copy_outside [where n = n])

text \<open>C22: no bounded string function writes outside the destination buffer of the size it is given,
  whatever its arguments are and however they overlap; only the wide case conversions store one
  element at a size of zero.\<close>

theorem secure_strings_in_bounds:
  "(outside 1 (WU esp 0 s) (unat (WU esp 1 s)) x \<longrightarrow>
     mem (snd (aret_strcpy_s esp s)) x = mem s x \<and> mem (snd (aret_strncpy_s esp s)) x = mem s x \<and>
     mem (snd (aret_strlwr_s esp s)) x = mem s x \<and> mem (snd (aret_strupr_s esp s)) x = mem s x)
   \<and> (outside 2 (WU esp 0 s) (unat (WU esp 1 s)) x \<longrightarrow>
     mem (snd (aret_wcscpy_s esp s)) x = mem s x \<and> mem (snd (aret_wcsncpy_s esp s)) x = mem s x \<and>
     mem (snd (aret_wcscat_s esp s)) x = mem s x \<and>
     (0 < WU esp 1 s \<longrightarrow> mem (snd (aret_wcslwr_s esp s)) x = mem s x \<and> mem (snd (aret_wcsupr_s esp s)) x = mem s x))"
  by (simp add: aret_strcpy_s_def aret_strncpy_s_def aret_strlwr_s_def aret_strupr_s_def aret_wcscpy_s_def aret_wcsncpy_s_def
      aret_wcscat_s_def aret_wcslwr_s_def aret_wcsupr_s_def mem_call_def strcpy_s_outside wcscpy_s_outside wcscat_s_outside
      nar.ncpy_outside wid.ncpy_outside nar.lwr_outside wid.lwr_outside unat_gt_0)

text \<open>A call \<^verbatim>\<open>strncpy_s(0x2000, 4, 0x3000, 9)\<close> with the source ``abcdef''.\<close>

definition crt_demo :: hle where
  "crt_demo = push_args 0x100 [0x2000, 4, 0x3000, 9]
     \<lparr>mem = st_bytes (\<lambda>_. 0x55) 0x3000 [0x61, 0x62, 0x63, 0x64, 0x65, 0x66, 0], g_last_error = 0\<rparr>"

theorem secure_strings_in_bounds_witness: "mem (snd (aret_strncpy_s 0x100 crt_demo)) 0x2004 = mem crt_demo 0x2004"
proof -
  have "WU 0x100 0 crt_demo = 0x2000" "WU 0x100 1 crt_demo = 4" by (simp_all add: crt_demo_def)
  moreover have "outside 1 0x2000 4 0x2004" unfolding outside_def by code_simp
  ultimately show ?thesis using secure_strings_in_bounds [of "0x100" crt_demo "0x2004"] by simp
qed

section \<open>Results\<close>

text \<open>The characters a counted copy takes, and what it leaves: \<open>r\<close> is the status, \<open>m'\<close> the memory after.\<close>

definition ncpy_post :: "'c::len word rd \<Rightarrow> (guest_mem \<Rightarrow> u32 \<Rightarrow> 'c word list) \<Rightarrow> u32 \<Rightarrow> nat \<Rightarrow> u32 \<Rightarrow> u32 \<Rightarrow> guest_mem \<Rightarrow> u32 \<Rightarrow> guest_mem \<Rightarrow> bool" where
  "ncpy_post get str d n p count m r m' \<longleftrightarrow>
     (let k = (if count = 0xFFFFFFFF then length (str m p) else scan_nul get m p (unat count)) in
      if k < n then r = 0 \<and> arr get m' d (Suc k) = arr get m p k @ [0]
      else if count = 0xFFFFFFFF then r = 80 \<and> arr get m' d n = arr get m p (n - 1) @ [0]
      else r = 34 \<and> get m' d 0 = 0)"

context char_array
begin

lemma ncpy_result:
  assumes "d \<noteq> 0" "p \<noteq> 0" "0 < n" "disjoint_arrays wd d p n" "wd * n \<le> 2 ^ 32"
  shows "ncpy_post get str d n p count m (fst (ncpy_s get put str d n p count m)) (snd (ncpy_s get put str d n p count m))"
proof -
  have "arr get (put (copy_loop get put d p (n - 1) m) d (n - 1) 0) d n = arr get m p (n - 1) @ [0]"
    using copy_nul [OF assms(4,5), of "n - 1" m] assms(3) by simp
  then show ?thesis using assms(1-3) copy_nul [OF assms(4,5)] by (auto simp: ncpy_s_def ncpy_post_def Let_def get_put_same)
qed

end

text \<open>The counted copies at both widths deliver what fits: the first \<^verbatim>\<open>count\<close> characters of the source
  and a NUL (status 0); with \<^verbatim>\<open>_TRUNCATE\<close> the longest prefix that fits and a NUL (status 80); otherwise an
  empty destination and status 34.\<close>

theorem ncpy_s_result:
  assumes "d = WU esp 0 s" "n = unat (WU esp 1 s)" "p = WU esp 2 s" "count = WU esp 3 s" "d \<noteq> 0" "p \<noteq> 0" "0 < n"
  shows "(disjoint_arrays 1 d p n \<longrightarrow>
      ncpy_post getb cstr d n p count (mem s) (fst (aret_strncpy_s esp s)) (mem (snd (aret_strncpy_s esp s))))
    \<and> (disjoint_arrays 2 d p n \<and> 2 * n \<le> 2 ^ 32 \<longrightarrow>
      ncpy_post getw wstr d n p count (mem s) (fst (aret_wcsncpy_s esp s)) (mem (snd (aret_wcsncpy_s esp s))))"
proof -
  have "1 * n \<le> 2 ^ 32" using unsigned_less [of "WU esp 1 s", where 'a = nat] assms(2) by simp
  then show ?thesis
    using nar.ncpy_result [OF assms(5-7)] wid.ncpy_result [OF assms(5-7)]
    unfolding aret_strncpy_s_def aret_wcsncpy_s_def mem_call_def assms(1-4) by simp
qed

theorem ncpy_s_result_witness:
  "fst (aret_strncpy_s 0x100 crt_demo) = 34 \<and> getb (mem (snd (aret_strncpy_s 0x100 crt_demo))) 0x2000 0 = 0"
proof -
  have a: "WU 0x100 0 crt_demo = 0x2000" "WU 0x100 1 crt_demo = 4" "WU 0x100 2 crt_demo = 0x3000" "WU 0x100 3 crt_demo = 9"
    by (simp_all add: crt_demo_def)
  have "disjoint_arrays 1 0x2000 0x3000 4" by (rule disjoint_arraysI) simp_all
  moreover have "scan_nul getb (mem crt_demo) 0x3000 9 = 6" by code_simp
  ultimately show ?thesis using ncpy_s_result [OF refl refl refl refl, of "0x100" crt_demo] by (simp add: a ncpy_post_def del: One_nat_def)
qed

end
