(* ===== verification/Aret_Paths_Theorems.thy ===== *)
theory Aret_Paths_Theorems
  imports Aret_Paths Aret_Crt_Theorems "HOL-Library.Sublist"
begin

text \<open>
  What the path functions make of a path, at both character widths. The locale states what they
  need of a NUL-terminated string in guest memory; it extends the interface of character arrays.
\<close>

section \<open>Strings in memory\<close>

locale c_string = char_array "c_get T" "c_put T" "c_size T" for T :: "'c::len word chars" +
  assumes str_nonzero: "0 \<notin> set (c_str T m p)"
    and str_nth: "i < length (c_str T m p) \<Longrightarrow> c_get T m p i = c_str T m p ! i"
    and str_eqI: "0 \<notin> set t \<Longrightarrow> (\<And>i. i < length t \<Longrightarrow> c_get T m p i = t ! i) \<Longrightarrow> c_get T m p (length t) = 0 \<Longrightarrow>
      unat p + c_size T * (length t + 1) \<le> 2 ^ 32 \<Longrightarrow> c_str T m p = t"
    and str_end: "unat p + c_size T * (length (c_str T m p) + 1) \<le> 2 ^ 32 \<Longrightarrow> c_get T m p (length (c_str T m p)) = 0"
    and get_shift: "c_get T m (c_ptr T p k) i = c_get T m p (k + i)"
begin

lemma fits_bound: "unat p + c_size T * n \<le> 2 ^ 32 \<Longrightarrow> c_size T * n \<le> 2 ^ 32"
  by simp

lemma cut_str:
  assumes "k < length (c_str T m p)" "unat p + c_size T * length (c_str T m p) \<le> 2 ^ 32"
  shows "c_str T (c_put T m p k 0) p = take k (c_str T m p)"
proof (rule str_eqI)
  let ?t = "c_str T m p"
  show "0 \<notin> set (take k ?t)" using str_nonzero [of m p] by (meson in_set_takeD)
  show "c_get T (c_put T m p k 0) p i = take k ?t ! i" if "i < length (take k ?t)" for i
    using that assms get_put_other [of i k "length ?t"] str_nth [of i m p] by simp
  show "c_get T (c_put T m p k 0) p (length (take k ?t)) = 0" using assms(1) by (simp add: get_put_same)
  have "c_size T * (k + 1) \<le> c_size T * length ?t" using assms(1) by (intro mult_le_mono2) simp
  then show "unat p + c_size T * (length (take k ?t) + 1) \<le> 2 ^ 32" using assms by simp
qed

text \<open>A run of stores at the positions \<open>[0..<n]\<close>.\<close>

lemma get_stores:
  assumes "j < N" "n \<le> N" "c_size T * N \<le> 2 ^ 32"
  shows "c_get T (fold (\<lambda>i m. c_put T m p i (v i)) [0..<n] m) p j = (if j < n then v j else c_get T m p j)"
  using assms(2)
proof (induction n)
  case (Suc n)
  then show ?case using assms(1,3) get_put_other [of j n N]
    by (cases "j = n") (auto simp: get_put_same)
qed simp

lemma str_store:
  assumes "0 \<notin> set t" "unat p + c_size T * (length t + 1) \<le> 2 ^ 32"
  shows "c_str T (c_store T p t m) p = t"
proof (rule str_eqI [OF assms(1) _ _ assms(2)])
  have "c_get T (c_store T p t m) p j = (t @ [0]) ! j" if "j \<le> length t" for j
    unfolding c_store_def by (subst get_stores [of j "length t + 1"]) (use assms(2) that in simp_all)
  then show "c_get T (c_store T p t m) p i = t ! i" if "i < length t" for i
    using that by (simp add: nth_append)
  show "c_get T (c_store T p t m) p (length t) = 0"
    using \<open>\<And>j. j \<le> length t \<Longrightarrow> c_get T (c_store T p t m) p j = (t @ [0]) ! j\<close> [of "length t"] by (simp add: nth_append)
qed

end

lemma unat_top: "unat (- 1 :: u32) = 4294967295"
  by (simp add: unat_eq_nat_uint unsigned_minus_1_eq_mask mask_eq_exp_minus_1)

lemma cstr_nth: "i < length (cstr m p) \<Longrightarrow> getb m p i = cstr m p ! i"
proof (induction m p arbitrary: i rule: cstr.induct)
  case (1 m p)
  show ?case
  proof (cases "m p = 0 \<or> p = - 1")
    case True
    then show ?thesis using "1.prems" by (auto simp: cstr.simps [of m p] getb_def split: if_splits)
  next
    case False
    then have e: "cstr m p = m p # cstr m (p + 1)" by (simp add: cstr.simps [of m p])
    show ?thesis
    proof (cases i)
      case (Suc j)
      then have "getb m (p + 1) j = cstr m (p + 1) ! j" using "1.IH" False "1.prems" e by simp
      then show ?thesis using Suc e by (simp add: getb_def ac_simps)
    qed (simp add: e getb_def)
  qed
qed

lemma wstr_nth: "i < length (wstr m p) \<Longrightarrow> getw m p i = wstr m p ! i"
proof (induction m p arbitrary: i rule: wstr.induct)
  case (1 m p)
  show ?case
  proof (cases "ld16 m p = 0 \<or> - 3 \<le> p")
    case True
    then show ?thesis using "1.prems" by (auto simp: wstr.simps [of m p] getw_def split: if_splits)
  next
    case False
    then have e: "wstr m p = ld16 m p # wstr m (p + 2)" by (simp add: wstr.simps [of m p])
    show ?thesis
    proof (cases i)
      case (Suc j)
      then have "getw m (p + 2) j = wstr m (p + 2) ! j" using "1.IH" False "1.prems" e by simp
      then show ?thesis using Suc e by (simp add: getw_def ac_simps)
    qed (simp add: e getw_def)
  qed
qed

lemma cstr_end: "unat p + (length (cstr m p) + 1) \<le> 2 ^ 32 \<Longrightarrow> getb m p (length (cstr m p)) = 0"
proof (induction m p rule: cstr.induct)
  case (1 m p)
  show ?case
  proof (cases "m p = 0 \<or> p = - 1")
    case True
    then show ?thesis using "1.prems" unat_top by (auto simp: cstr.simps [of m p] getb_def split: if_splits)
  next
    case False
    then have e: "cstr m p = m p # cstr m (p + 1)" by (simp add: cstr.simps [of m p])
    have "unat (p + 1) = unat p + 1" using "1.prems" e by (simp add: unat_word_ariths)
    then have "getb m (p + 1) (length (cstr m (p + 1))) = 0" using "1.IH" False "1.prems" e by simp
    then show ?thesis by (simp add: e getb_def ac_simps)
  qed
qed

lemma wstr_end: "unat p + 2 * (length (wstr m p) + 1) \<le> 2 ^ 32 \<Longrightarrow> getw m p (length (wstr m p)) = 0"
proof (induction m p rule: wstr.induct)
  case (1 m p)
  show ?case
  proof (cases "ld16 m p = 0 \<or> - 3 \<le> p")
    case True
    then show ?thesis using "1.prems" by (auto simp: wstr.simps [of m p] getw_def word_le_nat_alt split: if_splits)
  next
    case False
    then have e: "wstr m p = ld16 m p # wstr m (p + 2)" by (simp add: wstr.simps [of m p])
    have "unat (p + 2) = unat p + 2" using "1.prems" e by (simp add: unat_word_ariths)
    then have "getw m (p + 2) (length (wstr m (p + 2))) = 0" using "1.IH" False "1.prems" e by simp
    then show ?thesis by (simp add: e getw_def ac_simps)
  qed
qed

lemma cstr_eqI:
  "0 \<notin> set t \<Longrightarrow> (\<And>i. i < length t \<Longrightarrow> getb m p i = t ! i) \<Longrightarrow> getb m p (length t) = 0 \<Longrightarrow>
    unat p + (length t + 1) \<le> 2 ^ 32 \<Longrightarrow> cstr m p = t"
proof (induction t arbitrary: p)
  case (Cons c t)
  have c: "m p = c" "c \<noteq> 0" using Cons.prems(1) Cons.prems(2) [of 0] by (auto simp: getb_def)
  have "p \<noteq> - 1" using Cons.prems(4) unat_top by auto
  moreover have "unat (p + 1) = unat p + 1" using Cons.prems(4) by (simp add: unat_word_ariths)
  moreover have "getb m (p + 1) i = getb m p (Suc i)" for i by (simp add: getb_def ac_simps)
  ultimately have "cstr m (p + 1) = t" using Cons.prems Cons.IH [of "p + 1"] by force
  then show ?case using c \<open>p \<noteq> - 1\<close> by (simp add: cstr.simps [of m p])
qed (subst cstr.simps, simp add: getb_def)

lemma wstr_eqI:
  "0 \<notin> set t \<Longrightarrow> (\<And>i. i < length t \<Longrightarrow> getw m p i = t ! i) \<Longrightarrow> getw m p (length t) = 0 \<Longrightarrow>
    unat p + 2 * (length t + 1) \<le> 2 ^ 32 \<Longrightarrow> wstr m p = t"
proof (induction t arbitrary: p)
  case (Cons c t)
  have c: "ld16 m p = c" "c \<noteq> 0" using Cons.prems(1) Cons.prems(2) [of 0] by (auto simp: getw_def)
  have "\<not> - 3 \<le> p" using Cons.prems(4) by (simp add: word_le_nat_alt)
  moreover have "unat (p + 2) = unat p + 2" using Cons.prems(4) by (simp add: unat_word_ariths)
  moreover have "getw m (p + 2) i = getw m p (Suc i)" for i by (simp add: getw_def ac_simps)
  ultimately have "wstr m (p + 2) = t" using Cons.prems Cons.IH [of "p + 2"] by force
  then show ?case using c \<open>\<not> - 3 \<le> p\<close> by (simp add: wstr.simps [of m p])
qed (subst wstr.simps, simp add: getw_def)

lemma wstr_content: "0 \<notin> set (wstr m p)"
proof (induction m p rule: wstr.induct)
  case (1 m p)
  then show ?case by (subst wstr.simps) auto
qed

interpretation pA: c_string charA
proof (rule c_string.intro)
  show "char_array (c_get charA) (c_put charA) (c_size charA)"
    using nar.char_array_axioms by (simp add: charA_def)
  show "c_string_axioms charA"
  proof
    fix t :: "u8 list" and m p i k
    show "0 \<notin> set (c_str charA m p)" using cstr_content [of m p] by (auto simp: charA_def)
    show "c_get charA m p i = c_str charA m p ! i" if "i < length (c_str charA m p)"
      using cstr_nth that by (simp add: charA_def)
    show "c_str charA m p = t" if "0 \<notin> set t" "\<And>i. i < length t \<Longrightarrow> c_get charA m p i = t ! i"
      "c_get charA m p (length t) = 0" "unat p + c_size charA * (length t + 1) \<le> 2 ^ 32"
      using cstr_eqI [of t m p] that by (simp add: charA_def)
    show "c_get charA m p (length (c_str charA m p)) = 0" if "unat p + c_size charA * (length (c_str charA m p) + 1) \<le> 2 ^ 32"
      using cstr_end [of p m] that by (simp add: charA_def)
    show "c_get charA m (c_ptr charA p k) i = c_get charA m p (k + i)"
      by (simp add: charA_def c_ptr_def getb_def ac_simps)
  qed
qed

interpretation pW: c_string charW
proof (rule c_string.intro)
  show "char_array (c_get charW) (c_put charW) (c_size charW)"
    using wid.char_array_axioms by (simp add: charW_def)
  show "c_string_axioms charW"
  proof
    fix t :: "u16 list" and m p i k
    show "0 \<notin> set (c_str charW m p)" using wstr_content [of m p] by (simp add: charW_def)
    show "c_get charW m p i = c_str charW m p ! i" if "i < length (c_str charW m p)"
      using wstr_nth that by (simp add: charW_def)
    show "c_str charW m p = t" if "0 \<notin> set t" "\<And>i. i < length t \<Longrightarrow> c_get charW m p i = t ! i"
      "c_get charW m p (length t) = 0" "unat p + c_size charW * (length t + 1) \<le> 2 ^ 32"
      using wstr_eqI [of t m p] that by (simp add: charW_def)
    show "c_get charW m p (length (c_str charW m p)) = 0" if "unat p + c_size charW * (length (c_str charW m p) + 1) \<le> 2 ^ 32"
      using wstr_end [of p m] that by (simp add: charW_def)
    show "c_get charW m (c_ptr charW p k) i = c_get charW m p (k + i)"
      by (simp add: charW_def c_ptr_def getw_def ac_simps)
  qed
qed

section \<open>Canonical form\<close>

text \<open>A buffer that holds \<open>d\<close> in its first \<open>n\<close> places.\<close>

definition holds :: "(nat \<Rightarrow> 'c::len word) \<Rightarrow> nat \<Rightarrow> 'c word list \<Rightarrow> bool" where
  "holds buf n d \<longleftrightarrow> n = length d \<and> map buf [0..<n] = d"

lemma holds_nth: "holds buf n d \<Longrightarrow> i < n \<Longrightarrow> buf i = d ! i"
  unfolding holds_def by (metis (no_types, lifting) add_0 diff_zero length_upt nth_map nth_upt)

lemma holds_put: "holds buf n d \<Longrightarrow> holds (buf(n := c)) (Suc n) (d @ [c])"
  by (auto simp: holds_def)

lemma holds_take: assumes "holds buf n d" "k \<le> n" shows "holds buf k (take k d)"
proof -
  have "d = map buf [0..<n]" using assms(1) unfolding holds_def by metis
  then have "take k d = map buf (take k [0..<n])" by (metis take_map)
  then show ?thesis using assms by (simp add: holds_def)
qed

lemma drop_at: assumes "drop i s = w" "k < length w" shows "s ! (i + k) = w ! k" "i + k < length s"
  using assms by auto

lemma last_sep_Some: assumes "k < n - 1" "buf k = SEP" "\<And>i. k < i \<Longrightarrow> i < n - 1 \<Longrightarrow> buf i \<noteq> SEP" shows "last_sep buf n = Some k"
proof -
  have "rev [0..<n - 1] = rev [Suc k..<n - 1] @ k # rev [0..<k]"
    using assms(1) upt_add_eq_append [of 0 k "n - 1 - k"] by (simp add: upt_conv_Cons)
  moreover have "filter (\<lambda>k. buf k = SEP) (rev [Suc k..<n - 1]) = []" using assms(3) by (auto simp: filter_empty_conv)
  ultimately show ?thesis using assms(2) by (simp add: last_sep_def)
qed

lemma last_sep_None: "(\<And>i. i < n - 1 \<Longrightarrow> buf i \<noteq> SEP) \<Longrightarrow> last_sep buf n = None"
proof -
  assume "\<And>i. i < n - 1 \<Longrightarrow> buf i \<noteq> SEP"
  then have "filter (\<lambda>k. buf k = SEP) (rev [0..<n - 1]) = []" by (auto simp: filter_empty_conv)
  then show ?thesis by (simp add: last_sep_def)
qed

text \<open>The components of a path, and what resolving them means.\<close>

fun path_join :: "'c::len word list list \<Rightarrow> 'c word list" where
  "path_join [] = []"
| "path_join [c] = c"
| "path_join (c # cs) = c @ SEP # path_join cs"

definition resolve1 :: "'c::len word list list \<Rightarrow> 'c word list \<Rightarrow> 'c word list list" where
  "resolve1 st c = (if c = [DOT, DOT] then butlast st else if c = [DOT] then st else st @ [c])"

definition path_resolve :: "'c::len word list list \<Rightarrow> 'c word list list" where
  "path_resolve cs = foldl resolve1 [] cs"

text \<open>A component: a name, or \<^verbatim>\<open>.\<close>, or \<^verbatim>\<open>..\<close>; a name may not start with two dots.\<close>

definition plain_comp :: "'c::len word list \<Rightarrow> bool" where
  "plain_comp c \<longleftrightarrow> c \<noteq> [] \<and> SEP \<notin> set c \<and> COLON \<notin> set c \<and> c \<noteq> [DOT] \<and> take 2 c \<noteq> [DOT, DOT]"

definition comp_ok :: "'c::len word list \<Rightarrow> bool" where
  "comp_ok c \<longleftrightarrow> c = [DOT] \<or> c = [DOT, DOT] \<or> plain_comp c"

text \<open>The buffer between two components: the drive root and the stack, each entry with its separator.\<close>

definition stack_path :: "'c::len word \<Rightarrow> 'c word list list \<Rightarrow> 'c word list" where
  "stack_path x st = [x, COLON, SEP] @ concat (map (\<lambda>c. c @ [SEP]) st)"

lemma stack_path_snoc: "stack_path x (st @ [c]) = stack_path x st @ c @ [SEP]"
  by (simp add: stack_path_def)

lemma stack_path_last: "last (stack_path x st) = SEP" "stack_path x st \<noteq> []" "3 \<le> length (stack_path x st)"
  by (cases st rule: rev_cases; simp add: stack_path_def)+

lemma path_join_snoc: "path_join (st @ [c]) = concat (map (\<lambda>c. c @ [SEP]) st) @ c"
  by (induction st rule: path_join.induct) simp_all

lemma path_join_Cons: "cs \<noteq> [] \<Longrightarrow> path_join (c # cs) = c @ SEP # path_join cs"
  by (cases cs) simp_all

lemma butlast_stack: "butlast (stack_path x (st @ [c])) = [x, COLON, SEP] @ path_join (st @ [c])"
  by (simp add: stack_path_snoc path_join_snoc) (simp add: stack_path_def butlast_append)

text \<open>Cutting back to the root.\<close>

lemma cut_range: "u32_p_base s \<le> p_cut s" "u32_p_base s < length s \<Longrightarrow> p_cut s < length s"
proof -
  have "b \<le> fold (\<lambda>i c. if s ! i = SEP then i else c) is b0 \<and> (b0 < n \<longrightarrow> fold (\<lambda>i c. if s ! i = SEP then i else c) is b0 < n)"
    if "b \<le> b0" "set is \<subseteq> {b..<n}" for b b0 n "is"
    using that by (induction "is" arbitrary: b0) auto
  note f = this
  show "u32_p_base s \<le> p_cut s" "u32_p_base s < length s \<Longrightarrow> p_cut s < length s"
    unfolding p_cut_def using f [of "u32_p_base s" "u32_p_base s" "[u32_p_base s..<length s]" "length s"] by simp_all
qed

lemma strip_step:
  assumes "\<not> u32_p_isroot t" "p_cut t < length t" "strip_to_root t = (r, cs)"
  obtains cs' where "strip_to_root (take (p_cut t) t) = (r, cs')" "cs = p_cut t # cs'"
  using assms by (cases "strip_to_root (take (p_cut t) t)") (simp add: strip_to_root.simps [of t])

lemma strip_last:
  "strip_to_root t = (r, cs) \<Longrightarrow> (let k = last (length t # cs) in
     k \<le> length t \<and> u32_p_isroot (take k t) = r \<and> (r \<or> length (take k t) \<le> p_cut (take k t)))"
proof (induction t arbitrary: r cs rule: strip_to_root.induct)
  case (1 t)
  show ?case
  proof (cases "u32_p_isroot t \<or> \<not> p_cut t < length t")
    case True
    then show ?thesis using "1.prems" by (auto simp: strip_to_root.simps [of t] split: if_splits)
  next
    case False
    then obtain cs' where s: "strip_to_root (take (p_cut t) t) = (r, cs')" "cs = p_cut t # cs'"
      using strip_step [OF _ _ "1.prems"] by blast
    define k where "k = last (length (take (p_cut t) t) # cs')"
    have ih: "k \<le> length (take (p_cut t) t)" "u32_p_isroot (take k (take (p_cut t) t)) = r"
      "r \<or> length (take k (take (p_cut t) t)) \<le> p_cut (take k (take (p_cut t) t))"
      using "1.IH" [OF _ _ s(1)] False unfolding k_def Let_def by blast+
    have "last (length t # cs) = k" using s(2) False by (simp add: k_def)
    moreover have "take k (take (p_cut t) t) = take k t" "k \<le> length t" using ih(1) by (simp_all add: min_def split: if_splits)
    ultimately show ?thesis using ih(2,3) by (simp only: Let_def)
  qed
qed

text \<open>The naked drive that loses its separator gets it back at the end.\<close>

definition fix_drive :: "'c::len word list \<Rightarrow> 'c word list" where
  "fix_drive d = (if length d = 2 \<and> last d = COLON then d @ [SEP] else d)"

text \<open>The characters the code treats specially are different, at both widths.\<close>

locale path_chars =
  fixes ty :: "'c::len word itself"
  assumes special: "(SEP :: 'c word) \<noteq> COLON" "(SEP :: 'c word) \<noteq> DOT" "(DOT :: 'c word) \<noteq> COLON"
    "(SEP :: 'c word) \<noteq> 0" "(DOT :: 'c word) \<noteq> 0" "(COLON :: 'c word) \<noteq> 0"
begin

lemma back_up_stack:
  fixes x :: "'c word"
  assumes h: "holds buf n (stack_path x st)" and x: "x \<noteq> SEP" and st: "list_all plain_comp st"
  shows "back_up 3 buf n = length (stack_path x (butlast st)) - 1"
proof (cases st rule: rev_cases)
  case Nil
  have n: "n = 3" "buf 0 = x" "buf 1 = COLON" "buf 2 = SEP"
    using h Nil holds_nth [OF h] by (auto simp: holds_def stack_path_def)
  have "last_sep buf n = None" by (rule last_sep_None) (use n x special in \<open>auto simp: less_Suc_eq numeral_2_eq_2\<close>)
  then show ?thesis using n Nil by (simp add: back_up_def stack_path_def)
next
  case (snoc ys c)
  let ?e = "stack_path x ys"
  have n: "n = length ?e + length c + 1" using h by (simp add: holds_def snoc stack_path_snoc)
  have b: "buf i = (?e @ c @ [SEP]) ! i" if "i < n" for i using holds_nth [OF h that] by (simp add: snoc stack_path_snoc)
  have c: "SEP \<notin> set c" using st snoc by (simp add: plain_comp_def)
  have l: "buf (length ?e - 1) = SEP"
    using b [of "length ?e - 1"] n stack_path_last [of x ys] by (simp add: nth_append last_conv_nth)
  have "last_sep buf n = Some (length ?e - 1)"
  proof (rule last_sep_Some [of _ n])
    show "length ?e - 1 < n - 1" using n stack_path_last(3) [of x ys] st snoc by (simp add: plain_comp_def)
    show "buf (length ?e - 1) = SEP" by (rule l)
    show "buf i \<noteq> SEP" if "length ?e - 1 < i" "i < n - 1" for i
    proof -
      have "buf i = c ! (i - length ?e)" "i - length ?e < length c" using b [of i] that n by (auto simp: nth_append)
      then show ?thesis using c by (metis nth_mem)
    qed
  qed
  moreover have "buf 0 = x" using b [of 0] n by (simp add: stack_path_def)
  ultimately show ?thesis using x snoc by (simp add: back_up_def)
qed

lemma sep_copy:
  fixes src :: "'c word list"
  assumes "i < length src" "src ! i = SEP" "n < CANON_CAP"
  shows "canon_loop src root i buf n = canon_loop src root (i + 1) (buf(n := SEP)) (Suc n)"
  using assms special by (subst canon_loop.simps) simp

lemma run_copy:
  fixes src :: "'c word list"
  shows "drop i src = w @ rest \<Longrightarrow> SEP \<notin> set w \<Longrightarrow> COLON \<notin> set w \<Longrightarrow> 0 < i \<Longrightarrow> src ! (i - 1) \<noteq> SEP \<Longrightarrow> src ! (i - 1) \<noteq> COLON \<Longrightarrow>
    holds buf n d \<Longrightarrow> d \<noteq> [] \<Longrightarrow> last d \<noteq> SEP \<Longrightarrow> n + length w \<le> CANON_CAP \<Longrightarrow>
    \<exists>buf'. canon_loop src root i buf n = canon_loop src root (i + length w) buf' (n + length w) \<and> holds buf' (n + length w) (d @ w)"
proof (induction w arbitrary: i buf n d)
  case (Cons c w)
  have at: "src ! i = c" "i < length src" using drop_at [OF Cons.prems(1), of 0] by simp_all
  have "buf (n - 1) \<noteq> SEP" using holds_nth [OF Cons.prems(7), of "n - 1"] Cons.prems(7,8,9)
    by (simp add: holds_def last_conv_nth)
  then have step: "canon_loop src root i buf n = canon_loop src root (i + 1) (buf(n := c)) (n + 1)"
    using at Cons.prems by (subst canon_loop.simps) simp
  define b where "b = buf(n := c)"
  have dw: "drop (i + 1) src = w @ rest" using Cons.prems(1) at Cons_nth_drop_Suc [of i src] by simp
  have hb: "holds b (n + 1) (d @ [c])" using holds_put [OF Cons.prems(7)] by (simp add: b_def)
  obtain buf' where "canon_loop src root (i + 1) b (n + 1) = canon_loop src root (i + 1 + length w) buf' (n + 1 + length w)"
    "holds buf' (n + 1 + length w) ((d @ [c]) @ w)"
    using Cons.IH [OF dw _ _ _ _ _ hb] Cons.prems at by auto
  then show ?case using step by (intro exI [of _ buf']) (simp add: b_def)
qed auto

lemma comp_copy:
  fixes src :: "'c word list"
  assumes "drop i src = c @ rest" "plain_comp c" "holds buf n d" "n + length c \<le> CANON_CAP"
  shows "\<exists>buf'. canon_loop src root i buf n = canon_loop src root (i + length c) buf' (n + length c) \<and> holds buf' (n + length c) (d @ c)"
proof -
  obtain a w where c: "c = a # w" using assms(2) by (cases c) (auto simp: plain_comp_def)
  have at: "src ! i = a" "i < length src" using drop_at [OF assms(1), of 0] c by simp_all
  have dw: "drop (i + 1) src = w @ rest" using assms(1) c at Cons_nth_drop_Suc [of i src] by simp
  have "\<not> (a = DOT \<and> (chr_at src (i + 1) = SEP \<or> chr_at src (i + 1) = DOT))"
  proof (cases w)
    case (Cons b w')
    then have "chr_at src (i + 1) = b" using drop_at [OF dw, of 0] by (simp add: chr_at_def)
    then show ?thesis using assms(2) c Cons by (auto simp: plain_comp_def)
  qed (use assms(2) c in \<open>simp add: plain_comp_def\<close>)
  then have step: "canon_loop src root i buf n = canon_loop src root (i + 1) (buf(n := a)) (n + 1)"
    using at assms(4) c by (subst canon_loop.simps) auto
  have "holds (buf(n := a)) (n + 1) (d @ [a])" using holds_put [OF assms(3)] by simp
  moreover have "a \<noteq> SEP" "a \<noteq> COLON" "SEP \<notin> set w" "COLON \<notin> set w" using assms(2) c by (auto simp: plain_comp_def)
  ultimately obtain buf' where "canon_loop src root (i + 1) (buf(n := a)) (n + 1) = canon_loop src root (i + 1 + length w) buf' (n + 1 + length w)"
    "holds buf' (n + 1 + length w) ((d @ [a]) @ w)"
    using run_copy [OF dw, of "buf(n := a)" "n + 1" "d @ [a]" root] at assms(4) c by auto
  then show ?thesis using step c by (intro exI [of _ buf']) simp
qed

lemma dots_step:
  fixes src :: "'c word list"
  assumes "drop i src = [DOT, DOT] @ rest" "holds buf n (stack_path x st)" "x \<noteq> SEP" "list_all plain_comp st"
  defines "n' \<equiv> length (stack_path x (butlast st)) - 1"
  shows "canon_loop src 3 i buf n = canon_loop src 3 (i + 2) buf n'" "holds buf n' (butlast (stack_path x (butlast st)))"
proof -
  have at: "src ! i = DOT" "i < length src" "chr_at src (i + 1) = DOT"
    using drop_at [OF assms(1), of 0] drop_at [OF assms(1), of 1] by (simp_all add: chr_at_def)
  have n: "n = length (stack_path x st)" using assms(2) by (simp add: holds_def)
  have "0 < n" "buf (n - 1) = SEP"
    using holds_nth [OF assms(2), of "n - 1"] stack_path_last [of x st] n by (simp_all add: last_conv_nth)
  then show "canon_loop src 3 i buf n = canon_loop src 3 (i + 2) buf n'"
    using at special back_up_stack [OF assms(2-4)] by (subst canon_loop.simps) (simp add: n'_def)
  have "take n' (stack_path x st) = butlast (stack_path x (butlast st))" "n' \<le> n"
    using stack_path_last(3) [of x "butlast st"] n by (cases st rule: rev_cases; simp add: n'_def stack_path_snoc butlast_conv_take)+
  then show "holds buf n' (butlast (stack_path x (butlast st)))" using holds_take [OF assms(2), of n'] by simp
qed

lemma canon_end: "i = length src \<Longrightarrow> holds buf n d \<Longrightarrow> canon_loop src root i buf n = Some d"
  unfolding holds_def by (subst canon_loop.simps) auto

lemma fix_drive_stack: "fix_drive (butlast (stack_path x st)) = [x, COLON, SEP] @ path_join st"
proof (cases st rule: rev_cases)
  case (snoc ys c)
  have "length (butlast (stack_path x st)) \<noteq> 2" unfolding snoc butlast_stack by simp
  then show ?thesis by (simp add: fix_drive_def snoc butlast_stack)
qed (simp add: stack_path_def fix_drive_def)

lemma canon_comps:
  fixes src :: "'c word list"
  assumes "x \<noteq> SEP" "length src < CANON_CAP"
  shows "list_all comp_ok cs \<Longrightarrow> cs \<noteq> [] \<Longrightarrow> last cs \<noteq> [DOT] \<Longrightarrow> drop i src = path_join cs \<Longrightarrow> 0 < i \<Longrightarrow> src ! (i - 1) = SEP \<Longrightarrow>
    list_all plain_comp st \<Longrightarrow> holds buf n (stack_path x st) \<Longrightarrow> n \<le> i \<Longrightarrow>
    \<exists>d. canon_loop src 3 i buf n = Some d \<and> fix_drive d = [x, COLON, SEP] @ path_join (foldl resolve1 st cs)"
proof (induction cs arbitrary: i buf n st)
  case (Cons c cs)
  note P = Cons.prems
  define rest where "rest = (if cs = [] then [] else SEP # path_join cs)"
  have dr: "drop i src = c @ rest" using P(4) by (cases cs) (simp_all add: rest_def)
  have len: "length src = i + length c + length rest" using arg_cong [OF dr, of length] P(1) by (cases "i \<le> length src") (auto simp: comp_ok_def plain_comp_def)
  have ok: "list_all comp_ok cs" "cs \<noteq> [] \<Longrightarrow> last cs \<noteq> [DOT]" using P(1,3) by auto
  have sep: "src ! (i + length c) = SEP" "drop (i + length c + 1) src = path_join cs" if "cs \<noteq> []"
  proof -
    have "drop (i + length c) src = SEP # path_join cs" using arg_cong [OF dr, of "drop (length c)"] that by (simp add: rest_def ac_simps)
    then show "src ! (i + length c) = SEP" "drop (i + length c + 1) src = path_join cs"
      using drop_at [of "i + length c" src "SEP # path_join cs" 0] Cons_nth_drop_Suc [of "i + length c" src] by auto
  qed
  text \<open>After a component and its separator the buffer holds the new stack.\<close>
  have next_comp: ?case if "cs \<noteq> []" "canon_loop src 3 i buf n = canon_loop src 3 (i + length c) buf' n'"
    "holds buf' n' e" "e @ [SEP] = stack_path x st'" "st' = resolve1 st c" "list_all plain_comp st'" "n' \<le> i + length c" for buf' n' e st'
  proof -
    define b where "b = buf'(n' := SEP)"
    have "canon_loop src 3 i buf n = canon_loop src 3 (i + length c + 1) b (Suc n')"
      using that(1,2,7) sep(1) sep_copy [of "i + length c" src n' 3 buf'] len assms(2) by (simp add: rest_def b_def)
    moreover have "holds b (Suc n') (stack_path x st')" using holds_put [OF that(3), of SEP] that(4) by (simp add: b_def)
    ultimately show ?thesis
      using Cons.IH [OF ok(1) that(1) ok(2) [OF that(1)] sep(2) [OF that(1)], of "st'" b "Suc n'"] that sep(1) by auto
  qed
  consider "c = [DOT]" | "c = [DOT, DOT]" | "plain_comp c" using P(1) by (auto simp: comp_ok_def)
  then show ?case
  proof cases
    case 1
    then have cs: "cs \<noteq> []" using P(3) by auto
    have "src ! i = DOT" "i < length src" "chr_at src (i + 1) = SEP"
      using drop_at [OF dr, of 0] drop_at [OF dr, of 1] 1 cs by (simp_all add: rest_def chr_at_def)
    then have "canon_loop src 3 i buf n = canon_loop src 3 (i + 2) buf n" using P(6) by (subst canon_loop.simps) simp
    then show ?thesis using Cons.IH [OF ok(1) cs ok(2) [OF cs] _ _ _ P(7,8), of "i + 2"] sep [OF cs] 1 P(9) by (simp add: resolve1_def)
  next
    case 2
    note s = dots_step [OF dr [unfolded 2] P(8) assms(1) P(7)]
    let ?e = "butlast (stack_path x (butlast st))"
    have pl: "list_all plain_comp (butlast st)" using P(7) by (cases st rule: rev_cases) auto
    have b: "?e @ [SEP] = stack_path x (butlast st)" using stack_path_last [of x "butlast st"] by (metis append_butlast_last_id)
    have "length (stack_path x (butlast st)) \<le> length (stack_path x st)" by (cases st rule: rev_cases) (simp_all add: stack_path_snoc)
    then have n: "length (stack_path x (butlast st)) - 1 \<le> i + length c" using P(8,9) by (simp add: holds_def)
    show ?thesis
    proof (cases "cs = []")
      case True
      then show ?thesis using s canon_end [of "i + 2" src] len 2 fix_drive_stack [of x "butlast st"]
        by (auto simp: rest_def resolve1_def)
    next
      case False
      show ?thesis by (rule next_comp [OF False _ s(2) b _ pl n]) (use s(1) 2 in \<open>simp_all add: resolve1_def\<close>)
    qed
  next
    case 3
    then have r: "resolve1 st c = st @ [c]" by (auto simp: resolve1_def plain_comp_def)
    have "n + length c \<le> CANON_CAP" using P(9) len assms(2) by simp
    then obtain buf' where s: "canon_loop src 3 i buf n = canon_loop src 3 (i + length c) buf' (n + length c)"
      "holds buf' (n + length c) (stack_path x st @ c)" using comp_copy [OF dr 3 P(8)] by blast
    show ?thesis
    proof (cases "cs = []")
      case True
      have e: "stack_path x st @ c = butlast (stack_path x (st @ [c]))" by (simp add: stack_path_snoc butlast_append)
      then show ?thesis using s canon_end [of "i + length c" src] len True fix_drive_stack [of x "st @ [c]"] r by (auto simp: rest_def)
    next
      case False
      show ?thesis by (rule next_comp [OF False s, of "st @ [c]"]) (use P(7,9) 3 r in \<open>simp_all add: stack_path_snoc\<close>)
    qed
  qed
qed simp

lemma chr_at_bound: "chr_at s i = c \<Longrightarrow> c \<noteq> 0 \<Longrightarrow> i < length s"
  by (auto simp: chr_at_def split: if_splits)

lemma back_up_le: "back_up root buf n \<le> max n (root - 1)"
proof -
  have "j < n - 1" if s: "last_sep buf n = Some j" for j
  proof -
    obtain ks where "filter (\<lambda>k. buf k = SEP) (rev [0..<n - 1]) = j # ks" using s by (auto simp: last_sep_def split: list.splits)
    then have "j \<in> set (rev [0..<n - 1])" by (metis filter_is_subset list.set_intros(1) subsetD)
    then show ?thesis by simp
  qed
  then show ?thesis by (auto simp: back_up_def split: option.splits)
qed

text \<open>The filled part never passes what was read, so a short path fits.\<close>

lemma canon_fits:
  fixes src :: "'c word list"
  shows "n \<le> i \<Longrightarrow> root \<le> i \<Longrightarrow> i \<le> length src \<Longrightarrow> length src < CANON_CAP \<Longrightarrow>
    \<exists>d. canon_loop src root i buf n = Some d \<and> length d \<le> length src"
proof (induction src root i buf n rule: canon_loop.induct)
  case (1 src root i buf n)
  let ?r1 = "src ! i = DOT \<and> chr_at src (i + 1) = SEP \<and> (i = 0 \<or> src ! (i - 1) = SEP \<or> src ! (i - 1) = COLON)"
  let ?r2 = "src ! i = DOT \<and> chr_at src (i + 1) = DOT \<and> n > 0 \<and> buf (n - 1) = SEP"
  consider "i = length src" | "i < length src" ?r1 | "i < length src" "\<not> ?r1" ?r2 | "i < length src" "\<not> ?r1" "\<not> ?r2"
    using "1.prems"(3) by linarith
  then show ?case
  proof cases
    case 1
    then show ?thesis using "1.prems" by (subst canon_loop.simps) simp
  next
    case 2
    have "i + 1 < length src" using 2(2) special chr_at_bound by metis
    then show ?thesis using "1.IH"(1) [OF 2] "1.prems" 2 by (subst canon_loop.simps) simp
  next
    case 3
    have "i + 1 < length src" using 3(3) special chr_at_bound by metis
    then have "\<exists>d. canon_loop src root (i + 2) buf (back_up root buf n) = Some d \<and> length d \<le> length src"
      using "1.IH"(2) [OF 3] "1.prems" back_up_le [of root buf n] by simp
    then show ?thesis by (subst canon_loop.simps) (use 3 special in simp)
  next
    case 4
    have n: "n < CANON_CAP" using "1.prems" 4(1) by simp
    then have "\<exists>d. canon_loop src root (i + 1) (buf(n := src ! i)) (n + 1) = Some d \<and> length d \<le> length src"
      using "1.IH"(3) [OF 4 n] "1.prems" 4(1) by (simp add: fun_upd_def)
    then show ?thesis by (subst canon_loop.simps) (simp only: 4 n if_True if_False)
  qed
qed

text \<open>Without dots every character is stored, so a long path does not.\<close>

lemma canon_overflows:
  fixes src :: "'c word list"
  shows "DOT \<notin> set src \<Longrightarrow> i \<le> length src \<Longrightarrow> CANON_CAP \<le> n + (length src - i) \<Longrightarrow>
    canon_loop src root i buf n = None \<or> (\<exists>d. canon_loop src root i buf n = Some d \<and> CANON_CAP \<le> length d)"
proof (induction "length src - i" arbitrary: i buf n)
  case 0
  then show ?case by (subst canon_loop.simps, subst (2) canon_loop.simps) simp
next
  case (Suc k)
  have i: "i < length src" using Suc.hyps(2) by simp
  then have "src ! i \<noteq> DOT" using Suc.prems(1) nth_mem by metis
  note i = i this
  have "canon_loop src root i buf n = (if n < CANON_CAP then canon_loop src root (i + 1) (buf(n := src ! i)) (n + 1) else None)"
    using i by (subst canon_loop.simps) simp
  then show ?case using Suc.hyps(1) [of "i + 1" "n + 1" "buf(n := src ! i)"] Suc.hyps(2) Suc.prems i by (auto split: if_splits)
qed

lemma canon_root_le: fixes src :: "'c word list" shows "src \<noteq> [] \<Longrightarrow> canon_root src \<le> length src"
  using special chr_at_bound [of src 1 COLON] chr_at_bound [of src 2 SEP] by (auto simp: canon_root_def Suc_le_eq)

lemma canon_scratch:
  fixes src :: "'c word list"
  shows "(length src < CANON_CAP \<longrightarrow> (\<exists>d. u32_p_canon src = Some d \<and> length d \<le> max (length src) 3))
    \<and> (DOT \<notin> set src \<and> CANON_CAP \<le> length src \<longrightarrow> u32_p_canon src = None)"
proof (intro conjI impI)
  assume l: "length src < CANON_CAP"
  show "\<exists>d. u32_p_canon src = Some d \<and> length d \<le> max (length src) 3"
  proof (cases "src = []")
    case False
    then obtain d where "canon_loop src (canon_root src) (canon_root src) (chr_at src) (canon_root src) = Some d" "length d \<le> length src"
      using canon_fits [of "canon_root src" "canon_root src" "canon_root src" src] canon_root_le l by blast
    then show ?thesis using False l by (auto simp: u32_p_canon_def Let_def CANON_CAP_def)
  qed (simp add: u32_p_canon_def)
next
  assume a: "DOT \<notin> set src \<and> CANON_CAP \<le> length src"
  then have n: "src \<noteq> []" by (auto simp: CANON_CAP_def)
  then show "u32_p_canon src = None"
    using canon_overflows [of src "canon_root src" "canon_root src" "canon_root src" "chr_at src"] canon_root_le [OF n] a
    by (auto simp: u32_p_canon_def Let_def CANON_CAP_def)
qed

lemma canon_drive:
  fixes x :: "'c word"
  assumes "x \<noteq> SEP" "list_all comp_ok cs" "cs \<noteq> []" "last cs \<noteq> [DOT]" "3 + length (path_join cs) < CANON_CAP"
  shows "u32_p_canon ([x, COLON, SEP] @ path_join cs) = Some ([x, COLON, SEP] @ path_join (path_resolve cs))"
proof -
  let ?src = "[x, COLON, SEP] @ path_join cs"
  have root: "canon_root ?src = 3" using assms(1) special by (simp add: canon_root_def chr_at_def)
  have "holds (chr_at ?src) 3 (stack_path x [])"
    by (simp add: holds_def stack_path_def chr_at_def numeral_3_eq_3)
  then obtain d where d: "canon_loop ?src 3 3 (chr_at ?src) 3 = Some d" "fix_drive d = [x, COLON, SEP] @ path_join (path_resolve cs)"
    using canon_comps [of x ?src cs 3 "[]" "chr_at ?src" 3] assms by (auto simp: path_resolve_def numeral_3_eq_3)
  have "u32_p_canon ?src \<noteq> None" using canon_scratch [of ?src] assms(5) by auto
  then show ?thesis using d root by (auto simp: u32_p_canon_def Let_def fix_drive_def split: if_splits)
qed

lemma drive_base:
  fixes x :: "'c word"
  assumes "COLON \<notin> set u" shows "u32_p_base ([x, COLON, SEP] @ u) = 3"
proof -
  let ?t = "[x, COLON, SEP] @ u"
  define f where "f = (\<lambda>i b. if ?t ! i = COLON then if chr_at ?t (i + 1) = SEP then i + 2 else i + 1 else b)"
  have "f i b = b" if "2 \<le> i" "i < length ?t" for i b
  proof -
    have "?t ! i = SEP \<or> ?t ! i \<in> set u" using that by (cases i; cases "i - 1"; cases "i - 2") (auto simp: nth_Cons')
    then have "?t ! i \<noteq> COLON" using assms special by metis
    then show ?thesis by (simp add: f_def)
  qed
  then have keep: "fold f js b = b" if "set js \<subseteq> {2..<length ?t}" for js b using that by (induction js) auto
  have sp: "[0..<length ?t] = 0 # 1 # [2..<length ?t]" by (simp add: upt_rec numeral_2_eq_2)
  have "fold f [0..<length ?t] b = fold f [2..<length ?t] (f 1 (f 0 b))" for b by (simp only: sp fold_simps)
  also have "fold f [2..<length ?t] (f 1 (f 0 b)) = 3" for b by (subst keep) (auto simp: f_def chr_at_def)
  finally have "fold f [0..<length ?t] b = 3" for b .
  then show ?thesis by (simp only: u32_p_base_def f_def)
qed

lemma strip_drive:
  fixes x :: "'c word"
  shows "x \<noteq> SEP \<Longrightarrow> COLON \<notin> set u \<Longrightarrow> strip_to_root ([x, COLON, SEP] @ u) = (r, cs) \<Longrightarrow> r \<and> last (length ([x, COLON, SEP] @ u) # cs) = 3"
proof (induction "length u" arbitrary: u r cs rule: less_induct)
  case less
  let ?t = "[x, COLON, SEP] @ u"
  show ?case
  proof (cases "u = []")
    case True
    have "u32_p_isroot [x, COLON, SEP]" using less.prems(1) by (simp add: u32_p_isroot_def chr_at_def)
    then show ?thesis using less.prems(3) True by (simp add: strip_to_root.simps [of "[x, COLON, SEP]"])
  next
    case False
    have "\<not> u32_p_isroot ?t" using False less.prems(1) by (simp add: u32_p_isroot_def chr_at_def)
    moreover have c: "3 \<le> p_cut ?t" "p_cut ?t < length ?t"
      using cut_range [of ?t] drive_base [OF less.prems(2), of x] False by simp_all
    ultimately obtain cs' where s: "strip_to_root (take (p_cut ?t) ?t) = (r, cs')" "cs = p_cut ?t # cs'"
      using strip_step [OF _ _ less.prems(3)] by blast
    let ?u = "take (p_cut ?t - 3) u"
    have e: "take (p_cut ?t) ?t = [x, COLON, SEP] @ ?u" using c(1) by (auto simp: take_Cons' numeral_3_eq_3)
    have "length ?u < length u" using c by simp
    moreover have "COLON \<notin> set ?u" using less.prems(2) by (meson in_set_takeD)
    ultimately have "r \<and> last (length ([x, COLON, SEP] @ ?u) # cs') = 3"
      using less.hyps less.prems(1) s(1) unfolding e by blast
    moreover have "last (length ?t # cs) = last (length (take (p_cut ?t) ?t) # cs')" using s(2) c(2) by simp
    ultimately show ?thesis unfolding e by simp
  qed
qed

end

interpretation alA: path_chars "TYPE(u8)"
  by unfold_locales simp_all

interpretation alW: path_chars "TYPE(u16)"
  by unfold_locales simp_all

text \<open>C8: \<^verbatim>\<open>PathCanonicalize\<close> resolves a well-formed drive path component by component, at both character
  widths: \<^verbatim>\<open>.\<close> disappears, \<^verbatim>\<open>..\<close> takes back the component before it and stays inside the drive root, every
  other component is kept. Well-formed: the path is a drive letter (any character but a separator), a colon
  and a backslash, then at least one component, joined by single backslashes, of at most 520 characters in all;
  each component is \<^verbatim>\<open>.\<close>, \<^verbatim>\<open>..\<close> or a non-empty name without backslashes and colons that does not
  begin with two dots; and the last component is not \<^verbatim>\<open>.\<close> (the code removes a \<^verbatim>\<open>.\<close> only together with the
  separator behind it, so a final one is kept).\<close>

theorem path_canonicalize_resolves:
  "(x \<noteq> SEP \<and> list_all comp_ok cs \<and> cs \<noteq> [] \<and> last cs \<noteq> [DOT] \<and> length (path_join cs) \<le> 520 \<longrightarrow>
     u32_p_canon ([x, COLON, SEP] @ path_join cs :: u8 list) = Some ([x, COLON, SEP] @ path_join (path_resolve cs)))
   \<and> (x' \<noteq> SEP \<and> list_all comp_ok cs' \<and> cs' \<noteq> [] \<and> last cs' \<noteq> [DOT] \<and> length (path_join cs') \<le> 520 \<longrightarrow>
     u32_p_canon ([x', COLON, SEP] @ path_join cs' :: u16 list) = Some ([x', COLON, SEP] @ path_join (path_resolve cs')))"
  using alA.canon_drive [of x cs] alW.canon_drive [of x' cs'] by (simp add: CANON_CAP_def)

text \<open>\<^verbatim>\<open>C:\a\.\b\..\c\..\..\..\d\<close> is \<^verbatim>\<open>C:\d\<close>.\<close>

theorem path_canonicalize_resolves_witness:
  "u32_p_canon ([0x43, COLON, SEP] @ path_join [[0x61], [DOT], [0x62], [DOT, DOT], [0x63], [DOT, DOT], [DOT, DOT], [DOT, DOT], [0x64]] :: u8 list)
     = Some [0x43, COLON, SEP, 0x64]"
  using path_canonicalize_resolves [of "0x43" "[[0x61], [DOT], [0x62], [DOT, DOT], [0x63], [DOT, DOT], [DOT, DOT], [DOT, DOT], [0x64]]"]
  by (simp add: comp_ok_def plain_comp_def path_resolve_def resolve1_def)

text \<open>The scratch buffer of \<^verbatim>\<open>PathCanonicalize\<close> holds every path of up to 523 characters, and the result is
  no longer than the path (or three characters); the code does not check the length, so a longer path without
  dots is written past the end of the buffer.\<close>

theorem path_canonicalize_scratch:
  "(length src \<le> 523 \<longrightarrow> (\<exists>d. u32_p_canon (src :: u8 list) = Some d \<and> length d \<le> max (length src) 3))
   \<and> (DOT \<notin> set src \<and> 524 \<le> length src \<longrightarrow> u32_p_canon src = None)"
  using alA.canon_scratch [of src] by (simp add: CANON_CAP_def less_Suc_eq_le)

theorem path_canonicalize_scratch_witness:
  "u32_p_canon (replicate 600 0x61 :: u8 list) = None \<and> (\<exists>d. u32_p_canon (replicate 500 0x61 :: u8 list) = Some d)"
proof -
  have "(DOT :: u8) \<notin> set (replicate 600 0x61)" by (simp only: set_replicate_conv_if) simp
  moreover have "524 \<le> length (replicate 600 (0x61 :: u8))" "length (replicate 500 (0x61 :: u8)) \<le> 523"
    by (simp_all only: length_replicate)
  ultimately show ?thesis
    using path_canonicalize_scratch [of "replicate 600 0x61"] path_canonicalize_scratch [of "replicate 500 0x61"] by blast
qed

section \<open>Roots and extensions in memory\<close>

text \<open>What \<^verbatim>\<open>PathStripToRoot\<close> promises: status \<open>r\<close>, and the path before and after.\<close>

definition strip_post :: "'c::len word list \<Rightarrow> u32 \<Rightarrow> 'c word list \<Rightarrow> bool" where
  "strip_post t r t' \<longleftrightarrow> prefix t' t \<and> (r = 1 \<and> u32_p_isroot t' \<or> r = 0 \<and> \<not> u32_p_isroot t' \<and> length t' \<le> p_cut t')
     \<and> (\<forall>x u. t = [x, COLON, SEP] @ u \<and> x \<noteq> SEP \<and> COLON \<notin> set u \<longrightarrow> r = 1 \<and> t' = [x, COLON, SEP])"

text \<open>What \<^verbatim>\<open>PathRenameExtension\<close> promises: the path up to the extension, then the new one, which is then found.\<close>

definition rename_post :: "'c::len word list \<Rightarrow> 'c word list \<Rightarrow> u32 \<Rightarrow> 'c word list \<Rightarrow> bool" where
  "rename_post t x r t' \<longleftrightarrow> r = 1 \<and> t' = take (u32_p_ext t) t @ x \<and> u32_p_ext t' = u32_p_ext t"

lemma ext_scan_append:
  "SEP \<notin> set y \<Longrightarrow> 0x20 \<notin> set y \<Longrightarrow> DOT \<notin> set y \<Longrightarrow> ext_scan y i (Some k) = k"
  by (induction y arbitrary: i) auto

lemma ext_of_renamed:
  "DOT \<noteq> (SEP :: 'c::len word) \<Longrightarrow> DOT \<noteq> (0x20 :: 'c word) \<Longrightarrow> SEP \<notin> set y \<Longrightarrow> 0x20 \<notin> set y \<Longrightarrow> DOT \<notin> set y \<Longrightarrow>
    ext_scan (a @ (DOT :: 'c word) # y) i h = i + length a"
  by (induction a arbitrary: i h) (simp_all add: ext_scan_append)

context c_string
begin

lemma strip_mem:
  "strip_to_root t = (r, cs) \<Longrightarrow> c_str T m p = t \<Longrightarrow> unat p + c_size T * length t \<le> 2 ^ 32 \<Longrightarrow>
    c_str T (fold (\<lambda>c m. c_put T m p c 0) cs m) p = take (last (length t # cs)) t"
proof (induction t arbitrary: r cs m rule: strip_to_root.induct)
  case (1 t)
  show ?case
  proof (cases "u32_p_isroot t \<or> \<not> p_cut t < length t")
    case True
    then show ?thesis using "1.prems" by (auto simp: strip_to_root.simps [of t] split: if_splits)
  next
    case False
    then obtain cs' where s: "strip_to_root (take (p_cut t) t) = (r, cs')" "cs = p_cut t # cs'"
      using strip_step [OF _ _ "1.prems"(1)] by blast
    let ?m = "c_put T m p (p_cut t) 0" and ?t = "take (p_cut t) t"
    have cut: "c_str T ?m p = ?t" using cut_str [of "p_cut t" m p] False "1.prems" by simp
    have "c_size T * length ?t \<le> c_size T * length t" by (intro mult_le_mono2) simp
    then have fit: "unat p + c_size T * length ?t \<le> 2 ^ 32" using "1.prems"(3) by linarith
    have "c_str T (fold (\<lambda>c m. c_put T m p c 0) cs' ?m) p = take (last (length ?t # cs')) ?t"
      using "1.IH" [OF _ _ s(1) cut fit] False by blast
    moreover have "last (length ?t # cs') \<le> length ?t" using strip_last [OF s(1)] by (simp add: Let_def)
    ultimately show ?thesis using s(2) False by (simp add: min_def)
  qed
qed

end

locale path_string = c_string T + path_chars ty for T :: "'c::len word chars" and ty :: "'c word itself"
begin

lemma strip_call:
  assumes "p = WU esp 0 s" "p \<noteq> 0" "unat p + c_size T * length (c_str T (mem s) p) \<le> 2 ^ 32" "aret_PathStripToRoot T esp s = (r, s')"
  shows "strip_post (c_str T (mem s) p) r (c_str T (mem s') p)"
proof -
  let ?t = "c_str T (mem s) p"
  obtain b cs where st: "strip_to_root ?t = (b, cs)" by fastforce
  define k where "k = last (length ?t # cs)"
  have t': "c_str T (mem s') p = take k ?t" and r: "r = c_bool b"
    using assms(1,2,4) strip_mem [OF st refl assms(3)] st by (auto simp: aret_PathStripToRoot_def k_def)
  have l: "u32_p_isroot (take k ?t) = b" "b \<or> length (take k ?t) \<le> p_cut (take k ?t)"
    using strip_last [OF st] unfolding k_def Let_def by blast+
  have "r = 1 \<and> take k ?t = [x, COLON, SEP]" if "?t = [x, COLON, SEP] @ u" "x \<noteq> SEP" "COLON \<notin> set u" for x u
    using strip_drive [OF that(2,3), of b cs] st that(1) r by (simp add: k_def c_bool_def)
  then show ?thesis using l r unfolding strip_post_def t' by (auto simp: c_bool_def take_is_prefix)
qed

lemma rename_call:
  assumes "p = WU esp 0 s" "e = WU esp 1 s" "p \<noteq> 0" "e \<noteq> 0" "aret_PathRenameExtension T esp s = (r, s')"
    and "t = c_str T (mem s) p" "x = c_str T (mem s) e" "k = u32_p_ext t" "k + length x < 260"
    and "disjoint_arrays (c_size T) (c_ptr T p k) e (length x + 1)"
    and fits: "unat p + c_size T * (k + length x + 1) \<le> 2 ^ 32" "unat e + c_size T * (length x + 1) \<le> 2 ^ 32"
    and "k \<le> length t" "x = DOT # y" "SEP \<notin> set y" "0x20 \<notin> set y" "DOT \<notin> set y" "(DOT :: 'c word) \<noteq> 0x20"
  shows "rename_post t x r (c_str T (mem s') p)"
proof -
  let ?m = "mem s" and ?n = "length x + 1" and ?d = "c_ptr T p k"
  let ?m' = "copy_loop (c_get T) (c_put T) ?d e ?n ?m"
  have r: "r = 1" "mem s' = ?m'" using assms(1-9) by (auto simp: aret_PathRenameExtension_def Let_def)
  have bound: "c_size T * (k + ?n) \<le> 2 ^ 32" "c_size T * ?n \<le> 2 ^ 32" using fits by (simp_all add: algebra_simps)
  have low: "c_get T ?m' p j = c_get T ?m p j" if "j < k" for j
  proof (rule get_local)
    fix i assume i: "i < c_size T"
    have "outside (c_size T) ?d ?n (p + of_nat (c_size T * j + i))"
      unfolding outside_def
    proof (intro allI impI)
      fix l assume l: "l < c_size T * ?n"
      have "c_size T * j + i < c_size T * k" using slot_in [OF that i] .
      then have "p + of_nat (c_size T * j + i) \<noteq> p + of_nat (c_size T * k + l)"
        using bound(1) l by (intro offset_neq) (simp_all add: algebra_simps)
      then show "p + of_nat (c_size T * j + i) \<noteq> ?d + of_nat l" by (simp add: c_ptr_def add.assoc)
    qed
    then show "?m' (p + of_nat (c_size T * j + i)) = ?m (p + of_nat (c_size T * j + i))" by (rule copy_outside [rotated]) simp
  qed
  have high: "c_get T ?m' p (k + j) = c_get T ?m e j" if "j < ?n" for j
    using copy_arr [OF assms(10) bound(2) order_refl that, of ?m] that get_shift [of ?m' p k j] by simp
  have "c_str T ?m' p = take k t @ x"
  proof (rule str_eqI)
    show "0 \<notin> set (take k t @ x)" using str_nonzero [of ?m p] str_nonzero [of ?m e] assms(6,7) by (auto dest: in_set_takeD)
    show "c_get T ?m' p i = (take k t @ x) ! i" if "i < length (take k t @ x)" for i
    proof (cases "i < k")
      case True
      then show ?thesis using low [OF True] str_nth [of i ?m p] assms(6,13) by (simp add: nth_append)
    next
      case False
      have "i < k + length x" using that assms(13) by simp
      with False have "i - k < length x" "k + (i - k) = i" by linarith+
      then show ?thesis using high [of "i - k"] str_nth [of "i - k" ?m e] assms(7,13) False by (simp add: nth_append)
    qed
    have "length (take k t @ x) = k + length x" using assms(13) by simp
    then show "c_get T ?m' p (length (take k t @ x)) = 0" "unat p + c_size T * (length (take k t @ x) + 1) \<le> 2 ^ 32"
      using high [of "length x"] str_end [of e ?m] fits assms(7) by simp_all
  qed
  moreover have "u32_p_ext (take k t @ x) = k"
    unfolding u32_p_ext_def assms(14) using ext_of_renamed [OF _ assms(18,15,16,17), of "take k t" 0 None] special(2) assms(13) by simp
  ultimately show ?thesis using r assms(8) by (simp add: rename_post_def)
qed

end

interpretation psA: path_string charA "TYPE(u8)"
  by unfold_locales

interpretation psW: path_string charW "TYPE(u16)"
  by unfold_locales

lemma ext_scan_le: "(\<And>k. h = Some k \<Longrightarrow> k \<le> i) \<Longrightarrow> ext_scan s i h \<le> i + length s"
proof (induction s arbitrary: i h)
  case (Cons c s)
  then have "ext_scan s (i + 1) (if c = SEP \<or> c = 0x20 then None else if c = DOT then Some i else h) \<le> (i + 1) + length s"
    by (intro Cons.IH) (auto split: if_splits intro: le_SucI)
  then show ?case by simp
qed (auto split: option.splits)

lemma ext_le: "u32_p_ext s \<le> length s"
  using ext_scan_le [of None 0 s] by (simp add: u32_p_ext_def)

text \<open>C31: \<^verbatim>\<open>PathStripToRoot\<close> always stops, leaves a prefix of the path, and reports success exactly when
  that prefix is a root; it gives up only when nothing more can be cut, and a drive path becomes its drive
  root, at both character widths.\<close>

theorem path_strip_to_root:
  assumes "p = WU esp 0 s" "p \<noteq> 0"
  shows "(unat p + length (c_str charA (mem s) p) \<le> 2 ^ 32 \<longrightarrow> aret_PathStripToRoot charA esp s = (r, s') \<longrightarrow>
      strip_post (c_str charA (mem s) p) r (c_str charA (mem s') p))
    \<and> (unat p + 2 * length (c_str charW (mem s) p) \<le> 2 ^ 32 \<longrightarrow> aret_PathStripToRoot charW esp s = (r, s') \<longrightarrow>
      strip_post (c_str charW (mem s) p) r (c_str charW (mem s') p))"
  using psA.strip_call [OF assms] psW.strip_call [OF assms] by (simp add: charA_def charW_def)

text \<open>\<^verbatim>\<open>C:\a\b.c\<close> at 0x2000 and \<^verbatim>\<open>.txt\<close> at 0x3000, both passed as arguments.\<close>

definition path_demo :: hle where
  "path_demo = push_args 0x100 [0x2000, 0x3000] \<lparr>mem = st_bytes (st_bytes (\<lambda>_. 0x55)
     0x2000 [0x43, 0x3A, 0x5C, 0x61, 0x5C, 0x62, 0x2E, 0x63, 0]) 0x3000 [0x2E, 0x74, 0x78, 0x74, 0], g_last_error = 0\<rparr>"

lemma path_demo_args: "WU 0x100 0 path_demo = 0x2000" "WU 0x100 1 path_demo = 0x3000"
  "c_str charA (mem path_demo) 0x2000 = [0x43, COLON, SEP, 0x61, SEP, 0x62, DOT, 0x63]"
  "c_str charA (mem path_demo) 0x3000 = [DOT, 0x74, 0x78, 0x74]"
proof -
  show "WU 0x100 0 path_demo = 0x2000" "WU 0x100 1 path_demo = 0x3000" by (simp_all add: path_demo_def)
  show "c_str charA (mem path_demo) 0x2000 = [0x43, COLON, SEP, 0x61, SEP, 0x62, DOT, 0x63]" by code_simp
  show "c_str charA (mem path_demo) 0x3000 = [DOT, 0x74, 0x78, 0x74]" by code_simp
qed

theorem path_strip_to_root_witness:
  "\<exists>s'. aret_PathStripToRoot charA 0x100 path_demo = (1, s') \<and> c_str charA (mem s') 0x2000 = [0x43, COLON, SEP]"
proof -
  obtain r s' where c: "aret_PathStripToRoot charA 0x100 path_demo = (r, s')" by fastforce
  have "strip_post [0x43, COLON, SEP, 0x61, SEP, 0x62, DOT, 0x63] r (c_str charA (mem s') 0x2000)"
    using path_strip_to_root [of "0x2000" "0x100" path_demo r s'] c by (simp add: path_demo_args)
  then have "r = 1 \<and> c_str charA (mem s') 0x2000 = [0x43, COLON, SEP]" by (simp add: strip_post_def)
  then show ?thesis using c by blast
qed

text \<open>Renaming an extension keeps the path up to the old extension (or all of it when there is none),
  puts the new extension behind it, and \<^verbatim>\<open>PathFindExtension\<close> then finds exactly the new one.\<close>

theorem path_rename_extension:
  assumes "p = WU esp 0 s" "e = WU esp 1 s" "p \<noteq> 0" "e \<noteq> 0" "aret_PathRenameExtension charA esp s = (r, s')"
    and "t = c_str charA (mem s) p" "x = c_str charA (mem s) e" "k = u32_p_ext t" "k + length x < 260"
    and "disjoint_arrays 1 (p + of_nat k) e (length x + 1)" "unat p + 260 \<le> 2 ^ 32" "unat e + 260 \<le> 2 ^ 32"
    and "x = DOT # y" "SEP \<notin> set y" "0x20 \<notin> set y" "DOT \<notin> set y"
  shows "rename_post t x r (c_str charA (mem s') p)"
  by (rule psA.rename_call [OF assms(1-9), where y = y]) (use assms ext_le [of t] in \<open>simp_all add: charA_def c_ptr_def\<close>)

theorem path_rename_extension_witness:
  "\<exists>s'. aret_PathRenameExtension charA 0x100 path_demo = (1, s') \<and>
     c_str charA (mem s') 0x2000 = [0x43, COLON, SEP, 0x61, SEP, 0x62, DOT, 0x74, 0x78, 0x74]"
proof -
  obtain r s' where c: "aret_PathRenameExtension charA 0x100 path_demo = (r, s')" by fastforce
  have "disjoint_arrays 1 (0x2000 + of_nat 6) 0x3000 (4 + 1)" by (rule disjoint_arraysI) simp_all
  then have "rename_post [0x43, COLON, SEP, 0x61, SEP, 0x62, DOT, 0x63] [DOT, 0x74, 0x78, 0x74] r (c_str charA (mem s') 0x2000)"
    using path_rename_extension [of "0x2000" "0x100" path_demo "0x3000" r s', OF _ _ _ _ c refl refl refl, where y = "[0x74, 0x78, 0x74]"]
    by (simp add: path_demo_args u32_p_ext_def del: One_nat_def)
  then show ?thesis using c by (auto simp: rename_post_def u32_p_ext_def)
qed

end
