(* ===== verification/Aret_Shstr.thy ===== *)
theory Aret_Shstr
  imports Aret_Paths_Theorems
begin

text \<open>
  The \<^verbatim>\<open>Str*\<close> functions of \<^verbatim>\<open>shlwapi\<close> in \<^verbatim>\<open>aret_win32.c\<close>: searching, counted and bounded copies, trimming
  and duplication, over the macro parameter of the path functions; then that searching finds the first
  occurrence and that the copies bounded by the size of their destination stay inside it.
\<close>

section \<open>Searching\<close>

definition u32_s_low :: "'c::len word \<Rightarrow> 'c word" where
  "u32_s_low c = (if 0x41 \<le> c \<and> c \<le> 0x5A then c + 32 else c)"

text \<open>\<^verbatim>\<open>fold ? u32_s_low(c) : c\<close>\<close>

definition s_fold :: "bool \<Rightarrow> 'c::len word \<Rightarrow> 'c word" where
  "s_fold fo c = (if fo then u32_s_low c else c)"

definition aret_StrSpn :: "'c::len word chars \<Rightarrow> u32 \<Rightarrow> 'a hle_scheme \<Rightarrow> u32 \<times> 'a hle_scheme" where
  "aret_StrSpn T esp s = (let p = WU esp 0 s; q = WU esp 1 s; cs = c_str T (mem s) q in
     (if p = 0 \<or> q = 0 then 0 else of_nat (length (takeWhile (\<lambda>c. List.member cs c) (c_str T (mem s) p))), s))"

definition u32_s_cspn :: "bool \<Rightarrow> 'c::len word list \<Rightarrow> 'c word list \<Rightarrow> nat" where
  "u32_s_cspn fo t cs = length (takeWhile (\<lambda>c. \<not> List.member (map (s_fold fo) cs) (s_fold fo c)) t)"

definition cspn_call :: "bool \<Rightarrow> 'c::len word chars \<Rightarrow> u32 \<Rightarrow> 'a hle_scheme \<Rightarrow> u32 \<times> 'a hle_scheme" where
  "cspn_call fo T esp s = (let p = WU esp 0 s; q = WU esp 1 s in
     (if p = 0 \<or> q = 0 then 0 else of_nat (u32_s_cspn fo (c_str T (mem s) p) (c_str T (mem s) q)), s))"

definition aret_StrCSpn :: "'c::len word chars \<Rightarrow> u32 \<Rightarrow> 'a hle_scheme \<Rightarrow> u32 \<times> 'a hle_scheme" where
  "aret_StrCSpn T esp s = cspn_call False T esp s"

definition aret_StrCSpnI :: "'c::len word chars \<Rightarrow> u32 \<Rightarrow> 'a hle_scheme \<Rightarrow> u32 \<times> 'a hle_scheme" where
  "aret_StrCSpnI T esp s = cspn_call True T esp s"

definition aret_StrPBrk :: "'c::len word chars \<Rightarrow> u32 \<Rightarrow> 'a hle_scheme \<Rightarrow> u32 \<times> 'a hle_scheme" where
  "aret_StrPBrk T esp s = (let p = WU esp 0 s; q = WU esp 1 s; t = c_str T (mem s) p; cs = c_str T (mem s) q in
     (if p = 0 \<or> q = 0 then 0 else case first_idx (\<lambda>i. List.member cs (t ! i)) 0 (length t) of None \<Rightarrow> 0 | Some i \<Rightarrow> c_ptr T p i, s))"

text \<open>A found position as a pointer, or NULL.\<close>

definition hit_ptr :: "'c chars \<Rightarrow> u32 \<Rightarrow> nat option \<Rightarrow> u32" where
  "hit_ptr T p h = (case h of None \<Rightarrow> 0 | Some i \<Rightarrow> c_ptr T p i)"

definition u32_s_chr :: "bool \<Rightarrow> nat \<Rightarrow> 'c::len word \<Rightarrow> 'c word list \<Rightarrow> nat option" where
  "u32_s_chr fo maxn c t = first_idx (\<lambda>i. s_fold fo (t ! i) = s_fold fo c) 0 (min maxn (length t))"

definition aret_StrChrI :: "'c::len word chars \<Rightarrow> u32 \<Rightarrow> 'a hle_scheme \<Rightarrow> u32 \<times> 'a hle_scheme" where
  "aret_StrChrI T esp s = (let p = WU esp 0 s in
     (if p = 0 then 0 else hit_ptr T p (u32_s_chr True (2 ^ 32 - 1) (ucast (WU esp 1 s)) (c_str T (mem s) p)), s))"

text \<open>The positions a backward search looks at: up to the terminator, and before \<^verbatim>\<open>end\<close> when there is one.\<close>

definition before :: "'c chars \<Rightarrow> u32 \<Rightarrow> u32 \<Rightarrow> nat \<Rightarrow> nat list" where
  "before T p e n = takeWhile (\<lambda>i. e = 0 \<or> c_ptr T p i < e) [0..<n]"

definition last_hit :: "(nat \<Rightarrow> bool) \<Rightarrow> nat list \<Rightarrow> nat option" where
  "last_hit P is = fold (\<lambda>i h. if P i then Some i else h) is None"

definition u32_s_rchr :: "bool \<Rightarrow> 'c::len word chars \<Rightarrow> u32 \<Rightarrow> 'a hle_scheme \<Rightarrow> u32 \<times> 'a hle_scheme" where
  "u32_s_rchr fo T esp s = (let p = WU esp 0 s; t = c_str T (mem s) p; c = ucast (WU esp 2 s) in
     (if p = 0 then 0
      else hit_ptr T p (last_hit (\<lambda>i. s_fold fo (t ! i) = s_fold fo c) (before T p (WU esp 1 s) (length t))), s))"

definition aret_StrRChr :: "'c::len word chars \<Rightarrow> u32 \<Rightarrow> 'a hle_scheme \<Rightarrow> u32 \<times> 'a hle_scheme" where
  "aret_StrRChr T esp s = u32_s_rchr False T esp s"

definition aret_StrRChrI :: "'c::len word chars \<Rightarrow> u32 \<Rightarrow> 'a hle_scheme \<Rightarrow> u32 \<times> 'a hle_scheme" where
  "aret_StrRChrI T esp s = u32_s_rchr True T esp s"

text \<open>The inner loop: does the needle match at the head of the rest?\<close>

fun match_at :: "('c::len word \<Rightarrow> 'c word) \<Rightarrow> 'c word list \<Rightarrow> 'c word list \<Rightarrow> bool" where
  "match_at f [] h = True"
| "match_at f (x # n) [] = False"
| "match_at f (x # n) (y # h) = (f y = f x \<and> match_at f n h)"

definition u32_s_str :: "bool \<Rightarrow> nat \<Rightarrow> 'c::len word list \<Rightarrow> 'c word list \<Rightarrow> nat option" where
  "u32_s_str fo maxstart h n = (if n = [] then None
     else first_idx (\<lambda>i. match_at (s_fold fo) n (drop i h)) 0 (min maxstart (length h)))"

definition str_call :: "bool \<Rightarrow> nat \<Rightarrow> 'c::len word chars \<Rightarrow> u32 \<Rightarrow> 'a hle_scheme \<Rightarrow> u32 \<times> 'a hle_scheme" where
  "str_call fo maxstart T esp s = (let h = WU esp 0 s; n = WU esp 1 s in
     (if h = 0 \<or> n = 0 then 0 else hit_ptr T h (u32_s_str fo maxstart (c_str T (mem s) h) (c_str T (mem s) n)), s))"

definition aret_StrStr :: "'c::len word chars \<Rightarrow> u32 \<Rightarrow> 'a hle_scheme \<Rightarrow> u32 \<times> 'a hle_scheme" where
  "aret_StrStr T esp s = str_call False (2 ^ 32 - 1) T esp s"

definition aret_StrStrI :: "'c::len word chars \<Rightarrow> u32 \<Rightarrow> 'a hle_scheme \<Rightarrow> u32 \<times> 'a hle_scheme" where
  "aret_StrStrI T esp s = str_call True (2 ^ 32 - 1) T esp s"

definition aret_StrRStrI :: "'c::len word chars \<Rightarrow> u32 \<Rightarrow> 'a hle_scheme \<Rightarrow> u32 \<times> 'a hle_scheme" where
  "aret_StrRStrI T esp s = (let p = WU esp 0 s; q = WU esp 2 s; h = c_str T (mem s) p; n = c_str T (mem s) q in
     (if p = 0 \<or> q = 0 \<or> n = [] then 0
      else hit_ptr T p (last_hit (\<lambda>i. match_at u32_s_low n (drop i h)) (before T p (WU esp 1 s) (length h))), s))"

definition aret_StrChrA :: "u32 \<Rightarrow> 'a hle_scheme \<Rightarrow> u32 \<times> 'a hle_scheme" where
  "aret_StrChrA esp s = (let p = WU esp 0 s; t = cstr (mem s) p in
     (if p = 0 then 0 else hit_ptr charA p (first_idx (\<lambda>i. t ! i = ucast (WU esp 1 s)) 0 (length t)), s))"

text \<open>The wide one also finds the terminator.\<close>

definition aret_StrChrW :: "u32 \<Rightarrow> 'a hle_scheme \<Rightarrow> u32 \<times> 'a hle_scheme" where
  "aret_StrChrW esp s = (let p = WU esp 0 s; t = wstr (mem s) p @ [0] in
     (if p = 0 then 0 else hit_ptr charW p (first_idx (\<lambda>i. t ! i = ucast (WU esp 1 s)) 0 (length t)), s))"

definition aret_StrChrNW :: "u32 \<Rightarrow> 'a hle_scheme \<Rightarrow> u32 \<times> 'a hle_scheme" where
  "aret_StrChrNW esp s = (let p = WU esp 0 s in
     (if p = 0 then 0 else hit_ptr charW p (u32_s_chr False (unat (WU esp 2 s)) (ucast (WU esp 1 s)) (wstr (mem s) p)), s))"

definition aret_StrStrNW :: "u32 \<Rightarrow> 'a hle_scheme \<Rightarrow> u32 \<times> 'a hle_scheme" where
  "aret_StrStrNW esp s = str_call False (unat (WU esp 2 s)) charW esp s"

definition aret_StrStrNIW :: "u32 \<Rightarrow> 'a hle_scheme \<Rightarrow> u32 \<times> 'a hle_scheme" where
  "aret_StrStrNIW esp s = str_call True (unat (WU esp 2 s)) charW esp s"

section \<open>Copying\<close>

text \<open>
  \<^verbatim>\<open>for (; i < room && src[i]; i++) dst[i] = src[i]; dst[i] = 0;\<close> with the memory threaded; the
  first result is the final \<open>i\<close>.
\<close>

function cat_bounded :: "'c::len word chars \<Rightarrow> u32 \<Rightarrow> u32 \<Rightarrow> nat \<Rightarrow> nat \<Rightarrow> guest_mem \<Rightarrow> nat \<times> guest_mem" where
  "cat_bounded T d q room i m = (if i < room \<and> c_get T m q i \<noteq> 0
     then cat_bounded T d q room (i + 1) (c_put T m d i (c_get T m q i)) else (i, c_put T m d i 0))"
  by pat_completeness auto
termination
  by (relation "measure (\<lambda>(T, d, q, room, i, m). room - i)") auto

declare cat_bounded.simps [simp del]

definition aret_StrCatBuff :: "'c::len word chars \<Rightarrow> u32 \<Rightarrow> 'a hle_scheme \<Rightarrow> u32 \<times> 'a hle_scheme" where
  "aret_StrCatBuff T esp s = (let dst = WU esp 0 s; src = WU esp 1 s; cch = unat (WU esp 2 s); have = length (c_str T (mem s) dst) in
     if dst = 0 \<or> src = 0 then (dst, s)
     else if cch > have + 1
     then (dst, s\<lparr>mem := snd (cat_bounded T (c_ptr T dst have) src (cch - have - 1) 0 (mem s))\<rparr>)
     else (dst, s))"

text \<open>With a NULL source these two read through it, unless there is no room to copy: None.\<close>

definition aret_StrNCat :: "'c::len word chars \<Rightarrow> u32 \<Rightarrow> 'a hle_scheme \<Rightarrow> (u32 \<times> 'a hle_scheme) option" where
  "aret_StrNCat T esp s = (let dst = WU esp 0 s; src = WU esp 1 s; cch = unat (WU esp 2 s); have = length (c_str T (mem s) dst) in
     if dst = 0 \<or> cch = 0 then Some (dst, s)
     else if src = 0 \<and> cch > 1 then None
     else Some (dst, s\<lparr>mem := snd (cat_bounded T (c_ptr T dst have) src (cch - 1) 0 (mem s))\<rparr>))"

definition aret_StrCpyNW :: "u32 \<Rightarrow> 'a hle_scheme \<Rightarrow> (u32 \<times> 'a hle_scheme) option" where
  "aret_StrCpyNW esp s = (let dst = WU esp 0 s; src = WU esp 1 s; cch = unat (WU esp 2 s) in
     if dst = 0 \<or> cch = 0 then Some (dst, s)
     else if src = 0 \<and> cch > 1 then None
     else Some (dst, s\<lparr>mem := snd (cat_bounded charW dst src (cch - 1) 0 (mem s))\<rparr>))"

definition aret_StrTrim :: "'c::len word chars \<Rightarrow> u32 \<Rightarrow> 'a hle_scheme \<Rightarrow> u32 \<times> 'a hle_scheme" where
  "aret_StrTrim T esp s = (let p = WU esp 0 s; q = WU esp 1 s; t = c_str T (mem s) p; cs = c_str T (mem s) q;
       lo = length (takeWhile (List.member cs) t);
       hi = length t - length (takeWhile (List.member cs) (rev (drop lo t))) in
     if p = 0 \<or> q = 0 \<or> cs = [] then (0, s)
     else if lo = 0 \<and> hi = length t then (0, s)
     else (1, s\<lparr>mem := c_put T (copy_loop (c_get T) (c_put T) p (c_ptr T p lo) (hi - lo) (mem s)) p (hi - lo) 0\<rparr>))"

text \<open>\<open>ptr\<close> is what \<^verbatim>\<open>malloc\<close> returns.\<close>

definition aret_StrDup :: "u32 \<Rightarrow> 'c::len word chars \<Rightarrow> u32 \<Rightarrow> 'a hle_scheme \<Rightarrow> u32 \<times> 'a hle_scheme" where
  "aret_StrDup ptr T esp s = (let q = WU esp 0 s; n = (if q = 0 then 0 else length (c_str T (mem s) q)) in
     if ptr = 0 then (0, s)
     else (ptr, s\<lparr>mem := c_put T (copy_loop (c_get T) (c_put T) ptr q n (mem s)) ptr n 0\<rparr>))"

text \<open>The unbounded copies read their source first, as for arrays that do not overlap.\<close>

definition aret_StrCatW :: "u32 \<Rightarrow> 'a hle_scheme \<Rightarrow> u32 \<times> 'a hle_scheme" where
  "aret_StrCatW esp s = (let dst = WU esp 0 s; src = WU esp 1 s in
     if dst = 0 \<or> src = 0 then (dst, s)
     else (dst, s\<lparr>mem := c_store charW (c_ptr charW dst (length (wstr (mem s) dst))) (wstr (mem s) src) (mem s)\<rparr>))"

definition aret_StrCpyW :: "u32 \<Rightarrow> 'a hle_scheme \<Rightarrow> u32 \<times> 'a hle_scheme" where
  "aret_StrCpyW esp s = (let dst = WU esp 0 s; src = WU esp 1 s in
     if dst = 0 \<or> src = 0 then (dst, s) else (dst, s\<lparr>mem := c_store charW dst (wstr (mem s) src) (mem s)\<rparr>))"

definition aret_StrCatChainW :: "u32 \<Rightarrow> 'a hle_scheme \<Rightarrow> u32 \<times> 'a hle_scheme" where
  "aret_StrCatChainW esp s = (let dst = WU esp 0 s; cch = unat (WU esp 1 s); src = WU esp 3 s;
       at = (if WU esp 2 s = 0xFFFFFFFF then scan_nul getw (mem s) dst cch else unat (WU esp 2 s)) in
     if dst = 0 \<or> cch = 0 then (0, s)
     else if at \<ge> cch then (of_nat at, s)
     else if src = 0 then (of_nat at, s\<lparr>mem := putw (mem s) dst at 0\<rparr>)
     else case cat_bounded charW (c_ptr charW dst at) src (cch - at - 1) 0 (mem s) of (i, m) \<Rightarrow> (of_nat (at + i), s\<lparr>mem := m\<rparr>))"

section \<open>Searching is exact\<close>

lemma match_at_prefix: "match_at f n h \<longleftrightarrow> prefix (map f n) (map f h)"
  by (induction f n h rule: match_at.induct) auto

text \<open>The substring searches find the first occurrence: a position is returned exactly when it is the
  first one, among the first \<^verbatim>\<open>maxstart\<close> positions, at which the needle (case folded or not) is a prefix of
  the rest, and nothing is found when there is none or the needle is empty; the match may run past the bound.\<close>

theorem str_search_first:
  "(u32_s_str fo maxstart h n = Some i \<longleftrightarrow> n \<noteq> [] \<and> i < maxstart \<and> i < length h \<and>
      prefix (map (s_fold fo) n) (map (s_fold fo) (drop i h)) \<and>
      (\<forall>j < i. \<not> prefix (map (s_fold fo) n) (map (s_fold fo) (drop j h))))
   \<and> (u32_s_str fo maxstart h n = None \<longleftrightarrow> n = [] \<or>
      (\<forall>j < min maxstart (length h). \<not> prefix (map (s_fold fo) n) (map (s_fold fo) (drop j h))))"
  by (auto simp: u32_s_str_def match_at_prefix first_idx_Some_iff first_idx_None_iff)

text \<open>``WOR'' in ``a world'' among the first three positions, ignoring case.\<close>

theorem str_search_first_witness:
  "u32_s_str True 3 [0x61, 0x20, 0x77, 0x6F, 0x72, 0x6C, 0x64] [0x57, 0x4F, 0x52 :: u8] = Some 2"
proof -
  let ?n = "map (s_fold True) [0x57, 0x4F, 0x52 :: u8]" and ?h = "[0x61, 0x20, 0x77, 0x6F, 0x72, 0x6C, 0x64 :: u8]"
  have "prefix ?n (map (s_fold True) (drop 2 ?h))" by code_simp
  moreover have "\<forall>j < (2 :: nat). \<not> prefix ?n (map (s_fold True) (drop j ?h))" by code_simp
  ultimately show ?thesis using str_search_first [of True 3 ?h "[0x57, 0x4F, 0x52]" 2] by simp
qed

section \<open>Bounds\<close>

context c_string
begin

lemma put_at_outside:
  assumes "k + i < n" "outside (c_size T) d n x" shows "c_put T m (c_ptr T d k) i v x = m x"
proof (rule put_other)
  fix l assume "l < c_size T"
  then have "c_size T * (k + i) + l < c_size T * n" using slot_in [OF assms(1)] by simp
  then have "x \<noteq> d + of_nat (c_size T * (k + i) + l)" using assms(2) unfolding outside_def by blast
  then show "x \<noteq> c_ptr T d k + of_nat (c_size T * i + l)" by (simp add: c_ptr_def algebra_simps)
qed

lemma cat_outside:
  "i \<le> room \<Longrightarrow> k + room < n \<Longrightarrow> outside (c_size T) d n x \<Longrightarrow> snd (cat_bounded T (c_ptr T d k) q room i m) x = m x"
proof (induction "room - i" arbitrary: i m)
  case 0
  then show ?case using put_at_outside [of k i n] by (subst cat_bounded.simps) simp
next
  case (Suc l)
  let ?m = "c_put T m (c_ptr T d k) i (c_get T m q i)"
  have "?m x = m x" using put_at_outside [of k i n] Suc.hyps(2) Suc.prems by simp
  moreover have "snd (cat_bounded T (c_ptr T d k) q room (i + 1) ?m) x = ?m x" using Suc by simp
  moreover have "c_put T m (c_ptr T d k) i 0 x = m x" using put_at_outside [of k i n] Suc.prems by simp
  ultimately show ?case by (subst cat_bounded.simps) simp
qed

end

text \<open>The copies that are told the size of their destination (\<^verbatim>\<open>StrCatBuff\<close> at both widths, \<^verbatim>\<open>StrCpyNW\<close>,
  \<^verbatim>\<open>StrCatChainW\<close>) never write outside it, whatever the strings are and however they overlap.\<close>

theorem str_copies_in_bounds:
  "(outside 1 (WU esp 0 s) (unat (WU esp 2 s)) x \<longrightarrow> mem (snd (aret_StrCatBuff charA esp s)) x = mem s x)
   \<and> (outside 2 (WU esp 0 s) (unat (WU esp 2 s)) x \<longrightarrow> mem (snd (aret_StrCatBuff charW esp s)) x = mem s x
        \<and> (\<forall>r s'. aret_StrCpyNW esp s = Some (r, s') \<longrightarrow> mem s' x = mem s x))
   \<and> (outside 2 (WU esp 0 s) (unat (WU esp 1 s)) x \<longrightarrow> mem (snd (aret_StrCatChainW esp s)) x = mem s x)"
proof (intro conjI impI allI)
  have sz: "c_size charA = 1" "c_size charW = 2" "c_put charW = putw" "c_ptr charW d 0 = d" for d
    by (simp_all add: charA_def charW_def c_ptr_def)
  note catA = pA.cat_outside [where n = "unat (WU esp 2 s)", unfolded sz] and catW = pW.cat_outside [unfolded sz]
  show "mem (snd (aret_StrCatBuff charA esp s)) x = mem s x" if "outside 1 (WU esp 0 s) (unat (WU esp 2 s)) x"
    using that by (auto simp: aret_StrCatBuff_def Let_def intro!: catA)
  show "mem (snd (aret_StrCatBuff charW esp s)) x = mem s x" if "outside 2 (WU esp 0 s) (unat (WU esp 2 s)) x"
    using that by (auto simp: aret_StrCatBuff_def Let_def intro!: catW [where n = "unat (WU esp 2 s)"])
  show "mem s' x = mem s x" if "outside 2 (WU esp 0 s) (unat (WU esp 2 s)) x" "aret_StrCpyNW esp s = Some (r, s')" for r s'
    using that catW [of 0 "unat (WU esp 2 s) - 1" 0 "unat (WU esp 2 s)" "WU esp 0 s"]
    by (auto simp: aret_StrCpyNW_def Let_def sz split: if_splits)
  show "mem (snd (aret_StrCatChainW esp s)) x = mem s x" if o: "outside 2 (WU esp 0 s) (unat (WU esp 1 s)) x"
  proof -
    have "m x = mem s x" if "cat_bounded charW (c_ptr charW (WU esp 0 s) k) q (unat (WU esp 1 s) - k - 1) 0 (mem s) = (i, m)" "k < unat (WU esp 1 s)" for k q i m
      using catW [of 0 "unat (WU esp 1 s) - k - 1" k "unat (WU esp 1 s)" "WU esp 0 s" x q "mem s"] that o by simp
    then show ?thesis using wid.put_outside [OF _ o] by (simp add: aret_StrCatChainW_def Let_def split: prod.splits)
  qed
qed

text \<open>Appending \<^verbatim>\<open>.txt\<close> to \<^verbatim>\<open>C:\a\b.c\<close> in a buffer of ten characters.\<close>

definition str_demo :: hle where
  "str_demo = push_args 0x100 [0x2000, 0x3000, 10] \<lparr>mem = st_bytes (st_bytes (\<lambda>_. 0x55)
     0x2000 [0x43, 0x3A, 0x5C, 0x61, 0x5C, 0x62, 0x2E, 0x63, 0]) 0x3000 [0x2E, 0x74, 0x78, 0x74, 0], g_last_error = 0\<rparr>"

theorem str_copies_in_bounds_witness:
  "mem (snd (aret_StrCatBuff charA 0x100 str_demo)) 0x200A = mem str_demo 0x200A"
proof -
  have "WU 0x100 0 str_demo = 0x2000" "WU 0x100 2 str_demo = 10" by (simp_all add: str_demo_def)
  moreover have "outside 1 0x2000 10 0x200A" unfolding outside_def by code_simp
  ultimately show ?thesis using str_copies_in_bounds [of "0x100" str_demo "0x200A"] by simp
qed

end
