(* ===== verification/Aret_Windows.thy ===== *)
theory Aret_Windows
  imports Aret_Draw Aret_Menus
begin

text \<open>
  The USER32 window manager of \<^verbatim>\<open>aret_win32.c\<close>: the class registry, the window table with its
  geometry, longs, scroll bars and hierarchy, window properties, registered messages, the hooks,
  the clipboard and the caret. The state extends the GDI state, so that the calls that draw or
  that hand out device contexts work on the same object table. The build modelled is the
  display-free one (\<^verbatim>\<open>ARET_HAVE_SDL\<close> undefined), in which \<^verbatim>\<open>u32_ctrl_recomposite\<close> does nothing.
  The operations that call back into lifted code are in the theory of the messages.
\<close>

section \<open>State\<close>

definition U32_DESKTOP :: u32 where "U32_DESKTOP = 0x00010000"

definition U32_SCREEN_W :: int where "U32_SCREEN_W = 1024"

definition U32_SCREEN_H :: int where "U32_SCREEN_H = 768"

definition U32_MAX_CLASSES :: nat where "U32_MAX_CLASSES = 64"

definition U32_MAX_WIN :: nat where "U32_MAX_WIN = 256"

definition U32_MAX_MSG :: nat where "U32_MAX_MSG = 8192"

definition U32_MAX_TIMER :: nat where "U32_MAX_TIMER = 64"

definition U32_MAX_RWM :: nat where "U32_MAX_RWM = 128"

definition U32_MAX_PROP :: nat where "U32_MAX_PROP = 256"

record u32_class =
  c_used :: bool
  c_name :: "u16 list"
  c_wndproc :: u32
  c_hbr_bg :: u32
  c_style :: u32
  c_cls_extra :: u32
  c_wnd_extra :: u32
  c_hinstance :: u32
  c_hicon :: u32
  c_hcursor :: u32
  c_menu_name :: u32
  c_hicon_sm :: u32

record scroll_bar =
  sb_min :: int
  sb_max :: int
  sb_page :: int
  sb_pos :: int

text \<open>
  A window. \<^verbatim>\<open>title\<close> and \<^verbatim>\<open>classname\<close> are the contents of their NUL-terminated arrays, \<^verbatim>\<open>items\<close> the
  \<^verbatim>\<open>item_count\<close> strings of the item array, \<^verbatim>\<open>extra\<close> the 64 bytes of \<^verbatim>\<open>cbWndExtra\<close> storage.
\<close>

record u32_window =
  w_wndproc :: u32
  w_parent :: u32
  w_used :: bool
  w_x :: int
  w_y :: int
  w_w :: int
  w_h :: int
  w_style :: u32
  w_exstyle :: u32
  w_visible :: bool
  w_enabled :: bool
  w_userdata :: u32
  w_title :: "u8 list"
  w_ctrl_id :: int
  w_classname :: "u8 list"
  w_needs_paint :: bool
  w_needs_erase :: bool
  w_bg_brush :: u32
  w_unicode :: bool
  w_check_state :: int
  w_ctrl_font :: u32
  w_extra_len :: int
  w_extra :: "u8 list"
  w_scroll :: "scroll_bar list"
  w_du_x :: int
  w_du_y :: int
  w_is_dialog :: bool
  w_items :: "u8 list list"
  w_item_cap :: int
  w_cur_sel :: int
  w_dlg_font :: u32
  w_rgn_set :: bool
  w_rgn :: rect
  w_rgn_complex :: bool

record u32_msg =
  m_hwnd :: u32
  m_message :: u32
  m_wParam :: u32
  m_lParam :: u32
  m_time :: u32
  m_ptx :: u32
  m_pty :: u32

record u32_timer =
  t_hwnd :: u32
  t_id :: u32
  t_elapse :: u32
  t_proc :: u32
  t_due_ns :: u64
  t_used :: bool

record rwm_ent =
  rwm_name :: "u8 list"
  rwm_id :: u32
  rwm_used :: bool

record prop_ent =
  pr_hwnd :: u32
  pr_key :: "u8 list"
  pr_val :: u32
  pr_used :: bool

text \<open>\<^verbatim>\<open>clock_reads\<close> counts the readings of the monotonic clock made so far.\<close>

record wm = gdi +
  g_u32_class :: "u32_class list"
  g_u32_win :: "u32_window list"
  g_u32_q :: "u32_msg list"
  g_u32_qh :: nat
  g_u32_qt :: nat
  g_u32_quit :: bool
  g_u32_quit_code :: int
  g_u32_timer :: "u32_timer list"
  g_u32_next_timer_id :: u32
  g_u32_hook :: "u32 list"
  g_u32_capture :: u32
  g_u32_focus :: u32
  g_u32_active :: u32
  g_u32_rwm :: "rwm_ent list"
  g_u32_rwm_next :: u32
  g_u32_prop :: "prop_ent list"
  g_u32_clip :: "(u32 \<times> u32) list"
  g_u32_caret :: "int \<times> int"
  g_u32_cursor_show :: int
  g_u32_cursor :: u32
  g_u32_modal_hwnd :: u32
  g_u32_modal_ended :: bool
  g_u32_modal_result :: int
  clock_reads :: nat

definition sb_zero :: scroll_bar where
  "sb_zero = \<lparr>sb_min = 0, sb_max = 0, sb_page = 0, sb_pos = 0\<rparr>"

text \<open>\<^verbatim>\<open>memset(&g_u32_win[i], 0, sizeof g_u32_win[i])\<close>\<close>

definition win_zero :: u32_window where
  "win_zero = \<lparr>w_wndproc = 0, w_parent = 0, w_used = False, w_x = 0, w_y = 0, w_w = 0, w_h = 0, w_style = 0, w_exstyle = 0,
     w_visible = False, w_enabled = False, w_userdata = 0, w_title = [], w_ctrl_id = 0, w_classname = [],
     w_needs_paint = False, w_needs_erase = False, w_bg_brush = 0, w_unicode = False, w_check_state = 0, w_ctrl_font = 0,
     w_extra_len = 0, w_extra = replicate 64 0, w_scroll = replicate 3 sb_zero, w_du_x = 0, w_du_y = 0, w_is_dialog = False,
     w_items = [], w_item_cap = 0, w_cur_sel = 0, w_dlg_font = 0, w_rgn_set = False, w_rgn = (0, 0, 0, 0), w_rgn_complex = False\<rparr>"

text \<open>The statics at program start, over the start of the GDI.\<close>

definition class_zero :: u32_class where
  "class_zero = \<lparr>c_used = False, c_name = [], c_wndproc = 0, c_hbr_bg = 0, c_style = 0, c_cls_extra = 0, c_wnd_extra = 0,
     c_hinstance = 0, c_hicon = 0, c_hcursor = 0, c_menu_name = 0, c_hicon_sm = 0\<rparr>"

definition wm_start :: "gdi \<Rightarrow> wm" where
  "wm_start g = gdi.extend g (wm.fields (replicate U32_MAX_CLASSES class_zero) (replicate U32_MAX_WIN win_zero)
     (replicate U32_MAX_MSG \<lparr>m_hwnd = 0, m_message = 0, m_wParam = 0, m_lParam = 0, m_time = 0, m_ptx = 0, m_pty = 0\<rparr>) 0 0 False 0
     (replicate U32_MAX_TIMER \<lparr>t_hwnd = 0, t_id = 0, t_elapse = 0, t_proc = 0, t_due_ns = 0, t_used = False\<rparr>) 0xF000
     (replicate 16 0) 0 0 0 (replicate U32_MAX_RWM \<lparr>rwm_name = [], rwm_id = 0, rwm_used = False\<rparr>) 0xC000
     (replicate U32_MAX_PROP \<lparr>pr_hwnd = 0, pr_key = [], pr_val = 0, pr_used = False\<rparr>) [] (0, 0) 0 0 0 False 0 0)"

text \<open>\<^verbatim>\<open>for (int k = n - 1; k >= 0; k--) if (P k) return k;\<close>\<close>

primrec last_idx :: "(nat \<Rightarrow> bool) \<Rightarrow> nat \<Rightarrow> nat option" where
  "last_idx P 0 = None"
| "last_idx P (Suc n) = (if P n then Some n else last_idx P n)"

definition upd_win :: "nat \<Rightarrow> (u32_window \<Rightarrow> u32_window) \<Rightarrow> wm \<Rightarrow> wm" where
  "upd_win i f s = s\<lparr>g_u32_win := arr_set (g_u32_win s) i (f (g_u32_win s ! i))\<rparr>"

abbreviation win :: "wm \<Rightarrow> nat \<Rightarrow> u32_window" where
  "win s i \<equiv> g_u32_win s ! i"

definition hwnd_of :: "nat \<Rightarrow> u32" where
  "hwnd_of i = of_nat (Suc i)"

definition win_idx :: "wm \<Rightarrow> u32 \<Rightarrow> nat option" where
  "win_idx s h = u32_win_idx (map w_used (g_u32_win s)) h"

definition u32_win_wndproc :: "wm \<Rightarrow> u32 \<Rightarrow> u32" where
  "u32_win_wndproc s h = (case win_idx s h of None \<Rightarrow> 0 | Some i \<Rightarrow> w_wndproc (win s i))"

definition b32 :: "bool \<Rightarrow> u32" where
  "b32 b = (if b then 1 else 0)"

text \<open>A GDI operation, run inside the window manager's state.\<close>

definition on_gdi :: "(gdi \<Rightarrow> 'r \<times> gdi) \<Rightarrow> wm \<Rightarrow> 'r \<times> wm" where
  "on_gdi f s = (case f (gdi.truncate s) of (r, g) \<Rightarrow> (r, gdi.extend g (gdi.more s)))"

section \<open>Strings\<close>

text \<open>\<^verbatim>\<open>u32_a2w\<close> and \<^verbatim>\<open>u32_wcpy\<close> into a buffer of \<open>cap\<close> characters.\<close>

definition u32_a2w :: "u8 list \<Rightarrow> nat \<Rightarrow> u16 list" where
  "u32_a2w s cap = map ucast (take (cap - 1) s)"

definition u32_wcpy :: "u16 list \<Rightarrow> nat \<Rightarrow> u16 list" where
  "u32_wcpy s cap = take (cap - 1) s"

text \<open>\<^verbatim>\<open>strncmp(a, b, n) == 0\<close> on the contents of two strings.\<close>

definition strncmp_eq :: "nat \<Rightarrow> u8 list \<Rightarrow> u8 list \<Rightarrow> bool" where
  "strncmp_eq n a b \<longleftrightarrow> take n a = take n b"

section \<open>Window classes\<close>

text \<open>A class reference: an atom below \<^verbatim>\<open>0x10000\<close>, otherwise a pointer to the name.\<close>

datatype class_ref = CNull | CAtom u32 | CName "u16 list"

definition cref_w :: "guest_mem \<Rightarrow> u32 \<Rightarrow> class_ref" where
  "cref_w m r = (if r = 0 then CNull else if r < 0x10000 then CAtom r else CName (wstr m r))"

text \<open>The narrow forms widen the name into \<^verbatim>\<open>uint16_t wbuf[128]\<close> first.\<close>

definition cref_a :: "guest_mem \<Rightarrow> u32 \<Rightarrow> class_ref" where
  "cref_a m r = (if r = 0 then CNull else if r < 0x10000 then CAtom r else CName (u32_a2w (cstr m r) 128))"

definition u32_class_index :: "u32_class list \<Rightarrow> class_ref \<Rightarrow> nat option" where
  "u32_class_index C r = (case r of CNull \<Rightarrow> None
     | CAtom a \<Rightarrow> let idx = unat (a - 0xC000) in if idx < U32_MAX_CLASSES \<and> c_used (C ! idx) then Some idx else None
     | CName n \<Rightarrow> first_idx (\<lambda>i. c_used (C ! i) \<and> c_name (C ! i) = n) 0 U32_MAX_CLASSES)"

definition u32_class_brush :: "u32_class list \<Rightarrow> class_ref \<Rightarrow> u32" where
  "u32_class_brush C r = (case u32_class_index C r of None \<Rightarrow> 0 | Some i \<Rightarrow> c_hbr_bg (C ! i))"

definition u32_class_wndproc :: "u32_class list \<Rightarrow> class_ref \<Rightarrow> u32" where
  "u32_class_wndproc C r = (case u32_class_index C r of None \<Rightarrow> 0 | Some i \<Rightarrow> c_wndproc (C ! i))"

definition u32_class_wndextra :: "u32_class list \<Rightarrow> class_ref \<Rightarrow> u32" where
  "u32_class_wndextra C r = (case u32_class_index C r of None \<Rightarrow> 0 | Some i \<Rightarrow> c_wnd_extra (C ! i))"

text \<open>\<open>f\<close> are the fields in the order of \<^verbatim>\<open>WNDCLASS\<close>: style, wndproc, the two extras, hInstance, hIcon, hCursor, brush, menu.\<close>

definition u32_class_register :: "u32 list \<Rightarrow> u32 \<Rightarrow> u16 list \<Rightarrow> wm \<Rightarrow> u32 \<times> wm" where
  "u32_class_register f hicon_sm wname s =
     (case first_idx (\<lambda>i. \<not> c_used (g_u32_class s ! i)) 0 U32_MAX_CLASSES of None \<Rightarrow> (0, s)
      | Some i \<Rightarrow> (0xC000 + of_nat i, s\<lparr>g_u32_class := arr_set (g_u32_class s) i \<lparr>c_used = True, c_name = u32_wcpy wname 128,
          c_wndproc = f ! 1, c_hbr_bg = f ! 7, c_style = f ! 0, c_cls_extra = f ! 2, c_wnd_extra = f ! 3, c_hinstance = f ! 4,
          c_hicon = f ! 5, c_hcursor = f ! 6, c_menu_name = f ! 8, c_hicon_sm = hicon_sm\<rparr>\<rparr>))"

text \<open>The class structure of argument 0 starts \<open>o'\<close> bytes in; the name is its field 9, the small icon (of the Ex form) its field 10.\<close>

definition register_class :: "u32 \<Rightarrow> bool \<Rightarrow> (guest_mem \<Rightarrow> u32 \<Rightarrow> u16 list) \<Rightarrow> u32 \<Rightarrow> wm \<Rightarrow> u32 \<times> wm" where
  "register_class o' ex name esp s = (let wc = WU esp 0 s in if wc = 0 then (0, s)
     else let p = ld32 (mem s) (wc + o' + 36) in if p = 0 then (0, s)
     else u32_class_register (ld_dwords (mem s) (wc + o') 9) (if ex then ld32 (mem s) (wc + o' + 40) else 0) (name (mem s) p) s)"

definition aret_RegisterClassW :: "u32 \<Rightarrow> wm \<Rightarrow> u32 \<times> wm" where
  "aret_RegisterClassW = register_class 0 False wstr"

definition aret_RegisterClassA :: "u32 \<Rightarrow> wm \<Rightarrow> u32 \<times> wm" where
  "aret_RegisterClassA = register_class 0 False (\<lambda>m p. u32_a2w (cstr m p) 128)"

definition aret_RegisterClassExW :: "u32 \<Rightarrow> wm \<Rightarrow> u32 \<times> wm" where
  "aret_RegisterClassExW = register_class 4 True wstr"

definition aret_RegisterClassExA :: "u32 \<Rightarrow> wm \<Rightarrow> u32 \<times> wm" where
  "aret_RegisterClassExA = register_class 4 True (\<lambda>m p. u32_a2w (cstr m p) 128)"

definition class_fields :: "u32_class \<Rightarrow> u32 \<Rightarrow> u32 list" where
  "class_fields c nm = [c_style c, c_wndproc c, c_cls_extra c, c_wnd_extra c, c_hinstance c, c_hicon c, c_hcursor c,
     c_hbr_bg c, c_menu_name c, nm]"

definition u32_get_class_info :: "class_ref \<Rightarrow> u32 \<Rightarrow> u32 \<Rightarrow> bool \<Rightarrow> wm \<Rightarrow> u32 \<times> wm" where
  "u32_get_class_info r out nm is_ex s = (case u32_class_index (g_u32_class s) r of None \<Rightarrow> (0, s)
     | Some i \<Rightarrow> if out = 0 then (0, s) else let c = g_u32_class s ! i in
         (0xC000 + of_nat i, s\<lparr>mem := (if is_ex then st_dwords (mem s) (out + 4) (class_fields c nm @ [c_hicon_sm c])
                                      else st_dwords (mem s) out (class_fields c nm))\<rparr>))"

definition u32_get_class_info_a :: "bool \<Rightarrow> u32 \<Rightarrow> wm \<Rightarrow> u32 \<times> wm" where
  "u32_get_class_info_a is_ex esp s = u32_get_class_info (cref_a (mem s) (WU esp 1 s)) (WU esp 2 s) (WU esp 1 s) is_ex s"

definition aret_GetClassInfoA :: "u32 \<Rightarrow> wm \<Rightarrow> u32 \<times> wm" where
  "aret_GetClassInfoA = u32_get_class_info_a False"

definition aret_GetClassInfoExA :: "u32 \<Rightarrow> wm \<Rightarrow> u32 \<times> wm" where
  "aret_GetClassInfoExA = u32_get_class_info_a True"

definition aret_GetClassInfoW :: "u32 \<Rightarrow> wm \<Rightarrow> u32 \<times> wm" where
  "aret_GetClassInfoW esp s = u32_get_class_info (cref_w (mem s) (WU esp 1 s)) (WU esp 2 s) (WU esp 1 s) False s"

definition aret_GetClassInfoExW :: "u32 \<Rightarrow> wm \<Rightarrow> u32 \<times> wm" where
  "aret_GetClassInfoExW esp s = u32_get_class_info (cref_w (mem s) (WU esp 1 s)) (WU esp 2 s) (WU esp 1 s) True s"

definition unregister_class :: "class_ref \<Rightarrow> wm \<Rightarrow> u32 \<times> wm" where
  "unregister_class r s = (case u32_class_index (g_u32_class s) r of None \<Rightarrow> (0, s)
     | Some i \<Rightarrow> (1, s\<lparr>g_u32_class := arr_set (g_u32_class s) i ((g_u32_class s ! i)\<lparr>c_used := False\<rparr>)\<rparr>))"

definition aret_UnregisterClassW :: "u32 \<Rightarrow> wm \<Rightarrow> u32 \<times> wm" where
  "aret_UnregisterClassW esp s = unregister_class (cref_w (mem s) (WU esp 0 s)) s"

definition aret_UnregisterClassA :: "u32 \<Rightarrow> wm \<Rightarrow> u32 \<times> wm" where
  "aret_UnregisterClassA esp s = unregister_class (cref_a (mem s) (WU esp 0 s)) s"

text \<open>The class name a window is created with, narrowed into \<open>cap\<close> bytes.\<close>

definition u32_class_name :: "u32_class list \<Rightarrow> guest_mem \<Rightarrow> u32 \<Rightarrow> bool \<Rightarrow> nat \<Rightarrow> u8 list" where
  "u32_class_name C m r wide cap = (if r = 0 then []
     else if r < 0x10000 then let idx = unat (r - 0xC000) in
       if idx < U32_MAX_CLASSES \<and> c_used (C ! idx) then u32_w2n (c_name (C ! idx)) cap else []
     else if wide then u32_w2n (wstr m r) cap else take (cap - 1) (cstr m r))"

definition ctrl_classes :: "string list" where
  "ctrl_classes = [''button'', ''edit'', ''static'', ''listbox'', ''combobox'', ''scrollbar'', ''mdiclient'', ''richedit'',
     ''richedit20a'', ''richedit20w'', ''syslistview32'', ''systreeview32'', ''msctls_statusbar32'', ''msctls_updown32'',
     ''toolbarwindow32'', ''tooltips_class32'']"

abbreviation bytes_of_str :: "string \<Rightarrow> u8 list" where
  "bytes_of_str \<equiv> map of_char"

definition u32_is_ctrl_class :: "guest_mem \<Rightarrow> u32 \<Rightarrow> bool \<Rightarrow> bool" where
  "u32_is_ctrl_class m r wide = (if r < 0x10000 then False
     else let n = (if wide then u32_w2n (wstr m r) 64 else take 63 (cstr m r)) in
       (\<exists>c \<in> set ctrl_classes. map ascii_lower n = bytes_of_str c))"

text \<open>The class of a window, found by its stored name, and its fields.\<close>

definition u32_win_class_idx :: "wm \<Rightarrow> nat \<Rightarrow> nat option" where
  "u32_win_class_idx s wi = first_idx (\<lambda>i. c_used (g_u32_class s ! i)
     \<and> c_name (g_u32_class s ! i) = map ucast (w_classname (win s wi))) 0 U32_MAX_CLASSES"

definition aret_GetClassLongW :: "u32 \<Rightarrow> wm \<Rightarrow> u32 \<times> wm" where
  "aret_GetClassLongW esp s = (case win_idx s (WU esp 0 s) of None \<Rightarrow> (0, s)
     | Some wi \<Rightarrow> (case u32_win_class_idx s wi of None \<Rightarrow> (0, s)
       | Some ci \<Rightarrow> let c = g_u32_class s ! ci; idx = WI esp 1 s in
          (if idx = -26 then c_style c else if idx = -24 then c_wndproc c else if idx = -20 then c_cls_extra c
           else if idx = -18 then c_wnd_extra c else if idx = -16 then c_hinstance c else if idx = -14 then c_hicon c
           else if idx = -12 then c_hcursor c else if idx = -10 then c_hbr_bg c else if idx = -8 then c_menu_name c
           else if idx = -34 then c_hicon_sm c else 0, s)))"

definition aret_GetClassLongA :: "u32 \<Rightarrow> wm \<Rightarrow> u32 \<times> wm" where
  "aret_GetClassLongA = aret_GetClassLongW"

section \<open>Creating and destroying windows\<close>

definition u32_coord :: "u32 \<Rightarrow> int \<Rightarrow> int" where
  "u32_coord v dflt = (if v = 0x80000000 then dflt else sint v)"

text \<open>The fields \<^verbatim>\<open>u32_window_create\<close> sets; the others keep what the slot held before.\<close>

definition win_init :: "u32 \<Rightarrow> u32 \<Rightarrow> u32 \<Rightarrow> u32 \<Rightarrow> u32 \<Rightarrow> u32 \<Rightarrow> u32 \<Rightarrow> u32 \<Rightarrow> u8 list \<Rightarrow> u32_window \<Rightarrow> u32_window" where
  "win_init wndproc exstyle style x y w h parent title v =
     (let vis = style AND 0x10000000 \<noteq> 0; owes = vis \<and> parent = 0 \<and> style AND 0x40000000 = 0 in
      v\<lparr>w_used := True, w_scroll := replicate 3 sb_zero, w_ctrl_font := 0, w_wndproc := wndproc, w_parent := parent,
        w_exstyle := exstyle, w_style := style, w_x := u32_coord x 0, w_y := u32_coord y 0, w_w := u32_coord w 0, w_h := u32_coord h 0,
        w_visible := vis, w_enabled := (style AND 0x08000000 = 0), w_userdata := 0, w_ctrl_id := 0, w_classname := [],
        w_needs_paint := owes, w_needs_erase := owes, w_bg_brush := 0, w_extra_len := 0,
        w_items := [], w_item_cap := 0, w_cur_sel := -1, w_is_dialog := False, w_du_x := 0, w_du_y := 0, w_dlg_font := 0,
        w_rgn_set := False, w_extra := replicate 64 0, w_title := take 255 title\<rparr>)"

definition u32_window_create :: "u32 \<Rightarrow> u32 \<Rightarrow> u32 \<Rightarrow> u32 \<Rightarrow> u32 \<Rightarrow> u32 \<Rightarrow> u32 \<Rightarrow> u32 \<Rightarrow> u8 list \<Rightarrow> bool \<Rightarrow> wm \<Rightarrow> u32 \<times> wm" where
  "u32_window_create wndproc exstyle style x y w h parent title is_ctrl s =
     (if wndproc = 0 \<and> \<not> is_ctrl then (0, s)
      else case first_idx (\<lambda>i. \<not> w_used (win s i)) 0 U32_MAX_WIN of None \<Rightarrow> (0, s)
        | Some i \<Rightarrow> (hwnd_of i, upd_win i (win_init wndproc exstyle style x y w h parent title) s))"

definition aret_DestroyWindow :: "u32 \<Rightarrow> wm \<Rightarrow> u32 \<times> wm" where
  "aret_DestroyWindow esp s = (case win_idx s (WU esp 0 s) of None \<Rightarrow> (1, s)
     | Some i \<Rightarrow> (1, upd_win i (\<lambda>w. w\<lparr>w_used := False\<rparr>) s))"

text \<open>A child control of a dialog: the slot is cleared before it is filled.\<close>

definition u32_new_control :: "u32 \<Rightarrow> int \<Rightarrow> u32 \<Rightarrow> u8 list \<Rightarrow> int \<Rightarrow> int \<Rightarrow> int \<Rightarrow> int \<Rightarrow> u8 list \<Rightarrow> wm \<Rightarrow> u32 \<times> wm" where
  "u32_new_control parent ctrl_id style title x y w h cls s =
     (case first_idx (\<lambda>i. \<not> w_used (win s i)) 0 U32_MAX_WIN of None \<Rightarrow> (0, s)
      | Some i \<Rightarrow> (hwnd_of i, upd_win i (\<lambda>_. win_zero\<lparr>w_used := True, w_parent := parent, w_style := style,
          w_enabled := (style AND 0x08000000 = 0), w_visible := (style AND 0x10000000 \<noteq> 0), w_ctrl_id := ctrl_id, w_cur_sel := -1,
          w_x := x, w_y := y, w_w := w, w_h := h, w_classname := take 63 cls, w_title := take 255 title\<rparr>) s))"

section \<open>Geometry and state\<close>

definition with_win :: "u32 \<Rightarrow> u32 \<Rightarrow> wm \<Rightarrow> (nat \<Rightarrow> u32 \<times> wm) \<Rightarrow> u32 \<times> wm" where
  "with_win h e s f = (case win_idx s h of None \<Rightarrow> (e, s) | Some i \<Rightarrow> f i)"

definition aret_GetWindowRect :: "u32 \<Rightarrow> wm \<Rightarrow> u32 \<times> wm" where
  "aret_GetWindowRect esp s = (let r = WU esp 1 s in if r = 0 then (0, s)
     else if WU esp 0 s = U32_DESKTOP then (1, put_rect r (0, 0, U32_SCREEN_W, U32_SCREEN_H) s)
     else with_win (WU esp 0 s) 0 s (\<lambda>i. let w = win s i in
       (1, put_rect r (w_x w, w_y w, c_int (w_x w + w_w w), c_int (w_y w + w_h w)) s)))"

definition aret_GetClientRect :: "u32 \<Rightarrow> wm \<Rightarrow> u32 \<times> wm" where
  "aret_GetClientRect esp s = (let r = WU esp 1 s in if r = 0 then (0, s)
     else case win_idx s (WU esp 0 s) of None \<Rightarrow> (0, put_rect r (0, 0, 0, 0) s)
       | Some i \<Rightarrow> (1, put_rect r (0, 0, w_w (win s i), w_h (win s i)) s))"

text \<open>\<^verbatim>\<open>SWP_NOMOVE\<close>, \<^verbatim>\<open>SWP_NOSIZE\<close>, \<^verbatim>\<open>SWP_SHOWWINDOW\<close>, \<^verbatim>\<open>SWP_HIDEWINDOW\<close>.\<close>

definition set_pos :: "u32 \<Rightarrow> int \<Rightarrow> int \<Rightarrow> int \<Rightarrow> int \<Rightarrow> u32_window \<Rightarrow> u32_window" where
  "set_pos f x y cx cy w =
     (let w = (if f AND 0x2 = 0 then w\<lparr>w_x := x, w_y := y\<rparr> else w);
          w = (if f AND 0x1 = 0 then w\<lparr>w_w := cx, w_h := cy\<rparr> else w);
          w = (if f AND 0x40 \<noteq> 0 then w\<lparr>w_visible := True\<rparr> else w)
      in if f AND 0x80 \<noteq> 0 then w\<lparr>w_visible := False\<rparr> else w)"

definition aret_SetWindowPos :: "u32 \<Rightarrow> wm \<Rightarrow> u32 \<times> wm" where
  "aret_SetWindowPos esp s = with_win (WU esp 0 s) 0 s (\<lambda>i.
     (1, upd_win i (set_pos (WU esp 6 s) (WI esp 2 s) (WI esp 3 s) (WI esp 4 s) (WI esp 5 s)) s))"

definition aret_MoveWindow :: "u32 \<Rightarrow> wm \<Rightarrow> u32 \<times> wm" where
  "aret_MoveWindow esp s = with_win (WU esp 0 s) 0 s (\<lambda>i.
     (1, upd_win i (\<lambda>w. w\<lparr>w_x := WI esp 1 s, w_y := WI esp 2 s, w_w := WI esp 3 s, w_h := WI esp 4 s\<rparr>) s))"

definition aret_BeginDeferWindowPos :: "u32 \<Rightarrow> wm \<Rightarrow> u32 \<times> wm" where
  "aret_BeginDeferWindowPos esp s = (0x0DEF0001, s)"

definition aret_DeferWindowPos :: "u32 \<Rightarrow> wm \<Rightarrow> u32 \<times> wm" where
  "aret_DeferWindowPos esp s = with_win (WU esp 1 s) (WU esp 0 s) s (\<lambda>i.
     (WU esp 0 s, upd_win i (set_pos (WU esp 7 s) (WI esp 3 s) (WI esp 4 s) (WI esp 5 s) (WI esp 6 s)) s))"

definition aret_EndDeferWindowPos :: "u32 \<Rightarrow> wm \<Rightarrow> u32 \<times> wm" where
  "aret_EndDeferWindowPos esp s = (1, s)"

definition aret_ShowWindow :: "u32 \<Rightarrow> wm \<Rightarrow> u32 \<times> wm" where
  "aret_ShowWindow esp s = with_win (WU esp 0 s) 0 s (\<lambda>i. let was = w_visible (win s i) in
     (b32 was, upd_win i (\<lambda>w. let w = w\<lparr>w_visible := (WU esp 1 s \<noteq> 0)\<rparr> in
        if w_visible w \<and> \<not> was \<and> w_parent w = 0 \<and> w_style w AND 0x40000000 = 0
        then w\<lparr>w_needs_paint := True, w_needs_erase := True\<rparr> else w) s))"

definition aret_EnableWindow :: "u32 \<Rightarrow> wm \<Rightarrow> u32 \<times> wm" where
  "aret_EnableWindow esp s = with_win (WU esp 0 s) 0 s (\<lambda>i.
     (b32 (\<not> w_enabled (win s i)), upd_win i (\<lambda>w. w\<lparr>w_enabled := (WU esp 1 s \<noteq> 0)\<rparr>) s))"

definition aret_GetParent :: "u32 \<Rightarrow> wm \<Rightarrow> u32 \<times> wm" where
  "aret_GetParent esp s = with_win (WU esp 0 s) 0 s (\<lambda>i. (w_parent (win s i), s))"

definition aret_SetParent :: "u32 \<Rightarrow> wm \<Rightarrow> u32 \<times> wm" where
  "aret_SetParent esp s = with_win (WU esp 0 s) 0 s (\<lambda>i.
     (w_parent (win s i), upd_win i (\<lambda>w. w\<lparr>w_parent := WU esp 1 s\<rparr>) s))"

definition aret_IsWindow :: "u32 \<Rightarrow> wm \<Rightarrow> u32 \<times> wm" where
  "aret_IsWindow esp s = (b32 (WU esp 0 s = U32_DESKTOP \<or> win_idx s (WU esp 0 s) \<noteq> None), s)"

definition aret_IsWindowVisible :: "u32 \<Rightarrow> wm \<Rightarrow> u32 \<times> wm" where
  "aret_IsWindowVisible esp s = with_win (WU esp 0 s) 0 s (\<lambda>i. (b32 (w_visible (win s i)), s))"

definition aret_IsWindowEnabled :: "u32 \<Rightarrow> wm \<Rightarrow> u32 \<times> wm" where
  "aret_IsWindowEnabled esp s = with_win (WU esp 0 s) 0 s (\<lambda>i. (b32 (w_enabled (win s i)), s))"

definition aret_IsWindowUnicode :: "u32 \<Rightarrow> wm \<Rightarrow> u32 \<times> wm" where
  "aret_IsWindowUnicode esp s = with_win (WU esp 0 s) 0 s (\<lambda>i. (b32 (w_unicode (win s i)), s))"

definition aret_GetDlgCtrlID :: "u32 \<Rightarrow> wm \<Rightarrow> u32 \<times> wm" where
  "aret_GetDlgCtrlID esp s = with_win (WU esp 0 s) 0 s (\<lambda>i. (word_of_int (w_ctrl_id (win s i)), s))"

text \<open>Points between the client spaces of two windows; a NULL or dead window is the screen.\<close>

definition win_org :: "wm \<Rightarrow> u32 \<Rightarrow> int \<times> int" where
  "win_org s h = (case win_idx s h of None \<Rightarrow> (0, 0) | Some i \<Rightarrow> (w_x (win s i), w_y (win s i)))"

definition add_point :: "int \<Rightarrow> int \<Rightarrow> u32 \<Rightarrow> 'a hle_scheme \<Rightarrow> 'a hle_scheme" where
  "add_point dx dy p s = (let s = seti p 0 (geti (mem s) p 0 + dx) s in seti p 1 (geti (mem s) p 1 + dy) s)"

definition aret_MapWindowPoints :: "u32 \<Rightarrow> wm \<Rightarrow> u32 \<times> wm" where
  "aret_MapWindowPoints esp s = (case (win_org s (WU esp 0 s), win_org s (WU esp 1 s)) of ((fx, fy), (tx, ty)) \<Rightarrow>
     let dx = c_int (fx - tx); dy = c_int (fy - ty); pt = WU esp 2 s;
         s' = (if pt = 0 then s else fold (\<lambda>k. add_point dx dy (pt + 8 * of_nat k)) [0..<unat (WU esp 3 s)] s)
     in (push_bit 16 (word_of_int dy AND 0xFFFF) OR (word_of_int dx AND 0xFFFF), s'))"

definition move_point :: "int \<Rightarrow> u32 \<Rightarrow> wm \<Rightarrow> u32 \<times> wm" where
  "move_point dir esp s = with_win (WU esp 0 s) 0 s (\<lambda>i. if WU esp 1 s = 0 then (0, s)
     else (1, add_point (dir * w_x (win s i)) (dir * w_y (win s i)) (WU esp 1 s) s))"

definition aret_ClientToScreen :: "u32 \<Rightarrow> wm \<Rightarrow> u32 \<times> wm" where
  "aret_ClientToScreen = move_point 1"

definition aret_ScreenToClient :: "u32 \<Rightarrow> wm \<Rightarrow> u32 \<times> wm" where
  "aret_ScreenToClient = move_point (-1)"

section \<open>Window longs\<close>

definition ext_ld :: "u8 list \<Rightarrow> nat \<Rightarrow> u32" where
  "ext_ld e k = ucast (e ! k) OR push_bit 8 (ucast (e ! (k + 1))) OR push_bit 16 (ucast (e ! (k + 2))) OR push_bit 24 (ucast (e ! (k + 3)))"

definition ext_st :: "u8 list \<Rightarrow> nat \<Rightarrow> u32 \<Rightarrow> u8 list" where
  "ext_st e k v = arr_set (arr_set (arr_set (arr_set e k (ucast v)) (k + 1) (ucast (drop_bit 8 v))) (k + 2) (ucast (drop_bit 16 v)))
     (k + 3) (ucast (drop_bit 24 v))"

text \<open>An offset into the 64 extra bytes; \<^verbatim>\<open>off + 4 <= 64\<close> without the overflow that C leaves undefined.\<close>

definition ext_ok :: "int \<Rightarrow> bool" where
  "ext_ok off \<longleftrightarrow> off \<ge> 0 \<and> off + 4 \<le> 64"

definition aret_GetWindowLongA :: "u32 \<Rightarrow> wm \<Rightarrow> u32 \<times> wm" where
  "aret_GetWindowLongA esp s = with_win (WU esp 0 s) 0 s (\<lambda>i. let w = win s i; k = WI esp 1 s in
     (if k = -16 then w_style w else if k = -20 then w_exstyle w else if k = -21 then w_userdata w
      else if k = -4 then w_wndproc w else if k = -8 then w_parent w
      else if ext_ok k then ext_ld (w_extra w) (nat k) else 0, s))"

definition aret_GetWindowLongW :: "u32 \<Rightarrow> wm \<Rightarrow> u32 \<times> wm" where
  "aret_GetWindowLongW = aret_GetWindowLongA"

definition aret_SetWindowLongA :: "u32 \<Rightarrow> wm \<Rightarrow> u32 \<times> wm" where
  "aret_SetWindowLongA esp s = with_win (WU esp 0 s) 0 s (\<lambda>i. let w = win s i; k = WI esp 1 s; v = WU esp 2 s in
     if k = -16 then (w_style w, upd_win i (\<lambda>w. w\<lparr>w_style := v\<rparr>) s)
     else if k = -20 then (w_exstyle w, upd_win i (\<lambda>w. w\<lparr>w_exstyle := v\<rparr>) s)
     else if k = -21 then (w_userdata w, upd_win i (\<lambda>w. w\<lparr>w_userdata := v\<rparr>) s)
     else if k = -4 then (w_wndproc w, upd_win i (\<lambda>w. w\<lparr>w_wndproc := v\<rparr>) s)
     else if ext_ok k then (ext_ld (w_extra w) (nat k), upd_win i (\<lambda>w. w\<lparr>w_extra := ext_st (w_extra w) (nat k) v\<rparr>) s)
     else (0, s))"

definition aret_SetWindowLongW :: "u32 \<Rightarrow> wm \<Rightarrow> u32 \<times> wm" where
  "aret_SetWindowLongW = aret_SetWindowLongA"

section \<open>Scroll bars\<close>

definition u32_sb_idx :: "u32 \<Rightarrow> nat option" where
  "u32_sb_idx bar = (if bar \<le> 2 then Some (unat bar) else None)"

definition u32_sb_clamp :: "bool \<Rightarrow> scroll_bar \<Rightarrow> scroll_bar" where
  "u32_sb_clamp with_page b =
     (let lo = sb_min b;
          hi = c_int (sb_max b - (if with_page \<and> sb_page b > 0 then sb_page b - 1 else 0));
          hi = (if hi < lo then lo else hi);
          b = (if sb_pos b < lo then b\<lparr>sb_pos := lo\<rparr> else b)
      in if sb_pos b > hi then b\<lparr>sb_pos := hi\<rparr> else b)"

definition upd_bar :: "nat \<Rightarrow> nat \<Rightarrow> (scroll_bar \<Rightarrow> scroll_bar) \<Rightarrow> wm \<Rightarrow> wm" where
  "upd_bar i b f = upd_win i (\<lambda>w. w\<lparr>w_scroll := arr_set (w_scroll w) b (f (w_scroll w ! b))\<rparr>)"

text \<open>The window of argument 0 and the bar of argument 1.\<close>

definition bar_of :: "u32 \<Rightarrow> wm \<Rightarrow> (nat \<times> nat) option" where
  "bar_of esp s = (case (win_idx s (WU esp 0 s), u32_sb_idx (WU esp 1 s)) of (Some i, Some b) \<Rightarrow> Some (i, b) | _ \<Rightarrow> None)"

abbreviation bar :: "wm \<Rightarrow> nat \<Rightarrow> nat \<Rightarrow> scroll_bar" where
  "bar s i b \<equiv> w_scroll (win s i) ! b"

definition aret_SetScrollRange :: "u32 \<Rightarrow> wm \<Rightarrow> u32 \<times> wm" where
  "aret_SetScrollRange esp s = (case bar_of esp s of None \<Rightarrow> (0, s)
     | Some (i, b) \<Rightarrow> (1, upd_bar i b (\<lambda>v. u32_sb_clamp False (v\<lparr>sb_min := WI esp 2 s, sb_max := WI esp 3 s\<rparr>)) s))"

definition aret_GetScrollRange :: "u32 \<Rightarrow> wm \<Rightarrow> u32 \<times> wm" where
  "aret_GetScrollRange esp s = (case bar_of esp s of None \<Rightarrow> (0, put32 (WU esp 3 s) 0 (put32 (WU esp 2 s) 0 s))
     | Some (i, b) \<Rightarrow> (1, put32 (WU esp 3 s) (word_of_int (sb_max (bar s i b)))
         (put32 (WU esp 2 s) (word_of_int (sb_min (bar s i b))) s)))"

definition aret_SetScrollPos :: "u32 \<Rightarrow> wm \<Rightarrow> u32 \<times> wm" where
  "aret_SetScrollPos esp s = (case bar_of esp s of None \<Rightarrow> (0, s)
     | Some (i, b) \<Rightarrow> (word_of_int (sb_pos (bar s i b)), upd_bar i b (\<lambda>v. u32_sb_clamp False (v\<lparr>sb_pos := WI esp 2 s\<rparr>)) s))"

definition aret_GetScrollPos :: "u32 \<Rightarrow> wm \<Rightarrow> u32 \<times> wm" where
  "aret_GetScrollPos esp s = (case bar_of esp s of None \<Rightarrow> (0, s) | Some (i, b) \<Rightarrow> (word_of_int (sb_pos (bar s i b)), s))"

text \<open>The fields of \<^verbatim>\<open>SCROLLINFO\<close> that the mask selects: range 1, page 2, position 4, track position 16.\<close>

definition set_info :: "guest_mem \<Rightarrow> u32 \<Rightarrow> scroll_bar \<Rightarrow> scroll_bar" where
  "set_info m si v = (let mask = ld32 m (si + 4);
       v = (if mask AND 1 \<noteq> 0 then v\<lparr>sb_min := sint (ld32 m (si + 8)), sb_max := sint (ld32 m (si + 12))\<rparr> else v);
       v = (if mask AND 2 \<noteq> 0 then v\<lparr>sb_page := sint (ld32 m (si + 16))\<rparr> else v);
       v = (if mask AND 4 \<noteq> 0 then v\<lparr>sb_pos := sint (ld32 m (si + 20))\<rparr> else v)
     in u32_sb_clamp True v)"

definition aret_SetScrollInfo :: "u32 \<Rightarrow> wm \<Rightarrow> u32 \<times> wm" where
  "aret_SetScrollInfo esp s = (case bar_of esp s of None \<Rightarrow> (0, s)
     | Some (i, b) \<Rightarrow> if WU esp 2 s = 0 then (0, s)
         else let s' = upd_bar i b (set_info (mem s) (WU esp 2 s)) s in (word_of_int (sb_pos (bar s' i b)), s'))"

definition aret_GetScrollInfo :: "u32 \<Rightarrow> wm \<Rightarrow> u32 \<times> wm" where
  "aret_GetScrollInfo esp s = (let si = WU esp 2 s in if si = 0 then (0, s)
     else case bar_of esp s of None \<Rightarrow> (0, s)
     | Some (i, b) \<Rightarrow> let mask = ld32 (mem s) (si + 4); v = bar s i b; st = (\<lambda>o' x m. st32 m (si + o') (word_of_int x));
         m = (if mask AND 1 \<noteq> 0 then st 12 (sb_max v) (st 8 (sb_min v) (mem s)) else mem s);
         m = (if mask AND 2 \<noteq> 0 then st 16 (sb_page v) m else m);
         m = (if mask AND 4 \<noteq> 0 then st 20 (sb_pos v) m else m);
         m = (if mask AND 0x10 \<noteq> 0 then st 24 (sb_pos v) m else m)
       in (1, s\<lparr>mem := m\<rparr>))"

text \<open>\<^verbatim>\<open>ShowScrollBar\<close> toggles the style bits of the bars.\<close>

definition aret_ShowScrollBar :: "u32 \<Rightarrow> wm \<Rightarrow> u32 \<times> wm" where
  "aret_ShowScrollBar esp s = with_win (WU esp 0 s) 0 s (\<lambda>i. let b = WU esp 1 s; show' = WU esp 2 s \<noteq> 0;
       put = (\<lambda>bit v. if show' then v OR bit else v AND NOT bit) in
     (1, upd_win i (\<lambda>w. let w = (if b = 0 \<or> b = 3 then w\<lparr>w_style := put 0x00100000 (w_style w)\<rparr> else w)
        in if b = 1 \<or> b = 3 then w\<lparr>w_style := put 0x00200000 (w_style w)\<rparr> else w) s))"

text \<open>The rectangle a scroll uncovers: the hull of the non-empty strips.\<close>

definition su_add :: "rect \<Rightarrow> rect option \<Rightarrow> rect option" where
  "su_add q u = (case q of (xl, xt, xr, xb) \<Rightarrow> if xr > xl \<and> xb > xt
     then (case u of None \<Rightarrow> Some q | Some (ul, ut, ur, ub) \<Rightarrow> Some (min xl ul, min xt ut, max xr ur, max xb ub)) else u)"

definition u32_scroll_update :: "int \<Rightarrow> int \<Rightarrow> rect \<Rightarrow> rect" where
  "u32_scroll_update dx dy q = (case q of (l, t, r, b) \<Rightarrow>
     let u = (if dx > 0 then su_add (l, t, (if c_int (l + dx) < r then c_int (l + dx) else r), b) None
              else if dx < 0 then su_add ((if c_int (r + dx) > l then c_int (r + dx) else l), t, r, b) None else None);
         u = (if dy > 0 then su_add (l, t, r, (if c_int (t + dy) < b then c_int (t + dy) else b)) u
              else if dy < 0 then su_add (l, (if c_int (b + dy) > t then c_int (b + dy) else t), r, b) u else u)
     in case u of Some v \<Rightarrow> v | None \<Rightarrow> (0, 0, 0, 0))"

definition aret_ScrollWindowEx :: "u32 \<Rightarrow> wm \<Rightarrow> u32 \<times> wm" where
  "aret_ScrollWindowEx esp s = with_win (WU esp 0 s) 0 s (\<lambda>i.
     let scr = WU esp 3 s; upd = WU esp 6 s;
         q = (if scr = 0 then (0, 0, w_w (win s i), w_h (win s i)) else rect_at (mem s) scr);
         s = (if upd = 0 then s else put_rect upd (u32_scroll_update (WI esp 1 s) (WI esp 2 s) q) s)
     in (2, upd_win i (\<lambda>w. w\<lparr>w_needs_paint := True\<rparr>) s))"

definition aret_ScrollWindow :: "u32 \<Rightarrow> wm \<Rightarrow> u32 \<times> wm" where
  "aret_ScrollWindow esp s = with_win (WU esp 0 s) 0 s (\<lambda>i. (1, upd_win i (\<lambda>w. w\<lparr>w_needs_paint := True\<rparr>) s))"

section \<open>Hierarchy and lookup\<close>

definition child_of :: "wm \<Rightarrow> u32 \<Rightarrow> nat \<Rightarrow> bool" where
  "child_of s p k \<longleftrightarrow> w_used (win s k) \<and> w_parent (win s k) = p"

definition opt_hwnd :: "nat option \<Rightarrow> u32" where
  "opt_hwnd k = (case k of None \<Rightarrow> 0 | Some i \<Rightarrow> hwnd_of i)"

definition u32_first_child :: "wm \<Rightarrow> u32 \<Rightarrow> u32" where
  "u32_first_child s p = opt_hwnd (first_idx (child_of s p) 0 U32_MAX_WIN)"

definition aret_GetWindow :: "u32 \<Rightarrow> wm \<Rightarrow> u32 \<times> wm" where
  "aret_GetWindow esp s = (let h = WU esp 0 s; cmd = WU esp 1 s in
     if cmd = 5 then (u32_first_child s (if h = U32_DESKTOP then 0 else h), s)
     else with_win h 0 s (\<lambda>i. let p = w_parent (win s i) in
       if cmd = 4 then (if w_style (win s i) AND 0x40000000 \<noteq> 0 then 0 else p, s)
       else if cmd = 2 then (opt_hwnd (first_idx (child_of s p) (Suc i) U32_MAX_WIN), s)
       else if cmd = 3 then (opt_hwnd (last_idx (child_of s p) i), s)
       else if cmd = 0 then (u32_first_child s p, s)
       else if cmd = 1 then (opt_hwnd (last_idx (child_of s p) U32_MAX_WIN), s)
       else (0, s)))"

definition aret_GetTopWindow :: "u32 \<Rightarrow> wm \<Rightarrow> u32 \<times> wm" where
  "aret_GetTopWindow esp s = (let h = WU esp 0 s in (u32_first_child s (if h = 0 \<or> h = U32_DESKTOP then 0 else h), s))"

definition aret_GetDesktopWindow :: "u32 \<Rightarrow> wm \<Rightarrow> u32 \<times> wm" where
  "aret_GetDesktopWindow esp s = (U32_DESKTOP, s)"

text \<open>\<^verbatim>\<open>IsChild\<close> climbs at most \<^verbatim>\<open>U32_MAX_WIN\<close> parents, through child windows only.\<close>

primrec is_child_loop :: "nat \<Rightarrow> wm \<Rightarrow> u32 \<Rightarrow> u32 \<Rightarrow> bool" where
  "is_child_loop 0 s anc h = False"
| "is_child_loop (Suc g) s anc h = (case win_idx s h of None \<Rightarrow> False
     | Some i \<Rightarrow> if w_style (win s i) AND 0x40000000 = 0 then False
         else let h = w_parent (win s i) in if h = anc then True else if h = 0 then False else is_child_loop g s anc h)"

definition aret_IsChild :: "u32 \<Rightarrow> wm \<Rightarrow> u32 \<times> wm" where
  "aret_IsChild esp s = (b32 (is_child_loop U32_MAX_WIN s (WU esp 0 s) (WU esp 1 s)), s)"

primrec descendant_loop :: "nat \<Rightarrow> wm \<Rightarrow> u32 \<Rightarrow> u32 \<Rightarrow> bool" where
  "descendant_loop 0 s anc h = False"
| "descendant_loop (Suc g) s anc h = (if h = 0 then False else if h = anc then True
     else case win_idx s h of None \<Rightarrow> False | Some i \<Rightarrow> descendant_loop g s anc (w_parent (win s i)))"

definition u32_is_descendant :: "wm \<Rightarrow> u32 \<Rightarrow> u32 \<Rightarrow> bool" where
  "u32_is_descendant s anc h = descendant_loop (Suc U32_MAX_WIN) s anc h"

definition in_win :: "int \<Rightarrow> int \<Rightarrow> u32_window \<Rightarrow> bool" where
  "in_win x y w \<longleftrightarrow> x \<ge> w_x w \<and> x < c_int (w_x w + w_w w) \<and> y \<ge> w_y w \<and> y < c_int (w_y w + w_h w)"

definition aret_ChildWindowFromPoint :: "u32 \<Rightarrow> wm \<Rightarrow> u32 \<times> wm" where
  "aret_ChildWindowFromPoint esp s = (let par = WU esp 0 s in
     (case first_idx (\<lambda>c. child_of s par c \<and> w_visible (win s c) \<and> in_win (WI esp 1 s) (WI esp 2 s) (win s c)) 0 U32_MAX_WIN of
        None \<Rightarrow> par | Some c \<Rightarrow> hwnd_of c, s))"

definition aret_WindowFromPoint :: "u32 \<Rightarrow> wm \<Rightarrow> u32 \<times> wm" where
  "aret_WindowFromPoint esp s = (opt_hwnd (first_idx (\<lambda>i. child_of s 0 i \<and> w_visible (win s i)
     \<and> in_win (WI esp 0 s) (WI esp 1 s) (win s i)) 0 U32_MAX_WIN), s)"

text \<open>\<^verbatim>\<open>FindWindow\<close>: by title only; a query by class alone finds nothing.\<close>

definition find_window :: "bool \<Rightarrow> u8 list option \<Rightarrow> wm \<Rightarrow> u32" where
  "find_window has_cls title s = (if has_cls \<and> title = None then 0
     else opt_hwnd (first_idx (\<lambda>i. w_used (win s i) \<and> (title = None \<or> title = Some (w_title (win s i)))) 0 U32_MAX_WIN))"

definition aret_FindWindowA :: "u32 \<Rightarrow> wm \<Rightarrow> u32 \<times> wm" where
  "aret_FindWindowA esp s = (find_window (WU esp 0 s \<noteq> 0) (menu_text (mem s) (WU esp 1 s)) s, s)"

definition aret_FindWindowW :: "u32 \<Rightarrow> wm \<Rightarrow> u32 \<times> wm" where
  "aret_FindWindowW esp s = (find_window (WU esp 0 s \<noteq> 0)
     (if WU esp 1 s = 0 then None else Some (u32_w2n (wstr (mem s) (WU esp 1 s)) 256)) s, s)"

text \<open>Text copied out into a buffer of \<open>cch\<close> characters: at most \<open>cch - 1\<close> and a NUL.\<close>

definition put_text_a :: "u32 \<Rightarrow> u32 \<Rightarrow> u8 list \<Rightarrow> wm \<Rightarrow> u32 \<times> wm" where
  "put_text_a buf cch t s = (let v = take (unat cch - 1) t in (of_nat (length v), s\<lparr>mem := st_bytes (mem s) buf (v @ [0])\<rparr>))"

definition put_text_w :: "u32 \<Rightarrow> u32 \<Rightarrow> u8 list \<Rightarrow> wm \<Rightarrow> u32 \<times> wm" where
  "put_text_w buf cch t s = (let v = take (unat cch - 1) t
     in (of_nat (length v), s\<lparr>mem := st_bytes (mem s) buf (concat (map (\<lambda>c. [c, 0]) (v @ [0])))\<rparr>))"

definition aret_GetClassNameA :: "u32 \<Rightarrow> wm \<Rightarrow> u32 \<times> wm" where
  "aret_GetClassNameA esp s = (let buf = WU esp 1 s; cch = WU esp 2 s in if buf = 0 \<or> cch = 0 then (0, s)
     else case win_idx s (WU esp 0 s) of None \<Rightarrow> (0, s\<lparr>mem := (mem s)(buf := 0)\<rparr>)
       | Some i \<Rightarrow> put_text_a buf cch (w_classname (win s i)) s)"

definition aret_GetClassNameW :: "u32 \<Rightarrow> wm \<Rightarrow> u32 \<times> wm" where
  "aret_GetClassNameW esp s = (let buf = WU esp 1 s; cch = WU esp 2 s in if buf = 0 \<or> cch = 0 then (0, s)
     else case win_idx s (WU esp 0 s) of None \<Rightarrow> (0, s\<lparr>mem := st16 (mem s) buf 0\<rparr>)
       | Some i \<Rightarrow> put_text_w buf cch (w_classname (win s i)) s)"

section \<open>Dialog items\<close>

definition dlg_find :: "wm \<Rightarrow> u32 \<Rightarrow> int \<Rightarrow> nat option" where
  "dlg_find s hDlg cid = first_idx (\<lambda>i. child_of s hDlg i \<and> w_ctrl_id (win s i) = cid) 0 U32_MAX_WIN"

definition u32_dlg_item :: "wm \<Rightarrow> u32 \<Rightarrow> int \<Rightarrow> u32" where
  "u32_dlg_item s hDlg cid = opt_hwnd (dlg_find s hDlg cid)"

definition u32_dlg_ctrl :: "wm \<Rightarrow> u32 \<Rightarrow> int \<Rightarrow> nat option" where
  "u32_dlg_ctrl s hdlg cid = (case win_idx s hdlg of None \<Rightarrow> None | Some d \<Rightarrow> dlg_find s (hwnd_of d) cid)"

definition aret_GetDlgItem :: "u32 \<Rightarrow> wm \<Rightarrow> u32 \<times> wm" where
  "aret_GetDlgItem esp s = (u32_dlg_item s (WU esp 0 s) (WI esp 1 s), s)"

definition aret_CheckDlgButton :: "u32 \<Rightarrow> wm \<Rightarrow> u32 \<times> wm" where
  "aret_CheckDlgButton esp s = (case u32_dlg_ctrl s (WU esp 0 s) (WI esp 1 s) of None \<Rightarrow> (0, s)
     | Some c \<Rightarrow> (1, upd_win c (\<lambda>w. w\<lparr>w_check_state := WI esp 2 s\<rparr>) s))"

definition aret_IsDlgButtonChecked :: "u32 \<Rightarrow> wm \<Rightarrow> u32 \<times> wm" where
  "aret_IsDlgButtonChecked esp s = (case u32_dlg_ctrl s (WU esp 0 s) (WI esp 1 s) of None \<Rightarrow> 0
     | Some c \<Rightarrow> word_of_int (w_check_state (win s c)), s)"

definition aret_SetDlgItemTextA :: "u32 \<Rightarrow> wm \<Rightarrow> u32 \<times> wm" where
  "aret_SetDlgItemTextA esp s = with_win (u32_dlg_item s (WU esp 0 s) (WI esp 1 s)) 0 s (\<lambda>i.
     (1, upd_win i (\<lambda>w. w\<lparr>w_title := take 255 (narrow_at (mem s) (WU esp 2 s))\<rparr>) s))"

definition aret_SetDlgItemTextW :: "u32 \<Rightarrow> wm \<Rightarrow> u32 \<times> wm" where
  "aret_SetDlgItemTextW esp s = with_win (u32_dlg_item s (WU esp 0 s) (WI esp 1 s)) 0 s (\<lambda>i.
     (1, upd_win i (\<lambda>w. w\<lparr>w_title := w2n_at (mem s) (WU esp 2 s) 256\<rparr>) s))"

definition aret_GetDlgItemTextA :: "u32 \<Rightarrow> wm \<Rightarrow> u32 \<times> wm" where
  "aret_GetDlgItemTextA esp s = (let buf = WU esp 2 s; cch = WU esp 3 s in if buf = 0 \<or> cch = 0 then (0, s)
     else case win_idx s (u32_dlg_item s (WU esp 0 s) (WI esp 1 s)) of None \<Rightarrow> (0, s\<lparr>mem := (mem s)(buf := 0)\<rparr>)
       | Some i \<Rightarrow> put_text_a buf cch (w_title (win s i)) s)"

definition aret_GetDlgItemTextW :: "u32 \<Rightarrow> wm \<Rightarrow> u32 \<times> wm" where
  "aret_GetDlgItemTextW esp s = (let buf = WU esp 2 s; cch = WU esp 3 s in if buf = 0 \<or> cch = 0 then (0, s)
     else case win_idx s (u32_dlg_item s (WU esp 0 s) (WI esp 1 s)) of None \<Rightarrow> (0, s\<lparr>mem := st16 (mem s) buf 0\<rparr>)
       | Some i \<Rightarrow> put_text_w buf cch (w_title (win s i)) s)"

text \<open>
  The next (or previous) control of a dialog in slot order, wrapping around. The \<^verbatim>\<open>tab\<close> form
  takes the tab stops only; a \<^verbatim>\<open>cur\<close> that is not among them starts at the first.
\<close>

definition dlg_kids :: "wm \<Rightarrow> u32 \<Rightarrow> bool \<Rightarrow> nat list" where
  "dlg_kids s hDlg tab = filter (\<lambda>i. child_of s hDlg i \<and> w_visible (win s i) \<and> w_enabled (win s i)
     \<and> (tab \<longrightarrow> w_style (win s i) AND 0x00010000 \<noteq> 0)) [0..<U32_MAX_WIN]"

definition u32_next_dlg_item :: "wm \<Rightarrow> u32 \<Rightarrow> u32 \<Rightarrow> bool \<Rightarrow> bool \<Rightarrow> u32" where
  "u32_next_dlg_item s hDlg cur prev tab = (case win_idx s hDlg of None \<Rightarrow> 0
     | Some d \<Rightarrow> let kids = dlg_kids s hDlg tab; nk = length kids in
         if nk = 0 then 0
         else case last_idx (\<lambda>k. hwnd_of (kids ! k) = cur) nk of None \<Rightarrow> hwnd_of (kids ! 0)
           | Some cp \<Rightarrow> hwnd_of (kids ! (if prev then (cp + nk - 1) mod nk else (cp + 1) mod nk)))"

definition aret_GetNextDlgTabItem :: "u32 \<Rightarrow> wm \<Rightarrow> u32 \<times> wm" where
  "aret_GetNextDlgTabItem esp s = (u32_next_dlg_item s (WU esp 0 s) (WU esp 1 s) (WU esp 2 s \<noteq> 0) True, s)"

definition aret_GetNextDlgGroupItem :: "u32 \<Rightarrow> wm \<Rightarrow> u32 \<times> wm" where
  "aret_GetNextDlgGroupItem esp s = (u32_next_dlg_item s (WU esp 0 s) (WU esp 1 s) (WU esp 2 s \<noteq> 0) False, s)"

text \<open>A rectangle in dialog units, turned into pixels in place; \<open>None\<close> of the base units reports a partial model and fails.\<close>

definition aret_MapDialogRect :: "u32 \<Rightarrow> wm \<Rightarrow> u32 \<times> wm" where
  "aret_MapDialogRect esp s = with_win (WU esp 0 s) 0 s (\<lambda>i. let r = WU esp 1 s; bx = w_du_x (win s i); by' = w_du_y (win s i) in
     if r = 0 \<or> bx \<le> 0 \<or> by' \<le> 0 then (0, s)
     else let s = seti r 0 (gdi_muldiv (geti (mem s) r 0) bx 4) s; s = seti r 2 (gdi_muldiv (geti (mem s) r 2) bx 4) s;
              s = seti r 1 (gdi_muldiv (geti (mem s) r 1) by' 8) s
       in (1, seti r 3 (gdi_muldiv (geti (mem s) r 3) by' 8) s))"

definition u32_dialog_destroy :: "u32 \<Rightarrow> wm \<Rightarrow> wm" where
  "u32_dialog_destroy hDlg s = s\<lparr>g_u32_win := map (\<lambda>(i, w). if w_used w \<and> (hwnd_of i = hDlg \<or> w_parent w = hDlg)
     then w\<lparr>w_used := False\<rparr> else w) (enumerate 0 (g_u32_win s))\<rparr>"

section \<open>Registered messages and window properties\<close>

definition u32_reg_win_msg :: "u8 list \<Rightarrow> wm \<Rightarrow> u32 \<times> wm" where
  "u32_reg_win_msg n s = (if n = [] then (0, s)
     else case first_idx (\<lambda>i. rwm_used (g_u32_rwm s ! i) \<and> strncmp_eq 128 (rwm_name (g_u32_rwm s ! i)) n) 0 U32_MAX_RWM of
       Some i \<Rightarrow> (rwm_id (g_u32_rwm s ! i), s)
     | None \<Rightarrow> (case first_idx (\<lambda>i. \<not> rwm_used (g_u32_rwm s ! i)) 0 U32_MAX_RWM of None \<Rightarrow> (0, s)
         | Some i \<Rightarrow> (g_u32_rwm_next s, s\<lparr>g_u32_rwm := arr_set (g_u32_rwm s) i \<lparr>rwm_name = take 127 n, rwm_id = g_u32_rwm_next s, rwm_used = True\<rparr>,
               g_u32_rwm_next := g_u32_rwm_next s + 1\<rparr>)))"

definition aret_RegisterWindowMessageA :: "u32 \<Rightarrow> wm \<Rightarrow> u32 \<times> wm" where
  "aret_RegisterWindowMessageA esp s = u32_reg_win_msg (narrow_at (mem s) (WU esp 0 s)) s"

definition aret_RegisterWindowMessageW :: "u32 \<Rightarrow> wm \<Rightarrow> u32 \<times> wm" where
  "aret_RegisterWindowMessageW esp s = u32_reg_win_msg (w2n_at (mem s) (WU esp 0 s) 128) s"

definition aret_RegisterClipboardFormatA :: "u32 \<Rightarrow> wm \<Rightarrow> u32 \<times> wm" where
  "aret_RegisterClipboardFormatA esp s = u32_reg_win_msg (narrow_at (mem s) (WU esp 0 s)) s"

definition aret_RegisterClipboardFormatW :: "u32 \<Rightarrow> wm \<Rightarrow> u32 \<times> wm" where
  "aret_RegisterClipboardFormatW esp s = u32_reg_win_msg (w2n_at (mem s) (WU esp 0 s) 128) s"

definition u32_prop_find :: "prop_ent list \<Rightarrow> u32 \<Rightarrow> u8 list \<Rightarrow> nat option" where
  "u32_prop_find P h key = first_idx (\<lambda>i. pr_used (P ! i) \<and> pr_hwnd (P ! i) = h \<and> strncmp_eq 64 (pr_key (P ! i)) key) 0 U32_MAX_PROP"

text \<open>The slot a property is written to: its own, or the first free one.\<close>

definition prop_slot :: "prop_ent list \<Rightarrow> u32 \<Rightarrow> u8 list \<Rightarrow> nat option" where
  "prop_slot P h key = (case u32_prop_find P h key of Some i \<Rightarrow> Some i | None \<Rightarrow> first_idx (\<lambda>i. \<not> pr_used (P ! i)) 0 U32_MAX_PROP)"

definition u32_set_prop :: "u32 \<Rightarrow> u8 list option \<Rightarrow> u32 \<Rightarrow> wm \<Rightarrow> u32 \<times> wm" where
  "u32_set_prop h key v s = (case key of None \<Rightarrow> (0, s)
     | Some k \<Rightarrow> (case prop_slot (g_u32_prop s) h k of None \<Rightarrow> (0, s)
         | Some i \<Rightarrow> (1, s\<lparr>g_u32_prop := arr_set (g_u32_prop s) i \<lparr>pr_hwnd = h, pr_key = take 63 k, pr_val = v, pr_used = True\<rparr>\<rparr>)))"

definition u32_get_prop :: "u32 \<Rightarrow> u8 list option \<Rightarrow> wm \<Rightarrow> u32 \<times> wm" where
  "u32_get_prop h key s = (case key of None \<Rightarrow> 0
     | Some k \<Rightarrow> (case u32_prop_find (g_u32_prop s) h k of None \<Rightarrow> 0 | Some i \<Rightarrow> pr_val (g_u32_prop s ! i)), s)"

definition u32_rm_prop :: "u32 \<Rightarrow> u8 list option \<Rightarrow> wm \<Rightarrow> u32 \<times> wm" where
  "u32_rm_prop h key s = (case key of None \<Rightarrow> (0, s)
     | Some k \<Rightarrow> (case u32_prop_find (g_u32_prop s) h k of None \<Rightarrow> (0, s)
         | Some i \<Rightarrow> (pr_val (g_u32_prop s ! i), s\<lparr>g_u32_prop := arr_set (g_u32_prop s) i ((g_u32_prop s ! i)\<lparr>pr_used := False\<rparr>)\<rparr>)))"

definition aret_SetPropA :: "u32 \<Rightarrow> wm \<Rightarrow> u32 \<times> wm" where
  "aret_SetPropA esp s = u32_set_prop (WU esp 0 s) (menu_text (mem s) (WU esp 1 s)) (WU esp 2 s) s"

definition aret_GetPropA :: "u32 \<Rightarrow> wm \<Rightarrow> u32 \<times> wm" where
  "aret_GetPropA esp s = u32_get_prop (WU esp 0 s) (menu_text (mem s) (WU esp 1 s)) s"

definition aret_RemovePropA :: "u32 \<Rightarrow> wm \<Rightarrow> u32 \<times> wm" where
  "aret_RemovePropA esp s = u32_rm_prop (WU esp 0 s) (menu_text (mem s) (WU esp 1 s)) s"

definition aret_SetPropW :: "u32 \<Rightarrow> wm \<Rightarrow> u32 \<times> wm" where
  "aret_SetPropW esp s = u32_set_prop (WU esp 0 s) (Some (w2n_at (mem s) (WU esp 1 s) 64)) (WU esp 2 s) s"

definition aret_GetPropW :: "u32 \<Rightarrow> wm \<Rightarrow> u32 \<times> wm" where
  "aret_GetPropW esp s = u32_get_prop (WU esp 0 s) (Some (w2n_at (mem s) (WU esp 1 s) 64)) s"

definition aret_RemovePropW :: "u32 \<Rightarrow> wm \<Rightarrow> u32 \<times> wm" where
  "aret_RemovePropW esp s = u32_rm_prop (WU esp 0 s) (Some (w2n_at (mem s) (WU esp 1 s) 64)) s"

section \<open>Hooks, clipboard, capture, caret and cursor\<close>

definition u32_hook_set :: "int \<Rightarrow> u32 \<Rightarrow> wm \<Rightarrow> u32 \<times> wm" where
  "u32_hook_set idHook proc s = (let idx = c_int (idHook + 1) in if idx < 0 \<or> idx \<ge> 16 then (0x484F4F4B, s)
     else (0x48480000 OR word_of_int (idx + 1), s\<lparr>g_u32_hook := arr_set (g_u32_hook s) (nat idx) proc\<rparr>))"

definition aret_SetWindowsHookExA :: "u32 \<Rightarrow> wm \<Rightarrow> u32 \<times> wm" where
  "aret_SetWindowsHookExA esp s = u32_hook_set (WI esp 0 s) (WU esp 1 s) s"

definition aret_SetWindowsHookExW :: "u32 \<Rightarrow> wm \<Rightarrow> u32 \<times> wm" where
  "aret_SetWindowsHookExW esp s = u32_hook_set (WI esp 0 s) (WU esp 1 s) s"

definition aret_UnhookWindowsHookEx :: "u32 \<Rightarrow> wm \<Rightarrow> u32 \<times> wm" where
  "aret_UnhookWindowsHookEx esp s = (let h = WU esp 0 s; idx = uint (h AND 0xFFFF) - 1 in
     (1, if h AND 0xFFFF0000 = 0x48480000 \<and> idx \<ge> 0 \<and> idx < 16 then s\<lparr>g_u32_hook := arr_set (g_u32_hook s) (nat idx) 0\<rparr> else s))"

definition aret_CallNextHookEx :: "u32 \<Rightarrow> wm \<Rightarrow> u32 \<times> wm" where
  "aret_CallNextHookEx esp s = (0, s)"

text \<open>The clipboard: the \<^verbatim>\<open>g_u32_clip_n\<close> filled entries of the table.\<close>

definition clip_find :: "(u32 \<times> u32) list \<Rightarrow> u32 \<Rightarrow> nat option" where
  "clip_find C fmt = first_idx (\<lambda>i. fst (C ! i) = fmt) 0 (length C)"

definition aret_OpenClipboard :: "u32 \<Rightarrow> wm \<Rightarrow> u32 \<times> wm" where
  "aret_OpenClipboard esp s = (1, s)"

definition aret_CloseClipboard :: "u32 \<Rightarrow> wm \<Rightarrow> u32 \<times> wm" where
  "aret_CloseClipboard esp s = (1, s)"

definition aret_EmptyClipboard :: "u32 \<Rightarrow> wm \<Rightarrow> u32 \<times> wm" where
  "aret_EmptyClipboard esp s = (1, s\<lparr>g_u32_clip := []\<rparr>)"

definition aret_SetClipboardData :: "u32 \<Rightarrow> wm \<Rightarrow> u32 \<times> wm" where
  "aret_SetClipboardData esp s = (let fmt = WU esp 0 s; h = WU esp 1 s; C = g_u32_clip s in
     (h, case clip_find C fmt of Some i \<Rightarrow> s\<lparr>g_u32_clip := arr_set C i (fmt, h)\<rparr>
         | None \<Rightarrow> if length C < 32 then s\<lparr>g_u32_clip := C @ [(fmt, h)]\<rparr> else s))"

definition aret_GetClipboardData :: "u32 \<Rightarrow> wm \<Rightarrow> u32 \<times> wm" where
  "aret_GetClipboardData esp s = (case clip_find (g_u32_clip s) (WU esp 0 s) of None \<Rightarrow> 0 | Some i \<Rightarrow> snd (g_u32_clip s ! i), s)"

definition aret_IsClipboardFormatAvailable :: "u32 \<Rightarrow> wm \<Rightarrow> u32 \<times> wm" where
  "aret_IsClipboardFormatAvailable esp s = (b32 (clip_find (g_u32_clip s) (WU esp 0 s) \<noteq> None), s)"

definition aret_SetCapture :: "u32 \<Rightarrow> wm \<Rightarrow> u32 \<times> wm" where
  "aret_SetCapture esp s = (g_u32_capture s, s\<lparr>g_u32_capture := WU esp 0 s\<rparr>)"

definition aret_GetCapture :: "u32 \<Rightarrow> wm \<Rightarrow> u32 \<times> wm" where
  "aret_GetCapture esp s = (g_u32_capture s, s)"

definition aret_ReleaseCapture :: "u32 \<Rightarrow> wm \<Rightarrow> u32 \<times> wm" where
  "aret_ReleaseCapture esp s = (1, s\<lparr>g_u32_capture := 0\<rparr>)"

definition aret_GetCursorPos :: "u32 \<Rightarrow> wm \<Rightarrow> u32 \<times> wm" where
  "aret_GetCursorPos esp s = (1, if WU esp 0 s = 0 then s else seti (WU esp 0 s) 1 0 (seti (WU esp 0 s) 0 0 s))"

definition aret_GetFocus :: "u32 \<Rightarrow> wm \<Rightarrow> u32 \<times> wm" where
  "aret_GetFocus esp s = (g_u32_focus s, s)"

definition aret_SetActiveWindow :: "u32 \<Rightarrow> wm \<Rightarrow> u32 \<times> wm" where
  "aret_SetActiveWindow esp s = (g_u32_active s, s\<lparr>g_u32_active := WU esp 0 s\<rparr>)"

definition aret_GetActiveWindow :: "u32 \<Rightarrow> wm \<Rightarrow> u32 \<times> wm" where
  "aret_GetActiveWindow esp s = (g_u32_active s, s)"

definition aret_SetForegroundWindow :: "u32 \<Rightarrow> wm \<Rightarrow> u32 \<times> wm" where
  "aret_SetForegroundWindow esp s = (b32 (win_idx s (WU esp 0 s) \<noteq> None), s)"

definition aret_GetForegroundWindow :: "u32 \<Rightarrow> wm \<Rightarrow> u32 \<times> wm" where
  "aret_GetForegroundWindow esp s = (g_u32_active s, s)"

definition aret_BringWindowToTop :: "u32 \<Rightarrow> wm \<Rightarrow> u32 \<times> wm" where
  "aret_BringWindowToTop esp s = (b32 (win_idx s (WU esp 0 s) \<noteq> None), s)"

definition aret_SetCaretPos :: "u32 \<Rightarrow> wm \<Rightarrow> u32 \<times> wm" where
  "aret_SetCaretPos esp s = (1, s\<lparr>g_u32_caret := (WI esp 0 s, WI esp 1 s)\<rparr>)"

definition aret_GetCaretPos :: "u32 \<Rightarrow> wm \<Rightarrow> u32 \<times> wm" where
  "aret_GetCaretPos esp s = (let p = WU esp 0 s in
     (1, if p = 0 then s else seti p 1 (snd (g_u32_caret s)) (seti p 0 (fst (g_u32_caret s)) s)))"

definition aret_ShowCursor :: "u32 \<Rightarrow> wm \<Rightarrow> u32 \<times> wm" where
  "aret_ShowCursor esp s = (let n = c_int (g_u32_cursor_show s + (if WU esp 0 s \<noteq> 0 then 1 else -1)) in
     (word_of_int n, s\<lparr>g_u32_cursor_show := n\<rparr>))"

definition aret_SetCursor :: "u32 \<Rightarrow> wm \<Rightarrow> u32 \<times> wm" where
  "aret_SetCursor esp s = (g_u32_cursor s, s\<lparr>g_u32_cursor := WU esp 0 s\<rparr>)"

definition aret_GetCursor :: "u32 \<Rightarrow> wm \<Rightarrow> u32 \<times> wm" where
  "aret_GetCursor esp s = (g_u32_cursor s, s)"

text \<open>Window regions, kept as a rectangle and the complexity flag.\<close>

definition aret_SetWindowRgn :: "u32 \<Rightarrow> wm \<Rightarrow> u32 \<times> wm" where
  "aret_SetWindowRgn esp s = with_win (WU esp 0 s) 0 s (\<lambda>w. case gdi_idx (g_gdi s) (WU esp 1 s) of
       None \<Rightarrow> (1, upd_win w (\<lambda>v. v\<lparr>w_rgn_set := False\<rparr>) s)
     | Some r \<Rightarrow> let g = g_gdi s ! r in (1, upd_win w (\<lambda>v. v\<lparr>w_rgn_set := True,
         w_rgn := (rgn_l g, rgn_t g, rgn_r g, rgn_b g), w_rgn_complex := rgn_complex g\<rparr>) s))"

end
