(* ===== verification/Aret_Controls.thy ===== *)
theory Aret_Controls
  imports Aret_Windows
begin

text \<open>
  The predefined controls of \<^verbatim>\<open>aret_win32.c\<close>: the item model of list and combo boxes, the button
  kinds, and the painting of a control into a device context. What the window manager takes from
  outside is a record of parameters: the lifted guest code behind \<^verbatim>\<open>aret_call\<close>, the allocator, the
  readings of the monotonic clock, and the two services of the FreeType renderer (drawing a run of
  code points, measuring the dialog font).
\<close>

section \<open>The host\<close>

text \<open>
  \<open>h_call proc frame\<close> runs the guest procedure on the stack frame; it may change any state.
  \<open>h_malloc n\<close> is the address the allocator returns, 0 for failure. \<open>h_mono k\<close> is the \<open>k\<close>-th reading
  of \<^verbatim>\<open>mono_ns()\<close>. \<open>h_text\<close> draws a run of code points, \<open>h_units\<close> measures a dialog font
  (present, point size, weight, italic, face): the base units and the font handle.
\<close>

record host =
  h_call :: "u32 \<Rightarrow> u32 \<Rightarrow> wm \<Rightarrow> u32 \<times> wm"
  h_malloc :: "nat \<Rightarrow> wm \<Rightarrow> u32"
  h_mono :: "nat \<Rightarrow> u64"
  h_text :: "u32 \<Rightarrow> u32 list \<Rightarrow> rect \<Rightarrow> u32 \<Rightarrow> wm \<Rightarrow> wm"
  h_units :: "bool \<Rightarrow> nat \<Rightarrow> nat \<Rightarrow> nat \<Rightarrow> u8 list \<Rightarrow> wm \<Rightarrow> (int \<times> int \<times> u32) \<times> wm"

section \<open>Glyphs\<close>

definition check_pts :: "(int \<times> int) list" where
  "check_pts = [(9,3),(8,4),(9,4),(7,5),(8,5),(9,5),(3,6),(6,6),(7,6),(8,6),(3,7),(4,7),(5,7),(6,7),(7,7),(3,8),(4,8),(5,8),(6,8),(4,9),(5,9)]"

definition u32_draw_check_glyph :: "gdi_obj \<Rightarrow> int \<Rightarrow> int \<Rightarrow> bool \<Rightarrow> guest_mem \<Rightarrow> guest_mem" where
  "u32_draw_check_glyph bm x y checked m =
     (let m = snd (u32_drawedge bm (x, y, c_int (x + 13), c_int (y + 13)) 0xA 0xF m);
          m = for_xy (2, 2, 11, 11) (\<lambda>xx yy. gdi_put bm (c_int (x + xx)) (c_int (y + yy)) (u32_syscolor 5)) m
      in if checked then fold (\<lambda>(a, b). gdi_put bm (c_int (x + a)) (c_int (y + b)) (u32_syscolor 8)) check_pts m else m)"

definition radio_rows :: "string list" where
  "radio_rows = [''.............'', ''.....SSSS....'', ''...SSKKKKSS..'', ''..SSKHHHHK.H.'',
     ''..SKHHHHHHLH.'', ''.SKHHHHHHHHLH'', ''.SKHHHHHHHHLH'', ''.SKHHHHHHHHLH'',
     ''.SKHHHHHHHHLH'', ''..SKHHHHHHLH.'', ''..HHLHHHHLHH.'', ''...HHLLLLHH..'', ''.....HHHH....'']"

definition radio_color :: "char \<Rightarrow> int option" where
  "radio_color c = (if c = CHR ''S'' then Some 16 else if c = CHR ''K'' then Some 21
     else if c = CHR ''H'' then Some 20 else if c = CHR ''L'' then Some 22 else None)"

definition radio_dot :: "(int \<times> int) list" where
  "radio_dot = [(6,5),(7,5),(5,6),(6,6),(7,6),(8,6),(5,7),(6,7),(7,7),(8,7),(6,8),(7,8)]"

definition u32_draw_radio_glyph :: "gdi_obj \<Rightarrow> int \<Rightarrow> int \<Rightarrow> bool \<Rightarrow> guest_mem \<Rightarrow> guest_mem" where
  "u32_draw_radio_glyph bm x y checked m =
     (let m = for_xy (0, 0, 13, 13) (\<lambda>c r m. case radio_color (radio_rows ! nat r ! nat c) of None \<Rightarrow> m
            | Some i \<Rightarrow> gdi_put bm (c_int (x + c)) (c_int (y + r)) (u32_syscolor i) m) m
      in if checked then fold (\<lambda>(a, b). gdi_put bm (c_int (x + a)) (c_int (y + b)) (u32_syscolor 8)) radio_dot m else m)"

text \<open>\<^verbatim>\<open>DrawFrameControl\<close>: a push button, or a check box or radio button of 13 by 13 pixels.\<close>

definition aret_DrawFrameControl :: "u32 \<Rightarrow> gdi \<Rightarrow> u32 \<times> gdi" where
  "aret_DrawFrameControl esp s = (if GDI_MAP_GUARD (g_gdi s) (WU esp 0 s) then (0, s)
     else case gdi_dc_surface (g_gdi s) (WU esp 0 s) of None \<Rightarrow> (0, s)
     | Some b \<Rightarrow> if WU esp 1 s = 0 then (0, s)
       else let bm = obj s b; q = rect_at (mem s) (WU esp 1 s); st = WU esp 3 s; bt = st AND 0xFF; checked = st AND 0x400 \<noteq> 0 in
       (case q of (l, t, r, bo) \<Rightarrow>
          let small = c_int (r - l) = 13 \<and> c_int (bo - t) = 13 in
          if WU esp 2 s \<noteq> 4 then (0, s)
          else if bt = 0x10 \<and> st AND 0x200 = 0 then (case u32_drawedge bm q 5 0x180F (mem s) of (v, m) \<Rightarrow> (v, s\<lparr>mem := m\<rparr>))
          else if bt = 0 \<and> small then (1, s\<lparr>mem := u32_draw_check_glyph bm l t checked (mem s)\<rparr>)
          else if bt = 4 \<and> small then (1, s\<lparr>mem := u32_draw_radio_glyph bm l t checked (mem s)\<rparr>)
          else (0, s)))"

section \<open>Items of list and combo boxes\<close>

definition u32_items_free :: "nat \<Rightarrow> wm \<Rightarrow> wm" where
  "u32_items_free i = upd_win i (\<lambda>w. w\<lparr>w_items := [], w_item_cap := 0, w_cur_sel := -1\<rparr>)"

text \<open>
  Insertion at a position, at the end for a position outside the list. The array grows by doubling;
  when it cannot, nothing changes. The items are moved up before the copy of the string is
  allocated, so a failure there leaves the moved items behind under the old count.
\<close>

definition items_pos :: "int \<Rightarrow> nat \<Rightarrow> nat" where
  "items_pos pos n = (if pos < 0 \<or> pos > int n then n else nat pos)"

definition items_insert :: "int \<Rightarrow> u8 list \<Rightarrow> u8 list list \<Rightarrow> u8 list list" where
  "items_insert pos str xs = (let k = items_pos pos (length xs) in take k xs @ [str] @ drop k xs)"

definition u32_items_insert :: "host \<Rightarrow> nat \<Rightarrow> int \<Rightarrow> u8 list \<Rightarrow> wm \<Rightarrow> int \<times> wm" where
  "u32_items_insert h i pos str s =
     (let cap = w_item_cap (win s i); n = length (w_items (win s i)); full = int n \<ge> cap;
          nc = (if cap \<noteq> 0 then c_int (cap * 2) else 8) in
      if full \<and> h_malloc h (nat (nc * 4)) s = 0 then (-1, s)
      else let s = (if full then upd_win i (\<lambda>w. w\<lparr>w_item_cap := nc\<rparr>) s else s) in
        if h_malloc h (length str + 1) s = 0
        then (-1, upd_win i (\<lambda>w. w\<lparr>w_items := take n (items_insert pos (w_items w ! items_pos pos n) (w_items w))\<rparr>) s)
        else (int (items_pos pos n), upd_win i (\<lambda>w. w\<lparr>w_items := items_insert pos str (w_items w)\<rparr>) s))"

definition u32_items_get :: "u32_window \<Rightarrow> int \<Rightarrow> u8 list option" where
  "u32_items_get w idx = (if 0 \<le> idx \<and> idx < int (length (w_items w)) then Some (w_items w ! nat idx) else None)"

definition items_delete :: "int \<Rightarrow> u8 list list \<Rightarrow> u8 list list" where
  "items_delete idx xs = (if 0 \<le> idx \<and> idx < int (length xs) then take (nat idx) xs @ drop (Suc (nat idx)) xs else xs)"

section \<open>Painting\<close>

definition ansi_hi :: "u32 list" where
  "ansi_hi = [0x20AC,0x0081,0x201A,0x0192,0x201E,0x2026,0x2020,0x2021,0x02C6,0x2030,0x0160,0x2039,0x0152,0x008D,0x017D,0x008F,
     0x0090,0x2018,0x2019,0x201C,0x201D,0x2022,0x2013,0x2014,0x02DC,0x2122,0x0161,0x203A,0x0153,0x009D,0x017E,0x0178]"

definition u32_ansi_cp :: "u8 \<Rightarrow> u32" where
  "u32_ansi_cp b = (if 0x80 \<le> b \<and> b \<le> 0x9F then ansi_hi ! unat (b - 0x80) else ucast b)"

definition set_dc :: "nat \<Rightarrow> (gdi_obj \<Rightarrow> gdi_obj) \<Rightarrow> wm \<Rightarrow> wm" where
  "set_dc d f s = s\<lparr>g_gdi := (g_gdi s)[d := f (g_gdi s ! d)]\<rparr>"

text \<open>A paint routine needs a device context with a surface.\<close>

definition with_surf :: "u32 \<Rightarrow> wm \<Rightarrow> (gdi_obj \<Rightarrow> nat \<Rightarrow> wm) \<Rightarrow> wm" where
  "with_surf hdc s f = (case (gdi_dc_surface (g_gdi s) hdc, gdi_idx (g_gdi s) hdc) of (Some b, Some d) \<Rightarrow> f (g_gdi s ! b) d | _ \<Rightarrow> s)"

text \<open>Text in a font and a system colour, transparent; the device context gets its three settings back.\<close>

definition u32_paint_text :: "host \<Rightarrow> u32 \<Rightarrow> nat \<Rightarrow> u32 \<Rightarrow> u8 list \<Rightarrow> rect \<Rightarrow> u32 \<Rightarrow> int \<Rightarrow> wm \<Rightarrow> wm" where
  "u32_paint_text h hdc d font str q fmt idx s = (if str = [] \<or> font = 0 then s
     else let g = g_gdi s ! d;
         s = set_dc d (\<lambda>g. g\<lparr>sel_font := font, text_color := u32_syscolor idx, bk_mode := 1\<rparr>) s;
         s = h_text h hdc (map u32_ansi_cp (take 255 str)) q fmt s
       in set_dc d (\<lambda>v. v\<lparr>sel_font := sel_font g, text_color := text_color g, bk_mode := bk_mode g\<rparr>) s)"

definition u32_ctrl_text :: "host \<Rightarrow> u32 \<Rightarrow> nat \<Rightarrow> nat \<Rightarrow> rect \<Rightarrow> u32 \<Rightarrow> int \<Rightarrow> wm \<Rightarrow> wm" where
  "u32_ctrl_text h hdc d wi q fmt idx s = u32_paint_text h hdc d (w_ctrl_font (win s wi)) (w_title (win s wi)) q fmt idx s"

definition u32_ctrl_fill :: "gdi_obj \<Rightarrow> int \<Rightarrow> int \<Rightarrow> u32 \<Rightarrow> wm \<Rightarrow> wm" where
  "u32_ctrl_fill bm w h c s = s\<lparr>mem := for_xy (0, 0, w, h) (\<lambda>x y. gdi_put bm x y c) (mem s)\<rparr>"

definition u32_button_paint :: "host \<Rightarrow> u32 \<Rightarrow> nat \<Rightarrow> wm \<Rightarrow> wm" where
  "u32_button_paint h hdc wi s = with_surf hdc s (\<lambda>bm d. let q = (0, 0, w_w (win s wi), w_h (win s wi)) in
     u32_ctrl_text h hdc d wi q 0x25 18 (s\<lparr>mem := snd (u32_drawedge bm q 5 0x180F (mem s))\<rparr>))"

definition u32_static_paint :: "host \<Rightarrow> u32 \<Rightarrow> nat \<Rightarrow> wm \<Rightarrow> wm" where
  "u32_static_paint h hdc wi s = with_surf hdc s (\<lambda>bm d. let w = w_w (win s wi); ht = w_h (win s wi) in
     u32_ctrl_text h hdc d wi (0, 0, w, ht) 0x20 8 (u32_ctrl_fill bm w ht (u32_syscolor 15) s))"

definition u32_edit_paint :: "host \<Rightarrow> u32 \<Rightarrow> nat \<Rightarrow> int \<Rightarrow> wm \<Rightarrow> wm" where
  "u32_edit_paint h hdc wi inset s = with_surf hdc s (\<lambda>bm d. let w = w_w (win s wi); ht = w_h (win s wi) in
     u32_ctrl_text h hdc d wi (inset, 0, c_int (w - inset), ht) 0x24 8 (u32_ctrl_fill bm w ht (u32_syscolor 5) s))"

text \<open>Check boxes and radio buttons: the glyph on the left, vertically centred, the label beside it.\<close>

definition glyph_paint :: "(gdi_obj \<Rightarrow> int \<Rightarrow> int \<Rightarrow> bool \<Rightarrow> guest_mem \<Rightarrow> guest_mem) \<Rightarrow> host \<Rightarrow> u32 \<Rightarrow> nat \<Rightarrow> wm \<Rightarrow> wm" where
  "glyph_paint glyph h hdc wi s = with_surf hdc s (\<lambda>bm d. let w = w_w (win s wi); ht = w_h (win s wi);
       gy = c_div (c_int (ht - 13)) 2; gy = (if gy < 0 then 0 else gy);
       s = u32_ctrl_fill bm w ht (u32_syscolor 15) s;
       s = s\<lparr>mem := glyph bm 0 gy (w_check_state (win s wi) \<noteq> 0) (mem s)\<rparr>
     in u32_ctrl_text h hdc d wi (16, 0, w, ht) 0x24 8 s)"

definition u32_check_paint :: "host \<Rightarrow> u32 \<Rightarrow> nat \<Rightarrow> wm \<Rightarrow> wm" where
  "u32_check_paint = glyph_paint u32_draw_check_glyph"

definition u32_radio_paint :: "host \<Rightarrow> u32 \<Rightarrow> nat \<Rightarrow> wm \<Rightarrow> wm" where
  "u32_radio_paint = glyph_paint u32_draw_radio_glyph"

definition u32_group_paint :: "host \<Rightarrow> u32 \<Rightarrow> nat \<Rightarrow> wm \<Rightarrow> wm" where
  "u32_group_paint h hdc wi s = with_surf hdc s (\<lambda>bm d. let w = w_w (win s wi); ht = w_h (win s wi); wn = win s wi;
       s = u32_ctrl_fill bm w ht (u32_syscolor 15) s;
       s = s\<lparr>mem := snd (u32_drawedge bm (0, 6, w, ht) 6 0xF (mem s))\<rparr> in
     if w_title wn = [] \<or> w_ctrl_font wn = 0 then s
     else let g = g_gdi s ! d;
         s = set_dc d (\<lambda>g. g\<lparr>sel_font := w_ctrl_font wn, text_color := u32_syscolor 8, bk_color := u32_syscolor 15, bk_mode := 2\<rparr>) s;
         s = h_text h hdc (map u32_ansi_cp (take 255 (w_title wn))) (8, 0, w, 14) 0x20 s
       in set_dc d (\<lambda>v. v\<lparr>sel_font := sel_font g, text_color := text_color g, bk_color := bk_color g, bk_mode := bk_mode g\<rparr>) s)"

text \<open>One row of a list box: the highlight under the selected item, then its text.\<close>

definition list_row :: "host \<Rightarrow> u32 \<Rightarrow> nat \<Rightarrow> gdi_obj \<Rightarrow> nat \<Rightarrow> int \<Rightarrow> wm \<Rightarrow> wm" where
  "list_row h hdc d bm wi k s = (let w = w_w (win s wi); ht = w_h (win s wi); y = k * 14; sel = (k = w_cur_sel (win s wi));
       s = (if sel then s\<lparr>mem := for_xy (0, y, w, min (y + 14) ht) (\<lambda>xx yy. gdi_put bm xx yy (u32_syscolor 13)) (mem s)\<rparr> else s)
     in u32_paint_text h hdc d (w_ctrl_font (win s wi)) (case u32_items_get (win s wi) k of None \<Rightarrow> [] | Some t \<Rightarrow> t)
          (2, y, w, y + 14) 0x24 (if sel then 14 else 8) s)"

definition u32_listbox_paint :: "host \<Rightarrow> u32 \<Rightarrow> nat \<Rightarrow> wm \<Rightarrow> wm" where
  "u32_listbox_paint h hdc wi s = with_surf hdc s (\<lambda>bm d. let w = w_w (win s wi); ht = w_h (win s wi) in
     fold (list_row h hdc d bm wi) (takeWhile (\<lambda>k. k * 14 < ht) [0..int (length (w_items (win s wi))) - 1])
       (u32_ctrl_fill bm w ht (u32_syscolor 5) s))"

definition u32_combobox_paint :: "host \<Rightarrow> u32 \<Rightarrow> nat \<Rightarrow> wm \<Rightarrow> wm" where
  "u32_combobox_paint h hdc wi s = with_surf hdc s (\<lambda>bm d. let w = w_w (win s wi); ht = w_h (win s wi);
       fh = (if ht < 21 then ht else 21); focused = (g_u32_focus s = hwnd_of wi);
       s = u32_ctrl_fill bm w ht (u32_syscolor 15) s;
       s = s\<lparr>mem := for_xy (0, 0, c_int (w - 17), fh) (\<lambda>x y. gdi_put bm x y (u32_syscolor (if focused then 13 else 5))) (mem s)\<rparr>;
       s = s\<lparr>mem := for_xy (c_int (w - 17), 0, w, fh) (\<lambda>x y. gdi_put bm x y (u32_syscolor 5)) (mem s)\<rparr>;
       s = u32_paint_text h hdc d (w_ctrl_font (win s wi))
             (case u32_items_get (win s wi) (w_cur_sel (win s wi)) of None \<Rightarrow> [] | Some t \<Rightarrow> t)
             (2, 0, c_int (w - 18), fh) 0x24 (if focused then 14 else 8) s;
       s = s\<lparr>mem := snd (u32_drawedge bm (c_int (w - 17), 0, w, fh) 5 0x180F (mem s))\<rparr>;
       ax = c_int (w - 9); ay = c_div fh 2 - 1
     in s\<lparr>mem := fold (\<lambda>r m. fold (\<lambda>c. gdi_put bm (c_int (ax + c)) (c_int (ay + r)) (u32_syscolor 8)) [r - 3..3 - r] m) [0..3] (mem s)\<rparr>)"

abbreviation is_cls :: "u8 list \<Rightarrow> string \<Rightarrow> bool" where
  "is_cls cls nm \<equiv> strcaseeq cls (bytes_of_str nm)"

definition u32_ctrl_paintable :: "u8 list \<Rightarrow> bool" where
  "u32_ctrl_paintable cls \<longleftrightarrow> is_cls cls ''button'' \<or> is_cls cls ''static'' \<or> is_cls cls ''edit'' \<or> is_cls cls ''listbox'' \<or> is_cls cls ''combobox''"

definition u32_btn_is_push :: "u32 \<Rightarrow> bool" where
  "u32_btn_is_push st \<longleftrightarrow> st AND 0xF = 0 \<or> st AND 0xF = 1"

definition u32_btn_is_check :: "u32 \<Rightarrow> bool" where
  "u32_btn_is_check st \<longleftrightarrow> st AND 0xF = 2 \<or> st AND 0xF = 3 \<or> st AND 0xF = 5 \<or> st AND 0xF = 6"

definition u32_btn_is_radio :: "u32 \<Rightarrow> bool" where
  "u32_btn_is_radio st \<longleftrightarrow> st AND 0xF = 4 \<or> st AND 0xF = 9"

definition u32_btn_is_group :: "u32 \<Rightarrow> bool" where
  "u32_btn_is_group st \<longleftrightarrow> st AND 0xF = 7"

text \<open>The sunken edge around an edit or list box.\<close>

definition sunken :: "u32 \<Rightarrow> nat \<Rightarrow> wm \<Rightarrow> wm" where
  "sunken hdc wi s = (case gdi_dc_surface (g_gdi s) hdc of None \<Rightarrow> s
     | Some b \<Rightarrow> s\<lparr>mem := snd (u32_drawedge (g_gdi s ! b) (0, 0, w_w (win s wi), w_h (win s wi)) 0xA 0xF (mem s))\<rparr>)"

definition u32_control_paint_full :: "host \<Rightarrow> u32 \<Rightarrow> nat \<Rightarrow> wm \<Rightarrow> wm" where
  "u32_control_paint_full h hdc wi s = (let cls = w_classname (win s wi); st = w_style (win s wi) in
     if is_cls cls ''button'' then
       (if u32_btn_is_check st then u32_check_paint h hdc wi s else if u32_btn_is_radio st then u32_radio_paint h hdc wi s
        else if u32_btn_is_group st then u32_group_paint h hdc wi s else if u32_btn_is_push st then u32_button_paint h hdc wi s else s)
     else if is_cls cls ''static'' then u32_static_paint h hdc wi s
     else if is_cls cls ''edit'' then sunken hdc wi (u32_edit_paint h hdc wi 2 s)
     else if is_cls cls ''listbox'' then sunken hdc wi (u32_listbox_paint h hdc wi s)
     else if is_cls cls ''combobox'' then u32_combobox_paint h hdc wi s else s)"

end
