(* ===== verification/Aret_Messages.thy ===== *)
theory Aret_Messages
  imports Aret_Controls
begin

text \<open>
  The messages of \<^verbatim>\<open>aret_win32.c\<close>: the posted-message ring, timers and the paint state behind
  \<^verbatim>\<open>GetMessage\<close>, the calls into window procedures, the default procedure, the control procedure,
  window creation with its notifications, keyboard focus and the dialog manager. \<^verbatim>\<open>aret_partial\<close>
  prints a diagnostic and returns, so the loops that call it go on; a loop that may not end takes
  fuel and answers \<open>None\<close> when the fuel is used up.
\<close>

section \<open>Clock, queue and timers\<close>

definition U32_WM_QUIT :: u32 where "U32_WM_QUIT = 0x12"

definition U32_WM_TIMER :: u32 where "U32_WM_TIMER = 0x113"

definition U32_WM_PAINT :: u32 where "U32_WM_PAINT = 0xF"

definition U32_WM_ERASEBKGND :: u32 where "U32_WM_ERASEBKGND = 0x14"

definition U32_WM_SETTEXT :: u32 where "U32_WM_SETTEXT = 0xC"

definition U32_WM_GETTEXT :: u32 where "U32_WM_GETTEXT = 0xD"

definition U32_WM_GETTEXTLENGTH :: u32 where "U32_WM_GETTEXTLENGTH = 0xE"

definition U32_WM_INITDIALOG :: u32 where "U32_WM_INITDIALOG = 0x110"

definition mono_ns :: "host \<Rightarrow> wm \<Rightarrow> u64 \<times> wm" where
  "mono_ns h s = (h_mono h (clock_reads s), s\<lparr>clock_reads := Suc (clock_reads s)\<rparr>)"

definition ms_of :: "u64 \<Rightarrow> u32" where
  "ms_of ns = ucast (ns div 1000000)"

definition u32_q_empty :: "wm \<Rightarrow> bool" where
  "u32_q_empty s \<longleftrightarrow> g_u32_qh s = g_u32_qt s"

definition u32_q_push :: "host \<Rightarrow> u32 \<Rightarrow> u32 \<Rightarrow> u32 \<Rightarrow> u32 \<Rightarrow> wm \<Rightarrow> u32 \<times> wm" where
  "u32_q_push h hwnd msg wp lp s = (let nt = (g_u32_qt s + 1) mod U32_MAX_MSG in if nt = g_u32_qh s then (0, s)
     else case mono_ns h s of (now, s) \<Rightarrow>
       (1, s\<lparr>g_u32_q := arr_set (g_u32_q s) (g_u32_qt s) \<lparr>m_hwnd = hwnd, m_message = msg, m_wParam = wp, m_lParam = lp,
               m_time = ms_of now, m_ptx = 0, m_pty = 0\<rparr>, g_u32_qt := nt\<rparr>))"

definition msg_dwords :: "u32_msg \<Rightarrow> u32 list" where
  "msg_dwords m = [m_hwnd m, m_message m, m_wParam m, m_lParam m, m_time m, m_ptx m, m_pty m]"

definition u32_q_peek_copy :: "u32 \<Rightarrow> bool \<Rightarrow> wm \<Rightarrow> wm" where
  "u32_q_peek_copy p remove s =
     (let s = (if p = 0 then s else s\<lparr>mem := st_dwords (mem s) p (msg_dwords (g_u32_q s ! g_u32_qh s))\<rparr>)
      in if remove then s\<lparr>g_u32_qh := (g_u32_qh s + 1) mod U32_MAX_MSG\<rparr> else s)"

text \<open>The two messages that are made up on demand.\<close>

definition u32_fill_quit :: "host \<Rightarrow> u32 \<Rightarrow> wm \<Rightarrow> wm" where
  "u32_fill_quit h p s = (if p = 0 then s else case mono_ns h s of (now, s) \<Rightarrow>
     s\<lparr>mem := st_dwords (mem s) p [0, U32_WM_QUIT, word_of_int (g_u32_quit_code s), 0, ms_of now, 0, 0]\<rparr>)"

definition u32_fill_paint :: "host \<Rightarrow> u32 \<Rightarrow> nat \<Rightarrow> wm \<Rightarrow> wm" where
  "u32_fill_paint h p i s = (if p = 0 then s else case mono_ns h s of (now, s) \<Rightarrow>
     s\<lparr>mem := st_dwords (mem s) p [hwnd_of i, U32_WM_PAINT, 0, 0, ms_of now, 0, 0]\<rparr>)"

definition u32_any_timer :: "wm \<Rightarrow> bool" where
  "u32_any_timer s \<longleftrightarrow> first_idx (\<lambda>i. t_used (g_u32_timer s ! i)) 0 U32_MAX_TIMER \<noteq> None"

text \<open>One round of the loop over the timers, whose index runs over the table itself.\<close>

definition fire_timer :: "host \<Rightarrow> u64 \<Rightarrow> nat \<Rightarrow> wm \<Rightarrow> wm" where
  "fire_timer h now i s = (let t = g_u32_timer s ! i in if t_used t \<and> now \<ge> t_due_ns t
     then let s = snd (u32_q_push h (t_hwnd t) U32_WM_TIMER (t_id t) (t_proc t) s)
       in s\<lparr>g_u32_timer := (g_u32_timer s)[i := (g_u32_timer s ! i)\<lparr>t_due_ns := now + ucast (t_elapse t) * 1000000\<rparr>]\<rparr>
     else s)"

definition u32_pump_timers :: "host \<Rightarrow> wm \<Rightarrow> wm" where
  "u32_pump_timers h s = (case mono_ns h s of (now, s) \<Rightarrow> fold (fire_timer h now) [0..<U32_MAX_TIMER] s)"

definition timer_match :: "u32 \<Rightarrow> u32 \<Rightarrow> u32_timer \<Rightarrow> bool" where
  "timer_match hwnd tid t \<longleftrightarrow> t_used t \<and> t_hwnd t = hwnd \<and> t_id t = tid"

text \<open>The slot of an existing (window, id) pair, otherwise the first free one.\<close>

definition timer_slot :: "u32_timer list \<Rightarrow> u32 \<Rightarrow> u32 \<Rightarrow> nat option" where
  "timer_slot T hwnd tid = (case first_idx (\<lambda>i. timer_match hwnd tid (T ! i)) 0 U32_MAX_TIMER of Some i \<Rightarrow> Some i
     | None \<Rightarrow> first_idx (\<lambda>i. \<not> t_used (T ! i)) 0 U32_MAX_TIMER)"

definition aret_SetTimer :: "host \<Rightarrow> u32 \<Rightarrow> wm \<Rightarrow> u32 \<times> wm" where
  "aret_SetTimer h esp s = (let hwnd = WU esp 0 s; id0 = WU esp 1 s; el = WU esp 2 s; pr = WU esp 3 s;
       fresh = (hwnd = 0 \<and> id0 = 0); tid = (if fresh then g_u32_next_timer_id s else id0);
       s = (if fresh then s\<lparr>g_u32_next_timer_id := g_u32_next_timer_id s + 1\<rparr> else s) in
     case timer_slot (g_u32_timer s) hwnd tid of None \<Rightarrow> (0, s)
     | Some k \<Rightarrow> case mono_ns h s of (now, s) \<Rightarrow>
         (tid, s\<lparr>g_u32_timer := arr_set (g_u32_timer s) k \<lparr>t_hwnd = hwnd, t_id = tid, t_elapse = el, t_proc = pr,
                  t_due_ns = now + ucast el * 1000000, t_used = True\<rparr>\<rparr>))"

definition aret_SetSystemTimer :: "host \<Rightarrow> u32 \<Rightarrow> wm \<Rightarrow> u32 \<times> wm" where
  "aret_SetSystemTimer = aret_SetTimer"

definition aret_KillTimer :: "u32 \<Rightarrow> wm \<Rightarrow> u32 \<times> wm" where
  "aret_KillTimer esp s = (case first_idx (\<lambda>i. timer_match (WU esp 0 s) (WU esp 1 s) (g_u32_timer s ! i)) 0 U32_MAX_TIMER of None \<Rightarrow> (0, s)
     | Some i \<Rightarrow> (1, s\<lparr>g_u32_timer := arr_set (g_u32_timer s) i ((g_u32_timer s ! i)\<lparr>t_used := False\<rparr>)\<rparr>))"

section \<open>Paint state\<close>

definition u32_win_paints :: "wm \<Rightarrow> nat \<Rightarrow> bool" where
  "u32_win_paints s i \<longleftrightarrow> i < U32_MAX_WIN \<and> w_used (win s i) \<and> w_visible (win s i) \<and> w_parent (win s i) = 0"

definition u32_next_paint :: "wm \<Rightarrow> nat option" where
  "u32_next_paint s = first_idx (\<lambda>i. w_needs_paint (win s i) \<and> u32_win_paints s i) 0 U32_MAX_WIN"

definition mark_paint :: "bool \<Rightarrow> u32_window \<Rightarrow> u32_window" where
  "mark_paint erase w = (if erase then w\<lparr>w_needs_paint := True, w_needs_erase := True\<rparr> else w\<lparr>w_needs_paint := True\<rparr>)"

definition aret_InvalidateRect :: "u32 \<Rightarrow> wm \<Rightarrow> u32 \<times> wm" where
  "aret_InvalidateRect esp s = (let hwnd = WU esp 0 s; erase = WU esp 2 s \<noteq> 0 in
     (1, if hwnd = 0 then fold (\<lambda>i s. if u32_win_paints s i then upd_win i (mark_paint erase) s else s) [0..<U32_MAX_WIN] s
         else case win_idx s hwnd of None \<Rightarrow> s
           | Some i \<Rightarrow> if u32_win_paints s i then upd_win i (mark_paint erase) s else s))"

definition aret_InvalidateRgn :: "u32 \<Rightarrow> wm \<Rightarrow> u32 \<times> wm" where
  "aret_InvalidateRgn = aret_InvalidateRect"

definition aret_ValidateRect :: "u32 \<Rightarrow> wm \<Rightarrow> u32 \<times> wm" where
  "aret_ValidateRect esp s = (1, case win_idx s (WU esp 0 s) of None \<Rightarrow> s | Some i \<Rightarrow> upd_win i (\<lambda>w. w\<lparr>w_needs_paint := False\<rparr>) s)"

definition aret_ValidateRgn :: "u32 \<Rightarrow> wm \<Rightarrow> u32 \<times> wm" where
  "aret_ValidateRgn = aret_ValidateRect"

section \<open>Receiving messages\<close>

text \<open>One look at the sources in their order: posted messages, then \<^verbatim>\<open>WM_QUIT\<close>, then \<^verbatim>\<open>WM_PAINT\<close>.\<close>

definition aret_PeekMessageW :: "host \<Rightarrow> u32 \<Rightarrow> wm \<Rightarrow> u32 \<times> wm" where
  "aret_PeekMessageW h esp s = (let p = WU esp 0 s; rm = WU esp 4 s; s = u32_pump_timers h s in
     if \<not> u32_q_empty s then (1, u32_q_peek_copy p (rm AND 1 \<noteq> 0) s)
     else if g_u32_quit s then (1, u32_fill_quit h p s)
     else case u32_next_paint s of Some i \<Rightarrow> (1, u32_fill_paint h p i s) | None \<Rightarrow> (0, s))"

definition aret_PeekMessageA :: "host \<Rightarrow> u32 \<Rightarrow> wm \<Rightarrow> u32 \<times> wm" where
  "aret_PeekMessageA = aret_PeekMessageW"

primrec get_message :: "nat \<Rightarrow> host \<Rightarrow> u32 \<Rightarrow> wm \<Rightarrow> (u32 \<times> wm) option" where
  "get_message 0 h p s = None"
| "get_message (Suc fuel) h p s = (let s = u32_pump_timers h s in
     if \<not> u32_q_empty s then Some (1, u32_q_peek_copy p True s)
     else if g_u32_quit s then Some (0, u32_fill_quit h p s)
     else case u32_next_paint s of Some i \<Rightarrow> Some (1, u32_fill_paint h p i s)
       | None \<Rightarrow> get_message fuel h p s)"

definition aret_GetMessageW :: "nat \<Rightarrow> host \<Rightarrow> u32 \<Rightarrow> wm \<Rightarrow> (u32 \<times> wm) option" where
  "aret_GetMessageW fuel h esp s = get_message fuel h (WU esp 0 s) s"

definition aret_GetMessageA :: "nat \<Rightarrow> host \<Rightarrow> u32 \<Rightarrow> wm \<Rightarrow> (u32 \<times> wm) option" where
  "aret_GetMessageA = aret_GetMessageW"

definition aret_PostMessageW :: "host \<Rightarrow> u32 \<Rightarrow> wm \<Rightarrow> u32 \<times> wm" where
  "aret_PostMessageW h esp s = u32_q_push h (WU esp 0 s) (WU esp 1 s) (WU esp 2 s) (WU esp 3 s) s"

definition aret_PostMessageA :: "host \<Rightarrow> u32 \<Rightarrow> wm \<Rightarrow> u32 \<times> wm" where
  "aret_PostMessageA = aret_PostMessageW"

definition aret_PostQuitMessage :: "u32 \<Rightarrow> wm \<Rightarrow> u32 \<times> wm" where
  "aret_PostQuitMessage esp s = (0, s\<lparr>g_u32_quit := True, g_u32_quit_code := WI esp 0 s\<rparr>)"

definition msg_wait :: "host \<Rightarrow> u32 \<Rightarrow> wm \<Rightarrow> u32 \<times> wm" where
  "msg_wait h esp s = (let n = WU esp 0 s; s = u32_pump_timers h s in
     (if \<not> u32_q_empty s \<or> g_u32_quit s then n else 0x102, s))"

definition aret_MsgWaitForMultipleObjectsEx :: "host \<Rightarrow> u32 \<Rightarrow> wm \<Rightarrow> u32 \<times> wm" where
  "aret_MsgWaitForMultipleObjectsEx = msg_wait"

definition aret_MsgWaitForMultipleObjects :: "host \<Rightarrow> u32 \<Rightarrow> wm \<Rightarrow> u32 \<times> wm" where
  "aret_MsgWaitForMultipleObjects = msg_wait"

section \<open>Calling window procedures\<close>

text \<open>The frame goes just below the live stack: a return address and the four arguments.\<close>

definition u32_call_wndproc :: "host \<Rightarrow> u32 \<Rightarrow> u32 \<Rightarrow> u32 \<Rightarrow> u32 \<Rightarrow> u32 \<Rightarrow> u32 \<Rightarrow> wm \<Rightarrow> u32 \<times> wm" where
  "u32_call_wndproc h esp proc hwnd msg wp lp s = (let frame = (esp - 64) AND NOT 15 in
     h_call h proc frame (s\<lparr>mem := st_dwords (mem s) frame [0, hwnd, msg, wp, lp]\<rparr>))"

text \<open>The text messages; \<open>None\<close> when the message is another one.\<close>

definition u32_defproc_text :: "u32 \<Rightarrow> u32 \<Rightarrow> u32 \<Rightarrow> u32 \<Rightarrow> bool \<Rightarrow> wm \<Rightarrow> (u32 \<times> wm) option" where
  "u32_defproc_text hwnd msg wp lp wide s =
     (if msg = U32_WM_SETTEXT then Some (with_win hwnd 0 s (\<lambda>i. (1, upd_win i (\<lambda>w. w\<lparr>w_title :=
         (if wide then w2n_at (mem s) lp 256 else take 255 (narrow_at (mem s) lp))\<rparr>) s)))
      else if msg = U32_WM_GETTEXTLENGTH then Some (with_win hwnd 0 s (\<lambda>i. (of_nat (length (w_title (win s i))), s)))
      else if msg = U32_WM_GETTEXT then Some (if wp = 0 \<or> lp = 0 then (0, s)
        else with_win hwnd 0 s (\<lambda>i. (if wide then put_text_w else put_text_a) lp wp (w_title (win s i)) s))
      else None)"

definition u32_defproc_common :: "host \<Rightarrow> u32 \<Rightarrow> u32 \<Rightarrow> u32 \<Rightarrow> u32 \<Rightarrow> wm \<Rightarrow> (u32 \<times> wm) option" where
  "u32_defproc_common h esp hwnd msg wp s =
     (if msg = 0x81 then Some (1, s)
      else if msg = 1 then Some (0, s)
      else if msg = U32_WM_PAINT then Some (with_win hwnd 0 s (\<lambda>i. (0, upd_win i (\<lambda>w. w\<lparr>w_needs_erase := False, w_needs_paint := False\<rparr>) s)))
      else if msg = U32_WM_ERASEBKGND then Some (with_win hwnd 1 s (\<lambda>i. (1, if w_bg_brush (win s i) = 0 then s
          else snd (on_gdi (\<lambda>g. ((), u32_fill_dc_brush wp (w_bg_brush (win s i)) g)) s))))
      else if msg = 0x10 then Some (with_win hwnd 0 s (\<lambda>i.
          let p = w_wndproc (win s i); s = (if p = 0 then s else snd (u32_call_wndproc h esp p hwnd 2 0 0 s))
          in (0, upd_win i (\<lambda>w. w\<lparr>w_used := False\<rparr>) s)))
      else None)"

section \<open>Predefined controls\<close>

text \<open>A click: the automatic state change of the button, then \<^verbatim>\<open>WM_COMMAND\<close> to the parent.\<close>

definition auto_check :: "nat \<Rightarrow> wm \<Rightarrow> wm" where
  "auto_check i s = (let t = w_style (win s i) AND 0xF in
     if t = 3 then upd_win i (\<lambda>w. w\<lparr>w_check_state := (if w_check_state w \<noteq> 0 then 0 else 1)\<rparr>) s
     else if t = 6 then upd_win i (\<lambda>w. w\<lparr>w_check_state := c_int (w_check_state w + 1) - 3 * c_div (c_int (w_check_state w + 1)) 3\<rparr>) s
     else if t = 9 then let par = w_parent (win s i) in
       upd_win i (\<lambda>w. w\<lparr>w_check_state := 1\<rparr>) (s\<lparr>g_u32_win := map (\<lambda>w.
         if w_used w \<and> w_parent w = par \<and> w_style w AND 0xF = 9 then w\<lparr>w_check_state := 0\<rparr> else w) (g_u32_win s)\<rparr>)
     else s)"

definition u32_ctrl_click :: "host \<Rightarrow> u32 \<Rightarrow> nat \<Rightarrow> wm \<Rightarrow> wm" where
  "u32_ctrl_click h esp i s = (let s = auto_check i s; par = w_parent (win s i) in
     if par = 0 then s
     else let pp = u32_win_wndproc s par in if pp = 0 then s
       else snd (u32_call_wndproc h esp pp par 0x111 (word_of_int (w_ctrl_id (win s i)) AND 0xFFFF) (hwnd_of i) s))"

text \<open>\<^verbatim>\<open>WM_GETDLGCODE\<close>.\<close>

definition dlg_code :: "u32_window \<Rightarrow> u32" where
  "dlg_code w = (let cls = w_classname w; t = w_style w AND 0xF in
     if is_cls cls ''button'' then (if t = 4 \<or> t = 9 then 0x2040 else if t = 1 then 0x2010 else if t = 0 then 0x2020
       else if t = 7 then 0x0100 else 0x2000)
     else if is_cls cls ''edit'' then 0x0089 else if is_cls cls ''static'' then 0x0100 else 0x0081)"

text \<open>The item messages, the same nine operations under the list box or the combo box numbers.\<close>

datatype item_op = OpAdd | OpInsert | OpReset | OpCount | OpSetSel | OpGetSel | OpGetText | OpGetLen | OpDelete

definition item_op_of :: "bool \<Rightarrow> u32 \<Rightarrow> item_op option" where
  "item_op_of lb msg =
     (if msg = (if lb then 0x180 else 0x143) then Some OpAdd
      else if msg = (if lb then 0x181 else 0x14A) then Some OpInsert
      else if msg = (if lb then 0x184 else 0x14B) then Some OpReset
      else if msg = (if lb then 0x18B else 0x146) then Some OpCount
      else if msg = (if lb then 0x186 else 0x14E) then Some OpSetSel
      else if msg = (if lb then 0x188 else 0x147) then Some OpGetSel
      else if msg = (if lb then 0x189 else 0x148) then Some OpGetText
      else if msg = (if lb then 0x18A else 0x149) then Some OpGetLen
      else if msg = (if lb then 0x182 else 0x144) then Some OpDelete else None)"

definition item_msg :: "host \<Rightarrow> nat \<Rightarrow> item_op \<Rightarrow> u32 \<Rightarrow> u32 \<Rightarrow> wm \<Rightarrow> u32 \<times> wm" where
  "item_msg h i op wp lp s = (case op of
       OpAdd \<Rightarrow> (case u32_items_insert h i (-1) (narrow_at (mem s) lp) s of (p, s) \<Rightarrow> (word_of_int p, s))
     | OpInsert \<Rightarrow> (case u32_items_insert h i (sint wp) (narrow_at (mem s) lp) s of (p, s) \<Rightarrow> (word_of_int p, s))
     | OpReset \<Rightarrow> (0, u32_items_free i s)
     | OpCount \<Rightarrow> (of_nat (length (w_items (win s i))), s)
     | OpSetSel \<Rightarrow> (wp, upd_win i (\<lambda>w. w\<lparr>w_cur_sel := sint wp\<rparr>) s)
     | OpGetSel \<Rightarrow> (word_of_int (w_cur_sel (win s i)), s)
     | OpGetText \<Rightarrow> (case u32_items_get (win s i) (sint wp) of None \<Rightarrow> (- 1, s)
         | Some t \<Rightarrow> (of_nat (length t), if lp = 0 then s else s\<lparr>mem := st_bytes (mem s) lp (t @ [0])\<rparr>))
     | OpGetLen \<Rightarrow> (case u32_items_get (win s i) (sint wp) of None \<Rightarrow> (- 1, s) | Some t \<Rightarrow> (of_nat (length t), s))
     | OpDelete \<Rightarrow> (let s = upd_win i (\<lambda>w. w\<lparr>w_items := items_delete (sint wp) (w_items w)\<rparr>) s
         in (of_nat (length (w_items (win s i))), s)))"

definition print_client :: "host \<Rightarrow> u32 \<Rightarrow> nat \<Rightarrow> wm \<Rightarrow> wm" where
  "print_client h hdc i s = (let cls = w_classname (win s i) in
     if is_cls cls ''button'' then (if u32_btn_is_push (w_style (win s i)) then u32_button_paint h hdc i s else s)
     else if is_cls cls ''static'' then u32_static_paint h hdc i s
     else if is_cls cls ''listbox'' then u32_listbox_paint h hdc i s
     else if is_cls cls ''combobox'' then u32_combobox_paint h hdc i s
     else u32_edit_paint h hdc i 0 s)"

text \<open>The messages only a button answers.\<close>

definition button_msg :: "host \<Rightarrow> u32 \<Rightarrow> nat \<Rightarrow> u32 \<Rightarrow> u32 \<Rightarrow> wm \<Rightarrow> (u32 \<times> wm) option" where
  "button_msg h esp i msg wp s =
     (if msg = 0xF0 then Some (word_of_int (w_check_state (win s i)), s)
      else if msg = 0xF1 then Some (0, upd_win i (\<lambda>w. w\<lparr>w_check_state := sint wp\<rparr>) s)
      else if msg = 0xF5 then Some (0, u32_ctrl_click h esp i s) else None)"

definition u32_control_proc :: "host \<Rightarrow> u32 \<Rightarrow> u32 \<Rightarrow> u32 \<Rightarrow> u32 \<Rightarrow> u32 \<Rightarrow> wm \<Rightarrow> (u32 \<times> wm) option" where
  "u32_control_proc h esp hwnd msg wp lp s = (case win_idx s hwnd of None \<Rightarrow> None
     | Some i \<Rightarrow> let cls = w_classname (win s i) in
       if \<not> u32_ctrl_paintable cls then None
       else if msg = 0x30 then Some (0, upd_win i (\<lambda>w. w\<lparr>w_ctrl_font := wp\<rparr>) s)
       else if msg = 0x31 then Some (w_ctrl_font (win s i), s)
       else if msg = 0x87 then Some (dlg_code (win s i), s)
       else case (if is_cls cls ''button'' then button_msg h esp i msg wp s else None) of Some r \<Rightarrow> Some r
       | None \<Rightarrow>
         (case (if is_cls cls ''listbox'' \<or> is_cls cls ''combobox'' then item_op_of (is_cls cls ''listbox'') msg else None) of
            Some op \<Rightarrow> Some (item_msg h i op wp lp s)
          | None \<Rightarrow> if msg = 0x318 then Some (0, print_client h wp i s) else None))"

definition u32_sys_control_msg :: "host \<Rightarrow> u32 \<Rightarrow> u32 \<Rightarrow> u32 \<Rightarrow> u32 \<Rightarrow> u32 \<Rightarrow> bool \<Rightarrow> wm \<Rightarrow> (u32 \<times> wm) option" where
  "u32_sys_control_msg h esp hwnd msg wp lp wide s = (case u32_control_proc h esp hwnd msg wp lp s of Some r \<Rightarrow> Some r
     | None \<Rightarrow> u32_defproc_text hwnd msg wp lp wide s)"

definition or_zero :: "(u32 \<times> wm) option \<Rightarrow> wm \<Rightarrow> u32 \<times> wm" where
  "or_zero r s = (case r of Some v \<Rightarrow> v | None \<Rightarrow> (0, s))"

text \<open>The default procedure: the control, the common, then the text messages.\<close>

definition def_proc :: "bool \<Rightarrow> host \<Rightarrow> u32 \<Rightarrow> u32 \<Rightarrow> u32 \<Rightarrow> u32 \<Rightarrow> u32 \<Rightarrow> wm \<Rightarrow> u32 \<times> wm" where
  "def_proc wide h esp hwnd msg wp lp s = (case u32_control_proc h esp hwnd msg wp lp s of Some r \<Rightarrow> r
     | None \<Rightarrow> (case u32_defproc_common h esp hwnd msg wp s of Some r \<Rightarrow> r
         | None \<Rightarrow> or_zero (u32_defproc_text hwnd msg wp lp wide s) s))"

definition aret_DefWindowProcW :: "host \<Rightarrow> u32 \<Rightarrow> wm \<Rightarrow> u32 \<times> wm" where
  "aret_DefWindowProcW h esp s = def_proc True h esp (WU esp 0 s) (WU esp 1 s) (WU esp 2 s) (WU esp 3 s) s"

definition aret_DefWindowProcA :: "host \<Rightarrow> u32 \<Rightarrow> wm \<Rightarrow> u32 \<times> wm" where
  "aret_DefWindowProcA h esp s = def_proc False h esp (WU esp 0 s) (WU esp 1 s) (WU esp 2 s) (WU esp 3 s) s"

definition u32_call_window_proc :: "bool \<Rightarrow> host \<Rightarrow> u32 \<Rightarrow> wm \<Rightarrow> u32 \<times> wm" where
  "u32_call_window_proc wide h esp s = (let p = WU esp 0 s in
     if p \<noteq> 0 then u32_call_wndproc h esp p (WU esp 1 s) (WU esp 2 s) (WU esp 3 s) (WU esp 4 s) s
     else def_proc wide h esp (WU esp 1 s) (WU esp 2 s) (WU esp 3 s) (WU esp 4 s) s)"

definition aret_CallWindowProcA :: "host \<Rightarrow> u32 \<Rightarrow> wm \<Rightarrow> u32 \<times> wm" where
  "aret_CallWindowProcA = u32_call_window_proc False"

definition aret_CallWindowProcW :: "host \<Rightarrow> u32 \<Rightarrow> wm \<Rightarrow> u32 \<times> wm" where
  "aret_CallWindowProcW = u32_call_window_proc True"

section \<open>Sending and dispatching\<close>

definition send_to :: "bool \<Rightarrow> host \<Rightarrow> u32 \<Rightarrow> u32 \<Rightarrow> u32 \<Rightarrow> u32 \<Rightarrow> u32 \<Rightarrow> wm \<Rightarrow> u32 \<times> wm" where
  "send_to wide h esp hwnd msg wp lp s = (let p = u32_win_wndproc s hwnd in
     if p = 0 then or_zero (u32_sys_control_msg h esp hwnd msg wp lp wide s) s
     else u32_call_wndproc h esp p hwnd msg wp lp s)"

definition u32_send_message :: "bool \<Rightarrow> host \<Rightarrow> u32 \<Rightarrow> wm \<Rightarrow> u32 \<times> wm" where
  "u32_send_message wide h esp s = send_to wide h esp (WU esp 0 s) (WU esp 1 s) (WU esp 2 s) (WU esp 3 s) s"

definition aret_SendMessageW :: "host \<Rightarrow> u32 \<Rightarrow> wm \<Rightarrow> u32 \<times> wm" where
  "aret_SendMessageW = u32_send_message True"

definition aret_SendMessageA :: "host \<Rightarrow> u32 \<Rightarrow> wm \<Rightarrow> u32 \<times> wm" where
  "aret_SendMessageA = u32_send_message False"

definition send_dlg_item :: "bool \<Rightarrow> host \<Rightarrow> u32 \<Rightarrow> wm \<Rightarrow> u32 \<times> wm" where
  "send_dlg_item wide h esp s = (let child = u32_dlg_item s (WU esp 0 s) (WI esp 1 s) in
     if child = 0 then (0, s) else send_to wide h esp child (WU esp 2 s) (WU esp 3 s) (WU esp 4 s) s)"

definition aret_SendDlgItemMessageA :: "host \<Rightarrow> u32 \<Rightarrow> wm \<Rightarrow> u32 \<times> wm" where
  "aret_SendDlgItemMessageA = send_dlg_item False"

definition aret_SendDlgItemMessageW :: "host \<Rightarrow> u32 \<Rightarrow> wm \<Rightarrow> u32 \<times> wm" where
  "aret_SendDlgItemMessageW = send_dlg_item True"

text \<open>A release of the left button on a dialog reaches the first edit or button under the point.\<close>

definition hit :: "wm \<Rightarrow> nat \<Rightarrow> int \<Rightarrow> int \<Rightarrow> nat \<Rightarrow> bool" where
  "hit s di x y c \<longleftrightarrow> child_of s (hwnd_of di) c \<and> w_visible (win s c) \<and> w_enabled (win s c) \<and> in_win x y (win s c)
     \<and> (is_cls (w_classname (win s c)) ''edit'' \<or> is_cls (w_classname (win s c)) ''button'' \<and> \<not> u32_btn_is_group (w_style (win s c)))"

definition u32_dialog_hittest_click :: "host \<Rightarrow> u32 \<Rightarrow> nat \<Rightarrow> int \<Rightarrow> int \<Rightarrow> wm \<Rightarrow> wm" where
  "u32_dialog_hittest_click h esp di x y s = (case first_idx (hit s di x y) 0 U32_MAX_WIN of None \<Rightarrow> s
     | Some c \<Rightarrow> let s' = s\<lparr>g_u32_focus := hwnd_of c\<rparr> in
         if is_cls (w_classname (win s c)) ''edit'' then s' else u32_ctrl_click h esp c s')"

definition lo16 :: "u32 \<Rightarrow> int" where
  "lo16 v = sint (ucast v :: u16)"

definition hi16 :: "u32 \<Rightarrow> int" where
  "hi16 v = sint (ucast (drop_bit 16 v) :: u16)"

definition aret_DispatchMessageW :: "host \<Rightarrow> u32 \<Rightarrow> wm \<Rightarrow> u32 \<times> wm" where
  "aret_DispatchMessageW h esp s = (let m = WU esp 0 s in if m = 0 then (0, s)
     else let hwnd = ld32 (mem s) m; msg = ld32 (mem s) (m + 4); wp = ld32 (mem s) (m + 8); lp = ld32 (mem s) (m + 12) in
     if msg = U32_WM_TIMER \<and> lp \<noteq> 0 then (case mono_ns h s of (now, s) \<Rightarrow> u32_call_wndproc h esp lp hwnd msg wp (ms_of now) s)
     else let p = u32_win_wndproc s hwnd in if p = 0 then (0, s)
     else case u32_call_wndproc h esp p hwnd msg wp lp s of (r, s) \<Rightarrow>
       (r, case win_idx s hwnd of None \<Rightarrow> s
           | Some di \<Rightarrow> if w_is_dialog (win s di) \<and> msg = 0x202 then u32_dialog_hittest_click h esp di (lo16 lp) (hi16 lp) s else s))"

definition aret_DispatchMessageA :: "host \<Rightarrow> u32 \<Rightarrow> wm \<Rightarrow> u32 \<times> wm" where
  "aret_DispatchMessageA = aret_DispatchMessageW"

definition aret_TranslateMessage :: "u32 \<Rightarrow> wm \<Rightarrow> u32 \<times> wm" where
  "aret_TranslateMessage esp s = (0, s)"

end
