(* ===== verification/Aret_Resources.thy ===== *)
theory Aret_Resources
  imports Aret_Prelude
begin

text \<open>
  The resources of the program image (\<^verbatim>\<open>u32_rsrc_*\<close>, \<^verbatim>\<open>FindResource\<close>, \<^verbatim>\<open>LoadString\<close> in
  \<^verbatim>\<open>aret_win32.c\<close>): the walk of the PE resource directory type, name, language, and the string
  blocks. The image lies in guest memory; its bounds \<^verbatim>\<open>aret_image_lo\<close> and \<^verbatim>\<open>aret_image_hi\<close> are
  written by the translator and enter as a parameter.
\<close>

section \<open>The resource directory\<close>

record image =
  img_lo :: u32
  img_hi :: u32

definition u32_rsrc_root :: "image \<Rightarrow> guest_mem \<Rightarrow> u32 option" where
  "u32_rsrc_root im m = (let lo = img_lo im; lfanew = ld32 m (lo + 0x3C); nt = lo + lfanew; opt = nt + 24; rva = ld32 m (opt + 112) in
     if lo = 0 then None
     else if m lo \<noteq> 0x4D \<or> m (lo + 1) \<noteq> 0x5A then None
     else if unat lo + unat lfanew + 0x100 > unat (img_hi im) then None
     else if m nt \<noteq> 0x50 \<or> m (nt + 1) \<noteq> 0x45 \<or> m (nt + 2) \<noteq> 0 \<or> m (nt + 3) \<noteq> 0 then None
     else if ld16 m opt \<noteq> 0x010B then None
     else if rva = 0 then None else Some (lo + rva))"

text \<open>The counted wide name at \<open>a\<close> and a narrow name, compared without case.\<close>

definition u32_rsrc_name_eq :: "guest_mem \<Rightarrow> u32 \<Rightarrow> u8 list \<Rightarrow> bool" where
  "u32_rsrc_name_eq m a nm \<longleftrightarrow> (let slen = unat (ld16 m a) in length nm = slen
     \<and> list_all (\<lambda>k. let wc = ld16 m (a + 2 + 2 * of_nat k) in wc \<le> 0xFF \<and> ascii_lower (nm ! k) = ascii_lower (ucast wc)) [0..<slen])"

text \<open>An integer id (\<^verbatim>\<open>MAKEINTRESOURCE\<close>) or a name.\<close>

datatype rsrc_key = RId u32 | RName "u8 list"

definition u32_rsrc_ref :: "guest_mem \<Rightarrow> u32 \<Rightarrow> rsrc_key" where
  "u32_rsrc_ref m ref = (if ref \<ge> 0x10000 then RName (cstr m ref) else RId ref)"

definition rsrc_total :: "guest_mem \<Rightarrow> u32 \<Rightarrow> nat" where
  "rsrc_total m d = unat (ld16 m (d + 12)) + unat (ld16 m (d + 14))"

definition rsrc_match :: "guest_mem \<Rightarrow> u32 \<Rightarrow> u32 \<Rightarrow> rsrc_key \<Rightarrow> nat \<Rightarrow> bool" where
  "rsrc_match m rb d key i = (let nm = ld32 m (d + 16 + 8 * of_nat i) in case key of
       RName n \<Rightarrow> nm AND 0x80000000 \<noteq> 0 \<and> u32_rsrc_name_eq m (rb + (nm AND 0x7FFFFFFF)) n
     | RId k \<Rightarrow> nm AND 0x80000000 = 0 \<and> nm = k)"

definition u32_rsrc_entry :: "guest_mem \<Rightarrow> u32 \<Rightarrow> u32 \<Rightarrow> rsrc_key \<Rightarrow> u32" where
  "u32_rsrc_entry m rb d key = (case first_idx (rsrc_match m rb d key) 0 (rsrc_total m d) of None \<Rightarrow> 0
     | Some i \<Rightarrow> ld32 m (d + 16 + 8 * of_nat i + 4))"

text \<open>Type, name, then the first language, which has to be a leaf.\<close>

definition u32_rsrc_data_entry :: "image \<Rightarrow> guest_mem \<Rightarrow> u32 \<Rightarrow> u32 \<Rightarrow> u32 option" where
  "u32_rsrc_data_entry im m type_ref name_ref = (case u32_rsrc_root im m of None \<Rightarrow> None
     | Some rb \<Rightarrow> let off = u32_rsrc_entry m rb rb (u32_rsrc_ref m type_ref) in
       if off AND 0x80000000 = 0 then None
       else let off = u32_rsrc_entry m rb (rb + (off AND 0x7FFFFFFF)) (u32_rsrc_ref m name_ref) in
         if off AND 0x80000000 = 0 then None
         else let lang = rb + (off AND 0x7FFFFFFF) in
           if rsrc_total m lang < 1 then None
           else let leaf = ld32 m (lang + 20) in if leaf AND 0x80000000 \<noteq> 0 then None else Some (rb + leaf))"

section \<open>The resource calls\<close>

definition aret_FindResourceA :: "image \<Rightarrow> u32 \<Rightarrow> 'a hle_scheme \<Rightarrow> u32 \<times> 'a hle_scheme" where
  "aret_FindResourceA im esp s = (case u32_rsrc_data_entry im (mem s) (WU esp 2 s) (WU esp 1 s) of None \<Rightarrow> 0 | Some de \<Rightarrow> de, s)"

definition aret_FindResourceW :: "image \<Rightarrow> u32 \<Rightarrow> 'a hle_scheme \<Rightarrow> u32 \<times> 'a hle_scheme" where
  "aret_FindResourceW = aret_FindResourceA"

definition aret_LoadResource :: "image \<Rightarrow> u32 \<Rightarrow> 'a hle_scheme \<Rightarrow> u32 \<times> 'a hle_scheme" where
  "aret_LoadResource im esp s = (let de = WU esp 1 s in (if de = 0 then 0 else img_lo im + ld32 (mem s) de, s))"

definition aret_LockResource :: "u32 \<Rightarrow> 'a hle_scheme \<Rightarrow> u32 \<times> 'a hle_scheme" where
  "aret_LockResource esp s = (WU esp 0 s, s)"

definition aret_SizeofResource :: "u32 \<Rightarrow> 'a hle_scheme \<Rightarrow> u32 \<times> 'a hle_scheme" where
  "aret_SizeofResource esp s = (let de = WU esp 1 s in (if de = 0 then 0 else ld32 (mem s) (de + 4), s))"

definition aret_FreeResource :: "u32 \<Rightarrow> 'a hle_scheme \<Rightarrow> u32 \<times> 'a hle_scheme" where
  "aret_FreeResource esp s = (0, s)"

text \<open>Sixteen strings to a block, each a count and that many characters.\<close>

primrec skip_strings :: "nat \<Rightarrow> guest_mem \<Rightarrow> u32 \<Rightarrow> u32" where
  "skip_strings 0 m p = p"
| "skip_strings (Suc n) m p = skip_strings n m (p + 2 * (1 + ucast (ld16 m p)))"

definition string_at :: "image \<Rightarrow> guest_mem \<Rightarrow> u32 \<Rightarrow> u32 \<Rightarrow> u32" where
  "string_at im m de uID = skip_strings (unat (uID mod 16)) m (img_lo im + ld32 m de)"

text \<open>The loops copy character by character, so a buffer inside the block is read as it changes.\<close>

definition copy_a :: "nat \<Rightarrow> u32 \<Rightarrow> u32 \<Rightarrow> guest_mem \<Rightarrow> guest_mem" where
  "copy_a n buf p m = fold (\<lambda>i m. m(buf + of_nat i := ucast (ld16 m (p + 2 * of_nat i)))) [0..<n] m"

definition copy_w :: "nat \<Rightarrow> u32 \<Rightarrow> u32 \<Rightarrow> guest_mem \<Rightarrow> guest_mem" where
  "copy_w n buf p m = fold (\<lambda>i m. st16 m (buf + 2 * of_nat i) (ld16 m (p + 2 * of_nat i))) [0..<n] m"

definition aret_LoadStringA :: "image \<Rightarrow> u32 \<Rightarrow> 'a hle_scheme \<Rightarrow> u32 \<times> 'a hle_scheme" where
  "aret_LoadStringA im esp s = (let uID = WU esp 1 s; buf = WU esp 2 s; cch = WU esp 3 s in
     if buf = 0 \<or> cch = 0 then (0, s)
     else case u32_rsrc_data_entry im (mem s) 6 (uID div 16 + 1) of None \<Rightarrow> (0, s\<lparr>mem := (mem s)(buf := 0)\<rparr>)
     | Some de \<Rightarrow> let p = string_at im (mem s) de uID; n = min (unat (ld16 (mem s) p)) (unat cch - 1)
         in (of_nat n, s\<lparr>mem := (copy_a n buf (p + 2) (mem s))(buf + of_nat n := 0)\<rparr>))"

definition aret_LoadStringW :: "image \<Rightarrow> u32 \<Rightarrow> 'a hle_scheme \<Rightarrow> u32 \<times> 'a hle_scheme" where
  "aret_LoadStringW im esp s = (let uID = WU esp 1 s; buf = WU esp 2 s; cch = WU esp 3 s in
     if buf = 0 \<or> cch = 0 then (0, s)
     else case u32_rsrc_data_entry im (mem s) 6 (uID div 16 + 1) of None \<Rightarrow> (0, s\<lparr>mem := st16 (mem s) buf 0\<rparr>)
     | Some de \<Rightarrow> let p = string_at im (mem s) de uID; n = min (unat (ld16 (mem s) p)) (unat cch - 1)
         in (of_nat n, s\<lparr>mem := st16 (copy_w n buf (p + 2) (mem s)) (buf + 2 * of_nat n) 0\<rparr>))"

end
