(* ===== verification/Aret_Dialogs.thy ===== *)
theory Aret_Dialogs
  imports Aret_Messages Aret_Resources Aret_Atoms
begin

text \<open>
  Creation of windows with its notifications, the calls that send messages on behalf of the
  program (text, painting, focus, enumeration) and the dialog manager of \<^verbatim>\<open>aret_win32.c\<close>: the
  templates in guest memory, the modal and the modeless dialogs, keyboard navigation.
\<close>

section \<open>Creating windows\<close>

text \<open>The \<^verbatim>\<open>CREATESTRUCT\<close>: the guest sees it at the address the allocator returned.\<close>

definition create_struct :: "u32_window \<Rightarrow> u32 \<Rightarrow> u32 \<Rightarrow> u32 \<Rightarrow> u32 \<Rightarrow> u32 list" where
  "create_struct w hinst hmenu name_ref class_ref = [0, hinst, hmenu, w_parent w, word_of_int (w_h w), word_of_int (w_w w),
     word_of_int (w_y w), word_of_int (w_x w), w_style w, name_ref, class_ref, w_exstyle w]"

text \<open>\<^verbatim>\<open>WM_NCCREATE\<close> then \<^verbatim>\<open>WM_CREATE\<close>; false when the procedure refuses the window.\<close>

definition u32_create_dispatch :: "host \<Rightarrow> u32 \<Rightarrow> nat \<Rightarrow> u32 \<Rightarrow> u32 \<Rightarrow> wm \<Rightarrow> bool \<times> wm" where
  "u32_create_dispatch h esp i hinst hmenu s = (let p = w_wndproc (win s i); cs = h_malloc h 48 s in
     if p = 0 \<or> cs = 0 then (True, s)
     else let s = s\<lparr>mem := st_dwords (mem s) cs (create_struct (win s i) hinst hmenu 0 0)\<rparr> in
       case u32_call_wndproc h esp p (hwnd_of i) 0x81 0 cs s of (r, s) \<Rightarrow>
         if r = 0 then (False, s)
         else case u32_call_wndproc h esp p (hwnd_of i) 1 0 cs s of (r, s) \<Rightarrow> (r \<noteq> - 1, s))"

text \<open>\<^verbatim>\<open>HCBT_CREATEWND\<close> to the installed \<^verbatim>\<open>WH_CBT\<close> hook: code, window and the \<^verbatim>\<open>CBT_CREATEWND\<close> after the structure.\<close>

definition u32_fire_cbt_createwnd :: "host \<Rightarrow> u32 \<Rightarrow> nat \<Rightarrow> u32 \<Rightarrow> u32 \<Rightarrow> u32 \<Rightarrow> u32 \<Rightarrow> wm \<Rightarrow> wm" where
  "u32_fire_cbt_createwnd h esp i hinst hmenu class_ref name_ref s = (let p = g_u32_hook s ! 6; cs = h_malloc h 56 s in
     if p = 0 \<or> cs = 0 then s
     else snd (u32_call_wndproc h esp p 3 (hwnd_of i) (cs + 48) 0
       (s\<lparr>mem := st_dwords (mem s) cs (create_struct (win s i) hinst hmenu name_ref class_ref @ [cs, 0])\<rparr>)))"

text \<open>
  \<^verbatim>\<open>CreateWindowEx\<close>: the window is made, given its class data, announced to the hook and to its
  procedure, and taken back when that refuses. The instance handed on is argument 8, as in the code.
\<close>

definition create_window_ex :: "bool \<Rightarrow> host \<Rightarrow> u32 \<Rightarrow> wm \<Rightarrow> u32 \<times> wm" where
  "create_window_ex wide h esp s =
     (let C = g_u32_class s; r = (if wide then cref_w else cref_a) (mem s) (WU esp 1 s);
          title = (if wide then w2n_at (mem s) (WU esp 2 s) 256 else narrow_at (mem s) (WU esp 2 s)) in
      case u32_window_create (u32_class_wndproc C r) (WU esp 0 s) (WU esp 3 s) (WU esp 4 s) (WU esp 5 s) (WU esp 6 s) (WU esp 7 s)
             (WU esp 8 s) title (u32_is_ctrl_class (mem s) (WU esp 1 s) wide) s of (hw, s) \<Rightarrow>
      if hw = 0 then (0, s)
      else let i = unat hw - 1; we = u32_class_wndextra C r;
          s = upd_win i (\<lambda>w. w\<lparr>w_classname := u32_class_name C (mem s) (WU esp 1 s) wide 64, w_bg_brush := u32_class_brush C r,
                w_unicode := (wide \<or> w_unicode w), w_extra_len := (if we > 64 then 64 else sint we),
                w_ctrl_id := (if WU esp 3 s AND 0x40000000 \<noteq> 0 then WI esp 9 s else w_ctrl_id w)\<rparr>) s;
          s = u32_fire_cbt_createwnd h esp i (WU esp 8 s) (WU esp 9 s) (WU esp 1 s) (WU esp 2 s) s in
        case u32_create_dispatch h esp i (WU esp 8 s) (WU esp 9 s) s of (ok, s) \<Rightarrow>
          if ok then (hw, s) else (0, upd_win i (\<lambda>w. w\<lparr>w_used := False\<rparr>) s))"

definition aret_CreateWindowExW :: "host \<Rightarrow> u32 \<Rightarrow> wm \<Rightarrow> u32 \<times> wm" where
  "aret_CreateWindowExW = create_window_ex True"

definition aret_CreateWindowExA :: "host \<Rightarrow> u32 \<Rightarrow> wm \<Rightarrow> u32 \<times> wm" where
  "aret_CreateWindowExA = create_window_ex False"

section \<open>Text, painting and enumeration\<close>

text \<open>Window text goes through the window procedure; without one the default handling is used directly.\<close>

definition aret_SetWindowTextA :: "host \<Rightarrow> u32 \<Rightarrow> wm \<Rightarrow> u32 \<times> wm" where
  "aret_SetWindowTextA h esp s = (let p = u32_win_wndproc s (WU esp 0 s) in
     if p = 0 then or_zero (u32_defproc_text (WU esp 0 s) U32_WM_SETTEXT 0 (WU esp 1 s) False s) s
     else (1, snd (u32_call_wndproc h esp p (WU esp 0 s) U32_WM_SETTEXT 0 (WU esp 1 s) s)))"

definition aret_SetWindowTextW :: "host \<Rightarrow> u32 \<Rightarrow> wm \<Rightarrow> u32 \<times> wm" where
  "aret_SetWindowTextW = aret_SetWindowTextA"

definition aret_GetWindowTextA :: "host \<Rightarrow> u32 \<Rightarrow> wm \<Rightarrow> u32 \<times> wm" where
  "aret_GetWindowTextA h esp s = (let p = u32_win_wndproc s (WU esp 0 s) in
     if p = 0 then or_zero (u32_defproc_text (WU esp 0 s) U32_WM_GETTEXT (WU esp 2 s) (WU esp 1 s) False s) s
     else u32_call_wndproc h esp p (WU esp 0 s) U32_WM_GETTEXT (WU esp 2 s) (WU esp 1 s) s)"

definition aret_GetWindowTextW :: "host \<Rightarrow> u32 \<Rightarrow> wm \<Rightarrow> u32 \<times> wm" where
  "aret_GetWindowTextW = aret_GetWindowTextA"

definition aret_GetWindowTextLengthA :: "host \<Rightarrow> u32 \<Rightarrow> wm \<Rightarrow> u32 \<times> wm" where
  "aret_GetWindowTextLengthA h esp s = (let p = u32_win_wndproc s (WU esp 0 s) in
     if p = 0 then or_zero (u32_defproc_text (WU esp 0 s) U32_WM_GETTEXTLENGTH 0 0 False s) s
     else u32_call_wndproc h esp p (WU esp 0 s) U32_WM_GETTEXTLENGTH 0 0 s)"

definition aret_GetWindowTextLengthW :: "host \<Rightarrow> u32 \<Rightarrow> wm \<Rightarrow> u32 \<times> wm" where
  "aret_GetWindowTextLengthW = aret_GetWindowTextLengthA"

definition aret_InternalGetWindowText :: "u32 \<Rightarrow> wm \<Rightarrow> u32 \<times> wm" where
  "aret_InternalGetWindowText esp s = or_zero (u32_defproc_text (WU esp 0 s) U32_WM_GETTEXT (WU esp 2 s) (WU esp 1 s) True s) s"

text \<open>A pending paint, delivered at once to the procedure of a window.\<close>

definition paint_now :: "host \<Rightarrow> u32 \<Rightarrow> nat \<Rightarrow> wm \<Rightarrow> wm" where
  "paint_now h esp i s = (let p = w_wndproc (win s i) in if w_needs_paint (win s i) \<and> u32_win_paints s i \<and> p \<noteq> 0
     then snd (u32_call_wndproc h esp p (hwnd_of i) U32_WM_PAINT 0 0 s) else s)"

definition aret_UpdateWindow :: "host \<Rightarrow> u32 \<Rightarrow> wm \<Rightarrow> u32 \<times> wm" where
  "aret_UpdateWindow h esp s = with_win (WU esp 0 s) 0 s (\<lambda>i. (1, paint_now h esp i s))"

definition aret_RedrawWindow :: "host \<Rightarrow> u32 \<Rightarrow> wm \<Rightarrow> u32 \<times> wm" where
  "aret_RedrawWindow h esp s = with_win (WU esp 0 s) 0 s (\<lambda>i. let fl = WU esp 3 s;
       s = (if fl AND 1 \<noteq> 0 \<and> u32_win_paints s i then upd_win i (mark_paint (fl AND 4 \<noteq> 0)) s else s);
       s = (if fl AND 8 \<noteq> 0 then upd_win i (\<lambda>w. w\<lparr>w_needs_paint := False\<rparr>) s else s)
     in (1, if fl AND 0x100 \<noteq> 0 then paint_now h esp i s else s))"

definition aret_BeginPaint :: "host \<Rightarrow> u32 \<Rightarrow> wm \<Rightarrow> u32 \<times> wm" where
  "aret_BeginPaint h esp s = (let ps = WU esp 1 s; hwnd = WU esp 0 s in
     case on_gdi (\<lambda>g. case gdi_alloc GDIT_DC g of (i, g) \<Rightarrow> if i = 0 then (0, g) else (gdi_handle i, u32_dc_defaults i g)) s of (hdc, s) \<Rightarrow>
     let s = (case win_idx s hwnd of None \<Rightarrow> s
           | Some wi \<Rightarrow> let s = (if w_needs_erase (win s wi) then
                 let s = upd_win wi (\<lambda>w. w\<lparr>w_needs_erase := False\<rparr>) s; p = w_wndproc (win s wi)
                 in if p = 0 then s else snd (u32_call_wndproc h esp p (WU esp 0 s) U32_WM_ERASEBKGND hdc 0 s) else s)
               in upd_win wi (\<lambda>w. w\<lparr>w_needs_paint := False\<rparr>) s);
         s = (if ps = 0 then s else s\<lparr>mem := st32 (st_bytes (mem s) ps (replicate 64 0)) ps hdc\<rparr>)
     in (hdc, s))"

definition aret_EndPaint :: "u32 \<Rightarrow> wm \<Rightarrow> u32 \<times> wm" where
  "aret_EndPaint esp s = (let ps = WU esp 1 s in (1, if ps = 0 then s
     else case gdi_idx (g_gdi s) (ld32 (mem s) ps) of None \<Rightarrow> s | Some i \<Rightarrow> set_dc i (\<lambda>g. g\<lparr>used := False\<rparr>) s))"

text \<open>The callback sees every child that is there when its turn comes, until it answers 0.\<close>

primrec enum_children :: "nat list \<Rightarrow> host \<Rightarrow> u32 \<Rightarrow> u32 \<Rightarrow> u32 \<Rightarrow> u32 \<Rightarrow> wm \<Rightarrow> wm" where
  "enum_children [] h esp par p lp s = s"
| "enum_children (i # is') h esp par p lp s = (if \<not> child_of s par i then enum_children is' h esp par p lp s
     else let frame = (esp - 64) AND NOT 15 in
       case h_call h p frame (s\<lparr>mem := st_dwords (mem s) frame [0, hwnd_of i, lp]\<rparr>) of (r, s) \<Rightarrow>
         if r = 0 then s else enum_children is' h esp par p lp s)"

definition aret_EnumChildWindows :: "host \<Rightarrow> u32 \<Rightarrow> wm \<Rightarrow> u32 \<times> wm" where
  "aret_EnumChildWindows h esp s = (if WU esp 1 s = 0 then (0, s)
     else (1, enum_children [0..<U32_MAX_WIN] h esp (WU esp 0 s) (WU esp 1 s) (WU esp 2 s) s))"

section \<open>Focus\<close>

definition u32_set_focus :: "host \<Rightarrow> u32 \<Rightarrow> u32 \<Rightarrow> wm \<Rightarrow> u32 \<times> wm" where
  "u32_set_focus h esp neu s = (let old = g_u32_focus s in if neu = old then (old, s)
     else let s = s\<lparr>g_u32_focus := neu\<rparr>;
         tell = (\<lambda>hwnd msg wp s. let p = u32_win_wndproc s hwnd in if hwnd = 0 \<or> p = 0 then s
                   else snd (u32_call_wndproc h esp p hwnd msg wp 0 s))
       in (old, tell neu 7 old (tell old 8 neu s)))"

definition aret_SetFocus :: "host \<Rightarrow> u32 \<Rightarrow> wm \<Rightarrow> u32 \<times> wm" where
  "aret_SetFocus h esp s = u32_set_focus h esp (WU esp 0 s) s"

definition focus_next :: "host \<Rightarrow> u32 \<Rightarrow> u32 \<Rightarrow> bool \<Rightarrow> bool \<Rightarrow> wm \<Rightarrow> wm" where
  "focus_next h esp hDlg prev tab s = (let nx = u32_next_dlg_item s hDlg (g_u32_focus s) prev tab
     in if nx = 0 then s else snd (u32_set_focus h esp nx s))"

text \<open>The dialog's default button, otherwise \<^verbatim>\<open>IDOK\<close> from nobody.\<close>

definition default_button :: "wm \<Rightarrow> u32 \<Rightarrow> u32 \<times> u32" where
  "default_button s hDlg = (case first_idx (\<lambda>k. child_of s hDlg k \<and> is_cls (w_classname (win s k)) ''button''
       \<and> w_style (win s k) AND 0xF = 1) 0 U32_MAX_WIN of None \<Rightarrow> (1, 0)
     | Some k \<Rightarrow> (word_of_int (w_ctrl_id (win s k)), hwnd_of k))"

definition dlg_command :: "host \<Rightarrow> u32 \<Rightarrow> u32 \<Rightarrow> u32 \<Rightarrow> u32 \<Rightarrow> wm \<Rightarrow> wm" where
  "dlg_command h esp hDlg wp lp s = (let p = u32_win_wndproc s hDlg in
     if p = 0 then s else snd (u32_call_wndproc h esp p hDlg 0x111 wp lp s))"

definition u32_is_dialog_message :: "host \<Rightarrow> u32 \<Rightarrow> wm \<Rightarrow> u32 \<times> wm" where
  "u32_is_dialog_message h esp s = (let hDlg = WU esp 0 s; m = WU esp 1 s in
     if m = 0 \<or> win_idx s hDlg = None then (0, s)
     else let mhwnd = ld32 (mem s) m; msg = ld32 (mem s) (m + 4); wp = ld32 (mem s) (m + 8) in
       if mhwnd \<noteq> hDlg \<and> \<not> u32_is_descendant s hDlg mhwnd then (0, s)
       else if msg \<noteq> 0x100 then (0, s)
       else if wp = 9 then (1, focus_next h esp hDlg False True s)
       else if wp = 0x25 \<or> wp = 0x26 then (1, focus_next h esp hDlg True False s)
       else if wp = 0x27 \<or> wp = 0x28 then (1, focus_next h esp hDlg False False s)
       else if wp = 0xD then (case default_button s hDlg of (cid, bh') \<Rightarrow> (1, dlg_command h esp hDlg (cid AND 0xFFFF) bh' s))
       else if wp = 0x1B then (1, dlg_command h esp hDlg 2 0 s)
       else (0, s))"

definition aret_IsDialogMessageA :: "host \<Rightarrow> u32 \<Rightarrow> wm \<Rightarrow> u32 \<times> wm" where
  "aret_IsDialogMessageA = u32_is_dialog_message"

definition aret_IsDialogMessageW :: "host \<Rightarrow> u32 \<Rightarrow> wm \<Rightarrow> u32 \<times> wm" where
  "aret_IsDialogMessageW = u32_is_dialog_message"

section \<open>Dialog templates\<close>

text \<open>A \<^verbatim>\<open>sz_Or_Ord\<close> field: the address behind it, and its text narrowed into \<open>cap\<close> bytes.\<close>

definition u32_dt_szord :: "guest_mem \<Rightarrow> u32 \<Rightarrow> nat \<Rightarrow> u32 \<times> u8 list" where
  "u32_dt_szord m p cap = (let w = ld16 m p in if w = 0 then (p + 2, []) else if w = 0xFFFF then (p + 4, [])
     else let t = wstr m p in (p + 2 * (of_nat (length t) + 1), u32_w2n t cap))"

definition u32_dt_align :: "u32 \<Rightarrow> u32 \<Rightarrow> u32" where
  "u32_dt_align base p = base + ((p - base + 3) AND NOT 3)"

definition s16 :: "guest_mem \<Rightarrow> u32 \<Rightarrow> int" where
  "s16 m p = sint (ld16 m p)"

text \<open>The fixed part of a template: style, item count, size and the address of the menu field.\<close>

record dlg_head =
  d_ex :: bool
  d_style :: u32
  d_cdit :: nat
  d_cx :: int
  d_cy :: int
  d_rest :: u32

definition dlg_head_at :: "guest_mem \<Rightarrow> u32 \<Rightarrow> dlg_head" where
  "dlg_head_at m p = (if ld16 m p = 1 \<and> ld16 m (p + 2) = 0xFFFF
     then \<lparr>d_ex = True, d_style = ld32 m (p + 12), d_cdit = unat (ld16 m (p + 16)), d_cx = s16 m (p + 22), d_cy = s16 m (p + 24), d_rest = p + 26\<rparr>
     else \<lparr>d_ex = False, d_style = ld32 m p, d_cdit = unat (ld16 m (p + 8)), d_cx = s16 m (p + 14), d_cy = s16 m (p + 16), d_rest = p + 18\<rparr>)"

text \<open>The caption, the font (present, point size, weight, italic, face) and the address of the first item.\<close>

definition dlg_caption_font :: "guest_mem \<Rightarrow> dlg_head \<Rightarrow> u8 list \<times> (bool \<times> nat \<times> nat \<times> nat \<times> u8 list) \<times> u32" where
  "dlg_caption_font m d = (let p = fst (u32_dt_szord m (d_rest d) 0); p = fst (u32_dt_szord m p 0) in
     case u32_dt_szord m p 256 of (p, title) \<Rightarrow>
     if d_style d AND 0x40 = 0 then (title, (False, 0, 0, 0, []), p)
     else let pt = unat (ld16 m p); wt = (if d_ex d then unat (ld16 m (p + 2)) else 0); it = (if d_ex d then unat (m (p + 4)) else 0) in
       case u32_dt_szord m (if d_ex d then p + 6 else p + 2) 64 of (p, face) \<Rightarrow> (title, (True, pt, wt, it, face), p))"

record dlg_item =
  i_style :: u32
  i_id :: int
  i_box :: "int \<times> int \<times> int \<times> int"
  i_class :: "u8 list"
  i_title :: "u8 list"

definition ord_class :: "u16 \<Rightarrow> string" where
  "ord_class o' = (if o' = 0x80 then ''Button'' else if o' = 0x81 then ''Edit'' else if o' = 0x82 then ''Static''
     else if o' = 0x83 then ''ListBox'' else if o' = 0x84 then ''ScrollBar'' else if o' = 0x85 then ''ComboBox'' else '''')"

text \<open>One item of the template and the address behind it.\<close>

definition dlg_item_at :: "guest_mem \<Rightarrow> bool \<Rightarrow> u32 \<Rightarrow> dlg_item \<times> u32" where
  "dlg_item_at m ex p = (let st = ld32 m (if ex then p + 8 else p); g = (if ex then p + 12 else p + 8);
       box = (s16 m g, s16 m (g + 2), s16 m (g + 4), s16 m (g + 6));
       cid = (if ex then sint (ld32 m (p + 20)) else int (unat (ld16 m (p + 16)))); p = (if ex then p + 24 else p + 18) in
     case (if ld16 m p = 0xFFFF then (p + 4, bytes_of_str (ord_class (ld16 m (p + 2)))) else u32_dt_szord m p 64) of (p, cls) \<Rightarrow>
     case u32_dt_szord m p 256 of (p, title) \<Rightarrow>
       (\<lparr>i_style = st, i_id = cid, i_box = box, i_class = cls, i_title = title\<rparr>, p + 2 + ucast (ld16 m p)))"

definition dlg_px :: "int \<Rightarrow> int \<Rightarrow> int \<Rightarrow> int" where
  "dlg_px units b per = (if b > 0 then gdi_muldiv units b per else 0)"

text \<open>The items become controls one after the other; a full window table drops the rest.\<close>

primrec dlg_items :: "nat \<Rightarrow> u32 \<Rightarrow> bool \<Rightarrow> u32 \<Rightarrow> int \<Rightarrow> int \<Rightarrow> u32 \<Rightarrow> u32 \<Rightarrow> wm \<Rightarrow> wm" where
  "dlg_items 0 tpl ex hDlg bx by' dfont p s = s"
| "dlg_items (Suc n) tpl ex hDlg bx by' dfont p s = (case dlg_item_at (mem s) ex (u32_dt_align tpl p) of (it, p) \<Rightarrow>
     case i_box it of (ix, iy, icx, icy) \<Rightarrow>
     case u32_new_control hDlg (i_id it) (i_style it) (i_title it) (dlg_px ix bx 4) (dlg_px iy by' 8) (dlg_px icx bx 4) (dlg_px icy by' 8)
            (i_class it) s of (hc, s) \<Rightarrow>
     dlg_items n tpl ex hDlg bx by' dfont p (if hc \<noteq> 0 \<and> dfont \<noteq> 0 then upd_win (unat hc - 1) (\<lambda>w. w\<lparr>w_ctrl_font := dfont\<rparr>) s else s))"

definition u32_dialog_create :: "host \<Rightarrow> u32 \<Rightarrow> u32 \<Rightarrow> u32 \<Rightarrow> u32 \<Rightarrow> wm \<Rightarrow> u32 \<times> wm" where
  "u32_dialog_create h esp tpl dlgproc parent s = (let d = dlg_head_at (mem s) tpl in
     case dlg_caption_font (mem s) d of (title, (hf, pt, wt, it, face), p) \<Rightarrow>
     case h_units h hf pt wt it face s of ((bx, by', dfont), s) \<Rightarrow>
     case u32_window_create dlgproc 0 (d_style d) 0 0 (word_of_int (dlg_px (d_cx d) bx 4)) (word_of_int (dlg_px (d_cy d) by' 8)) parent title False s of
       (hDlg, s) \<Rightarrow> if hDlg = 0 then (0, s)
       else let hi = unat hDlg - 1; s = u32_fire_cbt_createwnd h esp hi 0 0 0x8002 0 s;
           s = upd_win hi (\<lambda>w. w\<lparr>w_du_x := bx, w_du_y := by', w_is_dialog := True, w_dlg_font := dfont\<rparr>) s
         in (hDlg, dlg_items (d_cdit d) tpl (d_ex d) hDlg bx by' dfont p s))"

section \<open>Modal and modeless dialogs\<close>

definition u32_dlg_template :: "image \<Rightarrow> guest_mem \<Rightarrow> u32 \<Rightarrow> u32" where
  "u32_dlg_template im m name_ref = (case u32_rsrc_data_entry im m 5 name_ref of None \<Rightarrow> 0 | Some de \<Rightarrow> img_lo im + ld32 m de)"

definition u32_dialog_default_focus :: "host \<Rightarrow> u32 \<Rightarrow> u32 \<Rightarrow> u32 \<Rightarrow> wm \<Rightarrow> wm" where
  "u32_dialog_default_focus h esp hDlg initret s = (if initret = 0 then s
     else let f = u32_next_dlg_item s hDlg 0 False True in if f = 0 then s else snd (u32_set_focus h esp f s))"

text \<open>
  The modal loop runs until \<^verbatim>\<open>EndDialog\<close>. With nothing to do it reports a partial model and goes
  around again.
\<close>

definition modal_step :: "host \<Rightarrow> u32 \<Rightarrow> u32 \<Rightarrow> wm \<Rightarrow> wm" where
  "modal_step h esp hDlg s = (let s = u32_pump_timers h s in if u32_q_empty s then s
     else let m = g_u32_q s ! g_u32_qh s; s = u32_q_peek_copy 0 True s; p = u32_win_wndproc s (m_hwnd m);
         s = (if p = 0 then s else snd (u32_call_wndproc h esp p (m_hwnd m) (m_message m) (m_wParam m) (m_lParam m) s))
       in if m_hwnd m = hDlg \<and> m_message m = 0x202
          then u32_dialog_hittest_click h esp (unat hDlg - 1) (lo16 (m_lParam m)) (hi16 (m_lParam m)) s else s)"

primrec modal_loop :: "nat \<Rightarrow> host \<Rightarrow> u32 \<Rightarrow> u32 \<Rightarrow> wm \<Rightarrow> wm option" where
  "modal_loop 0 h esp hDlg s = (if g_u32_modal_ended s then Some s else None)"
| "modal_loop (Suc fuel) h esp hDlg s = (if g_u32_modal_ended s then Some s else modal_loop fuel h esp hDlg (modal_step h esp hDlg s))"

definition u32_dialog_modal :: "nat \<Rightarrow> host \<Rightarrow> u32 \<Rightarrow> u32 \<Rightarrow> u32 \<Rightarrow> u32 \<Rightarrow> u32 \<Rightarrow> wm \<Rightarrow> (u32 \<times> wm) option" where
  "u32_dialog_modal fuel h esp tpl dlgproc parent param s = (if tpl = 0 \<or> dlgproc = 0 then Some (- 1, s)
     else case u32_dialog_create h esp tpl dlgproc parent s of (hDlg, s) \<Rightarrow> if hDlg = 0 then Some (- 1, s)
       else let s = s\<lparr>g_u32_modal_hwnd := hDlg, g_u32_modal_ended := False, g_u32_modal_result := 0\<rparr> in
         case u32_call_wndproc h esp dlgproc hDlg U32_WM_INITDIALOG 0 param s of (initret, s) \<Rightarrow>
         let s = (if g_u32_modal_ended s then s else u32_dialog_default_focus h esp hDlg initret s) in
         case modal_loop fuel h esp hDlg s of None \<Rightarrow> None
           | Some s \<Rightarrow> Some (word_of_int (g_u32_modal_result s), (u32_dialog_destroy hDlg s)\<lparr>g_u32_modal_hwnd := 0\<rparr>))"

definition u32_dialog_modeless :: "host \<Rightarrow> u32 \<Rightarrow> u32 \<Rightarrow> u32 \<Rightarrow> u32 \<Rightarrow> u32 \<Rightarrow> wm \<Rightarrow> u32 \<times> wm" where
  "u32_dialog_modeless h esp tpl dlgproc parent param s = (if tpl = 0 \<or> dlgproc = 0 then (0, s)
     else case u32_dialog_create h esp tpl dlgproc parent s of (hDlg, s) \<Rightarrow> if hDlg = 0 then (0, s)
       else case u32_call_wndproc h esp dlgproc hDlg U32_WM_INITDIALOG 0 param s of (initret, s) \<Rightarrow>
         (hDlg, u32_dialog_default_focus h esp hDlg initret s))"

definition aret_DialogBoxParamA :: "nat \<Rightarrow> image \<Rightarrow> host \<Rightarrow> u32 \<Rightarrow> wm \<Rightarrow> (u32 \<times> wm) option" where
  "aret_DialogBoxParamA fuel im h esp s =
     u32_dialog_modal fuel h esp (u32_dlg_template im (mem s) (WU esp 1 s)) (WU esp 3 s) (WU esp 2 s) (WU esp 4 s) s"

definition aret_DialogBoxParamW :: "nat \<Rightarrow> image \<Rightarrow> host \<Rightarrow> u32 \<Rightarrow> wm \<Rightarrow> (u32 \<times> wm) option" where
  "aret_DialogBoxParamW = aret_DialogBoxParamA"

definition aret_DialogBoxIndirectParamA :: "nat \<Rightarrow> host \<Rightarrow> u32 \<Rightarrow> wm \<Rightarrow> (u32 \<times> wm) option" where
  "aret_DialogBoxIndirectParamA fuel h esp s = u32_dialog_modal fuel h esp (WU esp 1 s) (WU esp 3 s) (WU esp 2 s) (WU esp 4 s) s"

definition aret_DialogBoxIndirectParamW :: "nat \<Rightarrow> host \<Rightarrow> u32 \<Rightarrow> wm \<Rightarrow> (u32 \<times> wm) option" where
  "aret_DialogBoxIndirectParamW = aret_DialogBoxIndirectParamA"

definition aret_CreateDialogParamA :: "image \<Rightarrow> host \<Rightarrow> u32 \<Rightarrow> wm \<Rightarrow> u32 \<times> wm" where
  "aret_CreateDialogParamA im h esp s =
     u32_dialog_modeless h esp (u32_dlg_template im (mem s) (WU esp 1 s)) (WU esp 3 s) (WU esp 2 s) (WU esp 4 s) s"

definition aret_CreateDialogParamW :: "image \<Rightarrow> host \<Rightarrow> u32 \<Rightarrow> wm \<Rightarrow> u32 \<times> wm" where
  "aret_CreateDialogParamW = aret_CreateDialogParamA"

definition aret_CreateDialogIndirectParamA :: "host \<Rightarrow> u32 \<Rightarrow> wm \<Rightarrow> u32 \<times> wm" where
  "aret_CreateDialogIndirectParamA h esp s = u32_dialog_modeless h esp (WU esp 1 s) (WU esp 3 s) (WU esp 2 s) (WU esp 4 s) s"

definition aret_CreateDialogIndirectParamW :: "host \<Rightarrow> u32 \<Rightarrow> wm \<Rightarrow> u32 \<times> wm" where
  "aret_CreateDialogIndirectParamW = aret_CreateDialogIndirectParamA"

definition aret_EndDialog :: "u32 \<Rightarrow> wm \<Rightarrow> u32 \<times> wm" where
  "aret_EndDialog esp s = (1, s\<lparr>g_u32_modal_ended := True, g_u32_modal_result := WI esp 1 s\<rparr>)"

section \<open>Numbers in dialog items\<close>

text \<open>\<^verbatim>\<open>snprintf\<close> of \<^verbatim>\<open>%d\<close> and \<^verbatim>\<open>%u\<close>.\<close>

definition print_int :: "int \<Rightarrow> u8 list" where
  "print_int n = (if n < 0 then 0x2D # dec_digits (nat (- n)) else dec_digits (nat n))"

definition aret_SetDlgItemInt :: "u32 \<Rightarrow> wm \<Rightarrow> u32 \<times> wm" where
  "aret_SetDlgItemInt esp s = with_win (u32_dlg_item s (WU esp 0 s) (WI esp 1 s)) 0 s (\<lambda>i.
     (1, upd_win i (\<lambda>w. w\<lparr>w_title := (if WU esp 3 s \<noteq> 0 then print_int (WI esp 2 s) else dec_digits (unat (WU esp 2 s)))\<rparr>) s))"

text \<open>
  \<^verbatim>\<open>strtol\<close> and \<^verbatim>\<open>strtoul\<close> of base ten on a 32-bit \<^verbatim>\<open>long\<close>: blanks, a sign, digits. The second result
  says whether a number was read and nothing follows it.
\<close>

definition split_num :: "u8 list \<Rightarrow> bool \<times> nat \<times> bool" where
  "split_num v = (let t = dropWhile (\<lambda>c. c = 0x20 \<or> (0x09 \<le> c \<and> c \<le> 0x0D)) v;
       neg = (t \<noteq> [] \<and> hd t = 0x2D); u = (if t \<noteq> [] \<and> (hd t = 0x2D \<or> hd t = 0x2B) then tl t else t);
       ds = takeWhile (\<lambda>c. 0x30 \<le> c \<and> c \<le> 0x39) u
     in (neg, foldl (\<lambda>a c. 10 * a + (unat c - 48)) 0 ds, ds \<noteq> [] \<and> length ds = length u))"

definition strtol32 :: "bool \<Rightarrow> nat \<Rightarrow> u32" where
  "strtol32 neg n = word_of_int (max (- (2 ^ 31)) (min (2 ^ 31 - 1) (if neg then - int n else int n)))"

definition strtoul32 :: "bool \<Rightarrow> nat \<Rightarrow> u32" where
  "strtoul32 neg n = (if n > 2 ^ 32 - 1 then 0xFFFFFFFF else if neg then - of_nat n else of_nat n)"

definition aret_GetDlgItemInt :: "u32 \<Rightarrow> wm \<Rightarrow> u32 \<times> wm" where
  "aret_GetDlgItemInt esp s = (case win_idx s (u32_dlg_item s (WU esp 0 s) (WI esp 1 s)) of None \<Rightarrow> (0, put32 (WU esp 2 s) 0 s)
     | Some i \<Rightarrow> (case split_num (w_title (win s i)) of (neg, n, whole) \<Rightarrow>
         (if WU esp 3 s \<noteq> 0 then strtol32 neg n else strtoul32 neg n, put32 (WU esp 2 s) (b32 whole) s)))"

section \<open>Enumerating resource languages\<close>

text \<open>The callback gets every numbered language of the resource until it answers 0, which ends the walk with 0.\<close>

primrec enum_langs :: "nat list \<Rightarrow> host \<Rightarrow> u32 \<Rightarrow> u32 \<Rightarrow> u32 list \<Rightarrow> wm \<Rightarrow> u32 \<times> wm" where
  "enum_langs [] h esp e args s = (1, s)"
| "enum_langs (i # is') h esp e args s = (let key = ld32 (mem s) (e + 8 * of_nat i) in
     if key AND 0x80000000 \<noteq> 0 then enum_langs is' h esp e args s
     else let frame = (esp - 0x80) AND NOT 15 in
       case h_call h (args ! 3) frame (s\<lparr>mem := st_dwords (mem s) frame [0, args ! 0, args ! 1, args ! 2, key AND 0xFFFF, args ! 4]\<rparr>) of (r, s) \<Rightarrow>
         if r = 0 then (0, s) else enum_langs is' h esp e args s)"

text \<open>\<open>None\<close>: a string type or name under the wide entry point stops the program.\<close>

definition u32_enum_res_langs :: "bool \<Rightarrow> image \<Rightarrow> host \<Rightarrow> u32 \<Rightarrow> wm \<Rightarrow> (u32 \<times> wm) option" where
  "u32_enum_res_langs wide im h esp s = (let m = mem s; tref = WU esp 1 s; nref = WU esp 2 s in
     case u32_rsrc_root im m of None \<Rightarrow> Some (0, set_error 1813 s)
     | Some rb \<Rightarrow> if wide \<and> (tref \<ge> 0x10000 \<or> nref \<ge> 0x10000) then None
       else let off = u32_rsrc_entry m rb rb (u32_rsrc_ref m tref) in
       if off AND 0x80000000 = 0 then Some (0, set_error 1813 s)
       else let off = u32_rsrc_entry m rb (rb + (off AND 0x7FFFFFFF)) (u32_rsrc_ref m nref) in
         if off AND 0x80000000 = 0 then Some (0, set_error 1814 s)
         else let lang = rb + (off AND 0x7FFFFFFF); total = rsrc_total m lang in
           if total < 1 then Some (0, set_error 1815 s)
           else Some (enum_langs [0..<total] h esp (lang + 16) (map (\<lambda>k. WU esp k s) [0..<5]) s))"

definition aret_EnumResourceLanguagesA :: "image \<Rightarrow> host \<Rightarrow> u32 \<Rightarrow> wm \<Rightarrow> (u32 \<times> wm) option" where
  "aret_EnumResourceLanguagesA = u32_enum_res_langs False"

definition aret_EnumResourceLanguagesW :: "image \<Rightarrow> host \<Rightarrow> u32 \<Rightarrow> wm \<Rightarrow> (u32 \<times> wm) option" where
  "aret_EnumResourceLanguagesW = u32_enum_res_langs True"

end
