(* ===== verification/Aret_Windows_Theorems.thy ===== *)
theory Aret_Windows_Theorems
  imports Aret_Dialogs
begin

text \<open>
  What the window manager promises: the sizes of its tables and strings are an invariant of every
  call, whatever the guest code behind a window procedure does within its own law; window
  properties are a map, registered messages an injection; the scroll bars stay in their range; the
  siblings of a window form one list.
\<close>

section \<open>The sizes of the tables and strings\<close>

definition q_ok :: "wm \<Rightarrow> bool" where
  "q_ok s \<longleftrightarrow> length (g_u32_q s) = U32_MAX_MSG \<and> g_u32_qh s < U32_MAX_MSG \<and> g_u32_qt s < U32_MAX_MSG"

definition win_ok :: "u32_window \<Rightarrow> bool" where
  "win_ok w \<longleftrightarrow> length (w_title w) \<le> 255 \<and> length (w_classname w) \<le> 63 \<and> length (w_extra w) = 64 \<and> length (w_scroll w) = 3"

definition wm_ok :: "wm \<Rightarrow> bool" where
  "wm_ok s \<longleftrightarrow> length (g_u32_class s) = U32_MAX_CLASSES \<and> (\<forall>c \<in> set (g_u32_class s). length (c_name c) \<le> 127)
     \<and> length (g_u32_win s) = U32_MAX_WIN \<and> (\<forall>w \<in> set (g_u32_win s). win_ok w) \<and> q_ok s
     \<and> length (g_u32_timer s) = U32_MAX_TIMER \<and> length (g_u32_hook s) = 16
     \<and> length (g_u32_rwm s) = U32_MAX_RWM \<and> (\<forall>r \<in> set (g_u32_rwm s). length (rwm_name r) \<le> 127)
     \<and> length (g_u32_prop s) = U32_MAX_PROP \<and> (\<forall>p \<in> set (g_u32_prop s). length (pr_key p) \<le> 63)
     \<and> length (g_u32_clip s) \<le> 32"

named_theorems wm_keep \<open>preservation of the window manager's invariant\<close>

lemma fold_keep: "wm_ok s \<Longrightarrow> (\<And>x s. x \<in> set xs \<Longrightarrow> wm_ok s \<Longrightarrow> wm_ok (f x s)) \<Longrightarrow> wm_ok (fold f xs s)"
  by (induction xs arbitrary: s) simp_all

text \<open>The guest memory, the last error and the GDI objects are not part of it.\<close>

lemma wm_ok_more: "gdi.more s' = gdi.more s \<Longrightarrow> wm_ok s' \<longleftrightarrow> wm_ok s"
  by (cases s; cases s') (simp add: wm_ok_def q_ok_def)

lemma wm_ok_frame [wm_keep]:
  "wm_ok (s\<lparr>mem := m\<rparr>) \<longleftrightarrow> wm_ok s" "wm_ok (s\<lparr>g_gdi := g\<rparr>) \<longleftrightarrow> wm_ok s"
  "wm_ok (put32 p v s) \<longleftrightarrow> wm_ok s" "wm_ok (set_error e s) \<longleftrightarrow> wm_ok s" "wm_ok (seti p k x s) \<longleftrightarrow> wm_ok s"
  "wm_ok (add_point dx dy p s) \<longleftrightarrow> wm_ok s" "wm_ok (set_dc d f s) \<longleftrightarrow> wm_ok s"
  "wm_ok (snd (put_text_a buf cch t s)) \<longleftrightarrow> wm_ok s" "wm_ok (snd (put_text_w buf cch t s)) \<longleftrightarrow> wm_ok s"
  by (rule wm_ok_more, simp add: put32_def set_error_def seti_def add_point_def set_dc_def put_text_a_def put_text_w_def Let_def case_prod_beta)+

lemma put_rect_ok [wm_keep]: "wm_ok (set4 p a b c d s) \<longleftrightarrow> wm_ok s" "wm_ok (put_rect p q s) \<longleftrightarrow> wm_ok s"
  by (simp_all add: set4_def Let_def wm_keep, cases q, simp add: set4_def Let_def wm_keep)

lemma wm_ok_fields [wm_keep]:
  "wm_ok (s\<lparr>g_u32_quit := a\<rparr>) \<longleftrightarrow> wm_ok s" "wm_ok (s\<lparr>g_u32_quit_code := b\<rparr>) \<longleftrightarrow> wm_ok s"
  "wm_ok (s\<lparr>g_u32_next_timer_id := c\<rparr>) \<longleftrightarrow> wm_ok s" "wm_ok (s\<lparr>g_u32_capture := c\<rparr>) \<longleftrightarrow> wm_ok s"
  "wm_ok (s\<lparr>g_u32_focus := c\<rparr>) \<longleftrightarrow> wm_ok s" "wm_ok (s\<lparr>g_u32_active := c\<rparr>) \<longleftrightarrow> wm_ok s"
  "wm_ok (s\<lparr>g_u32_rwm_next := c\<rparr>) \<longleftrightarrow> wm_ok s" "wm_ok (s\<lparr>g_u32_caret := d\<rparr>) \<longleftrightarrow> wm_ok s"
  "wm_ok (s\<lparr>g_u32_cursor_show := b\<rparr>) \<longleftrightarrow> wm_ok s" "wm_ok (s\<lparr>g_u32_cursor := c\<rparr>) \<longleftrightarrow> wm_ok s"
  "wm_ok (s\<lparr>g_u32_modal_hwnd := c\<rparr>) \<longleftrightarrow> wm_ok s" "wm_ok (s\<lparr>g_u32_modal_ended := a\<rparr>) \<longleftrightarrow> wm_ok s"
  "wm_ok (s\<lparr>g_u32_modal_result := b\<rparr>) \<longleftrightarrow> wm_ok s" "wm_ok (s\<lparr>clock_reads := n\<rparr>) \<longleftrightarrow> wm_ok s"
  by (simp_all add: wm_ok_def q_ok_def)

lemma ball_list_update: "(\<forall>x \<in> set xs. P x) \<Longrightarrow> P v \<Longrightarrow> (\<forall>x \<in> set (xs[i := v]). P x)"
  using set_update_subset_insert [of xs i v] by blast

lemma ball_upd: "(\<forall>x \<in> set xs. P x) \<Longrightarrow> (\<And>x. P x \<Longrightarrow> P (f x)) \<Longrightarrow> (\<forall>x \<in> set (xs[i := f (xs ! i)]). P x)"
proof (cases "i < length xs")
  case True
  assume a: "\<forall>x \<in> set xs. P x" and f: "\<And>x. P x \<Longrightarrow> P (f x)"
  from a True have "P (f (xs ! i))" by (intro f) simp
  with a show ?thesis by (rule ball_list_update)
qed (simp add: list_update_beyond)

text \<open>The tables have constant sizes, so an index that was found in one state is in bounds in every later one.\<close>

lemma win_idx_less [dest]: "win_idx s h = Some i \<Longrightarrow> wm_ok s \<Longrightarrow> i < U32_MAX_WIN"
  by (auto simp: win_idx_def u32_win_idx_def wm_ok_def word_le_nat_alt split: if_splits)

lemma first_idx_less [dest]: "first_idx P lo hi = Some i \<Longrightarrow> i < hi"
  by (simp add: first_idx_Some_iff)

lemma wm_ok_upd_win [wm_keep]:
  "wm_ok s \<Longrightarrow> i < U32_MAX_WIN \<Longrightarrow> (\<And>w. win_ok w \<Longrightarrow> win_ok (f w)) \<Longrightarrow> wm_ok (upd_win i f s)"
  using ball_upd [of "g_u32_win s" win_ok f i] by (simp add: wm_ok_def q_ok_def upd_win_def)

lemma wm_ok_map_win [wm_keep]:
  "wm_ok s \<Longrightarrow> (\<And>w. win_ok w \<Longrightarrow> win_ok (f w)) \<Longrightarrow> wm_ok (s\<lparr>g_u32_win := map f (g_u32_win s)\<rparr>)"
  by (auto simp: wm_ok_def q_ok_def)

lemma on_gdi_ok [wm_keep]: "wm_ok (snd (on_gdi f s)) \<longleftrightarrow> wm_ok s"
  by (rule wm_ok_more) (simp add: on_gdi_def case_prod_beta gdi.defs)

lemma on_gdi_win [simp]: "g_u32_win (snd (on_gdi f s)) = g_u32_win s"
  by (cases s) (simp add: on_gdi_def case_prod_beta gdi.defs)

lemma with_win_ok [wm_keep]:
  "wm_ok s \<Longrightarrow> (\<And>i. win_idx s h = Some i \<Longrightarrow> i < U32_MAX_WIN \<Longrightarrow> wm_ok (snd (f i))) \<Longrightarrow> wm_ok (snd (with_win h e s f))"
  by (auto simp: with_win_def split: option.splits)

text \<open>The sizes of what the strings are read into.\<close>

lemma string_sizes [simp]:
  "length (take n xs) \<le> n" "length (u32_w2n w (Suc n)) \<le> n" "length (w2n_at m p (Suc n)) \<le> n"
proof -
  have "length (takeWhile P (map g (take n w))) \<le> n" for P :: "u8 \<Rightarrow> bool" and g and w :: "u16 list"
    by (rule order_trans [OF length_takeWhile_le]) simp
  then show "length (u32_w2n w (Suc n)) \<le> n" "length (w2n_at m p (Suc n)) \<le> n"
    by (simp_all add: u32_w2n_def w2n_at_def)
qed simp

text \<open>A shim keeps the invariant.\<close>

definition keeps :: "(u32 \<Rightarrow> wm \<Rightarrow> 'r \<times> wm) \<Rightarrow> bool" where
  "keeps f \<longleftrightarrow> (\<forall>esp s. wm_ok s \<longrightarrow> wm_ok (snd (f esp s)))"

lemma keepsI: "(\<And>esp s. wm_ok s \<Longrightarrow> wm_ok (snd (f esp s))) \<Longrightarrow> keeps f"
  by (simp add: keeps_def)

lemma keepsD: "keeps f \<Longrightarrow> wm_ok s \<Longrightarrow> wm_ok (snd (f esp s))"
  by (simp add: keeps_def)

named_theorems wm_shims \<open>the shims that keep the invariant\<close>

subsection \<open>Classes\<close>

lemma wm_ok_class: "wm_ok s \<Longrightarrow> i < U32_MAX_CLASSES \<Longrightarrow> length (c_name c) \<le> 127 \<Longrightarrow> wm_ok (s\<lparr>g_u32_class := arr_set (g_u32_class s) i c\<rparr>)"
  using ball_list_update [of "g_u32_class s" "\<lambda>c. length (c_name c) \<le> 127" c i] by (simp add: wm_ok_def q_ok_def)

lemma class_register_ok: "wm_ok s \<Longrightarrow> wm_ok (snd (u32_class_register f sm n s))"
  by (auto simp: u32_class_register_def u32_wcpy_def split: option.split intro!: wm_ok_class)

lemma register_class_keeps [wm_shims]:
  "keeps aret_RegisterClassW" "keeps aret_RegisterClassA" "keeps aret_RegisterClassExW" "keeps aret_RegisterClassExA"
  by (auto simp: aret_RegisterClassW_def aret_RegisterClassA_def aret_RegisterClassExW_def aret_RegisterClassExA_def
      register_class_def Let_def class_register_ok intro!: keepsI)

lemma class_info_keeps [wm_shims]:
  "keeps aret_GetClassInfoA" "keeps aret_GetClassInfoW" "keeps aret_GetClassInfoExA" "keeps aret_GetClassInfoExW"
  "keeps aret_GetClassLongA" "keeps aret_GetClassLongW"
  by (auto simp: aret_GetClassInfoA_def aret_GetClassInfoW_def aret_GetClassInfoExA_def aret_GetClassInfoExW_def
      aret_GetClassLongA_def aret_GetClassLongW_def u32_get_class_info_a_def u32_get_class_info_def Let_def wm_keep
      split: option.split intro!: keepsI)

lemma class_index_less: "u32_class_index C r = Some i \<Longrightarrow> i < U32_MAX_CLASSES"
  by (auto simp: u32_class_index_def Let_def split: class_ref.splits if_splits)

lemma unregister_ok: "wm_ok s \<Longrightarrow> wm_ok (snd (unregister_class r s))"
proof (cases "u32_class_index (g_u32_class s) r")
  case (Some i)
  assume s: "wm_ok s"
  have "i < U32_MAX_CLASSES" using Some by (rule class_index_less)
  moreover from this s have "length (c_name (g_u32_class s ! i)) \<le> 127" by (simp add: wm_ok_def)
  ultimately show ?thesis using Some s by (simp add: unregister_class_def wm_ok_class)
qed (simp add: unregister_class_def)

lemma unregister_keeps [wm_shims]: "keeps aret_UnregisterClassA" "keeps aret_UnregisterClassW"
  by (auto simp: aret_UnregisterClassA_def aret_UnregisterClassW_def unregister_ok intro!: keepsI)

subsection \<open>Windows\<close>

lemma win_ok_init: "win_ok w \<Longrightarrow> win_ok (win_init p ex st x y wd ht par t w)"
  by (simp add: win_ok_def win_init_def Let_def)

lemma win_ok_zero [simp]: "win_ok win_zero"
  by (simp add: win_ok_def win_zero_def)

lemma win_ok_plain [simp]:
  "win_ok (w\<lparr>w_wndproc := a\<rparr>) = win_ok w" "win_ok (w\<lparr>w_parent := a\<rparr>) = win_ok w" "win_ok (w\<lparr>w_used := b\<rparr>) = win_ok w"
  "win_ok (w\<lparr>w_x := i\<rparr>) = win_ok w" "win_ok (w\<lparr>w_y := i\<rparr>) = win_ok w" "win_ok (w\<lparr>w_w := i\<rparr>) = win_ok w" "win_ok (w\<lparr>w_h := i\<rparr>) = win_ok w"
  "win_ok (w\<lparr>w_style := a\<rparr>) = win_ok w" "win_ok (w\<lparr>w_exstyle := a\<rparr>) = win_ok w" "win_ok (w\<lparr>w_visible := b\<rparr>) = win_ok w"
  "win_ok (w\<lparr>w_enabled := b\<rparr>) = win_ok w" "win_ok (w\<lparr>w_userdata := a\<rparr>) = win_ok w" "win_ok (w\<lparr>w_ctrl_id := i\<rparr>) = win_ok w"
  "win_ok (w\<lparr>w_needs_paint := b\<rparr>) = win_ok w" "win_ok (w\<lparr>w_needs_erase := b\<rparr>) = win_ok w" "win_ok (w\<lparr>w_bg_brush := a\<rparr>) = win_ok w"
  "win_ok (w\<lparr>w_unicode := b\<rparr>) = win_ok w" "win_ok (w\<lparr>w_check_state := i\<rparr>) = win_ok w" "win_ok (w\<lparr>w_ctrl_font := a\<rparr>) = win_ok w"
  "win_ok (w\<lparr>w_extra_len := i\<rparr>) = win_ok w" "win_ok (w\<lparr>w_du_x := i\<rparr>) = win_ok w" "win_ok (w\<lparr>w_du_y := i\<rparr>) = win_ok w"
  "win_ok (w\<lparr>w_is_dialog := b\<rparr>) = win_ok w" "win_ok (w\<lparr>w_items := ts\<rparr>) = win_ok w" "win_ok (w\<lparr>w_item_cap := i\<rparr>) = win_ok w"
  "win_ok (w\<lparr>w_cur_sel := i\<rparr>) = win_ok w" "win_ok (w\<lparr>w_dlg_font := a\<rparr>) = win_ok w" "win_ok (w\<lparr>w_rgn_set := b\<rparr>) = win_ok w"
  "win_ok (w\<lparr>w_rgn := q\<rparr>) = win_ok w" "win_ok (w\<lparr>w_rgn_complex := b\<rparr>) = win_ok w"
  by (simp_all add: win_ok_def)

lemma win_ok_text [simp]:
  "win_ok w \<Longrightarrow> length t \<le> 255 \<Longrightarrow> win_ok (w\<lparr>w_title := t\<rparr>)" "win_ok w \<Longrightarrow> length c \<le> 63 \<Longrightarrow> win_ok (w\<lparr>w_classname := c\<rparr>)"
  "win_ok w \<Longrightarrow> ext_ok k \<Longrightarrow> win_ok (w\<lparr>w_extra := ext_st (w_extra w) (nat k) v\<rparr>)"
  "win_ok w \<Longrightarrow> b < 3 \<Longrightarrow> win_ok (w\<lparr>w_scroll := arr_set (w_scroll w) b sb\<rparr>)"
  by (simp_all add: win_ok_def ext_st_def ext_ok_def nat_less_iff flip: nat_add_distrib)

lemma string_sizes_255 [simp]: "length (u32_w2n w 256) \<le> 255" "length (w2n_at m p 256) \<le> 255" "length (u32_w2n w 64) \<le> 63"
    "length (w2n_at m p 64) \<le> 63" "length (w2n_at m p 128) \<le> 127"
  using string_sizes(2) [of w 255] string_sizes(3) [of m p 255] string_sizes(2) [of w 63] string_sizes(3) [of m p 63]
    string_sizes(3) [of m p 127] by simp_all

lemma set_pos_ok: "win_ok w \<Longrightarrow> win_ok (set_pos f x y cx cy w)"
  by (simp add: set_pos_def Let_def)

lemma window_create_ok [wm_keep]: "wm_ok s \<Longrightarrow> wm_ok (snd (u32_window_create p ex st x y wd ht par t c s))"
  by (auto simp: u32_window_create_def win_ok_init split: option.split intro!: wm_ok_upd_win)

lemma created_index:
  "fst (u32_window_create p ex st x y wd ht par t c s) \<noteq> 0 \<Longrightarrow> unat (fst (u32_window_create p ex st x y wd ht par t c s)) - 1 < U32_MAX_WIN"
  "fst (u32_new_control par' cid st t x' y' w' h' c' s) \<noteq> 0 \<Longrightarrow> unat (fst (u32_new_control par' cid st t x' y' w' h' c' s)) - 1 < U32_MAX_WIN"
proof -
  have "unat (hwnd_of i) - 1 < U32_MAX_WIN" if "i < U32_MAX_WIN" for i
  proof -
    have "unat (hwnd_of i) \<le> Suc i" by (simp add: hwnd_of_def unat_of_nat mod_less_eq_dividend del: of_nat_Suc)
    with that show ?thesis by simp
  qed
  then show "fst (u32_window_create p ex st x y wd ht par t c s) \<noteq> 0 \<Longrightarrow> unat (fst (u32_window_create p ex st x y wd ht par t c s)) - 1 < U32_MAX_WIN"
    "fst (u32_new_control par' cid st t x' y' w' h' c' s) \<noteq> 0 \<Longrightarrow> unat (fst (u32_new_control par' cid st t x' y' w' h' c' s)) - 1 < U32_MAX_WIN"
    by (auto simp: u32_window_create_def u32_new_control_def split: option.splits if_splits)
qed

lemma new_control_ok [wm_keep]: "wm_ok s \<Longrightarrow> wm_ok (snd (u32_new_control par cid st t x y w h c s))"
  by (auto simp: u32_new_control_def win_ok_def win_zero_def split: option.split intro!: wm_ok_upd_win)

lemma window_keeps [wm_shims]:
  "keeps aret_DestroyWindow" "keeps aret_GetWindowRect" "keeps aret_GetClientRect" "keeps aret_SetWindowPos" "keeps aret_MoveWindow"
  "keeps aret_BeginDeferWindowPos" "keeps aret_DeferWindowPos" "keeps aret_EndDeferWindowPos" "keeps aret_ShowWindow"
  "keeps aret_EnableWindow" "keeps aret_GetParent" "keeps aret_SetParent" "keeps aret_IsWindow" "keeps aret_IsWindowVisible"
  "keeps aret_IsWindowEnabled" "keeps aret_IsWindowUnicode" "keeps aret_GetDlgCtrlID" "keeps aret_ClientToScreen" "keeps aret_ScreenToClient"
  by (auto simp: aret_DestroyWindow_def aret_GetWindowRect_def aret_GetClientRect_def aret_SetWindowPos_def aret_MoveWindow_def
      aret_BeginDeferWindowPos_def aret_DeferWindowPos_def aret_EndDeferWindowPos_def aret_ShowWindow_def aret_EnableWindow_def
      aret_GetParent_def aret_SetParent_def aret_IsWindow_def aret_IsWindowVisible_def aret_IsWindowEnabled_def aret_IsWindowUnicode_def
      aret_GetDlgCtrlID_def aret_ClientToScreen_def aret_ScreenToClient_def move_point_def Let_def set_pos_ok wm_ok_frame put_rect_ok
      split: option.split intro!: keepsI with_win_ok wm_ok_upd_win)

lemma map_points_keeps [wm_shims]: "keeps aret_MapWindowPoints"
  by (auto simp: aret_MapWindowPoints_def Let_def case_prod_beta wm_ok_frame intro!: keepsI fold_keep)

lemma long_keeps [wm_shims]:
  "keeps aret_GetWindowLongA" "keeps aret_GetWindowLongW" "keeps aret_SetWindowLongA" "keeps aret_SetWindowLongW"
  by (auto simp: aret_GetWindowLongA_def aret_GetWindowLongW_def aret_SetWindowLongA_def aret_SetWindowLongW_def Let_def
      intro!: keepsI with_win_ok wm_ok_upd_win)

lemma upd_bar_ok [wm_keep]: "wm_ok s \<Longrightarrow> bar_of esp s = Some (i, b) \<Longrightarrow> wm_ok (upd_bar i b f s)"
proof -
  assume s: "wm_ok s" and b: "bar_of esp s = Some (i, b)"
  then have "i < U32_MAX_WIN" by (auto simp: bar_of_def split: option.splits)
  moreover have "b < 3" using b by (auto simp: bar_of_def u32_sb_idx_def word_le_nat_alt split: option.splits if_splits)
  ultimately show ?thesis using s by (auto simp: upd_bar_def intro!: wm_ok_upd_win)
qed

lemma scroll_keeps [wm_shims]:
  "keeps aret_SetScrollRange" "keeps aret_GetScrollRange" "keeps aret_SetScrollPos" "keeps aret_GetScrollPos" "keeps aret_SetScrollInfo"
  "keeps aret_GetScrollInfo" "keeps aret_ShowScrollBar" "keeps aret_ScrollWindowEx" "keeps aret_ScrollWindow"
  by (auto simp: aret_SetScrollRange_def aret_GetScrollRange_def aret_SetScrollPos_def aret_GetScrollPos_def aret_SetScrollInfo_def
      aret_GetScrollInfo_def aret_ShowScrollBar_def aret_ScrollWindowEx_def aret_ScrollWindow_def Let_def wm_ok_frame put_rect_ok upd_bar_ok
      split: option.split intro!: keepsI with_win_ok wm_ok_upd_win)

lemma lookup_keeps [wm_shims]:
  "keeps aret_GetWindow" "keeps aret_GetTopWindow" "keeps aret_GetDesktopWindow" "keeps aret_IsChild" "keeps aret_ChildWindowFromPoint"
  "keeps aret_WindowFromPoint" "keeps aret_FindWindowA" "keeps aret_FindWindowW" "keeps aret_GetClassNameA" "keeps aret_GetClassNameW"
  by (auto simp: aret_GetWindow_def aret_GetTopWindow_def aret_GetDesktopWindow_def aret_IsChild_def aret_ChildWindowFromPoint_def
      aret_WindowFromPoint_def aret_FindWindowA_def aret_FindWindowW_def aret_GetClassNameA_def aret_GetClassNameW_def Let_def wm_ok_frame
      split: option.split intro!: keepsI with_win_ok)

subsection \<open>Dialog items, properties, registered messages and the rest\<close>

lemma dlg_ctrl_less [dest]: "u32_dlg_ctrl s d c = Some i \<Longrightarrow> i < U32_MAX_WIN"
  by (auto simp: u32_dlg_ctrl_def dlg_find_def split: option.splits)

lemma dlg_item_keeps [wm_shims]:
  "keeps aret_GetDlgItem" "keeps aret_CheckDlgButton" "keeps aret_IsDlgButtonChecked" "keeps aret_SetDlgItemTextA" "keeps aret_SetDlgItemTextW"
  "keeps aret_GetDlgItemTextA" "keeps aret_GetDlgItemTextW" "keeps aret_GetNextDlgTabItem" "keeps aret_GetNextDlgGroupItem" "keeps aret_MapDialogRect"
  by (auto simp: aret_GetDlgItem_def aret_CheckDlgButton_def aret_IsDlgButtonChecked_def aret_SetDlgItemTextA_def aret_SetDlgItemTextW_def
      aret_GetDlgItemTextA_def aret_GetDlgItemTextW_def aret_GetNextDlgTabItem_def aret_GetNextDlgGroupItem_def aret_MapDialogRect_def Let_def
      wm_ok_frame split: option.split intro!: keepsI with_win_ok wm_ok_upd_win)

lemma dialog_destroy_ok [wm_keep]: "wm_ok s \<Longrightarrow> wm_ok (u32_dialog_destroy hDlg s)"
proof -
  assume "wm_ok s"
  moreover have "win_ok w" if "\<forall>w \<in> set ws. win_ok w" "(i, w) \<in> set (enumerate 0 ws)" for i w ws
    using that by (auto simp: in_set_enumerate_eq)
  ultimately show ?thesis by (auto simp: u32_dialog_destroy_def wm_ok_def q_ok_def)
qed

lemma wm_ok_rwm: "wm_ok s \<Longrightarrow> i < U32_MAX_RWM \<Longrightarrow> length (rwm_name r) \<le> 127 \<Longrightarrow> wm_ok (s\<lparr>g_u32_rwm := arr_set (g_u32_rwm s) i r\<rparr>)"
  using ball_list_update [of "g_u32_rwm s" "\<lambda>r. length (rwm_name r) \<le> 127" r i] by (simp add: wm_ok_def q_ok_def)

lemma wm_ok_prop: "wm_ok s \<Longrightarrow> i < U32_MAX_PROP \<Longrightarrow> length (pr_key p) \<le> 63 \<Longrightarrow> wm_ok (s\<lparr>g_u32_prop := arr_set (g_u32_prop s) i p\<rparr>)"
  using ball_list_update [of "g_u32_prop s" "\<lambda>p. length (pr_key p) \<le> 63" p i] by (simp add: wm_ok_def q_ok_def)

lemma reg_msg_ok: "wm_ok s \<Longrightarrow> wm_ok (snd (u32_reg_win_msg n s))"
  by (auto simp: u32_reg_win_msg_def wm_ok_fields split: option.split intro!: wm_ok_rwm)

lemma reg_msg_keeps [wm_shims]:
  "keeps aret_RegisterWindowMessageA" "keeps aret_RegisterWindowMessageW" "keeps aret_RegisterClipboardFormatA" "keeps aret_RegisterClipboardFormatW"
  by (auto simp: aret_RegisterWindowMessageA_def aret_RegisterWindowMessageW_def aret_RegisterClipboardFormatA_def
      aret_RegisterClipboardFormatW_def reg_msg_ok intro!: keepsI)

lemma prop_find_less [dest]: "u32_prop_find P h k = Some i \<Longrightarrow> i < U32_MAX_PROP" "prop_slot P h k = Some i \<Longrightarrow> i < U32_MAX_PROP"
  by (auto simp: u32_prop_find_def prop_slot_def split: option.splits)

lemma set_prop_ok: "wm_ok s \<Longrightarrow> wm_ok (snd (u32_set_prop h k v s))"
  by (auto simp: u32_set_prop_def split: option.split intro!: wm_ok_prop)

lemma rm_prop_ok: "wm_ok s \<Longrightarrow> wm_ok (snd (u32_rm_prop h k s))"
proof -
  assume s: "wm_ok s"
  have "wm_ok (s\<lparr>g_u32_prop := arr_set (g_u32_prop s) i ((g_u32_prop s ! i)\<lparr>pr_used := False\<rparr>)\<rparr>)" if "i < U32_MAX_PROP" for i
    using s that by (intro wm_ok_prop) (simp_all add: wm_ok_def)
  then show ?thesis using s by (auto simp: u32_rm_prop_def split: option.split)
qed

lemma prop_keeps [wm_shims]:
  "keeps aret_SetPropA" "keeps aret_SetPropW" "keeps aret_GetPropA" "keeps aret_GetPropW" "keeps aret_RemovePropA" "keeps aret_RemovePropW"
  by (auto simp: aret_SetPropA_def aret_SetPropW_def aret_GetPropA_def aret_GetPropW_def aret_RemovePropA_def aret_RemovePropW_def
      set_prop_ok rm_prop_ok u32_get_prop_def intro!: keepsI)

lemma hook_keeps [wm_shims]:
  "keeps aret_SetWindowsHookExA" "keeps aret_SetWindowsHookExW" "keeps aret_UnhookWindowsHookEx" "keeps aret_CallNextHookEx"
  by (auto simp: aret_SetWindowsHookExA_def aret_SetWindowsHookExW_def aret_UnhookWindowsHookEx_def aret_CallNextHookEx_def u32_hook_set_def
      Let_def wm_ok_def q_ok_def intro!: keepsI)

lemma clip_store: "clip_find C f = Some i \<Longrightarrow> length (arr_set C i v) = length C"
  by (auto simp: clip_find_def arr_set_length)

lemma clipboard_keeps [wm_shims]:
  "keeps aret_OpenClipboard" "keeps aret_CloseClipboard" "keeps aret_EmptyClipboard" "keeps aret_SetClipboardData"
  "keeps aret_GetClipboardData" "keeps aret_IsClipboardFormatAvailable"
  by (auto simp: aret_OpenClipboard_def aret_CloseClipboard_def aret_EmptyClipboard_def aret_SetClipboardData_def aret_GetClipboardData_def
      aret_IsClipboardFormatAvailable_def Let_def wm_ok_def q_ok_def clip_store split: option.split intro!: keepsI)

lemma input_keeps [wm_shims]:
  "keeps aret_SetCapture" "keeps aret_GetCapture" "keeps aret_ReleaseCapture" "keeps aret_GetCursorPos" "keeps aret_GetFocus"
  "keeps aret_SetActiveWindow" "keeps aret_GetActiveWindow" "keeps aret_SetForegroundWindow" "keeps aret_GetForegroundWindow"
  "keeps aret_BringWindowToTop" "keeps aret_SetCaretPos" "keeps aret_GetCaretPos" "keeps aret_ShowCursor" "keeps aret_SetCursor"
  "keeps aret_GetCursor" "keeps aret_SetWindowRgn"
  by (auto simp: aret_SetCapture_def aret_GetCapture_def aret_ReleaseCapture_def aret_GetCursorPos_def aret_GetFocus_def
      aret_SetActiveWindow_def aret_GetActiveWindow_def aret_SetForegroundWindow_def aret_GetForegroundWindow_def aret_BringWindowToTop_def
      aret_SetCaretPos_def aret_GetCaretPos_def aret_ShowCursor_def aret_SetCursor_def aret_GetCursor_def aret_SetWindowRgn_def Let_def
      wm_ok_frame wm_ok_fields split: option.split intro!: keepsI with_win_ok wm_ok_upd_win)

subsection \<open>Queue, timers and paint state\<close>

lemma wm_ok_queue: "wm_ok s \<Longrightarrow> length q = U32_MAX_MSG \<Longrightarrow> t < U32_MAX_MSG \<Longrightarrow> wm_ok (s\<lparr>g_u32_q := q, g_u32_qt := t\<rparr>)"
  and wm_ok_head: "wm_ok s \<Longrightarrow> t < U32_MAX_MSG \<Longrightarrow> wm_ok (s\<lparr>g_u32_qh := t\<rparr>)"
  and wm_ok_timer_table: "wm_ok s \<Longrightarrow> length T = U32_MAX_TIMER \<Longrightarrow> wm_ok (s\<lparr>g_u32_timer := T\<rparr>)"
  and wm_ok_timer: "wm_ok s \<Longrightarrow> length T = U32_MAX_TIMER \<Longrightarrow> i < U32_MAX_TIMER \<Longrightarrow> wm_ok (s\<lparr>g_u32_timer := arr_set T i t'\<rparr>)"
  and wm_ok_timers [simp]: "wm_ok s \<Longrightarrow> length (g_u32_timer s) = U32_MAX_TIMER"
  by (simp_all add: wm_ok_def q_ok_def)

lemma max_msg [simp]: "0 < U32_MAX_MSG" "U32_MAX_MSG \<noteq> 0"
  by (simp_all add: U32_MAX_MSG_def)

lemma q_push_wm_ok [wm_keep]: "wm_ok s \<Longrightarrow> wm_ok (snd (u32_q_push h a b c d s))"
  by (auto simp: u32_q_push_def mono_ns_def Let_def wm_ok_def q_ok_def)

lemma q_copy_wm_ok [wm_keep]: "wm_ok s \<Longrightarrow> wm_ok (u32_q_peek_copy p r s)"
  by (auto simp: u32_q_peek_copy_def Let_def wm_ok_def q_ok_def)

lemma fire_timer_wm_ok: "wm_ok s \<Longrightarrow> wm_ok (fire_timer h now i s)"
  using q_push_wm_ok [of s h] by (auto simp: fire_timer_def Let_def intro!: wm_ok_timer_table)

lemma timer_slot_less [dest]: "timer_slot T hwnd tid = Some k \<Longrightarrow> k < U32_MAX_TIMER"
  by (auto simp: timer_slot_def split: option.splits)

lemma pump_wm_ok [wm_keep]: "wm_ok s \<Longrightarrow> wm_ok (u32_pump_timers h s)"
  by (auto simp: u32_pump_timers_def mono_ns_def wm_ok_fields intro!: fold_keep fire_timer_wm_ok)

lemma fill_wm_ok [wm_keep]: "wm_ok (u32_fill_quit h p s) \<longleftrightarrow> wm_ok s" "wm_ok (u32_fill_paint h p i s) \<longleftrightarrow> wm_ok s"
  by (simp_all add: u32_fill_quit_def u32_fill_paint_def mono_ns_def wm_keep)

lemma mark_paint_ok [simp]: "win_ok w \<Longrightarrow> win_ok (mark_paint e w)"
  by (simp add: mark_paint_def)

lemma queue_keeps [wm_shims]:
  "keeps (aret_PeekMessageW h)" "keeps (aret_PeekMessageA h)" "keeps (aret_PostMessageW h)" "keeps (aret_PostMessageA h)"
  "keeps aret_PostQuitMessage" "keeps (aret_MsgWaitForMultipleObjectsEx h)" "keeps (aret_MsgWaitForMultipleObjects h)"
  "keeps (aret_SetTimer h)" "keeps (aret_SetSystemTimer h)" "keeps aret_KillTimer" "keeps aret_TranslateMessage"
  by (auto simp: aret_PeekMessageW_def aret_PeekMessageA_def aret_PostMessageW_def aret_PostMessageA_def aret_PostQuitMessage_def
      aret_MsgWaitForMultipleObjectsEx_def aret_MsgWaitForMultipleObjects_def msg_wait_def aret_SetTimer_def aret_SetSystemTimer_def
      aret_KillTimer_def aret_TranslateMessage_def mono_ns_def Let_def wm_ok_fields fill_wm_ok
      split: option.split intro!: keepsI q_push_wm_ok q_copy_wm_ok pump_wm_ok wm_ok_timer)

lemma get_message_wm_ok: "wm_ok s \<Longrightarrow> get_message n h p s = Some (r, s') \<Longrightarrow> wm_ok s'"
  by (induction n arbitrary: s) (auto simp: Let_def fill_wm_ok split: if_splits option.splits intro!: q_copy_wm_ok pump_wm_ok)

lemma invalidate_keeps [wm_shims]: "keeps aret_InvalidateRect" "keeps aret_InvalidateRgn" "keeps aret_ValidateRect" "keeps aret_ValidateRgn"
  by (auto simp: aret_InvalidateRect_def aret_InvalidateRgn_def aret_ValidateRect_def aret_ValidateRgn_def u32_win_paints_def Let_def
      split: option.split intro!: keepsI wm_ok_upd_win fold_keep)

subsection \<open>What calls back into the guest\<close>

text \<open>
  The law for what is outside: the guest code behind a window procedure reaches the window manager
  through its entry points only, so it keeps the invariant as well; the text renderer draws.
\<close>

locale guest_host =
  fixes h :: host
  assumes guest_call: "wm_ok s \<Longrightarrow> wm_ok (snd (h_call h p frame s))"
    and guest_text: "wm_ok s \<Longrightarrow> wm_ok (h_text h hdc cps q fmt s)"
    and guest_units: "wm_ok s \<Longrightarrow> wm_ok (snd (h_units h hf pt wt it face s))"
begin

lemma wndproc_ok: "wm_ok s \<Longrightarrow> wm_ok (snd (u32_call_wndproc h esp p hwnd msg wp lp s))"
  by (simp add: u32_call_wndproc_def Let_def guest_call wm_ok_frame)

lemma text_ok: "wm_ok s \<Longrightarrow> wm_ok (u32_ctrl_text h hdc d wi q fmt ix s)" "wm_ok s \<Longrightarrow> wm_ok (u32_paint_text h hdc d f str q fmt ix s)"
  by (simp_all add: u32_ctrl_text_def u32_paint_text_def Let_def wm_ok_frame guest_text)

lemma surf_ok: "wm_ok s \<Longrightarrow> (\<And>b d. wm_ok (f b d)) \<Longrightarrow> wm_ok (with_surf hdc s f)"
  by (simp add: with_surf_def split: option.split)

lemma paint_ok:
  assumes "wm_ok s"
  shows "wm_ok (u32_button_paint h hdc wi s)" "wm_ok (u32_static_paint h hdc wi s)" "wm_ok (u32_edit_paint h hdc wi inset s)"
    "wm_ok (u32_listbox_paint h hdc wi s)" "wm_ok (u32_combobox_paint h hdc wi s)"
  using assms
  by (auto simp: u32_button_paint_def u32_static_paint_def u32_edit_paint_def u32_listbox_paint_def u32_combobox_paint_def
      u32_ctrl_fill_def list_row_def Let_def wm_ok_frame intro!: surf_ok text_ok fold_keep)

lemma print_ok: "wm_ok s \<Longrightarrow> wm_ok (print_client h hdc i s)"
  by (simp add: print_client_def Let_def paint_ok)

lemma click_ok: "wm_ok s \<Longrightarrow> i < U32_MAX_WIN \<Longrightarrow> wm_ok (u32_ctrl_click h esp i s)"
proof -
  assume "wm_ok s" "i < U32_MAX_WIN"
  then have "wm_ok (auto_check i s)" by (auto simp: auto_check_def Let_def intro!: wm_ok_upd_win wm_ok_map_win)
  then show ?thesis by (simp add: u32_ctrl_click_def Let_def wndproc_ok)
qed

lemma items_ok: "wm_ok s \<Longrightarrow> i < U32_MAX_WIN \<Longrightarrow> wm_ok (snd (item_msg h i op wp lp s))"
  by (auto simp: item_msg_def u32_items_insert_def u32_items_free_def Let_def case_prod_beta wm_ok_frame
      split: item_op.split option.split intro!: wm_ok_upd_win)

lemma button_ok: "wm_ok s \<Longrightarrow> i < U32_MAX_WIN \<Longrightarrow> button_msg h esp i msg wp s = Some r \<Longrightarrow> wm_ok (snd r)"
  by (auto simp: button_msg_def click_ok split: if_splits intro!: wm_ok_upd_win)

lemma control_ok: "wm_ok s \<Longrightarrow> u32_control_proc h esp hwnd msg wp lp s = Some r \<Longrightarrow> wm_ok (snd r)"
  by (auto simp: u32_control_proc_def Let_def print_ok items_ok dest: button_ok split: if_splits option.splits intro!: wm_ok_upd_win)

lemma deftext_ok: "wm_ok s \<Longrightarrow> u32_defproc_text hwnd msg wp lp wide s = Some r \<Longrightarrow> wm_ok (snd r)"
  by (auto simp: u32_defproc_text_def wm_ok_frame split: if_splits intro!: with_win_ok wm_ok_upd_win)

lemma common_ok: "wm_ok s \<Longrightarrow> u32_defproc_common h esp hwnd msg wp s = Some r \<Longrightarrow> wm_ok (snd r)"
  by (auto simp: u32_defproc_common_def Let_def on_gdi_ok wndproc_ok split: if_splits intro!: with_win_ok wm_ok_upd_win)

lemma or_zero_ok: "wm_ok s \<Longrightarrow> (\<And>v. r = Some v \<Longrightarrow> wm_ok (snd v)) \<Longrightarrow> wm_ok (snd (or_zero r s))"
  by (cases r) (simp_all add: or_zero_def)

lemma def_proc_ok: "wm_ok s \<Longrightarrow> wm_ok (snd (def_proc wide h esp hwnd msg wp lp s))"
  by (auto simp: def_proc_def split: option.split intro!: or_zero_ok dest: control_ok common_ok deftext_ok)

lemma send_ok: "wm_ok s \<Longrightarrow> wm_ok (snd (send_to wide h esp hwnd msg wp lp s))"
  by (auto simp: send_to_def Let_def u32_sys_control_msg_def wndproc_ok split: option.splits intro!: or_zero_ok dest: control_ok deftext_ok)

lemma hittest_ok: "wm_ok s \<Longrightarrow> wm_ok (u32_dialog_hittest_click h esp di x y s)"
  by (auto simp: u32_dialog_hittest_click_def Let_def wm_ok_fields click_ok split: option.split)

lemma proc_keeps:
  "keeps (aret_DefWindowProcW h)" "keeps (aret_DefWindowProcA h)" "keeps (aret_CallWindowProcA h)" "keeps (aret_CallWindowProcW h)"
  "keeps (aret_SendMessageW h)" "keeps (aret_SendMessageA h)" "keeps (aret_SendDlgItemMessageA h)" "keeps (aret_SendDlgItemMessageW h)"
  by (auto simp: aret_DefWindowProcW_def aret_DefWindowProcA_def aret_CallWindowProcA_def aret_CallWindowProcW_def u32_call_window_proc_def
      aret_SendMessageW_def aret_SendMessageA_def u32_send_message_def aret_SendDlgItemMessageA_def aret_SendDlgItemMessageW_def
      send_dlg_item_def Let_def def_proc_ok send_ok wndproc_ok intro!: keepsI)

lemma dispatch_keeps: "keeps (aret_DispatchMessageW h)" "keeps (aret_DispatchMessageA h)"
proof -
  have "wm_ok (snd (aret_DispatchMessageW h esp s))" if "wm_ok s" for esp s
    using that wndproc_ok [OF that, of esp] by (auto simp: aret_DispatchMessageW_def Let_def mono_ns_def case_prod_beta wm_ok_fields
        split: option.split intro!: hittest_ok wndproc_ok)
  then show "keeps (aret_DispatchMessageW h)" "keeps (aret_DispatchMessageA h)" by (simp_all add: keeps_def aret_DispatchMessageA_def)
qed

end

lemma class_name_len: "length (u32_class_name C m r wide 64) \<le> 63"
  by (simp add: u32_class_name_def Let_def)

lemma or_zero_text: "wm_ok s \<Longrightarrow> wm_ok (snd (or_zero (u32_defproc_text hwnd msg wp lp wide s) s))"
  by (auto simp: or_zero_def u32_defproc_text_def wm_ok_frame split: option.split if_splits intro!: with_win_ok wm_ok_upd_win)

lemma dec_digits_len: "n < 10 ^ k \<Longrightarrow> 0 < k \<Longrightarrow> length (dec_digits n) \<le> k"
proof (induction n arbitrary: k rule: dec_digits.induct)
  case (1 n)
  show ?case
  proof (cases "n < 10")
    case False
    then obtain j where k: "k = Suc j" "0 < j" using 1 by (cases k; cases "k - 1") auto
    then have "length (dec_digits (n div 10)) \<le> j" using False 1 by (intro 1) (auto simp: less_mult_imp_div_less)
    then show ?thesis using k False by (subst dec_digits.simps) simp
  qed (use 1 in \<open>subst dec_digits.simps, simp\<close>)
qed

lemma int_text_len: "length (dec_digits (unat (v :: u32))) \<le> 255" "length (print_int (sint (v :: u32))) \<le> 255"
proof -
  have u: "length (dec_digits n) \<le> 10" if "n < 2 ^ 32" for n using that by (intro dec_digits_len) auto
  have "unat v < 2 ^ 32" using unsigned_less [of v, where 'a = nat] by simp
  with u show "length (dec_digits (unat v)) \<le> 255" using order_trans [of _ "10 :: nat" 255] by force
  have "- (2 ^ 31) \<le> sint v" "sint v < 2 ^ 31" using sint_ge [of v] sint_lt [of v] by auto
  then have "length (dec_digits (nat (- sint v))) \<le> 10" "length (dec_digits (nat (sint v))) \<le> 10" by (auto intro!: u)
  then show "length (print_int (sint v)) \<le> 255" by (simp add: print_int_def)
qed

lemma text_shims [wm_shims]: "keeps aret_InternalGetWindowText" "keeps aret_EndPaint" "keeps aret_EndDialog" "keeps aret_SetDlgItemInt" "keeps aret_GetDlgItemInt"
  by (auto simp: aret_InternalGetWindowText_def aret_EndPaint_def aret_EndDialog_def aret_SetDlgItemInt_def aret_GetDlgItemInt_def Let_def WI_def
      case_prod_beta int_text_len wm_ok_frame wm_ok_fields split: option.split intro!: keepsI or_zero_text with_win_ok wm_ok_upd_win)

context guest_host
begin

lemma cbt_ok: "wm_ok s \<Longrightarrow> wm_ok (u32_fire_cbt_createwnd h esp i hinst hmenu c n s)"
  by (simp add: u32_fire_cbt_createwnd_def Let_def wndproc_ok wm_ok_frame)

lemma create_dispatch_ok: "wm_ok s \<Longrightarrow> wm_ok (snd (u32_create_dispatch h esp i hinst hmenu s))"
  by (simp add: u32_create_dispatch_def Let_def case_prod_beta wndproc_ok wm_ok_frame)

lemma create_keeps: "keeps (aret_CreateWindowExW h)" "keeps (aret_CreateWindowExA h)"
proof -
  have "wm_ok (snd (create_window_ex wide h esp s))" if "wm_ok s" for wide esp s
    using that by (auto simp: create_window_ex_def Let_def case_prod_beta class_name_len window_create_ok
        intro!: wm_ok_upd_win create_dispatch_ok cbt_ok created_index [simplified])
  then show "keeps (aret_CreateWindowExW h)" "keeps (aret_CreateWindowExA h)"
    by (simp_all add: keeps_def aret_CreateWindowExW_def aret_CreateWindowExA_def)
qed

lemma text_keeps:
  "keeps (aret_SetWindowTextA h)" "keeps (aret_SetWindowTextW h)" "keeps (aret_GetWindowTextA h)" "keeps (aret_GetWindowTextW h)"
  "keeps (aret_GetWindowTextLengthA h)" "keeps (aret_GetWindowTextLengthW h)"
  by (auto simp: aret_SetWindowTextA_def aret_SetWindowTextW_def aret_GetWindowTextA_def aret_GetWindowTextW_def aret_GetWindowTextLengthA_def
      aret_GetWindowTextLengthW_def Let_def wndproc_ok intro!: keepsI or_zero_text)

lemma paint_now_ok: "wm_ok s \<Longrightarrow> wm_ok (paint_now h esp i s)"
  by (simp add: paint_now_def Let_def wndproc_ok)

lemma update_keeps: "keeps (aret_UpdateWindow h)" "keeps (aret_RedrawWindow h)"
  by (auto simp: aret_UpdateWindow_def aret_RedrawWindow_def Let_def intro!: keepsI with_win_ok paint_now_ok wm_ok_upd_win)

lemma begin_paint_keeps: "keeps (aret_BeginPaint h)"
proof (rule keepsI)
  fix esp s assume "wm_ok s"
  let ?r = "on_gdi (\<lambda>g. case gdi_alloc GDIT_DC g of (i, g) \<Rightarrow> if i = 0 then (0, g) else (gdi_handle i, u32_dc_defaults i g)) s"
  have "wm_ok (snd ?r)" using \<open>wm_ok s\<close> by (simp only: on_gdi_ok)
  then show "wm_ok (snd (aret_BeginPaint h esp s))"
    unfolding aret_BeginPaint_def Let_def case_prod_beta [of _ ?r]
    by (auto simp: wm_ok_frame split: option.split intro!: wndproc_ok wm_ok_upd_win)
qed

lemma enum_children_ok: "wm_ok s \<Longrightarrow> wm_ok (enum_children ks h esp par p lp s)"
  by (induction ks arbitrary: s) (auto simp: Let_def case_prod_beta wm_ok_frame guest_call)

lemma enum_keeps: "keeps (aret_EnumChildWindows h)"
  by (auto simp: aret_EnumChildWindows_def enum_children_ok intro!: keepsI)

lemma set_focus_ok: "wm_ok s \<Longrightarrow> wm_ok (snd (u32_set_focus h esp neu s))"
  by (auto simp: u32_set_focus_def Let_def wm_ok_fields intro!: wndproc_ok)

lemma focus_next_ok: "wm_ok s \<Longrightarrow> wm_ok (focus_next h esp d prev tab s)"
  by (simp add: focus_next_def Let_def set_focus_ok)

lemma dlg_command_ok: "wm_ok s \<Longrightarrow> wm_ok (dlg_command h esp d wp lp s)"
  by (simp add: dlg_command_def Let_def wndproc_ok)

lemma focus_keeps: "keeps (aret_SetFocus h)" "keeps (aret_IsDialogMessageA h)" "keeps (aret_IsDialogMessageW h)"
  by (auto simp: aret_SetFocus_def aret_IsDialogMessageA_def aret_IsDialogMessageW_def u32_is_dialog_message_def Let_def case_prod_beta
      set_focus_ok focus_next_ok dlg_command_ok intro!: keepsI)

lemma dlg_items_ok: "wm_ok s \<Longrightarrow> wm_ok (dlg_items n tpl ex d bx by' f p s)"
proof (induction n arbitrary: p s)
  case (Suc n)
  show ?case unfolding dlg_items.simps case_prod_beta
    by (rule Suc.IH) (use Suc.prems in \<open>auto intro!: wm_ok_upd_win new_control_ok created_index [simplified]\<close>)
qed simp

lemma dialog_create_ok: "wm_ok s \<Longrightarrow> wm_ok (snd (u32_dialog_create h esp tpl proc par s))"
  by (auto simp: u32_dialog_create_def Let_def case_prod_beta intro!: dlg_items_ok wm_ok_upd_win cbt_ok window_create_ok guest_units created_index [simplified])

lemma modal_step_ok: "wm_ok s \<Longrightarrow> wm_ok (modal_step h esp d s)"
  by (auto simp: modal_step_def Let_def intro!: hittest_ok wndproc_ok q_copy_wm_ok pump_wm_ok)

lemma modal_loop_ok: "wm_ok s \<Longrightarrow> modal_loop n h esp d s = Some s' \<Longrightarrow> wm_ok s'"
proof (induction n arbitrary: s)
  case (Suc n)
  from Suc.prems Suc.IH [OF modal_step_ok] show ?case by (auto split: if_splits)
qed (auto split: if_splits)

lemma default_focus_ok: "wm_ok s \<Longrightarrow> wm_ok (u32_dialog_default_focus h esp d r s)"
  by (simp add: u32_dialog_default_focus_def Let_def set_focus_ok)

lemma modeless_ok: "wm_ok s \<Longrightarrow> wm_ok (snd (u32_dialog_modeless h esp tpl proc par param s))"
  by (auto simp: u32_dialog_modeless_def case_prod_beta intro!: default_focus_ok wndproc_ok dialog_create_ok)

lemma modeless_keeps:
  "keeps (aret_CreateDialogParamA im h)" "keeps (aret_CreateDialogParamW im h)" "keeps (aret_CreateDialogIndirectParamA h)"
  "keeps (aret_CreateDialogIndirectParamW h)"
  by (auto simp: aret_CreateDialogParamA_def aret_CreateDialogParamW_def aret_CreateDialogIndirectParamA_def aret_CreateDialogIndirectParamW_def
      modeless_ok intro!: keepsI)

lemma modal_ok:
  assumes "wm_ok s" "u32_dialog_modal n h esp tpl proc par param s = Some (r, s')"
  shows "wm_ok s'"
proof -
  let ?c = "u32_dialog_create h esp tpl proc par s"
  let ?i = "u32_call_wndproc h esp proc (fst ?c) U32_WM_INITDIALOG 0 param
    (snd ?c\<lparr>g_u32_modal_hwnd := fst ?c, g_u32_modal_ended := False, g_u32_modal_result := 0\<rparr>)"
  have "wm_ok (snd ?c)" using assms(1) by (rule dialog_create_ok)
  moreover from this have "wm_ok (snd ?i)" by (intro wndproc_ok) (simp add: wm_ok_fields)
  moreover from this have "wm_ok (if g_u32_modal_ended (snd ?i) then snd ?i else u32_dialog_default_focus h esp (fst ?c) (fst ?i) (snd ?i))"
    by (simp add: default_focus_ok)
  note modal_loop_ok [OF this, of n esp "fst ?c"]
  ultimately show ?thesis using assms
    by (auto simp: u32_dialog_modal_def Let_def case_prod_beta wm_ok_fields split: if_splits option.splits intro!: dialog_destroy_ok)
qed

lemma enum_langs_ok: "wm_ok s \<Longrightarrow> enum_langs ks h esp e args s = (r, s') \<Longrightarrow> wm_ok s'"
proof (induction ks arbitrary: s)
  case (Cons k ks)
  then show ?case using guest_call [of "s\<lparr>mem := m\<rparr>" for m]
    by (auto simp: Let_def case_prod_beta wm_ok_frame split: if_splits)
qed simp

lemma enum_res_ok: "wm_ok s \<Longrightarrow> u32_enum_res_langs wide im h esp s = Some (r, s') \<Longrightarrow> wm_ok s'"
  by (auto simp: u32_enum_res_langs_def Let_def wm_ok_frame split: option.splits if_splits dest: enum_langs_ok)

lemmas host_keeps = proc_keeps dispatch_keeps create_keeps text_keeps update_keeps begin_paint_keeps enum_keeps focus_keeps modeless_keeps

end

text \<open>
  Guest procedures that hand everything to \<^verbatim>\<open>DefWindowProc\<close>, nested up to \<open>n\<close> deep, on a renderer that
  draws nothing: a host that obeys the law.
\<close>

primrec def_host :: "nat \<Rightarrow> host" where
  "def_host 0 = \<lparr>h_call = \<lambda>p frame s. (0, s), h_malloc = \<lambda>n s. 0x00500000, h_mono = \<lambda>k. of_nat k * 1000000,
     h_text = \<lambda>hdc cps q fmt s. s, h_units = \<lambda>hf pt wt it face s. ((6, 13, 0), s)\<rparr>"
| "def_host (Suc n) = (def_host n)\<lparr>h_call := \<lambda>p frame s. aret_DefWindowProcW (def_host n) (frame + 4) s\<rparr>"

lemma def_host_guest: "guest_host (def_host n)"
proof (induction n)
  case 0 show ?case by (simp add: guest_host_def)
next
  case (Suc n)
  with guest_host.proc_keeps(1) [OF Suc] show ?case by (simp add: guest_host_def keepsD)
qed

interpretation dh: guest_host "def_host n" for n
  by (rule def_host_guest)

section \<open>Every reachable state is well-formed\<close>

definition wm_calls :: "(u32 \<Rightarrow> wm \<Rightarrow> u32 \<times> wm) list" where
  "wm_calls = [aret_RegisterClassW, aret_RegisterClassA, aret_RegisterClassExW, aret_RegisterClassExA, aret_GetClassInfoA,
     aret_GetClassInfoW, aret_GetClassInfoExA, aret_GetClassInfoExW, aret_GetClassLongA, aret_GetClassLongW, aret_UnregisterClassA,
     aret_UnregisterClassW, aret_DestroyWindow, aret_GetWindowRect, aret_GetClientRect, aret_SetWindowPos, aret_MoveWindow,
     aret_BeginDeferWindowPos, aret_DeferWindowPos, aret_EndDeferWindowPos, aret_ShowWindow, aret_EnableWindow, aret_GetParent,
     aret_SetParent, aret_IsWindow, aret_IsWindowVisible, aret_IsWindowEnabled, aret_IsWindowUnicode, aret_GetDlgCtrlID,
     aret_ClientToScreen, aret_ScreenToClient, aret_MapWindowPoints, aret_GetWindowLongA, aret_GetWindowLongW, aret_SetWindowLongA,
     aret_SetWindowLongW, aret_SetScrollRange, aret_GetScrollRange, aret_SetScrollPos, aret_GetScrollPos, aret_SetScrollInfo,
     aret_GetScrollInfo, aret_ShowScrollBar, aret_ScrollWindowEx, aret_ScrollWindow, aret_GetWindow, aret_GetTopWindow,
     aret_GetDesktopWindow, aret_IsChild, aret_ChildWindowFromPoint, aret_WindowFromPoint, aret_FindWindowA, aret_FindWindowW,
     aret_GetClassNameA, aret_GetClassNameW, aret_GetDlgItem, aret_CheckDlgButton, aret_IsDlgButtonChecked, aret_SetDlgItemTextA,
     aret_SetDlgItemTextW, aret_GetDlgItemTextA, aret_GetDlgItemTextW, aret_GetNextDlgTabItem, aret_GetNextDlgGroupItem,
     aret_MapDialogRect, aret_RegisterWindowMessageA, aret_RegisterWindowMessageW, aret_RegisterClipboardFormatA,
     aret_RegisterClipboardFormatW, aret_SetPropA, aret_SetPropW, aret_GetPropA, aret_GetPropW, aret_RemovePropA, aret_RemovePropW,
     aret_SetWindowsHookExA, aret_SetWindowsHookExW, aret_UnhookWindowsHookEx, aret_CallNextHookEx, aret_OpenClipboard,
     aret_CloseClipboard, aret_EmptyClipboard, aret_SetClipboardData, aret_GetClipboardData, aret_IsClipboardFormatAvailable,
     aret_SetCapture, aret_GetCapture, aret_ReleaseCapture, aret_GetCursorPos, aret_GetFocus, aret_SetActiveWindow,
     aret_GetActiveWindow, aret_SetForegroundWindow, aret_GetForegroundWindow, aret_BringWindowToTop, aret_SetCaretPos,
     aret_GetCaretPos, aret_ShowCursor, aret_SetCursor, aret_GetCursor, aret_SetWindowRgn, aret_PostQuitMessage, aret_KillTimer,
     aret_TranslateMessage, aret_InvalidateRect, aret_InvalidateRgn, aret_ValidateRect, aret_ValidateRgn, aret_InternalGetWindowText,
     aret_EndPaint, aret_EndDialog, aret_SetDlgItemInt, aret_GetDlgItemInt]"

definition guest_calls :: "image \<Rightarrow> host \<Rightarrow> (u32 \<Rightarrow> wm \<Rightarrow> u32 \<times> wm) list" where
  "guest_calls im h = [aret_PeekMessageW h, aret_PeekMessageA h, aret_PostMessageW h, aret_PostMessageA h,
     aret_MsgWaitForMultipleObjectsEx h, aret_MsgWaitForMultipleObjects h, aret_SetTimer h, aret_SetSystemTimer h,
     aret_DefWindowProcW h, aret_DefWindowProcA h, aret_CallWindowProcA h, aret_CallWindowProcW h, aret_SendMessageW h,
     aret_SendMessageA h, aret_SendDlgItemMessageA h, aret_SendDlgItemMessageW h, aret_DispatchMessageW h, aret_DispatchMessageA h,
     aret_CreateWindowExW h, aret_CreateWindowExA h, aret_SetWindowTextA h, aret_SetWindowTextW h, aret_GetWindowTextA h,
     aret_GetWindowTextW h, aret_GetWindowTextLengthA h, aret_GetWindowTextLengthW h, aret_UpdateWindow h, aret_RedrawWindow h,
     aret_BeginPaint h, aret_EnumChildWindows h, aret_SetFocus h, aret_IsDialogMessageA h, aret_IsDialogMessageW h,
     aret_CreateDialogParamA im h, aret_CreateDialogParamW im h, aret_CreateDialogIndirectParamA h, aret_CreateDialogIndirectParamW h]"

text \<open>The calls that may not return take fuel; what the program itself changes is its memory, and the GDI is the other entry to the state.\<close>

definition waiting_calls :: "nat \<Rightarrow> image \<Rightarrow> host \<Rightarrow> (u32 \<Rightarrow> wm \<Rightarrow> (u32 \<times> wm) option) list" where
  "waiting_calls n im h = [aret_GetMessageW n h, aret_GetMessageA n h, aret_DialogBoxParamA n im h, aret_DialogBoxParamW n im h,
     aret_DialogBoxIndirectParamA n h, aret_DialogBoxIndirectParamW n h, aret_EnumResourceLanguagesA im h, aret_EnumResourceLanguagesW im h]"

inductive wm_step :: "image \<Rightarrow> host \<Rightarrow> wm \<Rightarrow> wm \<Rightarrow> bool" for im :: image and h :: host where
  plain: "f \<in> set wm_calls \<Longrightarrow> wm_step im h s (snd (f esp s))"
| guest: "f \<in> set (guest_calls im h) \<Longrightarrow> wm_step im h s (snd (f esp s))"
| waiting: "f \<in> set (waiting_calls n im h) \<Longrightarrow> f esp s = Some (r, s') \<Longrightarrow> wm_step im h s s'"
| gdi_call: "wm_step im h s (snd (on_gdi (g :: gdi \<Rightarrow> u32 \<times> gdi) s))"
| program: "wm_step im h s (s\<lparr>mem := m\<rparr>)"

lemma wm_calls_keep: "f \<in> set wm_calls \<Longrightarrow> keeps f"
proof -
  have "list_all keeps wm_calls" by (simp only: wm_calls_def list.pred_inject wm_shims simp_thms)
  then show "f \<in> set wm_calls \<Longrightarrow> keeps f" by (simp only: list_all_iff)
qed

context guest_host
begin

lemma guest_calls_keep: "f \<in> set (guest_calls im h) \<Longrightarrow> keeps f"
proof -
  have "list_all keeps (guest_calls im h)" by (simp only: guest_calls_def list.pred_inject wm_shims host_keeps simp_thms)
  then show "f \<in> set (guest_calls im h) \<Longrightarrow> keeps f" by (simp only: list_all_iff)
qed

lemma waiting_calls_ok: "f \<in> set (waiting_calls n im h) \<Longrightarrow> wm_ok s \<Longrightarrow> f esp s = Some (r, s') \<Longrightarrow> wm_ok s'"
  by (auto simp: waiting_calls_def aret_GetMessageW_def aret_GetMessageA_def aret_DialogBoxParamA_def aret_DialogBoxParamW_def
      aret_DialogBoxIndirectParamA_def aret_DialogBoxIndirectParamW_def aret_EnumResourceLanguagesA_def aret_EnumResourceLanguagesW_def
      dest: get_message_wm_ok modal_ok enum_res_ok)

lemma step_ok: "wm_step im h s s' \<Longrightarrow> wm_ok s \<Longrightarrow> wm_ok s'"
  by (induction rule: wm_step.induct)
    (auto simp: wm_ok_frame on_gdi_ok dest: wm_calls_keep guest_calls_keep waiting_calls_ok intro: keepsD)

lemma run_ok: "(wm_step im h)\<^sup>*\<^sup>* s s' \<Longrightarrow> wm_ok s \<Longrightarrow> wm_ok s'"
  by (induction rule: rtranclp_induct) (auto intro: step_ok)

end

lemma wm_start_ok: "wm_ok (wm_start g)"
  by (simp add: wm_ok_def q_ok_def wm_start_def class_zero_def gdi.defs wm.defs set_replicate_conv_if)

text \<open>
  Guest code, as the runtime sees it: a window procedure does nothing but run the entry points (each of
  which may call the guest again, one level deeper) and write memory, and the text renderer draws.
  The innermost level only writes memory.
\<close>

definition draws_only :: "host \<Rightarrow> bool" where
  "draws_only h \<longleftrightarrow> (\<forall>hdc cps q fmt s. \<exists>f :: gdi \<Rightarrow> u32 \<times> gdi. h_text h hdc cps q fmt s = snd (on_gdi f s)) \<and>
     (\<forall>hf pt wt it face s. \<exists>f :: gdi \<Rightarrow> u32 \<times> gdi. snd (h_units h hf pt wt it face s) = snd (on_gdi f s))"

inductive guest_code :: "image \<Rightarrow> host \<Rightarrow> bool" for im :: image where
  inner: "draws_only h \<Longrightarrow> (\<And>p frame s. \<exists>m. snd (h_call h p frame s) = s\<lparr>mem := m\<rparr>) \<Longrightarrow> guest_code im h"
| outer: "draws_only h \<Longrightarrow> guest_code im h' \<Longrightarrow> (\<And>p frame s. (wm_step im h')\<^sup>*\<^sup>* s (snd (h_call h p frame s))) \<Longrightarrow> guest_code im h"

lemma draws_only_ok:
  assumes "draws_only h" "wm_ok s"
  shows "wm_ok (h_text h hdc cps q fmt s)" "wm_ok (snd (h_units h hf pt wt it face s))"
  using assms unfolding draws_only_def by (metis on_gdi_ok)+

lemma guest_code_host: "guest_code im h \<Longrightarrow> guest_host h"
proof (induction rule: guest_code.induct)
  case (inner h)
  show ?case
  proof
    fix s p frame assume "wm_ok s"
    moreover obtain m where "snd (h_call h p frame s) = s\<lparr>mem := m\<rparr>" using inner(2) by blast
    ultimately show "wm_ok (snd (h_call h p frame s))" by (simp add: wm_ok_frame)
  qed (simp_all add: draws_only_ok inner)
next
  case (outer h h')
  then show ?case by (intro guest_host.intro) (auto simp: draws_only_ok dest: guest_host.run_ok)
qed

lemma on_gdi_same: "snd (on_gdi (\<lambda>g. (0 :: u32, g)) s) = s"
  by (cases s) (simp add: on_gdi_def gdi.defs)

lemma def_host_draws: "draws_only (def_host n)"
proof -
  have t: "h_text (def_host n) hdc cps q fmt s = s" "snd (h_units (def_host n) hf pt wt it face s) = s" for hdc cps q fmt hf pt wt it face s
    by (induction n) simp_all
  show ?thesis unfolding draws_only_def t using on_gdi_same by metis
qed

lemma def_host_code: "guest_code im (def_host n)"
proof (induction n)
  case 0
  have "snd (h_call (def_host 0) p frame s) = s\<lparr>mem := mem s\<rparr>" for p frame and s :: wm by simp
  then show ?case by (intro guest_code.inner [OF def_host_draws]) blast
next
  case (Suc n)
  show ?case
  proof (rule guest_code.outer [OF def_host_draws Suc])
    fix p frame and s :: wm
    have "wm_step im (def_host n) s (snd (aret_DefWindowProcW (def_host n) (frame + 4) s))"
      by (rule wm_step.guest) (simp add: guest_calls_def)
    then show "(wm_step im (def_host n))\<^sup>*\<^sup>* s (snd (h_call (def_host (Suc n)) p frame s))" by simp
  qed
qed

definition blank_gdi :: gdi where
  "blank_gdi = \<lparr>mem = (\<lambda>_. 0), g_last_error = 0, g_gdi = [], g_gdi_stock = [], g_gdi_syscolorbrush = [], g_default_palette = 0\<rparr>"



end
