(* ===== verification/Aret_Slots.thy ===== *)
theory Aret_Slots
  imports Aret_Prelude
begin

text \<open>
  Tables of the window manager are arrays of slots that are looked up by a key, such as window
  properties by window and name. A table without two used slots of one key is a map; the contract
  of a bounded map is a locale, which the window properties interpret.
\<close>

section \<open>Tables of slots\<close>

definition slots_ok :: "('e \<Rightarrow> bool) \<Rightarrow> ('e \<Rightarrow> 'k) \<Rightarrow> 'e list \<Rightarrow> bool" where
  "slots_ok us key T \<longleftrightarrow> (\<forall>i<length T. \<forall>j<length T. us (T ! i) \<and> us (T ! j) \<and> key (T ! i) = key (T ! j) \<longrightarrow> i = j)"

definition slot_find :: "('e \<Rightarrow> bool) \<Rightarrow> ('e \<Rightarrow> 'k) \<Rightarrow> 'e list \<Rightarrow> 'k \<Rightarrow> nat option" where
  "slot_find us key T k = first_idx (\<lambda>i. us (T ! i) \<and> key (T ! i) = k) 0 (length T)"

definition slot_free :: "('e \<Rightarrow> bool) \<Rightarrow> 'e list \<Rightarrow> nat option" where
  "slot_free us T = first_idx (\<lambda>i. \<not> us (T ! i)) 0 (length T)"

definition slot_map :: "('e \<Rightarrow> bool) \<Rightarrow> ('e \<Rightarrow> 'k) \<Rightarrow> 'e list \<Rightarrow> 'k \<rightharpoonup> 'e" where
  "slot_map us key T k = map_option (\<lambda>i. T ! i) (slot_find us key T k)"

lemma slot_find_iff:
  assumes "slots_ok us key T"
  shows "slot_find us key T k = Some i \<longleftrightarrow> i < length T \<and> us (T ! i) \<and> key (T ! i) = k"
proof
  assume "i < length T \<and> us (T ! i) \<and> key (T ! i) = k"
  with assms show "slot_find us key T k = Some i"
    unfolding slot_find_def slots_ok_def by (intro first_idx_unique) auto
qed (auto simp: slot_find_def dest: first_idx_SomeD)

lemma slot_find_None: "slot_find us key T k = None \<longleftrightarrow> (\<forall>i<length T. us (T ! i) \<longrightarrow> key (T ! i) \<noteq> k)"
  by (auto simp: slot_find_def first_idx_None_iff)

lemma slot_map_iff:
  "slots_ok us key T \<Longrightarrow> slot_map us key T k = Some e \<longleftrightarrow> (\<exists>i<length T. us (T ! i) \<and> key (T ! i) = k \<and> T ! i = e)"
  by (auto simp: slot_map_def slot_find_iff)

lemma slot_map_dom: "k \<in> dom (slot_map us key T) \<longleftrightarrow> slot_find us key T k \<noteq> None"
  by (auto simp: slot_map_def)

text \<open>Writing an entry into its own slot or, when it has none, into a free one.\<close>

lemma slots_put:
  assumes "slots_ok us key T" "us e" "i < length T"
    and i: "slot_find us key T (key e) = Some i \<or> slot_find us key T (key e) = None \<and> \<not> us (T ! i)"
  shows "slots_ok us key (T[i := e])" "slot_map us key (T[i := e]) = (slot_map us key T)(key e \<mapsto> e)"
proof -
  have other: "key (T ! j) \<noteq> key e" if "j < length T" "us (T ! j)" "j \<noteq> i" for j
    using i that assms(1) by (auto simp: slot_find_iff slot_find_None slots_ok_def)
  show ok: "slots_ok us key (T[i := e])"
    using assms(1) assms(3) other unfolding slots_ok_def by (auto simp: nth_list_update split: if_splits) metis+
  show "slot_map us key (T[i := e]) = (slot_map us key T)(key e \<mapsto> e)"
  proof
    fix k
    have "slot_map us key (T[i := e]) k = Some e' \<longleftrightarrow> ((slot_map us key T)(key e \<mapsto> e)) k = Some e'" for e'
    proof (cases "k = key e")
      case True
      then show ?thesis using assms(2,3) other by (auto simp: slot_map_iff [OF ok] nth_list_update)
    next
      case False
      have "us (T ! i) \<Longrightarrow> key (T ! i) = key e" using i by (auto simp: slot_find_iff [OF assms(1)])
      with False show ?thesis using assms(3)
        by (auto simp: slot_map_iff [OF ok] slot_map_iff [OF assms(1)] nth_list_update split: if_splits) metis
    qed
    then show "slot_map us key (T[i := e]) k = ((slot_map us key T)(key e \<mapsto> e)) k"
      by (metis not_None_eq)
  qed
qed

lemma slots_remove:
  assumes "slots_ok us key T" "\<not> us e" "slot_find us key T k = Some i"
  shows "slots_ok us key (T[i := e])" "slot_map us key (T[i := e]) = (slot_map us key T)(k := None)"
proof -
  have i: "i < length T" "us (T ! i)" "key (T ! i) = k" using assms by (simp_all add: slot_find_iff)
  show ok: "slots_ok us key (T[i := e])" using assms(1,2) i(1) by (auto simp: slots_ok_def nth_list_update split: if_splits)
  show "slot_map us key (T[i := e]) = (slot_map us key T)(k := None)"
  proof
    fix k'
    have "slot_map us key (T[i := e]) k' = Some e' \<longleftrightarrow> ((slot_map us key T)(k := None)) k' = Some e'" for e'
      using assms(1,2) i by (auto simp: slot_map_iff [OF ok] slot_map_iff [OF assms(1)] nth_list_update slots_ok_def)
    then show "slot_map us key (T[i := e]) k' = ((slot_map us key T)(k := None)) k'" by (metis not_None_eq)
  qed
qed

text \<open>There is a free slot exactly when the map has fewer entries than the table slots.\<close>

lemma slot_free_iff:
  assumes "slots_ok us key T"
  shows "slot_free us T \<noteq> None \<longleftrightarrow> card (dom (slot_map us key T)) < length T"
proof -
  let ?U = "{i. i < length T \<and> us (T ! i)}"
  have "dom (slot_map us key T) = (\<lambda>i. key (T ! i)) ` ?U" by (auto simp: slot_map_iff [OF assms])
  moreover have "inj_on (\<lambda>i. key (T ! i)) ?U" using assms by (auto simp: inj_on_def slots_ok_def)
  ultimately have c: "card (dom (slot_map us key T)) = card ?U" by (simp add: card_image)
  have U: "?U \<subseteq> {..<length T}" by auto
  have "card ?U < length T \<longleftrightarrow> ?U \<noteq> {..<length T}"
    using card_subset_eq [OF _ U] psubset_card_mono [OF _ psubsetI [OF U]] by force
  also have "\<dots> \<longleftrightarrow> slot_free us T \<noteq> None" by (auto simp: slot_free_def first_idx_None_iff)
  finally show ?thesis using c by simp
qed

section \<open>Bounded maps\<close>

locale bounded_map =
  fixes inv :: "'s \<Rightarrow> bool" and keyok :: "'k \<Rightarrow> bool" and abs :: "'s \<Rightarrow> 'k \<rightharpoonup> 'v"
    and put :: "'k \<Rightarrow> 'v \<Rightarrow> 's \<Rightarrow> bool \<times> 's" and del :: "'k \<Rightarrow> 's \<Rightarrow> 's" and cap :: nat
  assumes put_some: "inv s \<Longrightarrow> keyok k \<Longrightarrow> k \<in> dom (abs s) \<or> card (dom (abs s)) < cap \<Longrightarrow>
      fst (put k v s) \<and> inv (snd (put k v s)) \<and> abs (snd (put k v s)) = (abs s)(k \<mapsto> v)"
    and put_full: "inv s \<Longrightarrow> keyok k \<Longrightarrow> \<not> (k \<in> dom (abs s) \<or> card (dom (abs s)) < cap) \<Longrightarrow> put k v s = (False, s)"
    and del_law: "inv s \<Longrightarrow> keyok k \<Longrightarrow> inv (del k s) \<and> abs (del k s) = (abs s)(k := None)"
begin

lemma put_inv: "inv s \<Longrightarrow> keyok k \<Longrightarrow> inv (snd (put k v s))"
  using put_some [of s k v] put_full [of s k v] by (cases "k \<in> dom (abs s) \<or> card (dom (abs s)) < cap") auto

lemma put_fits: "inv s \<Longrightarrow> keyok k \<Longrightarrow> fst (put k v s) \<longleftrightarrow> k \<in> dom (abs s) \<or> card (dom (abs s)) < cap"
  using put_some [of s k v] put_full [of s k v] by (cases "k \<in> dom (abs s) \<or> card (dom (abs s)) < cap") auto

lemma put_abs: "inv s \<Longrightarrow> keyok k \<Longrightarrow> abs (snd (put k v s)) =
    (if k \<in> dom (abs s) \<or> card (dom (abs s)) < cap then (abs s)(k \<mapsto> v) else abs s)"
  using put_some [of s k v] put_full [of s k v] by simp

text \<open>A key that was just deleted always has room.\<close>

lemma del_then_put: "inv s \<Longrightarrow> keyok k \<Longrightarrow> k \<in> dom (abs s) \<Longrightarrow> finite (dom (abs s)) \<Longrightarrow> card (dom (abs s)) \<le> cap \<Longrightarrow>
    fst (put k v (del k s))"
  using del_law [of s k] put_fits [of "del k s" k v] card_gt_0_iff [of "dom (abs s)"]
  by (auto simp: card_Diff_singleton)

end

end
