(* ===== verification/Aret_Stores.thy ===== *)
theory Aret_Stores
  imports Aret_Windows_Theorems Aret_Slots
begin

text \<open>
  The keyed tables of the window manager as maps: window properties are a bounded map, registered
  messages number names injectively.
\<close>

section \<open>Window properties\<close>

definition prop_key :: "prop_ent \<Rightarrow> u32 \<times> u8 list" where
  "prop_key p = (pr_hwnd p, pr_key p)"

definition prop_inv :: "wm \<Rightarrow> bool" where
  "prop_inv s \<longleftrightarrow> length (g_u32_prop s) = U32_MAX_PROP \<and> (\<forall>p \<in> set (g_u32_prop s). length (pr_key p) \<le> 63)
     \<and> slots_ok pr_used prop_key (g_u32_prop s)"

definition props :: "wm \<Rightarrow> u32 \<times> u8 list \<rightharpoonup> u32" where
  "props s k = map_option pr_val (slot_map pr_used prop_key (g_u32_prop s) k)"

fun key63 :: "u32 \<times> u8 list \<Rightarrow> bool" where
  "key63 (h, k) \<longleftrightarrow> length k \<le> 63"

fun prop_put :: "u32 \<times> u8 list \<Rightarrow> u32 \<Rightarrow> wm \<Rightarrow> bool \<times> wm" where
  "prop_put (h, k) v s = (case u32_set_prop h (Some k) v s of (r, s) \<Rightarrow> (r = 1, s))"

fun prop_del :: "u32 \<times> u8 list \<Rightarrow> wm \<Rightarrow> wm" where
  "prop_del (h, k) s = snd (u32_rm_prop h (Some k) s)"

text \<open>A stored name is shorter than the 64 bytes that are compared, so the comparison is equality.\<close>

lemma strncmp_eq_short: "length a < n \<Longrightarrow> strncmp_eq n a b \<longleftrightarrow> a = b"
proof
  assume l: "length a < n" and "strncmp_eq n a b"
  then have "length (take n b) < n" "a = take n b" by (auto simp: strncmp_eq_def)
  then show "a = b" by (simp add: min_def split: if_splits)
qed (simp add: strncmp_eq_def)

lemma prop_find_slot:
  assumes "prop_inv s"
  shows "u32_prop_find (g_u32_prop s) h k = slot_find pr_used prop_key (g_u32_prop s) (h, k)"
proof -
  have "length (pr_key (g_u32_prop s ! i)) < 64" if "i < U32_MAX_PROP" for i
    using assms that by (auto simp: prop_inv_def dest!: bspec [OF _ nth_mem])
  then show ?thesis using assms unfolding u32_prop_find_def slot_find_def prop_inv_def
    by (auto simp: prop_key_def strncmp_eq_short intro!: first_idx_cong)
qed

lemma props_dom: "dom (props s) = dom (slot_map pr_used prop_key (g_u32_prop s))"
  by (auto simp: props_def)

lemma set_prop_some:
  assumes s: "prop_inv s" and k: "length k \<le> 63" and room: "(h, k) \<in> dom (props s) \<or> card (dom (props s)) < U32_MAX_PROP"
  shows "fst (u32_set_prop h (Some k) v s) = 1" "prop_inv (snd (u32_set_prop h (Some k) v s))"
    "props (snd (u32_set_prop h (Some k) v s)) = (props s)((h, k) \<mapsto> v)"
proof -
  let ?T = "g_u32_prop s" and ?e = "\<lparr>pr_hwnd = h, pr_key = take 63 k, pr_val = v, pr_used = True\<rparr>"
  have ok: "slots_ok pr_used prop_key ?T" "length ?T = U32_MAX_PROP" using s by (simp_all add: prop_inv_def)
  have e: "prop_key ?e = (h, k)" using k by (simp add: prop_key_def)
  obtain i where i: "prop_slot ?T h k = Some i" "i < length ?T"
      "slot_find pr_used prop_key ?T (prop_key ?e) = Some i \<or> slot_find pr_used prop_key ?T (prop_key ?e) = None \<and> \<not> pr_used (?T ! i)"
  proof (cases "slot_find pr_used prop_key ?T (h, k)")
    case None
    then have "slot_free pr_used ?T \<noteq> None" unfolding slot_free_iff [OF ok(1)]
      using room ok(2) by (auto simp: props_dom slot_map_def)
    then obtain i where "slot_free pr_used ?T = Some i" by auto
    then have "first_idx (\<lambda>i. \<not> pr_used (?T ! i)) 0 U32_MAX_PROP = Some i" "i < length ?T" "\<not> pr_used (?T ! i)"
      using ok(2) by (auto simp: slot_free_def dest: first_idx_SomeD)
    with None show ?thesis using e by (intro that) (auto simp: prop_slot_def prop_find_slot [OF s])
  next
    case (Some i)
    then have "i < length ?T" by (simp add: slot_find_iff [OF ok(1)])
    with Some show ?thesis using e by (intro that [of i]) (auto simp: prop_slot_def prop_find_slot [OF s])
  qed
  have set: "u32_set_prop h (Some k) v s = (1, s\<lparr>g_u32_prop := ?T[i := ?e]\<rparr>)" using i(1,2) by (simp add: u32_set_prop_def)
  show "fst (u32_set_prop h (Some k) v s) = 1" by (simp add: set)
  note p = slots_put [OF ok(1) _ i(2) i(3)]
  show "prop_inv (snd (u32_set_prop h (Some k) v s))"
    using p(1) s ball_list_update [of ?T "\<lambda>p. length (pr_key p) \<le> 63" ?e i] by (simp add: set prop_inv_def)
  show "props (snd (u32_set_prop h (Some k) v s)) = (props s)((h, k) \<mapsto> v)"
    using p(2) by (simp add: set props_def e fun_eq_iff)
qed

lemma set_prop_full:
  assumes s: "prop_inv s" and "\<not> ((h, k) \<in> dom (props s) \<or> card (dom (props s)) < U32_MAX_PROP)"
  shows "u32_set_prop h (Some k) v s = (0, s)"
proof -
  let ?T = "g_u32_prop s"
  have ok: "slots_ok pr_used prop_key ?T" "length ?T = U32_MAX_PROP" using s by (simp_all add: prop_inv_def)
  have "slot_find pr_used prop_key ?T (h, k) = None" "slot_free pr_used ?T = None"
    using assms(2) slot_free_iff [OF ok(1)] ok(2) by (auto simp: props_dom slot_map_dom)
  then show ?thesis by (simp add: u32_set_prop_def prop_slot_def prop_find_slot [OF s] slot_free_def ok(2))
qed

lemma get_prop_abs: "prop_inv s \<Longrightarrow> u32_get_prop h (Some k) s = (case props s (h, k) of None \<Rightarrow> 0 | Some v \<Rightarrow> v, s)"
  by (simp add: u32_get_prop_def prop_find_slot props_def slot_map_def split: option.split)

lemma rm_prop_abs:
  assumes s: "prop_inv s"
  shows "fst (u32_rm_prop h (Some k) s) = (case props s (h, k) of None \<Rightarrow> 0 | Some v \<Rightarrow> v)"
    "prop_inv (snd (u32_rm_prop h (Some k) s))" "props (snd (u32_rm_prop h (Some k) s)) = (props s)((h, k) := None)"
proof -
  let ?T = "g_u32_prop s"
  have ok: "slots_ok pr_used prop_key ?T" using s by (simp add: prop_inv_def)
  show "fst (u32_rm_prop h (Some k) s) = (case props s (h, k) of None \<Rightarrow> 0 | Some v \<Rightarrow> v)"
    by (simp add: u32_rm_prop_def prop_find_slot [OF s] props_def slot_map_def split: option.split)
  have "prop_inv (snd (u32_rm_prop h (Some k) s)) \<and> props (snd (u32_rm_prop h (Some k) s)) = (props s)((h, k) := None)"
  proof (cases "slot_find pr_used prop_key ?T (h, k)")
    case None
    then show ?thesis using s by (auto simp: u32_rm_prop_def prop_find_slot [OF s] props_def slot_map_def)
  next
    case (Some i)
    note r = slots_remove [OF ok _ Some, of "(?T ! i)\<lparr>pr_used := False\<rparr>"]
    have "i < length ?T" using Some by (simp add: slot_find_iff [OF ok])
    then show ?thesis using r Some s ball_upd [of ?T "\<lambda>p. length (pr_key p) \<le> 63" "\<lambda>p. p\<lparr>pr_used := False\<rparr>" i]
      by (auto simp: u32_rm_prop_def prop_find_slot [OF s] props_def prop_inv_def)
  qed
  then show "prop_inv (snd (u32_rm_prop h (Some k) s))" "props (snd (u32_rm_prop h (Some k) s)) = (props s)((h, k) := None)" by auto
qed

interpretation pm: bounded_map prop_inv key63 props prop_put prop_del U32_MAX_PROP
proof
  fix s and k :: "u32 \<times> u8 list" and v
  assume "prop_inv s" "key63 k" "k \<in> dom (props s) \<or> card (dom (props s)) < U32_MAX_PROP"
  then show "fst (prop_put k v s) \<and> prop_inv (snd (prop_put k v s)) \<and> props (snd (prop_put k v s)) = (props s)(k \<mapsto> v)"
    using set_prop_some [of s "snd k" "fst k" v] by (cases k) (simp add: case_prod_beta)
next
  fix s and k :: "u32 \<times> u8 list" and v
  assume "prop_inv s" "\<not> (k \<in> dom (props s) \<or> card (dom (props s)) < U32_MAX_PROP)"
  then show "prop_put k v s = (False, s)" using set_prop_full [of s "fst k" "snd k" v] by (cases k) simp
next
  fix s and k :: "u32 \<times> u8 list" assume "prop_inv s"
  then show "prop_inv (prop_del k s) \<and> props (prop_del k s) = (props s)(k := None)"
    using rm_prop_abs [of s "fst k" "snd k"] by (cases k) simp
qed

text \<open>The three operations as one alphabet, on the table and on a map of at most \<^verbatim>\<open>U32_MAX_PROP\<close> entries.\<close>

datatype prop_op = PSet u32 "u8 list" u32 | PGet u32 "u8 list" | PRemove u32 "u8 list"

primrec prop_call :: "prop_op \<Rightarrow> wm \<Rightarrow> u32 \<times> wm" where
  "prop_call (PSet h k v) s = u32_set_prop h (Some k) v s"
| "prop_call (PGet h k) s = u32_get_prop h (Some k) s"
| "prop_call (PRemove h k) s = u32_rm_prop h (Some k) s"

primrec map_call :: "prop_op \<Rightarrow> (u32 \<times> u8 list \<rightharpoonup> u32) \<Rightarrow> u32 \<times> (u32 \<times> u8 list \<rightharpoonup> u32)" where
  "map_call (PSet h k v) m = (if (h, k) \<in> dom m \<or> card (dom m) < U32_MAX_PROP then (1, m((h, k) \<mapsto> v)) else (0, m))"
| "map_call (PGet h k) m = (case m (h, k) of None \<Rightarrow> 0 | Some v \<Rightarrow> v, m)"
| "map_call (PRemove h k) m = (case m (h, k) of None \<Rightarrow> 0 | Some v \<Rightarrow> v, m((h, k) := None))"

primrec op_name :: "prop_op \<Rightarrow> u8 list" where
  "op_name (PSet h k v) = k" | "op_name (PGet h k) = k" | "op_name (PRemove h k) = k"

primrec run_ops :: "('o \<Rightarrow> 's \<Rightarrow> 'r \<times> 's) \<Rightarrow> 'o list \<Rightarrow> 's \<Rightarrow> 'r list \<times> 's" where
  "run_ops f [] s = ([], s)"
| "run_ops f (p # ps) s = (case f p s of (r, s) \<Rightarrow> case run_ops f ps s of (rs, s) \<Rightarrow> (r # rs, s))"

lemma prop_call_refines:
  assumes "prop_inv s" "length (op_name p) \<le> 63"
  shows "fst (prop_call p s) = fst (map_call p (props s))" "props (snd (prop_call p s)) = snd (map_call p (props s))"
    "prop_inv (snd (prop_call p s))"
proof -
  have "fst (prop_call p s) = fst (map_call p (props s)) \<and> props (snd (prop_call p s)) = snd (map_call p (props s)) \<and> prop_inv (snd (prop_call p s))"
  proof (cases p)
    case (PSet h k v)
    then show ?thesis using assms set_prop_some [of s k h v] set_prop_full [of s h k v] by auto
  next
    case (PGet h k)
    then show ?thesis using assms by (simp add: get_prop_abs)
  next
    case (PRemove h k)
    then show ?thesis using assms rm_prop_abs [of s h k] by simp
  qed
  then show "fst (prop_call p s) = fst (map_call p (props s))" "props (snd (prop_call p s)) = snd (map_call p (props s))"
    "prop_inv (snd (prop_call p s))" by auto
qed

text \<open>C13: Window properties are a bounded map. For any sequence of \<^verbatim>\<open>SetProp\<close>, \<^verbatim>\<open>GetProp\<close> and
  \<^verbatim>\<open>RemoveProp\<close> on names of at most 63 bytes, the answers of the table of slots are those of a map
  from windows and names to values that takes at most 256 entries, and the table represents that
  map afterwards.\<close>

theorem window_props_refine_map:
  assumes "prop_inv s" "\<forall>p \<in> set ops. length (op_name p) \<le> 63"
  shows "fst (run_ops prop_call ops s) = fst (run_ops map_call ops (props s)) \<and>
    props (snd (run_ops prop_call ops s)) = snd (run_ops map_call ops (props s)) \<and> prop_inv (snd (run_ops prop_call ops s))"
  using assms
proof (induction ops arbitrary: s)
  case (Cons p ps)
  from Cons.prems have p: "length (op_name p) \<le> 63" "\<forall>p \<in> set ps. length (op_name p) \<le> 63" by auto
  note c = prop_call_refines [OF Cons.prems(1) p(1)]
  from Cons.IH [OF c(3) p(2)] c show ?case by (simp add: case_prod_beta)
qed simp

lemma prop_inv_start: "prop_inv (wm_start g)" "props (wm_start g) = Map.empty"
proof -
  show "prop_inv (wm_start g)"
    by (simp add: prop_inv_def slots_ok_def wm_start_def gdi.defs wm.defs set_replicate_conv_if)
  have "slot_find pr_used prop_key (g_u32_prop (wm_start g)) k = None" for k
    by (simp add: slot_find_None wm_start_def gdi.defs wm.defs)
  then show "props (wm_start g) = Map.empty" by (simp add: props_def slot_map_def fun_eq_iff)
qed

theorem window_props_refine_map_witness:
  "fst (run_ops prop_call [PSet 1 [65] 7, PGet 1 [65], PRemove 1 [65], PGet 1 [65]] (wm_start blank_gdi)) = [1, 7, 7, 0]"
  using window_props_refine_map [OF prop_inv_start(1) [of blank_gdi], of "[PSet 1 [65] 7, PGet 1 [65], PRemove 1 [65], PGet 1 [65]]"]
  by (simp add: prop_inv_start U32_MAX_PROP_def)

text \<open>
  A property whose name has 64 bytes or more is stored under its first 63 bytes but looked up by
  64, so it is set with success and never found: \<^verbatim>\<open>GetProp\<close> and \<^verbatim>\<open>RemoveProp\<close> answer 0, and setting it
  again takes another slot.
\<close>

theorem long_prop_never_found:
  assumes "prop_inv s" "64 \<le> length k"
  shows "fst (u32_get_prop h (Some k) (snd (u32_set_prop h (Some k) v s))) = 0"
    "u32_rm_prop h (Some k) (snd (u32_set_prop h (Some k) v s)) = (0, snd (u32_set_prop h (Some k) v s))"
    "slot_free pr_used (g_u32_prop s) = Some i \<Longrightarrow> fst (u32_set_prop h (Some k) v s) = 1 \<and>
       g_u32_prop (snd (u32_set_prop h (Some k) v s)) = (g_u32_prop s)[i := \<lparr>pr_hwnd = h, pr_key = take 63 k, pr_val = v, pr_used = True\<rparr>]"
proof -
  have miss: "u32_prop_find P h k = None" if "length P = U32_MAX_PROP" "\<forall>p \<in> set P. length (pr_key p) \<le> 63" for P
  proof -
    have "\<not> strncmp_eq 64 (pr_key (P ! i)) k" if i: "i < U32_MAX_PROP" for i
    proof -
      have "length (pr_key (P ! i)) \<le> 63" using that \<open>length P = U32_MAX_PROP\<close> \<open>\<forall>p \<in> set P. length (pr_key p) \<le> 63\<close> i by simp
      then show ?thesis using assms(2) by (auto simp: strncmp_eq_short)
    qed
    then show ?thesis by (simp add: u32_prop_find_def first_idx_None_iff)
  qed
  have len: "length (g_u32_prop s) = U32_MAX_PROP" "\<forall>p \<in> set (g_u32_prop s). length (pr_key p) \<le> 63"
    using assms(1) by (auto simp: prop_inv_def)
  let ?s = "snd (u32_set_prop h (Some k) v s)"
  have len': "length (g_u32_prop ?s) = U32_MAX_PROP" "\<forall>p \<in> set (g_u32_prop ?s). length (pr_key p) \<le> 63"
    using len ball_list_update [of "g_u32_prop s" "\<lambda>p. length (pr_key p) \<le> 63" "\<lparr>pr_hwnd = h, pr_key = take 63 k, pr_val = v, pr_used = True\<rparr>"]
    by (auto simp: u32_set_prop_def split: option.split)
  show "fst (u32_get_prop h (Some k) ?s) = 0" "u32_rm_prop h (Some k) ?s = (0, ?s)"
    using miss [OF len'] by (simp_all add: u32_get_prop_def u32_rm_prop_def)
  show "fst (u32_set_prop h (Some k) v s) = 1 \<and> g_u32_prop ?s = (g_u32_prop s)[i := \<lparr>pr_hwnd = h, pr_key = take 63 k, pr_val = v, pr_used = True\<rparr>]"
    if "slot_free pr_used (g_u32_prop s) = Some i"
    using that miss [OF len] len(1) first_idx_less [of _ 0 U32_MAX_PROP i] by (simp add: u32_set_prop_def prop_slot_def slot_free_def)
qed

theorem long_prop_never_found_witness:
  "fst (u32_get_prop 1 (Some (replicate 70 65)) (snd (u32_set_prop 1 (Some (replicate 70 65)) 7 (wm_start blank_gdi)))) = 0"
  using long_prop_never_found(1) [OF prop_inv_start(1) [of blank_gdi], of "replicate 70 65" 1 7] by simp

section \<open>Registered messages\<close>

definition rwm_ids :: "wm \<Rightarrow> u8 list \<rightharpoonup> u32" where
  "rwm_ids s n = map_option rwm_id (slot_map rwm_used rwm_name (g_u32_rwm s) n)"

definition rwm_inv :: "wm \<Rightarrow> bool" where
  "rwm_inv s \<longleftrightarrow> length (g_u32_rwm s) = U32_MAX_RWM \<and> slots_ok rwm_used rwm_name (g_u32_rwm s)
     \<and> (\<exists>n \<le> U32_MAX_RWM. g_u32_rwm_next s = 0xC000 + of_nat n \<and> (\<forall>i<U32_MAX_RWM. rwm_used (g_u32_rwm s ! i) \<longleftrightarrow> i < n)
         \<and> (\<forall>i<n. rwm_id (g_u32_rwm s ! i) = 0xC000 + of_nat i \<and> length (rwm_name (g_u32_rwm s ! i)) \<le> 127))"

lemma rwm_find_slot:
  assumes "rwm_inv s"
  shows "first_idx (\<lambda>i. rwm_used (g_u32_rwm s ! i) \<and> strncmp_eq 128 (rwm_name (g_u32_rwm s ! i)) n) 0 U32_MAX_RWM
    = slot_find rwm_used rwm_name (g_u32_rwm s) n"
proof -
  have "length (rwm_name (g_u32_rwm s ! i)) < 128" if "i < U32_MAX_RWM" "rwm_used (g_u32_rwm s ! i)" for i
    using assms that by (fastforce simp: rwm_inv_def)
  then show ?thesis using assms unfolding slot_find_def rwm_inv_def
    by (auto simp: strncmp_eq_short intro!: first_idx_cong)
qed

text \<open>A name that is known keeps its number; a new one gets the next, which no other name has.\<close>

lemma reg_known:
  assumes "rwm_inv s" "n \<noteq> []" "rwm_ids s n = Some r"
  shows "u32_reg_win_msg n s = (r, s)"
  using assms by (auto simp: u32_reg_win_msg_def rwm_find_slot rwm_ids_def slot_map_def)

lemma reg_new:
  assumes s: "rwm_inv s" and n: "n \<noteq> []" "length n \<le> 127" "rwm_ids s n = None" and room: "card (dom (rwm_ids s)) < U32_MAX_RWM"
  shows "rwm_inv (snd (u32_reg_win_msg n s))" "rwm_ids (snd (u32_reg_win_msg n s)) = (rwm_ids s)(n \<mapsto> fst (u32_reg_win_msg n s))"
proof -
  let ?T = "g_u32_rwm s" and ?e = "\<lparr>rwm_name = take 127 n, rwm_id = g_u32_rwm_next s, rwm_used = True\<rparr>"
  obtain m where m: "m \<le> U32_MAX_RWM" "g_u32_rwm_next s = 0xC000 + of_nat m" "\<forall>i<U32_MAX_RWM. rwm_used (?T ! i) \<longleftrightarrow> i < m"
      "\<forall>i<m. rwm_id (?T ! i) = 0xC000 + of_nat i \<and> length (rwm_name (?T ! i)) \<le> 127"
    and ok: "slots_ok rwm_used rwm_name ?T" "length ?T = U32_MAX_RWM"
    using s unfolding rwm_inv_def by blast
  have find: "slot_find rwm_used rwm_name ?T n = None" using n(3) by (simp add: rwm_ids_def slot_map_def)
  have "dom (rwm_ids s) = dom (slot_map rwm_used rwm_name ?T)" by (auto simp: rwm_ids_def)
  then have "slot_free rwm_used ?T \<noteq> None" unfolding slot_free_iff [OF ok(1)] using room ok(2) by simp
  then obtain i where i: "slot_free rwm_used ?T = Some i" by auto
  then have free: "i < U32_MAX_RWM" "\<not> rwm_used (?T ! i)" "\<forall>j<i. rwm_used (?T ! j)"
    using ok(2) by (auto simp: slot_free_def dest!: first_idx_SomeD)
  have "\<not> i < m" using m(3) free(1,2) by auto
  moreover have "\<not> m < i" using m(3) free(1,3) by (meson less_trans nat_less_le)
  ultimately have im: "i = m" by simp
  have reg: "u32_reg_win_msg n s = (g_u32_rwm_next s, s\<lparr>g_u32_rwm := ?T[i := ?e], g_u32_rwm_next := g_u32_rwm_next s + 1\<rparr>)"
    using n find i free(1) ok(2) by (simp add: u32_reg_win_msg_def rwm_find_slot [OF s] slot_free_def)
  have e: "rwm_name ?e = n" using n by simp
  note put = slots_put [OF ok(1), of ?e i, unfolded e]
  show "rwm_ids (snd (u32_reg_win_msg n s)) = (rwm_ids s)(n \<mapsto> fst (u32_reg_win_msg n s))"
    using put(2) find free ok(2) by (auto simp: reg rwm_ids_def fun_eq_iff)
  show "rwm_inv (snd (u32_reg_win_msg n s))" unfolding rwm_inv_def
  proof (intro conjI exI [of _ "Suc m"])
    show "\<forall>k<U32_MAX_RWM. rwm_used (g_u32_rwm (snd (u32_reg_win_msg n s)) ! k) \<longleftrightarrow> k < Suc m"
      using m(3) ok(2) free(1) by (auto simp: reg im nth_list_update split: if_splits)
    show "\<forall>k<Suc m. rwm_id (g_u32_rwm (snd (u32_reg_win_msg n s)) ! k) = 0xC000 + of_nat k
        \<and> length (rwm_name (g_u32_rwm (snd (u32_reg_win_msg n s)) ! k)) \<le> 127"
      using m(2,4) ok(2) free(1) by (auto simp: reg im nth_list_update less_Suc_eq)
  qed (use put(1) find free ok(2) m(2) im in \<open>simp_all add: reg\<close>)
qed

lemma rwm_ids_range:
  assumes "rwm_inv s" "rwm_ids s n = Some r"
  shows "0xC000 \<le> r" "r < 0xC080" "rwm_ids s m = Some r \<Longrightarrow> m = n"
proof -
  have ok: "slots_ok rwm_used rwm_name (g_u32_rwm s)" using assms(1) by (simp add: rwm_inv_def)
  have at: "\<exists>i<128. r = 0xC000 + of_nat i \<and> rwm_name (g_u32_rwm s ! i) = k" if "rwm_ids s k = Some r" for k
    using that assms(1) by (fastforce simp: rwm_ids_def slot_map_iff [OF ok] rwm_inv_def U32_MAX_RWM_def)
  have inj: "i = j" if "i < 128" "j < 128" "(0xC000 :: u32) + of_nat i = 0xC000 + of_nat j" for i j :: nat
    using that offset_neq [of i j "0xC000"] by force
  from at [OF assms(2)] obtain i where i: "i < 128" "r = 0xC000 + of_nat i" "rwm_name (g_u32_rwm s ! i) = n" by blast
  have "unat (0xC000 + of_nat i :: u32) = 0xC000 + i" using i(1) by (simp add: unat_word_ariths unat_of_nat)
  then show "0xC000 \<le> r" "r < 0xC080" using i by (simp_all add: word_le_nat_alt word_less_nat_alt)
  show "m = n" if "rwm_ids s m = Some r" using at [OF that] i inj by blast
qed

lemma reg_run:
  assumes "rwm_inv s" "\<forall>n \<in> set ns. n \<noteq> [] \<and> length n \<le> 127" "card (dom (rwm_ids s) \<union> set ns) \<le> U32_MAX_RWM" "finite (dom (rwm_ids s))"
  shows "\<exists>m. fst (run_ops u32_reg_win_msg ns s) = map (\<lambda>n. the (m n)) ns \<and> rwm_ids s \<subseteq>\<^sub>m m \<and> set ns \<subseteq> dom m
    \<and> (\<exists>s'. rwm_inv s' \<and> rwm_ids s' = m)"
  using assms
proof (induction ns arbitrary: s)
  case Nil then show ?case by (intro exI [of _ "rwm_ids s"]) auto
next
  case (Cons n ns)
  obtain r s' where reg: "u32_reg_win_msg n s = (r, s')" by fastforce
  have "rwm_inv s' \<and> rwm_ids s' = (rwm_ids s)(n \<mapsto> r)"
  proof (cases "rwm_ids s n")
    case None
    have "card (insert n (dom (rwm_ids s))) \<le> U32_MAX_RWM"
      using Cons.prems(3,4) by (rule_tac order_trans [OF card_mono]) auto
    then have "card (dom (rwm_ids s)) < U32_MAX_RWM" using None Cons.prems(4) by (simp add: card_insert_disjoint domIff)
    with reg_new [OF Cons.prems(1) _ _ None] Cons.prems(2) reg show ?thesis by simp
  next
    case (Some x)
    with reg_known [OF Cons.prems(1) _ Some] Cons.prems(1,2) reg show ?thesis by (simp add: map_upd_triv)
  qed
  then have s': "rwm_inv s'" "rwm_ids s' = (rwm_ids s)(n \<mapsto> r)" by auto
  obtain m where m: "fst (run_ops u32_reg_win_msg ns s') = map (\<lambda>n. the (m n)) ns" "rwm_ids s' \<subseteq>\<^sub>m m" "set ns \<subseteq> dom m"
      "\<exists>s'. rwm_inv s' \<and> rwm_ids s' = m"
  proof -
    have d: "dom (rwm_ids s') = insert n (dom (rwm_ids s))" by (simp add: s'(2))
    have "card (dom (rwm_ids s') \<union> set ns) \<le> U32_MAX_RWM" "finite (dom (rwm_ids s'))" unfolding d using Cons.prems(3,4) by auto
    from Cons.IH [OF s'(1) _ this] Cons.prems(2) show ?thesis using that by auto
  qed
  have "m n = Some r" using m(2) s'(2) by (auto simp: map_le_def)
  moreover have "rwm_ids s \<subseteq>\<^sub>m m"
  proof (cases "rwm_ids s n")
    case None
    then show ?thesis using m(2) s'(2) by (auto simp: map_le_def) (metis domI option.distinct(1))
  next
    case (Some x)
    with reg_known [OF Cons.prems(1) _ Some] Cons.prems(2) reg have "s' = s" by simp
    with m(2) show ?thesis by simp
  qed
  ultimately show ?case using m reg by (intro exI [of _ m]) (auto simp: case_prod_beta)
qed

lemma rwm_start: "rwm_inv (wm_start g)" "rwm_ids (wm_start g) = Map.empty"
proof -
  show "rwm_inv (wm_start g)"
    by (auto simp: rwm_inv_def slots_ok_def wm_start_def gdi.defs wm.defs intro!: exI [of _ 0])
  have "slot_find rwm_used rwm_name (g_u32_rwm (wm_start g)) k = None" for k
    by (simp add: slot_find_None wm_start_def gdi.defs wm.defs)
  then show "rwm_ids (wm_start g) = Map.empty" by (simp add: rwm_ids_def slot_map_def fun_eq_iff)
qed

text \<open>\<^verbatim>\<open>RegisterWindowMessage\<close> and \<^verbatim>\<open>RegisterClipboardFormat\<close> number names: registering any sequence of
  names (non-empty, at most 127 bytes, at most 128 different ones) gives every name a number from
  \<^verbatim>\<open>0xC000\<close> to \<^verbatim>\<open>0xC07F\<close>, the same number exactly when the names are the same.\<close>

theorem registered_messages_injective:
  assumes "\<forall>n \<in> set ns. n \<noteq> [] \<and> length n \<le> 127" "card (set ns) \<le> U32_MAX_RWM"
  shows "(\<forall>r \<in> set (fst (run_ops u32_reg_win_msg ns (wm_start g))). 0xC000 \<le> r \<and> r < 0xC080) \<and>
    (\<forall>i < length ns. \<forall>j < length ns.
      fst (run_ops u32_reg_win_msg ns (wm_start g)) ! i = fst (run_ops u32_reg_win_msg ns (wm_start g)) ! j \<longleftrightarrow> ns ! i = ns ! j)"
proof (intro conjI)
  obtain m s where m: "fst (run_ops u32_reg_win_msg ns (wm_start g)) = map (\<lambda>n. the (m n)) ns" "set ns \<subseteq> dom m"
      "rwm_inv s" "rwm_ids s = m"
    using reg_run [OF rwm_start(1) [of g] assms(1)] assms(2) by (auto simp: rwm_start)
  show "\<forall>r \<in> set (fst (run_ops u32_reg_win_msg ns (wm_start g))). 0xC000 \<le> r \<and> r < 0xC080"
  proof
    fix r assume "r \<in> set (fst (run_ops u32_reg_win_msg ns (wm_start g)))"
    then obtain n where n: "n \<in> set ns" "r = the (m n)" unfolding m(1) by auto
    with m(2,4) have "rwm_ids s n = Some r" by force
    then show "0xC000 \<le> r \<and> r < 0xC080" using rwm_ids_range(1,2) [OF m(3)] by blast
  qed
  show "\<forall>i < length ns. \<forall>j < length ns.
      fst (run_ops u32_reg_win_msg ns (wm_start g)) ! i = fst (run_ops u32_reg_win_msg ns (wm_start g)) ! j \<longleftrightarrow> ns ! i = ns ! j"
  proof (intro allI impI)
    fix i j assume i: "i < length ns" "j < length ns"
    obtain a b where "m (ns ! i) = Some a" "m (ns ! j) = Some b" using i m(2) by (meson domD nth_mem subsetD)
    moreover from this have "a = b \<Longrightarrow> ns ! j = ns ! i" using rwm_ids_range(3) [OF m(3), of "ns ! i" a "ns ! j"] m(4) by simp
    ultimately show "fst (run_ops u32_reg_win_msg ns (wm_start g)) ! i = fst (run_ops u32_reg_win_msg ns (wm_start g)) ! j \<longleftrightarrow> ns ! i = ns ! j"
      using i by (metis m(1) nth_map option.sel)
  qed
qed

theorem registered_messages_injective_witness:
  "fst (run_ops u32_reg_win_msg [[65], [66], [65]] (wm_start blank_gdi)) ! 0 = fst (run_ops u32_reg_win_msg [[65], [66], [65]] (wm_start blank_gdi)) ! 2"
proof -
  have "card (set [[65], [66], [65 :: u8]]) \<le> U32_MAX_RWM"
    by (rule order_trans [OF card_length]) (simp add: U32_MAX_RWM_def)
  then show ?thesis using registered_messages_injective [of "[[65], [66], [65]]" blank_gdi] by fastforce
qed

end
