(* ===== verification/Aret_Hierarchy.thy ===== *)
theory Aret_Hierarchy
  imports Aret_Windows_Theorems
begin

text \<open>
  The orders the window table induces: the siblings of a window, the tab order of a dialog, the
  groups of radio buttons; the range of a scroll bar; the registry of classes.
\<close>

section \<open>Scans as filters\<close>

lemma first_idx_filter: "first_idx P a b = (case filter P [a..<b] of [] \<Rightarrow> None | x # xs \<Rightarrow> Some x)"
proof (induction P a b rule: first_idx.induct)
  case (1 P a b)
  show ?case
  proof (cases "a < b")
    case True
    with 1 show ?thesis by (simp add: first_idx_step upt_conv_Cons)
  qed (simp add: first_idx_step)
qed

lemma last_idx_filter: "last_idx P n = (if filter P [0..<n] = [] then None else Some (last (filter P [0..<n])))"
  by (induction n) simp_all

text \<open>The neighbours of an element of a filtered range.\<close>

lemma filter_split:
  assumes "k < length (filter P [0..<N])" "i = filter P [0..<N] ! k"
  shows "filter P [0..<i] = take k (filter P [0..<N])" "filter P [Suc i..<N] = drop (Suc k) (filter P [0..<N])" "i < N" "P i"
proof -
  let ?xs = "filter P [0..<N]"
  have i: "i \<in> set ?xs" using assms nth_mem by blast
  then show "i < N" "P i" by auto
  then have "[0..<N] = [0..<i] @ i # [Suc i..<N]" by (metis le0 less_imp_le upt_conv_Cons upt_add_eq_append le_add_diff_inverse add_0)
  then have xs: "?xs = filter P [0..<i] @ i # filter P [Suc i..<N]" using \<open>P i\<close> by simp
  have "?xs ! length (filter P [0..<i]) = i" "length (filter P [0..<i]) < length ?xs" by (subst xs, simp)+
  moreover have "distinct ?xs" by simp
  ultimately have k: "k = length (filter P [0..<i])" using assms by (metis nth_eq_iff_index_eq)
  show "filter P [0..<i] = take k ?xs" "filter P [Suc i..<N] = drop (Suc k) ?xs" by (subst xs, simp add: k)+
qed

lemma next_in_filter:
  assumes "k < length (filter P [0..<N])"
  shows "first_idx P (Suc (filter P [0..<N] ! k)) N = (if Suc k < length (filter P [0..<N]) then Some (filter P [0..<N] ! Suc k) else None)"
  unfolding first_idx_filter filter_split(2) [OF assms refl] by (simp add: Cons_nth_drop_Suc [symmetric])

lemma prev_in_filter:
  assumes "k < length (filter P [0..<N])"
  shows "last_idx P (filter P [0..<N] ! k) = (if k = 0 then None else Some (filter P [0..<N] ! (k - 1)))"
  unfolding last_idx_filter filter_split(1) [OF assms refl] using assms by (auto simp: last_conv_nth min_def)

section \<open>Siblings\<close>

lemma unat_hwnd: "i < U32_MAX_WIN \<Longrightarrow> unat (hwnd_of i) = Suc i"
  unfolding hwnd_of_def by (simp only: unat_of_nat) (simp add: U32_MAX_WIN_def)

lemma hwnd_nonzero [simp]: "i < U32_MAX_WIN \<Longrightarrow> hwnd_of i \<noteq> 0"
  by (metis unat_hwnd unat_0 nat.distinct(1))

lemma hwnd_inj: "i < U32_MAX_WIN \<Longrightarrow> j < U32_MAX_WIN \<Longrightarrow> hwnd_of i = hwnd_of j \<longleftrightarrow> i = j"
  by (metis unat_hwnd nat.inject)

lemma win_idx_hwnd: "wm_ok s \<Longrightarrow> i < U32_MAX_WIN \<Longrightarrow> win_idx s (hwnd_of i) = (if w_used (win s i) then Some i else None)"
  by (simp add: win_idx_def u32_win_idx_def unat_hwnd wm_ok_def word_le_nat_alt del: One_nat_def)

lemma win_idxD: "wm_ok s \<Longrightarrow> win_idx s h = Some i \<Longrightarrow> i < U32_MAX_WIN \<and> w_used (win s i) \<and> h = hwnd_of i"
proof -
  assume "wm_ok s" "win_idx s h = Some i"
  then have *: "unat h \<le> U32_MAX_WIN" "unat h = Suc i" "w_used (win s i)"
    by (auto simp: win_idx_def u32_win_idx_def wm_ok_def word_le_nat_alt split: if_splits)
  have "h = hwnd_of i" unfolding hwnd_of_def *(2) [symmetric] by simp
  with * show ?thesis by linarith
qed

definition kids :: "wm \<Rightarrow> u32 \<Rightarrow> nat list" where
  "kids s p = filter (child_of s p) [0..<U32_MAX_WIN]"

text \<open>A call of \<^verbatim>\<open>GetWindow\<close>, and the walk that repeats it until it answers 0.\<close>

definition gw :: "u32 \<Rightarrow> wm \<Rightarrow> u32 \<Rightarrow> u32 \<Rightarrow> u32" where
  "gw esp s h cmd = fst (aret_GetWindow esp (push_args esp [h, cmd] s))"

primrec gw_walk :: "nat \<Rightarrow> u32 \<Rightarrow> wm \<Rightarrow> u32 \<Rightarrow> u32 \<Rightarrow> u32 list" where
  "gw_walk 0 esp s cmd h = []"
| "gw_walk (Suc n) esp s cmd h = (if h = 0 then [] else h # gw_walk n esp s cmd (gw esp s h cmd))"

lemma push_args_win [simp]: "g_u32_win (push_args esp vs s) = g_u32_win s"
  by (induction vs arbitrary: esp s) (simp_all only: push_args.simps wm.simps hle.simps gdi.simps, simp)

lemma push_args_reads [simp]:
  "win_idx (push_args esp vs s) = win_idx s" "child_of (push_args esp vs s) = child_of s" "u32_first_child (push_args esp vs s) = u32_first_child s"
proof -
  show "win_idx (push_args esp vs s) = win_idx s" and c: "child_of (push_args esp vs s) = child_of s"
    by (simp_all add: fun_eq_iff win_idx_def child_of_def)
  show "u32_first_child (push_args esp vs s) = u32_first_child s" by (simp add: fun_eq_iff u32_first_child_def c)
qed

lemma first_child_kids: "u32_first_child s p = (if kids s p = [] then 0 else hwnd_of (hd (kids s p)))"
  by (cases "kids s p") (simp_all add: u32_first_child_def first_idx_filter opt_hwnd_def flip: kids_def)

lemma kids_props: "k < length (kids s p) \<Longrightarrow> kids s p ! k < U32_MAX_WIN \<and> child_of s p (kids s p ! k)"
  using filter_split(3,4) [of k "child_of s p" U32_MAX_WIN, folded kids_def, OF _ refl] by blast

lemma gw_sibling:
  assumes "wm_ok s" "k < length (kids s p)"
  shows "gw esp s (hwnd_of (kids s p ! k)) 2 = (if Suc k < length (kids s p) then hwnd_of (kids s p ! Suc k) else 0)"
    "gw esp s (hwnd_of (kids s p ! k)) 3 = (if k = 0 then 0 else hwnd_of (kids s p ! (k - 1)))"
    "gw esp s (hwnd_of (kids s p ! k)) 1 = hwnd_of (last (kids s p))"
proof -
  let ?i = "kids s p ! k"
  have i: "?i < U32_MAX_WIN" "child_of s p ?i" using kids_props [OF assms(2)] by auto
  then have w: "win_idx s (hwnd_of ?i) = Some ?i" "w_parent (win s ?i) = p"
    using win_idx_hwnd [OF assms(1) i(1)] by (auto simp: child_of_def)
  note n = next_in_filter [of k "child_of s p" U32_MAX_WIN, folded kids_def, OF assms(2)]
  note b = prev_in_filter [of k "child_of s p" U32_MAX_WIN, folded kids_def, OF assms(2)]
  have "kids s p \<noteq> []" using assms(2) by auto
  then have "last_idx (child_of s p) U32_MAX_WIN = Some (last (kids s p))" by (simp add: last_idx_filter kids_def)
  with w n b show "gw esp s (hwnd_of ?i) 2 = (if Suc k < length (kids s p) then hwnd_of (kids s p ! Suc k) else 0)"
    "gw esp s (hwnd_of ?i) 3 = (if k = 0 then 0 else hwnd_of (kids s p ! (k - 1)))"
    "gw esp s (hwnd_of ?i) 1 = hwnd_of (last (kids s p))"
    by (simp_all add: gw_def aret_GetWindow_def with_win_def Let_def opt_hwnd_def)
qed

lemma walk_from:
  assumes "wm_ok s" "k < length (kids s p)"
  shows "length (kids s p) - k \<le> n \<Longrightarrow> gw_walk n esp s 2 (hwnd_of (kids s p ! k)) = map hwnd_of (drop k (kids s p))"
  using assms(2)
proof (induction n arbitrary: k)
  case (Suc n)
  have "hwnd_of (kids s p ! k) \<noteq> 0" using kids_props [OF Suc.prems(2)] by simp
  then show ?case using Suc gw_sibling(1) [OF assms(1) Suc.prems(2), of esp]
    by (cases "Suc k < length (kids s p)"; cases n) (auto simp: Cons_nth_drop_Suc [symmetric])
qed simp

lemma walk_back:
  assumes "wm_ok s" "k < length (kids s p)"
  shows "k < n \<Longrightarrow> gw_walk n esp s 3 (hwnd_of (kids s p ! k)) = map hwnd_of (rev (take (Suc k) (kids s p)))"
  using assms(2)
proof (induction n arbitrary: k)
  case (Suc n)
  have "hwnd_of (kids s p ! k) \<noteq> 0" using kids_props [OF Suc.prems(2)] by simp
  then show ?case using Suc gw_sibling(2) [OF assms(1) Suc.prems(2), of esp]
    by (cases k; cases n) (auto simp: take_Suc_conv_app_nth)
qed simp

text \<open>The children of a window are one list, in the order of their slots: from \<^verbatim>\<open>GW_CHILD\<close>, following
  \<^verbatim>\<open>GW_HWNDNEXT\<close> visits every child exactly once and then answers 0, and from \<^verbatim>\<open>GW_HWNDLAST\<close> of any of
  them, following \<^verbatim>\<open>GW_HWNDPREV\<close> visits the same list backwards.\<close>

theorem sibling_walk:
  assumes "wm_ok s" "p \<noteq> U32_DESKTOP" "U32_MAX_WIN < n"
  shows "gw_walk n esp s 2 (gw esp s p 5) = map hwnd_of (kids s p) \<and> distinct (map hwnd_of (kids s p)) \<and>
    (\<forall>c \<in> set (kids s p). gw_walk n esp s 3 (gw esp s (hwnd_of c) 1) = rev (map hwnd_of (kids s p)))"
proof (intro conjI ballI)
  have l: "length (kids s p) \<le> U32_MAX_WIN" unfolding kids_def by (rule order_trans [OF length_filter_le]) simp
  have "gw esp s p 5 = u32_first_child s p" using assms(2) by (simp add: gw_def aret_GetWindow_def)
  then show "gw_walk n esp s 2 (gw esp s p 5) = map hwnd_of (kids s p)"
    using walk_from [OF assms(1), of 0 p n esp] l assms(3)
    by (cases "kids s p"; cases n) (auto simp: first_child_kids)
  have "inj_on hwnd_of (set (kids s p))" by (auto simp: inj_on_def kids_def hwnd_inj)
  then show "distinct (map hwnd_of (kids s p))" by (simp add: distinct_map kids_def)
  fix c assume "c \<in> set (kids s p)"
  then obtain k where k: "k < length (kids s p)" "c = kids s p ! k" by (metis in_set_conv_nth)
  then have "length (kids s p) - 1 < length (kids s p)" "kids s p \<noteq> []" by auto
  with walk_back [OF assms(1) this(1), of n esp] l assms(3) gw_sibling(3) [OF assms(1) k(1), of esp] k(2)
  show "gw_walk n esp s 3 (gw esp s (hwnd_of c) 1) = rev (map hwnd_of (kids s p))"
    by (simp add: last_conv_nth rev_map)
qed

text \<open>Three windows: a parent in slot 0 and its two children, radio buttons and tab stops, in slots 1 and 3.\<close>

definition family :: wm where
  "family = upd_win 3 (\<lambda>w. w\<lparr>w_used := True, w_parent := 1, w_visible := True, w_enabled := True, w_style := 0x00010009, w_check_state := 1\<rparr>)
     (upd_win 1 (\<lambda>w. w\<lparr>w_used := True, w_parent := 1, w_visible := True, w_enabled := True, w_style := 0x00010009\<rparr>)
     (upd_win 0 (\<lambda>w. w\<lparr>w_used := True\<rparr>) (wm_start blank_gdi)))"

lemma family_ok: "wm_ok family"
  unfolding family_def by (intro wm_ok_upd_win wm_start_ok) (simp_all add: U32_MAX_WIN_def)

lemma start_win: "g_u32_win (wm_start g) = replicate U32_MAX_WIN win_zero"
  by (simp add: wm_start_def gdi.defs wm.defs)

lemma family_used: "i < U32_MAX_WIN \<Longrightarrow> child_of family 1 i \<longleftrightarrow> i = 1 \<or> i = 3"
  by (auto simp: family_def child_of_def upd_win_def start_win nth_list_update U32_MAX_WIN_def win_zero_def)

lemma family_kids: "kids family 1 = [1, 3]"
proof -
  have "kids family 1 = filter (\<lambda>i. i = 1 \<or> i = 3) [0..<U32_MAX_WIN]" unfolding kids_def by (rule filter_cong) (simp_all add: family_used)
  also have "[0..<U32_MAX_WIN] = [0, 1, 2, 3] @ [4..<U32_MAX_WIN]"
    by (simp add: U32_MAX_WIN_def upt_conv_Cons)
  also have "filter (\<lambda>i. i = 1 \<or> i = 3) ([0, 1, 2, 3] @ [4..<U32_MAX_WIN]) = [1, 3]"
    by (simp add: filter_empty_conv)
  finally show ?thesis .
qed

theorem sibling_walk_witness: "gw_walk 300 0x1000 family 2 (gw 0x1000 family 1 5) = [2, 4]"
  using sibling_walk [OF family_ok, of 1 300 "0x1000"] by (simp add: family_kids U32_DESKTOP_def U32_MAX_WIN_def hwnd_of_def)

section \<open>The tab order of a dialog\<close>

lemma last_idx_unique: "k < n \<Longrightarrow> P k \<Longrightarrow> (\<And>j. j < n \<Longrightarrow> P j \<Longrightarrow> j = k) \<Longrightarrow> last_idx P n = Some k"
proof (induction n)
  case (Suc n)
  show ?case
  proof (cases "P n")
    case True
    with Suc.prems(3) [of n] show ?thesis by simp
  next
    case False
    with Suc.prems have "k < n" by (metis less_SucE)
    with False show ?thesis using Suc.IH [OF _ Suc.prems(2)] Suc.prems(3) by simp
  qed
qed simp

lemma dlg_kids_less: "k < length (dlg_kids s d tab) \<Longrightarrow> dlg_kids s d tab ! k < U32_MAX_WIN"
  using nth_mem [of k "dlg_kids s d tab"] by (auto simp: dlg_kids_def)

lemma dlg_pos:
  assumes "k < length (dlg_kids s d tab)"
  shows "last_idx (\<lambda>j. hwnd_of (dlg_kids s d tab ! j) = hwnd_of (dlg_kids s d tab ! k)) (length (dlg_kids s d tab)) = Some k"
proof (rule last_idx_unique)
  fix j assume j: "j < length (dlg_kids s d tab)" "hwnd_of (dlg_kids s d tab ! j) = hwnd_of (dlg_kids s d tab ! k)"
  then have "dlg_kids s d tab ! j = dlg_kids s d tab ! k" using assms by (simp add: hwnd_inj dlg_kids_less)
  moreover have "distinct (dlg_kids s d tab)" by (simp add: dlg_kids_def)
  ultimately show "j = k" using j(1) assms by (simp add: nth_eq_iff_index_eq)
qed (use assms in simp_all)

lemma next_dlg_item:
  assumes "win_idx s d \<noteq> None" "k < length (dlg_kids s d tab)"
  shows "u32_next_dlg_item s d (hwnd_of (dlg_kids s d tab ! k)) prev tab =
    hwnd_of (dlg_kids s d tab ! (if prev then (k + length (dlg_kids s d tab) - 1) mod length (dlg_kids s d tab)
      else (k + 1) mod length (dlg_kids s d tab)))"
proof -
  have "length (dlg_kids s d tab) \<noteq> 0" using assms(2) by linarith
  then show ?thesis using assms(1) by (auto simp: u32_next_dlg_item_def dlg_pos [OF assms(2)] Let_def split: option.splits)
qed

lemma mod_pred: "(k :: nat) < n \<Longrightarrow> (k + n - 1) mod n = (if k = 0 then n - 1 else k - 1)"
proof -
  assume k: "k < n"
  show ?thesis
  proof (cases "k = 0")
    case False
    then have "k + n - 1 = k - 1 + n" by simp
    then show ?thesis using False k by (simp only: mod_add_self2) simp
  qed (use k in simp)
qed

text \<open>C21: The tab stops of a dialog (and, for the arrow keys, its visible and enabled controls) form a
  ring: from any of them, \<open>n\<close> steps forward lead \<open>n\<close> places on around the ring, so that as many steps as
  there are stops come back to the start, and a step back undoes a step forward.\<close>

theorem tab_order_ring:
  assumes "win_idx s d \<noteq> None" "k < length (dlg_kids s d tab)"
  shows "((\<lambda>c. u32_next_dlg_item s d c False tab) ^^ n) (hwnd_of (dlg_kids s d tab ! k)) =
      hwnd_of (dlg_kids s d tab ! ((k + n) mod length (dlg_kids s d tab))) \<and>
    u32_next_dlg_item s d (u32_next_dlg_item s d (hwnd_of (dlg_kids s d tab ! k)) False tab) True tab = hwnd_of (dlg_kids s d tab ! k)"
proof (intro conjI)
  let ?K = "dlg_kids s d tab" let ?n = "length ?K"
  have pos: "0 < ?n" using assms(2) by linarith
  show "((\<lambda>c. u32_next_dlg_item s d c False tab) ^^ n) (hwnd_of (?K ! k)) = hwnd_of (?K ! ((k + n) mod ?n))"
  proof (induction n)
    case 0
    show ?case using assms(2) by simp
  next
    case (Suc n)
    have "(k + n) mod ?n < ?n" using pos by simp
    from next_dlg_item [OF assms(1) this, of False] show ?case unfolding funpow.simps o_apply Suc by (simp add: mod_Suc_eq)
  qed
  have l: "(k + 1) mod ?n < ?n" using pos by simp
  have "((k + 1) mod ?n + ?n - 1) mod ?n = k"
    unfolding mod_pred [OF l] using assms(2) by (cases "k + 1 = ?n") auto
  then show "u32_next_dlg_item s d (u32_next_dlg_item s d (hwnd_of (?K ! k)) False tab) True tab = hwnd_of (?K ! k)"
    unfolding next_dlg_item [OF assms, of False] using next_dlg_item [OF assms(1) l, of True] by simp
qed

lemma family_dlg: "dlg_kids family 1 True = [1, 3]" "win_idx family 1 = Some 0"
proof -
  have v: "w_visible (win family i) \<and> w_enabled (win family i) \<and> w_style (win family i) AND 0x00010000 \<noteq> 0" if "i = 1 \<or> i = 3" for i
    using that by (auto simp: family_def upd_win_def start_win U32_MAX_WIN_def)
  have "(child_of family 1 i \<and> w_visible (win family i) \<and> w_enabled (win family i) \<and> (True \<longrightarrow> w_style (win family i) AND 0x00010000 \<noteq> 0)) = child_of family 1 i"
    if "i < U32_MAX_WIN" for i
    using v [of i] family_used [OF that] by auto
  then have "dlg_kids family 1 True = kids family 1" unfolding dlg_kids_def kids_def by (intro filter_cong) simp_all
  then show "dlg_kids family 1 True = [1, 3]" by (simp add: family_kids)
  show "win_idx family 1 = Some 0"
    using win_idx_hwnd [OF family_ok, of 0] by (simp add: hwnd_of_def U32_MAX_WIN_def family_def upd_win_def start_win)
qed

theorem tab_order_ring_witness:
  "((\<lambda>c. u32_next_dlg_item family 1 c False True) ^^ 2) 2 = 2 \<and>
   u32_next_dlg_item family 1 (u32_next_dlg_item family 1 2 False True) True True = 2"
  using tab_order_ring [of family 1 0 True 2] by (simp add: family_dlg hwnd_of_def)

section \<open>Radio buttons\<close>

definition radio_of :: "u32 \<Rightarrow> u32_window \<Rightarrow> bool" where
  "radio_of par w \<longleftrightarrow> w_used w \<and> w_parent w = par \<and> w_style w AND 0xF = 9"

text \<open>A click on an automatic radio button leaves that one checked and every other automatic radio
  button with the same parent unchecked; of all other windows, and of everything but the check
  mark, nothing changes.\<close>

theorem radio_click_exclusive:
  assumes "i < length (g_u32_win s)" "w_style (win s i) AND 0xF = 9"
  shows "(\<forall>j < length (g_u32_win s). win (auto_check i s) j =
     (if j = i then (win s j)\<lparr>w_check_state := 1\<rparr>
      else if radio_of (w_parent (win s i)) (win s j) then (win s j)\<lparr>w_check_state := 0\<rparr> else win s j)) \<and>
    auto_check i s = s\<lparr>g_u32_win := g_u32_win (auto_check i s)\<rparr>"
  using assms by (auto simp: auto_check_def Let_def upd_win_def radio_of_def nth_list_update)

theorem radio_click_exclusive_witness:
  "w_check_state (win (auto_check 1 family) 1) = 1 \<and> w_check_state (win (auto_check 1 family) 3) = 0"
proof -
  have "1 < length (g_u32_win family)" "3 < length (g_u32_win family)" "w_style (win family 1) AND 0xF = 9" "radio_of (w_parent (win family 1)) (win family 3)"
    by (simp_all add: family_def upd_win_def start_win U32_MAX_WIN_def radio_of_def)
  with radio_click_exclusive [OF this(1,3)] show ?thesis by simp
qed

section \<open>Scroll bars\<close>

text \<open>The largest position: the maximum, less the page when the page counts, but never below the minimum.\<close>

definition bar_top :: "bool \<Rightarrow> scroll_bar \<Rightarrow> int" where
  "bar_top wp v = max (sb_min v) (sb_max v - (if wp \<and> sb_page v > 0 then sb_page v - 1 else 0))"

definition bar_int :: "scroll_bar \<Rightarrow> bool" where
  "bar_int v \<longleftrightarrow> sb_max v < 2 ^ 31 \<and> sb_page v < 2 ^ 31 \<and> - (2 ^ 31) \<le> sb_max v - max 0 (sb_page v - 1)"

lemma sb_clamp_exact:
  assumes "bar_int v"
  shows "u32_sb_clamp wp v = v\<lparr>sb_pos := max (sb_min v) (min (bar_top wp v) (sb_pos v))\<rparr>"
proof -
  have "c_int (sb_max v - (if wp \<and> sb_page v > 0 then sb_page v - 1 else 0)) = sb_max v - (if wp \<and> sb_page v > 0 then sb_page v - 1 else 0)"
    using assms by (intro c_int_id) (auto simp: bar_int_def max_def split: if_splits)
  then show ?thesis by (auto simp: u32_sb_clamp_def Let_def bar_top_def max_def min_def)
qed

text \<open>The bar with the fields of \<^verbatim>\<open>SCROLLINFO\<close> that its mask selects.\<close>

definition sel_info :: "guest_mem \<Rightarrow> u32 \<Rightarrow> scroll_bar \<Rightarrow> scroll_bar" where
  "sel_info m si v = \<lparr>sb_min = (if ld32 m (si + 4) AND 1 \<noteq> 0 then sint (ld32 m (si + 8)) else sb_min v),
     sb_max = (if ld32 m (si + 4) AND 1 \<noteq> 0 then sint (ld32 m (si + 12)) else sb_max v),
     sb_page = (if ld32 m (si + 4) AND 2 \<noteq> 0 then sint (ld32 m (si + 16)) else sb_page v),
     sb_pos = (if ld32 m (si + 4) AND 4 \<noteq> 0 then sint (ld32 m (si + 20)) else sb_pos v)\<rparr>"

lemma set_info_sel: "set_info m si v = u32_sb_clamp True (sel_info m si v)"
  by (cases v) (simp add: set_info_def sel_info_def Let_def)

lemma upd_bar_at:
  assumes "wm_ok s" "bar_of esp s = Some (i, b)"
  shows "bar (upd_bar i b f s) i b = f (bar s i b)" "i < U32_MAX_WIN" "b < 3" "win_idx s (WU esp 0 s) = Some i"
proof -
  from assms(2) have i: "win_idx s (WU esp 0 s) = Some i" "u32_sb_idx (WU esp 1 s) = Some b"
    by (auto simp: bar_of_def split: option.splits)
  then have l: "i < U32_MAX_WIN" using win_idxD [OF assms(1)] by blast
  then have w: "i < length (g_u32_win s)" "win_ok (win s i)" using assms(1) by (auto simp: wm_ok_def)
  from i(2) have "b = unat (WU esp 1 s)" "WU esp 1 s \<le> 2" by (auto simp: u32_sb_idx_def split: if_splits)
  then have b: "b < 3" by (simp add: word_le_nat_alt)
  show "bar (upd_bar i b f s) i b = f (bar s i b)" using w b by (simp add: upd_bar_def upd_win_def win_ok_def)
  show "i < U32_MAX_WIN" "b < 3" "win_idx s (WU esp 0 s) = Some i" using l b i by auto
qed

lemma push_same_bar: "wm_ok s \<Longrightarrow> bar_of esp s = Some (i, b) \<Longrightarrow> bar_of esp (upd_bar i b f s) = Some (i, b)"
proof -
  assume a: "wm_ok s" "bar_of esp s = Some (i, b)"
  have "i < length (g_u32_win s)" using upd_bar_at(2) [OF a] a(1) by (simp add: wm_ok_def)
  then have "map w_used (g_u32_win (upd_bar i b f s)) = map w_used (g_u32_win s)"
    by (intro nth_equalityI) (auto simp: upd_bar_def upd_win_def nth_list_update)
  moreover have "mem (upd_bar i b f s) = mem s" by (simp add: upd_bar_def upd_win_def)
  ultimately show ?thesis using a(2) by (simp add: bar_of_def win_idx_def WU_def)
qed

text \<open>\<^verbatim>\<open>SetScrollInfo\<close> puts the position it is given (or the one it had) to the nearest value between the
  minimum and the largest position, which is the maximum less the page but one and at least the
  minimum; it returns that value, and \<^verbatim>\<open>GetScrollPos\<close> reads it back. \<^verbatim>\<open>SetScrollPos\<close> and
  \<^verbatim>\<open>SetScrollRange\<close> do the same without the page.\<close>

theorem scroll_position_clamped:
  assumes "wm_ok s" "bar_of esp s = Some (i, b)"
  shows "(WU esp 2 s \<noteq> 0 \<longrightarrow> v = sel_info (mem s) (WU esp 2 s) (bar s i b) \<longrightarrow> bar_int v \<longrightarrow>
      bar (snd (aret_SetScrollInfo esp s)) i b = v\<lparr>sb_pos := max (sb_min v) (min (bar_top True v) (sb_pos v))\<rparr> \<and>
      fst (aret_SetScrollInfo esp s) = word_of_int (max (sb_min v) (min (bar_top True v) (sb_pos v))) \<and>
      fst (aret_GetScrollPos esp (snd (aret_SetScrollInfo esp s))) = fst (aret_SetScrollInfo esp s)) \<and>
    (bar_int (bar s i b) \<longrightarrow> bar (snd (aret_SetScrollPos esp s)) i b =
      (bar s i b)\<lparr>sb_pos := max (sb_min (bar s i b)) (min (bar_top False (bar s i b)) (WI esp 2 s))\<rparr>) \<and>
    (r = (bar s i b)\<lparr>sb_min := WI esp 2 s, sb_max := WI esp 3 s\<rparr> \<longrightarrow> bar_int r \<longrightarrow>
      bar (snd (aret_SetScrollRange esp s)) i b = r\<lparr>sb_pos := max (sb_min r) (min (bar_top False r) (sb_pos r))\<rparr>)"
proof (rule conjI [OF _ conjI]; (intro impI)?)
  note u = upd_bar_at(1) [OF assms]
  note p = push_same_bar [OF assms]
  show "bar (snd (aret_SetScrollInfo esp s)) i b = v\<lparr>sb_pos := max (sb_min v) (min (bar_top True v) (sb_pos v))\<rparr> \<and>
      fst (aret_SetScrollInfo esp s) = word_of_int (max (sb_min v) (min (bar_top True v) (sb_pos v))) \<and>
      fst (aret_GetScrollPos esp (snd (aret_SetScrollInfo esp s))) = fst (aret_SetScrollInfo esp s)"
    if "WU esp 2 s \<noteq> 0" "v = sel_info (mem s) (WU esp 2 s) (bar s i b)" "bar_int v"
    using that by (simp add: aret_SetScrollInfo_def aret_GetScrollPos_def assms(2) Let_def u p set_info_sel sb_clamp_exact)
  show "bar (snd (aret_SetScrollPos esp s)) i b =
      (bar s i b)\<lparr>sb_pos := max (sb_min (bar s i b)) (min (bar_top False (bar s i b)) (WI esp 2 s))\<rparr>"
    if "bar_int (bar s i b)"
    using that sb_clamp_exact [of "(bar s i b)\<lparr>sb_pos := WI esp 2 s\<rparr>" False]
    by (simp add: aret_SetScrollPos_def assms(2) u bar_int_def bar_top_def)
  show "bar (snd (aret_SetScrollRange esp s)) i b = r\<lparr>sb_pos := max (sb_min r) (min (bar_top False r) (sb_pos r))\<rparr>"
    if "r = (bar s i b)\<lparr>sb_min := WI esp 2 s, sb_max := WI esp 3 s\<rparr>" "bar_int r"
    using that by (simp add: aret_SetScrollRange_def assms(2) u sb_clamp_exact)
qed

lemma zero_bar: "bar_of 0x1000 (push_args 0x1000 [1, 1, 10, 20] family) = Some (0, 1)" "bar family 0 (Suc 0) = sb_zero"
proof -
  show "bar_of 0x1000 (push_args 0x1000 [1, 1, 10, 20] family) = Some (0, 1)" by (simp add: bar_of_def family_dlg u32_sb_idx_def)
  show "bar family 0 (Suc 0) = sb_zero"
    by (simp add: family_def upd_win_def start_win U32_MAX_WIN_def win_zero_def)
qed

lemma push_args_ok: "wm_ok (push_args esp vs s) \<longleftrightarrow> wm_ok s"
  by (induction vs arbitrary: esp s) (simp_all add: push_args.simps wm_ok_frame)

theorem scroll_position_clamped_witness:
  "sb_pos (bar (snd (aret_SetScrollRange 0x1000 (push_args 0x1000 [1, 1, 10, 20] family))) 0 1) = 10"
proof -
  have "WI 0x1000 2 (push_args 0x1000 [1, 1, 10, 20] family) = 10" "WI 0x1000 3 (push_args 0x1000 [1, 1, 10, 20] family) = 20"
    by (simp_all add: WI_def)
  with scroll_position_clamped [OF push_args_ok [THEN iffD2, OF family_ok] zero_bar(1)]
  show ?thesis by (simp add: zero_bar(2) sb_zero_def bar_int_def bar_top_def)
qed

section \<open>Classes\<close>

text \<open>A class registered under a new name of at most 127 characters is found again by that name and by
  the atom of the registration, \<^verbatim>\<open>GetClassInfo\<close> writes back the ten fields it was registered with
  (with the name pointer it was asked with), the Ex form the small icon too, and every class that
  was registered before is still found where it was.\<close>

theorem class_register_roundtrip:
  assumes "wm_ok s" "u32_class_index (g_u32_class s) (CName n) = None" "length n \<le> 127" "length f = 9" "out \<noteq> 0"
    and i: "first_idx (\<lambda>i. \<not> c_used (g_u32_class s ! i)) 0 U32_MAX_CLASSES = Some i"
  shows "fst (u32_class_register f sm n s) = 0xC000 + of_nat i \<and>
    (r = CName n \<or> r = CAtom (0xC000 + of_nat i) \<longrightarrow>
       fst (u32_get_class_info r out nm ex (snd (u32_class_register f sm n s))) = 0xC000 + of_nat i \<and>
       ld_dwords (mem (snd (u32_get_class_info r out nm False (snd (u32_class_register f sm n s))))) out 10 = f @ [nm] \<and>
       ld_dwords (mem (snd (u32_get_class_info r out nm True (snd (u32_class_register f sm n s))))) (out + 4) 11 = f @ [nm, sm]) \<and>
    (u32_class_index (g_u32_class s) (CName m) = Some j \<longrightarrow>
       u32_class_index (g_u32_class (snd (u32_class_register f sm n s))) (CName m) = Some j)"
proof (rule conjI [OF _ conjI]; (intro impI)?)
  let ?C = "g_u32_class s" let ?s = "snd (u32_class_register f sm n s)"
  let ?c = "\<lparr>c_used = True, c_name = u32_wcpy n 128, c_wndproc = f ! 1, c_hbr_bg = f ! 7, c_style = f ! 0, c_cls_extra = f ! 2,
     c_wnd_extra = f ! 3, c_hinstance = f ! 4, c_hicon = f ! 5, c_hcursor = f ! 6, c_menu_name = f ! 8, c_hicon_sm = sm\<rparr>"
  have len: "length ?C = U32_MAX_CLASSES" using assms(1) by (simp add: wm_ok_def)
  from first_idx_SomeD [OF i] have il: "i < U32_MAX_CLASSES" "\<not> c_used (?C ! i)" by auto
  have C: "g_u32_class ?s = ?C[i := ?c]" using i il(1) len by (simp add: u32_class_register_def)
  show "fst (u32_class_register f sm n s) = 0xC000 + of_nat i" using i by (simp add: u32_class_register_def)
  have miss: "j < U32_MAX_CLASSES \<Longrightarrow> \<not> (c_used (?C ! j) \<and> c_name (?C ! j) = n)" for j
    using assms(2) by (simp add: u32_class_index_def first_idx_None_iff)
  have "unat (0xC000 + of_nat i - 0xC000 :: u32) = i" using il(1) by (simp add: U32_MAX_CLASSES_def unat_of_nat)
  then have at: "u32_class_index (?C[i := ?c]) (CAtom (0xC000 + of_nat i)) = Some i"
    using il(1) len by (simp add: u32_class_index_def)
  have nm: "u32_class_index (?C[i := ?c]) (CName n) = Some i"
    unfolding u32_class_index_def class_ref.case
    by (rule first_idx_unique) (use il len miss assms(3) in \<open>auto simp: u32_wcpy_def nth_list_update split: if_splits\<close>)
  have "class_fields ?c nm = f @ [nm]" for nm using assms(4) by (auto simp: class_fields_def length_Suc_conv numeral_eq_Suc)
  then show "fst (u32_get_class_info r out nm ex ?s) = 0xC000 + of_nat i \<and>
       ld_dwords (mem (snd (u32_get_class_info r out nm False ?s))) out 10 = f @ [nm] \<and>
       ld_dwords (mem (snd (u32_get_class_info r out nm True ?s))) (out + 4) 11 = f @ [nm, sm]"
    if "r = CName n \<or> r = CAtom (0xC000 + of_nat i)"
    using that at nm len il(1) assms(4,5) by (auto simp: u32_get_class_info_def C Let_def)
  show "u32_class_index (g_u32_class ?s) (CName m) = Some j" if m: "u32_class_index ?C (CName m) = Some j"
  proof -
    from m have "first_idx (\<lambda>k. c_used (?C ! k) \<and> c_name (?C ! k) = m) 0 U32_MAX_CLASSES = Some j" by (simp add: u32_class_index_def)
    from first_idx_SomeD [OF this] miss have j: "j < U32_MAX_CLASSES" "c_used (?C ! j)" "c_name (?C ! j) = m" "m \<noteq> n" "\<forall>k<j. \<not> (c_used (?C ! k) \<and> c_name (?C ! k) = m)" by auto
    then show ?thesis using il len assms(3) unfolding C u32_class_index_def class_ref.case first_idx_Some_iff
      by (auto simp: nth_list_update u32_wcpy_def)
  qed
qed

theorem class_register_roundtrip_witness:
  "ld_dwords (mem (snd (u32_get_class_info (CName [65]) 0x2000 0x3000 False (snd (u32_class_register [1, 2, 3, 4, 5, 6, 7, 8, 9] 0 [65] (wm_start blank_gdi)))))) 0x2000 10
     = [1, 2, 3, 4, 5, 6, 7, 8, 9, 0x3000]"
proof -
  let ?s = "wm_start blank_gdi"
  have c: "g_u32_class ?s = replicate U32_MAX_CLASSES class_zero" by (simp add: wm_start_def gdi.defs wm.defs)
  have "u32_class_index (g_u32_class ?s) (CName [65]) = None" by (simp add: c u32_class_index_def first_idx_None_iff class_zero_def)
  moreover have "first_idx (\<lambda>i. \<not> c_used (g_u32_class ?s ! i)) 0 U32_MAX_CLASSES = Some 0"
    by (simp add: c first_idx_Some_iff class_zero_def U32_MAX_CLASSES_def)
  ultimately show ?thesis
    using class_register_roundtrip [OF wm_start_ok [of blank_gdi], of "[65]" "[1, 2, 3, 4, 5, 6, 7, 8, 9]" "0x2000" 0 0 "CName [65]" "0x3000" False]
    by simp
qed

section \<open>A reused slot\<close>

text \<open>A new window takes the first free slot of the table, and everything about it is what the
  arguments say on a cleared slot, except for four fields that keep what the slot's former window
  left there: the Unicode flag, the check state, and the rectangle and complexity of a window
  region (which is marked unset).\<close>

theorem window_create_slot:
  assumes "wm_ok s" "wndproc \<noteq> 0 \<or> is_ctrl" "first_idx (\<lambda>i. \<not> w_used (win s i)) 0 U32_MAX_WIN = Some i"
  shows "fst (u32_window_create wndproc ex st x y w h par title is_ctrl s) = hwnd_of i"
    "win (snd (u32_window_create wndproc ex st x y w h par title is_ctrl s)) i =
      (win_init wndproc ex st x y w h par title win_zero)\<lparr>w_unicode := w_unicode (win s i), w_check_state := w_check_state (win s i),
         w_rgn := w_rgn (win s i), w_rgn_complex := w_rgn_complex (win s i)\<rparr>"
    "j \<noteq> i \<Longrightarrow> win (snd (u32_window_create wndproc ex st x y w h par title is_ctrl s)) j = win s j"
proof -
  have l: "i < length (g_u32_win s)" using assms(1) first_idx_SomeD [OF assms(3)] by (simp add: wm_ok_def)
  have c: "u32_window_create wndproc ex st x y w h par title is_ctrl s = (hwnd_of i, upd_win i (win_init wndproc ex st x y w h par title) s)"
    using assms(2,3) by (auto simp: u32_window_create_def)
  show "fst (u32_window_create wndproc ex st x y w h par title is_ctrl s) = hwnd_of i" by (simp add: c)
  have e: "win_init wndproc ex st x y w h par title v =
      (win_init wndproc ex st x y w h par title win_zero)\<lparr>w_unicode := w_unicode v, w_check_state := w_check_state v, w_rgn := w_rgn v, w_rgn_complex := w_rgn_complex v\<rparr>" for v
    by (cases v) (simp add: win_init_def win_zero_def Let_def)
  show "win (snd (u32_window_create wndproc ex st x y w h par title is_ctrl s)) i =
      (win_init wndproc ex st x y w h par title win_zero)\<lparr>w_unicode := w_unicode (win s i), w_check_state := w_check_state (win s i),
         w_rgn := w_rgn (win s i), w_rgn_complex := w_rgn_complex (win s i)\<rparr>"
    using l e [of "win s i"] by (simp add: c upd_win_def)
  show "j \<noteq> i \<Longrightarrow> win (snd (u32_window_create wndproc ex st x y w h par title is_ctrl s)) j = win s j"
    using l by (simp add: c upd_win_def)
qed

theorem window_create_slot_witness:
  "w_check_state (win (snd (u32_window_create 0 0 0x50000003 0 0 9 9 1 [] True (upd_win 0 (\<lambda>w. w\<lparr>w_check_state := 1\<rparr>) (wm_start blank_gdi)))) 0) = 1"
proof -
  let ?s = "upd_win 0 (\<lambda>w. w\<lparr>w_check_state := 1\<rparr>) (wm_start blank_gdi)"
  have "wm_ok ?s" by (intro wm_ok_upd_win wm_start_ok) (simp_all add: U32_MAX_WIN_def)
  moreover have "first_idx (\<lambda>i. \<not> w_used (win ?s i)) 0 U32_MAX_WIN = Some 0"
    by (simp add: first_idx_Some_iff upd_win_def start_win U32_MAX_WIN_def) (simp add: win_zero_def)
  ultimately show ?thesis
    using window_create_slot(2) [of ?s 0 True 0 0 "0x50000003" 0 0 9 9 1 "[]"] by (simp add: upd_win_def start_win U32_MAX_WIN_def)
qed

end
