(* ===== verification/Aret_Messages_Theorems.thy ===== *)
theory Aret_Messages_Theorems
  imports Aret_Hierarchy
begin

text \<open>
  What the message component promises. The ring of posted messages is a bounded queue; the
  contract of such a queue is a locale and the ring an interpretation of it. On it rest the order
  in which \<^verbatim>\<open>GetMessage\<close> delivers, when it returns and when it cannot, and the modal dialogs.
\<close>

section \<open>A ring of messages is a bounded queue\<close>

definition ring_list :: "nat \<Rightarrow> 'a list \<Rightarrow> nat \<Rightarrow> nat \<Rightarrow> 'a list" where
  "ring_list N q h t = map (\<lambda>k. q ! ((h + k) mod N)) [0..<(t + N - h) mod N]"

lemma ring_size:
  fixes h t N :: nat
  assumes "h < N" "t < N"
  shows "(t + N - h) mod N = (if h \<le> t then t - h else t + N - h)"
proof (cases "h \<le> t")
  case True
  then have "t + N - h = (t - h) + N" by simp
  then have "(t + N - h) mod N = (t - h) mod N" by (simp only: mod_add_self2)
  with True assms show ?thesis by simp
qed (use assms in simp)

lemma ring_next: "t < N \<Longrightarrow> Suc t mod N = (if Suc t = N then 0 else Suc t)"
  by simp

lemma ring_length: "h < N \<Longrightarrow> t < N \<Longrightarrow> length (ring_list N q h t) = (if h \<le> t then t - h else t + N - h)"
  by (simp add: ring_list_def ring_size)

lemma ring_full:
  assumes "h < N" "t < N"
  shows "(t + 1) mod N = h \<longleftrightarrow> length (ring_list N q h t) = N - 1"
  using assms by (auto simp: ring_length ring_next)

lemma ring_empty: "h < N \<Longrightarrow> t < N \<Longrightarrow> h = t \<longleftrightarrow> ring_list N q h t = []"
  using ring_length [of h N t q] by (auto simp flip: length_0_conv)

lemma ring_pop:
  assumes "h < N" "t < N" "h \<noteq> t"
  shows "ring_list N q h t = q ! h # ring_list N q ((h + 1) mod N) t"
proof -
  let ?h = "(h + 1) mod N"
  have h: "?h < N" using assms by simp
  have n: "(t + N - h) mod N = Suc ((t + N - ?h) mod N)"
    using assms h by (auto simp: ring_size ring_next)
  have s: "(h + Suc k) mod N = (?h + k) mod N" for k by (simp add: mod_add_left_eq)
  have "ring_list N q h t = q ! ((h + 0) mod N) # map (\<lambda>k. q ! ((h + Suc k) mod N)) [0..<(t + N - ?h) mod N]"
    by (simp only: ring_list_def n map_upt_Suc)
  also have "\<dots> = q ! h # ring_list N q ?h t"
    by (simp only: s ring_list_def add_0_right mod_less [OF assms(1)])
  finally show ?thesis .
qed

lemma ring_push:
  assumes "h < N" "t < N" "length q = N" "(t + 1) mod N \<noteq> h"
  shows "ring_list N (q[t := x]) h ((t + 1) mod N) = ring_list N q h t @ [x]"
proof -
  let ?t = "(t + 1) mod N" and ?n = "(t + N - h) mod N"
  have t: "?t < N" using assms by simp
  have n: "(?t + N - h) mod N = Suc ?n"
    using assms t by (auto simp: ring_size ring_next)
  have l: "ring_list N q h t @ [x] = map (\<lambda>k. q[t := x] ! ((h + k) mod N)) [0..<Suc ?n]"
    if "\<And>k. k < ?n \<Longrightarrow> (h + k) mod N \<noteq> t" "(h + ?n) mod N = t"
    using that assms(2,3) by (auto simp: ring_list_def nth_list_update_neq [OF not_sym])
  have a: "(h + k) mod N \<noteq> t" if k: "k < ?n" for k
  proof (cases "h + k < N")
    case False
    have "h + k - N < N" using k assms by (simp add: ring_size split: if_splits)
    then have "(h + k) mod N = h + k - N" using False by (simp add: le_mod_geq)
    with False k assms show ?thesis by (auto simp: ring_size split: if_splits)
  qed (use k assms in \<open>auto simp: ring_size split: if_splits\<close>)
  have b: "(h + ?n) mod N = t"
  proof (cases "h \<le> t")
    case False
    then have "h + ?n = t + N" using assms by (simp add: ring_size)
    then show ?thesis using assms by simp
  qed (use assms in \<open>simp add: ring_size\<close>)
  have "ring_list N (q[t := x]) h ?t = map (\<lambda>k. q[t := x] ! ((h + k) mod N)) [0..<Suc ?n]" by (simp only: ring_list_def n)
  also have "\<dots> = ring_list N q h t @ [x]" by (rule l [OF a b, symmetric])
  finally show ?thesis .
qed

locale bounded_queue =
  fixes inv :: "'s \<Rightarrow> bool" and contents :: "'s \<Rightarrow> 'm list" and push :: "'m \<Rightarrow> 's \<Rightarrow> bool \<times> 's" and pop :: "'s \<Rightarrow> 's" and cap :: nat
  assumes push_room: "inv s \<Longrightarrow> length (contents s) < cap \<Longrightarrow>
      fst (push m s) \<and> inv (snd (push m s)) \<and> contents (snd (push m s)) = contents s @ [m]"
    and push_full: "inv s \<Longrightarrow> length (contents s) = cap \<Longrightarrow> push m s = (False, s)"
    and size: "inv s \<Longrightarrow> length (contents s) \<le> cap"
    and pop_law: "inv s \<Longrightarrow> contents s \<noteq> [] \<Longrightarrow> inv (pop s) \<and> contents (pop s) = tl (contents s)"
begin

lemma push_inv: "inv s \<Longrightarrow> inv (snd (push m s))"
  using push_room push_full size [of s] by (cases "length (contents s) < cap") auto

text \<open>Posting appends as much as fits; nothing that was there moves or is lost.\<close>

lemma push_append: "inv s \<Longrightarrow> \<exists>ts. contents (snd (push m s)) = contents s @ ts \<and> set ts \<subseteq> {m}"
  using push_room [of s m] push_full [of s m] size [of s] by (cases "length (contents s) < cap") auto

lemma push_fits: "inv s \<Longrightarrow> fst (push m s) \<longleftrightarrow> length (contents s) < cap"
  using push_room [of s m] push_full [of s m] size [of s] by (cases "length (contents s) < cap") auto

lemma push_list: "inv s \<Longrightarrow> length (contents s) + length ms \<le> cap \<Longrightarrow>
   inv (fold (\<lambda>m s. snd (push m s)) ms s) \<and> contents (fold (\<lambda>m s. snd (push m s)) ms s) = contents s @ ms"
proof (induction ms arbitrary: s)
  case (Cons m ms)
  with push_room [of s m] have "inv (snd (push m s))" "contents (snd (push m s)) = contents s @ [m]" by auto
  with Cons show ?case by simp
qed simp

end

text \<open>The ring state, and what a receiver sees of a message besides its time stamp.\<close>

type_synonym msg4 = "u32 \<times> u32 \<times> u32 \<times> u32"

definition msg4_of :: "u32_msg \<Rightarrow> msg4" where
  "msg4_of m = (m_hwnd m, m_message m, m_wParam m, m_lParam m)"

definition q_msgs :: "wm \<Rightarrow> u32_msg list" where
  "q_msgs s = ring_list U32_MAX_MSG (g_u32_q s) (g_u32_qh s) (g_u32_qt s)"

definition posted :: "wm \<Rightarrow> msg4 list" where
  "posted s = map msg4_of (q_msgs s)"

fun post4 :: "host \<Rightarrow> msg4 \<Rightarrow> wm \<Rightarrow> bool \<times> wm" where
  "post4 h (a, b, c, d) s = (case u32_q_push h a b c d s of (r, s) \<Rightarrow> (r = 1, s))"

lemma q_empty_iff: "q_ok s \<Longrightarrow> u32_q_empty s \<longleftrightarrow> q_msgs s = []"
  by (simp add: q_ok_def u32_q_empty_def q_msgs_def flip: ring_empty)

lemma q_push_full: "q_ok s \<Longrightarrow> length (q_msgs s) = U32_MAX_MSG - 1 \<Longrightarrow> u32_q_push h a b c d s = (0, s)"
  using ring_full [of "g_u32_qh s" U32_MAX_MSG "g_u32_qt s" "g_u32_q s"]
  by (simp add: q_ok_def q_msgs_def u32_q_push_def)

definition stamped :: "host \<Rightarrow> u32 \<Rightarrow> u32 \<Rightarrow> u32 \<Rightarrow> u32 \<Rightarrow> wm \<Rightarrow> u32_msg" where
  "stamped h a b c d s = \<lparr>m_hwnd = a, m_message = b, m_wParam = c, m_lParam = d,
     m_time = ms_of (h_mono h (clock_reads s)), m_ptx = 0, m_pty = 0\<rparr>"

lemma q_push_room:
  assumes "q_ok s" "length (q_msgs s) < U32_MAX_MSG - 1"
  shows "fst (u32_q_push h a b c d s) = 1" "q_ok (snd (u32_q_push h a b c d s))"
    "q_msgs (snd (u32_q_push h a b c d s)) = q_msgs s @ [stamped h a b c d s]"
proof -
  have n: "(g_u32_qt s + 1) mod U32_MAX_MSG \<noteq> g_u32_qh s"
    using assms ring_full [of "g_u32_qh s" U32_MAX_MSG "g_u32_qt s" "g_u32_q s"] by (auto simp: q_ok_def q_msgs_def)
  show "fst (u32_q_push h a b c d s) = 1" using n by (simp add: u32_q_push_def mono_ns_def)
  show "q_ok (snd (u32_q_push h a b c d s))" using n assms by (simp add: u32_q_push_def mono_ns_def q_ok_def)
  show "q_msgs (snd (u32_q_push h a b c d s)) = q_msgs s @ [stamped h a b c d s]"
    using n assms ring_push [of "g_u32_qh s" U32_MAX_MSG "g_u32_qt s" "g_u32_q s" "stamped h a b c d s"]
    by (simp add: u32_q_push_def mono_ns_def q_ok_def q_msgs_def stamped_def)
qed

lemma q_len: "q_ok s \<Longrightarrow> length (q_msgs s) \<le> U32_MAX_MSG - 1"
  by (auto simp: q_ok_def q_msgs_def ring_length)

text \<open>The pieces of the state the queue operations do not touch.\<close>

lemma q_push_frame [simp]:
  "g_u32_win (snd (u32_q_push h a b c d s)) = g_u32_win s" "g_u32_timer (snd (u32_q_push h a b c d s)) = g_u32_timer s"
  "g_u32_quit (snd (u32_q_push h a b c d s)) = g_u32_quit s" "g_u32_quit_code (snd (u32_q_push h a b c d s)) = g_u32_quit_code s"
  "mem (snd (u32_q_push h a b c d s)) = mem s"
  by (simp_all add: u32_q_push_def mono_ns_def Let_def)

lemma q_push_ok: "q_ok s \<Longrightarrow> q_ok (snd (u32_q_push h a b c d s))"
  by (simp add: u32_q_push_def mono_ns_def Let_def q_ok_def)

lemma q_pop:
  assumes "q_ok s" "q_msgs s \<noteq> []"
  shows "q_ok (u32_q_peek_copy p True s)" "q_msgs (u32_q_peek_copy p True s) = tl (q_msgs s)"
    "g_u32_q s ! g_u32_qh s = hd (q_msgs s)"
proof -
  have n: "g_u32_qh s \<noteq> g_u32_qt s" using assms q_empty_iff [of s] by (simp add: u32_q_empty_def)
  note r = ring_pop [of "g_u32_qh s" U32_MAX_MSG "g_u32_qt s" "g_u32_q s", OF _ _ n]
  show "q_ok (u32_q_peek_copy p True s)" using assms by (simp add: u32_q_peek_copy_def q_ok_def Let_def)
  show "q_msgs (u32_q_peek_copy p True s) = tl (q_msgs s)" "g_u32_q s ! g_u32_qh s = hd (q_msgs s)"
    using r assms by (simp_all add: u32_q_peek_copy_def q_msgs_def q_ok_def Let_def)
qed

interpretation mq: bounded_queue q_ok posted "post4 h" "u32_q_peek_copy 0 True" "U32_MAX_MSG - 1" for h
proof
  fix s and m :: msg4 assume s: "q_ok s" "length (posted s) < U32_MAX_MSG - 1"
  obtain a b c d where m: "m = (a, b, c, d)" by (cases m) auto
  show "fst (post4 h m s) \<and> q_ok (snd (post4 h m s)) \<and> posted (snd (post4 h m s)) = posted s @ [m]"
    using q_push_room [of s h a b c d] s by (simp add: m posted_def stamped_def msg4_of_def case_prod_beta)
next
  fix s and m :: msg4 assume "q_ok s" "length (posted s) = U32_MAX_MSG - 1"
  then show "post4 h m s = (False, s)" by (cases m) (simp add: posted_def q_push_full)
next
  fix s assume "q_ok s" then show "length (posted s) \<le> U32_MAX_MSG - 1" by (simp add: posted_def q_len del: One_nat_def)
next
  fix s assume "q_ok s" "posted s \<noteq> []"
  then show "q_ok (u32_q_peek_copy 0 True s) \<and> posted (u32_q_peek_copy 0 True s) = tl (posted s)"
    using q_pop [of s] by (simp add: posted_def map_tl)
qed

section \<open>Timers\<close>

lemma fire_timer_frame [simp]:
  "g_u32_win (fire_timer h now i s) = g_u32_win s" "g_u32_quit (fire_timer h now i s) = g_u32_quit s"
  "g_u32_quit_code (fire_timer h now i s) = g_u32_quit_code s" "mem (fire_timer h now i s) = mem s"
  by (simp_all add: fire_timer_def Let_def)

lemma fire_timer_queue:
  assumes "q_ok s"
  shows "q_ok (fire_timer h now i s)" "\<exists>ts. q_msgs (fire_timer h now i s) = q_msgs s @ ts \<and> (\<forall>t\<in>set ts. m_message t = U32_WM_TIMER)"
proof -
  let ?t = "g_u32_timer s ! i"
  let ?s = "snd (u32_q_push h (t_hwnd ?t) U32_WM_TIMER (t_id ?t) (t_proc ?t) s)"
  have f: "q_msgs (fire_timer h now i s) = (if t_used ?t \<and> now \<ge> t_due_ns ?t then q_msgs ?s else q_msgs s)"
    by (simp add: fire_timer_def Let_def q_msgs_def)
  show "q_ok (fire_timer h now i s)" using q_push_ok [OF assms] assms by (simp add: fire_timer_def Let_def q_ok_def)
  show "\<exists>ts. q_msgs (fire_timer h now i s) = q_msgs s @ ts \<and> (\<forall>t\<in>set ts. m_message t = U32_WM_TIMER)"
  proof (cases "length (q_msgs s) < U32_MAX_MSG - 1")
    case True
    then have p: "q_msgs ?s = q_msgs s @ [stamped h (t_hwnd ?t) U32_WM_TIMER (t_id ?t) (t_proc ?t) s]" by (rule q_push_room(3) [OF assms])
    show ?thesis
    proof (cases "t_used ?t \<and> now \<ge> t_due_ns ?t")
      case True
      then show ?thesis unfolding f p by (intro exI [of _ "[_]"]) (auto simp: stamped_def)
    qed (auto simp: f)
  next
    case False
    then have "length (q_msgs s) = U32_MAX_MSG - 1" using q_len [OF assms] by linarith
    then show ?thesis by (simp add: f q_push_full [OF assms])
  qed
qed

lemma fire_timers_queue:
  assumes "q_ok s"
  shows "q_ok (fold (fire_timer h now) is s) \<and>
    (\<exists>ts. q_msgs (fold (fire_timer h now) is s) = q_msgs s @ ts \<and> (\<forall>t\<in>set ts. m_message t = U32_WM_TIMER))"
  using assms
proof (induction "is" arbitrary: s)
  case (Cons i is')
  obtain us where u: "q_msgs (fire_timer h now i s) = q_msgs s @ us" "\<forall>t\<in>set us. m_message t = U32_WM_TIMER"
    using fire_timer_queue(2) [OF Cons.prems] by blast
  from Cons.IH [OF fire_timer_queue(1) [OF Cons.prems, of h now i]]
  obtain ts where "q_msgs (fold (fire_timer h now) is' (fire_timer h now i s)) = (q_msgs s @ us) @ ts"
      "\<forall>t\<in>set ts. m_message t = U32_WM_TIMER" "q_ok (fold (fire_timer h now) is' (fire_timer h now i s))"
    unfolding u(1) by blast
  with u(2) show ?case by (intro conjI exI [of _ "us @ ts"]) auto
qed simp

lemma pump_frame [simp]:
  "g_u32_win (u32_pump_timers h s) = g_u32_win s" "g_u32_quit (u32_pump_timers h s) = g_u32_quit s"
  "g_u32_quit_code (u32_pump_timers h s) = g_u32_quit_code s" "mem (u32_pump_timers h s) = mem s"
proof -
  have "g_u32_win (fold (fire_timer h now) is s) = g_u32_win s \<and> g_u32_quit (fold (fire_timer h now) is s) = g_u32_quit s
      \<and> g_u32_quit_code (fold (fire_timer h now) is s) = g_u32_quit_code s \<and> mem (fold (fire_timer h now) is s) = mem s" for now "is" s
    by (induction "is" arbitrary: s) simp_all
  then show "g_u32_win (u32_pump_timers h s) = g_u32_win s" "g_u32_quit (u32_pump_timers h s) = g_u32_quit s"
    "g_u32_quit_code (u32_pump_timers h s) = g_u32_quit_code s" "mem (u32_pump_timers h s) = mem s"
    by (simp_all add: u32_pump_timers_def mono_ns_def)
qed

lemma pump_queue:
  assumes "q_ok s"
  shows "q_ok (u32_pump_timers h s)" "\<exists>ts. q_msgs (u32_pump_timers h s) = q_msgs s @ ts \<and> (\<forall>t\<in>set ts. m_message t = U32_WM_TIMER)"
proof -
  let ?s = "s\<lparr>clock_reads := Suc (clock_reads s)\<rparr>"
  have "q_ok ?s" "q_msgs ?s = q_msgs s" using assms by (simp_all add: q_ok_def q_msgs_def)
  with fire_timers_queue [of ?s h "h_mono h (clock_reads s)" "[0..<U32_MAX_TIMER]"]
  show "q_ok (u32_pump_timers h s)" "\<exists>ts. q_msgs (u32_pump_timers h s) = q_msgs s @ ts \<and> (\<forall>t\<in>set ts. m_message t = U32_WM_TIMER)"
    by (simp_all add: u32_pump_timers_def mono_ns_def)
qed

text \<open>With no timer due the pump only reads the clock.\<close>

definition due :: "u64 \<Rightarrow> wm \<Rightarrow> bool" where
  "due now s \<longleftrightarrow> (\<exists>i<U32_MAX_TIMER. t_used (g_u32_timer s ! i) \<and> t_due_ns (g_u32_timer s ! i) \<le> now)"

lemma pump_idle:
  assumes "\<not> due (h_mono h (clock_reads s)) s"
  shows "u32_pump_timers h s = s\<lparr>clock_reads := Suc (clock_reads s)\<rparr>"
proof -
  let ?s = "s\<lparr>clock_reads := Suc (clock_reads s)\<rparr>" and ?now = "h_mono h (clock_reads s)"
  have "fire_timer h ?now i ?s = ?s" if "i < U32_MAX_TIMER" for i
    using assms that by (auto simp: fire_timer_def due_def Let_def)
  then have "fold (fire_timer h ?now) is ?s = ?s" if "set is \<subseteq> {..<U32_MAX_TIMER}" for "is"
    using that by (induction "is") auto
  then show ?thesis by (simp add: u32_pump_timers_def mono_ns_def atLeast_upt)
qed

text \<open>A timer that is due puts a message into an empty queue.\<close>

lemma fire_timer_other: "j \<noteq> i \<Longrightarrow> g_u32_timer (fire_timer h now j s) ! i = g_u32_timer s ! i"
  by (simp add: fire_timer_def Let_def)

lemma fire_timer_due:
  assumes "q_ok s" "t_used (g_u32_timer s ! i)" "t_due_ns (g_u32_timer s ! i) \<le> now"
  shows "q_msgs (fire_timer h now i s) \<noteq> []"
proof -
  let ?t = "g_u32_timer s ! i"
  let ?s = "snd (u32_q_push h (t_hwnd ?t) U32_WM_TIMER (t_id ?t) (t_proc ?t) s)"
  have f: "q_msgs (fire_timer h now i s) = q_msgs ?s"
    using assms by (simp add: fire_timer_def Let_def q_msgs_def)
  show ?thesis
  proof (cases "length (q_msgs s) < U32_MAX_MSG - 1")
    case False
    then have "length (q_msgs s) = U32_MAX_MSG - 1" using q_len [OF assms(1)] by linarith
    then show ?thesis unfolding f by (auto simp: q_push_full [OF assms(1)] U32_MAX_MSG_def)
  qed (simp add: f q_push_room(3) [OF assms(1)])
qed

lemma fire_timers_due:
  assumes "q_ok s" "i \<in> set js" "t_used (g_u32_timer s ! i)" "t_due_ns (g_u32_timer s ! i) \<le> now"
  shows "q_msgs (fold (fire_timer h now) js s) \<noteq> []"
  using assms
proof (induction js arbitrary: s)
  case (Cons j js)
  show ?case
  proof (cases "j = i")
    case True
    have "q_msgs (fire_timer h now i s) \<noteq> []" by (rule fire_timer_due [OF Cons.prems(1,3,4)])
    with fire_timers_queue [OF fire_timer_queue(1) [OF Cons.prems(1)], of h now js h now i] True show ?thesis by auto
  next
    case False
    with Cons.prems fire_timer_queue(1) [OF Cons.prems(1), of h now j] show ?thesis
      by (simp, intro Cons.IH) (simp_all add: fire_timer_other)
  qed
qed simp

lemma pump_due:
  assumes "q_ok s" "due (h_mono h (clock_reads s)) s"
  shows "q_msgs (u32_pump_timers h s) \<noteq> []"
proof -
  let ?s = "s\<lparr>clock_reads := Suc (clock_reads s)\<rparr>" and ?now = "h_mono h (clock_reads s)"
  obtain i where "i < U32_MAX_TIMER" "t_used (g_u32_timer s ! i)" "t_due_ns (g_u32_timer s ! i) \<le> ?now"
    using assms(2) unfolding due_def by blast
  moreover have "q_ok ?s" using assms(1) by (simp add: q_ok_def)
  ultimately show ?thesis
    using fire_timers_due [of ?s i "[0..<U32_MAX_TIMER]" ?now h] by (simp add: u32_pump_timers_def mono_ns_def)
qed

section \<open>GetMessage\<close>

text \<open>C5: Posted messages are delivered in the order they were posted. With \<open>m\<close> at the head of the queue,
  one round of \<^verbatim>\<open>GetMessage\<close> returns 1 with the seven words of \<open>m\<close> in the guest's buffer, and leaves the
  rest of the queue in order, followed only by timer messages that became due; \<^verbatim>\<open>WM_QUIT\<close> and
  \<^verbatim>\<open>WM_PAINT\<close> wait until the queue is empty.\<close>

theorem posted_message_order:
  assumes "q_ok s" "q_msgs s = m # ms" "p \<noteq> 0"
  shows "\<exists>s' ts. get_message (Suc n) h p s = Some (1, s') \<and> ld_dwords (mem s') p 7 = msg_dwords m \<and> q_ok s' \<and>
    q_msgs s' = ms @ ts \<and> (\<forall>t \<in> set ts. m_message t = U32_WM_TIMER)"
proof -
  let ?s = "u32_pump_timers h s"
  obtain ts where q: "q_ok ?s" "q_msgs ?s = m # ms @ ts" "\<forall>t \<in> set ts. m_message t = U32_WM_TIMER"
    using pump_queue [OF assms(1), of h] assms(2) by auto
  have head: "g_u32_q ?s ! g_u32_qh ?s = m" using q_pop(3) [OF q(1)] q(2) by simp
  have "get_message (Suc n) h p s = Some (1, u32_q_peek_copy p True ?s)"
    using q q_empty_iff [OF q(1)] by simp
  moreover have "ld_dwords (mem (u32_q_peek_copy p True ?s)) p 7 = msg_dwords m"
  proof -
    have "length (msg_dwords m) = 7" by (simp add: msg_dwords_def)
    then show ?thesis using assms(3) by (simp add: u32_q_peek_copy_def Let_def head)
  qed
  ultimately show ?thesis using q_pop(1,2) [OF q(1), of p] q(2,3) by auto
qed

text \<open>A run of \<^verbatim>\<open>PostMessage\<close> calls queues the messages in order, as long as they fit.\<close>

lemma posted_run:
  assumes "q_ok s" "length (posted s) + length ms \<le> U32_MAX_MSG - 1"
  shows "posted (fold (\<lambda>m s. snd (post4 h m s)) ms s) = posted s @ ms"
  using mq.push_list [OF assms] by blast

lemma start_queue: "q_ok (wm_start g)" "q_msgs (wm_start g) = []"
proof -
  show "q_ok (wm_start g)" using wm_start_ok by (simp add: wm_ok_def)
  show "q_msgs (wm_start g) = []" by (simp add: q_msgs_def ring_list_def wm_start_def gdi.defs wm.defs)
qed

theorem posted_message_order_witness:
  "\<exists>s' ts. get_message 1 (def_host 1) 0x2000 (snd (u32_q_push (def_host 1) 1 0x400 2 3 (wm_start blank_gdi))) = Some (1, s') \<and>
     ld_dwords (mem s') 0x2000 7 = msg_dwords (stamped (def_host 1) 1 0x400 2 3 (wm_start blank_gdi)) \<and> q_ok s' \<and>
     q_msgs s' = [] @ ts \<and> (\<forall>t \<in> set ts. m_message t = U32_WM_TIMER)"
proof -
  have "length (q_msgs (wm_start blank_gdi)) < U32_MAX_MSG - 1" by (simp add: start_queue U32_MAX_MSG_def)
  note r = q_push_room [OF start_queue(1) this, of "def_host 1" 1 "0x400" 2 3]
  show ?thesis using posted_message_order [OF r(2), of "stamped (def_host 1) 1 0x400 2 3 (wm_start blank_gdi)" "[]" "0x2000" 0 "def_host 1"] r(3)
    by (simp add: start_queue)
qed

text \<open>While nothing is queued and no timer is due, a round of \<^verbatim>\<open>GetMessage\<close> only reads the clock.\<close>

lemma get_message_idle:
  assumes "q_ok s" "q_msgs s = []" "\<not> g_u32_quit s" "u32_next_paint s = None" "\<not> due (h_mono h (clock_reads s)) s"
  shows "get_message (Suc n) h p s = get_message n h p (s\<lparr>clock_reads := Suc (clock_reads s)\<rparr>)"
proof -
  let ?s = "s\<lparr>clock_reads := Suc (clock_reads s)\<rparr>"
  have q: "q_ok ?s" "q_msgs ?s = []" using assms by (simp_all add: q_ok_def q_msgs_def)
  moreover have "u32_next_paint ?s = None"
    using assms(4) by (simp add: u32_next_paint_def u32_win_paints_def)
  ultimately show ?thesis using assms(3) q_empty_iff [OF q(1)] pump_idle [OF assms(5)] by (simp add: Let_def)
qed

text \<open>C25: \<^verbatim>\<open>GetMessage\<close> returns once a timer comes due: if the clock readings reach the due time of a timer by
  the \<open>k\<close>-th round, the loop returns 1 within \<open>k + 1\<close> rounds whatever was queued before, provided no quit
  is pending (which it reports with 0 as soon as the queue is empty).\<close>

theorem get_message_returns_when_due:
  assumes "q_ok s" "\<not> g_u32_quit s" "due (h_mono h (clock_reads s + k)) s"
  shows "\<exists>s'. get_message (Suc k) h p s = Some (1, s')"
  using assms
proof (induction k arbitrary: s)
  case 0
  then have "q_msgs (u32_pump_timers h s) \<noteq> []" "q_ok (u32_pump_timers h s)" using pump_due [of s h] pump_queue(1) [of s h] by simp_all
  then show ?case using q_empty_iff [of "u32_pump_timers h s"] by simp
next
  case (Suc k)
  let ?s = "s\<lparr>clock_reads := Suc (clock_reads s)\<rparr>"
  note p = pump_queue [OF Suc.prems(1), of h]
  show ?case
  proof (cases "due (h_mono h (clock_reads s)) s \<or> q_msgs s \<noteq> [] \<or> u32_next_paint s \<noteq> None")
    case True
    have "u32_next_paint (u32_pump_timers h s) = u32_next_paint s" by (simp add: u32_next_paint_def u32_win_paints_def)
    then show ?thesis using True pump_due [OF Suc.prems(1), of h] p q_empty_iff [OF p(1)] Suc.prems(2)
      by (auto simp: Let_def simp del: get_message.simps(1) split: option.split)
  next
    case False
    have "q_ok ?s" "due (h_mono h (clock_reads ?s + k)) ?s" using Suc.prems by (simp_all add: q_ok_def due_def)
    with Suc.IH [of ?s] have "\<exists>s'. get_message (Suc k) h p ?s = Some (1, s')" using Suc.prems(2) by simp
    then show ?thesis using get_message_idle [OF Suc.prems(1) _ Suc.prems(2), of h "Suc k" p] False by simp
  qed
qed

definition ticking :: wm where
  "ticking = (wm_start blank_gdi)\<lparr>g_u32_timer := (replicate U32_MAX_TIMER \<lparr>t_hwnd = 0, t_id = 0, t_elapse = 0, t_proc = 0, t_due_ns = 0, t_used = False\<rparr>)
     [0 := \<lparr>t_hwnd = 1, t_id = 1, t_elapse = 5, t_proc = 0, t_due_ns = 5000000, t_used = True\<rparr>]\<rparr>"

theorem get_message_returns_when_due_witness: "\<exists>s'. get_message 6 (def_host 0) 0x2000 ticking = Some (1, s')"
proof -
  have "q_ok ticking" "\<not> g_u32_quit ticking" "clock_reads ticking = 0"
    using start_queue(1) [of blank_gdi] by (simp_all add: ticking_def q_ok_def wm_start_def gdi.defs wm.defs)
  moreover have "due 5000000 ticking" unfolding due_def by (rule exI [of _ 0]) (simp add: ticking_def U32_MAX_TIMER_def)
  ultimately show ?thesis using get_message_returns_when_due [of ticking "def_host 0" 5 "0x2000"] by simp
qed

text \<open>C33: With nothing queued, no quit, no window to paint and no timer set, \<^verbatim>\<open>GetMessage\<close> never returns: no
  number of rounds is enough. The diagnostic that the code prints in this state does not stop it.\<close>

theorem get_message_waits_forever:
  assumes "q_ok s" "q_msgs s = []" "\<not> g_u32_quit s" "u32_next_paint s = None" "\<not> u32_any_timer s"
  shows "get_message n h p s = None"
  using assms
proof (induction n arbitrary: s)
  case (Suc n)
  let ?s = "s\<lparr>clock_reads := Suc (clock_reads s)\<rparr>"
  have "\<not> due now s" for now using Suc.prems(5) by (auto simp: due_def u32_any_timer_def first_idx_None_iff)
  then have "get_message (Suc n) h p s = get_message n h p ?s" by (rule get_message_idle [OF Suc.prems(1-4)])
  also have "\<dots> = None"
    by (rule Suc.IH) (use Suc.prems in \<open>simp_all add: q_ok_def q_msgs_def u32_next_paint_def u32_win_paints_def u32_any_timer_def\<close>)
  finally show ?case .
qed simp

lemma start_idle: "\<not> g_u32_quit (wm_start g)" "u32_next_paint (wm_start g) = None" "\<not> u32_any_timer (wm_start g)"
proof -
  show "\<not> g_u32_quit (wm_start g)" by (simp add: wm_start_def gdi.defs wm.defs)
  show "u32_next_paint (wm_start g) = None" by (simp add: u32_next_paint_def first_idx_None_iff start_win win_zero_def)
  show "\<not> u32_any_timer (wm_start g)" by (simp add: u32_any_timer_def first_idx_None_iff wm_start_def gdi.defs wm.defs)
qed

theorem get_message_waits_forever_witness: "get_message 1000 (def_host 1) 0x2000 (wm_start blank_gdi) = None"
  by (rule get_message_waits_forever [OF start_queue start_idle])

end
