(* ===== verification/Aret_Dialogs_Theorems.thy ===== *)
theory Aret_Dialogs_Theorems
  imports Aret_Messages_Theorems
begin

text \<open>
  The dialog manager: numbers in dialog items survive the trip through their text, and a modal
  dialog returns the result of \<^verbatim>\<open>EndDialog\<close> and takes its windows with it.
\<close>

section \<open>Numbers as text\<close>

abbreviation digit :: "u8 \<Rightarrow> bool" where
  "digit c \<equiv> 0x30 \<le> c \<and> c \<le> 0x39"

lemma digit_of: "d < 10 \<Longrightarrow> digit (0x30 + of_nat d)" "d < 10 \<Longrightarrow> unat (0x30 + of_nat d :: u8) - 48 = d"
proof -
  assume d: "d < 10"
  then have "unat (0x30 + of_nat d :: u8) = 48 + d" by (simp add: unat_word_ariths unat_of_nat)
  then show "digit (0x30 + of_nat d)" "unat (0x30 + of_nat d :: u8) - 48 = d" using d by (simp_all add: word_le_nat_alt)
qed

lemma dec_digits_digits: "\<forall>c \<in> set (dec_digits n). digit c" "dec_digits n \<noteq> []"
proof -
  have "(\<forall>c \<in> set (dec_digits n). digit c) \<and> dec_digits n \<noteq> []"
  proof (induction n rule: dec_digits.induct)
    case (1 n)
    show ?case
    proof (cases "n < 10")
      case True
      then show ?thesis by (subst (1 2) dec_digits.simps) (simp add: digit_of)
    next
      case False
      with 1 show ?thesis by (subst (1 2) dec_digits.simps) (auto simp: digit_of)
    qed
  qed
  then show "\<forall>c \<in> set (dec_digits n). digit c" "dec_digits n \<noteq> []" by auto
qed

lemma dec_digits_val: "foldl (\<lambda>a c. 10 * a + (unat c - 48)) 0 (dec_digits n) = n"
proof (induction n rule: dec_digits.induct)
  case (1 n)
  show ?case
  proof (cases "n < 10")
    case True
    then show ?thesis by (subst dec_digits.simps) (simp add: digit_of del: of_nat_add)
  next
    case False
    with 1 show ?thesis by (subst dec_digits.simps) (simp add: digit_of)
  qed
qed

lemma split_digits:
  assumes "\<forall>c \<in> set ds. digit c" "ds \<noteq> []"
  shows "split_num ds = (False, foldl (\<lambda>a c. 10 * a + (unat c - 48)) 0 ds, True)"
    "split_num (0x2D # ds) = (True, foldl (\<lambda>a c. 10 * a + (unat c - 48)) 0 ds, True)"
proof -
  have t: "takeWhile digit ds = ds" using assms(1) by simp
  obtain c cs where ds: "ds = c # cs" using assms(2) by (cases ds) auto
  then have c: "0x30 \<le> unat c" "unat c \<le> 0x39" using assms(1) by (auto simp: word_le_nat_alt)
  have neq: "c \<noteq> 0x20" "\<not> (0x09 \<le> c \<and> c \<le> 0x0D)" "c \<noteq> 0x2D" "c \<noteq> 0x2B"
    using c by (auto simp: word_le_nat_alt)
  have d: "dropWhile (\<lambda>c. c = 0x20 \<or> (0x09 \<le> c \<and> c \<le> 0x0D)) ds = ds" using neq by (auto simp: ds)
  show "split_num ds = (False, foldl (\<lambda>a c. 10 * a + (unat c - 48)) 0 ds, True)"
    using neq assms(2) by (simp add: split_num_def d t Let_def) (simp add: ds)
  show "split_num (0x2D # ds) = (True, foldl (\<lambda>a c. 10 * a + (unat c - 48)) 0 ds, True)"
    using assms(2) by (simp add: split_num_def t Let_def)
qed

lemma split_dec: "split_num (dec_digits n) = (False, n, True)" "split_num (0x2D # dec_digits n) = (True, n, True)"
  using split_digits [OF dec_digits_digits] by (simp_all add: dec_digits_val)

lemma strtol_print: "(case split_num (print_int (sint v)) of (neg, n, whole) \<Rightarrow> (strtol32 neg n, whole)) = (v, True)"
proof -
  have "- (2 ^ 31) \<le> sint v" "sint v < 2 ^ 31" using sint_ge [of v] sint_lt [of v] by auto
  then show ?thesis by (auto simp: print_int_def split_dec strtol32_def)
qed

lemma strtoul_print: "(case split_num (dec_digits (unat v)) of (neg, n, whole) \<Rightarrow> (strtoul32 neg n, whole)) = (v, True)"
  using unsigned_less [of v, where 'a = nat] by (simp add: split_dec strtoul32_def)

lemma int_text_read:
  assumes "t = (if sg \<noteq> 0 then print_int (sint v) else dec_digits (unat v))"
  shows "(case split_num t of (neg, n, whole) \<Rightarrow> (if sg \<noteq> 0 then strtol32 neg n else strtoul32 neg n, f whole)) = (v, f True)"
  using strtol_print [of v] strtoul_print [of v] by (cases "sg = 0") (auto simp: assms split: prod.splits)

text \<open>A dialog item, and the two calls on it as the lifted code makes them.\<close>

definition set_dlg_int :: "u32 \<Rightarrow> u32 \<Rightarrow> u32 \<Rightarrow> u32 \<Rightarrow> u32 \<Rightarrow> wm \<Rightarrow> u32 \<times> wm" where
  "set_dlg_int esp hDlg cid v sg s = aret_SetDlgItemInt esp (push_args esp [hDlg, cid, v, sg] s)"

definition get_dlg_int :: "u32 \<Rightarrow> u32 \<Rightarrow> u32 \<Rightarrow> u32 \<Rightarrow> u32 \<Rightarrow> wm \<Rightarrow> u32 \<times> wm" where
  "get_dlg_int esp hDlg cid ok sg s = aret_GetDlgItemInt esp (push_args esp [hDlg, cid, ok, sg] s)"

lemma dlg_item_cong: "g_u32_win s = g_u32_win s' \<Longrightarrow> u32_dlg_item s h c = u32_dlg_item s' h c"
  by (simp add: u32_dlg_item_def dlg_find_def child_of_def)

lemma dlg_item_retitle:
  "i < length (g_u32_win s) \<Longrightarrow> u32_dlg_item (upd_win i (\<lambda>w. w\<lparr>w_title := t\<rparr>) s) h c = u32_dlg_item s h c"
  by (simp add: u32_dlg_item_def dlg_find_def child_of_def upd_win_def nth_list_update cong: if_cong)

text \<open>A number written into a dialog item with \<^verbatim>\<open>SetDlgItemInt\<close> is read back by \<^verbatim>\<open>GetDlgItemInt\<close>, for every
  32-bit value, signed or unsigned as long as both calls agree, and the success flag is 1.\<close>

theorem dlg_int_roundtrip:
  assumes "wm_ok s" "dlg_find s hDlg (sint cid) = Some i"
  shows "fst (set_dlg_int esp hDlg cid v sg s) = 1 \<and>
    fst (get_dlg_int esp hDlg cid ok sg (snd (set_dlg_int esp hDlg cid v sg s))) = v \<and>
    (ok \<noteq> 0 \<longrightarrow> ld32 (mem (snd (get_dlg_int esp hDlg cid ok sg (snd (set_dlg_int esp hDlg cid v sg s))))) ok = 1)"
proof (intro conjI impI)
  let ?t = "if sg \<noteq> 0 then print_int (sint v) else dec_digits (unat v)"
  let ?a = "push_args esp [hDlg, cid, v, sg] s" let ?u = "upd_win i (\<lambda>w. w\<lparr>w_title := ?t\<rparr>) ?a"
  let ?b = "push_args esp [hDlg, cid, ok, sg] ?u"
  have i: "i < U32_MAX_WIN" "w_used (win s i)" "i < length (g_u32_win s)"
    using first_idx_SomeD [OF assms(2) [unfolded dlg_find_def]] assms(1) by (auto simp: child_of_def wm_ok_def)
  have item: "u32_dlg_item s hDlg (sint cid) = hwnd_of i" using assms(2) by (simp add: u32_dlg_item_def opt_hwnd_def)
  have a: "WU esp 0 ?a = hDlg" "WI esp 1 ?a = sint cid" "WI esp 2 ?a = sint v" "WU esp 2 ?a = v" "WU esp 3 ?a = sg" by (simp_all add: WI_def)
  have b: "WU esp 0 ?b = hDlg" "WI esp 1 ?b = sint cid" "WU esp 2 ?b = ok" "WU esp 3 ?b = sg" by (simp_all add: WI_def)
  have "u32_dlg_item ?a hDlg (sint cid) = hwnd_of i" using dlg_item_cong [of ?a s] item by simp
  moreover have "win_idx ?a (hwnd_of i) = Some i" using win_idx_hwnd [OF assms(1) i(1)] i(2) by simp
  ultimately have set: "set_dlg_int esp hDlg cid v sg s = (1, ?u)"
    by (simp only: set_dlg_int_def aret_SetDlgItemInt_def a with_win_def option.case)
  then show "fst (set_dlg_int esp hDlg cid v sg s) = 1" by simp
  have "u32_dlg_item ?b hDlg (sint cid) = hwnd_of i"
    using dlg_item_cong [of ?b ?u] dlg_item_retitle [of i ?a ?t hDlg "sint cid"] dlg_item_cong [of ?a s] item i(3) by simp
  moreover have "win_idx ?b (hwnd_of i) = Some i"
    using win_idx_hwnd [of ?u i] i wm_ok_upd_win [of ?a i "\<lambda>w. w\<lparr>w_title := ?t\<rparr>"] assms(1)
    by (simp add: push_args_ok int_text_len upd_win_def)
  moreover have "w_title (win ?b i) = ?t" using i(3) by (simp add: upd_win_def)
  ultimately have get: "get_dlg_int esp hDlg cid ok sg ?u = (case split_num ?t of (neg, n, whole) \<Rightarrow>
      (if sg \<noteq> 0 then strtol32 neg n else strtoul32 neg n, put32 ok (b32 whole) ?b))"
    by (simp only: get_dlg_int_def aret_GetDlgItemInt_def b option.case)
  have "get_dlg_int esp hDlg cid ok sg ?u = (v, put32 ok (b32 True) ?b)" unfolding get by (rule int_text_read) simp
  then show "fst (get_dlg_int esp hDlg cid ok sg (snd (set_dlg_int esp hDlg cid v sg s))) = v"
    "ok \<noteq> 0 \<Longrightarrow> ld32 (mem (snd (get_dlg_int esp hDlg cid ok sg (snd (set_dlg_int esp hDlg cid v sg s))))) ok = 1"
    by (simp_all add: set put32_def b32_def)
qed

lemma family_item: "dlg_find family 1 0 = Some 1"
proof -
  have c: "w_ctrl_id (win family i) = 0" if "i = 1 \<or> i = 3" for i
    using that by (auto simp: family_def upd_win_def start_win U32_MAX_WIN_def win_zero_def)
  have "dlg_find family 1 0 = first_idx (\<lambda>i. i = 1 \<or> i = 3) 0 U32_MAX_WIN" unfolding dlg_find_def
    by (rule first_idx_cong) (use c family_used in auto)
  also have "\<dots> = Some 1" by (auto simp: first_idx_Some_iff U32_MAX_WIN_def)
  finally show ?thesis .
qed

theorem dlg_int_roundtrip_witness: "fst (get_dlg_int 0x1000 1 0 0 1 (snd (set_dlg_int 0x1000 1 0 (- 42) 1 family))) = - 42"
  using dlg_int_roundtrip [OF family_ok, of 1 0 1] by (simp add: family_item)

section \<open>Modal dialogs\<close>

text \<open>The state in which the loop of a modal dialog starts.\<close>

definition modal_entry :: "host \<Rightarrow> u32 \<Rightarrow> u32 \<Rightarrow> u32 \<Rightarrow> u32 \<Rightarrow> u32 \<Rightarrow> wm \<Rightarrow> wm" where
  "modal_entry h esp tpl dlgproc parent param s = (case u32_dialog_create h esp tpl dlgproc parent s of (hDlg, s) \<Rightarrow>
     case u32_call_wndproc h esp dlgproc hDlg U32_WM_INITDIALOG 0 param
       (s\<lparr>g_u32_modal_hwnd := hDlg, g_u32_modal_ended := False, g_u32_modal_result := 0\<rparr>) of (initret, s) \<Rightarrow>
     if g_u32_modal_ended s then s else u32_dialog_default_focus h esp hDlg initret s)"

lemma modal_loop_enough:
  "g_u32_modal_ended ((modal_step h esp d ^^ k) s) \<Longrightarrow> k \<le> n \<Longrightarrow>
   \<exists>j \<le> k. modal_loop n h esp d s = Some ((modal_step h esp d ^^ j) s) \<and> g_u32_modal_ended ((modal_step h esp d ^^ j) s)"
proof (induction k arbitrary: s n)
  case 0
  then show ?case by (cases n) auto
next
  case (Suc k)
  show ?case
  proof (cases "g_u32_modal_ended s")
    case True
    then show ?thesis by (cases n) (auto intro: exI [of _ 0])
  next
    case False
    obtain m where n: "n = Suc m" "k \<le> m" using Suc.prems(2) by (cases n) auto
    have "g_u32_modal_ended ((modal_step h esp d ^^ k) (modal_step h esp d s))" using Suc.prems(1) by (simp add: funpow_swap1)
    from Suc.IH [OF this n(2)] obtain j where "j \<le> k" "modal_loop m h esp d (modal_step h esp d s) = Some ((modal_step h esp d ^^ j) (modal_step h esp d s))"
        "g_u32_modal_ended ((modal_step h esp d ^^ j) (modal_step h esp d s))" by blast
    then show ?thesis using False n(1) by (intro exI [of _ "Suc j"]) (auto simp: funpow_swap1)
  qed
qed

lemma destroyed: "i < length (g_u32_win s) \<Longrightarrow> win (u32_dialog_destroy d s) i =
   (if w_used (win s i) \<and> (hwnd_of i = d \<or> w_parent (win s i) = d) then (win s i)\<lparr>w_used := False\<rparr> else win s i)"
  by (simp add: u32_dialog_destroy_def nth_enumerate_eq case_prod_beta)

text \<open>C24: A modal dialog returns when \<^verbatim>\<open>EndDialog\<close> has been called: if the dialog can be created and the flag
  is set after some number of rounds of its loop, as many rounds of fuel are enough, the call
  returns the result stored with the flag, no window that is the dialog or has it as parent is
  left, every other window is what the loop left, and no dialog is modal any more.\<close>

theorem modal_dialog_returns:
  assumes "tpl \<noteq> 0" "dlgproc \<noteq> 0" "fst (u32_dialog_create h esp tpl dlgproc parent s) = hDlg" "hDlg \<noteq> 0"
    and ended: "g_u32_modal_ended ((modal_step h esp hDlg ^^ k) (modal_entry h esp tpl dlgproc parent param s))"
  shows "\<exists>e s'. u32_dialog_modal k h esp tpl dlgproc parent param s = Some (word_of_int (g_u32_modal_result e), s') \<and>
    g_u32_modal_ended e \<and> (\<exists>j \<le> k. e = (modal_step h esp hDlg ^^ j) (modal_entry h esp tpl dlgproc parent param s)) \<and>
    g_u32_modal_hwnd s' = 0 \<and> (\<forall>i < length (g_u32_win e). if hwnd_of i = hDlg \<or> w_parent (win e i) = hDlg
       then \<not> w_used (win s' i) else win s' i = win e i)"
proof -
  from modal_loop_enough [OF ended order_refl] obtain j where j: "j \<le> k"
      "modal_loop k h esp hDlg (modal_entry h esp tpl dlgproc parent param s) = Some ((modal_step h esp hDlg ^^ j) (modal_entry h esp tpl dlgproc parent param s))"
      "g_u32_modal_ended ((modal_step h esp hDlg ^^ j) (modal_entry h esp tpl dlgproc parent param s))" by blast
  let ?e = "(modal_step h esp hDlg ^^ j) (modal_entry h esp tpl dlgproc parent param s)"
  let ?s = "(u32_dialog_destroy hDlg ?e)\<lparr>g_u32_modal_hwnd := 0\<rparr>"
  have m: "u32_dialog_modal k h esp tpl dlgproc parent param s =
      (case modal_loop k h esp hDlg (modal_entry h esp tpl dlgproc parent param s) of None \<Rightarrow> None
       | Some s \<Rightarrow> Some (word_of_int (g_u32_modal_result s), (u32_dialog_destroy hDlg s)\<lparr>g_u32_modal_hwnd := 0\<rparr>))"
    using assms(1,2,4) unfolding assms(3) [symmetric] by (simp add: u32_dialog_modal_def modal_entry_def case_prod_beta Let_def)
  then have "u32_dialog_modal k h esp tpl dlgproc parent param s = Some (word_of_int (g_u32_modal_result ?e), ?s)" by (simp add: j(2))
  moreover have "\<forall>i < length (g_u32_win ?e). if hwnd_of i = hDlg \<or> w_parent (win ?e i) = hDlg then \<not> w_used (win ?s i) else win ?s i = win ?e i"
    by (auto simp: destroyed)
  ultimately show ?thesis using j by (intro exI [of _ ?e] exI [of _ ?s]) auto
qed

text \<open>A dialog procedure that ends its dialog with 7 at once, on the empty template of a blank memory.\<close>

definition ending_host :: host where
  "ending_host = (def_host 0)\<lparr>h_call := \<lambda>p frame s. aret_EndDialog 0x900 (push_args 0x900 [1, 7] s)\<rparr>"

theorem modal_dialog_returns_witness:
  "\<exists>s'. u32_dialog_modal 0 ending_host 0x1000 0x2000 0x400000 0 0 (wm_start blank_gdi) = Some (7, s') \<and> g_u32_modal_hwnd s' = 0"
proof -
  let ?s = "wm_start blank_gdi" let ?c = "u32_dialog_create ending_host 0x1000 0x2000 0x400000 0 ?s"
  have m: "mem ?s = (\<lambda>_. 0)" "g_u32_hook ?s = replicate 16 0" by (simp_all add: wm_start_def gdi.defs wm.defs blank_gdi_def)
  have f: "first_idx (\<lambda>i. \<not> w_used (win ?s i)) 0 U32_MAX_WIN = Some 0"
    by (simp add: first_idx_Some_iff start_win U32_MAX_WIN_def win_zero_def)
  have "fst ?c = 1"
    by (simp add: u32_dialog_create_def dlg_head_at_def m ld16_def ld32_def dlg_caption_font_def u32_dt_szord_def Let_def
        ending_host_def u32_window_create_def f hwnd_of_def)
  moreover have "g_u32_modal_ended (modal_entry ending_host 0x1000 0x2000 0x400000 0 0 ?s)"
      "g_u32_modal_result (modal_entry ending_host 0x1000 0x2000 0x400000 0 0 ?s) = 7"
    by (simp_all add: modal_entry_def u32_call_wndproc_def ending_host_def aret_EndDialog_def case_prod_beta Let_def WI_def)
  ultimately show ?thesis
    using modal_dialog_returns [of "0x2000" "0x400000" ending_host "0x1000" 0 ?s 1 0 0] by auto
qed

end
