(* ===== verification/Aret_Com.thy ===== *)
theory Aret_Com
  imports Aret_Prelude
begin

text \<open>
  The COM task allocator of \<^verbatim>\<open>aret_win32.c\<close> (3362 to 3533 and 9033 to 9085): the initialisation depth,
  BSTR strings, the side table that records the size of every live block, the allocator calls and
  the \<^verbatim>\<open>IMalloc\<close> methods on it, and the packing of DDE parameters. The table is a hash table with
  open addressing whose capacity is a power of two.

  The results of the host allocator are parameters: the address \<^verbatim>\<open>malloc\<close> or \<^verbatim>\<open>realloc\<close> returns, and for
  which capacities \<^verbatim>\<open>calloc\<close> delivers a table. A call has the result None when it does not return: when
  \<^verbatim>\<open>aret_unmodelled\<close> aborts, or when a probe never finds its slot.
\<close>

section \<open>The table of blocks\<close>

record u32_com_ent =
  ce_p :: u32
  ce_n :: u32

record com = hle +
  g_com_blk :: "u32_com_ent list"
  g_com_cap :: nat
  g_com_cnt :: nat
  aret_co_init_depth :: int
  g_imalloc_refs :: u32

definition ent_zero :: u32_com_ent where
  "ent_zero = \<lparr>ce_p = 0, ce_n = 0\<rparr>"

definition com_start :: com where
  "com_start = \<lparr>mem = (\<lambda>_. 0), g_last_error = 0, g_com_blk = [], g_com_cap = 0, g_com_cnt = 0, aret_co_init_depth = 0, g_imalloc_refs = 1\<rparr>"

definition com_hash :: "u32 \<Rightarrow> nat \<Rightarrow> nat" where
  "com_hash p cap = unat (drop_bit 4 p * 2654435761 :: u32) AND (cap - 1)"

text \<open>The probe: on from a slot until it is free or holds the pointer.\<close>

partial_function (option) com_probe :: "u32_com_ent list \<Rightarrow> u32 \<Rightarrow> nat \<Rightarrow> nat \<Rightarrow> nat option" where
  "com_probe T p cap h = (if ce_p (T ! h) \<noteq> 0 \<and> ce_p (T ! h) \<noteq> p then com_probe T p cap ((h + 1) AND (cap - 1)) else Some h)"

declare com_probe.simps [code]

definition u32_com_slot :: "u32_com_ent list \<Rightarrow> u32 \<Rightarrow> nat \<Rightarrow> nat option" where
  "u32_com_slot T p cap = com_probe T p cap (com_hash p cap)"

fun com_rehash :: "nat \<Rightarrow> u32_com_ent list \<Rightarrow> u32_com_ent list \<Rightarrow> u32_com_ent list option" where
  "com_rehash cap [] T = Some T"
| "com_rehash cap (e # es) T = (if ce_p e = 0 then com_rehash cap es T
     else case u32_com_slot T (ce_p e) cap of None \<Rightarrow> None | Some h \<Rightarrow> com_rehash cap es (T[h := e]))"

definition u32_com_grow :: "(nat \<Rightarrow> bool) \<Rightarrow> com \<Rightarrow> com option" where
  "u32_com_grow ok s = (let ncap = (if g_com_cap s \<noteq> 0 then g_com_cap s * 2 mod 2 ^ 32 else 1024) in
     if \<not> ok ncap then None
     else case com_rehash ncap (g_com_blk s) (replicate ncap ent_zero) of None \<Rightarrow> None
       | Some T \<Rightarrow> Some (s\<lparr>g_com_blk := T, g_com_cap := ncap\<rparr>))"

definition com_full :: "com \<Rightarrow> bool" where
  "com_full s \<longleftrightarrow> (g_com_cnt s + 1) * 10 mod 2 ^ 32 \<ge> g_com_cap s * 7 mod 2 ^ 32"

definition com_put :: "u32 \<Rightarrow> u32 \<Rightarrow> com \<Rightarrow> com option" where
  "com_put p n s = (case u32_com_slot (g_com_blk s) p (g_com_cap s) of None \<Rightarrow> None
     | Some h \<Rightarrow> Some (s\<lparr>g_com_cnt := (if ce_p (g_com_blk s ! h) = 0 then g_com_cnt s + 1 else g_com_cnt s),
         g_com_blk := (g_com_blk s)[h := \<lparr>ce_p = p, ce_n = n\<rparr>]\<rparr>))"

definition u32_com_track :: "(nat \<Rightarrow> bool) \<Rightarrow> u32 \<Rightarrow> u32 \<Rightarrow> com \<Rightarrow> com option" where
  "u32_com_track ok p n s = (if p = 0 then Some s
     else case (if com_full s then u32_com_grow ok s else Some s) of None \<Rightarrow> None | Some s \<Rightarrow> com_put p n s)"

definition com_clear :: "nat \<Rightarrow> com \<Rightarrow> com" where
  "com_clear h s = s\<lparr>g_com_blk := (g_com_blk s)[h := ent_zero], g_com_cnt := g_com_cnt s - 1\<rparr>"

text \<open>The entries behind the hole are taken out and put in again, up to the next free slot.\<close>

partial_function (option) untrack_loop :: "(nat \<Rightarrow> bool) \<Rightarrow> nat \<Rightarrow> com \<Rightarrow> com option" where
  "untrack_loop ok i s = (if ce_p (g_com_blk s ! i) = 0 then Some s
     else Option.bind (u32_com_track ok (ce_p (g_com_blk s ! i)) (ce_n (g_com_blk s ! i)) (com_clear i s))
       (\<lambda>s. untrack_loop ok ((i + 1) AND (g_com_cap s - 1)) s))"

declare untrack_loop.simps [code]

definition u32_com_untrack :: "(nat \<Rightarrow> bool) \<Rightarrow> u32 \<Rightarrow> com \<Rightarrow> com option" where
  "u32_com_untrack ok p s = (if p = 0 \<or> g_com_cap s = 0 then Some s
     else case u32_com_slot (g_com_blk s) p (g_com_cap s) of None \<Rightarrow> None
       | Some h \<Rightarrow> if ce_p (g_com_blk s ! h) = 0 then Some s
           else untrack_loop ok ((h + 1) AND (g_com_cap s - 1)) (com_clear h s))"

definition u32_com_size :: "u32 \<Rightarrow> com \<Rightarrow> u32 option" where
  "u32_com_size p s = (if p = 0 \<or> g_com_cap s = 0 then Some (- 1)
     else case u32_com_slot (g_com_blk s) p (g_com_cap s) of None \<Rightarrow> None
       | Some h \<Rightarrow> Some (if ce_p (g_com_blk s ! h) \<noteq> 0 then ce_n (g_com_blk s ! h) else - 1))"

section \<open>The allocator calls\<close>

text \<open>\<open>p\<close> is the address the host's \<^verbatim>\<open>malloc\<close> or \<^verbatim>\<open>realloc\<close> returned.\<close>

definition com_alloc :: "(nat \<Rightarrow> bool) \<Rightarrow> u32 \<Rightarrow> u32 \<Rightarrow> com \<Rightarrow> (u32 \<times> com) option" where
  "com_alloc ok p n s = map_option (Pair p) (u32_com_track ok p n s)"

definition com_realloc :: "(nat \<Rightarrow> bool) \<Rightarrow> u32 \<Rightarrow> u32 \<Rightarrow> u32 \<Rightarrow> com \<Rightarrow> (u32 \<times> com) option" where
  "com_realloc ok p old n s = (if p = 0 then Some (0, s)
     else map_option (Pair p) (Option.bind (u32_com_untrack ok old s) (u32_com_track ok p n)))"

definition com_free :: "(nat \<Rightarrow> bool) \<Rightarrow> u32 \<Rightarrow> com \<Rightarrow> (u32 \<times> com) option" where
  "com_free ok p s = map_option (Pair 0) (u32_com_untrack ok p s)"

definition aret_CoTaskMemAlloc :: "(nat \<Rightarrow> bool) \<Rightarrow> u32 \<Rightarrow> u32 \<Rightarrow> com \<Rightarrow> (u32 \<times> com) option" where
  "aret_CoTaskMemAlloc ok p esp s = com_alloc ok p (WU esp 0 s) s"

definition aret_CoTaskMemRealloc :: "(nat \<Rightarrow> bool) \<Rightarrow> u32 \<Rightarrow> u32 \<Rightarrow> com \<Rightarrow> (u32 \<times> com) option" where
  "aret_CoTaskMemRealloc ok p esp s = com_realloc ok p (WU esp 0 s) (WU esp 1 s) s"

definition aret_CoTaskMemFree :: "(nat \<Rightarrow> bool) \<Rightarrow> u32 \<Rightarrow> com \<Rightarrow> (u32 \<times> com) option" where
  "aret_CoTaskMemFree ok esp s = com_free ok (WU esp 0 s) s"

text \<open>The methods of \<^verbatim>\<open>IMalloc\<close>, whose first argument is the object.\<close>

definition u32_im_alloc :: "(nat \<Rightarrow> bool) \<Rightarrow> u32 \<Rightarrow> u32 \<Rightarrow> com \<Rightarrow> (u32 \<times> com) option" where
  "u32_im_alloc ok p esp s = com_alloc ok p (WU esp 1 s) s"

definition u32_im_realloc :: "(nat \<Rightarrow> bool) \<Rightarrow> u32 \<Rightarrow> u32 \<Rightarrow> com \<Rightarrow> (u32 \<times> com) option" where
  "u32_im_realloc ok p esp s = com_realloc ok p (WU esp 1 s) (WU esp 2 s) s"

definition u32_im_free :: "(nat \<Rightarrow> bool) \<Rightarrow> u32 \<Rightarrow> com \<Rightarrow> (u32 \<times> com) option" where
  "u32_im_free ok esp s = com_free ok (WU esp 1 s) s"

definition u32_im_getsize :: "u32 \<Rightarrow> com \<Rightarrow> u32 option" where
  "u32_im_getsize esp s = u32_com_size (WU esp 1 s) s"

definition u32_im_didalloc :: "u32 \<Rightarrow> com \<Rightarrow> u32 option" where
  "u32_im_didalloc esp s = (let p = WU esp 1 s in if p = 0 then Some 0xFFFFFFFF
     else map_option (\<lambda>n. if n = - 1 then 0 else 1) (u32_com_size p s))"

definition u32_im_addref :: "u32 \<Rightarrow> com \<Rightarrow> u32 \<times> com" where
  "u32_im_addref esp s = (g_imalloc_refs s + 1, s\<lparr>g_imalloc_refs := g_imalloc_refs s + 1\<rparr>)"

definition u32_im_release :: "u32 \<Rightarrow> com \<Rightarrow> u32 \<times> com" where
  "u32_im_release esp s = (if g_imalloc_refs s > 1 then (g_imalloc_refs s - 1, s\<lparr>g_imalloc_refs := g_imalloc_refs s - 1\<rparr>) else (1, s))"

definition u32_im_heapmin :: "u32 \<Rightarrow> com \<Rightarrow> u32 \<times> com" where
  "u32_im_heapmin esp s = (0, s)"

definition u32_iid_eq :: "guest_mem \<Rightarrow> u32 \<Rightarrow> u32 \<Rightarrow> bool" where
  "u32_iid_eq m iid d1 \<longleftrightarrow> iid \<noteq> 0 \<and> ld32 m iid = d1 \<and> ld_bytes m (iid + 4) 12 = [0, 0, 0, 0, 0xC0, 0, 0, 0, 0, 0, 0, 0x46]"

definition u32_im_qi :: "u32 \<Rightarrow> com \<Rightarrow> u32 \<times> com" where
  "u32_im_qi esp s = (if u32_iid_eq (mem s) (WU esp 1 s) 0 \<or> u32_iid_eq (mem s) (WU esp 1 s) 2
     then (0, put32 (WU esp 2 s) (WU esp 0 s) s) else (0x80004002, s))"

section \<open>Initialisation\<close>

definition co_init :: "com \<Rightarrow> u32 \<times> com" where
  "co_init s = (if aret_co_init_depth s \<noteq> 0 then 1 else 0, s\<lparr>aret_co_init_depth := c_int (aret_co_init_depth s + 1)\<rparr>)"

definition co_uninit :: "com \<Rightarrow> u32 \<times> com" where
  "co_uninit s = (0, if aret_co_init_depth s \<noteq> 0 then s\<lparr>aret_co_init_depth := c_int (aret_co_init_depth s - 1)\<rparr> else s)"

definition aret_CoInitialize :: "u32 \<Rightarrow> com \<Rightarrow> u32 \<times> com" where
  "aret_CoInitialize esp = co_init"

definition aret_CoInitializeEx :: "u32 \<Rightarrow> com \<Rightarrow> u32 \<times> com" where
  "aret_CoInitializeEx esp = co_init"

definition aret_OleInitialize :: "u32 \<Rightarrow> com \<Rightarrow> u32 \<times> com" where
  "aret_OleInitialize esp = co_init"

definition aret_CoUninitialize :: "u32 \<Rightarrow> com \<Rightarrow> u32 \<times> com" where
  "aret_CoUninitialize esp = co_uninit"

definition aret_OleUninitialize :: "u32 \<Rightarrow> com \<Rightarrow> u32 \<times> com" where
  "aret_OleUninitialize esp = co_uninit"

section \<open>BSTR strings\<close>

text \<open>
  The block at \<open>b\<close> is the byte length, the units and a NUL; the BSTR points at the units. The size
  that is asked from \<^verbatim>\<open>malloc\<close> is computed in 32 bits.
\<close>

definition bstr_size :: "u32 \<Rightarrow> u32" where
  "bstr_size len = 4 + (len + 1) * 2"

definition bstr_units :: "u32 \<Rightarrow> u32 \<Rightarrow> nat \<Rightarrow> guest_mem \<Rightarrow> guest_mem" where
  "bstr_units src d n m = fold (\<lambda>i m. st16 m (d + 2 * of_nat i) (if src = 0 then 0 else ld16 m (src + 2 * of_nat i))) [0..<n] m"

definition bstr_new :: "(u32 \<Rightarrow> u32) \<Rightarrow> u32 \<Rightarrow> u32 \<Rightarrow> com \<Rightarrow> u32 \<times> com" where
  "bstr_new malloc src len s = (let b = malloc (bstr_size len) in if b = 0 then (0, s)
     else (b + 4, s\<lparr>mem := st16 (bstr_units src (b + 4) (unat len) (st32 (mem s) b (len * 2))) (b + 4 + 2 * len) 0\<rparr>))"

definition aret_SysAllocStringLen :: "(u32 \<Rightarrow> u32) \<Rightarrow> u32 \<Rightarrow> com \<Rightarrow> u32 \<times> com" where
  "aret_SysAllocStringLen malloc esp s = bstr_new malloc (WU esp 0 s) (WU esp 1 s) s"

definition aret_SysAllocString :: "(u32 \<Rightarrow> u32) \<Rightarrow> u32 \<Rightarrow> com \<Rightarrow> u32 \<times> com" where
  "aret_SysAllocString malloc esp s = (if WU esp 0 s = 0 then (0, s)
     else bstr_new malloc (WU esp 0 s) (of_nat (length (wstr (mem s) (WU esp 0 s)))) s)"

definition aret_SysStringByteLen :: "u32 \<Rightarrow> com \<Rightarrow> u32" where
  "aret_SysStringByteLen esp s = (if WU esp 0 s = 0 then 0 else ld32 (mem s) (WU esp 0 s - 4))"

definition aret_SysStringLen :: "u32 \<Rightarrow> com \<Rightarrow> u32" where
  "aret_SysStringLen esp s = (if WU esp 0 s = 0 then 0 else ld32 (mem s) (WU esp 0 s - 4) div 2)"

section \<open>DDE parameters\<close>

definition u32_dde_alloc_msg :: "u32 \<Rightarrow> bool" where
  "u32_dde_alloc_msg msg \<longleftrightarrow> msg = 0x3E2 \<or> msg = 0x3E4 \<or> msg = 0x3E5 \<or> msg = 0x3E7"

definition aret_PackDDElParam :: "u32 \<Rightarrow> u32 \<Rightarrow> com \<Rightarrow> u32 \<times> com" where
  "aret_PackDDElParam b esp s = (let msg = WU esp 0 s; lo = WU esp 1 s; hi = WU esp 2 s in
     if u32_dde_alloc_msg msg
     then if b = 0 then (0, s) else (b, s\<lparr>mem := st32 (st32 (mem s) b lo) (b + 4) hi\<rparr>)
     else ((lo AND 0xFFFF) OR push_bit 16 hi, s))"

definition aret_UnpackDDElParam :: "u32 \<Rightarrow> com \<Rightarrow> u32 \<times> com" where
  "aret_UnpackDDElParam esp s = (let msg = WU esp 0 s; lp = WU esp 1 s; plo = WU esp 2 s; phi = WU esp 3 s;
       (lo, hi) = (if u32_dde_alloc_msg msg \<and> lp \<noteq> 0 then (ld32 (mem s) lp, ld32 (mem s) (lp + 4))
         else (lp AND 0xFFFF, drop_bit 16 lp AND 0xFFFF))
     in (1, put32 phi hi (put32 plo lo s)))"

definition aret_FreeDDElParam :: "u32 \<Rightarrow> com \<Rightarrow> u32 \<times> com" where
  "aret_FreeDDElParam esp s = (1, s)"

end
