(* ===== verification/Aret_Com_Theorems.thy ===== *)
theory Aret_Com_Theorems
  imports Aret_Com
begin

text \<open>
  The side table of the COM allocator is a map. A chain is a run of occupied slots from one slot to
  another; the table is well-formed when every entry is reached by a chain from the slot its pointer
  hashes to. Insertion only fills slots, which keeps every chain. Removal leaves a hole that cuts the
  chains through it: while the entries behind the hole are put back one after the other, an entry is
  either reached from its own hash slot or still lies on the chain that starts at the loop's index.
\<close>

section \<open>Chains of occupied slots\<close>

definition nxt :: "nat \<Rightarrow> nat \<Rightarrow> nat" where
  "nxt cap a = (a + 1) AND (cap - 1)"

lemma and_mask_mod: "(x :: nat) AND (2 ^ k - 1) = x mod 2 ^ k"
  by (simp add: take_bit_eq_mod [symmetric] take_bit_eq_mask mask_eq_exp_minus_1)

lemma nxt_mod: "nxt (2 ^ k) a = (a + 1) mod 2 ^ k"
  by (simp only: nxt_def and_mask_mod)

lemma hash_less: "com_hash p (2 ^ k) < 2 ^ k"
  by (simp only: com_hash_def and_mask_mod) simp

inductive chain :: "nat \<Rightarrow> u32_com_ent list \<Rightarrow> nat \<Rightarrow> nat \<Rightarrow> bool" for cap T where
  here: "chain cap T a a"
| on: "ce_p (T ! a) \<noteq> 0 \<Longrightarrow> chain cap T (nxt cap a) j \<Longrightarrow> chain cap T a j"

inductive_cases chain_from: "chain cap T a j"

lemma chain_mono: "chain cap T a j \<Longrightarrow> (\<And>x. ce_p (T ! x) \<noteq> 0 \<Longrightarrow> ce_p (T' ! x) \<noteq> 0) \<Longrightarrow> chain cap T' a j"
  by (induction rule: chain.induct) (auto intro: chain.intros)

lemma chain_hole:
  assumes "chain cap T a j" "j \<noteq> h"
  shows "chain cap (T[h := ent_zero]) a j \<or> chain cap (T[h := ent_zero]) (nxt cap h) j"
  using assms
proof (induction rule: chain.induct)
  case (on a j)
  then show ?case by (cases "a = h") (auto intro: chain.on)
qed (auto intro: chain.here)

lemma chain_stop: "chain cap T a j \<Longrightarrow> ce_p (T ! a) = 0 \<Longrightarrow> j = a"
  by (auto elim: chain_from)

lemma probe_step:
  "com_probe T p cap a = (if ce_p (T ! a) \<noteq> 0 \<and> ce_p (T ! a) \<noteq> p then com_probe T p cap (nxt cap a) else Some a)"
  by (subst com_probe.simps) (simp add: nxt_def)

text \<open>A free slot ahead stops every probe.\<close>

lemma probe_returns:
  assumes "cap = 2 ^ k" "e < cap" "ce_p (T ! e) = 0" "a < cap"
  shows "\<exists>h < cap. com_probe T p cap a = Some h \<and> chain cap T a h \<and> (ce_p (T ! h) = 0 \<or> ce_p (T ! h) = p)"
proof -
  have "\<exists>h < cap. com_probe T p cap a = Some h \<and> chain cap T a h \<and> (ce_p (T ! h) = 0 \<or> ce_p (T ! h) = p)"
    if "(a + d) mod cap = e" "a < cap" for d a
    using that
  proof (induction d arbitrary: a)
    case 0
    then have "a = e" by simp
    then show ?case using assms(2,3) probe_step [of T p cap a] by (auto intro: chain.here)
  next
    case (Suc d)
    show ?case
    proof (cases "ce_p (T ! a) \<noteq> 0 \<and> ce_p (T ! a) \<noteq> p")
      case True
      have "(nxt cap a + d) mod cap = e" "nxt cap a < cap"
        using Suc.prems(1) unfolding assms(1) nxt_mod by (simp_all add: mod_add_left_eq)
      from Suc.IH [OF this] True show ?thesis using probe_step [of T p cap a] by (auto intro: chain.on)
    next
      case False
      then show ?thesis using Suc.prems(2) probe_step [of T p cap a] by (auto intro: chain.here)
    qed
  qed
  moreover have "(a + (e + cap - a)) mod cap = e" using assms(2,4) by simp
  ultimately show ?thesis using assms(4) by blast
qed

section \<open>The table as a map\<close>

lemma ent_zero_p [simp]: "ce_p ent_zero = 0"
  by (simp add: ent_zero_def)

definition keys_ok :: "u32_com_ent list \<Rightarrow> bool" where
  "keys_ok T \<longleftrightarrow> (\<forall>i < length T. \<forall>j < length T. ce_p (T ! i) \<noteq> 0 \<and> ce_p (T ! i) = ce_p (T ! j) \<longrightarrow> i = j)"

definition com_map :: "u32_com_ent list \<Rightarrow> u32 \<rightharpoonup> u32" where
  "com_map T p = (if p = 0 then None else map_option ce_n (find (\<lambda>e. ce_p e = p) T))"

definition occ :: "u32_com_ent list \<Rightarrow> nat" where
  "occ T = length (filter (\<lambda>e. ce_p e \<noteq> 0) T)"

definition tab_ok :: "nat \<Rightarrow> u32_com_ent list \<Rightarrow> bool" where
  "tab_ok cap T \<longleftrightarrow> (\<exists>k. cap = 2 ^ k) \<and> length T = cap \<and> keys_ok T \<and>
     (\<forall>j < cap. ce_p (T ! j) \<noteq> 0 \<longrightarrow> chain cap T (com_hash (ce_p (T ! j)) cap) j)"

lemma com_map_0 [simp]: "com_map T 0 = None"
  by (simp add: com_map_def)

lemma com_map_None: "p \<noteq> 0 \<Longrightarrow> com_map T p = None \<longleftrightarrow> p \<notin> ce_p ` set T"
  by (auto simp: com_map_def find_None_iff)

lemma com_map_at:
  assumes "keys_ok T" "j < length T" "ce_p (T ! j) = p" "p \<noteq> 0"
  shows "com_map T p = Some (ce_n (T ! j))"
proof -
  have "find (\<lambda>e. ce_p e = p) T \<noteq> None" using assms(2,3) by (auto simp: find_None_iff in_set_conv_nth)
  then obtain e where e: "find (\<lambda>e. ce_p e = p) T = Some e" by blast
  then obtain i where "i < length T" "ce_p (T ! i) = p" "e = T ! i" unfolding find_Some_iff by blast
  moreover from this have "i = j" using assms by (auto simp: keys_ok_def)
  ultimately show ?thesis using e assms(4) by (simp add: com_map_def)
qed

lemma com_map_cons: "com_map (e # es) p = (if ce_p e = p \<and> p \<noteq> 0 then Some (ce_n e) else com_map es p)"
  by (simp add: com_map_def)

lemma keys_okD: "keys_ok T \<Longrightarrow> i < length T \<Longrightarrow> j < length T \<Longrightarrow> ce_p (T ! i) \<noteq> 0 \<Longrightarrow> ce_p (T ! i) = ce_p (T ! j) \<Longrightarrow> i = j"
  unfolding keys_ok_def by blast

lemma keys_ok_put:
  assumes "keys_ok T" "ce_p (T ! h) = ce_p e \<or> ce_p e \<notin> ce_p ` set T"
  shows "keys_ok (T[h := e])"
proof (cases "h < length T")
  case True
  have key: "j = h" if "j < length T" "ce_p (T ! j) = ce_p e" "ce_p e \<noteq> 0" for j
    using assms(2) that imageI [OF nth_mem [OF that(1)], of ce_p] keys_okD [OF assms(1) that(1) True] by auto
  show ?thesis unfolding keys_ok_def
  proof (intro allI impI, elim conjE)
    fix i j assume i: "i < length (T[h := e])" and j: "j < length (T[h := e])"
      and eq: "ce_p (T[h := e] ! i) \<noteq> 0" "ce_p (T[h := e] ! i) = ce_p (T[h := e] ! j)"
    show "i = j"
    proof (cases "i = h \<or> j = h")
      case True
      with eq i j key [of i] key [of j] show ?thesis by (metis length_list_update nth_list_update_eq nth_list_update_neq)
    next
      case False
      with eq i j keys_okD [OF assms(1), of i j] show ?thesis by simp
    qed
  qed
qed (simp add: assms(1) list_update_beyond)

lemma keys_ok_hole: "keys_ok T \<Longrightarrow> keys_ok (T[h := ent_zero])"
  by (cases "h < length T") (auto simp: keys_ok_def nth_list_update ent_zero_def split: if_splits)

lemma com_map_upd:
  assumes "keys_ok T" "keys_ok (T[h := e])" "h < length T" "q \<noteq> ce_p e" "q \<noteq> ce_p (T ! h)"
  shows "com_map (T[h := e]) q = com_map T q"
proof (cases "q \<in> ce_p ` set T \<and> q \<noteq> 0")
  case True
  then obtain j where j: "j < length T" "ce_p (T ! j) = q" by (auto simp: in_set_conv_nth)
  with assms(5) have "j \<noteq> h" by auto
  then show ?thesis using com_map_at [OF assms(1) j] com_map_at [OF assms(2), of j q] j True by simp
next
  case False
  then have "q \<noteq> 0 \<Longrightarrow> q \<notin> ce_p ` set (T[h := e])" using assms(4) set_update_subset_insert [of T h e] by auto
  then have "q \<noteq> 0 \<Longrightarrow> com_map (T[h := e]) q = None \<and> com_map T q = None" using False by (simp add: com_map_None)
  then show ?thesis by (cases "q = 0") simp_all
qed

lemma com_map_put:
  assumes "keys_ok T" "h < length T" "ce_p (T ! h) = 0 \<or> ce_p (T ! h) = p" "ce_p (T ! h) = p \<or> p \<notin> ce_p ` set T" "p \<noteq> 0"
  shows "com_map (T[h := \<lparr>ce_p = p, ce_n = n\<rparr>]) = (com_map T)(p \<mapsto> n)"
proof
  fix q
  have k: "keys_ok (T[h := \<lparr>ce_p = p, ce_n = n\<rparr>])" using assms by (auto intro: keys_ok_put)
  show "com_map (T[h := \<lparr>ce_p = p, ce_n = n\<rparr>]) q = ((com_map T)(p \<mapsto> n)) q"
    using com_map_at [OF k, of h p] com_map_upd [OF assms(1) k assms(2), of q] assms(2-5) by (cases "q = 0") auto
qed

lemma com_map_hole:
  assumes "keys_ok T" "h < length T" "ce_p (T ! h) = p" "p \<noteq> 0"
  shows "com_map (T[h := ent_zero]) = (com_map T)(p := None)" "p \<notin> ce_p ` set (T[h := ent_zero])"
proof -
  show p: "p \<notin> ce_p ` set (T[h := ent_zero])"
  proof
    assume "p \<in> ce_p ` set (T[h := ent_zero])"
    then obtain j where j: "j < length T" "ce_p (T[h := ent_zero] ! j) = p" by (auto simp: in_set_conv_nth)
    show False using keys_okD [OF assms(1) j(1) assms(2)] j assms(2-4) by (cases "j = h") (simp_all add: ent_zero_def)
  qed
  show "com_map (T[h := ent_zero]) = (com_map T)(p := None)"
  proof
    fix q
    show "com_map (T[h := ent_zero]) q = ((com_map T)(p := None)) q"
      using com_map_upd [OF assms(1) keys_ok_hole [OF assms(1)] assms(2), of q] p assms(3,4)
      by (cases "q = 0") (auto simp: com_map_None ent_zero_def)
  qed
qed

lemma occ_update: "h < length T \<Longrightarrow> occ (T[h := e]) + (if ce_p (T ! h) \<noteq> 0 then 1 else 0) = occ T + (if ce_p e \<noteq> 0 then 1 else 0)"
proof (induction T arbitrary: h)
  case (Cons a T)
  then show ?case using Cons.IH [of "h - 1"] by (cases h) (auto simp: occ_def split: if_splits)
qed simp

lemma occ_le: "occ T \<le> length T"
  by (simp add: occ_def)

lemma occ_free:
  assumes "occ T < length T"
  shows "\<exists>e < length T. ce_p (T ! e) = 0"
proof (rule ccontr)
  assume "\<not> ?thesis"
  then have "filter (\<lambda>e. ce_p e \<noteq> 0) T = T" by (auto simp: filter_id_conv in_set_conv_nth)
  then show False using assms by (simp add: occ_def)
qed

lemma occ_pos: "h < length T \<Longrightarrow> ce_p (T ! h) \<noteq> 0 \<Longrightarrow> 0 < occ T"
  using nth_mem [of h T] by (auto simp: occ_def filter_empty_conv)

section \<open>Finding and filling a slot\<close>

lemma tab_okD:
  assumes "tab_ok cap T"
  shows "length T = cap" "keys_ok T" "j < cap \<Longrightarrow> ce_p (T ! j) \<noteq> 0 \<Longrightarrow> chain cap T (com_hash (ce_p (T ! j)) cap) j"
  using assms by (simp_all add: tab_ok_def)

lemma probe_finds:
  assumes "chain cap T a j" "keys_ok T" "length T = cap" "cap = 2 ^ k" "a < cap" "j < cap" "ce_p (T ! j) = p" "p \<noteq> 0"
  shows "com_probe T p cap a = Some j"
  using assms
proof (induction rule: chain.induct)
  case (here a)
  then show ?case using probe_step [of T p cap a] by simp
next
  case (on a j)
  have "nxt cap a < cap" using on.prems(3) by (simp add: nxt_mod)
  with on have "com_probe T p cap (nxt cap a) = Some j" by blast
  moreover have "ce_p (T ! a) = p \<Longrightarrow> a = j" using keys_okD [OF on.prems(1), of a j] on.prems by simp
  ultimately show ?case using on.hyps(1) on.prems(6) probe_step [of T p cap a] by auto
qed

lemma slot_cases:
  assumes "tab_ok cap T" "occ T < cap" "p \<noteq> 0"
  obtains h where "h < cap" "u32_com_slot T p cap = Some h" "chain cap T (com_hash p cap) h"
    "(ce_p (T ! h) = 0 \<and> p \<notin> ce_p ` set T) \<or> ce_p (T ! h) = p"
proof -
  from assms(1) obtain k where k: "cap = 2 ^ k" "length T = cap" by (auto simp: tab_ok_def)
  obtain e where "e < cap" "ce_p (T ! e) = 0" using occ_free [of T] assms(2) k(2) by auto
  from probe_returns [OF k(1) this, of "com_hash p cap" p] hash_less [of p k] k(1)
  obtain h where h: "h < cap" "com_probe T p cap (com_hash p cap) = Some h" "chain cap T (com_hash p cap) h" "ce_p (T ! h) = 0 \<or> ce_p (T ! h) = p"
    by auto
  have "p \<notin> ce_p ` set T" if "ce_p (T ! h) = 0"
  proof
    assume "p \<in> ce_p ` set T"
    then obtain j where j: "j < cap" "ce_p (T ! j) = p" using k(2) by (auto simp: in_set_conv_nth)
    have "com_probe T p cap (com_hash p cap) = Some j"
      using probe_finds [OF tab_okD(3) [OF assms(1) j(1)] tab_okD(2) [OF assms(1)] k(2,1)] hash_less [of p k] k(1) j assms(3) by simp
    with h(2) that j(2) assms(3) show False by simp
  qed
  with h that show ?thesis by (auto simp: u32_com_slot_def)
qed

lemma tab_ok_put:
  assumes "tab_ok cap T" "h < cap" "chain cap T (com_hash p cap) h" "p \<noteq> 0"
    "(ce_p (T ! h) = 0 \<and> p \<notin> ce_p ` set T) \<or> ce_p (T ! h) = p"
  shows "tab_ok cap (T[h := \<lparr>ce_p = p, ce_n = n\<rparr>])"
proof -
  let ?T = "T[h := \<lparr>ce_p = p, ce_n = n\<rparr>]"
  note T = tab_okD [OF assms(1)]
  have m: "ce_p (T ! x) \<noteq> 0 \<Longrightarrow> ce_p (?T ! x) \<noteq> 0" for x using assms(4) by (cases "x = h"; cases "h < length T") (simp_all add: not_less list_update_beyond)
  have c: "chain cap T a x \<Longrightarrow> chain cap ?T a x" for a x by (erule chain_mono) (rule m)
  have "chain cap ?T (com_hash (ce_p (?T ! j)) cap) j" if "j < cap" "ce_p (?T ! j) \<noteq> 0" for j
    using that T(1) c [OF T(3) [of j]] c [OF assms(3)] assms(2) by (cases "j = h") simp_all
  moreover have "keys_ok ?T" by (rule keys_ok_put [OF T(2)]) (use assms(5) in auto)
  ultimately show ?thesis using assms(1) by (simp add: tab_ok_def)
qed

lemma slot_put:
  assumes "tab_ok cap T" "occ T < cap" "p \<noteq> 0"
  obtains h where "h < cap" "u32_com_slot T p cap = Some h" "tab_ok cap (T[h := \<lparr>ce_p = p, ce_n = n\<rparr>])"
    "com_map (T[h := \<lparr>ce_p = p, ce_n = n\<rparr>]) = (com_map T)(p \<mapsto> n)"
    "occ (T[h := \<lparr>ce_p = p, ce_n = n\<rparr>]) = occ T + (if ce_p (T ! h) = 0 then 1 else 0)"
    "ce_p (T ! h) = 0 \<longleftrightarrow> p \<notin> ce_p ` set T"
proof -
  obtain h where h: "h < cap" "u32_com_slot T p cap = Some h" "chain cap T (com_hash p cap) h"
    "(ce_p (T ! h) = 0 \<and> p \<notin> ce_p ` set T) \<or> ce_p (T ! h) = p" by (rule slot_cases [OF assms])
  have l: "length T = cap" using assms(1) by (simp add: tab_ok_def)
  have "p \<in> ce_p ` set T" if "ce_p (T ! h) = p" using nth_mem [of h T] h(1) l that by auto
  then have k: "ce_p (T ! h) = 0 \<longleftrightarrow> p \<notin> ce_p ` set T" using h(4) assms(3) by auto
  have m: "com_map (T[h := \<lparr>ce_p = p, ce_n = n\<rparr>]) = (com_map T)(p \<mapsto> n)"
    by (rule com_map_put) (use assms h l tab_okD(2) [OF assms(1)] in auto)
  have "occ (T[h := \<lparr>ce_p = p, ce_n = n\<rparr>]) = occ T + (if ce_p (T ! h) = 0 then 1 else 0)"
    using occ_update [of h T "\<lparr>ce_p = p, ce_n = n\<rparr>"] h(1) l assms(3) by (auto split: if_splits)
  with that [OF h(1,2) tab_ok_put [OF assms(1) h(1,3) assms(3) h(4)] m] k show ?thesis by simp
qed

lemma keys_ok_tail: "keys_ok (e # es) \<Longrightarrow> keys_ok es"
  unfolding keys_ok_def by (metis Suc_less_eq length_Cons nat.inject nth_Cons_Suc)

lemma keys_ok_head: "keys_ok (e # es) \<Longrightarrow> ce_p e \<noteq> 0 \<Longrightarrow> ce_p e \<notin> ce_p ` set es"
  using keys_okD [of "e # es" 0] by (fastforce simp: in_set_conv_nth)

lemma rehash_ok:
  assumes "tab_ok cap T" "occ T + occ es < cap" "keys_ok es" "\<forall>e \<in> set es. ce_p e \<noteq> 0 \<longrightarrow> ce_p e \<notin> ce_p ` set T"
  shows "\<exists>T'. com_rehash cap es T = Some T' \<and> tab_ok cap T' \<and> com_map T' = com_map T ++ com_map es \<and> occ T' = occ T + occ es"
  using assms
proof (induction es arbitrary: T)
  case Nil
  then show ?case by (auto simp: occ_def com_map_def map_add_def)
next
  case (Cons e es)
  note ks = keys_ok_tail [OF Cons.prems(3)]
  show ?case
  proof (cases "ce_p e = 0")
    case True
    then have "com_map (e # es) = com_map es" "occ (e # es) = occ es" by (auto simp: com_map_cons occ_def)
    then show ?thesis using Cons.IH [OF Cons.prems(1) _ ks] Cons.prems(2,4) True by simp
  next
    case False
    let ?T = "\<lambda>h. T[h := e]"
    have e: "\<lparr>ce_p = ce_p e, ce_n = ce_n e\<rparr> = e" by simp
    obtain h where h: "h < cap" "u32_com_slot T (ce_p e) cap = Some h" "tab_ok cap (?T h)" "com_map (?T h) = (com_map T)(ce_p e \<mapsto> ce_n e)"
      "occ (?T h) = occ T + (if ce_p (T ! h) = 0 then 1 else 0)" "ce_p (T ! h) = 0 \<longleftrightarrow> ce_p e \<notin> ce_p ` set T"
      using slot_put [OF Cons.prems(1) _ False, of "ce_n e"] Cons.prems(2) unfolding e by auto
    have o: "occ (?T h) + occ es = occ T + occ (e # es)" using h(5,6) Cons.prems(4) False by (simp add: occ_def)
    have "\<forall>x \<in> set es. ce_p x \<noteq> 0 \<longrightarrow> ce_p x \<notin> ce_p ` set (?T h)"
    proof (intro ballI impI notI)
      fix x assume x: "x \<in> set es" "ce_p x \<noteq> 0" "ce_p x \<in> ce_p ` set (?T h)"
      then have "ce_p x = ce_p e \<or> ce_p x \<in> ce_p ` set T" using set_update_subset_insert [of T h e] by auto
      then show False using keys_ok_head [OF Cons.prems(3) False] Cons.prems(4) x(1,2) by (metis image_eqI list.set_intros(2))
    qed
    from Cons.IH [OF h(3) _ ks this] o Cons.prems(2) obtain T' where T': "com_rehash cap es (?T h) = Some T'" "tab_ok cap T'"
      "com_map T' = com_map (?T h) ++ com_map es" "occ T' = occ (?T h) + occ es" by auto
    have "com_map es (ce_p e) = None" using keys_ok_head [OF Cons.prems(3) False] False by (simp add: com_map_None)
    then have "com_map (?T h) ++ com_map es = com_map T ++ com_map (e # es)"
      using False by (auto simp: h(4) map_add_def com_map_cons fun_eq_iff split: option.split)
    then show ?thesis using T' h(2) False o by simp
  qed
qed

section \<open>Mending the chains behind a hole\<close>

definition pos :: "nat \<Rightarrow> nat \<Rightarrow> nat \<Rightarrow> nat" where
  "pos cap b t = (b + t) mod cap"

lemma pos_inj:
  assumes "pos cap b u = pos cap b v" "u < cap" "v < cap"
  shows "u = v"
proof -
  note e = assms(1) [unfolded pos_def]
  have "cap dvd (b + v) - (b + u)" if "u \<le> v" by (rule mod_eq_dvd_iff_nat [THEN iffD1, OF _ e [symmetric]]) (simp add: that)
  moreover have "cap dvd (b + u) - (b + v)" if "v \<le> u" by (rule mod_eq_dvd_iff_nat [THEN iffD1, OF _ e]) (simp add: that)
  ultimately have "u \<le> v \<Longrightarrow> v - u = 0" "v \<le> u \<Longrightarrow> u - v = 0"
    using dvd_imp_le [of cap "v - u"] dvd_imp_le [of cap "u - v"] assms(2,3) by fastforce+
  then show ?thesis by linarith
qed

lemma nxt_pos: "nxt (2 ^ k) (pos (2 ^ k) b t) = pos (2 ^ k) b (Suc t)"
  by (simp add: nxt_mod pos_def mod_Suc_eq)

text \<open>A chain from the run of slots \<open>b, b + 1, ...\<close> up to a free slot stays in the run.\<close>

lemma chain_in_run:
  assumes "chain (2 ^ k) T a x" "a = pos (2 ^ k) b t" "t \<le> m" "ce_p (T ! pos (2 ^ k) b m) = 0"
  shows "\<exists>s. t \<le> s \<and> s \<le> m \<and> x = pos (2 ^ k) b s"
  using assms
proof (induction arbitrary: t rule: chain.induct)
  case (on a j)
  then have "t \<noteq> m" by auto
  with on.prems(2) have "Suc t \<le> m" by simp
  from on.IH [OF _ this on.prems(3)] on.prems(1) show ?case by (auto simp: nxt_pos intro: Suc_leD)
qed auto

text \<open>Probing a table with a free slot on the old chain stops on that chain.\<close>

lemma probe_on_chain:
  assumes "chain cap T0 a i" "ce_p (T ! i) = 0" "ce_p (T0 ! i) \<noteq> 0" "com_probe T p cap a = Some h"
  shows "ce_p (T0 ! h) \<noteq> 0 \<and> chain cap T0 h i"
  using assms
proof (induction rule: chain.induct)
  case (here a)
  then show ?case using probe_step [of T p cap a] by (auto intro: chain.here)
next
  case (on a j)
  then show ?case using probe_step [of T p cap a] by (auto split: if_splits intro: chain.on)
qed

text \<open>The table while the loop is at the \<open>t\<close>-th slot behind the hole; \<open>T0\<close> is the table before the removal.\<close>

definition mending :: "u32_com_ent list \<Rightarrow> nat \<Rightarrow> nat \<Rightarrow> nat \<Rightarrow> nat \<Rightarrow> u32_com_ent list \<Rightarrow> bool" where
  "mending T0 cap b m t T \<longleftrightarrow> length T = cap \<and> keys_ok T \<and> (\<forall>x < cap. ce_p (T ! x) \<noteq> 0 \<longrightarrow> ce_p (T0 ! x) \<noteq> 0) \<and>
     (\<forall>u. t \<le> u \<and> u < m \<longrightarrow> T ! pos cap b u = T0 ! pos cap b u) \<and>
     (\<forall>j < cap. ce_p (T ! j) \<noteq> 0 \<longrightarrow> chain cap T (com_hash (ce_p (T ! j)) cap) j \<or> chain cap T (pos cap b t) j)"

lemma mending_end:
  assumes "mending T0 (2 ^ k) b m m T" "ce_p (T0 ! pos (2 ^ k) b m) = 0"
  shows "tab_ok (2 ^ k) T" "ce_p (T ! pos (2 ^ k) b m) = 0"
proof -
  have "pos (2 ^ k) b m < 2 ^ k" by (simp add: pos_def)
  then show z: "ce_p (T ! pos (2 ^ k) b m) = 0" using assms by (auto simp: mending_def)
  have "chain (2 ^ k) T (com_hash (ce_p (T ! j)) (2 ^ k)) j" if "j < 2 ^ k" "ce_p (T ! j) \<noteq> 0" for j
    using that assms(1) chain_stop [OF _ z, of "2 ^ k" j] z unfolding mending_def by metis
  then show "tab_ok (2 ^ k) T" using assms(1) by (auto simp: mending_def tab_ok_def)
qed

text \<open>One round of the loop: the entry at the index goes out and comes back on its own chain.\<close>

lemma mending_step:
  assumes "mending T0 (2 ^ k) b m t T" "tab_ok (2 ^ k) T0" "t < m" "m < 2 ^ k"
    "\<forall>u < m. ce_p (T0 ! pos (2 ^ k) b u) \<noteq> 0" "ce_p (T0 ! pos (2 ^ k) b m) = 0"
  defines "i \<equiv> pos (2 ^ k) b t"
  shows "\<exists>h < 2 ^ k. u32_com_slot (T[i := ent_zero]) (ce_p (T ! i)) (2 ^ k) = Some h \<and> ce_p (T[i := ent_zero] ! h) = 0 \<and>
    mending T0 (2 ^ k) b m (Suc t) (T[i := ent_zero, h := T ! i]) \<and> com_map (T[i := ent_zero, h := T ! i]) = com_map T"
proof -
  let ?c = "2 ^ k :: nat" let ?T1 = "T[i := ent_zero]" let ?p = "ce_p (T ! i)"
  note M = assms(1) [unfolded mending_def]
  have i: "i < ?c" by (simp add: i_def pos_def)
  have e: "T ! i = T0 ! i" using M assms(3) by (auto simp: i_def)
  have p: "?p \<noteq> 0" using assms(3,5) by (simp add: e) (simp add: i_def)
  have z: "ce_p (?T1 ! i) = 0" using M i by simp
  note k1 = keys_ok_hole [of T i] and hole = com_map_hole [of T i ?p]
  have fresh: "?p \<notin> ce_p ` set ?T1" using hole(2) M i p by simp
  from probe_returns [OF refl i z, of "com_hash ?p ?c" ?p] hash_less [of ?p k]
  obtain h where h: "h < ?c" "com_probe ?T1 ?p ?c (com_hash ?p ?c) = Some h" "chain ?c ?T1 (com_hash ?p ?c) h"
    "ce_p (?T1 ! h) = 0 \<or> ce_p (?T1 ! h) = ?p" by blast
  have h0: "ce_p (?T1 ! h) = 0" using h(1,4) fresh M nth_mem [of h ?T1] by (metis image_eqI length_list_update)
  have c0: "ce_p (T0 ! h) \<noteq> 0" "chain ?c T0 h i"
    using probe_on_chain [OF tab_okD(3) [OF assms(2) i] z, of ?p h] h(2) p by (simp_all add: e)
  let ?T2 = "?T1[h := T ! i]"
  have l: "length ?T1 = ?c" "length ?T2 = ?c" using M by simp_all
  have at: "?T2 ! x = (if x = h then T ! i else if x = i then ent_zero else T ! x)" for x using M h(1) i by (simp add: nth_list_update)
  have up: "ce_p (?T1 ! x) \<noteq> 0 \<Longrightarrow> ce_p (?T2 ! x) \<noteq> 0" for x using l(1) h(1) p by (cases "x = h") simp_all
  have away: "pos ?c b u \<noteq> i \<and> pos ?c b u \<noteq> h" if u: "Suc t \<le> u" "u < m" for u
  proof
    show "pos ?c b u \<noteq> i" using pos_inj [of ?c b u t] u assms(4) by (auto simp: i_def)
    show "pos ?c b u \<noteq> h"
    proof
      assume "pos ?c b u = h"
      with chain_in_run [OF c0(2), of b u m] u assms(6) obtain s where "u \<le> s" "s \<le> m" "i = pos ?c b s" by auto
      then show False using pos_inj [of ?c b t s] u assms(4) by (simp add: i_def)
    qed
  qed
  have reach: "chain ?c ?T2 (com_hash (ce_p (?T2 ! j)) ?c) j \<or> chain ?c ?T2 (pos ?c b (Suc t)) j" if j: "j < ?c" "ce_p (?T2 ! j) \<noteq> 0" for j
  proof (cases "j = h")
    case True
    then show ?thesis using chain_mono [OF h(3) up] l h(1) by simp
  next
    case False
    then have ji: "j \<noteq> i" "?T2 ! j = T ! j" using j at [of j] by (auto split: if_splits)
    then have "chain ?c T (com_hash (ce_p (T ! j)) ?c) j \<or> chain ?c T i j" using M j by (auto simp: i_def)
    then have "chain ?c ?T1 (com_hash (ce_p (T ! j)) ?c) j \<or> chain ?c ?T1 i j \<or> chain ?c ?T1 (nxt ?c i) j"
      using chain_hole [OF _ ji(1)] by blast
    moreover have "\<not> chain ?c ?T1 i j" using chain_stop [OF _ z] ji(1) by blast
    ultimately show ?thesis using chain_mono [OF _ up] ji(2) by (auto simp: i_def nxt_pos)
  qed
  have k2: "keys_ok ?T2" by (rule keys_ok_put) (use M k1 fresh in auto)
  have "\<forall>x < ?c. ce_p (?T2 ! x) \<noteq> 0 \<longrightarrow> ce_p (T0 ! x) \<noteq> 0" using M c0(1) by (auto simp: at split: if_splits)
  moreover have "\<forall>u. Suc t \<le> u \<and> u < m \<longrightarrow> ?T2 ! pos ?c b u = T0 ! pos ?c b u" using M away by (auto simp: at)
  ultimately have "mending T0 ?c b m (Suc t) ?T2" using l k2 reach by (simp add: mending_def)
  moreover have r: "\<lparr>ce_p = ?p, ce_n = ce_n (T ! i)\<rparr> = T ! i" by simp
  have "com_map (?T1[h := \<lparr>ce_p = ?p, ce_n = ce_n (T ! i)\<rparr>]) = com_map T"
    using com_map_put [of ?T1 h ?p "ce_n (T ! i)"] k1 h(1) h0 fresh l p hole(1) com_map_at [of T i ?p] M i by (simp add: fun_upd_idem)
  then have "com_map ?T2 = com_map T" unfolding r .
  ultimately show ?thesis using h(1,2) h0 by (auto simp: u32_com_slot_def)
qed

section \<open>The operations refine a map\<close>

definition com_ok :: "com \<Rightarrow> bool" where
  "com_ok s \<longleftrightarrow> g_com_cnt s = occ (g_com_blk s) \<and> length (g_com_blk s) = g_com_cap s \<and> (g_com_cap s \<noteq> 0 \<longrightarrow>
     tab_ok (g_com_cap s) (g_com_blk s) \<and> 1024 \<le> g_com_cap s \<and> g_com_cap s \<le> 2 ^ 28 \<and> g_com_cnt s * 10 < g_com_cap s * 7)"

lemma com_full_exact: "g_com_cap s \<le> 2 ^ 28 \<Longrightarrow> g_com_cnt s \<le> 2 ^ 28 \<Longrightarrow> com_full s \<longleftrightarrow> g_com_cap s * 7 \<le> (g_com_cnt s + 1) * 10"
  by (simp add: com_full_def)

lemma put_ok:
  assumes "tab_ok (g_com_cap s) (g_com_blk s)" "g_com_cnt s = occ (g_com_blk s)" "1024 \<le> g_com_cap s" "g_com_cap s \<le> 2 ^ 28"
    "(g_com_cnt s + 1) * 10 < g_com_cap s * 7" "p \<noteq> 0"
  shows "\<exists>s'. com_put p n s = Some s' \<and> com_ok s' \<and> com_map (g_com_blk s') = (com_map (g_com_blk s))(p \<mapsto> n) \<and> g_com_cnt s' \<le> g_com_cnt s + 1"
proof -
  let ?T = "g_com_blk s" let ?c = "g_com_cap s"
  have "occ ?T < ?c" using assms(2,5) by simp
  from slot_put [OF assms(1) this assms(6), of n]
  obtain h where "h < ?c" "u32_com_slot ?T p ?c = Some h" "tab_ok ?c (?T[h := \<lparr>ce_p = p, ce_n = n\<rparr>])"
    "com_map (?T[h := \<lparr>ce_p = p, ce_n = n\<rparr>]) = (com_map ?T)(p \<mapsto> n)"
    "occ (?T[h := \<lparr>ce_p = p, ce_n = n\<rparr>]) = occ ?T + (if ce_p (?T ! h) = 0 then 1 else 0)" by metis
  then show ?thesis using assms tab_okD(1) [OF assms(1)] by (auto simp: com_put_def com_ok_def)
qed

lemma tab_ok_empty: "tab_ok (2 ^ k) (replicate (2 ^ k) ent_zero)" "com_map (replicate n ent_zero) = Map.empty" "occ (replicate n ent_zero) = 0"
proof -
  show "com_map (replicate n ent_zero) = Map.empty"
  proof
    fix p show "com_map (replicate n ent_zero) p = None" by (cases "p = 0") (auto simp: com_map_None)
  qed
qed (auto simp: tab_ok_def keys_ok_def occ_def)

lemma grow_ok:
  assumes "com_ok s" "com_full s" "g_com_cnt s \<le> 10 ^ 8" "\<forall>c \<le> 2 ^ 28. ok c"
  shows "\<exists>T c. u32_com_grow ok s = Some (s\<lparr>g_com_blk := T, g_com_cap := c\<rparr>) \<and> tab_ok c T \<and> com_map T = com_map (g_com_blk s) \<and>
    occ T = occ (g_com_blk s) \<and> 1024 \<le> c \<and> c \<le> 2 ^ 28 \<and> (g_com_cnt s + 1) * 10 < c * 7"
proof -
  let ?c = "if g_com_cap s \<noteq> 0 then g_com_cap s * 2 mod 2 ^ 32 else 1024" let ?T = "g_com_blk s"
  have "(\<exists>k. ?c = 2 ^ k) \<and> 1024 \<le> ?c \<and> ?c \<le> 2 ^ 28 \<and> (g_com_cnt s + 1) * 10 < ?c * 7 \<and> keys_ok ?T"
  proof (cases "g_com_cap s = 0")
    case True
    then have "?T = []" "g_com_cnt s = 0" using assms(1) by (auto simp: com_ok_def occ_def)
    moreover have "(1024 :: nat) = 2 ^ 10" by simp
    ultimately show ?thesis using True by (auto simp: keys_ok_def intro: exI [of _ 10])
  next
    case False
    then have s: "tab_ok (g_com_cap s) ?T" "1024 \<le> g_com_cap s" "g_com_cap s \<le> 2 ^ 28" "g_com_cnt s * 10 < g_com_cap s * 7"
      using assms(1) by (auto simp: com_ok_def)
    then obtain k where k: "g_com_cap s = 2 ^ k" by (auto simp: tab_ok_def)
    have "g_com_cap s * 7 \<le> (g_com_cnt s + 1) * 10" using com_full_exact [of s] assms(2,3) s(3) by simp
    then have "g_com_cap s < 2 ^ 28" using assms(3) by simp
    then have "k < 28" unfolding k by (rule power_less_imp_less_exp [rotated]) simp
    then have "(2 :: nat) ^ k \<le> 2 ^ 27" by (intro power_increasing) simp_all
    then have c: "?c = 2 ^ Suc k" "?c \<le> 2 ^ 28" using False unfolding k by simp_all
    have "(g_com_cnt s + 1) * 10 < ?c * 7" "1024 \<le> ?c" using s(2,4) c(1) k by simp_all
    then show ?thesis using c tab_okD(2) [OF s(1)] by blast
  qed
  then obtain k where k: "?c = 2 ^ k" "1024 \<le> ?c" "?c \<le> 2 ^ 28" "(g_com_cnt s + 1) * 10 < ?c * 7" "keys_ok ?T" by blast
  have "occ (replicate ?c ent_zero) + occ ?T < ?c" using k(4) assms(1) by (simp add: tab_ok_empty com_ok_def)
  moreover have "tab_ok ?c (replicate ?c ent_zero)" unfolding k(1) by (rule tab_ok_empty)
  ultimately obtain T where T: "com_rehash ?c ?T (replicate ?c ent_zero) = Some T" "tab_ok ?c T" "com_map T = com_map ?T" "occ T = occ ?T"
    using rehash_ok [of ?c "replicate ?c ent_zero" ?T] k(5) by (auto simp: tab_ok_empty)
  have "u32_com_grow ok s = Some (s\<lparr>g_com_blk := T, g_com_cap := ?c\<rparr>)"
    unfolding u32_com_grow_def Let_def T(1) using assms(4) k(3) by simp
  then show ?thesis using T(2-4) k(2-4) by blast
qed

lemma track_ok:
  assumes "com_ok s" "g_com_cnt s \<le> 10 ^ 8" "\<forall>c \<le> 2 ^ 28. ok c" "p \<noteq> 0"
  shows "\<exists>s'. u32_com_track ok p n s = Some s' \<and> com_ok s' \<and> com_map (g_com_blk s') = (com_map (g_com_blk s))(p \<mapsto> n) \<and> g_com_cnt s' \<le> g_com_cnt s + 1"
proof (cases "com_full s")
  case True
  from grow_ok [OF assms(1) True assms(2,3)] obtain T c where g: "u32_com_grow ok s = Some (s\<lparr>g_com_blk := T, g_com_cap := c\<rparr>)"
    "tab_ok c T" "com_map T = com_map (g_com_blk s)" "occ T = occ (g_com_blk s)" "1024 \<le> c" "c \<le> 2 ^ 28" "(g_com_cnt s + 1) * 10 < c * 7" by blast
  show ?thesis using put_ok [of "s\<lparr>g_com_blk := T, g_com_cap := c\<rparr>" p n] g assms(1,4) True by (simp add: u32_com_track_def com_ok_def)
next
  case False
  then have "(g_com_cnt s + 1) * 10 < g_com_cap s * 7" using com_full_exact [of s] assms(1,2) by (cases "g_com_cap s = 0") (auto simp: com_ok_def)
  moreover from this have "g_com_cap s \<noteq> 0" by auto
  ultimately show ?thesis using put_ok [of s p n] False assms(1,4) by (simp add: u32_com_track_def com_ok_def)
qed

lemma size_ok:
  assumes "com_ok s"
  shows "u32_com_size p s = Some (case com_map (g_com_blk s) p of None \<Rightarrow> - 1 | Some n \<Rightarrow> n)"
proof (cases "p = 0 \<or> g_com_cap s = 0")
  case True
  then show ?thesis using assms by (auto simp: u32_com_size_def com_ok_def com_map_def)
next
  case False
  let ?T = "g_com_blk s" let ?c = "g_com_cap s"
  have t: "tab_ok ?c ?T" "occ ?T < ?c" using assms False by (auto simp: com_ok_def)
  obtain h where h: "h < ?c" "u32_com_slot ?T p ?c = Some h" "(ce_p (?T ! h) = 0 \<and> p \<notin> ce_p ` set ?T) \<or> ce_p (?T ! h) = p"
    by (rule slot_cases [OF t, of p]) (use False in auto)
  from h(3) show ?thesis
  proof
    assume "ce_p (?T ! h) = 0 \<and> p \<notin> ce_p ` set ?T"
    moreover from this have "com_map ?T p = None" using False by (simp add: com_map_None)
    ultimately show ?thesis using h(2) False by (simp add: u32_com_size_def)
  next
    assume p: "ce_p (?T ! h) = p"
    with com_map_at [OF tab_okD(2) [OF t(1)], of h p] tab_okD(1) [OF t(1)] h(1) False have "com_map ?T p = Some (ce_n (?T ! h))" by simp
    then show ?thesis using h(2) p False by (simp add: u32_com_size_def)
  qed
qed

text \<open>Removal: the loop ends at the first free slot behind the hole, and leaves a well-formed table.\<close>

lemma loop_ok:
  assumes "mending T0 (2 ^ k) b m t (g_com_blk s)" "tab_ok (2 ^ k) T0" "t \<le> m" "m < 2 ^ k"
    "\<forall>u < m. ce_p (T0 ! pos (2 ^ k) b u) \<noteq> 0" "ce_p (T0 ! pos (2 ^ k) b m) = 0"
    "g_com_cap s = 2 ^ k" "g_com_cap s \<le> 2 ^ 28" "g_com_cnt s = occ (g_com_blk s)" "g_com_cnt s * 10 < g_com_cap s * 7"
  shows "\<exists>T. untrack_loop ok (pos (2 ^ k) b t) s = Some (s\<lparr>g_com_blk := T\<rparr>) \<and> tab_ok (2 ^ k) T \<and> com_map T = com_map (g_com_blk s) \<and>
    occ T = occ (g_com_blk s)"
  using assms(1,3,7-10)
proof (induction "m - t" arbitrary: t s)
  case 0
  then have "mending T0 (2 ^ k) b m m (g_com_blk s)" "t = m" by simp_all
  then show ?case using mending_end [of T0 k b m "g_com_blk s"] assms(6) untrack_loop.simps [of ok "pos (2 ^ k) b t" s]
    by (intro exI [of _ "g_com_blk s"]) simp
next
  case (Suc d)
  let ?i = "pos (2 ^ k) b t" let ?T = "g_com_blk s" let ?T1 = "?T[?i := ent_zero]"
  have t: "t < m" using Suc.hyps(2) by simp
  have i: "?i < 2 ^ k" "length ?T = 2 ^ k" "ce_p (?T ! ?i) \<noteq> 0"
    using Suc.prems(1) t assms(5) by (auto simp: pos_def mending_def)
  obtain h where h: "h < 2 ^ k" "u32_com_slot ?T1 (ce_p (?T ! ?i)) (2 ^ k) = Some h" "ce_p (?T1 ! h) = 0"
    "mending T0 (2 ^ k) b m (Suc t) (?T1[h := ?T ! ?i])" "com_map (?T1[h := ?T ! ?i]) = com_map ?T"
    using mending_step [OF Suc.prems(1) assms(2) t assms(4,5,6)] by blast
  let ?T2 = "?T1[h := ?T ! ?i]"
  have o: "occ ?T1 + 1 = occ ?T" "occ ?T2 = occ ?T"
    using occ_update [of ?i ?T ent_zero] occ_update [of h ?T1 "?T ! ?i"] i h(1,3) by simp_all
  have "\<not> com_full (com_clear ?i s)"
    using com_full_exact [of "com_clear ?i s"] Suc.prems(4-6) o(1) by (simp add: com_clear_def)
  then have "u32_com_track ok (ce_p (?T ! ?i)) (ce_n (?T ! ?i)) (com_clear ?i s) =
      Some (s\<lparr>g_com_cnt := occ ?T, g_com_blk := ?T1[h := \<lparr>ce_p = ce_p (?T ! ?i), ce_n = ce_n (?T ! ?i)\<rparr>]\<rparr>)"
    using i(3) h(2,3) o(1) Suc.prems(3,5) by (simp add: u32_com_track_def com_put_def com_clear_def)
  moreover have "s\<lparr>g_com_cnt := occ ?T\<rparr> = s" by (simp add: Suc.prems(5) [symmetric])
  moreover have "\<lparr>ce_p = ce_p (?T ! ?i), ce_n = ce_n (?T ! ?i)\<rparr> = ?T ! ?i" by simp
  ultimately have "u32_com_track ok (ce_p (?T ! ?i)) (ce_n (?T ! ?i)) (com_clear ?i s) = Some (s\<lparr>g_com_blk := ?T2\<rparr>)" by metis
  then have step: "untrack_loop ok ?i s = untrack_loop ok (pos (2 ^ k) b (Suc t)) (s\<lparr>g_com_blk := ?T2\<rparr>)"
    using i(3) Suc.prems(3) nxt_pos [of k b t] by (subst untrack_loop.simps) (simp add: nxt_def)
  have "\<exists>T. untrack_loop ok (pos (2 ^ k) b (Suc t)) (s\<lparr>g_com_blk := ?T2\<rparr>) = Some (s\<lparr>g_com_blk := ?T2\<rparr>\<lparr>g_com_blk := T\<rparr>) \<and>
      tab_ok (2 ^ k) T \<and> com_map T = com_map (g_com_blk (s\<lparr>g_com_blk := ?T2\<rparr>)) \<and> occ T = occ (g_com_blk (s\<lparr>g_com_blk := ?T2\<rparr>))"
    by (rule Suc.hyps(1)) (use Suc.hyps(2) t h(4) o(2) Suc.prems(3-6) in simp_all)
  then show ?case unfolding step using h(5) o(2) by simp
qed

lemma mending_start:
  assumes "tab_ok (2 ^ k) T" "h < 2 ^ k" "b = nxt (2 ^ k) h"
    "\<forall>u < m. pos (2 ^ k) b u \<noteq> h"
  shows "mending T (2 ^ k) b m 0 (T[h := ent_zero])"
proof -
  let ?c = "2 ^ k :: nat" let ?T = "T[h := ent_zero]"
  note T = tab_okD [OF assms(1)]
  have b: "pos ?c b 0 = nxt ?c h" by (simp add: pos_def assms(3) nxt_mod)
  have at: "?T ! x = (if x = h then ent_zero else T ! x)" for x using T(1) assms(2) by simp
  have "chain ?c ?T (com_hash (ce_p (?T ! j)) ?c) j \<or> chain ?c ?T (pos ?c b 0) j" if "j < ?c" "ce_p (?T ! j) \<noteq> 0" for j
  proof -
    from that have "j \<noteq> h" "?T ! j = T ! j" using at [of j] by (auto split: if_splits)
    then show ?thesis using chain_hole [OF T(3) [OF that(1)], of h] that(2) b by simp
  qed
  then show ?thesis using T(1) keys_ok_hole [OF T(2)] assms(4) by (auto simp: mending_def at split: if_splits)
qed

lemma untrack_ok:
  assumes "com_ok s"
  shows "\<exists>s'. u32_com_untrack ok p s = Some s' \<and> com_ok s' \<and> com_map (g_com_blk s') = (com_map (g_com_blk s))(p := None) \<and> g_com_cnt s' \<le> g_com_cnt s"
proof (cases "p = 0 \<or> g_com_cap s = 0 \<or> p \<notin> ce_p ` set (g_com_blk s)")
  case True
  let ?T = "g_com_blk s" let ?c = "g_com_cap s"
  have "com_map ?T p = None" using True assms by (cases "p = 0") (auto simp: com_map_None com_ok_def)
  moreover have "u32_com_untrack ok p s = Some s"
  proof (cases "p = 0 \<or> ?c = 0")
    case False
    then have t: "tab_ok ?c ?T" "occ ?T < ?c" using assms by (auto simp: com_ok_def)
    obtain h where h: "h < ?c" "u32_com_slot ?T p ?c = Some h" "(ce_p (?T ! h) = 0 \<and> p \<notin> ce_p ` set ?T) \<or> ce_p (?T ! h) = p"
      by (rule slot_cases [OF t, of p]) (use False in auto)
    have "ce_p (?T ! h) = 0" using h True False nth_mem [of h ?T] tab_okD(1) [OF t(1)] by auto
    then show ?thesis using h(2) False by (simp add: u32_com_untrack_def)
  qed (simp add: u32_com_untrack_def)
  ultimately show ?thesis using assms by (simp add: fun_upd_idem)
next
  case False
  let ?T = "g_com_blk s" let ?c = "g_com_cap s"
  have s: "tab_ok ?c ?T" "?c \<le> 2 ^ 28" "g_com_cnt s * 10 < ?c * 7" "occ ?T < ?c" "1024 \<le> ?c" "g_com_cnt s = occ ?T"
    using assms False by (auto simp: com_ok_def)
  then obtain k where k: "?c = 2 ^ k" by (auto simp: tab_ok_def)
  note T = tab_okD [OF s(1)]
  obtain h where h: "h < ?c" "u32_com_slot ?T p ?c = Some h" "ce_p (?T ! h) = p"
    using slot_cases [OF s(1,4), of p] False by (metis (no_types, lifting))
  let ?b = "nxt (2 ^ k) h" let ?T1 = "?T[h := ent_zero]"
  have b: "?b < ?c" "pos ?c ?b 0 = ?b" by (simp_all add: k nxt_mod pos_def)
  have "pos ?c ?b (?c - 1) = (h + 1 + (?c - 1)) mod ?c" unfolding pos_def k nxt_mod by (rule mod_add_left_eq)
  also have "\<dots> = (h + ?c) mod ?c" using h(1) by simp
  finally have hb: "pos ?c ?b (?c - 1) = h" using h(1) by simp
  obtain e where e: "e < ?c" "ce_p (?T ! e) = 0" using occ_free [of ?T] s(4) T(1) by auto
  let ?u = "(e + ?c - ?b) mod ?c"
  have "pos ?c ?b ?u = (?b + (e + ?c - ?b)) mod ?c" unfolding pos_def by (rule mod_add_right_eq)
  then have u: "ce_p (?T ! pos ?c ?b ?u) = 0" using e b(1) by simp
  then obtain m where m: "ce_p (?T ! pos ?c ?b m) = 0" "\<forall>u < m. ce_p (?T ! pos ?c ?b u) \<noteq> 0"
    using exists_least_iff [of "\<lambda>u. ce_p (?T ! pos ?c ?b u) = 0"] by blast
  have mc: "m < ?c" using m(2) u mod_less_divisor [of ?c "e + ?c - ?b"] h(1) by (metis linorder_neqE_nat less_trans gr_zeroI not_less_zero)
  have "pos ?c ?b u \<noteq> h" if "u < m" for u using pos_inj [of ?c ?b u "?c - 1"] hb that mc by auto
  then have M: "mending ?T (2 ^ k) ?b m 0 ?T1" using mending_start [of k ?T h ?b m] s(1) h(1) k by simp
  have o: "occ ?T1 + 1 = occ ?T" using occ_update [of h ?T ent_zero] h T(1) False by simp
  have "\<exists>T'. untrack_loop ok (pos (2 ^ k) ?b 0) (com_clear h s) = Some ((com_clear h s)\<lparr>g_com_blk := T'\<rparr>) \<and> tab_ok (2 ^ k) T' \<and>
      com_map T' = com_map (g_com_blk (com_clear h s)) \<and> occ T' = occ (g_com_blk (com_clear h s))"
    by (rule loop_ok [of ?T k ?b m 0]) (use M s k mc m o in \<open>simp_all add: com_clear_def\<close>)
  then obtain T' where T': "untrack_loop ok ?b (com_clear h s) = Some ((com_clear h s)\<lparr>g_com_blk := T'\<rparr>)" "tab_ok ?c T'"
    "com_map T' = com_map ?T1" "occ T' = occ ?T1" using b(2) k by (auto simp: com_clear_def)
  have "u32_com_untrack ok p s = Some ((com_clear h s)\<lparr>g_com_blk := T'\<rparr>)"
    using T'(1) h(2,3) False k by (simp add: u32_com_untrack_def nxt_def)
  moreover have "com_map T' = (com_map ?T)(p := None)" using T'(3) com_map_hole(1) [OF T(2), of h p] h T(1) False by simp
  moreover have "occ ?T - Suc 0 = occ ?T1" "occ ?T1 * 10 < ?c * 7" using o s(3,6) by linarith+
  ultimately show ?thesis using T'(2,4) tab_okD(1) [OF T'(2)] s False by (simp add: com_clear_def com_ok_def)
qed

subsection \<open>Sequences of calls\<close>

text \<open>
  A call with the result of the host's allocator: \<open>Alloc\<close> and \<open>Realloc\<close> carry the new address first.
\<close>

datatype com_op = Alloc u32 u32 | Realloc u32 u32 u32 | Free u32 | Get_size u32 | Did_alloc u32

fun com_call :: "(nat \<Rightarrow> bool) \<Rightarrow> com \<Rightarrow> com_op \<Rightarrow> (u32 \<times> com) option" where
  "com_call ok s (Alloc p n) = aret_CoTaskMemAlloc ok p 0x1000 (push_args 0x1000 [n] s)"
| "com_call ok s (Realloc p old n) = aret_CoTaskMemRealloc ok p 0x1000 (push_args 0x1000 [old, n] s)"
| "com_call ok s (Free p) = aret_CoTaskMemFree ok 0x1000 (push_args 0x1000 [p] s)"
| "com_call ok s (Get_size p) = map_option (\<lambda>r. (r, s)) (u32_im_getsize 0x1000 (push_args 0x1000 [0, p] s))"
| "com_call ok s (Did_alloc p) = map_option (\<lambda>r. (r, s)) (u32_im_didalloc 0x1000 (push_args 0x1000 [0, p] s))"

text \<open>The specification: a map from the live blocks to their sizes.\<close>

fun block_call :: "(u32 \<rightharpoonup> u32) \<Rightarrow> com_op \<Rightarrow> (u32 \<times> (u32 \<rightharpoonup> u32)) option" where
  "block_call m (Alloc p n) = Some (p, if p = 0 then m else m(p \<mapsto> n))"
| "block_call m (Realloc p old n) = Some (if p = 0 then (0, m) else (p, (m(old := None))(p \<mapsto> n)))"
| "block_call m (Free p) = Some (0, m(p := None))"
| "block_call m (Get_size p) = Some (case m p of None \<Rightarrow> - 1 | Some n \<Rightarrow> n, m)"
| "block_call m (Did_alloc p) = Some (if p = 0 then - 1 else if m p = None \<or> m p = Some (- 1) then 0 else 1, m)"

lemma push_com [simp]: "g_com_blk (push_args a vs s) = g_com_blk s" "g_com_cap (push_args a vs s) = g_com_cap s" "g_com_cnt (push_args a vs s) = g_com_cnt s"
  by (induction vs arbitrary: a s) (simp_all add: push_args.simps)

lemma push_com_ok [simp]: "com_ok (push_args a vs s) = com_ok s"
  by (simp add: com_ok_def)

lemma call_refines:
  assumes "com_ok s" "g_com_cnt s \<le> 10 ^ 8" "\<forall>c \<le> 2 ^ 28. ok c"
  shows "\<exists>r s'. com_call ok s op = Some (r, s') \<and> com_ok s' \<and> block_call (com_map (g_com_blk s)) op = Some (r, com_map (g_com_blk s')) \<and>
    g_com_cnt s' \<le> g_com_cnt s + 1"
proof (cases op)
  case (Alloc p n)
  let ?s = "push_args 0x1000 [n] s"
  show ?thesis
  proof (cases "p = 0")
    case True
    then show ?thesis using Alloc assms(1) by (simp add: aret_CoTaskMemAlloc_def com_alloc_def u32_com_track_def)
  next
    case False
    obtain s' where "u32_com_track ok p n ?s = Some s'" "com_ok s'" "com_map (g_com_blk s') = (com_map (g_com_blk s))(p \<mapsto> n)" "g_com_cnt s' \<le> g_com_cnt s + 1"
      using track_ok [of ?s ok p n] assms False by auto
    then show ?thesis using Alloc False by (simp add: aret_CoTaskMemAlloc_def com_alloc_def)
  qed
next
  case (Realloc p old n)
  let ?s = "push_args 0x1000 [old, n] s"
  show ?thesis
  proof (cases "p = 0")
    case True
    then show ?thesis using Realloc assms(1) by (simp add: aret_CoTaskMemRealloc_def com_realloc_def)
  next
    case False
    obtain u where u: "u32_com_untrack ok old ?s = Some u" "com_ok u" "com_map (g_com_blk u) = (com_map (g_com_blk s))(old := None)" "g_com_cnt u \<le> g_com_cnt s"
      using untrack_ok [of ?s ok old] assms(1) by auto
    obtain s' where "u32_com_track ok p n u = Some s'" "com_ok s'" "com_map (g_com_blk s') = (com_map (g_com_blk u))(p \<mapsto> n)" "g_com_cnt s' \<le> g_com_cnt u + 1"
      using track_ok [of u ok p n] assms(2,3) u(2,4) False by auto
    then show ?thesis using u Realloc False by (simp add: aret_CoTaskMemRealloc_def com_realloc_def)
  qed
next
  case (Free p)
  obtain s' where "u32_com_untrack ok p (push_args 0x1000 [p] s) = Some s'" "com_ok s'" "com_map (g_com_blk s') = (com_map (g_com_blk s))(p := None)" "g_com_cnt s' \<le> g_com_cnt s"
    using untrack_ok [of "push_args 0x1000 [p] s" ok p] assms(1) by auto
  then show ?thesis using Free by (simp add: aret_CoTaskMemFree_def com_free_def)
next
  case (Get_size p)
  then show ?thesis using assms(1) by (simp add: u32_im_getsize_def size_ok)
next
  case (Did_alloc p)
  then show ?thesis using assms(1) by (auto simp: u32_im_didalloc_def Let_def size_ok split: option.split)
qed

lemma run_refines:
  assumes "com_ok s" "g_com_cnt s + length ops \<le> 10 ^ 8" "\<forall>c \<le> 2 ^ 28. ok c"
  shows "\<exists>rs s'. run_reqs (com_call ok) s ops = Some (rs, s') \<and> com_ok s' \<and> run_reqs block_call (com_map (g_com_blk s)) ops = Some (rs, com_map (g_com_blk s'))"
  using assms(1,2)
proof (induction ops arbitrary: s)
  case (Cons op ops)
  obtain r u where u: "com_call ok s op = Some (r, u)" "com_ok u" "block_call (com_map (g_com_blk s)) op = Some (r, com_map (g_com_blk u))" "g_com_cnt u \<le> g_com_cnt s + 1"
    using call_refines [OF Cons.prems(1) _ assms(3), of op] Cons.prems(2) by auto
  from Cons.IH [OF u(2)] Cons.prems(2) u(4) obtain rs s' where "run_reqs (com_call ok) u ops = Some (rs, s')" "com_ok s'"
    "run_reqs block_call (com_map (g_com_blk u)) ops = Some (rs, com_map (g_com_blk s'))" by auto
  then show ?case using u(1,3) by simp
qed simp

text \<open>C14: The side table of the COM allocator is a map from live blocks to their sizes. For any sequence of
  \<^verbatim>\<open>CoTaskMemAlloc\<close>, \<^verbatim>\<open>CoTaskMemRealloc\<close>, \<^verbatim>\<open>CoTaskMemFree\<close>, \<^verbatim>\<open>GetSize\<close> and \<^verbatim>\<open>DidAlloc\<close> calls, with any addresses
  from the host's allocator, every probe ends and every answer is that of the map: growing the table
  and putting the entries behind a removed one back lose and invent nothing. The sequence may have
  a hundred million calls, for which tables of at most 2 to the power 28 slots are enough.\<close>

theorem com_blocks_refine_map:
  assumes "length ops \<le> 10 ^ 8" "\<forall>c \<le> 2 ^ 28. ok c"
  shows "\<exists>rs s'. run_reqs (com_call ok) com_start ops = Some (rs, s') \<and> com_ok s' \<and>
    run_reqs block_call Map.empty ops = Some (rs, com_map (g_com_blk s'))"
proof -
  have "com_ok com_start" "com_map (g_com_blk com_start) = Map.empty" "g_com_cnt com_start = 0"
    by (simp_all add: com_ok_def com_start_def occ_def com_map_def fun_eq_iff)
  then show ?thesis using run_refines [of com_start ops ok] assms by simp
qed

theorem com_blocks_refine_map_witness:
  "\<exists>s'. run_reqs (com_call (\<lambda>_. True)) com_start [Alloc 0x5000 8, Alloc 0x6000 9, Free 0x5000, Get_size 0x6000, Did_alloc 0x5000]
     = Some ([0x5000, 0x6000, 0, 9, 0], s')"
  using com_blocks_refine_map [of "[Alloc 0x5000 8, Alloc 0x6000 9, Free 0x5000, Get_size 0x6000, Did_alloc 0x5000]" "\<lambda>_. True"] by auto

section \<open>Strings and packed parameters\<close>

lemma ld16_st16_unit:
  assumes "i \<noteq> n" "2 * i + 1 < 2 ^ 32" "2 * n + 1 < 2 ^ 32"
  shows "ld16 (st16 m (d + 2 * of_nat n) v) (d + 2 * of_nat i) = ld16 m (d + 2 * of_nat i)"
proof -
  have ne: "d + of_nat (2 * i + a) \<noteq> d + of_nat (2 * n + b)" if "a < 2" "b < 2" for a b
    using that assms by (intro offset_neq) auto
  have "st16 m (d + 2 * of_nat n) v (d + 2 * of_nat i) = m (d + 2 * of_nat i)"
    by (rule st16_away) (use ne [of 0 0] ne [of 0 1] in \<open>simp_all add: ac_simps\<close>)
  moreover have "st16 m (d + 2 * of_nat n) v (d + 2 * of_nat i + 1) = m (d + 2 * of_nat i + 1)"
    by (rule st16_away) (use ne [of 1 0] ne [of 1 1] in \<open>simp_all add: ac_simps\<close>)
  ultimately show ?thesis by (simp add: ld16_def)
qed

lemma bstr_units_Suc: "bstr_units src d (Suc n) m =
   st16 (bstr_units src d n m) (d + 2 * of_nat n) (if src = 0 then 0 else ld16 (bstr_units src d n m) (src + 2 * of_nat n))"
  by (simp add: bstr_units_def)

lemma bstr_units_other: "(\<And>j. j < 2 * n \<Longrightarrow> x \<noteq> d + of_nat j) \<Longrightarrow> bstr_units src d n m x = m x"
proof (induction n)
  case (Suc n)
  have "x \<noteq> d + 2 * of_nat n" "x \<noteq> d + 2 * of_nat n + 1" using Suc.prems [of "2 * n"] Suc.prems [of "2 * n + 1"] by (simp_all add: ac_simps)
  then show ?case unfolding bstr_units_Suc using Suc by (simp add: st16_away)
qed (simp add: bstr_units_def)

lemma bstr_units_at:
  assumes "i < n" "n \<le> N" "2 * N \<le> 2 ^ 32" "src = 0 \<or> (\<forall>a < 2 * N. \<forall>b < 2 * N. src + of_nat a \<noteq> d + of_nat b)"
  shows "ld16 (bstr_units src d n m) (d + 2 * of_nat i) = (if src = 0 then 0 else ld16 m (src + 2 * of_nat i))"
  using assms(1,2)
proof (induction n)
  case (Suc n)
  have keep: "ld16 (bstr_units src d n m) (src + 2 * of_nat n) = ld16 m (src + 2 * of_nat n)" if "src \<noteq> 0"
  proof -
    have "src + of_nat (2 * n + c) \<noteq> d + of_nat j" if "c < 2" "j < 2 * n" for c j
      using assms(4) \<open>src \<noteq> 0\<close> that Suc.prems(2) spec [of _ "2 * n + c"] by (auto simp del: of_nat_add of_nat_mult)
    from this [of 0] this [of 1] show ?thesis by (simp add: ld16_def bstr_units_other ac_simps)
  qed
  show ?case
  proof (cases "i = n")
    case True
    then show ?thesis unfolding bstr_units_Suc using keep by simp
  next
    case False
    then have "ld16 (bstr_units src d (Suc n) m) (d + 2 * of_nat i) = ld16 (bstr_units src d n m) (d + 2 * of_nat i)"
      unfolding bstr_units_Suc using Suc.prems assms(3) by (intro ld16_st16_unit) auto
    then show ?thesis using Suc False by simp
  qed
qed simp

text \<open>
  A BSTR holds what it was made from: its length is the number of units asked for, its units are
  those of the source, or zeros without one, and a NUL follows. The block must not overlap the source,
  and the length must leave room for the prefix and the NUL in 32 bits.
\<close>

theorem bstr_roundtrip:
  assumes "malloc (bstr_size len) = b" "b \<noteq> 0" "2 * unat len + 6 \<le> 2 ^ 32 - 2"
    "src = 0 \<or> (\<forall>i < 2 * unat len. \<forall>j < 2 * unat len + 4. src + of_nat i \<noteq> b + of_nat j)"
  shows "fst (bstr_new malloc src len s) = b + 4 \<and> ld32 (mem (snd (bstr_new malloc src len s))) b div 2 = len \<and>
    (\<forall>i < unat len. ld16 (mem (snd (bstr_new malloc src len s))) (b + 4 + 2 * of_nat i) = (if src = 0 then 0 else ld16 (mem s) (src + 2 * of_nat i))) \<and>
    ld16 (mem (snd (bstr_new malloc src len s))) (b + 4 + 2 * len) = 0"
proof -
  let ?n = "unat len" let ?m0 = "st32 (mem s) b (len * 2)" let ?m1 = "bstr_units src (b + 4) ?n ?m0"
  have m: "fst (bstr_new malloc src len s) = b + 4" "mem (snd (bstr_new malloc src len s)) = st16 ?m1 (b + 4 + 2 * len) 0"
    using assms(1,2) by (simp_all add: bstr_new_def Let_def)
  have len: "2 * len = of_nat (2 * ?n)" by simp
  have away: "b + of_nat i \<noteq> b + 4 + of_nat j" if "i < 4" "j < 2 ^ 32 - 4" for i j
    using offset_neq [of i "4 + j" b] that by (simp add: add.assoc)
  have "ld32 (st16 ?m1 (b + 4 + 2 * len) 0) b = ld32 ?m0 b"
  proof (rule ld32_cong)
    fix k :: nat assume k: "k < 4"
    have "?m1 (b + of_nat k) = ?m0 (b + of_nat k)" by (rule bstr_units_other) (use away k assms(3) in auto)
    moreover have "b + of_nat k \<noteq> b + 4 + 2 * len" "b + of_nat k \<noteq> b + 4 + 2 * len + 1"
      using away [OF k, of "2 * ?n"] away [OF k, of "2 * ?n + 1"] assms(3) by (simp_all add: add.assoc)
    ultimately show "st16 ?m1 (b + 4 + 2 * len) 0 (b + of_nat k) = ?m0 (b + of_nat k)" by (simp add: st16_away)
  qed
  moreover have "len * 2 div 2 = len"
    by (rule word_unat_eq_iff [THEN iffD2]) (use assms(3) in \<open>simp add: unat_div unat_word_ariths\<close>)
  moreover have "ld16 (st16 ?m1 (b + 4 + 2 * len) 0) (b + 4 + 2 * of_nat i) = (if src = 0 then 0 else ld16 (mem s) (src + 2 * of_nat i))"
    if i: "i < ?n" for i
  proof -
    have "ld16 (st16 ?m1 (b + 4 + 2 * of_nat ?n) 0) (b + 4 + 2 * of_nat i) = ld16 ?m1 (b + 4 + 2 * of_nat i)"
      using i assms(3) by (intro ld16_st16_unit) auto
    also have "\<dots> = (if src = 0 then 0 else ld16 ?m0 (src + 2 * of_nat i))"
    proof (rule bstr_units_at [OF i order_refl])
      show "src = 0 \<or> (\<forall>a < 2 * ?n. \<forall>c < 2 * ?n. src + of_nat a \<noteq> b + 4 + of_nat c)"
        using assms(4) by (auto simp: add.assoc) (metis Suc_eq_plus1 add.commute add_less_cancel_left of_nat_add of_nat_numeral)
    qed (use assms(3) in simp)
    finally have at: "ld16 (st16 ?m1 (b + 4 + 2 * len) 0) (b + 4 + 2 * of_nat i) = (if src = 0 then 0 else ld16 ?m0 (src + 2 * of_nat i))" by simp
    have "ld16 ?m0 (src + 2 * of_nat i) = ld16 (mem s) (src + 2 * of_nat i)" if "src \<noteq> 0"
    proof -
      have "?m0 (src + of_nat (2 * i + a)) = mem s (src + of_nat (2 * i + a))" if "a < 2" for a
        by (rule st32_at) (use assms(4) \<open>src \<noteq> 0\<close> i that in \<open>auto simp del: of_nat_add of_nat_mult\<close>)
      from this [of 0] this [of 1] show ?thesis by (simp add: ld16_def ac_simps)
    qed
    then show ?thesis unfolding at by simp
  qed
  ultimately show ?thesis unfolding m by simp
qed

end
