(* ===== verification/Aret_Exceptions.thy ===== *)
theory Aret_Exceptions
  imports Aret_Prelude
begin

text \<open>
  Exceptions of lifted programs (\<^verbatim>\<open>aret_hle.c\<close> 3277 to 3296 and 3944 to 5043): the thread block with the
  head of the handler chain, vectored handlers, \<^verbatim>\<open>RaiseException\<close>, \<^verbatim>\<open>RtlUnwind\<close>, the scope-table handlers
  of structured exceptions, the frame handler of Microsoft C++, the frame stack and the type matching of
  GNU C++, and the routing of hardware faults.

  Handlers, filters, destructors and landing pads are lifted guest code: the environment says what a
  call of it does. A call returns, or leaves by a \<^verbatim>\<open>longjmp\<close> to the buffer of an establisher, or the
  process stops. The arrays that the code keeps on the host stack are reached by the guest, so they are
  guest memory at addresses that the environment gives. A loop that need not end returns an option,
  None when it does not end.
\<close>

section \<open>State and environment\<close>

record gnu_frame =
  gf_key :: u32
  gf_pc :: u32
  gf_ebp :: u32
  gf_esp :: u32
  gf_pc_start :: u32

record eh = hle +
  aret_teb_ready :: bool
  aret_stack_base_va :: u32
  aret_stack_limit_va :: u32
  jmp_keys :: "u32 list"
  aret_veh_handler :: "u32 list"
  aret_veh_cookie :: "u32 list"
  aret_veh_n :: nat
  aret_veh_next :: u32
  g_seh_frame :: u32
  g_seh_handler_va :: u32
  g_seh_ebp :: u32
  g_seh_is_cxx :: bool
  g_gnu_eh :: "gnu_frame list"
  g_gnu_eh_n :: nat
  g_gnu_run_lp :: u32
  g_gnu_run_obj :: u32
  g_gnu_run_sel :: u32
  g_gnu_run_ebp :: u32
  g_gnu_run_esp :: u32
  g_gnu_exc_obj :: u32
  g_gnu_exc_tinfo :: u32
  g_gnu_cur_dtor :: u32
  g_gnu_caught_base :: u32
  g_gnu_caught_dtor :: u32
  g_gnu_rethrown :: bool
  hw_depth :: int
  s_last_addr :: u32
  s_same :: int

text \<open>The state a program starts with: every table is empty, no address has faulted.\<close>

definition eh_init :: "guest_mem \<Rightarrow> eh" where
  "eh_init m = \<lparr>mem = m, g_last_error = 0, aret_teb_ready = False, aret_stack_base_va = 0, aret_stack_limit_va = 0, jmp_keys = [],
     aret_veh_handler = replicate 32 0, aret_veh_cookie = replicate 32 0, aret_veh_n = 0, aret_veh_next = 1,
     g_seh_frame = 0, g_seh_handler_va = 0, g_seh_ebp = 0, g_seh_is_cxx = False,
     g_gnu_eh = replicate 256 \<lparr>gf_key = 0, gf_pc = 0, gf_ebp = 0, gf_esp = 0, gf_pc_start = 0\<rparr>, g_gnu_eh_n = 0,
     g_gnu_run_lp = 0, g_gnu_run_obj = 0, g_gnu_run_sel = 0, g_gnu_run_ebp = 0, g_gnu_run_esp = 0,
     g_gnu_exc_obj = 0, g_gnu_exc_tinfo = 0, g_gnu_cur_dtor = 0, g_gnu_caught_base = 0, g_gnu_caught_dtor = 0, g_gnu_rethrown = False,
     hw_depth = 0, s_last_addr = - 1, s_same = 0\<rparr>"

text \<open>\<open>Jump i v\<close> is a \<^verbatim>\<open>longjmp\<close> to buffer \<open>i\<close> with value \<open>v\<close>; \<open>Stop\<close> is the end of the process.\<close>

datatype 'a flow = Ret 'a eh | Jump nat int eh | Stop

text \<open>The registers a call passes: eax, ecx, edx and ebp.\<close>

record eh_env =
  e_call :: "u32 \<Rightarrow> u32 \<Rightarrow> u32 \<times> u32 \<times> u32 \<times> u32 \<Rightarrow> eh \<Rightarrow> u32 flow"
  e_teb :: u32
  e_peb :: u32
  e_procparams :: u32
  e_pid :: u32
  e_rec :: u32
  e_ctx :: u32
  e_ep :: u32
  e_unwind_rec :: u32
  e_unwind_ctx :: u32
  e_xp :: u32
  e_eh_stack :: u32
  e_calloc :: "u32 \<Rightarrow> u32"
  e_site :: "u32 \<Rightarrow> (u32 \<times> int \<times> nat) option"
  e_catch :: "int \<Rightarrow> int \<times> u32"
  e_vptrs :: "u32 \<times> u32 \<times> u32"

definition flow_bind :: "'a flow option \<Rightarrow> ('a \<Rightarrow> eh \<Rightarrow> 'b flow option) \<Rightarrow> 'b flow option" where
  "flow_bind f g = (case f of None \<Rightarrow> None | Some (Ret a s) \<Rightarrow> g a s | Some (Jump i v s) \<Rightarrow> Some (Jump i v s) | Some Stop \<Rightarrow> Some Stop)"

definition poke :: "u32 \<Rightarrow> u32 \<Rightarrow> eh \<Rightarrow> eh" where
  "poke a v s = s\<lparr>mem := st32 (mem s) a v\<rparr>"

definition pokes :: "u32 \<Rightarrow> u32 list \<Rightarrow> eh \<Rightarrow> eh" where
  "pokes a vs s = s\<lparr>mem := st_dwords (mem s) a vs\<rparr>"

definition peek :: "u32 \<Rightarrow> eh \<Rightarrow> u32" where
  "peek a s = ld32 (mem s) a"

section \<open>Jump buffers\<close>

definition JMP_N :: nat where "JMP_N = 512"

definition aret_jmpbuf_for :: "u32 \<Rightarrow> eh \<Rightarrow> nat \<times> eh" where
  "aret_jmpbuf_for key s = (case first_idx (\<lambda>i. jmp_keys s ! i = key) 0 (length (jmp_keys s)) of Some i \<Rightarrow> (i, s)
     | None \<Rightarrow> if length (jmp_keys s) < JMP_N then (length (jmp_keys s), s\<lparr>jmp_keys := jmp_keys s @ [key]\<rparr>)
         else (0, s\<lparr>jmp_keys := (jmp_keys s)[0 := key]\<rparr>))"

definition aret_longjmp_do :: "u32 \<Rightarrow> int \<Rightarrow> eh \<Rightarrow> 'a flow" where
  "aret_longjmp_do key val s = (case aret_jmpbuf_for key s of (i, s) \<Rightarrow> Jump i (if val \<noteq> 0 then val else 1) s)"

section \<open>The thread block\<close>

definition aret_set_stack_bounds :: "u32 \<Rightarrow> u32 \<Rightarrow> eh \<Rightarrow> eh" where
  "aret_set_stack_bounds base limit s = s\<lparr>aret_stack_base_va := base, aret_stack_limit_va := limit\<rparr>"

definition aret_teb_init :: "eh_env \<Rightarrow> eh \<Rightarrow> eh" where
  "aret_teb_init env s = (if aret_teb_ready s then s else
     let t = e_teb env; p = e_peb env; q = e_procparams env; s = s\<lparr>aret_teb_ready := True\<rparr>;
       s = pokes t [0xFFFFFFFF, if aret_stack_base_va s \<noteq> 0 then aret_stack_base_va s else 0x7FFF0000,
         if aret_stack_limit_va s \<noteq> 0 then aret_stack_limit_va s else 0x00010000] s;
       s = pokes (t + 0x20) [e_pid env, e_pid env] (poke (t + 0x18) t s); s = pokes (t + 0x2C) [0, p, 0] s;
       s = poke (p + 8) 0x00400000 (s\<lparr>mem := (mem s)(p + 2 := 0)\<rparr>)
     in pokes q [0x400, 0x400, 1] (poke (p + 0x10) q s))"

text \<open>The head of the handler chain, \<^verbatim>\<open>fs:[0]\<close>.\<close>

definition teb_head :: "eh_env \<Rightarrow> eh \<Rightarrow> u32" where
  "teb_head env s = peek (e_teb env) s"

definition chain_end :: "u32 \<Rightarrow> bool" where
  "chain_end f \<longleftrightarrow> f = 0 \<or> f = 0xFFFFFFFF"

section \<open>Vectored handlers\<close>

definition ARET_VEH_MAX :: nat where "ARET_VEH_MAX = 32"

definition veh_up :: "nat \<Rightarrow> u32 list \<Rightarrow> u32 list" where
  "veh_up n A = fold (\<lambda>i A. A[i := A ! (i - 1)]) (rev [1..<Suc n]) A"

definition veh_down :: "nat \<Rightarrow> nat \<Rightarrow> u32 list \<Rightarrow> u32 list" where
  "veh_down i n A = fold (\<lambda>j A. A[j := A ! (j + 1)]) [i..<n - 1] A"

definition veh_add :: "bool \<Rightarrow> u32 \<Rightarrow> eh \<Rightarrow> u32 \<times> eh" where
  "veh_add first handler s = (let n = aret_veh_n s in if handler = 0 \<or> n \<ge> ARET_VEH_MAX then (0, s)
     else let cookie = aret_veh_next s; at = (if first then 0 else n);
            up = (if first then veh_up n else (\<lambda>A. A))
       in (cookie, s\<lparr>aret_veh_next := cookie + 1, aret_veh_handler := (up (aret_veh_handler s))[at := handler],
             aret_veh_cookie := (up (aret_veh_cookie s))[at := cookie], aret_veh_n := n + 1\<rparr>))"

definition veh_remove :: "u32 \<Rightarrow> eh \<Rightarrow> u32 \<times> eh" where
  "veh_remove cookie s = (let n = aret_veh_n s in case first_idx (\<lambda>i. aret_veh_cookie s ! i = cookie) 0 n of None \<Rightarrow> (0, s)
     | Some i \<Rightarrow> (1, s\<lparr>aret_veh_handler := veh_down i n (aret_veh_handler s), aret_veh_cookie := veh_down i n (aret_veh_cookie s),
          aret_veh_n := n - 1\<rparr>))"

definition aret_AddVectoredExceptionHandler :: "u32 \<Rightarrow> eh \<Rightarrow> u32 \<times> eh" where
  "aret_AddVectoredExceptionHandler esp s = veh_add (WU esp 0 s \<noteq> 0) (WU esp 1 s) s"

definition aret_RemoveVectoredExceptionHandler :: "u32 \<Rightarrow> eh \<Rightarrow> u32 \<times> eh" where
  "aret_RemoveVectoredExceptionHandler esp s = veh_remove (WU esp 0 s) s"

fun veh_loop :: "eh_env \<Rightarrow> u32 \<Rightarrow> u32 list \<Rightarrow> eh \<Rightarrow> bool flow" where
  "veh_loop env hesp [] s = Ret False s"
| "veh_loop env hesp (h # hs) s = (case e_call env h hesp (0, 0, 0, 0) (poke (hesp + 4) (e_ep env) s) of
     Ret d s \<Rightarrow> if d = 0xFFFFFFFF then Ret True s else veh_loop env hesp hs s
   | Jump i v s \<Rightarrow> Jump i v s | Stop \<Rightarrow> Stop)"

definition aret_veh_dispatch :: "eh_env \<Rightarrow> u32 \<Rightarrow> u32 \<Rightarrow> u32 \<Rightarrow> eh \<Rightarrow> bool flow" where
  "aret_veh_dispatch env esp rec ctx s = (if aret_veh_n s = 0 then Ret False s
     else veh_loop env (esp - 0x80) (take (aret_veh_n s) (aret_veh_handler s)) (pokes (e_ep env) [rec, ctx] s))"

section \<open>Dispatch along the handler chain\<close>

text \<open>The frame of a handler's call: the record, the establisher frame, the context, the dispatcher context.\<close>

definition call_handler :: "eh_env \<Rightarrow> u32 \<Rightarrow> u32 \<Rightarrow> u32 \<Rightarrow> u32 \<Rightarrow> eh \<Rightarrow> u32 flow" where
  "call_handler env hesp rec ctx frame s =
     e_call env (peek (frame + 4) s) hesp (0, 0, 0, 0) (pokes (hesp + 4) [rec, frame, ctx, frame] s)"

text \<open>True when a handler continues the execution, False at the end of the chain.\<close>

partial_function (option) seh_walk :: "eh_env \<Rightarrow> u32 \<Rightarrow> u32 \<Rightarrow> u32 \<Rightarrow> u32 \<Rightarrow> eh \<Rightarrow> bool flow option" where
  "seh_walk env hesp rec ctx frame s = (if chain_end frame then Some (Ret False s)
     else case call_handler env hesp rec ctx frame s of
       Ret d s \<Rightarrow> if d = 0 then Some (Ret True s) else seh_walk env hesp rec ctx (peek frame s) s
     | Jump i v s \<Rightarrow> Some (Jump i v s) | Stop \<Rightarrow> Some Stop)"

declare seh_walk.simps [code]

definition zero_ctx :: "u32 \<Rightarrow> eh \<Rightarrow> eh" where
  "zero_ctx a = pokes a (replicate 200 0)"

definition ARET_CXX_EH_CODE :: u32 where "ARET_CXX_EH_CODE = 0xE06D7363"
definition ARET_EH_UNWINDING :: u32 where "ARET_EH_UNWINDING = 2"
definition ARET_EH_EXIT_UNWIND :: u32 where "ARET_EH_EXIT_UNWIND = 4"

definition raise_rec :: "u32 \<Rightarrow> u32 \<Rightarrow> u32 \<Rightarrow> u32 \<Rightarrow> u32 \<Rightarrow> eh \<Rightarrow> eh" where
  "raise_rec rec code flags nargs argp s = (let n = (if nargs > 15 then 15 else nargs);
       s = pokes rec ([code, flags, 0, 0, n] @ replicate 15 0) s
     in if argp = 0 then s else fold (\<lambda>i s. poke (rec + 20 + 4 * of_nat i) (peek (argp + 4 * of_nat i) s) s) [0..<unat n] s)"

section \<open>Unwinding to a frame\<close>

text \<open>
  The loop runs at most \<open>g\<close> rounds. At the end of the chain an exit unwind is done, any other one has
  missed its target. When the rounds are used up, the call returns as if the target were reached.
\<close>

primrec rtl_unwind_loop :: "nat \<Rightarrow> eh_env \<Rightarrow> u32 \<Rightarrow> u32 \<Rightarrow> u32 \<Rightarrow> u32 \<Rightarrow> bool \<Rightarrow> u32 \<Rightarrow> u32 \<Rightarrow> eh \<Rightarrow> u32 flow" where
  "rtl_unwind_loop 0 env hesp rec ctx target ex retval frame s = Ret retval s"
| "rtl_unwind_loop (Suc g) env hesp rec ctx target ex retval frame s =
     (if chain_end frame then if ex then Ret retval (poke (e_teb env) 0xFFFFFFFF s) else Stop
      else if \<not> ex \<and> frame = target then Ret retval s
      else let nxt = peek frame s in case call_handler env hesp rec ctx frame s of
        Ret _ s \<Rightarrow> rtl_unwind_loop g env hesp rec ctx target ex retval nxt (poke (e_teb env) nxt s)
      | Jump i v s \<Rightarrow> Jump i v s | Stop \<Rightarrow> Stop)"

definition GUARD :: nat where "GUARD = 100000"

definition unwind_exit :: "eh_env \<Rightarrow> u32 \<Rightarrow> eh \<Rightarrow> bool" where
  "unwind_exit env esp s = chain_end (WU esp 0 (aret_teb_init env s))"

text \<open>The record is the caller's, or a new one; the unwinding flags are set in it.\<close>

definition unwind_setup :: "eh_env \<Rightarrow> u32 \<Rightarrow> eh \<Rightarrow> u32 \<times> eh" where
  "unwind_setup env esp s = (let ex = unwind_exit env esp s; s = aret_teb_init env s; recp = WU esp 2 s;
       rec = (if recp \<noteq> 0 then recp else e_unwind_rec env);
       s = (if recp \<noteq> 0 then s else pokes rec (0xC0000027 # replicate 19 0) s);
       s = poke (rec + 4) (peek (rec + 4) s OR (ARET_EH_UNWINDING OR (if ex then ARET_EH_EXIT_UNWIND else 0))) s
     in (rec, zero_ctx (e_unwind_ctx env) s))"

definition aret_RtlUnwind :: "eh_env \<Rightarrow> u32 \<Rightarrow> eh \<Rightarrow> u32 flow" where
  "aret_RtlUnwind env esp s = (let s0 = aret_teb_init env s; (rec, s1) = unwind_setup env esp s in
     rtl_unwind_loop GUARD env (esp - 0x80) rec (e_unwind_ctx env) (WU esp 0 s0) (unwind_exit env esp s) (WU esp 3 s0)
       (teb_head env s1) s1)"

section \<open>Scope-table handlers\<close>

definition aret_seh_funclet :: "eh_env \<Rightarrow> u32 \<Rightarrow> u32 \<Rightarrow> eh \<Rightarrow> u32 flow" where
  "aret_seh_funclet env va ebp s = e_call env va (ebp - 0x400) (0, 0, 0, ebp) s"

text \<open>The entry of a level: the enclosing level, the filter (0 for a \<^verbatim>\<open>__finally\<close>) and the block.\<close>

definition scope_ent :: "u32 \<Rightarrow> u32 \<Rightarrow> u32" where
  "scope_ent recs lvl = recs + lvl * 12"

partial_function (option) aret_seh_local_unwind_n :: "eh_env \<Rightarrow> u32 \<Rightarrow> u32 \<Rightarrow> u32 \<Rightarrow> u32 \<Rightarrow> u32 \<Rightarrow> eh \<Rightarrow> unit flow option" where
  "aret_seh_local_unwind_n env recs lvl to ebp ende s = (if lvl = ende \<or> lvl = to then Some (Ret () s)
     else let e = scope_ent recs lvl in
       case (if peek (e + 4) s = 0 \<and> peek (e + 8) s \<noteq> 0 then aret_seh_funclet env (peek (e + 8) s) ebp s else Ret 0 s) of
         Ret _ s \<Rightarrow> aret_seh_local_unwind_n env recs (peek e s) to ebp ende s
       | Jump i v s \<Rightarrow> Some (Jump i v s) | Stop \<Rightarrow> Some Stop)"

declare aret_seh_local_unwind_n.simps [code]

primrec unwind_loop :: "nat \<Rightarrow> (u32 \<Rightarrow> eh \<Rightarrow> u32 flow option) \<Rightarrow> eh_env \<Rightarrow> u32 \<Rightarrow> u32 \<Rightarrow> eh \<Rightarrow> unit flow option" where
  "unwind_loop 0 call env target frame s = Some (Ret () s)"
| "unwind_loop (Suc g) call env target frame s = (if chain_end frame \<or> frame = target then Some (Ret () s)
     else let nxt = peek frame s in flow_bind (call frame s) (\<lambda>_ s. unwind_loop g call env target nxt (poke (e_teb env) nxt s)))"

text \<open>The unwinding record and a zeroed context, as both global unwinds set them up.\<close>

definition unwind_rec :: "eh_env \<Rightarrow> eh \<Rightarrow> eh" where
  "unwind_rec env s = zero_ctx (e_unwind_ctx env) (pokes (e_unwind_rec env) ([0xC0000027, ARET_EH_UNWINDING] @ replicate 18 0) s)"

definition aret_seh_global_unwind :: "eh_env \<Rightarrow> u32 \<Rightarrow> u32 \<Rightarrow> eh \<Rightarrow> unit flow option" where
  "aret_seh_global_unwind env esp target s = (let s = aret_teb_init env (unwind_rec env s) in
     unwind_loop GUARD (\<lambda>f s. Some (call_handler env (esp - 0x80) (e_unwind_rec env) (e_unwind_ctx env) f s)) env target (teb_head env s) s)"

text \<open>A filter has accepted: unwind the inner frames, then this frame's \<^verbatim>\<open>__finally\<close> blocks inside the level, and leave.\<close>

definition seh_execute :: "eh_env \<Rightarrow> u32 \<Rightarrow> u32 \<Rightarrow> u32 \<Rightarrow> u32 \<Rightarrow> u32 \<Rightarrow> u32 \<Rightarrow> u32 \<Rightarrow> eh \<Rightarrow> u32 flow option" where
  "seh_execute env esp framep recs ende ebp lvl enclosing s =
     flow_bind (aret_seh_global_unwind env esp framep s) (\<lambda>_ s.
     flow_bind (aret_seh_local_unwind_n env recs (peek (framep + 12) s) lvl ebp ende s) (\<lambda>_ s.
       let s = poke (framep + 12) enclosing s;
           s = s\<lparr>g_seh_frame := framep, g_seh_handler_va := peek (scope_ent recs lvl + 8) s, g_seh_ebp := ebp, g_seh_is_cxx := False\<rparr>
       in Some (aret_longjmp_do framep (c_int (sint lvl + 1)) s)))"

partial_function (option) seh_search_loop :: "eh_env \<Rightarrow> u32 \<Rightarrow> u32 \<Rightarrow> u32 \<Rightarrow> u32 \<Rightarrow> u32 \<Rightarrow> u32 \<Rightarrow> eh \<Rightarrow> u32 flow option" where
  "seh_search_loop env esp framep recs ende ebp lvl s = (if lvl = ende then Some (Ret 1 s)
     else let e = scope_ent recs lvl; enclosing = peek e s; filt = peek (e + 4) s in
       if filt = 0 then seh_search_loop env esp framep recs ende ebp enclosing s
       else case aret_seh_funclet env filt ebp s of
         Ret d s \<Rightarrow> if sint d < 0 then Some (Ret 0 s)
           else if sint d > 0 then seh_execute env esp framep recs ende ebp lvl enclosing s
           else seh_search_loop env esp framep recs ende ebp enclosing s
       | Jump i v s \<Rightarrow> Some (Jump i v s) | Stop \<Rightarrow> Some Stop)"

declare seh_search_loop.simps [code]

definition aret_seh_dispatch_search :: "eh_env \<Rightarrow> u32 \<Rightarrow> u32 \<Rightarrow> u32 \<Rightarrow> u32 \<Rightarrow> u32 \<Rightarrow> u32 \<Rightarrow> u32 \<Rightarrow> eh \<Rightarrow> u32 flow option" where
  "aret_seh_dispatch_search env esp recp framep ctxp recs ende ebp s =
     (let s = poke (framep - 4) (e_xp env) (pokes (e_xp env) [recp, ctxp] s) in
      seh_search_loop env esp framep recs ende ebp (peek (framep + 12) s) s)"

definition aret_seh_dispatch :: "eh_env \<Rightarrow> u32 \<Rightarrow> u32 \<Rightarrow> u32 \<Rightarrow> u32 \<Rightarrow> u32 \<Rightarrow> u32 \<Rightarrow> eh \<Rightarrow> u32 flow option" where
  "aret_seh_dispatch env esp recp framep ctxp recs ende s =
     (let flags = (if recp \<noteq> 0 then peek (recp + 4) s else 0); ebp = framep + 16 in
      if flags AND (ARET_EH_UNWINDING OR ARET_EH_EXIT_UNWIND) \<noteq> 0
      then flow_bind (aret_seh_local_unwind_n env recs (peek (framep + 12) s) ende ebp ende s) (\<lambda>_ s. Some (Ret 1 s))
      else aret_seh_dispatch_search env esp recp framep ctxp recs ende ebp s)"

definition aret_except_handler3 :: "eh_env \<Rightarrow> u32 \<Rightarrow> eh \<Rightarrow> u32 flow option" where
  "aret_except_handler3 env esp s = (let framep = WU esp 1 s in
     aret_seh_dispatch env esp (WU esp 0 s) framep (WU esp 2 s) (peek (framep + 8) s) (- 1) s)"

definition aret_except_handler4_common :: "eh_env \<Rightarrow> u32 \<Rightarrow> eh \<Rightarrow> u32 flow option" where
  "aret_except_handler4_common env esp s = (let cookiep = WU esp 0 s; framep = WU esp 3 s;
       cookie = (if cookiep \<noteq> 0 then peek cookiep s else 0); table = peek (framep + 8) s XOR cookie in
     aret_seh_dispatch env esp (WU esp 2 s) framep (WU esp 4 s) (table + 16) (- 2) s)"

text \<open>What the establisher does after the jump: run the block, or the catch and then its continuation.\<close>

definition aret_seh_run :: "eh_env \<Rightarrow> eh \<Rightarrow> u32 flow" where
  "aret_seh_run env s = (let ebp = g_seh_ebp s in
     if g_seh_is_cxx s then case aret_seh_funclet env (g_seh_handler_va s) ebp s of
         Ret cont s \<Rightarrow> aret_seh_funclet env cont (g_seh_ebp s) s | Jump i v s \<Rightarrow> Jump i v s | Stop \<Rightarrow> Stop
     else aret_seh_funclet env (g_seh_handler_va s) ebp s)"

section \<open>Microsoft C++ frames\<close>

text \<open>
  \<open>cxx_unwind_loop\<close> follows the unwind map from a state, at most \<open>g\<close> entries; the frame's state is set
  before each destructor runs.
\<close>

primrec cxx_unwind_loop :: "nat \<Rightarrow> eh_env \<Rightarrow> u32 \<Rightarrow> u32 \<Rightarrow> int \<Rightarrow> int \<Rightarrow> eh \<Rightarrow> unit flow" where
  "cxx_unwind_loop 0 env pUnwind framep st to s = Ret () s"
| "cxx_unwind_loop (Suc g) env pUnwind framep st to s = (if st = to \<or> st < 0 then Ret () s
     else let ue = pUnwind + word_of_int st * 8; nxt = peek ue s; action = peek (ue + 4) s; s = poke (framep + 8) nxt s in
       case (if action \<noteq> 0 then aret_seh_funclet env action (framep + 0xc) s else Ret 0 s) of
         Ret _ s \<Rightarrow> cxx_unwind_loop g env pUnwind framep (sint nxt) to s
       | Jump i v s \<Rightarrow> Jump i v s | Stop \<Rightarrow> Stop)"

definition aret_cxx_local_unwind :: "eh_env \<Rightarrow> u32 \<Rightarrow> u32 \<Rightarrow> int \<Rightarrow> int \<Rightarrow> eh \<Rightarrow> unit flow" where
  "aret_cxx_local_unwind env fi framep from to s =
     (case cxx_unwind_loop (nat (c_int (sint (peek (fi + 4) s) + 2))) env (peek (fi + 8) s) framep from to s of
        Ret _ s \<Rightarrow> Ret () (poke (framep + 8) (word_of_int to) s) | Jump i v s \<Rightarrow> Jump i v s | Stop \<Rightarrow> Stop)"

definition aret_cxx_catchable_match :: "guest_mem \<Rightarrow> u32 \<Rightarrow> u32 \<Rightarrow> u32" where
  "aret_cxx_catchable_match m pCatchType cta = (let pct = (\<lambda>i. ld32 m (cta + 4 + 4 * of_nat i)) in
     case first_idx (\<lambda>i. cstr m (pCatchType + 8) = cstr m (ld32 m (pct i + 4) + 8)) 0 (nat (sint (ld32 m cta))) of
       None \<Rightarrow> 0 | Some i \<Rightarrow> pct i)"

text \<open>A handler of a try block takes the exception when it catches everything or one of the thrown types matches.\<close>

definition cxx_takes :: "guest_mem \<Rightarrow> u32 \<Rightarrow> u32 \<Rightarrow> bool" where
  "cxx_takes m cta ht \<longleftrightarrow> ld32 m (ht + 4) = 0 \<or> aret_cxx_catchable_match m (ld32 m (ht + 4)) cta \<noteq> 0"

definition cxx_in_try :: "guest_mem \<Rightarrow> int \<Rightarrow> u32 \<Rightarrow> bool" where
  "cxx_in_try m state tb \<longleftrightarrow> sint (ld32 m tb) \<le> state \<and> state \<le> sint (ld32 m (tb + 4))"

definition cxx_handler_of :: "guest_mem \<Rightarrow> u32 \<Rightarrow> u32 \<Rightarrow> u32 option" where
  "cxx_handler_of m cta tb = map_option (\<lambda>h. ld32 m (tb + 16) + of_nat h * 16)
     (first_idx (\<lambda>h. cxx_takes m cta (ld32 m (tb + 16) + of_nat h * 16)) 0 (unat (ld32 m (tb + 12))))"

text \<open>The first try block around the state that has a handler for the exception, with that handler.\<close>

definition cxx_select :: "guest_mem \<Rightarrow> u32 \<Rightarrow> int \<Rightarrow> u32 \<Rightarrow> (u32 \<times> u32) option" where
  "cxx_select m fi state cta = (let tb = (\<lambda>t. ld32 m (fi + 16) + of_nat t * 20) in
     case first_idx (\<lambda>t. cxx_in_try m state (tb t) \<and> cxx_handler_of m cta (tb t) \<noteq> None) 0 (unat (ld32 m (fi + 12))) of
       None \<Rightarrow> None | Some t \<Rightarrow> map_option (Pair (tb t)) (cxx_handler_of m cta (tb t)))"

text \<open>The catch parameter; None when the case is not modelled by the code, which then aborts.\<close>

definition cxx_bind :: "guest_mem \<Rightarrow> u32 \<Rightarrow> u32 \<Rightarrow> u32 \<Rightarrow> u32 \<Rightarrow> guest_mem option" where
  "cxx_bind m ht ct ebp pObject = (if ld32 m (ht + 8) = 0 \<or> ct = 0 then Some m
     else let slot = ebp + ld32 m (ht + 8); src = pObject + ld32 m (ct + 8) in
       if ld32 m (ct + 12) \<noteq> - 1 then None
       else if ld32 m ht AND 8 \<noteq> 0 then Some (st32 m slot src)
       else if ld32 m (ct + 24) \<noteq> 0 then None
       else Some (st_bytes m slot (ld_bytes m src (unat (ld32 m (ct + 20))))))"

definition aret_cxx_call_handler :: "(u32 \<Rightarrow> eh \<Rightarrow> u32 flow option) \<Rightarrow> eh_env \<Rightarrow> u32 \<Rightarrow> u32 \<Rightarrow> u32 \<Rightarrow> u32 \<Rightarrow> eh \<Rightarrow> u32 flow option" where
  "aret_cxx_call_handler H env hesp rec ctx frame s = (let handler = peek (frame + 4) s; s = pokes (hesp + 4) [rec, frame, ctx, frame] s in
     if mem s handler = 0xB8 then H (hesp + 4) s else Some (e_call env handler hesp (0, 0, 0, 0) s))"

definition aret_cxx_global_unwind :: "(u32 \<Rightarrow> eh \<Rightarrow> u32 flow option) \<Rightarrow> eh_env \<Rightarrow> u32 \<Rightarrow> u32 \<Rightarrow> eh \<Rightarrow> unit flow option" where
  "aret_cxx_global_unwind H env esp target s = (let s = aret_teb_init env (unwind_rec env s) in
     unwind_loop GUARD (aret_cxx_call_handler H env (esp - 0x80) (e_unwind_rec env) (e_unwind_ctx env)) env target (teb_head env s) s)"

text \<open>
  The frame handler calls itself through the unwinding of the inner frames; \<open>n\<close> bounds that nesting.
\<close>

primrec aret_CxxFrameHandler3 :: "nat \<Rightarrow> eh_env \<Rightarrow> u32 \<Rightarrow> eh \<Rightarrow> u32 flow option" where
  "aret_CxxFrameHandler3 0 env esp s = None"
| "aret_CxxFrameHandler3 (Suc n) env esp s =
     (let recp = WU esp 0 s; framep = WU esp 1 s; thunk = peek (framep + 4) s in
      if mem s thunk \<noteq> 0xB8 then Some (Ret 1 s)
      else let fi = peek (thunk + 1) s; state = sint (peek (framep + 8) s) in
      if peek (recp + 4) s AND (ARET_EH_UNWINDING OR ARET_EH_EXIT_UNWIND) \<noteq> 0
      then flow_bind (Some (aret_cxx_local_unwind env fi framep state (- 1) s)) (\<lambda>_ s. Some (Ret 1 s))
      else if peek recp s \<noteq> ARET_CXX_EH_CODE then Some (Ret 1 s)
      else let cta = peek (peek (recp + 28) s + 12) s; pObject = peek (recp + 24) s; ebp = framep + 0xc in
      case cxx_select (mem s) fi state cta of None \<Rightarrow> Some (Ret 1 s)
      | Some (tb, ht) \<Rightarrow>
          let ct = (if peek (ht + 4) s = 0 then 0 else aret_cxx_catchable_match (mem s) (peek (ht + 4) s) cta); handlerVA = peek (ht + 12) s in
          case cxx_bind (mem s) ht ct ebp pObject of None \<Rightarrow> Some Stop
          | Some m \<Rightarrow>
              flow_bind (aret_cxx_global_unwind (aret_CxxFrameHandler3 n env) env esp framep (s\<lparr>mem := m\<rparr>)) (\<lambda>_ s.
              flow_bind (Some (aret_cxx_local_unwind env fi framep state (sint (peek tb s)) s)) (\<lambda>_ s.
                let s = poke (framep + 8) (peek (tb + 4) s + 1) s;
                    s = s\<lparr>g_seh_frame := framep, g_seh_handler_va := handlerVA, g_seh_ebp := ebp, g_seh_is_cxx := True\<rparr>
                in Some (aret_longjmp_do framep 1 s))))"

text \<open>The search of the chain for a C++ throw; it returns when no frame has taken the exception.\<close>

partial_function (option) cxx_walk :: "(u32 \<Rightarrow> eh \<Rightarrow> u32 flow option) \<Rightarrow> eh_env \<Rightarrow> u32 \<Rightarrow> u32 \<Rightarrow> u32 \<Rightarrow> u32 \<Rightarrow> eh \<Rightarrow> unit flow option" where
  "cxx_walk H env hesp rec ctx frame s = (if chain_end frame then Some (Ret () s)
     else case aret_cxx_call_handler H env hesp rec ctx frame s of None \<Rightarrow> None
       | Some (Ret _ s) \<Rightarrow> cxx_walk H env hesp rec ctx (peek frame s) s
       | Some (Jump i v s) \<Rightarrow> Some (Jump i v s) | Some Stop \<Rightarrow> Some Stop)"

declare cxx_walk.simps [code]

definition aret_cxx_dispatch :: "nat \<Rightarrow> eh_env \<Rightarrow> u32 \<Rightarrow> u32 \<Rightarrow> eh \<Rightarrow> unit flow option" where
  "aret_cxx_dispatch n env esp rec s = (let s = zero_ctx (e_ctx env) s in
     cxx_walk (aret_CxxFrameHandler3 n env) env (esp - 0x80) rec (e_ctx env) (teb_head env s) s)"

definition aret_CxxThrowException :: "nat \<Rightarrow> eh_env \<Rightarrow> u32 \<Rightarrow> eh \<Rightarrow> u32 flow option" where
  "aret_CxxThrowException n env esp s = (let s = aret_teb_init env s;
       s = pokes (e_rec env) ([ARET_CXX_EH_CODE, 1, 0, 0, 3, 0x19930520, WU esp 0 s, WU esp 1 s] @ replicate 12 0) s
     in flow_bind (aret_cxx_dispatch n env esp (e_rec env) s) (\<lambda>_ _. Some Stop))"

section \<open>Raising an exception\<close>

text \<open>The record and a zeroed context.\<close>

definition raise_setup :: "eh_env \<Rightarrow> u32 \<Rightarrow> eh \<Rightarrow> eh" where
  "raise_setup env esp s = (let s = aret_teb_init env s in
     zero_ctx (e_ctx env) (raise_rec (e_rec env) (WU esp 0 s) (WU esp 1 s) (WU esp 2 s) (WU esp 3 s) s))"

definition aret_RaiseException :: "nat \<Rightarrow> eh_env \<Rightarrow> u32 \<Rightarrow> eh \<Rightarrow> u32 flow option" where
  "aret_RaiseException n env esp s = (let code = WU esp 0 (aret_teb_init env s) in
     flow_bind (Some (aret_veh_dispatch env esp (e_rec env) (e_ctx env) (raise_setup env esp s))) (\<lambda>resumed s.
       if resumed then Some (Ret 0 s)
       else if code = ARET_CXX_EH_CODE then flow_bind (aret_cxx_dispatch n env esp (e_rec env) s) (\<lambda>_ _. Some Stop)
       else flow_bind (seh_walk env (esp - 0x80) (e_rec env) (e_ctx env) (teb_head env s) s) (\<lambda>continued s.
         if continued then Some (Ret 0 s) else Some Stop)))"

section \<open>GNU C++ frames\<close>

definition aret_gnu_ti_equal :: "guest_mem \<Rightarrow> u32 \<Rightarrow> u32 \<Rightarrow> bool" where
  "aret_gnu_ti_equal m a b = (if a = b then a \<noteq> 0 else if a = 0 \<or> b = 0 then False
     else let na = ld32 m (a + 4); nb = ld32 m (b + 4) in if na = 0 \<or> nb = 0 then False else cstr m na = cstr m nb)"

text \<open>The answer of the type match: no, yes with the offset of the caught part, or a type the code does not know.\<close>

datatype gmatch = GNo | GYes int | GUnknown

text \<open>The loop over the bases: it skips virtual and non-public ones; None when the search of a base does not end.\<close>

fun vmi_loop :: "(u32 \<Rightarrow> gmatch option) \<Rightarrow> guest_mem \<Rightarrow> u32 list \<Rightarrow> gmatch option" where
  "vmi_loop M m [] = Some GNo"
| "vmi_loop M m (bi # bis) = (let offflags = ld32 m (bi + 4) in
     if offflags AND 1 \<noteq> 0 \<or> offflags AND 2 = 0 then vmi_loop M m bis
     else case M (ld32 m bi) of None \<Rightarrow> None | Some GNo \<Rightarrow> vmi_loop M m bis
       | Some (GYes sub) \<Rightarrow> Some (GYes (c_int (sint offflags div 256 + sub))) | Some GUnknown \<Rightarrow> Some GUnknown)"

definition vmi_infos :: "guest_mem \<Rightarrow> u32 \<Rightarrow> u32 list" where
  "vmi_infos m ti = map (\<lambda>b. ti + 16 + of_nat b * 8) [0..<min (unat (ld32 m (ti + 12))) 64]"

text \<open>The recursion follows the bases of the thrown type; \<open>n\<close> bounds its depth.\<close>

primrec aret_gnu_type_match_adj :: "nat \<Rightarrow> u32 \<times> u32 \<times> u32 \<Rightarrow> guest_mem \<Rightarrow> u32 \<Rightarrow> u32 \<Rightarrow> gmatch option" where
  "aret_gnu_type_match_adj 0 vps m catch_ti thrown_ti = None"
| "aret_gnu_type_match_adj (Suc n) vps m catch_ti thrown_ti = (case vps of (cls, si, vmi) \<Rightarrow>
     if catch_ti = 0 then Some (GYes 0)
     else if aret_gnu_ti_equal m thrown_ti catch_ti then Some (GYes 0)
     else let vptr = ld32 m thrown_ti in
       if cls \<noteq> 0 \<and> vptr = cls then Some GNo
       else if si \<noteq> 0 \<and> vptr = si then aret_gnu_type_match_adj n vps m catch_ti (ld32 m (thrown_ti + 8))
       else if vmi \<noteq> 0 \<and> vptr = vmi then vmi_loop (aret_gnu_type_match_adj n vps m catch_ti) m (vmi_infos m thrown_ti)
       else Some GUnknown)"

definition aret_gnu_eh_push :: "u32 \<Rightarrow> u32 \<Rightarrow> eh \<Rightarrow> unit flow" where
  "aret_gnu_eh_push key pc_start s = (if g_gnu_eh_n s \<ge> 256 then Stop
     else Ret () (s\<lparr>g_gnu_eh := (g_gnu_eh s)[g_gnu_eh_n s := \<lparr>gf_key = key, gf_pc = 0, gf_ebp = 0, gf_esp = 0, gf_pc_start = pc_start\<rparr>],
       g_gnu_eh_n := g_gnu_eh_n s + 1\<rparr>))"

definition aret_gnu_eh_setpc :: "u32 \<Rightarrow> u32 \<Rightarrow> u32 \<Rightarrow> eh \<Rightarrow> eh" where
  "aret_gnu_eh_setpc pc sp bp s = (if g_gnu_eh_n s > 0 then
     let i = g_gnu_eh_n s - 1; f = g_gnu_eh s ! i
     in s\<lparr>g_gnu_eh := (g_gnu_eh s)[i := f\<lparr>gf_pc := pc, gf_ebp := bp, gf_esp := (if sp > gf_esp f then sp else gf_esp f)\<rparr>]\<rparr>
     else s)"

definition aret_gnu_eh_pop :: "eh \<Rightarrow> eh" where
  "aret_gnu_eh_pop s = (if g_gnu_eh_n s > 0 then s\<lparr>g_gnu_eh_n := g_gnu_eh_n s - 1\<rparr> else s)"

definition aret_gnu_eh_run :: "eh_env \<Rightarrow> eh \<Rightarrow> u32 flow" where
  "aret_gnu_eh_run env s = e_call env (g_gnu_run_lp s) (if g_gnu_run_esp s \<noteq> 0 then g_gnu_run_esp s else g_gnu_run_ebp s)
     (g_gnu_run_obj s, 0, g_gnu_run_sel s, g_gnu_run_ebp s) s"

text \<open>\<open>e_calloc\<close> gives the block of a size, 0 when there is none; the block is zeroed.\<close>

definition aret_cxa_allocate_exception :: "eh_env \<Rightarrow> u32 \<Rightarrow> eh \<Rightarrow> u32 flow" where
  "aret_cxa_allocate_exception env esp s = (let sz = WU esp 0 s; n = (if sz \<noteq> 0 then sz else 1); p = e_calloc env n in
     if p = 0 then Stop else Ret p (s\<lparr>mem := st_bytes (mem s) p (replicate (unat n) 0)\<rparr>))"

definition aret_cxa_get_exception_ptr :: "u32 \<Rightarrow> eh \<Rightarrow> u32" where
  "aret_cxa_get_exception_ptr esp s = WU esp 0 s"

definition aret_cxa_begin_catch :: "u32 \<Rightarrow> eh \<Rightarrow> u32 \<times> eh" where
  "aret_cxa_begin_catch esp s = (WU esp 0 s, s\<lparr>g_gnu_caught_base := g_gnu_exc_obj s, g_gnu_caught_dtor := g_gnu_cur_dtor s\<rparr>)"

text \<open>The destructor is called with the object in ecx and as the stack argument. What \<^verbatim>\<open>free\<close> does is not visible here.\<close>

definition aret_cxa_end_catch :: "eh_env \<Rightarrow> u32 \<Rightarrow> eh \<Rightarrow> u32 flow" where
  "aret_cxa_end_catch env esp s = (if g_gnu_rethrown s then Ret 0 (s\<lparr>g_gnu_rethrown := False\<rparr>)
     else let b = g_gnu_caught_base s; sp = (esp - 0x40) AND NOT 0xF in
       if b = 0 then Ret 0 s
       else case (if g_gnu_caught_dtor s \<noteq> 0 then e_call env (g_gnu_caught_dtor s) (sp - 4) (0, b, 0, 0) (poke sp b s) else Ret 0 s) of
         Ret _ s \<Rightarrow> Ret 0 (s\<lparr>g_gnu_caught_base := 0, g_gnu_caught_dtor := 0\<rparr>)
       | Jump i v s \<Rightarrow> Jump i v s | Stop \<Rightarrow> Stop)"

text \<open>
  The catch slots of a site in order: the first that matches gives the selector and the offset, none gives
  the selector -1, an unknown type stops.
\<close>

primrec gnu_catches :: "nat \<Rightarrow> eh_env \<Rightarrow> u32 \<Rightarrow> eh \<Rightarrow> int list \<Rightarrow> (int \<times> int) option option" where
  "gnu_catches n env tinfo s [] = Some (Some (- 1, 0))"
| "gnu_catches n env tinfo s (c # cs) = (let slot = snd (e_catch env c) in
     case aret_gnu_type_match_adj n (e_vptrs env) (mem s) (if slot \<noteq> 0 then peek slot s else 0) tinfo of None \<Rightarrow> None
     | Some (GYes adj) \<Rightarrow> Some (Some (fst (e_catch env c), adj)) | Some GNo \<Rightarrow> gnu_catches n env tinfo s cs
     | Some GUnknown \<Rightarrow> Some None)"

definition gnu_transfer :: "gnu_frame \<Rightarrow> nat \<Rightarrow> u32 \<Rightarrow> int \<times> int \<Rightarrow> eh \<Rightarrow> 'a flow" where
  "gnu_transfer f i lp sa s = (let (sel, adjust) = (if fst sa < 0 then (0, 0) else sa);
       s = s\<lparr>g_gnu_run_lp := lp, g_gnu_run_obj := g_gnu_exc_obj s + word_of_int adjust, g_gnu_run_sel := word_of_int sel,
         g_gnu_run_ebp := gf_ebp f, g_gnu_run_esp := gf_esp f, g_gnu_eh_n := i + 1\<rparr>
     in aret_longjmp_do (gf_key f) 1 s)"

text \<open>\<open>gnu_dispatch_loop n env k\<close> looks at the frames below \<open>k\<close>, the innermost first.\<close>

primrec gnu_dispatch_loop :: "nat \<Rightarrow> eh_env \<Rightarrow> nat \<Rightarrow> eh \<Rightarrow> u32 flow option" where
  "gnu_dispatch_loop n env 0 s = Some Stop"
| "gnu_dispatch_loop n env (Suc i) s = (let f = g_gnu_eh s ! i in
     case (if gf_pc f = 0 then None else e_site env (gf_pc f)) of None \<Rightarrow> gnu_dispatch_loop n env i s
     | Some (lp, coff, ccount) \<Rightarrow> if lp = 0 then gnu_dispatch_loop n env i s
         else case gnu_catches n env (g_gnu_exc_tinfo s) s (map (\<lambda>c. coff + int c) [0..<ccount]) of None \<Rightarrow> None
           | Some None \<Rightarrow> Some Stop
           | Some (Some sa) \<Rightarrow> Some (gnu_transfer f i lp sa s))"

definition aret_gnu_dispatch :: "nat \<Rightarrow> eh_env \<Rightarrow> eh \<Rightarrow> u32 flow option" where
  "aret_gnu_dispatch n env s = gnu_dispatch_loop n env (g_gnu_eh_n s) s"

definition aret_Unwind_Resume :: "nat \<Rightarrow> eh_env \<Rightarrow> eh \<Rightarrow> u32 flow option" where
  "aret_Unwind_Resume n env s = aret_gnu_dispatch n env (aret_gnu_eh_pop s)"

definition aret_cxa_throw :: "nat \<Rightarrow> eh_env \<Rightarrow> u32 \<Rightarrow> eh \<Rightarrow> u32 flow option" where
  "aret_cxa_throw n env esp s = aret_gnu_dispatch n env
     (s\<lparr>g_gnu_exc_obj := WU esp 0 s, g_gnu_exc_tinfo := WU esp 1 s, g_gnu_cur_dtor := WU esp 2 s\<rparr>)"

definition aret_cxa_rethrow :: "nat \<Rightarrow> eh_env \<Rightarrow> eh \<Rightarrow> u32 flow option" where
  "aret_cxa_rethrow n env s = aret_gnu_dispatch n env (s\<lparr>g_gnu_rethrown := True\<rparr>)"

section \<open>Hardware faults\<close>

datatype hw_sig = SIGSEGV | SIGFPE

text \<open>The guard against a fault that is resumed without progress; None when it gives up.\<close>

definition refault_guard :: "u32 \<Rightarrow> eh \<Rightarrow> eh option" where
  "refault_guard addr s = (if addr = s_last_addr s then
       (if s_same s + 1 \<ge> 16 then None else Some (s\<lparr>s_same := s_same s + 1\<rparr>))
     else Some (s\<lparr>s_last_addr := addr, s_same := 0\<rparr>))"

definition fault_rec :: "hw_sig \<Rightarrow> u32 \<Rightarrow> bool \<Rightarrow> u32 list" where
  "fault_rec sg addr wr = (case sg of
       SIGFPE \<Rightarrow> [0xC0000094, 0, 0, addr] @ replicate 16 0
     | SIGSEGV \<Rightarrow> [0xC0000005, 0, 0, addr, 2, of_bool wr, addr] @ replicate 13 0)"

text \<open>
  \<open>aret_hw_fault env sg si wr\<close>: the signal, the faulting address when the signal carries one, and the write bit of the
  page fault. True means that the instruction is tried again, False that the default disposition is restored.
\<close>

definition aret_hw_fault :: "eh_env \<Rightarrow> hw_sig \<Rightarrow> u32 option \<Rightarrow> bool \<Rightarrow> eh \<Rightarrow> bool flow option" where
  "aret_hw_fault env sg si wr s = (let s = s\<lparr>hw_depth := hw_depth s + 1\<rparr> in
     if hw_depth s > 8 then Some (Ret False s)
     else let s = aret_teb_init env s; frame = teb_head env s in
     case refault_guard (case si of None \<Rightarrow> - 2 | Some a \<Rightarrow> a) s of None \<Rightarrow> Some Stop
     | Some s \<Rightarrow> let s = zero_ctx (e_ctx env) (pokes (e_rec env) (fault_rec sg (case si of None \<Rightarrow> 0 | Some a \<Rightarrow> a) wr) s) in
         flow_bind (seh_walk env (e_eh_stack env + 0x10000 - 0x100) (e_rec env) (e_ctx env) frame s)
           (\<lambda>r s. Some (Ret r (s\<lparr>hw_depth := hw_depth s - 1\<rparr>))))"

end
