(* ===== verification/Aret_Exceptions_Theorems.thy ===== *)
theory Aret_Exceptions_Theorems
  imports Aret_Exceptions
begin

text \<open>
  What exception dispatch does for a lifted program: the order in which handlers are asked, what an
  unwind leaves behind, that the searches end, the type match of GNU C++ against the relation of public
  bases, the table of vectored handlers against a list, and two limits of the code.

  Guest code is arbitrary, so the hypotheses on it are explicit: a handler that returns leaves the links
  of the handler chain as they were.
\<close>

section \<open>Stores beside the chain\<close>

text \<open>The \<open>n\<close> bytes at \<open>x\<close> and the \<open>k\<close> bytes at \<open>a\<close> do not meet.\<close>

definition apart :: "u32 \<Rightarrow> nat \<Rightarrow> u32 \<Rightarrow> nat \<Rightarrow> bool" where
  "apart x n a k \<longleftrightarrow> k \<le> unat (x - a) \<and> n \<le> unat (a - x)"

lemma unat_of_nat_le: "unat (of_nat n :: u32) \<le> n"
  by (simp add: unat_of_nat)

lemma apart_neq:
  assumes "apart x n a k" "i < n" "j < k"
  shows "x + of_nat i \<noteq> a + of_nat j"
proof
  assume e: "x + of_nat i = a + of_nat j"
  show False
  proof (cases "i \<le> j")
    case True
    then have "x - a = of_nat (j - i)" using e by (simp add: of_nat_diff algebra_simps)
    then have "unat (x - a) \<le> j - i" by (metis unat_of_nat_le)
    then show False using assms unfolding apart_def by arith
  next
    case False
    then have "a - x = of_nat (i - j)" using e by (simp add: of_nat_diff algebra_simps)
    then have "unat (a - x) \<le> i - j" by (metis unat_of_nat_le)
    then show False using assms False unfolding apart_def by arith
  qed
qed

lemma peek_pokes_apart: "apart x 4 a (4 * length vs) \<Longrightarrow> peek x (pokes a vs s) = peek x s"
  unfolding peek_def pokes_def by (simp, rule ld32_cong, rule st_dwords_other) (rule apart_neq)

lemma poke_pokes: "poke a v s = pokes a [v] s"
  by (simp add: poke_def pokes_def)

lemma pokes_frame [simp]: "aret_veh_n (pokes a vs s) = aret_veh_n s" "aret_veh_handler (pokes a vs s) = aret_veh_handler s"
  "hw_depth (pokes a vs s) = hw_depth s" "s_last_addr (pokes a vs s) = s_last_addr s" "s_same (pokes a vs s) = s_same s"
  by (simp_all add: pokes_def)

text \<open>A call of guest code that returns leaves the dwords at \<open>A\<close> as they were.\<close>

definition quiet :: "eh_env \<Rightarrow> u32 set \<Rightarrow> bool" where
  "quiet env A \<longleftrightarrow> (\<forall>va sp r s d s'. e_call env va sp r s = Ret d s' \<longrightarrow> (\<forall>a\<in>A. peek a s' = peek a s))"

section \<open>The handler chain\<close>

text \<open>The frames from \<open>f\<close> on, in the order of their links.\<close>

fun chain :: "eh \<Rightarrow> u32 \<Rightarrow> u32 list \<Rightarrow> bool" where
  "chain s f [] \<longleftrightarrow> chain_end f"
| "chain s f (g # gs) \<longleftrightarrow> f = g \<and> \<not> chain_end g \<and> chain s (peek g s) gs"

lemma chain_cong: "(\<And>g. g \<in> set fs \<Longrightarrow> peek g s' = peek g s) \<Longrightarrow> chain s' f fs = chain s f fs"
  by (induction fs arbitrary: f) auto

text \<open>Handlers are asked in order until one accepts; the reference for every dispatch loop.\<close>

fun consult :: "(u32 \<Rightarrow> bool) \<Rightarrow> ('h \<Rightarrow> eh \<Rightarrow> u32 flow) \<Rightarrow> 'h list \<Rightarrow> eh \<Rightarrow> bool flow" where
  "consult acc H [] s = Ret False s"
| "consult acc H (h # hs) s = (case H h s of
     Ret d s \<Rightarrow> if acc d then Ret True s else consult acc H hs s
   | Jump i v s \<Rightarrow> Jump i v s | Stop \<Rightarrow> Stop)"

lemma consult_keeps:
  assumes "\<And>h s d s'. H h s = Ret d s' \<Longrightarrow> P s \<Longrightarrow> P s'" "P s" "consult acc H hs s = Ret r s'"
  shows "P s'"
  using assms(2,3)
proof (induction hs arbitrary: s)
  case (Cons h hs)
  then show ?case using assms(1) [of h s] by (auto split: flow.splits if_splits)
qed simp

lemma veh_loop_consult:
  "veh_loop env hesp hs s = consult (\<lambda>d. d = 0xFFFFFFFF) (\<lambda>h s. e_call env h hesp (0, 0, 0, 0) (poke (hesp + 4) (e_ep env) s)) hs s"
  by (induction hs arbitrary: s) (simp_all split: flow.split)

lemma call_handler_quiet:
  assumes "quiet env A" "\<And>a. a \<in> A \<Longrightarrow> apart a 4 (hesp + 4) 16" "call_handler env hesp rec ctx f s = Ret d s'" "a \<in> A"
  shows "peek a s' = peek a s"
proof -
  have "peek a s' = peek a (pokes (hesp + 4) [rec, f, ctx, f] s)"
    using assms(1,3,4) unfolding call_handler_def quiet_def by blast
  then show ?thesis using assms(2) [OF assms(4)] by (simp add: peek_pokes_apart)
qed

lemma seh_walk_consult:
  assumes "quiet env A" "\<And>a. a \<in> A \<Longrightarrow> apart a 4 (hesp + 4) 16" "set fs \<subseteq> A" "chain s f fs"
  shows "seh_walk env hesp rec ctx f s = Some (consult (\<lambda>d. d = 0) (call_handler env hesp rec ctx) fs s)"
  using assms(3,4)
proof (induction fs arbitrary: f s)
  case Nil
  then show ?case by (simp add: seh_walk.simps)
next
  case (Cons g fs)
  have "seh_walk env hesp rec ctx (peek g s') s' = Some (consult (\<lambda>d. d = 0) (call_handler env hesp rec ctx) fs s')"
    if "call_handler env hesp rec ctx g s = Ret d s'" for d s'
  proof (rule Cons.IH)
    have q: "peek a s' = peek a s" if "a \<in> A" for a
      using call_handler_quiet [OF assms(1,2)] \<open>call_handler env hesp rec ctx g s = Ret d s'\<close> that by blast
    then show "chain s' (peek g s') fs" using Cons.prems chain_cong [of fs s' s] by (auto simp: subset_iff)
  qed (use Cons.prems in simp)
  then show ?case using Cons.prems by (simp add: seh_walk.simps [of _ _ _ _ g] split: flow.split)
qed

section \<open>Raising an exception\<close>

lemma peek_poke_in:
  assumes "apart x 4 a k" "j + 4 \<le> k"
  shows "peek x (poke (a + of_nat j) v s) = peek x s"
  unfolding peek_def poke_def
proof (simp, rule ld32_cong, rule st32_at)
  fix i l :: nat assume "i < 4" "l < 4"
  then show "x + of_nat i \<noteq> a + of_nat j + of_nat l" using apart_neq [OF assms(1), of i "j + l"] assms(2) by (simp add: add.assoc)
qed

lemma peek_raise_rec:
  assumes "apart x 4 r 80"
  shows "peek x (raise_rec r code flags nargs argp s) = peek x s"
proof -
  let ?f = "\<lambda>i s. poke (r + 20 + 4 * of_nat i) (peek (argp + 4 * of_nat i) s) s"
  have step: "peek x (?f i s) = peek x s" if "i < 15" for i s
    using peek_poke_in [OF assms, of "20 + 4 * i"] that by (simp add: add.assoc)
  have "peek x (fold ?f is s) = peek x s" if "\<forall>i\<in>set is. i < 15" for "is" s
    using that by (induction "is" arbitrary: s) (simp_all add: step)
  moreover have "unat (if nargs > 15 then 15 else nargs) \<le> 15"
    using unat_mono [of 15 nargs] by (simp add: word_le_nat_alt word_less_nat_alt)
  ultimately show ?thesis using assms by (simp add: raise_rec_def Let_def peek_pokes_apart)
qed

text \<open>The memory that a dispatch writes itself: the call frame, the pointers, the record and the context.\<close>

definition dispatch_areas :: "eh_env \<Rightarrow> u32 \<Rightarrow> (u32 \<times> nat) list" where
  "dispatch_areas env esp = [(esp - 0x7C, 16), (e_ep env, 8), (e_rec env, 80), (e_ctx env, 800)]"

definition clear_of :: "(u32 \<times> nat) list \<Rightarrow> u32 \<Rightarrow> bool" where
  "clear_of R x = list_all (\<lambda>(a, k). apart x 4 a k) R"

lemma peek_zero_ctx: "apart x 4 a 800 \<Longrightarrow> peek x (zero_ctx a s) = peek x s"
  by (simp add: zero_ctx_def peek_pokes_apart)

lemma teb_init_ready: "aret_teb_ready s \<Longrightarrow> aret_teb_init env s = s"
  by (simp add: aret_teb_init_def)

lemma peek_raise_setup:
  "aret_teb_ready s \<Longrightarrow> clear_of (dispatch_areas env esp) x \<Longrightarrow> peek x (raise_setup env esp s) = peek x s"
  by (simp add: raise_setup_def teb_init_ready clear_of_def dispatch_areas_def peek_zero_ctx peek_raise_rec Let_def)

lemma apart_less: "apart x n a k \<Longrightarrow> k' \<le> k \<Longrightarrow> apart x n a k'"
  by (simp add: apart_def)

text \<open>A handler that accepts ends the call with 0, otherwise \<open>g\<close> goes on.\<close>

fun verdict :: "bool flow \<Rightarrow> (eh \<Rightarrow> u32 flow) \<Rightarrow> u32 flow" where
  "verdict (Ret r s) g = (if r then Ret 0 s else g s)"
| "verdict (Jump i v s) g = Jump i v s"
| "verdict Stop g = Stop"

definition call_vectored :: "eh_env \<Rightarrow> u32 \<Rightarrow> u32 \<Rightarrow> eh \<Rightarrow> u32 flow" where
  "call_vectored env hesp h s = e_call env h hesp (0, 0, 0, 0) (poke (hesp + 4) (e_ep env) s)"

definition vectored :: "eh_env \<Rightarrow> eh \<Rightarrow> eh" where
  "vectored env s = (if aret_veh_n s = 0 then s else pokes (e_ep env) [e_rec env, e_ctx env] s)"

lemma veh_dispatch_consult:
  "aret_veh_dispatch env esp (e_rec env) (e_ctx env) s = consult (\<lambda>d. d = 0xFFFFFFFF) (call_vectored env (esp - 0x80))
     (take (aret_veh_n s) (aret_veh_handler s)) (vectored env s)"
  by (simp add: aret_veh_dispatch_def veh_loop_consult vectored_def call_vectored_def [abs_def])

lemma call_vectored_quiet:
  assumes "quiet env A" "a \<in> A" "clear_of (dispatch_areas env esp) a" "call_vectored env (esp - 0x80) h s = Ret d s'"
  shows "peek a s' = peek a s"
proof -
  have "peek a s' = peek a (poke (esp - 0x80 + 4) (e_ep env) s)"
    using assms(1,2,4) unfolding quiet_def call_vectored_def by blast
  moreover have "apart a 4 (esp - 0x7C) 16" using assms(3) by (simp add: clear_of_def dispatch_areas_def)
  ultimately show ?thesis by (simp add: poke_pokes peek_pokes_apart apart_less [of a 4 "esp - 0x7C" 16])
qed

lemma vectored_quiet: "clear_of (dispatch_areas env esp) a \<Longrightarrow> peek a (vectored env s) = peek a s"
  by (simp add: vectored_def clear_of_def dispatch_areas_def peek_pokes_apart)

lemma raise_dispatch:
  fixes env :: eh_env and esp :: u32
  defines "A fs \<equiv> insert (e_teb env) (set fs)" and "s1 s \<equiv> raise_setup env esp s"
  assumes "aret_teb_ready s" "WU esp 0 s \<noteq> ARET_CXX_EH_CODE" "chain s (teb_head env s) fs"
    and q: "quiet env (A fs)" and c: "\<And>a. a \<in> A fs \<Longrightarrow> clear_of (dispatch_areas env esp) a"
  shows "aret_RaiseException n env esp s = Some (verdict (consult (\<lambda>d. d = 0xFFFFFFFF) (call_vectored env (esp - 0x80))
      (take (aret_veh_n (s1 s)) (aret_veh_handler (s1 s))) (vectored env (s1 s)))
    (\<lambda>s. verdict (consult (\<lambda>d. d = 0) (call_handler env (esp - 0x80) (e_rec env) (e_ctx env)) fs s) (\<lambda>s. Stop)))"
    (is "_ = Some (verdict ?V ?k)")
proof -
  have same: "peek a s2 = peek a s" if "?V = Ret r s2" "a \<in> A fs" for a r s2
  proof (rule consult_keeps [OF _ _ that(1)])
    show "peek a (vectored env (s1 s)) = peek a s"
      using vectored_quiet c peek_raise_setup assms(3) that(2) unfolding s1_def by metis
  qed (use call_vectored_quiet [OF q that(2) c [OF that(2)]] in metis)
  have walk: "seh_walk env (esp - 0x80) (e_rec env) (e_ctx env) (teb_head env s2) s2 =
      Some (consult (\<lambda>d. d = 0) (call_handler env (esp - 0x80) (e_rec env) (e_ctx env)) fs s2)" if "?V = Ret r s2" for r s2
  proof (rule seh_walk_consult [OF q])
    show "apart a 4 (esp - 0x80 + 4) 16" if "a \<in> A fs" for a using c [OF that] by (simp add: clear_of_def dispatch_areas_def)
    have "chain s2 (teb_head env s) fs" using chain_cong [of fs s2 s] same [OF that] assms(5) by (simp add: A_def)
    then show "chain s2 (teb_head env s2) fs" using same [OF that, of "e_teb env"] by (simp add: A_def teb_head_def)
  qed (simp add: A_def subset_insertI)
  show ?thesis
  proof (cases ?V)
    case (Ret r s2)
    show ?thesis
    proof (cases "consult (\<lambda>d. d = 0) (call_handler env (esp - 0x80) (e_rec env) (e_ctx env)) fs s2")
    qed (use Ret walk [OF Ret] assms(3,4) in \<open>simp_all add: aret_RaiseException_def veh_dispatch_consult flow_bind_def teb_init_ready s1_def\<close>)
  qed (use assms(3,4) in \<open>simp_all add: aret_RaiseException_def veh_dispatch_consult flow_bind_def teb_init_ready s1_def\<close>)
qed

lemma fold_field: "(\<And>i s. F (g i s) = F s) \<Longrightarrow> F (fold g is s) = F s"
  by (induction "is" arbitrary: s) simp_all

lemma raise_rec_frame [simp]: "aret_veh_n (raise_rec r c f n a s) = aret_veh_n s" "aret_veh_handler (raise_rec r c f n a s) = aret_veh_handler s"
  by (simp_all add: raise_rec_def Let_def poke_pokes fold_field [where F = aret_veh_n] fold_field [where F = aret_veh_handler])

lemma raise_setup_frame:
  "aret_teb_ready s \<Longrightarrow> aret_veh_n (raise_setup env esp s) = aret_veh_n s \<and> aret_veh_handler (raise_setup env esp s) = aret_veh_handler s"
  by (simp add: raise_setup_def teb_init_ready zero_ctx_def Let_def)

text \<open>
  C15: \<^verbatim>\<open>RaiseException\<close> with a code other than that of a C++ throw (\<^verbatim>\<open>0xE06D7363\<close>, which takes the path of its own)
  asks the vectored handlers in the order of their table, then the frames of the handler chain from the innermost one,
  each once, until one continues the execution; then the call returns 0. When all of them decline the process stops;
  when a handler jumps out or stops, that is the outcome. This holds when the thread block is set up, the chain is finite (it
  reaches its end marker), the guest's handlers leave the links of the chain and its head as they are, and the areas
  in which the dispatcher builds its record, its context and the handlers' arguments do not overlap them. Under these conditions
  the dispatch ends, since each frame of the chain is visited at most once.
\<close>
theorem raise_asks_in_order:
  assumes "aret_teb_ready s" "WU esp 0 s \<noteq> ARET_CXX_EH_CODE" "chain s (teb_head env s) fs"
    "quiet env (insert (e_teb env) (set fs))" "\<forall>a\<in>insert (e_teb env) (set fs). clear_of (dispatch_areas env esp) a"
  shows "aret_RaiseException n env esp s = Some (verdict (consult (\<lambda>d. d = 0xFFFFFFFF) (call_vectored env (esp - 0x80))
      (take (aret_veh_n s) (aret_veh_handler s)) (vectored env (raise_setup env esp s)))
    (\<lambda>s. verdict (consult (\<lambda>d. d = 0) (call_handler env (esp - 0x80) (e_rec env) (e_ctx env)) fs s) (\<lambda>s. Stop)))"
  using raise_dispatch [OF assms(1-4), where n = n] assms(5) raise_setup_frame [OF assms(1)] by simp

text \<open>Two frames; the handler of the outer one continues the execution.\<close>

definition two_frames :: eh where
  "two_frames = pokes 0x5100 [0xFFFFFFFF, 0xB] (pokes 0x5000 [0x5100, 0xA] (poke 0x1000 0x5000 ((eh_init (\<lambda>_. 0))\<lparr>aret_teb_ready := True\<rparr>)))"

definition resuming :: eh_env where
  "resuming = \<lparr>e_call = (\<lambda>va sp r s. if va = 0xB then Ret 0 s else Ret 1 s), e_teb = 0x1000, e_peb = 0, e_procparams = 0, e_pid = 0,
     e_rec = 0x2000, e_ctx = 0x3000, e_ep = 0x4000, e_unwind_rec = 0x2000, e_unwind_ctx = 0x3000, e_xp = 0x4000,
     e_eh_stack = 0x10000, e_calloc = (\<lambda>_. 0), e_site = (\<lambda>_. None), e_catch = (\<lambda>_. (0, 0)), e_vptrs = (0, 0, 0)\<rparr>"

lemma two_frames_links: "peek 0x1000 two_frames = 0x5000" "peek 0x5000 two_frames = 0x5100" "peek 0x5004 two_frames = 0xA"
  "peek 0x5100 two_frames = 0xFFFFFFFF" "peek 0x5104 two_frames = 0xB"
  by (simp_all add: two_frames_def peek_def poke_def pokes_def ld32_def st32_def)

lemma resuming_quiet: "quiet resuming A"
  by (simp add: quiet_def resuming_def)

lemma resuming_clear: "clear_of (dispatch_areas resuming 0x8000) a" if "a \<in> {0x1000, 0x5000, 0x5004, 0x5100, 0x5104}"
  using that by (auto simp: clear_of_def dispatch_areas_def resuming_def apart_def)

theorem raise_asks_in_order_witness: "\<exists>s'. aret_RaiseException 1 resuming 0x8000 two_frames = Some (Ret 0 s')"
proof -
  have r: "aret_teb_ready two_frames" by (simp add: two_frames_def pokes_def poke_def)
  have c: "WU 0x8000 0 two_frames \<noteq> ARET_CXX_EH_CODE"
    by (simp add: WU_def two_frames_def pokes_def poke_def ld32_def st32_def eh_init_def ARET_CXX_EH_CODE_def)
  have t: "e_teb resuming = 0x1000" by (simp add: resuming_def)
  have n: "aret_veh_n two_frames = 0" by (simp add: two_frames_def eh_init_def poke_pokes)
  have h: "chain two_frames (teb_head resuming two_frames) [0x5000, 0x5100]"
    by (simp add: teb_head_def t two_frames_links chain_end_def)
  let ?s = "raise_setup resuming 0x8000 two_frames"
  have p: "peek a ?s = peek a two_frames" if "a \<in> {0x5004, 0x5104}" for a
    using peek_raise_setup [OF r resuming_clear] that by blast
  have "peek 0x5104 (pokes (0x8000 - 0x80 + 4) vs ?s) = 0xB" if "length vs = 4" for vs
    using p [of "0x5104"] that by (simp add: peek_pokes_apart apart_def two_frames_links)
  then show ?thesis
    using raise_asks_in_order [OF r c h resuming_quiet, where n = 1] resuming_clear p [of "0x5004"] n r
    by (simp add: t call_handler_def resuming_def two_frames_links vectored_def raise_setup_frame)
qed

section \<open>Unwinding\<close>

text \<open>The frames are left one by one: the handler is called, then the head of the chain is the frame behind.\<close>

fun pop_frames :: "eh_env \<Rightarrow> (u32 \<Rightarrow> eh \<Rightarrow> u32 flow) \<Rightarrow> u32 list \<Rightarrow> eh \<Rightarrow> unit flow" where
  "pop_frames env H [] s = Ret () s"
| "pop_frames env H (f # fs) s = (case H f s of
     Ret _ s' \<Rightarrow> pop_frames env H fs (poke (e_teb env) (peek f s) s')
   | Jump i v s \<Rightarrow> Jump i v s | Stop \<Rightarrow> Stop)"

definition unwound :: "eh_env \<Rightarrow> u32 \<Rightarrow> bool \<Rightarrow> u32 \<Rightarrow> u32 list \<Rightarrow> unit flow \<Rightarrow> u32 flow" where
  "unwound env target ex retval fs r = (case r of
     Ret _ s \<Rightarrow> if ex then Ret retval (poke (e_teb env) 0xFFFFFFFF s) else if target \<in> set fs then Ret retval s else Stop
   | Jump i v s \<Rightarrow> Jump i v s | Stop \<Rightarrow> Stop)"

lemma unwound_skip: "h \<noteq> target \<Longrightarrow> unwound env target ex retval (h # fs) r = unwound env target ex retval fs r"
  by (simp add: unwound_def split: flow.split)

lemma chain_not_end: "chain s f fs \<Longrightarrow> g \<in> set fs \<Longrightarrow> \<not> chain_end g"
  by (induction fs arbitrary: f) auto

lemma unwind_loop_step:
  assumes "quiet env (set fs)" "\<And>a. a \<in> set fs \<Longrightarrow> apart a 4 (hesp + 4) 16 \<and> apart a 4 (e_teb env) 4"
    "call_handler env hesp rec ctx g s = Ret d s'" "chain s f gs" "set gs \<subseteq> set fs"
  shows "chain (poke (e_teb env) v s') f gs"
proof -
  have "peek a (poke (e_teb env) v s') = peek a s" if "a \<in> set fs" for a
    using call_handler_quiet [OF assms(1) _ assms(3) that] assms(2) that by (simp add: poke_pokes peek_pokes_apart)
  then show ?thesis using chain_cong [of gs _ s f] assms(4,5) by (metis subsetD)
qed

lemma rtl_unwind_loop_pops:
  assumes "quiet env (set fs)" "\<And>a. a \<in> set fs \<Longrightarrow> apart a 4 (hesp + 4) 16 \<and> apart a 4 (e_teb env) 4"
    "chain s f gs" "set gs \<subseteq> set fs" "length gs < g" "ex \<longleftrightarrow> chain_end target"
  shows "rtl_unwind_loop g env hesp rec ctx target ex retval f s =
    unwound env target ex retval gs (pop_frames env (call_handler env hesp rec ctx) (takeWhile (\<lambda>x. x \<noteq> target) gs) s)"
  using assms(3-5)
proof (induction gs arbitrary: f s g)
  case Nil
  then obtain k where "g = Suc k" by (cases g) auto
  then show ?case using Nil assms(6) by (simp add: unwound_def)
next
  case (Cons h gs)
  then obtain k where k: "g = Suc k" "length gs < k" by (cases g) auto
  have h: "f = h" "\<not> chain_end h" using Cons.prems by auto
  show ?case
  proof (cases "h = target")
    case True
    then show ?thesis using h k assms(6) by (simp add: unwound_def)
  next
    case False
    show ?thesis
    proof (cases "call_handler env hesp rec ctx h s")
      case (Ret d s')
      have "chain (poke (e_teb env) (peek h s) s') (peek h s) gs"
        using unwind_loop_step [OF assms(1,2) Ret] Cons.prems by simp
      from Cons.IH [OF this _ k(2)] show ?thesis
        using Ret False h k Cons.prems by (simp add: unwound_skip)
    qed (use False h k in \<open>simp_all add: unwound_def\<close>)
  qed
qed

text \<open>After the inner frames are left, the head of the chain is the target.\<close>

lemma pop_frames_head:
  assumes "quiet env (set fs)" "\<And>a. a \<in> set fs \<Longrightarrow> apart a 4 (hesp + 4) 16 \<and> apart a 4 (e_teb env) 4"
    "chain s (teb_head env s) gs" "set gs \<subseteq> set fs" "target \<in> set gs"
    "pop_frames env (call_handler env hesp rec ctx) (takeWhile (\<lambda>x. x \<noteq> target) gs) s = Ret u s'"
  shows "teb_head env s' = target"
  using assms(3-6)
proof (induction gs arbitrary: s)
  case (Cons h gs)
  show ?case
  proof (cases "h = target")
    case False
    with Cons.prems obtain d s2 where r: "call_handler env hesp rec ctx h s = Ret d s2"
      "pop_frames env (call_handler env hesp rec ctx) (takeWhile (\<lambda>x. x \<noteq> target) gs) (poke (e_teb env) (peek h s) s2) = Ret u s'"
      by (auto split: flow.splits)
    have "chain (poke (e_teb env) (peek h s) s2) (teb_head env (poke (e_teb env) (peek h s) s2)) gs"
      using unwind_loop_step [OF assms(1,2) r(1)] Cons.prems by (simp add: teb_head_def peek_def poke_def)
    then show ?thesis using Cons.IH r(2) Cons.prems False by simp
  qed (use Cons.prems in simp)
qed simp

definition unwind_areas :: "eh_env \<Rightarrow> u32 \<Rightarrow> eh \<Rightarrow> (u32 \<times> nat) list" where
  "unwind_areas env esp s = [(esp - 0x7C, 16), (fst (unwind_setup env esp s), 80), (e_unwind_ctx env, 800)]"

lemma peek_unwind_setup:
  assumes "aret_teb_ready s" "clear_of (unwind_areas env esp s) x"
  shows "peek x (snd (unwind_setup env esp s)) = peek x s"
proof -
  let ?r = "fst (unwind_setup env esp s)"
  have a: "apart x 4 ?r 80" "apart x 4 (e_unwind_ctx env) 800" using assms(2) by (simp_all add: clear_of_def unwind_areas_def)
  have "?r = (if WU esp 2 s \<noteq> 0 then WU esp 2 s else e_unwind_rec env)"
    by (simp add: unwind_setup_def teb_init_ready assms(1) Let_def)
  then show ?thesis using a peek_poke_in [OF a(1), of 4]
    by (simp add: unwind_setup_def teb_init_ready assms(1) Let_def peek_zero_ctx peek_pokes_apart split: if_splits)
qed

text \<open>The calls of \<^verbatim>\<open>RtlUnwind\<close>: the frames before the target, from the innermost one, with the unwinding record.\<close>

definition unwind_calls :: "eh_env \<Rightarrow> u32 \<Rightarrow> u32 list \<Rightarrow> eh \<Rightarrow> unit flow" where
  "unwind_calls env esp fs s = pop_frames env (call_handler env (esp - 0x80) (fst (unwind_setup env esp s)) (e_unwind_ctx env))
     (takeWhile (\<lambda>x. x \<noteq> WU esp 0 s) fs) (snd (unwind_setup env esp s))"

text \<open>
  C16: \<^verbatim>\<open>RtlUnwind\<close> with a chain of fewer than 100000 frames calls the handler of every frame inside the target, innermost first,
  each once, and takes it off the chain; then the head of the chain is the target and the call returns the given value.
  A target that is not on the chain stops the process; target 0 or -1 unwinds all frames and empties the chain.
\<close>
theorem rtl_unwind_to_target:
  assumes "aret_teb_ready s" "chain s (teb_head env s) fs" "length fs < GUARD" "quiet env (set fs)"
    "\<forall>a\<in>insert (e_teb env) (set fs). clear_of (unwind_areas env esp s) a" "\<forall>a\<in>set fs. apart a 4 (e_teb env) 4"
  shows "aret_RtlUnwind env esp s = unwound env (WU esp 0 s) (chain_end (WU esp 0 s)) (WU esp 3 s) fs (unwind_calls env esp fs s)
    \<and> (\<forall>u s'. WU esp 0 s \<in> set fs \<and> unwind_calls env esp fs s = Ret u s' \<longrightarrow> teb_head env s' = WU esp 0 s)"
proof -
  let ?s1 = "snd (unwind_setup env esp s)"
  have c: "chain ?s1 (teb_head env ?s1) fs"
    using assms(2,5) peek_unwind_setup [OF assms(1)] chain_cong [of fs ?s1 s] by (simp add: teb_head_def)
  have f: "apart a 4 (esp - 0x80 + 4) 16 \<and> apart a 4 (e_teb env) 4" if "a \<in> set fs" for a
    using assms(5,6) that by (simp add: clear_of_def unwind_areas_def)
  show ?thesis
    using rtl_unwind_loop_pops [OF assms(4) f c order_refl assms(3), of "chain_end (WU esp 0 s)" "WU esp 0 s"]
      pop_frames_head [OF assms(4) f c order_refl, of "WU esp 0 s"]
    by (auto simp: aret_RtlUnwind_def unwind_exit_def teb_init_ready assms(1) unwind_calls_def case_prod_beta Let_def)
qed

theorem rtl_unwind_to_target_witness:
  "\<exists>s'. aret_RtlUnwind resuming 0x8000 (poke 0x8000 0x5100 two_frames) = Ret 0 s' \<and> teb_head resuming s' = 0x5100"
proof -
  let ?s = "poke 0x8000 0x5100 two_frames"
  have l: "peek 0x1000 ?s = 0x5000" "peek 0x5000 ?s = 0x5100" "peek 0x5100 ?s = 0xFFFFFFFF" "WU 0x8000 0 ?s = 0x5100"
      "WU 0x8000 2 ?s = 0" "WU 0x8000 3 ?s = 0" and r: "aret_teb_ready ?s"
    by (simp_all add: two_frames_def peek_def poke_def pokes_def WU_def ld32_def st32_def eh_init_def)
  have t: "e_teb resuming = 0x1000" by (simp add: resuming_def)
  have a: "fst (unwind_setup resuming 0x8000 ?s) = 0x2000"
    by (simp add: unwind_setup_def teb_init_ready r Let_def l) (simp add: resuming_def)
  have c: "chain ?s (teb_head resuming ?s) [0x5000, 0x5100]" by (simp add: teb_head_def t l chain_end_def)
  have e: "\<exists>s'. unwind_calls resuming 0x8000 [0x5000, 0x5100] ?s = Ret () s'"
    by (simp add: unwind_calls_def l call_handler_def split: flow.split) (simp add: resuming_def)
  have "\<forall>x\<in>insert (e_teb resuming) (set [0x5000, 0x5100]). clear_of (unwind_areas resuming 0x8000 ?s) x"
    by (simp add: t clear_of_def unwind_areas_def a) (simp add: resuming_def apart_def)
  then show ?thesis using rtl_unwind_to_target [OF r c _ resuming_quiet, of "0x8000"] e
    by (auto simp: GUARD_def t apart_def l unwound_def chain_end_def)
qed

text \<open>
  A chain that is longer than the bound is not reported: a frame that links to itself is called 100000 times, and
  then the call returns as if the target were reached, with the head of the chain still at that frame.
\<close>

lemma unwind_cycle:
  assumes "\<And>va sp r s. e_call env va sp r s = Ret 1 s" "\<not> chain_end f" "f \<noteq> target" "apart f 4 (hesp + 4) 16" "e_teb env = f + 0x100"
    "apart f 4 (f + 0x100) 4"
  shows "peek f s = f \<Longrightarrow> \<exists>s'. rtl_unwind_loop (Suc g) env hesp rec ctx target False retval f s = Ret retval s' \<and> teb_head env s' = f"
proof (induction g arbitrary: s)
  case 0
  then show ?case using assms by (simp add: call_handler_def teb_head_def poke_def peek_def)
next
  case (Suc g)
  let ?s = "poke (f + 0x100) f (pokes (hesp + 4) [rec, f, ctx, f] s)"
  have "peek f ?s = f" using Suc.prems assms(4,6) by (simp add: poke_pokes peek_pokes_apart)
  from Suc.IH [OF this] show ?case using Suc.prems assms(1-3,5)
    by (subst rtl_unwind_loop.simps) (simp add: call_handler_def del: rtl_unwind_loop.simps)
qed

section \<open>Hardware faults\<close>

text \<open>Guest code does not touch a field of the dispatcher, whether it returns or jumps.\<close>

definition leaves_alone :: "(eh \<Rightarrow> 'f) \<Rightarrow> eh_env \<Rightarrow> bool" where
  "leaves_alone F env \<longleftrightarrow> (\<forall>va sp r s. case e_call env va sp r s of Ret d s' \<Rightarrow> F s' = F s | Jump i v s' \<Rightarrow> F s' = F s | Stop \<Rightarrow> True)"

fun flow_state :: "'a flow \<Rightarrow> eh option" where
  "flow_state (Ret a s) = Some s"
| "flow_state (Jump i v s) = Some s"
| "flow_state Stop = None"

lemma leaves_call:
  assumes "leaves_alone F env" "\<And>s m. F (s\<lparr>mem := m\<rparr>) = F s" "flow_state (call_handler env hesp rec ctx f s) = Some s'"
  shows "F s' = F s"
proof -
  have "F s' = F (pokes (hesp + 4) [rec, f, ctx, f] s)"
    using assms(1,3) unfolding leaves_alone_def call_handler_def
    by (cases "e_call env (peek (f + 4) s) hesp (0, 0, 0, 0) (pokes (hesp + 4) [rec, f, ctx, f] s)") (force split: flow.splits)+
  then show ?thesis using assms(2) by (simp add: pokes_def)
qed

lemma seh_walk_leaves:
  assumes "leaves_alone F env" "\<And>s m. F (s\<lparr>mem := m\<rparr>) = F s"
    and w: "seh_walk env hesp rec ctx f s = Some y" and y: "flow_state y = Some s'"
  shows "F s' = F s"
proof -
  have "\<forall>s'. e = env \<and> flow_state y = Some s' \<longrightarrow> F s' = F s" if "seh_walk e hesp rec ctx f s = Some y" for e
    using that
  proof (rule seh_walk.raw_induct [where P = "\<lambda>e h r c f s y. \<forall>s'. e = env \<and> flow_state y = Some s' \<longrightarrow> F s' = F s", rotated])
    fix W e h r c f s y
    assume W: "\<And>e h r c f s y. W e h r c f s = Some y \<Longrightarrow> \<forall>s'. e = env \<and> flow_state y = Some s' \<longrightarrow> F s' = F s"
      and b: "(if chain_end f then Some (Ret False s) else case call_handler e h r c f s of
        Ret d s \<Rightarrow> if d = 0 then Some (Ret True s) else W e h r c (peek f s) s | Jump i v s \<Rightarrow> Some (Jump i v s) | Stop \<Rightarrow> Some Stop) = Some y"
    have l: "F s' = F s" if "flow_state (call_handler env h r c f s) = Some s'" for s' using leaves_call [OF assms(1,2) that] .
    show "\<forall>s'. e = env \<and> flow_state y = Some s' \<longrightarrow> F s' = F s"
    proof (intro allI impI, elim conjE)
      fix s' assume e: "e = env" and y: "flow_state y = Some s'"
      show "F s' = F s"
      proof (cases "call_handler env h r c f s")
        case (Ret d s2)
        then show ?thesis using b W [of env h r c "peek f s2" s2 y] l [of s2] e y by (auto split: if_splits)
      qed (use b l e y in \<open>auto split: if_splits\<close>)
    qed
  qed
  then show ?thesis using w y by blast
qed

lemma teb_init_leaves: "(\<And>s m. F (s\<lparr>mem := m\<rparr>) = F s) \<Longrightarrow> (\<And>s b. F (s\<lparr>aret_teb_ready := b\<rparr>) = F s) \<Longrightarrow> F (aret_teb_init env s) = F s"
  by (simp add: aret_teb_init_def Let_def pokes_def poke_def)

lemma teb_init_counters [simp]: "hw_depth (aret_teb_init env s) = hw_depth s" "s_last_addr (aret_teb_init env s) = s_last_addr s"
  "s_same (aret_teb_init env s) = s_same s"
  by (rule teb_init_leaves; simp)+

definition fault_addr :: "u32 option \<Rightarrow> u32" where
  "fault_addr si = (case si of None \<Rightarrow> - 2 | Some a \<Rightarrow> a)"

text \<open>A fault that is dispatched: the guard lets it pass, then the chain is walked.\<close>

lemma hw_fault_walk:
  assumes "aret_hw_fault env sg si wr s = Some y" "y \<noteq> Stop" "hw_depth s < 8"
  shows "\<exists>s1 s2 frame hesp r. refault_guard (fault_addr si) s1 = Some s2 \<and> hw_depth s1 = hw_depth s + 1 \<and>
    s_last_addr s1 = s_last_addr s \<and> s_same s1 = s_same s \<and> seh_walk env hesp (e_rec env) (e_ctx env) frame (pokes (e_ctx env) (replicate 200 0)
      (pokes (e_rec env) r s2)) = Some (case y of Ret b t \<Rightarrow> Ret b (t\<lparr>hw_depth := hw_depth t + 1\<rparr>) | Jump i v t \<Rightarrow> Jump i v t | Stop \<Rightarrow> Stop)"
proof -
  let ?s1 = "aret_teb_init env (s\<lparr>hw_depth := hw_depth s + 1\<rparr>)"
  let ?r = "fault_rec sg (case si of None \<Rightarrow> 0 | Some a \<Rightarrow> a) wr"
  let ?w = "\<lambda>s2. seh_walk env (e_eh_stack env + 0x10000 - 0x100) (e_rec env) (e_ctx env) (teb_head env ?s1)
      (pokes (e_ctx env) (replicate 200 0) (pokes (e_rec env) ?r s2))"
  obtain s2 where g: "refault_guard (fault_addr si) ?s1 = Some s2"
    and b: "flow_bind (?w s2) (\<lambda>r s. Some (Ret r (s\<lparr>hw_depth := hw_depth s - 1\<rparr>))) = Some y"
    using assms by (auto simp: aret_hw_fault_def fault_addr_def zero_ctx_def Let_def split: option.splits)
  from b have "?w s2 = Some (case y of Ret b t \<Rightarrow> Ret b (t\<lparr>hw_depth := hw_depth t + 1\<rparr>) | Jump i v t \<Rightarrow> Jump i v t | Stop \<Rightarrow> Stop)"
    by (auto simp: flow_bind_def split: option.splits flow.splits)
  then show ?thesis using g by (intro exI [of _ ?s1] exI [of _ s2] exI) auto
qed

lemma hw_fault_deep: "8 \<le> hw_depth s \<Longrightarrow> aret_hw_fault env sg si wr s = Some (Ret False (s\<lparr>hw_depth := hw_depth s + 1\<rparr>))"
  by (simp add: aret_hw_fault_def)

lemma hw_fault_jump:
  assumes "leaves_alone hw_depth env" "aret_hw_fault env sg si wr s = Some (Jump i v t)"
  shows "hw_depth t = hw_depth s + 1"
proof -
  have d: "hw_depth s < 8" using assms(2) hw_fault_deep [of s env sg si wr] by fastforce
  from hw_fault_walk [OF assms(2) _ d] obtain s1 s2 frame hesp r where w: "refault_guard (fault_addr si) s1 = Some s2"
    "hw_depth s1 = hw_depth s + 1" "seh_walk env hesp (e_rec env) (e_ctx env) frame (pokes (e_ctx env) (replicate 200 0)
      (pokes (e_rec env) r s2)) = Some (Jump i v t)" by (simp, blast)
  have "hw_depth t = hw_depth s2" using seh_walk_leaves [OF assms(1) _ w(3)] by simp
  also have "\<dots> = hw_depth s + 1" using w(1,2) by (auto simp: refault_guard_def split: if_splits)
  finally show ?thesis .
qed

lemma hw_fault_resumed:
  assumes "leaves_alone s_last_addr env" "leaves_alone s_same env" "aret_hw_fault env sg si wr s = Some (Ret True t)"
  shows "s_last_addr t = fault_addr si \<and> s_same t = (if s_last_addr s = fault_addr si then s_same s + 1 else 0) \<and> s_same t < 16"
proof -
  have d: "hw_depth s < 8" using assms(3) hw_fault_deep [of s env sg si wr] by fastforce
  from hw_fault_walk [OF assms(3) _ d] obtain s1 s2 frame hesp r where w: "refault_guard (fault_addr si) s1 = Some s2"
    "s_last_addr s1 = s_last_addr s" "s_same s1 = s_same s" "seh_walk env hesp (e_rec env) (e_ctx env) frame (pokes (e_ctx env) (replicate 200 0)
      (pokes (e_rec env) r s2)) = Some (Ret True (t\<lparr>hw_depth := hw_depth t + 1\<rparr>))" by (simp, blast)
  have "s_last_addr t = s_last_addr s2" "s_same t = s_same s2"
    using seh_walk_leaves [OF assms(1) _ w(4)] seh_walk_leaves [OF assms(2) _ w(4)] by simp_all
  then show ?thesis using w(1-3) by (auto simp: refault_guard_def split: if_splits)
qed

text \<open>
  C34: The depth of the fault handler is not counted down when a handler catches a fault by a jump. So a program that has
  caught eight hardware faults cannot catch the ninth: the default disposition is restored without asking any handler,
  whatever the chain holds.
\<close>
theorem ninth_caught_fault_is_fatal:
  assumes "leaves_alone hw_depth env" "hw_depth (S 0) = 0"
    "\<forall>k<8. \<exists>i v t. aret_hw_fault env (sg k) (si k) (wr k) (S k) = Some (Jump i v t) \<and> hw_depth (S (Suc k)) = hw_depth t"
  shows "aret_hw_fault env g a w (S 8) = Some (Ret False ((S 8)\<lparr>hw_depth := 9\<rparr>))"
proof -
  have "k \<le> 8 \<Longrightarrow> hw_depth (S k) = int k" for k
  proof (induction k)
    case (Suc k)
    with assms(3) obtain i v t where "aret_hw_fault env (sg k) (si k) (wr k) (S k) = Some (Jump i v t)" "hw_depth (S (Suc k)) = hw_depth t"
      by (meson Suc_le_lessD)
    then show ?case using hw_fault_jump [OF assms(1)] Suc by simp
  qed (use assms(2) in simp)
  from this [of 8] show ?thesis by (simp add: hw_fault_deep)
qed

definition catching :: eh_env where
  "catching = resuming\<lparr>e_call := (\<lambda>va sp r s. Jump 0 1 s)\<rparr>"

lemma catching_fault:
  "n < 8 \<Longrightarrow> \<exists>t. aret_hw_fault catching SIGFPE (Some 7) False (two_frames\<lparr>hw_depth := n\<rparr>) = Some (Jump 0 1 t) \<and> hw_depth t = n + 1"
proof -
  have r: "aret_teb_ready two_frames" "s_last_addr two_frames = - 1" and t: "peek 0x1000 (two_frames\<lparr>hw_depth := k\<rparr>) = 0x5000" for k
    using two_frames_links(1) by (simp_all add: two_frames_def poke_def pokes_def peek_def eh_init_def)
  have e: "e_teb catching = 0x1000" "e_call catching = (\<lambda>va sp r s. Jump 0 1 s)" by (simp_all add: catching_def resuming_def)
  assume "n < 8"
  then show ?thesis
    by (simp add: aret_hw_fault_def teb_init_ready r teb_head_def e t refault_guard_def seh_walk.simps chain_end_def
      call_handler_def flow_bind_def zero_ctx_def Let_def)
qed

theorem ninth_caught_fault_is_fatal_witness:
  "aret_hw_fault catching SIGSEGV None True (two_frames\<lparr>hw_depth := 8\<rparr>) = Some (Ret False (two_frames\<lparr>hw_depth := 9\<rparr>))"
proof -
  have l: "leaves_alone hw_depth catching" by (simp add: leaves_alone_def catching_def)
  have z: "hw_depth (two_frames\<lparr>hw_depth := int 0\<rparr>) = 0" by simp
  have "\<forall>k<8. \<exists>i v t. aret_hw_fault catching SIGFPE (Some 7) False (two_frames\<lparr>hw_depth := int k\<rparr>) = Some (Jump i v t) \<and>
      hw_depth (two_frames\<lparr>hw_depth := int (Suc k)\<rparr>) = hw_depth t"
    using catching_fault [of "int k" for k] by fastforce
  from ninth_caught_fault_is_fatal [of catching "\<lambda>k. two_frames\<lparr>hw_depth := int k\<rparr>", OF l z this, of SIGSEGV None True]
  show ?thesis by simp
qed

text \<open>A fault that is resumed at the same address again and again is stopped: at most 16 resumptions follow each other.\<close>

lemma resumed_fault_stops:
  assumes "leaves_alone s_last_addr env" "leaves_alone s_same env" "s_same (S 0) \<ge> 0"
    "\<And>k. k < n \<Longrightarrow> aret_hw_fault env sg (Some a) wr (S k) = Some (Ret True (S (Suc k)))"
  shows "n \<le> 16"
proof -
  have "Suc k \<le> n \<Longrightarrow> s_last_addr (S (Suc k)) = a \<and> int k \<le> s_same (S (Suc k))" for k
  proof (induction k)
    case 0
    then show ?case using hw_fault_resumed [OF assms(1,2) assms(4), of 0] assms(3) by (auto simp: fault_addr_def)
  next
    case (Suc k)
    then show ?case using hw_fault_resumed [OF assms(1,2) assms(4), of "Suc k"] by (auto simp: fault_addr_def)
  qed
  from this [of "n - 1"] show ?thesis using hw_fault_resumed [OF assms(1,2) assms(4), of "n - 1"] by (cases n) auto
qed

section \<open>The table of vectored handlers\<close>

lemma length_veh [simp]: "length (veh_up n A) = length A" "length (veh_down i n A) = length A"
  unfolding veh_up_def veh_down_def by (rule fold_field [where F = length]; simp)+

lemma nth_veh_up: "n < length A \<Longrightarrow> k < length A \<Longrightarrow> veh_up n A ! k = (if 1 \<le> k \<and> k \<le> n then A ! (k - 1) else A ! k)"
proof (induction n arbitrary: A)
  case (Suc n)
  have "veh_up (Suc n) A = veh_up n (A[Suc n := A ! n])" by (simp add: veh_up_def)
  then show ?case using Suc by (auto simp: nth_list_update)
qed (simp add: veh_up_def)

lemma nth_veh_down: "n \<le> length A \<Longrightarrow> k < length A \<Longrightarrow> veh_down i n A ! k = (if i \<le> k \<and> k < n - 1 then A ! Suc k else A ! k)"
proof (induction n arbitrary: k)
  case (Suc n)
  show ?case
  proof (cases "i < n")
    case True
    then obtain m where m: "n = Suc m" "i \<le> m" by (cases n) auto
    then have "veh_down i (Suc n) A = (veh_down i n A)[m := veh_down i n A ! Suc m]" by (simp add: veh_down_def)
    then show ?thesis using Suc m by (auto simp: nth_list_update)
  qed (auto simp: veh_down_def)
qed (simp add: veh_down_def)

definition veh_ok :: "eh \<Rightarrow> bool" where
  "veh_ok s \<longleftrightarrow> length (aret_veh_handler s) = ARET_VEH_MAX \<and> length (aret_veh_cookie s) = ARET_VEH_MAX \<and> aret_veh_n s \<le> ARET_VEH_MAX"

text \<open>The registrations in the order in which they are asked, each with its cookie.\<close>

definition veh_list :: "eh \<Rightarrow> (u32 \<times> u32) list" where
  "veh_list s = zip (take (aret_veh_n s) (aret_veh_handler s)) (take (aret_veh_n s) (aret_veh_cookie s))"

definition drop_first :: "('a \<Rightarrow> bool) \<Rightarrow> 'a list \<Rightarrow> 'a list" where
  "drop_first P xs = takeWhile (\<lambda>x. \<not> P x) xs @ tl (dropWhile (\<lambda>x. \<not> P x) xs)"

lemma take_veh_front: "n < length A \<Longrightarrow> take (Suc n) ((veh_up n A)[0 := x]) = x # take n A"
  by (cases A) (auto intro!: nth_equalityI simp: nth_veh_up nth_list_update nth_Cons split: nat.split)

lemma take_veh_back: "n < length A \<Longrightarrow> take (Suc n) (A[n := x]) = take n A @ [x]"
  by (simp add: take_Suc_conv_app_nth)

lemma take_veh_down: "i < n \<Longrightarrow> n \<le> length A \<Longrightarrow> take (n - 1) (veh_down i n A) = take i A @ drop (Suc i) (take n A)"
  by (rule nth_equalityI) (auto simp: nth_veh_down nth_append)

lemma veh_list_length: "veh_ok s \<Longrightarrow> length (veh_list s) = aret_veh_n s"
  by (simp add: veh_ok_def veh_list_def)

lemma veh_list_add:
  assumes "veh_ok s" "h \<noteq> 0" "aret_veh_n s < ARET_VEH_MAX"
  shows "veh_ok (snd (veh_add first h s)) \<and> veh_list (snd (veh_add first h s)) =
    (if first then (h, aret_veh_next s) # veh_list s else veh_list s @ [(h, aret_veh_next s)])"
proof (cases first)
  case True
  then show ?thesis using assms take_veh_front [of "aret_veh_n s" "aret_veh_handler s"] take_veh_front [of "aret_veh_n s" "aret_veh_cookie s"]
    by (simp add: veh_add_def veh_ok_def veh_list_def Let_def)
next
  case False
  then show ?thesis using assms take_veh_back [of "aret_veh_n s" "aret_veh_handler s"] take_veh_back [of "aret_veh_n s" "aret_veh_cookie s"]
    by (simp add: veh_add_def veh_ok_def veh_list_def Let_def)
qed

lemma drop_first_at: "i < length xs \<Longrightarrow> P (xs ! i) \<Longrightarrow> \<forall>j<i. \<not> P (xs ! j) \<Longrightarrow> drop_first P xs = take i xs @ drop (Suc i) xs"
proof -
  assume a: "i < length xs" "P (xs ! i)" "\<forall>j<i. \<not> P (xs ! j)"
  then have "takeWhile (\<lambda>x. \<not> P x) xs = take i xs" by (intro takeWhile_eq_take_P_nth) auto
  moreover from this have "dropWhile (\<lambda>x. \<not> P x) xs = drop i xs" using a(1) by (simp add: dropWhile_eq_drop)
  ultimately show ?thesis using a(1) by (simp add: drop_first_def tl_drop drop_Suc)
qed

lemma veh_list_remove:
  assumes "veh_ok s"
  shows "veh_ok (snd (veh_remove c s)) \<and> fst (veh_remove c s) = of_bool (c \<in> snd ` set (veh_list s)) \<and>
    veh_list (snd (veh_remove c s)) = drop_first (\<lambda>e. snd e = c) (veh_list s)"
proof (cases "first_idx (\<lambda>i. aret_veh_cookie s ! i = c) 0 (aret_veh_n s)")
  case None
  then have n: "\<forall>i<aret_veh_n s. aret_veh_cookie s ! i \<noteq> c" by (simp add: scan_simps)
  then have "c \<notin> snd ` set (veh_list s)" using assms by (auto simp: veh_list_def veh_ok_def in_set_conv_nth)
  moreover from this have "\<forall>e\<in>set (veh_list s). snd e \<noteq> c" by force
  then have "drop_first (\<lambda>e. snd e = c) (veh_list s) = veh_list s"
    by (simp add: drop_first_def takeWhile_eq_all_conv [THEN iffD2] dropWhile_eq_Nil_conv [THEN iffD2])
  ultimately show ?thesis using None assms by (simp add: veh_remove_def)
next
  case (Some i)
  then have i: "i < aret_veh_n s" "aret_veh_cookie s ! i = c" "\<forall>j<i. aret_veh_cookie s ! j \<noteq> c" by (auto simp: scan_simps)
  have nth: "snd (veh_list s ! j) = aret_veh_cookie s ! j" if "j < aret_veh_n s" for j
    using that assms by (simp add: veh_list_def veh_ok_def)
  then have "c \<in> snd ` set (veh_list s)" using i veh_list_length [OF assms] by (metis imageI nth_mem)
  moreover have "drop_first (\<lambda>e. snd e = c) (veh_list s) = take i (veh_list s) @ drop (Suc i) (veh_list s)"
    using i nth veh_list_length [OF assms] by (intro drop_first_at) auto
  moreover have "veh_list (snd (veh_remove c s)) = take i (veh_list s) @ drop (Suc i) (veh_list s)"
    using Some i assms take_veh_down [OF i(1), of "aret_veh_handler s"] take_veh_down [OF i(1), of "aret_veh_cookie s"]
    by (simp add: veh_remove_def veh_list_def veh_ok_def take_zip drop_zip Let_def min_absorb1)
  ultimately show ?thesis using Some assms by (auto simp: veh_remove_def veh_ok_def Let_def)
qed

text \<open>
  C18: The table of vectored handlers is a list. Adding puts the handler at the head when it is to be called first, at the end
  otherwise, and returns its cookie; a null handler and a full table (32 entries) are refused with 0. Removing takes out the
  entry of the cookie, closes the gap and returns 1, or 0 when there is none; all other registrations keep their order.
\<close>
theorem vectored_table_refines_list:
  assumes "veh_ok s"
  shows "(case aret_AddVectoredExceptionHandler esp s of (r, s') \<Rightarrow> veh_ok s' \<and>
      (if WU esp 1 s = 0 \<or> length (veh_list s) = 32 then r = 0 \<and> s' = s
       else r = aret_veh_next s \<and> veh_list s' = (if WU esp 0 s \<noteq> 0 then (WU esp 1 s, r) # veh_list s else veh_list s @ [(WU esp 1 s, r)])))
    \<and> (case aret_RemoveVectoredExceptionHandler esp s of (r, s') \<Rightarrow> veh_ok s' \<and> r = of_bool (WU esp 0 s \<in> snd ` set (veh_list s)) \<and>
      veh_list s' = drop_first (\<lambda>e. snd e = WU esp 0 s) (veh_list s))"
proof (rule conjI)
  have "veh_add f h s = (0, s)" if "h = 0 \<or> aret_veh_n s = 32" for f h
    using that assms by (auto simp: veh_add_def veh_ok_def ARET_VEH_MAX_def)
  moreover have "fst (veh_add f h s) = aret_veh_next s" if "h \<noteq> 0" "aret_veh_n s < 32" for f h
    using that by (simp add: veh_add_def ARET_VEH_MAX_def Let_def)
  moreover have "aret_veh_n s \<le> 32" using assms by (simp add: veh_ok_def ARET_VEH_MAX_def)
  ultimately show "case aret_AddVectoredExceptionHandler esp s of (r, s') \<Rightarrow> veh_ok s' \<and>
      (if WU esp 1 s = 0 \<or> length (veh_list s) = 32 then r = 0 \<and> s' = s
       else r = aret_veh_next s \<and> veh_list s' = (if WU esp 0 s \<noteq> 0 then (WU esp 1 s, r) # veh_list s else veh_list s @ [(WU esp 1 s, r)]))"
    using veh_list_add [OF assms, of "WU esp 1 s" "WU esp 0 s \<noteq> 0"] veh_list_length [OF assms] assms
    by (cases "WU esp 1 s = 0 \<or> aret_veh_n s = 32") (auto simp: aret_AddVectoredExceptionHandler_def case_prod_beta ARET_VEH_MAX_def)
qed (use veh_list_remove [OF assms] in \<open>simp add: aret_RemoveVectoredExceptionHandler_def case_prod_beta\<close>)

theorem vectored_table_refines_list_witness:
  "veh_list (snd (aret_AddVectoredExceptionHandler 0 (eh_init (st32 (\<lambda>_. 0) 4 0x401000)))) = [(0x401000, 1)]"
proof -
  let ?s = "eh_init (st32 (\<lambda>_. 0) 4 0x401000)"
  have "veh_ok ?s" "veh_list ?s = []" "WU 0 0 ?s = 0" "WU 0 1 ?s = 0x401000" "aret_veh_next ?s = 1"
    by (simp_all add: veh_ok_def eh_init_def ARET_VEH_MAX_def veh_list_def WU_def ld32_def st32_def)
  then show ?thesis using vectored_table_refines_list [of ?s 0] by (simp add: case_prod_beta)
qed

section \<open>The type match of GNU C++\<close>

definition is_cls :: "u32 \<times> u32 \<times> u32 \<Rightarrow> guest_mem \<Rightarrow> u32 \<Rightarrow> bool" where
  "is_cls vps m t \<longleftrightarrow> (case vps of (cls, si, vmi) \<Rightarrow> cls \<noteq> 0 \<and> ld32 m t = cls)"

definition is_si :: "u32 \<times> u32 \<times> u32 \<Rightarrow> guest_mem \<Rightarrow> u32 \<Rightarrow> bool" where
  "is_si vps m t \<longleftrightarrow> (case vps of (cls, si, vmi) \<Rightarrow> \<not> is_cls vps m t \<and> si \<noteq> 0 \<and> ld32 m t = si)"

definition is_vmi :: "u32 \<times> u32 \<times> u32 \<Rightarrow> guest_mem \<Rightarrow> u32 \<Rightarrow> bool" where
  "is_vmi vps m t \<longleftrightarrow> (case vps of (cls, si, vmi) \<Rightarrow> \<not> is_cls vps m t \<and> \<not> is_si vps m t \<and> vmi \<noteq> 0 \<and> ld32 m t = vmi)"

text \<open>
  What the descriptors say, read from the layout of the C++ ABI: the name of a type is at 4; a type with several bases
  has their number at 12 and then, from 16 on, 8 bytes for each, its descriptor and a word with the offset of its part
  above bit 8, bit 0 for a virtual and bit 1 for a public base.
\<close>

definition same_type :: "guest_mem \<Rightarrow> u32 \<Rightarrow> u32 \<Rightarrow> bool" where
  "same_type m a b \<longleftrightarrow> a \<noteq> 0 \<and> b \<noteq> 0
     \<and> (a = b \<or> ld32 m (a + 4) \<noteq> 0 \<and> ld32 m (b + 4) \<noteq> 0 \<and> cstr m (ld32 m (a + 4)) = cstr m (ld32 m (b + 4)))"

definition base_count :: "guest_mem \<Rightarrow> u32 \<Rightarrow> nat" where
  "base_count m t = unat (ld32 m (t + 12))"

definition base_type :: "guest_mem \<Rightarrow> u32 \<Rightarrow> nat \<Rightarrow> u32" where
  "base_type m t i = ld32 m (t + of_nat (16 + 8 * i))"

definition base_word :: "guest_mem \<Rightarrow> u32 \<Rightarrow> nat \<Rightarrow> u32" where
  "base_word m t i = ld32 m (t + of_nat (20 + 8 * i))"

definition public_base :: "guest_mem \<Rightarrow> u32 \<Rightarrow> nat \<Rightarrow> bool" where
  "public_base m t i \<longleftrightarrow> i < base_count m t \<and> \<not> bit (base_word m t i) 0 \<and> bit (base_word m t i) 1"

definition base_offset :: "guest_mem \<Rightarrow> u32 \<Rightarrow> nat \<Rightarrow> int" where
  "base_offset m t i = sint (base_word m t i) div 256"

text \<open>\<open>pub_base vps m t b off\<close>: \<open>b\<close> is \<open>t\<close> or one of its public bases, at any depth, and its part starts at \<open>off\<close>.\<close>

inductive pub_base :: "u32 \<times> u32 \<times> u32 \<Rightarrow> guest_mem \<Rightarrow> u32 \<Rightarrow> u32 \<Rightarrow> int \<Rightarrow> bool" for vps m where
  pub_self: "pub_base vps m t t 0"
| pub_si: "is_si vps m t \<Longrightarrow> pub_base vps m (ld32 m (t + 8)) b off \<Longrightarrow> pub_base vps m t b off"
| pub_vmi: "is_vmi vps m t \<Longrightarrow> public_base m t i \<Longrightarrow> pub_base vps m (base_type m t i) b off \<Longrightarrow>
    pub_base vps m t b (base_offset m t i + off)"

inductive_simps pub_base_iff: "pub_base vps m t b off"

definition direct_bases :: "u32 \<times> u32 \<times> u32 \<Rightarrow> guest_mem \<Rightarrow> u32 \<Rightarrow> u32 set" where
  "direct_bases vps m t = (if is_si vps m t then {ld32 m (t + 8)}
     else if is_vmi vps m t then {base_type m t i | i. public_base m t i} else {})"

text \<open>What an answer says about the thrown type; the offsets are sums of C integers.\<close>

fun answers :: "u32 \<times> u32 \<times> u32 \<Rightarrow> guest_mem \<Rightarrow> u32 \<Rightarrow> u32 \<Rightarrow> gmatch \<Rightarrow> bool" where
  "answers vps m c t (GYes adj) \<longleftrightarrow> c = 0 \<and> adj = 0 \<or> (\<exists>b off. pub_base vps m t b off \<and> same_type m b c \<and> adj = c_int off)"
| "answers vps m c t GNo \<longleftrightarrow> c \<noteq> 0 \<and> (\<forall>b off. pub_base vps m t b off \<longrightarrow> \<not> same_type m b c)"
| "answers vps m c t GUnknown \<longleftrightarrow> (\<exists>b off. pub_base vps m t b off \<and> \<not> is_cls vps m b \<and> \<not> is_si vps m b \<and> \<not> is_vmi vps m b)"

text \<open>How the code reads them.\<close>

lemma ti_equal_same [simp]: "aret_gnu_ti_equal m a b = same_type m a b"
  by (auto simp: aret_gnu_ti_equal_def same_type_def Let_def)

definition pub_info :: "guest_mem \<Rightarrow> u32 \<Rightarrow> bool" where
  "pub_info m bi \<longleftrightarrow> ld32 m (bi + 4) AND 1 = 0 \<and> ld32 m (bi + 4) AND 2 \<noteq> 0"

definition base_info :: "u32 \<Rightarrow> nat \<Rightarrow> u32" where
  "base_info t i = t + of_nat (16 + 8 * i)"

lemma base_info_words: "ld32 m (base_info t i) = base_type m t i" "ld32 m (base_info t i + 4) = base_word m t i"
  by (simp_all add: base_info_def base_type_def base_word_def algebra_simps)

lemma base_info_public: "i < base_count m t \<Longrightarrow> pub_info m (base_info t i) \<longleftrightarrow> public_base m t i"
  using and_exp_eq_0_iff_not_bit [of "base_word m t i" 0] and_exp_eq_0_iff_not_bit [of "base_word m t i" 1]
  by (simp add: pub_info_def public_base_def base_info_words)

lemma vmi_infos_all: "base_count m t \<le> 64 \<Longrightarrow> vmi_infos m t = map (base_info t) [0..<base_count m t]"
  by (simp add: vmi_infos_def base_count_def base_info_def min_absorb1 algebra_simps)

lemma c_int_sum: "c_int (x + c_int y) = c_int (x + y)"
  by (simp add: c_int_def mod_simps)

lemma match_step:
  "aret_gnu_type_match_adj (Suc n) vps m c t = (if c = 0 \<or> aret_gnu_ti_equal m t c then Some (GYes 0)
     else if is_cls vps m t then Some GNo
     else if is_si vps m t then aret_gnu_type_match_adj n vps m c (ld32 m (t + 8))
     else if is_vmi vps m t then vmi_loop (aret_gnu_type_match_adj n vps m c) m (vmi_infos m t)
     else Some GUnknown)"
  by (cases vps) (simp add: is_cls_def is_si_def is_vmi_def Let_def)

declare aret_gnu_type_match_adj.simps(2) [simp del]

text \<open>The loop over the bases answers for the first base that says more than no.\<close>

lemma vmi_loop_answers:
  assumes "\<And>bi. bi \<in> set bis \<Longrightarrow> pub_info m bi \<Longrightarrow> \<exists>r. M (ld32 m bi) = Some r"
  shows "\<exists>r. vmi_loop M m bis = Some r \<and> (case r of
      GNo \<Rightarrow> \<forall>bi\<in>set bis. pub_info m bi \<longrightarrow> M (ld32 m bi) = Some GNo
    | GYes off \<Rightarrow> \<exists>bi\<in>set bis. \<exists>sub. pub_info m bi \<and> M (ld32 m bi) = Some (GYes sub) \<and> off = c_int (sint (ld32 m (bi + 4)) div 256 + sub)
    | GUnknown \<Rightarrow> \<exists>bi\<in>set bis. pub_info m bi \<and> M (ld32 m bi) = Some GUnknown)"
  using assms
proof (induction bis)
  case (Cons bi bis)
  from Cons.IH obtain r where r: "vmi_loop M m bis = Some r" "case r of
      GNo \<Rightarrow> \<forall>bi\<in>set bis. pub_info m bi \<longrightarrow> M (ld32 m bi) = Some GNo
    | GYes off \<Rightarrow> \<exists>bi\<in>set bis. \<exists>sub. pub_info m bi \<and> M (ld32 m bi) = Some (GYes sub) \<and> off = c_int (sint (ld32 m (bi + 4)) div 256 + sub)
    | GUnknown \<Rightarrow> \<exists>bi\<in>set bis. pub_info m bi \<and> M (ld32 m bi) = Some GUnknown" using Cons.prems by auto
  show ?case
  proof (cases "pub_info m bi")
    case False
    then have "vmi_loop M m (bi # bis) = Some r" using r(1) by (auto simp: pub_info_def Let_def)
    then show ?thesis using False r(2) by (cases r) auto
  next
    case True
    with Cons.prems obtain q where q: "M (ld32 m bi) = Some q" by auto
    show ?thesis
    proof (cases q)
      case GNo
      then have "vmi_loop M m (bi # bis) = Some r" using r(1) q True by (auto simp: pub_info_def Let_def)
      then show ?thesis using q GNo True r(2) by (cases r) auto
    qed (use True q in \<open>auto simp: pub_info_def Let_def\<close>)
  qed
qed simp

lemma is_excl: "is_si vps m t \<Longrightarrow> \<not> is_cls vps m t" "is_vmi vps m t \<Longrightarrow> \<not> is_cls vps m t \<and> \<not> is_si vps m t"
  by (auto simp: is_si_def is_vmi_def split: prod.splits)

lemma answers_si:
  assumes "is_si vps m t" "c \<noteq> 0" "\<not> same_type m t c" "answers vps m c (ld32 m (t + 8)) r"
  shows "answers vps m c t r"
proof (cases r)
  case GNo
  have "\<not> same_type m b c" if "pub_base vps m t b off" for b off
    using that assms is_excl by (cases rule: pub_base.cases) (auto simp: GNo)
  then show ?thesis using GNo assms(2) by auto
qed (use assms pub_si [OF assms(1)] in \<open>simp_all, blast+\<close>)

text \<open>The loop over the bases of a type with at most 64 of them.\<close>

lemma vmi_bases:
  assumes "base_count m t \<le> 64" "\<And>i. public_base m t i \<Longrightarrow> \<exists>r. M (base_type m t i) = Some r"
  shows "\<exists>r. vmi_loop M m (vmi_infos m t) = Some r \<and> (case r of
      GNo \<Rightarrow> \<forall>i. public_base m t i \<longrightarrow> M (base_type m t i) = Some GNo
    | GYes adj \<Rightarrow> \<exists>i sub. public_base m t i \<and> M (base_type m t i) = Some (GYes sub) \<and> adj = c_int (base_offset m t i + sub)
    | GUnknown \<Rightarrow> \<exists>i. public_base m t i \<and> M (base_type m t i) = Some GUnknown)"
proof -
  let ?L = "map (base_info t) [0..<base_count m t]"
  have L: "(\<exists>bi\<in>set ?L. pub_info m bi \<and> P (ld32 m bi) (ld32 m (bi + 4))) \<longleftrightarrow> (\<exists>i. public_base m t i \<and> P (base_type m t i) (base_word m t i))" for P
    by (auto simp: base_info_words base_info_public public_base_def)
  have "\<exists>r. vmi_loop M m ?L = Some r \<and> (case r of
      GNo \<Rightarrow> \<forall>bi\<in>set ?L. pub_info m bi \<longrightarrow> M (ld32 m bi) = Some GNo
    | GYes off \<Rightarrow> \<exists>bi\<in>set ?L. \<exists>sub. pub_info m bi \<and> M (ld32 m bi) = Some (GYes sub) \<and> off = c_int (sint (ld32 m (bi + 4)) div 256 + sub)
    | GUnknown \<Rightarrow> \<exists>bi\<in>set ?L. pub_info m bi \<and> M (ld32 m bi) = Some GUnknown)"
    by (rule vmi_loop_answers) (use assms(2) in \<open>auto simp: base_info_words base_info_public\<close>)
  then obtain r where r: "vmi_loop M m ?L = Some r" "case r of
      GNo \<Rightarrow> \<forall>bi\<in>set ?L. pub_info m bi \<longrightarrow> M (ld32 m bi) = Some GNo
    | GYes off \<Rightarrow> \<exists>bi\<in>set ?L. \<exists>sub. pub_info m bi \<and> M (ld32 m bi) = Some (GYes sub) \<and> off = c_int (sint (ld32 m (bi + 4)) div 256 + sub)
    | GUnknown \<Rightarrow> \<exists>bi\<in>set ?L. pub_info m bi \<and> M (ld32 m bi) = Some GUnknown" by blast
  show ?thesis
  proof (cases r)
    case GNo
    then show ?thesis using r L [of "\<lambda>b w. M b \<noteq> Some GNo"] vmi_infos_all [OF assms(1)] by auto
  next
    case (GYes off)
    then show ?thesis using r L [of "\<lambda>b w. \<exists>sub. M b = Some (GYes sub) \<and> off = c_int (sint w div 256 + sub)"] vmi_infos_all [OF assms(1)]
      by (auto simp: base_offset_def)
  next
    case GUnknown
    then show ?thesis using r L [of "\<lambda>b w. M b = Some GUnknown"] vmi_infos_all [OF assms(1)] by auto
  qed
qed

lemma answers_vmi:
  assumes vmi: "is_vmi vps m t" and c: "c \<noteq> 0" "\<not> same_type m t c"
    and ih: "\<And>i. public_base m t i \<Longrightarrow> \<exists>r. M (base_type m t i) = Some r \<and> answers vps m c (base_type m t i) r"
    and a: "case r of
          GNo \<Rightarrow> \<forall>i. public_base m t i \<longrightarrow> M (base_type m t i) = Some GNo
        | GYes adj \<Rightarrow> \<exists>i sub. public_base m t i \<and> M (base_type m t i) = Some (GYes sub) \<and> adj = c_int (base_offset m t i + sub)
        | GUnknown \<Rightarrow> \<exists>i. public_base m t i \<and> M (base_type m t i) = Some GUnknown"
  shows "answers vps m c t r"
proof (cases r)
  case GNo
  have "\<not> same_type m b c" if "pub_base vps m t b off" for b off
    using that
  proof (cases rule: pub_base.cases)
    case (pub_vmi i off')
    then show ?thesis using a ih [of i] by (auto simp: GNo)
  qed (use c vmi is_excl in auto)
  then show ?thesis using GNo c(1) by auto
next
  case (GYes adj)
  with a obtain i sub where b: "public_base m t i" "M (base_type m t i) = Some (GYes sub)"
    "adj = c_int (base_offset m t i + sub)" by auto
  then obtain b' off where "pub_base vps m (base_type m t i) b' off" "same_type m b' c" "sub = c_int off"
    using ih [of i] c(1) by auto
  then show ?thesis using GYes pub_vmi [OF vmi b(1)] b(3) by (auto simp: c_int_sum)
next
  case GUnknown
  with a obtain i where b: "public_base m t i" "M (base_type m t i) = Some GUnknown" by auto
  then show ?thesis using GUnknown ih [of i] pub_vmi [OF vmi b(1)] by auto
qed

text \<open>
  The search ends when the bases have a rank that decreases from a type to its bases, and its answer is right.
\<close>

lemma match_answers:
  assumes "\<And>x off b. pub_base vps m t x off \<Longrightarrow> b \<in> direct_bases vps m x \<Longrightarrow> rk b < (rk x :: nat)" "rk t < n"
    "\<And>x off. pub_base vps m t x off \<Longrightarrow> is_vmi vps m x \<Longrightarrow> base_count m x \<le> 64"
  shows "\<exists>r. aret_gnu_type_match_adj n vps m c t = Some r \<and> answers vps m c t r"
  using assms
proof (induction n arbitrary: t)
  case (Suc n)
  show ?case
  proof (cases "c = 0 \<or> same_type m t c")
    case True
    moreover have "c_int 0 = 0" by (simp add: c_int_def)
    ultimately show ?thesis using pub_self [of vps m t] by (simp add: match_step) metis
  next
    case False
    consider (cls) "is_cls vps m t" | (si) "is_si vps m t" | (vmi) "is_vmi vps m t"
      | (other) "\<not> is_cls vps m t" "\<not> is_si vps m t" "\<not> is_vmi vps m t" by blast
    then show ?thesis
    proof cases
      case cls
      have "b = t" if "pub_base vps m t b off" for b off using that cls is_excl by (cases rule: pub_base.cases) auto
      then show ?thesis using False cls by (auto simp: match_step)
    next
      case si
      let ?b = "ld32 m (t + 8)"
      have "\<exists>r. aret_gnu_type_match_adj n vps m c ?b = Some r \<and> answers vps m c ?b r"
      proof (rule Suc.IH)
        show "rk b < rk x" if "pub_base vps m ?b x off" "b \<in> direct_bases vps m x" for x off b
          using Suc.prems(1) pub_si [OF si that(1)] that(2) .
        show "base_count m x \<le> 64" if "pub_base vps m ?b x off" "is_vmi vps m x" for x off
          using Suc.prems(3) pub_si [OF si that(1)] that(2) .
        have "rk ?b < rk t" using Suc.prems(1) [OF pub_self] si by (simp add: direct_bases_def)
        then show "rk ?b < n" using Suc.prems(2) by simp
      qed
      then show ?thesis using False si is_excl answers_si [OF si] by (auto simp: match_step)
    next
      case vmi
      let ?M = "aret_gnu_type_match_adj n vps m c"
      have ih: "\<exists>r. ?M (base_type m t i) = Some r \<and> answers vps m c (base_type m t i) r" if i: "public_base m t i" for i
      proof (rule Suc.IH)
        show "rk b < rk x" if "pub_base vps m (base_type m t i) x off" "b \<in> direct_bases vps m x" for x off b
          using Suc.prems(1) pub_vmi [OF vmi i that(1)] that(2) .
        show "base_count m x \<le> 64" if "pub_base vps m (base_type m t i) x off" "is_vmi vps m x" for x off
          using Suc.prems(3) pub_vmi [OF vmi i that(1)] that(2) .
        have "base_type m t i \<in> direct_bases vps m t" using vmi is_excl i by (auto simp: direct_bases_def)
        from Suc.prems(1) [OF pub_self this] show "rk (base_type m t i) < n" using Suc.prems(2) by simp
      qed
      obtain r where r: "vmi_loop ?M m (vmi_infos m t) = Some r" and a: "case r of
          GNo \<Rightarrow> \<forall>i. public_base m t i \<longrightarrow> ?M (base_type m t i) = Some GNo
        | GYes adj \<Rightarrow> \<exists>i sub. public_base m t i \<and> ?M (base_type m t i) = Some (GYes sub) \<and> adj = c_int (base_offset m t i + sub)
        | GUnknown \<Rightarrow> \<exists>i. public_base m t i \<and> ?M (base_type m t i) = Some GUnknown"
        using vmi_bases [OF Suc.prems(3) [OF pub_self vmi], of ?M] ih by blast
      have "answers vps m c t r" by (rule answers_vmi [OF vmi _ _ ih a]) (use False in auto)
      then show ?thesis using False vmi is_excl r by (auto simp: match_step)
    next
      case other
      then show ?thesis using False pub_self [of vps m t] by (auto simp: match_step)
    qed
  qed
qed simp

text \<open>
  C17: The type match of GNU C++ is exact. For a thrown type whose bases do not go in a circle, and where no type reached has more
  than 64 bases (the code looks at no more), the search ends, with a depth that the rank of the type bounds. It says yes only
  with the offset of a public, non-virtual base, at any depth, that is the caught type (or for a catch of everything), it says no
  only when there is no such base, and the third answer, which stops the process, only when a type of unknown layout is reached.
\<close>
theorem gnu_catch_exact:
  assumes "\<forall>x off b. pub_base vps m t x off \<and> b \<in> direct_bases vps m x \<longrightarrow> rk b < (rk x :: nat)" "rk t < n"
    "\<forall>x off. pub_base vps m t x off \<and> is_vmi vps m x \<longrightarrow> base_count m x \<le> 64"
  shows "\<exists>r. aret_gnu_type_match_adj n vps m c t = Some r \<and> answers vps m c t r"
  using match_answers [of vps m t rk n c] assms by blast

text \<open>A class at 100 with the public bases at 200 (offset 0) and 300 (offset 8).\<close>

definition two_bases :: guest_mem where
  "two_bases = st_dwords (st_dwords (st_dwords (\<lambda>_. 0) 0x100 [3, 0, 0, 2, 0x200, 2, 0x300, 0x802]) 0x200 [1, 0]) 0x300 [1, 0]"

lemma two_bases_words: "ld32 two_bases 0x100 = 3" "ld32 two_bases 0x10C = 2" "ld32 two_bases 0x110 = 0x200" "ld32 two_bases 0x114 = 2"
  "ld32 two_bases 0x118 = 0x300" "ld32 two_bases 0x11C = 0x802" "ld32 two_bases 0x200 = 1" "ld32 two_bases 0x300 = 1"
  by (simp_all add: two_bases_def ld32_def st32_def)

lemma two_bases_kinds: "is_vmi (1, 2, 3) two_bases 0x100" "is_cls (1, 2, 3) two_bases 0x200" "is_cls (1, 2, 3) two_bases 0x300"
  by (simp_all add: is_vmi_def is_si_def is_cls_def two_bases_words)

lemma two_bases_bases: "base_count two_bases 0x100 = 2" "public_base two_bases 0x100 i \<Longrightarrow> base_type two_bases 0x100 i \<in> {0x200, 0x300}"
proof -
  show n: "base_count two_bases 0x100 = 2" by (simp add: base_count_def two_bases_words)
  assume "public_base two_bases 0x100 i"
  then have "i = 0 \<or> i = 1" using n by (auto simp: public_base_def)
  then show "base_type two_bases 0x100 i \<in> {0x200, 0x300}" by (auto simp: base_type_def two_bases_words)
qed

lemma two_bases_reach: "pub_base (1, 2, 3) two_bases t b off \<Longrightarrow> t \<in> {0x100, 0x200, 0x300} \<Longrightarrow> b \<in> {0x100, 0x200, 0x300} "
proof (induction rule: pub_base.induct)
  case (pub_si t b off)
  then show ?case using two_bases_kinds is_excl by auto
next
  case (pub_vmi t i b off)
  then have "t = 0x100" using two_bases_kinds is_excl by auto
  then show ?case using pub_vmi two_bases_bases(2) by auto
qed simp

theorem gnu_catch_exact_witness:
  "\<exists>r. aret_gnu_type_match_adj 2 (1, 2, 3) two_bases 0x300 0x100 = Some r \<and> answers (1, 2, 3) two_bases 0x300 0x100 r"
proof -
  let ?rk = "\<lambda>t :: u32. if t = 0x100 then 1 else 0 :: nat"
  have "?rk b < ?rk x" if "pub_base (1, 2, 3) two_bases 0x100 x off" "b \<in> direct_bases (1, 2, 3) two_bases x" for x off b
    using two_bases_reach [OF that(1)] that(2) is_excl two_bases_kinds two_bases_bases(2)
    by (fastforce simp: direct_bases_def split: if_splits)
  moreover have "base_count two_bases x \<le> 64" if "pub_base (1, 2, 3) two_bases 0x100 x off" "is_vmi (1, 2, 3) two_bases x" for x off
    using two_bases_reach [OF that(1)] that(2) is_excl two_bases_kinds two_bases_bases(1) by auto
  ultimately show ?thesis by (intro gnu_catch_exact [where rk = ?rk]) (blast, simp, blast)
qed

section \<open>The life of a GNU exception\<close>

definition has_pad :: "eh_env \<Rightarrow> gnu_frame \<Rightarrow> bool" where
  "has_pad env f \<longleftrightarrow> gf_pc f \<noteq> 0 \<and> (case e_site env (gf_pc f) of None \<Rightarrow> False | Some (lp, _, _) \<Rightarrow> lp \<noteq> 0)"

lemma gnu_dispatch_skip:
  "k \<le> n \<Longrightarrow> \<forall>j. k \<le> j \<and> j < n \<longrightarrow> \<not> has_pad env (g_gnu_eh s ! j) \<Longrightarrow> gnu_dispatch_loop d env n s = gnu_dispatch_loop d env k s"
proof (induction n)
  case (Suc n)
  show ?case
  proof (cases "k = Suc n")
    case False
    with Suc.prems have "k \<le> n" "\<not> has_pad env (g_gnu_eh s ! n)" by auto
    then have "gnu_dispatch_loop d env (Suc n) s = gnu_dispatch_loop d env n s" by (auto simp: has_pad_def Let_def split: option.splits)
    then show ?thesis using Suc \<open>k \<le> n\<close> by (simp del: gnu_dispatch_loop.simps)
  qed simp
qed simp

text \<open>A throw goes to the innermost frame that has a landing pad, and the frames inside it are gone; without one the process stops.\<close>

lemma gnu_dispatch_innermost:
  assumes "i < g_gnu_eh_n s" "\<forall>j. i < j \<and> j < g_gnu_eh_n s \<longrightarrow> \<not> has_pad env (g_gnu_eh s ! j)"
    "gf_pc (g_gnu_eh s ! i) \<noteq> 0" "e_site env (gf_pc (g_gnu_eh s ! i)) = Some (lp, coff, cc)" "lp \<noteq> 0"
    "gnu_catches n env (g_gnu_exc_tinfo s) s (map (\<lambda>c. coff + int c) [0..<cc]) = Some (Some sa)"
  shows "aret_gnu_dispatch n env s = Some (gnu_transfer (g_gnu_eh s ! i) i lp sa s)"
proof -
  have "aret_gnu_dispatch n env s = gnu_dispatch_loop n env (Suc i) s"
    using assms(1,2) by (simp only: aret_gnu_dispatch_def) (rule gnu_dispatch_skip, auto)
  then show ?thesis using assms(3-6) by simp
qed

lemma gnu_dispatch_unhandled:
  "\<forall>j<g_gnu_eh_n s. \<not> has_pad env (g_gnu_eh s ! j) \<Longrightarrow> aret_gnu_dispatch n env s = Some Stop"
  using gnu_dispatch_skip [of 0 "g_gnu_eh_n s" env s n] by (simp add: aret_gnu_dispatch_def)



section \<open>Jump buffers\<close>

text \<open>
  C36: While fewer than 512 keys are known, each key has a buffer of its own, which later keys do not take away. From then on all new
  keys share buffer 0: of two frames with new keys that are entered after that, both get buffer 0, buffer 0 then belongs to the inner
  frame's key \<open>k2\<close> (the outer one's key \<open>k\<close> is forgotten), and the lookup for a jump to the outer frame gives buffer 0 again, which the
  inner one has filled.
\<close>
theorem jump_buffers_until_full:
  assumes "distinct (jmp_keys s)" "aret_jmpbuf_for k s = (i, s')"
  shows "(k \<in> set (jmp_keys s) \<or> length (jmp_keys s) < 512 \<longrightarrow> distinct (jmp_keys s') \<and> i < length (jmp_keys s') \<and> jmp_keys s' ! i = k \<and>
      (\<forall>j<length (jmp_keys s). jmp_keys s' ! j = jmp_keys s ! j \<and> fst (aret_jmpbuf_for (jmp_keys s ! j) s') = j))
    \<and> (length (jmp_keys s) \<ge> 512 \<and> k \<notin> set (jmp_keys s) \<and> k2 \<notin> set (jmp_keys s) \<and> k2 \<noteq> k \<longrightarrow> i = 0 \<and> fst (aret_jmpbuf_for k2 s') = 0
        \<and> jmp_keys (snd (aret_jmpbuf_for k2 s')) = (jmp_keys s)[0 := k2] \<and> fst (aret_jmpbuf_for k (snd (aret_jmpbuf_for k2 s'))) = 0)"
proof -
  have at: "fst (aret_jmpbuf_for (K ! j) t) = j" if "jmp_keys t = K" "distinct K" "j < length K" for K j t
    using that first_idx_unique [where lo = 0 and i = j and hi = "length K" and P = "\<lambda>i. K ! i = K ! j"] by (auto simp: aret_jmpbuf_for_def nth_eq_iff_index_eq)
  show ?thesis
  proof (cases "first_idx (\<lambda>i. jmp_keys s ! i = k) 0 (length (jmp_keys s))")
    case (Some n)
    then have n: "n < length (jmp_keys s)" "jmp_keys s ! n = k" by (auto simp: scan_simps)
    moreover have "(i, s') = (n, s)" using assms(2) Some by (simp add: aret_jmpbuf_for_def)
    ultimately show ?thesis using assms(1) at [OF refl assms(1)] nth_mem by auto
  next
    case None
    then have k: "k \<notin> set (jmp_keys s)" by (auto simp: scan_simps in_set_conv_nth)
    show ?thesis
    proof (cases "length (jmp_keys s) < 512")
      case True
      then have "(i, s') = (length (jmp_keys s), s\<lparr>jmp_keys := jmp_keys s @ [k]\<rparr>)" using assms(2) None by (simp add: aret_jmpbuf_for_def JMP_N_def)
      moreover have "fst (aret_jmpbuf_for (jmp_keys s ! j) (s\<lparr>jmp_keys := jmp_keys s @ [k]\<rparr>)) = j" if "j < length (jmp_keys s)" for j
        using at [of "s\<lparr>jmp_keys := jmp_keys s @ [k]\<rparr>" "jmp_keys s @ [k]" j] assms(1) k that by (simp add: nth_append)
      ultimately show ?thesis using True assms(1) k by (auto simp: nth_append)
    next
      case False
      then have e: "i = 0" "s' = s\<lparr>jmp_keys := (jmp_keys s)[0 := k]\<rparr>" using assms(2) None by (auto simp: aret_jmpbuf_for_def JMP_N_def)
      have full: "aret_jmpbuf_for x t = (0, t\<lparr>jmp_keys := (jmp_keys s)[0 := x]\<rparr>)"
        if "jmp_keys t = (jmp_keys s)[0 := y]" "x \<notin> set (jmp_keys s)" "x \<noteq> y" for x y t
      proof -
        have "x \<notin> set (jmp_keys t)" using that set_update_subset_insert [of "jmp_keys s" 0 y] by auto
        then have "first_idx (\<lambda>i. jmp_keys t ! i = x) 0 (length (jmp_keys t)) = None"
          by (auto simp: scan_simps in_set_conv_nth)
        then show ?thesis using False that(1) by (simp add: aret_jmpbuf_for_def JMP_N_def)
      qed
      have "aret_jmpbuf_for k2 s' = (0, s'\<lparr>jmp_keys := (jmp_keys s)[0 := k2]\<rparr>)" if "k2 \<notin> set (jmp_keys s)" "k2 \<noteq> k"
        by (rule full [where y = k]) (use that e in simp_all)
      moreover have "fst (aret_jmpbuf_for k (s'\<lparr>jmp_keys := (jmp_keys s)[0 := k2]\<rparr>)) = 0" if "k2 \<noteq> k"
        using full [where x = k and y = k2 and t = "s'\<lparr>jmp_keys := (jmp_keys s)[0 := k2]\<rparr>"] that k by simp
      ultimately show ?thesis using False e k by auto
    qed
  qed
qed

text \<open>One known key; and 512 known keys, then the new keys 1000 and 2000.\<close>

theorem jump_buffers_until_full_witness:
  "fst (aret_jmpbuf_for 5 (snd (aret_jmpbuf_for 7 ((eh_init (\<lambda>_. 0))\<lparr>jmp_keys := [5]\<rparr>)))) = 0
   \<and> fst (aret_jmpbuf_for 1000 (snd (aret_jmpbuf_for 2000 (snd (aret_jmpbuf_for 1000
        ((eh_init (\<lambda>_. 0))\<lparr>jmp_keys := map of_nat [0..<512]\<rparr>)))))) = 0"
proof -
  let ?s = "(eh_init (\<lambda>_. 0))\<lparr>jmp_keys := [5]\<rparr>" and ?t = "(eh_init (\<lambda>_. 0))\<lparr>jmp_keys := map of_nat [0..<512]\<rparr>"
  have d: "distinct (jmp_keys ?s)" by simp
  have small: "unat (of_nat i :: u32) = i" if "i < 512" for i using that by (simp add: unat_of_nat)
  then have "inj_on (of_nat :: nat \<Rightarrow> u32) {0..<512}" by (metis atLeastLessThan_iff inj_onI)
  then have D: "distinct (jmp_keys ?t)" by (simp add: distinct_map)
  have new: "x \<notin> set (jmp_keys ?t)" if "512 \<le> unat x" for x using small that by fastforce
  have n: "1000 \<notin> set (jmp_keys ?t)" "2000 \<notin> set (jmp_keys ?t)" by (rule new, simp)+
  have l: "512 \<le> length (jmp_keys ?t)" by simp
  from jump_buffers_until_full [OF d surjective_pairing, of 7 0]
    jump_buffers_until_full [OF D surjective_pairing, of 1000 2000] n l
  show ?thesis by simp
qed

section \<open>Scope tables\<close>

text \<open>The levels from \<open>l\<close> outwards, up to one where \<open>stop\<close> holds.\<close>

fun levels :: "eh \<Rightarrow> u32 \<Rightarrow> (u32 \<Rightarrow> bool) \<Rightarrow> u32 \<Rightarrow> u32 list \<Rightarrow> bool" where
  "levels s recs stop l [] \<longleftrightarrow> stop l"
| "levels s recs stop l (x # xs) \<longleftrightarrow> l = x \<and> \<not> stop x \<and> levels s recs stop (peek (scope_ent recs x) s) xs"

definition table_of :: "u32 \<Rightarrow> u32 list \<Rightarrow> u32 set" where
  "table_of recs ls = (\<Union>l\<in>set ls. {scope_ent recs l, scope_ent recs l + 4, scope_ent recs l + 8})"

lemma levels_cong: "(\<And>a. a \<in> table_of recs ls \<Longrightarrow> peek a s' = peek a s) \<Longrightarrow> levels s' recs stop l ls = levels s recs stop l ls"
  by (induction ls arbitrary: l) (auto simp: table_of_def)

lemma funclet_quiet: "quiet env A \<Longrightarrow> aret_seh_funclet env va ebp s = Ret d s' \<Longrightarrow> a \<in> A \<Longrightarrow> peek a s' = peek a s"
  unfolding quiet_def aret_seh_funclet_def by blast

fun run_all :: "('h \<Rightarrow> eh \<Rightarrow> u32 flow) \<Rightarrow> 'h list \<Rightarrow> eh \<Rightarrow> unit flow" where
  "run_all H [] s = Ret () s"
| "run_all H (h # hs) s = (case H h s of Ret d s \<Rightarrow> run_all H hs s | Jump i v s \<Rightarrow> Jump i v s | Stop \<Rightarrow> Stop)"

text \<open>The \<^verbatim>\<open>__finally\<close> blocks of the levels, as the table has them.\<close>

definition finally_blocks :: "eh \<Rightarrow> u32 \<Rightarrow> u32 list \<Rightarrow> u32 list" where
  "finally_blocks s recs ls = map (\<lambda>l. peek (scope_ent recs l + 8) s)
     (filter (\<lambda>l. peek (scope_ent recs l + 4) s = 0 \<and> peek (scope_ent recs l + 8) s \<noteq> 0) ls)"

lemma finally_blocks_cong:
  "(\<And>a. a \<in> table_of recs ls \<Longrightarrow> peek a s' = peek a s) \<Longrightarrow> finally_blocks s' recs ls = finally_blocks s recs ls"
  by (induction ls) (auto simp: finally_blocks_def table_of_def)

theorem local_unwind_runs_finally:
  assumes "quiet env A" "table_of recs ls \<subseteq> A" "levels s recs (\<lambda>l. l = ende \<or> l = to) lvl ls"
  shows "aret_seh_local_unwind_n env recs lvl to ebp ende s =
    Some (run_all (\<lambda>va. aret_seh_funclet env va ebp) (finally_blocks s recs ls) s)"
  using assms(2,3)
proof (induction ls arbitrary: lvl s)
  case Nil
  then show ?case by (simp add: aret_seh_local_unwind_n.simps finally_blocks_def)
next
  case (Cons x ls)
  let ?e = "scope_ent recs x"
  have t: "table_of recs ls \<subseteq> A" "?e \<in> A" using Cons.prems(1) by (auto simp: table_of_def)
  have x: "lvl = x" "x \<noteq> ende" "x \<noteq> to" and l: "levels s recs (\<lambda>l. l = ende \<or> l = to) (peek ?e s) ls" using Cons.prems by auto
  have go: "aret_seh_local_unwind_n env recs (peek ?e s') to ebp ende s' =
      Some (run_all (\<lambda>va. aret_seh_funclet env va ebp) (finally_blocks s recs ls) s')" if "\<And>a. a \<in> A \<Longrightarrow> peek a s' = peek a s" for s'
    using Cons.IH [OF t(1), of s' "peek ?e s'"] l that [OF t(2)] levels_cong [of recs ls s' s] finally_blocks_cong [of recs ls s' s] that t(1)
    by (metis (lifting) subsetD)
  show ?case
  proof (cases "peek (?e + 4) s = 0 \<and> peek (?e + 8) s \<noteq> 0")
    case True
    then show ?thesis
      using x go funclet_quiet [OF assms(1)] aret_seh_local_unwind_n.simps [of env recs x to ebp ende s]
      by (cases "aret_seh_funclet env (peek (?e + 8) s) ebp s") (auto simp: finally_blocks_def Let_def)
  next
    case False
    then show ?thesis
      using x go [of s] aret_seh_local_unwind_n.simps [of env recs x to ebp ende s] by (auto simp: finally_blocks_def Let_def)
  qed
qed

text \<open>The filters of the levels are asked from the inside; the answer is the level and the value of the first that is not 0.\<close>

fun ask_filters :: "eh_env \<Rightarrow> u32 \<Rightarrow> (u32 \<times> u32) list \<Rightarrow> eh \<Rightarrow> (u32 \<times> u32) option flow" where
  "ask_filters env ebp [] s = Ret None s"
| "ask_filters env ebp ((l, va) # fs) s = (case aret_seh_funclet env va ebp s of
     Ret d s \<Rightarrow> if d = 0 then ask_filters env ebp fs s else Ret (Some (l, d)) s
   | Jump i v s \<Rightarrow> Jump i v s | Stop \<Rightarrow> Stop)"

definition level_filters :: "eh \<Rightarrow> u32 \<Rightarrow> u32 list \<Rightarrow> (u32 \<times> u32) list" where
  "level_filters s recs ls = filter (\<lambda>(l, va). va \<noteq> 0) (map (\<lambda>l. (l, peek (scope_ent recs l + 4) s)) ls)"

lemma level_filters_cong:
  "(\<And>a. a \<in> table_of recs ls \<Longrightarrow> peek a s' = peek a s) \<Longrightarrow> level_filters s' recs ls = level_filters s recs ls"
  by (induction ls) (auto simp: level_filters_def table_of_def)

lemma sint_pos_iff: "sint (d :: u32) > 0 \<longleftrightarrow> d \<noteq> 0 \<and> \<not> sint d < 0"
  by (metis linorder_neqE sint_0 signed_eq_0_iff less_irrefl less_asym)

text \<open>
  The search of a frame: no filter takes the exception and the search goes on in the next frame, a negative filter
  continues the execution, a positive one unwinds and leaves to the block of its level.
\<close>

theorem seh_search_asks_filters:
  assumes "quiet env A" "table_of recs ls \<subseteq> A" "levels s recs (\<lambda>l. l = ende) lvl ls"
  shows "seh_search_loop env esp framep recs ende ebp lvl s = (case ask_filters env ebp (level_filters s recs ls) s of
      Ret None s \<Rightarrow> Some (Ret 1 s)
    | Ret (Some (l, d)) s \<Rightarrow> if sint d < 0 then Some (Ret 0 s) else seh_execute env esp framep recs ende ebp l (peek (scope_ent recs l) s) s
    | Jump i v s \<Rightarrow> Some (Jump i v s) | Stop \<Rightarrow> Some Stop)"
  using assms(2,3)
proof (induction ls arbitrary: lvl s)
  case Nil
  then show ?case by (simp add: seh_search_loop.simps level_filters_def)
next
  case (Cons x ls)
  let ?e = "scope_ent recs x"
  let ?R = "\<lambda>fs s. case ask_filters env ebp fs s of
      Ret None s \<Rightarrow> Some (Ret 1 s)
    | Ret (Some (l, d)) s \<Rightarrow> if sint d < 0 then Some (Ret 0 s) else seh_execute env esp framep recs ende ebp l (peek (scope_ent recs l) s) s
    | Jump i v s \<Rightarrow> Some (Jump i v s) | Stop \<Rightarrow> Some Stop"
  have t: "table_of recs ls \<subseteq> A" "?e \<in> A" using Cons.prems(1) by (auto simp: table_of_def)
  have x: "lvl = x" "x \<noteq> ende" and l: "levels s recs (\<lambda>l. l = ende) (peek ?e s) ls" using Cons.prems by auto
  have go: "seh_search_loop env esp framep recs ende ebp (peek ?e s) s' = ?R (level_filters s recs ls) s'"
    if "\<And>a. a \<in> A \<Longrightarrow> peek a s' = peek a s" for s'
  proof -
    have p: "peek a s' = peek a s" if "a \<in> table_of recs ls" for a using that t(1) \<open>\<And>a. a \<in> A \<Longrightarrow> peek a s' = peek a s\<close> by blast
    have "levels s' recs (\<lambda>l. l = ende) (peek ?e s) ls" using l by (simp only: levels_cong [OF p])
    from Cons.IH [OF t(1) this] show ?thesis by (simp only: level_filters_cong [OF p])
  qed
  show ?case
  proof (cases "peek (?e + 4) s = 0")
    case True
    then show ?thesis
      using x go [of s] seh_search_loop.simps [of env esp framep recs ende ebp x s] by (simp add: level_filters_def)
  next
    case False
    then have f: "level_filters s recs (x # ls) = (x, peek (?e + 4) s) # level_filters s recs ls" by (simp add: level_filters_def)
    show ?thesis
    proof (cases "aret_seh_funclet env (peek (?e + 4) s) ebp s")
      case (Ret d s')
      have q: "peek a s' = peek a s" if "a \<in> A" for a using funclet_quiet [OF assms(1) Ret that] .
      have "seh_search_loop env esp framep recs ende ebp lvl s = (if sint d < 0 then Some (Ret 0 s')
          else if sint d > 0 then seh_execute env esp framep recs ende ebp x (peek ?e s) s'
          else seh_search_loop env esp framep recs ende ebp (peek ?e s) s')"
        using x False Ret by (subst seh_search_loop.simps) (simp add: Let_def)
      also have "\<dots> = ?R ((x, peek (?e + 4) s) # level_filters s recs ls) s"
        using go [OF q] q [OF t(2)] Ret sint_pos_iff [of d] by (cases "d = 0"; cases "sint d < 0") auto
      finally show ?thesis using f by simp
    qed (use False x f seh_search_loop.simps [of env esp framep recs ende ebp x s] in simp_all)
  qed
qed

end
