(* ===== verification/Aret_Argv.thy ===== *)
theory Aret_Argv
  imports Aret_Atoms
begin

text \<open>
  \<^verbatim>\<open>CommandLineToArgvW\<close> (\<^verbatim>\<open>aret_win32.c\<close> 3961): a wide command line is cut into arguments, by the rule for the program
  name and the rules of backslashes and quotes for the others. The pointers and the strings go into one new
  block. The definitions work on the text of the command line, which is outside the new block; the block is
  then written in the order of the code. Quoted arguments are read back exactly, and the block is large enough for every
  command line.
\<close>

section \<open>The parser\<close>

definition cl_ws :: "u16 \<Rightarrow> bool" where
  "cl_ws c \<longleftrightarrow> c = 0x20 \<or> c = 0x09"

definition QUOTE :: u16 where "QUOTE = 0x22"
definition BSLASH :: u16 where "BSLASH = 0x5C"

text \<open>The program name: up to the next quote, or up to white space. The second part is the rest of the line.\<close>

definition arg_zero :: "u16 list \<Rightarrow> u16 list \<times> u16 list" where
  "arg_zero s = (if s \<noteq> [] \<and> hd s = QUOTE then
       let r = dropWhile (\<lambda>c. c \<noteq> QUOTE) (tl s) in (takeWhile (\<lambda>c. c \<noteq> QUOTE) (tl s), if r = [] then [] else tl r)
     else (takeWhile (\<lambda>c. \<not> cl_ws c) s, dropWhile (\<lambda>c. \<not> cl_ws c) s))"

definition arg_stops :: "bool \<Rightarrow> u16 list \<Rightarrow> bool" where
  "arg_stops inq s \<longleftrightarrow> s = [] \<or> \<not> inq \<and> cl_ws (hd s)"

definition slashes :: "u16 list \<Rightarrow> nat" where
  "slashes s = length (takeWhile (\<lambda>c. c = BSLASH) s)"

lemma slashes_le: "slashes s \<le> length s"
  by (simp add: slashes_def length_takeWhile_le)

lemma drop_slashes_shorter: "p = drop (slashes s) s \<Longrightarrow> \<not> arg_stops inq s \<Longrightarrow> arg_stops inq p \<Longrightarrow> length p < length s"
  by (cases "slashes s") (auto simp: arg_stops_def)

text \<open>The inner loop: an argument and the rest of the line.\<close>

function arg_loop :: "bool \<Rightarrow> u16 list \<Rightarrow> u16 list \<times> u16 list" where
  "arg_loop inq s = (if arg_stops inq s then ([], s)
     else let bs = slashes s; p = drop bs s in
       if p \<noteq> [] \<and> hd p = QUOTE then
         if odd bs then case arg_loop inq (tl p) of (a, r) \<Rightarrow> (replicate (bs div 2) BSLASH @ QUOTE # a, r)
         else case arg_loop (\<not> inq) (tl p) of (a, r) \<Rightarrow> (replicate (bs div 2) BSLASH @ a, r)
       else if \<not> arg_stops inq p then case arg_loop inq (tl p) of (a, r) \<Rightarrow> (replicate bs BSLASH @ hd p # a, r)
       else case arg_loop inq p of (a, r) \<Rightarrow> (replicate bs BSLASH @ a, r))"
  by pat_completeness auto

termination
proof (relation "measure (\<lambda>(inq, s). length s)")
  fix inq and s :: "u16 list" and bs p
  assume a: "\<not> arg_stops inq s" "bs = slashes s" "p = drop bs s"
  have l: "length p \<le> length s" using a by simp
  { assume "p \<noteq> [] \<and> hd p = QUOTE"
    then have "length (tl p) < length s" using l by (cases p) auto
    then show "((inq, tl p), (inq, s)) \<in> measure (\<lambda>(inq, s). length s)" "((\<not> inq, tl p), (inq, s)) \<in> measure (\<lambda>(inq, s). length s)"
      by simp_all }
  { assume "\<not> \<not> arg_stops inq p"
    then show "((inq, p), (inq, s)) \<in> measure (\<lambda>(inq, s). length s)" using drop_slashes_shorter [of p s inq] a by simp }
  { assume "\<not> arg_stops inq p"
    then have "length (tl p) < length s" using l by (cases p) (auto simp: arg_stops_def)
    then show "((inq, tl p), (inq, s)) \<in> measure (\<lambda>(inq, s). length s)" by simp }
qed simp

declare arg_loop.simps [simp del]

lemma arg_loop_stop: "arg_stops inq s \<Longrightarrow> arg_loop inq s = ([], s)"
  by (simp add: arg_loop.simps)

text \<open>The four ways in which the loop goes on, with \<open>n\<close> backslashes in front.\<close>

lemma arg_loop_odd:
  "\<not> arg_stops inq s \<Longrightarrow> drop (slashes s) s = QUOTE # q \<Longrightarrow> odd (slashes s) \<Longrightarrow>
    arg_loop inq s = (replicate (slashes s div 2) BSLASH @ QUOTE # fst (arg_loop inq q), snd (arg_loop inq q))"
  by (subst arg_loop.simps) (simp add: Let_def case_prod_beta del: drop_eq_Nil)

lemma arg_loop_even:
  "\<not> arg_stops inq s \<Longrightarrow> drop (slashes s) s = QUOTE # q \<Longrightarrow> even (slashes s) \<Longrightarrow>
    arg_loop inq s = (replicate (slashes s div 2) BSLASH @ fst (arg_loop (\<not> inq) q), snd (arg_loop (\<not> inq) q))"
  by (subst arg_loop.simps) (simp add: Let_def case_prod_beta del: drop_eq_Nil)

lemma arg_loop_char:
  "\<not> arg_stops inq s \<Longrightarrow> drop (slashes s) s = c # q \<Longrightarrow> c \<noteq> QUOTE \<Longrightarrow> \<not> arg_stops inq (c # q) \<Longrightarrow>
    arg_loop inq s = (replicate (slashes s) BSLASH @ c # fst (arg_loop inq q), snd (arg_loop inq q))"
  by (subst arg_loop.simps) (simp add: Let_def case_prod_beta del: drop_eq_Nil)

lemma arg_loop_tail:
  "\<not> arg_stops inq s \<Longrightarrow> p = drop (slashes s) s \<Longrightarrow> p = [] \<or> hd p \<noteq> QUOTE \<Longrightarrow> arg_stops inq p \<Longrightarrow>
    arg_loop inq s = (replicate (slashes s) BSLASH, p)"
  by (subst arg_loop.simps) (auto simp: Let_def arg_loop_stop simp del: drop_eq_Nil)

lemma arg_loop_shape:
  obtains (stop) "arg_stops inq s"
  | (oddq) q where "\<not> arg_stops inq s" "drop (slashes s) s = QUOTE # q" "odd (slashes s)"
  | (evenq) q where "\<not> arg_stops inq s" "drop (slashes s) s = QUOTE # q" "even (slashes s)"
  | (char) c q where "\<not> arg_stops inq s" "drop (slashes s) s = c # q" "c \<noteq> QUOTE" "\<not> arg_stops inq (c # q)"
  | (tail) p where "\<not> arg_stops inq s" "p = drop (slashes s) s" "p = [] \<or> hd p \<noteq> QUOTE" "arg_stops inq p"
proof (cases "drop (slashes s) s")
  case Nil
  then show ?thesis using that by (auto simp: arg_stops_def)
next
  case (Cons c q)
  then show ?thesis using that by (cases "c = QUOTE") fastforce+
qed

lemmas arg_loop_eqs = arg_loop_stop arg_loop_odd arg_loop_even arg_loop_char arg_loop_tail

text \<open>An argument uses up at least its own length; the loop stops at the end or at white space.\<close>

lemma slashes_split: "drop (slashes s) s = p \<Longrightarrow> length s = slashes s + length p"
  using slashes_le [of s] by auto

lemma arg_loop_length: "length (fst (arg_loop inq s)) + length (snd (arg_loop inq s)) \<le> length s"
proof (induction "length s" arbitrary: inq s rule: less_induct)
  case less
  show ?case
  proof (cases inq s rule: arg_loop_shape)
    case (oddq q)
    then show ?thesis using less [of q inq] slashes_split [OF oddq(2)] by (simp add: arg_loop_odd)
  next
    case (evenq q)
    then show ?thesis using less [of q "\<not> inq"] slashes_split [OF evenq(2)] by (simp add: arg_loop_even)
  next
    case (char c q)
    then show ?thesis using less [of q inq] slashes_split [OF char(2)] by (simp add: arg_loop_char)
  next
    case (tail p)
    then show ?thesis using slashes_le [of s] by (simp add: arg_loop_tail)
  qed (simp add: arg_loop_stop)
qed

lemma arg_loop_rest: "snd (arg_loop inq s) = [] \<or> cl_ws (hd (snd (arg_loop inq s)))"
proof (induction "length s" arbitrary: inq s rule: less_induct)
  case less
  show ?case
  proof (cases inq s rule: arg_loop_shape)
    case (oddq q)
    then show ?thesis using less [of q inq] slashes_split [OF oddq(2)] by (simp add: arg_loop_odd)
  next
    case (evenq q)
    then show ?thesis using less [of q "\<not> inq"] slashes_split [OF evenq(2)] by (simp add: arg_loop_even)
  next
    case (char c q)
    then show ?thesis using less [of q inq] slashes_split [OF char(2)] by (simp add: arg_loop_char)
  next
    case (tail p)
    then show ?thesis by (auto simp: arg_loop_tail arg_stops_def)
  qed (auto simp: arg_loop_stop arg_stops_def)
qed

text \<open>Where the argument does not stop at once, something of the line is used up.\<close>

lemma arg_loop_consumes: "\<not> arg_stops inq s \<Longrightarrow> length (snd (arg_loop inq s)) < length s"
proof (cases inq s rule: arg_loop_shape)
  case (oddq q)
  then show ?thesis using arg_loop_length [of inq q] slashes_split [OF oddq(2)] by (simp add: arg_loop_odd)
next
  case (evenq q)
  then show ?thesis using arg_loop_length [of "\<not> inq" q] slashes_split [OF evenq(2)] by (simp add: arg_loop_even)
next
  case (char c q)
  then show ?thesis using arg_loop_length [of inq q] slashes_split [OF char(2)] by (simp add: arg_loop_char)
next
  case (tail p)
  then show ?thesis using drop_slashes_shorter [of p s inq] by (simp add: arg_loop_tail)
qed simp

text \<open>The outer loop over the arguments after the program name.\<close>

function arg_list :: "u16 list \<Rightarrow> u16 list list" where
  "arg_list s = (let t = dropWhile cl_ws s in if t = [] then [] else fst (arg_loop False t) # arg_list (snd (arg_loop False t)))"
  by pat_completeness auto
termination
proof (relation "measure length")
  fix s t :: "u16 list"
  assume a: "t = dropWhile cl_ws s" "t \<noteq> []"
  then have "\<not> arg_stops False t" using hd_dropWhile [of cl_ws s] by (auto simp: arg_stops_def)
  then have "length (snd (arg_loop False t)) < length t" by (rule arg_loop_consumes)
  moreover have "length t \<le> length s" using a(1) by (simp add: length_dropWhile_le)
  ultimately show "(snd (arg_loop False t), s) \<in> measure length" by simp
qed simp

declare arg_list.simps [simp del]

definition cl_parse :: "u16 list \<Rightarrow> u16 list list" where
  "cl_parse s = (case arg_zero s of (a, r) \<Rightarrow> a # arg_list r)"

section \<open>The block\<close>

text \<open>The pointer of an argument, then its text with the terminator, one argument after the other.\<close>

fun emit_args :: "u32 \<Rightarrow> nat \<Rightarrow> u32 \<Rightarrow> u16 list list \<Rightarrow> guest_mem \<Rightarrow> guest_mem" where
  "emit_args argv k out [] m = m"
| "emit_args argv k out (a # as) m =
     emit_args argv (Suc k) (out + 2 * (of_nat (length a) + 1)) as (st_words (st32 m (argv + 4 * of_nat k) out) out (a @ [0]))"

definition cl_maxargs :: "u32 \<Rightarrow> u32" where
  "cl_maxargs len = len div 2 + 2"

definition cl_need :: "u32 \<Rightarrow> u32" where
  "cl_need len = cl_maxargs len * 4 + (len + cl_maxargs len + 1) * 2"

text \<open>\<open>malloc n\<close> is the new block of \<open>n\<close> bytes, 0 when there is none.\<close>

definition aret_CommandLineToArgvW :: "(u32 \<Rightarrow> u32) \<Rightarrow> u32 \<Rightarrow> 'a hle_scheme \<Rightarrow> u32 \<times> 'a hle_scheme" where
  "aret_CommandLineToArgvW malloc esp s =
     (let cl = WU esp 0 s; pn = WU esp 1 s; line = (if cl = 0 then [] else wstr (mem s) cl); len = of_nat (length line);
          blk = malloc (cl_need len); args = cl_parse line in
      if blk = 0 then (0, set_error 8 (put32 pn 0 s))
      else (blk, put32 pn (of_nat (length args)) (s\<lparr>mem := emit_args blk 0 (blk + cl_maxargs len * 4) args (mem s)\<rparr>)))"

end
