(* ===== verification/Aret_Argv_Theorems.thy ===== *)
theory Aret_Argv_Theorems
  imports Aret_Argv Aret_Paths_Theorems
begin

text \<open>
  The command line parser reads back quoted arguments, and the block it fills is large enough for every command line.
\<close>

section \<open>Quoting\<close>

text \<open>
  The quoting that programs use: an argument goes between quotes, backslashes in front of a quote are doubled and the quote gets
  one more, backslashes at the end are doubled. \<open>n\<close> is the number of backslashes just seen.
\<close>

fun quote_body :: "nat \<Rightarrow> u16 list \<Rightarrow> u16 list" where
  "quote_body n [] = replicate (2 * n) BSLASH @ [QUOTE]"
| "quote_body n (c # cs) = (if c = BSLASH then quote_body (Suc n) cs
     else if c = QUOTE then replicate (2 * n + 1) BSLASH @ QUOTE # quote_body 0 cs
     else replicate n BSLASH @ c # quote_body 0 cs)"

definition quote_arg :: "u16 list \<Rightarrow> u16 list" where
  "quote_arg a = QUOTE # quote_body 0 a"

definition command_line :: "u16 list \<Rightarrow> u16 list list \<Rightarrow> u16 list" where
  "command_line name args = QUOTE # name @ QUOTE # concat (map (\<lambda>a. 0x20 # quote_arg a) args)"

lemma char_consts [simp]: "QUOTE \<noteq> BSLASH" "BSLASH \<noteq> QUOTE" "\<not> cl_ws QUOTE" "\<not> cl_ws BSLASH" "QUOTE \<noteq> 0" "BSLASH \<noteq> 0"
  by (simp_all add: QUOTE_def BSLASH_def cl_ws_def)

lemma slashes_replicate: "c \<noteq> BSLASH \<Longrightarrow> slashes (replicate n BSLASH @ c # r) = n"
  by (induction n) (simp_all add: slashes_def)

lemma not_stops_quoted: "\<not> arg_stops True (replicate n BSLASH @ c # r)"
  by (simp add: arg_stops_def)

lemma arg_loop_body:
  "arg_loop True (quote_body n a @ r) = (replicate n BSLASH @ a @ fst (arg_loop False r), snd (arg_loop False r))"
proof (induction a arbitrary: n)
  case Nil
  then show ?case
    using arg_loop_even [of True "replicate (2 * n) BSLASH @ QUOTE # r" r] by (simp add: slashes_replicate not_stops_quoted)
next
  case (Cons c a)
  consider "c = BSLASH" | "c = QUOTE" | "c \<noteq> BSLASH" "c \<noteq> QUOTE" by blast
  then show ?case
  proof cases
    case 1
    then show ?thesis using Cons [of "Suc n"] by (simp add: replicate_append_same [symmetric])
  next
    case 2
    let ?q = "quote_body 0 a @ r"
    have "arg_loop True (replicate (2 * n + 1) BSLASH @ QUOTE # ?q) = (replicate n BSLASH @ QUOTE # fst (arg_loop True ?q), snd (arg_loop True ?q))"
      using arg_loop_odd [of True "replicate (2 * n + 1) BSLASH @ QUOTE # ?q" ?q] not_stops_quoted [of "2 * n + 1" QUOTE ?q]
        slashes_replicate [of QUOTE "2 * n + 1" ?q] by (simp del: replicate.simps)
    then show ?thesis using 2 Cons [of 0] by simp
  next
    case 3
    let ?q = "quote_body 0 a @ r"
    have "arg_loop True (replicate n BSLASH @ c # ?q) = (replicate n BSLASH @ c # fst (arg_loop True ?q), snd (arg_loop True ?q))"
      using 3 arg_loop_char [of True "replicate n BSLASH @ c # ?q" c ?q] by (simp add: slashes_replicate not_stops_quoted arg_stops_def)
    then show ?thesis using 3 Cons [of 0] by simp
  qed
qed

lemma arg_loop_quoted:
  assumes "r = [] \<or> cl_ws (hd r)"
  shows "arg_loop False (quote_arg a @ r) = (a, r)"
proof -
  have "arg_loop False (QUOTE # quote_body 0 a @ r) = arg_loop True (quote_body 0 a @ r)"
    using arg_loop_even [of False "QUOTE # quote_body 0 a @ r" "quote_body 0 a @ r"] by (simp add: slashes_def arg_stops_def)
  then show ?thesis using assms by (simp add: quote_arg_def arg_loop_body arg_loop_stop arg_stops_def)
qed

lemma arg_list_quoted: "arg_list (concat (map (\<lambda>a. 0x20 # quote_arg a) args)) = args"
proof (induction args)
  case (Cons a args)
  let ?r = "concat (map (\<lambda>a. 0x20 # quote_arg a) args)"
  have "?r = [] \<or> cl_ws (hd ?r)" by (cases args) (simp_all add: cl_ws_def)
  then have "arg_loop False (quote_arg a @ ?r) = (a, ?r)" by (rule arg_loop_quoted)
  moreover have "dropWhile cl_ws (0x20 # quote_arg a @ ?r) = quote_arg a @ ?r" by (simp add: cl_ws_def quote_arg_def QUOTE_def)
  moreover have "quote_arg a @ ?r \<noteq> []" by (simp add: quote_arg_def)
  ultimately show ?case using Cons arg_list.simps [of "0x20 # quote_arg a @ ?r"] by (simp add: Let_def)
qed (simp add: arg_list.simps)

lemma split_at_quote:
  "QUOTE \<notin> set name \<Longrightarrow> takeWhile (\<lambda>c. c \<noteq> QUOTE) (name @ QUOTE # r) = name \<and> dropWhile (\<lambda>c. c \<noteq> QUOTE) (name @ QUOTE # r) = QUOTE # r"
  by (induction name) auto

lemma cl_parse_quoted: "QUOTE \<notin> set name \<Longrightarrow> cl_parse (command_line name args) = name # args"
  using split_at_quote [of name] by (simp add: cl_parse_def command_line_def arg_zero_def arg_list_quoted Let_def)

section \<open>Room in the block\<close>

definition units :: "u16 list list \<Rightarrow> nat" where
  "units as = sum_list (map (\<lambda>a. length a + 1) as)"

lemma drop_ws_shorter: "r = [] \<or> cl_ws (hd r) \<Longrightarrow> r = [] \<or> length (dropWhile cl_ws r) < length r"
  using length_dropWhile_le [of cl_ws "tl r"] by (cases r) (auto simp: less_Suc_eq_le)

lemma arg_list_room:
  "units (arg_list s) \<le> length s + length (arg_list s) \<and> 2 * length (arg_list s) \<le> length (dropWhile cl_ws s) + 1"
proof (induction s rule: arg_list.induct)
  case (1 s)
  let ?t = "dropWhile cl_ws s"
  show ?case
  proof (cases "?t = []")
    case False
    let ?r = "snd (arg_loop False ?t)"
    have l: "length (fst (arg_loop False ?t)) + length ?r \<le> length ?t" by (rule arg_loop_length)
    have "\<not> arg_stops False ?t" using False hd_dropWhile [of cl_ws s] by (auto simp: arg_stops_def)
    then have c: "length ?r < length ?t" by (rule arg_loop_consumes)
    have t: "length ?t \<le> length s" by (rule length_dropWhile_le)
    have "arg_list ?r = [] \<or> length (dropWhile cl_ws ?r) < length ?r"
      using drop_ws_shorter [OF arg_loop_rest [of False ?t]] by (auto simp: arg_list.simps)
    then show ?thesis using "1.IH" [OF refl False] l c t False arg_list.simps [of s]
      by (auto simp: units_def Let_def)
  qed (simp add: arg_list.simps [of s] units_def)
qed

lemma while_split: "length (takeWhile P xs) + length (dropWhile P xs) = length xs"
  by (metis length_append takeWhile_dropWhile_id)

lemma arg_zero_room:
  assumes "arg_zero s = (a, r)"
  shows "length a + length r \<le> length s \<and> 2 * length (arg_list r) \<le> length s"
proof (cases "s \<noteq> [] \<and> hd s = QUOTE")
  case True
  then have "length a + length r + 1 \<le> length s"
    using assms while_split [of "\<lambda>c. c \<noteq> QUOTE" "tl s"] by (cases s) (auto simp: arg_zero_def Let_def split: if_splits)
  moreover have "2 * length (arg_list r) \<le> length r + 1" using arg_list_room [of r] length_dropWhile_le [of cl_ws r] by linarith
  ultimately show ?thesis by simp
next
  case False
  then have ar: "a = takeWhile (\<lambda>c. \<not> cl_ws c) s" "r = dropWhile (\<lambda>c. \<not> cl_ws c) s" using assms by (auto simp: arg_zero_def split: if_splits)
  have d: "r = [] \<or> length (dropWhile cl_ws r) < length r"
    using hd_dropWhile [of "\<lambda>c. \<not> cl_ws c" s] ar(2) by (intro drop_ws_shorter) blast
  have "length a + length r = length s" using ar while_split [of "\<lambda>c. \<not> cl_ws c" s] by simp
  moreover have "2 * length (arg_list r) \<le> length r" using d arg_list_room [of r] arg_list.simps [of "[]"] by auto
  ultimately show ?thesis by simp
qed

text \<open>The bounds that the code computes: fewer than \<open>len div 2 + 2\<close> arguments, and their text with terminators.\<close>

lemma cl_parse_room: "2 * length (cl_parse s) \<le> length s + 2 \<and> units (cl_parse s) \<le> length s + length (cl_parse s)"
proof -
  obtain a r where z: "arg_zero s = (a, r)" by (cases "arg_zero s")
  show ?thesis using arg_zero_room [OF z] arg_list_room [of r] by (simp add: cl_parse_def z units_def)
qed

section \<open>The block in memory\<close>

lemma unat_plus: "unat (p :: u32) + n < 2 ^ 32 \<Longrightarrow> unat (p + of_nat n) = unat p + n"
  by (simp add: unat_word_ariths unat_of_nat)

text \<open>Addresses from \<open>a\<close> on, \<open>n\<close> bytes, that do not wrap around.\<close>

definition within :: "u32 \<Rightarrow> nat \<Rightarrow> u32 \<Rightarrow> bool" where
  "within a n x \<longleftrightarrow> unat a \<le> unat x \<and> unat x < unat a + n"

lemma within_off: "unat a + n \<le> 2 ^ 32 \<Longrightarrow> j < n \<Longrightarrow> within a n (a + of_nat j)"
  using unat_plus [of a j] by (simp add: within_def)

lemma st32_outside: "unat a + 4 \<le> 2 ^ 32 \<Longrightarrow> \<not> within a 4 x \<Longrightarrow> st32 m a v x = m x"
  using st32_at [of x a m v] within_off [of a 4] by metis

lemma st16_outside: "unat a + 2 \<le> 2 ^ 32 \<Longrightarrow> \<not> within a 2 x \<Longrightarrow> st16 m a v x = m x"
  using within_off [of a 2 0] within_off [of a 2 1] by (auto simp: st16_def)

lemma st_words_outside: "unat a + 2 * length ws \<le> 2 ^ 32 \<Longrightarrow> \<not> within a (2 * length ws) x \<Longrightarrow> st_words m a ws x = m x"
proof (induction ws arbitrary: a m)
  case (Cons w ws)
  have o: "st16 m a w x = m x" using Cons.prems by (intro st16_outside) (auto simp: within_def)
  show ?case
  proof (cases "ws = []")
    case False
    then have "unat (a + 2) = unat a + 2" using unat_plus [of a 2] Cons.prems by (cases ws) auto
    then have "st_words (st16 m a w) (a + 2) ws x = st16 m a w x" using Cons.prems by (intro Cons.IH) (auto simp: within_def)
    then show ?thesis using o by simp
  qed (simp add: o)
qed simp

lemma ld16_st_words: "unat a + 2 * length ws \<le> 2 ^ 32 \<Longrightarrow> i < length ws \<Longrightarrow> ld16 (st_words m a ws) (a + of_nat (2 * i)) = ws ! i"
proof (induction ws arbitrary: a m i)
  case (Cons w ws)
  show ?case
  proof (cases "ws = []")
    case False
    then have u: "unat (a + 2) = unat a + 2" "unat (a + 1) = unat a + 1"
      using unat_plus [of a 2] unat_plus [of a 1] Cons.prems by (cases ws; simp)+
    show ?thesis
    proof (cases i)
      case 0
      have "ld16 (st_words (st16 m a w) (a + 2) ws) a = ld16 (st16 m a w) a"
        using u Cons.prems by (intro ld16_agree st_words_outside) (auto simp: within_def)
      then show ?thesis using 0 by simp
    next
      case (Suc j)
      then show ?thesis using Cons.IH [of "a + 2" j "st16 m a w"] Cons.prems u by (simp add: ac_simps)
    qed
  qed (use Cons.prems in simp)
qed simp

lemma unat_slot: "unat (p :: u32) + 4 * k < 2 ^ 32 \<Longrightarrow> unat (p + 4 * of_nat k) = unat p + 4 * k"
  using unat_plus [of p "4 * k"] by simp

lemma unat_string_end: "unat (p :: u32) + 2 * (n + 1) < 2 ^ 32 \<Longrightarrow> unat (p + 2 * (of_nat n + 1)) = unat p + 2 * (n + 1)"
  using unat_plus [of p "2 * (n + 1)"] by (simp add: ac_simps)

lemma units_Cons: "units (a # as) = length a + 1 + units as"
  by (simp add: units_def)

lemma units_pos: "as \<noteq> [] \<Longrightarrow> 0 < units as"
  by (cases as) (simp_all add: units_def)

text \<open>The place of the arguments \<open>as\<close>: their pointers from slot \<open>k\<close>, their text from \<open>out\<close>.\<close>

definition placed :: "u32 \<Rightarrow> nat \<Rightarrow> u32 \<Rightarrow> u16 list list \<Rightarrow> bool" where
  "placed argv k out as \<longleftrightarrow> unat argv + 4 * (k + length as) \<le> unat out \<and> unat out + 2 * units as \<le> 2 ^ 32"

lemma placed_step:
  assumes "placed argv k out (a # as)"
  shows "unat (argv + 4 * of_nat k) = unat argv + 4 * k" "unat out + 2 * length (a @ [0]) \<le> 2 ^ 32"
    "as \<noteq> [] \<Longrightarrow> unat (out + 2 * (of_nat (length a) + 1)) = unat out + 2 * (length a + 1)"
    "as \<noteq> [] \<Longrightarrow> placed argv (Suc k) (out + 2 * (of_nat (length a) + 1)) as"
proof -
  have o: "unat out < 2 ^ 32" using unsigned_less [of out, where 'a = nat] by simp
  show "unat (argv + 4 * of_nat k) = unat argv + 4 * k" using assms o by (intro unat_slot) (simp add: placed_def)
  show "unat out + 2 * length (a @ [0]) \<le> 2 ^ 32" using assms by (simp add: placed_def units_Cons)
  show e: "unat (out + 2 * (of_nat (length a) + 1)) = unat out + 2 * (length a + 1)" if "as \<noteq> []"
    using assms units_pos [OF that] by (intro unat_string_end) (simp add: placed_def units_Cons)
  show "placed argv (Suc k) (out + 2 * (of_nat (length a) + 1)) as" if "as \<noteq> []"
    using assms e [OF that] by (simp add: placed_def units_Cons)
qed

lemma emit_args_outside:
  "placed argv k out as \<Longrightarrow> unat x < unat argv + 4 * k \<or> unat argv + 4 * (k + length as) \<le> unat x \<Longrightarrow> \<not> within out (2 * units as) x \<Longrightarrow>
    emit_args argv k out as m x = m x"
proof (induction as arbitrary: k out m)
  case (Cons a as)
  note p = placed_step [OF Cons.prems(1)]
  let ?m = "st_words (st32 m (argv + 4 * of_nat k) out) out (a @ [0])"
  have l: "unat argv + 4 * k + 4 \<le> 2 ^ 32" using Cons.prems(1) unsigned_less [of out, where 'a = nat] by (simp add: placed_def)
  have "?m x = st32 m (argv + 4 * of_nat k) out x"
    using p(2) Cons.prems(3) by (intro st_words_outside) (auto simp: within_def units_Cons)
  also have "\<dots> = m x" using p(1) l Cons.prems(2) by (intro st32_outside) (auto simp: within_def)
  finally have m: "?m x = m x" .
  show ?case
  proof (cases "as = []")
    case False
    have "emit_args argv (Suc k) (out + 2 * (of_nat (length a) + 1)) as ?m x = ?m x"
      using Cons.prems p(3) [OF False] by (intro Cons.IH [OF p(4) [OF False]]) (auto simp: within_def units_Cons)
    then show ?thesis using m by simp
  qed (simp add: m)
qed simp

text \<open>The bytes that hold the pointers and the text.\<close>

definition in_place :: "u32 \<Rightarrow> nat \<Rightarrow> u32 \<Rightarrow> u16 list list \<Rightarrow> u32 \<Rightarrow> bool" where
  "in_place argv k out as x \<longleftrightarrow> unat argv + 4 * k \<le> unat x \<and> unat x < unat argv + 4 * (k + length as) \<or> within out (2 * units as) x"

text \<open>Every memory \<open>M\<close> that has these bytes reads the arguments back.\<close>

lemma emit_args_read:
  "placed argv k out as \<Longrightarrow> i < length as \<Longrightarrow> 0 \<notin> set (as ! i) \<Longrightarrow> (\<And>x. in_place argv k out as x \<Longrightarrow> M x = emit_args argv k out as m x) \<Longrightarrow>
    wstr M (ld32 M (argv + 4 * of_nat (k + i))) = as ! i"
proof (induction as arbitrary: k out m i)
  case (Cons a as)
  note p = placed_step [OF Cons.prems(1)]
  let ?m = "st_words (st32 m (argv + 4 * of_nat k) out) out (a @ [0])" and ?o = "out + 2 * (of_nat (length a) + 1)"
  show ?case
  proof (cases i)
    case 0
    have r: "unat argv + 4 * k + 4 \<le> unat out" using Cons.prems(1) by (simp add: placed_def)
    have l: "unat (argv + 4 * of_nat k + of_nat j) = unat argv + 4 * k + j" if "j < 4" for j
      using unat_plus [of "argv + 4 * of_nat k" j] p(1) r that unsigned_less [of out, where 'a = nat] by simp
    have keep: "M x = ?m x" if "unat argv + 4 * k \<le> unat x \<and> unat x < unat argv + 4 * k + 4 \<or> within out (2 * (length a + 1)) x" for x
    proof -
      have "M x = emit_args argv (Suc k) ?o as ?m x"
        using Cons.prems(4) [of x] that by (auto simp: in_place_def within_def units_Cons)
      also have "\<dots> = ?m x"
      proof (cases "as = []")
        case False
        have "unat argv + 4 * (Suc k + length as) \<le> unat out" using Cons.prems(1) by (simp add: placed_def)
        then show ?thesis using that p(3) [OF False] r by (intro emit_args_outside [OF p(4) [OF False]]) (auto simp: within_def)
      qed simp
      finally show ?thesis .
    qed
    have "ld32 M (argv + 4 * of_nat k) = ld32 ?m (argv + 4 * of_nat k)" using l by (intro ld32_cong keep) simp
    also have "\<dots> = ld32 (st32 m (argv + 4 * of_nat k) out) (argv + 4 * of_nat k)"
      using l r p(2) by (intro ld32_cong st_words_outside) (auto simp: within_def)
    finally have q: "ld32 M (argv + 4 * of_nat k) = out" by simp
    have u: "unat (out + of_nat (2 * j)) = unat out + 2 * j" "unat (out + of_nat (2 * j) + 1) = unat out + 2 * j + 1" if "j \<le> length a" for j
      using unat_plus [of out "2 * j"] unat_plus [of out "2 * j + 1"] p(2) that by (simp_all add: ac_simps)
    have g: "getw M out j = (a @ [0]) ! j" if "j \<le> length a" for j
    proof -
      have "ld16 M (out + of_nat (2 * j)) = ld16 ?m (out + of_nat (2 * j))"
        using u [OF that] that by (intro ld16_agree keep) (auto simp: within_def)
      then show ?thesis using ld16_st_words [OF p(2), of j] that by (simp add: getw_def)
    qed
    have "wstr M out = a" using g p(2) Cons.prems(3) 0 by (intro wstr_eqI) (auto simp: nth_append)
    then show ?thesis using 0 q by simp
  next
    case (Suc j)
    then have ne: "as \<noteq> []" using Cons.prems by auto
    have "M x = emit_args argv (Suc k) ?o as ?m x" if "in_place argv (Suc k) ?o as x" for x
      using Cons.prems(4) [of x] that p(3) [OF ne] by (auto simp: in_place_def within_def units_Cons)
    then show ?thesis using Cons.IH [OF p(4) [OF ne], of j ?m] Cons.prems Suc by simp
  qed
qed simp

lemma of_nat_len: "n < 2 ^ 28 \<Longrightarrow> unat (of_nat n :: u32) = n"
  by (simp add: unat_of_nat)

lemma cl_sizes:
  assumes "n < 2 ^ 28"
  shows "unat (cl_maxargs (of_nat n)) = n div 2 + 2" "unat (cl_maxargs (of_nat n) * 4) = (n div 2 + 2) * 4"
    "unat (cl_need (of_nat n)) = (n div 2 + 2) * 4 + (n + (n div 2 + 2) + 1) * 2"
proof -
  have "(of_nat n :: u32) div 2 = of_nat (n div 2)" using assms by (simp add: word_unat_eq_iff unat_div unat_of_nat)
  then have "cl_maxargs (of_nat n) = of_nat (n div 2 + 2)" by (simp add: cl_maxargs_def)
  moreover from this have "cl_maxargs (of_nat n) * 4 = of_nat ((n div 2 + 2) * 4)" by simp
  moreover from calculation have "cl_need (of_nat n) = of_nat ((n div 2 + 2) * 4 + (n + (n div 2 + 2) + 1) * 2)"
    by (simp add: cl_need_def)
  ultimately show "unat (cl_maxargs (of_nat n)) = n div 2 + 2" "unat (cl_maxargs (of_nat n) * 4) = (n div 2 + 2) * 4"
    "unat (cl_need (of_nat n)) = (n div 2 + 2) * 4 + (n + (n div 2 + 2) + 1) * 2"
    using assms by (simp_all only: unat_of_nat) auto
qed

text \<open>The block holds all that the parser writes, for every command line of fewer than \<open>2 ^ 28\<close> characters.\<close>

lemma cl_placed:
  assumes "length line < 2 ^ 28" "unat blk + unat (cl_need (of_nat (length line))) \<le> 2 ^ 32"
  shows "placed blk 0 (blk + cl_maxargs (of_nat (length line)) * 4) (cl_parse line) \<and>
    unat (blk + cl_maxargs (of_nat (length line)) * 4) + 2 * units (cl_parse line) \<le> unat blk + unat (cl_need (of_nat (length line)))"
proof -
  let ?n = "length line"
  have "(?n div 2 + 2) * 4 < 2 ^ 32" using assms(1) by simp
  then have "unat (blk + cl_maxargs (of_nat ?n) * 4) = unat blk + (?n div 2 + 2) * 4"
    using assms(2) cl_sizes [OF assms(1)] by (simp add: unat_word_ariths(1))
  then show ?thesis using assms(2) cl_sizes(3) [OF assms(1)] cl_parse_room [of line] by (auto simp: placed_def)
qed

definition cl_text :: "u32 \<Rightarrow> 'a hle_scheme \<Rightarrow> u16 list" where
  "cl_text esp s = (if WU esp 0 s = 0 then [] else wstr (mem s) (WU esp 0 s))"

lemma argv_result:
  "malloc (cl_need (of_nat (length (cl_text esp s)))) = blk \<Longrightarrow> blk \<noteq> 0 \<Longrightarrow>
   aret_CommandLineToArgvW malloc esp s = (blk, put32 (WU esp 1 s) (of_nat (length (cl_parse (cl_text esp s))))
     (s\<lparr>mem := emit_args blk 0 (blk + cl_maxargs (of_nat (length (cl_text esp s))) * 4) (cl_parse (cl_text esp s)) (mem s)\<rparr>))"
  by (simp add: aret_CommandLineToArgvW_def cl_text_def Let_def)

text \<open>The result slot is not in the block.\<close>

definition slot_free_of :: "u32 \<Rightarrow> u32 \<Rightarrow> nat \<Rightarrow> bool" where
  "slot_free_of pn blk n \<longleftrightarrow> pn = 0 \<or> unat pn + 4 \<le> unat blk \<or> unat blk + n \<le> unat pn \<and> unat pn + 4 \<le> 2 ^ 32"

lemma put32_outside: "slot_free_of pn blk n \<Longrightarrow> within blk n x \<Longrightarrow> mem (put32 pn v s) x = mem s x"
  using unsigned_less [of blk, where 'a = nat] by (auto simp: slot_free_of_def put32_def within_def intro!: st32_outside)

text \<open>
  C10: \<^verbatim>\<open>CommandLineToArgvW\<close> reads back quoted arguments. For a command line made of a quoted program name without quotes in it and
  any arguments, quoted by the usual rule, the result is the array of pointers to the name and to exactly these
  arguments, each terminated, and the count is stored.
\<close>
theorem command_line_roundtrip:
  assumes "cl_text esp s = command_line name args" "QUOTE \<notin> set name" "\<forall>a\<in>set (name # args). 0 \<notin> set a"
    "length (cl_text esp s) < 2 ^ 28" "malloc (cl_need (of_nat (length (cl_text esp s)))) = blk" "blk \<noteq> 0"
    "unat blk + unat (cl_need (of_nat (length (cl_text esp s)))) \<le> 2 ^ 32"
    "slot_free_of (WU esp 1 s) blk (unat (cl_need (of_nat (length (cl_text esp s)))))"
  shows "\<exists>s'. aret_CommandLineToArgvW malloc esp s = (blk, s') \<and> (WU esp 1 s \<noteq> 0 \<longrightarrow> ld32 (mem s') (WU esp 1 s) = of_nat (Suc (length args))) \<and>
    (\<forall>i<Suc (length args). wstr (mem s') (ld32 (mem s') (blk + 4 * of_nat i)) = (name # args) ! i)"
proof -
  let ?n = "length (cl_text esp s)" and ?as = "name # args" and ?pn = "WU esp 1 s"
  let ?out = "blk + cl_maxargs (of_nat ?n) * 4"
  let ?m = "emit_args blk 0 ?out ?as (mem s)"
  let ?s = "put32 ?pn (of_nat (length ?as)) (s\<lparr>mem := ?m\<rparr>)"
  have ps: "cl_parse (cl_text esp s) = ?as" using assms(1) cl_parse_quoted [OF assms(2)] by simp
  have pl: "placed blk 0 ?out ?as" and fits: "unat ?out + 2 * units ?as \<le> unat blk + unat (cl_need (of_nat ?n))"
    using cl_placed [OF assms(4,7)] ps by simp_all
  have same: "mem ?s x = ?m x" if "within blk (unat (cl_need (of_nat ?n))) x" for x
    using put32_outside [OF assms(8) that, of "of_nat (length ?as)" "s\<lparr>mem := ?m\<rparr>"] by simp
  have rd: "wstr (mem ?s) (ld32 (mem ?s) (blk + 4 * of_nat i)) = ?as ! i" if "i < length ?as" for i
  proof -
    have "unat blk + 4 * length ?as \<le> unat ?out" using pl by (simp add: placed_def)
    then have "within blk (unat (cl_need (of_nat ?n))) x" if "in_place blk 0 ?out ?as x" for x
      using that fits by (auto simp: in_place_def within_def)
    then show ?thesis using emit_args_read [OF pl that, of "mem ?s" "mem s"] same assms(3) nth_mem [OF that] by auto
  qed
  have "?pn \<noteq> 0 \<Longrightarrow> ld32 (mem ?s) ?pn = of_nat (length ?as)" by (simp add: put32_def)
  then show ?thesis using argv_result [of malloc esp s blk, OF assms(5,6)] ps rd by (intro exI [of _ ?s]) simp
qed

theorem command_line_roundtrip_witness:
  "\<exists>s'. aret_CommandLineToArgvW (\<lambda>n. 0x8000) 0x100 (push_args 0x100 [0x1000, 0] \<lparr>mem = st_words (\<lambda>_. 0) 0x1000 (command_line [0x61] [[0x62, QUOTE]]),
      g_last_error = 0\<rparr>) = (0x8000, s') \<and> wstr (mem s') (ld32 (mem s') 0x8004) = [0x62, QUOTE]"
proof -
  let ?line = "command_line [0x61] [[0x62, QUOTE]]"
  let ?s = "push_args 0x100 [0x1000, 0] \<lparr>mem = st_words (\<lambda>_. 0) 0x1000 ?line, g_last_error = 0\<rparr>"
  have l: "?line = [0x22, 0x61, 0x22, 0x20, 0x22, 0x62, 0x5C, 0x22, 0x22]"
    by (simp add: command_line_def quote_arg_def QUOTE_def BSLASH_def)
  have a: "WU 0x100 0 ?s = 0x1000" "WU 0x100 1 ?s = 0" by simp_all
  have "wstr (mem ?s) 0x1000 = [0x22, 0x61, 0x22, 0x20, 0x22, 0x62, 0x5C, 0x22, 0x22]"
    unfolding l by (simp add: push_args.simps wstr.simps ld16_def st16_def st32_def)
  then have t: "cl_text 0x100 ?s = ?line" by (simp only: cl_text_def a l) simp
  have "length ?line = 9" by (simp add: l)
  then have n: "length (cl_text 0x100 ?s) = 9" unfolding t .
  have c: "cl_need (of_nat 9) = 0x38" by (simp add: cl_need_def cl_maxargs_def)
  obtain s' where "aret_CommandLineToArgvW (\<lambda>n. 0x8000) 0x100 ?s = (0x8000, s')"
    "\<forall>i<Suc (length [[0x62, QUOTE]]). wstr (mem s') (ld32 (mem s') (0x8000 + 4 * of_nat i)) = ([0x61] # [[0x62, QUOTE]]) ! i"
    using command_line_roundtrip [OF t, of "\<lambda>n. 0x8000" "0x8000"] unfolding n c a by (auto simp: QUOTE_def slot_free_of_def)
  moreover from this(2) have "wstr (mem s') (ld32 (mem s') (0x8000 + 4 * of_nat 1)) = [0x62, QUOTE]" by (metis One_nat_def lessI length_Cons list.size(3) nth_Cons_0 nth_Cons_Suc)
  ultimately show ?thesis by auto
qed

text \<open>Nothing outside the block and the slot of the count is written, for every command line.\<close>

theorem command_line_stays_in_block:
  assumes "length (cl_text esp s) < 2 ^ 28" "malloc (cl_need (of_nat (length (cl_text esp s)))) = blk" "blk \<noteq> 0"
    "unat blk + unat (cl_need (of_nat (length (cl_text esp s)))) \<le> 2 ^ 32" "WU esp 1 s = 0 \<or> unat (WU esp 1 s) + 4 \<le> 2 ^ 32"
    "\<not> within blk (unat (cl_need (of_nat (length (cl_text esp s))))) x" "WU esp 1 s = 0 \<or> \<not> within (WU esp 1 s) 4 x"
  shows "mem (snd (aret_CommandLineToArgvW malloc esp s)) x = mem s x"
proof -
  let ?n = "length (cl_text esp s)" and ?as = "cl_parse (cl_text esp s)"
  let ?out = "blk + cl_maxargs (of_nat ?n) * 4"
  have pl: "placed blk 0 ?out ?as" and fits: "unat ?out + 2 * units ?as \<le> unat blk + unat (cl_need (of_nat ?n))"
    using cl_placed [OF assms(1,4)] by simp_all
  have "unat blk + 4 * length ?as \<le> unat ?out" using pl by (simp add: placed_def)
  then have "emit_args blk 0 ?out ?as (mem s) x = mem s x"
    using fits assms(6) by (intro emit_args_outside [OF pl]) (auto simp: within_def)
  then show ?thesis using argv_result [of malloc esp s blk, OF assms(2,3)] assms(5,7) st32_outside [of "WU esp 1 s" x] by (auto simp: put32_def)
qed

end
