(* ===== verification/Aret_Cmdline.thy ===== *)
theory Aret_Cmdline
  imports Aret_Argv_Theorems
begin

text \<open>
  The command line that a program sees (\<^verbatim>\<open>aret_hle.c\<close> 3612 to 3645) and its wide argument vector (3881 to 3906). The
  arguments of the process are lists of nonzero bytes. The command line is rebuilt from them with quotes around arguments that
  hold blanks; the theorems join it to the parser of \<open>Aret_Argv\<close>: arguments without quotes and without
  a backslash in front of the closing quote are read back, others are not.
\<close>

section \<open>Building the command line\<close>

definition blank8 :: "u8 \<Rightarrow> bool" where
  "blank8 c \<longleftrightarrow> c = 0x20 \<or> c = 0x09"

definition needs_quote :: "u8 list \<Rightarrow> bool" where
  "needs_quote a \<longleftrightarrow> a = [] \<or> (\<exists>c\<in>set a. blank8 c)"

text \<open>The text so far is \<open>out\<close>; its length is the index \<^verbatim>\<open>o\<close>. Every write has its own guard.\<close>

definition put_char :: "nat \<Rightarrow> bool \<Rightarrow> u8 \<Rightarrow> u8 list \<Rightarrow> u8 list" where
  "put_char cap b c out = (if b \<and> length out + 1 < cap then out @ [c] else out)"

fun put_text :: "nat \<Rightarrow> u8 list \<Rightarrow> u8 list \<Rightarrow> u8 list" where
  "put_text cap [] out = out"
| "put_text cap (c # cs) out = (if length out + 2 < cap then put_text cap cs (out @ [c]) else out)"

fun cmd_loop :: "nat \<Rightarrow> nat \<Rightarrow> u8 list list \<Rightarrow> u8 list \<Rightarrow> u8 list" where
  "cmd_loop cap i [] out = out"
| "cmd_loop cap i (a # as) out = (if length out + 2 < cap then
     let quote = needs_quote a;
         out = put_char cap (i \<noteq> 0) 0x20 out;
         out = put_char cap quote 0x22 out;
         out = put_text cap a out;
         out = put_char cap quote 0x22 out
     in cmd_loop cap (Suc i) as out
   else out)"

definition aret_build_cmdline :: "nat \<Rightarrow> u8 list list \<Rightarrow> u8 list" where
  "aret_build_cmdline cap args = cmd_loop cap 0 args []"

text \<open>The texts of the two static buffers of 8192 units.\<close>

definition aret_GetCommandLineA :: "u8 list list \<Rightarrow> u8 list" where
  "aret_GetCommandLineA args = aret_build_cmdline 8192 args"

definition aret_GetCommandLineW :: "u8 list list \<Rightarrow> u16 list" where
  "aret_GetCommandLineW args = map ucast (take 8191 (aret_build_cmdline 8192 args))"

section \<open>The wide argument vector\<close>

text \<open>
  The offsets of the arguments in \<^verbatim>\<open>wbuf\<close> and all that is stored there; \<open>wo\<close> is the length of the second part. The
  terminator is stored without a test of its index.
\<close>

fun wide_text :: "u8 list \<Rightarrow> u16 list \<Rightarrow> u16 list" where
  "wide_text [] w = w"
| "wide_text (c # cs) w = (if length w < 2 ^ 16 - 1 then wide_text cs (w @ [ucast c]) else w)"

fun wide_loop :: "u8 list list \<Rightarrow> nat list \<Rightarrow> u16 list \<Rightarrow> nat list \<times> u16 list" where
  "wide_loop [] offs w = (offs, w)"
| "wide_loop (a # as) offs w = wide_loop as (offs @ [length w]) (wide_text a w @ [0])"

definition aret_wgetmainargs :: "u8 list list \<Rightarrow> nat list \<times> u16 list" where
  "aret_wgetmainargs args = wide_loop (take 1024 args) [] []"

section \<open>The buffer is never overrun by the command line\<close>

lemma put_char_fits: "length out < cap \<Longrightarrow> length (put_char cap b c out) < cap"
  by (simp add: put_char_def)

lemma put_text_fits: "length out < cap \<Longrightarrow> length (put_text cap a out) < cap"
  by (induction a arbitrary: out) simp_all

lemma cmd_loop_fits: "length out < cap \<Longrightarrow> length (cmd_loop cap i args out) < cap"
  by (induction args arbitrary: i out) (simp_all add: Let_def put_char_fits put_text_fits)

theorem command_line_fits: "0 < cap \<Longrightarrow> length (aret_build_cmdline cap args) < cap"
  by (simp add: aret_build_cmdline_def cmd_loop_fits)

section \<open>The text when everything fits\<close>

definition shown :: "u8 list \<Rightarrow> u8 list" where
  "shown a = (if needs_quote a then 0x22 # a @ [0x22] else a)"

fun line_from :: "nat \<Rightarrow> u8 list list \<Rightarrow> u8 list" where
  "line_from i [] = []"
| "line_from i (a # as) = (if i = 0 then [] else [0x20]) @ shown a @ line_from (Suc i) as"

lemma put_text_all: "length out + length a + 1 < cap \<Longrightarrow> put_text cap a out = out @ a"
  by (induction a arbitrary: out) simp_all

lemma shown_nonempty: "0 < length (shown a)"
  by (auto simp: shown_def needs_quote_def)

lemma cmd_loop_line: "length out + length (line_from i args) + 1 < cap \<Longrightarrow> cmd_loop cap i args out = out @ line_from i args"
proof (induction args arbitrary: i out)
  case (Cons a as)
  have "length out + 2 < cap" using Cons.prems shown_nonempty [of a] by (simp only: line_from.simps length_append)
  then show ?case using Cons by (cases "i = 0"; cases "needs_quote a") (simp_all add: Let_def put_char_def put_text_all shown_def)
qed simp

lemma command_line_text: "length (line_from 0 args) < 8191 \<Longrightarrow> aret_GetCommandLineW args = map ucast (line_from 0 args)"
  using cmd_loop_line [of "[]" 0 args 8192] by (simp add: aret_GetCommandLineW_def aret_build_cmdline_def)

section \<open>Reading it back\<close>

definition wide :: "u8 list \<Rightarrow> u16 list" where
  "wide = map ucast"

lemma wide_char: "(ucast c :: u16) = QUOTE \<longleftrightarrow> c = 0x22" "(ucast c :: u16) = BSLASH \<longleftrightarrow> c = 0x5C" "cl_ws (ucast c) \<longleftrightarrow> blank8 c"
  for c :: u8
proof -
  have e: "(ucast c :: u16) = of_nat n \<longleftrightarrow> c = of_nat n" if "n < 256" for n
    using that unsigned_less [of c, where 'a = nat] by (simp add: word_unat_eq_iff unsigned_ucast_eq unsigned_of_nat take_bit_nat_eq_self)
  show "(ucast c :: u16) = QUOTE \<longleftrightarrow> c = 0x22" "(ucast c :: u16) = BSLASH \<longleftrightarrow> c = 0x5C" "cl_ws (ucast c) \<longleftrightarrow> blank8 c"
    using e [of "0x22"] e [of "0x5C"] e [of "0x20"] e [of "9"] by (simp_all add: QUOTE_def BSLASH_def cl_ws_def blank8_def)
qed

lemma quote_body_plain:
  "QUOTE \<notin> set a \<Longrightarrow> a = [] \<or> last a \<noteq> BSLASH \<Longrightarrow>
    quote_body n a = (if a = [] then replicate (2 * n) BSLASH else replicate n BSLASH @ a) @ [QUOTE]"
proof (induction a arbitrary: n)
  case (Cons c a)
  then have q: "QUOTE \<notin> set a" "a = [] \<or> last a \<noteq> BSLASH" "c \<noteq> QUOTE" "a = [] \<Longrightarrow> c \<noteq> BSLASH" by (auto split: if_splits)
  show ?case using Cons.IH [OF q(1,2)] q(3,4) by (cases "a = []") (simp_all add: replicate_app_Cons_same)
qed simp

lemma slashes_run:
  obtains n b where "a = replicate n BSLASH @ b" "b = [] \<or> hd b \<noteq> BSLASH"
proof
  have "\<forall>c\<in>set (takeWhile (\<lambda>c. c = BSLASH) a). c = BSLASH" by (auto dest: set_takeWhileD)
  then have "takeWhile (\<lambda>c. c = BSLASH) a = replicate (slashes a) BSLASH" unfolding slashes_def by (simp only: replicate_length_same)
  then show "a = replicate (slashes a) BSLASH @ dropWhile (\<lambda>c. c = BSLASH) a" using takeWhile_dropWhile_id [of "\<lambda>c. c = BSLASH" a] by simp
  show "dropWhile (\<lambda>c. c = BSLASH) a = [] \<or> hd (dropWhile (\<lambda>c. c = BSLASH) a) \<noteq> BSLASH" using hd_dropWhile by blast
qed

lemma slashes_append_run: "b = [] \<or> hd b \<noteq> BSLASH \<Longrightarrow> r = [] \<or> hd r \<noteq> BSLASH \<Longrightarrow> slashes (replicate n BSLASH @ b @ r) = n"
  by (induction n) (cases b; cases r; simp add: slashes_def)+

text \<open>An argument without quotes and without white space, between white space: backslashes are kept.\<close>

lemma arg_loop_plain:
  assumes "QUOTE \<notin> set a" "\<forall>c\<in>set a. inq \<or> \<not> cl_ws c" "r = [] \<or> \<not> inq \<and> cl_ws (hd r)"
  shows "arg_loop inq (a @ r) = (a, r)"
  using assms(1,2)
proof (induction "length a" arbitrary: a rule: less_induct)
  case less
  have r: "arg_stops inq r" "r = [] \<or> hd r \<noteq> BSLASH" "r = [] \<or> hd r \<noteq> QUOTE" using assms(3) by (auto simp: arg_stops_def cl_ws_def QUOTE_def BSLASH_def)
  obtain n b where b: "a = replicate n BSLASH @ b" "b = [] \<or> hd b \<noteq> BSLASH" by (rule slashes_run)
  have n: "slashes (a @ r) = n" "drop n (a @ r) = b @ r" using slashes_append_run [OF b(2) r(2)] b(1) by simp_all
  show ?case
  proof (cases b)
    case Nil
    show ?thesis
    proof (cases n)
      case 0
      then show ?thesis using b(1) Nil r by (simp add: arg_loop_stop)
    next
      case (Suc k)
      then have "\<not> arg_stops inq (a @ r)" using b(1) by (simp add: arg_stops_def)
      then show ?thesis using arg_loop_tail [of inq "a @ r" r] n Nil r b(1) by simp
    qed
  next
    case (Cons c d)
    have "\<not> arg_stops inq (a @ r)" using less.prems(2) b(1) Cons by (cases n) (auto simp: arg_stops_def)
    moreover have "arg_loop inq (d @ r) = (d, r)" using less.hyps [of d] less.prems b(1) Cons by simp
    moreover have "\<not> arg_stops inq (c # d @ r)" "c \<noteq> QUOTE" using less.prems b(1) Cons by (auto simp: arg_stops_def)
    ultimately show ?thesis using arg_loop_char [of inq "a @ r" c "d @ r"] n Cons b(1) by simp
  qed
qed

text \<open>Between quotes, a text without quotes that does not end in a backslash is copied.\<close>

lemma arg_loop_prefix:
  "QUOTE \<notin> set a \<Longrightarrow> a = [] \<or> last a \<noteq> BSLASH \<Longrightarrow> arg_loop True (a @ s) = (a @ fst (arg_loop True s), snd (arg_loop True s))"
proof (induction "length a" arbitrary: a rule: less_induct)
  case less
  show ?case
  proof (cases "a = []")
    case False
    obtain n b where b: "a = replicate n BSLASH @ b" "b = [] \<or> hd b \<noteq> BSLASH" by (rule slashes_run)
    then obtain c d where c: "b = c # d" using False less.prems(2) by (cases b) (auto split: if_splits)
    then have "c \<noteq> BSLASH" "c \<noteq> QUOTE" using b less.prems(1) by auto
    then have n: "slashes (a @ s) = n" "drop n (a @ s) = c # d @ s" using b c slashes_replicate [of c n "d @ s"] by simp_all
    moreover have "arg_loop True (d @ s) = (d @ fst (arg_loop True s), snd (arg_loop True s))"
      using less.hyps [of d] less.prems b(1) c by (auto split: if_splits)
    ultimately show ?thesis using arg_loop_char [of True "a @ s" c "d @ s"] False \<open>c \<noteq> QUOTE\<close> b(1) c by (simp add: arg_stops_def)
  qed simp
qed

text \<open>What the code can quote: no quote inside, and no backslash in front of the closing quote.\<close>

definition quotable :: "u8 list \<Rightarrow> bool" where
  "quotable a \<longleftrightarrow> 0x22 \<notin> set a \<and> (needs_quote a \<longrightarrow> a = [] \<or> last a \<noteq> 0x5C)"

lemma wide_sets: "QUOTE \<in> set (wide a) \<longleftrightarrow> 0x22 \<in> set a" "(\<exists>c\<in>set (wide a). cl_ws c) \<longleftrightarrow> (\<exists>c\<in>set a. blank8 c)" "wide a = [] \<longleftrightarrow> a = []"
  using wide_char by (auto simp: wide_def image_iff) metis+

lemma wide_last: "a \<noteq> [] \<Longrightarrow> last (wide a) = BSLASH \<longleftrightarrow> last a = 0x5C"
  by (simp add: wide_def last_map wide_char)

lemma wide_append: "wide (a @ b) = wide a @ wide b" "wide (c # a) = ucast c # wide a" "wide [] = []"
  by (simp_all add: wide_def)

lemma wide_shown: "needs_quote a \<Longrightarrow> wide (shown a) = QUOTE # wide a @ [QUOTE]"
  by (simp add: shown_def wide_append QUOTE_def)

lemma arg_loop_shown:
  assumes "quotable a" "r = [] \<or> cl_ws (hd r)"
  shows "arg_loop False (wide (shown a) @ r) = (wide a, r)"
proof (cases "needs_quote a")
  case True
  have "quote_arg (wide a) = QUOTE # wide a @ [QUOTE]"
    using quote_body_plain [of "wide a" 0] assms(1) True wide_last [of a] wide_sets [of a] by (auto simp: quote_arg_def quotable_def)
  then have "wide (shown a) = quote_arg (wide a)" using wide_shown [OF True] by simp
  then show ?thesis using arg_loop_quoted [OF assms(2)] by simp
next
  case False
  then show ?thesis using assms arg_loop_plain [of "wide a" False r] wide_sets [of a] by (auto simp: shown_def quotable_def needs_quote_def)
qed

lemma line_from_rest: "line_from (Suc i) as = line_from 1 as"
  by (induction as arbitrary: i) (simp_all, metis One_nat_def)

lemma wide_rest: "wide (line_from 1 as) = [] \<or> cl_ws (hd (wide (line_from 1 as)))"
  by (cases as) (simp_all add: wide_def cl_ws_def)

lemma shown_head: "\<not> needs_quote a \<Longrightarrow> \<not> blank8 (hd a)" "needs_quote a \<Longrightarrow> hd (shown a) = 0x22"
  by (auto simp: needs_quote_def shown_def)

lemma drop_blank: "dropWhile cl_ws (0x20 # wide (shown a) @ r) = wide (shown a) @ r"
proof -
  obtain c d where s: "shown a = c # d" using shown_nonempty [of a] by (cases "shown a") auto
  then have "\<not> blank8 c" using shown_head [of a] by (cases "needs_quote a") (auto simp: shown_def blank8_def)
  then show ?thesis by (simp add: s wide_append wide_char) (simp add: cl_ws_def)
qed

lemma arg_list_blank: "arg_list (0x20 # wide (shown a) @ r) = fst (arg_loop False (wide (shown a) @ r)) # arg_list (snd (arg_loop False (wide (shown a) @ r)))"
proof -
  have "wide (shown a) @ r \<noteq> []" using shown_nonempty [of a] by (simp add: wide_def)
  then show ?thesis by (subst arg_list.simps) (simp only: drop_blank Let_def if_False)
qed

lemma arg_list_line: "\<forall>a\<in>set as. quotable a \<Longrightarrow> arg_list (wide (line_from 1 as)) = map wide as"
proof (induction as)
  case (Cons a as)
  let ?r = "wide (line_from 1 as)"
  have e: "wide (line_from 1 (a # as)) = 0x20 # wide (shown a) @ ?r" using line_from_rest [of 1 as] by (simp add: wide_append)
  show ?case using Cons arg_loop_shown [OF _ wide_rest, of a as] unfolding e arg_list_blank by simp
qed (simp add: wide_def arg_list.simps)

lemma arg_zero_shown:
  assumes "0x22 \<notin> set a" "r = [] \<or> cl_ws (hd r)"
  shows "arg_zero (wide (shown a) @ r) = (wide a, r)"
proof (cases "needs_quote a")
  case True
  then show ?thesis using split_at_quote [of "wide a" r] assms(1) wide_sets(1) [of a]
    by (simp add: wide_shown arg_zero_def)
next
  case False
  have n: "\<forall>c\<in>set (wide a). \<not> cl_ws c" "wide a \<noteq> []" "QUOTE \<notin> set (wide a)"
    using False wide_sets [of a] assms(1) by (auto simp: needs_quote_def)
  then have "hd (wide a @ r) \<noteq> QUOTE" by (cases "wide a") auto
  moreover have "takeWhile (\<lambda>c. \<not> cl_ws c) (wide a @ r) = wide a \<and> dropWhile (\<lambda>c. \<not> cl_ws c) (wide a @ r) = r"
    using n(1) assms(2) by (cases r) (auto simp: takeWhile_append dropWhile_append)
  ultimately show ?thesis using False n by (simp add: shown_def arg_zero_def)
qed

text \<open>
  C12: a program that parses the command line it is given sees the arguments of the process, when these hold no quotes, when
  no argument with a blank ends in a backslash, and when the line has fewer than 8191 characters: \<^verbatim>\<open>CommandLineToArgvW\<close> is
  the inverse of \<^verbatim>\<open>GetCommandLineW\<close> on them. Backslashes elsewhere, blanks and empty arguments are kept.
\<close>
theorem own_command_line_reparsed:
  assumes "0x22 \<notin> set p" "\<forall>a\<in>set args. quotable a" "length (line_from 0 (p # args)) < 8191"
  shows "cl_parse (aret_GetCommandLineW (p # args)) = map wide (p # args)"
proof -
  have l: "aret_GetCommandLineW (p # args) = wide (shown p) @ wide (line_from 1 args)"
    using command_line_text [OF assms(3)] by (simp add: wide_def)
  show ?thesis using arg_zero_shown [OF assms(1) wide_rest] arg_list_line [OF assms(2)] by (simp add: cl_parse_def l)
qed

theorem own_command_line_reparsed_witness:
  "cl_parse (aret_GetCommandLineW [[0x70], [0x61, 0x20, 0x62], [], [0x5C]]) = [[0x70], [0x61, 0x20, 0x62], [], [0x5C]]"
  using own_command_line_reparsed [of "[0x70]" "[[0x61, 0x20, 0x62], [], [0x5C]]"]
  by (simp add: quotable_def needs_quote_def blank8_def shown_def wide_def)

text \<open>
  C37: an argument with a blank that ends in a backslash swallows the next one: the closing quote is taken for an escaped
  quote, so three arguments of the process become two. The comment on the builder calls it the inverse of the parser.
\<close>
theorem trailing_backslash_merges_arguments:
  assumes "0x22 \<notin> set p" "0x22 \<notin> set a" "0x22 \<notin> set b" "needs_quote a" "a \<noteq> []" "last a \<noteq> 0x5C" "\<not> needs_quote b"
    and "length (line_from 0 [p, a @ [0x5C], b]) < 8191"
  shows "cl_parse (aret_GetCommandLineW [p, a @ [0x5C], b]) = [wide p, wide a @ [QUOTE, 0x20] @ wide b]"
proof -
  let ?b = "0x20 # wide b" and ?q = "a @ [0x5C]"
  have q: "needs_quote ?q" using assms(4,5) by (auto simp: needs_quote_def)
  have s: "wide (shown ?q) @ ?b = QUOTE # wide a @ BSLASH # QUOTE # ?b" using wide_shown [OF q] by (simp add: wide_append BSLASH_def)
  have w: "QUOTE \<notin> set (wide a)" "QUOTE \<notin> set ?b" "wide a = [] \<or> last (wide a) \<noteq> BSLASH"
    using assms wide_sets wide_last [of a] by (auto simp: QUOTE_def)
  have l: "aret_GetCommandLineW [p, ?q, b] = wide (shown p) @ 0x20 # wide (shown ?q) @ ?b"
    using command_line_text [OF assms(8)] assms(7) by (simp add: wide_def shown_def)
  have z: "arg_zero (aret_GetCommandLineW [p, ?q, b]) = (wide p, 0x20 # wide (shown ?q) @ ?b)"
    unfolding l using assms(1) by (intro arg_zero_shown) (simp_all add: cl_ws_def)
  have "arg_loop True (BSLASH # QUOTE # ?b) = (QUOTE # ?b, [])"
    using arg_loop_odd [of True "BSLASH # QUOTE # ?b" ?b] arg_loop_plain [OF w(2), of True "[]"] by (simp add: slashes_def arg_stops_def)
  then have "arg_loop True (wide a @ BSLASH # QUOTE # ?b) = (wide a @ QUOTE # ?b, [])" using arg_loop_prefix [OF w(1,3)] by simp
  then have "arg_loop False (wide (shown ?q) @ ?b) = (wide a @ QUOTE # ?b, [])"
    unfolding s using arg_loop_even [of False "QUOTE # wide a @ BSLASH # QUOTE # ?b" "wide a @ BSLASH # QUOTE # ?b"] by (simp add: slashes_def arg_stops_def)
  then show ?thesis by (simp add: cl_parse_def z arg_list_blank arg_list.simps [of "[]"])
qed

theorem trailing_backslash_merges_arguments_witness:
  "cl_parse (aret_GetCommandLineW [[0x70], [0x61, 0x20, 0x62, 0x5C], [0x63]]) = [[0x70], [0x61, 0x20, 0x62, 0x22, 0x20, 0x63]]"
  using trailing_backslash_merges_arguments [of "[0x70]" "[0x61, 0x20, 0x62]" "[0x63]"]
  by (simp add: needs_quote_def blank8_def shown_def wide_def QUOTE_def)

text \<open>
  The wide vector has no such guard: when the arguments fill the buffer, each further argument stores its terminator
  behind the end.
\<close>

lemma wide_text_full: "2 ^ 16 - 1 \<le> length w \<Longrightarrow> wide_text a w = w"
  by (cases a) simp_all

lemma wide_loop_full: "2 ^ 16 - 1 \<le> length w \<Longrightarrow> length (snd (wide_loop as offs w)) = length w + length as"
  by (induction as arbitrary: offs w) (simp_all add: wide_text_full)

lemma wide_text_length: "length w \<le> 2 ^ 16 - 1 \<Longrightarrow> length (wide_text a w) = min (length w + length a) (2 ^ 16 - 1)"
  by (induction a arbitrary: w) auto

theorem wide_arguments_overrun:
  assumes "2 ^ 16 - 1 \<le> length a" "length as \<le> 1023"
  shows "length (snd (aret_wgetmainargs (a # as))) = 2 ^ 16 + length as"
  using assms wide_text_length [of "[]" a] wide_loop_full [of "wide_text a [] @ [0]" as "[0]"]
  by (simp add: aret_wgetmainargs_def)

end
