(* ===== verification/Aret_Collate.thy ===== *)
theory Aret_Collate
  imports Aret_Prelude "HOL-Library.List_Lexorder"
begin

text \<open>
  Linguistic string comparison (\<^verbatim>\<open>aret_win32.c\<close> 872 to 1001): the sort key of a text, made of primary weights, case marks and
  entries for ignored punctuation, and the comparisons that order keys byte by byte. A text with a character
  outside the table is not compared: the process stops, None here.

  The order is total, and two texts compare equal exactly when they are the same, up to case when case is ignored; the
  keys fit the buffers of the code.
\<close>

section \<open>Sort keys\<close>

definition u32_pri :: "u16 list" where
  "u32_pri = [
    0, 0, 0, 0, 0, 0, 0, 0, 0, 0, 0, 0, 0, 0, 0, 0,
    0, 0, 0, 0, 0, 0, 0, 0, 0, 0, 0, 0, 0, 0, 0, 0,
    0x0702, 0x071c, 0x071d, 0x071f, 0x0721, 0x0723, 0x0725, 0, 0x0727, 0x072a, 0x072d, 0x0803, 0x072f, 0, 0x0733, 0x0735,
    0x0d03, 0x0d1a, 0x0d1c, 0x0d1e, 0x0d20, 0x0d22, 0x0d24, 0x0d26, 0x0d28, 0x0d2a, 0x0737, 0x073a, 0x080e, 0x0812, 0x0814, 0x073c,
    0x073e, 0x0e02, 0x0e09, 0x0e0a, 0x0e1a, 0x0e21, 0x0e23, 0x0e25, 0x0e2c, 0x0e32, 0x0e35, 0x0e36, 0x0e48, 0x0e51, 0x0e70, 0x0e7c,
    0x0e7e, 0x0e89, 0x0e8a, 0x0e91, 0x0e99, 0x0e9f, 0x0ea2, 0x0ea4, 0x0ea6, 0x0ea7, 0x0ea9, 0x073f, 0x0741, 0x0742, 0x0743, 0x0744,
    0x0748, 0x0e02, 0x0e09, 0x0e0a, 0x0e1a, 0x0e21, 0x0e23, 0x0e25, 0x0e2c, 0x0e32, 0x0e35, 0x0e36, 0x0e48, 0x0e51, 0x0e70, 0x0e7c,
    0x0e7e, 0x0e89, 0x0e8a, 0x0e91, 0x0e99, 0x0e9f, 0x0ea2, 0x0ea4, 0x0ea6, 0x0ea7, 0x0ea9, 0x074a, 0x074c, 0x074e, 0x0750, 0]"

definition u32_ign :: "u16 \<Rightarrow> u8" where
  "u32_ign c = (if c = 0x27 then 0x80 else if c = 0x2D then 0x82 else 0)"

definition is_upper :: "u16 \<Rightarrow> bool" where
  "is_upper c \<longleftrightarrow> 0x41 \<le> c \<and> c \<le> 0x5A"

text \<open>The loop over the text: the three levels so far; \<open>nb\<close> counts the characters with a primary weight.\<close>

fun key_loop :: "u16 list \<Rightarrow> nat \<Rightarrow> u8 list \<Rightarrow> u8 list \<Rightarrow> u8 list \<Rightarrow> (u8 list \<times> u8 list \<times> u8 list) option" where
  "key_loop [] nb pri cas spc = Some (pri, cas, spc)"
| "key_loop (c # cs) nb pri cas spc = (let iw = u32_ign c in
     if iw \<noteq> 0 then
       if length spc > 1018 \<or> nb \<ge> 0x80 then None
       else key_loop cs nb pri cas (spc @ [0xFF, 0xFF - of_nat nb, iw, 0x12])
     else if c \<ge> 128 \<or> u32_pri ! unat c = 0 then None
     else if length pri > 1020 \<or> length cas > 508 then None
     else let w = u32_pri ! unat c in
       key_loop cs (nb + 1) (pri @ [ucast (drop_bit 8 w), ucast w]) (cas @ [if is_upper c then 0x12 else 0x02]) spc)"

text \<open>The case level without its trailing default marks.\<close>

definition trim_case :: "u8 list \<Rightarrow> u8 list" where
  "trim_case cas = rev (dropWhile (\<lambda>b. b = 0x02) (rev cas))"

definition u32_sortkey :: "bool \<Rightarrow> u16 list \<Rightarrow> u8 list option" where
  "u32_sortkey ignore_case s = (case key_loop s 0 [] [] [] of None \<Rightarrow> None
     | Some (pri, cas, spc) \<Rightarrow> Some (pri @ [1, 1] @ (if ignore_case then [] else trim_case cas) @ [1, 1] @ spc @ [0]))"

fun memcmp_sign :: "u8 list \<Rightarrow> u8 list \<Rightarrow> int" where
  "memcmp_sign (a # as) (b # bs) = (if a < b then - 1 else if a > b then 1 else memcmp_sign as bs)"
| "memcmp_sign _ _ = 0"

text \<open>-1, 0 or 1; None when a text is outside the subset.\<close>

definition u32_collate :: "bool \<Rightarrow> u16 list \<Rightarrow> u16 list \<Rightarrow> int option" where
  "u32_collate ignore_case a b = (case (u32_sortkey ignore_case a, u32_sortkey ignore_case b) of
     (Some ka, Some kb) \<Rightarrow>
       let m = min (length ka) (length kb); c = memcmp_sign (take m ka) (take m kb);
           c = (if c = 0 then int (length ka) - int (length kb) else c)
       in Some (if c < 0 then - 1 else if c > 0 then 1 else 0)
   | _ \<Rightarrow> None)"

section \<open>The shims\<close>

text \<open>\<open>n\<close> units at \<open>p\<close>, up to a terminator; a negative \<open>n\<close> takes the whole string.\<close>

definition coll_text :: "guest_mem \<Rightarrow> u32 \<Rightarrow> int \<Rightarrow> u16 list" where
  "coll_text m p n = (if n < 0 then wstr m p else takeWhile (\<lambda>c. c \<noteq> 0) (map (\<lambda>i. ld16 m (p + 2 * of_nat i)) [0..<nat n]))"

definition u32_wstr_eq :: "guest_mem \<Rightarrow> u32 \<Rightarrow> u32 \<Rightarrow> bool" where
  "u32_wstr_eq m a b \<longleftrightarrow> wstr m a = wstr m b"

definition lstrcmp_w :: "bool \<Rightarrow> u32 \<Rightarrow> 'a hle_scheme \<Rightarrow> u32 option" where
  "lstrcmp_w ignore_case esp s = (let a = WU esp 0 s; b = WU esp 1 s in
     if a = 0 \<or> b = 0 then Some (if a = b then 0 else if a \<noteq> 0 then 1 else - 1)
     else if u32_wstr_eq (mem s) a b then Some 0
     else map_option word_of_int (u32_collate ignore_case (coll_text (mem s) a (- 1)) (coll_text (mem s) b (- 1))))"

definition aret_lstrcmpW :: "u32 \<Rightarrow> 'a hle_scheme \<Rightarrow> u32 option" where
  "aret_lstrcmpW = lstrcmp_w False"

definition aret_lstrcmpiW :: "u32 \<Rightarrow> 'a hle_scheme \<Rightarrow> u32 option" where
  "aret_lstrcmpiW = lstrcmp_w True"

definition cstr_code :: "int \<Rightarrow> u32" where
  "cstr_code r = (if r < 0 then 1 else if r > 0 then 3 else 2)"

definition aret_CompareStringW :: "u32 \<Rightarrow> 'a hle_scheme \<Rightarrow> u32 option" where
  "aret_CompareStringW esp s = (let flags = WU esp 1 s; s1 = WU esp 2 s; n1 = WI esp 3 s; s2 = WU esp 4 s; n2 = WI esp 5 s in
     if flags AND NOT 1 \<noteq> 0 then None
     else if s1 = 0 \<or> s2 = 0 then Some 0
     else if n1 < 0 \<and> n2 < 0 \<and> flags AND 1 = 0 \<and> u32_wstr_eq (mem s) s1 s2 then Some 2
     else map_option cstr_code (u32_collate (flags AND 1 \<noteq> 0) (coll_text (mem s) s1 (if n1 < 0 then - 1 else n1))
       (coll_text (mem s) s2 (if n2 < 0 then - 1 else n2))))"

text \<open>The bytes widened; None when one is not ASCII or there are more than 1199.\<close>

definition widen :: "guest_mem \<Rightarrow> u32 \<Rightarrow> int \<Rightarrow> u16 list option" where
  "widen m p n = (let bs = (if n < 0 then cstr m p else ld_bytes m p (nat n)) in
     if (\<exists>b\<in>set bs. b \<ge> 0x80) \<or> length bs > 1199 then None else Some (map ucast bs))"

definition aret_CompareStringA :: "u32 \<Rightarrow> 'a hle_scheme \<Rightarrow> u32 option" where
  "aret_CompareStringA esp s = (let flags = WU esp 1 s; s1 = WU esp 2 s; n1 = WI esp 3 s; s2 = WU esp 4 s; n2 = WI esp 5 s in
     if flags AND NOT 1 \<noteq> 0 then None
     else if s1 = 0 \<or> s2 = 0 then Some 0
     else case (widen (mem s) s1 n1, widen (mem s) s2 n2) of
       (Some w1, Some w2) \<Rightarrow> map_option cstr_code
         (u32_collate (flags AND 1 \<noteq> 0) (takeWhile (\<lambda>c. c \<noteq> 0) w1) (takeWhile (\<lambda>c. c \<noteq> 0) w2))
     | _ \<Rightarrow> None)"

section \<open>The weights\<close>

definition to_lower :: "u16 \<Rightarrow> u16" where
  "to_lower c = (if is_upper c then c + 0x20 else c)"

definition low_idx :: "nat \<Rightarrow> nat" where
  "low_idx n = (if 65 \<le> n \<and> n \<le> 90 then n + 32 else n)"

lemma length_pri: "length u32_pri = 128"
  by (simp add: u32_pri_def)

lemma pri_case_blind: "n < 128 \<Longrightarrow> u32_pri ! low_idx n = u32_pri ! n"
proof -
  have "list_all (\<lambda>n. u32_pri ! low_idx n = u32_pri ! n) [0..<128]" by code_simp
  then show "n < 128 \<Longrightarrow> ?thesis" by (simp add: list_all_iff)
qed

lemma pri_no_mark: "n < 128 \<Longrightarrow> u32_pri ! n \<noteq> 0 \<Longrightarrow> ucast (drop_bit 8 (u32_pri ! n)) \<noteq> (1 :: u8) \<and> ucast (u32_pri ! n) \<noteq> (1 :: u8)"
proof -
  have "list_all (\<lambda>n. u32_pri ! n \<noteq> 0 \<longrightarrow> ucast (drop_bit 8 (u32_pri ! n)) \<noteq> (1 :: u8) \<and> ucast (u32_pri ! n) \<noteq> (1 :: u8)) [0..<128]" by code_simp
  then show "n < 128 \<Longrightarrow> u32_pri ! n \<noteq> 0 \<Longrightarrow> ?thesis" by (simp add: list_all_iff)
qed

definition pri_lows :: "nat list" where
  "pri_lows = filter (\<lambda>n. u32_pri ! n \<noteq> 0 \<and> low_idx n = n) [0..<128]"

lemma pri_distinct: "distinct (map (\<lambda>n. u32_pri ! n) pri_lows)"
  by code_simp

lemma pri_inj:
  assumes "n < 128" "m < 128" "u32_pri ! n = u32_pri ! m" "u32_pri ! n \<noteq> 0"
  shows "low_idx n = low_idx m"
proof -
  have l: "low_idx k < 128" "low_idx (low_idx k) = low_idx k" if "k < 128" for k using that by (auto simp: low_idx_def)
  have "low_idx n \<in> set pri_lows" "low_idx m \<in> set pri_lows"
    using assms l pri_case_blind by (auto simp: pri_lows_def)
  moreover have "u32_pri ! low_idx n = u32_pri ! low_idx m" using assms pri_case_blind by simp
  ultimately show ?thesis using pri_distinct by (simp add: distinct_map inj_on_def)
qed

lemma pri_bytes_inj:
  assumes "ucast (drop_bit 8 (v :: u16)) = (ucast (drop_bit 8 w) :: u8)" "ucast v = (ucast w :: u8)"
  shows "v = w"
proof (rule bit_word_eqI)
  fix i assume i: "i < LENGTH(16)"
  show "bit v i = bit w i"
  proof (cases "i < 8")
    case True
    then show ?thesis using arg_cong [OF assms(2), of "\<lambda>x. bit x i"] by (simp add: bit_ucast_iff)
  next
    case False
    then have "i - 8 < 8" using i by simp
    then show ?thesis using False arg_cong [OF assms(1), of "\<lambda>x. bit x (i - 8)"] i by (simp add: bit_ucast_iff bit_drop_bit_eq)
  qed
qed

section \<open>The levels of a key\<close>

definition is_ign :: "u16 \<Rightarrow> bool" where
  "is_ign c \<longleftrightarrow> u32_ign c \<noteq> 0"

definition pri_bytes :: "u16 \<Rightarrow> u8 list" where
  "pri_bytes c = [ucast (drop_bit 8 (u32_pri ! unat c)), ucast (u32_pri ! unat c)]"

definition case_mark :: "u16 \<Rightarrow> u8" where
  "case_mark c = (if is_upper c then 0x12 else 0x02)"

fun lev_pri :: "u16 list \<Rightarrow> u8 list" where
  "lev_pri [] = []"
| "lev_pri (c # cs) = (if is_ign c then lev_pri cs else pri_bytes c @ lev_pri cs)"

fun lev_case :: "u16 list \<Rightarrow> u8 list" where
  "lev_case [] = []"
| "lev_case (c # cs) = (if is_ign c then lev_case cs else case_mark c # lev_case cs)"

fun lev_spc :: "nat \<Rightarrow> u16 list \<Rightarrow> u8 list" where
  "lev_spc nb [] = []"
| "lev_spc nb (c # cs) = (if is_ign c then [0xFF, 0xFF - of_nat nb, u32_ign c, 0x12] @ lev_spc nb cs else lev_spc (nb + 1) cs)"

text \<open>The texts that have a key.\<close>

fun keyed :: "nat \<Rightarrow> u16 list \<Rightarrow> bool" where
  "keyed nb [] = True"
| "keyed nb (c # cs) = (if is_ign c then nb < 0x80 \<and> keyed nb cs else c < 128 \<and> u32_pri ! unat c \<noteq> 0 \<and> keyed (nb + 1) cs)"

lemma key_loop_levels:
  "key_loop s nb pri cas spc = Some (p, c, x) \<Longrightarrow> length pri \<le> 1022 \<Longrightarrow> length cas \<le> 509 \<Longrightarrow> length spc \<le> 1022 \<Longrightarrow>
    p = pri @ lev_pri s \<and> c = cas @ lev_case s \<and> x = spc @ lev_spc nb s \<and> keyed nb s \<and> length p \<le> 1022 \<and> length c \<le> 509 \<and> length x \<le> 1022"
proof (induction s nb pri cas spc rule: key_loop.induct)
  case (2 c cs nb pri cas spc)
  show ?case
  proof (cases "u32_ign c = 0")
    case True
    then show ?thesis using 2(2) [OF refl] 2(3-)
      by (auto simp: is_ign_def pri_bytes_def case_mark_def Let_def split: if_splits)
  next
    case False
    then show ?thesis using 2(1) [OF refl False] 2(3-)
      by (auto simp: is_ign_def Let_def split: if_splits)
  qed
qed simp

text \<open>An entry for ignored punctuation carries its position, so the first entry shows how far the text goes before it.\<close>

lemma lev_spc_head:
  "keyed nb s \<Longrightarrow> lev_spc nb s = [] \<or> (\<exists>k r. nb \<le> k \<and> k < 0x80 \<and> lev_spc nb s = 0xFF # (0xFF - of_nat k) # r)"
proof (induction s arbitrary: nb)
  case (Cons c s)
  then show ?case by (cases "is_ign c") (auto dest: Suc_leD)
qed simp

lemma position_inj: "nb < 0x80 \<Longrightarrow> k < 0x80 \<Longrightarrow> (0xFF :: u8) - of_nat nb = 0xFF - of_nat k \<Longrightarrow> nb = k"
proof -
  assume a: "nb < 0x80" "k < 0x80" "(0xFF :: u8) - of_nat nb = 0xFF - of_nat k"
  then have "(of_nat nb :: u8) = of_nat k" by (simp add: algebra_simps)
  then have "unat (of_nat nb :: u8) = unat (of_nat k :: u8)" by simp
  then show "nb = k" using a by (simp add: unat_of_nat)
qed

lemma ign_inj: "is_ign c \<Longrightarrow> u32_ign c = u32_ign d \<Longrightarrow> c = d"
  by (auto simp: is_ign_def u32_ign_def split: if_splits)

lemma weight_inj:
  assumes "c < 128" "d < 128" "u32_pri ! unat c \<noteq> 0" "pri_bytes c = pri_bytes d"
  shows "to_lower c = to_lower d"
proof -
  have u: "unat c < 128" "unat d < 128" using assms(1,2) by (simp_all add: word_less_nat_alt)
  have "u32_pri ! unat c = u32_pri ! unat d" using assms(4) pri_bytes_inj unfolding pri_bytes_def by blast
  then have l: "low_idx (unat c) = low_idx (unat d)" using pri_inj [OF u] assms(3) by simp
  have "unat (to_lower x) = low_idx (unat x)" if "unat x < 128" for x
    using that by (auto simp: to_lower_def is_upper_def low_idx_def word_le_nat_alt unat_word_ariths)
  then have "unat (to_lower c) = unat (to_lower d)" using l u by simp
  then show ?thesis by (simp add: word_unat_eq_iff)
qed

lemma levels_inj:
  "keyed nb s \<Longrightarrow> keyed nb t \<Longrightarrow> lev_pri s = lev_pri t \<Longrightarrow> lev_spc nb s = lev_spc nb t \<Longrightarrow> map to_lower s = map to_lower t"
proof (induction s arbitrary: nb t)
  case Nil
  then show ?case by (cases t) (auto simp: pri_bytes_def split: if_splits)
next
  case (Cons c s)
  have "t \<noteq> []" using Cons.prems by (auto simp: pri_bytes_def split: if_splits)
  then obtain d u where t: "t = d # u" by (cases t) auto
  consider (both) "is_ign c" "is_ign d" | (none) "\<not> is_ign c" "\<not> is_ign d" | (left) "is_ign c" "\<not> is_ign d" | (right) "\<not> is_ign c" "is_ign d"
    by blast
  then show ?case
  proof cases
    case both
    then have "c = d" using Cons.prems ign_inj t by auto
    then show ?thesis using both Cons.prems t Cons.IH [of nb u] by simp
  next
    case none
    then have "to_lower c = to_lower d" using Cons.prems t by (intro weight_inj) (auto simp: pri_bytes_def)
    then show ?thesis using none Cons.prems t Cons.IH [of "nb + 1" u] by (simp add: pri_bytes_def)
  next
    case left
    then show ?thesis using lev_spc_head [of "nb + 1" u] position_inj [of nb] Cons.prems t by fastforce
  next
    case right
    then show ?thesis using lev_spc_head [of "nb + 1" s] position_inj [of nb] Cons.prems t by fastforce
  qed
qed

lemma lower_ign: "to_lower c = to_lower d \<Longrightarrow> is_ign c = is_ign d"
  by (auto simp: to_lower_def is_ign_def u32_ign_def is_upper_def split: if_splits)

lemma lower_case_inj: "to_lower c = to_lower d \<Longrightarrow> is_upper c = is_upper d \<Longrightarrow> c = d"
  by (auto simp: to_lower_def split: if_splits)

lemma case_inj: "map to_lower s = map to_lower t \<Longrightarrow> lev_case s = lev_case t \<Longrightarrow> s = t"
proof (induction s arbitrary: t)
  case (Cons c s)
  then obtain d u where t: "t = d # u" "to_lower c = to_lower d" by (cases t) auto
  have i: "is_ign c = is_ign d" using lower_ign [OF t(2)] .
  have "is_upper c = is_upper d"
  proof (cases "is_ign c")
    case True
    then show ?thesis using i by (auto simp: is_ign_def u32_ign_def is_upper_def split: if_splits)
  qed (use Cons.prems t(1) i in \<open>auto simp: case_mark_def split: if_splits\<close>)
  then show ?case using Cons i t lower_case_inj [OF t(2)] by (auto split: if_splits)
qed simp

lemma weight_lower: "to_lower c = to_lower d \<Longrightarrow> c < 128 \<Longrightarrow> d < 128 \<Longrightarrow> pri_bytes c = pri_bytes d"
proof -
  assume a: "to_lower c = to_lower d" "c < 128" "d < 128"
  have "u32_pri ! unat x = u32_pri ! unat (to_lower x)" if "x < 128" for x
    using pri_case_blind [of "unat x"] that
    by (auto simp: to_lower_def is_upper_def low_idx_def word_less_nat_alt word_le_nat_alt unat_word_ariths split: if_splits)
  then show ?thesis using a by (simp add: pri_bytes_def)
qed

lemma lower_levels:
  "keyed nb s \<Longrightarrow> keyed nb t \<Longrightarrow> map to_lower s = map to_lower t \<Longrightarrow> lev_pri s = lev_pri t \<and> lev_spc nb s = lev_spc nb t"
proof (induction s arbitrary: nb t)
  case (Cons c s)
  then obtain d u where t: "t = d # u" "to_lower c = to_lower d" by (cases t) auto
  have i: "is_ign c = is_ign d" using lower_ign [OF t(2)] .
  show ?case
  proof (cases "is_ign c")
    case True
    then have "c = d" using i t(2) by (auto simp: is_ign_def u32_ign_def to_lower_def is_upper_def split: if_splits)
    then show ?thesis using True Cons.prems t Cons.IH [of nb u] by simp
  next
    case False
    then show ?thesis using i Cons.prems t Cons.IH [of "nb + 1" u] weight_lower [OF t(2)] by simp
  qed
qed simp

section \<open>Keys in order\<close>

lemma trim_case_pad: "cas = trim_case cas @ replicate (length cas - length (trim_case cas)) 0x02"
proof -
  let ?t = "takeWhile (\<lambda>b. b = 0x02) (rev cas)"
  have c: "cas = trim_case cas @ rev ?t" unfolding trim_case_def by (metis rev_append rev_rev_ident takeWhile_dropWhile_id)
  have "rev ?t = replicate (length (rev ?t)) 0x02" by (rule replicate_eqI) (auto dest: set_takeWhileD)
  moreover have "length (rev ?t) = length cas - length (trim_case cas)" using c by (metis add_diff_cancel_left' length_append)
  ultimately show ?thesis using c by metis
qed

lemma trim_inj: "length c1 = length c2 \<Longrightarrow> trim_case c1 = trim_case c2 \<Longrightarrow> c1 = c2"
  using trim_case_pad [of c1] trim_case_pad [of c2] by simp

lemma split_mark: "1 \<notin> set p \<Longrightarrow> 1 \<notin> set q \<Longrightarrow> p @ (1 :: u8) # r = q @ 1 # r' \<Longrightarrow> p = q \<and> r = r'"
proof (induction p arbitrary: q)
  case Nil
  then show ?case by (cases q) auto
next
  case (Cons x p)
  then show ?case by (cases q) auto
qed

lemma lev_pri_no_mark: "keyed nb s \<Longrightarrow> 1 \<notin> set (lev_pri s)"
proof (induction s arbitrary: nb)
  case (Cons c s)
  show ?case
  proof (cases "is_ign c")
    case False
    then have "unat c < 128" using Cons.prems by (simp add: word_less_nat_alt)
    then have "1 \<notin> set (pri_bytes c)" using False pri_no_mark [of "unat c"] Cons.prems by (auto simp: pri_bytes_def)
    then show ?thesis using False Cons by auto
  qed (use Cons in auto)
qed simp

lemma lev_case_marks: "set (lev_case s) \<subseteq> {0x02, 0x12}"
  by (induction s) (auto simp: case_mark_def)

lemma length_levels: "length (lev_pri s) = 2 * length (lev_case s)"
  by (induction s) (simp_all add: pri_bytes_def)

definition mk_key :: "bool \<Rightarrow> u8 list \<Rightarrow> u8 list \<Rightarrow> u8 list \<Rightarrow> u8 list" where
  "mk_key ic p c x = p @ [1, 1] @ (if ic then [] else trim_case c) @ [1, 1] @ x @ [0]"

lemma sortkey_levels:
  assumes "u32_sortkey ic s = Some k"
  shows "k = mk_key ic (lev_pri s) (lev_case s) (lev_spc 0 s) \<and> keyed 0 s \<and> length k \<le> 2600"
proof -
  obtain p c x where l: "key_loop s 0 [] [] [] = Some (p, c, x)" and k: "k = mk_key ic p c x"
    using assms by (auto simp: u32_sortkey_def mk_key_def split: option.splits)
  have b: "p = lev_pri s" "c = lev_case s" "x = lev_spc 0 s" "keyed 0 s" "length p \<le> 1022" "length c \<le> 509" "length x \<le> 1022"
    using key_loop_levels [OF l] by auto
  have "length (trim_case c) \<le> length c" by (simp add: trim_case_def length_dropWhile_le [of _ "rev c", simplified])
  then show ?thesis using k b by (auto simp: mk_key_def)
qed

lemma key_parts:
  assumes "1 \<notin> set p" "1 \<notin> set q" "1 \<notin> set (trim_case c)" "1 \<notin> set (trim_case d)" "mk_key ic p c x = mk_key ic q d y"
  shows "p = q \<and> (\<not> ic \<longrightarrow> trim_case c = trim_case d) \<and> x = y"
proof -
  let ?c = "if ic then [] else trim_case c" and ?d = "if ic then [] else trim_case d"
  have "p = q" "1 # ?c @ 1 # 1 # x @ [0] = 1 # ?d @ 1 # 1 # y @ [0]"
    using split_mark [OF assms(1,2), of "1 # ?c @ 1 # 1 # x @ [0]" "1 # ?d @ 1 # 1 # y @ [0]"] assms(5) by (auto simp: mk_key_def)
  moreover from this have "?c = ?d \<and> 1 # x @ [0] = 1 # y @ [0]"
    using split_mark [of ?c ?d "1 # x @ [0]" "1 # y @ [0]"] assms(3,4) by auto
  ultimately show ?thesis by auto
qed

lemma trim_no_mark: "1 \<notin> set (trim_case (lev_case s))"
  using lev_case_marks [of s] by (auto simp: trim_case_def dest!: set_dropWhileD dest: subsetD)

lemma keys_equal:
  assumes "u32_sortkey ic a = Some ka" "u32_sortkey ic b = Some kb"
  shows "ka = kb \<longleftrightarrow> (if ic then map to_lower a = map to_lower b else a = b)"
proof
  note A = sortkey_levels [OF assms(1)] and B = sortkey_levels [OF assms(2)]
  assume "ka = kb"
  then have k: "lev_pri a = lev_pri b" "\<not> ic \<longrightarrow> trim_case (lev_case a) = trim_case (lev_case b)" "lev_spc 0 a = lev_spc 0 b"
    using key_parts [OF lev_pri_no_mark [of 0 a] lev_pri_no_mark [of 0 b] trim_no_mark trim_no_mark, where ic = ic and x = "lev_spc 0 a" and y = "lev_spc 0 b"] A B by auto
  then have "map to_lower a = map to_lower b" using levels_inj [of 0 a b] A B by simp
  moreover have "lev_case a = lev_case b" if "\<not> ic"
    using trim_inj [of "lev_case a" "lev_case b"] k that length_levels [of a] length_levels [of b] by simp
  ultimately show "if ic then map to_lower a = map to_lower b else a = b" using case_inj by simp
next
  note A = sortkey_levels [OF assms(1)] and B = sortkey_levels [OF assms(2)]
  assume "if ic then map to_lower a = map to_lower b else a = b"
  then show "ka = kb" using A B lower_levels [of 0 a b] assms by (auto simp: mk_key_def split: if_splits)
qed

lemma Nil_less_iff: "([] :: u8 list) < y \<longleftrightarrow> y \<noteq> []"
  by (cases y) auto

lemma memcmp_less:
  "(memcmp_sign (take (min (length x) (length y)) x) (take (min (length x) (length y)) y) < 0 \<or>
     memcmp_sign (take (min (length x) (length y)) x) (take (min (length x) (length y)) y) = 0 \<and> length x < length y) \<longleftrightarrow> x < y"
  by (induction x y rule: memcmp_sign.induct) (auto simp: Cons_less_Cons Nil_less_iff)

lemma memcmp_zero: "length x = length y \<Longrightarrow> memcmp_sign x y = 0 \<Longrightarrow> x = y"
  by (induction x y rule: memcmp_sign.induct) (auto split: if_splits)

lemma collate_order:
  assumes "u32_sortkey ic a = Some ka" "u32_sortkey ic b = Some kb"
  shows "u32_collate ic a b = Some (if ka < kb then - 1 else if ka = kb then 0 else 1)"
proof -
  let ?m = "min (length ka) (length kb)"
  let ?c = "memcmp_sign (take ?m ka) (take ?m kb)"
  have e: "?c = 0 \<and> length ka = length kb \<longleftrightarrow> ka = kb"
  proof
    assume "?c = 0 \<and> length ka = length kb"
    then have "memcmp_sign ka kb = 0" "length ka = length kb" by auto
    then show "ka = kb" by (rule memcmp_zero [rotated])
  next
    assume "ka = kb"
    moreover have "memcmp_sign kb kb = 0" by (induction kb) auto
    ultimately show "?c = 0 \<and> length ka = length kb" by simp
  qed
  show ?thesis using memcmp_less [of ka kb] e assms by (auto simp: u32_collate_def Let_def)
qed

text \<open>
  C9: The linguistic comparison is a linear order. For texts that have a sort key the result is the lexicographic order of the
  keys; two texts compare equal exactly when they are the same, or the same up to the case of letters when case is
  ignored; and a key always fits its buffer of 2600 bytes.
\<close>
theorem collation_is_linear_order:
  assumes "u32_sortkey ic a = Some ka" "u32_sortkey ic b = Some kb"
  shows "u32_collate ic a b = Some (if ka < kb then - 1 else if ka = kb then 0 else 1) \<and>
    (ka = kb \<longleftrightarrow> (if ic then map to_lower a = map to_lower b else a = b)) \<and> length ka \<le> 2600"
  using collate_order [OF assms] keys_equal [OF assms] conjunct2 [OF conjunct2 [OF sortkey_levels [OF assms(1)]]] by simp

theorem collation_is_linear_order_witness: "u32_collate False [0x61, 0x42] [0x61, 0x62] = Some 1"
proof -
  have k: "u32_sortkey False [0x61, 0x42] = Some [0x0E, 0x02, 0x0E, 0x09, 1, 1, 0x02, 0x12, 1, 1, 0]"
    "u32_sortkey False [0x61, 0x62] = Some [0x0E, 0x02, 0x0E, 0x09, 1, 1, 1, 1, 0]" by code_simp+
  show ?thesis using collation_is_linear_order [OF k] by simp
qed

text \<open>\<^verbatim>\<open>lstrcmpW\<close> on two strings returns 0 exactly for equal strings, or for equal strings up to case.\<close>

theorem lstrcmp_zero:
  assumes "WU esp 0 s = a" "WU esp 1 s = b" "a \<noteq> 0" "b \<noteq> 0" "lstrcmp_w ic esp s = Some r"
  shows "r = 0 \<longleftrightarrow> (if ic then map to_lower (wstr (mem s) a) = map to_lower (wstr (mem s) b) else wstr (mem s) a = wstr (mem s) b)"
proof (cases "wstr (mem s) a = wstr (mem s) b")
  case True
  then show ?thesis using assms by (auto simp: lstrcmp_w_def u32_wstr_eq_def Let_def)
next
  case False
  let ?a = "wstr (mem s) a" and ?b = "wstr (mem s) b"
  obtain v where v: "u32_collate ic ?a ?b = Some v" "r = word_of_int v"
    using assms False by (auto simp: lstrcmp_w_def u32_wstr_eq_def coll_text_def Let_def)
  then obtain ka kb where k: "u32_sortkey ic ?a = Some ka" "u32_sortkey ic ?b = Some kb" by (auto simp: u32_collate_def split: option.splits)
  show ?thesis using v collate_order [OF k] keys_equal [OF k] by (auto split: if_splits)
qed

end
