(* ===== verification/Aret_System.thy ===== *)
theory Aret_System
  imports Aret_Prelude
begin

text \<open>
  Small system services of \<^verbatim>\<open>aret_win32.c\<close>: the interlocked operations (1078 to 1100), the calendar behind
  \<^verbatim>\<open>DosDateTimeToFileTime\<close> (1655 to 1686), \<^verbatim>\<open>CompareFileTime\<close> (11713) and the structure of security identifiers (11548 to
  11588). The packed DOS date gives the exact number of 100 ns ticks of the Gregorian calendar; a copied identifier
  equals its source.
\<close>

section \<open>Interlocked operations\<close>

text \<open>One fiber runs at a time, so an atomic operation is a read and a write.\<close>

definition rmw :: "u32 \<Rightarrow> (u32 \<Rightarrow> u32) \<Rightarrow> 'a hle_scheme \<Rightarrow> 'a hle_scheme" where
  "rmw p f s = s\<lparr>mem := st32 (mem s) p (f (ld32 (mem s) p))\<rparr>"

definition aret_InterlockedIncrement :: "u32 \<Rightarrow> 'a hle_scheme \<Rightarrow> u32 \<times> 'a hle_scheme" where
  "aret_InterlockedIncrement esp s = (let p = WU esp 0 s in (ld32 (mem s) p + 1, rmw p (\<lambda>v. v + 1) s))"

definition aret_InterlockedDecrement :: "u32 \<Rightarrow> 'a hle_scheme \<Rightarrow> u32 \<times> 'a hle_scheme" where
  "aret_InterlockedDecrement esp s = (let p = WU esp 0 s in (ld32 (mem s) p - 1, rmw p (\<lambda>v. v - 1) s))"

definition aret_InterlockedExchangeAdd :: "u32 \<Rightarrow> 'a hle_scheme \<Rightarrow> u32 \<times> 'a hle_scheme" where
  "aret_InterlockedExchangeAdd esp s = (let p = WU esp 0 s in (ld32 (mem s) p, rmw p (\<lambda>v. v + WU esp 1 s) s))"

definition aret_InterlockedExchange :: "u32 \<Rightarrow> 'a hle_scheme \<Rightarrow> u32 \<times> 'a hle_scheme" where
  "aret_InterlockedExchange esp s = (let p = WU esp 0 s in (ld32 (mem s) p, rmw p (\<lambda>_. WU esp 1 s) s))"

text \<open>A failed exchange does not write.\<close>

definition aret_InterlockedCompareExchange :: "u32 \<Rightarrow> 'a hle_scheme \<Rightarrow> u32 \<times> 'a hle_scheme" where
  "aret_InterlockedCompareExchange esp s = (let p = WU esp 0 s; old = ld32 (mem s) p in
     (old, if old = WU esp 2 s then rmw p (\<lambda>_. WU esp 1 s) s else s))"

section \<open>The calendar\<close>

text \<open>Days since 1970-01-01. The year is an \<^verbatim>\<open>int\<close>, the unsigned parts are words.\<close>

definition aret_days_from_civil :: "int \<Rightarrow> u32 \<Rightarrow> u32 \<Rightarrow> int" where
  "aret_days_from_civil y m d = (let y = c_int (y - of_bool (m \<le> 2)); era = (if y \<ge> 0 then y div 400 else - ((399 - y) div 400));
       yoe = (word_of_int (y - era * 400) :: u32);
       doy = (153 * (m + (if m > 2 then - 3 else 9)) + 2) div 5 + d - 1;
       doe = yoe * 365 + yoe div 4 - yoe div 100 + doy
     in era * 146097 + uint doe - 719468)"

definition aret_DosDateTimeToFileTime :: "u32 \<Rightarrow> 'a hle_scheme \<Rightarrow> u32 \<times> 'a hle_scheme" where
  "aret_DosDateTimeToFileTime esp s = (let d = WU esp 0 s AND 0xFFFF; t = WU esp 1 s AND 0xFFFF; ft = WU esp 2 s;
       year = sint (drop_bit 9 d AND 0x7F) + 1980; mon = drop_bit 5 d AND 0xF; day = d AND 0x1F;
       hour = drop_bit 11 t AND 0x1F; mnt = drop_bit 5 t AND 0x3F; sec = (t AND 0x1F) * 2;
       mon = (if mon < 1 then 1 else mon); day = (if day < 1 then 1 else day);
       days = aret_days_from_civil year mon day;
       secs = days * 86400 + uint hour * 3600 + uint mnt * 60 + uint sec;
       ticks = (word_of_int (secs + 11644473600) :: 64 word) * 10000000
     in (1, if ft = 0 then s else s\<lparr>mem := st_dwords (mem s) ft [ucast ticks, ucast (drop_bit 32 ticks)]\<rparr>))"

definition ft_value :: "guest_mem \<Rightarrow> u32 \<Rightarrow> 64 word" where
  "ft_value m p = push_bit 32 (ucast (ld32 m (p + 4))) OR ucast (ld32 m p)"

definition aret_CompareFileTime :: "u32 \<Rightarrow> 'a hle_scheme \<Rightarrow> u32" where
  "aret_CompareFileTime esp s = (let a = WU esp 0 s; b = WU esp 1 s in if a = 0 \<or> b = 0 then 0
     else let va = ft_value (mem s) a; vb = ft_value (mem s) b in if va < vb then - 1 else if va > vb then 1 else 0)"

section \<open>Security identifiers\<close>

definition u32_sid_len :: "guest_mem \<Rightarrow> u32 \<Rightarrow> nat" where
  "u32_sid_len m sid = 8 + 4 * unat (m (sid + 1))"

text \<open>Revision, count and authority; the authority is copied from the caller's six bytes.\<close>

definition sid_head :: "guest_mem \<Rightarrow> u32 \<Rightarrow> u8 \<Rightarrow> u32 \<Rightarrow> guest_mem" where
  "sid_head m sid count auth = (let m = m(sid := 1, sid + 1 := count) in st_bytes m (sid + 2) (ld_bytes m auth 6))"

definition aret_AllocateAndInitializeSid :: "(u32 \<Rightarrow> u32) \<Rightarrow> u32 \<Rightarrow> 'a hle_scheme \<Rightarrow> u32 \<times> 'a hle_scheme" where
  "aret_AllocateAndInitializeSid malloc esp s = (let auth = WU esp 0 s; count = WU esp 1 s AND 0xFF; pSid = WU esp 10 s in
     if auth = 0 \<or> pSid = 0 \<or> count > 8 then (0, s)
     else let sid = malloc (8 + 4 * count) in if sid = 0 then (0, s)
     else let m = sid_head (mem s) sid (ucast count) auth;
              m = fold (\<lambda>i m. st32 m (sid + 8 + 4 * of_nat i) (ld32 m (esp + 4 * of_nat (2 + i)))) [0..<unat count] m
          in (1, s\<lparr>mem := st32 m pSid sid\<rparr>))"

definition aret_InitializeSid :: "u32 \<Rightarrow> 'a hle_scheme \<Rightarrow> u32 \<times> 'a hle_scheme" where
  "aret_InitializeSid esp s = (let sid = WU esp 0 s; auth = WU esp 1 s in if sid = 0 \<or> auth = 0 then (0, s)
     else (1, s\<lparr>mem := sid_head (mem s) sid (ucast (WU esp 2 s AND 0xFF)) auth\<rparr>))"

definition aret_GetLengthSid :: "u32 \<Rightarrow> 'a hle_scheme \<Rightarrow> u32" where
  "aret_GetLengthSid esp s = (let p = WU esp 0 s in if p = 0 then 0 else of_nat (u32_sid_len (mem s) p))"

definition aret_GetSidLengthRequired :: "u32 \<Rightarrow> 'a hle_scheme \<Rightarrow> u32" where
  "aret_GetSidLengthRequired esp s = 8 + 4 * (WU esp 0 s AND 0xFF)"

definition aret_IsValidSid :: "u32 \<Rightarrow> 'a hle_scheme \<Rightarrow> u32" where
  "aret_IsValidSid esp s = (let p = WU esp 0 s in of_bool (p \<noteq> 0 \<and> mem s p = 1 \<and> mem s (p + 1) \<le> 15))"

definition aret_EqualSid :: "u32 \<Rightarrow> 'a hle_scheme \<Rightarrow> u32" where
  "aret_EqualSid esp s = (let a = WU esp 0 s; b = WU esp 1 s in if a = 0 \<or> b = 0 then 0
     else let la = u32_sid_len (mem s) a in of_bool (la = u32_sid_len (mem s) b \<and> ld_bytes (mem s) a la = ld_bytes (mem s) b la))"

definition aret_GetSidSubAuthorityCount :: "u32 \<Rightarrow> 'a hle_scheme \<Rightarrow> u32" where
  "aret_GetSidSubAuthorityCount esp s = (if WU esp 0 s \<noteq> 0 then WU esp 0 s + 1 else 0)"

definition aret_GetSidSubAuthority :: "u32 \<Rightarrow> 'a hle_scheme \<Rightarrow> u32" where
  "aret_GetSidSubAuthority esp s = (if WU esp 0 s \<noteq> 0 then WU esp 0 s + 8 + 4 * WU esp 1 s else 0)"

definition aret_GetSidIdentifierAuthority :: "u32 \<Rightarrow> 'a hle_scheme \<Rightarrow> u32" where
  "aret_GetSidIdentifierAuthority esp s = (if WU esp 0 s \<noteq> 0 then WU esp 0 s + 2 else 0)"

definition aret_CopySid :: "u32 \<Rightarrow> 'a hle_scheme \<Rightarrow> u32 \<times> 'a hle_scheme" where
  "aret_CopySid esp s = (let cap = WU esp 0 s; dst = WU esp 1 s; src = WU esp 2 s in if dst = 0 \<or> src = 0 then (0, s)
     else let n = u32_sid_len (mem s) src in if of_nat n > cap then (0, s)
     else (1, s\<lparr>mem := st_bytes (mem s) dst (ld_bytes (mem s) src n)\<rparr>))"

section \<open>A copied identifier equals its source\<close>

lemma sid_len_small: "u32_sid_len m p < 2 ^ 32" "8 \<le> u32_sid_len m p"
  using unsigned_less [of "m (p + 1)", where 'a = nat] by (auto simp: u32_sid_len_def)

text \<open>
  After a copy that succeeds, into a place apart from the source, \<^verbatim>\<open>EqualSid\<close> on the two answers yes. The two calls may
  have their arguments at different places.
\<close>

theorem copied_sid_is_equal:
  assumes "fst (aret_CopySid esp s) = 1" "s' = snd (aret_CopySid esp s)"
    and "dst = WU esp 1 s" "src = WU esp 2 s" "n = u32_sid_len (mem s) src"
    and apart: "\<And>i j. i < n \<Longrightarrow> j < n \<Longrightarrow> dst + of_nat i \<noteq> src + of_nat j"
    and "WU esp' 0 s' = dst" "WU esp' 1 s' = src"
  shows "aret_EqualSid esp' s' = 1"
proof -
  have ok: "dst \<noteq> 0" "src \<noteq> 0" and m: "mem s' = st_bytes (mem s) dst (ld_bytes (mem s) src n)"
    using assms(1-5) by (auto simp: aret_CopySid_def Let_def split: if_splits)
  have d: "ld_bytes (mem s') dst n = ld_bytes (mem s) src n"
    using ld_bytes_st_bytes [of "ld_bytes (mem s) src n" "mem s" dst] sid_len_small(1) [of "mem s" src] m assms(5) by simp
  have same: "mem s' (src + of_nat j) = mem s (src + of_nat j)" if "j < n" for j
    unfolding m by (rule st_bytes_other) (use apart [OF _ that] in \<open>auto dest: sym\<close>)
  then have e: "ld_bytes (mem s') src n = ld_bytes (mem s) src n" by (rule ld_bytes_cong)
  have 1: "1 < n" using sid_len_small(2) [of "mem s" src] assms(5) by simp
  then have "mem s' (dst + 1) = mem s (src + 1)" using d ld_bytes_nth [of 1 n] by (metis of_nat_1)
  then have "u32_sid_len (mem s') dst = n" "u32_sid_len (mem s') src = n"
    using same [OF 1] assms(5) by (simp_all add: u32_sid_len_def)
  then show ?thesis using ok d e assms(7,8) by (simp add: aret_EqualSid_def Let_def)
qed

section \<open>The calendar is exact\<close>

definition leap :: "nat \<Rightarrow> bool" where
  "leap y \<longleftrightarrow> 4 dvd y \<and> (\<not> 100 dvd y \<or> 400 dvd y)"

definition month_len :: "nat \<Rightarrow> nat \<Rightarrow> int" where
  "month_len y m = (if m = 2 then 28 + of_bool (leap y) else if m \<in> {4, 6, 9, 11} then 30 else 31)"

text \<open>The reference: days since 1601-01-01, by counting whole years and whole months.\<close>

definition year_days :: "nat \<Rightarrow> int" where
  "year_days y = (\<Sum>k = 1601..<y. 365 + of_bool (leap k))"

definition day_number :: "nat \<Rightarrow> nat \<Rightarrow> nat \<Rightarrow> int" where
  "day_number y m d = year_days y + (\<Sum>k = 1..<m. month_len y k) + int d - 1"

definition leaps :: "nat \<Rightarrow> int" where
  "leaps y = int (y div 4) - int (y div 100) + int (y div 400)"

lemma leaps_count: "(c \<Longrightarrow> b) \<Longrightarrow> (b \<Longrightarrow> a) \<Longrightarrow>
    int (p + of_bool a) - int (q + of_bool b) + int (r + of_bool c) = int p - int q + int r + of_bool (a \<and> (\<not> b \<or> c))"
  by (cases a; cases b; cases c) simp_all

lemma leaps_step: "leaps (Suc y) = leaps y + of_bool (leap (Suc y))"
proof -
  have d: "Suc y div k = y div k + of_bool (k dvd Suc y)" for k unfolding div_Suc by (simp add: mod_eq_0_iff_dvd)
  show ?thesis unfolding leaps_def leap_def d by (rule leaps_count; rule dvd_trans [rotated], assumption, simp)
qed

lemma year_days_eq: "1601 \<le> y \<Longrightarrow> year_days y = 365 * (int y - 1601) + leaps (y - 1) - leaps 1600"
proof (induction y rule: dec_induct)
  case (step y)
  then obtain z where "y = Suc z" by (cases y) auto
  then show ?case using step leaps_step [of z] by (simp add: year_days_def algebra_simps)
qed (simp add: year_days_def)

text \<open>The days before a month, counted from the first of March.\<close>

lemma march_days:
  assumes "1 \<le> m" "m \<le> 12"
  shows "(\<Sum>k = 1..<m. month_len y k) =
    (if m \<le> 2 then (153 * (int m + 9) + 2) div 5 - 306 else (153 * (int m - 3) + 2) div 5 + 59 + of_bool (leap y))"
proof -
  have "m = 1 \<or> m = 2 \<or> m = 3 \<or> m = 4 \<or> m = 5 \<or> m = 6 \<or> m = 7 \<or> m = 8 \<or> m = 9 \<or> m = 10 \<or> m = 11 \<or> m = 12" using assms by presburger
  then show ?thesis by (elim disjE; simp add: month_len_def numeral_eq_Suc atLeastLessThanSuc)
qed

text \<open>The unsigned arithmetic of the code does not wrap for a date of the calendar.\<close>

lemma word_div_nat: "a < 2 ^ 32 \<Longrightarrow> b < 2 ^ 32 \<Longrightarrow> (of_nat a :: u32) div of_nat b = of_nat (a div b)"
  by (simp add: word_unat_eq_iff unat_div unat_of_nat) (metis div_le_dividend le_less_trans mod_less)

lemma uint_of_nat_small: "n < 2 ^ 32 \<Longrightarrow> uint (of_nat n :: u32) = int n"
  by (simp add: unsigned_of_nat take_bit_eq_mod)

lemma doy_exact:
  assumes "1 \<le> m" "m \<le> 12" "1 \<le> d" "d \<le> 31"
  shows "(153 * (of_nat m + (if (of_nat m :: u32) > 2 then - 3 else 9)) + 2) div 5 + of_nat d - 1 =
    (of_nat ((153 * (if m \<le> 2 then m + 9 else m - 3) + 2) div 5 + d - 1) :: u32)"
proof -
  let ?A = "153 * (if m \<le> 2 then m + 9 else m - 3) + 2"
  have g: "(of_nat m :: u32) > 2 \<longleftrightarrow> m > 2" using assms by (simp add: word_less_nat_alt unat_of_nat)
  have "(of_nat m + (if (of_nat m :: u32) > 2 then - 3 else 9) :: u32) = of_nat (if m \<le> 2 then m + 9 else m - 3)"
    using g by auto
  then have e: "153 * (of_nat m + (if (of_nat m :: u32) > 2 then - 3 else 9)) + 2 = (of_nat ?A :: u32)"
    by (simp only: of_nat_add of_nat_mult of_nat_numeral)
  have A: "?A < 2 ^ 32" using assms by auto
  have q: "(of_nat ?A :: u32) div 5 = of_nat (?A div 5)" by (rule word_div_nat [OF A, of 5, unfolded of_nat_numeral]) simp
  have "(of_nat (?A div 5 + d - 1) :: u32) = of_nat (?A div 5 + (d - 1))" using assms(3) by (simp only: diff_add_assoc)
  also have "\<dots> = of_nat (?A div 5) + of_nat d - 1" using assms(3) by (simp only: of_nat_add of_nat_diff of_nat_1 add_diff_eq)
  finally show ?thesis unfolding e q by simp
qed

lemma doe_exact:
  assumes "Y < 400" "x < 400"
  shows "uint ((of_nat Y :: u32) * 365 + of_nat Y div 4 - of_nat Y div 100 + of_nat x) = int Y * 365 + int (Y div 4) - int (Y div 100) + int x"
proof -
  let ?N = "Y * 365 + Y div 4 - Y div 100 + x"
  have q: "(of_nat Y :: u32) div 4 = of_nat (Y div 4)" "(of_nat Y :: u32) div 100 = of_nat (Y div 100)"
    using word_div_nat [of Y 4] word_div_nat [of Y 100] assms by simp_all
  have le: "Y div 100 \<le> Y * 365 + Y div 4" by (simp add: div_le_dividend le_trans [OF div_le_dividend])
  have e: "(of_nat Y :: u32) * 365 + of_nat Y div 4 - of_nat Y div 100 + of_nat x = of_nat ?N"
    unfolding q using le by simp
  have "uint (of_nat ?N :: u32) = int ?N" using assms by (intro uint_of_nat_small) simp
  also have "\<dots> = int Y * 365 + int (Y div 4) - int (Y div 100) + int x" using le by (simp only: of_nat_add of_nat_diff of_nat_mult of_nat_numeral)
  finally show ?thesis unfolding e .
qed

lemma era_split: "int (Y div 400) * 146097 + (int (Y mod 400) * 365 + int (Y mod 400 div 4) - int (Y mod 400 div 100)) = 365 * int Y + leaps Y"
proof -
  define q r where "q = Y div 400" and "r = Y mod 400"
  have Y: "Y = 400 * q + r" by (simp add: q_def r_def)
  have "Y div 4 = 100 * q + r div 4" "Y div 100 = 4 * q + r div 100"
    using div_mult_self4 [of 4 "100 * q" r] div_mult_self4 [of 100 "4 * q" r] unfolding Y by simp_all
  then show ?thesis unfolding leaps_def q_def [symmetric] r_def [symmetric] using Y by simp
qed

lemma days_core:
  assumes "c_int (y - of_bool (m \<le> 2)) = int Y" "(153 * (m + (if m > 2 then - 3 else 9)) + 2) div 5 + d - 1 = of_nat X" "X < 400"
  shows "aret_days_from_civil y m d = 365 * int Y + leaps Y + int X - 719468"
proof -
  have "int Y - int Y div 400 * 400 = int (Y mod 400)" by (simp only: minus_div_mult_eq_mod of_nat_mod of_nat_numeral)
  then have yoe: "(word_of_int (int Y - int Y div 400 * 400) :: u32) = of_nat (Y mod 400)"
    by (simp only: of_int_of_nat_eq)
  have "aret_days_from_civil y m d = int Y div 400 * 146097 +
      uint (of_nat (Y mod 400) * 365 + of_nat (Y mod 400) div 4 - of_nat (Y mod 400) div 100 + of_nat X :: u32) - 719468"
    by (simp only: aret_days_from_civil_def Let_def assms(1,2) of_nat_0_le_iff if_True yoe)
  also have "\<dots> = int (Y div 400) * 146097 + (int (Y mod 400) * 365 + int (Y mod 400 div 4) - int (Y mod 400 div 100)) + int X - 719468"
    using doe_exact [of "Y mod 400" X] assms(3) by (simp only: of_nat_div of_nat_numeral)
  finally show ?thesis by (simp only: era_split)
qed

text \<open>For dates from 1601 on, valid in the calendar, the routine gives the reference number, moved to 1970.\<close>

lemma days_from_civil_exact:
  assumes "1601 \<le> y" "y < 2 ^ 30" "1 \<le> m" "m \<le> 12" "1 \<le> d" "d \<le> 31"
  shows "aret_days_from_civil (int y) (of_nat m) (of_nat d) = day_number y m d - 134774"
proof -
  have le: "(of_nat m :: u32) \<le> 2 \<longleftrightarrow> m \<le> 2" using assms by (simp add: word_le_nat_alt unat_of_nat)
  note doy = doy_exact [OF assms(3-6)]
  have l: "leaps 1600 = 388" by (simp add: leaps_def)
  have x: "(153 * (if m \<le> 2 then m + 9 else m - 3) + 2) div 5 + d - 1 < 400" using assms by auto
  show ?thesis
  proof (cases "m \<le> 2")
    case True
    have "aret_days_from_civil (int y) (of_nat m) (of_nat d) = 365 * int (y - 1) + leaps (y - 1) + int ((153 * (m + 9) + 2) div 5 + d - 1) - 719468"
      using days_core [OF _ doy x, of "int y" "y - 1"] True le assms(1,2) c_int_id [of "int y - 1"] by simp
    then show ?thesis using True year_days_eq [OF assms(1)] march_days [OF assms(3,4), of y] l assms(1,5)
      by (simp add: day_number_def zdiv_int of_nat_diff)
  next
    case False
    have "aret_days_from_civil (int y) (of_nat m) (of_nat d) = 365 * int y + leaps y + int ((153 * (m - 3) + 2) div 5 + d - 1) - 719468"
      using days_core [OF _ doy x, of "int y" y] False le assms(1,2) c_int_id [of "int y"] by simp
    moreover have "leaps y = leaps (y - 1) + of_bool (leap y)" using leaps_step [of "y - 1"] assms(1) by simp
    ultimately show ?thesis using False year_days_eq [OF assms(1)] march_days [OF assms(3,4), of y] l assms(1,5)
      by (simp add: day_number_def zdiv_int of_nat_diff)
  qed
qed

text \<open>The fields of a packed number.\<close>

lemma field_value:
  assumes "N < 2 ^ 32"
  shows "drop_bit k (of_nat N :: u32) AND mask n = of_nat (N div 2 ^ k mod 2 ^ n)"
proof -
  have lt: "N div 2 ^ k mod 2 ^ n < 2 ^ 32" using assms by (meson div_le_dividend le_less_trans mod_less_eq_dividend)
  have N: "unat (of_nat M :: u32) = M" if "M < 2 ^ 32" for M using that by (simp add: unat_of_nat)
  have "unat (drop_bit k (of_nat N :: u32) AND mask n) = take_bit n (drop_bit k N)"
    unfolding take_bit_eq_mask [symmetric] unsigned_take_bit_eq unsigned_drop_bit_eq N [OF assms]
    using take_bit_nat_eq_self [OF assms] by simp
  also have "\<dots> = unat (of_nat (N div 2 ^ k mod 2 ^ n) :: u32)" unfolding N [OF lt] take_bit_eq_mod drop_bit_eq_div ..
  finally show ?thesis by (rule word_unat_eq_iff [THEN iffD2])
qed

lemmas field0 = field_value [of _ 0, unfolded drop_bit_0 id_apply power_0 div_by_1]

lemma masks: "(0xFFFF :: u32) = mask 16" "(0x7F :: u32) = mask 7" "(0xF :: u32) = mask 4" "(0x1F :: u32) = mask 5" "(0x3F :: u32) = mask 6"
  by (simp_all add: mask_eq_exp_minus_1)

definition pack_date :: "nat \<Rightarrow> nat \<Rightarrow> nat \<Rightarrow> nat" where
  "pack_date y m d = d + 2 ^ 5 * (m + 2 ^ 4 * (y - 1980))"

definition pack_time :: "nat \<Rightarrow> nat \<Rightarrow> nat \<Rightarrow> nat" where
  "pack_time h mi sec = sec div 2 + 2 ^ 5 * (mi + 2 ^ 6 * h)"

lemma unpack3:
  fixes a b c :: nat
  assumes "a < 2 ^ i" "b < 2 ^ j"
  defines "N \<equiv> a + 2 ^ i * (b + 2 ^ j * c)"
  shows "N mod 2 ^ i = a" "N div 2 ^ i mod 2 ^ j = b" "N div 2 ^ (i + j) = c"
proof -
  have q: "N div 2 ^ i = b + 2 ^ j * c" using assms(1) by (simp add: N_def)
  show "N mod 2 ^ i = a" using assms(1) by (simp add: N_def)
  show "N div 2 ^ i mod 2 ^ j = b" unfolding q using assms(2) by simp
  show "N div 2 ^ (i + j) = c" unfolding power_add div_mult2_eq q using assms(2) by simp
qed

lemma unpack_date:
  assumes "1980 \<le> y" "y \<le> 2107" "m < 16" "d < 32"
  shows "pack_date y m d < 2 ^ 16" "pack_date y m d div 2 ^ 9 mod 2 ^ 7 = y - 1980" "pack_date y m d div 2 ^ 5 mod 2 ^ 4 = m" "pack_date y m d mod 2 ^ 5 = d"
proof -
  have y: "y - 1980 < 128" using assms by simp
  then show "pack_date y m d < 2 ^ 16" using assms by (simp add: pack_date_def)
  note u = unpack3 [of d 5 m 4 "y - 1980", folded pack_date_def]
  show "pack_date y m d mod 2 ^ 5 = d" "pack_date y m d div 2 ^ 5 mod 2 ^ 4 = m" using u(1,2) assms by simp_all
  have "pack_date y m d div 2 ^ 9 = y - 1980" using u(3) assms by simp
  then show "pack_date y m d div 2 ^ 9 mod 2 ^ 7 = y - 1980" using y by simp
qed

lemma unpack_time:
  assumes "h < 24" "mi < 60" "sec < 60"
  shows "pack_time h mi sec < 2 ^ 16" "pack_time h mi sec div 2 ^ 11 mod 2 ^ 5 = h" "pack_time h mi sec div 2 ^ 5 mod 2 ^ 6 = mi" "pack_time h mi sec mod 2 ^ 5 = sec div 2"
proof -
  show "pack_time h mi sec < 2 ^ 16" using assms by (simp add: pack_time_def)
  note u = unpack3 [of "sec div 2" 5 mi 6 h, folded pack_time_def]
  show "pack_time h mi sec mod 2 ^ 5 = sec div 2" "pack_time h mi sec div 2 ^ 5 mod 2 ^ 6 = mi" using u(1,2) assms by simp_all
  have "pack_time h mi sec div 2 ^ 11 = h" using u(3) assms by simp
  then show "pack_time h mi sec div 2 ^ 11 mod 2 ^ 5 = h" using assms by simp
qed

lemma low_half: "N < 2 ^ 16 \<Longrightarrow> (of_nat N :: u32) AND 0xFFFF = of_nat N"
  unfolding masks using field0 [of N 16] by simp

lemma ft_value_stored: "ft_value (st_dwords m p [ucast t, ucast (drop_bit 32 t)]) p = (t :: 64 word)"
proof -
  have l: "ld32 (st_dwords m p [a, b]) p = a" "ld32 (st_dwords m p [a, b]) (p + 4) = b" for a b
    using ld32_st_dwords [of 0 "[a, b]" m p] ld32_st_dwords [of 1 "[a, b]" m p] by (simp_all del: st_dwords.simps)
  show ?thesis unfolding ft_value_def l
    by (rule bit_word_eqI) (auto simp: bit_or_iff bit_push_bit_iff bit_ucast_iff bit_drop_bit_eq)
qed

lemma day_number_bound:
  assumes "1980 \<le> y" "y \<le> 2107" "1 \<le> m" "m \<le> 12" "1 \<le> d" "d \<le> 31"
  shows "0 \<le> day_number y m d" "day_number y m d < 200000"
proof -
  have "0 \<le> month_len y k" "month_len y k \<le> 31" for k by (auto simp: month_len_def)
  then have "0 \<le> (\<Sum>k = 1..<m. month_len y k)" "(\<Sum>k = 1..<m. month_len y k) \<le> of_nat (card {1..<m}) * 31"
    by (simp add: sum_nonneg, intro sum_bounded_above) blast
  moreover have "0 \<le> year_days y" by (auto simp: year_days_def intro: sum_nonneg)
  moreover have "year_days y \<le> of_nat (card {1601..<y}) * 366" unfolding year_days_def by (rule sum_bounded_above) auto
  ultimately show "0 \<le> day_number y m d" "day_number y m d < 200000" using assms by (auto simp: day_number_def)
qed

lemma date_fields:
  assumes "1980 \<le> y" "y \<le> 2107" "m < 16" "d < 32"
  defines "D \<equiv> of_nat (pack_date y m d) :: u32"
  shows "drop_bit 9 (D AND 0xFFFF) AND 0x7F = of_nat (y - 1980)" "drop_bit 5 (D AND 0xFFFF) AND 0xF = of_nat m" "(D AND 0xFFFF) AND 0x1F = of_nat d"
proof -
  note u = unpack_date [OF assms(1-4)]
  have big: "pack_date y m d < 2 ^ 32" using u(1) by simp
  show "drop_bit 9 (D AND 0xFFFF) AND 0x7F = of_nat (y - 1980)" "drop_bit 5 (D AND 0xFFFF) AND 0xF = of_nat m" "(D AND 0xFFFF) AND 0x1F = of_nat d"
    unfolding D_def low_half [OF u(1)] unfolding masks field_value [OF big] field0 [OF big] u by simp_all
qed

lemma time_fields:
  assumes "h < 24" "mi < 60" "sec < 60"
  defines "T \<equiv> of_nat (pack_time h mi sec) :: u32"
  shows "drop_bit 11 (T AND 0xFFFF) AND 0x1F = of_nat h" "drop_bit 5 (T AND 0xFFFF) AND 0x3F = of_nat mi" "(T AND 0xFFFF) AND 0x1F = of_nat (sec div 2)"
proof -
  note u = unpack_time [OF assms(1-3)]
  have big: "pack_time h mi sec < 2 ^ 32" using u(1) by simp
  show "drop_bit 11 (T AND 0xFFFF) AND 0x1F = of_nat h" "drop_bit 5 (T AND 0xFFFF) AND 0x3F = of_nat mi" "(T AND 0xFFFF) AND 0x1F = of_nat (sec div 2)"
    unfolding T_def low_half [OF u(1)] unfolding masks field_value [OF big] field0 [OF big] u by simp_all
qed

text \<open>
  C32: a valid date and time of the years 1980 to 2107, packed the MS-DOS way, is converted to the exact number of 100 ns
  ticks since 1601-01-01: the days counted year by year and month by month with the Gregorian leap rule, then the hours,
  the minutes and the even seconds. No intermediate computation wraps.
\<close>

theorem dos_time_exact:
  assumes "1980 \<le> y" "y \<le> 2107" "1 \<le> m" "m \<le> 12" "1 \<le> d" "d \<le> 31" "h < 24" "mi < 60" "sec < 60"
    and "WU esp 0 s = of_nat (pack_date y m d)" "WU esp 1 s = of_nat (pack_time h mi sec)" "WU esp 2 s \<noteq> 0"
  shows "uint (ft_value (mem (snd (aret_DosDateTimeToFileTime esp s))) (WU esp 2 s)) =
    (day_number y m d * 86400 + int h * 3600 + int mi * 60 + 2 * int (sec div 2)) * 10000000"
proof -
  have md: "m < 16" "d < 32" using assms by simp_all
  note fields = date_fields [OF assms(1,2) md, folded assms(10)] time_fields [OF assms(7-9), folded assms(11)]
  let ?S = "day_number y m d * 86400 + int h * 3600 + int mi * 60 + 2 * int (sec div 2)"
  have one: "((of_nat m :: u32) < 1) = False" "((of_nat d :: u32) < 1) = False" using assms(3-6) by (simp_all add: word_less_nat_alt unat_of_nat)
  have sn: "n < 2 ^ 31 \<Longrightarrow> sint (of_nat n :: u32) = int n" for n by (simp add: signed_of_nat signed_take_bit_int_eq_self)
  have yr: "sint (of_nat (y - 1980) :: u32) + 1980 = int y"
  proof -
    obtain k where "y = k + 1980" "k < 128" using assms(1,2) that [of "y - 1980"] by simp
    then show ?thesis using sn [of k] by simp
  qed
  have sc: "uint (of_nat (sec div 2) * 2 :: u32) = 2 * int (sec div 2)"
    using uint_of_nat_small [of "2 * (sec div 2)"] assms(9) by (simp add: mult.commute)
  have hm: "uint (of_nat h :: u32) = int h" "uint (of_nat mi :: u32) = int mi" using assms(7,8) by (simp_all add: uint_of_nat_small)
  have S: "(day_number y m d - 134774) * 86400 + int h * 3600 + int mi * 60 + 2 * int (sec div 2) + 11644473600 = ?S" by simp
  have days: "aret_days_from_civil (int y) (of_nat m) (of_nat d) = day_number y m d - 134774"
    by (rule days_from_civil_exact) (use assms in simp_all)
  have "mem (snd (aret_DosDateTimeToFileTime esp s)) = st_dwords (mem s) (WU esp 2 s)
      [ucast (word_of_int ?S * 10000000 :: 64 word), ucast (drop_bit 32 (word_of_int ?S * 10000000 :: 64 word))]"
    unfolding aret_DosDateTimeToFileTime_def Let_def fields one if_False yr days hm sc S using assms(12)
    by (simp only: snd_conv if_False) simp
  then have "uint (ft_value (mem (snd (aret_DosDateTimeToFileTime esp s))) (WU esp 2 s)) = uint (word_of_int (?S * 10000000) :: 64 word)"
    by (simp only: ft_value_stored of_int_mult of_int_numeral)
  also have "\<dots> = ?S * 10000000"
    using day_number_bound [OF assms(1-6)] assms(7-9) by (intro word_of_int_inverse [OF refl]) auto
  finally show ?thesis .
qed

text \<open>29 February 2000, 13:45:30.\<close>

theorem dos_time_exact_witness:
  "uint (ft_value (mem (snd (aret_DosDateTimeToFileTime 0x100 \<lparr>mem = st_dwords (\<lambda>_. 0) 0x100 [10333, 28079, 0x2000], g_last_error = 0\<rparr>))) 0x2000) =
    (145790 * 86400 + 13 * 3600 + 45 * 60 + 30) * 10000000"
proof -
  let ?s = "\<lparr>mem = st_dwords (\<lambda>_. 0) 0x100 [10333, 28079, 0x2000], g_last_error = 0\<rparr> :: hle"
  have w: "WU 0x100 0 ?s = 10333" "WU 0x100 1 ?s = 28079" "WU 0x100 2 ?s = 0x2000"
    using ld32_st_dwords [of 0 "[10333, 28079, 0x2000]" "\<lambda>_. 0" "0x100"] ld32_st_dwords [of 1 "[10333, 28079, 0x2000]" "\<lambda>_. 0" "0x100"]
      ld32_st_dwords [of 2 "[10333, 28079, 0x2000]" "\<lambda>_. 0" "0x100"] by (simp_all add: WU_def del: st_dwords.simps)
  have "day_number 2000 2 29 = 145790"
    using year_days_eq [of 2000] march_days [of 2 2000] by (simp add: day_number_def leaps_def)
  then show ?thesis using dos_time_exact [of 2000 2 29 13 45 30 "0x100" ?s] w by (simp add: pack_date_def pack_time_def del: st_dwords.simps)
qed

end
