(* ===== verification/Aret_Codepage.thy ===== *)
theory Aret_Codepage
  imports Aret_Prelude
begin

text \<open>
  Code pages: the tables for CP1252 and CP437 (\<^verbatim>\<open>cp1252_rev_table.h\<close>, \<^verbatim>\<open>cp437_tables.h\<close>), the conversions with their binary
  search (\<^verbatim>\<open>aret_win32.c\<close> 9931 to 9997) and \<^verbatim>\<open>MultiByteToWideChar\<close> and \<^verbatim>\<open>WideCharToMultiByte\<close> (\<^verbatim>\<open>aret_hle.c\<close> 3562
  to 3607). A locale states what a page is: a sorted reverse table that holds every byte of the forward one. On it the search is exact
  and text goes to wide characters and back unchanged.
\<close>

section \<open>The tables\<close>

definition ansi_hi :: "u16 list" where
  "ansi_hi = [
    0x20AC, 0x0081, 0x201A, 0x0192, 0x201E, 0x2026, 0x2020, 0x2021,
    0x02C6, 0x2030, 0x0160, 0x2039, 0x0152, 0x008D, 0x017D, 0x008F,
    0x0090, 0x2018, 0x2019, 0x201C, 0x201D, 0x2022, 0x2013, 0x2014,
    0x02DC, 0x2122, 0x0161, 0x203A, 0x0153, 0x009D, 0x017E, 0x0178]"

definition u32_ansi_cp :: "u8 \<Rightarrow> u32" where
  "u32_ansi_cp b = (if 0x80 \<le> b \<and> b \<le> 0x9F then ucast (ansi_hi ! unat (b - 0x80)) else ucast b)"

definition rev_tab :: "(nat \<times> nat) list \<Rightarrow> (u16 \<times> u8) list" where
  "rev_tab = map (\<lambda>(c, b). (of_nat c, of_nat b))"

text \<open>Rows in which the two numbers are the same.\<close>

definition same :: "nat \<Rightarrow> nat \<Rightarrow> (nat \<times> nat) list" where
  "same a b = map (\<lambda>n. (n, n)) [a..<b]"

definition cp1252_gap :: "(nat \<times> nat) list" where
  "cp1252_gap = [(129, 129), (141, 141), (143, 143), (144, 144), (157, 157)]"

definition cp1252_rows_1 :: "(nat \<times> nat) list" where
  "cp1252_rows_1 = [
    (256, 65), (257, 97), (258, 65), (259, 97), (260, 65), (261, 97), (262, 67), (263, 99), (264, 67), (265, 99), (266, 67),
    (267, 99), (268, 67), (269, 99), (270, 68), (271, 100), (272, 208), (273, 100), (274, 69), (275, 101), (276, 69),
    (277, 101), (278, 69), (279, 101), (280, 69), (281, 101), (282, 69), (283, 101), (284, 71), (285, 103), (286, 71),
    (287, 103), (288, 71), (289, 103), (290, 71), (291, 103), (292, 72), (293, 104), (294, 72), (295, 104), (296, 73),
    (297, 105), (298, 73), (299, 105), (300, 73), (301, 105), (302, 73), (303, 105), (304, 73), (305, 105), (308, 74),
    (309, 106), (310, 75), (311, 107), (313, 76), (314, 108), (315, 76), (316, 108), (317, 76), (318, 108), (321, 76),
    (322, 108), (323, 78), (324, 110), (325, 78), (326, 110), (327, 78), (328, 110), (332, 79), (333, 111), (334, 79),
    (335, 111), (336, 79), (337, 111), (338, 140), (339, 156), (340, 82), (341, 114), (342, 82), (343, 114), (344, 82),
    (345, 114), (346, 83), (347, 115), (348, 83), (349, 115), (350, 83), (351, 115), (352, 138), (353, 154), (354, 84),
    (355, 116), (356, 84), (357, 116), (358, 84), (359, 116), (360, 85), (361, 117), (362, 85), (363, 117)]"

definition cp1252_rows_2 :: "(nat \<times> nat) list" where
  "cp1252_rows_2 = [
    (364, 85), (365, 117), (366, 85), (367, 117), (368, 85), (369, 117), (370, 85), (371, 117), (372, 87), (373, 119),
    (374, 89), (375, 121), (376, 159), (377, 90), (378, 122), (379, 90), (380, 122), (381, 142), (382, 158), (384, 98),
    (393, 208), (401, 131), (402, 131), (407, 73), (410, 108), (415, 79), (416, 79), (417, 111), (427, 116), (430, 84),
    (431, 85), (432, 117), (438, 122), (448, 124), (451, 33), (461, 65), (462, 97), (463, 73), (464, 105), (465, 79),
    (466, 111), (467, 85), (468, 117), (469, 85), (470, 117), (471, 85), (472, 117), (473, 85), (474, 117), (475, 85),
    (476, 117), (478, 65), (479, 97), (484, 71), (485, 103), (486, 71), (487, 103), (488, 75), (489, 107), (490, 79),
    (491, 111), (492, 79), (493, 111), (496, 106), (609, 103), (697, 39), (698, 34), (700, 39), (708, 94), (710, 136),
    (712, 39), (713, 175), (714, 180), (715, 96), (717, 95), (730, 176), (732, 152), (768, 96), (769, 180), (770, 94),
    (771, 126), (772, 175), (773, 175), (776, 168), (778, 176), (782, 34), (807, 184), (817, 95), (818, 95), (894, 59),
    (915, 71), (920, 84), (931, 83), (934, 70), (937, 79), (945, 97), (946, 223), (948, 100), (949, 101), (956, 181)]"

definition cp1252_rows_3 :: "(nat \<times> nat) list" where
  "cp1252_rows_3 = [
    (960, 112), (963, 115), (964, 116), (966, 102), (1211, 104), (1417, 58), (1642, 37), (8192, 32), (8193, 32), (8194, 32),
    (8195, 32), (8196, 32), (8197, 32), (8198, 32), (8208, 45), (8209, 45), (8211, 150), (8212, 151), (8215, 61), (8216, 145),
    (8217, 146), (8218, 130), (8220, 147), (8221, 148), (8222, 132), (8224, 134), (8225, 135), (8226, 149), (8228, 183),
    (8230, 133), (8240, 137), (8242, 39), (8245, 96), (8249, 139), (8250, 155), (8260, 47), (8304, 176), (8308, 52),
    (8309, 53), (8310, 54), (8311, 55), (8312, 56), (8319, 110), (8320, 48), (8321, 49), (8322, 50), (8323, 51), (8324, 52),
    (8325, 53), (8326, 54), (8327, 55), (8328, 56), (8329, 57), (8353, 162), (8356, 163), (8359, 80), (8364, 128), (8450, 67),
    (8455, 69), (8458, 103), (8459, 72), (8460, 72), (8461, 72), (8462, 104), (8464, 73), (8465, 73), (8466, 76), (8467, 108),
    (8469, 78), (8472, 80), (8473, 80), (8474, 81), (8475, 82), (8476, 82), (8477, 82), (8482, 153), (8484, 90), (8488, 90),
    (8490, 75), (8491, 197), (8492, 66), (8493, 67), (8494, 101), (8495, 101), (8496, 69), (8497, 70), (8499, 77), (8500, 111),
    (8709, 216), (8722, 45), (8723, 177), (8725, 47), (8726, 92), (8727, 42), (8728, 176), (8729, 183), (8730, 118),
    (8734, 56), (8739, 124), (8745, 110)]"

definition cp1252_rows_4 :: "(nat \<times> nat) list" where
  "cp1252_rows_4 = [
    (8758, 58), (8764, 126), (8776, 152), (8801, 61), (8804, 61), (8805, 61), (8810, 171), (8811, 187), (8901, 183),
    (8962, 166), (8963, 94), (8976, 172), (8992, 40), (8993, 41), (9001, 60), (9002, 62), (9472, 45), (9474, 166), (9484, 43),
    (9488, 43), (9492, 43), (9496, 43), (9500, 43), (9508, 166), (9516, 45), (9524, 45), (9532, 43), (9552, 45), (9553, 166),
    (9554, 43), (9555, 43), (9556, 43), (9557, 43), (9558, 43), (9559, 43), (9560, 43), (9561, 43), (9562, 43), (9563, 43),
    (9564, 43), (9565, 43), (9566, 166), (9567, 166), (9568, 166), (9569, 166), (9570, 166), (9571, 166), (9572, 45),
    (9573, 45), (9574, 45), (9575, 45), (9576, 45), (9577, 45), (9578, 43), (9579, 43), (9580, 43), (9600, 175), (9604, 95),
    (9608, 166), (9612, 166), (9616, 166), (9617, 166), (9618, 166), (9619, 166), (9632, 166), (9788, 164), (10072, 124),
    (12288, 32), (12296, 60), (12297, 62), (12298, 171), (12299, 187), (12314, 91), (12315, 93), (12539, 183), (65281, 33),
    (65282, 34), (65283, 35), (65284, 36), (65285, 37), (65286, 38), (65287, 39), (65288, 40), (65289, 41), (65290, 42),
    (65291, 43), (65292, 44), (65293, 45), (65294, 46), (65295, 47), (65296, 48), (65297, 49), (65298, 50), (65299, 51),
    (65300, 52), (65301, 53), (65302, 54), (65303, 55), (65304, 56), (65305, 57)]"

definition cp1252_rows_5 :: "(nat \<times> nat) list" where
  "cp1252_rows_5 = [
    (65306, 58), (65307, 59), (65308, 60), (65309, 61), (65310, 62), (65312, 64), (65313, 65), (65314, 66), (65315, 67),
    (65316, 68), (65317, 69), (65318, 70), (65319, 71), (65320, 72), (65321, 73), (65322, 74), (65323, 75), (65324, 76),
    (65325, 77), (65326, 78), (65327, 79), (65328, 80), (65329, 81), (65330, 82), (65331, 83), (65332, 84), (65333, 85),
    (65334, 86), (65335, 87), (65336, 88), (65337, 89), (65338, 90), (65339, 91), (65340, 92), (65341, 93), (65342, 94),
    (65343, 95), (65344, 96), (65345, 97), (65346, 98), (65347, 99), (65348, 100), (65349, 101), (65350, 102), (65351, 103),
    (65352, 104), (65353, 105), (65354, 106), (65355, 107), (65356, 108), (65357, 109), (65358, 110), (65359, 111),
    (65360, 112), (65361, 113), (65362, 114), (65363, 115), (65364, 116), (65365, 117), (65366, 118), (65367, 119),
    (65368, 120), (65369, 121), (65370, 122), (65371, 123), (65372, 124), (65373, 125), (65374, 126)]"

definition cp1252_rows :: "(nat \<times> nat) list" where
  "cp1252_rows = same 0 128 @ cp1252_gap @ same 160 256 @ cp1252_rows_1 @ cp1252_rows_2 @ cp1252_rows_3 @ cp1252_rows_4 @ cp1252_rows_5"

definition aret_cp1252_rev_tab :: "(u16 \<times> u8) list" where
  "aret_cp1252_rev_tab = rev_tab cp1252_rows"

definition cp437_row :: "nat list" where
  "cp437_row = [
    0, 1, 2, 3, 4, 5, 6, 7, 8, 9, 10, 11, 12, 13, 14, 15, 16, 17, 18, 19, 20, 21, 22, 23, 24, 25, 26, 27, 28, 29, 30, 31, 32,
    33, 34, 35, 36, 37, 38, 39, 40, 41, 42, 43, 44, 45, 46, 47, 48, 49, 50, 51, 52, 53, 54, 55, 56, 57, 58, 59, 60, 61, 62, 63,
    64, 65, 66, 67, 68, 69, 70, 71, 72, 73, 74, 75, 76, 77, 78, 79, 80, 81, 82, 83, 84, 85, 86, 87, 88, 89, 90, 91, 92, 93, 94,
    95, 96, 97, 98, 99, 100, 101, 102, 103, 104, 105, 106, 107, 108, 109, 110, 111, 112, 113, 114, 115, 116, 117, 118, 119,
    120, 121, 122, 123, 124, 125, 126, 127, 199, 252, 233, 226, 228, 224, 229, 231, 234, 235, 232, 239, 238, 236, 196, 197,
    201, 230, 198, 244, 246, 242, 251, 249, 255, 214, 220, 162, 163, 165, 8359, 402, 225, 237, 243, 250, 241, 209, 170, 186,
    191, 8976, 172, 189, 188, 161, 171, 187, 9617, 9618, 9619, 9474, 9508, 9569, 9570, 9558, 9557, 9571, 9553, 9559, 9565,
    9564, 9563, 9488, 9492, 9524, 9516, 9500, 9472, 9532, 9566, 9567, 9562, 9556, 9577, 9574, 9568, 9552, 9580, 9575, 9576,
    9572, 9573, 9561, 9560, 9554, 9555, 9579, 9578, 9496, 9484, 9608, 9604, 9612, 9616, 9600, 945, 223, 915, 960, 931, 963,
    181, 964, 934, 920, 937, 948, 8734, 966, 949, 8745, 8801, 177, 8805, 8804, 8992, 8993, 247, 8776, 176, 8729, 183, 8730,
    8319, 178, 9632, 160]"

definition aret_cp437_fwd :: "u16 list" where
  "aret_cp437_fwd = map of_nat cp437_row"

definition cp437_rows_1 :: "(nat \<times> nat) list" where
  "cp437_rows_1 = [
    (160, 255), (161, 173), (162, 155), (163, 156), (164, 15), (165, 157), (166, 221), (167, 21), (168, 34), (169, 99),
    (170, 166), (171, 174), (172, 170), (173, 45), (174, 114), (175, 95), (176, 248), (177, 241), (178, 253), (179, 51),
    (180, 39), (181, 230), (182, 20), (183, 250), (184, 44), (185, 49), (186, 167), (187, 175), (188, 172), (189, 171),
    (190, 95), (191, 168), (192, 65), (193, 65), (194, 65), (195, 65), (196, 142), (197, 143), (198, 146), (199, 128),
    (200, 69), (201, 144), (202, 69), (203, 69), (204, 73), (205, 73), (206, 73), (207, 73), (208, 68), (209, 165), (210, 79),
    (211, 79), (212, 79), (213, 79), (214, 153), (215, 120), (216, 79), (217, 85), (218, 85), (219, 85), (220, 154), (221, 89),
    (222, 95), (223, 225), (224, 133), (225, 160), (226, 131), (227, 97), (228, 132), (229, 134), (230, 145), (231, 135),
    (232, 138), (233, 130), (234, 136), (235, 137), (236, 141), (237, 161), (238, 140), (239, 139), (240, 100), (241, 164),
    (242, 149), (243, 162), (244, 147), (245, 111), (246, 148), (247, 246), (248, 111), (249, 151), (250, 163), (251, 150),
    (252, 129), (253, 121), (254, 95), (255, 152), (256, 65), (257, 97), (258, 65), (259, 97)]"

definition cp437_rows_2 :: "(nat \<times> nat) list" where
  "cp437_rows_2 = [
    (260, 65), (261, 97), (262, 67), (263, 99), (264, 67), (265, 99), (266, 67), (267, 99), (268, 67), (269, 99), (270, 68),
    (271, 100), (272, 68), (273, 100), (274, 69), (275, 101), (276, 69), (277, 101), (278, 69), (279, 101), (280, 69),
    (281, 101), (282, 69), (283, 101), (284, 71), (285, 103), (286, 71), (287, 103), (288, 71), (289, 103), (290, 71),
    (291, 103), (292, 72), (293, 104), (294, 72), (295, 104), (296, 73), (297, 105), (298, 73), (299, 105), (300, 73),
    (301, 105), (302, 73), (303, 105), (304, 73), (305, 105), (308, 74), (309, 106), (310, 75), (311, 107), (313, 76),
    (314, 108), (315, 76), (316, 108), (317, 76), (318, 108), (321, 76), (322, 108), (323, 78), (324, 110), (325, 78),
    (326, 110), (327, 78), (328, 110), (332, 79), (333, 111), (334, 79), (335, 111), (336, 79), (337, 111), (338, 79),
    (339, 111), (340, 82), (341, 114), (342, 82), (343, 114), (344, 82), (345, 114), (346, 83), (347, 115), (348, 83),
    (349, 115), (350, 83), (351, 115), (352, 83), (353, 115), (354, 84), (355, 116), (356, 84), (357, 116), (358, 84),
    (359, 116), (360, 85), (361, 117), (362, 85), (363, 117), (364, 85), (365, 117), (366, 85), (367, 117)]"

definition cp437_rows_3 :: "(nat \<times> nat) list" where
  "cp437_rows_3 = [
    (368, 85), (369, 117), (370, 85), (371, 117), (372, 87), (373, 119), (374, 89), (375, 121), (376, 89), (377, 90),
    (378, 122), (379, 90), (380, 122), (381, 90), (382, 122), (384, 98), (393, 68), (401, 159), (402, 159), (407, 73),
    (410, 108), (415, 79), (416, 79), (417, 111), (425, 228), (427, 116), (430, 84), (431, 85), (432, 117), (438, 122),
    (448, 124), (451, 33), (461, 65), (462, 97), (463, 73), (464, 105), (465, 79), (466, 111), (467, 85), (468, 117),
    (469, 85), (470, 117), (471, 85), (472, 117), (473, 85), (474, 117), (475, 85), (476, 117), (478, 65), (479, 97),
    (484, 71), (485, 103), (486, 71), (487, 103), (488, 75), (489, 107), (490, 79), (491, 111), (492, 79), (493, 111),
    (496, 106), (609, 103), (632, 237), (697, 39), (698, 34), (700, 39), (708, 94), (710, 94), (712, 39), (713, 196),
    (714, 39), (715, 96), (717, 95), (730, 248), (732, 126), (768, 96), (769, 39), (770, 94), (771, 126), (772, 196),
    (776, 34), (778, 248), (782, 34), (807, 44), (817, 95), (818, 95), (894, 59), (913, 224), (915, 226), (916, 235),
    (917, 238), (920, 233), (928, 227), (931, 228), (932, 231), (934, 232), (937, 234), (945, 224), (946, 225), (948, 235)]"

definition cp437_rows_4 :: "(nat \<times> nat) list" where
  "cp437_rows_4 = [
    (949, 238), (956, 230), (960, 227), (963, 229), (964, 231), (966, 237), (1211, 104), (1417, 58), (1642, 37), (8192, 32),
    (8193, 32), (8194, 32), (8195, 32), (8196, 32), (8197, 32), (8198, 32), (8208, 45), (8209, 45), (8211, 45), (8212, 45),
    (8215, 95), (8216, 96), (8217, 39), (8218, 44), (8220, 34), (8221, 34), (8222, 44), (8224, 43), (8225, 216), (8226, 7),
    (8228, 250), (8230, 46), (8240, 37), (8242, 39), (8245, 96), (8249, 60), (8250, 62), (8252, 19), (8260, 47), (8304, 248),
    (8308, 52), (8309, 53), (8310, 54), (8311, 55), (8312, 56), (8319, 252), (8320, 48), (8321, 49), (8322, 50), (8323, 51),
    (8324, 52), (8325, 53), (8326, 54), (8327, 55), (8328, 56), (8329, 57), (8356, 156), (8359, 158), (8413, 9), (8450, 67),
    (8455, 69), (8458, 103), (8459, 72), (8460, 72), (8461, 72), (8462, 104), (8464, 73), (8465, 73), (8466, 76), (8467, 108),
    (8469, 78), (8472, 80), (8473, 80), (8474, 81), (8475, 82), (8476, 82), (8477, 82), (8482, 84), (8484, 90), (8486, 234),
    (8488, 90), (8490, 75), (8491, 143), (8492, 66), (8493, 67), (8494, 101), (8495, 101), (8496, 69), (8497, 70), (8499, 77),
    (8500, 111), (8592, 27), (8593, 24), (8594, 26), (8595, 25), (8596, 29), (8597, 18), (8616, 23), (8709, 237), (8721, 228)]"

definition cp437_rows_5 :: "(nat \<times> nat) list" where
  "cp437_rows_5 = [
    (8722, 45), (8723, 241), (8725, 47), (8726, 92), (8727, 42), (8728, 248), (8729, 249), (8730, 251), (8734, 236),
    (8735, 28), (8739, 124), (8745, 239), (8758, 58), (8764, 126), (8776, 247), (8801, 240), (8804, 243), (8805, 242),
    (8810, 174), (8811, 175), (8901, 250), (8962, 127), (8963, 94), (8976, 169), (8992, 244), (8993, 245), (9001, 60),
    (9002, 62), (9472, 196), (9474, 179), (9484, 218), (9488, 191), (9492, 192), (9496, 217), (9500, 195), (9508, 180),
    (9516, 194), (9524, 193), (9532, 197), (9552, 205), (9553, 186), (9554, 213), (9555, 214), (9556, 201), (9557, 184),
    (9558, 183), (9559, 187), (9560, 212), (9561, 211), (9562, 200), (9563, 190), (9564, 189), (9565, 188), (9566, 198),
    (9567, 199), (9568, 204), (9569, 181), (9570, 182), (9571, 185), (9572, 209), (9573, 210), (9574, 203), (9575, 207),
    (9576, 208), (9577, 202), (9578, 216), (9579, 215), (9580, 206), (9600, 223), (9604, 220), (9608, 219), (9612, 221),
    (9616, 222), (9617, 176), (9618, 177), (9619, 178), (9632, 254), (9644, 22), (9650, 30), (9658, 16), (9660, 31),
    (9668, 17), (9675, 9), (9688, 8), (9689, 10), (9786, 1), (9787, 2), (9788, 15), (9792, 12), (9794, 11), (9824, 6),
    (9827, 5), (9829, 3), (9830, 4), (9834, 13), (9835, 14), (10003, 251), (10072, 124), (12288, 32), (12295, 9)]"

definition cp437_rows_6 :: "(nat \<times> nat) list" where
  "cp437_rows_6 = [
    (12296, 60), (12297, 62), (12298, 174), (12299, 175), (12314, 91), (12315, 93), (12539, 250), (65281, 33), (65282, 34),
    (65283, 35), (65284, 36), (65285, 37), (65286, 38), (65287, 39), (65288, 40), (65289, 41), (65290, 42), (65291, 43),
    (65292, 44), (65293, 45), (65294, 46), (65295, 47), (65296, 48), (65297, 49), (65298, 50), (65299, 51), (65300, 52),
    (65301, 53), (65302, 54), (65303, 55), (65304, 56), (65305, 57), (65306, 58), (65307, 59), (65308, 60), (65309, 61),
    (65310, 62), (65312, 64), (65313, 65), (65314, 66), (65315, 67), (65316, 68), (65317, 69), (65318, 70), (65319, 71),
    (65320, 72), (65321, 73), (65322, 74), (65323, 75), (65324, 76), (65325, 77), (65326, 78), (65327, 79), (65328, 80),
    (65329, 81), (65330, 82), (65331, 83), (65332, 84), (65333, 85), (65334, 86), (65335, 87), (65336, 88), (65337, 89),
    (65338, 90), (65339, 91), (65340, 92), (65341, 93), (65342, 94), (65343, 95), (65344, 96), (65345, 97), (65346, 98),
    (65347, 99), (65348, 100), (65349, 101), (65350, 102), (65351, 103), (65352, 104), (65353, 105), (65354, 106),
    (65355, 107), (65356, 108), (65357, 109), (65358, 110), (65359, 111), (65360, 112), (65361, 113), (65362, 114),
    (65363, 115), (65364, 116), (65365, 117), (65366, 118), (65367, 119), (65368, 120), (65369, 121), (65370, 122),
    (65371, 123), (65372, 124), (65373, 125), (65374, 126)]"

definition cp437_rows :: "(nat \<times> nat) list" where
  "cp437_rows = same 0 128 @ cp437_rows_1 @ cp437_rows_2 @ cp437_rows_3 @ cp437_rows_4 @ cp437_rows_5 @ cp437_rows_6"

definition aret_cp437_rev_tab :: "(u16 \<times> u8) list" where
  "aret_cp437_rev_tab = rev_tab cp437_rows"

section \<open>Conversions\<close>

text \<open>The binary search; None where the code answers -1.\<close>

function rev_search :: "(u16 \<times> u8) list \<Rightarrow> u16 \<Rightarrow> int \<Rightarrow> int \<Rightarrow> u8 option" where
  "rev_search tab cp lo hi = (if lo \<le> hi then
     let m = (lo + hi) div 2; c = fst (tab ! nat m) in
       if c = cp then Some (snd (tab ! nat m))
       else if c < cp then rev_search tab cp (m + 1) hi else rev_search tab cp lo (m - 1)
   else None)"
  by pat_completeness auto
termination by (relation "measure (\<lambda>(tab, cp, lo, hi). nat (hi - lo + 1))") auto

declare rev_search.simps [simp del]

definition aret_cp1252_rev_byte :: "u16 \<Rightarrow> u8 option" where
  "aret_cp1252_rev_byte cp = rev_search aret_cp1252_rev_tab cp 0 (int (length aret_cp1252_rev_tab) - 1)"

definition aret_cp437_rev_byte :: "u16 \<Rightarrow> u8 option" where
  "aret_cp437_rev_byte cp = rev_search aret_cp437_rev_tab cp 0 (int (length aret_cp437_rev_tab) - 1)"

text \<open>The two loops over memory. The second also says whether a unit had no byte.\<close>

definition to_wc :: "(u8 \<Rightarrow> u16) \<Rightarrow> u32 \<Rightarrow> u32 \<Rightarrow> nat \<Rightarrow> guest_mem \<Rightarrow> guest_mem" where
  "to_wc f dst src n m = fold (\<lambda>i m. st16 m (dst + 2 * of_nat i) (f (m (src + of_nat i)))) [0..<n] m"

definition from_wc :: "(u16 \<Rightarrow> u8 option) \<Rightarrow> u32 \<Rightarrow> u32 \<Rightarrow> nat \<Rightarrow> guest_mem \<Rightarrow> guest_mem \<times> bool" where
  "from_wc f dst src n m = fold (\<lambda>i (m, used). case f (ld16 m (src + 2 * of_nat i)) of
       None \<Rightarrow> (m(dst + of_nat i := 0x3F), True)
     | Some b \<Rightarrow> (m(dst + of_nat i := b), used)) [0..<n] (m, False)"

definition aret_cp1252_to_wc :: "u32 \<Rightarrow> u32 \<Rightarrow> nat \<Rightarrow> guest_mem \<Rightarrow> guest_mem" where
  "aret_cp1252_to_wc = to_wc (\<lambda>b. ucast (u32_ansi_cp b))"

definition aret_cp437_to_wc :: "u32 \<Rightarrow> u32 \<Rightarrow> nat \<Rightarrow> guest_mem \<Rightarrow> guest_mem" where
  "aret_cp437_to_wc = to_wc (\<lambda>b. aret_cp437_fwd ! unat b)"

definition aret_cp1252_from_wc :: "u32 \<Rightarrow> u32 \<Rightarrow> nat \<Rightarrow> guest_mem \<Rightarrow> guest_mem \<times> bool" where
  "aret_cp1252_from_wc = from_wc aret_cp1252_rev_byte"

definition aret_cp437_from_wc :: "u32 \<Rightarrow> u32 \<Rightarrow> nat \<Rightarrow> guest_mem \<Rightarrow> guest_mem \<times> bool" where
  "aret_cp437_from_wc = from_wc aret_cp437_rev_byte"

text \<open>A negative number of units to write stores nothing. The text of another page is widened and cut.\<close>

definition aret_MultiByteToWideChar :: "u32 \<Rightarrow> 'a hle_scheme \<Rightarrow> u32 \<times> 'a hle_scheme" where
  "aret_MultiByteToWideChar esp s = (let cp = WU esp 0 s; src = WU esp 2 s; srclen = WI esp 3 s; dst = WU esp 4 s; dstlen = WI esp 5 s in
     if src = 0 then (0, s)
     else let n = (if srclen < 0 then int (length (cstr (mem s) src)) + 1 else srclen) in
     if dstlen = 0 \<or> dst = 0 then (word_of_int n, s)
     else let w = min n dstlen;
              m = (if cp = 0 \<or> cp = 1252 then aret_cp1252_to_wc dst src (nat w) (mem s)
                else if cp = 1 \<or> cp = 437 then aret_cp437_to_wc dst src (nat w) (mem s)
                else to_wc ucast dst src (nat w) (mem s))
          in (word_of_int w, s\<lparr>mem := m\<rparr>))"

definition aret_WideCharToMultiByte :: "u32 \<Rightarrow> 'a hle_scheme \<Rightarrow> u32 \<times> 'a hle_scheme" where
  "aret_WideCharToMultiByte esp s = (let cp = WU esp 0 s; src = WU esp 2 s; srclen = WI esp 3 s; dst = WU esp 4 s; dstlen = WI esp 5 s in
     if src = 0 then (0, s)
     else let n = (if srclen < 0 then int (length (wstr (mem s) src)) + 1 else srclen) in
     if dstlen = 0 \<or> dst = 0 then (word_of_int n, s)
     else let w = min n dstlen in
       if cp = 0 \<or> cp = 1252 \<or> cp = 1 \<or> cp = 437 then
         let (m, used) = (if cp = 1 \<or> cp = 437 then aret_cp437_from_wc dst src (nat w) (mem s) else aret_cp1252_from_wc dst src (nat w) (mem s));
             t = s\<lparr>mem := m\<rparr>
         in (word_of_int w, put32 (WU esp 7 t) (of_bool used) t)
       else (word_of_int w, s\<lparr>mem := fst (from_wc (\<lambda>c. Some (ucast c)) dst src (nat w) (mem s))\<rparr>))"

section \<open>The tables agree\<close>

text \<open>The rows of the forward tables above the identical part, grouped like the reverse tables.\<close>

definition cp1252_rows_fwd_1 :: "(nat \<times> nat) list" where
  "cp1252_rows_fwd_1 = [
    (352, 138), (338, 140), (353, 154), (339, 156)]"

definition cp1252_rows_fwd_2 :: "(nat \<times> nat) list" where
  "cp1252_rows_fwd_2 = [
    (402, 131), (710, 136), (381, 142), (732, 152), (382, 158), (376, 159)]"

definition cp1252_rows_fwd_3 :: "(nat \<times> nat) list" where
  "cp1252_rows_fwd_3 = [
    (8364, 128), (8218, 130), (8222, 132), (8230, 133), (8224, 134), (8225, 135), (8240, 137), (8249, 139), (8216, 145),
    (8217, 146), (8220, 147), (8221, 148), (8226, 149), (8211, 150), (8212, 151), (8482, 153), (8250, 155)]"

lemma cp1252_rows_in:
  "set cp1252_rows_fwd_1 \<subseteq> set cp1252_rows_1" "set cp1252_rows_fwd_2 \<subseteq> set cp1252_rows_2" "set cp1252_rows_fwd_3 \<subseteq> set cp1252_rows_3"
  by (simp_all add: cp1252_rows_fwd_1_def cp1252_rows_1_def cp1252_rows_fwd_2_def cp1252_rows_2_def cp1252_rows_fwd_3_def cp1252_rows_3_def)

lemma cp1252_rows_sorted:
  "successively (<) (map fst cp1252_rows_1)" "successively (<) (map fst cp1252_rows_2)" "successively (<) (map fst cp1252_rows_3)" "successively (<) (map fst cp1252_rows_4)" "successively (<) (map fst cp1252_rows_5)"
  by (simp_all add: cp1252_rows_1_def cp1252_rows_2_def cp1252_rows_3_def cp1252_rows_4_def cp1252_rows_5_def)

lemma cp1252_rows_ends:
  "cp1252_rows_1 \<noteq> []" "fst (hd cp1252_rows_1) = 256" "fst (last cp1252_rows_1) = 363" "cp1252_rows_2 \<noteq> []" "fst (hd cp1252_rows_2) = 364" "fst (last cp1252_rows_2) = 956" "cp1252_rows_3 \<noteq> []" "fst (hd cp1252_rows_3) = 960" "fst (last cp1252_rows_3) = 8745" "cp1252_rows_4 \<noteq> []" "fst (hd cp1252_rows_4) = 8758" "fst (last cp1252_rows_4) = 65305" "cp1252_rows_5 \<noteq> []" "fst (hd cp1252_rows_5) = 65306" "fst (last cp1252_rows_5) = 65374"
  by (simp_all add: cp1252_rows_1_def cp1252_rows_2_def cp1252_rows_3_def cp1252_rows_4_def cp1252_rows_5_def)

lemma cp1252_rows_small:
  "list_all (\<lambda>r. fst r < 65536 \<and> snd r < 256) cp1252_rows_1" "list_all (\<lambda>r. fst r < 65536 \<and> snd r < 256) cp1252_rows_2" "list_all (\<lambda>r. fst r < 65536 \<and> snd r < 256) cp1252_rows_3" "list_all (\<lambda>r. fst r < 65536 \<and> snd r < 256) cp1252_rows_4" "list_all (\<lambda>r. fst r < 65536 \<and> snd r < 256) cp1252_rows_5"
  by (simp_all add: cp1252_rows_1_def cp1252_rows_2_def cp1252_rows_3_def cp1252_rows_4_def cp1252_rows_5_def)

definition cp437_rows_fwd_1 :: "(nat \<times> nat) list" where
  "cp437_rows_fwd_1 = [
    (199, 128), (252, 129), (233, 130), (226, 131), (228, 132), (224, 133), (229, 134), (231, 135), (234, 136), (235, 137),
    (232, 138), (239, 139), (238, 140), (236, 141), (196, 142), (197, 143), (201, 144), (230, 145), (198, 146), (244, 147),
    (246, 148), (242, 149), (251, 150), (249, 151), (255, 152), (214, 153), (220, 154), (162, 155), (163, 156), (165, 157),
    (225, 160), (237, 161), (243, 162), (250, 163), (241, 164), (209, 165), (170, 166), (186, 167), (191, 168), (172, 170),
    (189, 171), (188, 172), (161, 173), (171, 174), (187, 175), (223, 225), (181, 230), (177, 241), (247, 246), (176, 248),
    (183, 250), (178, 253), (160, 255)]"

definition cp437_rows_fwd_3 :: "(nat \<times> nat) list" where
  "cp437_rows_fwd_3 = [
    (402, 159), (945, 224), (915, 226), (931, 228), (934, 232), (920, 233), (937, 234), (948, 235)]"

definition cp437_rows_fwd_4 :: "(nat \<times> nat) list" where
  "cp437_rows_fwd_4 = [
    (8359, 158), (960, 227), (963, 229), (964, 231), (966, 237), (949, 238), (8319, 252)]"

definition cp437_rows_fwd_5 :: "(nat \<times> nat) list" where
  "cp437_rows_fwd_5 = [
    (8976, 169), (9617, 176), (9618, 177), (9619, 178), (9474, 179), (9508, 180), (9569, 181), (9570, 182), (9558, 183),
    (9557, 184), (9571, 185), (9553, 186), (9559, 187), (9565, 188), (9564, 189), (9563, 190), (9488, 191), (9492, 192),
    (9524, 193), (9516, 194), (9500, 195), (9472, 196), (9532, 197), (9566, 198), (9567, 199), (9562, 200), (9556, 201),
    (9577, 202), (9574, 203), (9568, 204), (9552, 205), (9580, 206), (9575, 207), (9576, 208), (9572, 209), (9573, 210),
    (9561, 211), (9560, 212), (9554, 213), (9555, 214), (9579, 215), (9578, 216), (9496, 217), (9484, 218), (9608, 219),
    (9604, 220), (9612, 221), (9616, 222), (9600, 223), (8734, 236), (8745, 239), (8801, 240), (8805, 242), (8804, 243),
    (8992, 244), (8993, 245), (8776, 247), (8729, 249), (8730, 251), (9632, 254)]"

lemma cp437_rows_in:
  "set cp437_rows_fwd_1 \<subseteq> set cp437_rows_1" "set cp437_rows_fwd_3 \<subseteq> set cp437_rows_3" "set cp437_rows_fwd_4 \<subseteq> set cp437_rows_4" "set cp437_rows_fwd_5 \<subseteq> set cp437_rows_5"
  by (simp_all add: cp437_rows_fwd_1_def cp437_rows_1_def cp437_rows_fwd_3_def cp437_rows_3_def cp437_rows_fwd_4_def cp437_rows_4_def cp437_rows_fwd_5_def cp437_rows_5_def)

lemma cp437_rows_sorted:
  "successively (<) (map fst cp437_rows_1)" "successively (<) (map fst cp437_rows_2)" "successively (<) (map fst cp437_rows_3)" "successively (<) (map fst cp437_rows_4)" "successively (<) (map fst cp437_rows_5)" "successively (<) (map fst cp437_rows_6)"
  by (simp_all add: cp437_rows_1_def cp437_rows_2_def cp437_rows_3_def cp437_rows_4_def cp437_rows_5_def cp437_rows_6_def)

lemma cp437_rows_ends:
  "cp437_rows_1 \<noteq> []" "fst (hd cp437_rows_1) = 160" "fst (last cp437_rows_1) = 259" "cp437_rows_2 \<noteq> []" "fst (hd cp437_rows_2) = 260" "fst (last cp437_rows_2) = 367" "cp437_rows_3 \<noteq> []" "fst (hd cp437_rows_3) = 368" "fst (last cp437_rows_3) = 948" "cp437_rows_4 \<noteq> []" "fst (hd cp437_rows_4) = 949" "fst (last cp437_rows_4) = 8721" "cp437_rows_5 \<noteq> []" "fst (hd cp437_rows_5) = 8722" "fst (last cp437_rows_5) = 12295" "cp437_rows_6 \<noteq> []" "fst (hd cp437_rows_6) = 12296" "fst (last cp437_rows_6) = 65374"
  by (simp_all add: cp437_rows_1_def cp437_rows_2_def cp437_rows_3_def cp437_rows_4_def cp437_rows_5_def cp437_rows_6_def)

lemma cp437_rows_small:
  "list_all (\<lambda>r. fst r < 65536 \<and> snd r < 256) cp437_rows_1" "list_all (\<lambda>r. fst r < 65536 \<and> snd r < 256) cp437_rows_2" "list_all (\<lambda>r. fst r < 65536 \<and> snd r < 256) cp437_rows_3" "list_all (\<lambda>r. fst r < 65536 \<and> snd r < 256) cp437_rows_4" "list_all (\<lambda>r. fst r < 65536 \<and> snd r < 256) cp437_rows_5" "list_all (\<lambda>r. fst r < 65536 \<and> snd r < 256) cp437_rows_6"
  by (simp_all add: cp437_rows_1_def cp437_rows_2_def cp437_rows_3_def cp437_rows_4_def cp437_rows_5_def cp437_rows_6_def)

lemma cp1252_high: "list_all (\<lambda>(n, c). (c, n) \<in> set (cp1252_gap @ cp1252_rows_fwd_1 @ cp1252_rows_fwd_2 @ cp1252_rows_fwd_3)) (enumerate 128 (map unat ansi_hi))"
  by (simp add: ansi_hi_def cp1252_rows_fwd_1_def cp1252_rows_fwd_2_def cp1252_rows_fwd_3_def cp1252_gap_def)

lemma cp437_low: "take 128 cp437_row = [0..<128]" "length cp437_row = 256"
  by (simp_all add: cp437_row_def upt_conv_Cons)

lemma cp437_high: "list_all (\<lambda>(n, c). (c, n) \<in> set (cp437_rows_fwd_1 @ cp437_rows_fwd_3 @ cp437_rows_fwd_4 @ cp437_rows_fwd_5)) (enumerate 128 (drop 128 cp437_row))"
  by (simp add: cp437_row_def cp437_rows_fwd_1_def cp437_rows_fwd_3_def cp437_rows_fwd_4_def cp437_rows_fwd_5_def)

lemma same_facts: "(n, n) \<in> set (same a b) \<longleftrightarrow> a \<le> n \<and> n < b" "map fst (same a b) = [a..<b]"
  by (auto simp: same_def comp_def)

lemma upt_successive: "successively (<) [a..<b :: nat]"
  by (simp add: successively_conv_sorted_wrt [OF transp_on_less] sorted_wrt_upt)

lemma joined_rows:
  "successively (<) (map fst xs) \<Longrightarrow> successively (<) (map fst ys) \<Longrightarrow> xs \<noteq> [] \<Longrightarrow> ys \<noteq> [] \<Longrightarrow> fst (last xs) < fst (hd ys) \<Longrightarrow>
    successively (<) (map fst (xs @ ys))"
  for xs ys :: "(nat \<times> nat) list"
  by (simp add: successively_append_iff last_map hd_map)

definition rows_ok :: "(nat \<times> nat) list \<Rightarrow> bool" where
  "rows_ok rows \<longleftrightarrow> sorted_wrt (<) (map fst rows) \<and> (\<forall>r\<in>set rows. fst r < 65536 \<and> snd r < 256)"

lemma rev_tab_sorted:
  assumes "rows_ok rows"
  shows "sorted_wrt (<) (map fst (rev_tab rows))"
proof -
  have "sorted_wrt (\<lambda>a b. (of_nat (fst a) :: u16) < of_nat (fst b)) rows"
    using assms unfolding rows_ok_def sorted_wrt_map
    by (elim conjE sorted_wrt_mono_rel [rotated]) (auto simp: word_less_nat_alt unat_of_nat)
  then show ?thesis by (simp add: rev_tab_def sorted_wrt_map case_prod_beta)
qed

lemma rev_tab_mem: "(c, unat b) \<in> set rows \<Longrightarrow> (of_nat c, b) \<in> set (rev_tab rows)"
  by (force simp: rev_tab_def)

lemma rows_okI: "successively (<) (map fst rows) \<Longrightarrow> list_all (\<lambda>r. fst r < 65536 \<and> snd r < 256) rows \<Longrightarrow> rows_ok rows"
  by (auto simp: rows_ok_def successively_conv_sorted_wrt [OF transp_on_less] list_all_iff)

lemma same_successive: "successively (<) (map fst (same a b))"
  by (simp only: same_facts upt_successive)

lemma same_ends: "a < b \<Longrightarrow> fst (hd (same a b)) = a" "a < b \<Longrightarrow> fst (last (same a b)) = b - 1" "a < b \<Longrightarrow> same a b \<noteq> []"
  by (simp_all add: same_def hd_map last_map)

lemma same_small: "b \<le> 256 \<Longrightarrow> list_all (\<lambda>r. fst r < 65536 \<and> snd r < 256) (same a b)"
  by (auto simp: same_def list_all_iff)

lemma cp437_rows_ok: "rows_ok cp437_rows"
proof (rule rows_okI)
  show "successively (<) (map fst cp437_rows)" unfolding cp437_rows_def
    by (intro joined_rows cp437_rows_sorted same_successive) (simp_all add: cp437_rows_ends same_ends)
  show "list_all (\<lambda>r. fst r < 65536 \<and> snd r < 256) cp437_rows" unfolding cp437_rows_def list_all_append
    using cp437_rows_small same_small [of 128 0] by simp
qed

lemma cp1252_rows_ok: "rows_ok cp1252_rows"
proof (rule rows_okI)
  have gap: "successively (<) (map fst cp1252_gap)" "cp1252_gap \<noteq> []" "fst (hd cp1252_gap) = 129" "fst (last cp1252_gap) = 157"
      "list_all (\<lambda>r. fst r < 65536 \<and> snd r < 256) cp1252_gap"
    by (simp_all add: cp1252_gap_def)
  show "successively (<) (map fst cp1252_rows)" unfolding cp1252_rows_def
    by (intro joined_rows cp1252_rows_sorted same_successive gap) (simp_all add: cp1252_rows_ends same_ends gap)
  show "list_all (\<lambda>r. fst r < 65536 \<and> snd r < 256) cp1252_rows" unfolding cp1252_rows_def list_all_append
    using cp1252_rows_small same_small [of 128 0] same_small [of 256 160] gap by simp
qed

lemma cp437_back: "n < 256 \<Longrightarrow> (cp437_row ! n, n) \<in> set cp437_rows"
proof (cases "n < 128")
  case True
  then have "cp437_row ! n = n" using nth_take [of n 128 cp437_row] by (simp add: cp437_low)
  then show ?thesis using True by (simp add: cp437_rows_def same_facts)
next
  case False
  assume n: "n < 256"
  have "(n, cp437_row ! n) \<in> set (enumerate 128 (drop 128 cp437_row))"
    using False n cp437_low(2) by (auto simp: in_set_enumerate_eq intro!: exI [of _ "n - 128"])
  then have "(cp437_row ! n, n) \<in> set (cp437_rows_fwd_1 @ cp437_rows_fwd_3 @ cp437_rows_fwd_4 @ cp437_rows_fwd_5)" using cp437_high by (auto simp: list_all_iff simp del: set_append)
  then show ?thesis using cp437_rows_in unfolding cp437_rows_def by auto
qed

lemma hi_length: "length ansi_hi = 32"
  by (simp add: ansi_hi_def)

lemma cp1252_back: "k < 32 \<Longrightarrow> (unat (ansi_hi ! k), 128 + k) \<in> set cp1252_rows"
proof -
  assume k: "k < 32"
  have "(128 + k, unat (ansi_hi ! k)) \<in> set (enumerate 128 (map unat ansi_hi))"
    using k hi_length by (simp add: in_set_enumerate_eq)
  then have "(unat (ansi_hi ! k), 128 + k) \<in> set (cp1252_gap @ cp1252_rows_fwd_1 @ cp1252_rows_fwd_2 @ cp1252_rows_fwd_3)"
    using cp1252_high by (auto simp: list_all_iff simp del: set_append)
  then show ?thesis using cp1252_rows_in unfolding cp1252_rows_def by auto
qed

section \<open>What a code page promises\<close>

locale code_page =
  fixes tab :: "(u16 \<times> u8) list" and fwd :: "u8 \<Rightarrow> u16"
  assumes tab_sorted: "sorted_wrt (<) (map fst tab)"
    and tab_fwd: "(fwd b, b) \<in> set tab"
begin

lemma tab_distinct: "distinct (map fst tab)"
  using tab_sorted by (simp add: strict_sorted_iff)

lemma tab_less: "i < j \<Longrightarrow> j < length tab \<Longrightarrow> fst (tab ! i) < fst (tab ! j)"
  using sorted_wrt_nth_less [OF tab_sorted, of i j] by simp

lemma search_between:
  "0 \<le> lo \<Longrightarrow> hi < int (length tab) \<Longrightarrow> (\<And>i. i < length tab \<Longrightarrow> int i < lo \<Longrightarrow> fst (tab ! i) < cp) \<Longrightarrow>
    (\<And>i. i < length tab \<Longrightarrow> hi < int i \<Longrightarrow> cp < fst (tab ! i)) \<Longrightarrow> rev_search tab cp lo hi = map_of tab cp"
proof (induction "nat (hi - lo + 1)" arbitrary: lo hi rule: less_induct)
  case less
  show ?case
  proof (cases "lo \<le> hi")
    case True
    define m where "m = (lo + hi) div 2"
    have m: "lo \<le> m" "m \<le> hi" using True by (auto simp: m_def)
    then have n: "nat m < length tab" "int (nat m) = m" using less.prems by linarith+
    have step: "rev_search tab cp lo hi = (if fst (tab ! nat m) = cp then Some (snd (tab ! nat m))
        else if fst (tab ! nat m) < cp then rev_search tab cp (m + 1) hi else rev_search tab cp lo (m - 1))"
      using True by (subst rev_search.simps) (simp add: Let_def m_def)
    consider "fst (tab ! nat m) = cp" | "fst (tab ! nat m) < cp" | "cp < fst (tab ! nat m)" by fastforce
    then show ?thesis
    proof cases
      case 1
      then show ?thesis using step map_of_is_SomeI [OF tab_distinct, of cp "snd (tab ! nat m)"] nth_mem [OF n(1)] by (metis prod.collapse)
    next
      case 2
      have "fst (tab ! i) < cp" if "i < length tab" "int i < m + 1" for i
        using 2 tab_less [of i "nat m"] n that by (cases "i = nat m") auto
      moreover have "rev_search tab cp lo hi = rev_search tab cp (m + 1) hi" using 2 step by auto
      ultimately show ?thesis using less.hyps [of hi "m + 1"] less.prems m by simp
    next
      case 3
      have "cp < fst (tab ! i)" if "i < length tab" "m - 1 < int i" for i
        using 3 tab_less [of "nat m" i] n that by (cases "i = nat m") auto
      moreover have "rev_search tab cp lo hi = rev_search tab cp lo (m - 1)" using 3 step by auto
      ultimately show ?thesis using less.hyps [of "m - 1" lo] less.prems m by simp
    qed
  next
    case False
    have "cp \<noteq> fst (tab ! i)" if "i < length tab" for i using less.prems(3,4) [OF that] False by fastforce
    then have "cp \<notin> fst ` set tab" by (metis imageE in_set_conv_nth)
    then show ?thesis using False map_of_eq_None_iff [of tab cp] by (subst rev_search.simps) simp
  qed
qed

lemma search_exact: "rev_search tab cp 0 (int (length tab) - 1) = map_of tab cp"
  by (rule search_between) auto

lemma search_fwd: "rev_search tab (fwd b) 0 (int (length tab) - 1) = Some b"
  using tab_fwd map_of_is_SomeI [OF tab_distinct] by (simp add: search_exact)

end

text \<open>The two pages.\<close>

lemma ucast_down_up: "(ucast (ucast (x :: u16) :: u32) :: u16) = x"
  by (rule bit_word_eqI) (auto simp: bit_simps)

lemma ucast_up_up: "(ucast (ucast (b :: u8) :: u32) :: u16) = ucast b"
  by (rule bit_word_eqI) (auto simp: bit_simps)

lemma cp1252_fwd: "(ucast (u32_ansi_cp b), b) \<in> set aret_cp1252_rev_tab"
proof (cases "0x80 \<le> b \<and> b \<le> 0x9F")
  case True
  define k where "k = unat (b - 0x80)"
  have u: "128 \<le> unat b" "unat b \<le> 159" using True by (simp_all add: word_le_nat_alt)
  then have k: "k < 32" "128 + k = unat b" using True by (simp_all add: k_def unat_sub)
  have "(ucast (u32_ansi_cp b) :: u16) = of_nat (unat (ansi_hi ! k))" using True by (simp add: u32_ansi_cp_def k_def ucast_down_up)
  then show ?thesis using rev_tab_mem [of "unat (ansi_hi ! k)" b] cp1252_back [OF k(1)] k(2) by (simp add: aret_cp1252_rev_tab_def)
next
  case False
  have "unat b < 128 \<or> 160 \<le> unat b" "unat b < 256" using False unsigned_less [of b, where 'a = nat] by (auto simp: word_le_nat_alt)
  then have "(unat b, unat b) \<in> set cp1252_rows" by (auto simp: cp1252_rows_def same_facts)
  moreover have "(ucast (u32_ansi_cp b) :: u16) = of_nat (unat b)" using False by (auto simp: u32_ansi_cp_def ucast_up_up)
  ultimately show ?thesis using rev_tab_mem [of "unat b" b] by (simp add: aret_cp1252_rev_tab_def)
qed

lemma cp437_fwd: "(aret_cp437_fwd ! unat b, b) \<in> set aret_cp437_rev_tab"
  using rev_tab_mem [OF cp437_back, of b] unsigned_less [of b, where 'a = nat] by (simp add: aret_cp437_rev_tab_def aret_cp437_fwd_def cp437_low)

interpretation cp1252: code_page aret_cp1252_rev_tab "\<lambda>b. ucast (u32_ansi_cp b)"
  using rev_tab_sorted [OF cp1252_rows_ok] cp1252_fwd by unfold_locales (simp_all only: aret_cp1252_rev_tab_def)

interpretation cp437: code_page aret_cp437_rev_tab "\<lambda>b. aret_cp437_fwd ! unat b"
  using rev_tab_sorted [OF cp437_rows_ok] cp437_fwd by unfold_locales (simp_all only: aret_cp437_rev_tab_def)

section \<open>The loops\<close>

definition ranges_apart :: "u32 \<Rightarrow> nat \<Rightarrow> u32 \<Rightarrow> nat \<Rightarrow> bool" where
  "ranges_apart a n b k \<longleftrightarrow> (\<forall>i<n. \<forall>j<k. a + of_nat i \<noteq> b + of_nat j)"

lemma ranges_apartD:
  assumes "ranges_apart a n b k" "i < n" "j < k"
  shows "a + of_nat i \<noteq> b + of_nat j" "b + of_nat j \<noteq> a + of_nat i"
proof -
  show "a + of_nat i \<noteq> b + of_nat j" using assms by (simp add: ranges_apart_def)
  then show "b + of_nat j \<noteq> a + of_nat i" by (rule not_sym)
qed

lemma to_wc_Suc: "to_wc f dst src (Suc n) m = (let m' = to_wc f dst src n m in st16 m' (dst + 2 * of_nat n) (f (m' (src + of_nat n))))"
  by (simp add: to_wc_def Let_def)

lemma unit_bytes: "(dst :: u32) + 2 * of_nat i = dst + of_nat (2 * i)" "dst + 2 * of_nat i + 1 = dst + of_nat (2 * i + 1)"
  by (simp_all add: add.assoc)

lemma to_wc_other: "(\<And>j. j < 2 * n \<Longrightarrow> x \<noteq> dst + of_nat j) \<Longrightarrow> to_wc f dst src n m x = m x"
proof (induction n)
  case (Suc n)
  have "x \<noteq> dst + 2 * of_nat n" unfolding unit_bytes(1) by (rule Suc.prems) simp
  moreover have "x \<noteq> dst + 2 * of_nat n + 1" unfolding unit_bytes(2) by (rule Suc.prems) simp
  ultimately show ?case using Suc by (simp add: to_wc_Suc Let_def st16_away)
qed (simp add: to_wc_def)

lemma to_wc_at:
  assumes "2 * n \<le> 2 ^ 32" "ranges_apart src n dst (2 * n)" "i < n"
  shows "ld16 (to_wc f dst src n m) (dst + 2 * of_nat i) = f (m (src + of_nat i))"
  using assms
proof (induction n)
  case (Suc n)
  let ?m = "to_wc f dst src n m"
  have apart: "ranges_apart src n dst (2 * n)" using Suc.prems(2) by (simp add: ranges_apart_def)
  have other: "?m (src + of_nat n) = m (src + of_nat n)" using Suc.prems(2) by (intro to_wc_other) (simp add: ranges_apart_def)
  show ?case
  proof (cases "i = n")
    case False
    then have "i < n" using Suc.prems(3) by simp
    have kept: "st16 ?m (dst + 2 * of_nat n) v (dst + of_nat j) = ?m (dst + of_nat j)" if "j < 2 * n" for v j
    proof (rule st16_away)
      show "dst + of_nat j \<noteq> dst + 2 * of_nat n" unfolding unit_bytes(1) by (rule offset_neq) (use that Suc.prems(1) in simp_all)
      show "dst + of_nat j \<noteq> dst + 2 * of_nat n + 1" unfolding unit_bytes(2) by (rule offset_neq) (use that Suc.prems(1) in simp_all)
    qed
    have "ld16 (st16 ?m (dst + 2 * of_nat n) v) (dst + 2 * of_nat i) = ld16 ?m (dst + 2 * of_nat i)" for v
      using \<open>i < n\<close> kept [of "2 * i" v] kept [of "2 * i + 1" v] by (intro ld16_agree) (simp_all add: add.assoc add.commute [of 1])
    then show ?thesis using Suc.IH [OF _ apart \<open>i < n\<close>] Suc.prems(1) by (simp add: to_wc_Suc Let_def)
  qed (simp add: to_wc_Suc Let_def other)
qed simp

lemma from_wc_Suc: "from_wc f dst src (Suc n) m = (case from_wc f dst src n m of (m', used) \<Rightarrow>
    case f (ld16 m' (src + 2 * of_nat n)) of None \<Rightarrow> (m'(dst + of_nat n := 0x3F), True) | Some b \<Rightarrow> (m'(dst + of_nat n := b), used))"
  by (simp add: from_wc_def)

lemma from_wc_other: "(\<And>j. j < n \<Longrightarrow> x \<noteq> dst + of_nat j) \<Longrightarrow> fst (from_wc f dst src n m) x = m x"
proof (induction n)
  case (Suc n)
  then show ?case using Suc.prems [of n] by (cases "from_wc f dst src n m") (auto simp: from_wc_Suc split: option.splits)
qed (simp add: from_wc_def)

lemma from_wc_all:
  assumes "n \<le> 2 ^ 32" "ranges_apart dst n src (2 * n)" "\<forall>i<n. f (ld16 m (src + 2 * of_nat i)) = Some (g i)"
  shows "\<not> snd (from_wc f dst src n m) \<and> (\<forall>i<n. fst (from_wc f dst src n m) (dst + of_nat i) = g i)"
  using assms
proof (induction n)
  case (Suc n)
  obtain m' u where r: "from_wc f dst src n m = (m', u)" by (cases "from_wc f dst src n m")
  have "ranges_apart dst n src (2 * n)" using Suc.prems(2) by (simp add: ranges_apart_def)
  then have ih: "\<not> u" "\<forall>i<n. m' (dst + of_nat i) = g i" using Suc.IH Suc.prems(1,3) r by simp_all
  have kept: "m' (src + of_nat j) = m (src + of_nat j)" if "j < 2 * Suc n" for j
    using from_wc_other [of n "src + of_nat j" dst f src m, OF ranges_apartD(2) [OF Suc.prems(2) less_SucI that]] r by simp
  have "ld16 m' (src + 2 * of_nat n) = ld16 m (src + 2 * of_nat n)"
    using kept [of "2 * n"] kept [of "2 * n + 1"] by (intro ld16_agree) (simp_all add: add.assoc add.commute [of 1])
  then have "f (ld16 m' (src + 2 * of_nat n)) = Some (g n)" using Suc.prems(3) by simp
  then have s: "from_wc f dst src (Suc n) m = (m'(dst + of_nat n := g n), u)" by (simp add: from_wc_Suc r)
  have "dst + of_nat i \<noteq> dst + of_nat n" if "i < n" for i using offset_neq [of i n dst] that Suc.prems(1) by simp
  then show ?case using ih by (auto simp: s less_Suc_eq)
qed (simp add: from_wc_def)

section \<open>There and back\<close>

text \<open>The forward and the backward map that the two functions choose for a page number.\<close>

definition page_fwd :: "u32 \<Rightarrow> u8 \<Rightarrow> u16" where
  "page_fwd cp = (if cp = 0 \<or> cp = 1252 then (\<lambda>b. ucast (u32_ansi_cp b)) else if cp = 1 \<or> cp = 437 then (\<lambda>b. aret_cp437_fwd ! unat b) else ucast)"

definition page_rev :: "u32 \<Rightarrow> u16 \<Rightarrow> u8 option" where
  "page_rev cp = (if cp = 0 \<or> cp = 1252 then aret_cp1252_rev_byte else if cp = 1 \<or> cp = 437 then aret_cp437_rev_byte else (\<lambda>c. Some (ucast c)))"

lemma page_inverse: "page_rev cp (page_fwd cp b) = Some b"
proof -
  have "(ucast (ucast b :: u16) :: u8) = b" by (rule bit_word_eqI) (auto simp: bit_simps)
  then show ?thesis using cp1252.search_fwd [of b] cp437.search_fwd [of b]
    by (simp add: page_rev_def page_fwd_def aret_cp1252_rev_byte_def aret_cp437_rev_byte_def)
qed

lemma WI_small: "WU esp i s = of_nat n \<Longrightarrow> n < 2 ^ 31 \<Longrightarrow> WI esp i s = int n"
  by (simp add: WI_def signed_of_nat signed_take_bit_int_eq_self)

lemma multibyte_mem:
  assumes "WU esp 0 s = cp" "WU esp 2 s = src" "WU esp 3 s = of_nat n" "WU esp 4 s = dst" "WU esp 5 s = of_nat n"
    and "src \<noteq> 0" "dst \<noteq> 0" "0 < n" "n < 2 ^ 31"
  shows "mem (snd (aret_MultiByteToWideChar esp s)) = to_wc (page_fwd cp) dst src n (mem s)"
  using assms WI_small [OF assms(3,9)] WI_small [OF assms(5,9)]
  by (simp add: aret_MultiByteToWideChar_def Let_def page_fwd_def aret_cp1252_to_wc_def aret_cp437_to_wc_def)

lemma widechar_mem:
  assumes "WU esp 0 s = cp" "WU esp 2 s = src" "WU esp 3 s = of_nat n" "WU esp 4 s = dst" "WU esp 5 s = of_nat n"
    and "src \<noteq> 0" "dst \<noteq> 0" "0 < n" "n < 2 ^ 31"
    and "from_wc (page_rev cp) dst src n (mem s) = (m, False)" "WU esp 7 (s\<lparr>mem := m\<rparr>) = pu"
  shows "mem (snd (aret_WideCharToMultiByte esp s)) = (if cp \<in> {0, 1, 437, 1252} \<and> pu \<noteq> 0 then st32 m pu 0 else m)"
  using assms WI_small [OF assms(3,9)] WI_small [OF assms(5,9)]
  by (auto simp: aret_WideCharToMultiByte_def Let_def page_rev_def aret_cp1252_from_wc_def aret_cp437_from_wc_def put32_def split: if_splits)

lemma args_away: "ranges_apart e (4 * length vs) p n \<Longrightarrow> i < n \<Longrightarrow> mem (push_args e vs s) (p + of_nat i) = mem s (p + of_nat i)"
  by (rule push_args_other) (rule ranges_apartD(2))

text \<open>
  C11: text of any code page, converted to wide characters and back, is unchanged, for all 256 byte values and whether the page
  is the ANSI page, the OEM page or one of those widened byte by byte; no default character is reported. The buffers and
  the arguments must not overlap.
\<close>
theorem code_page_roundtrip:
  fixes s :: "'a hle_scheme"
  assumes "src \<noteq> 0" "dst \<noteq> 0" "out \<noteq> 0" "0 < n" "n < 2 ^ 31"
    and "ranges_apart src n dst (2 * n)" "ranges_apart e 24 src n"
    and "ranges_apart e' 32 dst (2 * n)" "ranges_apart e' 32 out n" "ranges_apart out n dst (2 * n)" "pu = 0 \<or> ranges_apart pu 4 out n"
    and s1: "s1 = snd (aret_MultiByteToWideChar e (push_args e [cp, f, src, of_nat n, dst, of_nat n] s))"
    and s2: "s2 = snd (aret_WideCharToMultiByte e' (push_args e' [cp, f', dst, of_nat n, out, of_nat n, 0, pu] s1))"
  shows "ld_bytes (mem s2) out n = ld_bytes (mem s) src n \<and> (cp \<in> {0, 1, 437, 1252} \<and> pu \<noteq> 0 \<longrightarrow> ld32 (mem s2) pu = 0)"
proof -
  let ?p = "push_args e [cp, f, src, of_nat n, dst, of_nat n] s" and ?q = "push_args e' [cp, f', dst, of_nat n, out, of_nat n, 0, pu] s1"
  let ?g = "\<lambda>i. mem s (src + of_nat i)"
  have 1: "mem s1 = to_wc (page_fwd cp) dst src n (mem ?p)"
    unfolding s1 by (rule multibyte_mem) (use assms(1-5) in simp_all)
  have w: "ld16 (mem s1) (dst + 2 * of_nat i) = page_fwd cp (?g i)" if "i < n" for i
    using to_wc_at [OF _ assms(6) that, of "page_fwd cp" "mem ?p"] args_away [of e "[cp, f, src, of_nat n, dst, of_nat n]" src n i s] assms(5,7) that
    by (simp add: 1)
  have "ld16 (mem ?q) (dst + 2 * of_nat i) = ld16 (mem s1) (dst + 2 * of_nat i)" if "i < n" for i
    using args_away [of e' "[cp, f', dst, of_nat n, out, of_nat n, 0, pu]" dst "2 * n" "2 * i" s1]
      args_away [of e' "[cp, f', dst, of_nat n, out, of_nat n, 0, pu]" dst "2 * n" "2 * i + 1" s1] assms(8) that
    by (intro ld16_agree) (simp_all add: add.assoc add.commute [of 1])
  then have "\<forall>i<n. page_rev cp (ld16 (mem ?q) (dst + 2 * of_nat i)) = Some (?g i)" using w page_inverse by simp
  note all = from_wc_all [OF _ assms(10) this]
  obtain m where m: "from_wc (page_rev cp) out dst n (mem ?q) = (m, False)" "\<forall>i<n. m (out + of_nat i) = ?g i"
    using all assms(5) by (cases "from_wc (page_rev cp) out dst n (mem ?q)") auto
  have "m (e' + 28 + of_nat k) = mem ?q (e' + 28 + of_nat k)" if "k < 4" for k
  proof -
    have "e' + 28 + of_nat k \<noteq> out + of_nat i" if "i < n" for i
      using assms(9) \<open>k < 4\<close> that unfolding ranges_apart_def by (drule_tac spec [of _ "28 + k"]) (simp add: add.assoc)
    then show ?thesis using from_wc_other [of n "e' + 28 + of_nat k" out "page_rev cp" dst "mem ?q"] m(1) by simp
  qed
  then have "WU e' 7 (?q\<lparr>mem := m\<rparr>) = WU e' 7 ?q" unfolding WU_def by (intro ld32_cong) simp
  then have 2: "mem s2 = (if cp \<in> {0, 1, 437, 1252} \<and> pu \<noteq> 0 then st32 m pu 0 else m)"
    unfolding s2 by (intro widechar_mem) (use assms(2-5) m(1) in simp_all)
  have "mem s2 (out + of_nat i) = ?g i" if "i < n" for i
  proof (cases "pu = 0")
    case False
    have "st32 m pu 0 (out + of_nat i) = m (out + of_nat i)" using assms(11) False by (intro st32_at ranges_apartD(2) [OF _ _ that]) auto
    then show ?thesis using m(2) that by (simp add: 2)
  qed (use m(2) that in \<open>simp add: 2\<close>)
  then show ?thesis using 2 by (auto intro!: nth_equalityI simp: ld_bytes_nth)
qed

text \<open>The Euro sign, byte 0x80 of the ANSI page.\<close>

theorem code_page_roundtrip_witness:
  "\<exists>s1 s2 :: hle. s1 = snd (aret_MultiByteToWideChar 0x100 (push_args 0x100 [0, 0, 0x1000, 1, 0x2000, 1] \<lparr>mem = (\<lambda>_. 0)(0x1000 := 0x80), g_last_error = 0\<rparr>)) \<and>
    s2 = snd (aret_WideCharToMultiByte 0x200 (push_args 0x200 [0, 0, 0x2000, 1, 0x3000, 1, 0, 0x4000] s1)) \<and> mem s2 0x3000 = 0x80 \<and> ld32 (mem s2) 0x4000 = 0"
proof -
  let ?s = "\<lparr>mem = (\<lambda>_. 0)(0x1000 := 0x80), g_last_error = 0\<rparr> :: hle"
  have r: "ranges_apart a n b k" if "unat a + n \<le> unat b \<or> unat b + k \<le> unat a" "unat a + n < 2 ^ 32" "unat b + k < 2 ^ 32" for a b :: u32 and n k
    using that by (auto simp: ranges_apart_def word_unat_eq_iff unat_plus_if_size unat_of_nat word_size)
  show ?thesis
    using code_page_roundtrip [of "0x1000" "0x2000" "0x3000" 1 "0x100" "0x200" "0x4000" _ 0 0 ?s _ 0, OF _ _ _ _ _ r r r r r disjI2 [OF r] refl refl]
    by (simp add: ld_bytes.simps)
qed

end
