(* ===== verification/Spec2Isabelle.thy ===== *)
theory Spec2Isabelle
  imports Aret_Atoms Aret_Thread_Theorems Aret_Registry_Theorems Aret_Gdi_Theorems Aret_Ini_Theorems Aret_Lz_Theorems
    Aret_Menus Aret_Shstr Aret_Stores Aret_Dialogs_Theorems Aret_Com_Theorems Aret_Exceptions_Theorems Aret_Cmdline Aret_Collate Aret_System Aret_Codepage
begin

text \<open>
  The C runtime of the reverse-engineering toolkit.

  The toolkit lifts 32-bit Windows programs to C and links the result with a runtime that answers their
  imports, one shim per imported function, under \<^verbatim>\<open>src/runtime/aret_hle/\<close>: \<^verbatim>\<open>aret_win32.c\<close> (KERNEL32, USER32,
  GDI32, ADVAPI32, SHLWAPI, ...), \<^verbatim>\<open>aret_hle.c\<close> (files, profiles, process plumbing) and \<^verbatim>\<open>aret_crt.c\<close> (the C
  library). A shim \<^verbatim>\<open>aret_X(uint32_t esp)\<close> reads its arguments from the guest stack at \<^verbatim>\<open>esp\<close>, works on guest
  memory and on static tables, and returns a 32-bit result. The development models these shims and proves
  what they promise to a lifted program.

  \<^bold>\<open>How the model corresponds to the code.\<close> The state of a component is a record that extends \<open>hle\<close> (guest
  memory as a function from 32-bit addresses to bytes, and the last error) by the component's static tables;
  a table is a list of records with the fields of the C struct, a slot that is not used keeps its old contents.
  The tables of the window manager are written with \<open>arr_set\<close>, which makes the list longer when the index is out of
  bounds, so that their constant lengths say that no store leaves its array.
  \<open>aret_X esp s\<close> is the result and the new state; \<open>WU esp i s\<close> and \<open>WI esp i s\<close> are the argument macros of the
  source. Helper functions keep their C names. Machine integers are words; where the code computes in \<^verbatim>\<open>int\<close> or
  \<^verbatim>\<open>long\<close>, values are integers cut to 32 bits by \<open>c_int\<close>, because the runtime is compiled for a 32-bit
  target. A pointer that may be NULL is 0, a lookup that returns -1 is an option. Code outside the repository
  enters as parameters: the result of \<^verbatim>\<open>malloc\<close>, a new file descriptor, \<^verbatim>\<open>poll\<close>, the path prefix of the
  environment. A call that would leave a buffer or read through NULL has the result None.

  \<^bold>\<open>The parts.\<close>
  \<^item> \<open>Aret_Prelude\<close>: words, guest memory, strings in memory, the argument macros, the last error; the locale of
    handle spaces (a base that tags handles and an index into a table), which every table of handles interprets.
  \<^item> \<open>Aret_Atoms\<close>: the local and the global atom table (\<^verbatim>\<open>aret_win32.c\<close> 12435 on) with their reference counts;
    the table implements a counted set of names, its operations keep it well formed.
  \<^item> \<open>Aret_Sync\<close>, \<open>Aret_Fibers\<close>: critical sections, reader/writer locks, condition variables, events, mutexes
    and semaphores; fibers, the blocking calls, the thread pool and the cooperative scheduler with its virtual
    clock (2234 on). A blocking call is split at its switch to the scheduler: the part before it leaves a
    pending request in the fiber, the part after it is the resume step.
    \<open>Aret_Scheduler\<close> and \<open>Aret_Machine\<close> hold the lemmas on one pass of the scheduler and the step relation of
    the whole machine; \<open>Aret_Thread_Theorems\<close> the invariant of the reachable states, mutual exclusion, the
    exactness of deadlock reports, a bound on how often a ready fiber is passed over in any run, and the behaviour of the single objects.
  \<^item> \<open>Aret_Registry\<close>, \<open>Aret_Registry_Theorems\<close>: the in-memory registry behind the \<^verbatim>\<open>Reg*\<close> and \<^verbatim>\<open>NtKey\<close> calls (253
    on): the key table is a forest, operations keep it one, deletion removes exactly a subtree, what is written
    is read back, enumeration is sorted and complete.
  \<^item> \<open>Aret_Rects\<close>: the \<^verbatim>\<open>RECT\<close> shims, on guest memory with aliased arguments.
  \<^item> \<open>Aret_Gdi\<close>, \<open>Aret_Draw\<close>, \<open>Aret_Regions\<close>, \<open>Aret_Gdi_Theorems\<close>: GDI objects and device contexts (7175 on),
    mapping modes, pixels and lines; shapes, blits, DIB transfer and palettes; regions and clips as the bounding
    rectangle and flag the code keeps. Drawing is exact on the pixels of the surface, lines are the rounded ideal
    lines, coordinate scaling rounds to nearest. The locale of a canvas states what drawing one pixel does; its
    client lemmas give the effect of loops over pixels.
  \<^item> \<open>Aret_Ini\<close>, \<open>Aret_Ini_Theorems\<close>: \<^verbatim>\<open>translate_path\<close> and the profile files of \<^verbatim>\<open>aret_hle.c\<close> (1732 on). A profile
    interprets the locale of a keyed store; deletion is exact; the rewriting buffer is large enough except with
    duplicate keys, where the copies of a long value run past it.
  \<^item> \<open>Aret_Lz\<close>, \<open>Aret_Lz_Theorems\<close>: Win16 file handles over POSIX descriptors and the LZ expansion (1491 on): the
    decompressor inverts the SZDD format for every token sequence, and reads deliver the expanded content.
  \<^item> \<open>Aret_Menus\<close>: menus (10927 on) as lists of items, with the editing calls refined to list editing.
  \<^item> \<open>Aret_Crt\<close>, \<open>Aret_Crt_Theorems\<close>: the bounded and wide string functions of \<^verbatim>\<open>aret_crt.c\<close> (839 on). Both character
    widths interpret the locale of character arrays; no bounded function leaves its destination.
  \<^item> \<open>Aret_Paths\<close>, \<open>Aret_Paths_Theorems\<close>, \<open>Aret_Shstr\<close>: the path and string functions of SHLWAPI (5237 on), which the
    source generates at both widths from macros; the record of a character type stands for the macro
    parameter. Canonicalization resolves components, stripping reaches the root, searches find the first
    occurrence.

  \<^item> \<open>Aret_Windows\<close>, \<open>Aret_Controls\<close>, \<open>Aret_Messages\<close>, \<open>Aret_Resources\<close>, \<open>Aret_Dialogs\<close>: the window manager of the
    build without a display (3812 to 7170 and 8120 to 8520): classes, the table of windows with geometry,
    styles, extra bytes, scroll bars, parents and children, properties, registered messages, hooks and the
    clipboard; the predefined controls and how they paint; the message ring, timers, \<^verbatim>\<open>GetMessage\<close>, sending and
    the default window procedures; the resource directory; window creation, dialog templates, modal and
    modeless dialogs and dialog keys. A window procedure is guest code: the record \<open>host\<close> of parameters says
    what a call of it does to the state, and gives the allocator, the clock and the text renderer.
    \<open>Aret_Windows_Theorems\<close> shows that all tables and strings stay in their bounds in every reachable state, for
    guest code that runs entry points itself, nested to any depth. \<open>Aret_Slots\<close> and \<open>Aret_Stores\<close> refine the
    property table to a bounded map and show that registered messages number names. \<open>Aret_Hierarchy\<close>: walking
    siblings, the ring of tab stops, radio buttons, scroll positions, classes read back. \<open>Aret_Messages_Theorems\<close>:
    the ring is a bounded queue, messages come in order, \<^verbatim>\<open>GetMessage\<close> returns when a timer is due and
    never when nothing can arrive. \<open>Aret_Dialogs_Theorems\<close>: numbers in dialog items are read back, a modal
    dialog ends.
  \<^item> \<open>Aret_Com\<close>, \<open>Aret_Com_Theorems\<close>: the task allocator of COM with its open-addressing table of live blocks, BSTR
    strings and packed DDE parameters (3366 to 3560). The table, through growth and deletion, is a map from
    addresses to sizes; a BSTR is read back.
  \<^item> \<open>Aret_Exceptions\<close>, \<open>Aret_Exceptions_Theorems\<close>: exception dispatch (\<^verbatim>\<open>aret_hle.c\<close> 3277 to 3296 and 3944 to 5043): vectored
    handlers, \<^verbatim>\<open>RaiseException\<close>, \<^verbatim>\<open>RtlUnwind\<close>, scope tables, Microsoft and GNU C++ frames, jump buffers, hardware
    faults. Guest code is a parameter; a call of it returns, jumps to a buffer or stops the process. Handlers are
    asked in order and the search ends on a finite chain, an unwind calls the inner handlers and leaves the target at the head of
    the chain, \<^verbatim>\<open>__finally\<close> blocks and filters run from the inside, the GNU type match is the relation of public
    bases read from the layout of the type descriptors (for at most 64 bases of a type), the table of vectored handlers is a list; the limits of the fault counter, of the slot for a caught
    exception and of the jump buffers are theorems.
  \<^item> \<open>Aret_Argv\<close>, \<open>Aret_Argv_Theorems\<close>: \<^verbatim>\<open>CommandLineToArgvW\<close> (3961 to 3994). A command line written by the inverse
    quoting is read back argument by argument, and the block that is allocated holds every result.
    \<open>Aret_Cmdline\<close>: the command line that a program is given (\<^verbatim>\<open>aret_hle.c\<close> 3612 to 3645 and 3881 to 3906). The
    parser reads back the arguments of the process, unless one holds a quote or ends in a backslash where it is quoted; the
    wide argument vector can overrun its buffer.
  \<^item> \<open>Aret_Codepage\<close>: the tables of CP1252 and CP437 and the conversions of text (\<^verbatim>\<open>aret_hle.c\<close> 3562 to 3607 and
    \<^verbatim>\<open>aret_win32.c\<close> 9931 to 9997). The binary search finds exactly the rows of a table, and text of any page comes back
    unchanged; the locale \<open>code_page\<close> is interpreted on both pages.
  \<^item> \<open>Aret_Collate\<close>: the linguistic comparison (882 to 1003). Comparing sort keys is a linear order on the texts, up
    to case when case is ignored.
  \<^item> \<open>Aret_System\<close>: interlocked operations (1080 to 1100), the calendar (1658 to 1685), file times and security
    identifiers (11548 to 11588). A packed date gives the exact number of ticks; a copied identifier equals its source.

  \<^bold>\<open>Termination and bounds.\<close> All definitions are total. Loops whose end is not structural have measures: the
  remaining input, the remaining room, or the length of the path. The scheduler's loop is iterated a number of
  times given as fuel, and a theorem shows that a bound computed from the state suffices for a decision.
  Deletion of a registry subtree recurses with the number of keys as fuel, which exceeds the depth of the forest.
  \<^verbatim>\<open>GetMessage\<close> and the modal dialog may wait forever: they take a number of rounds and answer None when it is
  used up, and the theorems say which number is enough. Walks up the chain of parents stop after as many
  steps as the code takes or the table has windows. The walks of the handler chain and of scope tables follow links that
  guest code writes and may go in circles: they are partial functions whose value is None when they do not end, and
  the theorems show that they end on a chain that does. \<^verbatim>\<open>__CxxFrameHandler3\<close> calls itself through the unwinding of
  inner frames, and the GNU type match follows bases; both take the depth as a number and answer None when it is used
  up. A depth above the rank of the type is enough for the match.
  The addresses of a string in memory are assumed not to wrap around where a theorem needs it.

  \<^bold>\<open>Not modelled.\<close> The lifter, decompiler and linker are written in Rust. The code under
  \<^verbatim>\<open>src/runtime/wine_heavy\<close> is third-party code compiled as it is. Version information, image
  lists, icons and tokens are left out. Of the window manager, what only a real
  display does is left out: the SDL event pump and the composition of child windows into it. Fonts, text output and
  presentation are FreeType and SDL; sockets, NT file calls, stdio and formatted output are wrappers over the
  host.
\<close>

end
